(* ===== verification/Prelude.thy ===== *)
theory Prelude
  imports Main "HOL-Library.Word" "HOL-Library.Multiset" "HOL-Library.Product_Lexorder"
begin

text \<open>
  Shared material of the development: the names of Go's fixed-width integers,
  first-match search in a slice, removal by index, sums over updated slices, and
  the word facts that let the component proofs reason about \<open>unat\<close> and \<open>sint\<close>
  of a value once the code has checked that it does not overflow.
\<close>

section \<open>Machine integers\<close>

type_synonym u8 = "8 word"
type_synonym u16 = "16 word"
type_synonym u32 = "32 word"
type_synonym u64 = "64 word"
type_synonym i32 = "32 word"
type_synonym i64 = "64 word"
type_synonym i16 = "16 word"

text \<open>
  Signed values are kept at their width and read with \<open>sint\<close>; \<open>i32_of\<close> is Go's
  conversion \<open>int32(x)\<close> of a wider integer.
\<close>

definition i32_of :: "int \<Rightarrow> i32" where
  "i32_of x = word_of_int x"

definition max_i32 :: int where "max_i32 = 2147483647"
definition min_i32 :: int where "min_i32 = -2147483648"

lemma sint_i32_bounds: "min_i32 \<le> sint (w :: i32)" "sint (w :: i32) \<le> max_i32"
  using sint_ge [of w] sint_lt [of w] by (simp_all add: min_i32_def max_i32_def)

lemma sint_i32_of [simp]:
  assumes "min_i32 \<le> x" and "x \<le> max_i32"
  shows "sint (i32_of x) = x"
  using assms
  by (simp add: i32_of_def signed_of_int min_i32_def max_i32_def signed_take_bit_int_eq_self)

text \<open>The largest gold amount a point-change packet can carry: \<open>uint64(1<<31 - 1)\<close>.\<close>

definition maxPointChangeCarrier :: u64 where
  "maxPointChangeCarrier = 2147483647"

lemma unat_maxPointChangeCarrier [simp]: "unat maxPointChangeCarrier = 2147483647"
  by (simp add: maxPointChangeCarrier_def)

lemma unat_add_no_wrap:
  fixes a b :: "'a :: len word"
  assumes "unat a + unat b < 2 ^ LENGTH('a)"
  shows "unat (a + b) = unat a + unat b"
  using assms by (rule unat_add_lem [THEN iffD1])

lemma unat_sub_le:
  fixes a b :: "'a :: len word"
  assumes "b \<le> a"
  shows "unat (a - b) = unat a - unat b"
  using assms by (rule unat_sub)

lemma unat_ucast_u16_u32 [simp]: "unat (ucast (x :: u16) :: u32) = unat x"
  using unsigned_less [of x, where ?'a = nat] by (simp add: unsigned_ucast_eq take_bit_nat_eq_self_iff)

lemma unat_ucast_u16_u64 [simp]: "unat (ucast (x :: u16) :: u64) = unat x"
  using unsigned_less [of x, where ?'a = nat] by (simp add: unsigned_ucast_eq take_bit_nat_eq_self_iff)

text \<open>The widened comparison \<open>uint32(a) + uint32(b) > uint32(c)\<close> of 16-bit values.\<close>

lemma ucast_u32_add_le:
  fixes a b c :: u16
  shows "(ucast a + ucast b \<le> (ucast c :: u32)) \<longleftrightarrow> unat a + unat b \<le> unat c"
proof -
  have a: "unat a < 65536" and b: "unat b < 65536"
    using unsigned_less [of a, where ?'a = nat] unsigned_less [of b, where ?'a = nat] by simp_all
  have ua: "unat (ucast x :: u32) = unat x" for x :: u16
    by (rule unat_ucast_u16_u32)
  have "unat (ucast a + ucast b :: u32) = unat a + unat b"
    using a b by (subst unat_add_no_wrap) (simp_all add: ua)
  then show ?thesis by (simp add: word_le_nat_alt ua)
qed

lemma ucast_u32_add_gt:
  fixes a b c :: u16
  shows "((ucast c :: u32) < ucast a + ucast b) \<longleftrightarrow> unat c < unat a + unat b"
  using ucast_u32_add_le [of a b c] by (simp add: not_le [symmetric])

lemma unat_u16_sum_le:
  fixes a b c :: u16
  assumes "unat a + unat b \<le> unat c"
  shows "unat (a + b) = unat a + unat b"
proof (rule unat_add_no_wrap)
  show "unat a + unat b < 2 ^ LENGTH(16)"
    using assms unsigned_less [of c, where ?'a = nat] by linarith
qed

section \<open>Search in a slice\<close>

text \<open>
  \<open>for index, item := range items { if p(item) { return index } }; return -1\<close>:
  the index of the first match, with \<open>None\<close> for Go's \<open>-1\<close>.
\<close>

fun find_index :: "('a \<Rightarrow> bool) \<Rightarrow> 'a list \<Rightarrow> nat option" where
  "find_index P [] = None"
| "find_index P (x # xs) = (if P x then Some 0 else map_option Suc (find_index P xs))"

lemma find_index_None [simp]: "find_index P xs = None \<longleftrightarrow> (\<forall>x \<in> set xs. \<not> P x)"
  by (induction xs) auto

lemma find_index_SomeD:
  "find_index P xs = Some i \<Longrightarrow> i < length xs \<and> P (xs ! i) \<and> (\<forall>j < i. \<not> P (xs ! j))"
proof (induction xs arbitrary: i)
  case Nil
  then show ?case by simp
next
  case (Cons x xs)
  show ?case
  proof (cases "P x")
    case True
    with Cons.prems show ?thesis by simp
  next
    case False
    with Cons.prems obtain k where k: "find_index P xs = Some k" and i: "i = Suc k"
      by auto
    from Cons.IH [OF k] False show ?thesis
      unfolding i by (auto simp: nth_Cons split: nat.splits)
  qed
qed

lemma find_index_Some_in: "find_index P xs = Some i \<Longrightarrow> xs ! i \<in> set xs \<and> P (xs ! i)"
  using find_index_SomeD [of P xs i] by auto

lemma find_index_cong: "(\<And>x. x \<in> set xs \<Longrightarrow> P x = Q x) \<Longrightarrow> find_index P xs = find_index Q xs"
  by (induction xs) auto

section \<open>Removal by index\<close>

definition remove_nth :: "nat \<Rightarrow> 'a list \<Rightarrow> 'a list" where
  "remove_nth i xs = take i xs @ drop (Suc i) xs"

lemma remove_nth_split:
  assumes "i < length xs"
  obtains ys zs where "xs = ys @ xs ! i # zs" and "remove_nth i xs = ys @ zs" and "length ys = i"
  using assms id_take_nth_drop [OF assms]
  by (metis length_take min.absorb4 remove_nth_def)

lemma set_remove_nth: "set (remove_nth i xs) \<subseteq> set xs"
  by (auto simp: remove_nth_def dest: in_set_takeD in_set_dropD)

lemma mset_remove_nth: "i < length xs \<Longrightarrow> mset (remove_nth i xs) = mset xs - {# xs ! i #}"
  by (erule remove_nth_split) (metis add_mset_remove_trivial mset.simps(2) mset_append union_mset_add_mset_right)

lemma map_remove_nth: "map f (remove_nth i xs) = remove_nth i (map f xs)"
  by (simp add: remove_nth_def take_map drop_map)

lemma distinct_remove_nth: "distinct xs \<Longrightarrow> distinct (remove_nth i xs)"
  by (auto simp: remove_nth_def dest: set_take_disj_set_drop_if_distinct [of xs i "Suc i"])

lemma not_in_remove_nth: "distinct xs \<Longrightarrow> i < length xs \<Longrightarrow> xs ! i \<notin> set (remove_nth i xs)"
  by (erule remove_nth_split) (metis distinct_append distinct.simps(2) Un_iff disjoint_iff list.set_intros(1) set_append)

lemma sum_list_remove_nth:
  fixes xs :: "nat list"
  assumes "i < length xs"
  shows "sum_list (remove_nth i xs) + xs ! i = sum_list xs"
proof -
  obtain ys zs where s: "xs = ys @ xs ! i # zs" and r: "remove_nth i xs = ys @ zs"
    using remove_nth_split [OF assms] by metis
  have "sum_list xs = sum_list (ys @ xs ! i # zs)" using s by simp
  with r show ?thesis by simp
qed

section \<open>Sums over updated slices\<close>

lemma sum_list_map_update:
  fixes f :: "'a \<Rightarrow> nat"
  assumes "i < length xs"
  shows "sum_list (map f (xs[i := v])) + f (xs ! i) = sum_list (map f xs) + f v"
proof -
  have "f (xs ! i) \<le> sum_list (map f xs)"
    using assms by (auto intro!: member_le_sum_list)
  with assms show ?thesis by (simp add: map_update sum_list_update)
qed

lemma sum_list_map_remove_nth:
  fixes f :: "'a \<Rightarrow> nat"
  assumes "i < length xs"
  shows "sum_list (map f (remove_nth i xs)) + f (xs ! i) = sum_list (map f xs)"
  using sum_list_remove_nth [of i "map f xs"] assms by (simp add: map_remove_nth)

lemma map_update_same: "i < length xs \<Longrightarrow> f v = f (xs ! i) \<Longrightarrow> map f (xs[i := v]) = map f xs"
  by (simp add: map_update list_update_same_conv)

lemma list_update_set_subset: "set (xs[i := v]) \<subseteq> insert v (set xs)"
  by (rule set_update_subset_insert)

section \<open>Sorting by a key\<close>

text \<open>
  Go's \<open>sort.Slice\<close> leaves the order of equal elements open; the model sorts stably.
  Where a component's invariant makes the keys distinct the two agree.
\<close>

lemma sum_list_map_sort_key:
  fixes f :: "'a \<Rightarrow> 'm :: comm_monoid_add"
  shows "sum_list (map f (sort_key k xs)) = sum_list (map f xs)"
  by (metis mset_map mset_sort sum_mset_sum_list)

lemma distinct_map_sort_key: "distinct (map f (sort_key k xs)) = distinct (map f xs)"
  by (metis mset_eq_imp_distinct_iff mset_map mset_sort)

section \<open>Operations that may fail\<close>

text \<open>
  A method \<open>(Result, bool)\<close> of a Go receiver becomes a function to
  \<open>'s \<times> 'a option\<close>: the receiver's state afterwards, and \<open>None\<close> for \<open>false\<close>.
\<close>

type_synonym ('s, 'a) outcome = "'s \<times> 'a option"

abbreviation ok :: "('s, 'a) outcome \<Rightarrow> bool" where
  "ok x \<equiv> snd x \<noteq> None"

definition keeps_on_failure :: "('s \<Rightarrow> ('s, 'a) outcome) \<Rightarrow> bool" where
  "keeps_on_failure f \<longleftrightarrow> (\<forall>s. snd (f s) = None \<longrightarrow> fst (f s) = s)"

text \<open>
  A small verification-condition generator: \<open>sat Q x\<close> says that the outcome \<open>x\<close> meets the
  postcondition \<open>Q\<close> of the state afterwards and the result. \<open>intro sat_intros\<close> walks down the
  guards of an operation and leaves one goal per return, with the guards as facts.
\<close>

named_theorems sat_intros

definition sat :: "('s \<Rightarrow> 'a option \<Rightarrow> bool) \<Rightarrow> ('s, 'a) outcome \<Rightarrow> bool" where
  "sat Q x \<longleftrightarrow> Q (fst x) (snd x)"

lemma sat_pair [sat_intros]: "Q s a \<Longrightarrow> sat Q (s, a)"
  by (simp add: sat_def)

lemma sat_if [sat_intros]:
  "(c \<Longrightarrow> sat Q x) \<Longrightarrow> (\<not> c \<Longrightarrow> sat Q y) \<Longrightarrow> sat Q (if c then x else y)"
  by simp

lemma sat_let [sat_intros]: "(\<And>v. v = e \<Longrightarrow> sat Q (f v)) \<Longrightarrow> sat Q (Let e f)"
  by simp

lemma sat_option [sat_intros]:
  "(e = None \<Longrightarrow> sat Q x) \<Longrightarrow> (\<And>v. e = Some v \<Longrightarrow> sat Q (f v)) \<Longrightarrow>
   sat Q (case e of None \<Rightarrow> x | Some v \<Rightarrow> f v)"
  by (cases e) simp_all

lemma sat_sum [sat_intros]:
  "(\<And>v. e = Inl v \<Longrightarrow> sat Q (g v)) \<Longrightarrow> (\<And>v. e = Inr v \<Longrightarrow> sat Q (f v)) \<Longrightarrow>
   sat Q (case e of Inl v \<Rightarrow> g v | Inr v \<Rightarrow> f v)"
  by (cases e) simp_all

lemma sat_prod [sat_intros]:
  "(\<And>a b. e = (a, b) \<Longrightarrow> sat Q (f a b)) \<Longrightarrow> sat Q (case e of (a, b) \<Rightarrow> f a b)"
  by (cases e) simp

lemma sat_mono: "sat Q x \<Longrightarrow> (\<And>s a. Q s a \<Longrightarrow> R s a) \<Longrightarrow> sat R x"
  by (simp add: sat_def)

lemma satD: "sat Q x \<Longrightarrow> x = (s, a) \<Longrightarrow> Q s a"
  by (simp add: sat_def)

end
