(* ===== verification/Go_Bytes.thy ===== *)
theory Go_Bytes
  imports Prelude
begin

text \<open>
  \<open>encoding/binary\<close>'s little-endian accessors on byte slices, with the round trips the
  packet codecs rest on, and an interface for codecs of a single value.
\<close>

unbundle bit_operations_syntax

section \<open>Little-endian integers\<close>

definition put_u16 :: "u16 \<Rightarrow> u8 list" where
  "put_u16 w = [ucast w, ucast (drop_bit 8 w)]"

definition get_u16 :: "u8 list \<Rightarrow> u16" where
  "get_u16 bs = ucast (bs ! 0) OR push_bit 8 (ucast (bs ! 1))"

definition put_u32 :: "u32 \<Rightarrow> u8 list" where
  "put_u32 w = [ucast w, ucast (drop_bit 8 w), ucast (drop_bit 16 w), ucast (drop_bit 24 w)]"

definition get_u32 :: "u8 list \<Rightarrow> u32" where
  "get_u32 bs = ucast (bs ! 0) OR push_bit 8 (ucast (bs ! 1)) OR
     push_bit 16 (ucast (bs ! 2)) OR push_bit 24 (ucast (bs ! 3))"

lemma length_put_u16 [simp]: "length (put_u16 w) = 2"
  by (simp add: put_u16_def)

lemma length_put_u32 [simp]: "length (put_u32 w) = 4"
  by (simp add: put_u32_def)

lemma get_put_u16 [simp]: "get_u16 (put_u16 w @ bs) = w"
  by (rule bit_word_eqI)
    (auto simp: get_u16_def put_u16_def bit_or_iff bit_push_bit_iff bit_ucast_iff bit_drop_bit_eq
      dest: bit_imp_le_length)

lemma get_put_u16' [simp]: "get_u16 (put_u16 w) = w"
  using get_put_u16 [of w "[]"] by simp

lemma get_put_u32 [simp]: "get_u32 (put_u32 w @ bs) = w"
proof (rule bit_word_eqI)
  fix n
  assume n: "n < LENGTH(32)"
  consider "n < 8" | "8 \<le> n" "n < 16" | "16 \<le> n" "n < 24" | "24 \<le> n"
    by linarith
  then show "bit (get_u32 (put_u32 w @ bs)) n \<longleftrightarrow> bit w n"
    using n
    by cases (auto simp: get_u32_def put_u32_def bit_or_iff bit_push_bit_iff bit_ucast_iff
        bit_drop_bit_eq)
qed

lemma get_put_u32' [simp]: "get_u32 (put_u32 w) = w"
  using get_put_u32 [of w "[]"] by simp

lemma put_get_u16:
  assumes "length bs = 2"
  shows "put_u16 (get_u16 bs) = bs"
proof -
  obtain a b where bs: "bs = [a, b]"
    using assms by (auto simp: length_Suc_conv numeral_2_eq_2)
  have "ucast (get_u16 bs) = a"
    by (rule bit_word_eqI) (auto simp: bs get_u16_def bit_or_iff bit_push_bit_iff bit_ucast_iff)
  moreover have "ucast (drop_bit 8 (get_u16 bs)) = b"
    by (rule bit_word_eqI)
      (auto simp: bs get_u16_def bit_or_iff bit_push_bit_iff bit_ucast_iff bit_drop_bit_eq
        dest: bit_imp_le_length)
  ultimately show ?thesis by (simp add: put_u16_def bs)
qed

lemma get_u16_cons [simp]: "get_u16 (a # b # c # bs) = get_u16 [a, b]"
  by (simp add: get_u16_def)

lemma put_get_u16_cons: "put_u16 (get_u16 [a, b]) = [a, b]"
  by (simp add: put_get_u16)

lemma get_u32_cons [simp]: "get_u32 (a # b # c # d # e # bs) = get_u32 [a, b, c, d]"
  by (simp add: get_u32_def)

lemma put_get_u32_cons: "put_u32 (get_u32 [a, b, c, d]) = [a, b, c, d]"
proof -
  have "ucast (drop_bit 0 (get_u32 [a, b, c, d])) = a"
    "ucast (drop_bit 8 (get_u32 [a, b, c, d])) = b"
    "ucast (drop_bit 16 (get_u32 [a, b, c, d])) = c"
    "ucast (drop_bit 24 (get_u32 [a, b, c, d])) = d"
    by (rule bit_word_eqI,
        auto simp: get_u32_def bit_or_iff bit_push_bit_iff bit_ucast_iff bit_drop_bit_eq
          dest: bit_imp_le_length)+
  then show ?thesis by (simp add: put_u32_def)
qed

lemma list4_cases:
  assumes "4 \<le> length bs"
  obtains a b c d r where "bs = a # b # c # d # r"
  using assms by (cases bs; cases "tl bs"; cases "tl (tl bs)"; cases "tl (tl (tl bs))") auto

lemma put_get_u32: "4 \<le> length bs \<Longrightarrow> put_u32 (get_u32 bs) = take 4 bs"
  by (erule list4_cases, rename_tac r, case_tac r) (simp_all add: put_get_u32_cons)

section \<open>Fields of a payload\<close>

text \<open>
  Cutting a payload that is a sequence of fields: what comes before an offset is dropped field
  by field.
\<close>

named_theorems packet_simps "cutting a payload at an offset; headers and sizes"

lemma drop_field [packet_simps]: "length a \<le> n \<Longrightarrow> drop n (a @ r) = drop (n - length a) r"
  by simp

lemma take_field [packet_simps]: "length a \<le> n \<Longrightarrow> take n (a @ r) = a @ take (n - length a) r"
  by simp

lemma nth_field [packet_simps]: "length a \<le> n \<Longrightarrow> (a @ r) ! n = r ! (n - length a)"
  by (simp add: nth_append)

text \<open>
  What every codec of a value of known width promises: decoding what an encoding starts with
  gives the value back. A loop over an array encodes and decodes entry by entry.
\<close>

definition decode_each :: "(u8 list \<Rightarrow> 'a) \<Rightarrow> nat \<Rightarrow> nat \<Rightarrow> u8 list \<Rightarrow> 'a list" where
  "decode_each dec width n bs = map (\<lambda>i. dec (drop (width * i) bs)) [0..<n]"

lemma length_decode_each [simp]: "length (decode_each dec w n bs) = n"
  by (simp add: decode_each_def)

lemma decode_each_Suc:
  "decode_each dec w (Suc n) bs = dec bs # decode_each dec w n (drop w bs)"
  by (simp add: decode_each_def map_Suc_upt [symmetric] add.commute del: upt_Suc)
    (simp add: upt_rec [of 0 "Suc n"] map_Suc_upt [symmetric] add.commute del: upt_Suc)

locale fixed_codec =
  fixes enc :: "'a \<Rightarrow> u8 list" and dec :: "u8 list \<Rightarrow> 'a" and width :: nat
    and ok :: "'a \<Rightarrow> bool"
  assumes enc_length: "ok x \<Longrightarrow> length (enc x) = width"
    and dec_enc: "ok x \<Longrightarrow> dec (enc x @ rest) = x"
begin

lemma length_concat: "\<forall>x \<in> set xs. ok x \<Longrightarrow> length (concat (map enc xs)) = width * length xs"
  by (induction xs) (simp_all add: enc_length)

lemma decode_each_concat:
  "\<forall>x \<in> set xs. ok x \<Longrightarrow> decode_each dec width (length xs) (concat (map enc xs) @ rest) = xs"
proof (induction xs)
  case Nil
  then show ?case by (simp add: decode_each_def)
next
  case (Cons x xs)
  then show ?case by (simp add: decode_each_Suc dec_enc enc_length)
qed

lemma dec_enc_alone: "ok x \<Longrightarrow> dec (enc x) = x"
  using dec_enc [of x "[]"] by simp

lemma decode_each_alone:
  "\<forall>x \<in> set xs. ok x \<Longrightarrow> decode_each dec width (length xs) (concat (map enc xs)) = xs"
  using decode_each_concat [of xs "[]"] by simp

text \<open>The same for an array whose size the packet fixes.\<close>

lemma array_of_size:
  "length xs = n \<Longrightarrow> \<forall>x \<in> set xs. ok x \<Longrightarrow> decode_each dec width n (concat (map enc xs) @ rest) = xs"
  "length xs = n \<Longrightarrow> \<forall>x \<in> set xs. ok x \<Longrightarrow> decode_each dec width n (concat (map enc xs)) = xs"
  using decode_each_concat decode_each_alone by auto

lemmas array_read = length_concat array_of_size

end

text \<open>Codecs that accept every sequence of bytes of their width write back what they read.\<close>

locale exact_codec = fixed_codec +
  assumes enc_dec: "width \<le> length bs \<Longrightarrow> enc (dec bs) = take width bs"
    and dec_ok: "width \<le> length bs \<Longrightarrow> ok (dec bs)"
begin

lemma concat_decode_each:
  "width * n \<le> length bs \<Longrightarrow> concat (map enc (decode_each dec width n bs)) = take (width * n) bs"
proof (induction n arbitrary: bs)
  case 0
  then show ?case by (simp add: decode_each_def)
next
  case (Suc n)
  then have "concat (map enc (decode_each dec width n (drop width bs))) = take (width * n) (drop width bs)"
    by simp
  with Suc.prems show ?case by (simp add: decode_each_Suc enc_dec take_add)
qed

lemmas array_simps = array_read concat_decode_each

lemma decode_each_ok: "width * n \<le> length bs \<Longrightarrow> x \<in> set (decode_each dec width n bs) \<Longrightarrow> ok x"
proof (induction n arbitrary: bs)
  case 0
  then show ?case by (simp add: decode_each_def)
next
  case (Suc n)
  from Suc.prems(2) have "x = dec bs \<or> x \<in> set (decode_each dec width n (drop width bs))"
    by (simp add: decode_each_Suc)
  with Suc.IH [of "drop width bs"] Suc.prems(1) dec_ok [of bs] show ?case by auto
qed

end

interpretation u16_codec: exact_codec put_u16 get_u16 2 "\<lambda>_. True"
proof
  fix bs :: "u8 list"
  assume "2 \<le> length bs"
  then obtain a b r where "bs = a # b # r" by (cases bs; cases "tl bs") auto
  then show "put_u16 (get_u16 bs) = take 2 bs" by (cases r) (simp_all add: put_get_u16_cons)
qed simp_all

interpretation u32_codec: exact_codec put_u32 get_u32 4 "\<lambda>_. True"
  by unfold_locales (simp_all add: put_get_u32)

end
