(* ===== verification/Frame.thy ===== *)
theory Frame
  imports Go_Bytes
begin

text \<open>
  \<open>internal/proto/frame\<close>: the wire envelope. A frame is a 16-bit header, a 16-bit total
  length and a payload; \<open>Encode\<close> writes one, and a \<open>Decoder\<close> cuts frames off a byte
  stream that arrives in arbitrary chunks.
\<close>

definition EnvelopeSize :: nat where
  "EnvelopeSize = 4"

datatype frame_error = ErrInvalidLength | ErrFrameTooLarge

record frame =
  Header :: u16
  Length :: u16
  Payload :: "u8 list"

record decoder =
  buffer :: "u8 list"
  maxFrameSize :: u16

definition NewDecoder :: "u16 \<Rightarrow> decoder" where
  "NewDecoder m = \<lparr>buffer = [], maxFrameSize = m\<rparr>"

definition BufferedLen :: "decoder \<Rightarrow> nat" where
  "BufferedLen d = length (buffer d)"

text \<open>\<open>uint16(len(frame))\<close> wraps for a payload of more than 65531 bytes.\<close>

definition Encode :: "u16 \<Rightarrow> u8 list \<Rightarrow> u8 list" where
  "Encode header payload =
     put_u16 header @ put_u16 (of_nat (EnvelopeSize + length payload)) @ payload"

text \<open>The body of \<open>Feed\<close>'s loop; the result pairs the buffer left over with the outcome.\<close>

function feed_loop :: "u16 \<Rightarrow> u8 list \<Rightarrow> frame list \<Rightarrow> u8 list \<times> (frame_error + frame list)" where
  "feed_loop m buf frames =
     (if length buf < EnvelopeSize then (buf, Inr frames)
      else
        let len = get_u16 (drop 2 buf) in
        if unat len < EnvelopeSize then ([], Inl ErrInvalidLength)
        else if 0 < m \<and> m < len then ([], Inl ErrFrameTooLarge)
        else if length buf < unat len then (buf, Inr frames)
        else
          feed_loop m (drop (unat len) buf)
            (frames @ [\<lparr>Header = get_u16 buf, Length = len,
                        Payload = take (unat len - EnvelopeSize) (drop EnvelopeSize buf)\<rparr>]))"
  by pat_completeness auto
termination
  by (relation "measure (\<lambda>(m, buf, frames). length buf)") (auto simp: EnvelopeSize_def)

declare feed_loop.simps [simp del]

definition Feed :: "decoder \<Rightarrow> u8 list \<Rightarrow> decoder \<times> (frame_error + frame list)" where
  "Feed d chunk =
     (case feed_loop (maxFrameSize d) (buffer d @ chunk) [] of
        (buf, out) \<Rightarrow> (d\<lparr>buffer := buf\<rparr>, out))"

section \<open>One step of the loop\<close>

lemma length_Encode [simp]: "length (Encode h p) = EnvelopeSize + length p"
  by (simp add: Encode_def EnvelopeSize_def)

lemma feed_loop_short: "length buf < EnvelopeSize \<Longrightarrow> feed_loop m buf fs = (buf, Inr fs)"
  by (simp add: feed_loop.simps)

text \<open>A payload that fits the 16-bit length field and the decoder's maximum.\<close>

definition fits :: "u16 \<Rightarrow> u8 list \<Rightarrow> bool" where
  "fits m p \<longleftrightarrow> EnvelopeSize + length p < 65536 \<and> (m = 0 \<or> EnvelopeSize + length p \<le> unat m)"

definition frame_of :: "u16 \<times> u8 list \<Rightarrow> frame" where
  "frame_of x = \<lparr>Header = fst x, Length = of_nat (EnvelopeSize + length (snd x)), Payload = snd x\<rparr>"

lemma drop_put_u16: "drop 2 (put_u16 w @ bs) = bs"
  by (simp add: put_u16_def)

lemma feed_loop_Encode:
  assumes "fits m p"
  shows "feed_loop m (Encode h p @ rest) fs = feed_loop m rest (fs @ [frame_of (h, p)])"
proof -
  let ?buf = "Encode h p @ rest" and ?n = "EnvelopeSize + length p"
  let ?len = "of_nat ?n :: u16"
  have len: "get_u16 (drop 2 ?buf) = ?len"
    by (simp add: Encode_def drop_put_u16)
  have header: "get_u16 ?buf = h"
    by (simp add: Encode_def)
  have un: "unat ?len = ?n"
    using assms by (simp only: fits_def unsigned_of_nat) (simp add: take_bit_nat_eq_self_iff)
  have rest: "drop ?n ?buf = rest"
    by (simp add: drop_append)
  have payload: "take (?n - EnvelopeSize) (drop EnvelopeSize ?buf) = p"
    by (simp add: Encode_def put_u16_def EnvelopeSize_def)
  have max: "\<not> (0 < m \<and> m < ?len)"
    using assms un by (auto simp: fits_def word_less_nat_alt)
  have long: "\<not> length ?buf < EnvelopeSize" "\<not> ?n < EnvelopeSize" "\<not> length ?buf < ?n"
    by simp_all
  show ?thesis
    by (subst feed_loop.simps, simp only: Let_def len un header rest payload max long if_False frame_of_def fst_conv snd_conv)
qed

lemma feed_loop_encodes:
  assumes "\<forall>x \<in> set xs. fits m (snd x)"
  shows "feed_loop m (concat (map (\<lambda>x. Encode (fst x) (snd x)) xs) @ rest) fs =
         feed_loop m rest (fs @ map frame_of xs)"
  using assms
proof (induction xs arbitrary: fs)
  case Nil
  then show ?case by simp
next
  case (Cons x xs)
  then show ?case
    by (cases x) (simp add: feed_loop_Encode)
qed

section \<open>Chunking does not matter\<close>

lemma get_u16_append: "2 \<le> length bs \<Longrightarrow> get_u16 (bs @ xs) = get_u16 bs"
  by (cases bs; cases "tl bs") (auto simp: get_u16_def)

text \<open>The loop either stops or cuts one frame off the front; both are decided by a prefix.\<close>

definition next_frame :: "u8 list \<Rightarrow> frame" where
  "next_frame buf = \<lparr>Header = get_u16 buf, Length = get_u16 (drop 2 buf),
     Payload = take (unat (get_u16 (drop 2 buf)) - EnvelopeSize) (drop EnvelopeSize buf)\<rparr>"

definition frame_len :: "u8 list \<Rightarrow> nat" where
  "frame_len buf = unat (get_u16 (drop 2 buf))"

definition has_frame :: "u16 \<Rightarrow> u8 list \<Rightarrow> bool" where
  "has_frame m buf \<longleftrightarrow> EnvelopeSize \<le> length buf \<and> EnvelopeSize \<le> frame_len buf \<and>
     \<not> (0 < m \<and> m < get_u16 (drop 2 buf)) \<and> frame_len buf \<le> length buf"

lemma feed_loop_step:
  "has_frame m buf \<Longrightarrow>
   feed_loop m buf fs = feed_loop m (drop (frame_len buf) buf) (fs @ [next_frame buf])"
  by (subst feed_loop.simps) (auto simp: has_frame_def next_frame_def frame_len_def Let_def)

lemma feed_loop_stop:
  "\<not> has_frame m buf \<Longrightarrow> feed_loop m buf fs =
     (if length buf < EnvelopeSize then (buf, Inr fs)
      else if frame_len buf < EnvelopeSize then ([], Inl ErrInvalidLength)
      else if 0 < m \<and> m < get_u16 (drop 2 buf) then ([], Inl ErrFrameTooLarge)
      else (buf, Inr fs))"
  by (subst feed_loop.simps) (auto simp: has_frame_def frame_len_def Let_def)

lemma has_frame_append:
  assumes "has_frame m a"
  shows "has_frame m (a @ b)" and "next_frame (a @ b) = next_frame a"
    and "frame_len (a @ b) = frame_len a"
proof -
  from assms have l: "4 \<le> length a" by (simp add: has_frame_def EnvelopeSize_def)
  then have g: "get_u16 (drop 2 (a @ b)) = get_u16 (drop 2 a)" "get_u16 (a @ b) = get_u16 a"
    by (simp_all add: get_u16_append)
  then show f: "frame_len (a @ b) = frame_len a" by (simp only: frame_len_def)
  show "has_frame m (a @ b)"
    using assms by (simp only: has_frame_def g f) simp
  show "next_frame (a @ b) = next_frame a"
    using assms l by (simp only: next_frame_def g) (simp add: has_frame_def frame_len_def EnvelopeSize_def)
qed

lemma drop_shorter: "has_frame m buf \<Longrightarrow> length (drop (frame_len buf) buf) < length buf"
  by (auto simp: has_frame_def EnvelopeSize_def)

lemma feed_loop_append:
  "feed_loop m a gs = (r, Inr fs) \<Longrightarrow> feed_loop m (a @ b) gs = feed_loop m (r @ b) fs"
proof (induction "length a" arbitrary: a gs rule: less_induct)
  case less
  show ?case
  proof (cases "has_frame m a")
    case True
    from True have n: "frame_len a \<le> length a" by (simp add: has_frame_def)
    have "feed_loop m (a @ b) gs = feed_loop m (drop (frame_len a) a @ b) (gs @ [next_frame a])"
      using feed_loop_step [OF has_frame_append(1) [OF True], of b gs] n
      by (simp add: has_frame_append(2,3) [OF True])
    moreover have "feed_loop m (drop (frame_len a) a) (gs @ [next_frame a]) = (r, Inr fs)"
      using less.prems by (simp add: feed_loop_step [OF True])
    ultimately show ?thesis
      using less.hyps [OF drop_shorter [OF True]] by simp
  next
    case False
    with less.prems show ?thesis
      by (auto simp: feed_loop_stop split: if_splits)
  qed
qed

lemma feed_loop_acc: "feed_loop m buf fs = map_prod id (map_sum id ((@) fs)) (feed_loop m buf [])"
proof (induction "length buf" arbitrary: buf fs rule: less_induct)
  case less
  show ?case
  proof (cases "has_frame m buf")
    case True
    let ?rest = "drop (frame_len buf) buf"
    note IH = less.hyps [OF drop_shorter [OF True]]
    obtain r out where "feed_loop m ?rest [] = (r, out)" by fastforce
    then show ?thesis
      using IH [of "fs @ [next_frame buf]"] IH [of "[next_frame buf]"]
      by (cases out) (simp_all add: feed_loop_step [OF True])
  next
    case False
    then show ?thesis by (simp add: feed_loop_stop)
  qed
qed

lemma feed_loop_error:
  "feed_loop m a gs = (r, Inl e) \<Longrightarrow> feed_loop m (a @ b) gs = (r, Inl e)"
proof (induction "length a" arbitrary: a gs rule: less_induct)
  case less
  show ?case
  proof (cases "has_frame m a")
    case True
    with less.prems less.hyps [OF drop_shorter [OF True]] show ?thesis
      by (simp add: feed_loop_step has_frame_append) (simp add: has_frame_def)
  next
    case False
    with less.prems have a: "EnvelopeSize \<le> length a" and
      bad: "frame_len a < EnvelopeSize \<or> (0 < m \<and> m < get_u16 (drop 2 a))"
      by (auto simp: feed_loop_stop split: if_splits)
    from a have g: "get_u16 (drop 2 (a @ b)) = get_u16 (drop 2 a)"
      by (simp add: get_u16_append EnvelopeSize_def)
    then have l: "frame_len (a @ b) = frame_len a" by (simp only: frame_len_def)
    have "\<not> has_frame m (a @ b)" using bad by (auto simp: has_frame_def g l simp del: drop_append)
    with False a bad less.prems show ?thesis
      by (auto simp: feed_loop_stop g l simp del: drop_append split: if_splits)
  qed
qed

lemma Feed_append:
  assumes "Feed d a = (d1, Inr fs)"
  shows "Feed d (a @ b) = map_prod id (map_sum id ((@) fs)) (Feed d1 b)"
proof -
  obtain r where r: "feed_loop (maxFrameSize d) (buffer d @ a) [] = (r, Inr fs)"
    and d1: "d1 = d\<lparr>buffer := r\<rparr>"
    using assms by (auto simp: Feed_def split: prod.splits)
  have "feed_loop (maxFrameSize d) ((buffer d @ a) @ b) [] =
      map_prod id (map_sum id ((@) fs)) (feed_loop (maxFrameSize d) (r @ b) [])"
    using feed_loop_append [OF r] feed_loop_acc [of _ "r @ b" fs] by simp
  then show ?thesis
    by (simp add: Feed_def d1 split: prod.splits)
qed

lemma Feed_error:
  assumes "Feed d a = (d1, Inl e)"
  shows "Feed d (a @ b) = (d1, Inl e)"
  using assms feed_loop_error [of "maxFrameSize d" "buffer d @ a" "[]" _ e b]
  by (auto simp: Feed_def split: prod.splits)

text \<open>A stream that arrives in chunks, each fed as it comes, until the decoder reports an error.\<close>

fun Feed_all :: "decoder \<Rightarrow> u8 list list \<Rightarrow> decoder \<times> (frame_error + frame list)" where
  "Feed_all d [] = (d, Inr [])"
| "Feed_all d (c # cs) =
     (case Feed d c of
        (d1, Inl e) \<Rightarrow> (d1, Inl e)
      | (d1, Inr fs) \<Rightarrow> map_prod id (map_sum id ((@) fs)) (Feed_all d1 cs))"

lemma Feed_all_concat: "cs \<noteq> [] \<Longrightarrow> Feed_all d cs = Feed d (concat cs)"
proof (induction cs arbitrary: d)
  case Nil
  then show ?case by simp
next
  case (Cons c cs)
  obtain d1 out where c: "Feed d c = (d1, out)" by fastforce
  show ?case
  proof (cases out)
    case (Inl e)
    with c show ?thesis by (simp add: Feed_error)
  next
    case (Inr fs)
    with c have app: "Feed d (c @ concat cs) = map_prod id (map_sum id ((@) fs)) (Feed d1 (concat cs))"
      by (simp add: Feed_append)
    show ?thesis
    proof (cases cs)
      case Nil
      with c Inr show ?thesis by simp
    next
      case (Cons x xs)
      with Cons.IH [of d1] c Inr app show ?thesis by simp
    qed
  qed
qed

section \<open>Properties\<close>

lemma feed_loop_leftover:
  "feed_loop m buf gs = (r, Inr fs) \<Longrightarrow>
   length r < EnvelopeSize \<or> (length r < frame_len r \<and> (m = 0 \<or> frame_len r \<le> unat m))"
proof (induction "length buf" arbitrary: buf gs rule: less_induct)
  case less
  show ?case
  proof (cases "has_frame m buf")
    case True
    with less.prems less.hyps [OF drop_shorter [OF True]] show ?thesis
      by (simp add: feed_loop_step)
  next
    case False
    with less.prems show ?thesis
      by (auto simp: feed_loop_stop has_frame_def frame_len_def word_less_nat_alt unat_eq_zero split: if_splits)
  qed
qed

text \<open>
  C39: a decoder whose buffer is empty, fed at once the frames that \<open>Encode\<close> writes for payloads
  which all fit, yields exactly those frames, in order, and is the same decoder as before. A payload fits when the
  frame's length, envelope included, is at most 65535, so that the 16-bit length field can tell it, and
  at most the decoder's maximum frame size unless that is zero, which stands for no maximum.
\<close>

theorem Feed_Encode_roundtrip:
  assumes "buffer d = []" and "\<forall>x \<in> set xs. fits (maxFrameSize d) (snd x)"
  shows "Feed d (concat (map (\<lambda>x. Encode (fst x) (snd x)) xs)) = (d, Inr (map frame_of xs))"
  using feed_loop_encodes [OF assms(2), of "[]" "[]"] assms(1)
  by (simp add: Feed_def feed_loop_short EnvelopeSize_def)

theorem Feed_Encode_roundtrip_witness:
  "Feed (NewDecoder 64) (concat (map (\<lambda>x. Encode (fst x) (snd x)) [(10, [1, 2]), (11, [])])) =
   (NewDecoder 64, Inr (map frame_of [(10, [1, 2]), (11, [])]))"
  by (rule Feed_Encode_roundtrip) (simp_all add: NewDecoder_def fits_def EnvelopeSize_def)

text \<open>
  How the network cuts the stream into chunks does not matter. Feeding \<open>a\<close> and then \<open>b\<close>
  yields, frame for frame, errors included, what feeding them at once yields, and the same
  decoder.
\<close>

theorem Feed_chunks:
  assumes "Feed d a = (d1, Inr fs)"
  shows "Feed d (a @ b) = map_prod id (map_sum id ((@) fs)) (Feed d1 b)"
  using assms by (rule Feed_append)

theorem Feed_chunks_witness:
  "Feed (NewDecoder 0) ([1, 0, 5] @ [0, 7]) =
   map_prod id (map_sum id ((@) [])) (Feed (\<lparr>buffer = [1, 0, 5], maxFrameSize = 0\<rparr>) [0, 7])"
  by (rule Feed_chunks) (simp add: NewDecoder_def Feed_def feed_loop_short EnvelopeSize_def)

text \<open>
  The decoder never buffers a complete frame. After a successful \<open>Feed\<close> it holds fewer
  bytes than its maximum frame size (or than an envelope), so an unfinished frame cannot make
  it grow without bound.
\<close>

theorem Feed_buffer_bound:
  assumes "Feed d c = (d', Inr fs)" and "maxFrameSize d \<noteq> 0"
  shows "BufferedLen d' < max EnvelopeSize (unat (maxFrameSize d)) \<and> maxFrameSize d' = maxFrameSize d"
proof -
  obtain r where "feed_loop (maxFrameSize d) (buffer d @ c) [] = (r, Inr fs)"
    and "d' = d\<lparr>buffer := r\<rparr>"
    using assms(1) by (auto simp: Feed_def split: prod.splits)
  with feed_loop_leftover [of "maxFrameSize d" "buffer d @ c" "[]" r fs] assms(2)
  show ?thesis by (auto simp: BufferedLen_def)
qed

theorem Feed_buffer_bound_witness:
  "BufferedLen \<lparr>buffer = [1, 0, 5], maxFrameSize = 64\<rparr> < max EnvelopeSize (unat (64 :: u16)) \<and>
   maxFrameSize \<lparr>buffer = [1, 0, 5], maxFrameSize = 64\<rparr> = (64 :: u16)"
  using Feed_buffer_bound [of "NewDecoder 64" "[1, 0, 5]" "\<lparr>buffer = [1, 0, 5], maxFrameSize = 64\<rparr>" "[]"]
  by (simp add: NewDecoder_def Feed_def feed_loop_short EnvelopeSize_def)

text \<open>
  C40: \<open>Encode\<close> writes the total length modulo 65536 and reports no error: a payload of 65532
  to 65535 bytes gets a length field below the envelope size, and the peer's decoder rejects
  the stream as invalid.
\<close>

theorem Encode_oversize_rejected:
  assumes "65532 \<le> length p" and "length p < 65536"
  shows "Feed (NewDecoder m) (Encode h p) = (NewDecoder m, Inl ErrInvalidLength)"
proof -
  have "frame_len (Encode h p) = (4 + length p) mod 65536"
    by (simp only: frame_len_def Encode_def EnvelopeSize_def drop_put_u16 get_put_u16 unsigned_of_nat)
      (simp add: take_bit_nat_def)
  moreover from assms have "(4 + length p) mod 65536 = 4 + length p - 65536"
    by (simp add: mod_if)
  ultimately have "frame_len (Encode h p) < EnvelopeSize"
    using assms by (simp add: EnvelopeSize_def)
  then show ?thesis
    by (simp add: Feed_def NewDecoder_def feed_loop_stop has_frame_def)
qed

theorem Encode_oversize_rejected_witness:
  "Feed (NewDecoder 0) (Encode 1 (replicate 65532 0)) = (NewDecoder 0, Inl ErrInvalidLength)"
  by (rule Encode_oversize_rejected) simp_all

end
