(* ===== verification/Machine.thy ===== *)
theory Machine
  imports Prelude
begin

text \<open>
  Machines that execute commands one after another and refuse some of them: the interface between
  a component with an invariant and the sequences of requests a client can make.
\<close>

text \<open>A sequence of commands, and the commands of it that were accepted.\<close>

fun run :: "('s \<Rightarrow> 'c \<Rightarrow> 's \<times> bool) \<Rightarrow> 's \<Rightarrow> 'c list \<Rightarrow> 's" where
  "run exec s [] = s"
| "run exec s (c # cs) = run exec (fst (exec s c)) cs"

fun accepted :: "('s \<Rightarrow> 'c \<Rightarrow> 's \<times> bool) \<Rightarrow> 's \<Rightarrow> 'c list \<Rightarrow> 'c list" where
  "accepted exec s [] = []"
| "accepted exec s (c # cs) =
     (if snd (exec s c) then c # accepted exec (fst (exec s c)) cs else accepted exec (fst (exec s c)) cs)"

lemma run_append [simp]: "run exec s (cs @ ds) = run exec (run exec s cs) ds"
  by (induction cs arbitrary: s) simp_all

lemma accepted_subset: "set (accepted exec s cs) \<subseteq> set cs"
  by (induction cs arbitrary: s) auto

text \<open>The contract: allowed commands keep the invariant, refused ones change nothing.\<close>

locale guarded_machine =
  fixes exec :: "'s \<Rightarrow> 'c \<Rightarrow> 's \<times> bool"
    and invariant :: "'s \<Rightarrow> bool"
    and allowed :: "'c \<Rightarrow> bool"
  assumes exec_invariant: "invariant s \<Longrightarrow> allowed c \<Longrightarrow> invariant (fst (exec s c))"
    and exec_refused: "invariant s \<Longrightarrow> allowed c \<Longrightarrow> \<not> snd (exec s c) \<Longrightarrow> fst (exec s c) = s"
begin

lemma run_invariant:
  "invariant s \<Longrightarrow> \<forall>c \<in> set cs. allowed c \<Longrightarrow> invariant (run exec s cs)"
  by (induction cs arbitrary: s) (simp_all add: exec_invariant)

text \<open>Leaving the refused commands out gives the same state, and then nothing is refused.\<close>

lemma run_accepted:
  "invariant s \<Longrightarrow> \<forall>c \<in> set cs. allowed c \<Longrightarrow>
   run exec s (accepted exec s cs) = run exec s cs \<and>
   accepted exec s (accepted exec s cs) = accepted exec s cs"
  by (induction cs arbitrary: s) (simp_all add: exec_invariant exec_refused)

end

text \<open>A machine some of whose commands neither create nor destroy what a measure counts.\<close>

locale conserving_machine = guarded_machine +
  fixes closed :: "'c \<Rightarrow> bool" and measure :: "'s \<Rightarrow> 'm"
  assumes exec_conserves: "invariant s \<Longrightarrow> allowed c \<Longrightarrow> closed c \<Longrightarrow> measure (fst (exec s c)) = measure s"
begin

lemma run_conserves:
  "invariant s \<Longrightarrow> \<forall>c \<in> set cs. allowed c \<and> closed c \<Longrightarrow> measure (run exec s cs) = measure s"
  by (induction cs arbitrary: s) (simp_all add: exec_invariant exec_conserves)

end

text \<open>The contract between a component and the abstract machine it implements.\<close>

locale simulation =
  fixes exec :: "'s \<Rightarrow> 'c \<Rightarrow> 's \<times> bool" and spec :: "'w \<Rightarrow> 'c \<Rightarrow> 'w \<times> bool"
    and invariant :: "'s \<Rightarrow> bool" and view :: "'s \<Rightarrow> 'w"
  assumes exec_invariant: "invariant s \<Longrightarrow> invariant (fst (exec s c))"
    and exec_simulates: "invariant s \<Longrightarrow> spec (view s) c = (view (fst (exec s c)), snd (exec s c))"
begin

text \<open>Any sequence of commands goes through the abstract machine, acceptance included.\<close>

lemma run_simulates:
  "invariant s \<Longrightarrow> invariant (run exec s cs) \<and> view (run exec s cs) = run spec (view s) cs \<and>
   accepted exec s cs = accepted spec (view s) cs"
  by (induction cs arbitrary: s) (simp_all add: exec_invariant exec_simulates)

end

end
