(* ===== verification/Session.thy ===== *)
theory Session
  imports Machine "HOL-Library.Sublist"
begin

text \<open>
  \<open>internal/session\<close>: the connection phases and the state machine every flow shares. Go's
  \<open>Phase\<close> is a string; the eight known values are constructors and any other string is
  \<open>PhaseOther\<close>.
\<close>

datatype phase =
    PhaseHandshake | PhaseAuth | PhaseLogin | PhaseSelect
  | PhaseLoading | PhaseGame | PhaseDead | PhaseClose
  | PhaseOther string

datatype session_error = ErrUnknownPhase | ErrInvalidTransition

record state_machine =
  current :: phase

definition NewStateMachineAt :: "phase \<Rightarrow> state_machine" where
  "NewStateMachineAt initial = \<lparr>current = initial\<rparr>"

definition NewStateMachine :: state_machine where
  "NewStateMachine = NewStateMachineAt PhaseHandshake"

definition Current :: "state_machine \<Rightarrow> phase" where
  "Current m = current m"

fun isKnownPhase :: "phase \<Rightarrow> bool" where
  "isKnownPhase (PhaseOther s) = False"
| "isKnownPhase p = True"

definition CanTransition :: "state_machine \<Rightarrow> phase \<Rightarrow> bool" where
  "CanTransition m nxt =
     (if nxt = PhaseClose then isKnownPhase (current m)
      else case current m of
        PhaseHandshake \<Rightarrow> nxt = PhaseAuth \<or> nxt = PhaseLogin
      | PhaseAuth \<Rightarrow> False
      | PhaseLogin \<Rightarrow> nxt = PhaseSelect
      | PhaseSelect \<Rightarrow> nxt = PhaseLoading
      | PhaseLoading \<Rightarrow> nxt = PhaseGame
      | PhaseGame \<Rightarrow> nxt = PhaseSelect
      | PhaseDead \<Rightarrow> False
      | PhaseClose \<Rightarrow> False
      | PhaseOther s \<Rightarrow> False)"

definition Transition :: "state_machine \<Rightarrow> phase \<Rightarrow> state_machine \<times> session_error option" where
  "Transition m nxt =
     (if \<not> isKnownPhase nxt then (m, Some ErrUnknownPhase)
      else if \<not> isKnownPhase (current m) then (m, Some ErrUnknownPhase)
      else if \<not> CanTransition m nxt then (m, Some ErrInvalidTransition)
      else (m\<lparr>current := nxt\<rparr>, None))"

section \<open>Steps and reachable phases\<close>

text \<open>One accepted transition, and the phases a connection can get to.\<close>

inductive phase_step :: "phase \<Rightarrow> phase \<Rightarrow> bool" where
  accept: "Transition \<lparr>current = p\<rparr> q = (m, None) \<Longrightarrow> phase_step p q"

inductive_cases phase_stepE: "phase_step p q"

inductive reachable_phase :: "phase \<Rightarrow> bool" where
  start: "reachable_phase PhaseHandshake"
| step: "reachable_phase p \<Longrightarrow> phase_step p q \<Longrightarrow> reachable_phase q"

lemma Transition_ok_iff:
  "snd (Transition m q) = None \<longleftrightarrow> isKnownPhase q \<and> isKnownPhase (current m) \<and> CanTransition m q"
  by (simp add: Transition_def)

lemma phase_step_iff: "phase_step p q \<longleftrightarrow>
  (p, q) \<in> {(PhaseHandshake, PhaseAuth), (PhaseHandshake, PhaseLogin), (PhaseLogin, PhaseSelect),
            (PhaseSelect, PhaseLoading), (PhaseLoading, PhaseGame), (PhaseGame, PhaseSelect)} \<or>
  (q = PhaseClose \<and> isKnownPhase p)"
  by (cases p; cases q) (auto simp: phase_step.simps Transition_def CanTransition_def)

inductive_simps reachable_simps: "reachable_phase p"

text \<open>
  \<open>Transition\<close> changes the machine only when it reports success, to the phase asked for,
  and it reports success exactly for the edges of the connection graph: handshake to auth or
  login, login to select to loading to game, game back to select, and any known phase to close.
\<close>

theorem Transition_graph:
  "Transition m q =
     (if phase_step (current m) q then (m\<lparr>current := q\<rparr>, None)
      else (m, Some (if isKnownPhase q \<and> isKnownPhase (current m) then ErrInvalidTransition
                     else ErrUnknownPhase))) \<and>
   (phase_step p r \<longleftrightarrow>
     (p, r) \<in> {(PhaseHandshake, PhaseAuth), (PhaseHandshake, PhaseLogin), (PhaseLogin, PhaseSelect),
               (PhaseSelect, PhaseLoading), (PhaseLoading, PhaseGame), (PhaseGame, PhaseSelect)} \<or>
     (r = PhaseClose \<and> isKnownPhase p))"
proof
  have "phase_step (current m) q \<longleftrightarrow> snd (Transition m q) = None"
    by (auto simp: phase_step.simps Transition_def CanTransition_def)
  then show "Transition m q =
     (if phase_step (current m) q then (m\<lparr>current := q\<rparr>, None)
      else (m, Some (if isKnownPhase q \<and> isKnownPhase (current m) then ErrInvalidTransition
                     else ErrUnknownPhase)))"
    by (auto simp: Transition_def)
qed (rule phase_step_iff)

text \<open>
  From the handshake a connection reaches every known phase except \<open>DEAD\<close>, which no
  accepted transition enters, and no unknown phase.
\<close>

theorem reachable_phases:
  "reachable_phase p \<longleftrightarrow> isKnownPhase p \<and> p \<noteq> PhaseDead"
proof
  assume "reachable_phase p"
  then show "isKnownPhase p \<and> p \<noteq> PhaseDead"
    by induction (auto simp: phase_step_iff)
next
  assume p: "isKnownPhase p \<and> p \<noteq> PhaseDead"
  have h: "reachable_phase PhaseHandshake" by (rule start)
  have l: "reachable_phase PhaseLogin" by (rule step [OF h]) (simp add: phase_step_iff)
  have s: "reachable_phase PhaseSelect" by (rule step [OF l]) (simp add: phase_step_iff)
  have o': "reachable_phase PhaseLoading" by (rule step [OF s]) (simp add: phase_step_iff)
  have g: "reachable_phase PhaseGame" by (rule step [OF o']) (simp add: phase_step_iff)
  have a: "reachable_phase PhaseAuth" by (rule step [OF h]) (simp add: phase_step_iff)
  have c: "reachable_phase PhaseClose" by (rule step [OF h]) (simp add: phase_step_iff)
  show "reachable_phase p"
    using p h l s o' g a c by (cases p) simp_all
qed

text \<open>A sequence of requested phases, all accepted.\<close>

fun run_phases :: "state_machine \<Rightarrow> phase list \<Rightarrow> state_machine option" where
  "run_phases m [] = Some m"
| "run_phases m (q # qs) =
     (case Transition m q of (m', None) \<Rightarrow> run_phases m' qs | (m', Some e) \<Rightarrow> None)"

lemma run_phases_snoc:
  "run_phases m (qs @ [q]) = Some m' \<longleftrightarrow>
   (\<exists>m1. run_phases m qs = Some m1 \<and> Transition m1 q = (m', None))"
  by (induction qs arbitrary: m) (auto split: prod.splits option.splits)

definition entry_path :: "phase \<Rightarrow> phase list" where
  "entry_path p =
     (case p of PhaseLogin \<Rightarrow> [PhaseLogin] | PhaseSelect \<Rightarrow> [PhaseLogin, PhaseSelect]
      | PhaseLoading \<Rightarrow> [PhaseLogin, PhaseSelect, PhaseLoading]
      | PhaseGame \<Rightarrow> [PhaseLogin, PhaseSelect, PhaseLoading, PhaseGame] | _ \<Rightarrow> [])"

lemma entry_path_step: "phase_step p q \<Longrightarrow> subseq (entry_path q) (entry_path p @ [q])"
  by (auto simp: phase_step_iff entry_path_def)

lemma run_phases_entry_path:
  "run_phases NewStateMachine qs = Some m \<Longrightarrow> subseq (entry_path (current m)) qs"
proof (induction qs arbitrary: m rule: rev_induct)
  case Nil
  then show ?case by (auto simp: NewStateMachine_def NewStateMachineAt_def entry_path_def)
next
  case (snoc q qs)
  then obtain m1 where m1: "run_phases NewStateMachine qs = Some m1"
    and t: "Transition m1 q = (m, None)"
    by (auto simp: run_phases_snoc)
  have s: "subseq (entry_path (current m1)) qs" using snoc.IH [OF m1] .
  have "phase_step (current m1) q" and m: "current m = q"
    using t Transition_ok_iff [of m1 q] by (auto simp: phase_step.simps Transition_def CanTransition_def split: if_splits)
  then have "subseq (entry_path (current m)) (entry_path (current m1) @ [q])"
    using entry_path_step by simp
  also have "subseq \<dots> (qs @ [q])"
    using s by (rule list_emb_append_mono) simp
  finally show ?case .
qed

text \<open>
  Requests as the connection code makes them: a refused transition leaves the machine where it
  was and the connection may ask again.
\<close>

definition request :: "state_machine \<Rightarrow> phase \<Rightarrow> state_machine \<times> bool" where
  "request m q = (fst (Transition m q), snd (Transition m q) = None)"

interpretation phase_machine: guarded_machine request "\<lambda>m. isKnownPhase (current m)" "\<lambda>_. True"
  by unfold_locales (auto simp: request_def Transition_def split: if_splits)

lemma run_phases_accepted: "run_phases m (accepted request m qs) = Some (run request m qs)"
proof (induction qs arbitrary: m)
  case (Cons q qs)
  obtain m' e where t: "Transition m q = (m', e)" by (cases "Transition m q")
  show ?case
  proof (cases e)
    case None
    with Cons.IH [of m'] show ?thesis by (simp add: request_def t)
  next
    case (Some x)
    then have "m' = m" using t by (auto simp: Transition_def split: if_split_asm)
    with Some Cons.IH [of m] show ?thesis by (simp add: request_def t)
  qed
qed simp

text \<open>
  Whoever is in the game phase has been through login, character select and loading, in
  this order: no sequence of requested transitions, whichever of them were refused, skips a
  stage; and the phase is always a known one.
\<close>

theorem game_needs_login:
  assumes "current (run request NewStateMachine qs) = PhaseGame"
  shows "subseq [PhaseLogin, PhaseSelect, PhaseLoading, PhaseGame] (accepted request NewStateMachine qs) \<and>
    isKnownPhase (current (run request NewStateMachine (qs @ qs')))"
proof
  show "subseq [PhaseLogin, PhaseSelect, PhaseLoading, PhaseGame] (accepted request NewStateMachine qs)"
    using run_phases_entry_path [OF run_phases_accepted, of qs] assms by (simp add: entry_path_def)
  show "isKnownPhase (current (run request NewStateMachine (qs @ qs')))"
    using phase_machine.run_invariant [of NewStateMachine "qs @ qs'"]
    by (simp add: NewStateMachine_def NewStateMachineAt_def)
qed

theorem game_needs_login_witness:
  "subseq [PhaseLogin, PhaseSelect, PhaseLoading, PhaseGame]
     (accepted request NewStateMachine [PhaseLogin, PhaseGame, PhaseSelect, PhaseLoading, PhaseGame])"
proof -
  have "current (run request NewStateMachine [PhaseLogin, PhaseGame, PhaseSelect, PhaseLoading, PhaseGame]) = PhaseGame"
    by (simp add: NewStateMachine_def NewStateMachineAt_def request_def Transition_def CanTransition_def)
  from game_needs_login [OF this, of "[]"] show ?thesis by blast
qed

end
