(* ===== verification/Wire.thy ===== *)
theory Wire
  imports Frame
begin

text \<open>
  What the packet codecs under \<open>internal/proto\<close> share: their errors, Go strings in fields of fixed
  width, and, as locales, what a codec of a packet promises its users. A \<open>float32\<close> field is kept
  as its 32 bits, which is all the codecs do with it.
\<close>

datatype packet_error =
    ErrUnexpectedHeader | ErrInvalidPayload | ErrStringTooLong | ErrUnknownPhaseValue
  | ErrUnexpectedSubheader | ErrInventoryCellRange | ErrEquipmentWearCellRange | ErrBeltInventoryCellRange

text \<open>\<open>if err := f(x); err != nil { return err }\<close>.\<close>

definition attempt :: "'e + 'a \<Rightarrow> ('a \<Rightarrow> 'e + 'b) \<Rightarrow> 'e + 'b" where
  "attempt x k = (case x of Inl e \<Rightarrow> Inl e | Inr y \<Rightarrow> k y)"

lemma attempt_simps [simp]: "attempt (Inl e) k = Inl e" "attempt (Inr x) k = k x"
  by (simp_all add: attempt_def)

section \<open>Strings\<close>

text \<open>The conversions \<open>[]byte(s)\<close> and \<open>string(bs)\<close>.\<close>

definition bytes_of :: "string \<Rightarrow> u8 list" where
  "bytes_of s = map (\<lambda>c. of_nat (of_char c)) s"

definition string_of :: "u8 list \<Rightarrow> string" where
  "string_of bs = map (\<lambda>b. char_of (unat b)) bs"

text \<open>\<open>copy\<close> into a zeroed field of \<open>n\<close> bytes.\<close>

definition copy_into :: "nat \<Rightarrow> u8 list \<Rightarrow> u8 list" where
  "copy_into n bs = take n bs @ replicate (n - length bs) 0"

text \<open>
  The \<open>putFixedString\<close> of the login, auth, world and combat codecs keeps room for a terminator;
  the one of \<open>control.go\<close> does not.
\<close>

definition putFixedString :: "nat \<Rightarrow> string \<Rightarrow> packet_error + u8 list" where
  "putFixedString n s =
     (if n \<le> length s then Inl ErrStringTooLong else Inr (copy_into n (bytes_of s)))"

definition control_putFixedString :: "nat \<Rightarrow> string \<Rightarrow> packet_error + u8 list" where
  "control_putFixedString n s =
     (if n < length s then Inl ErrStringTooLong else Inr (copy_into n (bytes_of s)))"

definition parseFixedString :: "u8 list \<Rightarrow> string" where
  "parseFixedString src = string_of (takeWhile (\<lambda>b. b \<noteq> 0) src)"

text \<open>\<open>bytes.TrimRight(src, "\x00")\<close>.\<close>

definition trim_right_zeros :: "u8 list \<Rightarrow> u8 list" where
  "trim_right_zeros src = rev (dropWhile (\<lambda>b. b = 0) (rev src))"

lemma length_bytes_of [simp]: "length (bytes_of s) = length s"
  by (simp add: bytes_of_def)

lemma bytes_of_Nil [simp]: "bytes_of [] = []"
  by (simp add: bytes_of_def)

lemma string_of_bytes_of [simp]: "string_of (bytes_of s) = s"
  by (induction s) (simp_all add: string_of_def bytes_of_def unat_of_nat)

lemma byte_zero_iff: "of_nat (of_char c) = (0 :: u8) \<longleftrightarrow> c = CHR 0x00"
proof
  assume "of_nat (of_char c) = (0 :: u8)"
  then have "unat (of_nat (of_char c) :: u8) = 0" by simp
  then have "of_char c = (0 :: nat)" by (simp add: unat_of_nat)
  then show "c = CHR 0x00" by (cases c) (simp add: of_char_def)
qed simp

lemma zero_in_bytes_of [simp]: "0 \<in> set (bytes_of s) \<longleftrightarrow> CHR 0x00 \<in> set s"
  by (auto simp: bytes_of_def byte_zero_iff intro!: image_eqI [where x = "CHR 0x00"] dest: sym)

lemma length_copy_into [simp]: "length (copy_into n bs) = n"
  by (simp add: copy_into_def)

lemma attempt_Inr: "attempt x k = Inr y \<longleftrightarrow> (\<exists>z. x = Inr z \<and> k z = Inr y)"
  by (cases x) simp_all

text \<open>A string that a field of \<open>n\<close> bytes holds with its terminator and gives back.\<close>

definition text_fits :: "nat \<Rightarrow> string \<Rightarrow> bool" where
  "text_fits n s \<longleftrightarrow> length s < n \<and> CHR 0x00 \<notin> set s"

lemma text_fits_D: "text_fits n s \<Longrightarrow> length s < n" "text_fits n s \<Longrightarrow> CHR 0x00 \<notin> set s"
  by (simp_all add: text_fits_def)

definition text_fills :: "nat \<Rightarrow> string \<Rightarrow> bool" where
  "text_fills n s \<longleftrightarrow> length s \<le> n \<and> CHR 0x00 \<notin> set s"

lemma putFixedString_Inr [simp]: "text_fits n s \<Longrightarrow> putFixedString n s = Inr (copy_into n (bytes_of s))"
  by (simp add: putFixedString_def text_fits_def)

lemma control_putFixedString_Inr [simp]:
  "text_fills n s \<Longrightarrow> control_putFixedString n s = Inr (copy_into n (bytes_of s))"
  by (simp add: control_putFixedString_def text_fills_def)

lemma attempt_text:
  "attempt (putFixedString n s) k =
     (if length s < n then k (copy_into n (bytes_of s)) else Inl ErrStringTooLong)"
  "attempt (control_putFixedString n s) k =
     (if length s \<le> n then k (copy_into n (bytes_of s)) else Inl ErrStringTooLong)"
  by (simp_all add: putFixedString_def control_putFixedString_def)

lemma text_length: "text_fits n s \<Longrightarrow> length s < n" "text_fills n s \<Longrightarrow> length s \<le> n"
  by (simp_all add: text_fits_def text_fills_def)

lemmas text_simps = attempt_text text_length

lemma takeWhile_bytes:
  "0 \<notin> set bs \<Longrightarrow> takeWhile (\<lambda>b. b \<noteq> (0 :: u8)) (bs @ replicate n 0 @ xs) =
   (if n = 0 then bs @ takeWhile (\<lambda>b. b \<noteq> 0) xs else bs)"
  by (subst takeWhile_append2) (auto simp: not0_implies_Suc dest!: not0_implies_Suc)

lemma parse_copy_fills [simp]: "text_fills n s \<Longrightarrow> parseFixedString (copy_into n (bytes_of s)) = s"
  using takeWhile_bytes [of "bytes_of s" "n - length s" "[]"]
  by (simp add: parseFixedString_def copy_into_def text_fills_def)

lemma parse_copy_into [simp]: "text_fits n s \<Longrightarrow> parseFixedString (copy_into n (bytes_of s)) = s"
  by (rule parse_copy_fills) (simp add: text_fits_def text_fills_def)

lemma trim_copy_into [simp]:
  "text_fits n s \<Longrightarrow> trim_right_zeros (copy_into n (bytes_of s)) = bytes_of s"
proof -
  assume s: "text_fits n s"
  then have "dropWhile (\<lambda>b. b = 0) (rev (bytes_of s)) = rev (bytes_of s)"
    by (cases "rev (bytes_of s)") (auto simp: text_fits_def dropWhile_eq_self_iff
        simp flip: zero_in_bytes_of dest: arg_cong [where f = set])
  with s show ?thesis
    by (simp add: trim_right_zeros_def copy_into_def text_fits_def) (subst dropWhile_append2, simp_all)
qed

text \<open>Loops whose body may return an error.\<close>

fun attempt_each :: "('a \<Rightarrow> 'e + 'b list) \<Rightarrow> 'a list \<Rightarrow> 'e + 'b list" where
  "attempt_each f [] = Inr []"
| "attempt_each f (x # xs) = attempt (f x) (\<lambda>b. attempt (attempt_each f xs) (\<lambda>bs. Inr (b @ bs)))"

fun attempt_map :: "('a \<Rightarrow> 'e + 'b) \<Rightarrow> 'a list \<Rightarrow> 'e + 'b list" where
  "attempt_map f [] = Inr []"
| "attempt_map f (x # xs) = attempt (f x) (\<lambda>b. attempt (attempt_map f xs) (\<lambda>bs. Inr (b # bs)))"

lemma attempt_each_Inr:
  "\<forall>x \<in> set xs. f x = Inr (g x) \<Longrightarrow> attempt_each f xs = Inr (concat (map g xs))"
  by (induction xs) simp_all

lemma attempt_map_Inr: "\<forall>x \<in> set xs. f x = Inr (g x) \<Longrightarrow> attempt_map f xs = Inr (map g xs)"
  by (induction xs) simp_all

lemma attempt_each_Inl:
  "\<forall>x \<in> set xs. f x = Inl e \<or> (\<exists>b. f x = Inr b) \<Longrightarrow> \<exists>x \<in> set xs. f x = Inl e \<Longrightarrow> attempt_each f xs = Inl e"
proof (induction xs)
  case (Cons x xs)
  show ?case
  proof (cases "f x")
    case (Inl e') 
    with Cons.prems(1) show ?thesis by force
  next
    case (Inr b)
    with Cons show ?thesis by (auto simp: attempt_def)
  qed
qed simp

section \<open>Codecs of packets\<close>

declare u16_codec.array_simps [packet_simps] u32_codec.array_simps [packet_simps]

declare EnvelopeSize_def [packet_simps] put_get_u32 [packet_simps] u16_codec.enc_dec [packet_simps]
  Let_def [packet_simps]

text \<open>The frame a decoder cuts from one encoded packet.\<close>

definition frame_in :: "u8 list \<Rightarrow> frame" where
  "frame_in bs = frame_of (get_u16 bs, drop EnvelopeSize bs)"

definition framed :: "u16 \<Rightarrow> u8 list \<Rightarrow> bool" where
  "framed h bs \<longleftrightarrow> (\<exists>p. bs = Encode h p \<and> EnvelopeSize + length p < 65536)"

lemma frame_in_Encode [simp]: "frame_in (Encode h p) = frame_of (h, p)"
  by (simp add: frame_in_def Encode_def put_u16_def EnvelopeSize_def get_put_u16' [unfolded put_u16_def])

lemma framed_Encode [intro, simp]: "EnvelopeSize + length p < 65536 \<Longrightarrow> framed h (Encode h p)"
  by (auto simp: framed_def)

lemma frame_of_simps [simp]: "Header (frame_of (h, p)) = h" "Payload (frame_of (h, p)) = p"
  by (simp_all add: frame_of_def)

lemma Feed_framed:
  assumes "buffer d = []" and "\<forall>bs \<in> set bss. (\<exists>h. framed h bs) \<and> (maxFrameSize d = 0 \<or> length bs \<le> unat (maxFrameSize d))"
  shows "Feed d (concat bss) = (d, Inr (map frame_in bss))"
proof -
  have "\<forall>bs \<in> set bss. \<exists>x. bs = Encode (fst x) (snd x) \<and> fits (maxFrameSize d) (snd x)"
  proof
    fix bs assume "bs \<in> set bss"
    with assms(2) obtain h p where "bs = Encode h p" "EnvelopeSize + length p < 65536"
      and "maxFrameSize d = 0 \<or> length bs \<le> unat (maxFrameSize d)" by (auto simp: framed_def)
    then show "\<exists>x. bs = Encode (fst x) (snd x) \<and> fits (maxFrameSize d) (snd x)"
      by (intro exI [of _ "(h, p)"]) (auto simp: fits_def)
  qed
  then obtain xs where xs: "bss = map (\<lambda>x. Encode (fst x) (snd x)) xs" "\<forall>x \<in> set xs. fits (maxFrameSize d) (snd x)"
  proof (induction bss arbitrary: thesis)
    case Nil
    then show ?case by simp
  next
    case (Cons bs bss)
    obtain x where "bs = Encode (fst x) (snd x)" "fits (maxFrameSize d) (snd x)"
      using Cons.prems(2) by auto
    moreover obtain xs where "bss = map (\<lambda>x. Encode (fst x) (snd x)) xs" "\<forall>x \<in> set xs. fits (maxFrameSize d) (snd x)"
      using Cons.IH Cons.prems(2) by auto
    ultimately show ?case by (intro Cons.prems(1) [of "x # xs"]) simp_all
  qed
  show ?thesis
    using feed_loop_encodes [OF xs(2), of "[]" "[]"] assms(1)
    by (simp add: Feed_def feed_loop_short EnvelopeSize_def xs(1))
qed

text \<open>The contract of a packet: what its encoder writes, its decoder reads.\<close>

locale packet_codec =
  fixes header :: u16 and valid :: "'p \<Rightarrow> bool"
    and encode :: "'p \<Rightarrow> u8 list" and decode :: "frame \<Rightarrow> packet_error + 'p"
  assumes encode_framed: "valid p \<Longrightarrow> framed header (encode p)"
    and decode_encode: "valid p \<Longrightarrow> decode (frame_in (encode p)) = Inr p"
    and decode_header: "Header f \<noteq> header \<Longrightarrow> decode f = Inl ErrUnexpectedHeader"
begin

lemma header_in: "valid p \<Longrightarrow> Header (frame_in (encode p)) = header"
  using encode_framed [of p] by (auto simp: framed_def)

text \<open>Whatever the chunks a stream of packets arrives in, all of them are read back.\<close>

lemma delivered:
  assumes "\<forall>p \<in> set ps. valid p" and "concat chunks = concat (map encode ps)" and "chunks \<noteq> []"
  shows "Feed_all (NewDecoder 0) chunks = (NewDecoder 0, Inr (map (frame_in \<circ> encode) ps))"
    and "map decode (map (frame_in \<circ> encode) ps) = map Inr ps"
proof -
  show "Feed_all (NewDecoder 0) chunks = (NewDecoder 0, Inr (map (frame_in \<circ> encode) ps))"
    using Feed_framed [of "NewDecoder 0" "map encode ps"] assms
    by (auto simp: Feed_all_concat NewDecoder_def intro: encode_framed)
  show "map decode (map (frame_in \<circ> encode) ps) = map Inr ps"
    using assms(1) by (simp add: decode_encode)
qed

lemma encode_inj: "valid p \<Longrightarrow> valid q \<Longrightarrow> encode p = encode q \<Longrightarrow> p = q"
  by (metis decode_encode sum.inject(2))

end

text \<open>Packets without text: nothing is accepted but what the encoder writes.\<close>

locale exact_packet = packet_codec +
  assumes decode_exact: "decode f = Inr p \<Longrightarrow> encode p = Encode header (Payload f)"
    and decode_valid: "decode f = Inr p \<Longrightarrow> EnvelopeSize + length (Payload f) < 65536 \<Longrightarrow> valid p"

text \<open>Encoders that refuse a string that does not fit its field.\<close>

definition sent :: "packet_error + u8 list \<Rightarrow> u8 list" where
  "sent r = (case r of Inl e \<Rightarrow> [] | Inr bs \<Rightarrow> bs)"

lemma sent_Inr [simp]: "sent (Inr bs) = bs"
  by (simp add: sent_def)

locale checked_packet =
  fixes header :: u16 and valid fits :: "'p \<Rightarrow> bool"
    and encode :: "'p \<Rightarrow> packet_error + u8 list" and decode :: "frame \<Rightarrow> packet_error + 'p"
  assumes valid_fits: "valid p \<Longrightarrow> fits p"
    and encode_fits: "fits p \<Longrightarrow> encode p = Inr (sent (encode p))"
    and sent_framed: "valid p \<Longrightarrow> framed header (sent (encode p))"
    and encode_refuses: "\<not> fits p \<Longrightarrow> encode p = Inl ErrStringTooLong"
    and sent_decode: "valid p \<Longrightarrow> decode (frame_in (sent (encode p))) = Inr p"
    and refuse_header: "Header f \<noteq> header \<Longrightarrow> decode f = Inl ErrUnexpectedHeader"
begin

lemma encode_iff: "encode p = Inr bs \<longleftrightarrow> fits p \<and> bs = sent (encode p)"
  using encode_fits [of p] encode_refuses [of p] by (cases "fits p") auto

end

sublocale checked_packet \<subseteq> wire: packet_codec header valid "\<lambda>p. sent (encode p)" decode
  by unfold_locales (use sent_framed sent_decode refuse_header in blast)+

text \<open>Lemmas that put the fields of an accepted payload back together.\<close>

lemma field_join [packet_simps]:
  "k + n = m \<Longrightarrow> take n (drop k b) @ drop m b = drop k b"
  "k + n = j \<Longrightarrow> take n (drop k b) @ take m (drop j b) = take (n + m) (drop k b)"
  "take n b @ take m (drop n b) = take (n + m) b"
  by (metis add.commute append_take_drop_id drop_drop, metis add.commute drop_drop take_add, metis take_add)

lemma hd_join [packet_simps]: "m + 1 \<le> length b \<Longrightarrow> b ! 0 # take m (drop (Suc 0) b) = take (Suc m) b"
  by (cases b) auto

lemma nth_join [packet_simps]:
  "Suc k = m \<Longrightarrow> k < length b \<Longrightarrow> b ! k # drop m b = drop k b"
  "Suc k = j \<Longrightarrow> k < length b \<Longrightarrow> b ! k # take m (drop j b) = take (Suc m) (drop k b)"
  "length b = Suc k \<Longrightarrow> [b ! k] = drop k b"
  "n < length b \<Longrightarrow> take n b @ [b ! n] = take (Suc n) b"
  by (auto simp: Cons_nth_drop_Suc Cons_nth_drop_Suc [of k b, symmetric] take_Suc_conv_app_nth)

end
