(* ===== verification/Wire_Control.thy ===== *)
theory Wire_Control
  imports Wire Session
begin

text \<open>
  \<open>internal/proto/control\<close>: phase announcements, ping and pong, the key exchange, the client
  version and the channel status query. Arrays of fixed size are lists of that length.
\<close>

definition HeaderPong :: u16 where [packet_simps]: "HeaderPong = 0x0006"
definition HeaderPing :: u16 where [packet_simps]: "HeaderPing = 0x0007"
definition HeaderPhase :: u16 where [packet_simps]: "HeaderPhase = 0x0008"
definition HeaderKeyResponse :: u16 where [packet_simps]: "HeaderKeyResponse = 0x000A"
definition HeaderKeyChallenge :: u16 where [packet_simps]: "HeaderKeyChallenge = 0x000B"
definition HeaderKeyComplete :: u16 where [packet_simps]: "HeaderKeyComplete = 0x000C"
definition HeaderClientVersion :: u16 where [packet_simps]: "HeaderClientVersion = 0x000D"
definition HeaderStateChecker :: u16 where [packet_simps]: "HeaderStateChecker = 0x000F"
definition HeaderRespondChannelStatus :: u16 where [packet_simps]: "HeaderRespondChannelStatus = 0x0010"

definition ChannelStatusNormal :: u8 where [packet_simps]: "ChannelStatusNormal = 1"

definition channelStatusSize :: nat where [packet_simps]: "channelStatusSize = 3"
definition channelStatusCountSize :: nat where [packet_simps]: "channelStatusCountSize = 4"
definition keyChallengePayloadLen :: nat where [packet_simps]: "keyChallengePayloadLen = 68"
definition keyResponsePayloadLen :: nat where [packet_simps]: "keyResponsePayloadLen = 64"
definition keyCompletePayloadLen :: nat where [packet_simps]: "keyCompletePayloadLen = 72"
definition clientVersionPayloadLen :: nat where [packet_simps]: "clientVersionPayloadLen = 66"

section \<open>Phases\<close>

fun encodePhaseValue :: "phase \<Rightarrow> packet_error + u8" where
  "encodePhaseValue PhaseClose = Inr 0x00"
| "encodePhaseValue PhaseHandshake = Inr 0x01"
| "encodePhaseValue PhaseLogin = Inr 0x02"
| "encodePhaseValue PhaseSelect = Inr 0x03"
| "encodePhaseValue PhaseLoading = Inr 0x04"
| "encodePhaseValue PhaseGame = Inr 0x05"
| "encodePhaseValue PhaseDead = Inr 0x06"
| "encodePhaseValue PhaseAuth = Inr 0x0A"
| "encodePhaseValue (PhaseOther s) = Inl ErrUnknownPhaseValue"

definition decodePhaseValue :: "u8 \<Rightarrow> packet_error + phase" where
  "decodePhaseValue v =
     (if v = 0x00 then Inr PhaseClose else if v = 0x01 then Inr PhaseHandshake
      else if v = 0x02 then Inr PhaseLogin else if v = 0x03 then Inr PhaseSelect
      else if v = 0x04 then Inr PhaseLoading else if v = 0x05 then Inr PhaseGame
      else if v = 0x06 then Inr PhaseDead else if v = 0x0A then Inr PhaseAuth
      else Inl ErrUnknownPhaseValue)"

lemma encodePhaseValue_known: "isKnownPhase p \<longleftrightarrow> (\<exists>v. encodePhaseValue p = Inr v)"
  by (cases p) simp_all

lemma decode_encode_phase: "encodePhaseValue p = Inr v \<Longrightarrow> decodePhaseValue v = Inr p"
  by (cases p) (auto simp: decodePhaseValue_def)

lemma encode_decode_phase: "decodePhaseValue v = Inr p \<Longrightarrow> encodePhaseValue p = Inr v"
  by (auto simp: decodePhaseValue_def split: if_splits)

record PhasePacket =
  ppPhase :: phase

definition EncodePhase :: "phase \<Rightarrow> packet_error + u8 list" where
  "EncodePhase phase = attempt (encodePhaseValue phase) (\<lambda>v. Inr (Encode HeaderPhase [v]))"

definition DecodePhase :: "frame \<Rightarrow> packet_error + PhasePacket" where
  "DecodePhase f =
     (if Header f \<noteq> HeaderPhase then Inl ErrUnexpectedHeader
      else if length (Payload f) \<noteq> 1 then Inl ErrInvalidPayload
      else attempt (decodePhaseValue (Payload f ! 0)) (\<lambda>p. Inr \<lparr>ppPhase = p\<rparr>))"

interpretation phase_packet: packet_codec HeaderPhase
    "\<lambda>p. isKnownPhase (ppPhase p)" "\<lambda>p. sent (EncodePhase (ppPhase p))" DecodePhase
  by unfold_locales
    (auto simp: EncodePhase_def DecodePhase_def encodePhaseValue_known decode_encode_phase packet_simps)

section \<open>Ping, pong and the state checker\<close>

record PingPacket =
  piServerTime :: u32

definition EncodePing :: "PingPacket \<Rightarrow> u8 list" where
  "EncodePing p =
     Encode HeaderPing (put_u32 (piServerTime p))"

definition DecodePing :: "frame \<Rightarrow> packet_error + PingPacket" where
  "DecodePing f =
     (if Header f \<noteq> HeaderPing then Inl ErrUnexpectedHeader
      else if length (Payload f) \<noteq> 4 then Inl ErrInvalidPayload
      else let b = Payload f in Inr
          \<lparr>piServerTime = get_u32 b\<rparr>)"

interpretation ping_packet: exact_packet HeaderPing "\<lambda>_. True"
    EncodePing DecodePing
  by unfold_locales (auto simp: EncodePing_def DecodePing_def packet_simps intro!: PingPacket.equality split: if_splits)

text \<open>Packets without fields are values of type \<open>unit\<close>.\<close>

definition EncodePong :: "u8 list" where
  "EncodePong = Encode HeaderPong []"

definition DecodePong :: "frame \<Rightarrow> packet_error + unit" where
  "DecodePong f =
     (if Header f \<noteq> HeaderPong then Inl ErrUnexpectedHeader
      else if length (Payload f) \<noteq> 0 then Inl ErrInvalidPayload
      else Inr ())"

interpretation pong_packet: exact_packet HeaderPong "\<lambda>_. True" "\<lambda>_. EncodePong" DecodePong
  by unfold_locales (auto simp: EncodePong_def DecodePong_def packet_simps split: if_splits)

definition EncodeStateChecker :: "u8 list" where
  "EncodeStateChecker = Encode HeaderStateChecker []"

definition DecodeStateChecker :: "frame \<Rightarrow> packet_error + unit" where
  "DecodeStateChecker f =
     (if Header f \<noteq> HeaderStateChecker then Inl ErrUnexpectedHeader
      else if length (Payload f) \<noteq> 0 then Inl ErrInvalidPayload
      else Inr ())"

interpretation state_checker_packet: exact_packet HeaderStateChecker "\<lambda>_. True" "\<lambda>_. EncodeStateChecker" DecodeStateChecker
  by unfold_locales (auto simp: EncodeStateChecker_def DecodeStateChecker_def packet_simps split: if_splits)

section \<open>The client version\<close>

record ClientVersionPacket =
  cvExecutableName :: string
  cvTimestamp :: string

definition EncodeClientVersion :: "ClientVersionPacket \<Rightarrow> packet_error + u8 list" where
  "EncodeClientVersion p =
     attempt (control_putFixedString 33 (cvExecutableName p)) (\<lambda>executableName.
     attempt (control_putFixedString 33 (cvTimestamp p)) (\<lambda>timestamp.
     Inr (Encode HeaderClientVersion
       (executableName @ timestamp))))"

definition DecodeClientVersion :: "frame \<Rightarrow> packet_error + ClientVersionPacket" where
  "DecodeClientVersion f =
     (if Header f \<noteq> HeaderClientVersion then Inl ErrUnexpectedHeader
      else if length (Payload f) \<noteq> clientVersionPayloadLen then Inl ErrInvalidPayload
      else let b = Payload f in Inr
          \<lparr>cvExecutableName = parseFixedString (take 33 b),
           cvTimestamp = parseFixedString (take 33 (drop 33 b))\<rparr>)"

interpretation client_version_packet: checked_packet HeaderClientVersion
    "\<lambda>p. text_fills 33 (cvExecutableName p) \<and> text_fills 33 (cvTimestamp p)"
    "\<lambda>p. length (cvExecutableName p) \<le> 33 \<and> length (cvTimestamp p) \<le> 33"
    EncodeClientVersion DecodeClientVersion
  by unfold_locales (auto simp: EncodeClientVersion_def DecodeClientVersion_def text_simps packet_simps
      intro!: ClientVersionPacket.equality split: if_splits)

section \<open>Channel status\<close>

record ChannelStatus =
  csPort :: i16
  csStatus :: u8

record RespondChannelStatusPacket =
  rcChannels :: "ChannelStatus list"

definition put_channel :: "ChannelStatus \<Rightarrow> u8 list" where
  "put_channel c = put_u16 (csPort c) @ [csStatus c]"

definition get_channel :: "u8 list \<Rightarrow> ChannelStatus" where
  "get_channel b = \<lparr>csPort = get_u16 b, csStatus = b ! 2\<rparr>"

interpretation channel_codec: exact_codec put_channel get_channel channelStatusSize "\<lambda>_. True"
  by unfold_locales (auto simp: put_channel_def get_channel_def packet_simps)

definition EncodeRespondChannelStatus :: "RespondChannelStatusPacket \<Rightarrow> u8 list" where
  "EncodeRespondChannelStatus p =
     Encode HeaderRespondChannelStatus
       (put_u32 (of_nat (length (rcChannels p))) @ concat (map put_channel (rcChannels p)))"

text \<open>The count is compared with what fits before it is multiplied, so the product cannot wrap.\<close>

definition DecodeRespondChannelStatus :: "frame \<Rightarrow> packet_error + RespondChannelStatusPacket" where
  "DecodeRespondChannelStatus f =
     (if Header f \<noteq> HeaderRespondChannelStatus then Inl ErrUnexpectedHeader
      else if length (Payload f) < channelStatusCountSize then Inl ErrInvalidPayload
      else let b = Payload f; count = get_u32 b in
        if count > of_nat ((length b - channelStatusCountSize) div channelStatusSize)
        then Inl ErrInvalidPayload
        else if length b \<noteq> channelStatusCountSize + unat count * channelStatusSize
        then Inl ErrInvalidPayload
        else Inr \<lparr>rcChannels =
          decode_each get_channel channelStatusSize (unat count) (drop channelStatusCountSize b)\<rparr>)"

interpretation channel_status_packet: exact_packet HeaderRespondChannelStatus
    "\<lambda>p. length (rcChannels p) < 21843" EncodeRespondChannelStatus DecodeRespondChannelStatus
proof
  fix p :: RespondChannelStatusPacket
  let ?cs = "rcChannels p"
  assume n: "length ?cs < 21843"
  have len: "length (concat (map put_channel ?cs)) = 3 * length ?cs"
    using channel_codec.length_concat [of ?cs] by (simp add: packet_simps)
  then show "framed HeaderRespondChannelStatus (EncodeRespondChannelStatus p)"
    unfolding EncodeRespondChannelStatus_def using n by (intro framed_Encode) (simp add: packet_simps)
  have "unat (of_nat (length ?cs) :: u32) = length ?cs"
    using n by (simp add: unat_of_nat)
  then show "DecodeRespondChannelStatus (frame_in (EncodeRespondChannelStatus p)) = Inr p"
    using n len channel_codec.decode_each_alone [of ?cs]
    by (auto simp: DecodeRespondChannelStatus_def EncodeRespondChannelStatus_def packet_simps
        intro!: RespondChannelStatusPacket.equality)
next
  fix f p
  assume d: "DecodeRespondChannelStatus f = Inr p"
  let ?n = "unat (get_u32 (Payload f))"
  from d have h: "Header f = HeaderRespondChannelStatus"
    and l: "length (Payload f) = 4 + ?n * 3"
    and p: "rcChannels p = decode_each get_channel 3 ?n (drop 4 (Payload f))"
    by (auto simp: DecodeRespondChannelStatus_def packet_simps split: if_splits)
  from l show "EnvelopeSize + length (Payload f) < 65536 \<Longrightarrow> length (rcChannels p) < 21843"
    by (simp add: p packet_simps)
  show "EncodeRespondChannelStatus p = Encode HeaderRespondChannelStatus (Payload f)"
    using l channel_codec.concat_decode_each [of ?n "drop 4 (Payload f)"]
    by (simp add: EncodeRespondChannelStatus_def p packet_simps)
qed (simp add: DecodeRespondChannelStatus_def)

section \<open>The key exchange\<close>

record KeyChallengePacket =
  kcServerPublicKey :: "u8 list"
  kcChallenge :: "u8 list"
  kcServerTime :: u32

definition EncodeKeyChallenge :: "KeyChallengePacket \<Rightarrow> u8 list" where
  "EncodeKeyChallenge p =
     Encode HeaderKeyChallenge (kcServerPublicKey p @ kcChallenge p @ put_u32 (kcServerTime p))"

definition DecodeKeyChallenge :: "frame \<Rightarrow> packet_error + KeyChallengePacket" where
  "DecodeKeyChallenge f =
     (if Header f \<noteq> HeaderKeyChallenge then Inl ErrUnexpectedHeader
      else if length (Payload f) \<noteq> keyChallengePayloadLen then Inl ErrInvalidPayload
      else let b = Payload f in Inr
          \<lparr>kcServerPublicKey = take 32 b, kcChallenge = take 32 (drop 32 b),
           kcServerTime = get_u32 (drop 64 b)\<rparr>)"

interpretation key_challenge_packet: exact_packet HeaderKeyChallenge "\<lambda>p. length (kcServerPublicKey p) = 32 \<and> length (kcChallenge p) = 32"
    EncodeKeyChallenge DecodeKeyChallenge
  by unfold_locales (auto simp: EncodeKeyChallenge_def DecodeKeyChallenge_def packet_simps intro!: KeyChallengePacket.equality split: if_splits)

record KeyResponsePacket =
  krClientPublicKey :: "u8 list"
  krChallengeResponse :: "u8 list"

definition EncodeKeyResponse :: "KeyResponsePacket \<Rightarrow> u8 list" where
  "EncodeKeyResponse p =
     Encode HeaderKeyResponse (krClientPublicKey p @ krChallengeResponse p)"

definition DecodeKeyResponse :: "frame \<Rightarrow> packet_error + KeyResponsePacket" where
  "DecodeKeyResponse f =
     (if Header f \<noteq> HeaderKeyResponse then Inl ErrUnexpectedHeader
      else if length (Payload f) \<noteq> keyResponsePayloadLen then Inl ErrInvalidPayload
      else let b = Payload f in Inr
          \<lparr>krClientPublicKey = take 32 b, krChallengeResponse = take 32 (drop 32 b)\<rparr>)"

interpretation key_response_packet: exact_packet HeaderKeyResponse "\<lambda>p. length (krClientPublicKey p) = 32 \<and> length (krChallengeResponse p) = 32"
    EncodeKeyResponse DecodeKeyResponse
  by unfold_locales (auto simp: EncodeKeyResponse_def DecodeKeyResponse_def packet_simps intro!: KeyResponsePacket.equality split: if_splits)

record KeyCompletePacket =
  kdEncryptedToken :: "u8 list"
  kdNonce :: "u8 list"

definition EncodeKeyComplete :: "KeyCompletePacket \<Rightarrow> u8 list" where
  "EncodeKeyComplete p =
     Encode HeaderKeyComplete (kdEncryptedToken p @ kdNonce p)"

definition DecodeKeyComplete :: "frame \<Rightarrow> packet_error + KeyCompletePacket" where
  "DecodeKeyComplete f =
     (if Header f \<noteq> HeaderKeyComplete then Inl ErrUnexpectedHeader
      else if length (Payload f) \<noteq> keyCompletePayloadLen then Inl ErrInvalidPayload
      else let b = Payload f in Inr
          \<lparr>kdEncryptedToken = take 48 b, kdNonce = take 24 (drop 48 b)\<rparr>)"

interpretation key_complete_packet: exact_packet HeaderKeyComplete "\<lambda>p. length (kdEncryptedToken p) = 48 \<and> length (kdNonce p) = 24"
    EncodeKeyComplete DecodeKeyComplete
  by unfold_locales (auto simp: EncodeKeyComplete_def DecodeKeyComplete_def packet_simps intro!: KeyCompletePacket.equality split: if_splits)

end
