(* ===== verification/Secure_Cipher.thy ===== *)
theory Secure_Cipher
  imports Wire_Control
begin

text \<open>
  \<open>internal/securecipher\<close>: the key exchange of a connection and the stream cipher both ends run
  afterwards. The cryptographic primitives (X25519, BLAKE2b, HMAC-SHA512, XChaCha20-Poly1305 and
  XChaCha20) are an argument of the definitions; what is relied on of them are the laws
  \<open>crypto_laws\<close>, which their documentation states. Go panics where \<open>CounterOverflow\<close> is returned here. A source of random bytes is the list of the
  bytes it will deliver, after which reading from it fails.
\<close>

record crypto =
  generate_key :: "u8 list \<Rightarrow> (u8 list \<times> u8 list) option"
  public_key :: "u8 list \<Rightarrow> u8 list"
  ecdh :: "u8 list \<Rightarrow> u8 list \<Rightarrow> u8 list option"
  blake2b_512 :: "u8 list \<Rightarrow> u8 list"
  hmac_sha512 :: "u8 list \<Rightarrow> u8 list \<Rightarrow> u8 list"
  aead_seal :: "u8 list \<Rightarrow> u8 list \<Rightarrow> u8 list \<Rightarrow> u8 list"
  aead_open :: "u8 list \<Rightarrow> u8 list \<Rightarrow> u8 list \<Rightarrow> u8 list option"
  key_block :: "u8 list \<Rightarrow> u8 list \<Rightarrow> u32 \<Rightarrow> u8 list"

text \<open>
  Public keys have 32 bytes and two parties compute the same secret; digests have 64 bytes; an
  opened seal is what was sealed, 16 bytes shorter, for keys and nonces of the right size; a block of the key stream has 64 bytes.
\<close>

definition crypto_laws :: "crypto \<Rightarrow> bool" where
  "crypto_laws c \<longleftrightarrow>
     (\<forall>k. length (public_key c k) = 32) \<and>
     (\<forall>a b. ecdh c a (public_key c b) = ecdh c b (public_key c a)) \<and>
     (\<forall>m. length (blake2b_512 c m) = 64) \<and>
     (\<forall>k m. length (hmac_sha512 c k m) = 64) \<and>
     (\<forall>k n m. length k = 32 \<and> length n = 24 \<longrightarrow>
        length (aead_seal c k n m) = length m + 16 \<and> aead_open c k n (aead_seal c k n m) = Some m) \<and>
     (\<forall>k n i. length (key_block c k n i) = 64)"

lemma crypto_laws_seal:
  "crypto_laws c \<Longrightarrow> length k = 32 \<Longrightarrow> length n = 24 \<Longrightarrow>
   length (aead_seal c k n m) = length m + 16 \<and> aead_open c k n (aead_seal c k n m) = Some m"
  by (simp add: crypto_laws_def)

datatype cipher_error =
    ErrInvalidServerPublicKey | ErrInvalidClientPublicKey | ErrChallengeNotStarted
  | ErrChallengeResponseFailed | ErrCipherNotReady
  | ErrRandom | ErrSharedSecret | ErrTokenOpen | ErrTokenSize | CounterOverflow

definition nonceSize :: nat where "nonceSize = 24"
definition sessionKeySize :: nat where "sessionKeySize = 32"
definition sessionTokenSize :: nat where "sessionTokenSize = 32"
definition keystreamBlock :: nat where "keystreamBlock = 64"

record server_session =
  ssRandom :: "u8 list"
  ssPrivateKey :: "u8 list option"
  ssPublicKey :: "u8 list"
  ssChallenge :: "u8 list"
  ssTxKey :: "u8 list"
  ssRxKey :: "u8 list"
  ssTxNonce :: "u8 list"
  ssRxNonce :: "u8 list"
  ssTxOffset :: u64
  ssRxOffset :: u64
  ssToken :: "u8 list"
  ssStarted :: bool
  ssActive :: bool
  ssPending :: bool

record client_session =
  clRandom :: "u8 list"
  clPrivateKey :: "u8 list option"
  clPublicKey :: "u8 list"
  clTxKey :: "u8 list"
  clRxKey :: "u8 list"
  clTxNonce :: "u8 list"
  clRxNonce :: "u8 list"
  clTxOffset :: u64
  clRxOffset :: u64
  clToken :: "u8 list"
  clActive :: bool

definition NewServerSession :: "u8 list \<Rightarrow> server_session" where
  "NewServerSession random =
     \<lparr>ssRandom = random, ssPrivateKey = None, ssPublicKey = replicate 32 0, ssChallenge = replicate 32 0,
      ssTxKey = replicate 32 0, ssRxKey = replicate 32 0, ssTxNonce = replicate 24 0,
      ssRxNonce = replicate 24 0, ssTxOffset = 0, ssRxOffset = 0, ssToken = replicate 32 0,
      ssStarted = False, ssActive = False, ssPending = False\<rparr>"

definition NewClientSession :: "u8 list \<Rightarrow> client_session" where
  "NewClientSession random =
     \<lparr>clRandom = random, clPrivateKey = None, clPublicKey = replicate 32 0,
      clTxKey = replicate 32 0, clRxKey = replicate 32 0, clTxNonce = replicate 24 0,
      clRxNonce = replicate 24 0, clTxOffset = 0, clRxOffset = 0, clToken = replicate 32 0,
      clActive = False\<rparr>"

section \<open>The stream cipher\<close>

text \<open>\<open>XORKeyStream\<close> of a cipher whose counter was set; it panics when the block counter would
  pass 32 bits.\<close>

definition xor_bytes :: "u8 list \<Rightarrow> u8 list \<Rightarrow> u8 list" where
  "xor_bytes xs ys = map2 (XOR) xs ys"

definition xor_key_stream :: "crypto \<Rightarrow> u8 list \<Rightarrow> u8 list \<Rightarrow> u32 \<Rightarrow> u8 list \<Rightarrow> u8 list option" where
  "xor_key_stream c key nonce counter src =
     (let blocks = (length src + 63) div 64 in
      if 2 ^ 32 < unat counter + blocks then None
      else Some (xor_bytes src
        (concat (map (\<lambda>i. key_block c key nonce (counter + of_nat i)) [0..<blocks]))))"

text \<open>
  A buffer that starts inside a block uses up the rest of that block first; what remains starts
  at a block boundary. The result is the buffer and the stream offset afterwards.
\<close>

definition applyStreamCipher ::
    "crypto \<Rightarrow> u8 list \<Rightarrow> u8 list \<Rightarrow> u64 \<Rightarrow> u8 list \<Rightarrow> cipher_error + u8 list \<times> u64" where
  "applyStreamCipher c buf key byteOffset nonce =
     (if length buf = 0 then Inr (buf, byteOffset)
      else if length key \<noteq> sessionKeySize then Inl ErrCipherNotReady
      else if length nonce \<noteq> nonceSize then Inl ErrCipherNotReady
      else
        let offset = unat (byteOffset mod of_nat keystreamBlock);
            head = (if offset \<noteq> 0 then
                      case xor_key_stream c key nonce (ucast (byteOffset div of_nat keystreamBlock))
                             (replicate keystreamBlock 0) of
                        None \<Rightarrow> Inl CounterOverflow
                      | Some keystream \<Rightarrow>
                          let use = min (length buf) (keystreamBlock - offset) in
                          Inr (xor_bytes (take use buf) (drop offset keystream), drop use buf,
                               byteOffset + of_nat use)
                    else Inr ([], buf, byteOffset)) in
        case head of
          Inl e \<Rightarrow> Inl e
        | Inr (first, remaining, off) \<Rightarrow>
            if length remaining = 0 then Inr (first, off)
            else
              case xor_key_stream c key nonce (ucast (off div of_nat keystreamBlock)) remaining of
                None \<Rightarrow> Inl CounterOverflow
              | Some rest \<Rightarrow> Inr (first @ rest, off + of_nat (length remaining)))"

text \<open>What it computes: byte \<open>i\<close> of the buffer meets byte \<open>off + i\<close> of one endless key stream.\<close>

definition key_byte :: "crypto \<Rightarrow> u8 list \<Rightarrow> u8 list \<Rightarrow> nat \<Rightarrow> u8" where
  "key_byte c key nonce i = key_block c key nonce (of_nat (i div 64)) ! (i mod 64)"

definition stream_from :: "crypto \<Rightarrow> u8 list \<Rightarrow> u8 list \<Rightarrow> nat \<Rightarrow> nat \<Rightarrow> u8 list" where
  "stream_from c key nonce off n = map (\<lambda>i. key_byte c key nonce (off + i)) [0..<n]"

lemma length_xor_bytes [simp]: "length (xor_bytes xs ys) = min (length xs) (length ys)"
  by (simp add: xor_bytes_def)

lemma length_stream_from [simp]: "length (stream_from c k n off m) = m"
  by (simp add: stream_from_def)

lemma xor_bytes_append:
  "length a = length x \<Longrightarrow> xor_bytes (a @ b) (x @ y) = xor_bytes a x @ xor_bytes b y"
  by (simp add: xor_bytes_def)

lemma xor_bytes_more: "length a \<le> length x \<Longrightarrow> xor_bytes a (x @ y) = xor_bytes a x"
  by (induction a arbitrary: x) (auto simp: xor_bytes_def Suc_le_length_iff)

lemma xor_bytes_take: "xor_bytes a (take (length a) x) = xor_bytes a x"
proof (induction a arbitrary: x)
  case (Cons b a)
  then show ?case by (cases x) (simp_all add: xor_bytes_def)
qed (simp add: xor_bytes_def)

lemma xor_bytes_zero: "n = length x \<Longrightarrow> xor_bytes (replicate n 0) x = x"
  by (induction x arbitrary: n) (auto simp: xor_bytes_def)

lemma xor_bytes_twice: "length a = length x \<Longrightarrow> xor_bytes (xor_bytes a x) x = a"
  by (induction a x rule: list_induct2) (simp_all add: xor_bytes_def xor.assoc)

lemma stream_from_add:
  "stream_from c k n off (a + b) = stream_from c k n off a @ stream_from c k n (off + a) b"
  by (rule nth_equalityI) (auto simp: stream_from_def nth_append)

lemma stream_from_block:
  "crypto_laws c \<Longrightarrow> off mod 64 = 0 \<Longrightarrow>
   stream_from c k n off 64 = key_block c k n (of_nat (off div 64))"
  by (rule nth_equalityI) (auto simp: crypto_laws_def stream_from_def key_byte_def mod_add_left_eq
      div_add1_eq [of off])

lemma stream_from_blocks:
  assumes "crypto_laws c" and "off mod 64 = 0"
  shows "stream_from c k n off (64 * b) =
    concat (map (\<lambda>i. key_block c k n (of_nat (off div 64) + of_nat i)) [0..<b])"
proof (induction b)
  case 0
  then show ?case by (simp add: stream_from_def)
next
  case (Suc b)
  have "stream_from c k n (off + 64 * b) 64 = key_block c k n (of_nat (off div 64) + of_nat b)"
    using assms by (subst stream_from_block) (simp_all add: mod_add_eq [symmetric] add.commute)
  with Suc show ?case
    by (simp add: stream_from_add [of _ _ _ _ "64 * b" 64, simplified add.commute [of _ 64]] add.commute)
qed

lemma stream_from_drop:
  "m \<le> n \<Longrightarrow> drop m (stream_from c k nn off n) = stream_from c k nn (off + m) (n - m)"
  using stream_from_add [of c k nn off m "n - m"] by simp

lemma stream_from_take: "m \<le> n \<Longrightarrow> take m (stream_from c k nn off n) = stream_from c k nn off m"
  using stream_from_add [of c k nn off m "n - m"] by simp

lemma xor_key_stream_exact:
  assumes c: "crypto_laws c" and "off mod 64 = 0" and "off + length src \<le> 2 ^ 38"
  shows "xor_key_stream c k n (of_nat (off div 64)) src =
    Some (xor_bytes src (stream_from c k n off (length src)))"
proof (cases "src = []")
  case True
  have "unat (of_nat (off div 64) :: u32) < 2 ^ LENGTH(32)"
    by (rule unsigned_less)
  with True show ?thesis by (simp add: xor_key_stream_def xor_bytes_def Let_def)
next
  case False
  let ?b = "(length src + 63) div 64"
  obtain q where q: "off = 64 * q" using assms(2) by (auto simp: mod_eq_0_iff_dvd elim!: dvdE)
  have "0 < length src" using False by simp
  moreover have "64 * q + length src \<le> 274877906944" using assms(3) q by simp
  ultimately have "q < 4294967296" and "q + ?b \<le> 4294967296" by linarith+
  then have lt: "off div 64 < 2 ^ 32" and le: "off div 64 + ?b \<le> 2 ^ 32" by (simp_all add: q)
  then have "unat (of_nat (off div 64) :: u32) = off div 64"
    by (simp add: unat_of_nat)
  moreover have "xor_bytes src (stream_from c k n off (64 * ?b)) =
      xor_bytes src (stream_from c k n off (length src))"
    using xor_bytes_take [of src "stream_from c k n off (64 * ?b)"]
    by (simp add: stream_from_take)
  ultimately show ?thesis
    using le stream_from_blocks [OF c assms(2), of k n ?b]
    by (simp add: xor_key_stream_def Let_def)
qed


lemma unat_u64_add: "unat (off :: u64) + n < 2 ^ 64 \<Longrightarrow> unat (off + of_nat n) = unat off + n"
  by (subst unat_add_no_wrap) (simp_all add: unat_of_nat)

lemma block_counter: "(ucast (off div 64 :: u64) :: u32) = of_nat (unat off div 64)"
proof -
  have "(ucast (off div 64) :: u32) = of_nat (unat (off div 64))" by simp
  then show ?thesis by (simp only: unat_div) simp
qed

lemma applyStreamCipher_exact:
  assumes c: "crypto_laws c" and k: "length key = 32" and n: "length nonce = 24"
    and lim: "unat off + length buf \<le> 2 ^ 38"
  shows "applyStreamCipher c buf key off nonce =
    Inr (xor_bytes buf (stream_from c key nonce (unat off) (length buf)), off + of_nat (length buf))"
proof (cases "buf = []")
  case True
  then show ?thesis by (simp add: applyStreamCipher_def xor_bytes_def)
next
  case False
  then have pos: "0 < length buf" by simp
  then have small: "unat off < 2 ^ 38" using lim by linarith
  let ?s = "stream_from c key nonce"
  let ?o = "unat off mod 64" and ?use = "min (length buf) (64 - unat off mod 64)"
  have off: "unat (off mod of_nat keystreamBlock) = ?o"
    by (simp add: keystreamBlock_def unat_mod)
  show ?thesis
  proof (cases "?o = 0")
    case True
    then show ?thesis
      using False xor_key_stream_exact [OF c True lim, of key nonce] block_counter [of off]
      by (simp add: applyStreamCipher_def k n nonceSize_def sessionKeySize_def off Let_def)
        (simp add: keystreamBlock_def)
  next
    case mid: False
    let ?start = "64 * (unat off div 64)"
    have base: "?start mod 64 = 0" "?start div 64 = unat off div 64" "unat off = ?start + ?o" by simp_all
    have "xor_key_stream c key nonce (of_nat (unat off div 64)) (replicate 64 0) = Some (?s ?start 64)"
      using xor_key_stream_exact [OF c base(1), of "replicate 64 0" key nonce] small
      by (simp add: xor_bytes_zero)
    then have block: "xor_key_stream c key nonce (ucast (off div of_nat keystreamBlock))
        (replicate keystreamBlock 0) = Some (?s ?start 64)"
      using block_counter [of off] by (simp add: keystreamBlock_def)
    have "xor_bytes (take ?use buf) (drop ?o (?s ?start 64)) =
        xor_bytes (take ?use buf) (?s (unat off) ?use)"
      using xor_bytes_take [of "take ?use buf" "?s (?start + ?o) (64 - ?o)"]
      by (simp add: stream_from_drop stream_from_take)
    note first = this
    show ?thesis
    proof (cases "length buf \<le> 64 - ?o")
      case True
      with first mid False show ?thesis
        by (simp add: applyStreamCipher_def k n nonceSize_def sessionKeySize_def off block Let_def)
          (simp add: keystreamBlock_def min_absorb1)
    next
      case far: False
      let ?m = "64 - ?o"
      have use: "min (length buf) (keystreamBlock - ?o) = ?m"
        using far by (simp add: keystreamBlock_def)
      have off': "unat (off + of_nat ?m) = unat off + ?m"
        using small by (intro unat_u64_add) simp
      have al: "(unat off + ?m) mod 64 = 0" by presburger
      have lim': "unat off + ?m + length (drop ?m buf) \<le> 2 ^ 38" using far lim by simp
      then have "unat (off + of_nat ?m) < 2 ^ 38" using far off' by simp
      then have "xor_key_stream c key nonce (ucast ((off + of_nat ?m) div of_nat keystreamBlock)) (drop ?m buf) =
          Some (xor_bytes (drop ?m buf) (?s (unat off + ?m) (length buf - ?m)))"
        using xor_key_stream_exact [OF c al lim', of key nonce] block_counter [of "off + of_nat ?m"] off'
        by (simp add: keystreamBlock_def)
      moreover have "xor_bytes (take ?m buf) (?s (unat off) ?m) @
          xor_bytes (drop ?m buf) (?s (unat off + ?m) (length buf - ?m)) =
          xor_bytes buf (?s (unat off) (length buf))"
        using far xor_bytes_append [of "take ?m buf" "?s (unat off) ?m" "drop ?m buf" "?s (unat off + ?m) (length buf - ?m)"]
          stream_from_add [of c key nonce "unat off" ?m "length buf - ?m"] by simp
      moreover have "off + of_nat ?m + of_nat (length buf - ?m) = off + of_nat (length buf)"
        using far by (simp only: add.assoc of_nat_add [symmetric]) simp
      ultimately show ?thesis
        using far mid False first
        by (simp add: applyStreamCipher_def k n nonceSize_def sessionKeySize_def off block use Let_def)
    qed
  qed
qed

section \<open>Key exchange\<close>

text \<open>
  \<open>io.ReadFull(random, dst)\<close>: the bytes it has are copied even when there are too few. The result
  is \<open>dst\<close> and the source afterwards, and whether it succeeded.
\<close>

definition read_full :: "u8 list \<Rightarrow> u8 list \<Rightarrow> u8 list \<times> u8 list \<times> bool" where
  "read_full random dst =
     (if length dst \<le> length random then (take (length dst) random, drop (length dst) random, True)
      else (random @ drop (length random) dst, [], False))"

definition generateServerKeyPair :: "crypto \<Rightarrow> server_session \<Rightarrow> server_session \<times> cipher_error option" where
  "generateServerKeyPair c s =
     (case generate_key c (ssRandom s) of
        None \<Rightarrow> (s, Some ErrRandom)
      | Some (k, rest) \<Rightarrow>
          (s\<lparr>ssRandom := rest, ssPrivateKey := Some k, ssPublicKey := public_key c k\<rparr>, None))"

definition generateClientKeyPair :: "crypto \<Rightarrow> client_session \<Rightarrow> client_session \<times> cipher_error option" where
  "generateClientKeyPair c s =
     (case generate_key c (clRandom s) of
        None \<Rightarrow> (s, Some ErrRandom)
      | Some (k, rest) \<Rightarrow>
          (s\<lparr>clRandom := rest, clPrivateKey := Some k, clPublicKey := public_key c k\<rparr>, None))"

definition deriveSharedKeys ::
    "crypto \<Rightarrow> u8 list \<Rightarrow> u8 list \<Rightarrow> u8 list \<Rightarrow> u8 list \<Rightarrow> cipher_error + u8 list" where
  "deriveSharedKeys c privateKey peer clientPublic serverPublic =
     (case ecdh c privateKey peer of
        None \<Rightarrow> Inl ErrSharedSecret
      | Some shared \<Rightarrow> Inr (blake2b_512 c (shared @ clientPublic @ serverPublic)))"

text \<open>The key to send with and the key to receive with, which the two ends take the other way round.\<close>

definition deriveClientSessionKeys ::
    "crypto \<Rightarrow> u8 list \<Rightarrow> u8 list \<Rightarrow> u8 list \<Rightarrow> cipher_error + u8 list \<times> u8 list" where
  "deriveClientSessionKeys c privateKey clientPublic serverPublic =
     (case deriveSharedKeys c privateKey serverPublic clientPublic serverPublic of
        Inl e \<Rightarrow> Inl e
      | Inr keys \<Rightarrow> Inr (drop 32 keys, take 32 keys))"

definition deriveServerSessionKeys ::
    "crypto \<Rightarrow> u8 list \<Rightarrow> u8 list \<Rightarrow> u8 list \<Rightarrow> cipher_error + u8 list \<times> u8 list" where
  "deriveServerSessionKeys c privateKey serverPublic clientPublic =
     (case deriveSharedKeys c privateKey clientPublic clientPublic serverPublic of
        Inl e \<Rightarrow> Inl e
      | Inr keys \<Rightarrow> Inr (take 32 keys, drop 32 keys))"

definition computeChallengeResponse :: "crypto \<Rightarrow> u8 list \<Rightarrow> u8 list \<Rightarrow> u8 list" where
  "computeChallengeResponse c challenge key = take 32 (hmac_sha512 c key challenge)"

definition verifyChallengeResponse :: "crypto \<Rightarrow> u8 list \<Rightarrow> u8 list \<Rightarrow> u8 list \<Rightarrow> bool" where
  "verifyChallengeResponse c challenge key response = (computeChallengeResponse c challenge key = response)"

definition encryptToken ::
    "crypto \<Rightarrow> u8 list \<Rightarrow> u8 list \<Rightarrow> u8 list \<Rightarrow> u8 list \<times> (cipher_error + u8 list \<times> u8 list)" where
  "encryptToken c random key plaintext =
     (case read_full random (replicate nonceSize 0) of
        (nonce, rest, False) \<Rightarrow> (rest, Inl ErrRandom)
      | (nonce, rest, True) \<Rightarrow> (rest, Inr (aead_seal c key nonce plaintext, nonce)))"

definition decryptToken :: "crypto \<Rightarrow> u8 list \<Rightarrow> u8 list \<Rightarrow> u8 list \<Rightarrow> cipher_error + u8 list" where
  "decryptToken c key nonce ciphertext =
     (case aead_open c key nonce ciphertext of
        None \<Rightarrow> Inl ErrTokenOpen
      | Some plaintext \<Rightarrow>
          if length plaintext \<noteq> sessionTokenSize then Inl ErrTokenSize else Inr plaintext)"

definition ServerSession_Start ::
    "crypto \<Rightarrow> u32 \<Rightarrow> server_session \<Rightarrow> server_session \<times> (cipher_error + KeyChallengePacket)" where
  "ServerSession_Start c now s =
     (case generateServerKeyPair c s of
        (s, Some e) \<Rightarrow> (s, Inl e)
      | (s, None) \<Rightarrow>
          case read_full (ssRandom s) (ssChallenge s) of
            (challenge, rest, False) \<Rightarrow> (s\<lparr>ssChallenge := challenge, ssRandom := rest\<rparr>, Inl ErrRandom)
          | (challenge, rest, True) \<Rightarrow>
              (s\<lparr>ssChallenge := challenge, ssRandom := rest, ssTxKey := replicate 32 0,
                 ssRxKey := replicate 32 0, ssTxNonce := replicate 24 0, ssRxNonce := replicate 24 0,
                 ssToken := replicate 32 0, ssTxOffset := 0, ssRxOffset := 0, ssActive := False,
                 ssPending := False, ssStarted := True\<rparr>,
               Inr \<lparr>kcServerPublicKey = ssPublicKey s, kcChallenge = challenge, kcServerTime = now\<rparr>))"

text \<open>
  The response is checked after the keys, nonces and offsets were replaced; the arrays of a packet
  have their fixed length, so that the check of the client's public key asks for 32 bytes.
\<close>

definition ServerSession_HandleKeyResponse ::
    "crypto \<Rightarrow> server_session \<Rightarrow> KeyResponsePacket \<Rightarrow> server_session \<times> (cipher_error + KeyCompletePacket)" where
  "ServerSession_HandleKeyResponse c s p =
     (case ssPrivateKey s of
        None \<Rightarrow> (s, Inl ErrChallengeNotStarted)
      | Some privateKey \<Rightarrow>
          if \<not> ssStarted s then (s, Inl ErrChallengeNotStarted)
          else if length (krClientPublicKey p) \<noteq> 32 then (s, Inl ErrInvalidClientPublicKey)
          else case deriveServerSessionKeys c privateKey (ssPublicKey s) (krClientPublicKey p) of
            Inl e \<Rightarrow> (s, Inl e)
          | Inr (tx, rx) \<Rightarrow>
              let s1 = s\<lparr>ssTxKey := tx, ssRxKey := rx, ssTxNonce := 0x01 # replicate 23 0,
                         ssRxNonce := 0x02 # replicate 23 0, ssTxOffset := 0, ssRxOffset := 0\<rparr> in
              if \<not> verifyChallengeResponse c (ssChallenge s) rx (krChallengeResponse p)
              then (s1, Inl ErrChallengeResponseFailed)
              else case read_full (ssRandom s1) (ssToken s1) of
                (token, rest, False) \<Rightarrow> (s1\<lparr>ssToken := token, ssRandom := rest\<rparr>, Inl ErrRandom)
              | (token, rest, True) \<Rightarrow>
                  case encryptToken c rest tx token of
                    (rest, Inl e) \<Rightarrow> (s1\<lparr>ssToken := token, ssRandom := rest\<rparr>, Inl e)
                  | (rest, Inr (ciphertext, nonce)) \<Rightarrow>
                      (s1\<lparr>ssToken := token, ssRandom := rest, ssPending := True\<rparr>,
                       Inr \<lparr>kdEncryptedToken = copy_into 48 ciphertext, kdNonce = copy_into 24 nonce\<rparr>))"

definition ServerSession_EncryptOutgoing ::
    "crypto \<Rightarrow> server_session \<Rightarrow> u8 list \<Rightarrow> server_session \<times> (cipher_error + u8 list)" where
  "ServerSession_EncryptOutgoing c s raw =
     (if length raw = 0 then (s, Inr raw)
      else if ssPending s then (s\<lparr>ssPending := False, ssActive := True\<rparr>, Inr raw)
      else if \<not> ssActive s then (s, Inr raw)
      else case applyStreamCipher c raw (ssTxKey s) (ssTxOffset s) (ssTxNonce s) of
        Inl e \<Rightarrow> (s, Inl e)
      | Inr (out, off) \<Rightarrow> (s\<lparr>ssTxOffset := off\<rparr>, Inr out))"

definition ServerSession_DecryptIncoming ::
    "crypto \<Rightarrow> server_session \<Rightarrow> u8 list \<Rightarrow> server_session \<times> (cipher_error + u8 list)" where
  "ServerSession_DecryptIncoming c s raw =
     (if length raw = 0 \<or> \<not> ssActive s then (s, Inr raw)
      else case applyStreamCipher c raw (ssRxKey s) (ssRxOffset s) (ssRxNonce s) of
        Inl e \<Rightarrow> (s, Inl e)
      | Inr (out, off) \<Rightarrow> (s\<lparr>ssRxOffset := off\<rparr>, Inr out))"

definition ClientSession_HandleKeyChallenge ::
    "crypto \<Rightarrow> client_session \<Rightarrow> KeyChallengePacket \<Rightarrow> client_session \<times> (cipher_error + KeyResponsePacket)" where
  "ClientSession_HandleKeyChallenge c s p =
     (case generateClientKeyPair c s of
        (s, Some e) \<Rightarrow> (s, Inl e)
      | (s, None) \<Rightarrow>
          if length (kcServerPublicKey p) \<noteq> 32 then (s, Inl ErrInvalidServerPublicKey)
          else case deriveClientSessionKeys c (the (clPrivateKey s)) (clPublicKey s) (kcServerPublicKey p) of
            Inl e \<Rightarrow> (s, Inl e)
          | Inr (tx, rx) \<Rightarrow>
              (s\<lparr>clTxKey := tx, clRxKey := rx, clTxNonce := 0x02 # replicate 23 0,
                 clRxNonce := 0x01 # replicate 23 0, clTxOffset := 0, clRxOffset := 0, clActive := False\<rparr>,
               Inr \<lparr>krClientPublicKey = clPublicKey s,
                    krChallengeResponse = computeChallengeResponse c (kcChallenge p) tx\<rparr>))"

definition ClientSession_HandleKeyComplete ::
    "crypto \<Rightarrow> client_session \<Rightarrow> KeyCompletePacket \<Rightarrow> client_session \<times> cipher_error option" where
  "ClientSession_HandleKeyComplete c s p =
     (if clPrivateKey s = None then (s, Some ErrCipherNotReady)
      else case decryptToken c (clRxKey s) (kdNonce p) (kdEncryptedToken p) of
        Inl e \<Rightarrow> (s, Some e)
      | Inr plaintext \<Rightarrow> (s\<lparr>clToken := plaintext, clActive := True\<rparr>, None))"

definition ClientSession_EncryptOutgoing ::
    "crypto \<Rightarrow> client_session \<Rightarrow> u8 list \<Rightarrow> client_session \<times> (cipher_error + u8 list)" where
  "ClientSession_EncryptOutgoing c s raw =
     (if length raw = 0 \<or> \<not> clActive s then (s, Inr raw)
      else case applyStreamCipher c raw (clTxKey s) (clTxOffset s) (clTxNonce s) of
        Inl e \<Rightarrow> (s, Inl e)
      | Inr (out, off) \<Rightarrow> (s\<lparr>clTxOffset := off\<rparr>, Inr out))"

definition ClientSession_DecryptIncoming ::
    "crypto \<Rightarrow> client_session \<Rightarrow> u8 list \<Rightarrow> client_session \<times> (cipher_error + u8 list)" where
  "ClientSession_DecryptIncoming c s raw =
     (if length raw = 0 \<or> \<not> clActive s then (s, Inr raw)
      else case applyStreamCipher c raw (clRxKey s) (clRxOffset s) (clRxNonce s) of
        Inl e \<Rightarrow> (s, Inl e)
      | Inr (out, off) \<Rightarrow> (s\<lparr>clRxOffset := off\<rparr>, Inr out))"

end
