(* ===== verification/Secure_Channel.thy ===== *)
theory Secure_Channel
  imports Secure_Cipher
begin

text \<open>
  What the secure sessions of \<open>internal/securecipher\<close> promise their users: the two ends of an
  honest key exchange hold the same keys and token, and from then on whatever one end encrypts the
  other decrypts, however the network cuts the bytes.
\<close>

section \<open>One end of a stream\<close>

text \<open>A sequence of messages or chunks through one direction of a session, until an error.\<close>

fun stream_all :: "('s \<Rightarrow> u8 list \<Rightarrow> 's \<times> ('e + u8 list)) \<Rightarrow> 's \<Rightarrow> u8 list list \<Rightarrow> 's \<times> ('e + u8 list)" where
  "stream_all process s [] = (s, Inr [])"
| "stream_all process s (m # ms) =
     (case process s m of
        (s1, Inl e) \<Rightarrow> (s1, Inl e)
      | (s1, Inr out) \<Rightarrow>
          case stream_all process s1 ms of
            (s2, Inl e) \<Rightarrow> (s2, Inl e)
          | (s2, Inr rest) \<Rightarrow> (s2, Inr (out @ rest)))"

text \<open>
  The contract of a direction that is ready: a call turns its bytes with the key stream from the
  current offset on, moves the offset and changes nothing else that matters.
\<close>

locale cipher_end =
  fixes process :: "'s \<Rightarrow> u8 list \<Rightarrow> 's \<times> ('e + u8 list)"
    and ready :: "'s \<Rightarrow> bool" and offset :: "'s \<Rightarrow> nat"
    and keys :: "'s \<Rightarrow> nat \<Rightarrow> nat \<Rightarrow> u8 list" and frame :: "'s \<Rightarrow> 'f"
  assumes process_ready: "ready s \<Longrightarrow> offset s + length raw \<le> 2 ^ 38 \<Longrightarrow>
      \<exists>s'. process s raw = (s', Inr (xor_bytes raw (keys s (offset s) (length raw)))) \<and>
        ready s' \<and> offset s' = offset s + length raw \<and> keys s' = keys s \<and> frame s' = frame s"
    and keys_length: "length (keys s off n) = n"
    and keys_add: "keys s off (a + b) = keys s off a @ keys s (off + a) b"
begin

lemma stream_all_ready:
  "ready s \<Longrightarrow> offset s + length (concat ms) \<le> 2 ^ 38 \<Longrightarrow>
   \<exists>s'. stream_all process s ms = (s', Inr (xor_bytes (concat ms) (keys s (offset s) (length (concat ms))))) \<and>
     ready s' \<and> offset s' = offset s + length (concat ms) \<and> keys s' = keys s \<and> frame s' = frame s"
proof (induction ms arbitrary: s)
  case Nil
  then show ?case by (simp add: xor_bytes_def)
next
  case (Cons m ms)
  from Cons.prems have "offset s + length m \<le> 2 ^ 38" by simp
  from process_ready [OF Cons.prems(1) this] obtain s1
    where s1: "process s m = (s1, Inr (xor_bytes m (keys s (offset s) (length m))))"
      "ready s1" "offset s1 = offset s + length m" "keys s1 = keys s" "frame s1 = frame s" by blast
  with Cons.prems Cons.IH [of s1] obtain s2
    where "stream_all process s1 ms = (s2, Inr (xor_bytes (concat ms) (keys s (offset s1) (length (concat ms)))))"
      "ready s2" "offset s2 = offset s1 + length (concat ms)" "keys s2 = keys s" "frame s2 = frame s"
    by auto
  with s1 show ?case
    by (simp add: xor_bytes_append keys_length keys_add)
qed

end

section \<open>The four directions\<close>

definition server_ready :: "crypto \<Rightarrow> server_session \<Rightarrow> bool" where
  "server_ready c s \<longleftrightarrow> crypto_laws c \<and> ssActive s \<and> \<not> ssPending s \<and>
     length (ssTxKey s) = 32 \<and> length (ssRxKey s) = 32 \<and> length (ssTxNonce s) = 24 \<and> length (ssRxNonce s) = 24"

definition client_ready :: "crypto \<Rightarrow> client_session \<Rightarrow> bool" where
  "client_ready c s \<longleftrightarrow> crypto_laws c \<and> clActive s \<and>
     length (clTxKey s) = 32 \<and> length (clRxKey s) = 32 \<and> length (clTxNonce s) = 24 \<and> length (clRxNonce s) = 24"

lemma offset_after: "unat (off :: u64) + n \<le> 2 ^ 38 \<Longrightarrow> unat (off + of_nat n) = unat off + n"
  by (rule unat_u64_add) simp

interpretation server_tx: cipher_end "ServerSession_EncryptOutgoing c" "server_ready c"
    "\<lambda>s. unat (ssTxOffset s)" "\<lambda>s. stream_from c (ssTxKey s) (ssTxNonce s)"
    "\<lambda>s. (ssRxOffset s, ssRxKey s, ssRxNonce s, ssTxKey s, ssTxNonce s)" for c
  by unfold_locales
    (auto simp: ServerSession_EncryptOutgoing_def server_ready_def applyStreamCipher_exact offset_after
      stream_from_add xor_bytes_def [of "[]"])

interpretation server_rx: cipher_end "ServerSession_DecryptIncoming c" "server_ready c"
    "\<lambda>s. unat (ssRxOffset s)" "\<lambda>s. stream_from c (ssRxKey s) (ssRxNonce s)"
    "\<lambda>s. (ssTxOffset s, ssTxKey s, ssTxNonce s, ssRxKey s, ssRxNonce s)" for c
  by unfold_locales
    (auto simp: ServerSession_DecryptIncoming_def server_ready_def applyStreamCipher_exact offset_after
      stream_from_add xor_bytes_def [of "[]"])

interpretation client_tx: cipher_end "ClientSession_EncryptOutgoing c" "client_ready c"
    "\<lambda>s. unat (clTxOffset s)" "\<lambda>s. stream_from c (clTxKey s) (clTxNonce s)"
    "\<lambda>s. (clRxOffset s, clRxKey s, clRxNonce s, clTxKey s, clTxNonce s)" for c
  by unfold_locales
    (auto simp: ClientSession_EncryptOutgoing_def client_ready_def applyStreamCipher_exact offset_after
      stream_from_add xor_bytes_def [of "[]"])

interpretation client_rx: cipher_end "ClientSession_DecryptIncoming c" "client_ready c"
    "\<lambda>s. unat (clRxOffset s)" "\<lambda>s. stream_from c (clRxKey s) (clRxNonce s)"
    "\<lambda>s. (clTxOffset s, clTxKey s, clTxNonce s, clRxKey s, clRxNonce s)" for c
  by unfold_locales
    (auto simp: ClientSession_DecryptIncoming_def client_ready_def applyStreamCipher_exact offset_after
      stream_from_add xor_bytes_def [of "[]"])

text \<open>Two sessions whose directions meet.\<close>

definition in_step :: "crypto \<Rightarrow> server_session \<Rightarrow> client_session \<Rightarrow> bool" where
  "in_step c s k \<longleftrightarrow> server_ready c s \<and> client_ready c k \<and>
     (ssTxOffset s, ssTxKey s, ssTxNonce s) = (clRxOffset k, clRxKey k, clRxNonce k) \<and>
     (ssRxOffset s, ssRxKey s, ssRxNonce s) = (clTxOffset k, clTxKey k, clTxNonce k)"

lemma unat_eqD: "unat (a :: u64) = unat b \<Longrightarrow> a = b"
  by (simp add: unsigned_word_eqI)

lemma turned_back:
  "wire = xor_bytes m (stream_from c key nonce off (length m)) \<Longrightarrow>
   length wire = length m \<and> xor_bytes wire (stream_from c key nonce off (length wire)) = m"
  by (simp add: xor_bytes_twice)

lemma server_to_client:
  assumes st: "in_step c s k" and lim: "unat (ssTxOffset s) + length (concat msgs) \<le> 2 ^ 38"
  shows "\<exists>s' wire. stream_all (ServerSession_EncryptOutgoing c) s msgs = (s', Inr wire) \<and>
    length wire = length (concat msgs) \<and> unat (ssTxOffset s') = unat (ssTxOffset s) + length (concat msgs) \<and>
    (\<forall>chunks. concat chunks = wire \<longrightarrow>
      (\<exists>k'. stream_all (ClientSession_DecryptIncoming c) k chunks = (k', Inr (concat msgs)) \<and> in_step c s' k'))"
proof -
  let ?m = "concat msgs" and ?ks = "stream_from c (ssTxKey s) (ssTxNonce s) (unat (ssTxOffset s))"
  from st have ready: "server_ready c s" "client_ready c k" by (simp_all add: in_step_def)
  from server_tx.stream_all_ready [OF ready(1) lim] obtain s'
    where s': "stream_all (ServerSession_EncryptOutgoing c) s msgs = (s', Inr (xor_bytes ?m (?ks (length ?m))))"
      "server_ready c s'" "unat (ssTxOffset s') = unat (ssTxOffset s) + length ?m"
      "(ssRxOffset s', ssRxKey s', ssRxNonce s', ssTxKey s', ssTxNonce s') =
       (ssRxOffset s, ssRxKey s, ssRxNonce s, ssTxKey s, ssTxNonce s)"
    by blast
  let ?wire = "xor_bytes ?m (?ks (length ?m))"
  have recover: "length ?wire = length ?m" "xor_bytes ?wire (?ks (length ?wire)) = ?m"
    using turned_back [OF refl, of ?m c "ssTxKey s" "ssTxNonce s" "unat (ssTxOffset s)"] by simp_all
  have "\<exists>k'. stream_all (ClientSession_DecryptIncoming c) k chunks = (k', Inr ?m) \<and> in_step c s' k'"
    if ch: "concat chunks = ?wire" for chunks
  proof -
    have "unat (clRxOffset k) + length (concat chunks) \<le> 2 ^ 38"
      using lim st recover(1) by (simp add: ch in_step_def)
    from client_rx.stream_all_ready [OF ready(2) this] obtain k'
      where "stream_all (ClientSession_DecryptIncoming c) k chunks = (k', Inr ?m)"
        "client_ready c k'" "unat (clRxOffset k') = unat (clRxOffset k) + length ?m"
        "(clTxOffset k', clTxKey k', clTxNonce k', clRxKey k', clRxNonce k') =
         (clTxOffset k, clTxKey k, clTxNonce k, clRxKey k, clRxNonce k)"
      using st recover unfolding in_step_def ch by auto
    then show ?thesis
      using st s'(2-4) by (auto simp: in_step_def intro: unat_eqD)
  qed
  with s' recover(1) show ?thesis by blast
qed

lemma client_to_server:
  assumes st: "in_step c s k" and lim: "unat (clTxOffset k) + length (concat msgs) \<le> 2 ^ 38"
  shows "\<exists>k' wire. stream_all (ClientSession_EncryptOutgoing c) k msgs = (k', Inr wire) \<and>
    length wire = length (concat msgs) \<and> unat (clTxOffset k') = unat (clTxOffset k) + length (concat msgs) \<and>
    (\<forall>chunks. concat chunks = wire \<longrightarrow>
      (\<exists>s'. stream_all (ServerSession_DecryptIncoming c) s chunks = (s', Inr (concat msgs)) \<and> in_step c s' k'))"
proof -
  let ?m = "concat msgs" and ?ks = "stream_from c (clTxKey k) (clTxNonce k) (unat (clTxOffset k))"
  from st have ready: "server_ready c s" "client_ready c k" by (simp_all add: in_step_def)
  from client_tx.stream_all_ready [OF ready(2) lim] obtain k'
    where k': "stream_all (ClientSession_EncryptOutgoing c) k msgs = (k', Inr (xor_bytes ?m (?ks (length ?m))))"
      "client_ready c k'" "unat (clTxOffset k') = unat (clTxOffset k) + length ?m"
      "(clRxOffset k', clRxKey k', clRxNonce k', clTxKey k', clTxNonce k') =
       (clRxOffset k, clRxKey k, clRxNonce k, clTxKey k, clTxNonce k)"
    by blast
  let ?wire = "xor_bytes ?m (?ks (length ?m))"
  have recover: "length ?wire = length ?m" "xor_bytes ?wire (?ks (length ?wire)) = ?m"
    using turned_back [OF refl, of ?m c "clTxKey k" "clTxNonce k" "unat (clTxOffset k)"] by simp_all
  have "\<exists>s'. stream_all (ServerSession_DecryptIncoming c) s chunks = (s', Inr ?m) \<and> in_step c s' k'"
    if ch: "concat chunks = ?wire" for chunks
  proof -
    have "unat (ssRxOffset s) + length (concat chunks) \<le> 2 ^ 38"
      using lim st recover(1) by (simp add: ch in_step_def)
    from server_rx.stream_all_ready [OF ready(1) this] obtain s'
      where "stream_all (ServerSession_DecryptIncoming c) s chunks = (s', Inr ?m)"
        "server_ready c s'" "unat (ssRxOffset s') = unat (ssRxOffset s) + length ?m"
        "(ssTxOffset s', ssTxKey s', ssTxNonce s', ssRxKey s', ssRxNonce s') =
         (ssTxOffset s, ssTxKey s, ssTxNonce s, ssRxKey s, ssRxNonce s)"
      using st recover unfolding in_step_def ch by auto
    then show ?thesis
      using st k'(2-4) by (auto simp: in_step_def intro: unat_eqD)
  qed
  with k' recover(1) show ?thesis by blast
qed

section \<open>The key exchange\<close>

lemma deriveSharedKeys_length:
  "crypto_laws c \<Longrightarrow> deriveSharedKeys c a b x y = Inr keys \<Longrightarrow> length keys = 64"
  by (auto simp: deriveSharedKeys_def crypto_laws_def split: option.splits)

text \<open>
  What an honest exchange leaves behind: the server will send one more packet in clear, the
  completion itself, and is then in step with the client; both hold the same token.
\<close>

definition exchanged :: "crypto \<Rightarrow> server_session \<Rightarrow> client_session \<Rightarrow> bool" where
  "exchanged c s k \<longleftrightarrow> ssPending s \<and> ssToken s = clToken k \<and> length (ssToken s) = 32 \<and>
     in_step c (s\<lparr>ssPending := False, ssActive := True\<rparr>) k \<and> ssTxOffset s = 0 \<and> ssRxOffset s = 0"

lemma first_in_clear:
  "exchanged c s k \<Longrightarrow> raw \<noteq> [] \<Longrightarrow>
   \<exists>s'. ServerSession_EncryptOutgoing c s raw = (s', Inr raw) \<and> in_step c s' k"
  by (auto simp: exchanged_def ServerSession_EncryptOutgoing_def)

lemma honest_exchange:
  assumes c: "crypto_laws c"
    and start: "ServerSession_Start c now (NewServerSession random) = (s1, Inr challenge)"
    and challenge: "ClientSession_HandleKeyChallenge c (NewClientSession random') challenge = (k1, Inr response)"
    and enough: "56 \<le> length (ssRandom s1)"
  shows "\<exists>s2 complete k2. ServerSession_HandleKeyResponse c s1 response = (s2, Inr complete) \<and>
    ClientSession_HandleKeyComplete c k1 complete = (k2, None) \<and> exchanged c s2 k2"
proof -
  from start obtain sk where s1: "ssPrivateKey s1 = Some sk" "ssPublicKey s1 = public_key c sk"
      "ssStarted s1" "kcServerPublicKey challenge = public_key c sk" "kcChallenge challenge = ssChallenge s1"
      "length (ssToken s1) = 32" "\<not> ssActive s1"
    by (auto simp: ServerSession_Start_def generateServerKeyPair_def NewServerSession_def read_full_def
        split: option.splits prod.splits if_splits)
  from challenge obtain ck keys where k1: "clPrivateKey k1 = Some ck" "krClientPublicKey response = public_key c ck"
      and ckeys: "deriveSharedKeys c ck (public_key c sk) (public_key c ck) (public_key c sk) = Inr keys"
      and k1_keys: "clTxKey k1 = drop 32 keys" "clRxKey k1 = take 32 keys"
      "clTxNonce k1 = 0x02 # replicate 23 0" "clRxNonce k1 = 0x01 # replicate 23 0"
      "clTxOffset k1 = 0" "clRxOffset k1 = 0"
      and resp: "krChallengeResponse response = computeChallengeResponse c (ssChallenge s1) (drop 32 keys)"
    by (auto simp: ClientSession_HandleKeyChallenge_def generateClientKeyPair_def NewClientSession_def
        deriveClientSessionKeys_def s1 split: option.splits prod.splits sum.splits if_splits)
  have "deriveSharedKeys c sk (public_key c ck) (public_key c ck) (public_key c sk) = Inr keys"
    using ckeys c by (simp add: deriveSharedKeys_def crypto_laws_def)
  moreover have len: "length keys = 64" by (rule deriveSharedKeys_length [OF c ckeys])
  moreover have pub: "length (public_key c ck) = 32" using c by (simp add: crypto_laws_def)
  moreover let ?r = "ssRandom s1"
  define complete where "complete = \<lparr>kdEncryptedToken = copy_into 48
      (aead_seal c (take 32 keys) (take 24 (drop 32 ?r)) (take 32 ?r)), kdNonce = copy_into 24 (take 24 (drop 32 ?r))\<rparr>"
  define s2 where "s2 = s1\<lparr>ssTxKey := take 32 keys, ssRxKey := drop 32 keys, ssTxNonce := 0x01 # replicate 23 0,
      ssRxNonce := 0x02 # replicate 23 0, ssTxOffset := 0, ssRxOffset := 0, ssToken := take 32 ?r,
      ssRandom := drop 24 (drop 32 ?r), ssPending := True\<rparr>"
  ultimately have s2: "ServerSession_HandleKeyResponse c s1 response = (s2, Inr complete)"
    using s1 k1 resp enough
    by (simp add: ServerSession_HandleKeyResponse_def deriveServerSessionKeys_def verifyChallengeResponse_def
        read_full_def encryptToken_def nonceSize_def Let_def s2_def complete_def)
  have n: "length (take 24 (drop 32 (ssRandom s1))) = 24" "length (take 32 (ssRandom s1)) = 32"
    using enough by simp_all
  have seal: "length (aead_seal c (take 32 keys) (take 24 (drop 32 ?r)) (take 32 ?r)) = 48"
      "aead_open c (take 32 keys) (take 24 (drop 32 ?r))
         (aead_seal c (take 32 keys) (take 24 (drop 32 ?r)) (take 32 ?r)) = Some (take 32 ?r)"
    using crypto_laws_seal [OF c _ n(1), of "take 32 keys" "take 32 ?r"] len n(2) by simp_all
  then have "decryptToken c (take 32 keys) (kdNonce complete) (kdEncryptedToken complete) = Inr (take 32 ?r)"
    using n by (simp add: complete_def copy_into_def decryptToken_def sessionTokenSize_def
        del: length_take length_drop)
  then have k2: "ClientSession_HandleKeyComplete c k1 complete =
      (k1\<lparr>clToken := take 32 (ssRandom s1), clActive := True\<rparr>, None)"
    by (simp add: ClientSession_HandleKeyComplete_def k1 k1_keys)
  have "exchanged c s2 (k1\<lparr>clToken := take 32 (ssRandom s1), clActive := True\<rparr>)"
    using c len n k1_keys
    by (simp add: s2_def exchanged_def in_step_def server_ready_def client_ready_def)
  with s2 k2 show ?thesis by blast
qed

text \<open>Nothing but the right answer to the challenge makes a session pending.\<close>

lemma accepted_response:
  assumes "ServerSession_HandleKeyResponse c s p = (s', Inr complete)"
  shows "\<exists>key. ssPrivateKey s = Some key \<and> ssStarted s \<and>
    deriveServerSessionKeys c key (ssPublicKey s) (krClientPublicKey p) = Inr (ssTxKey s', ssRxKey s') \<and>
    krChallengeResponse p = computeChallengeResponse c (ssChallenge s) (ssRxKey s')"
  using assms
  by (auto simp: ServerSession_HandleKeyResponse_def verifyChallengeResponse_def Let_def
      split: option.splits sum.splits prod.splits if_splits bool.splits)

lemma refused_response:
  assumes "ServerSession_HandleKeyResponse c s p = (s', Inl e)"
  shows "ssPending s' = ssPending s \<and> ssActive s' = ssActive s"
  using assms
  by (auto simp: ServerSession_HandleKeyResponse_def Let_def
      split: option.splits sum.splits prod.splits if_splits bool.splits)

section \<open>A whole conversation\<close>

text \<open>The four messages of a key exchange between a fresh server and a fresh client.\<close>

definition key_exchange ::
    "crypto \<Rightarrow> u32 \<Rightarrow> u8 list \<Rightarrow> u8 list \<Rightarrow> cipher_error + server_session \<times> client_session" where
  "key_exchange c now random random' =
     (case ServerSession_Start c now (NewServerSession random) of
        (s1, Inl e) \<Rightarrow> Inl e
      | (s1, Inr challenge) \<Rightarrow>
          case ClientSession_HandleKeyChallenge c (NewClientSession random') challenge of
            (k1, Inl e) \<Rightarrow> Inl e
          | (k1, Inr response) \<Rightarrow>
              case ServerSession_HandleKeyResponse c s1 response of
                (s2, Inl e) \<Rightarrow> Inl e
              | (s2, Inr complete) \<Rightarrow>
                  case ClientSession_HandleKeyComplete c k1 complete of
                    (k2, Some e) \<Rightarrow> Inl e
                  | (k2, None) \<Rightarrow> Inr (s2, k2))"

text \<open>
  Rounds of one end sending messages and the other receiving them, the network cutting the bytes
  in its own way; the result holds what was received in each round. What goes down to the client
  and what goes up to the server are counted apart, as the two offsets are.
\<close>

datatype round = Down "u8 list list" | Up "u8 list list"

fun sent_bytes :: "round \<Rightarrow> u8 list" where
  "sent_bytes (Down msgs) = concat msgs"
| "sent_bytes (Up msgs) = concat msgs"

definition sent_down :: "round list \<Rightarrow> u8 list" where
  "sent_down rounds = concat (map (\<lambda>r. case r of Down msgs \<Rightarrow> concat msgs | Up msgs \<Rightarrow> []) rounds)"

definition sent_up :: "round list \<Rightarrow> u8 list" where
  "sent_up rounds = concat (map (\<lambda>r. case r of Down msgs \<Rightarrow> [] | Up msgs \<Rightarrow> concat msgs) rounds)"

fun conversation ::
    "crypto \<Rightarrow> (u8 list \<Rightarrow> u8 list list) \<Rightarrow> server_session \<Rightarrow> client_session \<Rightarrow> round list \<Rightarrow>
     (server_session \<times> client_session \<times> u8 list list) option" where
  "conversation c chop s k [] = Some (s, k, [])"
| "conversation c chop s k (Down msgs # rounds) =
     (case stream_all (ServerSession_EncryptOutgoing c) s msgs of
        (_, Inl e) \<Rightarrow> None
      | (s1, Inr wire) \<Rightarrow>
          case stream_all (ClientSession_DecryptIncoming c) k (chop wire) of
            (_, Inl e) \<Rightarrow> None
          | (k1, Inr received) \<Rightarrow>
              map_option (\<lambda>(s', k', rest). (s', k', received # rest)) (conversation c chop s1 k1 rounds))"
| "conversation c chop s k (Up msgs # rounds) =
     (case stream_all (ClientSession_EncryptOutgoing c) k msgs of
        (_, Inl e) \<Rightarrow> None
      | (k1, Inr wire) \<Rightarrow>
          case stream_all (ServerSession_DecryptIncoming c) s (chop wire) of
            (_, Inl e) \<Rightarrow> None
          | (s1, Inr received) \<Rightarrow>
              map_option (\<lambda>(s', k', rest). (s', k', received # rest)) (conversation c chop s1 k1 rounds))"

text \<open>The calls a connection makes on its server session.\<close>

datatype session_call = CallStart u32 | CallResponse KeyResponsePacket | CallEncrypt "u8 list" | CallDecrypt "u8 list"

fun session_after :: "crypto \<Rightarrow> server_session \<Rightarrow> session_call \<Rightarrow> server_session" where
  "session_after c s (CallStart now) = fst (ServerSession_Start c now s)"
| "session_after c s (CallResponse p) = fst (ServerSession_HandleKeyResponse c s p)"
| "session_after c s (CallEncrypt raw) = fst (ServerSession_EncryptOutgoing c s raw)"
| "session_after c s (CallDecrypt raw) = fst (ServerSession_DecryptIncoming c s raw)"

definition answered :: "crypto \<Rightarrow> server_session \<Rightarrow> KeyResponsePacket \<Rightarrow> bool" where
  "answered c s p \<longleftrightarrow> ssStarted s \<and>
     (\<exists>key tx rx. ssPrivateKey s = Some key \<and>
        deriveServerSessionKeys c key (ssPublicKey s) (krClientPublicKey p) = Inr (tx, rx) \<and>
        krChallengeResponse p = computeChallengeResponse c (ssChallenge s) rx)"

lemma start_inactive:
  "ServerSession_Start c now s = (s', r) \<Longrightarrow> ssActive s' \<or> ssPending s' \<Longrightarrow> ssActive s \<or> ssPending s"
  by (auto simp: ServerSession_Start_def generateServerKeyPair_def split: option.splits prod.splits bool.splits)

lemma encrypt_flags:
  "ServerSession_EncryptOutgoing c s raw = (s', r) \<Longrightarrow> ssActive s' \<or> ssPending s' \<Longrightarrow> ssActive s \<or> ssPending s"
  by (auto simp: ServerSession_EncryptOutgoing_def split: if_splits sum.splits)

lemma decrypt_flags:
  "ServerSession_DecryptIncoming c s raw = (s', r) \<Longrightarrow> ssActive s' \<or> ssPending s' \<Longrightarrow> ssActive s \<or> ssPending s"
  by (auto simp: ServerSession_DecryptIncoming_def split: if_splits sum.splits)

lemma response_flags:
  "ssActive (fst (ServerSession_HandleKeyResponse c s p)) \<or> ssPending (fst (ServerSession_HandleKeyResponse c s p)) \<Longrightarrow>
   ssActive s \<or> ssPending s \<or> answered c s p"
  using accepted_response [of c s p] refused_response [of c s p]
  by (cases "ServerSession_HandleKeyResponse c s p"; cases "snd (ServerSession_HandleKeyResponse c s p)")
    (auto simp: answered_def)

lemma session_after_flags:
  assumes "ssActive (session_after c s call) \<or> ssPending (session_after c s call)"
  shows "ssActive s \<or> ssPending s \<or> (\<exists>p. call = CallResponse p \<and> answered c s p)"
proof (cases call)
  case (CallResponse p)
  then show ?thesis using assms response_flags [of c s p] by auto
qed (use assms start_inactive encrypt_flags decrypt_flags in \<open>(simp, metis prod.collapse)+\<close>)

lemma active_answered:
  "ssActive (foldl (session_after c) (NewServerSession r) calls) \<or>
   ssPending (foldl (session_after c) (NewServerSession r) calls) \<Longrightarrow>
   \<exists>before p after. calls = before @ CallResponse p # after \<and>
     answered c (foldl (session_after c) (NewServerSession r) before) p"
proof (induction calls rule: rev_induct)
  case Nil
  then show ?case by (simp add: NewServerSession_def)
next
  case (snoc call calls)
  from snoc.prems session_after_flags [of c "foldl (session_after c) (NewServerSession r) calls" call]
  consider "ssActive (foldl (session_after c) (NewServerSession r) calls) \<or>
      ssPending (foldl (session_after c) (NewServerSession r) calls)"
    | p where "call = CallResponse p" "answered c (foldl (session_after c) (NewServerSession r) calls) p"
    by auto
  then show ?case
  proof cases
    case 1
    then show ?thesis using snoc.IH by fastforce
  next
    case 2
    then show ?thesis by blast
  qed
qed

lemma server_tx_rx:
  "stream_all (ServerSession_EncryptOutgoing c) s msgs = (s', r) \<Longrightarrow> ssRxOffset s' = ssRxOffset s"
proof (induction msgs arbitrary: s r)
  case (Cons m msgs)
  then show ?case
    by (auto simp: ServerSession_EncryptOutgoing_def split: if_splits sum.splits prod.splits)
qed simp

lemma client_tx_rx:
  "stream_all (ClientSession_EncryptOutgoing c) k msgs = (k', r) \<Longrightarrow> clRxOffset k' = clRxOffset k"
proof (induction msgs arbitrary: k r)
  case (Cons m msgs)
  then show ?case
    by (auto simp: ClientSession_EncryptOutgoing_def split: if_splits sum.splits prod.splits)
qed simp

lemma conversation_delivers:
  assumes chop: "\<And>w. concat (chop w) = w"
  shows "in_step c s k \<Longrightarrow>
    unat (ssTxOffset s) + length (sent_down rounds) \<le> 2 ^ 38 \<Longrightarrow>
    unat (clTxOffset k) + length (sent_up rounds) \<le> 2 ^ 38 \<Longrightarrow>
    \<exists>s' k'. conversation c chop s k rounds = Some (s', k', map sent_bytes rounds) \<and> in_step c s' k'"
proof (induction rounds arbitrary: s k)
  case Nil
  then show ?case by simp
next
  case (Cons r rounds)
  show ?case
  proof (cases r)
    case (Down msgs)
    with Cons.prems have lim: "unat (ssTxOffset s) + length (concat msgs) \<le> 2 ^ 38" by (simp add: sent_down_def)
    from server_to_client [OF Cons.prems(1) lim] chop obtain s' k' wire where
      step: "stream_all (ServerSession_EncryptOutgoing c) s msgs = (s', Inr wire)"
        "stream_all (ClientSession_DecryptIncoming c) k (chop wire) = (k', Inr (concat msgs))"
        "unat (ssTxOffset s') = unat (ssTxOffset s) + length (concat msgs)" "in_step c s' k'"
      by blast
    have "clTxOffset k' = ssRxOffset s'" "ssRxOffset s' = clTxOffset k"
      using step Cons.prems(1) by (auto simp: in_step_def dest: server_tx_rx)
    with step Down Cons.prems Cons.IH [OF step(4)] show ?thesis by (auto simp: sent_down_def sent_up_def)
  next
    case (Up msgs)
    with Cons.prems have lim: "unat (clTxOffset k) + length (concat msgs) \<le> 2 ^ 38" by (simp add: sent_up_def)
    from client_to_server [OF Cons.prems(1) lim] chop obtain s' k' wire where
      step: "stream_all (ClientSession_EncryptOutgoing c) k msgs = (k', Inr wire)"
        "stream_all (ServerSession_DecryptIncoming c) s (chop wire) = (s', Inr (concat msgs))"
        "unat (clTxOffset k') = unat (clTxOffset k) + length (concat msgs)" "in_step c s' k'"
      by blast
    have "ssTxOffset s' = clRxOffset k'" "clRxOffset k' = ssTxOffset s"
      using step Cons.prems(1) by (auto simp: in_step_def dest: client_tx_rx)
    with step Up Cons.prems Cons.IH [OF step(4)] show ?thesis by (auto simp: sent_down_def sent_up_def)
  qed
qed

lemma key_exchange_honest:
  assumes c: "crypto_laws c" and sk: "generate_key c random = Some (sk, rest)" and len: "88 \<le> length rest"
    and ck: "generate_key c random' = Some (ck, rest')" and agree: "ecdh c ck (public_key c sk) = Some secret"
  shows "\<exists>s k. key_exchange c now random random' = Inr (s, k) \<and> exchanged c s k \<and> clTxOffset k = 0"
proof -
  obtain s1 challenge where start: "ServerSession_Start c now (NewServerSession random) = (s1, Inr challenge)"
      and s1: "kcServerPublicKey challenge = public_key c sk" "length (ssRandom s1) = length rest - 32"
    using sk len by (simp add: ServerSession_Start_def generateServerKeyPair_def NewServerSession_def read_full_def)
  obtain k1 response where challenge:
      "ClientSession_HandleKeyChallenge c (NewClientSession random') challenge = (k1, Inr response)"
    using ck agree s1 c
    by (simp add: ClientSession_HandleKeyChallenge_def generateClientKeyPair_def NewClientSession_def
        deriveClientSessionKeys_def deriveSharedKeys_def crypto_laws_def)
  have "56 \<le> length (ssRandom s1)" using len s1 by simp
  from honest_exchange [OF c start challenge this] start challenge show ?thesis
    by (fastforce simp: key_exchange_def exchanged_def in_step_def)
qed

section \<open>Properties\<close>

text \<open>
  A deterministic stand-in for the primitives that obeys their laws: keys are their own public
  halves, digests and seals are paddings.
\<close>

definition plain_crypto :: crypto where
  "plain_crypto =
     \<lparr>generate_key = (\<lambda>r. if length r < 32 then None else Some (take 32 r, drop 32 r)),
      public_key = copy_into 32,
      ecdh = (\<lambda>k p. Some (xor_bytes (copy_into 32 k) (copy_into 32 p))),
      blake2b_512 = copy_into 64,
      hmac_sha512 = (\<lambda>k m. copy_into 64 (k @ m)),
      aead_seal = (\<lambda>k n m. m @ replicate 16 0),
      aead_open = (\<lambda>k n m. Some (take (length m - 16) m)),
      key_block = (\<lambda>k n i. replicate 64 (ucast i + 90))\<rparr>"

lemma plain_crypto_laws: "crypto_laws plain_crypto"
proof -
  have twice: "copy_into 32 (copy_into 32 k) = copy_into 32 k" for k :: "u8 list"
    by (simp add: copy_into_def)
  have "xor_bytes a b = xor_bytes b a" for a b
    by (rule nth_equalityI) (simp_all add: xor_bytes_def xor.commute)
  note commute = this
  have "length (copy_into n k) = n" for n and k :: "u8 list"
    by (simp add: copy_into_def)
  with commute show ?thesis
    by (simp add: crypto_laws_def plain_crypto_def twice)
qed

text \<open>
  C14: Take a fresh server and a fresh client session with enough random bytes and primitives that
  obey their laws. The four messages of the key exchange succeed, both ends hold the same token, the
  server sends its next packet in clear, and from then on every round of messages, in either direction
  and whatever the way the network cuts the bytes, is received exactly as it was sent, as long as
  neither direction carries more than 2 ^ 38 bytes.
\<close>

theorem secure_conversation:
  assumes c: "crypto_laws c" and sk: "generate_key c random = Some (sk, rest)" and len: "88 \<le> length rest"
    and ck: "generate_key c random' = Some (ck, rest')" and agree: "ecdh c ck (public_key c sk) = Some secret"
    and chop: "\<And>w. concat (chop w) = w"
    and down: "length (sent_down rounds) \<le> 2 ^ 38" and up: "length (sent_up rounds) \<le> 2 ^ 38"
  shows "\<exists>s k s1 s' k'. key_exchange c now random random' = Inr (s, k) \<and> ssToken s = clToken k \<and>
    ServerSession_EncryptOutgoing c s (x # xs) = (s1, Inr (x # xs)) \<and>
    conversation c chop s1 k rounds = Some (s', k', map sent_bytes rounds)"
proof -
  from key_exchange_honest [OF c sk len ck agree] obtain s k
    where ex: "key_exchange c now random random' = Inr (s, k)" "exchanged c s k" "clTxOffset k = 0" by blast
  from first_in_clear [OF ex(2), of "x # xs"] obtain s1
    where s1: "ServerSession_EncryptOutgoing c s (x # xs) = (s1, Inr (x # xs))" "in_step c s1 k" by blast
  have "ssTxOffset s1 = 0"
    using ex(2) s1(1) by (auto simp: exchanged_def ServerSession_EncryptOutgoing_def)
  with conversation_delivers [of chop, OF chop s1(2), of rounds] ex down up obtain s' k'
    where "conversation c chop s1 k rounds = Some (s', k', map sent_bytes rounds)" by auto
  with ex s1 show ?thesis by (auto simp: exchanged_def)
qed

theorem secure_conversation_witness:
  "\<exists>s k s1 s' k'. key_exchange plain_crypto 9 (replicate 120 7) (replicate 32 5) = Inr (s, k) \<and>
    ssToken s = clToken k \<and>
    ServerSession_EncryptOutgoing plain_crypto s [0x0b, 0, 4, 0] = (s1, Inr [0x0b, 0, 4, 0]) \<and>
    conversation plain_crypto (\<lambda>w. [take 3 w, drop 3 w]) s1 k [Up [[1, 2], [3]], Down [[4]], Up [[5, 6]]] =
      Some (s', k', [[1, 2, 3], [4], [5, 6]])"
  using secure_conversation [where c = plain_crypto and random = "replicate 120 7" and sk = "replicate 32 7"
      and rest = "replicate 88 7" and random' = "replicate 32 5" and ck = "replicate 32 5" and rest' = "[]"
      and secret = "xor_bytes (replicate 32 5) (replicate 32 7)" and now = 9
      and chop = "\<lambda>w. [take 3 w, drop 3 w]" and rounds = "[Up [[1, 2], [3]], Down [[4]], Up [[5, 6]]]"
      and x = "0x0b" and xs = "[0, 4, 0]", OF plain_crypto_laws]
  by (simp add: plain_crypto_def copy_into_def sent_down_def sent_up_def)

text \<open>
  C15: However a connection calls its server session, once it encrypts (or is about to) there was a
  key response, received after a challenge had been sent, that carried the keyed digest of that very
  challenge under the key the server derived for the client's public key.
\<close>

theorem encrypted_after_answer:
  "ssActive (foldl (session_after c) (NewServerSession r) calls) \<or>
   ssPending (foldl (session_after c) (NewServerSession r) calls) \<Longrightarrow>
   \<exists>before p after. calls = before @ CallResponse p # after \<and>
     answered c (foldl (session_after c) (NewServerSession r) before) p"
  by (rule active_answered)

theorem encrypted_after_answer_witness:
  "\<exists>before p after. [CallStart 9, CallResponse \<lparr>krClientPublicKey = replicate 32 5,
        krChallengeResponse = replicate 32 5\<rparr>] = before @ CallResponse p # after \<and>
     answered plain_crypto (foldl (session_after plain_crypto) (NewServerSession (replicate 120 7)) before) p"
proof -
  have "ssPending (foldl (session_after plain_crypto) (NewServerSession (replicate 120 7))
    [CallStart 9, CallResponse \<lparr>krClientPublicKey = replicate 32 5, krChallengeResponse = replicate 32 5\<rparr>])"
    by code_simp
  then show ?thesis by (intro encrypted_after_answer) simp
qed

end
