(* ===== verification/Flow.thy ===== *)
theory Flow
  imports Secure_Channel
begin

text \<open>
  What the flows of a connection (\<open>internal/handshake\<close>, \<open>login\<close>, \<open>auth\<close>, \<open>worldentry\<close>, \<open>game\<close>,
  \<open>boot\<close> and \<open>authboot\<close>) share. The callbacks a flow is configured with belong to the caller: they
  are arguments that read and change a world of type \<open>'w\<close> and cannot touch the flow's own state, whose
  fields are not exported. A callback left \<open>nil\<close> is \<open>None\<close>.
\<close>

datatype flow_name = HandshakeFlow | LoginFlow | AuthFlow | WorldEntryFlow | GameFlow | BootFlow | AuthBootFlow

datatype flow_error =
    Packet packet_error | Machine session_error | Cipher cipher_error
  | ErrInvalidPhase flow_name | ErrUnexpectedClientPacket flow_name
  | ErrHandshakeNotStarted | ErrHandshakeAlreadyStart
  | ErrKeyResponseRejected "cipher_error option" | ErrInvalidNextPhase
  | ErrCharacterSelectRejected | ErrEmpireSelectRejected | ErrEnterGameRejected
  | ErrUnsupportedPhase flow_name | ErrConflictingHandshakeNextPhase flow_name

text \<open>The frames a flow answers with, in the order they are sent, or the error it returns.\<close>

type_synonym reply = "flow_error + u8 list list"

type_synonym ('w, 'p, 'r) handler = "'w \<Rightarrow> 'p \<Rightarrow> 'w \<times> 'r"

text \<open>Most callbacks of the game return \<open>{Accepted, Frames}\<close>.\<close>

record frames_result =
  Accepted :: bool
  Frames :: "u8 list list"

definition refused_frames :: frames_result where
  "refused_frames = \<lparr>Accepted = False, Frames = []\<rparr>"

text \<open>\<open>if handler == nil { handler = default }\<close>, for a default that changes nothing.\<close>

definition handler_or :: "'r \<Rightarrow> ('w, 'p, 'r) handler option \<Rightarrow> ('w, 'p, 'r) handler" where
  "handler_or dflt h = (case h of None \<Rightarrow> (\<lambda>w p. (w, dflt)) | Some f \<Rightarrow> f)"

text \<open>Decode, call, and pass the frames on when the callback accepted.\<close>

definition frames_of :: "frames_result \<Rightarrow> u8 list list" where
  "frames_of r = (if Accepted r then Frames r else [])"

definition handle_packet ::
    "('w, 'p, frames_result) handler \<Rightarrow> 'w \<Rightarrow> packet_error + 'p \<Rightarrow> 'w \<times> reply" where
  "handle_packet handle w decoded =
     (case decoded of
        Inl e \<Rightarrow> (w, Inl (Packet e))
      | Inr p \<Rightarrow> (case handle w p of (w', r) \<Rightarrow> (w', Inr (frames_of r))))"

lemma handle_packet_Inl [simp]: "handle_packet h w (Inl e) = (w, Inl (Packet e))"
  by (simp add: handle_packet_def)

lemma handle_packet_Inr [simp]: "handle_packet h w (Inr p) = map_prod id (\<lambda>r. Inr (frames_of r)) (h w p)"
  by (simp add: handle_packet_def split: prod.splits)

text \<open>Lift the outcome of \<open>EncodePhase\<close> or of another encoder that may fail to an error of a flow.\<close>

definition encoded :: "packet_error + 'a \<Rightarrow> flow_error + 'a" where
  "encoded r = (case r of Inl e \<Rightarrow> Inl (Packet e) | Inr x \<Rightarrow> Inr x)"

lemma encoded_simps [simp]: "encoded (Inl e) = Inl (Packet e)" "encoded (Inr x) = Inr x"
  by (simp_all add: encoded_def)

end
