(* ===== verification/Wire_Login.thy ===== *)
theory Wire_Login
  imports Wire
begin

text \<open>
  \<open>internal/proto/login\<close> and \<open>internal/proto/auth\<close>: credentials, the answers to them and the
  list of characters an account is sent after it.
\<close>

definition HeaderLogin2 :: u16 where [packet_simps]: "HeaderLogin2 = 0x0101"
definition HeaderLogin3 :: u16 where [packet_simps]: "HeaderLogin3 = 0x0102"
definition HeaderLoginSuccess4 :: u16 where [packet_simps]: "HeaderLoginSuccess4 = 0x0105"
definition HeaderLoginFailure :: u16 where [packet_simps]: "HeaderLoginFailure = 0x0106"
definition HeaderAuthSuccess :: u16 where [packet_simps]: "HeaderAuthSuccess = 0x0108"
definition HeaderEmpire :: u16 where [packet_simps]: "HeaderEmpire = 0x0109"
definition HeaderEmpireSelect :: u16 where [packet_simps]: "HeaderEmpireSelect = 0x010A"

definition LoginFieldSize :: nat where [packet_simps]: "LoginFieldSize = 31"
definition StatusFieldSize :: nat where [packet_simps]: "StatusFieldSize = 9"
definition CharacterNameFieldSize :: nat where [packet_simps]: "CharacterNameFieldSize = 65"
definition GuildNameFieldSize :: nat where [packet_simps]: "GuildNameFieldSize = 13"
definition PlayerCount :: nat where [packet_simps]: "PlayerCount = 4"
definition simplePlayerPayloadSize :: nat where [packet_simps]: "simplePlayerPayloadSize = 103"
definition login2PayloadSize :: nat where [packet_simps]: "login2PayloadSize = 35"
definition loginSuccess4PayloadLen :: nat where [packet_simps]: "loginSuccess4PayloadLen = 488"
definition login3PayloadSize :: nat where [packet_simps]: "login3PayloadSize = 48"

section \<open>Credentials\<close>

record Login2Packet =
  l2Login :: string
  l2LoginKey :: u32

definition EncodeLogin2 :: "Login2Packet \<Rightarrow> packet_error + u8 list" where
  "EncodeLogin2 p =
     attempt (putFixedString 31 (l2Login p)) (\<lambda>account.
     Inr (Encode HeaderLogin2
       (account @ put_u32 (l2LoginKey p))))"

definition DecodeLogin2 :: "frame \<Rightarrow> packet_error + Login2Packet" where
  "DecodeLogin2 f =
     (if Header f \<noteq> HeaderLogin2 then Inl ErrUnexpectedHeader
      else if length (Payload f) \<noteq> login2PayloadSize then Inl ErrInvalidPayload
      else let b = Payload f in Inr
          \<lparr>l2Login = parseFixedString (take 31 b), l2LoginKey = get_u32 (drop 31 b)\<rparr>)"

interpretation login2_packet: checked_packet HeaderLogin2
    "\<lambda>p. text_fits 31 (l2Login p)"
    "\<lambda>p. length (l2Login p) < 31"
    EncodeLogin2 DecodeLogin2
  by unfold_locales (auto simp: EncodeLogin2_def DecodeLogin2_def text_simps packet_simps
      intro!: Login2Packet.equality split: if_splits)

record LoginFailurePacket =
  lfStatus :: string

definition EncodeLoginFailure :: "LoginFailurePacket \<Rightarrow> packet_error + u8 list" where
  "EncodeLoginFailure p =
     attempt (putFixedString 9 (lfStatus p)) (\<lambda>status.
     Inr (Encode HeaderLoginFailure
       (status)))"

definition DecodeLoginFailure :: "frame \<Rightarrow> packet_error + LoginFailurePacket" where
  "DecodeLoginFailure f =
     (if Header f \<noteq> HeaderLoginFailure then Inl ErrUnexpectedHeader
      else if length (Payload f) \<noteq> StatusFieldSize then Inl ErrInvalidPayload
      else let b = Payload f in Inr
          \<lparr>lfStatus = parseFixedString (take 9 b)\<rparr>)"

interpretation login_failure_packet: checked_packet HeaderLoginFailure
    "\<lambda>p. text_fits 9 (lfStatus p)"
    "\<lambda>p. length (lfStatus p) < 9"
    EncodeLoginFailure DecodeLoginFailure
  by unfold_locales (auto simp: EncodeLoginFailure_def DecodeLoginFailure_def text_simps packet_simps
      intro!: LoginFailurePacket.equality split: if_splits)

record Login3Packet =
  l3Login :: string
  l3Password :: string

definition EncodeLogin3 :: "Login3Packet \<Rightarrow> packet_error + u8 list" where
  "EncodeLogin3 p =
     attempt (putFixedString 31 (l3Login p)) (\<lambda>account.
     attempt (putFixedString 17 (l3Password p)) (\<lambda>password.
     Inr (Encode HeaderLogin3
       (account @ password))))"

definition DecodeLogin3 :: "frame \<Rightarrow> packet_error + Login3Packet" where
  "DecodeLogin3 f =
     (if Header f \<noteq> HeaderLogin3 then Inl ErrUnexpectedHeader
      else if length (Payload f) \<noteq> login3PayloadSize then Inl ErrInvalidPayload
      else let b = Payload f in Inr
          \<lparr>l3Login = parseFixedString (take 31 b),
           l3Password = parseFixedString (take 17 (drop 31 b))\<rparr>)"

interpretation login3_packet: checked_packet HeaderLogin3
    "\<lambda>p. text_fits 31 (l3Login p) \<and> text_fits 17 (l3Password p)"
    "\<lambda>p. length (l3Login p) < 31 \<and> length (l3Password p) < 17"
    EncodeLogin3 DecodeLogin3
  by unfold_locales (auto simp: EncodeLogin3_def DecodeLogin3_def text_simps packet_simps
      intro!: Login3Packet.equality split: if_splits)

record AuthSuccessPacket =
  asLoginKey :: u32
  asResult :: u8

definition EncodeAuthSuccess :: "AuthSuccessPacket \<Rightarrow> u8 list" where
  "EncodeAuthSuccess p =
     Encode HeaderAuthSuccess (put_u32 (asLoginKey p) @ [asResult p])"

definition DecodeAuthSuccess :: "frame \<Rightarrow> packet_error + AuthSuccessPacket" where
  "DecodeAuthSuccess f =
     (if Header f \<noteq> HeaderAuthSuccess then Inl ErrUnexpectedHeader
      else if length (Payload f) \<noteq> 5 then Inl ErrInvalidPayload
      else let b = Payload f in Inr
          \<lparr>asLoginKey = get_u32 b, asResult = b ! 4\<rparr>)"

interpretation auth_success_packet: exact_packet HeaderAuthSuccess "\<lambda>_. True"
    EncodeAuthSuccess DecodeAuthSuccess
  by unfold_locales (auto simp: EncodeAuthSuccess_def DecodeAuthSuccess_def packet_simps intro!: AuthSuccessPacket.equality split: if_splits)

record EmpirePacket =
  emEmpire :: u8

definition EncodeEmpire :: "EmpirePacket \<Rightarrow> u8 list" where
  "EncodeEmpire p =
     Encode HeaderEmpire ([emEmpire p])"

definition DecodeEmpire :: "frame \<Rightarrow> packet_error + EmpirePacket" where
  "DecodeEmpire f =
     (if Header f \<noteq> HeaderEmpire then Inl ErrUnexpectedHeader
      else if length (Payload f) \<noteq> 1 then Inl ErrInvalidPayload
      else let b = Payload f in Inr
          \<lparr>emEmpire = b ! 0\<rparr>)"

interpretation empire_packet: exact_packet HeaderEmpire "\<lambda>_. True"
    EncodeEmpire DecodeEmpire
  by unfold_locales (auto simp: EncodeEmpire_def DecodeEmpire_def packet_simps intro!: EmpirePacket.equality split: if_splits)

definition EncodeEmpireSelect :: "EmpirePacket \<Rightarrow> u8 list" where
  "EncodeEmpireSelect p =
     Encode HeaderEmpireSelect ([emEmpire p])"

definition DecodeEmpireSelect :: "frame \<Rightarrow> packet_error + EmpirePacket" where
  "DecodeEmpireSelect f =
     (if Header f \<noteq> HeaderEmpireSelect then Inl ErrUnexpectedHeader
      else if length (Payload f) \<noteq> 1 then Inl ErrInvalidPayload
      else let b = Payload f in Inr
          \<lparr>emEmpire = b ! 0\<rparr>)"

interpretation empire_select_packet: exact_packet HeaderEmpireSelect "\<lambda>_. True"
    EncodeEmpireSelect DecodeEmpireSelect
  by unfold_locales (auto simp: EncodeEmpireSelect_def DecodeEmpireSelect_def packet_simps intro!: EmpirePacket.equality split: if_splits)

section \<open>The characters of an account\<close>

record SimplePlayer =
  plID :: u32
  plName :: string
  plJob :: u8
  plLevel :: u8
  plPlayMinutes :: u32
  plST :: u8
  plHT :: u8
  plDX :: u8
  plIQ :: u8
  plMainPart :: u16
  plChangeName :: u8
  plHairPart :: u16
  plDummy :: "u8 list"
  plX :: i32
  plY :: i32
  plAddr :: u32
  plPort :: u16
  plSkillGroup :: u8

definition encodeSimplePlayer :: "SimplePlayer \<Rightarrow> packet_error + u8 list" where
  "encodeSimplePlayer p =
     attempt (putFixedString 65 (plName p)) (\<lambda>name.
     Inr (put_u32 (plID p) @ name @ [plJob p, plLevel p] @ put_u32 (plPlayMinutes p) @
          [plST p, plHT p, plDX p, plIQ p] @ put_u16 (plMainPart p) @ [plChangeName p] @
          put_u16 (plHairPart p) @ plDummy p @ put_u32 (plX p) @ put_u32 (plY p) @
          put_u32 (plAddr p) @ put_u16 (plPort p) @ [plSkillGroup p]))"

definition readSimplePlayer :: "u8 list \<Rightarrow> SimplePlayer" where
  "readSimplePlayer b =
     \<lparr>plID = get_u32 b, plName = parseFixedString (take 65 (drop 4 b)), plJob = b ! 69,
      plLevel = b ! 70, plPlayMinutes = get_u32 (drop 71 b), plST = b ! 75, plHT = b ! 76,
      plDX = b ! 77, plIQ = b ! 78, plMainPart = get_u16 (drop 79 b), plChangeName = b ! 81,
      plHairPart = get_u16 (drop 82 b), plDummy = take 4 (drop 84 b), plX = get_u32 (drop 88 b),
      plY = get_u32 (drop 92 b), plAddr = get_u32 (drop 96 b), plPort = get_u16 (drop 100 b),
      plSkillGroup = b ! 102\<rparr>"

definition decodeSimplePlayer :: "u8 list \<Rightarrow> packet_error + SimplePlayer" where
  "decodeSimplePlayer payload =
     (if length payload \<noteq> simplePlayerPayloadSize then Inl ErrInvalidPayload
      else Inr (readSimplePlayer payload))"

text \<open>Players whose name a field can carry; the array \<open>Dummy\<close> has four bytes.\<close>

definition player_ok :: "SimplePlayer \<Rightarrow> bool" where
  "player_ok p \<longleftrightarrow> text_fits 65 (plName p) \<and> length (plDummy p) = 4"

interpretation player_codec: fixed_codec "\<lambda>p. sent (encodeSimplePlayer p)" readSimplePlayer
    simplePlayerPayloadSize player_ok
  by unfold_locales
    (auto simp: encodeSimplePlayer_def readSimplePlayer_def player_ok_def text_simps packet_simps
      intro!: SimplePlayer.equality)

lemma encodeSimplePlayer_Inr: "player_ok p \<Longrightarrow> encodeSimplePlayer p = Inr (sent (encodeSimplePlayer p))"
  by (simp add: encodeSimplePlayer_def player_ok_def)

lemma decode_encode_player:
  "player_ok p \<Longrightarrow> decodeSimplePlayer (sent (encodeSimplePlayer p)) = Inr p"
  using player_codec.enc_length [of p] player_codec.dec_enc_alone [of p]
  by (simp add: decodeSimplePlayer_def)

section \<open>The login answer\<close>

record LoginSuccess4Packet =
  lsPlayers :: "SimplePlayer list"
  lsGuildIDs :: "u32 list"
  lsGuildNames :: "string list"
  lsHandle :: u32
  lsRandomKey :: u32

definition EncodeLoginSuccess4 :: "LoginSuccess4Packet \<Rightarrow> packet_error + u8 list" where
  "EncodeLoginSuccess4 p =
     attempt (attempt_each encodeSimplePlayer (lsPlayers p)) (\<lambda>players.
     attempt (attempt_each (putFixedString GuildNameFieldSize) (lsGuildNames p)) (\<lambda>guildNames.
     Inr (Encode HeaderLoginSuccess4
       (players @ concat (map put_u32 (lsGuildIDs p)) @ guildNames @
        put_u32 (lsHandle p) @ put_u32 (lsRandomKey p)))))"

definition DecodeLoginSuccess4 :: "frame \<Rightarrow> packet_error + LoginSuccess4Packet" where
  "DecodeLoginSuccess4 f =
     (if Header f \<noteq> HeaderLoginSuccess4 then Inl ErrUnexpectedHeader
      else if length (Payload f) \<noteq> loginSuccess4PayloadLen then Inl ErrInvalidPayload
      else let b = Payload f in
        attempt (attempt_map (\<lambda>i. decodeSimplePlayer
          (take simplePlayerPayloadSize (drop (simplePlayerPayloadSize * i) b))) [0..<PlayerCount])
        (\<lambda>players. Inr
          \<lparr>lsPlayers = players,
           lsGuildIDs = decode_each get_u32 4 PlayerCount (drop 412 b),
           lsGuildNames = decode_each (\<lambda>s. parseFixedString (take GuildNameFieldSize s))
             GuildNameFieldSize PlayerCount (drop 428 b),
           lsHandle = get_u32 (drop 480 b), lsRandomKey = get_u32 (drop 484 b)\<rparr>))"

definition login_success_ok :: "LoginSuccess4Packet \<Rightarrow> bool" where
  "login_success_ok p \<longleftrightarrow>
     length (lsPlayers p) = 4 \<and> (\<forall>x \<in> set (lsPlayers p). player_ok x) \<and>
     length (lsGuildIDs p) = 4 \<and>
     length (lsGuildNames p) = 4 \<and> (\<forall>s \<in> set (lsGuildNames p). text_fits 13 s)"

interpretation guild_name_codec: fixed_codec "\<lambda>s. copy_into GuildNameFieldSize (bytes_of s)"
    "\<lambda>b. parseFixedString (take GuildNameFieldSize b)" GuildNameFieldSize "text_fits 13"
  by unfold_locales (simp_all add: packet_simps)

lemma length_copies: "length (concat (map (\<lambda>s. copy_into n (g s)) xs)) = n * length xs"
  by (induction xs) simp_all

lemma EncodeLoginSuccess4_Inr:
  assumes "login_success_ok p"
  shows "EncodeLoginSuccess4 p = Inr (Encode HeaderLoginSuccess4
    (concat (map (\<lambda>x. sent (encodeSimplePlayer x)) (lsPlayers p)) @ concat (map put_u32 (lsGuildIDs p)) @
     concat (map (\<lambda>s. copy_into 13 (bytes_of s)) (lsGuildNames p)) @
     put_u32 (lsHandle p) @ put_u32 (lsRandomKey p)))"
proof -
  have "attempt_each encodeSimplePlayer (lsPlayers p) =
      Inr (concat (map (\<lambda>x. sent (encodeSimplePlayer x)) (lsPlayers p)))"
    using assms encodeSimplePlayer_Inr by (intro attempt_each_Inr) (unfold login_success_ok_def, blast)
  moreover have "attempt_each (putFixedString GuildNameFieldSize) (lsGuildNames p) =
      Inr (concat (map (\<lambda>s. copy_into 13 (bytes_of s)) (lsGuildNames p)))"
    using assms by (intro attempt_each_Inr) (simp add: login_success_ok_def packet_simps)
  ultimately show ?thesis
    by (simp add: EncodeLoginSuccess4_def)
qed

lemma decode_players:
  assumes "\<forall>x \<in> set ps. player_ok x"
  shows "attempt_map (\<lambda>i. decodeSimplePlayer (take 103 (drop (103 * i)
    (concat (map (\<lambda>x. sent (encodeSimplePlayer x)) ps) @ rest)))) [0..<length ps] = Inr ps"
  using assms
proof (induction ps)
  case Nil
  then show ?case by simp
next
  case (Cons p ps)
  let ?enc = "\<lambda>x. sent (encodeSimplePlayer x)"
  have len: "length (?enc p) = 103"
    using Cons.prems player_codec.enc_length [of p] by (simp add: packet_simps)
  have "attempt_map (\<lambda>i. decodeSimplePlayer (take 103 (drop (103 * Suc i)
      (?enc p @ concat (map ?enc ps) @ rest)))) [0..<length ps] = Inr ps"
    using Cons.IH Cons.prems len by (simp add: drop_append)
  moreover have "attempt_map f (map Suc ns) = attempt_map (f \<circ> Suc) ns" for f :: "nat \<Rightarrow> packet_error + SimplePlayer" and ns
    by (induction ns) simp_all
  ultimately show ?case
    using Cons.prems len decode_encode_player [of p]
    by (simp add: upt_conv_Cons map_Suc_upt [symmetric] comp_def del: upt_Suc)
qed

interpretation login_success_packet: packet_codec HeaderLoginSuccess4 login_success_ok
    "\<lambda>p. sent (EncodeLoginSuccess4 p)" DecodeLoginSuccess4
proof
  fix p :: LoginSuccess4Packet
  assume ok: "login_success_ok p"
  let ?players = "concat (map (\<lambda>x. sent (encodeSimplePlayer x)) (lsPlayers p))"
  let ?ids = "concat (map put_u32 (lsGuildIDs p))"
  let ?names = "concat (map (\<lambda>s. copy_into 13 (bytes_of s)) (lsGuildNames p))"
  let ?rest = "put_u32 (lsHandle p) @ put_u32 (lsRandomKey p)"
  let ?b = "?players @ ?ids @ ?names @ ?rest"
  have lens: "length ?players = 412" "length ?ids = 16" "length ?names = 52"
    using ok player_codec.length_concat [of "lsPlayers p"] u32_codec.length_concat [of "lsGuildIDs p"]
    by (simp_all add: login_success_ok_def length_copies packet_simps)
  show "framed HeaderLoginSuccess4 (sent (EncodeLoginSuccess4 p))"
    by (simp add: EncodeLoginSuccess4_Inr [OF ok] lens packet_simps)
  have "attempt_map (\<lambda>i. decodeSimplePlayer (take 103 (drop (103 * i) ?b))) [0..<4] = Inr (lsPlayers p)"
    using decode_players [of "lsPlayers p" "?ids @ ?names @ ?rest"] ok by (simp add: login_success_ok_def)
  moreover have "decode_each get_u32 4 4 (?ids @ ?names @ ?rest) = lsGuildIDs p"
    using u32_codec.decode_each_concat [of "lsGuildIDs p"] ok by (simp add: login_success_ok_def)
  moreover have "decode_each (\<lambda>s. parseFixedString (take 13 s)) 13 4 (?names @ ?rest) = lsGuildNames p"
    using guild_name_codec.decode_each_concat [of "lsGuildNames p"] ok
    by (simp add: login_success_ok_def packet_simps)
  moreover have "drop 412 ?b = ?ids @ ?names @ ?rest" "drop 428 ?b = ?names @ ?rest"
      "drop 480 ?b = ?rest" "drop 484 ?b = put_u32 (lsRandomKey p)" "length ?b = 488"
    by (simp_all add: lens)
  moreover have "DecodeLoginSuccess4 (frame_of (HeaderLoginSuccess4, b)) = Inr p"
    if "attempt_map (\<lambda>i. decodeSimplePlayer (take 103 (drop (103 * i) b))) [0..<4] = Inr (lsPlayers p)"
      "decode_each get_u32 4 4 (drop 412 b) = lsGuildIDs p"
      "decode_each (\<lambda>s. parseFixedString (take 13 s)) 13 4 (drop 428 b) = lsGuildNames p"
      "drop 480 b = ?rest" "drop 484 b = put_u32 (lsRandomKey p)" "length b = 488" for b
    by (simp add: DecodeLoginSuccess4_def packet_simps that)
  ultimately show "DecodeLoginSuccess4 (frame_in (sent (EncodeLoginSuccess4 p))) = Inr p"
    by (simp only: EncodeLoginSuccess4_Inr [OF ok] sent_Inr frame_in_Encode)
qed (simp add: DecodeLoginSuccess4_def)

end
