(* ===== verification/Wire_World.thy ===== *)
theory Wire_World
  imports Wire_Login
begin

text \<open>
  \<open>internal/proto/world\<close>: creating, deleting and selecting characters, entering the game, and the
  packets that show a character to a client.
\<close>

definition HeaderCharacterCreate :: u16 where [packet_simps]: "HeaderCharacterCreate = 0x0201"
definition HeaderCharacterDelete :: u16 where [packet_simps]: "HeaderCharacterDelete = 0x0202"
definition HeaderCharacterSelect :: u16 where [packet_simps]: "HeaderCharacterSelect = 0x0203"
definition HeaderEnterGame :: u16 where [packet_simps]: "HeaderEnterGame = 0x0204"
definition HeaderCharacterAdd :: u16 where [packet_simps]: "HeaderCharacterAdd = 0x0205"
definition HeaderCharacterAdditionalInfo :: u16 where [packet_simps]: "HeaderCharacterAdditionalInfo = 0x0207"
definition HeaderCharacterDeleteNotice :: u16 where [packet_simps]: "HeaderCharacterDeleteNotice = 0x0208"
definition HeaderCharacterUpdate :: u16 where [packet_simps]: "HeaderCharacterUpdate = 0x0209"
definition HeaderCharacterPosition :: u16 where [packet_simps]: "HeaderCharacterPosition = 0x020B"
definition HeaderPlayerCreateSuccess :: u16 where [packet_simps]: "HeaderPlayerCreateSuccess = 0x020C"
definition HeaderPlayerCreateFailure :: u16 where [packet_simps]: "HeaderPlayerCreateFailure = 0x020D"
definition HeaderPlayerDeleteSuccess :: u16 where [packet_simps]: "HeaderPlayerDeleteSuccess = 0x020E"
definition HeaderPlayerDeleteFailure :: u16 where [packet_simps]: "HeaderPlayerDeleteFailure = 0x020F"
definition HeaderMainCharacter :: u16 where [packet_simps]: "HeaderMainCharacter = 0x0210"
definition HeaderPlayerPoints :: u16 where [packet_simps]: "HeaderPlayerPoints = 0x0214"
definition HeaderPlayerPointChange :: u16 where [packet_simps]: "HeaderPlayerPointChange = 0x0215"
definition HeaderStun :: u16 where [packet_simps]: "HeaderStun = 0x0216"
definition HeaderDead :: u16 where [packet_simps]: "HeaderDead = 0x0217"
definition HeaderChangeSpeed :: u16 where [packet_simps]: "HeaderChangeSpeed = 0x0218"
definition HeaderClientWarp :: u16 where [packet_simps]: "HeaderClientWarp = 0x0305"
definition HeaderWarp :: u16 where [packet_simps]: "HeaderWarp = 0x0306"

definition BGMNameFieldSize :: nat where [packet_simps]: "BGMNameFieldSize = 25"
definition PrivateCodeFieldSize :: nat where [packet_simps]: "PrivateCodeFieldSize = 8"
definition PointCount :: nat where [packet_simps]: "PointCount = 255"
definition CharacterEquipmentPartCount :: nat where [packet_simps]: "CharacterEquipmentPartCount = 4"
definition AffectFlagCount :: nat where [packet_simps]: "AffectFlagCount = 2"
definition characterCreatePayloadSize :: nat where [packet_simps]: "characterCreatePayloadSize = 73"
definition characterDeletePayloadSize :: nat where [packet_simps]: "characterDeletePayloadSize = 9"
definition characterSelectPayloadSize :: nat where [packet_simps]: "characterSelectPayloadSize = 1"
definition characterAddPayloadSize :: nat where [packet_simps]: "characterAddPayloadSize = 34"
definition characterAdditionalInfoPayloadSize :: nat where [packet_simps]: "characterAdditionalInfoPayloadSize = 93"
definition characterDeleteNoticePayloadSize :: nat where [packet_simps]: "characterDeleteNoticePayloadSize = 4"
definition characterUpdatePayloadSize :: nat where [packet_simps]: "characterUpdatePayloadSize = 34"
definition characterPositionPayloadSize :: nat where [packet_simps]: "characterPositionPayloadSize = 5"
definition playerCreateSuccessPayloadSize :: nat where [packet_simps]: "playerCreateSuccessPayloadSize = 104"
definition playerCreateFailurePayloadSize :: nat where [packet_simps]: "playerCreateFailurePayloadSize = 1"
definition playerDeleteSuccessPayloadSize :: nat where [packet_simps]: "playerDeleteSuccessPayloadSize = 1"
definition mainCharacterPayloadSize :: nat where [packet_simps]: "mainCharacterPayloadSize = 114"
definition playerPointsPayloadSize :: nat where [packet_simps]: "playerPointsPayloadSize = 1020"
definition playerPointChangePayloadSize :: nat where [packet_simps]: "playerPointChangePayloadSize = 13"
definition stunPayloadSize :: nat where [packet_simps]: "stunPayloadSize = 4"
definition deadPayloadSize :: nat where [packet_simps]: "deadPayloadSize = 4"
definition changeSpeedPayloadSize :: nat where [packet_simps]: "changeSpeedPayloadSize = 6"
definition clientWarpPayloadSize :: nat where [packet_simps]: "clientWarpPayloadSize = 8"
definition warpPayloadSize :: nat where [packet_simps]: "warpPayloadSize = 14"

definition CharacterTypePC :: u8 where "CharacterTypePC = 6"

section \<open>Character selection\<close>

record CharacterCreatePacket =
  ccIndex :: u8
  ccName :: string
  ccRaceNum :: u16
  ccShape :: u8
  ccCon :: u8
  ccInt :: u8
  ccStr :: u8
  ccDex :: u8

definition EncodeCharacterCreate :: "CharacterCreatePacket \<Rightarrow> packet_error + u8 list" where
  "EncodeCharacterCreate p =
     attempt (putFixedString 65 (ccName p)) (\<lambda>name.
     Inr (Encode HeaderCharacterCreate
       ([ccIndex p] @ name @ put_u16 (ccRaceNum p) @
        [ccShape p, ccCon p, ccInt p, ccStr p, ccDex p])))"

definition DecodeCharacterCreate :: "frame \<Rightarrow> packet_error + CharacterCreatePacket" where
  "DecodeCharacterCreate f =
     (if Header f \<noteq> HeaderCharacterCreate then Inl ErrUnexpectedHeader
      else if length (Payload f) \<noteq> characterCreatePayloadSize then Inl ErrInvalidPayload
      else let b = Payload f in Inr
          \<lparr>ccIndex = b ! 0, ccName = parseFixedString (take 65 (drop 1 b)),
           ccRaceNum = get_u16 (drop 66 b), ccShape = b ! 68, ccCon = b ! 69, ccInt = b ! 70,
           ccStr = b ! 71, ccDex = b ! 72\<rparr>)"

interpretation character_create_packet: checked_packet HeaderCharacterCreate
    "\<lambda>p. text_fits 65 (ccName p)"
    "\<lambda>p. length (ccName p) < 65"
    EncodeCharacterCreate DecodeCharacterCreate
  by unfold_locales (auto simp: EncodeCharacterCreate_def DecodeCharacterCreate_def text_simps packet_simps
      intro!: CharacterCreatePacket.equality split: if_splits)

record CharacterDeletePacket =
  cdIndex :: u8
  cdPrivateCode :: string

definition EncodeCharacterDelete :: "CharacterDeletePacket \<Rightarrow> packet_error + u8 list" where
  "EncodeCharacterDelete p =
     attempt (putFixedString 8 (cdPrivateCode p)) (\<lambda>privateCode.
     Inr (Encode HeaderCharacterDelete
       ([cdIndex p] @ privateCode)))"

definition DecodeCharacterDelete :: "frame \<Rightarrow> packet_error + CharacterDeletePacket" where
  "DecodeCharacterDelete f =
     (if Header f \<noteq> HeaderCharacterDelete then Inl ErrUnexpectedHeader
      else if length (Payload f) \<noteq> characterDeletePayloadSize then Inl ErrInvalidPayload
      else let b = Payload f in Inr
          \<lparr>cdIndex = b ! 0, cdPrivateCode = parseFixedString (take 8 (drop 1 b))\<rparr>)"

interpretation character_delete_packet: checked_packet HeaderCharacterDelete
    "\<lambda>p. text_fits 8 (cdPrivateCode p)"
    "\<lambda>p. length (cdPrivateCode p) < 8"
    EncodeCharacterDelete DecodeCharacterDelete
  by unfold_locales (auto simp: EncodeCharacterDelete_def DecodeCharacterDelete_def text_simps packet_simps
      intro!: CharacterDeletePacket.equality split: if_splits)

record CharacterSelectPacket =
  csIndex :: u8

definition EncodeCharacterSelect :: "CharacterSelectPacket \<Rightarrow> u8 list" where
  "EncodeCharacterSelect p =
     Encode HeaderCharacterSelect ([csIndex p])"

definition DecodeCharacterSelect :: "frame \<Rightarrow> packet_error + CharacterSelectPacket" where
  "DecodeCharacterSelect f =
     (if Header f \<noteq> HeaderCharacterSelect then Inl ErrUnexpectedHeader
      else if length (Payload f) \<noteq> characterSelectPayloadSize then Inl ErrInvalidPayload
      else let b = Payload f in Inr
          \<lparr>csIndex = b ! 0\<rparr>)"

interpretation character_select_packet: exact_packet HeaderCharacterSelect "\<lambda>_. True"
    EncodeCharacterSelect DecodeCharacterSelect
  by unfold_locales (auto simp: EncodeCharacterSelect_def DecodeCharacterSelect_def packet_simps intro!: CharacterSelectPacket.equality split: if_splits)

text \<open>Packets without fields are values of type \<open>unit\<close>; their decoders only report an error.\<close>

definition EncodeEnterGame :: "u8 list" where
  "EncodeEnterGame = Encode HeaderEnterGame []"

definition DecodeEnterGame :: "frame \<Rightarrow> packet_error + unit" where
  "DecodeEnterGame f =
     (if Header f \<noteq> HeaderEnterGame then Inl ErrUnexpectedHeader
      else if length (Payload f) \<noteq> 0 then Inl ErrInvalidPayload
      else Inr ())"

interpretation enter_game_packet: exact_packet HeaderEnterGame "\<lambda>_. True" "\<lambda>_. EncodeEnterGame" DecodeEnterGame
  by unfold_locales (auto simp: EncodeEnterGame_def DecodeEnterGame_def packet_simps split: if_splits)

definition EncodePlayerDeleteFailure :: "u8 list" where
  "EncodePlayerDeleteFailure = Encode HeaderPlayerDeleteFailure []"

definition DecodePlayerDeleteFailure :: "frame \<Rightarrow> packet_error + unit" where
  "DecodePlayerDeleteFailure f =
     (if Header f \<noteq> HeaderPlayerDeleteFailure then Inl ErrUnexpectedHeader
      else if length (Payload f) \<noteq> 0 then Inl ErrInvalidPayload
      else Inr ())"

interpretation player_delete_failure_packet: exact_packet HeaderPlayerDeleteFailure "\<lambda>_. True" "\<lambda>_. EncodePlayerDeleteFailure" DecodePlayerDeleteFailure
  by unfold_locales (auto simp: EncodePlayerDeleteFailure_def DecodePlayerDeleteFailure_def packet_simps split: if_splits)

text \<open>This package carries its own copy of the player layout of \<open>proto/login\<close>.\<close>

definition encodeSimplePlayerPayload :: "SimplePlayer \<Rightarrow> packet_error + u8 list" where
  "encodeSimplePlayerPayload p =
     attempt (putFixedString 65 (plName p)) (\<lambda>name.
     Inr (put_u32 (plID p) @ name @ [plJob p, plLevel p] @ put_u32 (plPlayMinutes p) @
          [plST p, plHT p, plDX p, plIQ p] @ put_u16 (plMainPart p) @ [plChangeName p] @
          put_u16 (plHairPart p) @ plDummy p @ put_u32 (plX p) @ put_u32 (plY p) @
          put_u32 (plAddr p) @ put_u16 (plPort p) @ [plSkillGroup p]))"

definition decodeSimplePlayerPayload :: "u8 list \<Rightarrow> packet_error + SimplePlayer" where
  "decodeSimplePlayerPayload b =
     (if length b \<noteq> simplePlayerPayloadSize then Inl ErrInvalidPayload
      else Inr
        \<lparr>plID = get_u32 b, plName = parseFixedString (take 65 (drop 4 b)), plJob = b ! 69,
         plLevel = b ! 70, plPlayMinutes = get_u32 (drop 71 b), plST = b ! 75, plHT = b ! 76,
         plDX = b ! 77, plIQ = b ! 78, plMainPart = get_u16 (drop 79 b), plChangeName = b ! 81,
         plHairPart = get_u16 (drop 82 b), plDummy = take 4 (drop 84 b), plX = get_u32 (drop 88 b),
         plY = get_u32 (drop 92 b), plAddr = get_u32 (drop 96 b), plPort = get_u16 (drop 100 b),
         plSkillGroup = b ! 102\<rparr>)"

text \<open>The two copies agree.\<close>

lemma player_payload_copies:
  "encodeSimplePlayerPayload = encodeSimplePlayer" "decodeSimplePlayerPayload = decodeSimplePlayer"
  by (auto simp: fun_eq_iff encodeSimplePlayerPayload_def encodeSimplePlayer_def
      decodeSimplePlayerPayload_def decodeSimplePlayer_def readSimplePlayer_def)

record PlayerCreateSuccessPacket =
  pcIndex :: u8
  pcPlayer :: SimplePlayer

definition EncodePlayerCreateSuccess :: "PlayerCreateSuccessPacket \<Rightarrow> packet_error + u8 list" where
  "EncodePlayerCreateSuccess p =
     attempt (encodeSimplePlayerPayload (pcPlayer p)) (\<lambda>player.
     Inr (Encode HeaderPlayerCreateSuccess ([pcIndex p] @ player)))"

definition DecodePlayerCreateSuccess :: "frame \<Rightarrow> packet_error + PlayerCreateSuccessPacket" where
  "DecodePlayerCreateSuccess f =
     (if Header f \<noteq> HeaderPlayerCreateSuccess then Inl ErrUnexpectedHeader
      else if length (Payload f) \<noteq> playerCreateSuccessPayloadSize then Inl ErrInvalidPayload
      else attempt (decodeSimplePlayerPayload (drop 1 (Payload f))) (\<lambda>player.
        Inr \<lparr>pcIndex = Payload f ! 0, pcPlayer = player\<rparr>))"

interpretation player_create_success_packet: packet_codec HeaderPlayerCreateSuccess
    "\<lambda>p. player_ok (pcPlayer p)" "\<lambda>p. sent (EncodePlayerCreateSuccess p)" DecodePlayerCreateSuccess
proof
  fix p :: PlayerCreateSuccessPacket
  assume ok: "player_ok (pcPlayer p)"
  obtain bs where bs: "encodeSimplePlayer (pcPlayer p) = Inr bs"
    using encodeSimplePlayer_Inr [OF ok] by blast
  with ok have l: "length bs = 103" and d: "decodeSimplePlayer bs = Inr (pcPlayer p)"
    using player_codec.enc_length [OF ok] decode_encode_player [OF ok] by (simp_all add: packet_simps)
  show "framed HeaderPlayerCreateSuccess (sent (EncodePlayerCreateSuccess p))"
    by (simp add: EncodePlayerCreateSuccess_def player_payload_copies bs l packet_simps)
  show "DecodePlayerCreateSuccess (frame_in (sent (EncodePlayerCreateSuccess p))) = Inr p"
    by (simp add: EncodePlayerCreateSuccess_def DecodePlayerCreateSuccess_def player_payload_copies bs l d
        packet_simps)
qed (simp add: DecodePlayerCreateSuccess_def)

record PlayerCreateFailurePacket =
  pfType :: u8

definition EncodePlayerCreateFailure :: "PlayerCreateFailurePacket \<Rightarrow> u8 list" where
  "EncodePlayerCreateFailure p =
     Encode HeaderPlayerCreateFailure ([pfType p])"

definition DecodePlayerCreateFailure :: "frame \<Rightarrow> packet_error + PlayerCreateFailurePacket" where
  "DecodePlayerCreateFailure f =
     (if Header f \<noteq> HeaderPlayerCreateFailure then Inl ErrUnexpectedHeader
      else if length (Payload f) \<noteq> playerCreateFailurePayloadSize then Inl ErrInvalidPayload
      else let b = Payload f in Inr
          \<lparr>pfType = b ! 0\<rparr>)"

interpretation player_create_failure_packet: exact_packet HeaderPlayerCreateFailure "\<lambda>_. True"
    EncodePlayerCreateFailure DecodePlayerCreateFailure
  by unfold_locales (auto simp: EncodePlayerCreateFailure_def DecodePlayerCreateFailure_def packet_simps intro!: PlayerCreateFailurePacket.equality split: if_splits)

record PlayerDeleteSuccessPacket =
  pdsIndex :: u8

definition EncodePlayerDeleteSuccess :: "PlayerDeleteSuccessPacket \<Rightarrow> u8 list" where
  "EncodePlayerDeleteSuccess p =
     Encode HeaderPlayerDeleteSuccess ([pdsIndex p])"

definition DecodePlayerDeleteSuccess :: "frame \<Rightarrow> packet_error + PlayerDeleteSuccessPacket" where
  "DecodePlayerDeleteSuccess f =
     (if Header f \<noteq> HeaderPlayerDeleteSuccess then Inl ErrUnexpectedHeader
      else if length (Payload f) \<noteq> playerDeleteSuccessPayloadSize then Inl ErrInvalidPayload
      else let b = Payload f in Inr
          \<lparr>pdsIndex = b ! 0\<rparr>)"

interpretation player_delete_success_packet: exact_packet HeaderPlayerDeleteSuccess "\<lambda>_. True"
    EncodePlayerDeleteSuccess DecodePlayerDeleteSuccess
  by unfold_locales (auto simp: EncodePlayerDeleteSuccess_def DecodePlayerDeleteSuccess_def packet_simps intro!: PlayerDeleteSuccessPacket.equality split: if_splits)

section \<open>Notices about one character\<close>

record CharacterDeleteNoticePacket =
  cnVID :: u32

definition EncodeCharacterDeleteNotice :: "CharacterDeleteNoticePacket \<Rightarrow> u8 list" where
  "EncodeCharacterDeleteNotice p =
     Encode HeaderCharacterDeleteNotice (put_u32 (cnVID p))"

definition DecodeCharacterDeleteNotice :: "frame \<Rightarrow> packet_error + CharacterDeleteNoticePacket" where
  "DecodeCharacterDeleteNotice f =
     (if Header f \<noteq> HeaderCharacterDeleteNotice then Inl ErrUnexpectedHeader
      else if length (Payload f) \<noteq> characterDeleteNoticePayloadSize then Inl ErrInvalidPayload
      else let b = Payload f in Inr
          \<lparr>cnVID = get_u32 b\<rparr>)"

interpretation character_delete_notice_packet: exact_packet HeaderCharacterDeleteNotice "\<lambda>_. True"
    EncodeCharacterDeleteNotice DecodeCharacterDeleteNotice
  by unfold_locales (auto simp: EncodeCharacterDeleteNotice_def DecodeCharacterDeleteNotice_def packet_simps intro!: CharacterDeleteNoticePacket.equality split: if_splits)

record CharacterPositionPacket =
  cpVID :: u32
  cpPosition :: u8

definition EncodeCharacterPosition :: "CharacterPositionPacket \<Rightarrow> u8 list" where
  "EncodeCharacterPosition p =
     Encode HeaderCharacterPosition (put_u32 (cpVID p) @ [cpPosition p])"

definition DecodeCharacterPosition :: "frame \<Rightarrow> packet_error + CharacterPositionPacket" where
  "DecodeCharacterPosition f =
     (if Header f \<noteq> HeaderCharacterPosition then Inl ErrUnexpectedHeader
      else if length (Payload f) \<noteq> characterPositionPayloadSize then Inl ErrInvalidPayload
      else let b = Payload f in Inr
          \<lparr>cpVID = get_u32 b, cpPosition = b ! 4\<rparr>)"

interpretation character_position_packet: exact_packet HeaderCharacterPosition "\<lambda>_. True"
    EncodeCharacterPosition DecodeCharacterPosition
  by unfold_locales (auto simp: EncodeCharacterPosition_def DecodeCharacterPosition_def packet_simps intro!: CharacterPositionPacket.equality split: if_splits)

record StunPacket =
  stnVID :: u32

definition EncodeStun :: "StunPacket \<Rightarrow> u8 list" where
  "EncodeStun p =
     Encode HeaderStun (put_u32 (stnVID p))"

definition DecodeStun :: "frame \<Rightarrow> packet_error + StunPacket" where
  "DecodeStun f =
     (if Header f \<noteq> HeaderStun then Inl ErrUnexpectedHeader
      else if length (Payload f) \<noteq> stunPayloadSize then Inl ErrInvalidPayload
      else let b = Payload f in Inr
          \<lparr>stnVID = get_u32 b\<rparr>)"

interpretation stun_packet: exact_packet HeaderStun "\<lambda>_. True"
    EncodeStun DecodeStun
  by unfold_locales (auto simp: EncodeStun_def DecodeStun_def packet_simps intro!: StunPacket.equality split: if_splits)

record DeadPacket =
  ddVID :: u32

definition EncodeDead :: "DeadPacket \<Rightarrow> u8 list" where
  "EncodeDead p =
     Encode HeaderDead (put_u32 (ddVID p))"

definition DecodeDead :: "frame \<Rightarrow> packet_error + DeadPacket" where
  "DecodeDead f =
     (if Header f \<noteq> HeaderDead then Inl ErrUnexpectedHeader
      else if length (Payload f) \<noteq> deadPayloadSize then Inl ErrInvalidPayload
      else let b = Payload f in Inr
          \<lparr>ddVID = get_u32 b\<rparr>)"

interpretation dead_packet: exact_packet HeaderDead "\<lambda>_. True"
    EncodeDead DecodeDead
  by unfold_locales (auto simp: EncodeDead_def DecodeDead_def packet_simps intro!: DeadPacket.equality split: if_splits)

record ClientWarpPacket =
  cwX :: i32
  cwY :: i32

definition EncodeClientWarp :: "ClientWarpPacket \<Rightarrow> u8 list" where
  "EncodeClientWarp p =
     Encode HeaderClientWarp (put_u32 (cwX p) @ put_u32 (cwY p))"

definition DecodeClientWarp :: "frame \<Rightarrow> packet_error + ClientWarpPacket" where
  "DecodeClientWarp f =
     (if Header f \<noteq> HeaderClientWarp then Inl ErrUnexpectedHeader
      else if length (Payload f) \<noteq> clientWarpPayloadSize then Inl ErrInvalidPayload
      else let b = Payload f in Inr
          \<lparr>cwX = get_u32 b, cwY = get_u32 (drop 4 b)\<rparr>)"

interpretation client_warp_packet: exact_packet HeaderClientWarp "\<lambda>_. True"
    EncodeClientWarp DecodeClientWarp
  by unfold_locales (auto simp: EncodeClientWarp_def DecodeClientWarp_def packet_simps intro!: ClientWarpPacket.equality split: if_splits)

record WarpPacket =
  wpX :: i32
  wpY :: i32
  wpAddr :: u32
  wpPort :: u16

definition EncodeWarp :: "WarpPacket \<Rightarrow> u8 list" where
  "EncodeWarp p =
     Encode HeaderWarp
       (put_u32 (wpX p) @ put_u32 (wpY p) @ put_u32 (wpAddr p) @ put_u16 (wpPort p))"

definition DecodeWarp :: "frame \<Rightarrow> packet_error + WarpPacket" where
  "DecodeWarp f =
     (if Header f \<noteq> HeaderWarp then Inl ErrUnexpectedHeader
      else if length (Payload f) \<noteq> warpPayloadSize then Inl ErrInvalidPayload
      else let b = Payload f in Inr
          \<lparr>wpX = get_u32 b, wpY = get_u32 (drop 4 b), wpAddr = get_u32 (drop 8 b),
           wpPort = get_u16 (drop 12 b)\<rparr>)"

interpretation warp_packet: exact_packet HeaderWarp "\<lambda>_. True"
    EncodeWarp DecodeWarp
  by unfold_locales (auto simp: EncodeWarp_def DecodeWarp_def packet_simps intro!: WarpPacket.equality split: if_splits)

record ChangeSpeedPacket =
  spVID :: u32
  spMovingSpeed :: u16

definition EncodeChangeSpeed :: "ChangeSpeedPacket \<Rightarrow> u8 list" where
  "EncodeChangeSpeed p =
     Encode HeaderChangeSpeed (put_u32 (spVID p) @ put_u16 (spMovingSpeed p))"

definition DecodeChangeSpeed :: "frame \<Rightarrow> packet_error + ChangeSpeedPacket" where
  "DecodeChangeSpeed f =
     (if Header f \<noteq> HeaderChangeSpeed then Inl ErrUnexpectedHeader
      else if length (Payload f) \<noteq> changeSpeedPayloadSize then Inl ErrInvalidPayload
      else let b = Payload f in Inr
          \<lparr>spVID = get_u32 b, spMovingSpeed = get_u16 (drop 4 b)\<rparr>)"

interpretation change_speed_packet: exact_packet HeaderChangeSpeed "\<lambda>_. True"
    EncodeChangeSpeed DecodeChangeSpeed
  by unfold_locales (auto simp: EncodeChangeSpeed_def DecodeChangeSpeed_def packet_simps intro!: ChangeSpeedPacket.equality split: if_splits)

section \<open>Showing a character\<close>

text \<open>
  \<open>CharacterAddPacket\<close> has the field \<open>Parts\<close>, which the wire layout does not carry: the decoder
  leaves it zero, and only a packet whose parts are zero is given back unchanged.
\<close>

record CharacterAddPacket =
  caVID :: u32
  caAngle :: u32
  caX :: i32
  caY :: i32
  caZ :: i32
  caType :: u8
  caRaceNum :: u16
  caMovingSpeed :: u8
  caAttackSpeed :: u8
  caStateFlag :: u8
  caAffectFlags :: "u32 list"
  caParts :: "u16 list"

definition EncodeCharacterAdd :: "CharacterAddPacket \<Rightarrow> u8 list" where
  "EncodeCharacterAdd p =
     Encode HeaderCharacterAdd (put_u32 (caVID p) @ put_u32 (caAngle p) @ put_u32 (caX p) @ put_u32 (caY p) @
        put_u32 (caZ p) @ [caType p] @ put_u16 (caRaceNum p) @
        [caMovingSpeed p, caAttackSpeed p, caStateFlag p] @
        concat (map put_u32 (caAffectFlags p)))"

definition DecodeCharacterAdd :: "frame \<Rightarrow> packet_error + CharacterAddPacket" where
  "DecodeCharacterAdd f =
     (if Header f \<noteq> HeaderCharacterAdd then Inl ErrUnexpectedHeader
      else if length (Payload f) \<noteq> characterAddPayloadSize then Inl ErrInvalidPayload
      else let b = Payload f in Inr
          \<lparr>caVID = get_u32 b, caAngle = get_u32 (drop 4 b), caX = get_u32 (drop 8 b),
           caY = get_u32 (drop 12 b), caZ = get_u32 (drop 16 b), caType = b ! 20,
           caRaceNum = get_u16 (drop 21 b), caMovingSpeed = b ! 23, caAttackSpeed = b ! 24,
           caStateFlag = b ! 25, caAffectFlags = decode_each get_u32 4 2 (drop 26 b),
           caParts = replicate 4 0\<rparr>)"

interpretation character_add_packet: packet_codec HeaderCharacterAdd "\<lambda>p. length (caAffectFlags p) = 2 \<and> caParts p = replicate 4 0"
    EncodeCharacterAdd DecodeCharacterAdd
  by unfold_locales (auto simp: EncodeCharacterAdd_def DecodeCharacterAdd_def packet_simps intro!: CharacterAddPacket.equality split: if_splits)

record CharacterAdditionalInfoPacket =
  ciVID :: u32
  ciName :: string
  ciParts :: "u16 list"
  ciEmpire :: u8
  ciGuildID :: u32
  ciLevel :: u32
  ciAlignment :: i16
  ciPKMode :: u8
  ciMountVnum :: u32

definition EncodeCharacterAdditionalInfo :: "CharacterAdditionalInfoPacket \<Rightarrow> packet_error + u8 list" where
  "EncodeCharacterAdditionalInfo p =
     attempt (putFixedString 65 (ciName p)) (\<lambda>name.
     Inr (Encode HeaderCharacterAdditionalInfo
       (put_u32 (ciVID p) @ name @ concat (map put_u16 (ciParts p)) @ [ciEmpire p] @
        put_u32 (ciGuildID p) @ put_u32 (ciLevel p) @ put_u16 (ciAlignment p) @ [ciPKMode p] @
        put_u32 (ciMountVnum p))))"

definition DecodeCharacterAdditionalInfo :: "frame \<Rightarrow> packet_error + CharacterAdditionalInfoPacket" where
  "DecodeCharacterAdditionalInfo f =
     (if Header f \<noteq> HeaderCharacterAdditionalInfo then Inl ErrUnexpectedHeader
      else if length (Payload f) \<noteq> characterAdditionalInfoPayloadSize then Inl ErrInvalidPayload
      else let b = Payload f in Inr
          \<lparr>ciVID = get_u32 b, ciName = parseFixedString (take 65 (drop 4 b)),
           ciParts = decode_each get_u16 2 4 (drop 69 b), ciEmpire = b ! 77,
           ciGuildID = get_u32 (drop 78 b), ciLevel = get_u32 (drop 82 b),
           ciAlignment = get_u16 (drop 86 b), ciPKMode = b ! 88,
           ciMountVnum = get_u32 (drop 89 b)\<rparr>)"

interpretation character_additional_info_packet: checked_packet HeaderCharacterAdditionalInfo
    "\<lambda>p. text_fits 65 (ciName p) \<and> length (ciParts p) = 4"
    "\<lambda>p. length (ciName p) < 65"
    EncodeCharacterAdditionalInfo DecodeCharacterAdditionalInfo
  by unfold_locales (auto simp: EncodeCharacterAdditionalInfo_def DecodeCharacterAdditionalInfo_def text_simps packet_simps
      intro!: CharacterAdditionalInfoPacket.equality split: if_splits)

record CharacterUpdatePacket =
  cuVID :: u32
  cuParts :: "u16 list"
  cuMovingSpeed :: u8
  cuAttackSpeed :: u8
  cuStateFlag :: u8
  cuAffectFlags :: "u32 list"
  cuGuildID :: u32
  cuAlignment :: i16
  cuPKMode :: u8
  cuMountVnum :: u32

definition EncodeCharacterUpdate :: "CharacterUpdatePacket \<Rightarrow> u8 list" where
  "EncodeCharacterUpdate p =
     Encode HeaderCharacterUpdate (put_u32 (cuVID p) @ concat (map put_u16 (cuParts p)) @
        [cuMovingSpeed p, cuAttackSpeed p, cuStateFlag p] @
        concat (map put_u32 (cuAffectFlags p)) @ put_u32 (cuGuildID p) @
        put_u16 (cuAlignment p) @ [cuPKMode p] @ put_u32 (cuMountVnum p))"

definition DecodeCharacterUpdate :: "frame \<Rightarrow> packet_error + CharacterUpdatePacket" where
  "DecodeCharacterUpdate f =
     (if Header f \<noteq> HeaderCharacterUpdate then Inl ErrUnexpectedHeader
      else if length (Payload f) \<noteq> characterUpdatePayloadSize then Inl ErrInvalidPayload
      else let b = Payload f in Inr
          \<lparr>cuVID = get_u32 b, cuParts = decode_each get_u16 2 4 (drop 4 b),
           cuMovingSpeed = b ! 12, cuAttackSpeed = b ! 13, cuStateFlag = b ! 14,
           cuAffectFlags = decode_each get_u32 4 2 (drop 15 b),
           cuGuildID = get_u32 (drop 23 b), cuAlignment = get_u16 (drop 27 b),
           cuPKMode = b ! 29, cuMountVnum = get_u32 (drop 30 b)\<rparr>)"

interpretation character_update_packet: exact_packet HeaderCharacterUpdate "\<lambda>p. length (cuParts p) = 4 \<and> length (cuAffectFlags p) = 2"
    EncodeCharacterUpdate DecodeCharacterUpdate
  by unfold_locales (auto simp: EncodeCharacterUpdate_def DecodeCharacterUpdate_def packet_simps intro!: CharacterUpdatePacket.equality split: if_splits)

record MainCharacterPacket =
  mcVID :: u32
  mcRaceNum :: u16
  mcName :: string
  mcBGMName :: string
  mcBGMVolume :: u32
  mcX :: i32
  mcY :: i32
  mcZ :: i32
  mcEmpire :: u8
  mcSkillGroup :: u8

definition EncodeMainCharacter :: "MainCharacterPacket \<Rightarrow> packet_error + u8 list" where
  "EncodeMainCharacter p =
     attempt (putFixedString 65 (mcName p)) (\<lambda>name.
     attempt (putFixedString 25 (mcBGMName p)) (\<lambda>bGMName.
     Inr (Encode HeaderMainCharacter
       (put_u32 (mcVID p) @ put_u16 (mcRaceNum p) @ name @ bGMName @ put_u32 (mcBGMVolume p) @
        put_u32 (mcX p) @ put_u32 (mcY p) @ put_u32 (mcZ p) @ [mcEmpire p, mcSkillGroup p]))))"

definition DecodeMainCharacter :: "frame \<Rightarrow> packet_error + MainCharacterPacket" where
  "DecodeMainCharacter f =
     (if Header f \<noteq> HeaderMainCharacter then Inl ErrUnexpectedHeader
      else if length (Payload f) \<noteq> mainCharacterPayloadSize then Inl ErrInvalidPayload
      else let b = Payload f in Inr
          \<lparr>mcVID = get_u32 b, mcRaceNum = get_u16 (drop 4 b),
           mcName = parseFixedString (take 65 (drop 6 b)),
           mcBGMName = parseFixedString (take 25 (drop 71 b)),
           mcBGMVolume = get_u32 (drop 96 b), mcX = get_u32 (drop 100 b),
           mcY = get_u32 (drop 104 b), mcZ = get_u32 (drop 108 b), mcEmpire = b ! 112,
           mcSkillGroup = b ! 113\<rparr>)"

interpretation main_character_packet: checked_packet HeaderMainCharacter
    "\<lambda>p. text_fits 65 (mcName p) \<and> text_fits 25 (mcBGMName p)"
    "\<lambda>p. length (mcName p) < 65 \<and> length (mcBGMName p) < 25"
    EncodeMainCharacter DecodeMainCharacter
  by unfold_locales (auto simp: EncodeMainCharacter_def DecodeMainCharacter_def text_simps packet_simps
      intro!: MainCharacterPacket.equality split: if_splits)

record PlayerPointsPacket =
  psPoints :: "i32 list"

definition EncodePlayerPoints :: "PlayerPointsPacket \<Rightarrow> u8 list" where
  "EncodePlayerPoints p =
     Encode HeaderPlayerPoints (concat (map put_u32 (psPoints p)))"

definition DecodePlayerPoints :: "frame \<Rightarrow> packet_error + PlayerPointsPacket" where
  "DecodePlayerPoints f =
     (if Header f \<noteq> HeaderPlayerPoints then Inl ErrUnexpectedHeader
      else if length (Payload f) \<noteq> playerPointsPayloadSize then Inl ErrInvalidPayload
      else let b = Payload f in Inr
          \<lparr>psPoints = decode_each get_u32 4 255 b\<rparr>)"

interpretation player_points_packet: exact_packet HeaderPlayerPoints "\<lambda>p. length (psPoints p) = 255"
    EncodePlayerPoints DecodePlayerPoints
  by unfold_locales (auto simp: EncodePlayerPoints_def DecodePlayerPoints_def packet_simps intro!: PlayerPointsPacket.equality split: if_splits)

record PlayerPointChangePacket =
  ppVID :: u32
  ppType :: u8
  ppAmount :: i32
  ppValue :: i32

definition EncodePlayerPointChange :: "PlayerPointChangePacket \<Rightarrow> u8 list" where
  "EncodePlayerPointChange p =
     Encode HeaderPlayerPointChange
       (put_u32 (ppVID p) @ [ppType p] @ put_u32 (ppAmount p) @ put_u32 (ppValue p))"

definition DecodePlayerPointChange :: "frame \<Rightarrow> packet_error + PlayerPointChangePacket" where
  "DecodePlayerPointChange f =
     (if Header f \<noteq> HeaderPlayerPointChange then Inl ErrUnexpectedHeader
      else if length (Payload f) \<noteq> playerPointChangePayloadSize then Inl ErrInvalidPayload
      else let b = Payload f in Inr
          \<lparr>ppVID = get_u32 b, ppType = b ! 4, ppAmount = get_u32 (drop 5 b),
           ppValue = get_u32 (drop 9 b)\<rparr>)"

interpretation player_point_change_packet: exact_packet HeaderPlayerPointChange "\<lambda>_. True"
    EncodePlayerPointChange DecodePlayerPointChange
  by unfold_locales (auto simp: EncodePlayerPointChange_def DecodePlayerPointChange_def packet_simps intro!: PlayerPointChangePacket.equality split: if_splits)

end
