(* ===== verification/Flow_Entry.thy ===== *)
theory Flow_Entry
  imports Flow Wire_World
begin

text \<open>
  The flows of a connection before the game: \<open>internal/handshake/flow.go\<close>, \<open>login/flow.go\<close>,
  \<open>auth/flow.go\<close> and \<open>worldentry/flow.go\<close>. The state machine a flow shares with the others is passed
  in and out.
\<close>

section \<open>Handshake\<close>

record 'w handshake_config =
  KeyChallenge :: KeyChallengePacket
  KeyComplete :: KeyCompletePacket
  VerifyKeyResponse :: "('w, KeyResponsePacket, bool) handler option"
  NextPhase :: phase
  SecureSession :: "server_session option"

record 'w handshake_flow =
  keyChallenge :: KeyChallengePacket
  keyComplete :: KeyCompletePacket
  verifyKeyResponse :: "('w, KeyResponsePacket, bool) handler"
  nextPhase :: phase
  secureSession :: "server_session option"
  handshakeErr :: "flow_error option"
  started :: bool

definition isValidNextPhase :: "phase \<Rightarrow> bool" where
  "isValidNextPhase p = (p = PhaseLogin \<or> p = PhaseAuth)"

definition handshake_NewFlow :: "'w handshake_config \<Rightarrow> 'w handshake_flow" where
  "handshake_NewFlow cfg =
     \<lparr>keyChallenge = KeyChallenge cfg, keyComplete = KeyComplete cfg,
      verifyKeyResponse = handler_or True (VerifyKeyResponse cfg),
      nextPhase = (if NextPhase cfg = PhaseOther [] then PhaseLogin else NextPhase cfg),
      secureSession = SecureSession cfg,
      handshakeErr = (if NextPhase cfg \<noteq> PhaseOther [] \<and> \<not> isValidNextPhase (NextPhase cfg)
                   then Some ErrInvalidNextPhase else None),
      started = False\<rparr>"

definition handshake_Start ::
    "crypto \<Rightarrow> u32 \<Rightarrow> 'w handshake_flow \<Rightarrow> state_machine \<Rightarrow> 'w handshake_flow \<times> reply" where
  "handshake_Start c now f m =
     (case handshakeErr f of
        Some e \<Rightarrow> (f, Inl e)
      | None \<Rightarrow>
          if Current m \<noteq> PhaseHandshake then (f, Inl (ErrInvalidPhase HandshakeFlow))
          else if started f then (f, Inl ErrHandshakeAlreadyStart)
          else case secureSession f of
            Some s \<Rightarrow>
              (case ServerSession_Start c now s of
                 (s', Inl e) \<Rightarrow> (f\<lparr>started := True, secureSession := Some s'\<rparr>, Inl (Cipher e))
               | (s', Inr challenge) \<Rightarrow>
                   (f\<lparr>started := True, secureSession := Some s'\<rparr>, Inr [EncodeKeyChallenge challenge]))
          | None \<Rightarrow> (f\<lparr>started := True\<rparr>, Inr [EncodeKeyChallenge (keyChallenge f)]))"

text \<open>A completed handshake: the machine moves on, and the client is told so.\<close>

definition finish_handshake :: "state_machine \<Rightarrow> phase \<Rightarrow> KeyCompletePacket \<Rightarrow> state_machine \<times> reply" where
  "finish_handshake m nxt completion =
     (case Transition m nxt of
        (m', Some e) \<Rightarrow> (m', Inl (Machine e))
      | (m', None) \<Rightarrow>
          case encoded (EncodePhase nxt) of
            Inl e \<Rightarrow> (m', Inl e)
          | Inr phaseNext \<Rightarrow> (m', Inr [EncodeKeyComplete completion, phaseNext]))"

definition handle_key_response ::
    "crypto \<Rightarrow> 'w handshake_flow \<Rightarrow> state_machine \<Rightarrow> 'w \<Rightarrow> KeyResponsePacket \<Rightarrow>
     'w handshake_flow \<times> state_machine \<times> 'w \<times> reply" where
  "handle_key_response c f m w packet =
     (case secureSession f of
        Some s \<Rightarrow>
          (case ServerSession_HandleKeyResponse c s packet of
             (s', Inl e) \<Rightarrow>
               (f\<lparr>secureSession := Some s'\<rparr>, fst (Transition m PhaseClose), w, Inl (ErrKeyResponseRejected (Some e)))
           | (s', Inr completion) \<Rightarrow>
               (case finish_handshake m (nextPhase f) completion of
                  (m', r) \<Rightarrow> (f\<lparr>secureSession := Some s'\<rparr>, m', w, r)))
      | None \<Rightarrow>
          (case verifyKeyResponse f w packet of
             (w', False) \<Rightarrow> (f, fst (Transition m PhaseClose), w', Inl (ErrKeyResponseRejected None))
           | (w', True) \<Rightarrow>
               (case finish_handshake m (nextPhase f) (keyComplete f) of (m', r) \<Rightarrow> (f, m', w', r))))"

definition handshake_HandleClientFrame ::
    "crypto \<Rightarrow> 'w handshake_flow \<Rightarrow> state_machine \<Rightarrow> 'w \<Rightarrow> frame \<Rightarrow>
     'w handshake_flow \<times> state_machine \<times> 'w \<times> reply" where
  "handshake_HandleClientFrame c f m w fr =
     (case handshakeErr f of
        Some e \<Rightarrow> (f, m, w, Inl e)
      | None \<Rightarrow>
          if Current m \<noteq> PhaseHandshake then (f, m, w, Inl (ErrInvalidPhase HandshakeFlow))
          else if \<not> started f then (f, m, w, Inl ErrHandshakeNotStarted)
          else if Header fr = HeaderPong then
            (f, m, w, if length (Payload fr) \<noteq> 0 then Inl (Packet ErrInvalidPayload) else Inr [])
          else if Header fr = HeaderKeyResponse then
            (case DecodeKeyResponse fr of
               Inl e \<Rightarrow> (f, m, w, Inl (Packet e))
             | Inr packet \<Rightarrow> handle_key_response c f m w packet)
          else (f, m, w, Inl (ErrUnexpectedClientPacket HandshakeFlow)))"

definition handshake_EncryptLegacyOutgoing ::
    "crypto \<Rightarrow> 'w handshake_flow \<Rightarrow> u8 list \<Rightarrow> 'w handshake_flow \<times> (cipher_error + u8 list)" where
  "handshake_EncryptLegacyOutgoing c f raw =
     (case secureSession f of
        None \<Rightarrow> (f, Inr raw)
      | Some s \<Rightarrow> (case ServerSession_EncryptOutgoing c s raw of (s', r) \<Rightarrow> (f\<lparr>secureSession := Some s'\<rparr>, r)))"

definition handshake_DecryptLegacyIncoming ::
    "crypto \<Rightarrow> 'w handshake_flow \<Rightarrow> u8 list \<Rightarrow> 'w handshake_flow \<times> (cipher_error + u8 list)" where
  "handshake_DecryptLegacyIncoming c f raw =
     (case secureSession f of
        None \<Rightarrow> (f, Inr raw)
      | Some s \<Rightarrow> (case ServerSession_DecryptIncoming c s raw of (s', r) \<Rightarrow> (f\<lparr>secureSession := Some s'\<rparr>, r)))"

section \<open>Login\<close>

record login_result =
  lrAccepted :: bool
  lrFailureStatus :: string
  lrEmpire :: u8
  lrLoginSuccess4 :: LoginSuccess4Packet

definition zero_player :: SimplePlayer where
  "zero_player =
     \<lparr>plID = 0, plName = [], plJob = 0, plLevel = 0, plPlayMinutes = 0, plST = 0, plHT = 0, plDX = 0,
      plIQ = 0, plMainPart = 0, plChangeName = 0, plHairPart = 0, plDummy = replicate 4 0, plX = 0, plY = 0,
      plAddr = 0, plPort = 0, plSkillGroup = 0\<rparr>"

definition refused_login :: login_result where
  "refused_login =
     \<lparr>lrAccepted = False, lrFailureStatus = ''NOID'', lrEmpire = 0, lrLoginSuccess4 =
        \<lparr>lsPlayers = replicate 4 zero_player, lsGuildIDs = replicate 4 0, lsGuildNames = replicate 4 [],
         lsHandle = 0, lsRandomKey = 0\<rparr>\<rparr>"

record 'w login_flow =
  loginAuthenticate :: "('w, Login2Packet, login_result) handler"

definition login_NewFlow :: "('w, Login2Packet, login_result) handler option \<Rightarrow> 'w login_flow" where
  "login_NewFlow authenticate = \<lparr>loginAuthenticate = handler_or refused_login authenticate\<rparr>"

definition login_failure :: "string \<Rightarrow> reply" where
  "login_failure status =
     (case encoded (EncodeLoginFailure \<lparr>lfStatus = status\<rparr>) of Inl e \<Rightarrow> Inl e | Inr failure \<Rightarrow> Inr [failure])"

text \<open>The answer is built first; the machine moves only when all of it could be encoded.\<close>

definition login_accepted :: "state_machine \<Rightarrow> login_result \<Rightarrow> state_machine \<times> reply" where
  "login_accepted m r =
     (case encoded (EncodePhase PhaseSelect) of
        Inl e \<Rightarrow> (m, Inl e)
      | Inr phaseSelect \<Rightarrow>
          case encoded (EncodeLoginSuccess4 (lrLoginSuccess4 r)) of
            Inl e \<Rightarrow> (m, Inl e)
          | Inr loginSuccess \<Rightarrow>
              case Transition m PhaseSelect of
                (m', Some e) \<Rightarrow> (m', Inl (Machine e))
              | (m', None) \<Rightarrow>
                  (m', Inr [loginSuccess, EncodeEmpire \<lparr>emEmpire = lrEmpire r\<rparr>, phaseSelect]))"

definition login_HandleClientFrame ::
    "'w login_flow \<Rightarrow> state_machine \<Rightarrow> 'w \<Rightarrow> frame \<Rightarrow> state_machine \<times> 'w \<times> reply" where
  "login_HandleClientFrame f m w fr =
     (if Current m \<noteq> PhaseLogin then (m, w, Inl (ErrInvalidPhase LoginFlow))
      else if Header fr \<noteq> HeaderLogin2 then (m, w, Inl (ErrUnexpectedClientPacket LoginFlow))
      else case DecodeLogin2 fr of
        Inl e \<Rightarrow> (m, w, Inl (Packet e))
      | Inr packet \<Rightarrow>
          case loginAuthenticate f w packet of
            (w', r) \<Rightarrow>
              if \<not> lrAccepted r then (m, w', login_failure (lrFailureStatus r))
              else case login_accepted m r of (m', out) \<Rightarrow> (m', w', out))"

section \<open>Authentication\<close>

record auth_result =
  arAccepted :: bool
  arFailureStatus :: string
  arLoginKey :: u32

record 'w auth_flow =
  authAuthenticate :: "('w, Login3Packet, auth_result) handler"

definition auth_NewFlow :: "('w, Login3Packet, auth_result) handler option \<Rightarrow> 'w auth_flow" where
  "auth_NewFlow authenticate =
     \<lparr>authAuthenticate =
        handler_or \<lparr>arAccepted = False, arFailureStatus = ''NOID'', arLoginKey = 0\<rparr> authenticate\<rparr>"

definition auth_HandleClientFrame ::
    "'w auth_flow \<Rightarrow> state_machine \<Rightarrow> 'w \<Rightarrow> frame \<Rightarrow> 'w \<times> reply" where
  "auth_HandleClientFrame f m w fr =
     (if Current m \<noteq> PhaseAuth then (w, Inl (ErrInvalidPhase AuthFlow))
      else if Header fr = HeaderPong then
        (w, if length (Payload fr) \<noteq> 0 then Inl (Packet ErrInvalidPayload) else Inr [])
      else if Header fr = HeaderLogin3 then
        (case DecodeLogin3 fr of
           Inl e \<Rightarrow> (w, Inl (Packet e))
         | Inr packet \<Rightarrow>
             case authAuthenticate f w packet of
               (w', r) \<Rightarrow>
                 (w', if \<not> arAccepted r then login_failure (arFailureStatus r)
                      else Inr [EncodeAuthSuccess \<lparr>asLoginKey = arLoginKey r, asResult = 1\<rparr>]))
      else (w, Inl (ErrUnexpectedClientPacket AuthFlow)))"

section \<open>Selecting a character and entering the world\<close>

record empire_result =
  erAccepted :: bool
  erEmpire :: u8

record create_result =
  crtAccepted :: bool
  crtFailureType :: u8
  crtPlayer :: PlayerCreateSuccessPacket

record delete_result =
  drAccepted :: bool
  drIndex :: u8

text \<open>The selected player is a pointer the flow stores and hands on: a value of any type \<open>'p\<close>.\<close>

record 'p select_result =
  csAccepted :: bool
  csPlayer :: "'p option"
  csMainCharacter :: MainCharacterPacket
  csPlayerPoints :: PlayerPointsPacket

record enter_game_result =
  egRejected :: bool
  egBootstrapFrames :: "u8 list list"
  egTrailingFrames :: "u8 list list"

record ('w, 'p) worldentry_config =
  SelectEmpire :: "('w, u8, empire_result) handler option"
  CreateCharacter :: "('w, CharacterCreatePacket, create_result) handler option"
  DeleteCharacter :: "('w, CharacterDeletePacket, delete_result) handler option"
  SelectCharacter :: "('w, u8, 'p select_result) handler option"
  EnterGame :: "('w, 'p option, enter_game_result) handler option"

record ('w, 'p) worldentry_flow =
  selectEmpire :: "('w, u8, empire_result) handler"
  createCharacter :: "('w, CharacterCreatePacket, create_result) handler"
  deleteCharacter :: "('w, CharacterDeletePacket, delete_result) handler"
  selectCharacter :: "('w, u8, 'p select_result) handler"
  enterGame :: "('w, 'p option, enter_game_result) handler"
  selectedPlayer :: "'p option"

definition refused_select :: "'p select_result" where
  "refused_select =
     \<lparr>csAccepted = False, csPlayer = None,
      csMainCharacter = \<lparr>mcVID = 0, mcRaceNum = 0, mcName = [], mcBGMName = [], mcBGMVolume = 0, mcX = 0,
        mcY = 0, mcZ = 0, mcEmpire = 0, mcSkillGroup = 0\<rparr>,
      csPlayerPoints = \<lparr>psPoints = replicate 255 0\<rparr>\<rparr>"

text \<open>Without a callback the game is entered, with no frames but the phase.\<close>

definition worldentry_NewFlow :: "('w, 'p) worldentry_config \<Rightarrow> ('w, 'p) worldentry_flow" where
  "worldentry_NewFlow cfg =
     \<lparr>selectEmpire = handler_or \<lparr>erAccepted = False, erEmpire = 0\<rparr> (SelectEmpire cfg),
      createCharacter = handler_or \<lparr>crtAccepted = False, crtFailureType = 0,
        crtPlayer = \<lparr>pcIndex = 0, pcPlayer = zero_player\<rparr>\<rparr> (CreateCharacter cfg),
      deleteCharacter = handler_or \<lparr>drAccepted = False, drIndex = 0\<rparr> (DeleteCharacter cfg),
      selectCharacter = handler_or refused_select (SelectCharacter cfg),
      enterGame = handler_or \<lparr>egRejected = False, egBootstrapFrames = [], egTrailingFrames = []\<rparr> (EnterGame cfg),
      selectedPlayer = None\<rparr>"

definition handle_empire ::
    "('w, 'p) worldentry_flow \<Rightarrow> 'w \<Rightarrow> EmpirePacket \<Rightarrow> 'w \<times> reply" where
  "handle_empire f w packet =
     (case selectEmpire f w (emEmpire packet) of
        (w', r) \<Rightarrow> (w', if \<not> erAccepted r then Inl ErrEmpireSelectRejected
                        else Inr [EncodeEmpire \<lparr>emEmpire = erEmpire r\<rparr>]))"

definition handle_create ::
    "('w, 'p) worldentry_flow \<Rightarrow> 'w \<Rightarrow> CharacterCreatePacket \<Rightarrow> 'w \<times> reply" where
  "handle_create f w packet =
     (case createCharacter f w packet of
        (w', r) \<Rightarrow>
          (w', if \<not> crtAccepted r then Inr [EncodePlayerCreateFailure \<lparr>pfType = crtFailureType r\<rparr>]
               else case encoded (EncodePlayerCreateSuccess (crtPlayer r)) of
                 Inl e \<Rightarrow> Inl e
               | Inr success \<Rightarrow> Inr [success]))"

definition handle_delete ::
    "('w, 'p) worldentry_flow \<Rightarrow> 'w \<Rightarrow> CharacterDeletePacket \<Rightarrow> 'w \<times> reply" where
  "handle_delete f w packet =
     (case deleteCharacter f w packet of
        (w', r) \<Rightarrow>
          (w', if \<not> drAccepted r then Inr [EncodePlayerDeleteFailure]
               else Inr [EncodePlayerDeleteSuccess \<lparr>pdsIndex = drIndex r\<rparr>]))"

text \<open>
  The selected player is stored before the answer is encoded and before the machine moves: it stays
  stored when one of these fails.
\<close>

definition handle_select ::
    "('w, 'p) worldentry_flow \<Rightarrow> state_machine \<Rightarrow> 'w \<Rightarrow> CharacterSelectPacket \<Rightarrow>
     ('w, 'p) worldentry_flow \<times> state_machine \<times> 'w \<times> reply" where
  "handle_select f m w packet =
     (case selectCharacter f w (csIndex packet) of
        (w', r) \<Rightarrow>
          if \<not> csAccepted r then (f, m, w', Inl ErrCharacterSelectRejected)
          else
            let f' = f\<lparr>selectedPlayer := csPlayer r\<rparr> in
            case encoded (EncodePhase PhaseLoading) of
              Inl e \<Rightarrow> (f', m, w', Inl e)
            | Inr phaseLoading \<Rightarrow>
                case encoded (EncodeMainCharacter (csMainCharacter r)) of
                  Inl e \<Rightarrow> (f', m, w', Inl e)
                | Inr mainCharacter \<Rightarrow>
                    case Transition m PhaseLoading of
                      (m', Some e) \<Rightarrow> (f', m', w', Inl (Machine e))
                    | (m', None) \<Rightarrow>
                        (f', m', w', Inr [phaseLoading, mainCharacter, EncodePlayerPoints (csPlayerPoints r)]))"

definition handle_enter ::
    "('w, 'p) worldentry_flow \<Rightarrow> state_machine \<Rightarrow> 'w \<Rightarrow> state_machine \<times> 'w \<times> reply" where
  "handle_enter f m w =
     (case encoded (EncodePhase PhaseGame) of
        Inl e \<Rightarrow> (m, w, Inl e)
      | Inr phaseGame \<Rightarrow>
          case enterGame f w (selectedPlayer f) of
            (w', r) \<Rightarrow>
              if egRejected r then (m, w', Inl ErrEnterGameRejected)
              else case Transition m PhaseGame of
                (m', Some e) \<Rightarrow> (m', w', Inl (Machine e))
              | (m', None) \<Rightarrow>
                  (m', w', Inr (phaseGame # egBootstrapFrames r @ egTrailingFrames r)))"

definition worldentry_HandleClientFrame ::
    "('w, 'p) worldentry_flow \<Rightarrow> state_machine \<Rightarrow> 'w \<Rightarrow> frame \<Rightarrow>
     ('w, 'p) worldentry_flow \<times> state_machine \<times> 'w \<times> reply" where
  "worldentry_HandleClientFrame f m w fr =
     (if Current m = PhaseSelect then
        if Header fr = HeaderEmpireSelect then
          (case DecodeEmpireSelect fr of
             Inl e \<Rightarrow> (f, m, w, Inl (Packet e)) | Inr p \<Rightarrow> (f, m, handle_empire f w p))
        else if Header fr = HeaderCharacterCreate then
          (case DecodeCharacterCreate fr of
             Inl e \<Rightarrow> (f, m, w, Inl (Packet e)) | Inr p \<Rightarrow> (f, m, handle_create f w p))
        else if Header fr = HeaderCharacterDelete then
          (case DecodeCharacterDelete fr of
             Inl e \<Rightarrow> (f, m, w, Inl (Packet e)) | Inr p \<Rightarrow> (f, m, handle_delete f w p))
        else if Header fr = HeaderCharacterSelect then
          (case DecodeCharacterSelect fr of
             Inl e \<Rightarrow> (f, m, w, Inl (Packet e)) | Inr p \<Rightarrow> handle_select f m w p)
        else (f, m, w, Inl (ErrUnexpectedClientPacket WorldEntryFlow))
      else if Current m = PhaseLoading then
        if Header fr = HeaderClientVersion then
          (f, m, w, case DecodeClientVersion fr of Inl e \<Rightarrow> Inl (Packet e) | Inr _ \<Rightarrow> Inr [])
        else if Header fr = HeaderEnterGame then
          (case DecodeEnterGame fr of
             Inl e \<Rightarrow> (f, m, w, Inl (Packet e)) | Inr _ \<Rightarrow> (f, handle_enter f m w))
        else (f, m, w, Inl (ErrUnexpectedClientPacket WorldEntryFlow))
      else (f, m, w, Inl (ErrInvalidPhase WorldEntryFlow)))"

section \<open>What moves a connection on\<close>

lemma EncodePhase_known: "isKnownPhase p \<Longrightarrow> \<exists>bs. EncodePhase p = Inr bs"
  by (cases p) (simp_all add: EncodePhase_def)

lemma Transition_changes:
  "current (fst (Transition m q)) \<noteq> current m \<Longrightarrow> current (fst (Transition m q)) = q \<and> snd (Transition m q) = None"
  by (auto simp: Transition_def split: if_splits)

text \<open>The reasons for which a frame moves a connection towards the game.\<close>

definition key_accepted :: "crypto \<Rightarrow> 'w handshake_flow \<Rightarrow> 'w \<Rightarrow> frame \<Rightarrow> bool" where
  "key_accepted c f w fr \<longleftrightarrow> Header fr = HeaderKeyResponse \<and>
     (\<exists>p. DecodeKeyResponse fr = Inr p \<and>
       (case secureSession f of Some s \<Rightarrow> answered c s p | None \<Rightarrow> snd (verifyKeyResponse f w p)))"

definition login_granted :: "'w login_flow \<Rightarrow> 'w \<Rightarrow> frame \<Rightarrow> bool" where
  "login_granted f w fr \<longleftrightarrow> Header fr = HeaderLogin2 \<and>
     (\<exists>p. DecodeLogin2 fr = Inr p \<and> lrAccepted (snd (loginAuthenticate f w p)))"

definition character_selected :: "('w, 'p) worldentry_flow \<Rightarrow> 'w \<Rightarrow> frame \<Rightarrow> bool" where
  "character_selected f w fr \<longleftrightarrow> Header fr = HeaderCharacterSelect \<and>
     (\<exists>p. DecodeCharacterSelect fr = Inr p \<and> csAccepted (snd (selectCharacter f w (csIndex p))))"

definition game_entered :: "('w, 'p) worldentry_flow \<Rightarrow> 'w \<Rightarrow> frame \<Rightarrow> bool" where
  "game_entered f w fr \<longleftrightarrow> Header fr = HeaderEnterGame \<and> Payload fr = [] \<and>
     \<not> egRejected (snd (enterGame f w (selectedPlayer f)))"

lemma finish_handshake_phase:
  "finish_handshake m nxt completion = (m', r) \<Longrightarrow>
   m' = fst (Transition m nxt) \<and> (\<forall>out. r = Inr out \<longrightarrow> current m' = nxt)"
  by (auto simp: finish_handshake_def Transition_def split: prod.splits option.splits sum.splits if_splits)

lemma handshake_moves:
  assumes "handshake_HandleClientFrame c f m w fr = (f', m', w', r)" and "current m' \<noteq> current m"
  shows "current m = PhaseHandshake \<and>
    (current m' = PhaseClose \<or> current m' = nextPhase f \<and> key_accepted c f w fr)"
  using assms Transition_changes [of m PhaseClose] Transition_changes [of m "nextPhase f"]
  by (auto simp: handshake_HandleClientFrame_def handle_key_response_def key_accepted_def answered_def
      Current_def dest!: finish_handshake_phase accepted_response
      split: option.splits if_splits sum.splits prod.splits bool.splits)

lemma login_moves:
  assumes "login_HandleClientFrame f m w fr = (m', w', r)" and "current m' \<noteq> current m"
  shows "current m = PhaseLogin \<and> current m' = PhaseSelect \<and> login_granted f w fr"
  using assms Transition_changes [of m PhaseSelect]
  by (auto simp: login_HandleClientFrame_def login_accepted_def login_granted_def Current_def
      split: option.splits if_splits sum.splits prod.splits)

lemma worldentry_moves:
  assumes "worldentry_HandleClientFrame f m w fr = (f', m', w', r)" and "current m' \<noteq> current m"
  shows "current m = PhaseSelect \<and> current m' = PhaseLoading \<and> character_selected f w fr \<or>
    current m = PhaseLoading \<and> current m' = PhaseGame \<and> game_entered f w fr"
  using assms Transition_changes [of m PhaseLoading] Transition_changes [of m PhaseGame]
  by (auto simp: worldentry_HandleClientFrame_def handle_select_def handle_enter_def character_selected_def
      game_entered_def DecodeEnterGame_def Current_def Let_def
      split: option.splits if_splits sum.splits prod.splits)

end
