(* ===== verification/Wire_Move.thy ===== *)
theory Wire_Move
  imports Wire
begin

text \<open>
  \<open>internal/proto/move\<close>, \<open>proto/quickslot\<close>, \<open>proto/interact\<close> and \<open>proto/effect\<close>: movement, position
  synchronisation, quickslots, interaction requests and special effects.
\<close>

section \<open>Movement\<close>

definition HeaderMove :: u16 where [packet_simps]: "HeaderMove = 0x0301"
definition HeaderMoveAck :: u16 where [packet_simps]: "HeaderMoveAck = 0x0302"
definition HeaderSyncPosition :: u16 where [packet_simps]: "HeaderSyncPosition = 0x0303"
definition HeaderSyncPositionAck :: u16 where [packet_simps]: "HeaderSyncPositionAck = 0x0304"

definition movePayloadSize :: nat where [packet_simps]: "movePayloadSize = 15"
definition moveAckPayloadSize :: nat where [packet_simps]: "moveAckPayloadSize = 23"
definition syncPositionElementSize :: nat where [packet_simps]: "syncPositionElementSize = 12"

record MovePacket =
  mpFunc :: u8
  mpArg :: u8
  mpRot :: u8
  mpX :: i32
  mpY :: i32
  mpTime :: u32

definition EncodeMove :: "MovePacket \<Rightarrow> u8 list" where
  "EncodeMove p =
     Encode HeaderMove
       ([mpFunc p, mpArg p, mpRot p] @ put_u32 (mpX p) @ put_u32 (mpY p) @ put_u32 (mpTime p))"

definition DecodeMove :: "frame \<Rightarrow> packet_error + MovePacket" where
  "DecodeMove f =
     (if Header f \<noteq> HeaderMove then Inl ErrUnexpectedHeader
      else if length (Payload f) \<noteq> movePayloadSize then Inl ErrInvalidPayload
      else let b = Payload f in Inr
          \<lparr>mpFunc = b ! 0, mpArg = b ! 1, mpRot = b ! 2, mpX = get_u32 (drop 3 b),
           mpY = get_u32 (drop 7 b), mpTime = get_u32 (drop 11 b)\<rparr>)"

interpretation move_packet: exact_packet HeaderMove "\<lambda>_. True"
    EncodeMove DecodeMove
  by unfold_locales (auto simp: EncodeMove_def DecodeMove_def packet_simps intro!: MovePacket.equality split: if_splits)

record MoveAckPacket =
  maFunc :: u8
  maArg :: u8
  maRot :: u8
  maVID :: u32
  maX :: i32
  maY :: i32
  maTime :: u32
  maDuration :: u32

definition EncodeMoveAck :: "MoveAckPacket \<Rightarrow> u8 list" where
  "EncodeMoveAck p =
     Encode HeaderMoveAck ([maFunc p, maArg p, maRot p] @ put_u32 (maVID p) @ put_u32 (maX p) @ put_u32 (maY p) @
        put_u32 (maTime p) @ put_u32 (maDuration p))"

definition DecodeMoveAck :: "frame \<Rightarrow> packet_error + MoveAckPacket" where
  "DecodeMoveAck f =
     (if Header f \<noteq> HeaderMoveAck then Inl ErrUnexpectedHeader
      else if length (Payload f) \<noteq> moveAckPayloadSize then Inl ErrInvalidPayload
      else let b = Payload f in Inr
          \<lparr>maFunc = b ! 0, maArg = b ! 1, maRot = b ! 2, maVID = get_u32 (drop 3 b),
           maX = get_u32 (drop 7 b), maY = get_u32 (drop 11 b), maTime = get_u32 (drop 15 b),
           maDuration = get_u32 (drop 19 b)\<rparr>)"

interpretation move_ack_packet: exact_packet HeaderMoveAck "\<lambda>_. True"
    EncodeMoveAck DecodeMoveAck
  by unfold_locales (auto simp: EncodeMoveAck_def DecodeMoveAck_def packet_simps intro!: MoveAckPacket.equality split: if_splits)

record SyncPositionElement =
  seVID :: u32
  seX :: i32
  seY :: i32

text \<open>The two synchronisation packets have the same single field.\<close>

record SyncPositionPacket =
  spElements :: "SyncPositionElement list"

definition encodeSyncPositionElements :: "SyncPositionElement list \<Rightarrow> u8 list" where
  "encodeSyncPositionElements es =
     concat (map (\<lambda>e. put_u32 (seVID e) @ put_u32 (seX e) @ put_u32 (seY e)) es)"

definition decodeSyncPositionElements :: "u8 list \<Rightarrow> packet_error + SyncPositionElement list" where
  "decodeSyncPositionElements payload =
     (if length payload mod syncPositionElementSize \<noteq> 0 then Inl ErrInvalidPayload
      else Inr (decode_each
        (\<lambda>b. \<lparr>seVID = get_u32 b, seX = get_u32 (drop 4 b), seY = get_u32 (drop 8 b)\<rparr>)
        syncPositionElementSize (length payload div syncPositionElementSize) payload))"

definition EncodeSyncPosition :: "SyncPositionPacket \<Rightarrow> u8 list" where
  "EncodeSyncPosition p = Encode HeaderSyncPosition (encodeSyncPositionElements (spElements p))"

definition DecodeSyncPosition :: "frame \<Rightarrow> packet_error + SyncPositionPacket" where
  "DecodeSyncPosition f =
     (if Header f \<noteq> HeaderSyncPosition then Inl ErrUnexpectedHeader
      else attempt (decodeSyncPositionElements (Payload f)) (\<lambda>es. Inr \<lparr>spElements = es\<rparr>))"

definition EncodeSyncPositionAck :: "SyncPositionPacket \<Rightarrow> u8 list" where
  "EncodeSyncPositionAck p = Encode HeaderSyncPositionAck (encodeSyncPositionElements (spElements p))"

definition DecodeSyncPositionAck :: "frame \<Rightarrow> packet_error + SyncPositionPacket" where
  "DecodeSyncPositionAck f =
     (if Header f \<noteq> HeaderSyncPositionAck then Inl ErrUnexpectedHeader
      else attempt (decodeSyncPositionElements (Payload f)) (\<lambda>es. Inr \<lparr>spElements = es\<rparr>))"

interpretation sync_element: exact_codec
  "\<lambda>e. put_u32 (seVID e) @ put_u32 (seX e) @ put_u32 (seY e)"
  "\<lambda>b. \<lparr>seVID = get_u32 b, seX = get_u32 (drop 4 b), seY = get_u32 (drop 8 b)\<rparr>"
  syncPositionElementSize "\<lambda>_. True"
  by unfold_locales (auto simp: packet_simps put_get_u32)

lemma decode_sync_elements:
  "decodeSyncPositionElements (encodeSyncPositionElements es) = Inr es"
  using sync_element.decode_each_alone [of es] sync_element.length_concat [of es]
  by (simp add: decodeSyncPositionElements_def encodeSyncPositionElements_def syncPositionElementSize_def)

lemma encode_sync_elements:
  "decodeSyncPositionElements bs = Inr es \<Longrightarrow>
   encodeSyncPositionElements es = bs \<and> length bs = 12 * length es"
  using sync_element.concat_decode_each [of "length bs div syncPositionElementSize" bs]
  by (auto simp: decodeSyncPositionElements_def encodeSyncPositionElements_def
      syncPositionElementSize_def split: if_splits)

lemma length_sync_elements [simp]:
  "length (encodeSyncPositionElements es) = 12 * length es"
  using sync_element.length_concat [of es]
  by (simp add: encodeSyncPositionElements_def syncPositionElementSize_def)

interpretation sync_packet: exact_packet HeaderSyncPosition
  "\<lambda>p. length (spElements p) < 5461" EncodeSyncPosition DecodeSyncPosition
  by unfold_locales
    (auto dest!: encode_sync_elements simp: EncodeSyncPosition_def DecodeSyncPosition_def attempt_Inr
      decode_sync_elements packet_simps split: if_splits)

interpretation sync_ack_packet: exact_packet HeaderSyncPositionAck
  "\<lambda>p. length (spElements p) < 5461" EncodeSyncPositionAck DecodeSyncPositionAck
  by unfold_locales
    (auto dest!: encode_sync_elements simp: EncodeSyncPositionAck_def DecodeSyncPositionAck_def attempt_Inr
      decode_sync_elements packet_simps split: if_splits)

section \<open>Quickslots\<close>

text \<open>
  The packets of \<open>proto/quickslot\<close> come in pairs, from the client and to it, with the same
  fields; a pair shares its record here.
\<close>

definition HeaderQuickslotClientAdd :: u16 where [packet_simps]: "HeaderQuickslotClientAdd = 0x0509"
definition HeaderQuickslotClientDel :: u16 where [packet_simps]: "HeaderQuickslotClientDel = 0x050A"
definition HeaderQuickslotClientSwap :: u16 where [packet_simps]: "HeaderQuickslotClientSwap = 0x050B"
definition HeaderQuickslotAdd :: u16 where [packet_simps]: "HeaderQuickslotAdd = 0x0519"
definition HeaderQuickslotDel :: u16 where [packet_simps]: "HeaderQuickslotDel = 0x051A"
definition HeaderQuickslotSwap :: u16 where [packet_simps]: "HeaderQuickslotSwap = 0x051B"

definition quickslotAddPayloadSize :: nat where [packet_simps]: "quickslotAddPayloadSize = 3"
definition quickslotDelPayloadSize :: nat where [packet_simps]: "quickslotDelPayloadSize = 1"
definition quickslotSwapPayloadSize :: nat where [packet_simps]: "quickslotSwapPayloadSize = 2"

record quickslot_slot =
  wsType :: u8
  wsPosition :: u8

record QuickslotAddPacket =
  qaPosition :: u8
  qaSlot :: quickslot_slot

definition EncodeQuickslotClientAdd :: "QuickslotAddPacket \<Rightarrow> u8 list" where
  "EncodeQuickslotClientAdd p =
     Encode HeaderQuickslotClientAdd [qaPosition p, wsType (qaSlot p), wsPosition (qaSlot p)]"

definition DecodeQuickslotClientAdd :: "frame \<Rightarrow> packet_error + QuickslotAddPacket" where
  "DecodeQuickslotClientAdd f =
     (if Header f \<noteq> HeaderQuickslotClientAdd then Inl ErrUnexpectedHeader
      else if length (Payload f) \<noteq> quickslotAddPayloadSize then Inl ErrInvalidPayload
      else let b = Payload f in Inr
          \<lparr>qaPosition = b ! 0, qaSlot = \<lparr>wsType = b ! 1, wsPosition = b ! 2\<rparr>\<rparr>)"

interpretation quickslot_client_add: exact_packet HeaderQuickslotClientAdd "\<lambda>_. True"
    EncodeQuickslotClientAdd DecodeQuickslotClientAdd
  by unfold_locales (auto simp: EncodeQuickslotClientAdd_def DecodeQuickslotClientAdd_def packet_simps
    intro!: QuickslotAddPacket.equality quickslot_slot.equality split: if_splits)

definition EncodeQuickslotAdd :: "QuickslotAddPacket \<Rightarrow> u8 list" where
  "EncodeQuickslotAdd p =
     Encode HeaderQuickslotAdd [qaPosition p, wsType (qaSlot p), wsPosition (qaSlot p)]"

definition DecodeQuickslotAdd :: "frame \<Rightarrow> packet_error + QuickslotAddPacket" where
  "DecodeQuickslotAdd f =
     (if Header f \<noteq> HeaderQuickslotAdd then Inl ErrUnexpectedHeader
      else if length (Payload f) \<noteq> quickslotAddPayloadSize then Inl ErrInvalidPayload
      else let b = Payload f in Inr
          \<lparr>qaPosition = b ! 0, qaSlot = \<lparr>wsType = b ! 1, wsPosition = b ! 2\<rparr>\<rparr>)"

interpretation quickslot_add: exact_packet HeaderQuickslotAdd "\<lambda>_. True"
    EncodeQuickslotAdd DecodeQuickslotAdd
  by unfold_locales (auto simp: EncodeQuickslotAdd_def DecodeQuickslotAdd_def packet_simps
    intro!: QuickslotAddPacket.equality quickslot_slot.equality split: if_splits)

record QuickslotDelPacket =
  qdPosition :: u8

definition EncodeQuickslotClientDel :: "QuickslotDelPacket \<Rightarrow> u8 list" where
  "EncodeQuickslotClientDel p =
     Encode HeaderQuickslotClientDel ([qdPosition p])"

definition DecodeQuickslotClientDel :: "frame \<Rightarrow> packet_error + QuickslotDelPacket" where
  "DecodeQuickslotClientDel f =
     (if Header f \<noteq> HeaderQuickslotClientDel then Inl ErrUnexpectedHeader
      else if length (Payload f) \<noteq> quickslotDelPayloadSize then Inl ErrInvalidPayload
      else let b = Payload f in Inr
          \<lparr>qdPosition = b ! 0\<rparr>)"

interpretation quickslot_client_del_packet: exact_packet HeaderQuickslotClientDel "\<lambda>_. True"
    EncodeQuickslotClientDel DecodeQuickslotClientDel
  by unfold_locales (auto simp: EncodeQuickslotClientDel_def DecodeQuickslotClientDel_def packet_simps intro!: QuickslotDelPacket.equality split: if_splits)

definition EncodeQuickslotDel :: "QuickslotDelPacket \<Rightarrow> u8 list" where
  "EncodeQuickslotDel p =
     Encode HeaderQuickslotDel ([qdPosition p])"

definition DecodeQuickslotDel :: "frame \<Rightarrow> packet_error + QuickslotDelPacket" where
  "DecodeQuickslotDel f =
     (if Header f \<noteq> HeaderQuickslotDel then Inl ErrUnexpectedHeader
      else if length (Payload f) \<noteq> quickslotDelPayloadSize then Inl ErrInvalidPayload
      else let b = Payload f in Inr
          \<lparr>qdPosition = b ! 0\<rparr>)"

interpretation quickslot_del_packet: exact_packet HeaderQuickslotDel "\<lambda>_. True"
    EncodeQuickslotDel DecodeQuickslotDel
  by unfold_locales (auto simp: EncodeQuickslotDel_def DecodeQuickslotDel_def packet_simps intro!: QuickslotDelPacket.equality split: if_splits)

record QuickslotSwapPacket =
  qwPosition :: u8
  qwTargetPosition :: u8

definition EncodeQuickslotClientSwap :: "QuickslotSwapPacket \<Rightarrow> u8 list" where
  "EncodeQuickslotClientSwap p =
     Encode HeaderQuickslotClientSwap ([qwPosition p, qwTargetPosition p])"

definition DecodeQuickslotClientSwap :: "frame \<Rightarrow> packet_error + QuickslotSwapPacket" where
  "DecodeQuickslotClientSwap f =
     (if Header f \<noteq> HeaderQuickslotClientSwap then Inl ErrUnexpectedHeader
      else if length (Payload f) \<noteq> quickslotSwapPayloadSize then Inl ErrInvalidPayload
      else let b = Payload f in Inr
          \<lparr>qwPosition = b ! 0, qwTargetPosition = b ! 1\<rparr>)"

interpretation quickslot_client_swap_packet: exact_packet HeaderQuickslotClientSwap "\<lambda>_. True"
    EncodeQuickslotClientSwap DecodeQuickslotClientSwap
  by unfold_locales (auto simp: EncodeQuickslotClientSwap_def DecodeQuickslotClientSwap_def packet_simps intro!: QuickslotSwapPacket.equality split: if_splits)

definition EncodeQuickslotSwap :: "QuickslotSwapPacket \<Rightarrow> u8 list" where
  "EncodeQuickslotSwap p =
     Encode HeaderQuickslotSwap ([qwPosition p, qwTargetPosition p])"

definition DecodeQuickslotSwap :: "frame \<Rightarrow> packet_error + QuickslotSwapPacket" where
  "DecodeQuickslotSwap f =
     (if Header f \<noteq> HeaderQuickslotSwap then Inl ErrUnexpectedHeader
      else if length (Payload f) \<noteq> quickslotSwapPayloadSize then Inl ErrInvalidPayload
      else let b = Payload f in Inr
          \<lparr>qwPosition = b ! 0, qwTargetPosition = b ! 1\<rparr>)"

interpretation quickslot_swap_packet: exact_packet HeaderQuickslotSwap "\<lambda>_. True"
    EncodeQuickslotSwap DecodeQuickslotSwap
  by unfold_locales (auto simp: EncodeQuickslotSwap_def DecodeQuickslotSwap_def packet_simps intro!: QuickslotSwapPacket.equality split: if_splits)

section \<open>Interaction and effects\<close>

definition HeaderRequest :: u16 where [packet_simps]: "HeaderRequest = 0x0501"
definition HeaderSpecialEffect :: u16 where [packet_simps]: "HeaderSpecialEffect = 0x0A30"

definition requestPayloadSize :: nat where [packet_simps]: "requestPayloadSize = 4"
definition specialPayloadSize :: nat where [packet_simps]: "specialPayloadSize = 5"

record RequestPacket =
  rqTargetVID :: u32

definition EncodeRequest :: "RequestPacket \<Rightarrow> u8 list" where
  "EncodeRequest p =
     Encode HeaderRequest (put_u32 (rqTargetVID p))"

definition DecodeRequest :: "frame \<Rightarrow> packet_error + RequestPacket" where
  "DecodeRequest f =
     (if Header f \<noteq> HeaderRequest then Inl ErrUnexpectedHeader
      else if length (Payload f) \<noteq> requestPayloadSize then Inl ErrInvalidPayload
      else let b = Payload f in Inr
          \<lparr>rqTargetVID = get_u32 b\<rparr>)"

interpretation request_packet: exact_packet HeaderRequest "\<lambda>_. True"
    EncodeRequest DecodeRequest
  by unfold_locales (auto simp: EncodeRequest_def DecodeRequest_def packet_simps intro!: RequestPacket.equality split: if_splits)

record SpecialPacket =
  fxType :: u8
  fxVID :: u32

definition EncodeSpecial :: "SpecialPacket \<Rightarrow> u8 list" where
  "EncodeSpecial p =
     Encode HeaderSpecialEffect ([fxType p] @ put_u32 (fxVID p))"

definition DecodeSpecial :: "frame \<Rightarrow> packet_error + SpecialPacket" where
  "DecodeSpecial f =
     (if Header f \<noteq> HeaderSpecialEffect then Inl ErrUnexpectedHeader
      else if length (Payload f) \<noteq> specialPayloadSize then Inl ErrInvalidPayload
      else let b = Payload f in Inr
          \<lparr>fxType = b ! 0, fxVID = get_u32 (drop 1 b)\<rparr>)"

interpretation special_packet: exact_packet HeaderSpecialEffect "\<lambda>_. True"
    EncodeSpecial DecodeSpecial
  by unfold_locales (auto simp: EncodeSpecial_def DecodeSpecial_def packet_simps intro!: SpecialPacket.equality split: if_splits)

end
