(* ===== verification/Wire_Chat.thy ===== *)
theory Wire_Chat
  imports Wire
begin

text \<open>
  \<open>internal/proto/chat\<close>: chat and whispers. Messages have no length field: they run to the end of
  the frame, and names stand in fields of 65 bytes that the encoder cuts a longer name to. Trailing
  zero bytes are padding.
\<close>

definition HeaderClientChat :: u16 where [packet_simps]: "HeaderClientChat = 0x0601"
definition HeaderClientWhisper :: u16 where [packet_simps]: "HeaderClientWhisper = 0x0602"
definition HeaderChat :: u16 where [packet_simps]: "HeaderChat = 0x0603"
definition HeaderWhisper :: u16 where [packet_simps]: "HeaderWhisper = 0x0604"

definition whisperNameFieldSize :: nat where [packet_simps]: "whisperNameFieldSize = 65"
definition chatDeliveryFixedPayloadSize :: nat where [packet_simps]: "chatDeliveryFixedPayloadSize = 6"
definition serverWhisperFixedPayloadSize :: nat where [packet_simps]: "serverWhisperFixedPayloadSize = 66"

text \<open>A text that does not end in padding.\<close>

definition unpadded :: "string \<Rightarrow> bool" where
  "unpadded s \<longleftrightarrow> s = [] \<or> last s \<noteq> CHR 0x00"

lemma trim_bytes [simp]: "unpadded s \<Longrightarrow> trim_right_zeros (bytes_of s @ replicate n 0) = bytes_of s"
proof -
  assume s: "unpadded s"
  then have "dropWhile (\<lambda>b. b = 0) (rev (bytes_of s)) = rev (bytes_of s)"
    by (cases s rule: rev_cases) (auto simp: unpadded_def bytes_of_def byte_zero_iff)
  then show ?thesis
    by (simp add: trim_right_zeros_def) (subst dropWhile_append2, simp_all)
qed

lemma trim_message [simp]:
  "unpadded s \<Longrightarrow> trim_right_zeros (bytes_of s) = bytes_of s"
  "unpadded s \<Longrightarrow> trim_right_zeros (bytes_of s @ [0]) = bytes_of s"
  using trim_bytes [of s 0] trim_bytes [of s 1] by simp_all

lemma trim_name [simp]:
  "unpadded s \<Longrightarrow> length s \<le> n \<Longrightarrow> trim_right_zeros (copy_into n (bytes_of s)) = bytes_of s"
  by (simp add: copy_into_def)

section \<open>From the client\<close>

record ClientChatPacket =
  chType :: u8
  chMessage :: string

definition EncodeClientChat :: "ClientChatPacket \<Rightarrow> u8 list" where
  "EncodeClientChat p = Encode HeaderClientChat ([chType p] @ bytes_of (chMessage p) @ [0])"

definition DecodeClientChat :: "frame \<Rightarrow> packet_error + ClientChatPacket" where
  "DecodeClientChat f =
     (if Header f \<noteq> HeaderClientChat then Inl ErrUnexpectedHeader
      else if length (Payload f) < 2 then Inl ErrInvalidPayload
      else Inr \<lparr>chType = Payload f ! 0,
                chMessage = string_of (trim_right_zeros (drop 1 (Payload f)))\<rparr>)"

interpretation client_chat_packet: packet_codec HeaderClientChat
    "\<lambda>p. unpadded (chMessage p) \<and> length (chMessage p) < 65530" EncodeClientChat DecodeClientChat
  by unfold_locales (auto simp: EncodeClientChat_def DecodeClientChat_def packet_simps
      intro!: ClientChatPacket.equality)

record ClientWhisperPacket =
  wcTarget :: string
  wcMessage :: string

definition EncodeClientWhisper :: "ClientWhisperPacket \<Rightarrow> u8 list" where
  "EncodeClientWhisper p = Encode HeaderClientWhisper
     (copy_into whisperNameFieldSize (bytes_of (wcTarget p)) @ bytes_of (wcMessage p) @ [0])"

definition DecodeClientWhisper :: "frame \<Rightarrow> packet_error + ClientWhisperPacket" where
  "DecodeClientWhisper f =
     (if Header f \<noteq> HeaderClientWhisper then Inl ErrUnexpectedHeader
      else if length (Payload f) < whisperNameFieldSize + 1 then Inl ErrInvalidPayload
      else Inr
        \<lparr>wcTarget = string_of (trim_right_zeros (take whisperNameFieldSize (Payload f))),
         wcMessage = string_of (trim_right_zeros (drop whisperNameFieldSize (Payload f)))\<rparr>)"

interpretation client_whisper_packet: packet_codec HeaderClientWhisper
    "\<lambda>p. unpadded (wcTarget p) \<and> length (wcTarget p) \<le> 65 \<and>
         unpadded (wcMessage p) \<and> length (wcMessage p) < 65466"
    EncodeClientWhisper DecodeClientWhisper
  by unfold_locales (auto simp: EncodeClientWhisper_def DecodeClientWhisper_def packet_simps
      intro!: ClientWhisperPacket.equality)

section \<open>To the client\<close>

record ChatDeliveryPacket =
  dvType :: u8
  dvVID :: u32
  dvEmpire :: u8
  dvMessage :: string

definition EncodeChatDelivery :: "ChatDeliveryPacket \<Rightarrow> u8 list" where
  "EncodeChatDelivery p = Encode HeaderChat
     ([dvType p] @ put_u32 (dvVID p) @ [dvEmpire p] @ bytes_of (dvMessage p))"

definition DecodeChatDelivery :: "frame \<Rightarrow> packet_error + ChatDeliveryPacket" where
  "DecodeChatDelivery f =
     (if Header f \<noteq> HeaderChat then Inl ErrUnexpectedHeader
      else if length (Payload f) < chatDeliveryFixedPayloadSize then Inl ErrInvalidPayload
      else let b = Payload f in Inr
        \<lparr>dvType = b ! 0, dvVID = get_u32 (drop 1 b), dvEmpire = b ! 5,
         dvMessage = string_of (trim_right_zeros (drop 6 b))\<rparr>)"

interpretation chat_delivery_packet: packet_codec HeaderChat
    "\<lambda>p. unpadded (dvMessage p) \<and> length (dvMessage p) < 65526" EncodeChatDelivery DecodeChatDelivery
  by unfold_locales (auto simp: EncodeChatDelivery_def DecodeChatDelivery_def packet_simps
      intro!: ChatDeliveryPacket.equality)

record ServerWhisperPacket =
  wsvType :: u8
  wsvFromName :: string
  wsvMessage :: string

definition EncodeServerWhisper :: "ServerWhisperPacket \<Rightarrow> u8 list" where
  "EncodeServerWhisper p = Encode HeaderWhisper
     ([wsvType p] @ copy_into whisperNameFieldSize (bytes_of (wsvFromName p)) @ bytes_of (wsvMessage p))"

definition DecodeServerWhisper :: "frame \<Rightarrow> packet_error + ServerWhisperPacket" where
  "DecodeServerWhisper f =
     (if Header f \<noteq> HeaderWhisper then Inl ErrUnexpectedHeader
      else if length (Payload f) < serverWhisperFixedPayloadSize then Inl ErrInvalidPayload
      else let b = Payload f in Inr
        \<lparr>wsvType = b ! 0,
         wsvFromName = string_of (trim_right_zeros (take whisperNameFieldSize (drop 1 b))),
         wsvMessage = string_of (trim_right_zeros (drop (1 + whisperNameFieldSize) b))\<rparr>)"

interpretation server_whisper_packet: packet_codec HeaderWhisper
    "\<lambda>p. unpadded (wsvFromName p) \<and> length (wsvFromName p) \<le> 65 \<and>
         unpadded (wsvMessage p) \<and> length (wsvMessage p) < 65466"
    EncodeServerWhisper DecodeServerWhisper
  by unfold_locales (auto simp: EncodeServerWhisper_def DecodeServerWhisper_def packet_simps
      intro!: ServerWhisperPacket.equality)

end
