(* ===== verification/Wire_Combat.thy ===== *)
theory Wire_Combat
  imports Wire
begin

text \<open>
  \<open>internal/proto/combat\<close>: attacks, skills, targeting and the server's answers to them.
\<close>

definition HeaderClientAttack :: u16 where [packet_simps]: "HeaderClientAttack = 0x0401"
definition HeaderClientUseSkill :: u16 where [packet_simps]: "HeaderClientUseSkill = 0x0402"
definition HeaderClientShoot :: u16 where [packet_simps]: "HeaderClientShoot = 0x0403"
definition HeaderClientFlyTargeting :: u16 where [packet_simps]: "HeaderClientFlyTargeting = 0x0404"
definition HeaderClientAddFlyTargeting :: u16 where [packet_simps]: "HeaderClientAddFlyTargeting = 0x0405"
definition HeaderServerDamageInfo :: u16 where [packet_simps]: "HeaderServerDamageInfo = 0x0410"
definition HeaderServerFlyTargeting :: u16 where [packet_simps]: "HeaderServerFlyTargeting = 0x0411"
definition HeaderServerAddFlyTargeting :: u16 where [packet_simps]: "HeaderServerAddFlyTargeting = 0x0412"
definition HeaderServerCreateFly :: u16 where [packet_simps]: "HeaderServerCreateFly = 0x0413"
definition HeaderServerPVP :: u16 where [packet_simps]: "HeaderServerPVP = 0x0414"
definition HeaderServerDuelStart :: u16 where [packet_simps]: "HeaderServerDuelStart = 0x0415"
definition HeaderClientTarget :: u16 where [packet_simps]: "HeaderClientTarget = 0x0A01"
definition HeaderClientOnClick :: u16 where [packet_simps]: "HeaderClientOnClick = 0x0A02"
definition HeaderClientCharacterPosition :: u16 where [packet_simps]: "HeaderClientCharacterPosition = 0x0A60"
definition HeaderServerTarget :: u16 where [packet_simps]: "HeaderServerTarget = 0x0A10"
definition HeaderServerTargetUpdate :: u16 where [packet_simps]: "HeaderServerTargetUpdate = 0x0A11"
definition HeaderServerTargetDelete :: u16 where [packet_simps]: "HeaderServerTargetDelete = 0x0A12"
definition HeaderServerTargetCreateNew :: u16 where [packet_simps]: "HeaderServerTargetCreateNew = 0x0A13"

definition clientAttackPayloadSize :: nat where [packet_simps]: "clientAttackPayloadSize = 7"
definition clientUseSkillPayloadSize :: nat where [packet_simps]: "clientUseSkillPayloadSize = 8"
definition clientShootPayloadSize :: nat where [packet_simps]: "clientShootPayloadSize = 1"
definition clientFlyTargetingPayloadSize :: nat where [packet_simps]: "clientFlyTargetingPayloadSize = 12"
definition clientOnClickPayloadSize :: nat where [packet_simps]: "clientOnClickPayloadSize = 4"
definition clientCharacterPositionPayloadSize :: nat where [packet_simps]: "clientCharacterPositionPayloadSize = 1"
definition clientTargetPayloadSize :: nat where [packet_simps]: "clientTargetPayloadSize = 4"
definition serverDamageInfoPayloadSize :: nat where [packet_simps]: "serverDamageInfoPayloadSize = 9"
definition serverFlyTargetingPayloadSize :: nat where [packet_simps]: "serverFlyTargetingPayloadSize = 16"
definition serverCreateFlyPayloadSize :: nat where [packet_simps]: "serverCreateFlyPayloadSize = 9"
definition serverPVPPayloadSize :: nat where [packet_simps]: "serverPVPPayloadSize = 9"
definition serverTargetPayloadSize :: nat where [packet_simps]: "serverTargetPayloadSize = 5"
definition serverTargetCreateNewPayloadSize :: nat where [packet_simps]: "serverTargetCreateNewPayloadSize = 42"
definition serverTargetUpdatePayloadSize :: nat where [packet_simps]: "serverTargetUpdatePayloadSize = 12"
definition serverTargetDeletePayloadSize :: nat where [packet_simps]: "serverTargetDeletePayloadSize = 4"

definition ClientAttackTypeNormal :: u8 where [packet_simps]: "ClientAttackTypeNormal = 0"

section \<open>From the client\<close>

record ClientAttackPacket =
  atAttackType :: u8
  atTargetVID :: u32
  atCRCProcPiece :: u8
  atCRCFilePiece :: u8

definition EncodeClientAttack :: "ClientAttackPacket \<Rightarrow> u8 list" where
  "EncodeClientAttack p =
     Encode HeaderClientAttack
       ([atAttackType p] @ put_u32 (atTargetVID p) @ [atCRCProcPiece p, atCRCFilePiece p])"

definition DecodeClientAttack :: "frame \<Rightarrow> packet_error + ClientAttackPacket" where
  "DecodeClientAttack f =
     (if Header f \<noteq> HeaderClientAttack then Inl ErrUnexpectedHeader
      else if length (Payload f) \<noteq> clientAttackPayloadSize then Inl ErrInvalidPayload
      else let b = Payload f in Inr
          \<lparr>atAttackType = b ! 0, atTargetVID = get_u32 (drop 1 b), atCRCProcPiece = b ! 5,
           atCRCFilePiece = b ! 6\<rparr>)"

interpretation client_attack_packet: exact_packet HeaderClientAttack "\<lambda>_. True"
    EncodeClientAttack DecodeClientAttack
  by unfold_locales (auto simp: EncodeClientAttack_def DecodeClientAttack_def packet_simps intro!: ClientAttackPacket.equality split: if_splits)

record ClientUseSkillPacket =
  usSkillVnum :: u32
  usTargetVID :: u32

definition EncodeClientUseSkill :: "ClientUseSkillPacket \<Rightarrow> u8 list" where
  "EncodeClientUseSkill p =
     Encode HeaderClientUseSkill (put_u32 (usSkillVnum p) @ put_u32 (usTargetVID p))"

definition DecodeClientUseSkill :: "frame \<Rightarrow> packet_error + ClientUseSkillPacket" where
  "DecodeClientUseSkill f =
     (if Header f \<noteq> HeaderClientUseSkill then Inl ErrUnexpectedHeader
      else if length (Payload f) \<noteq> clientUseSkillPayloadSize then Inl ErrInvalidPayload
      else let b = Payload f in Inr
          \<lparr>usSkillVnum = get_u32 b, usTargetVID = get_u32 (drop 4 b)\<rparr>)"

interpretation client_use_skill_packet: exact_packet HeaderClientUseSkill "\<lambda>_. True"
    EncodeClientUseSkill DecodeClientUseSkill
  by unfold_locales (auto simp: EncodeClientUseSkill_def DecodeClientUseSkill_def packet_simps intro!: ClientUseSkillPacket.equality split: if_splits)

record ClientShootPacket =
  shShootType :: u8

definition EncodeClientShoot :: "ClientShootPacket \<Rightarrow> u8 list" where
  "EncodeClientShoot p =
     Encode HeaderClientShoot ([shShootType p])"

definition DecodeClientShoot :: "frame \<Rightarrow> packet_error + ClientShootPacket" where
  "DecodeClientShoot f =
     (if Header f \<noteq> HeaderClientShoot then Inl ErrUnexpectedHeader
      else if length (Payload f) \<noteq> clientShootPayloadSize then Inl ErrInvalidPayload
      else let b = Payload f in Inr
          \<lparr>shShootType = b ! 0\<rparr>)"

interpretation client_shoot_packet: exact_packet HeaderClientShoot "\<lambda>_. True"
    EncodeClientShoot DecodeClientShoot
  by unfold_locales (auto simp: EncodeClientShoot_def DecodeClientShoot_def packet_simps intro!: ClientShootPacket.equality split: if_splits)

record ClientFlyTargetingPacket =
  ftTargetVID :: u32
  ftX :: i32
  ftY :: i32

definition encodeClientFlyTargeting :: "u16 \<Rightarrow> ClientFlyTargetingPacket \<Rightarrow> u8 list" where
  "encodeClientFlyTargeting header p =
     Encode header (put_u32 (ftTargetVID p) @ put_u32 (ftX p) @ put_u32 (ftY p))"

definition decodeClientFlyTargeting :: "frame \<Rightarrow> u16 \<Rightarrow> packet_error + ClientFlyTargetingPacket" where
  "decodeClientFlyTargeting f header =
     (if Header f \<noteq> header then Inl ErrUnexpectedHeader
      else if length (Payload f) \<noteq> clientFlyTargetingPayloadSize then Inl ErrInvalidPayload
      else let b = Payload f in Inr
          \<lparr>ftTargetVID = get_u32 b, ftX = get_u32 (drop 4 b), ftY = get_u32 (drop 8 b)\<rparr>)"

definition EncodeClientFlyTargeting :: "ClientFlyTargetingPacket \<Rightarrow> u8 list" where
  "EncodeClientFlyTargeting p = encodeClientFlyTargeting HeaderClientFlyTargeting p"

definition DecodeClientFlyTargeting :: "frame \<Rightarrow> packet_error + ClientFlyTargetingPacket" where
  "DecodeClientFlyTargeting f = decodeClientFlyTargeting f HeaderClientFlyTargeting"

definition EncodeClientAddFlyTargeting :: "ClientFlyTargetingPacket \<Rightarrow> u8 list" where
  "EncodeClientAddFlyTargeting p = encodeClientFlyTargeting HeaderClientAddFlyTargeting p"

definition DecodeClientAddFlyTargeting :: "frame \<Rightarrow> packet_error + ClientFlyTargetingPacket" where
  "DecodeClientAddFlyTargeting f = decodeClientFlyTargeting f HeaderClientAddFlyTargeting"

interpretation client_fly_targeting_packet: exact_packet HeaderClientFlyTargeting "\<lambda>_. True"
    EncodeClientFlyTargeting DecodeClientFlyTargeting
  by unfold_locales (auto simp: EncodeClientFlyTargeting_def DecodeClientFlyTargeting_def encodeClientFlyTargeting_def decodeClientFlyTargeting_def packet_simps intro!: ClientFlyTargetingPacket.equality split: if_splits)

interpretation client_add_fly_targeting_packet: exact_packet HeaderClientAddFlyTargeting "\<lambda>_. True"
    EncodeClientAddFlyTargeting DecodeClientAddFlyTargeting
  by unfold_locales (auto simp: EncodeClientAddFlyTargeting_def DecodeClientAddFlyTargeting_def encodeClientFlyTargeting_def decodeClientFlyTargeting_def packet_simps intro!: ClientFlyTargetingPacket.equality split: if_splits)

record ClientOnClickPacket =
  ocVID :: u32

definition EncodeClientOnClick :: "ClientOnClickPacket \<Rightarrow> u8 list" where
  "EncodeClientOnClick p =
     Encode HeaderClientOnClick (put_u32 (ocVID p))"

definition DecodeClientOnClick :: "frame \<Rightarrow> packet_error + ClientOnClickPacket" where
  "DecodeClientOnClick f =
     (if Header f \<noteq> HeaderClientOnClick then Inl ErrUnexpectedHeader
      else if length (Payload f) \<noteq> clientOnClickPayloadSize then Inl ErrInvalidPayload
      else let b = Payload f in Inr
          \<lparr>ocVID = get_u32 b\<rparr>)"

interpretation client_on_click_packet: exact_packet HeaderClientOnClick "\<lambda>_. True"
    EncodeClientOnClick DecodeClientOnClick
  by unfold_locales (auto simp: EncodeClientOnClick_def DecodeClientOnClick_def packet_simps intro!: ClientOnClickPacket.equality split: if_splits)

record ClientCharacterPositionPacket =
  cxPosition :: u8

definition EncodeClientCharacterPosition :: "ClientCharacterPositionPacket \<Rightarrow> u8 list" where
  "EncodeClientCharacterPosition p =
     Encode HeaderClientCharacterPosition ([cxPosition p])"

definition DecodeClientCharacterPosition :: "frame \<Rightarrow> packet_error + ClientCharacterPositionPacket" where
  "DecodeClientCharacterPosition f =
     (if Header f \<noteq> HeaderClientCharacterPosition then Inl ErrUnexpectedHeader
      else if length (Payload f) \<noteq> clientCharacterPositionPayloadSize then Inl ErrInvalidPayload
      else let b = Payload f in Inr
          \<lparr>cxPosition = b ! 0\<rparr>)"

interpretation client_character_position_packet: exact_packet HeaderClientCharacterPosition "\<lambda>_. True"
    EncodeClientCharacterPosition DecodeClientCharacterPosition
  by unfold_locales (auto simp: EncodeClientCharacterPosition_def DecodeClientCharacterPosition_def packet_simps intro!: ClientCharacterPositionPacket.equality split: if_splits)

record ClientTargetPacket =
  ctTargetVID :: u32

definition EncodeClientTarget :: "ClientTargetPacket \<Rightarrow> u8 list" where
  "EncodeClientTarget p =
     Encode HeaderClientTarget (put_u32 (ctTargetVID p))"

definition DecodeClientTarget :: "frame \<Rightarrow> packet_error + ClientTargetPacket" where
  "DecodeClientTarget f =
     (if Header f \<noteq> HeaderClientTarget then Inl ErrUnexpectedHeader
      else if length (Payload f) \<noteq> clientTargetPayloadSize then Inl ErrInvalidPayload
      else let b = Payload f in Inr
          \<lparr>ctTargetVID = get_u32 b\<rparr>)"

interpretation client_target_packet: exact_packet HeaderClientTarget "\<lambda>_. True"
    EncodeClientTarget DecodeClientTarget
  by unfold_locales (auto simp: EncodeClientTarget_def DecodeClientTarget_def packet_simps intro!: ClientTargetPacket.equality split: if_splits)

section \<open>To the client\<close>

record ServerTargetPacket =
  stTargetVID :: u32
  stHPPercent :: u8

definition EncodeServerTarget :: "ServerTargetPacket \<Rightarrow> u8 list" where
  "EncodeServerTarget p =
     Encode HeaderServerTarget (put_u32 (stTargetVID p) @ [stHPPercent p])"

definition DecodeServerTarget :: "frame \<Rightarrow> packet_error + ServerTargetPacket" where
  "DecodeServerTarget f =
     (if Header f \<noteq> HeaderServerTarget then Inl ErrUnexpectedHeader
      else if length (Payload f) \<noteq> serverTargetPayloadSize then Inl ErrInvalidPayload
      else let b = Payload f in Inr
          \<lparr>stTargetVID = get_u32 b, stHPPercent = b ! 4\<rparr>)"

interpretation server_target_packet: exact_packet HeaderServerTarget "\<lambda>_. True"
    EncodeServerTarget DecodeServerTarget
  by unfold_locales (auto simp: EncodeServerTarget_def DecodeServerTarget_def packet_simps intro!: ServerTargetPacket.equality split: if_splits)

definition EncodeServerClearTarget :: "u8 list" where
  "EncodeServerClearTarget = EncodeServerTarget \<lparr>stTargetVID = 0, stHPPercent = 0\<rparr>"

record ServerDamageInfoPacket =
  diVID :: u32
  diFlag :: u8
  diDamage :: i32

definition EncodeServerDamageInfo :: "ServerDamageInfoPacket \<Rightarrow> u8 list" where
  "EncodeServerDamageInfo p =
     Encode HeaderServerDamageInfo (put_u32 (diVID p) @ [diFlag p] @ put_u32 (diDamage p))"

definition DecodeServerDamageInfo :: "frame \<Rightarrow> packet_error + ServerDamageInfoPacket" where
  "DecodeServerDamageInfo f =
     (if Header f \<noteq> HeaderServerDamageInfo then Inl ErrUnexpectedHeader
      else if length (Payload f) \<noteq> serverDamageInfoPayloadSize then Inl ErrInvalidPayload
      else let b = Payload f in Inr
          \<lparr>diVID = get_u32 b, diFlag = b ! 4, diDamage = get_u32 (drop 5 b)\<rparr>)"

interpretation server_damage_info_packet: exact_packet HeaderServerDamageInfo "\<lambda>_. True"
    EncodeServerDamageInfo DecodeServerDamageInfo
  by unfold_locales (auto simp: EncodeServerDamageInfo_def DecodeServerDamageInfo_def packet_simps intro!: ServerDamageInfoPacket.equality split: if_splits)

record ServerFlyTargetingPacket =
  sfShooterVID :: u32
  sfTargetVID :: u32
  sfX :: i32
  sfY :: i32

definition encodeServerFlyTargeting :: "u16 \<Rightarrow> ServerFlyTargetingPacket \<Rightarrow> u8 list" where
  "encodeServerFlyTargeting header p =
     Encode header
       (put_u32 (sfShooterVID p) @ put_u32 (sfTargetVID p) @ put_u32 (sfX p) @ put_u32 (sfY p))"

definition decodeServerFlyTargeting :: "frame \<Rightarrow> u16 \<Rightarrow> packet_error + ServerFlyTargetingPacket" where
  "decodeServerFlyTargeting f header =
     (if Header f \<noteq> header then Inl ErrUnexpectedHeader
      else if length (Payload f) \<noteq> serverFlyTargetingPayloadSize then Inl ErrInvalidPayload
      else let b = Payload f in Inr
          \<lparr>sfShooterVID = get_u32 b, sfTargetVID = get_u32 (drop 4 b),
           sfX = get_u32 (drop 8 b), sfY = get_u32 (drop 12 b)\<rparr>)"

definition EncodeServerFlyTargeting :: "ServerFlyTargetingPacket \<Rightarrow> u8 list" where
  "EncodeServerFlyTargeting p = encodeServerFlyTargeting HeaderServerFlyTargeting p"

definition DecodeServerFlyTargeting :: "frame \<Rightarrow> packet_error + ServerFlyTargetingPacket" where
  "DecodeServerFlyTargeting f = decodeServerFlyTargeting f HeaderServerFlyTargeting"

definition EncodeServerAddFlyTargeting :: "ServerFlyTargetingPacket \<Rightarrow> u8 list" where
  "EncodeServerAddFlyTargeting p = encodeServerFlyTargeting HeaderServerAddFlyTargeting p"

definition DecodeServerAddFlyTargeting :: "frame \<Rightarrow> packet_error + ServerFlyTargetingPacket" where
  "DecodeServerAddFlyTargeting f = decodeServerFlyTargeting f HeaderServerAddFlyTargeting"

interpretation server_fly_targeting_packet: exact_packet HeaderServerFlyTargeting "\<lambda>_. True"
    EncodeServerFlyTargeting DecodeServerFlyTargeting
  by unfold_locales (auto simp: EncodeServerFlyTargeting_def DecodeServerFlyTargeting_def encodeServerFlyTargeting_def decodeServerFlyTargeting_def packet_simps intro!: ServerFlyTargetingPacket.equality split: if_splits)

interpretation server_add_fly_targeting_packet: exact_packet HeaderServerAddFlyTargeting "\<lambda>_. True"
    EncodeServerAddFlyTargeting DecodeServerAddFlyTargeting
  by unfold_locales (auto simp: EncodeServerAddFlyTargeting_def DecodeServerAddFlyTargeting_def encodeServerFlyTargeting_def decodeServerFlyTargeting_def packet_simps intro!: ServerFlyTargetingPacket.equality split: if_splits)

record ServerCreateFlyPacket =
  cfType :: u8
  cfStartVID :: u32
  cfEndVID :: u32

definition EncodeServerCreateFly :: "ServerCreateFlyPacket \<Rightarrow> u8 list" where
  "EncodeServerCreateFly p =
     Encode HeaderServerCreateFly ([cfType p] @ put_u32 (cfStartVID p) @ put_u32 (cfEndVID p))"

definition DecodeServerCreateFly :: "frame \<Rightarrow> packet_error + ServerCreateFlyPacket" where
  "DecodeServerCreateFly f =
     (if Header f \<noteq> HeaderServerCreateFly then Inl ErrUnexpectedHeader
      else if length (Payload f) \<noteq> serverCreateFlyPayloadSize then Inl ErrInvalidPayload
      else let b = Payload f in Inr
          \<lparr>cfType = b ! 0, cfStartVID = get_u32 (drop 1 b), cfEndVID = get_u32 (drop 5 b)\<rparr>)"

interpretation server_create_fly_packet: exact_packet HeaderServerCreateFly "\<lambda>_. True"
    EncodeServerCreateFly DecodeServerCreateFly
  by unfold_locales (auto simp: EncodeServerCreateFly_def DecodeServerCreateFly_def packet_simps intro!: ServerCreateFlyPacket.equality split: if_splits)

record ServerPVPPacket =
  pvSourceVID :: u32
  pvDestinationVID :: u32
  pvMode :: u8

definition EncodeServerPVP :: "ServerPVPPacket \<Rightarrow> u8 list" where
  "EncodeServerPVP p =
     Encode HeaderServerPVP
       (put_u32 (pvSourceVID p) @ put_u32 (pvDestinationVID p) @ [pvMode p])"

definition DecodeServerPVP :: "frame \<Rightarrow> packet_error + ServerPVPPacket" where
  "DecodeServerPVP f =
     (if Header f \<noteq> HeaderServerPVP then Inl ErrUnexpectedHeader
      else if length (Payload f) \<noteq> serverPVPPayloadSize then Inl ErrInvalidPayload
      else let b = Payload f in Inr
          \<lparr>pvSourceVID = get_u32 b, pvDestinationVID = get_u32 (drop 4 b), pvMode = b ! 8\<rparr>)"

interpretation server_pvp_packet: exact_packet HeaderServerPVP "\<lambda>_. True"
    EncodeServerPVP DecodeServerPVP
  by unfold_locales (auto simp: EncodeServerPVP_def DecodeServerPVP_def packet_simps intro!: ServerPVPPacket.equality split: if_splits)

record ServerDuelStartPacket =
  duOpponentVIDs :: "u32 list"

definition EncodeServerDuelStart :: "ServerDuelStartPacket \<Rightarrow> u8 list" where
  "EncodeServerDuelStart p = Encode HeaderServerDuelStart (concat (map put_u32 (duOpponentVIDs p)))"

definition DecodeServerDuelStart :: "frame \<Rightarrow> packet_error + ServerDuelStartPacket" where
  "DecodeServerDuelStart f =
     (if Header f \<noteq> HeaderServerDuelStart then Inl ErrUnexpectedHeader
      else if length (Payload f) mod 4 \<noteq> 0 then Inl ErrInvalidPayload
      else Inr \<lparr>duOpponentVIDs = decode_each get_u32 4 (length (Payload f) div 4) (Payload f)\<rparr>)"

interpretation server_duel_start_packet: exact_packet HeaderServerDuelStart
    "\<lambda>p. length (duOpponentVIDs p) < 16383" EncodeServerDuelStart DecodeServerDuelStart
  by unfold_locales (auto simp: EncodeServerDuelStart_def DecodeServerDuelStart_def packet_simps
      intro!: ServerDuelStartPacket.equality split: if_splits)

record ServerTargetCreateNewPacket =
  tcID :: i32
  tcTargetName :: string
  tcVID :: u32
  tcType :: u8

definition EncodeServerTargetCreateNew :: "ServerTargetCreateNewPacket \<Rightarrow> packet_error + u8 list" where
  "EncodeServerTargetCreateNew p =
     attempt (putFixedString 33 (tcTargetName p)) (\<lambda>targetName.
     Inr (Encode HeaderServerTargetCreateNew
       (put_u32 (tcID p) @ targetName @ put_u32 (tcVID p) @ [tcType p])))"

definition DecodeServerTargetCreateNew :: "frame \<Rightarrow> packet_error + ServerTargetCreateNewPacket" where
  "DecodeServerTargetCreateNew f =
     (if Header f \<noteq> HeaderServerTargetCreateNew then Inl ErrUnexpectedHeader
      else if length (Payload f) \<noteq> serverTargetCreateNewPayloadSize then Inl ErrInvalidPayload
      else let b = Payload f in Inr
          \<lparr>tcID = get_u32 b, tcTargetName = parseFixedString (take 33 (drop 4 b)),
           tcVID = get_u32 (drop 37 b), tcType = b ! 41\<rparr>)"

interpretation server_target_create_new_packet: checked_packet HeaderServerTargetCreateNew
    "\<lambda>p. text_fits 33 (tcTargetName p)"
    "\<lambda>p. length (tcTargetName p) < 33"
    EncodeServerTargetCreateNew DecodeServerTargetCreateNew
  by unfold_locales (auto simp: EncodeServerTargetCreateNew_def DecodeServerTargetCreateNew_def text_simps packet_simps
      intro!: ServerTargetCreateNewPacket.equality split: if_splits)

record ServerTargetUpdatePacket =
  tuID :: i32
  tuX :: i32
  tuY :: i32

definition EncodeServerTargetUpdate :: "ServerTargetUpdatePacket \<Rightarrow> u8 list" where
  "EncodeServerTargetUpdate p =
     Encode HeaderServerTargetUpdate (put_u32 (tuID p) @ put_u32 (tuX p) @ put_u32 (tuY p))"

definition DecodeServerTargetUpdate :: "frame \<Rightarrow> packet_error + ServerTargetUpdatePacket" where
  "DecodeServerTargetUpdate f =
     (if Header f \<noteq> HeaderServerTargetUpdate then Inl ErrUnexpectedHeader
      else if length (Payload f) \<noteq> serverTargetUpdatePayloadSize then Inl ErrInvalidPayload
      else let b = Payload f in Inr
          \<lparr>tuID = get_u32 b, tuX = get_u32 (drop 4 b), tuY = get_u32 (drop 8 b)\<rparr>)"

interpretation server_target_update_packet: exact_packet HeaderServerTargetUpdate "\<lambda>_. True"
    EncodeServerTargetUpdate DecodeServerTargetUpdate
  by unfold_locales (auto simp: EncodeServerTargetUpdate_def DecodeServerTargetUpdate_def packet_simps intro!: ServerTargetUpdatePacket.equality split: if_splits)

record ServerTargetDeletePacket =
  tdID :: i32

definition EncodeServerTargetDelete :: "ServerTargetDeletePacket \<Rightarrow> u8 list" where
  "EncodeServerTargetDelete p =
     Encode HeaderServerTargetDelete (put_u32 (tdID p))"

definition DecodeServerTargetDelete :: "frame \<Rightarrow> packet_error + ServerTargetDeletePacket" where
  "DecodeServerTargetDelete f =
     (if Header f \<noteq> HeaderServerTargetDelete then Inl ErrUnexpectedHeader
      else if length (Payload f) \<noteq> serverTargetDeletePayloadSize then Inl ErrInvalidPayload
      else let b = Payload f in Inr
          \<lparr>tdID = get_u32 b\<rparr>)"

interpretation server_target_delete_packet: exact_packet HeaderServerTargetDelete "\<lambda>_. True"
    EncodeServerTargetDelete DecodeServerTargetDelete
  by unfold_locales (auto simp: EncodeServerTargetDelete_def DecodeServerTargetDelete_def packet_simps intro!: ServerTargetDeletePacket.equality split: if_splits)

end
