(* ===== verification/Wire_Item.thy ===== *)
theory Wire_Item
  imports Wire
begin

text \<open>
  \<open>internal/proto/item\<close>: positions of items in windows, the requests a client makes about items,
  the safebox, the mall, refining and exchange, and the packets that show items to it.
\<close>

section \<open>Headers, sizes and windows\<close>

definition HeaderClientUse :: u16 where [packet_simps]: "HeaderClientUse = 0x0501"
definition HeaderClientDrop :: u16 where [packet_simps]: "HeaderClientDrop = 0x0502"
definition HeaderClientDrop2 :: u16 where [packet_simps]: "HeaderClientDrop2 = 0x0503"
definition HeaderClientMove :: u16 where [packet_simps]: "HeaderClientMove = 0x0504"
definition HeaderClientPickup :: u16 where [packet_simps]: "HeaderClientPickup = 0x0505"
definition HeaderClientUseToItem :: u16 where [packet_simps]: "HeaderClientUseToItem = 0x0506"
definition HeaderClientGive :: u16 where [packet_simps]: "HeaderClientGive = 0x0507"
definition HeaderClientExchange :: u16 where [packet_simps]: "HeaderClientExchange = 0x0508"
definition HeaderClientRefine :: u16 where [packet_simps]: "HeaderClientRefine = 0x050C"
definition HeaderClientSafeboxCheckin :: u16 where [packet_simps]: "HeaderClientSafeboxCheckin = 0x0820"
definition HeaderClientSafeboxCheckout :: u16 where [packet_simps]: "HeaderClientSafeboxCheckout = 0x0821"
definition HeaderClientSafeboxItemMove :: u16 where [packet_simps]: "HeaderClientSafeboxItemMove = 0x0822"
definition HeaderClientMallCheckout :: u16 where [packet_simps]: "HeaderClientMallCheckout = 0x0840"
definition HeaderDel :: u16 where [packet_simps]: "HeaderDel = 0x0510"
definition HeaderSet :: u16 where [packet_simps]: "HeaderSet = 0x0511"
definition HeaderUse :: u16 where [packet_simps]: "HeaderUse = 0x0512"
definition HeaderUpdate :: u16 where [packet_simps]: "HeaderUpdate = 0x0514"
definition HeaderGroundAdd :: u16 where [packet_simps]: "HeaderGroundAdd = 0x0515"
definition HeaderGroundDel :: u16 where [packet_simps]: "HeaderGroundDel = 0x0516"
definition HeaderOwnership :: u16 where [packet_simps]: "HeaderOwnership = 0x0517"
definition HeaderGet :: u16 where [packet_simps]: "HeaderGet = 0x0518"
definition HeaderServerExchange :: u16 where [packet_simps]: "HeaderServerExchange = 0x051C"
definition HeaderRefineInformation :: u16 where [packet_simps]: "HeaderRefineInformation = 0x051D"
definition HeaderRefineInformationNew :: u16 where [packet_simps]: "HeaderRefineInformationNew = 0x051E"
definition HeaderSafeboxSet :: u16 where [packet_simps]: "HeaderSafeboxSet = 0x0830"
definition HeaderSafeboxDel :: u16 where [packet_simps]: "HeaderSafeboxDel = 0x0831"
definition HeaderSafeboxWrongPassword :: u16 where [packet_simps]: "HeaderSafeboxWrongPassword = 0x0832"
definition HeaderSafeboxSize :: u16 where [packet_simps]: "HeaderSafeboxSize = 0x0833"
definition HeaderSafeboxMoneyChange :: u16 where [packet_simps]: "HeaderSafeboxMoneyChange = 0x0834"
definition HeaderMallOpen :: u16 where [packet_simps]: "HeaderMallOpen = 0x0841"
definition HeaderMallSet :: u16 where [packet_simps]: "HeaderMallSet = 0x0842"
definition HeaderMallDel :: u16 where [packet_simps]: "HeaderMallDel = 0x0843"

definition positionSize :: nat where [packet_simps]: "positionSize = 3"
definition ItemSocketCount :: nat where [packet_simps]: "ItemSocketCount = 3"
definition ItemAttributeCount :: nat where [packet_simps]: "ItemAttributeCount = 7"
definition clientUsePayloadSize :: nat where [packet_simps]: "clientUsePayloadSize = 3"
definition clientDropPayloadSize :: nat where [packet_simps]: "clientDropPayloadSize = 7"
definition clientDrop2PayloadSize :: nat where [packet_simps]: "clientDrop2PayloadSize = 8"
definition clientMovePayloadSize :: nat where [packet_simps]: "clientMovePayloadSize = 7"
definition clientPickupPayloadSize :: nat where [packet_simps]: "clientPickupPayloadSize = 4"
definition clientUseToItemPayloadSize :: nat where [packet_simps]: "clientUseToItemPayloadSize = 6"
definition clientGivePayloadSize :: nat where [packet_simps]: "clientGivePayloadSize = 8"
definition clientExchangePayloadSize :: nat where [packet_simps]: "clientExchangePayloadSize = 9"
definition clientRefinePayloadSize :: nat where [packet_simps]: "clientRefinePayloadSize = 2"
definition clientSafeboxTransferPayloadSize :: nat where [packet_simps]: "clientSafeboxTransferPayloadSize = 4"
definition clientSafeboxItemMovePayloadSize :: nat where [packet_simps]: "clientSafeboxItemMovePayloadSize = 7"
definition clientMallCheckoutPayloadSize :: nat where [packet_simps]: "clientMallCheckoutPayloadSize = 4"
definition serverExchangePayloadSize :: nat where [packet_simps]: "serverExchangePayloadSize = 46"
definition refineMaterialPayloadSize :: nat where [packet_simps]: "refineMaterialPayloadSize = 8"
definition refineInformationPayloadSize :: nat where [packet_simps]: "refineInformationPayloadSize = 59"
definition delPayloadSize :: nat where [packet_simps]: "delPayloadSize = 3"
definition setPayloadSize :: nat where [packet_simps]: "setPayloadSize = 50"
definition usePayloadSize :: nat where [packet_simps]: "usePayloadSize = 15"
definition updatePayloadSize :: nat where [packet_simps]: "updatePayloadSize = 37"
definition groundAddPayloadSize :: nat where [packet_simps]: "groundAddPayloadSize = 20"
definition groundAddGoldCountPayloadSize :: nat where [packet_simps]: "groundAddGoldCountPayloadSize = 24"
definition groundDelPayloadSize :: nat where [packet_simps]: "groundDelPayloadSize = 4"
definition ownershipPayloadSize :: nat where [packet_simps]: "ownershipPayloadSize = 29"
definition getPayloadSize :: nat where [packet_simps]: "getPayloadSize = 31"
definition safeboxSizePayloadSize :: nat where [packet_simps]: "safeboxSizePayloadSize = 1"
definition safeboxMoneyChangePayloadSize :: nat where [packet_simps]: "safeboxMoneyChangePayloadSize = 4"
definition mallOpenPayloadSize :: nat where [packet_simps]: "mallOpenPayloadSize = 1"

definition WindowInventory :: u8 where "WindowInventory = 1"
definition WindowMall :: u8 where "WindowMall = 4"
definition WindowBeltInventory :: u8 where "WindowBeltInventory = 6"
definition InventoryMaxCell :: u16 where "InventoryMaxCell = 90"
definition WearMaxCell :: u16 where "WearMaxCell = 32"
definition BeltInventoryMaxCell :: u16 where "BeltInventoryMaxCell = 16"
definition RefineMaterialMaxNum :: u8 where "RefineMaterialMaxNum = 5"
definition ownerNameFieldSize :: nat where [packet_simps]: "ownerNameFieldSize = 25"

section \<open>Positions and attributes\<close>

record wire_position =
  poWindowType :: u8
  poCell :: u16

definition InventoryPosition :: "u16 \<Rightarrow> wire_position" where
  "InventoryPosition cell = \<lparr>poWindowType = WindowInventory, poCell = cell\<rparr>"

definition MallPosition :: "u16 \<Rightarrow> wire_position" where
  "MallPosition cell = \<lparr>poWindowType = WindowMall, poCell = cell\<rparr>"

definition BeltPosition :: "u16 \<Rightarrow> wire_position" where
  "BeltPosition cell = \<lparr>poWindowType = WindowBeltInventory, poCell = cell\<rparr>"

definition CarriedBeltInventoryPosition :: "u16 \<Rightarrow> packet_error + wire_position" where
  "CarriedBeltInventoryPosition cell =
     (if BeltInventoryMaxCell \<le> cell then Inl ErrBeltInventoryCellRange else Inr (BeltPosition cell))"

definition CarriedInventoryPosition :: "u16 \<Rightarrow> packet_error + wire_position" where
  "CarriedInventoryPosition cell =
     (if InventoryMaxCell \<le> cell then Inl ErrInventoryCellRange else Inr (InventoryPosition cell))"

definition EquipmentPosition :: "u16 \<Rightarrow> packet_error + wire_position" where
  "EquipmentPosition wearCell =
     (if WearMaxCell \<le> wearCell then Inl ErrEquipmentWearCellRange
      else Inr (InventoryPosition (InventoryMaxCell + wearCell)))"

text \<open>Worn items share the inventory window; their cells follow the carried ones and do not wrap.\<close>

lemma window_positions_disjoint:
  assumes "CarriedInventoryPosition c = Inr p" and "EquipmentPosition w = Inr q"
  shows "p \<noteq> q"
proof -
  from assms have "c < 90" and w: "w < 32" and p: "poCell p = c" and q: "poCell q = 90 + w"
    by (auto simp: CarriedInventoryPosition_def EquipmentPosition_def InventoryPosition_def
        InventoryMaxCell_def WearMaxCell_def not_le split: if_splits)
  moreover from w have "unat (90 + w) = 90 + unat w"
    by (subst unat_add_no_wrap) (simp_all add: word_less_nat_alt)
  ultimately show ?thesis
    by (auto simp: word_less_nat_alt)
qed

lemma EquipmentPosition_inj:
  "EquipmentPosition v = Inr p \<Longrightarrow> EquipmentPosition w = Inr p \<Longrightarrow> v = w"
  by (auto simp: EquipmentPosition_def InventoryPosition_def split: if_splits)

definition encodePosition :: "wire_position \<Rightarrow> u8 list" where
  "encodePosition p = [poWindowType p] @ put_u16 (poCell p)"

definition decodePosition :: "u8 list \<Rightarrow> wire_position" where
  "decodePosition src = \<lparr>poWindowType = src ! 0, poCell = get_u16 (drop 1 src)\<rparr>"

interpretation position_codec: exact_codec encodePosition decodePosition 3 "\<lambda>_. True"
  by unfold_locales (auto simp: encodePosition_def decodePosition_def packet_simps)

record wire_attribute =
  waType :: u8
  waValue :: i16

definition put_attribute :: "wire_attribute \<Rightarrow> u8 list" where
  "put_attribute a = [waType a] @ put_u16 (waValue a)"

definition get_attribute :: "u8 list \<Rightarrow> wire_attribute" where
  "get_attribute b = \<lparr>waType = b ! 0, waValue = get_u16 (drop 1 b)\<rparr>"

interpretation attribute_codec: exact_codec put_attribute get_attribute 3 "\<lambda>_. True"
  by unfold_locales (auto simp: put_attribute_def get_attribute_def packet_simps)

declare position_codec.enc_length [packet_simps] position_codec.dec_enc [packet_simps]
  position_codec.dec_enc_alone [packet_simps] position_codec.enc_dec [packet_simps]
  attribute_codec.array_simps [packet_simps]

section \<open>Requests\<close>

record ClientUsePacket =
  iuPosition :: wire_position

definition EncodeClientUse :: "ClientUsePacket \<Rightarrow> u8 list" where
  "EncodeClientUse p =
     Encode HeaderClientUse (encodePosition (iuPosition p))"

definition DecodeClientUse :: "frame \<Rightarrow> packet_error + ClientUsePacket" where
  "DecodeClientUse f =
     (if Header f \<noteq> HeaderClientUse then Inl ErrUnexpectedHeader
      else if length (Payload f) \<noteq> clientUsePayloadSize then Inl ErrInvalidPayload
      else let b = Payload f in Inr
          \<lparr>iuPosition = decodePosition (take 3 b)\<rparr>)"

interpretation client_use_packet: exact_packet HeaderClientUse "\<lambda>_. True"
    EncodeClientUse DecodeClientUse
  by unfold_locales (auto simp: EncodeClientUse_def DecodeClientUse_def packet_simps intro!: ClientUsePacket.equality split: if_splits)

record ClientUseToItemPacket =
  utSource :: wire_position
  utTarget :: wire_position

definition EncodeClientUseToItem :: "ClientUseToItemPacket \<Rightarrow> u8 list" where
  "EncodeClientUseToItem p =
     Encode HeaderClientUseToItem (encodePosition (utSource p) @ encodePosition (utTarget p))"

definition DecodeClientUseToItem :: "frame \<Rightarrow> packet_error + ClientUseToItemPacket" where
  "DecodeClientUseToItem f =
     (if Header f \<noteq> HeaderClientUseToItem then Inl ErrUnexpectedHeader
      else if length (Payload f) \<noteq> clientUseToItemPayloadSize then Inl ErrInvalidPayload
      else let b = Payload f in Inr
          \<lparr>utSource = decodePosition (take 3 b), utTarget = decodePosition (take 3 (drop 3 b))\<rparr>)"

interpretation client_use_to_item_packet: exact_packet HeaderClientUseToItem "\<lambda>_. True"
    EncodeClientUseToItem DecodeClientUseToItem
  by unfold_locales (auto simp: EncodeClientUseToItem_def DecodeClientUseToItem_def packet_simps intro!: ClientUseToItemPacket.equality split: if_splits)

record ClientMovePacket =
  imSource :: wire_position
  imDestination :: wire_position
  imCount :: u8

definition EncodeClientMove :: "ClientMovePacket \<Rightarrow> u8 list" where
  "EncodeClientMove p =
     Encode HeaderClientMove
       (encodePosition (imSource p) @ encodePosition (imDestination p) @ [imCount p])"

definition DecodeClientMove :: "frame \<Rightarrow> packet_error + ClientMovePacket" where
  "DecodeClientMove f =
     (if Header f \<noteq> HeaderClientMove then Inl ErrUnexpectedHeader
      else if length (Payload f) \<noteq> clientMovePayloadSize then Inl ErrInvalidPayload
      else let b = Payload f in Inr
          \<lparr>imSource = decodePosition (take 3 b),
           imDestination = decodePosition (take 3 (drop 3 b)), imCount = b ! 6\<rparr>)"

interpretation client_move_packet: exact_packet HeaderClientMove "\<lambda>_. True"
    EncodeClientMove DecodeClientMove
  by unfold_locales (auto simp: EncodeClientMove_def DecodeClientMove_def packet_simps intro!: ClientMovePacket.equality split: if_splits)

record ClientDropPacket =
  idPosition :: wire_position
  idElk :: u32

definition EncodeClientDrop :: "ClientDropPacket \<Rightarrow> u8 list" where
  "EncodeClientDrop p =
     Encode HeaderClientDrop (encodePosition (idPosition p) @ put_u32 (idElk p))"

definition DecodeClientDrop :: "frame \<Rightarrow> packet_error + ClientDropPacket" where
  "DecodeClientDrop f =
     (if Header f \<noteq> HeaderClientDrop then Inl ErrUnexpectedHeader
      else if length (Payload f) \<noteq> clientDropPayloadSize then Inl ErrInvalidPayload
      else let b = Payload f in Inr
          \<lparr>idPosition = decodePosition (take 3 b), idElk = get_u32 (drop 3 b)\<rparr>)"

interpretation client_drop_packet: exact_packet HeaderClientDrop "\<lambda>_. True"
    EncodeClientDrop DecodeClientDrop
  by unfold_locales (auto simp: EncodeClientDrop_def DecodeClientDrop_def packet_simps intro!: ClientDropPacket.equality split: if_splits)

record ClientDrop2Packet =
  iePosition :: wire_position
  ieGold :: u32
  ieCount :: u8

definition EncodeClientDrop2 :: "ClientDrop2Packet \<Rightarrow> u8 list" where
  "EncodeClientDrop2 p =
     Encode HeaderClientDrop2 (encodePosition (iePosition p) @ put_u32 (ieGold p) @ [ieCount p])"

definition DecodeClientDrop2 :: "frame \<Rightarrow> packet_error + ClientDrop2Packet" where
  "DecodeClientDrop2 f =
     (if Header f \<noteq> HeaderClientDrop2 then Inl ErrUnexpectedHeader
      else if length (Payload f) \<noteq> clientDrop2PayloadSize then Inl ErrInvalidPayload
      else let b = Payload f in Inr
          \<lparr>iePosition = decodePosition (take 3 b), ieGold = get_u32 (drop 3 b), ieCount = b ! 7\<rparr>)"

interpretation client_drop2_packet: exact_packet HeaderClientDrop2 "\<lambda>_. True"
    EncodeClientDrop2 DecodeClientDrop2
  by unfold_locales (auto simp: EncodeClientDrop2_def DecodeClientDrop2_def packet_simps intro!: ClientDrop2Packet.equality split: if_splits)

record ClientPickupPacket =
  ipVID :: u32

definition EncodeClientPickup :: "ClientPickupPacket \<Rightarrow> u8 list" where
  "EncodeClientPickup p =
     Encode HeaderClientPickup (put_u32 (ipVID p))"

definition DecodeClientPickup :: "frame \<Rightarrow> packet_error + ClientPickupPacket" where
  "DecodeClientPickup f =
     (if Header f \<noteq> HeaderClientPickup then Inl ErrUnexpectedHeader
      else if length (Payload f) \<noteq> clientPickupPayloadSize then Inl ErrInvalidPayload
      else let b = Payload f in Inr
          \<lparr>ipVID = get_u32 b\<rparr>)"

interpretation client_pickup_packet: exact_packet HeaderClientPickup "\<lambda>_. True"
    EncodeClientPickup DecodeClientPickup
  by unfold_locales (auto simp: EncodeClientPickup_def DecodeClientPickup_def packet_simps intro!: ClientPickupPacket.equality split: if_splits)

record ClientGivePacket =
  igTargetVID :: u32
  igPosition :: wire_position
  igCount :: u8

definition EncodeClientGive :: "ClientGivePacket \<Rightarrow> u8 list" where
  "EncodeClientGive p =
     Encode HeaderClientGive
       (put_u32 (igTargetVID p) @ encodePosition (igPosition p) @ [igCount p])"

definition DecodeClientGive :: "frame \<Rightarrow> packet_error + ClientGivePacket" where
  "DecodeClientGive f =
     (if Header f \<noteq> HeaderClientGive then Inl ErrUnexpectedHeader
      else if length (Payload f) \<noteq> clientGivePayloadSize then Inl ErrInvalidPayload
      else let b = Payload f in Inr
          \<lparr>igTargetVID = get_u32 b, igPosition = decodePosition (take 3 (drop 4 b)),
           igCount = b ! 7\<rparr>)"

interpretation client_give_packet: exact_packet HeaderClientGive "\<lambda>_. True"
    EncodeClientGive DecodeClientGive
  by unfold_locales (auto simp: EncodeClientGive_def DecodeClientGive_def packet_simps intro!: ClientGivePacket.equality split: if_splits)

record ClientExchangePacket =
  ixSubheader :: u8
  ixArg1 :: u32
  ixArg2 :: u8
  ixPosition :: wire_position

definition EncodeClientExchange :: "ClientExchangePacket \<Rightarrow> u8 list" where
  "EncodeClientExchange p =
     Encode HeaderClientExchange
       ([ixSubheader p] @ put_u32 (ixArg1 p) @ [ixArg2 p] @ encodePosition (ixPosition p))"

definition DecodeClientExchange :: "frame \<Rightarrow> packet_error + ClientExchangePacket" where
  "DecodeClientExchange f =
     (if Header f \<noteq> HeaderClientExchange then Inl ErrUnexpectedHeader
      else if length (Payload f) \<noteq> clientExchangePayloadSize then Inl ErrInvalidPayload
      else let b = Payload f in Inr
          \<lparr>ixSubheader = b ! 0, ixArg1 = get_u32 (drop 1 b), ixArg2 = b ! 5,
           ixPosition = decodePosition (take 3 (drop 6 b))\<rparr>)"

interpretation client_exchange_packet: exact_packet HeaderClientExchange "\<lambda>_. True"
    EncodeClientExchange DecodeClientExchange
  by unfold_locales (auto simp: EncodeClientExchange_def DecodeClientExchange_def packet_simps intro!: ClientExchangePacket.equality split: if_splits)

record ClientRefinePacket =
  irPosition :: u8
  irType :: u8

definition EncodeClientRefine :: "ClientRefinePacket \<Rightarrow> u8 list" where
  "EncodeClientRefine p =
     Encode HeaderClientRefine ([irPosition p, irType p])"

definition DecodeClientRefine :: "frame \<Rightarrow> packet_error + ClientRefinePacket" where
  "DecodeClientRefine f =
     (if Header f \<noteq> HeaderClientRefine then Inl ErrUnexpectedHeader
      else if length (Payload f) \<noteq> clientRefinePayloadSize then Inl ErrInvalidPayload
      else let b = Payload f in Inr
          \<lparr>irPosition = b ! 0, irType = b ! 1\<rparr>)"

interpretation client_refine_packet: exact_packet HeaderClientRefine "\<lambda>_. True"
    EncodeClientRefine DecodeClientRefine
  by unfold_locales (auto simp: EncodeClientRefine_def DecodeClientRefine_def packet_simps intro!: ClientRefinePacket.equality split: if_splits)

record ClientSafeboxCheckinPacket =
  siSafeSlot :: u8
  siPosition :: wire_position

definition EncodeClientSafeboxCheckin :: "ClientSafeboxCheckinPacket \<Rightarrow> u8 list" where
  "EncodeClientSafeboxCheckin p =
     Encode HeaderClientSafeboxCheckin ([siSafeSlot p] @ encodePosition (siPosition p))"

definition DecodeClientSafeboxCheckin :: "frame \<Rightarrow> packet_error + ClientSafeboxCheckinPacket" where
  "DecodeClientSafeboxCheckin f =
     (if Header f \<noteq> HeaderClientSafeboxCheckin then Inl ErrUnexpectedHeader
      else if length (Payload f) \<noteq> clientSafeboxTransferPayloadSize then Inl ErrInvalidPayload
      else let b = Payload f in Inr
          \<lparr>siSafeSlot = b ! 0, siPosition = decodePosition (take 3 (drop 1 b))\<rparr>)"

interpretation client_safebox_checkin_packet: exact_packet HeaderClientSafeboxCheckin "\<lambda>_. True"
    EncodeClientSafeboxCheckin DecodeClientSafeboxCheckin
  by unfold_locales (auto simp: EncodeClientSafeboxCheckin_def DecodeClientSafeboxCheckin_def packet_simps intro!: ClientSafeboxCheckinPacket.equality split: if_splits)

record ClientSafeboxCheckoutPacket =
  soSafeSlot :: u8
  soPosition :: wire_position

definition EncodeClientSafeboxCheckout :: "ClientSafeboxCheckoutPacket \<Rightarrow> u8 list" where
  "EncodeClientSafeboxCheckout p =
     Encode HeaderClientSafeboxCheckout ([soSafeSlot p] @ encodePosition (soPosition p))"

definition DecodeClientSafeboxCheckout :: "frame \<Rightarrow> packet_error + ClientSafeboxCheckoutPacket" where
  "DecodeClientSafeboxCheckout f =
     (if Header f \<noteq> HeaderClientSafeboxCheckout then Inl ErrUnexpectedHeader
      else if length (Payload f) \<noteq> clientSafeboxTransferPayloadSize then Inl ErrInvalidPayload
      else let b = Payload f in Inr
          \<lparr>soSafeSlot = b ! 0, soPosition = decodePosition (take 3 (drop 1 b))\<rparr>)"

interpretation client_safebox_checkout_packet: exact_packet HeaderClientSafeboxCheckout "\<lambda>_. True"
    EncodeClientSafeboxCheckout DecodeClientSafeboxCheckout
  by unfold_locales (auto simp: EncodeClientSafeboxCheckout_def DecodeClientSafeboxCheckout_def packet_simps intro!: ClientSafeboxCheckoutPacket.equality split: if_splits)

record ClientSafeboxItemMovePacket =
  smSource :: wire_position
  smDestination :: wire_position
  smCount :: u8

definition EncodeClientSafeboxItemMove :: "ClientSafeboxItemMovePacket \<Rightarrow> u8 list" where
  "EncodeClientSafeboxItemMove p =
     Encode HeaderClientSafeboxItemMove
       (encodePosition (smSource p) @ encodePosition (smDestination p) @ [smCount p])"

definition DecodeClientSafeboxItemMove :: "frame \<Rightarrow> packet_error + ClientSafeboxItemMovePacket" where
  "DecodeClientSafeboxItemMove f =
     (if Header f \<noteq> HeaderClientSafeboxItemMove then Inl ErrUnexpectedHeader
      else if length (Payload f) \<noteq> clientSafeboxItemMovePayloadSize then Inl ErrInvalidPayload
      else let b = Payload f in Inr
          \<lparr>smSource = decodePosition (take 3 b),
           smDestination = decodePosition (take 3 (drop 3 b)), smCount = b ! 6\<rparr>)"

interpretation client_safebox_item_move_packet: exact_packet HeaderClientSafeboxItemMove "\<lambda>_. True"
    EncodeClientSafeboxItemMove DecodeClientSafeboxItemMove
  by unfold_locales (auto simp: EncodeClientSafeboxItemMove_def DecodeClientSafeboxItemMove_def packet_simps intro!: ClientSafeboxItemMovePacket.equality split: if_splits)

record ClientMallCheckoutPacket =
  moMallSlot :: u8
  moPosition :: wire_position

definition EncodeClientMallCheckout :: "ClientMallCheckoutPacket \<Rightarrow> u8 list" where
  "EncodeClientMallCheckout p =
     Encode HeaderClientMallCheckout ([moMallSlot p] @ encodePosition (moPosition p))"

definition DecodeClientMallCheckout :: "frame \<Rightarrow> packet_error + ClientMallCheckoutPacket" where
  "DecodeClientMallCheckout f =
     (if Header f \<noteq> HeaderClientMallCheckout then Inl ErrUnexpectedHeader
      else if length (Payload f) \<noteq> clientMallCheckoutPayloadSize then Inl ErrInvalidPayload
      else let b = Payload f in Inr
          \<lparr>moMallSlot = b ! 0, moPosition = decodePosition (take 3 (drop 1 b))\<rparr>)"

interpretation client_mall_checkout_packet: exact_packet HeaderClientMallCheckout "\<lambda>_. True"
    EncodeClientMallCheckout DecodeClientMallCheckout
  by unfold_locales (auto simp: EncodeClientMallCheckout_def DecodeClientMallCheckout_def packet_simps intro!: ClientMallCheckoutPacket.equality split: if_splits)

section \<open>Refine information\<close>

record wire_refine_material =
  wmVnum :: u32
  wmCount :: i32

record RefineTable =
  rtSourceVnum :: u32
  rtResultVnum :: u32
  rtMaterialCount :: u8
  rtCost :: i32
  rtProbability :: i32
  rtMaterials :: "wire_refine_material list"

record RefineInformationPacket =
  riType :: u8
  riPosition :: u8
  riTable :: RefineTable

definition put_material :: "wire_refine_material \<Rightarrow> u8 list" where
  "put_material m = put_u32 (wmVnum m) @ put_u32 (wmCount m)"

definition get_material :: "u8 list \<Rightarrow> wire_refine_material" where
  "get_material b = \<lparr>wmVnum = get_u32 b, wmCount = get_u32 (drop 4 b)\<rparr>"

interpretation material_codec: exact_codec put_material get_material 8 "\<lambda>_. True"
  by unfold_locales (auto simp: put_material_def get_material_def packet_simps)

declare material_codec.array_simps [packet_simps]

definition encodeRefineTable :: "RefineTable \<Rightarrow> u8 list" where
  "encodeRefineTable t =
     put_u32 (rtSourceVnum t) @ put_u32 (rtResultVnum t) @ [rtMaterialCount t] @
     put_u32 (rtCost t) @ put_u32 (rtProbability t) @ concat (map put_material (rtMaterials t))"

definition decodeRefineTable :: "u8 list \<Rightarrow> RefineTable" where
  "decodeRefineTable b =
     \<lparr>rtSourceVnum = get_u32 b, rtResultVnum = get_u32 (drop 4 b), rtMaterialCount = b ! 8,
      rtCost = get_u32 (drop 9 b), rtProbability = get_u32 (drop 13 b),
      rtMaterials = decode_each get_material refineMaterialPayloadSize (unat RefineMaterialMaxNum) (drop 17 b)\<rparr>"

definition encodeRefineInformation :: "u16 \<Rightarrow> RefineInformationPacket \<Rightarrow> packet_error + u8 list" where
  "encodeRefineInformation header p =
     (if RefineMaterialMaxNum < rtMaterialCount (riTable p) then Inl ErrInvalidPayload
      else Inr (Encode header ([riType p, riPosition p] @ encodeRefineTable (riTable p))))"

definition decodeRefineInformation :: "frame \<Rightarrow> u16 \<Rightarrow> packet_error + RefineInformationPacket" where
  "decodeRefineInformation f header =
     (if Header f \<noteq> header then Inl ErrUnexpectedHeader
      else if length (Payload f) \<noteq> refineInformationPayloadSize then Inl ErrInvalidPayload
      else let p = \<lparr>riType = Payload f ! 0, riPosition = Payload f ! 1,
                    riTable = decodeRefineTable (drop 2 (Payload f))\<rparr> in
        if RefineMaterialMaxNum < rtMaterialCount (riTable p) then Inl ErrInvalidPayload else Inr p)"

definition EncodeRefineInformation :: "RefineInformationPacket \<Rightarrow> packet_error + u8 list" where
  "EncodeRefineInformation p = encodeRefineInformation HeaderRefineInformation p"

definition DecodeRefineInformation :: "frame \<Rightarrow> packet_error + RefineInformationPacket" where
  "DecodeRefineInformation f = decodeRefineInformation f HeaderRefineInformation"

interpretation refine_information_packet: exact_packet HeaderRefineInformation
    "\<lambda>p. length (rtMaterials (riTable p)) = 5 \<and> rtMaterialCount (riTable p) \<le> 5"
    "\<lambda>p. sent (EncodeRefineInformation p)" DecodeRefineInformation
  by unfold_locales
    (auto simp: EncodeRefineInformation_def DecodeRefineInformation_def encodeRefineInformation_def
      decodeRefineInformation_def encodeRefineTable_def decodeRefineTable_def RefineMaterialMaxNum_def
      packet_simps intro!: RefineInformationPacket.equality RefineTable.equality split: if_splits)

definition EncodeRefineInformationNew :: "RefineInformationPacket \<Rightarrow> packet_error + u8 list" where
  "EncodeRefineInformationNew p = encodeRefineInformation HeaderRefineInformationNew p"

definition DecodeRefineInformationNew :: "frame \<Rightarrow> packet_error + RefineInformationPacket" where
  "DecodeRefineInformationNew f = decodeRefineInformation f HeaderRefineInformationNew"

interpretation refine_information_new_packet: exact_packet HeaderRefineInformationNew
    "\<lambda>p. length (rtMaterials (riTable p)) = 5 \<and> rtMaterialCount (riTable p) \<le> 5"
    "\<lambda>p. sent (EncodeRefineInformationNew p)" DecodeRefineInformationNew
  by unfold_locales
    (auto simp: EncodeRefineInformationNew_def DecodeRefineInformationNew_def encodeRefineInformation_def
      decodeRefineInformation_def encodeRefineTable_def decodeRefineTable_def RefineMaterialMaxNum_def
      packet_simps intro!: RefineInformationPacket.equality RefineTable.equality split: if_splits)

section \<open>Items in windows\<close>

record SetPacket =
  setPosition :: wire_position
  setVnum :: u32
  setCount :: u8
  setFlags :: u32
  setAntiFlags :: u32
  setHighlight :: u8
  setSockets :: "i32 list"
  setAttributes :: "wire_attribute list"

definition encodeSetPayload :: "SetPacket \<Rightarrow> u8 list" where
  "encodeSetPayload p =
     encodePosition (setPosition p) @ put_u32 (setVnum p) @ [setCount p] @ put_u32 (setFlags p) @
     put_u32 (setAntiFlags p) @ [setHighlight p] @ concat (map put_u32 (setSockets p)) @
     concat (map put_attribute (setAttributes p))"

definition decodeSetWithHeader :: "frame \<Rightarrow> u16 \<Rightarrow> packet_error + SetPacket" where
  "decodeSetWithHeader f header =
     (if Header f \<noteq> header then Inl ErrUnexpectedHeader
      else if length (Payload f) \<noteq> setPayloadSize then Inl ErrInvalidPayload
      else let b = Payload f in Inr
          \<lparr>setPosition = decodePosition (take 3 b), setVnum = get_u32 (drop 3 b), setCount = b ! 7,
           setFlags = get_u32 (drop 8 b), setAntiFlags = get_u32 (drop 12 b), setHighlight = b ! 16,
           setSockets = decode_each get_u32 4 3 (drop 17 b),
           setAttributes = decode_each get_attribute 3 7 (drop 29 b)\<rparr>)"

record DelPacket =
  delPosition :: wire_position

definition encodeDelPayload :: "DelPacket \<Rightarrow> u8 list" where
  "encodeDelPayload p = encodePosition (delPosition p)"

definition decodeDelWithHeader :: "frame \<Rightarrow> u16 \<Rightarrow> packet_error + DelPacket" where
  "decodeDelWithHeader f header =
     (if Header f \<noteq> header then Inl ErrUnexpectedHeader
      else if length (Payload f) \<noteq> delPayloadSize then Inl ErrInvalidPayload
      else Inr \<lparr>delPosition = decodePosition (Payload f)\<rparr>)"

definition EncodeSet :: "SetPacket \<Rightarrow> u8 list" where
  "EncodeSet p = Encode HeaderSet (encodeSetPayload p)"

definition DecodeSet :: "frame \<Rightarrow> packet_error + SetPacket" where
  "DecodeSet f = decodeSetWithHeader f HeaderSet"

definition EncodeDel :: "DelPacket \<Rightarrow> u8 list" where
  "EncodeDel p = Encode HeaderDel (encodeDelPayload p)"

definition DecodeDel :: "frame \<Rightarrow> packet_error + DelPacket" where
  "DecodeDel f = decodeDelWithHeader f HeaderDel"

interpretation set_packet: exact_packet HeaderSet
    "\<lambda>p. length (setSockets p) = 3 \<and> length (setAttributes p) = 7" EncodeSet DecodeSet
  by unfold_locales (auto simp: EncodeSet_def DecodeSet_def encodeSetPayload_def
      decodeSetWithHeader_def packet_simps intro!: SetPacket.equality split: if_splits)

interpretation del_packet: exact_packet HeaderDel "\<lambda>_. True" EncodeDel DecodeDel
  by unfold_locales (auto simp: EncodeDel_def DecodeDel_def encodeDelPayload_def
      decodeDelWithHeader_def packet_simps intro!: DelPacket.equality split: if_splits)

definition EncodeSafeboxSet :: "SetPacket \<Rightarrow> u8 list" where
  "EncodeSafeboxSet p = Encode HeaderSafeboxSet (encodeSetPayload p)"

definition DecodeSafeboxSet :: "frame \<Rightarrow> packet_error + SetPacket" where
  "DecodeSafeboxSet f = decodeSetWithHeader f HeaderSafeboxSet"

definition EncodeSafeboxDel :: "DelPacket \<Rightarrow> u8 list" where
  "EncodeSafeboxDel p = Encode HeaderSafeboxDel (encodeDelPayload p)"

definition DecodeSafeboxDel :: "frame \<Rightarrow> packet_error + DelPacket" where
  "DecodeSafeboxDel f = decodeDelWithHeader f HeaderSafeboxDel"

interpretation safebox_set_packet: exact_packet HeaderSafeboxSet
    "\<lambda>p. length (setSockets p) = 3 \<and> length (setAttributes p) = 7" EncodeSafeboxSet DecodeSafeboxSet
  by unfold_locales (auto simp: EncodeSafeboxSet_def DecodeSafeboxSet_def encodeSetPayload_def
      decodeSetWithHeader_def packet_simps intro!: SetPacket.equality split: if_splits)

interpretation safebox_del_packet: exact_packet HeaderSafeboxDel "\<lambda>_. True" EncodeSafeboxDel DecodeSafeboxDel
  by unfold_locales (auto simp: EncodeSafeboxDel_def DecodeSafeboxDel_def encodeDelPayload_def
      decodeDelWithHeader_def packet_simps intro!: DelPacket.equality split: if_splits)

definition EncodeMallSet :: "SetPacket \<Rightarrow> u8 list" where
  "EncodeMallSet p = Encode HeaderMallSet (encodeSetPayload p)"

definition DecodeMallSet :: "frame \<Rightarrow> packet_error + SetPacket" where
  "DecodeMallSet f = decodeSetWithHeader f HeaderMallSet"

definition EncodeMallDel :: "DelPacket \<Rightarrow> u8 list" where
  "EncodeMallDel p = Encode HeaderMallDel (encodeDelPayload p)"

definition DecodeMallDel :: "frame \<Rightarrow> packet_error + DelPacket" where
  "DecodeMallDel f = decodeDelWithHeader f HeaderMallDel"

interpretation mall_set_packet: exact_packet HeaderMallSet
    "\<lambda>p. length (setSockets p) = 3 \<and> length (setAttributes p) = 7" EncodeMallSet DecodeMallSet
  by unfold_locales (auto simp: EncodeMallSet_def DecodeMallSet_def encodeSetPayload_def
      decodeSetWithHeader_def packet_simps intro!: SetPacket.equality split: if_splits)

interpretation mall_del_packet: exact_packet HeaderMallDel "\<lambda>_. True" EncodeMallDel DecodeMallDel
  by unfold_locales (auto simp: EncodeMallDel_def DecodeMallDel_def encodeDelPayload_def
      decodeDelWithHeader_def packet_simps intro!: DelPacket.equality split: if_splits)

record UsePacket =
  uxPosition :: wire_position
  uxCharacterVID :: u32
  uxVictimVID :: u32
  uxVnum :: u32

definition EncodeUse :: "UsePacket \<Rightarrow> u8 list" where
  "EncodeUse p =
     Encode HeaderUse (encodePosition (uxPosition p) @ put_u32 (uxCharacterVID p) @ put_u32 (uxVictimVID p) @
        put_u32 (uxVnum p))"

definition DecodeUse :: "frame \<Rightarrow> packet_error + UsePacket" where
  "DecodeUse f =
     (if Header f \<noteq> HeaderUse then Inl ErrUnexpectedHeader
      else if length (Payload f) \<noteq> usePayloadSize then Inl ErrInvalidPayload
      else let b = Payload f in Inr
          \<lparr>uxPosition = decodePosition (take 3 b), uxCharacterVID = get_u32 (drop 3 b),
           uxVictimVID = get_u32 (drop 7 b), uxVnum = get_u32 (drop 11 b)\<rparr>)"

interpretation use_packet: exact_packet HeaderUse "\<lambda>_. True"
    EncodeUse DecodeUse
  by unfold_locales (auto simp: EncodeUse_def DecodeUse_def packet_simps intro!: UsePacket.equality split: if_splits)

record UpdatePacket =
  upPosition :: wire_position
  upCount :: u8
  upSockets :: "i32 list"
  upAttributes :: "wire_attribute list"

definition EncodeUpdate :: "UpdatePacket \<Rightarrow> u8 list" where
  "EncodeUpdate p =
     Encode HeaderUpdate (encodePosition (upPosition p) @ [upCount p] @ concat (map put_u32 (upSockets p)) @
        concat (map put_attribute (upAttributes p)))"

definition DecodeUpdate :: "frame \<Rightarrow> packet_error + UpdatePacket" where
  "DecodeUpdate f =
     (if Header f \<noteq> HeaderUpdate then Inl ErrUnexpectedHeader
      else if length (Payload f) \<noteq> updatePayloadSize then Inl ErrInvalidPayload
      else let b = Payload f in Inr
          \<lparr>upPosition = decodePosition (take 3 b), upCount = b ! 3,
           upSockets = decode_each get_u32 4 3 (drop 4 b),
           upAttributes = decode_each get_attribute 3 7 (drop 16 b)\<rparr>)"

interpretation update_packet: exact_packet HeaderUpdate "\<lambda>p. length (upSockets p) = 3 \<and> length (upAttributes p) = 7"
    EncodeUpdate DecodeUpdate
  by unfold_locales (auto simp: EncodeUpdate_def DecodeUpdate_def packet_simps intro!: UpdatePacket.equality split: if_splits)

record ServerExchangePacket =
  seSubheader :: u8
  seIsMe :: u8
  seArg1 :: u32
  sePosition :: wire_position
  seArg3 :: u32
  seSockets :: "i32 list"
  seAttributes :: "wire_attribute list"

definition EncodeServerExchange :: "ServerExchangePacket \<Rightarrow> u8 list" where
  "EncodeServerExchange p =
     Encode HeaderServerExchange ([seSubheader p, seIsMe p] @ put_u32 (seArg1 p) @ encodePosition (sePosition p) @
        put_u32 (seArg3 p) @ concat (map put_u32 (seSockets p)) @
        concat (map put_attribute (seAttributes p)))"

definition DecodeServerExchange :: "frame \<Rightarrow> packet_error + ServerExchangePacket" where
  "DecodeServerExchange f =
     (if Header f \<noteq> HeaderServerExchange then Inl ErrUnexpectedHeader
      else if length (Payload f) \<noteq> serverExchangePayloadSize then Inl ErrInvalidPayload
      else let b = Payload f in Inr
          \<lparr>seSubheader = b ! 0, seIsMe = b ! 1, seArg1 = get_u32 (drop 2 b),
           sePosition = decodePosition (take 3 (drop 6 b)), seArg3 = get_u32 (drop 9 b),
           seSockets = decode_each get_u32 4 3 (drop 13 b),
           seAttributes = decode_each get_attribute 3 7 (drop 25 b)\<rparr>)"

interpretation server_exchange_packet: exact_packet HeaderServerExchange "\<lambda>p. length (seSockets p) = 3 \<and> length (seAttributes p) = 7"
    EncodeServerExchange DecodeServerExchange
  by unfold_locales (auto simp: EncodeServerExchange_def DecodeServerExchange_def packet_simps intro!: ServerExchangePacket.equality split: if_splits)

section \<open>Safebox and mall windows\<close>

definition EncodeSafeboxWrongPassword :: "u8 list" where
  "EncodeSafeboxWrongPassword = Encode HeaderSafeboxWrongPassword []"

definition DecodeSafeboxWrongPassword :: "frame \<Rightarrow> packet_error + unit" where
  "DecodeSafeboxWrongPassword f =
     (if Header f \<noteq> HeaderSafeboxWrongPassword then Inl ErrUnexpectedHeader
      else if length (Payload f) \<noteq> 0 then Inl ErrInvalidPayload
      else Inr ())"

interpretation safebox_wrong_password_packet: exact_packet HeaderSafeboxWrongPassword "\<lambda>_. True"
    "\<lambda>_. EncodeSafeboxWrongPassword" DecodeSafeboxWrongPassword
  by unfold_locales (auto simp: EncodeSafeboxWrongPassword_def DecodeSafeboxWrongPassword_def
      packet_simps split: if_splits)

record SafeboxSizePacket =
  szSize :: u8

definition EncodeSafeboxSize :: "SafeboxSizePacket \<Rightarrow> u8 list" where
  "EncodeSafeboxSize p =
     Encode HeaderSafeboxSize ([szSize p])"

definition DecodeSafeboxSize :: "frame \<Rightarrow> packet_error + SafeboxSizePacket" where
  "DecodeSafeboxSize f =
     (if Header f \<noteq> HeaderSafeboxSize then Inl ErrUnexpectedHeader
      else if length (Payload f) \<noteq> safeboxSizePayloadSize then Inl ErrInvalidPayload
      else let b = Payload f in Inr
          \<lparr>szSize = b ! 0\<rparr>)"

interpretation safebox_size_packet: exact_packet HeaderSafeboxSize "\<lambda>_. True"
    EncodeSafeboxSize DecodeSafeboxSize
  by unfold_locales (auto simp: EncodeSafeboxSize_def DecodeSafeboxSize_def packet_simps intro!: SafeboxSizePacket.equality split: if_splits)

record SafeboxMoneyChangePacket =
  syMoney :: i32

definition EncodeSafeboxMoneyChange :: "SafeboxMoneyChangePacket \<Rightarrow> u8 list" where
  "EncodeSafeboxMoneyChange p =
     Encode HeaderSafeboxMoneyChange (put_u32 (syMoney p))"

definition DecodeSafeboxMoneyChange :: "frame \<Rightarrow> packet_error + SafeboxMoneyChangePacket" where
  "DecodeSafeboxMoneyChange f =
     (if Header f \<noteq> HeaderSafeboxMoneyChange then Inl ErrUnexpectedHeader
      else if length (Payload f) \<noteq> safeboxMoneyChangePayloadSize then Inl ErrInvalidPayload
      else let b = Payload f in Inr
          \<lparr>syMoney = get_u32 b\<rparr>)"

interpretation safebox_money_change_packet: exact_packet HeaderSafeboxMoneyChange "\<lambda>_. True"
    EncodeSafeboxMoneyChange DecodeSafeboxMoneyChange
  by unfold_locales (auto simp: EncodeSafeboxMoneyChange_def DecodeSafeboxMoneyChange_def packet_simps intro!: SafeboxMoneyChangePacket.equality split: if_splits)

record MallOpenPacket =
  mlSize :: u8

definition EncodeMallOpen :: "MallOpenPacket \<Rightarrow> u8 list" where
  "EncodeMallOpen p =
     Encode HeaderMallOpen ([mlSize p])"

definition DecodeMallOpen :: "frame \<Rightarrow> packet_error + MallOpenPacket" where
  "DecodeMallOpen f =
     (if Header f \<noteq> HeaderMallOpen then Inl ErrUnexpectedHeader
      else if length (Payload f) \<noteq> mallOpenPayloadSize then Inl ErrInvalidPayload
      else let b = Payload f in Inr
          \<lparr>mlSize = b ! 0\<rparr>)"

interpretation mall_open_packet: exact_packet HeaderMallOpen "\<lambda>_. True"
    EncodeMallOpen DecodeMallOpen
  by unfold_locales (auto simp: EncodeMallOpen_def DecodeMallOpen_def packet_simps intro!: MallOpenPacket.equality split: if_splits)

section \<open>Items on the ground\<close>

record GroundAddPacket =
  gaVID :: u32
  gaVnum :: u32
  gaCount :: u32
  gaX :: i32
  gaY :: i32
  gaZ :: i32

text \<open>A pile of gold carries its count in four more bytes; a count of zero is not sent.\<close>

definition EncodeGroundAdd :: "GroundAddPacket \<Rightarrow> u8 list" where
  "EncodeGroundAdd p = Encode HeaderGroundAdd
     (put_u32 (gaX p) @ put_u32 (gaY p) @ put_u32 (gaZ p) @ put_u32 (gaVID p) @ put_u32 (gaVnum p) @
      (if gaCount p \<noteq> 0 then put_u32 (gaCount p) else []))"

definition DecodeGroundAdd :: "frame \<Rightarrow> packet_error + GroundAddPacket" where
  "DecodeGroundAdd f =
     (if Header f \<noteq> HeaderGroundAdd then Inl ErrUnexpectedHeader
      else if length (Payload f) \<noteq> groundAddPayloadSize \<and>
              length (Payload f) \<noteq> groundAddGoldCountPayloadSize then Inl ErrInvalidPayload
      else let b = Payload f in Inr
          \<lparr>gaVID = get_u32 (drop 12 b), gaVnum = get_u32 (drop 16 b),
           gaCount = (if length b = groundAddGoldCountPayloadSize then get_u32 (drop 20 b) else 0),
           gaX = get_u32 b, gaY = get_u32 (drop 4 b), gaZ = get_u32 (drop 8 b)\<rparr>)"

interpretation ground_add_packet: packet_codec HeaderGroundAdd "\<lambda>_. True" EncodeGroundAdd DecodeGroundAdd
  by unfold_locales (auto simp: EncodeGroundAdd_def DecodeGroundAdd_def packet_simps
      intro!: GroundAddPacket.equality)

record GroundDelPacket =
  gdVID :: u32

definition EncodeGroundDel :: "GroundDelPacket \<Rightarrow> u8 list" where
  "EncodeGroundDel p =
     Encode HeaderGroundDel (put_u32 (gdVID p))"

definition DecodeGroundDel :: "frame \<Rightarrow> packet_error + GroundDelPacket" where
  "DecodeGroundDel f =
     (if Header f \<noteq> HeaderGroundDel then Inl ErrUnexpectedHeader
      else if length (Payload f) \<noteq> groundDelPayloadSize then Inl ErrInvalidPayload
      else let b = Payload f in Inr
          \<lparr>gdVID = get_u32 b\<rparr>)"

interpretation ground_del_packet: exact_packet HeaderGroundDel "\<lambda>_. True"
    EncodeGroundDel DecodeGroundDel
  by unfold_locales (auto simp: EncodeGroundDel_def DecodeGroundDel_def packet_simps intro!: GroundDelPacket.equality split: if_splits)

text \<open>Names of owners are cut to their field of 25 bytes.\<close>

record OwnershipPacket =
  owVID :: u32
  owOwnerName :: string

definition EncodeOwnership :: "OwnershipPacket \<Rightarrow> u8 list" where
  "EncodeOwnership p = Encode HeaderOwnership
     (put_u32 (owVID p) @ copy_into ownerNameFieldSize (bytes_of (owOwnerName p)))"

definition DecodeOwnership :: "frame \<Rightarrow> packet_error + OwnershipPacket" where
  "DecodeOwnership f =
     (if Header f \<noteq> HeaderOwnership then Inl ErrUnexpectedHeader
      else if length (Payload f) \<noteq> ownershipPayloadSize then Inl ErrInvalidPayload
      else let b = Payload f in Inr
          \<lparr>owVID = get_u32 b, owOwnerName = parseFixedString (drop 4 b)\<rparr>)"

interpretation ownership_packet: packet_codec HeaderOwnership
    "\<lambda>p. text_fills 25 (owOwnerName p)" EncodeOwnership DecodeOwnership
  by unfold_locales (auto simp: EncodeOwnership_def DecodeOwnership_def packet_simps
      intro!: OwnershipPacket.equality)

record GetPacket =
  gtVnum :: u32
  gtCount :: u8
  gtArg :: u8
  gtFromName :: string

definition EncodeGet :: "GetPacket \<Rightarrow> u8 list" where
  "EncodeGet p = Encode HeaderGet
     (put_u32 (gtVnum p) @ [gtCount p, gtArg p] @ copy_into ownerNameFieldSize (bytes_of (gtFromName p)))"

definition DecodeGet :: "frame \<Rightarrow> packet_error + GetPacket" where
  "DecodeGet f =
     (if Header f \<noteq> HeaderGet then Inl ErrUnexpectedHeader
      else if length (Payload f) \<noteq> getPayloadSize then Inl ErrInvalidPayload
      else let b = Payload f in Inr
          \<lparr>gtVnum = get_u32 b, gtCount = b ! 4, gtArg = b ! 5, gtFromName = parseFixedString (drop 6 b)\<rparr>)"

interpretation get_packet: packet_codec HeaderGet
    "\<lambda>p. text_fills 25 (gtFromName p)" EncodeGet DecodeGet
  by unfold_locales (auto simp: EncodeGet_def DecodeGet_def packet_simps
      intro!: GetPacket.equality)

end
