(* ===== verification/Wire_Shop.thy ===== *)
theory Wire_Shop
  imports Wire_Item
begin

text \<open>
  \<open>internal/proto/shop\<close>: buying and selling, a player's own shop and the catalog windows. The
  server packets, and four of the client's, share one header and are told apart by a subheader.
\<close>

definition HeaderClientShop :: u16 where [packet_simps]: "HeaderClientShop = 0x0801"
definition HeaderClientMyShop :: u16 where [packet_simps]: "HeaderClientMyShop = 0x0802"
definition HeaderServerShop :: u16 where [packet_simps]: "HeaderServerShop = 0x0810"
definition HeaderServerShopSign :: u16 where [packet_simps]: "HeaderServerShopSign = 0x0811"

definition ClientSubheaderEnd :: u8 where [packet_simps]: "ClientSubheaderEnd = 0"
definition ClientSubheaderBuy :: u8 where [packet_simps]: "ClientSubheaderBuy = 1"
definition ClientSubheaderSell :: u8 where [packet_simps]: "ClientSubheaderSell = 2"
definition ClientSubheaderSell2 :: u8 where [packet_simps]: "ClientSubheaderSell2 = 3"
definition ServerSubheaderStart :: u8 where [packet_simps]: "ServerSubheaderStart = 0"
definition ServerSubheaderEnd :: u8 where [packet_simps]: "ServerSubheaderEnd = 1"
definition ServerSubheaderUpdateItem :: u8 where [packet_simps]: "ServerSubheaderUpdateItem = 2"
definition ServerSubheaderUpdatePrice :: u8 where [packet_simps]: "ServerSubheaderUpdatePrice = 3"
definition ServerSubheaderOK :: u8 where [packet_simps]: "ServerSubheaderOK = 4"
definition ServerSubheaderNotEnoughMoney :: u8 where [packet_simps]: "ServerSubheaderNotEnoughMoney = 5"
definition ServerSubheaderSoldout :: u8 where [packet_simps]: "ServerSubheaderSoldout = 6"
definition ServerSubheaderInventoryFull :: u8 where [packet_simps]: "ServerSubheaderInventoryFull = 7"
definition ServerSubheaderInvalidPos :: u8 where [packet_simps]: "ServerSubheaderInvalidPos = 8"
definition ServerSubheaderSoldOut :: u8 where [packet_simps]: "ServerSubheaderSoldOut = 9"
definition ServerSubheaderStartEx :: u8 where [packet_simps]: "ServerSubheaderStartEx = 10"
definition ServerSubheaderNotEnoughMoneyEx :: u8 where [packet_simps]: "ServerSubheaderNotEnoughMoneyEx = 11"

definition ShopHostItemMax :: nat where [packet_simps]: "ShopHostItemMax = 40"
definition ShopTabNameMax :: nat where [packet_simps]: "ShopTabNameMax = 32"
definition ShopSignMax :: nat where [packet_simps]: "ShopSignMax = 32"
definition MyShopItemTableSize :: nat where [packet_simps]: "MyShopItemTableSize = 13"
definition itemEntrySize :: nat where [packet_simps]: "itemEntrySize = 43"
definition shopTabSize :: nat where [packet_simps]: "shopTabSize = 1753"
definition clientBuyPayloadSize :: nat where [packet_simps]: "clientBuyPayloadSize = 3"
definition clientEndPayloadSize :: nat where [packet_simps]: "clientEndPayloadSize = 1"
definition clientSellPayloadSize :: nat where [packet_simps]: "clientSellPayloadSize = 2"
definition clientSell2PayloadSize :: nat where [packet_simps]: "clientSell2PayloadSize = 3"
definition clientMyShopFixedPayloadSize :: nat where [packet_simps]: "clientMyShopFixedPayloadSize = 34"
definition serverShopSignPayloadSize :: nat where [packet_simps]: "serverShopSignPayloadSize = 37"
definition serverStartPayloadSize :: nat where [packet_simps]: "serverStartPayloadSize = 1725"
definition serverStartExFixedSize :: nat where [packet_simps]: "serverStartExFixedSize = 6"
definition serverUpdateItemPayloadSize :: nat where [packet_simps]: "serverUpdateItemPayloadSize = 45"
definition serverUpdatePricePayloadSize :: nat where [packet_simps]: "serverUpdatePricePayloadSize = 5"
definition serverEndPayloadSize :: nat where [packet_simps]: "serverEndPayloadSize = 1"

lemma sub_join [packet_simps]:
  "b ! 0 = s \<Longrightarrow> 0 < length b \<Longrightarrow> s # drop (Suc 0) b = b"
  "b ! 0 = s \<Longrightarrow> length b = Suc 0 \<Longrightarrow> [s] = b"
  by (cases b; auto)+

section \<open>Requests\<close>

record ClientBuyPacket =
  sbRawLeadingByte :: u8
  sbCatalogSlot :: u8

definition EncodeClientBuy :: "ClientBuyPacket \<Rightarrow> u8 list" where
  "EncodeClientBuy p =
     Encode HeaderClientShop ([ClientSubheaderBuy, sbRawLeadingByte p, sbCatalogSlot p])"

definition DecodeClientBuy :: "frame \<Rightarrow> packet_error + ClientBuyPacket" where
  "DecodeClientBuy f =
     (if Header f \<noteq> HeaderClientShop then Inl ErrUnexpectedHeader
      else if length (Payload f) \<noteq> clientBuyPayloadSize then Inl ErrInvalidPayload
      else if Payload f ! 0 \<noteq> ClientSubheaderBuy then Inl ErrUnexpectedSubheader
      else let b = Payload f in Inr
          \<lparr>sbRawLeadingByte = b ! 1, sbCatalogSlot = b ! 2\<rparr>)"

interpretation client_buy_packet: exact_packet HeaderClientShop "\<lambda>_. True"
    EncodeClientBuy DecodeClientBuy
  by unfold_locales (auto simp: EncodeClientBuy_def DecodeClientBuy_def packet_simps intro!: ClientBuyPacket.equality split: if_splits)

record ClientSellPacket =
  ssSlot :: u8

definition EncodeClientSell :: "ClientSellPacket \<Rightarrow> u8 list" where
  "EncodeClientSell p =
     Encode HeaderClientShop ([ClientSubheaderSell, ssSlot p])"

definition DecodeClientSell :: "frame \<Rightarrow> packet_error + ClientSellPacket" where
  "DecodeClientSell f =
     (if Header f \<noteq> HeaderClientShop then Inl ErrUnexpectedHeader
      else if length (Payload f) \<noteq> clientSellPayloadSize then Inl ErrInvalidPayload
      else if Payload f ! 0 \<noteq> ClientSubheaderSell then Inl ErrUnexpectedSubheader
      else let b = Payload f in Inr
          \<lparr>ssSlot = b ! 1\<rparr>)"

interpretation client_sell_packet: exact_packet HeaderClientShop "\<lambda>_. True"
    EncodeClientSell DecodeClientSell
  by unfold_locales (auto simp: EncodeClientSell_def DecodeClientSell_def packet_simps intro!: ClientSellPacket.equality split: if_splits)

record ClientSell2Packet =
  sxSlot :: u8
  sxCount :: u8

definition EncodeClientSell2 :: "ClientSell2Packet \<Rightarrow> u8 list" where
  "EncodeClientSell2 p =
     Encode HeaderClientShop ([ClientSubheaderSell2, sxSlot p, sxCount p])"

definition DecodeClientSell2 :: "frame \<Rightarrow> packet_error + ClientSell2Packet" where
  "DecodeClientSell2 f =
     (if Header f \<noteq> HeaderClientShop then Inl ErrUnexpectedHeader
      else if length (Payload f) \<noteq> clientSell2PayloadSize then Inl ErrInvalidPayload
      else if Payload f ! 0 \<noteq> ClientSubheaderSell2 then Inl ErrUnexpectedSubheader
      else let b = Payload f in Inr
          \<lparr>sxSlot = b ! 1, sxCount = b ! 2\<rparr>)"

interpretation client_sell2_packet: exact_packet HeaderClientShop "\<lambda>_. True"
    EncodeClientSell2 DecodeClientSell2
  by unfold_locales (auto simp: EncodeClientSell2_def DecodeClientSell2_def packet_simps intro!: ClientSell2Packet.equality split: if_splits)

definition EncodeClientEnd :: "u8 list" where
  "EncodeClientEnd = Encode HeaderClientShop [ClientSubheaderEnd]"

definition DecodeClientEnd :: "frame \<Rightarrow> packet_error + unit" where
  "DecodeClientEnd f =
     (if Header f \<noteq> HeaderClientShop then Inl ErrUnexpectedHeader
      else if length (Payload f) \<noteq> clientEndPayloadSize then Inl ErrInvalidPayload
      else if Payload f ! 0 \<noteq> ClientSubheaderEnd then Inl ErrUnexpectedSubheader
      else Inr ())"

interpretation client_end_packet: exact_packet HeaderClientShop "\<lambda>_. True" "\<lambda>_. EncodeClientEnd" DecodeClientEnd
  by unfold_locales (auto simp: EncodeClientEnd_def DecodeClientEnd_def packet_simps split: if_splits)

section \<open>A player's own shop\<close>

record ClientMyShopItem =
  msVnum :: u32
  msCount :: u8
  msPosition :: wire_position
  msPrice :: u32
  msDisplayPos :: u8

record ClientMyShopPacket =
  mySign :: string
  myItems :: "ClientMyShopItem list"

definition encodeMyShopItemTable :: "ClientMyShopItem \<Rightarrow> u8 list" where
  "encodeMyShopItemTable i =
     put_u32 (msVnum i) @ [msCount i, poWindowType (msPosition i)] @ put_u16 (poCell (msPosition i)) @
     put_u32 (msPrice i) @ [msDisplayPos i]"

definition decodeMyShopItemTable :: "u8 list \<Rightarrow> ClientMyShopItem" where
  "decodeMyShopItemTable src =
     \<lparr>msVnum = get_u32 src, msCount = src ! 4,
      msPosition = \<lparr>poWindowType = src ! 5, poCell = get_u16 (drop 6 src)\<rparr>,
      msPrice = get_u32 (drop 8 src), msDisplayPos = src ! 12\<rparr>"

interpretation myshop_item_codec: fixed_codec encodeMyShopItemTable decodeMyShopItemTable 13 "\<lambda>_. True"
  by unfold_locales (auto simp: encodeMyShopItemTable_def decodeMyShopItemTable_def packet_simps
      intro!: ClientMyShopItem.equality)

declare myshop_item_codec.array_read [packet_simps]

text \<open>\<open>uint8(len(packet.Items))\<close> wraps; the sign is cut to its field.\<close>

definition EncodeClientMyShop :: "ClientMyShopPacket \<Rightarrow> u8 list" where
  "EncodeClientMyShop p = Encode HeaderClientMyShop
     (copy_into (ShopSignMax + 1) (bytes_of (mySign p)) @ [of_nat (length (myItems p))] @
      concat (map encodeMyShopItemTable (myItems p)))"

definition DecodeClientMyShop :: "frame \<Rightarrow> packet_error + ClientMyShopPacket" where
  "DecodeClientMyShop f =
     (if Header f \<noteq> HeaderClientMyShop then Inl ErrUnexpectedHeader
      else if length (Payload f) < clientMyShopFixedPayloadSize then Inl ErrInvalidPayload
      else let b = Payload f; count = unat (b ! (ShopSignMax + 1)) in
        if count > ShopHostItemMax then Inl ErrInvalidPayload
        else if length b \<noteq> clientMyShopFixedPayloadSize + count * MyShopItemTableSize
        then Inl ErrInvalidPayload
        else Inr
          \<lparr>mySign = parseFixedString (take (ShopSignMax + 1) b),
           myItems = decode_each decodeMyShopItemTable MyShopItemTableSize count
             (drop clientMyShopFixedPayloadSize b)\<rparr>)"

interpretation client_my_shop_packet: packet_codec HeaderClientMyShop
    "\<lambda>p. text_fills 33 (mySign p) \<and> length (myItems p) \<le> 40" EncodeClientMyShop DecodeClientMyShop
  by unfold_locales (auto simp: EncodeClientMyShop_def DecodeClientMyShop_def unat_of_nat packet_simps
      intro!: ClientMyShopPacket.equality)

record ServerShopSignPacket =
  sgVID :: u32
  sgSign :: string

definition EncodeServerShopSign :: "ServerShopSignPacket \<Rightarrow> u8 list" where
  "EncodeServerShopSign p = Encode HeaderServerShopSign
     (put_u32 (sgVID p) @ copy_into (ShopSignMax + 1) (bytes_of (sgSign p)))"

definition DecodeServerShopSign :: "frame \<Rightarrow> packet_error + ServerShopSignPacket" where
  "DecodeServerShopSign f =
     (if Header f \<noteq> HeaderServerShopSign then Inl ErrUnexpectedHeader
      else if length (Payload f) \<noteq> serverShopSignPayloadSize then Inl ErrInvalidPayload
      else let b = Payload f in Inr
          \<lparr>sgVID = get_u32 b, sgSign = parseFixedString (take (ShopSignMax + 1) (drop 4 b))\<rparr>)"

interpretation server_shop_sign_packet: packet_codec HeaderServerShopSign
    "\<lambda>p. text_fills 33 (sgSign p)" EncodeServerShopSign DecodeServerShopSign
  by unfold_locales (auto simp: EncodeServerShopSign_def DecodeServerShopSign_def packet_simps
      intro!: ServerShopSignPacket.equality)

section \<open>Catalogs\<close>

record ItemEntry =
  ieVnum :: u32
  iePrice :: u32
  ieyCount :: u8
  ieDisplayPos :: u8
  ieSockets :: "i32 list"
  ieAttributes :: "wire_attribute list"

definition encodeItemEntry :: "ItemEntry \<Rightarrow> u8 list" where
  "encodeItemEntry i =
     put_u32 (ieVnum i) @ put_u32 (iePrice i) @ [ieyCount i, ieDisplayPos i] @
     concat (map put_u32 (ieSockets i)) @ concat (map put_attribute (ieAttributes i))"

definition decodeItemEntry :: "u8 list \<Rightarrow> ItemEntry" where
  "decodeItemEntry src =
     \<lparr>ieVnum = get_u32 src, iePrice = get_u32 (drop 4 src), ieyCount = src ! 8, ieDisplayPos = src ! 9,
      ieSockets = decode_each get_u32 4 3 (drop 10 src),
      ieAttributes = decode_each get_attribute 3 7 (drop 22 src)\<rparr>"

definition entry_ok :: "ItemEntry \<Rightarrow> bool" where
  "entry_ok i \<longleftrightarrow> length (ieSockets i) = 3 \<and> length (ieAttributes i) = 7"

interpretation entry_codec: fixed_codec encodeItemEntry decodeItemEntry 43 entry_ok
  by unfold_locales (auto simp: encodeItemEntry_def decodeItemEntry_def entry_ok_def packet_simps
      intro!: ItemEntry.equality)

declare entry_codec.array_read [packet_simps] entry_codec.enc_length [packet_simps]
  entry_codec.dec_enc_alone [packet_simps]

record ServerStartPacket =
  srOwnerVID :: u32
  srItems :: "ItemEntry list"

definition EncodeServerStart :: "ServerStartPacket \<Rightarrow> u8 list" where
  "EncodeServerStart p = Encode HeaderServerShop
     ([ServerSubheaderStart] @ put_u32 (srOwnerVID p) @ concat (map encodeItemEntry (srItems p)))"

definition DecodeServerStart :: "frame \<Rightarrow> packet_error + ServerStartPacket" where
  "DecodeServerStart f =
     (if Header f \<noteq> HeaderServerShop then Inl ErrUnexpectedHeader
      else if length (Payload f) \<noteq> serverStartPayloadSize then Inl ErrInvalidPayload
      else if Payload f ! 0 \<noteq> ServerSubheaderStart then Inl ErrUnexpectedSubheader
      else let b = Payload f in Inr
          \<lparr>srOwnerVID = get_u32 (drop 1 b),
           srItems = decode_each decodeItemEntry itemEntrySize ShopHostItemMax (drop 5 b)\<rparr>)"

definition shop_items_ok :: "ItemEntry list \<Rightarrow> bool" where
  "shop_items_ok is \<longleftrightarrow> length is = 40 \<and> (\<forall>i \<in> set is. entry_ok i)"

interpretation server_start_packet: packet_codec HeaderServerShop
    "\<lambda>p. shop_items_ok (srItems p)" EncodeServerStart DecodeServerStart
  by unfold_locales (auto simp: EncodeServerStart_def DecodeServerStart_def shop_items_ok_def packet_simps
      intro!: ServerStartPacket.equality)

record ShopTab =
  tbName :: string
  tbCoinType :: u8
  tbItems :: "ItemEntry list"

record ServerStartExPacket =
  exOwnerVID :: u32
  exTabs :: "ShopTab list"

definition encodeShopTab :: "ShopTab \<Rightarrow> u8 list" where
  "encodeShopTab t =
     copy_into ShopTabNameMax (bytes_of (tbName t)) @ [tbCoinType t] @ concat (map encodeItemEntry (tbItems t))"

definition decodeShopTab :: "u8 list \<Rightarrow> ShopTab" where
  "decodeShopTab src =
     \<lparr>tbName = parseFixedString (take ShopTabNameMax src), tbCoinType = src ! ShopTabNameMax,
      tbItems = decode_each decodeItemEntry itemEntrySize ShopHostItemMax (drop (ShopTabNameMax + 1) src)\<rparr>"

definition tab_ok :: "ShopTab \<Rightarrow> bool" where
  "tab_ok t \<longleftrightarrow> text_fills 32 (tbName t) \<and> shop_items_ok (tbItems t)"

interpretation tab_codec: fixed_codec encodeShopTab decodeShopTab 1753 tab_ok
  by unfold_locales (auto simp: encodeShopTab_def decodeShopTab_def tab_ok_def shop_items_ok_def packet_simps
      intro!: ShopTab.equality)

declare tab_codec.array_read [packet_simps]

definition EncodeServerStartEx :: "ServerStartExPacket \<Rightarrow> u8 list" where
  "EncodeServerStartEx p = Encode HeaderServerShop
     ([ServerSubheaderStartEx] @ put_u32 (exOwnerVID p) @ [of_nat (length (exTabs p))] @
      concat (map encodeShopTab (exTabs p)))"

definition DecodeServerStartEx :: "frame \<Rightarrow> packet_error + ServerStartExPacket" where
  "DecodeServerStartEx f =
     (if Header f \<noteq> HeaderServerShop then Inl ErrUnexpectedHeader
      else if length (Payload f) < serverStartExFixedSize then Inl ErrInvalidPayload
      else if Payload f ! 0 \<noteq> ServerSubheaderStartEx then Inl ErrUnexpectedSubheader
      else let b = Payload f; tabCount = unat (b ! 5) in
        if length b \<noteq> serverStartExFixedSize + tabCount * shopTabSize then Inl ErrInvalidPayload
        else Inr
          \<lparr>exOwnerVID = get_u32 (drop 1 b),
           exTabs = decode_each decodeShopTab shopTabSize tabCount (drop 6 b)\<rparr>)"

interpretation server_start_ex_packet: packet_codec HeaderServerShop
    "\<lambda>p. length (exTabs p) < 38 \<and> (\<forall>t \<in> set (exTabs p). tab_ok t)" EncodeServerStartEx DecodeServerStartEx
  by unfold_locales (auto simp: EncodeServerStartEx_def DecodeServerStartEx_def unat_of_nat packet_simps
      intro!: ServerStartExPacket.equality)

record ServerUpdateItemPacket =
  uiPosition :: u8
  uiItem :: ItemEntry

definition EncodeServerUpdateItem :: "ServerUpdateItemPacket \<Rightarrow> u8 list" where
  "EncodeServerUpdateItem p = Encode HeaderServerShop
     ([ServerSubheaderUpdateItem, uiPosition p] @ encodeItemEntry (uiItem p))"

definition DecodeServerUpdateItem :: "frame \<Rightarrow> packet_error + ServerUpdateItemPacket" where
  "DecodeServerUpdateItem f =
     (if Header f \<noteq> HeaderServerShop then Inl ErrUnexpectedHeader
      else if length (Payload f) \<noteq> serverUpdateItemPayloadSize then Inl ErrInvalidPayload
      else if Payload f ! 0 \<noteq> ServerSubheaderUpdateItem then Inl ErrUnexpectedSubheader
      else let b = Payload f in Inr \<lparr>uiPosition = b ! 1, uiItem = decodeItemEntry (drop 2 b)\<rparr>)"

interpretation server_update_item_packet: packet_codec HeaderServerShop
    "\<lambda>p. entry_ok (uiItem p)" EncodeServerUpdateItem DecodeServerUpdateItem
  by unfold_locales (auto simp: EncodeServerUpdateItem_def DecodeServerUpdateItem_def packet_simps
      intro!: ServerUpdateItemPacket.equality)

record ServerUpdatePricePacket =
  ueElkAmount :: i32

definition EncodeServerUpdatePrice :: "ServerUpdatePricePacket \<Rightarrow> u8 list" where
  "EncodeServerUpdatePrice p =
     Encode HeaderServerShop ([ServerSubheaderUpdatePrice] @ put_u32 (ueElkAmount p))"

definition DecodeServerUpdatePrice :: "frame \<Rightarrow> packet_error + ServerUpdatePricePacket" where
  "DecodeServerUpdatePrice f =
     (if Header f \<noteq> HeaderServerShop then Inl ErrUnexpectedHeader
      else if length (Payload f) \<noteq> serverUpdatePricePayloadSize then Inl ErrInvalidPayload
      else if Payload f ! 0 \<noteq> ServerSubheaderUpdatePrice then Inl ErrUnexpectedSubheader
      else let b = Payload f in Inr
          \<lparr>ueElkAmount = get_u32 (drop 1 b)\<rparr>)"

interpretation server_update_price_packet: exact_packet HeaderServerShop "\<lambda>_. True"
    EncodeServerUpdatePrice DecodeServerUpdatePrice
  by unfold_locales (auto simp: EncodeServerUpdatePrice_def DecodeServerUpdatePrice_def packet_simps intro!: ServerUpdatePricePacket.equality split: if_splits)

section \<open>Bare answers\<close>

definition decodeServerBareSubheader :: "frame \<Rightarrow> u8 \<Rightarrow> packet_error + unit" where
  "decodeServerBareSubheader f subheader =
     (if Header f \<noteq> HeaderServerShop then Inl ErrUnexpectedHeader
      else if length (Payload f) \<noteq> serverEndPayloadSize then Inl ErrInvalidPayload
      else if Payload f ! 0 \<noteq> subheader then Inl ErrUnexpectedSubheader
      else Inr ())"

lemma bare_subheader:
  "exact_packet HeaderServerShop (\<lambda>_. True) (\<lambda>_. Encode HeaderServerShop [s])
     (\<lambda>f. decodeServerBareSubheader f s)"
  by unfold_locales (auto simp: decodeServerBareSubheader_def packet_simps split: if_splits)

definition EncodeServerEnd :: "u8 list" where
  "EncodeServerEnd = Encode HeaderServerShop [ServerSubheaderEnd]"

definition DecodeServerEnd :: "frame \<Rightarrow> packet_error + unit" where
  "DecodeServerEnd f = decodeServerBareSubheader f ServerSubheaderEnd"

interpretation server_end_packet: exact_packet HeaderServerShop "\<lambda>_. True"
    "\<lambda>_. EncodeServerEnd" DecodeServerEnd
  unfolding EncodeServerEnd_def DecodeServerEnd_def by (rule bare_subheader)

definition EncodeServerOK :: "u8 list" where
  "EncodeServerOK = Encode HeaderServerShop [ServerSubheaderOK]"

definition DecodeServerOK :: "frame \<Rightarrow> packet_error + unit" where
  "DecodeServerOK f = decodeServerBareSubheader f ServerSubheaderOK"

interpretation server_ok_packet: exact_packet HeaderServerShop "\<lambda>_. True"
    "\<lambda>_. EncodeServerOK" DecodeServerOK
  unfolding EncodeServerOK_def DecodeServerOK_def by (rule bare_subheader)

definition EncodeServerNotEnoughMoney :: "u8 list" where
  "EncodeServerNotEnoughMoney = Encode HeaderServerShop [ServerSubheaderNotEnoughMoney]"

definition DecodeServerNotEnoughMoney :: "frame \<Rightarrow> packet_error + unit" where
  "DecodeServerNotEnoughMoney f = decodeServerBareSubheader f ServerSubheaderNotEnoughMoney"

interpretation server_not_enough_money_packet: exact_packet HeaderServerShop "\<lambda>_. True"
    "\<lambda>_. EncodeServerNotEnoughMoney" DecodeServerNotEnoughMoney
  unfolding EncodeServerNotEnoughMoney_def DecodeServerNotEnoughMoney_def by (rule bare_subheader)

definition EncodeServerSoldout :: "u8 list" where
  "EncodeServerSoldout = Encode HeaderServerShop [ServerSubheaderSoldout]"

definition DecodeServerSoldout :: "frame \<Rightarrow> packet_error + unit" where
  "DecodeServerSoldout f = decodeServerBareSubheader f ServerSubheaderSoldout"

interpretation server_soldout_packet: exact_packet HeaderServerShop "\<lambda>_. True"
    "\<lambda>_. EncodeServerSoldout" DecodeServerSoldout
  unfolding EncodeServerSoldout_def DecodeServerSoldout_def by (rule bare_subheader)

definition EncodeServerInventoryFull :: "u8 list" where
  "EncodeServerInventoryFull = Encode HeaderServerShop [ServerSubheaderInventoryFull]"

definition DecodeServerInventoryFull :: "frame \<Rightarrow> packet_error + unit" where
  "DecodeServerInventoryFull f = decodeServerBareSubheader f ServerSubheaderInventoryFull"

interpretation server_inventory_full_packet: exact_packet HeaderServerShop "\<lambda>_. True"
    "\<lambda>_. EncodeServerInventoryFull" DecodeServerInventoryFull
  unfolding EncodeServerInventoryFull_def DecodeServerInventoryFull_def by (rule bare_subheader)

definition EncodeServerInvalidPos :: "u8 list" where
  "EncodeServerInvalidPos = Encode HeaderServerShop [ServerSubheaderInvalidPos]"

definition DecodeServerInvalidPos :: "frame \<Rightarrow> packet_error + unit" where
  "DecodeServerInvalidPos f = decodeServerBareSubheader f ServerSubheaderInvalidPos"

interpretation server_invalid_pos_packet: exact_packet HeaderServerShop "\<lambda>_. True"
    "\<lambda>_. EncodeServerInvalidPos" DecodeServerInvalidPos
  unfolding EncodeServerInvalidPos_def DecodeServerInvalidPos_def by (rule bare_subheader)

definition EncodeServerSoldOut :: "u8 list" where
  "EncodeServerSoldOut = Encode HeaderServerShop [ServerSubheaderSoldOut]"

definition DecodeServerSoldOut :: "frame \<Rightarrow> packet_error + unit" where
  "DecodeServerSoldOut f = decodeServerBareSubheader f ServerSubheaderSoldOut"

interpretation server_sold_out_packet: exact_packet HeaderServerShop "\<lambda>_. True"
    "\<lambda>_. EncodeServerSoldOut" DecodeServerSoldOut
  unfolding EncodeServerSoldOut_def DecodeServerSoldOut_def by (rule bare_subheader)

definition EncodeServerNotEnoughMoneyEx :: "u8 list" where
  "EncodeServerNotEnoughMoneyEx = Encode HeaderServerShop [ServerSubheaderNotEnoughMoneyEx]"

definition DecodeServerNotEnoughMoneyEx :: "frame \<Rightarrow> packet_error + unit" where
  "DecodeServerNotEnoughMoneyEx f = decodeServerBareSubheader f ServerSubheaderNotEnoughMoneyEx"

interpretation server_not_enough_money_ex_packet: exact_packet HeaderServerShop "\<lambda>_. True"
    "\<lambda>_. EncodeServerNotEnoughMoneyEx" DecodeServerNotEnoughMoneyEx
  unfolding EncodeServerNotEnoughMoneyEx_def DecodeServerNotEnoughMoneyEx_def by (rule bare_subheader)

end
