(* ===== verification/Flow_Game.thy ===== *)
theory Flow_Game
  imports Flow Wire_Move Wire_Chat Wire_Combat Wire_Shop
begin

text \<open>
  \<open>internal/game/flow.go\<close>: what a connection in phase \<open>GAME\<close> does with the frames of its client. Every
  kind of packet has a callback; the callbacks left out refuse. The reference is \<open>respond\<close>, which
  goes by the packet instead of its bytes.
\<close>

section \<open>Configuration\<close>

text \<open>A \<open>nil\<close> slice of frames in the first two results asks for the acknowledgement instead.\<close>

record game_move_result =
  mvAccepted :: bool
  mvReplication :: MoveAckPacket
  mvFrames :: "u8 list list option"

record sync_position_result =
  snAccepted :: bool
  snSynchronization :: SyncPositionPacket
  snFrames :: "u8 list list option"

record chat_result =
  crAccepted :: bool
  crDelivery :: "ChatDeliveryPacket option"
  crFrames :: "u8 list list"
  crNextPhase :: phase

record whisper_result =
  wrAccepted :: bool
  wrDelivery :: "ServerWhisperPacket option"

definition empty_ack :: MoveAckPacket where
  "empty_ack = \<lparr>maFunc = 0, maArg = 0, maRot = 0, maVID = 0, maX = 0, maY = 0, maTime = 0, maDuration = 0\<rparr>"

definition no_phase :: phase where
  "no_phase = PhaseOther []"

record 'w game_config =
  HandleMove :: "('w, MovePacket, game_move_result) handler option"
  HandleSyncPosition :: "('w, SyncPositionPacket, sync_position_result) handler option"
  HandleChat :: "('w, ClientChatPacket, chat_result) handler option"
  HandleWhisper :: "('w, ClientWhisperPacket, whisper_result) handler option"
  HandleInteraction :: "('w, RequestPacket, frames_result) handler option"
  HandleTarget :: "('w, ClientTargetPacket, frames_result) handler option"
  HandleAttack :: "('w, ClientAttackPacket, frames_result) handler option"
  HandleUseSkill :: "('w, ClientUseSkillPacket, frames_result) handler option"
  HandleShoot :: "('w, ClientShootPacket, frames_result) handler option"
  HandleFlyTargeting :: "('w, ClientFlyTargetingPacket, frames_result) handler option"
  HandleAddFlyTargeting :: "('w, ClientFlyTargetingPacket, frames_result) handler option"
  HandleOnClick :: "('w, ClientOnClickPacket, frames_result) handler option"
  HandleCharacterPosition :: "('w, ClientCharacterPositionPacket, frames_result) handler option"
  HandleItemUse :: "('w, ClientUsePacket, frames_result) handler option"
  HandleItemUseToItem :: "('w, ClientUseToItemPacket, frames_result) handler option"
  HandleItemDrop :: "('w, ClientDropPacket, frames_result) handler option"
  HandleItemDrop2 :: "('w, ClientDrop2Packet, frames_result) handler option"
  HandleItemMove :: "('w, ClientMovePacket, frames_result) handler option"
  HandleItemPickup :: "('w, ClientPickupPacket, frames_result) handler option"
  HandleItemGive :: "('w, ClientGivePacket, frames_result) handler option"
  HandleItemExchange :: "('w, ClientExchangePacket, frames_result) handler option"
  HandleItemRefine :: "('w, ClientRefinePacket, frames_result) handler option"
  HandleSafeboxCheckin :: "('w, ClientSafeboxCheckinPacket, frames_result) handler option"
  HandleSafeboxCheckout :: "('w, ClientSafeboxCheckoutPacket, frames_result) handler option"
  HandleSafeboxItemMove :: "('w, ClientSafeboxItemMovePacket, frames_result) handler option"
  HandleMallCheckout :: "('w, ClientMallCheckoutPacket, frames_result) handler option"
  HandleQuickslotAdd :: "('w, QuickslotAddPacket, frames_result) handler option"
  HandleQuickslotDel :: "('w, QuickslotDelPacket, frames_result) handler option"
  HandleQuickslotSwap :: "('w, QuickslotSwapPacket, frames_result) handler option"
  HandleShopBuy :: "('w, ClientBuyPacket, frames_result) handler option"
  HandleShopClose :: "('w, unit, frames_result) handler option"
  HandleShopSell :: "('w, ClientSellPacket, frames_result) handler option"
  HandleShopSell2 :: "('w, ClientSell2Packet, frames_result) handler option"
  HandleMyShop :: "('w, ClientMyShopPacket, frames_result) handler option"

record 'w game_flow =
  handleMove :: "('w, MovePacket, game_move_result) handler"
  handleSyncPosition :: "('w, SyncPositionPacket, sync_position_result) handler"
  handleChat :: "('w, ClientChatPacket, chat_result) handler"
  handleWhisper :: "('w, ClientWhisperPacket, whisper_result) handler"
  handleInteraction :: "('w, RequestPacket, frames_result) handler"
  handleTarget :: "('w, ClientTargetPacket, frames_result) handler"
  handleAttack :: "('w, ClientAttackPacket, frames_result) handler"
  handleUseSkill :: "('w, ClientUseSkillPacket, frames_result) handler"
  handleShoot :: "('w, ClientShootPacket, frames_result) handler"
  handleFlyTargeting :: "('w, ClientFlyTargetingPacket, frames_result) handler"
  handleAddFlyTargeting :: "('w, ClientFlyTargetingPacket, frames_result) handler"
  handleOnClick :: "('w, ClientOnClickPacket, frames_result) handler"
  handleCharacterPosition :: "('w, ClientCharacterPositionPacket, frames_result) handler"
  handleItemUse :: "('w, ClientUsePacket, frames_result) handler"
  handleItemUseToItem :: "('w, ClientUseToItemPacket, frames_result) handler"
  handleItemDrop :: "('w, ClientDropPacket, frames_result) handler"
  handleItemDrop2 :: "('w, ClientDrop2Packet, frames_result) handler"
  handleItemMove :: "('w, ClientMovePacket, frames_result) handler"
  handleItemPickup :: "('w, ClientPickupPacket, frames_result) handler"
  handleItemGive :: "('w, ClientGivePacket, frames_result) handler"
  handleItemExchange :: "('w, ClientExchangePacket, frames_result) handler"
  handleItemRefine :: "('w, ClientRefinePacket, frames_result) handler"
  handleSafeboxCheckin :: "('w, ClientSafeboxCheckinPacket, frames_result) handler"
  handleSafeboxCheckout :: "('w, ClientSafeboxCheckoutPacket, frames_result) handler"
  handleSafeboxItemMove :: "('w, ClientSafeboxItemMovePacket, frames_result) handler"
  handleMallCheckout :: "('w, ClientMallCheckoutPacket, frames_result) handler"
  handleQuickslotAdd :: "('w, QuickslotAddPacket, frames_result) handler"
  handleQuickslotDel :: "('w, QuickslotDelPacket, frames_result) handler"
  handleQuickslotSwap :: "('w, QuickslotSwapPacket, frames_result) handler"
  handleShopBuy :: "('w, ClientBuyPacket, frames_result) handler"
  handleShopClose :: "('w, unit, frames_result) handler"
  handleShopSell :: "('w, ClientSellPacket, frames_result) handler"
  handleShopSell2 :: "('w, ClientSell2Packet, frames_result) handler"
  handleMyShop :: "('w, ClientMyShopPacket, frames_result) handler"

definition game_NewFlow :: "'w game_config \<Rightarrow> 'w game_flow" where
  "game_NewFlow cfg =
     \<lparr>handleMove = handler_or (\<lparr>mvAccepted = False, mvReplication = empty_ack, mvFrames = None\<rparr>) (HandleMove cfg),
      handleSyncPosition = handler_or (\<lparr>snAccepted = False, snSynchronization = \<lparr>spElements = []\<rparr>, snFrames = None\<rparr>) (HandleSyncPosition cfg),
      handleChat = handler_or (\<lparr>crAccepted = False, crDelivery = None, crFrames = [], crNextPhase = no_phase\<rparr>) (HandleChat cfg),
      handleWhisper = handler_or (\<lparr>wrAccepted = False, wrDelivery = None\<rparr>) (HandleWhisper cfg),
      handleInteraction = handler_or refused_frames (HandleInteraction cfg),
      handleTarget = handler_or refused_frames (HandleTarget cfg),
      handleAttack = handler_or refused_frames (HandleAttack cfg),
      handleUseSkill = handler_or refused_frames (HandleUseSkill cfg),
      handleShoot = handler_or refused_frames (HandleShoot cfg),
      handleFlyTargeting = handler_or refused_frames (HandleFlyTargeting cfg),
      handleAddFlyTargeting = handler_or refused_frames (HandleAddFlyTargeting cfg),
      handleOnClick = handler_or refused_frames (HandleOnClick cfg),
      handleCharacterPosition = handler_or refused_frames (HandleCharacterPosition cfg),
      handleItemUse = handler_or refused_frames (HandleItemUse cfg),
      handleItemUseToItem = handler_or refused_frames (HandleItemUseToItem cfg),
      handleItemDrop = handler_or refused_frames (HandleItemDrop cfg),
      handleItemDrop2 = handler_or refused_frames (HandleItemDrop2 cfg),
      handleItemMove = handler_or refused_frames (HandleItemMove cfg),
      handleItemPickup = handler_or refused_frames (HandleItemPickup cfg),
      handleItemGive = handler_or refused_frames (HandleItemGive cfg),
      handleItemExchange = handler_or refused_frames (HandleItemExchange cfg),
      handleItemRefine = handler_or refused_frames (HandleItemRefine cfg),
      handleSafeboxCheckin = handler_or refused_frames (HandleSafeboxCheckin cfg),
      handleSafeboxCheckout = handler_or refused_frames (HandleSafeboxCheckout cfg),
      handleSafeboxItemMove = handler_or refused_frames (HandleSafeboxItemMove cfg),
      handleMallCheckout = handler_or refused_frames (HandleMallCheckout cfg),
      handleQuickslotAdd = handler_or refused_frames (HandleQuickslotAdd cfg),
      handleQuickslotDel = handler_or refused_frames (HandleQuickslotDel cfg),
      handleQuickslotSwap = handler_or refused_frames (HandleQuickslotSwap cfg),
      handleShopBuy = handler_or refused_frames (HandleShopBuy cfg),
      handleShopClose = handler_or refused_frames (HandleShopClose cfg),
      handleShopSell = handler_or refused_frames (HandleShopSell cfg),
      handleShopSell2 = handler_or refused_frames (HandleShopSell2 cfg),
      handleMyShop = handler_or refused_frames (HandleMyShop cfg)\<rparr>"

section \<open>One frame\<close>

definition reply_move :: "'w game_flow \<Rightarrow> 'w \<Rightarrow> MovePacket \<Rightarrow> 'w \<times> reply" where
  "reply_move f w p =
     (case handleMove f w p of
        (w', r) \<Rightarrow> (w', Inr (if \<not> mvAccepted r then []
                       else case mvFrames r of Some fs \<Rightarrow> fs | None \<Rightarrow> [EncodeMoveAck (mvReplication r)])))"

definition reply_sync_position :: "'w game_flow \<Rightarrow> 'w \<Rightarrow> SyncPositionPacket \<Rightarrow> 'w \<times> reply" where
  "reply_sync_position f w p =
     (case handleSyncPosition f w p of
        (w', r) \<Rightarrow> (w', Inr (if \<not> snAccepted r then []
                       else case snFrames r of Some fs \<Rightarrow> fs
                       | None \<Rightarrow> [EncodeSyncPositionAck (snSynchronization r)])))"

text \<open>A chat command can leave the game; a phase that cannot be entered loses the other frames.\<close>

definition reply_chat :: "'w game_flow \<Rightarrow> state_machine \<Rightarrow> 'w \<Rightarrow> ClientChatPacket \<Rightarrow> state_machine \<times> 'w \<times> reply" where
  "reply_chat f m w p =
     (case handleChat f w p of
        (w', r) \<Rightarrow>
          if \<not> crAccepted r then (m, w', Inr [])
          else
            let delivery = (case crDelivery r of None \<Rightarrow> [] | Some d \<Rightarrow> [EncodeChatDelivery d]) in
            if crNextPhase r = no_phase then (m, w', Inr (crFrames r @ delivery))
            else case EncodePhase (crNextPhase r) of
              Inl e \<Rightarrow> (m, w', Inl (Packet e))
            | Inr phaseRaw \<Rightarrow>
                case Transition m (crNextPhase r) of
                  (m', Some e) \<Rightarrow> (m', w', Inl (Machine e))
                | (m', None) \<Rightarrow> (m', w', Inr (crFrames r @ [phaseRaw] @ delivery)))"

definition reply_whisper :: "'w game_flow \<Rightarrow> 'w \<Rightarrow> ClientWhisperPacket \<Rightarrow> 'w \<times> reply" where
  "reply_whisper f w p =
     (case handleWhisper f w p of
        (w', r) \<Rightarrow> (w', Inr (if \<not> wrAccepted r then []
                       else case wrDelivery r of None \<Rightarrow> [] | Some d \<Rightarrow> [EncodeServerWhisper d])))"

text \<open>Attacks of another type than the normal one are ignored.\<close>

definition reply_attack :: "'w game_flow \<Rightarrow> 'w \<Rightarrow> ClientAttackPacket \<Rightarrow> 'w \<times> reply" where
  "reply_attack f w p =
     (if atAttackType p \<noteq> ClientAttackTypeNormal then (w, Inr [])
      else handle_packet (handleAttack f) w (Inr p))"

text \<open>\<open>if err != nil { return nil, err }\<close> before a reply.\<close>

definition after_decode :: "packet_error + 'p \<Rightarrow> 'w \<Rightarrow> ('p \<Rightarrow> 'w \<times> reply) \<Rightarrow> 'w \<times> reply" where
  "after_decode decoded w k = (case decoded of Inl e \<Rightarrow> (w, Inl (Packet e)) | Inr p \<Rightarrow> k p)"

lemma after_decode_simps [simp]:
  "after_decode (Inl e) w k = (w, Inl (Packet e))" "after_decode (Inr p) w k = k p"
  by (simp_all add: after_decode_def)

text \<open>Item use and interaction share a header and differ in the length of the payload.\<close>

definition handle_use_header :: "'w game_flow \<Rightarrow> 'w \<Rightarrow> frame \<Rightarrow> 'w \<times> reply" where
  "handle_use_header f w fr =
     (if length (Payload fr) = 3 then handle_packet (handleItemUse f) w (DecodeClientUse fr)
      else if length (Payload fr) = 4 then handle_packet (handleInteraction f) w (DecodeRequest fr)
      else (w, Inl (Packet ErrInvalidPayload)))"

text \<open>The shop packets share a header and differ in the first byte of the payload.\<close>

definition handle_shop_header :: "'w game_flow \<Rightarrow> 'w \<Rightarrow> frame \<Rightarrow> 'w \<times> reply" where
  "handle_shop_header f w fr =
     (if length (Payload fr) = 0 then (w, Inl (Packet ErrInvalidPayload))
      else if Payload fr ! 0 = ClientSubheaderEnd then handle_packet (handleShopClose f) w (DecodeClientEnd fr)
      else if Payload fr ! 0 = ClientSubheaderBuy then handle_packet (handleShopBuy f) w (DecodeClientBuy fr)
      else if Payload fr ! 0 = ClientSubheaderSell then handle_packet (handleShopSell f) w (DecodeClientSell fr)
      else if Payload fr ! 0 = ClientSubheaderSell2 then handle_packet (handleShopSell2 f) w (DecodeClientSell2 fr)
      else (w, Inl (Packet ErrUnexpectedSubheader)))"

definition handle_move_header :: "'w game_flow \<Rightarrow> 'w \<Rightarrow> frame \<Rightarrow> 'w \<times> reply" where
  "handle_move_header f w fr = after_decode (DecodeMove fr) w (reply_move f w)"

definition handle_sync_header :: "'w game_flow \<Rightarrow> 'w \<Rightarrow> frame \<Rightarrow> 'w \<times> reply" where
  "handle_sync_header f w fr = after_decode (DecodeSyncPosition fr) w (reply_sync_position f w)"

definition handle_chat_header ::
    "'w game_flow \<Rightarrow> state_machine \<Rightarrow> 'w \<Rightarrow> frame \<Rightarrow> state_machine \<times> 'w \<times> reply" where
  "handle_chat_header f m w fr =
     (case DecodeClientChat fr of Inl e \<Rightarrow> (m, w, Inl (Packet e)) | Inr p \<Rightarrow> reply_chat f m w p)"

definition handle_whisper_header :: "'w game_flow \<Rightarrow> 'w \<Rightarrow> frame \<Rightarrow> 'w \<times> reply" where
  "handle_whisper_header f w fr = after_decode (DecodeClientWhisper fr) w (reply_whisper f w)"

definition handle_attack_header :: "'w game_flow \<Rightarrow> 'w \<Rightarrow> frame \<Rightarrow> 'w \<times> reply" where
  "handle_attack_header f w fr = after_decode (DecodeClientAttack fr) w (reply_attack f w)"

text \<open>The combat, item and quickslot packets that are only decoded and passed on.\<close>

definition handle_combat_header :: "'w game_flow \<Rightarrow> 'w \<Rightarrow> frame \<Rightarrow> 'w \<times> reply" where
  "handle_combat_header f w fr =
     (if Header fr = HeaderClientTarget then handle_packet (handleTarget f) w (DecodeClientTarget fr)
      else if Header fr = HeaderClientAttack then handle_attack_header f w fr
      else if Header fr = HeaderClientUseSkill then handle_packet (handleUseSkill f) w (DecodeClientUseSkill fr)
      else if Header fr = HeaderClientShoot then handle_packet (handleShoot f) w (DecodeClientShoot fr)
      else if Header fr = HeaderClientFlyTargeting then handle_packet (handleFlyTargeting f) w (DecodeClientFlyTargeting fr)
      else if Header fr = HeaderClientAddFlyTargeting then handle_packet (handleAddFlyTargeting f) w (DecodeClientAddFlyTargeting fr)
      else if Header fr = HeaderClientOnClick then handle_packet (handleOnClick f) w (DecodeClientOnClick fr)
      else if Header fr = HeaderClientCharacterPosition then handle_packet (handleCharacterPosition f) w (DecodeClientCharacterPosition fr)
      else (w, Inl (ErrUnexpectedClientPacket GameFlow)))"

definition handle_item_header :: "'w game_flow \<Rightarrow> 'w \<Rightarrow> frame \<Rightarrow> 'w \<times> reply" where
  "handle_item_header f w fr =
     (if Header fr = HeaderClientUse then handle_use_header f w fr
      else if Header fr = HeaderClientDrop then handle_packet (handleItemDrop f) w (DecodeClientDrop fr)
      else if Header fr = HeaderClientDrop2 then handle_packet (handleItemDrop2 f) w (DecodeClientDrop2 fr)
      else if Header fr = HeaderClientMove then handle_packet (handleItemMove f) w (DecodeClientMove fr)
      else if Header fr = HeaderClientUseToItem then handle_packet (handleItemUseToItem f) w (DecodeClientUseToItem fr)
      else if Header fr = HeaderClientPickup then handle_packet (handleItemPickup f) w (DecodeClientPickup fr)
      else if Header fr = HeaderClientGive then handle_packet (handleItemGive f) w (DecodeClientGive fr)
      else if Header fr = HeaderClientExchange then handle_packet (handleItemExchange f) w (DecodeClientExchange fr)
      else if Header fr = HeaderClientRefine then handle_packet (handleItemRefine f) w (DecodeClientRefine fr)
      else (w, Inl (ErrUnexpectedClientPacket GameFlow)))"

definition handle_storage_header :: "'w game_flow \<Rightarrow> 'w \<Rightarrow> frame \<Rightarrow> 'w \<times> reply" where
  "handle_storage_header f w fr =
     (if Header fr = HeaderClientSafeboxCheckin then handle_packet (handleSafeboxCheckin f) w (DecodeClientSafeboxCheckin fr)
      else if Header fr = HeaderClientSafeboxCheckout then handle_packet (handleSafeboxCheckout f) w (DecodeClientSafeboxCheckout fr)
      else if Header fr = HeaderClientSafeboxItemMove then handle_packet (handleSafeboxItemMove f) w (DecodeClientSafeboxItemMove fr)
      else if Header fr = HeaderClientMallCheckout then handle_packet (handleMallCheckout f) w (DecodeClientMallCheckout fr)
      else if Header fr = HeaderQuickslotClientAdd then handle_packet (handleQuickslotAdd f) w (DecodeQuickslotClientAdd fr)
      else if Header fr = HeaderQuickslotClientDel then handle_packet (handleQuickslotDel f) w (DecodeQuickslotClientDel fr)
      else if Header fr = HeaderQuickslotClientSwap then handle_packet (handleQuickslotSwap f) w (DecodeQuickslotClientSwap fr)
      else if Header fr = HeaderClientShop then handle_shop_header f w fr
      else if Header fr = HeaderClientMyShop then handle_packet (handleMyShop f) w (DecodeClientMyShop fr)
      else (w, Inl (ErrUnexpectedClientPacket GameFlow)))"

text \<open>The headers of the three groups, in the order the code asks for them.\<close>

definition combat_headers :: "u16 list" where
  "combat_headers = [HeaderClientTarget, HeaderClientAttack, HeaderClientUseSkill, HeaderClientShoot,
     HeaderClientFlyTargeting, HeaderClientAddFlyTargeting, HeaderClientOnClick, HeaderClientCharacterPosition]"

definition item_headers :: "u16 list" where
  "item_headers = [HeaderClientUse, HeaderClientDrop, HeaderClientDrop2, HeaderClientMove, HeaderClientUseToItem,
     HeaderClientPickup, HeaderClientGive, HeaderClientExchange, HeaderClientRefine]"

definition game_HandleClientFrame ::
    "'w game_flow \<Rightarrow> state_machine \<Rightarrow> 'w \<Rightarrow> frame \<Rightarrow> state_machine \<times> 'w \<times> reply" where
  "game_HandleClientFrame f m w fr =
     (if Current m \<noteq> PhaseGame then (m, w, Inl (ErrInvalidPhase GameFlow))
      else if Header fr = HeaderPong then
        (m, after_decode (DecodePong fr) w (\<lambda>_. (w, Inr [])))
      else if Header fr = HeaderMove then (m, handle_move_header f w fr)
      else if Header fr = HeaderSyncPosition then (m, handle_sync_header f w fr)
      else if Header fr = HeaderClientChat then handle_chat_header f m w fr
      else if Header fr = HeaderClientWhisper then (m, handle_whisper_header f w fr)
      else if Header fr \<in> set combat_headers then (m, handle_combat_header f w fr)
      else if Header fr \<in> set item_headers then (m, handle_item_header f w fr)
      else (m, handle_storage_header f w fr))"

section \<open>Packets of the client\<close>

datatype client_packet =
    CPong
  | CMove MovePacket
  | CSyncPosition SyncPositionPacket
  | CChat ClientChatPacket
  | CWhisper ClientWhisperPacket
  | CInteraction RequestPacket
  | CTarget ClientTargetPacket
  | CAttack ClientAttackPacket
  | CUseSkill ClientUseSkillPacket
  | CShoot ClientShootPacket
  | CFlyTargeting ClientFlyTargetingPacket
  | CAddFlyTargeting ClientFlyTargetingPacket
  | COnClick ClientOnClickPacket
  | CCharacterPosition ClientCharacterPositionPacket
  | CItemUse ClientUsePacket
  | CItemUseToItem ClientUseToItemPacket
  | CItemDrop ClientDropPacket
  | CItemDrop2 ClientDrop2Packet
  | CItemMove ClientMovePacket
  | CItemPickup ClientPickupPacket
  | CItemGive ClientGivePacket
  | CItemExchange ClientExchangePacket
  | CItemRefine ClientRefinePacket
  | CSafeboxCheckin ClientSafeboxCheckinPacket
  | CSafeboxCheckout ClientSafeboxCheckoutPacket
  | CSafeboxItemMove ClientSafeboxItemMovePacket
  | CMallCheckout ClientMallCheckoutPacket
  | CQuickslotAdd QuickslotAddPacket
  | CQuickslotDel QuickslotDelPacket
  | CQuickslotSwap QuickslotSwapPacket
  | CShopBuy ClientBuyPacket
  | CShopClose
  | CShopSell ClientSellPacket
  | CShopSell2 ClientSell2Packet
  | CMyShop ClientMyShopPacket

text \<open>The bytes a client sends for it, and which packets have bytes of their own.\<close>

fun client_bytes :: "client_packet \<Rightarrow> u8 list" where
  "client_bytes CPong = EncodePong"
| "client_bytes (CMove p) = EncodeMove p"
| "client_bytes (CSyncPosition p) = EncodeSyncPosition p"
| "client_bytes (CChat p) = EncodeClientChat p"
| "client_bytes (CWhisper p) = EncodeClientWhisper p"
| "client_bytes (CInteraction p) = EncodeRequest p"
| "client_bytes (CTarget p) = EncodeClientTarget p"
| "client_bytes (CAttack p) = EncodeClientAttack p"
| "client_bytes (CUseSkill p) = EncodeClientUseSkill p"
| "client_bytes (CShoot p) = EncodeClientShoot p"
| "client_bytes (CFlyTargeting p) = EncodeClientFlyTargeting p"
| "client_bytes (CAddFlyTargeting p) = EncodeClientAddFlyTargeting p"
| "client_bytes (COnClick p) = EncodeClientOnClick p"
| "client_bytes (CCharacterPosition p) = EncodeClientCharacterPosition p"
| "client_bytes (CItemUse p) = EncodeClientUse p"
| "client_bytes (CItemUseToItem p) = EncodeClientUseToItem p"
| "client_bytes (CItemDrop p) = EncodeClientDrop p"
| "client_bytes (CItemDrop2 p) = EncodeClientDrop2 p"
| "client_bytes (CItemMove p) = EncodeClientMove p"
| "client_bytes (CItemPickup p) = EncodeClientPickup p"
| "client_bytes (CItemGive p) = EncodeClientGive p"
| "client_bytes (CItemExchange p) = EncodeClientExchange p"
| "client_bytes (CItemRefine p) = EncodeClientRefine p"
| "client_bytes (CSafeboxCheckin p) = EncodeClientSafeboxCheckin p"
| "client_bytes (CSafeboxCheckout p) = EncodeClientSafeboxCheckout p"
| "client_bytes (CSafeboxItemMove p) = EncodeClientSafeboxItemMove p"
| "client_bytes (CMallCheckout p) = EncodeClientMallCheckout p"
| "client_bytes (CQuickslotAdd p) = EncodeQuickslotClientAdd p"
| "client_bytes (CQuickslotDel p) = EncodeQuickslotClientDel p"
| "client_bytes (CQuickslotSwap p) = EncodeQuickslotClientSwap p"
| "client_bytes (CShopBuy p) = EncodeClientBuy p"
| "client_bytes CShopClose = EncodeClientEnd"
| "client_bytes (CShopSell p) = EncodeClientSell p"
| "client_bytes (CShopSell2 p) = EncodeClientSell2 p"
| "client_bytes (CMyShop p) = EncodeClientMyShop p"

fun packet_ok :: "client_packet \<Rightarrow> bool" where
  "packet_ok (CSyncPosition p) = (length (spElements p) < 5461)"
| "packet_ok (CChat p) = (unpadded (chMessage p) \<and> length (chMessage p) < 65530)"
| "packet_ok (CWhisper p) = (unpadded (wcTarget p) \<and> length (wcTarget p) \<le> 65 \<and> unpadded (wcMessage p) \<and> length (wcMessage p) < 65466)"
| "packet_ok (CMyShop p) = (text_fills 33 (mySign p) \<and> length (myItems p) \<le> 40)"
| "packet_ok p = True"

text \<open>What the game makes of a packet.\<close>

fun respond :: "'w game_flow \<Rightarrow> state_machine \<Rightarrow> 'w \<Rightarrow> client_packet \<Rightarrow> state_machine \<times> 'w \<times> reply" where
  "respond f m w CPong = (m, w, Inr [])"
| "respond f m w (CMove p) = (m, reply_move f w p)"
| "respond f m w (CSyncPosition p) = (m, reply_sync_position f w p)"
| "respond f m w (CChat p) = reply_chat f m w p"
| "respond f m w (CWhisper p) = (m, reply_whisper f w p)"
| "respond f m w (CInteraction p) = (m, handle_packet (handleInteraction f) w (Inr p))"
| "respond f m w (CTarget p) = (m, handle_packet (handleTarget f) w (Inr p))"
| "respond f m w (CAttack p) = (m, reply_attack f w p)"
| "respond f m w (CUseSkill p) = (m, handle_packet (handleUseSkill f) w (Inr p))"
| "respond f m w (CShoot p) = (m, handle_packet (handleShoot f) w (Inr p))"
| "respond f m w (CFlyTargeting p) = (m, handle_packet (handleFlyTargeting f) w (Inr p))"
| "respond f m w (CAddFlyTargeting p) = (m, handle_packet (handleAddFlyTargeting f) w (Inr p))"
| "respond f m w (COnClick p) = (m, handle_packet (handleOnClick f) w (Inr p))"
| "respond f m w (CCharacterPosition p) = (m, handle_packet (handleCharacterPosition f) w (Inr p))"
| "respond f m w (CItemUse p) = (m, handle_packet (handleItemUse f) w (Inr p))"
| "respond f m w (CItemUseToItem p) = (m, handle_packet (handleItemUseToItem f) w (Inr p))"
| "respond f m w (CItemDrop p) = (m, handle_packet (handleItemDrop f) w (Inr p))"
| "respond f m w (CItemDrop2 p) = (m, handle_packet (handleItemDrop2 f) w (Inr p))"
| "respond f m w (CItemMove p) = (m, handle_packet (handleItemMove f) w (Inr p))"
| "respond f m w (CItemPickup p) = (m, handle_packet (handleItemPickup f) w (Inr p))"
| "respond f m w (CItemGive p) = (m, handle_packet (handleItemGive f) w (Inr p))"
| "respond f m w (CItemExchange p) = (m, handle_packet (handleItemExchange f) w (Inr p))"
| "respond f m w (CItemRefine p) = (m, handle_packet (handleItemRefine f) w (Inr p))"
| "respond f m w (CSafeboxCheckin p) = (m, handle_packet (handleSafeboxCheckin f) w (Inr p))"
| "respond f m w (CSafeboxCheckout p) = (m, handle_packet (handleSafeboxCheckout f) w (Inr p))"
| "respond f m w (CSafeboxItemMove p) = (m, handle_packet (handleSafeboxItemMove f) w (Inr p))"
| "respond f m w (CMallCheckout p) = (m, handle_packet (handleMallCheckout f) w (Inr p))"
| "respond f m w (CQuickslotAdd p) = (m, handle_packet (handleQuickslotAdd f) w (Inr p))"
| "respond f m w (CQuickslotDel p) = (m, handle_packet (handleQuickslotDel f) w (Inr p))"
| "respond f m w (CQuickslotSwap p) = (m, handle_packet (handleQuickslotSwap f) w (Inr p))"
| "respond f m w (CShopBuy p) = (m, handle_packet (handleShopBuy f) w (Inr p))"
| "respond f m w CShopClose = (m, handle_packet (handleShopClose f) w (Inr ()))"
| "respond f m w (CShopSell p) = (m, handle_packet (handleShopSell f) w (Inr p))"
| "respond f m w (CShopSell2 p) = (m, handle_packet (handleShopSell2 f) w (Inr p))"
| "respond f m w (CMyShop p) = (m, handle_packet (handleMyShop f) w (Inr p))"

lemmas read_back =
  pong_packet.decode_encode [of "()"] pong_packet.header_in
  move_packet.decode_encode move_packet.header_in
  sync_packet.decode_encode sync_packet.header_in
  client_chat_packet.decode_encode client_chat_packet.header_in
  client_whisper_packet.decode_encode client_whisper_packet.header_in
  request_packet.decode_encode request_packet.header_in
  client_target_packet.decode_encode client_target_packet.header_in
  client_attack_packet.decode_encode client_attack_packet.header_in
  client_use_skill_packet.decode_encode client_use_skill_packet.header_in
  client_shoot_packet.decode_encode client_shoot_packet.header_in
  client_fly_targeting_packet.decode_encode client_fly_targeting_packet.header_in
  client_add_fly_targeting_packet.decode_encode client_add_fly_targeting_packet.header_in
  client_on_click_packet.decode_encode client_on_click_packet.header_in
  client_character_position_packet.decode_encode client_character_position_packet.header_in
  client_use_packet.decode_encode client_use_packet.header_in
  client_use_to_item_packet.decode_encode client_use_to_item_packet.header_in
  client_drop_packet.decode_encode client_drop_packet.header_in
  client_drop2_packet.decode_encode client_drop2_packet.header_in
  client_move_packet.decode_encode client_move_packet.header_in
  client_pickup_packet.decode_encode client_pickup_packet.header_in
  client_give_packet.decode_encode client_give_packet.header_in
  client_exchange_packet.decode_encode client_exchange_packet.header_in
  client_refine_packet.decode_encode client_refine_packet.header_in
  client_safebox_checkin_packet.decode_encode client_safebox_checkin_packet.header_in
  client_safebox_checkout_packet.decode_encode client_safebox_checkout_packet.header_in
  client_safebox_item_move_packet.decode_encode client_safebox_item_move_packet.header_in
  client_mall_checkout_packet.decode_encode client_mall_checkout_packet.header_in
  quickslot_client_add.decode_encode quickslot_client_add.header_in
  quickslot_client_del_packet.decode_encode quickslot_client_del_packet.header_in
  quickslot_client_swap_packet.decode_encode quickslot_client_swap_packet.header_in
  client_buy_packet.decode_encode client_buy_packet.header_in
  client_end_packet.decode_encode [of "()"] client_end_packet.header_in
  client_sell_packet.decode_encode client_sell_packet.header_in
  client_sell2_packet.decode_encode client_sell2_packet.header_in
  client_my_shop_packet.decode_encode client_my_shop_packet.header_in

lemma payload_sizes:
  "length (Payload (frame_in (EncodeClientUse p))) = 3"
  "length (Payload (frame_in (EncodeRequest q))) = 4"
  by (simp_all add: EncodeClientUse_def EncodeRequest_def packet_simps)

lemma subheaders:
  "Payload (frame_in (EncodeClientBuy b)) \<noteq> [] \<and> Payload (frame_in (EncodeClientBuy b)) ! 0 = 1"
  "Payload (frame_in (EncodeClientSell s)) \<noteq> [] \<and> Payload (frame_in (EncodeClientSell s)) ! 0 = 2"
  "Payload (frame_in (EncodeClientSell2 t)) \<noteq> [] \<and> Payload (frame_in (EncodeClientSell2 t)) ! 0 = 3"
  "Payload (frame_in EncodeClientEnd) \<noteq> [] \<and> Payload (frame_in EncodeClientEnd) ! 0 = 0"
  by (simp_all add: EncodeClientBuy_def EncodeClientSell_def EncodeClientSell2_def EncodeClientEnd_def
      ClientSubheaderEnd_def ClientSubheaderBuy_def ClientSubheaderSell_def ClientSubheaderSell2_def)


lemma handle_use_shop:
  "handle_use_header f w (frame_in (EncodeClientUse p)) = handle_packet (handleItemUse f) w (Inr p)"
  "handle_use_header f w (frame_in (EncodeRequest q)) = handle_packet (handleInteraction f) w (Inr q)"
  "handle_shop_header f w (frame_in (EncodeClientBuy b)) = handle_packet (handleShopBuy f) w (Inr b)"
  "handle_shop_header f w (frame_in (EncodeClientSell s)) = handle_packet (handleShopSell f) w (Inr s)"
  "handle_shop_header f w (frame_in (EncodeClientSell2 t)) = handle_packet (handleShopSell2 f) w (Inr t)"
  "handle_shop_header f w (frame_in EncodeClientEnd) = handle_packet (handleShopClose f) w (Inr ())"
  by (simp_all add: handle_use_header_def handle_shop_header_def read_back subheaders payload_sizes
      ClientSubheaderEnd_def ClientSubheaderBuy_def ClientSubheaderSell_def ClientSubheaderSell2_def)

lemmas game_headers =
  HeaderClientAddFlyTargeting_def
  HeaderClientAttack_def
  HeaderClientCharacterPosition_def
  HeaderClientChat_def
  HeaderClientDrop_def
  HeaderClientDrop2_def
  HeaderClientExchange_def
  HeaderClientFlyTargeting_def
  HeaderClientGive_def
  HeaderClientMallCheckout_def
  HeaderClientMove_def
  HeaderClientMyShop_def
  HeaderClientOnClick_def
  HeaderClientPickup_def
  HeaderClientRefine_def
  HeaderClientSafeboxCheckin_def
  HeaderClientSafeboxCheckout_def
  HeaderClientSafeboxItemMove_def
  HeaderClientShoot_def
  HeaderClientShop_def
  HeaderClientTarget_def
  HeaderClientUse_def
  HeaderClientUseSkill_def
  HeaderClientUseToItem_def
  HeaderClientWhisper_def
  HeaderMove_def
  HeaderPong_def
  HeaderQuickslotClientAdd_def
  HeaderQuickslotClientDel_def
  HeaderQuickslotClientSwap_def
  HeaderRequest_def
  HeaderSyncPosition_def

lemmas game_handlers =
  handle_move_header_def handle_sync_header_def handle_chat_header_def handle_whisper_header_def
  handle_attack_header_def handle_combat_header_def handle_item_header_def handle_storage_header_def
  combat_headers_def item_headers_def

lemma dispatch:
  assumes "current m = PhaseGame" and "packet_ok p"
  shows "game_HandleClientFrame f m w (frame_in (client_bytes p)) = respond f m w p"
  using assms
  by (cases p)
    (simp_all add: game_HandleClientFrame_def Current_def read_back handle_use_shop game_handlers game_headers)

lemma handle_packet_error: "handle_packet h w d = (w', Inl e) \<Longrightarrow> w' = w"
  by (auto simp: handle_packet_def split: sum.splits prod.splits)

lemma after_decode_error:
  "after_decode d w k = (w', Inl e) \<Longrightarrow> (\<And>p w1 x. k p \<noteq> (w1, Inl x)) \<Longrightarrow> w' = w"
  by (auto simp: after_decode_def split: sum.splits)

lemma replies_succeed:
  "reply_move f w p \<noteq> (w1, Inl e)" "reply_sync_position f w q \<noteq> (w1, Inl e)"
  "reply_whisper f w r \<noteq> (w1, Inl e)" "reply_attack f w a \<noteq> (w1, Inl e)"
  by (auto simp: reply_move_def reply_sync_position_def reply_whisper_def reply_attack_def map_prod_def split: prod.splits)

lemma group_error:
  "handle_use_header f w fr = (w', Inl e) \<Longrightarrow> w' = w"
  "handle_shop_header f w fr = (w', Inl e) \<Longrightarrow> w' = w"
  "handle_move_header f w fr = (w', Inl e) \<Longrightarrow> w' = w"
  "handle_sync_header f w fr = (w', Inl e) \<Longrightarrow> w' = w"
  "handle_whisper_header f w fr = (w', Inl e) \<Longrightarrow> w' = w"
  "handle_attack_header f w fr = (w', Inl e) \<Longrightarrow> w' = w"
  by (auto simp: handle_use_header_def handle_shop_header_def handle_move_header_def handle_sync_header_def
      handle_whisper_header_def handle_attack_header_def replies_succeed
      dest: handle_packet_error after_decode_error split: if_splits)

lemma dispatch_error:
  "handle_combat_header f w fr = (w', Inl e) \<Longrightarrow> w' = w"
  "handle_item_header f w fr = (w', Inl e) \<Longrightarrow> w' = w"
  "handle_storage_header f w fr = (w', Inl e) \<Longrightarrow> w' = w"
  by (auto simp: handle_combat_header_def handle_item_header_def handle_storage_header_def
      dest: handle_packet_error group_error split: if_splits)

text \<open>
  The one error that comes after a callback: the chat callback accepted the message and asked for a
  phase that the connection cannot take from where it is.
\<close>

definition phase_refused :: "'w game_flow \<Rightarrow> state_machine \<Rightarrow> 'w \<Rightarrow> frame \<Rightarrow> 'w \<Rightarrow> bool" where
  "phase_refused f m w fr w' \<longleftrightarrow>
     (case DecodeClientChat fr of
        Inl e \<Rightarrow> False
      | Inr p \<Rightarrow>
          case handleChat f w p of
            (w1, r) \<Rightarrow> w' = w1 \<and> crAccepted r \<and> crNextPhase r \<noteq> no_phase \<and> snd (Transition m (crNextPhase r)) \<noteq> None)"

lemma unknown_phase_refused: "EncodePhase q = Inl e \<Longrightarrow> snd (Transition m q) = Some ErrUnknownPhase"
  by (cases q) (simp_all add: EncodePhase_def Transition_def)

lemma chat_error:
  assumes e: "handle_chat_header f m w fr = (m', w', Inl e)"
  shows "m' = m \<and> (w' = w \<or> phase_refused f m w fr w')"
proof (cases "DecodeClientChat fr")
  case (Inl d)
  then show ?thesis using e by (simp add: handle_chat_header_def)
next
  case (Inr p)
  obtain w1 r where h: "handleChat f w p = (w1, r)" by fastforce
  show ?thesis
  proof (cases "EncodePhase (crNextPhase r)")
    case (Inl d)
    then show ?thesis
      using e Inr h unknown_phase_refused [OF Inl, of m]
      by (auto simp: handle_chat_header_def reply_chat_def phase_refused_def Let_def split: if_splits)
  next
    case enc: (Inr raw)
    then show ?thesis
      using e Inr h
      by (auto simp: handle_chat_header_def reply_chat_def phase_refused_def Let_def Transition_def
          split: if_splits prod.splits option.splits)
  qed
qed

section \<open>Properties\<close>

definition silent_game :: "'w game_config" where
  "silent_game =
     \<lparr>HandleMove = None,
      HandleSyncPosition = None,
      HandleChat = None,
      HandleWhisper = None,
      HandleInteraction = None,
      HandleTarget = None,
      HandleAttack = None,
      HandleUseSkill = None,
      HandleShoot = None,
      HandleFlyTargeting = None,
      HandleAddFlyTargeting = None,
      HandleOnClick = None,
      HandleCharacterPosition = None,
      HandleItemUse = None,
      HandleItemUseToItem = None,
      HandleItemDrop = None,
      HandleItemDrop2 = None,
      HandleItemMove = None,
      HandleItemPickup = None,
      HandleItemGive = None,
      HandleItemExchange = None,
      HandleItemRefine = None,
      HandleSafeboxCheckin = None,
      HandleSafeboxCheckout = None,
      HandleSafeboxItemMove = None,
      HandleMallCheckout = None,
      HandleQuickslotAdd = None,
      HandleQuickslotDel = None,
      HandleQuickslotSwap = None,
      HandleShopBuy = None,
      HandleShopClose = None,
      HandleShopSell = None,
      HandleShopSell2 = None,
      HandleMyShop = None\<rparr>"

text \<open>
  C13: In the game, the frame that a client's packet becomes on the wire runs the callback of that
  packet's kind, and no other, on exactly the packet the client meant, for each of the thirty-five kinds;
  two kinds that share a header, and four that share another, are told apart. A pong and an attack of
  another type than the normal one are answered with no frames and run no callback.
\<close>

theorem game_dispatch:
  "current m = PhaseGame \<Longrightarrow> packet_ok p \<Longrightarrow>
   game_HandleClientFrame f m w (frame_in (client_bytes p)) = respond f m w p"
  by (rule dispatch)

theorem game_dispatch_witness:
  "game_HandleClientFrame (game_NewFlow (silent_game\<lparr>HandleInteraction := Some (\<lambda>w q. (w + rqTargetVID q, refused_frames))\<rparr>))
     \<lparr>current = PhaseGame\<rparr> (3 :: u32) (frame_in (client_bytes (CInteraction \<lparr>rqTargetVID = 4\<rparr>))) =
   (\<lparr>current = PhaseGame\<rparr>, 7, Inr [])"
  using game_dispatch [of "\<lparr>current = PhaseGame\<rparr>" "CInteraction \<lparr>rqTargetVID = 4\<rparr>"
      "game_NewFlow (silent_game\<lparr>HandleInteraction := Some (\<lambda>w q. (w + rqTargetVID q, refused_frames))\<rparr>)" 3]
  by (simp add: game_NewFlow_def handler_or_def refused_frames_def frames_of_def)

text \<open>
  C16: A frame the game answers with an error leaves the phase as it was, and no callback has changed
  the world, with one exception: a chat frame that decodes, whose message the chat callback accepted and
  answered with a phase that the connection cannot take. Then the world is the one that callback left.
\<close>

theorem game_error_harmless:
  "game_HandleClientFrame f m w fr = (m', w', Inl e) \<Longrightarrow>
   m' = m \<and> (w' = w \<or> Header fr = HeaderClientChat \<and> phase_refused f m w fr w')"
  by (auto simp: game_HandleClientFrame_def dest: group_error dispatch_error chat_error after_decode_error
      split: if_splits)

theorem game_error_harmless_witness:
  "let r = game_HandleClientFrame (game_NewFlow silent_game) \<lparr>current = PhaseGame\<rparr> (3 :: nat) (frame_of (HeaderMove, [1, 2]))
   in r = (\<lparr>current = PhaseGame\<rparr>, 3, Inl (Packet ErrInvalidPayload))"
proof -
  obtain m' w' where r: "game_HandleClientFrame (game_NewFlow silent_game) \<lparr>current = PhaseGame\<rparr> (3 :: nat)
      (frame_of (HeaderMove, [1, 2])) = (m', w', Inl (Packet ErrInvalidPayload))"
    by (simp add: game_HandleClientFrame_def Current_def handle_move_header_def DecodeMove_def packet_simps)
  from game_error_harmless [OF this] r show ?thesis by (simp add: HeaderMove_def HeaderClientChat_def)
qed

end
