(* ===== verification/Flow_Boot.thy ===== *)
theory Flow_Boot
  imports Flow_Entry Flow_Game
begin

text \<open>
  \<open>internal/boot/flow.go\<close> and \<open>internal/authboot/flow.go\<close>: the flows of a whole connection, which
  hand each frame to the flow of the current phase. One state machine is shared by all of them.
\<close>

section \<open>The game server's flow\<close>

record ('w, 'p) boot_config =
  bcHandshake :: "'w handshake_config"
  bcLogin :: "('w, Login2Packet, login_result) handler option"
  bcChannels :: "ChannelStatus list"
  bcWorldEntry :: "('w, 'p) worldentry_config"
  bcGame :: "'w game_config"

record ('w, 'p) boot_flow =
  machine :: state_machine
  handshake :: "'w handshake_flow"
  login :: "'w login_flow"
  worldEntry :: "('w, 'p) worldentry_flow"
  game :: "'w game_flow"
  channels :: "ChannelStatus list"
  configErr :: "flow_error option"

definition boot_NewFlow :: "('w, 'p) boot_config \<Rightarrow> ('w, 'p) boot_flow" where
  "boot_NewFlow cfg =
     (let nxt = NextPhase (bcHandshake cfg) in
      \<lparr>machine = NewStateMachine,
       handshake = handshake_NewFlow ((bcHandshake cfg)\<lparr>NextPhase := PhaseLogin\<rparr>),
       login = login_NewFlow (bcLogin cfg),
       worldEntry = worldentry_NewFlow (bcWorldEntry cfg),
       game = game_NewFlow (bcGame cfg),
       channels = bcChannels cfg,
       configErr = (if nxt \<noteq> no_phase \<and> nxt \<noteq> PhaseLogin
                    then Some (ErrConflictingHandshakeNextPhase BootFlow) else None)\<rparr>)"

definition boot_Start :: "crypto \<Rightarrow> u32 \<Rightarrow> ('w, 'p) boot_flow \<Rightarrow> ('w, 'p) boot_flow \<times> reply" where
  "boot_Start c now f =
     (case configErr f of
        Some e \<Rightarrow> (f, Inl e)
      | None \<Rightarrow>
          case encoded (EncodePhase PhaseHandshake) of
            Inl e \<Rightarrow> (f, Inl e)
          | Inr phaseHandshake \<Rightarrow>
              case handshake_Start c now (handshake f) (machine f) of
                (h, Inl e) \<Rightarrow> (f\<lparr>handshake := h\<rparr>, Inl e)
              | (h, Inr handshakeOut) \<Rightarrow> (f\<lparr>handshake := h\<rparr>, Inr (phaseHandshake # handshakeOut)))"

definition boot_HandleClientFrame ::
    "crypto \<Rightarrow> ('w, 'p) boot_flow \<Rightarrow> 'w \<Rightarrow> frame \<Rightarrow> ('w, 'p) boot_flow \<times> 'w \<times> reply" where
  "boot_HandleClientFrame c f w fr =
     (case configErr f of
        Some e \<Rightarrow> (f, w, Inl e)
      | None \<Rightarrow>
          if Current (machine f) = PhaseHandshake then
            if 0 < length (channels f) \<and> Header fr = HeaderStateChecker then
              (f, w, case DecodeStateChecker fr of
                 Inl e \<Rightarrow> Inl (Packet e)
               | Inr _ \<Rightarrow> Inr [EncodeRespondChannelStatus \<lparr>rcChannels = channels f\<rparr>])
            else
              (case handshake_HandleClientFrame c (handshake f) (machine f) w fr of
                 (h, m, w', r) \<Rightarrow> (f\<lparr>handshake := h, machine := m\<rparr>, w', r))
          else if Current (machine f) = PhaseLogin then
            (case login_HandleClientFrame (login f) (machine f) w fr of
               (m, w', r) \<Rightarrow> (f\<lparr>machine := m\<rparr>, w', r))
          else if Current (machine f) = PhaseSelect \<or> Current (machine f) = PhaseLoading then
            (case worldentry_HandleClientFrame (worldEntry f) (machine f) w fr of
               (we, m, w', r) \<Rightarrow> (f\<lparr>worldEntry := we, machine := m\<rparr>, w', r))
          else if Current (machine f) = PhaseGame then
            (case game_HandleClientFrame (game f) (machine f) w fr of
               (m, w', r) \<Rightarrow> (f\<lparr>machine := m\<rparr>, w', r))
          else (f, w, Inl (ErrUnsupportedPhase BootFlow)))"

definition boot_CurrentPhase :: "('w, 'p) boot_flow \<Rightarrow> phase" where
  "boot_CurrentPhase f = Current (machine f)"

definition boot_EncryptLegacyOutgoing ::
    "crypto \<Rightarrow> ('w, 'p) boot_flow \<Rightarrow> u8 list \<Rightarrow> ('w, 'p) boot_flow \<times> (cipher_error + u8 list)" where
  "boot_EncryptLegacyOutgoing c f raw =
     (case handshake_EncryptLegacyOutgoing c (handshake f) raw of (h, r) \<Rightarrow> (f\<lparr>handshake := h\<rparr>, r))"

definition boot_DecryptLegacyIncoming ::
    "crypto \<Rightarrow> ('w, 'p) boot_flow \<Rightarrow> u8 list \<Rightarrow> ('w, 'p) boot_flow \<times> (cipher_error + u8 list)" where
  "boot_DecryptLegacyIncoming c f raw =
     (case handshake_DecryptLegacyIncoming c (handshake f) raw of (h, r) \<Rightarrow> (f\<lparr>handshake := h\<rparr>, r))"

section \<open>The auth server's flow\<close>

record 'w authboot_flow =
  abMachine :: state_machine
  abHandshake :: "'w handshake_flow"
  abAuth :: "'w auth_flow"
  abConfigErr :: "flow_error option"

definition authboot_NewFlow ::
    "'w handshake_config \<Rightarrow> ('w, Login3Packet, auth_result) handler option \<Rightarrow> 'w authboot_flow" where
  "authboot_NewFlow cfg authenticate =
     \<lparr>abMachine = NewStateMachine,
      abHandshake = handshake_NewFlow (cfg\<lparr>NextPhase := PhaseAuth\<rparr>),
      abAuth = auth_NewFlow authenticate,
      abConfigErr = (if NextPhase cfg \<noteq> no_phase \<and> NextPhase cfg \<noteq> PhaseAuth
                     then Some (ErrConflictingHandshakeNextPhase AuthBootFlow) else None)\<rparr>"

definition authboot_Start :: "crypto \<Rightarrow> u32 \<Rightarrow> 'w authboot_flow \<Rightarrow> 'w authboot_flow \<times> reply" where
  "authboot_Start c now f =
     (case abConfigErr f of
        Some e \<Rightarrow> (f, Inl e)
      | None \<Rightarrow> (case handshake_Start c now (abHandshake f) (abMachine f) of (h, r) \<Rightarrow> (f\<lparr>abHandshake := h\<rparr>, r)))"

definition authboot_HandleClientFrame ::
    "crypto \<Rightarrow> 'w authboot_flow \<Rightarrow> 'w \<Rightarrow> frame \<Rightarrow> 'w authboot_flow \<times> 'w \<times> reply" where
  "authboot_HandleClientFrame c f w fr =
     (case abConfigErr f of
        Some e \<Rightarrow> (f, w, Inl e)
      | None \<Rightarrow>
          if Current (abMachine f) = PhaseHandshake then
            (case handshake_HandleClientFrame c (abHandshake f) (abMachine f) w fr of
               (h, m, w', r) \<Rightarrow> (f\<lparr>abHandshake := h, abMachine := m\<rparr>, w', r))
          else if Current (abMachine f) = PhaseAuth then
            (case auth_HandleClientFrame (abAuth f) (abMachine f) w fr of (w', r) \<Rightarrow> (f, w', r))
          else (f, w, Inl (ErrUnsupportedPhase AuthBootFlow)))"

definition authboot_CurrentPhase :: "'w authboot_flow \<Rightarrow> phase" where
  "authboot_CurrentPhase f = Current (abMachine f)"

definition authboot_EncryptLegacyOutgoing ::
    "crypto \<Rightarrow> 'w authboot_flow \<Rightarrow> u8 list \<Rightarrow> 'w authboot_flow \<times> (cipher_error + u8 list)" where
  "authboot_EncryptLegacyOutgoing c f raw =
     (case handshake_EncryptLegacyOutgoing c (abHandshake f) raw of (h, r) \<Rightarrow> (f\<lparr>abHandshake := h\<rparr>, r))"

definition authboot_DecryptLegacyIncoming ::
    "crypto \<Rightarrow> 'w authboot_flow \<Rightarrow> u8 list \<Rightarrow> 'w authboot_flow \<times> (cipher_error + u8 list)" where
  "authboot_DecryptLegacyIncoming c f raw =
     (case handshake_DecryptLegacyIncoming c (abHandshake f) raw of (h, r) \<Rightarrow> (f\<lparr>abHandshake := h\<rparr>, r))"

section \<open>The calls of a connection\<close>

text \<open>
  What happens to a connection in the game server: it is started, frames arrive, bytes are encrypted
  and decrypted, and between these calls other connections change the world they share.
\<close>

datatype 'w call =
    Started u32 | Received frame | Encrypted "u8 list" | Decrypted "u8 list" | Elsewhere "'w \<Rightarrow> 'w"

fun boot_after ::
    "crypto \<Rightarrow> ('w, 'p) boot_flow \<times> 'w \<Rightarrow> 'w call \<Rightarrow> ('w, 'p) boot_flow \<times> 'w" where
  "boot_after c (f, w) (Started now) = (fst (boot_Start c now f), w)"
| "boot_after c (f, w) (Received fr) = (case boot_HandleClientFrame c f w fr of (f', w', r) \<Rightarrow> (f', w'))"
| "boot_after c (f, w) (Encrypted raw) = (fst (boot_EncryptLegacyOutgoing c f raw), w)"
| "boot_after c (f, w) (Decrypted raw) = (fst (boot_DecryptLegacyIncoming c f raw), w)"
| "boot_after c (f, w) (Elsewhere g) = (f, g w)"

definition boot_run :: "crypto \<Rightarrow> ('w, 'p) boot_flow \<times> 'w \<Rightarrow> 'w call list \<Rightarrow> ('w, 'p) boot_flow \<times> 'w" where
  "boot_run c s calls = foldl (boot_after c) s calls"

lemma boot_run_simps [simp]:
  "boot_run c s [] = s"
  "boot_run c s (calls @ [x]) = boot_after c (boot_run c s calls) x"
  by (simp_all add: boot_run_def)

text \<open>The phases a connection of the game server can be in, and the fields no call changes.\<close>

definition boot_phases :: "phase set" where
  "boot_phases = {PhaseHandshake, PhaseLogin, PhaseSelect, PhaseLoading, PhaseGame, PhaseClose}"

definition boot_ok :: "('w, 'p) boot_flow \<Rightarrow> bool" where
  "boot_ok f \<longleftrightarrow> current (machine f) \<in> boot_phases \<and> nextPhase (handshake f) = PhaseLogin"

lemma handshake_next:
  "handshake_HandleClientFrame c f m w fr = (f', m', w', r) \<Longrightarrow> nextPhase f' = nextPhase f"
  by (auto simp: handshake_HandleClientFrame_def handle_key_response_def
      split: option.splits if_splits sum.splits prod.splits bool.splits)

lemma Start_next: "nextPhase (fst (handshake_Start c now f m)) = nextPhase f"
  by (auto simp: handshake_Start_def split: option.splits if_splits sum.splits prod.splits)

lemma crypt_next:
  "nextPhase (fst (handshake_EncryptLegacyOutgoing c f raw)) = nextPhase f"
  "nextPhase (fst (handshake_DecryptLegacyIncoming c f raw)) = nextPhase f"
  by (auto simp: handshake_EncryptLegacyOutgoing_def handshake_DecryptLegacyIncoming_def
      split: option.splits prod.splits)

text \<open>Only a chat command moves a connection that is in the game.\<close>

lemma game_moves:
  assumes "game_HandleClientFrame f m w fr = (m', w', r)" and "current m' \<noteq> current m"
  shows "current m = PhaseGame \<and> current m' \<in> {PhaseSelect, PhaseClose}"
proof -
  have "current (fst (Transition m q)) \<noteq> current m \<Longrightarrow> current m = PhaseGame \<Longrightarrow>
      current (fst (Transition m q)) \<in> {PhaseSelect, PhaseClose}" for q
    by (auto simp: Transition_def CanTransition_def split: if_splits)
  note leave = this
  from assms obtain q where "current m = PhaseGame" "m' = fst (Transition m q)"
    by (auto simp: game_HandleClientFrame_def handle_chat_header_def reply_chat_def Current_def Let_def
        split: if_splits sum.splits prod.splits option.splits) (metis fst_conv)+
  with leave [of q] assms(2) show ?thesis by simp
qed

lemma boot_moves:
  assumes "boot_HandleClientFrame c f w fr = (f', w', r)"
    and "current (machine f') \<noteq> current (machine f)" and "nextPhase (handshake f) = PhaseLogin"
  shows "(current (machine f), current (machine f')) = (PhaseHandshake, PhaseClose) \<or>
    (current (machine f), current (machine f')) = (PhaseHandshake, PhaseLogin) \<and> key_accepted c (handshake f) w fr \<or>
    (current (machine f), current (machine f')) = (PhaseLogin, PhaseSelect) \<and> login_granted (login f) w fr \<or>
    (current (machine f), current (machine f')) = (PhaseSelect, PhaseLoading) \<and> character_selected (worldEntry f) w fr \<or>
    (current (machine f), current (machine f')) = (PhaseLoading, PhaseGame) \<and> game_entered (worldEntry f) w fr \<or>
    current (machine f) = PhaseGame \<and> current (machine f') \<in> {PhaseSelect, PhaseClose}"
proof (cases "current (machine f)")
  case PhaseHandshake
  with assms obtain h m where "handshake_HandleClientFrame c (handshake f) (machine f) w fr = (h, m, w', r)"
    and "machine f' = m"
    by (auto simp: boot_HandleClientFrame_def Current_def split: option.splits if_splits prod.splits)
  with handshake_moves [OF this(1)] assms(2,3) show ?thesis by auto
next
  case PhaseLogin
  with assms obtain m where "login_HandleClientFrame (login f) (machine f) w fr = (m, w', r)" and "machine f' = m"
    by (auto simp: boot_HandleClientFrame_def Current_def split: option.splits prod.splits)
  with login_moves [OF this(1)] assms(2) show ?thesis by auto
next
  case PhaseSelect
  with assms obtain we m where "worldentry_HandleClientFrame (worldEntry f) (machine f) w fr = (we, m, w', r)"
    and "machine f' = m"
    by (auto simp: boot_HandleClientFrame_def Current_def split: option.splits prod.splits)
  with worldentry_moves [OF this(1)] assms(2) show ?thesis by auto
next
  case PhaseLoading
  with assms obtain we m where "worldentry_HandleClientFrame (worldEntry f) (machine f) w fr = (we, m, w', r)"
    and "machine f' = m"
    by (auto simp: boot_HandleClientFrame_def Current_def split: option.splits prod.splits)
  with worldentry_moves [OF this(1)] assms(2) show ?thesis by auto
next
  case PhaseGame
  with assms obtain m where "game_HandleClientFrame (game f) (machine f) w fr = (m, w', r)" and "machine f' = m"
    by (auto simp: boot_HandleClientFrame_def Current_def split: option.splits prod.splits)
  with game_moves [OF this(1)] assms(2) show ?thesis by auto
qed (use assms in \<open>auto simp: boot_HandleClientFrame_def Current_def split: option.splits\<close>)

lemma boot_HandleClientFrame_next:
  "boot_HandleClientFrame c f w fr = (f', w', r) \<Longrightarrow> nextPhase (handshake f') = nextPhase (handshake f)"
  by (auto simp: boot_HandleClientFrame_def dest!: handshake_next
      split: option.splits if_splits prod.splits)

lemma boot_Start_keeps:
  "machine (fst (boot_Start c now f)) = machine f \<and>
   nextPhase (handshake (fst (boot_Start c now f))) = nextPhase (handshake f)"
  using Start_next [of c now "handshake f" "machine f"]
  by (auto simp: boot_Start_def split: option.splits sum.splits prod.splits)

lemma boot_crypt_keeps:
  "machine (fst (boot_EncryptLegacyOutgoing c f raw)) = machine f"
  "nextPhase (handshake (fst (boot_EncryptLegacyOutgoing c f raw))) = nextPhase (handshake f)"
  "machine (fst (boot_DecryptLegacyIncoming c f raw)) = machine f"
  "nextPhase (handshake (fst (boot_DecryptLegacyIncoming c f raw))) = nextPhase (handshake f)"
  using crypt_next [of c "handshake f" raw]
  by (auto simp: boot_EncryptLegacyOutgoing_def boot_DecryptLegacyIncoming_def split: prod.splits)

text \<open>Every call but a frame leaves the phase alone.\<close>

lemma boot_after_phase:
  assumes "boot_ok (fst s)"
  shows "boot_ok (fst (boot_after c s x)) \<and>
    (current (machine (fst (boot_after c s x))) = current (machine (fst s)) \<or>
     (\<exists>fr r. x = Received fr \<and> boot_HandleClientFrame c (fst s) (snd s) fr =
        (fst (boot_after c s x), snd (boot_after c s x), r)))"
proof (cases s)
  case (Pair f w)
  show ?thesis
  proof (cases x)
    case (Received fr)
    obtain f' w' r where step: "boot_HandleClientFrame c f w fr = (f', w', r)"
      by (cases "boot_HandleClientFrame c f w fr")
    with assms Pair boot_moves [OF step] boot_HandleClientFrame_next [OF step] Received show ?thesis
      by (cases "current (machine f') = current (machine f)") (auto simp: boot_ok_def boot_phases_def)
  qed (use assms Pair boot_Start_keeps [of c _ f] boot_crypt_keeps [of c f] in \<open>auto simp: boot_ok_def\<close>)
qed

lemma boot_ok_NewFlow: "boot_ok (boot_NewFlow cfg)"
  by (simp add: boot_ok_def boot_NewFlow_def handshake_NewFlow_def boot_phases_def NewStateMachine_def
      NewStateMachineAt_def Let_def)

lemma boot_run_ok: "boot_ok (fst s) \<Longrightarrow> boot_ok (fst (boot_run c s calls))"
  by (induction calls rule: rev_induct) (simp_all add: boot_after_phase)

section \<open>The way into the game\<close>

text \<open>
  Reasons that held in order: the last element of the list came first, and every frame met its
  reason in the state the connection and the world were in when it arrived.
\<close>

fun reached_by ::
    "('w call list \<Rightarrow> 's) \<Rightarrow> ('s \<Rightarrow> frame \<Rightarrow> bool) list \<Rightarrow> 'w call list \<Rightarrow> bool" where
  "reached_by state [] calls = True"
| "reached_by state (reason # earlier) calls =
     (\<exists>before fr after. calls = before @ Received fr # after \<and> reason (state before) fr \<and>
        reached_by state earlier before)"

lemma reached_by_later: "reached_by state rs calls \<Longrightarrow> reached_by state rs (calls @ rest)"
  by (cases rs) fastforce+

lemma reached_by_tl: "reached_by state (r # rs) calls \<Longrightarrow> reached_by state rs calls"
  using reached_by_later by fastforce

definition entry_reasons ::
    "crypto \<Rightarrow> phase \<Rightarrow> (('w, 'p) boot_flow \<times> 'w \<Rightarrow> frame \<Rightarrow> bool) list" where
  "entry_reasons c p =
     (let key = (\<lambda>(f, w). key_accepted c (handshake f) w);
          account = (\<lambda>(f, w). login_granted (login f) w);
          character = (\<lambda>(f, w). character_selected (worldEntry f) w);
          enter = (\<lambda>(f, w). game_entered (worldEntry f) w) in
      if p = PhaseLogin then [key] else if p = PhaseSelect then [account, key]
      else if p = PhaseLoading then [character, account, key]
      else if p = PhaseGame then [enter, character, account, key] else [])"

lemma entry_reasons_simps:
  "entry_reasons c PhaseHandshake = []" "entry_reasons c PhaseClose = []"
  "entry_reasons c PhaseLogin = (\<lambda>(f, w). key_accepted c (handshake f) w) # entry_reasons c PhaseHandshake"
  "entry_reasons c PhaseSelect = (\<lambda>(f, w). login_granted (login f) w) # entry_reasons c PhaseLogin"
  "entry_reasons c PhaseLoading = (\<lambda>(f, w). character_selected (worldEntry f) w) # entry_reasons c PhaseSelect"
  "entry_reasons c PhaseGame = (\<lambda>(f, w). game_entered (worldEntry f) w) # entry_reasons c PhaseLoading"
  by (simp_all add: entry_reasons_def)

lemma boot_moves_reason:
  assumes "boot_HandleClientFrame c f w fr = (f', w', r)"
    and "current (machine f') \<noteq> current (machine f)" and "nextPhase (handshake f) = PhaseLogin"
  shows "(\<exists>reason. entry_reasons c (current (machine f')) = reason # entry_reasons c (current (machine f)) \<and>
      reason (f, w) fr) \<or>
    current (machine f') = PhaseClose \<or> current (machine f) = PhaseGame \<and> current (machine f') = PhaseSelect"
  using boot_moves [OF assms] by (elim disjE conjE) (auto simp: entry_reasons_simps)

lemma boot_run_reached:
  "reached_by (boot_run c (boot_NewFlow cfg, w))
     (entry_reasons c (current (machine (fst (boot_run c (boot_NewFlow cfg, w) calls))))) calls"
proof (induction calls rule: rev_induct)
  case Nil
  then show ?case
    by (simp add: boot_NewFlow_def NewStateMachine_def NewStateMachineAt_def entry_reasons_def Let_def)
next
  case (snoc x calls)
  let ?state = "boot_run c (boot_NewFlow cfg, w)"
  obtain f w1 where s: "?state calls = (f, w1)" by (cases "?state calls")
  have ok: "boot_ok (fst (?state calls))" by (rule boot_run_ok) (simp add: boot_ok_NewFlow)
  let ?s' = "boot_after c (?state calls) x"
  show ?case
  proof (cases "current (machine (fst ?s')) = current (machine f)")
    case True
    with snoc s show ?thesis by (simp add: reached_by_later)
  next
    case False
    then have "current (machine (fst ?s')) \<noteq> current (machine (fst (?state calls)))" using s by simp
    with boot_after_phase [OF ok, of c x] obtain fr r where x: "x = Received fr"
      and "boot_HandleClientFrame c (fst (?state calls)) (snd (?state calls)) fr = (fst ?s', snd ?s', r)" by blast
    then have step: "boot_HandleClientFrame c f w1 fr = (fst ?s', snd ?s', r)" using s by simp
    let ?p = "current (machine f)" and ?q = "current (machine (fst ?s'))"
    have earlier: "reached_by ?state (entry_reasons c ?p) calls" using snoc s by simp
    have new: "reached_by ?state (entry_reasons c ?q) (calls @ [x])"
      if "entry_reasons c ?q = reason # entry_reasons c ?p" "reason (f, w1) fr" for reason
      unfolding that(1) reached_by.simps
      by (intro exI [of _ calls] exI [of _ fr] exI [of _ "[]"] conjI) (simp_all add: x s that(2) earlier)
    have "nextPhase (handshake f) = PhaseLogin" using ok s by (simp add: boot_ok_def)
    from boot_moves_reason [OF step False this]
    have "reached_by ?state (entry_reasons c ?q) (calls @ [x])"
    proof (elim disjE exE conjE)
      assume "?p = PhaseGame" "?q = PhaseSelect"
      with earlier have "reached_by ?state (entry_reasons c PhaseLoading) calls"
        by (simp only: entry_reasons_simps(6) reached_by_tl)
      then have "reached_by ?state (entry_reasons c PhaseSelect) calls"
        by (simp only: entry_reasons_simps(5) reached_by_tl)
      with \<open>?q = PhaseSelect\<close> show ?thesis by (simp only: reached_by_later)
    qed (rule new, assumption+, simp only: entry_reasons_simps reached_by.simps)
    then show ?thesis by simp
  qed
qed

text \<open>
  The steps from one phase to another that a connection of the game server can make.
\<close>

definition boot_steps :: "(phase \<times> phase) set" where
  "boot_steps =
     {(PhaseHandshake, PhaseLogin), (PhaseHandshake, PhaseClose), (PhaseLogin, PhaseSelect), (PhaseSelect, PhaseLoading),
      (PhaseLoading, PhaseGame), (PhaseGame, PhaseSelect), (PhaseGame, PhaseClose)}"

lemma boot_moves_steps:
  assumes "boot_HandleClientFrame c f w fr = (f', w', r)"
    and "current (machine f') \<noteq> current (machine f)" and "nextPhase (handshake f) = PhaseLogin"
  shows "(current (machine f), current (machine f')) \<in> boot_steps"
  using boot_moves [OF assms] by (auto simp: boot_steps_def)

text \<open>A key response that is answered completes the handshake, one that is refused does not.\<close>

lemma finish_handshake_login:
  assumes "finish_handshake m PhaseLogin k = (m', r)" and "current m = PhaseHandshake"
  shows "current m' = PhaseLogin \<and> r = Inr [EncodeKeyComplete k, sent (EncodePhase PhaseLogin)]"
  using assms by (auto simp: finish_handshake_def Transition_def CanTransition_def EncodePhase_def split: if_splits)

lemma key_response_answer:
  assumes step: "boot_HandleClientFrame c f w fr = (f', w', r)" and next_phase: "nextPhase (handshake f) = PhaseLogin"
    and phase: "current (machine f) = PhaseHandshake" and header: "Header fr = HeaderKeyResponse"
  shows "case r of
      Inr out \<Rightarrow> current (machine f') = PhaseLogin \<and> (\<exists>k. out = [EncodeKeyComplete k, sent (EncodePhase PhaseLogin)])
    | Inl e \<Rightarrow> current (machine f') \<in> {PhaseHandshake, PhaseClose}"
proof (cases "configErr f")
  case (Some e)
  then show ?thesis using step phase by (auto simp: boot_HandleClientFrame_def)
next
  case None
  obtain h m where handled: "handshake_HandleClientFrame c (handshake f) (machine f) w fr = (h, m, w', r)" "machine f' = m"
    using step None phase header
    by (auto simp: boot_HandleClientFrame_def Current_def HeaderKeyResponse_def HeaderStateChecker_def split: prod.splits)
  have close: "current (fst (Transition (machine f) PhaseClose)) = PhaseClose"
    using phase by (simp add: Transition_def CanTransition_def)
  show ?thesis
    using handled phase header next_phase close
    by (auto simp: handshake_HandleClientFrame_def handle_key_response_def Current_def HeaderKeyResponse_def HeaderPong_def
        dest!: finish_handshake_login split: option.splits if_splits sum.splits prod.splits bool.splits)
qed

section \<open>Properties\<close>

text \<open>
  C12: A connection that is in the game got there in order: an acceptable key response arrived, then
  a login the account check granted, then the selection of a character that was accepted, then the
  request to enter the game that was not rejected.
\<close>

theorem game_reached_in_order:
  "boot_CurrentPhase (fst (boot_run c (boot_NewFlow cfg, w) calls)) = PhaseGame \<Longrightarrow>
   reached_by (boot_run c (boot_NewFlow cfg, w))
     [\<lambda>(f, w). game_entered (worldEntry f) w, \<lambda>(f, w). character_selected (worldEntry f) w,
      \<lambda>(f, w). login_granted (login f) w, \<lambda>(f, w). key_accepted c (handshake f) w] calls"
  using boot_run_reached [of c cfg w calls]
  by (simp only: boot_CurrentPhase_def Current_def entry_reasons_simps)

text \<open>A server that lets everybody in, and the frames of a client.\<close>

definition open_config :: "(unit, unit) boot_config" where
  "open_config =
     \<lparr>bcHandshake = \<lparr>KeyChallenge = \<lparr>kcServerPublicKey = replicate 32 0, kcChallenge = replicate 32 0, kcServerTime = 0\<rparr>,
        KeyComplete = \<lparr>kdEncryptedToken = replicate 48 0, kdNonce = replicate 24 0\<rparr>,
        VerifyKeyResponse = None, NextPhase = no_phase, SecureSession = None\<rparr>,
      bcLogin = Some (\<lambda>w p. (w, refused_login\<lparr>lrAccepted := True\<rparr>)),
      bcChannels = [],
      bcWorldEntry = \<lparr>SelectEmpire = None, CreateCharacter = None, DeleteCharacter = None,
        SelectCharacter = Some (\<lambda>w i. (w, refused_select\<lparr>csAccepted := True\<rparr>)), EnterGame = None\<rparr>,
      bcGame = silent_game\<rparr>"

definition entry_frames :: "frame list" where
  "entry_frames =
     [frame_of (HeaderKeyResponse, replicate 64 0), frame_of (HeaderLogin2, replicate 35 0),
      frame_of (HeaderCharacterSelect, [0]), frame_of (HeaderEnterGame, [])]"

theorem game_reached_in_order_witness:
  "reached_by (boot_run plain_crypto (boot_NewFlow open_config, ()))
     [\<lambda>(f, w). game_entered (worldEntry f) w, \<lambda>(f, w). character_selected (worldEntry f) w,
      \<lambda>(f, w). login_granted (login f) w, \<lambda>(f, w). key_accepted plain_crypto (handshake f) w]
     (Started 0 # map Received entry_frames)"
proof -
  have "boot_CurrentPhase (fst (boot_run plain_crypto (boot_NewFlow open_config, ())
    (Started 0 # map Received entry_frames))) = PhaseGame"
    by code_simp
  then show ?thesis by (rule game_reached_in_order)
qed

text \<open>
  C17: The phases of a connection of the game server. Whatever happens to it, it is in one of six phases,
  never in \<open>AUTH\<close>, \<open>DEAD\<close> or an unknown one. The next thing that happens to it leaves it in its phase or
  moves it one step along a table of seven, and only a frame can do that. During the handshake a key response
  that is answered leads to \<open>LOGIN\<close> and is answered with the completed key exchange and the frame that
  announces \<open>LOGIN\<close>; one that is refused leaves the connection in the handshake or closes it.
\<close>

theorem boot_flow_type:
  "let (f, v) = boot_run c (boot_NewFlow cfg, w) calls; f' = fst (boot_after c (f, v) x) in
   boot_CurrentPhase f \<in> {PhaseHandshake, PhaseLogin, PhaseSelect, PhaseLoading, PhaseGame, PhaseClose} \<and>
   (boot_CurrentPhase f' = boot_CurrentPhase f \<or>
    (boot_CurrentPhase f, boot_CurrentPhase f') \<in> boot_steps \<and> (\<exists>fr. x = Received fr)) \<and>
   (\<forall>fr. boot_CurrentPhase f = PhaseHandshake \<and> x = Received fr \<and> Header fr = HeaderKeyResponse \<longrightarrow>
      (case snd (snd (boot_HandleClientFrame c f v fr)) of
         Inr out \<Rightarrow> boot_CurrentPhase f' = PhaseLogin \<and> (\<exists>k. out = [EncodeKeyComplete k, sent (EncodePhase PhaseLogin)])
       | Inl e \<Rightarrow> boot_CurrentPhase f' \<in> {PhaseHandshake, PhaseClose}))"
proof -
  obtain f v where s: "boot_run c (boot_NewFlow cfg, w) calls = (f, v)" by fastforce
  have ok: "boot_ok f"
    using boot_run_ok [of "(boot_NewFlow cfg, w)" c calls] by (simp add: s boot_ok_NewFlow)
  then have next_phase: "nextPhase (handshake f) = PhaseLogin" by (simp add: boot_ok_def)
  let ?f' = "fst (boot_after c (f, v) x)"
  have moves: "current (machine ?f') = current (machine f) \<or>
      (current (machine f), current (machine ?f')) \<in> boot_steps \<and> (\<exists>fr. x = Received fr)"
    using boot_after_phase [of "(f, v)" c x] ok boot_moves_steps [OF _ _ next_phase] by fastforce
  have key: "case snd (snd (boot_HandleClientFrame c f v fr)) of
      Inr out \<Rightarrow> current (machine ?f') = PhaseLogin \<and> (\<exists>k. out = [EncodeKeyComplete k, sent (EncodePhase PhaseLogin)])
    | Inl e \<Rightarrow> current (machine ?f') \<in> {PhaseHandshake, PhaseClose}"
    if "current (machine f) = PhaseHandshake" "x = Received fr" "Header fr = HeaderKeyResponse" for fr
  proof -
    obtain g u r where step: "boot_HandleClientFrame c f v fr = (g, u, r)" by (metis prod.collapse)
    then have "?f' = g" by (simp add: that(2))
    then show ?thesis using key_response_answer [OF step next_phase that(1,3)] by (simp only: step snd_conv)
  qed
  show ?thesis
    using ok moves key by (simp only: s Let_def prod.case boot_ok_def boot_phases_def boot_CurrentPhase_def Current_def) blast
qed

theorem boot_flow_type_witness:
  "boot_CurrentPhase (fst (boot_run plain_crypto (boot_NewFlow open_config, ())
     [Started 0, Received (frame_of (HeaderKeyResponse, replicate 64 0))])) = PhaseLogin"
proof -
  let ?fr = "frame_of (HeaderKeyResponse, replicate 64 0)"
  obtain f v where s: "boot_run plain_crypto (boot_NewFlow open_config, ()) [Started 0] = (f, v)"
    by (meson surj_pair)
  have "boot_CurrentPhase (fst (boot_run plain_crypto (boot_NewFlow open_config, ()) [Started 0])) = PhaseHandshake \<and>
      (case snd (snd (case boot_run plain_crypto (boot_NewFlow open_config, ()) [Started 0] of
         (f, v) \<Rightarrow> boot_HandleClientFrame plain_crypto f v ?fr)) of Inr out \<Rightarrow> True | Inl e \<Rightarrow> False)"
    by code_simp
  then have "boot_CurrentPhase f = PhaseHandshake"
    "case snd (snd (boot_HandleClientFrame plain_crypto f v ?fr)) of Inr out \<Rightarrow> True | Inl e \<Rightarrow> False"
    by (simp_all add: s)
  moreover have "Header ?fr = HeaderKeyResponse" by (simp add: frame_of_def)
  ultimately have "boot_CurrentPhase (fst (boot_after plain_crypto (f, v) (Received ?fr))) = PhaseLogin"
    using boot_flow_type [of plain_crypto open_config "()" "[Started 0]" "Received ?fr"]
    by (simp only: s Let_def prod.case) (auto split: sum.splits simp del: boot_after.simps)
  moreover have "boot_run plain_crypto (boot_NewFlow open_config, ()) ([Started 0] @ [Received ?fr]) =
      boot_after plain_crypto (f, v) (Received ?fr)"
    by (simp only: boot_run_simps(2) s)
  ultimately show ?thesis by simp
qed

end
