(* ===== verification/Legacy.thy ===== *)
theory Legacy
  imports Flow_Boot
begin

text \<open>
  \<open>internal/service/legacy.go\<close>: the loop that serves one connection. It reads bytes, decrypts them,
  cuts them into frames, hands each frame to the connection's flow, and encrypts and writes what the
  flow answers. The interfaces a flow may or may not implement are optional fields; the network is
  the list of what the loop meets on each round and a predicate that tells which writes succeed.
\<close>

section \<open>The flow of a connection\<close>

record 'f session_flow =
  sfStart :: "'f \<Rightarrow> 'f \<times> reply"
  sfHandleClientFrame :: "'f \<Rightarrow> frame \<Rightarrow> 'f \<times> reply"
  sfFlushServerFrames :: "('f \<Rightarrow> 'f \<times> reply) option"
  sfSecure :: "(('f \<Rightarrow> u8 list \<Rightarrow> 'f \<times> (cipher_error + u8 list)) \<times>
                ('f \<Rightarrow> u8 list \<Rightarrow> 'f \<times> (cipher_error + u8 list))) option"
  sfCurrentPhase :: "('f \<Rightarrow> phase) option"

datatype stage = StartFrame | ServerFrame | ReplyFrame

datatype serve_error =
    StartFails flow_error | FlushFails flow_error | EncryptFails stage cipher_error | WriteFails stage
  | SetReadDeadlineFails | DecryptFails cipher_error | DecodeFails frame_error | HandleFails flow_error
  | ErrPipelinedPlaintextAfterSecureHandshake | ReadFails

datatype read_error = ReadEOF | ReadClosed | ReadTimeout | ReadOther

text \<open>
  One round of the loop: the context was cancelled, the read deadline could not be set, or \<open>Read\<close>
  returned some bytes and perhaps an error. Other connections act on the shared world in between.
\<close>

datatype 'f round_event =
    ContextDone | DeadlineFails | Read "u8 list" "read_error option" | Others "'f \<Rightarrow> 'f"

datatype served = Serving | Returned | Failed serve_error

record 'f conn =
  connFlow :: 'f
  connDecoder :: decoder
  connSent :: "u8 list list"

section \<open>Sending\<close>

definition encrypt_outgoing :: "'f session_flow \<Rightarrow> 'f \<Rightarrow> u8 list \<Rightarrow> 'f \<times> (cipher_error + u8 list)" where
  "encrypt_outgoing sf f raw = (case sfSecure sf of None \<Rightarrow> (f, Inr raw) | Some (enc, dec) \<Rightarrow> enc f raw)"

definition decrypt_incoming :: "'f session_flow \<Rightarrow> 'f \<Rightarrow> u8 list \<Rightarrow> 'f \<times> (cipher_error + u8 list)" where
  "decrypt_incoming sf f raw = (case sfSecure sf of None \<Rightarrow> (f, Inr raw) | Some (enc, dec) \<Rightarrow> dec f raw)"

text \<open>Write \<open>n\<close> of a connection succeeds when \<open>writes n\<close>; the frames before a failure were sent.\<close>

fun send_frames ::
    "(nat \<Rightarrow> bool) \<Rightarrow> stage \<Rightarrow> 'f session_flow \<Rightarrow> 'f conn \<Rightarrow> u8 list list \<Rightarrow> 'f conn \<times> served" where
  "send_frames writes st sf k [] = (k, Serving)"
| "send_frames writes st sf k (raw # rest) =
     (case encrypt_outgoing sf (connFlow k) raw of
        (f, Inl e) \<Rightarrow> (k\<lparr>connFlow := f\<rparr>, Failed (EncryptFails st e))
      | (f, Inr out) \<Rightarrow>
          if writes (length (connSent k))
          then send_frames writes st sf (k\<lparr>connFlow := f, connSent := connSent k @ [out]\<rparr>) rest
          else (k\<lparr>connFlow := f\<rparr>, Failed (WriteFails st)))"

definition flushServerFrames :: "(nat \<Rightarrow> bool) \<Rightarrow> 'f session_flow \<Rightarrow> 'f conn \<Rightarrow> 'f conn \<times> served" where
  "flushServerFrames writes sf k =
     (case sfFlushServerFrames sf of
        None \<Rightarrow> (k, Serving)
      | Some flush \<Rightarrow>
          case flush (connFlow k) of
            (f, Inl e) \<Rightarrow> (k\<lparr>connFlow := f\<rparr>, Failed (FlushFails e))
          | (f, Inr out) \<Rightarrow> send_frames writes ServerFrame sf (k\<lparr>connFlow := f\<rparr>) out)"

section \<open>Receiving\<close>

definition currentSessionPhase :: "'f session_flow \<Rightarrow> 'f \<Rightarrow> phase option" where
  "currentSessionPhase sf f = map_option (\<lambda>g. g f) (sfCurrentPhase sf)"

definition isRetryableSessionFlowError :: "flow_error \<Rightarrow> bool" where
  "isRetryableSessionFlowError e = (e = ErrEnterGameRejected)"

definition crossedSecureLegacyBoundary :: "phase option \<Rightarrow> phase option \<Rightarrow> bool" where
  "crossedSecureLegacyBoundary before after =
     (before = Some PhaseHandshake \<and> after \<noteq> None \<and> after \<noteq> Some PhaseHandshake)"

text \<open>
  After the handshake the client must wait for the answer before it sends encrypted bytes: a frame or
  a rest of one that was read together with the last frame in clear ends the connection.
\<close>

definition pipelined ::
    "'f session_flow \<Rightarrow> phase option \<Rightarrow> phase option \<Rightarrow> frame list \<Rightarrow> decoder \<Rightarrow> bool" where
  "pipelined sf before after rest d =
     (sfSecure sf \<noteq> None \<and> crossedSecureLegacyBoundary before after \<and> (rest \<noteq> [] \<or> 0 < BufferedLen d))"

fun handle_frames ::
    "(nat \<Rightarrow> bool) \<Rightarrow> 'f session_flow \<Rightarrow> 'f conn \<Rightarrow> frame list \<Rightarrow> 'f conn \<times> served" where
  "handle_frames writes sf k [] = (k, Serving)"
| "handle_frames writes sf k (fr # rest) =
     (let before = currentSessionPhase sf (connFlow k) in
      case sfHandleClientFrame sf (connFlow k) fr of
        (f, Inl e) \<Rightarrow>
          if isRetryableSessionFlowError e then
            if pipelined sf before (currentSessionPhase sf f) rest (connDecoder k)
            then (k\<lparr>connFlow := f\<rparr>, Failed ErrPipelinedPlaintextAfterSecureHandshake)
            else handle_frames writes sf (k\<lparr>connFlow := f\<rparr>) rest
          else (k\<lparr>connFlow := f\<rparr>, Failed (HandleFails e))
      | (f, Inr out) \<Rightarrow>
          case send_frames writes ReplyFrame sf (k\<lparr>connFlow := f\<rparr>) out of
            (k', Serving) \<Rightarrow>
              if pipelined sf before (currentSessionPhase sf f) rest (connDecoder k')
              then (k', Failed ErrPipelinedPlaintextAfterSecureHandshake)
              else handle_frames writes sf k' rest
          | (k', failure) \<Rightarrow> (k', failure))"

definition handle_bytes ::
    "(nat \<Rightarrow> bool) \<Rightarrow> 'f session_flow \<Rightarrow> 'f conn \<Rightarrow> u8 list \<Rightarrow> 'f conn \<times> served" where
  "handle_bytes writes sf k incomingBytes =
     (case decrypt_incoming sf (connFlow k) incomingBytes of
        (f, Inl e) \<Rightarrow> (k\<lparr>connFlow := f\<rparr>, Failed (DecryptFails e))
      | (f, Inr plain) \<Rightarrow>
          case Feed (connDecoder k) plain of
            (d, Inl e) \<Rightarrow> (k\<lparr>connFlow := f, connDecoder := d\<rparr>, Failed (DecodeFails e))
          | (d, Inr frames) \<Rightarrow> handle_frames writes sf (k\<lparr>connFlow := f, connDecoder := d\<rparr>) frames)"

text \<open>What the loop does about the error \<open>Read\<close> returned.\<close>

definition after_read :: "read_error option \<Rightarrow> served" where
  "after_read err =
     (case err of
        None \<Rightarrow> Serving
      | Some ReadEOF \<Rightarrow> Returned | Some ReadClosed \<Rightarrow> Returned
      | Some ReadTimeout \<Rightarrow> Serving | Some ReadOther \<Rightarrow> Failed ReadFails)"

text \<open>
  Bytes are handled before the error they came with; in a flow with a secure session the variable that
  holds the error is assigned the outcome of the decryption, so that the error is forgotten.
\<close>

definition serve_round ::
    "(nat \<Rightarrow> bool) \<Rightarrow> 'f session_flow \<Rightarrow> 'f conn \<Rightarrow> 'f round_event \<Rightarrow> 'f conn \<times> served" where
  "serve_round writes sf k ev =
     (case ev of
        ContextDone \<Rightarrow> (k, Returned)
      | Others g \<Rightarrow> (k\<lparr>connFlow := g (connFlow k)\<rparr>, Serving)
      | DeadlineFails \<Rightarrow>
          (case flushServerFrames writes sf k of
             (k', Serving) \<Rightarrow> (k', Failed SetReadDeadlineFails)
           | (k', failure) \<Rightarrow> (k', failure))
      | Read bytes err \<Rightarrow>
          (case flushServerFrames writes sf k of
             (k', Serving) \<Rightarrow>
               if length bytes = 0 then (k', after_read err)
               else (case handle_bytes writes sf k' bytes of
                 (k'', Serving) \<Rightarrow> (k'', after_read (if sfSecure sf \<noteq> None then None else err))
               | (k'', failure) \<Rightarrow> (k'', failure))
           | (k', failure) \<Rightarrow> (k', failure)))"

fun serve_rounds ::
    "(nat \<Rightarrow> bool) \<Rightarrow> 'f session_flow \<Rightarrow> 'f conn \<Rightarrow> 'f round_event list \<Rightarrow> 'f conn \<times> served" where
  "serve_rounds writes sf k [] = (k, Serving)"
| "serve_rounds writes sf k (ev # evs) =
     (case serve_round writes sf k ev of
        (k', Serving) \<Rightarrow> serve_rounds writes sf k' evs
      | (k', stop) \<Rightarrow> (k', stop))"

definition serveLegacyConn ::
    "(nat \<Rightarrow> bool) \<Rightarrow> 'f session_flow \<Rightarrow> 'f \<Rightarrow> 'f round_event list \<Rightarrow> 'f conn \<times> served" where
  "serveLegacyConn writes sf f evs =
     (let new = (\<lambda>f. \<lparr>connFlow = f, connDecoder = NewDecoder 8192, connSent = []\<rparr>) in
      case sfStart sf f of
        (f', Inl e) \<Rightarrow> (new f', Failed (StartFails e))
      | (f', Inr out) \<Rightarrow>
          case send_frames writes StartFrame sf (new f') out of
            (k, Serving) \<Rightarrow> serve_rounds writes sf k evs
          | (k, failure) \<Rightarrow> (k, failure))"

section \<open>The flows of the repository\<close>

text \<open>The boot flow and the world its callbacks act on, as the state of a session flow.\<close>

definition boot_session :: "crypto \<Rightarrow> u32 \<Rightarrow> (('w, 'p) boot_flow \<times> 'w) session_flow" where
  "boot_session c now =
     \<lparr>sfStart = (\<lambda>(f, w). case boot_Start c now f of (f', r) \<Rightarrow> ((f', w), r)),
      sfHandleClientFrame = (\<lambda>(f, w) fr. case boot_HandleClientFrame c f w fr of (f', w', r) \<Rightarrow> ((f', w'), r)),
      sfFlushServerFrames = None,
      sfSecure = Some (\<lambda>(f, w) raw. case boot_EncryptLegacyOutgoing c f raw of (f', r) \<Rightarrow> ((f', w), r),
                       \<lambda>(f, w) raw. case boot_DecryptLegacyIncoming c f raw of (f', r) \<Rightarrow> ((f', w), r)),
      sfCurrentPhase = Some (\<lambda>(f, w). boot_CurrentPhase f)\<rparr>"

definition authboot_session :: "crypto \<Rightarrow> u32 \<Rightarrow> ('w authboot_flow \<times> 'w) session_flow" where
  "authboot_session c now =
     \<lparr>sfStart = (\<lambda>(f, w). case authboot_Start c now f of (f', r) \<Rightarrow> ((f', w), r)),
      sfHandleClientFrame = (\<lambda>(f, w) fr. case authboot_HandleClientFrame c f w fr of (f', w', r) \<Rightarrow> ((f', w'), r)),
      sfFlushServerFrames = None,
      sfSecure = Some (\<lambda>(f, w) raw. case authboot_EncryptLegacyOutgoing c f raw of (f', r) \<Rightarrow> ((f', w), r),
                       \<lambda>(f, w) raw. case authboot_DecryptLegacyIncoming c f raw of (f', r) \<Rightarrow> ((f', w), r)),
      sfCurrentPhase = Some (\<lambda>(f, w). authboot_CurrentPhase f)\<rparr>"

end
