(* ===== verification/Session_Stream.thy ===== *)
theory Session_Stream
  imports Legacy
begin

text \<open>
  The whole path of a client's packets through one connection: encrypted by the client, cut into
  chunks by the network, decrypted, cut into frames and dispatched by the server, and the answers back.
\<close>

section \<open>Packets, one after the other\<close>

text \<open>What the game makes of a sequence of packets that never fails and never leaves the game.\<close>

fun play :: "'w game_flow \<Rightarrow> 'w \<Rightarrow> client_packet list \<Rightarrow> ('w \<times> u8 list list) option" where
  "play g w [] = Some (w, [])"
| "play g w (p # ps) =
     (case respond g \<lparr>current = PhaseGame\<rparr> w p of
        (m, w1, Inl e) \<Rightarrow> None
      | (m, w1, Inr out) \<Rightarrow>
          if current m = PhaseGame then map_option (\<lambda>(w', outs). (w', out @ outs)) (play g w1 ps) else None)"

text \<open>What the flow of a connection that has left the handshake makes of frames that all succeed.\<close>

fun boot_plays ::
    "crypto \<Rightarrow> ('w, 'p) boot_flow \<Rightarrow> 'w \<Rightarrow> frame list \<Rightarrow> (('w, 'p) boot_flow \<times> 'w \<times> u8 list list) option" where
  "boot_plays c f w [] = Some (f, w, [])"
| "boot_plays c f w (fr # frs) =
     (if boot_CurrentPhase f = PhaseHandshake then None
      else case boot_HandleClientFrame c f w fr of
        (f1, w1, Inl e) \<Rightarrow> None
      | (f1, w1, Inr out) \<Rightarrow> map_option (\<lambda>(f', w', outs). (f', w', out @ outs)) (boot_plays c f1 w1 frs))"

lemma boot_plays_append:
  "boot_plays c f w (xs @ ys) =
     (case boot_plays c f w xs of None \<Rightarrow> None
      | Some (f1, w1, outs) \<Rightarrow> map_option (\<lambda>(f', w', outs'). (f', w', outs @ outs')) (boot_plays c f1 w1 ys))"
proof (induction xs arbitrary: f w)
  case Nil
  then show ?case by (cases "boot_plays c f w ys") auto
next
  case (Cons x xs)
  then show ?case
    by (auto simp: option.map_comp comp_def case_prod_unfold split: prod.splits sum.splits option.splits)
qed

lemma client_bytes_framed: "packet_ok p \<Longrightarrow> \<exists>h. framed h (client_bytes p)"
  by (cases p) (auto intro: pong_packet.encode_framed
    move_packet.encode_framed
    sync_packet.encode_framed
    client_chat_packet.encode_framed
    client_whisper_packet.encode_framed
    request_packet.encode_framed
    client_target_packet.encode_framed
    client_attack_packet.encode_framed
    client_use_skill_packet.encode_framed
    client_shoot_packet.encode_framed
    client_fly_targeting_packet.encode_framed
    client_add_fly_targeting_packet.encode_framed
    client_on_click_packet.encode_framed
    client_character_position_packet.encode_framed
    client_use_packet.encode_framed
    client_use_to_item_packet.encode_framed
    client_drop_packet.encode_framed
    client_drop2_packet.encode_framed
    client_move_packet.encode_framed
    client_pickup_packet.encode_framed
    client_give_packet.encode_framed
    client_exchange_packet.encode_framed
    client_refine_packet.encode_framed
    client_safebox_checkin_packet.encode_framed
    client_safebox_checkout_packet.encode_framed
    client_safebox_item_move_packet.encode_framed
    client_mall_checkout_packet.encode_framed
    quickslot_client_add.encode_framed
    quickslot_client_del_packet.encode_framed
    quickslot_client_swap_packet.encode_framed
    client_buy_packet.encode_framed
    client_end_packet.encode_framed
    client_sell_packet.encode_framed
    client_sell2_packet.encode_framed
    client_my_shop_packet.encode_framed)

section \<open>The secure session inside a connection\<close>

definition with_session :: "('w, 'p) boot_flow \<Rightarrow> server_session \<Rightarrow> ('w, 'p) boot_flow" where
  "with_session f s = f\<lparr>handshake := (handshake f)\<lparr>secureSession := Some s\<rparr>\<rparr>"

definition in_game :: "('w, 'p) boot_flow \<Rightarrow> bool" where
  "in_game f \<longleftrightarrow> configErr f = None \<and> machine f = \<lparr>current = PhaseGame\<rparr>"

lemma encrypt_with_session:
  "encrypt_outgoing (boot_session c now) (with_session f s, w) raw =
     (case ServerSession_EncryptOutgoing c s raw of (s', r) \<Rightarrow> ((with_session f s', w), r))"
  by (simp add: encrypt_outgoing_def boot_session_def boot_EncryptLegacyOutgoing_def
      handshake_EncryptLegacyOutgoing_def with_session_def split: prod.splits)

lemma decrypt_with_session:
  "decrypt_incoming (boot_session c now) (with_session f s, w) raw =
     (case ServerSession_DecryptIncoming c s raw of (s', r) \<Rightarrow> ((with_session f s', w), r))"
  by (simp add: decrypt_incoming_def boot_session_def boot_DecryptLegacyIncoming_def
      handshake_DecryptLegacyIncoming_def with_session_def split: prod.splits)

lemma game_plays:
  assumes "in_game f"
  shows "\<forall>p \<in> set ps. packet_ok p \<Longrightarrow> play (game f) w ps = Some (w', outs) \<Longrightarrow>
    boot_plays c f w (map (frame_in \<circ> client_bytes) ps) = Some (f, w', outs)"
proof (induction ps arbitrary: w outs)
  case Nil
  then show ?case by simp
next
  case (Cons p ps)
  from Cons.prems(2) obtain m w1 reply outs' where p: "respond (game f) \<lparr>current = PhaseGame\<rparr> w p = (m, w1, Inr reply)"
      "current m = PhaseGame" and ps: "play (game f) w1 ps = Some (w', outs')" and outs: "outs = reply @ outs'"
    by (auto split: prod.splits sum.splits if_splits)
  have "boot_HandleClientFrame c f w (frame_in (client_bytes p)) = (f, w1, Inr reply)"
    using assms p Cons.prems(1) dispatch [of "\<lparr>current = PhaseGame\<rparr>" p "game f" w]
    by (cases m) (simp add: boot_HandleClientFrame_def in_game_def Current_def)
  moreover have "boot_CurrentPhase f = PhaseGame"
    using assms by (simp add: in_game_def boot_CurrentPhase_def Current_def)
  ultimately show ?case using Cons.IH [OF _ ps] Cons.prems(1) outs by simp
qed

lemma handle_with_session:
  "boot_CurrentPhase f \<noteq> PhaseHandshake \<Longrightarrow> boot_HandleClientFrame c f w fr = (f1, w1, r) \<Longrightarrow>
   sfHandleClientFrame (boot_session c now) (with_session f s, w) fr = ((with_session f1 s, w1), r)"
  by (auto simp: boot_session_def boot_HandleClientFrame_def with_session_def boot_CurrentPhase_def
      split: option.splits prod.splits if_splits)

text \<open>The key streams of the two directions.\<close>

abbreviation outward :: "crypto \<Rightarrow> server_session \<Rightarrow> nat \<Rightarrow> nat \<Rightarrow> u8 list" where
  "outward c s \<equiv> stream_from c (ssTxKey s) (ssTxNonce s)"

abbreviation inward :: "crypto \<Rightarrow> server_session \<Rightarrow> nat \<Rightarrow> nat \<Rightarrow> u8 list" where
  "inward c s \<equiv> stream_from c (ssRxKey s) (ssRxNonce s)"

abbreviation outward_at :: "server_session \<Rightarrow> nat" where
  "outward_at s \<equiv> unat (ssTxOffset s)"

abbreviation inward_at :: "server_session \<Rightarrow> nat" where
  "inward_at s \<equiv> unat (ssRxOffset s)"

definition conn_at ::
    "('w, 'p) boot_flow \<Rightarrow> server_session \<Rightarrow> 'w \<Rightarrow> decoder \<Rightarrow> u8 list list \<Rightarrow> (('w, 'p) boot_flow \<times> 'w) conn" where
  "conn_at f s w d out = \<lparr>connFlow = (with_session f s, w), connDecoder = d, connSent = out\<rparr>"

lemma send_frames_ready:
  "server_ready c s \<Longrightarrow> outward_at s + length (concat outs) \<le> 2 ^ 38 \<Longrightarrow>
   \<exists>s' wires. send_frames (\<lambda>_. True) st (boot_session c now) (conn_at f s w d out) outs =
       (conn_at f s' w d (out @ wires), Serving) \<and>
     concat wires = xor_bytes (concat outs) (outward c s (outward_at s) (length (concat outs))) \<and>
     server_ready c s' \<and> outward_at s' = outward_at s + length (concat outs) \<and> outward c s' = outward c s \<and>
     inward c s' = inward c s \<and> inward_at s' = inward_at s"
proof (induction outs arbitrary: s out)
  case Nil
  then show ?case by (intro exI [of _ s] exI [of _ "[]"]) (simp add: xor_bytes_def)
next
  case (Cons raw outs)
  from Cons.prems have lim: "outward_at s + length raw \<le> 2 ^ 38" by simp
  from server_tx.process_ready [OF Cons.prems(1) lim] obtain s1
    where s1: "ServerSession_EncryptOutgoing c s raw =
        (s1, Inr (xor_bytes raw (outward c s (outward_at s) (length raw))))"
      "server_ready c s1" "outward_at s1 = outward_at s + length raw" "outward c s1 = outward c s"
      "inward c s1 = inward c s" "inward_at s1 = inward_at s"
    by auto
  let ?x = "xor_bytes raw (outward c s (outward_at s) (length raw))"
  from Cons.IH [of s1 "out @ [?x]"] s1 Cons.prems obtain s' wires
    where "send_frames (\<lambda>_. True) st (boot_session c now) (conn_at f s1 w d (out @ [?x])) outs =
        (conn_at f s' w d ((out @ [?x]) @ wires), Serving)"
      "concat wires = xor_bytes (concat outs) (outward c s (outward_at s1) (length (concat outs)))"
      "server_ready c s'" "outward_at s' = outward_at s1 + length (concat outs)" "outward c s' = outward c s"
      "inward c s' = inward c s" "inward_at s' = inward_at s"
    by auto
  with s1 show ?case
    by (intro exI [of _ s'] exI [of _ "?x # wires"])
      (simp add: conn_at_def encrypt_with_session xor_bytes_append stream_from_add add.assoc)
qed

text \<open>After the handshake a connection never meets the end of it again.\<close>

lemma not_pipelined:
  "boot_CurrentPhase f \<noteq> PhaseHandshake \<Longrightarrow>
   \<not> pipelined sf (currentSessionPhase (boot_session c now) (with_session f s, w)) q rest d"
  by (simp add: pipelined_def crossedSecureLegacyBoundary_def currentSessionPhase_def boot_session_def
      boot_CurrentPhase_def with_session_def)

lemma handle_frames_ready:
  "server_ready c s \<Longrightarrow> boot_plays c f w frs = Some (f', w', outs) \<Longrightarrow>
   outward_at s + length (concat outs) \<le> 2 ^ 38 \<Longrightarrow>
   \<exists>s' wires. handle_frames (\<lambda>_. True) (boot_session c now) (conn_at f s w d out) frs =
       (conn_at f' s' w' d (out @ wires), Serving) \<and>
     concat wires = xor_bytes (concat outs) (outward c s (outward_at s) (length (concat outs))) \<and>
     server_ready c s' \<and> outward_at s' = outward_at s + length (concat outs) \<and> outward c s' = outward c s \<and>
     inward c s' = inward c s \<and> inward_at s' = inward_at s"
proof (induction frs arbitrary: s f w out outs)
  case Nil
  then show ?case by (intro exI [of _ s] exI [of _ "[]"]) (simp add: xor_bytes_def)
next
  case (Cons fr frs)
  from Cons.prems(2) obtain f1 w1 reply outs' where phase: "boot_CurrentPhase f \<noteq> PhaseHandshake"
      and fr: "boot_HandleClientFrame c f w fr = (f1, w1, Inr reply)"
      and frs: "boot_plays c f1 w1 frs = Some (f', w', outs')" and outs: "outs = reply @ outs'"
    by (auto split: prod.splits sum.splits if_splits)
  note handled = handle_with_session [OF phase fr]
  from Cons.prems(3) outs have lim: "outward_at s + length (concat reply) \<le> 2 ^ 38" by simp
  from send_frames_ready [OF Cons.prems(1) lim, of ReplyFrame now f1 w1 d out] obtain s1 wires1
    where s1: "send_frames (\<lambda>_. True) ReplyFrame (boot_session c now) (conn_at f1 s w1 d out) reply =
        (conn_at f1 s1 w1 d (out @ wires1), Serving)"
      "concat wires1 = xor_bytes (concat reply) (outward c s (outward_at s) (length (concat reply)))"
      "server_ready c s1" "outward_at s1 = outward_at s + length (concat reply)" "outward c s1 = outward c s"
      "inward c s1 = inward c s" "inward_at s1 = inward_at s"
    by blast
  have lim': "outward_at s1 + length (concat outs') \<le> 2 ^ 38"
    using Cons.prems(3) s1(4) outs by simp
  from Cons.IH [OF s1(3) frs lim', of "out @ wires1"] obtain s' wires
    where rest: "handle_frames (\<lambda>_. True) (boot_session c now) (conn_at f1 s1 w1 d (out @ wires1)) frs =
        (conn_at f' s' w' d ((out @ wires1) @ wires), Serving)"
      "concat wires = xor_bytes (concat outs') (outward c s1 (outward_at s1) (length (concat outs')))"
      "server_ready c s'" "outward_at s' = outward_at s1 + length (concat outs')" "outward c s' = outward c s1"
      "inward c s' = inward c s1" "inward_at s' = inward_at s1"
    by blast
  have step: "handle_frames (\<lambda>_. True) (boot_session c now) (conn_at f s w d out) (fr # frs) =
    handle_frames (\<lambda>_. True) (boot_session c now) (conn_at f1 s1 w1 d (out @ wires1)) frs"
    using s1(1) by (simp add: conn_at_def handled not_pipelined [OF phase] Let_def)
  show ?case
    using s1 rest
    by (intro exI [of _ s'] exI [of _ "wires1 @ wires"])
      (simp only: step, simp add: outs xor_bytes_append stream_from_add add.assoc)
qed

section \<open>Chunks\<close>

text \<open>The plaintexts of the chunks of a key stream's ciphertext.\<close>

fun plain_chunks :: "(nat \<Rightarrow> nat \<Rightarrow> u8 list) \<Rightarrow> nat \<Rightarrow> u8 list list \<Rightarrow> u8 list list" where
  "plain_chunks ks off [] = []"
| "plain_chunks ks off (ch # chs) = xor_bytes ch (ks off (length ch)) # plain_chunks ks (off + length ch) chs"

lemma concat_plain_chunks:
  "concat (plain_chunks (stream_from c key nonce) off chs) =
   xor_bytes (concat chs) (stream_from c key nonce off (length (concat chs)))"
  by (induction chs arbitrary: off) (simp_all add: xor_bytes_def [of "[]"] xor_bytes_append stream_from_add)

lemma Feed_all_split:
  assumes "Feed_all d (x # xs) = (d', Inr frs)"
  obtains d1 frs1 frs2 where "Feed d x = (d1, Inr frs1)" "Feed_all d1 xs = (d', Inr frs2)" "frs = frs1 @ frs2"
proof -
  obtain d1 r1 where x: "Feed d x = (d1, r1)" by fastforce
  obtain d2 r2 where xs: "Feed_all d1 xs = (d2, r2)" by fastforce
  from assms x xs that show thesis by (cases r1; cases r2) auto
qed

lemma boot_session_simps [simp]:
  "flushServerFrames writes (boot_session c now) k = (k, Serving)"
  "sfSecure (boot_session c now) = None \<longleftrightarrow> False"
  by (simp_all add: flushServerFrames_def boot_session_def)

lemma serve_chunks:
  "server_ready c s \<Longrightarrow> [] \<notin> set chs \<Longrightarrow> inward_at s + length (concat chs) \<le> 2 ^ 38 \<Longrightarrow>
   Feed_all d (plain_chunks (inward c s) (inward_at s) chs) = (d', Inr frs) \<Longrightarrow>
   boot_plays c f w frs = Some (f', w', outs) \<Longrightarrow>
   outward_at s + length (concat outs) \<le> 2 ^ 38 \<Longrightarrow>
   \<exists>s' wires. serve_rounds (\<lambda>_. True) (boot_session c now) (conn_at f s w d out) (map (\<lambda>ch. Read ch None) chs) =
       (conn_at f' s' w' d' (out @ wires), Serving) \<and>
     concat wires = xor_bytes (concat outs) (outward c s (outward_at s) (length (concat outs)))"
proof (induction chs arbitrary: s d frs f w out outs)
  case Nil
  then show ?case by (intro exI [of _ s] exI [of _ "[]"]) (simp add: xor_bytes_def)
next
  case (Cons ch chs)
  let ?plain = "xor_bytes ch (inward c s (inward_at s) (length ch))"
  from Cons.prems(3) have lim: "inward_at s + length ch \<le> 2 ^ 38" by simp
  from server_rx.process_ready [OF Cons.prems(1) lim] obtain s1
    where s1: "ServerSession_DecryptIncoming c s ch = (s1, Inr ?plain)"
      "server_ready c s1" "inward_at s1 = inward_at s + length ch" "inward c s1 = inward c s"
      "outward c s1 = outward c s" "outward_at s1 = outward_at s"
    by auto
  from Cons.prems(4) have "Feed_all d (?plain # plain_chunks (inward c s) (inward_at s + length ch) chs) =
      (d', Inr frs)" by simp
  then obtain d1 frs1 frs2 where feed: "Feed d ?plain = (d1, Inr frs1)"
      "Feed_all d1 (plain_chunks (inward c s) (inward_at s + length ch) chs) = (d', Inr frs2)" and frs: "frs = frs1 @ frs2"
    by (rule Feed_all_split)
  from Cons.prems(5) frs obtain f1 w1 outs1 outs2 where play: "boot_plays c f w frs1 = Some (f1, w1, outs1)"
      "boot_plays c f1 w1 frs2 = Some (f', w', outs2)" and outs: "outs = outs1 @ outs2"
    by (auto simp: boot_plays_append split: option.splits)
  have lim1: "outward_at s1 + length (concat outs1) \<le> 2 ^ 38"
    using Cons.prems(6) outs s1 by simp
  from handle_frames_ready [OF s1(2) play(1) lim1, of now d1 out] obtain s2 wires1
    where s2: "handle_frames (\<lambda>_. True) (boot_session c now) (conn_at f s1 w d1 out) frs1 =
        (conn_at f1 s2 w1 d1 (out @ wires1), Serving)"
      "concat wires1 = xor_bytes (concat outs1) (outward c s1 (outward_at s1) (length (concat outs1)))"
      "server_ready c s2" "outward_at s2 = outward_at s1 + length (concat outs1)" "outward c s2 = outward c s1"
      "inward c s2 = inward c s1" "inward_at s2 = inward_at s1"
    by blast
  have round: "serve_round (\<lambda>_. True) (boot_session c now) (conn_at f s w d out) (Read ch None) =
      (conn_at f1 s2 w1 d1 (out @ wires1), Serving)"
    using Cons.prems(2) s1(1) feed(1) s2(1)
    by (auto simp: serve_round_def handle_bytes_def conn_at_def decrypt_with_session after_read_def)
  have lim2: "inward_at s2 + length (concat chs) \<le> 2 ^ 38" "outward_at s2 + length (concat outs2) \<le> 2 ^ 38"
    using Cons.prems(3,6) s1 s2 outs by simp_all
  have feed2: "Feed_all d1 (plain_chunks (inward c s2) (inward_at s2) chs) = (d', Inr frs2)"
    using feed(2) s1 s2 by simp
  from Cons.IH [OF s2(3) _ lim2(1) feed2 play(2) lim2(2), of "out @ wires1"] Cons.prems(2) obtain s' wires
    where rest: "serve_rounds (\<lambda>_. True) (boot_session c now) (conn_at f1 s2 w1 d1 (out @ wires1))
        (map (\<lambda>ch. Read ch None) chs) = (conn_at f' s' w' d' ((out @ wires1) @ wires), Serving)"
      "concat wires = xor_bytes (concat outs2) (outward c s2 (outward_at s2) (length (concat outs2)))"
    by auto
  show ?case
    using round rest s1 s2
    by (intro exI [of _ s'] exI [of _ "wires1 @ wires"]) (simp add: outs xor_bytes_append stream_from_add)
qed

section \<open>Both directions\<close>

text \<open>Frames the client encrypts, however grouped and however cut, and the answers it decrypts.\<close>

definition small_frame :: "u8 list \<Rightarrow> bool" where
  "small_frame bs \<longleftrightarrow> (\<exists>h. framed h bs) \<and> length bs \<le> 8192"

lemma small_frame_nonempty: "small_frame bs \<Longrightarrow> bs \<noteq> []"
  by (auto simp: small_frame_def framed_def Encode_def put_u16_def)

lemma secure_stream:
  assumes st: "in_step c s k" and ok: "\<forall>bs \<in> set bss. small_frame bs"
    and play: "boot_plays c f w (map frame_in bss) = Some (f', w', outs)"
    and msgs: "concat msgs = concat bss"
    and sent: "stream_all (ClientSession_EncryptOutgoing c) k msgs = (k', Inr wire)"
    and chs: "concat chs = wire" "[] \<notin> set chs"
    and lim: "unat (clTxOffset k) + length (concat msgs) \<le> 2 ^ 38" "unat (ssTxOffset s) + length (concat outs) \<le> 2 ^ 38"
  shows "\<exists>s' wires k''. serve_rounds (\<lambda>_. True) (boot_session c now) (conn_at f s w (NewDecoder 8192) out)
      (map (\<lambda>ch. Read ch None) chs) = (conn_at f' s' w' (NewDecoder 8192) (out @ wires), Serving) \<and>
    stream_all (ClientSession_DecryptIncoming c) k' wires = (k'', Inr (concat outs))"
proof -
  let ?P = "concat bss" and ?ks = "inward c s (inward_at s)"
  from st have ready: "server_ready c s" "client_ready c k" by (simp_all add: in_step_def)
  from client_tx.stream_all_ready [OF ready(2) lim(1)] sent st msgs
  have wire: "wire = xor_bytes ?P (?ks (length ?P))" and k': "client_ready c k'"
      "(clRxOffset k', clRxKey k', clRxNonce k') = (ssTxOffset s, ssTxKey s, ssTxNonce s)"
    by (auto simp: in_step_def)
  have size: "length wire = length ?P" by (simp add: wire)
  have plain: "concat (plain_chunks (inward c s) (inward_at s) chs) = ?P"
    using chs(1) wire by (simp add: concat_plain_chunks xor_bytes_twice)
  have fed: "Feed_all (NewDecoder 8192) (plain_chunks (inward c s) (inward_at s) chs) =
      (NewDecoder 8192, Inr (map frame_in bss))"
  proof (cases chs)
    case Nil
    with chs(1) size ok have "bss = []" using small_frame_nonempty by (cases bss) auto
    with Nil show ?thesis by simp
  next
    case (Cons ch rest)
    then have "plain_chunks (inward c s) (inward_at s) chs \<noteq> []" by simp
    with plain Feed_framed [of "NewDecoder 8192" bss] ok show ?thesis
      by (simp add: Feed_all_concat NewDecoder_def small_frame_def)
  qed
  have "inward_at s + length (concat chs) \<le> 2 ^ 38"
    using lim(1) st chs(1) size msgs by (simp add: in_step_def)
  from serve_chunks [OF ready(1) chs(2) this fed play lim(2), of now out] obtain s' wires
    where served: "serve_rounds (\<lambda>_. True) (boot_session c now) (conn_at f s w (NewDecoder 8192) out)
        (map (\<lambda>ch. Read ch None) chs) = (conn_at f' s' w' (NewDecoder 8192) (out @ wires), Serving)"
      and wires: "concat wires = xor_bytes (concat outs) (outward c s (outward_at s) (length (concat outs)))"
    by auto
  have "unat (clRxOffset k') + length (concat wires) \<le> 2 ^ 38" using lim(2) k'(2) by (simp add: wires)
  from client_rx.stream_all_ready [OF k'(1) this] k'(2) obtain k''
    where "stream_all (ClientSession_DecryptIncoming c) k' wires =
      (k'', Inr (xor_bytes (concat wires) (outward c s (outward_at s) (length (concat wires)))))"
    by auto
  with served show ?thesis by (auto simp: wires xor_bytes_twice)
qed

section \<open>Properties\<close>

text \<open>
  C11: Let a client and the server be in step after the key exchange, the connection be in the game,
  and let the client send packets whose handling does not fail and does not leave the game. However
  the client groups the bytes it encrypts and however the network cuts them into reads, the server's
  loop keeps serving and leaves the world exactly as handling the packets one after the other does,
  and what the client decrypts of the answers are the frames of the handlers, in order.
\<close>

theorem session_stream_served:
  assumes game: "in_game f" and st: "in_step c s k"
    and ok: "\<forall>p \<in> set ps. packet_ok p \<and> length (client_bytes p) \<le> 8192"
    and play: "play (game f) w ps = Some (w', outs)"
    and msgs: "concat msgs = concat (map client_bytes ps)"
    and sent: "stream_all (ClientSession_EncryptOutgoing c) k msgs = (k', Inr wire)"
    and chs: "concat chs = wire" "[] \<notin> set chs"
    and lim: "unat (clTxOffset k) + length (concat msgs) \<le> 2 ^ 38" "unat (ssTxOffset s) + length (concat outs) \<le> 2 ^ 38"
  shows "\<exists>s' out k''. serve_rounds (\<lambda>_. True) (boot_session c now) (conn_at f s w (NewDecoder 8192) [])
      (map (\<lambda>ch. Read ch None) chs) = (conn_at f s' w' (NewDecoder 8192) out, Serving) \<and>
    stream_all (ClientSession_DecryptIncoming c) k' out = (k'', Inr (concat outs))"
proof -
  have plays: "boot_plays c f w (map frame_in (map client_bytes ps)) = Some (f, w', outs)"
    using game_plays [OF game _ play] ok by simp
  have small: "\<forall>bs \<in> set (map client_bytes ps). small_frame bs"
    using ok client_bytes_framed by (auto simp: small_frame_def)
  from secure_stream [OF st small plays msgs sent chs lim, of now "[]"] show ?thesis by simp
qed

text \<open>A connection in the game of a server that answers every click with a frame.\<close>

definition clicking :: "(unit, unit) boot_flow" where
  "clicking = (boot_NewFlow open_config)
     \<lparr>machine := \<lparr>current = PhaseGame\<rparr>,
      game := game_NewFlow (silent_game\<lparr>HandleOnClick := Some (\<lambda>w p. (w, \<lparr>Accepted = True, Frames = [[7, 8, 9]]\<rparr>))\<rparr>)\<rparr>"

definition clicks :: "client_packet list" where
  "clicks = [COnClick \<lparr>ocVID = 5\<rparr>, CPong, COnClick \<lparr>ocVID = 6\<rparr>]"

theorem session_stream_served_witness:
  "\<exists>k' wire s' out k''. stream_all (ClientSession_EncryptOutgoing plain_crypto) (NewClientSession []\<lparr>clActive := True\<rparr>)
      (map client_bytes clicks) = (k', Inr wire) \<and>
    serve_rounds (\<lambda>_. True) (boot_session plain_crypto 0)
      (conn_at clicking (NewServerSession []\<lparr>ssActive := True\<rparr>) () (NewDecoder 8192) [])
      (map (\<lambda>ch. Read ch None) [take 3 wire, drop 3 wire]) = (conn_at clicking s' () (NewDecoder 8192) out, Serving) \<and>
    stream_all (ClientSession_DecryptIncoming plain_crypto) k' out = (k'', Inr [7, 8, 9, 7, 8, 9])"
proof -
  let ?s = "NewServerSession []\<lparr>ssActive := True\<rparr>" and ?k = "NewClientSession []\<lparr>clActive := True\<rparr>"
  let ?msgs = "map client_bytes clicks"
  have st: "in_step plain_crypto ?s ?k"
    by (simp add: in_step_def server_ready_def client_ready_def plain_crypto_laws NewServerSession_def NewClientSession_def)
  have len: "length (concat ?msgs) = 20"
    by (simp add: clicks_def EncodeClientOnClick_def EncodePong_def EnvelopeSize_def)
  obtain k' wire where sent: "stream_all (ClientSession_EncryptOutgoing plain_crypto) ?k ?msgs = (k', Inr wire)"
      and wire: "length wire = length (concat ?msgs)"
    using client_to_server [OF st, of ?msgs] len by (auto simp: NewClientSession_def)
  have play: "play (game clicking) () clicks = Some ((), [[7, 8, 9], [7, 8, 9]])"
    by code_simp
  have "\<exists>s' out k''. serve_rounds (\<lambda>_. True) (boot_session plain_crypto 0) (conn_at clicking ?s () (NewDecoder 8192) [])
      (map (\<lambda>ch. Read ch None) [take 3 wire, drop 3 wire]) = (conn_at clicking s' () (NewDecoder 8192) out, Serving) \<and>
    stream_all (ClientSession_DecryptIncoming plain_crypto) k' out = (k'', Inr (concat [[7, 8, 9], [7, 8, 9]]))"
    by (rule session_stream_served [OF _ st _ play _ sent])
      (use wire len in \<open>auto simp: in_game_def clicking_def boot_NewFlow_def open_config_def no_phase_def Let_def
        clicks_def NewServerSession_def NewClientSession_def EncodeClientOnClick_def EncodePong_def EnvelopeSize_def\<close>)
  with sent show ?thesis by auto
qed

end
