(* ===== verification/Session_Entry.thy ===== *)
theory Session_Entry
  imports Session_Stream
begin

text \<open>
  A client that follows the protocol gets into the game: the exchange of keys in clear, the first
  encrypted answer, and the encrypted frames that log in, select a character and enter.
\<close>

section \<open>Logging in, selecting, entering\<close>

text \<open>What the callbacks of a configuration make of the three requests, if they accept all of them.\<close>

definition admission ::
    "('w, 'p) boot_config \<Rightarrow> 'w \<Rightarrow> Login2Packet \<Rightarrow> u8 \<Rightarrow> ('w \<times> u8 list list) option" where
  "admission cfg w account index =
     (let entry = worldentry_NewFlow (bcWorldEntry cfg) in
      case loginAuthenticate (login_NewFlow (bcLogin cfg)) w account of (w1, lr) \<Rightarrow>
      if \<not> lrAccepted lr then None
      else case EncodeLoginSuccess4 (lrLoginSuccess4 lr) of Inl e \<Rightarrow> None | Inr success \<Rightarrow>
      case selectCharacter entry w1 index of (w2, sr) \<Rightarrow>
      if \<not> csAccepted sr then None
      else case EncodeMainCharacter (csMainCharacter sr) of Inl e \<Rightarrow> None | Inr character \<Rightarrow>
      case enterGame entry w2 (csPlayer sr) of (w3, er) \<Rightarrow>
      if egRejected er then None
      else Some (w3,
        [success, EncodeEmpire \<lparr>emEmpire = lrEmpire lr\<rparr>, sent (EncodePhase PhaseSelect),
         sent (EncodePhase PhaseLoading), character, EncodePlayerPoints (csPlayerPoints sr),
         sent (EncodePhase PhaseGame)] @ egBootstrapFrames er @ egTrailingFrames er))"

definition entry_requests :: "Login2Packet \<Rightarrow> u8 \<Rightarrow> u8 list list" where
  "entry_requests account index =
     [sent (EncodeLogin2 account), EncodeCharacterSelect \<lparr>csIndex = index\<rparr>, EncodeEnterGame]"

lemma small_frame_Encode [simp]: "length p \<le> 8188 \<Longrightarrow> small_frame (Encode h p)"
  using framed_Encode [of p h] by (auto simp: small_frame_def EnvelopeSize_def simp del: framed_Encode)

lemma Encode_nonempty [simp]: "Encode h p \<noteq> []"
  by (simp add: Encode_def put_u16_def)

lemma entry_small:
  "text_fits 31 (l2Login account) \<Longrightarrow> bs \<in> set (entry_requests account index) \<Longrightarrow> small_frame bs"
  by (auto simp: entry_requests_def EncodeCharacterSelect_def EncodeEnterGame_def EncodeLogin2_def)

text \<open>A flow made for a configuration, before its login.\<close>

definition logging_in :: "('w, 'p) boot_config \<Rightarrow> ('w, 'p) boot_flow \<Rightarrow> bool" where
  "logging_in cfg f \<longleftrightarrow> configErr f = None \<and> machine f = \<lparr>current = PhaseLogin\<rparr> \<and>
     login f = login_NewFlow (bcLogin cfg) \<and> worldEntry f = worldentry_NewFlow (bcWorldEntry cfg)"

lemma EncodePhase_sent:
  "EncodePhase PhaseLogin = Inr (sent (EncodePhase PhaseLogin))"
  "EncodePhase PhaseSelect = Inr (sent (EncodePhase PhaseSelect))"
  "EncodePhase PhaseLoading = Inr (sent (EncodePhase PhaseLoading))"
  "EncodePhase PhaseGame = Inr (sent (EncodePhase PhaseGame))"
  "EncodePhase PhaseHandshake = Inr (sent (EncodePhase PhaseHandshake))"
  by (simp_all add: EncodePhase_def)

lemma admission_plays:
  assumes f: "logging_in cfg f" and account: "text_fits 31 (l2Login account)"
    and admitted: "admission cfg w account index = Some (w', answers)"
  shows "\<exists>f'. boot_plays c f w (map frame_in (entry_requests account index)) = Some (f', w', answers) \<and>
    boot_CurrentPhase f' = PhaseGame"
proof -
  let ?entry = "worldentry_NewFlow (bcWorldEntry cfg)"
  from admitted obtain w1 lr success w2 sr character er
    where auth: "loginAuthenticate (login_NewFlow (bcLogin cfg)) w account = (w1, lr)" "lrAccepted lr"
      and success: "EncodeLoginSuccess4 (lrLoginSuccess4 lr) = Inr success"
      and select: "selectCharacter ?entry w1 index = (w2, sr)" "csAccepted sr"
      and character: "EncodeMainCharacter (csMainCharacter sr) = Inr character"
      and enter: "enterGame ?entry w2 (csPlayer sr) = (w', er)" "\<not> egRejected er"
      and answers: "answers = [success, EncodeEmpire \<lparr>emEmpire = lrEmpire lr\<rparr>, sent (EncodePhase PhaseSelect),
         sent (EncodePhase PhaseLoading), character, EncodePlayerPoints (csPlayerPoints sr),
         sent (EncodePhase PhaseGame)] @ egBootstrapFrames er @ egTrailingFrames er"
    by (auto simp: admission_def Let_def split: prod.splits if_splits sum.splits)
  let ?f1 = "f\<lparr>machine := \<lparr>current = PhaseSelect\<rparr>\<rparr>"
  let ?f2 = "f\<lparr>worldEntry := ?entry\<lparr>selectedPlayer := csPlayer sr\<rparr>, machine := \<lparr>current = PhaseLoading\<rparr>\<rparr>"
  let ?f3 = "?f2\<lparr>machine := \<lparr>current = PhaseGame\<rparr>\<rparr>"
  have moves: "Transition \<lparr>current = PhaseLogin\<rparr> PhaseSelect = (\<lparr>current = PhaseSelect\<rparr>, None)"
    "Transition \<lparr>current = PhaseSelect\<rparr> PhaseLoading = (\<lparr>current = PhaseLoading\<rparr>, None)"
    "Transition \<lparr>current = PhaseLoading\<rparr> PhaseGame = (\<lparr>current = PhaseGame\<rparr>, None)"
    by (simp_all add: Transition_def CanTransition_def)
  note phases = EncodePhase_sent(2) [THEN arg_cong [where f = encoded], unfolded encoded_simps]
    EncodePhase_sent(3) [THEN arg_cong [where f = encoded], unfolded encoded_simps]
    EncodePhase_sent(4) [THEN arg_cong [where f = encoded], unfolded encoded_simps]
  have one: "boot_HandleClientFrame c f w (frame_in (sent (EncodeLogin2 account))) =
      (?f1, w1, Inr [success, EncodeEmpire \<lparr>emEmpire = lrEmpire lr\<rparr>, sent (EncodePhase PhaseSelect)])"
    using f account auth login2_packet.wire.header_in [of account] login2_packet.sent_decode [of account]
    by (simp add: boot_HandleClientFrame_def logging_in_def Current_def login_HandleClientFrame_def
        login_accepted_def success moves(1) EncodePhase_def)
  have two: "boot_HandleClientFrame c ?f1 w1 (frame_in (EncodeCharacterSelect \<lparr>csIndex = index\<rparr>)) =
      (?f2, w2, Inr [sent (EncodePhase PhaseLoading), character, EncodePlayerPoints (csPlayerPoints sr)])"
    using f select character_select_packet.header_in character_select_packet.decode_encode
    by (simp add: boot_HandleClientFrame_def logging_in_def Current_def worldentry_HandleClientFrame_def
        handle_select_def character moves(2) EncodePhase_def HeaderCharacterSelect_def HeaderEmpireSelect_def
        HeaderCharacterCreate_def HeaderCharacterDelete_def)
  have three: "boot_HandleClientFrame c ?f2 w2 (frame_in EncodeEnterGame) =
      (?f3, w', Inr (sent (EncodePhase PhaseGame) # egBootstrapFrames er @ egTrailingFrames er))"
    using f enter
    by (simp add: boot_HandleClientFrame_def logging_in_def Current_def worldentry_HandleClientFrame_def
        handle_enter_def moves(3) EncodePhase_def EncodeEnterGame_def DecodeEnterGame_def HeaderEnterGame_def
        HeaderClientVersion_def)
  show ?thesis
    using f
    by (simp add: entry_requests_def one two three answers boot_CurrentPhase_def Current_def logging_in_def)
qed

section \<open>The first rounds\<close>

text \<open>A configuration with a secure session that has not started.\<close>

definition secured :: "('w, 'p) boot_config \<Rightarrow> u8 list \<Rightarrow> bool" where
  "secured cfg random \<longleftrightarrow> NextPhase (bcHandshake cfg) \<in> {no_phase, PhaseLogin} \<and>
     SecureSession (bcHandshake cfg) = Some (NewServerSession random)"

definition started_flow :: "('w, 'p) boot_config \<Rightarrow> ('w, 'p) boot_flow" where
  "started_flow cfg = (boot_NewFlow cfg)\<lparr>handshake := (handshake (boot_NewFlow cfg))\<lparr>started := True\<rparr>\<rparr>"

definition login_flow_of :: "('w, 'p) boot_config \<Rightarrow> ('w, 'p) boot_flow" where
  "login_flow_of cfg = (started_flow cfg)\<lparr>machine := \<lparr>current = PhaseLogin\<rparr>\<rparr>"

definition clear_hello :: "KeyChallengePacket \<Rightarrow> u8 list list" where
  "clear_hello challenge = [sent (EncodePhase PhaseHandshake), EncodeKeyChallenge challenge]"

lemma send_clear:
  "\<not> ssActive s \<Longrightarrow> \<not> ssPending s \<Longrightarrow>
   send_frames (\<lambda>_. True) st (boot_session c now) (conn_at f s w d out) outs = (conn_at f s w d (out @ outs), Serving)"
  by (induction outs arbitrary: out)
    (simp_all add: conn_at_def encrypt_with_session ServerSession_EncryptOutgoing_def)

lemma serve_start:
  assumes cfg: "secured cfg random"
    and start: "ServerSession_Start c now (NewServerSession random) = (s1, Inr challenge)"
  shows "serveLegacyConn (\<lambda>_. True) (boot_session c now) (boot_NewFlow cfg, w) evs =
    serve_rounds (\<lambda>_. True) (boot_session c now)
      (conn_at (started_flow cfg) s1 w (NewDecoder 8192) (clear_hello challenge)) evs"
proof -
  have "boot_Start c now (boot_NewFlow cfg) = (with_session (started_flow cfg) s1, Inr (clear_hello challenge))"
    using cfg start EncodePhase_sent(5)
    by (auto simp: boot_Start_def boot_NewFlow_def handshake_NewFlow_def handshake_Start_def started_flow_def
        with_session_def secured_def clear_hello_def isValidNextPhase_def Current_def NewStateMachine_def
        NewStateMachineAt_def EncodePhase_def Let_def)
  moreover have "\<not> ssActive s1" "\<not> ssPending s1"
    using start by (auto simp: ServerSession_Start_def split: prod.splits option.splits bool.splits)
  ultimately show ?thesis
    using send_clear [of s1 StartFrame c now "started_flow cfg" w "NewDecoder 8192" "[]" "clear_hello challenge"]
    by (simp add: serveLegacyConn_def boot_session_def conn_at_def Let_def)
qed

lemma serve_key_response:
  assumes c: "crypto_laws c" and cfg: "secured cfg random"
    and clear: "\<not> ssActive s1" and valid: "length (krClientPublicKey response) = 32" "length (krChallengeResponse response) = 32"
    and s2: "ServerSession_HandleKeyResponse c s1 response = (s2, Inr completion)" and pending: "ssPending s2"
    and hello: "ServerSession_EncryptOutgoing c (s2\<lparr>ssPending := False, ssActive := True\<rparr>)
      (sent (EncodePhase PhaseLogin)) = (s4, Inr hello)"
  shows "serve_round (\<lambda>_. True) (boot_session c now) (conn_at (started_flow cfg) s1 w (NewDecoder 8192) out)
      (Read (EncodeKeyResponse response) None) =
    (conn_at (login_flow_of cfg) s4 w (NewDecoder 8192) (out @ [EncodeKeyComplete completion, hello]), Serving)"
proof -
  let ?raw = "EncodeKeyResponse response"
  have small: "small_frame ?raw" and nonempty: "EncodeKeyComplete completion \<noteq> []"
    using valid by (simp_all add: EncodeKeyResponse_def EncodeKeyComplete_def)
  have fed: "Feed (NewDecoder 8192) ?raw = (NewDecoder 8192, Inr [frame_in ?raw])"
    using Feed_framed [of "NewDecoder 8192" "[?raw]"] small by (simp add: small_frame_def NewDecoder_def)
  have plain: "ServerSession_DecryptIncoming c s1 ?raw = (s1, Inr ?raw)"
    using clear by (simp add: ServerSession_DecryptIncoming_def)
  have "Transition \<lparr>current = PhaseHandshake\<rparr> PhaseLogin = (\<lparr>current = PhaseLogin\<rparr>, None)"
    by (simp add: Transition_def CanTransition_def)
  then have "sfHandleClientFrame (boot_session c now) (with_session (started_flow cfg) s1, w) (frame_in ?raw) =
      ((with_session (login_flow_of cfg) s2, w),
       Inr [EncodeKeyComplete completion, sent (EncodePhase PhaseLogin)])"
    using cfg s2 valid EncodePhase_sent(1) key_response_packet.header_in [of response]
      key_response_packet.decode_encode [of response]
    by (auto simp: boot_session_def boot_HandleClientFrame_def boot_NewFlow_def handshake_NewFlow_def
        started_flow_def login_flow_of_def with_session_def secured_def isValidNextPhase_def Current_def
        NewStateMachine_def NewStateMachineAt_def handshake_HandleClientFrame_def handle_key_response_def
        finish_handshake_def HeaderKeyResponse_def HeaderPong_def HeaderStateChecker_def no_phase_def
        EncodePhase_def Let_def)
  moreover have "send_frames (\<lambda>_. True) ReplyFrame (boot_session c now)
      (conn_at (login_flow_of cfg) s2 w (NewDecoder 8192) out)
      [EncodeKeyComplete completion, sent (EncodePhase PhaseLogin)] =
    (conn_at (login_flow_of cfg) s4 w (NewDecoder 8192) (out @ [EncodeKeyComplete completion, hello]), Serving)"
    using nonempty pending hello
    by (simp add: conn_at_def encrypt_with_session ServerSession_EncryptOutgoing_def [of c s2])
  moreover have "?raw \<noteq> []" using small by (rule small_frame_nonempty)
  ultimately show ?thesis
    using plain fed
    by (auto simp: serve_round_def handle_bytes_def conn_at_def decrypt_with_session after_read_def pipelined_def
        BufferedLen_def NewDecoder_def Let_def)
qed

lemma response_valid:
  "crypto_laws c \<Longrightarrow> ClientSession_HandleKeyChallenge c (NewClientSession random') challenge = (k1, Inr response) \<Longrightarrow>
   length (krClientPublicKey response) = 32 \<and> length (krChallengeResponse response) = 32"
  by (auto simp: ClientSession_HandleKeyChallenge_def generateClientKeyPair_def computeChallengeResponse_def
      crypto_laws_def split: option.splits prod.splits sum.splits if_splits)

lemma logging_in_flow: "secured cfg random \<Longrightarrow> logging_in cfg (login_flow_of cfg)"
  by (auto simp: logging_in_def login_flow_of_def started_flow_def boot_NewFlow_def secured_def Let_def)

text \<open>The first encrypted frame, and the two ends after it.\<close>

lemma first_encrypted:
  assumes ex: "exchanged c s2 k2" and offset: "clTxOffset k2 = 0" and small: "length m \<le> 100"
  obtains s4 hello k3 where
    "ServerSession_EncryptOutgoing c (s2\<lparr>ssPending := False, ssActive := True\<rparr>) m = (s4, Inr hello)"
    "ClientSession_DecryptIncoming c k2 hello = (k3, Inr m)" "in_step c s4 k3"
    "unat (ssTxOffset s4) = length m" "clTxOffset k3 = 0"
proof -
  let ?s3 = "s2\<lparr>ssPending := False, ssActive := True\<rparr>"
  have st: "in_step c ?s3 k2" and zero: "ssTxOffset s2 = 0" "ssRxOffset s2 = 0"
    using ex by (simp_all add: exchanged_def)
  have "unat (ssTxOffset ?s3) + length (concat [m]) \<le> 2 ^ 38" using zero small by simp
  from server_to_client [OF st this] obtain s4 hello
    where s4: "stream_all (ServerSession_EncryptOutgoing c) ?s3 [m] = (s4, Inr hello)"
      "unat (ssTxOffset s4) = length m"
      and recover: "\<And>chs. concat chs = hello \<Longrightarrow>
        \<exists>k'. stream_all (ClientSession_DecryptIncoming c) k2 chs = (k', Inr m) \<and> in_step c s4 k'"
    using zero by auto
  from recover [of "[hello]"] obtain k3
    where k3: "stream_all (ClientSession_DecryptIncoming c) k2 [hello] = (k3, Inr m)" "in_step c s4 k3" by auto
  have "clTxOffset k3 = 0"
    using server_tx_rx [OF s4(1)] zero k3(2) by (simp add: in_step_def)
  with that [of s4 hello k3] s4 k3 show thesis
    by (auto split: prod.splits sum.splits)
qed

text \<open>The requests of an entry, served from the end of the handshake on.\<close>

lemma entry_served:
  assumes step: "in_step c s k" and account: "text_fits 31 (l2Login account)"
    and plays: "boot_plays c f w (map frame_in (entry_requests account index)) = Some (f', w', answers)"
    and game: "boot_CurrentPhase f' = PhaseGame"
    and fresh: "unat (ssTxOffset s) \<le> 100" "clTxOffset k = 0" and room: "length (concat answers) \<le> 2 ^ 37"
    and msgs: "concat msgs = concat (entry_requests account index)"
    and sent: "stream_all (ClientSession_EncryptOutgoing c) k msgs = (k4, Inr wire)"
    and chs: "concat chs = wire" "[] \<notin> set chs"
  shows "\<exists>conn wires k5.
    serve_rounds (\<lambda>_. True) (boot_session c now) (conn_at f s w (NewDecoder 8192) before) (map (\<lambda>ch. Read ch None) chs) =
      (conn, Serving) \<and>
    boot_CurrentPhase (fst (connFlow conn)) = PhaseGame \<and> snd (connFlow conn) = w' \<and> connSent conn = before @ wires \<and>
    stream_all (ClientSession_DecryptIncoming c) k4 wires = (k5, Inr (concat answers))"
proof -
  have small: "\<forall>bs \<in> set (entry_requests account index). small_frame bs"
    using entry_small [OF account] by blast
  have "length (concat (entry_requests account index)) \<le> 100"
    using account by (simp add: entry_requests_def EncodeLogin2_def EncodeCharacterSelect_def EncodeEnterGame_def EnvelopeSize_def)
  then have lim: "unat (clTxOffset k) + length (concat msgs) \<le> 2 ^ 38"
    "unat (ssTxOffset s) + length (concat answers) \<le> 2 ^ 38"
    using fresh room msgs by simp_all
  from secure_stream [OF step small plays msgs sent chs lim, of now before] obtain s' wires k5
    where "serve_rounds (\<lambda>_. True) (boot_session c now) (conn_at f s w (NewDecoder 8192) before) (map (\<lambda>ch. Read ch None) chs) =
        (conn_at f' s' w' (NewDecoder 8192) (before @ wires), Serving)"
      and "stream_all (ClientSession_DecryptIncoming c) k4 wires = (k5, Inr (concat answers))" by blast
  moreover have "boot_CurrentPhase (with_session f' s') = PhaseGame"
    using game by (simp add: with_session_def boot_CurrentPhase_def)
  ultimately show ?thesis by (simp add: conn_at_def)
qed

section \<open>Properties\<close>

text \<open>
  C10: Let a server be configured with a fresh secure session and callbacks that admit an account and
  a character, and let a client answer the key challenge honestly, with enough random bytes left on
  the server. The server's first frames carry the challenge; the client's answer, sent in clear, is met
  with the completion of the exchange, which the client accepts, and a first encrypted frame, which it
  decrypts to the announcement of the login phase. When the client then sends its login, its choice and
  its request to enter, encrypted, however grouped and however cut by the network, the connection is
  in the game, the world is as the callbacks left it, and the client decrypts all the answers in order.
\<close>

theorem honest_client_enters:
  assumes c: "crypto_laws c" and cfg: "secured cfg random"
    and start: "ServerSession_Start c now (NewServerSession random) = (s1, Inr challenge)"
    and answer: "ClientSession_HandleKeyChallenge c (NewClientSession random') challenge = (k1, Inr response)"
    and enough: "56 \<le> length (ssRandom s1)"
    and account: "text_fits 31 (l2Login account)"
    and admitted: "admission cfg w account index = Some (w', answers)" "length (concat answers) \<le> 2 ^ 37"
  shows "\<exists>completion k2 hello k3.
    ClientSession_HandleKeyComplete c k1 completion = (k2, None) \<and>
    ClientSession_DecryptIncoming c k2 hello = (k3, Inr (sent (EncodePhase PhaseLogin))) \<and>
    client_ready c k3 \<and> clTxOffset k3 = 0 \<and>
    (\<forall>msgs k4 wire chs. concat msgs = concat (entry_requests account index) \<longrightarrow>
      stream_all (ClientSession_EncryptOutgoing c) k3 msgs = (k4, Inr wire) \<longrightarrow> concat chs = wire \<longrightarrow> [] \<notin> set chs \<longrightarrow>
      (\<exists>conn wires k5.
        serveLegacyConn (\<lambda>_. True) (boot_session c now) (boot_NewFlow cfg, w)
          (Read (EncodeKeyResponse response) None # map (\<lambda>ch. Read ch None) chs) = (conn, Serving) \<and>
        boot_CurrentPhase (fst (connFlow conn)) = PhaseGame \<and> snd (connFlow conn) = w' \<and>
        connSent conn = clear_hello challenge @ [EncodeKeyComplete completion, hello] @ wires \<and>
        stream_all (ClientSession_DecryptIncoming c) k4 wires = (k5, Inr (concat answers))))"
proof -
  have valid: "length (krClientPublicKey response) = 32" "length (krChallengeResponse response) = 32"
    using response_valid [OF c answer] by simp_all
  have clear: "\<not> ssActive s1"
    using start by (auto simp: ServerSession_Start_def split: prod.splits option.splits bool.splits)
  from honest_exchange [OF c start answer enough] obtain s2 completion k2
    where s2: "ServerSession_HandleKeyResponse c s1 response = (s2, Inr completion)"
      and k2: "ClientSession_HandleKeyComplete c k1 completion = (k2, None)" and ex: "exchanged c s2 k2" by blast
  have zero: "clTxOffset k2 = 0" and pending: "ssPending s2"
    using ex by (auto simp: exchanged_def in_step_def)
  let ?m = "sent (EncodePhase PhaseLogin)"
  have "length ?m \<le> 100" by (simp add: EncodePhase_def EnvelopeSize_def)
  with first_encrypted [OF ex zero] obtain s4 hello k3 where
    hello: "ServerSession_EncryptOutgoing c (s2\<lparr>ssPending := False, ssActive := True\<rparr>) ?m = (s4, Inr hello)"
      "ClientSession_DecryptIncoming c k2 hello = (k3, Inr ?m)" "in_step c s4 k3"
      "unat (ssTxOffset s4) = length ?m" "clTxOffset k3 = 0" by blast
  from admission_plays [OF logging_in_flow [OF cfg] account admitted(1)] obtain f'
    where plays: "boot_plays c (login_flow_of cfg) w (map frame_in (entry_requests account index)) = Some (f', w', answers)"
      and game: "boot_CurrentPhase f' = PhaseGame" by blast
  note first = serve_key_response [OF c cfg clear valid s2 pending hello(1)]
  have "\<exists>conn wires k5.
        serveLegacyConn (\<lambda>_. True) (boot_session c now) (boot_NewFlow cfg, w)
          (Read (EncodeKeyResponse response) None # map (\<lambda>ch. Read ch None) chs) = (conn, Serving) \<and>
        boot_CurrentPhase (fst (connFlow conn)) = PhaseGame \<and> snd (connFlow conn) = w' \<and>
        connSent conn = clear_hello challenge @ [EncodeKeyComplete completion, hello] @ wires \<and>
        stream_all (ClientSession_DecryptIncoming c) k4 wires = (k5, Inr (concat answers))"
    if "concat msgs = concat (entry_requests account index)"
      and "stream_all (ClientSession_EncryptOutgoing c) k3 msgs = (k4, Inr wire)"
      and "concat chs = wire" "[] \<notin> set chs" for msgs k4 wire chs
    using entry_served [OF hello(3) account plays game _ _ admitted(2) that, of now
        "clear_hello challenge @ [EncodeKeyComplete completion, hello]"] hello(4,5)
    by (simp add: serve_start [OF cfg start] first EncodePhase_def EnvelopeSize_def)
  moreover have "client_ready c k3" using hello(3) by (simp add: in_step_def)
  ultimately show ?thesis using k2 hello(2,5) by blast
qed

definition secure_config :: "(unit, unit) boot_config" where
  "secure_config = open_config\<lparr>bcHandshake :=
     (bcHandshake open_config)\<lparr>SecureSession := Some (NewServerSession (replicate 120 7))\<rparr>\<rparr>"

theorem honest_client_enters_witness:
  "\<exists>response wire conn. serveLegacyConn (\<lambda>_. True) (boot_session plain_crypto 9) (boot_NewFlow secure_config, ())
      [Read (EncodeKeyResponse response) None, Read wire None] = (conn, Serving) \<and>
    boot_CurrentPhase (fst (connFlow conn)) = PhaseGame"
proof -
  have cfg: "secured secure_config (replicate 120 7)"
    by (simp add: secured_def secure_config_def open_config_def)
  obtain s1 challenge where start: "ServerSession_Start plain_crypto 9 (NewServerSession (replicate 120 7)) = (s1, Inr challenge)"
      and s1: "length (ssRandom s1) = 56" "length (kcServerPublicKey challenge) = 32"
    by (simp add: ServerSession_Start_def generateServerKeyPair_def NewServerSession_def read_full_def plain_crypto_def)
  obtain k1 response where answer:
      "ClientSession_HandleKeyChallenge plain_crypto (NewClientSession (replicate 32 5)) challenge = (k1, Inr response)"
    using s1(2) by (simp add: ClientSession_HandleKeyChallenge_def generateClientKeyPair_def NewClientSession_def
        deriveClientSessionKeys_def deriveSharedKeys_def plain_crypto_def)
  let ?account = "\<lparr>l2Login = ''mikel'', l2LoginKey = 7\<rparr>"
  have "case admission secure_config () ?account 0 of None \<Rightarrow> False | Some (w', answers) \<Rightarrow> length (concat answers) \<le> 4000"
    by code_simp
  then obtain answers where admitted: "admission secure_config () ?account 0 = Some ((), answers)"
      "length (concat answers) \<le> 2 ^ 37"
    by (auto split: option.splits)
  have enough: "56 \<le> length (ssRandom s1)" and account: "text_fits 31 (l2Login ?account)"
    using s1 by (simp, code_simp)
  from honest_client_enters [OF plain_crypto_laws cfg start answer enough account admitted] obtain k3
    where k3: "client_ready plain_crypto k3" "clTxOffset k3 = 0"
      and enters: "\<And>msgs k4 wire chs. concat msgs = concat (entry_requests ?account 0) \<Longrightarrow>
        stream_all (ClientSession_EncryptOutgoing plain_crypto) k3 msgs = (k4, Inr wire) \<Longrightarrow>
        concat chs = wire \<Longrightarrow> [] \<notin> set chs \<Longrightarrow>
        \<exists>conn. serveLegacyConn (\<lambda>_. True) (boot_session plain_crypto 9) (boot_NewFlow secure_config, ())
          (Read (EncodeKeyResponse response) None # map (\<lambda>ch. Read ch None) chs) = (conn, Serving) \<and>
          boot_CurrentPhase (fst (connFlow conn)) = PhaseGame"
    by blast
  let ?msgs = "entry_requests ?account 0"
  have "length (concat ?msgs) = 48"
    by code_simp
  with client_tx.stream_all_ready [OF k3(1), of ?msgs] k3(2) obtain k4 wire
    where wire: "stream_all (ClientSession_EncryptOutgoing plain_crypto) k3 ?msgs = (k4, Inr wire)" "wire \<noteq> []"
    by (auto simp flip: length_greater_0_conv)
  from enters [OF refl wire(1), of "[wire]"] wire(2) show ?thesis by fastforce
qed

end
