(* ===== verification/Go_Strings.thy ===== *)
theory Go_Strings
  imports Prelude "HOL-Library.Char_ord"
begin

text \<open>
  The part of Go's \<open>strings\<close>, \<open>unicode/utf8\<close> and \<open>fmt\<close> packages the modelled code
  uses. A Go string is a sequence of bytes, here a HOL \<open>string\<close> whose characters are
  the bytes; text beyond ASCII is its UTF-8 encoding.
\<close>

section \<open>UTF-8 validity\<close>

text \<open>
  \<open>utf8.ValidString\<close>: the well-formed byte sequences of RFC 3629 (no overlong forms,
  no surrogates, nothing above U+10FFFF).
\<close>

definition code :: "char \<Rightarrow> nat" where
  "code c = of_char c"

definition in_range :: "nat \<Rightarrow> nat \<Rightarrow> char \<Rightarrow> bool" where
  "in_range lo hi c \<longleftrightarrow> lo \<le> code c \<and> code c \<le> hi"

fun utf8_valid :: "string \<Rightarrow> bool" where
  "utf8_valid [] = True"
| "utf8_valid (b # bs) =
     (if code b < 128 then utf8_valid bs
      else if in_range 194 223 b then
        (case bs of c # r \<Rightarrow> in_range 128 191 c \<and> utf8_valid r | _ \<Rightarrow> False)
      else if in_range 224 239 b then
        (case bs of c # d # r \<Rightarrow>
           in_range (if code b = 224 then 160 else 128) (if code b = 237 then 159 else 191) c \<and>
           in_range 128 191 d \<and> utf8_valid r
         | _ \<Rightarrow> False)
      else if in_range 240 244 b then
        (case bs of c # d # e # r \<Rightarrow>
           in_range (if code b = 240 then 144 else 128) (if code b = 244 then 143 else 191) c \<and>
           in_range 128 191 d \<and> in_range 128 191 e \<and> utf8_valid r
         | _ \<Rightarrow> False)
      else False)"

section \<open>White space\<close>

text \<open>
  The encodings of the runes with \<open>unicode.IsSpace\<close>: six ASCII characters, U+0085,
  U+00A0, U+1680, U+2000 to U+200A, U+2028, U+2029, U+202F, U+205F and U+3000.
\<close>

definition space_codes :: "nat list list" where
  "space_codes =
     [[9], [10], [11], [12], [13], [32], [194, 133], [194, 160], [225, 154, 128],
      [226, 128, 128], [226, 128, 129], [226, 128, 130], [226, 128, 131], [226, 128, 132],
      [226, 128, 133], [226, 128, 134], [226, 128, 135], [226, 128, 136], [226, 128, 137],
      [226, 128, 138], [226, 128, 168], [226, 128, 169], [226, 128, 175],
      [226, 129, 159], [227, 128, 128]]"

definition space_runes :: "string list" where
  "space_runes = map (map char_of) space_codes"

fun strip_prefix :: "'a list \<Rightarrow> 'a list \<Rightarrow> 'a list option" where
  "strip_prefix [] ys = Some ys"
| "strip_prefix (x # xs) [] = None"
| "strip_prefix (x # xs) (y # ys) = (if x = y then strip_prefix xs ys else None)"

fun strip_any :: "'a list list \<Rightarrow> 'a list \<Rightarrow> 'a list option" where
  "strip_any [] ys = None"
| "strip_any (p # ps) ys =
     (case strip_prefix p ys of Some r \<Rightarrow> Some r | None \<Rightarrow> strip_any ps ys)"

function trim_runes :: "'a list list \<Rightarrow> 'a list \<Rightarrow> 'a list" where
  "trim_runes ps s =
     (case strip_any ps s of
        Some r \<Rightarrow> if length r < length s then trim_runes ps r else s
      | None \<Rightarrow> s)"
  by pat_completeness auto
termination by (relation "measure (\<lambda>(ps, s). length s)") auto

declare trim_runes.simps [simp del]

text \<open>\<open>strings.TrimSpace\<close>: white space removed at both ends.\<close>

definition trim_space :: "string \<Rightarrow> string" where
  "trim_space s =
     rev (trim_runes (map rev space_runes) (rev (trim_runes space_runes s)))"

lemma trim_runes_id: "strip_any ps s = None \<Longrightarrow> trim_runes ps s = s"
  by (simp add: trim_runes.simps)

lemma trim_space_Nil [simp]: "trim_space [] = []"
proof -
  have "strip_any space_runes [] = None" and "strip_any (map rev space_runes) [] = None"
    by (simp_all add: space_runes_def space_codes_def)
  then show ?thesis by (simp add: trim_space_def trim_runes_id)
qed

section \<open>Lower case\<close>

text \<open>
  \<open>strings.ToLower\<close>, as far as it can produce ASCII: the letters A to Z, and the two
  runes outside ASCII whose lower case is ASCII (U+0130 and U+212A). Other runes stay
  outside ASCII under Go's mapping and are left as they are; the code compares the
  result with ASCII literals only, for which this makes no difference.
\<close>

fun to_lower :: "string \<Rightarrow> string" where
  "to_lower [] = []"
| "to_lower (c # cs) =
     (if in_range 65 90 c then char_of (code c + 32) # to_lower cs
      else case cs of
        d # e # r \<Rightarrow>
          (if code c = 226 \<and> code d = 132 \<and> code e = 170 then CHR ''k'' # to_lower r
           else if code c = 196 \<and> code d = 176 then CHR ''i'' # to_lower (e # r)
           else c # to_lower cs)
      | [d] \<Rightarrow> (if code c = 196 \<and> code d = 176 then [CHR ''i''] else c # to_lower cs)
      | [] \<Rightarrow> [c])"

section \<open>Substrings and decimal rendering\<close>

text \<open>\<open>strings.ContainsRune(s, '\x00')\<close>.\<close>

definition contains_nul :: "string \<Rightarrow> bool" where
  "contains_nul s \<longleftrightarrow> CHR 0x00 \<in> set s"

text \<open>The decimal digits of \<open>fmt\<close>'s \<open>%d\<close> on an unsigned value.\<close>

fun decimal :: "nat \<Rightarrow> string" where
  "decimal n = (if n < 10 then [char_of (48 + n)] else decimal (n div 10) @ [char_of (48 + n mod 10)])"

declare decimal.simps [simp del]

text \<open>A decimal number determines its value, and a field that lacks the separator ends before the first one.\<close>

definition digits_value :: "string \<Rightarrow> nat" where
  "digits_value s = foldl (\<lambda>n c. 10 * n + (code c - 48)) 0 s"

lemma code_char_of [simp]: "n < 256 \<Longrightarrow> code (char_of n) = n"
  by (simp add: code_def)

lemma digits_value_decimal: "digits_value (decimal n) = n"
proof (induction n rule: decimal.induct)
  case (1 n)
  then show ?case by (subst decimal.simps) (simp add: digits_value_def)
qed

lemma decimal_inj [simp]: "decimal m = decimal n \<longleftrightarrow> m = n"
  by (metis digits_value_decimal)

lemma decimal_digits: "c \<in> set (decimal n) \<Longrightarrow> in_range 48 57 c"
proof (induction n rule: decimal.induct)
  case (1 n)
  then show ?case by (subst (asm) (2) decimal.simps) (auto simp: in_range_def split: if_splits)
qed

lemma before_separator: "x \<notin> set us \<Longrightarrow> x \<notin> set vs \<Longrightarrow> us @ x # us' = vs @ x # vs' \<longleftrightarrow> us = vs \<and> us' = vs'"
proof (induction us arbitrary: vs)
  case Nil
  then show ?case by (cases vs) auto
next
  case (Cons u us)
  then show ?case by (cases vs) auto
qed

section \<open>Plain names\<close>

text \<open>Names that begin and end with visible ASCII characters are left alone; without capitals also in lower case.\<close>

definition visible_char :: "char \<Rightarrow> bool" where
  "visible_char c \<longleftrightarrow> 33 \<le> code c \<and> code c < 128"

definition plain_char :: "char \<Rightarrow> bool" where
  "plain_char c \<longleftrightarrow> 33 \<le> code c \<and> code c < 128 \<and> \<not> in_range 65 90 c"

lemma strip_prefix_SomeD: "strip_prefix p s = Some r \<Longrightarrow> s = p @ r"
  by (induction p s rule: strip_prefix.induct) (auto split: if_splits)

lemma strip_any_SomeD: "strip_any ps s = Some r \<Longrightarrow> \<exists>p \<in> set ps. s = p @ r"
  by (induction ps) (auto split: option.splits dest: strip_prefix_SomeD)

lemma strip_prefix_append [simp]: "strip_prefix p (p @ r) = Some r"
  by (induction p) simp_all

lemma strip_prefix_None_iff: "strip_prefix p s = None \<longleftrightarrow> (\<forall>r. s \<noteq> p @ r)"
proof (cases "strip_prefix p s")
  case (Some r)
  then show ?thesis using strip_prefix_SomeD [OF Some] by simp
qed auto

lemma strip_any_None_iff: "strip_any ps s = None \<longleftrightarrow> (\<forall>p \<in> set ps. strip_prefix p s = None)"
  by (induction ps) (simp_all split: option.split)

lemma trim_runes_spec:
  "[] \<notin> set ps \<Longrightarrow> (\<exists>u. s = u @ trim_runes ps s) \<and> strip_any ps (trim_runes ps s) = None"
proof (induction ps s rule: trim_runes.induct)
  case (1 ps s)
  show ?case
  proof (cases "strip_any ps s")
    case None
    then show ?thesis by (simp add: trim_runes_id)
  next
    case (Some r)
    then obtain p where p: "p \<in> set ps" "s = p @ r" using strip_any_SomeD by blast
    then have len: "length r < length s" using "1.prems" by (cases p) auto
    then have t: "trim_runes ps s = trim_runes ps r" using Some by (simp add: trim_runes.simps [of ps s])
    obtain u where u: "r = u @ trim_runes ps r" and n: "strip_any ps (trim_runes ps r) = None"
      using "1.IH" [OF Some len "1.prems"] by blast
    have "s = (p @ u) @ trim_runes ps s" unfolding t append.assoc u [symmetric] by (rule p(2))
    with n show ?thesis unfolding t by blast
  qed
qed

lemma space_runes_ends:
  "p \<in> set space_runes \<Longrightarrow> p \<noteq> [] \<and> \<not> visible_char (hd p) \<and> \<not> visible_char (last p)"
proof -
  assume "p \<in> set space_runes"
  then obtain q where q: "q \<in> set space_codes" and p: "p = map char_of q"
    by (auto simp: space_runes_def)
  have "list_all (\<lambda>q. q \<noteq> [] \<and> (hd q < 33 \<or> 128 \<le> hd q) \<and> (last q < 33 \<or> 128 \<le> last q) \<and>
      hd q < 256 \<and> last q < 256) space_codes"
    by (simp add: space_codes_def)
  with q have "q \<noteq> [] \<and> (hd q < 33 \<or> 128 \<le> hd q) \<and> (last q < 33 \<or> 128 \<le> last q) \<and>
      hd q < 256 \<and> last q < 256"
    by (auto simp: list_all_iff)
  then show ?thesis
    by (auto simp: p visible_char_def code_def hd_map last_map)
qed

lemma strip_any_visible:
  assumes "\<forall>p \<in> set ps. p \<noteq> [] \<and> \<not> visible_char (hd p)" and "s = [] \<or> visible_char (hd s)"
  shows "strip_any ps s = None"
proof (rule ccontr)
  assume "strip_any ps s \<noteq> None"
  then obtain r p where "p \<in> set ps" and "s = p @ r"
    using strip_any_SomeD by blast
  with assms show False by auto
qed

lemma trim_space_visible:
  assumes "s = [] \<or> visible_char (hd s) \<and> visible_char (last s)"
  shows "trim_space s = s"
proof -
  have "strip_any space_runes s = None"
    using assms space_runes_ends by (intro strip_any_visible) auto
  moreover have "strip_any (map rev space_runes) (rev s) = None"
    using assms space_runes_ends by (intro strip_any_visible) (auto simp: hd_rev)
  ultimately show ?thesis by (simp add: trim_space_def trim_runes_id)
qed

lemma plain_visible: "plain_char c \<Longrightarrow> visible_char c"
  by (simp add: plain_char_def visible_char_def)

lemma trim_space_plain: "s = [] \<or> plain_char (hd s) \<and> plain_char (last s) \<Longrightarrow> trim_space s = s"
  using plain_visible by (intro trim_space_visible) blast

text \<open>A trimmed string has no white space left at either end.\<close>

lemma trim_space_twice [simp]: "trim_space (trim_space s) = trim_space s"
proof -
  define a where "a = trim_runes space_runes s"
  define b where "b = rev (trim_runes (map rev space_runes) (rev a))"
  have ne: "[] \<notin> set space_runes" "[] \<notin> set (map rev space_runes)"
    using space_runes_ends by auto
  have a: "strip_any space_runes a = None" unfolding a_def using trim_runes_spec [OF ne(1)] by blast
  have r: "strip_any (map rev space_runes) (rev b) = None"
    unfolding b_def using trim_runes_spec [OF ne(2), of "rev a"] by simp
  obtain u where "rev a = u @ rev b" unfolding b_def using trim_runes_spec [OF ne(2), of "rev a"] by auto
  then have "a = b @ rev u" by (metis rev_append rev_rev_ident)
  with a have l: "strip_any space_runes b = None" by (auto simp: strip_any_None_iff strip_prefix_None_iff)
  have "trim_space b = b" by (simp add: trim_space_def trim_runes_id [OF l] trim_runes_id [OF r])
  moreover have "trim_space s = b" by (simp add: trim_space_def a_def b_def)
  ultimately show ?thesis by simp
qed

lemma to_lower_plain_Cons:
  assumes "plain_char c"
  shows "to_lower (c # cs) = c # to_lower cs"
proof -
  have "\<not> in_range 65 90 c" "code c \<noteq> 226" "code c \<noteq> 196"
    using assms by (simp_all add: plain_char_def)
  then show ?thesis by (simp split: list.split)
qed

declare to_lower.simps(2) [simp del]

lemma to_lower_plain: "\<forall>c \<in> set s. plain_char c \<Longrightarrow> to_lower s = s"
  by (induction s) (simp_all add: to_lower_plain_Cons)

lemmas plain_simps = plain_char_def code_def in_range_def

end
