(* ===== verification/Inventory.thy ===== *)
theory Inventory
  imports Go_Strings
begin

text \<open>
  \<open>internal/inventory\<close>: equipment slots and their names (\<open>slots.go\<close>), item instances, their
  validity and the move of an instance to a carried cell (\<open>model.go\<close>). Pointers to socket and
  attribute arrays are options: the code replaces such a pointer but never writes through it,
  so a copied pointer and a cloned array are the same value here.
\<close>

section \<open>Equipment slots\<close>

type_synonym slot_index = u16
type_synonym equipment_slot = u8

definition EquipmentSlotNone :: equipment_slot where "EquipmentSlotNone = 0"
definition EquipmentSlotBody :: equipment_slot where "EquipmentSlotBody = 1"
definition EquipmentSlotWeapon :: equipment_slot where "EquipmentSlotWeapon = 2"
definition EquipmentSlotHead :: equipment_slot where "EquipmentSlotHead = 3"
definition EquipmentSlotHair :: equipment_slot where "EquipmentSlotHair = 4"
definition EquipmentSlotShield :: equipment_slot where "EquipmentSlotShield = 5"
definition EquipmentSlotWrist :: equipment_slot where "EquipmentSlotWrist = 6"
definition EquipmentSlotShoes :: equipment_slot where "EquipmentSlotShoes = 7"
definition EquipmentSlotNeck :: equipment_slot where "EquipmentSlotNeck = 8"
definition EquipmentSlotEar :: equipment_slot where "EquipmentSlotEar = 9"
definition EquipmentSlotUnique1 :: equipment_slot where "EquipmentSlotUnique1 = 10"
definition EquipmentSlotUnique2 :: equipment_slot where "EquipmentSlotUnique2 = 11"
definition EquipmentSlotArrow :: equipment_slot where "EquipmentSlotArrow = 12"

lemmas equipment_slot_defs =
  EquipmentSlotNone_def EquipmentSlotBody_def EquipmentSlotWeapon_def EquipmentSlotHead_def
  EquipmentSlotHair_def EquipmentSlotShield_def EquipmentSlotWrist_def EquipmentSlotShoes_def
  EquipmentSlotNeck_def EquipmentSlotEar_def EquipmentSlotUnique1_def EquipmentSlotUnique2_def
  EquipmentSlotArrow_def

definition equipmentSlotOrder :: "equipment_slot list" where
  "equipmentSlotOrder =
     [EquipmentSlotBody, EquipmentSlotWeapon, EquipmentSlotHead, EquipmentSlotHair,
      EquipmentSlotShield, EquipmentSlotWrist, EquipmentSlotShoes, EquipmentSlotNeck,
      EquipmentSlotEar, EquipmentSlotUnique1, EquipmentSlotUnique2, EquipmentSlotArrow]"

definition AllEquipmentSlots :: "equipment_slot list" where
  "AllEquipmentSlots = equipmentSlotOrder"

definition Valid :: "equipment_slot \<Rightarrow> bool" where
  "Valid s \<longleftrightarrow>
     s = EquipmentSlotBody \<or> s = EquipmentSlotWeapon \<or> s = EquipmentSlotHead \<or>
     s = EquipmentSlotHair \<or> s = EquipmentSlotShield \<or> s = EquipmentSlotWrist \<or>
     s = EquipmentSlotShoes \<or> s = EquipmentSlotNeck \<or> s = EquipmentSlotEar \<or>
     s = EquipmentSlotUnique1 \<or> s = EquipmentSlotUnique2 \<or> s = EquipmentSlotArrow"

definition EquipmentSlot_String :: "equipment_slot \<Rightarrow> string" where
  "EquipmentSlot_String s =
     (if s = EquipmentSlotNone then ''none''
      else if s = EquipmentSlotBody then ''body''
      else if s = EquipmentSlotWeapon then ''weapon''
      else if s = EquipmentSlotHead then ''head''
      else if s = EquipmentSlotHair then ''hair''
      else if s = EquipmentSlotShield then ''shield''
      else if s = EquipmentSlotWrist then ''wrist''
      else if s = EquipmentSlotShoes then ''shoes''
      else if s = EquipmentSlotNeck then ''neck''
      else if s = EquipmentSlotEar then ''ear''
      else if s = EquipmentSlotUnique1 then ''unique1''
      else if s = EquipmentSlotUnique2 then ''unique2''
      else if s = EquipmentSlotArrow then ''arrow''
      else ''EquipmentSlot('' @ decimal (unat s) @ '')'')"

definition ParseEquipmentSlot :: "string \<Rightarrow> equipment_slot option" where
  "ParseEquipmentSlot name =
     (let n = to_lower (trim_space name) in
      if n = ''none'' then Some EquipmentSlotNone
      else if n = ''body'' then Some EquipmentSlotBody
      else if n = ''weapon'' then Some EquipmentSlotWeapon
      else if n = ''head'' then Some EquipmentSlotHead
      else if n = ''hair'' then Some EquipmentSlotHair
      else if n = ''shield'' then Some EquipmentSlotShield
      else if n = ''wrist'' then Some EquipmentSlotWrist
      else if n = ''shoes'' then Some EquipmentSlotShoes
      else if n = ''neck'' then Some EquipmentSlotNeck
      else if n = ''ear'' then Some EquipmentSlotEar
      else if n = ''unique1'' then Some EquipmentSlotUnique1
      else if n = ''unique2'' then Some EquipmentSlotUnique2
      else if n = ''arrow'' then Some EquipmentSlotArrow
      else None)"

section \<open>Item instances\<close>

definition CarriedInventorySlotCount :: slot_index where
  "CarriedInventorySlotCount = 90"

record attribute =
  aType :: u8
  aValue :: i16

type_synonym socket_values = "i32 list"
type_synonym attribute_values = "attribute list"

record item_instance =
  ID :: u64
  Vnum :: u32
  Count :: u16
  Slot :: slot_index
  Equipped :: bool
  EquipSlot :: equipment_slot
  Locked :: bool
  Sockets :: "socket_values option"
  Attributes :: "attribute_values option"

text \<open>Go's zero value \<open>ItemInstance{}\<close>.\<close>

definition zero_item :: item_instance where
  "zero_item = \<lparr>ID = 0, Vnum = 0, Count = 0, Slot = 0, Equipped = False, EquipSlot = 0,
                Locked = False, Sockets = None, Attributes = None\<rparr>"

definition HasSockets :: "item_instance \<Rightarrow> bool" where
  "HasSockets i \<longleftrightarrow> Sockets i \<noteq> None"

definition CloneSockets :: "item_instance \<Rightarrow> socket_values option" where
  "CloneSockets i = (case Sockets i of None \<Rightarrow> None | Some copied \<Rightarrow> Some copied)"

definition EffectiveSockets :: "item_instance \<Rightarrow> socket_values \<Rightarrow> socket_values" where
  "EffectiveSockets i fallback = (case Sockets i of Some s \<Rightarrow> s | None \<Rightarrow> fallback)"

definition HasAttributes :: "item_instance \<Rightarrow> bool" where
  "HasAttributes i \<longleftrightarrow> Attributes i \<noteq> None"

definition CloneAttributes :: "item_instance \<Rightarrow> attribute_values option" where
  "CloneAttributes i = (case Attributes i of None \<Rightarrow> None | Some copied \<Rightarrow> Some copied)"

definition EffectiveAttributes :: "item_instance \<Rightarrow> attribute_values \<Rightarrow> attribute_values" where
  "EffectiveAttributes i fallback = (case Attributes i of Some a \<Rightarrow> a | None \<Rightarrow> fallback)"

record move_result =
  Changed :: bool
  From :: slot_index
  To :: slot_index
  FromOccupied :: bool
  FromItem :: item_instance
  ToOccupied :: bool
  ToItem :: item_instance
  CountOnly :: bool
  CompatibleSwap :: bool
  ForcedSwap :: bool

text \<open>\<open>MoveResult{From: from, To: to}\<close>.\<close>

definition new_move :: "slot_index \<Rightarrow> slot_index \<Rightarrow> move_result" where
  "new_move from to = \<lparr>Changed = False, From = from, To = to, FromOccupied = False,
     FromItem = zero_item, ToOccupied = False, ToItem = zero_item, CountOnly = False,
     CompatibleSwap = False, ForcedSwap = False\<rparr>"

datatype item_error =
    ErrItemInstanceIDRequired
  | ErrItemVnumRequired
  | ErrItemCountRequired
  | ErrEquippedItemSlotRequired string
  | ErrUnequippedItemSlotMustBeNone string
  | ErrInventorySlotOutOfRange slot_index

definition Validate :: "item_instance \<Rightarrow> item_error option" where
  "Validate i =
     (if ID i = 0 then Some ErrItemInstanceIDRequired
      else if Vnum i = 0 then Some ErrItemVnumRequired
      else if Count i = 0 then Some ErrItemCountRequired
      else if Equipped i then
        (if \<not> Valid (EquipSlot i)
         then Some (ErrEquippedItemSlotRequired (EquipmentSlot_String (EquipSlot i)))
         else None)
      else if EquipSlot i \<noteq> EquipmentSlotNone
        then Some (ErrUnequippedItemSlotMustBeNone (EquipmentSlot_String (EquipSlot i)))
      else None)"

definition WithInventorySlot :: "item_instance \<Rightarrow> slot_index \<Rightarrow> item_error + item_instance" where
  "WithInventorySlot i slot =
     (if CarriedInventorySlotCount \<le> slot then Inl (ErrInventorySlotOutOfRange slot)
      else
        let updated = i\<lparr>Slot := slot, Equipped := False, EquipSlot := EquipmentSlotNone,
                        Sockets := CloneSockets i, Attributes := CloneAttributes i\<rparr> in
        case Validate updated of Some e \<Rightarrow> Inl e | None \<Rightarrow> Inr updated)"

section \<open>Facts about slots and instances\<close>

lemma CloneSockets_eq [simp]: "CloneSockets i = Sockets i"
  by (cases "Sockets i") (simp_all add: CloneSockets_def)

lemma CloneAttributes_eq [simp]: "CloneAttributes i = Attributes i"
  by (cases "Attributes i") (simp_all add: CloneAttributes_def)

lemma Valid_iff_order: "Valid s \<longleftrightarrow> s \<in> set AllEquipmentSlots"
  by (simp add: Valid_def AllEquipmentSlots_def equipmentSlotOrder_def)

lemma not_Valid_None [simp]: "\<not> Valid EquipmentSlotNone"
  by (simp add: Valid_def equipment_slot_defs)

text \<open>A carried cell: an unequipped, valid instance. A worn one: an equipped, valid instance.\<close>

lemma Validate_None_iff:
  "Validate i = None \<longleftrightarrow> ID i \<noteq> 0 \<and> Vnum i \<noteq> 0 \<and> Count i \<noteq> 0 \<and>
     (if Equipped i then Valid (EquipSlot i) else EquipSlot i = EquipmentSlotNone)"
  by (auto simp: Validate_def)

lemma WithInventorySlot_Inr_iff:
  "WithInventorySlot i slot = Inr j \<longleftrightarrow>
     slot < CarriedInventorySlotCount \<and> ID i \<noteq> 0 \<and> Vnum i \<noteq> 0 \<and> Count i \<noteq> 0 \<and>
     j = i\<lparr>Slot := slot, Equipped := False, EquipSlot := EquipmentSlotNone\<rparr>"
  by (auto simp: WithInventorySlot_def Let_def Validate_def not_le split: option.splits if_splits)

lemma WithInventorySlot_Inl_iff:
  "(\<exists>e. WithInventorySlot i slot = Inl e) \<longleftrightarrow>
     \<not> (slot < CarriedInventorySlotCount \<and> ID i \<noteq> 0 \<and> Vnum i \<noteq> 0 \<and> Count i \<noteq> 0)"
proof (cases "WithInventorySlot i slot")
  case (Inl e)
  then show ?thesis using WithInventorySlot_Inr_iff [of i slot] by auto
next
  case (Inr j)
  then show ?thesis using WithInventorySlot_Inr_iff [of i slot j] by simp
qed

lemma ParseEquipmentSlot_SomeD:
  assumes "ParseEquipmentSlot name = Some e"
  shows "to_lower (trim_space name) = EquipmentSlot_String e \<and> (e = EquipmentSlotNone \<or> Valid e)"
proof -
  obtain n where n: "n = to_lower (trim_space name)" by simp
  show ?thesis
    using assms unfolding ParseEquipmentSlot_def Let_def n [symmetric]
    by (simp split: if_split_asm; simp add: EquipmentSlot_String_def equipment_slot_defs Valid_def; fastforce)
qed

lemma EquipmentSlot_String_plain:
  assumes "s = EquipmentSlotNone \<or> Valid s"
  shows "\<forall>c \<in> set (EquipmentSlot_String s). plain_char c" and "EquipmentSlot_String s \<noteq> []"
proof -
  have "EquipmentSlot_String s \<in> {''none'', ''body'', ''weapon'', ''head'', ''hair'', ''shield'',
      ''wrist'', ''shoes'', ''neck'', ''ear'', ''unique1'', ''unique2'', ''arrow''}"
    using assms by (auto simp: Valid_def EquipmentSlot_String_def)
  then show "\<forall>c \<in> set (EquipmentSlot_String s). plain_char c" and "EquipmentSlot_String s \<noteq> []"
    by (auto simp: plain_simps)
qed

text \<open>
  \<open>ParseEquipmentSlot\<close> reads back what \<open>String\<close> prints, for \<open>none\<close> and for every valid
  slot, and the names of different slots differ.
\<close>

theorem ParseEquipmentSlot_String:
  assumes "s = EquipmentSlotNone \<or> Valid s"
  shows "ParseEquipmentSlot (EquipmentSlot_String s) = Some s"
proof -
  have "to_lower (trim_space (EquipmentSlot_String s)) = EquipmentSlot_String s"
    using EquipmentSlot_String_plain [OF assms] by (simp add: trim_space_plain to_lower_plain)
  with assms show ?thesis
    by (auto simp: ParseEquipmentSlot_def Valid_def EquipmentSlot_String_def equipment_slot_defs)
qed

theorem ParseEquipmentSlot_String_witness:
  "ParseEquipmentSlot (EquipmentSlot_String EquipmentSlotUnique2) = Some EquipmentSlotUnique2"
  by (rule ParseEquipmentSlot_String) (simp add: Valid_def)

end
