(* ===== verification/ItemTemplates.thy ===== *)
theory ItemTemplates
  imports Inventory
begin

text \<open>
  \<open>internal/itemstore/store.go\<close>: the authored item templates, their normalisation and the
  validity rules that the runtime checks before every use of a template. Pointers to effects
  are options; the arrays of sockets and attributes are lists.
\<close>

section \<open>Templates\<close>

definition MaxPickupRange :: u16 where "MaxPickupRange = 10000"
definition MaxSpecialEffectType :: u8 where "MaxSpecialEffectType = 25"
definition MaxRefineMaterialCount :: nat where "MaxRefineMaterialCount = 5"

record point_effect =
  ePointType :: u8
  ePointIndex :: u8
  ePointDelta :: i32

record refine_material =
  mVnum :: u32
  mCount :: i32

record refine_info =
  ResultVnum :: u32
  Cost :: i32
  Probability :: i32
  KeepOnFail :: bool
  FailResultVnum :: u32
  Materials :: "refine_material list"

record use_effect =
  uPointType :: u8
  uPointIndex :: u8
  uPointDelta :: i32
  uConsumeCount :: u16
  uMessage :: string
  uInfoMessage :: string
  uSpecialEffectType :: u8

record template =
  tVnum :: u32
  tName :: string
  tStackable :: bool
  tMaxCount :: u16
  tShopBuyPrice :: u64
  tShopSellPrice :: u64
  tRefineable :: bool
  tRefineRejectText :: string
  tRefineInfo :: "refine_info option"
  tSave :: bool
  tSellCountPerGold :: bool
  tSlowQuery :: bool
  tHighlight :: bool
  tRare :: bool
  tUnique :: bool
  tMakeCount :: bool
  tIrremovable :: bool
  tConfirmWhenUse :: bool
  tQuestUse :: bool
  tQuestUseMultiple :: bool
  tLog :: bool
  tApplicable :: bool
  tAppearanceVnum :: u32
  tAntiSell :: bool
  tAntiDrop :: bool
  tAntiGive :: bool
  tGiveRejectText :: string
  tAntiStack :: bool
  tAntiGet :: bool
  tAntiMale :: bool
  tAntiFemale :: bool
  tAntiWarrior :: bool
  tAntiAssassin :: bool
  tAntiSura :: bool
  tAntiShaman :: bool
  tAntiEmpireA :: bool
  tAntiEmpireB :: bool
  tAntiEmpireC :: bool
  tAntiSave :: bool
  tAntiPKDrop :: bool
  tAntiMyShop :: bool
  tMyShopRejectText :: string
  tAntiSafebox :: bool
  tSafeboxRejectText :: string
  tMinLevel :: u8
  tEquipSlot :: string
  tSockets :: socket_values
  tAttributes :: attribute_values
  tUseEffect :: "use_effect option"
  tUseRejectText :: string
  tBuyRejectText :: string
  tEquipEffect :: "point_effect option"
  tDropRejectText :: string
  tPickupRejectText :: string
  tPickupRange :: u16
  tSellRejectText :: string
  tEquipRejectText :: string
  tUnequipRejectText :: string

text \<open>Go's zero value \<open>Template{}\<close>.\<close>

definition zero_template :: template where
  "zero_template = \<lparr>tVnum = 0, tName = [], tStackable = False, tMaxCount = 0, tShopBuyPrice = 0,
     tShopSellPrice = 0, tRefineable = False, tRefineRejectText = [], tRefineInfo = None,
     tSave = False, tSellCountPerGold = False, tSlowQuery = False, tHighlight = False,
     tRare = False, tUnique = False, tMakeCount = False, tIrremovable = False,
     tConfirmWhenUse = False, tQuestUse = False, tQuestUseMultiple = False, tLog = False,
     tApplicable = False, tAppearanceVnum = 0, tAntiSell = False, tAntiDrop = False,
     tAntiGive = False, tGiveRejectText = [], tAntiStack = False, tAntiGet = False,
     tAntiMale = False, tAntiFemale = False, tAntiWarrior = False, tAntiAssassin = False,
     tAntiSura = False, tAntiShaman = False, tAntiEmpireA = False, tAntiEmpireB = False,
     tAntiEmpireC = False, tAntiSave = False, tAntiPKDrop = False, tAntiMyShop = False,
     tMyShopRejectText = [], tAntiSafebox = False, tSafeboxRejectText = [], tMinLevel = 0,
     tEquipSlot = [], tSockets = replicate 3 0,
     tAttributes = replicate 7 \<lparr>aType = 0, aValue = 0\<rparr>, tUseEffect = None,
     tUseRejectText = [], tBuyRejectText = [], tEquipEffect = None, tDropRejectText = [],
     tPickupRejectText = [], tPickupRange = 0, tSellRejectText = [], tEquipRejectText = [],
     tUnequipRejectText = []\<rparr>"

lemma zero_template_fields [simp]:
  "tVnum zero_template = 0"
  "tName zero_template = []"
  "\<not> tStackable zero_template"
  "tMaxCount zero_template = 0"
  "tShopBuyPrice zero_template = 0"
  "tShopSellPrice zero_template = 0"
  "\<not> tRefineable zero_template"
  "tRefineRejectText zero_template = []"
  "tRefineInfo zero_template = None"
  "\<not> tSave zero_template"
  "\<not> tSellCountPerGold zero_template"
  "\<not> tSlowQuery zero_template"
  "\<not> tHighlight zero_template"
  "\<not> tRare zero_template"
  "\<not> tUnique zero_template"
  "\<not> tMakeCount zero_template"
  "\<not> tIrremovable zero_template"
  "\<not> tConfirmWhenUse zero_template"
  "\<not> tQuestUse zero_template"
  "\<not> tQuestUseMultiple zero_template"
  "\<not> tLog zero_template"
  "\<not> tApplicable zero_template"
  "tAppearanceVnum zero_template = 0"
  "\<not> tAntiSell zero_template"
  "\<not> tAntiDrop zero_template"
  "\<not> tAntiGive zero_template"
  "tGiveRejectText zero_template = []"
  "\<not> tAntiStack zero_template"
  "\<not> tAntiGet zero_template"
  "\<not> tAntiMale zero_template"
  "\<not> tAntiFemale zero_template"
  "\<not> tAntiWarrior zero_template"
  "\<not> tAntiAssassin zero_template"
  "\<not> tAntiSura zero_template"
  "\<not> tAntiShaman zero_template"
  "\<not> tAntiEmpireA zero_template"
  "\<not> tAntiEmpireB zero_template"
  "\<not> tAntiEmpireC zero_template"
  "\<not> tAntiSave zero_template"
  "\<not> tAntiPKDrop zero_template"
  "\<not> tAntiMyShop zero_template"
  "tMyShopRejectText zero_template = []"
  "\<not> tAntiSafebox zero_template"
  "tSafeboxRejectText zero_template = []"
  "tMinLevel zero_template = 0"
  "tEquipSlot zero_template = []"
  "tSockets zero_template = replicate 3 0"
  "tAttributes zero_template = replicate 7 \<lparr>aType = 0, aValue = 0\<rparr>"
  "tUseEffect zero_template = None"
  "tUseRejectText zero_template = []"
  "tBuyRejectText zero_template = []"
  "tEquipEffect zero_template = None"
  "tDropRejectText zero_template = []"
  "tPickupRejectText zero_template = []"
  "tPickupRange zero_template = 0"
  "tSellRejectText zero_template = []"
  "tEquipRejectText zero_template = []"
  "tUnequipRejectText zero_template = []"
  by (simp_all add: zero_template_def)

section \<open>Normalisation\<close>

definition cloneRefineInfo :: "refine_info option \<Rightarrow> refine_info option" where
  "cloneRefineInfo info =
     (case info of None \<Rightarrow> None | Some i \<Rightarrow> Some (i\<lparr>Materials := Materials i\<rparr>))"

definition normalizeEquipSlot :: "string \<Rightarrow> string" where
  "normalizeEquipSlot name =
     (let trimmed = to_lower (trim_space name) in
      if trimmed = [] then []
      else case ParseEquipmentSlot trimmed of
        None \<Rightarrow> trimmed
      | Some slot \<Rightarrow> if slot = EquipmentSlotNone then [] else EquipmentSlot_String slot)"

definition normalizeTemplate :: "template \<Rightarrow> template" where
  "normalizeTemplate t =
     t\<lparr>tName := trim_space (tName t), tEquipSlot := normalizeEquipSlot (tEquipSlot t),
       tRefineRejectText := trim_space (tRefineRejectText t),
       tUseRejectText := trim_space (tUseRejectText t),
       tBuyRejectText := trim_space (tBuyRejectText t),
       tDropRejectText := trim_space (tDropRejectText t),
       tGiveRejectText := trim_space (tGiveRejectText t),
       tPickupRejectText := trim_space (tPickupRejectText t),
       tSellRejectText := trim_space (tSellRejectText t),
       tEquipRejectText := trim_space (tEquipRejectText t),
       tUnequipRejectText := trim_space (tUnequipRejectText t),
       tMyShopRejectText := trim_space (tMyShopRejectText t),
       tSafeboxRejectText := trim_space (tSafeboxRejectText t),
       tUseEffect := map_option (\<lambda>e. e\<lparr>uMessage := trim_space (uMessage e),
                                          uInfoMessage := trim_space (uInfoMessage e)\<rparr>) (tUseEffect t),
       tRefineInfo := cloneRefineInfo (tRefineInfo t),
       tEquipEffect := tEquipEffect t\<rparr>"

section \<open>Validity\<close>

definition validTemplateMessage :: "string \<Rightarrow> bool" where
  "validTemplateMessage m \<longleftrightarrow> utf8_valid m \<and> \<not> contains_nul m"

definition validAppearanceVnumSlot :: "u32 \<Rightarrow> equipment_slot \<Rightarrow> bool" where
  "validAppearanceVnumSlot appearanceVnum slot \<longleftrightarrow>
     appearanceVnum = 0 \<or> slot = EquipmentSlotBody \<or> slot = EquipmentSlotWeapon \<or>
     slot = EquipmentSlotHead \<or> slot = EquipmentSlotHair"

definition validDisplayAttributes :: "attribute_values \<Rightarrow> bool" where
  "validDisplayAttributes attributes \<longleftrightarrow>
     (\<forall>a \<in> set attributes. \<not> (aType a = 0 \<and> aValue a \<noteq> 0))"

definition validRefineInfo :: "refine_info option \<Rightarrow> template \<Rightarrow> bool" where
  "validRefineInfo info t =
     (case info of None \<Rightarrow> True
      | Some i \<Rightarrow>
          \<not> (\<not> tRefineable t \<or> ResultVnum i = 0 \<or> sint (Cost i) < 0 \<or> sint (Probability i) < 0 \<or>
             100 < sint (Probability i) \<or> MaxRefineMaterialCount < length (Materials i)) \<and>
          \<not> (KeepOnFail i \<and> (sint (Probability i) < 1 \<or> 99 < sint (Probability i))) \<and>
          (FailResultVnum i \<noteq> 0 \<longrightarrow>
             \<not> (KeepOnFail i \<or> sint (Probability i) < 1 \<or> 99 < sint (Probability i)) \<and>
             \<not> (FailResultVnum i = tVnum t \<or> FailResultVnum i = ResultVnum i)) \<and>
          (\<forall>m \<in> set (Materials i). \<not> (mVnum m = 0 \<or> sint (mCount m) \<le> 0)))"

definition templateHasSelectedCharacterGuard :: "template \<Rightarrow> bool" where
  "templateHasSelectedCharacterGuard t \<longleftrightarrow>
     tAntiMale t \<or> tAntiFemale t \<or> tAntiWarrior t \<or> tAntiAssassin t \<or> tAntiSura t \<or> tAntiShaman t \<or>
     tAntiEmpireA t \<or> tAntiEmpireB t \<or> tAntiEmpireC t \<or> tMinLevel t \<noteq> 0"

definition templateHasEquipRejectGuard :: "template \<Rightarrow> bool" where
  "templateHasEquipRejectGuard t \<longleftrightarrow>
     tAntiStack t \<or> tAntiGet t \<or> tAntiDrop t \<or> tAntiGive t \<or> tAntiSell t \<or>
     tAntiMale t \<or> tAntiFemale t \<or> tAntiWarrior t \<or> tAntiAssassin t \<or> tAntiSura t \<or> tAntiShaman t \<or>
     tAntiEmpireA t \<or> tAntiEmpireB t \<or> tAntiEmpireC t \<or> tMinLevel t \<noteq> 0"

definition templateHasUseRejectGuard :: "template \<Rightarrow> bool" where
  "templateHasUseRejectGuard t \<longleftrightarrow>
     tQuestUse t \<or> tQuestUseMultiple t \<or> tApplicable t \<or>
     tAntiStack t \<or> tAntiGet t \<or> tAntiDrop t \<or> tAntiGive t \<or> tAntiSell t \<or>
     tAntiMale t \<or> tAntiFemale t \<or> tAntiWarrior t \<or> tAntiAssassin t \<or> tAntiSura t \<or> tAntiShaman t \<or>
     tAntiEmpireA t \<or> tAntiEmpireB t \<or> tAntiEmpireC t \<or> tMinLevel t \<noteq> 0"

definition templateHasBuyRejectGuard :: "template \<Rightarrow> bool" where
  "templateHasBuyRejectGuard t \<longleftrightarrow> templateHasSelectedCharacterGuard t \<or> tAntiGet t"

definition templateHasDropRejectGuard :: "template \<Rightarrow> bool" where
  "templateHasDropRejectGuard t \<longleftrightarrow> templateHasSelectedCharacterGuard t \<or>
     tAntiGet t \<or> tAntiDrop t \<or> tAntiGive t \<or> tAntiSell t \<or> tAntiStack t"

definition templateHasGiveRejectGuard :: "template \<Rightarrow> bool" where
  "templateHasGiveRejectGuard t \<longleftrightarrow> templateHasSelectedCharacterGuard t \<or>
     tAntiGet t \<or> tAntiDrop t \<or> tAntiGive t \<or> tAntiSell t \<or> tAntiStack t"

definition templateHasMyShopRejectGuard :: "template \<Rightarrow> bool" where
  "templateHasMyShopRejectGuard t \<longleftrightarrow> tAntiMyShop t \<or> tAntiGive t"

definition templateHasSafeboxRejectGuard :: "template \<Rightarrow> bool" where
  "templateHasSafeboxRejectGuard t \<longleftrightarrow> tAntiSafebox t"

definition templateHasPickupRejectGuard :: "template \<Rightarrow> bool" where
  "templateHasPickupRejectGuard t \<longleftrightarrow> templateHasSelectedCharacterGuard t \<or>
     tAntiGet t \<or> tAntiDrop t \<or> tAntiGive t \<or> tAntiSell t \<or> tAntiStack t"

definition templateHasSellRejectGuard :: "template \<Rightarrow> bool" where
  "templateHasSellRejectGuard t \<longleftrightarrow> templateHasSelectedCharacterGuard t \<or>
     tAntiGet t \<or> tAntiDrop t \<or> tAntiGive t \<or> tAntiSell t \<or> tAntiStack t"

definition validNonZeroPointFields :: "u8 \<Rightarrow> u8 \<Rightarrow> i32 \<Rightarrow> bool" where
  "validNonZeroPointFields pointType pointIndex pointDelta \<longleftrightarrow>
     \<not> pointType = 0 \<and> \<not> 255 \<le> pointIndex \<and> \<not> sint pointDelta = min_i32 \<and> pointDelta \<noteq> 0"

definition validUseEffect :: "use_effect option \<Rightarrow> template \<Rightarrow> bool" where
  "validUseEffect effect t =
     (case effect of None \<Rightarrow> True
      | Some e \<Rightarrow>
          validNonZeroPointFields (uPointType e) (uPointIndex e) (uPointDelta e) \<and>
          \<not> tMaxCount t < (if uConsumeCount e = 0 then 1 else uConsumeCount e) \<and>
          \<not> MaxSpecialEffectType < uSpecialEffectType e \<and>
          validTemplateMessage (uMessage e) \<and> validTemplateMessage (uInfoMessage e) \<and>
          trim_space (uMessage e) \<noteq> [])"

definition validPointEffect :: "point_effect option \<Rightarrow> bool" where
  "validPointEffect effect =
     (case effect of None \<Rightarrow> True
      | Some e \<Rightarrow> validNonZeroPointFields (ePointType e) (ePointIndex e) (ePointDelta e))"

text \<open>The early returns of \<open>validTemplate\<close>, in its order, and its final cases.\<close>

definition validTemplate_guards :: "template \<Rightarrow> bool" where
  "validTemplate_guards t \<longleftrightarrow>
     tVnum t \<noteq> 0 \<and>
     trim_space (tName t) \<noteq> [] \<and> validTemplateMessage (tName t) \<and>
     \<not> (tMaxCount t = 0 \<or> 255 < tMaxCount t) \<and>
     \<not> 4294967295 < tShopBuyPrice t \<and>
     \<not> 2147483647 < tShopSellPrice t \<and>
     validTemplateMessage (tRefineRejectText t) \<and>
     \<not> (tRefineRejectText t \<noteq> [] \<and> tRefineable t) \<and>
     validRefineInfo (tRefineInfo t) t \<and>
     \<not> MaxPickupRange < tPickupRange t \<and>
     \<not> 65535 < tAppearanceVnum t \<and>
     \<not> (\<not> tStackable t \<and> tMaxCount t \<noteq> 1) \<and>
     validDisplayAttributes (tAttributes t)"

definition validTemplate_texts :: "template \<Rightarrow> bool" where
  "validTemplate_texts t \<longleftrightarrow>
     validTemplateMessage (tUseRejectText t) \<and>
     validTemplateMessage (tBuyRejectText t) \<and>
     validTemplateMessage (tDropRejectText t) \<and>
     validTemplateMessage (tGiveRejectText t) \<and>
     validTemplateMessage (tPickupRejectText t) \<and>
     validTemplateMessage (tSellRejectText t) \<and>
     validTemplateMessage (tEquipRejectText t) \<and>
     validTemplateMessage (tUnequipRejectText t) \<and>
     validTemplateMessage (tMyShopRejectText t) \<and>
     validTemplateMessage (tSafeboxRejectText t) \<and>
     \<not> (tEquipRejectText t \<noteq> [] \<and> (tEquipSlot t = [] \<or> \<not> templateHasEquipRejectGuard t)) \<and>
     \<not> (tUseRejectText t \<noteq> [] \<and> (tUseEffect t = None \<or> \<not> templateHasUseRejectGuard t)) \<and>
     \<not> (tBuyRejectText t \<noteq> [] \<and> \<not> templateHasBuyRejectGuard t) \<and>
     \<not> (tDropRejectText t \<noteq> [] \<and> \<not> templateHasDropRejectGuard t) \<and>
     \<not> (tGiveRejectText t \<noteq> [] \<and> \<not> templateHasGiveRejectGuard t) \<and>
     \<not> (tPickupRejectText t \<noteq> [] \<and> \<not> templateHasPickupRejectGuard t) \<and>
     \<not> (tSellRejectText t \<noteq> [] \<and> \<not> templateHasSellRejectGuard t) \<and>
     \<not> (tUnequipRejectText t \<noteq> [] \<and> (tEquipSlot t = [] \<or> \<not> tIrremovable t)) \<and>
     \<not> (tMyShopRejectText t \<noteq> [] \<and> \<not> templateHasMyShopRejectGuard t) \<and>
     \<not> (tSafeboxRejectText t \<noteq> [] \<and> \<not> templateHasSafeboxRejectGuard t)"

definition validTemplate :: "template \<Rightarrow> bool" where
  "validTemplate t \<longleftrightarrow>
     validTemplate_guards t \<and> validTemplate_texts t \<and>
     (if tEquipSlot t = []
      then tAppearanceVnum t = 0 \<and> tEquipEffect t = None \<and> validUseEffect (tUseEffect t) t
      else \<not> tStackable t \<and>
        (case ParseEquipmentSlot (tEquipSlot t) of
           None \<Rightarrow> False
         | Some slot \<Rightarrow> tUseEffect t = None \<and> validAppearanceVnumSlot (tAppearanceVnum t) slot \<and>
             validPointEffect (tEquipEffect t)))"

definition ValidTemplate :: "template \<Rightarrow> bool" where
  "ValidTemplate t = validTemplate (normalizeTemplate t)"

section \<open>Snapshots\<close>

definition normalizeSnapshot :: "template list \<Rightarrow> template list" where
  "normalizeSnapshot ts = sort_key tVnum (map normalizeTemplate ts)"

fun validateSnapshot_loop :: "u32 set \<Rightarrow> template list \<Rightarrow> bool" where
  "validateSnapshot_loop seen [] = True"
| "validateSnapshot_loop seen (t # ts) =
     (if \<not> validTemplate t then False
      else if tVnum t \<in> seen then False
      else validateSnapshot_loop (insert (tVnum t) seen) ts)"

definition validateSnapshot :: "template list \<Rightarrow> bool" where
  "validateSnapshot ts = validateSnapshot_loop {} ts"

section \<open>What a valid template guarantees\<close>

lemma normalizeTemplate_keeps [simp]:
  "tVnum (normalizeTemplate t) = tVnum t"
  "tMaxCount (normalizeTemplate t) = tMaxCount t"
  "tStackable (normalizeTemplate t) = tStackable t"
  "tEquipEffect (normalizeTemplate t) = tEquipEffect t"
  "tEquipSlot (normalizeTemplate t) = normalizeEquipSlot (tEquipSlot t)"
  "tShopBuyPrice (normalizeTemplate t) = tShopBuyPrice t"
  "tShopSellPrice (normalizeTemplate t) = tShopSellPrice t"
  by (simp_all add: normalizeTemplate_def)

lemma cloneRefineInfo_id [simp]: "cloneRefineInfo i = i"
  by (cases i) (simp_all add: cloneRefineInfo_def)

lemma ValidTemplate_vnum: "ValidTemplate t \<Longrightarrow> tVnum t \<noteq> 0"
  by (simp add: ValidTemplate_def validTemplate_def validTemplate_guards_def)

lemma ValidTemplate_maxcount:
  assumes "ValidTemplate t"
  shows "tMaxCount t \<noteq> 0" and "unat (tMaxCount t) \<le> 255"
  using assms
  by (simp_all add: ValidTemplate_def validTemplate_def validTemplate_guards_def word_le_nat_alt not_less)

lemma ValidTemplate_unstackable: "ValidTemplate t \<Longrightarrow> \<not> tStackable t \<Longrightarrow> tMaxCount t = 1"
  by (simp add: ValidTemplate_def validTemplate_def validTemplate_guards_def)

lemma ValidTemplate_prices:
  assumes "ValidTemplate t"
  shows "unat (tShopBuyPrice t) \<le> 4294967295" and "unat (tShopSellPrice t) \<le> 2147483647"
  using assms
  by (simp_all add: ValidTemplate_def validTemplate_def validTemplate_guards_def word_le_nat_alt not_less)

lemma normalizeTemplate_effect:
  "tUseEffect (normalizeTemplate t) = None \<longleftrightarrow> tUseEffect t = None"
  by (simp add: normalizeTemplate_def)

lemma ValidTemplate_use_effect:
  assumes "ValidTemplate t" and "tUseEffect t = Some e"
  shows "uPointIndex e < 255" and "uPointType e \<noteq> 0" and "uPointDelta e \<noteq> 0"
    and "normalizeEquipSlot (tEquipSlot t) = []"
proof -
  from assms(2) obtain e' where e': "tUseEffect (normalizeTemplate t) = Some e'"
    and f: "uPointIndex e' = uPointIndex e" "uPointType e' = uPointType e" "uPointDelta e' = uPointDelta e"
    by (simp add: normalizeTemplate_def)
  from assms(1) e' show s: "normalizeEquipSlot (tEquipSlot t) = []"
    by (auto simp: ValidTemplate_def validTemplate_def split: if_splits option.splits)
  with assms(1) e' have "validUseEffect (Some e') (normalizeTemplate t)"
    by (simp add: ValidTemplate_def validTemplate_def)
  then show "uPointIndex e < 255" and "uPointType e \<noteq> 0" and "uPointDelta e \<noteq> 0"
    by (simp_all add: validUseEffect_def validNonZeroPointFields_def f not_le)
qed

lemma ValidTemplate_equip_effect:
  assumes "ValidTemplate t" and "tEquipEffect t = Some e"
  shows "ePointIndex e < 255" and "ePointType e \<noteq> 0" and "sint (ePointDelta e) \<noteq> min_i32"
    and "\<not> tStackable t"
proof -
  from assms have "validPointEffect (Some e)" and "\<not> tStackable t"
    by (auto simp: ValidTemplate_def validTemplate_def split: if_splits option.splits)
  then show "ePointIndex e < 255" and "ePointType e \<noteq> 0" and "sint (ePointDelta e) \<noteq> min_i32"
    and "\<not> tStackable t"
    by (simp_all add: validPointEffect_def validNonZeroPointFields_def not_le)
qed

lemma validateSnapshot_loop_iff:
  "validateSnapshot_loop seen ts \<longleftrightarrow>
     (\<forall>t \<in> set ts. validTemplate t) \<and> distinct (map tVnum ts) \<and> tVnum ` set ts \<inter> seen = {}"
  by (induction ts arbitrary: seen) auto

end
