(* ===== verification/Equipment_Rules.thy ===== *)
theory Equipment_Rules
  imports ItemTemplates
begin

text \<open>
  \<open>internal/equipment/eligibility.go\<close>: the pure rules that decide whether a character may use
  or wear an authored template.
\<close>

record subject =
  sJob :: u8
  sRaceNum :: u16
  sEmpire :: u8
  sLevel :: u8

definition CanUse :: "template \<Rightarrow> subject \<Rightarrow> bool" where
  "CanUse t s =
     (if \<not> ValidTemplate t then False
      else if sJob s = 0 \<and> tAntiWarrior t then False
      else if sJob s = 1 \<and> tAntiAssassin t then False
      else if sJob s = 2 \<and> tAntiSura t then False
      else if sJob s = 3 \<and> tAntiShaman t then False
      else if sRaceNum s mod 2 = 0 \<and> tAntiMale t then False
      else if sRaceNum s mod 2 = 1 \<and> tAntiFemale t then False
      else if sEmpire s = 1 \<and> tAntiEmpireA t then False
      else if sEmpire s = 2 \<and> tAntiEmpireB t then False
      else if sEmpire s = 3 \<and> tAntiEmpireC t then False
      else tMinLevel t = 0 \<or> tMinLevel t \<le> sLevel s)"

definition CanEquip :: "template \<Rightarrow> subject \<Rightarrow> equipment_slot \<Rightarrow> bool" where
  "CanEquip t s equipSlot =
     (if \<not> CanUse t s \<or> \<not> Valid equipSlot \<or> tEquipSlot t = [] then False
      else case ParseEquipmentSlot (tEquipSlot t) of
        None \<Rightarrow> False
      | Some templateSlot \<Rightarrow>
          if templateSlot \<noteq> equipSlot then False
          else \<not> tAntiStack t \<and> \<not> tAntiGet t \<and> \<not> tAntiDrop t \<and> \<not> tAntiGive t \<and> \<not> tAntiSell t)"

lemma CanUse_Valid: "CanUse t s \<Longrightarrow> ValidTemplate t"
  by (simp add: CanUse_def split: if_split_asm)

lemma CanUse_level:
  assumes "CanUse t s"
  shows "tMinLevel t \<le> sLevel s"
proof -
  have "tMinLevel t = 0 \<or> tMinLevel t \<le> sLevel s"
    using assms by (simp add: CanUse_def split: if_split_asm)
  then show ?thesis by auto
qed

lemma CanEquip_CanUse: "CanEquip t s e \<Longrightarrow> CanUse t s"
  by (simp add: CanEquip_def split: if_splits)

lemma CanEquip_slot: "CanEquip t s e \<Longrightarrow> Valid e \<and> ParseEquipmentSlot (tEquipSlot t) = Some e"
  by (auto simp: CanEquip_def split: if_splits option.splits)

lemma normalizeEquipSlot_Parse:
  assumes "ParseEquipmentSlot name = Some e" and "Valid e"
  shows "normalizeEquipSlot name \<noteq> []"
proof
  assume e: "normalizeEquipSlot name = []"
  let ?n = "EquipmentSlot_String e"
  have n: "to_lower (trim_space name) = ?n"
    using ParseEquipmentSlot_SomeD [OF assms(1)] by simp
  have "ParseEquipmentSlot ?n = Some e"
    using assms(2) by (intro ParseEquipmentSlot_String) simp
  with e n EquipmentSlot_String_plain [of e] assms(2) show False
    by (auto simp: normalizeEquipSlot_def split: if_splits)
qed

text \<open>A wearable template cannot stack: every template \<open>CanEquip\<close> accepts has \<open>max_count\<close> 1.\<close>

lemma CanEquip_unstackable:
  assumes "CanEquip t s e"
  shows "\<not> tStackable t" and "tMaxCount t = 1"
proof -
  have v: "ValidTemplate t"
    using assms by (blast intro: CanUse_Valid CanEquip_CanUse)
  have "normalizeEquipSlot (tEquipSlot t) \<noteq> []"
    using CanEquip_slot [OF assms] normalizeEquipSlot_Parse by blast
  with v show "\<not> tStackable t"
    by (simp add: ValidTemplate_def validTemplate_def)
  with v show "tMaxCount t = 1"
    by (rule ValidTemplate_unstackable)
qed

text \<open>
  What an accepted wearable guarantees. If \<open>CanEquip\<close> accepts a template for a slot, the
  template is valid, names exactly that slot, is not stackable (so its stack limit is 1),
  carries no transfer restriction, and the subject meets the authored minimum level.
\<close>

theorem CanEquip_guarantees:
  assumes "CanEquip t s e"
  shows "ValidTemplate t \<and> Valid e \<and> ParseEquipmentSlot (tEquipSlot t) = Some e \<and>
    \<not> tStackable t \<and> tMaxCount t = 1 \<and>
    \<not> tAntiStack t \<and> \<not> tAntiGet t \<and> \<not> tAntiDrop t \<and> \<not> tAntiGive t \<and> \<not> tAntiSell t \<and>
    tMinLevel t \<le> sLevel s"
proof -
  have "tMinLevel t \<le> sLevel s"
    using CanEquip_CanUse [OF assms] by (rule CanUse_level)
  moreover have "\<not> tAntiStack t \<and> \<not> tAntiGet t \<and> \<not> tAntiDrop t \<and> \<not> tAntiGive t \<and> \<not> tAntiSell t"
    using assms by (simp add: CanEquip_def split: if_split_asm option.split_asm)
  ultimately show ?thesis
    using CanEquip_slot [OF assms] CanEquip_unstackable [OF assms]
      CanUse_Valid [OF CanEquip_CanUse [OF assms]] by simp
qed

definition sample_sword :: template where
  "sample_sword = zero_template\<lparr>tVnum := 19, tName := ''sword'', tMaxCount := 1, tMinLevel := 5,
     tEquipSlot := ''weapon''\<rparr>"

lemma parse_weapon [simp]: "ParseEquipmentSlot ''weapon'' = Some EquipmentSlotWeapon"
  using ParseEquipmentSlot_String [of EquipmentSlotWeapon]
  by (simp add: EquipmentSlot_String_def equipment_slot_defs Valid_def)

lemma normalize_weapon [simp]: "normalizeEquipSlot ''weapon'' = ''weapon''"
proof -
  have "to_lower (trim_space ''weapon'') = ''weapon''"
    by (simp add: trim_space_plain to_lower_plain plain_simps)
  then show ?thesis
    by (simp add: normalizeEquipSlot_def EquipmentSlot_String_def equipment_slot_defs)
qed

lemma trim_sword [simp]: "trim_space ''sword'' = ''sword''"
  by (rule trim_space_plain) (simp add: plain_simps)

lemma sample_sword_valid: "ValidTemplate sample_sword"
  by (simp add: ValidTemplate_def validTemplate_def validTemplate_guards_def validTemplate_texts_def
      sample_sword_def normalizeTemplate_def validRefineInfo_def
      validTemplateMessage_def contains_nul_def code_def in_range_def validDisplayAttributes_def
      validAppearanceVnumSlot_def validPointEffect_def MaxPickupRange_def)

lemma sample_sword_fields [simp]:
  "tEquipSlot sample_sword = ''weapon''" "tMinLevel sample_sword = 5" "tMaxCount sample_sword = 1"
  "tVnum sample_sword = 19"
  "\<not> tAntiStack sample_sword" "\<not> tAntiGet sample_sword" "\<not> tAntiDrop sample_sword"
  "\<not> tAntiGive sample_sword" "\<not> tAntiSell sample_sword"
  "\<not> tAntiWarrior sample_sword" "\<not> tAntiMale sample_sword" "\<not> tAntiEmpireA sample_sword"
  "\<not> tStackable sample_sword"
  by (simp_all add: sample_sword_def)

theorem CanEquip_guarantees_witness:
  "ValidTemplate sample_sword \<and> tMaxCount sample_sword = 1"
proof -
  have "CanEquip sample_sword \<lparr>sJob = 0, sRaceNum = 0, sEmpire = 1, sLevel = 7\<rparr> EquipmentSlotWeapon"
    using sample_sword_valid
    by (simp add: CanEquip_def CanUse_def Valid_def)
  from CanEquip_guarantees [OF this] show ?thesis by simp
qed

end
