(* ===== verification/Character_Data.thy ===== *)
theory Character_Data
  imports Equipment_Rules
begin

text \<open>
  \<open>internal/loginticket/store.go\<close>: the persisted character, the copies the code takes of it,
  and the checks that a stored ticket's characters must pass before the runtime trusts them.
  A copied slice is the same list here, and \<open>nil\<close> and the empty slice are both \<open>[]\<close>.
\<close>

section \<open>Characters\<close>

definition TypeNone :: u8 where "TypeNone = 0"
definition TypeItem :: u8 where "TypeItem = 1"
definition TypeSkill :: u8 where "TypeSkill = 2"
definition TypeCommand :: u8 where "TypeCommand = 3"

record quickslot =
  qPosition :: u8
  qType :: u8
  qSlot :: u8

record myshop_unit_price =
  pVnum :: u32
  pUnitPrice :: u32

record character =
  cID :: u32
  cVID :: u32
  cName :: string
  cJob :: u8
  cRaceNum :: u16
  cLevel :: u8
  cPlayMinutes :: u32
  cST :: u8
  cHT :: u8
  cDX :: u8
  cIQ :: u8
  cMainPart :: u16
  cChangeName :: u8
  cHairPart :: u16
  cDummy :: "u8 list"
  cX :: i32
  cY :: i32
  cZ :: i32
  cMapIndex :: u32
  cEmpire :: u8
  cSkillGroup :: u8
  cGuildID :: u32
  cGuildName :: string
  cPoints :: "i32 list"
  cGold :: u64
  cInventory :: "item_instance list"
  cEquipment :: "item_instance list"
  cQuickslots :: "quickslot list"
  cMyShopUnitPrices :: "myshop_unit_price list"

definition zero_character :: character where
  "zero_character = \<lparr>cID = 0, cVID = 0, cName = [], cJob = 0, cRaceNum = 0, cLevel = 0,
     cPlayMinutes = 0, cST = 0, cHT = 0, cDX = 0, cIQ = 0, cMainPart = 0, cChangeName = 0,
     cHairPart = 0, cDummy = replicate 4 0, cX = 0, cY = 0, cZ = 0, cMapIndex = 0, cEmpire = 0,
     cSkillGroup = 0, cGuildID = 0, cGuildName = [], cPoints = replicate 255 0, cGold = 0,
     cInventory = [], cEquipment = [], cQuickslots = [], cMyShopUnitPrices = []\<rparr>"

text \<open>\<open>NormalizeItemState\<close> replaces \<open>nil\<close> slices by empty ones: no change of the value.\<close>

definition NormalizeItemState :: "character \<Rightarrow> character" where
  "NormalizeItemState c = c"

definition IsEmptySlot :: "character \<Rightarrow> bool" where
  "IsEmptySlot c \<longleftrightarrow>
     \<not> (cID c \<noteq> 0 \<or> cVID c \<noteq> 0 \<or> cName c \<noteq> [] \<or> cJob c \<noteq> 0 \<or> cRaceNum c \<noteq> 0 \<or> cLevel c \<noteq> 0 \<or>
        cPlayMinutes c \<noteq> 0) \<and>
     \<not> (cST c \<noteq> 0 \<or> cHT c \<noteq> 0 \<or> cDX c \<noteq> 0 \<or> cIQ c \<noteq> 0 \<or> cMainPart c \<noteq> 0 \<or> cChangeName c \<noteq> 0 \<or>
        cHairPart c \<noteq> 0) \<and>
     \<not> (cX c \<noteq> 0 \<or> cY c \<noteq> 0 \<or> cZ c \<noteq> 0 \<or> cMapIndex c \<noteq> 0 \<or> cEmpire c \<noteq> 0 \<or> cSkillGroup c \<noteq> 0 \<or>
        cGuildID c \<noteq> 0 \<or> cGuildName c \<noteq> [] \<or> cGold c \<noteq> 0) \<and>
     (\<forall>v \<in> set (cDummy c). v = 0) \<and> (\<forall>v \<in> set (cPoints c). v = 0) \<and>
     cInventory c = [] \<and> cEquipment c = [] \<and> cQuickslots c = [] \<and> cMyShopUnitPrices c = []"

definition cloneItemInstances :: "item_instance list \<Rightarrow> item_instance list" where
  "cloneItemInstances items =
     map (\<lambda>i. i\<lparr>Sockets := CloneSockets i, Attributes := CloneAttributes i\<rparr>) items"

definition CloneCharacters :: "character list \<Rightarrow> character list" where
  "CloneCharacters cs =
     map (\<lambda>c. c\<lparr>cInventory := cloneItemInstances (cInventory c),
                cEquipment := cloneItemInstances (cEquipment c)\<rparr>) cs"

lemma cloneItemInstances_id [simp]: "cloneItemInstances items = items"
  by (simp add: cloneItemInstances_def)

lemma CloneCharacters_id [simp]: "CloneCharacters cs = cs"
  by (simp add: CloneCharacters_def)

section \<open>Private-shop price rows\<close>

definition MyShopUnitPriceMax :: nat where "MyShopUnitPriceMax = 40"

definition CanonicalMyShopUnitPrices :: "myshop_unit_price list \<Rightarrow> myshop_unit_price list" where
  "CanonicalMyShopUnitPrices rows = (if rows = [] then [] else sort_key pVnum rows)"

definition MyShopUnitPriceMap :: "myshop_unit_price list \<Rightarrow> u32 \<Rightarrow> u32 option" where
  "MyShopUnitPriceMap rows = foldl (\<lambda>m row. m(pVnum row \<mapsto> pUnitPrice row)) Map.empty rows"

section \<open>Checks of a stored character\<close>

datatype ticket_error =
    ItemInvalid u64 item_error
  | ItemMarkedEquipped u64
  | ItemSlotOutOfRange u64 slot_index
  | ItemNotMarkedEquipped u64
  | DuplicateEquipmentSlot equipment_slot u64
  | DuplicateItemID u64
  | DuplicateInventorySlot slot_index u64
  | QuickslotInvalid quickslot
  | DuplicateQuickslotPosition u8
  | DuplicateQuickslotTuple u8 u8
  | LoginRequired
  | LoginNotTrimmed string
  | LoginContainsNUL
  | LoginKeyRequired
  | IssuedAtRequired
  | EmptySlotHasState
  | NameRequired u32
  | NameNotTrimmed string
  | NameContainsNUL
  | GuildNameContainsNUL
  | DuplicateCharacterID u32
  | DuplicateCharacterVID u32
  | DuplicateCharacterName string

fun first_error :: "('a \<Rightarrow> 'e option) \<Rightarrow> 'a list \<Rightarrow> 'e option" where
  "first_error f [] = None"
| "first_error f (x # xs) = (case f x of Some e \<Rightarrow> Some e | None \<Rightarrow> first_error f xs)"

lemma first_error_None [simp]: "first_error f xs = None \<longleftrightarrow> (\<forall>x \<in> set xs. f x = None)"
  by (induction xs) (auto split: option.splits)

definition check_carried :: "item_instance \<Rightarrow> ticket_error option" where
  "check_carried i =
     (case Validate i of
        Some e \<Rightarrow> Some (ItemInvalid (ID i) e)
      | None \<Rightarrow>
          if Equipped i then Some (ItemMarkedEquipped (ID i))
          else if CarriedInventorySlotCount \<le> Slot i then Some (ItemSlotOutOfRange (ID i) (Slot i))
          else None)"

definition check_worn :: "item_instance \<Rightarrow> ticket_error option" where
  "check_worn i =
     (case Validate i of
        Some e \<Rightarrow> Some (ItemInvalid (ID i) e)
      | None \<Rightarrow> if \<not> Equipped i then Some (ItemNotMarkedEquipped (ID i)) else None)"

definition validateCharacterItemPayloads :: "character \<Rightarrow> ticket_error option" where
  "validateCharacterItemPayloads c =
     (case first_error check_carried (cInventory c) of
        Some e \<Rightarrow> Some e
      | None \<Rightarrow> first_error check_worn (cEquipment c))"

text \<open>A range loop that fails at the first key seen before.\<close>

fun first_duplicate :: "('a \<Rightarrow> 'k) \<Rightarrow> ('a \<Rightarrow> 'e) \<Rightarrow> 'k set \<Rightarrow> 'a list \<Rightarrow> 'e option" where
  "first_duplicate k err seen [] = None"
| "first_duplicate k err seen (x # xs) =
     (if k x \<in> seen then Some (err x) else first_duplicate k err (insert (k x) seen) xs)"

lemma first_duplicate_None [simp]:
  "first_duplicate k err seen xs = None \<longleftrightarrow> distinct (map k xs) \<and> k ` set xs \<inter> seen = {}"
  by (induction xs arbitrary: seen) auto

definition validateCharacterUniqueEquipmentSlots :: "character \<Rightarrow> ticket_error option" where
  "validateCharacterUniqueEquipmentSlots c =
     first_duplicate EquipSlot (\<lambda>i. DuplicateEquipmentSlot (EquipSlot i) (ID i)) {} (cEquipment c)"

definition validateCharacterUniqueItemInstanceIDs :: "character \<Rightarrow> ticket_error option" where
  "validateCharacterUniqueItemInstanceIDs c =
     first_duplicate ID (\<lambda>i. DuplicateItemID (ID i)) {} (cInventory c @ cEquipment c)"

definition validateCharacterUniqueInventorySlots :: "character \<Rightarrow> ticket_error option" where
  "validateCharacterUniqueInventorySlots c =
     first_duplicate Slot (\<lambda>i. DuplicateInventorySlot (Slot i) (ID i)) {} (cInventory c)"

definition ticket_validQuickslotTuple :: "quickslot \<Rightarrow> bool" where
  "ticket_validQuickslotTuple q =
     (if 36 \<le> qPosition q then False
      else if qType q = TypeNone then qSlot q = 0
      else if qType q = TypeItem then qSlot q < ucast CarriedInventorySlotCount
      else if qType q = TypeSkill then qSlot q < 200
      else if qType q = TypeCommand then qSlot q < 60
      else False)"

fun validateQuickslots_loop :: "u8 set \<Rightarrow> (u8 \<times> u8) set \<Rightarrow> quickslot list \<Rightarrow> ticket_error option" where
  "validateQuickslots_loop positions tuples [] = None"
| "validateQuickslots_loop positions tuples (q # qs) =
     (if \<not> ticket_validQuickslotTuple q then Some (QuickslotInvalid q)
      else if qPosition q \<in> positions then Some (DuplicateQuickslotPosition (qPosition q))
      else if qType q = TypeSkill \<or> qType q = TypeCommand then
        (if (qType q, qSlot q) \<in> tuples then Some (DuplicateQuickslotTuple (qType q) (qSlot q))
         else validateQuickslots_loop (insert (qPosition q) positions)
                (insert (qType q, qSlot q) tuples) qs)
      else validateQuickslots_loop (insert (qPosition q) positions) tuples qs)"

definition validateCharacterQuickslots :: "character \<Rightarrow> ticket_error option" where
  "validateCharacterQuickslots c = validateQuickslots_loop {} {} (cQuickslots c)"

text \<open>The loop body of \<open>validateTicket\<close> over the characters.\<close>

definition validateTicket_character :: "character \<Rightarrow> ticket_error option" where
  "validateTicket_character c =
     (case validateCharacterItemPayloads c of Some e \<Rightarrow> Some e | None \<Rightarrow>
      case validateCharacterUniqueItemInstanceIDs c of Some e \<Rightarrow> Some e | None \<Rightarrow>
      case validateCharacterUniqueInventorySlots c of Some e \<Rightarrow> Some e | None \<Rightarrow>
      case validateCharacterUniqueEquipmentSlots c of Some e \<Rightarrow> Some e | None \<Rightarrow>
      validateCharacterQuickslots c)"

section \<open>Well-formed item state\<close>

text \<open>
  What the checks establish and what the runtime maintains: carried instances are valid,
  unequipped, in range and one per cell; worn instances are valid, marked equipped and one
  per wear slot; no instance id occurs twice.
\<close>

definition carried_ok :: "item_instance \<Rightarrow> bool" where
  "carried_ok i \<longleftrightarrow> Validate i = None \<and> \<not> Equipped i \<and> Slot i < CarriedInventorySlotCount"

definition worn_ok :: "item_instance \<Rightarrow> bool" where
  "worn_ok i \<longleftrightarrow> Validate i = None \<and> Equipped i"

definition wf_items :: "item_instance list \<Rightarrow> item_instance list \<Rightarrow> bool" where
  "wf_items carried worn \<longleftrightarrow>
     (\<forall>i \<in> set carried. carried_ok i) \<and> distinct (map Slot carried) \<and>
     (\<forall>i \<in> set worn. worn_ok i) \<and> distinct (map EquipSlot worn) \<and>
     distinct (map ID (carried @ worn))"

definition quickslot_ok :: "quickslot \<Rightarrow> bool" where
  "quickslot_ok q \<longleftrightarrow> ticket_validQuickslotTuple q"

definition wf_quickslots :: "quickslot list \<Rightarrow> bool" where
  "wf_quickslots qs \<longleftrightarrow> (\<forall>q \<in> set qs. quickslot_ok q) \<and> distinct (map qPosition qs)"

lemma check_carried_None: "check_carried i = None \<longleftrightarrow> carried_ok i"
  by (auto simp: check_carried_def carried_ok_def split: option.splits)

lemma check_worn_None: "check_worn i = None \<longleftrightarrow> worn_ok i"
  by (auto simp: check_worn_def worn_ok_def split: option.splits)

lemma validateQuickslots_loop_Cons:
  "validateQuickslots_loop ps ts (q # qs) = None \<Longrightarrow>
   quickslot_ok q \<and> qPosition q \<notin> ps \<and>
   (\<exists>ts'. validateQuickslots_loop (insert (qPosition q) ps) ts' qs = None)"
  by (auto simp: quickslot_ok_def split: if_split_asm)

lemma validateQuickslots_loop_None:
  "validateQuickslots_loop ps ts qs = None \<Longrightarrow>
   (\<forall>q \<in> set qs. quickslot_ok q) \<and> distinct (map qPosition qs) \<and> qPosition ` set qs \<inter> ps = {}"
proof (induction qs arbitrary: ps ts)
  case Nil
  then show ?case by simp
next
  case (Cons q qs)
  obtain ts' where "quickslot_ok q" and "qPosition q \<notin> ps"
    and "validateQuickslots_loop (insert (qPosition q) ps) ts' qs = None"
    using validateQuickslots_loop_Cons [OF Cons.prems] by blast
  with Cons.IH show ?case by fastforce
qed

lemma validateCharacterItemPayloads_None:
  "validateCharacterItemPayloads c = None \<longleftrightarrow>
     (\<forall>i \<in> set (cInventory c). carried_ok i) \<and> (\<forall>i \<in> set (cEquipment c). worn_ok i)"
proof (cases "first_error check_carried (cInventory c)")
  case None
  have "validateCharacterItemPayloads c = first_error check_worn (cEquipment c)"
    by (simp only: validateCharacterItemPayloads_def None option.case)
  with None show ?thesis
    by (simp add: check_carried_None check_worn_None)
next
  case (Some e)
  then have "\<not> (\<forall>i \<in> set (cInventory c). carried_ok i)"
    using first_error_None [of check_carried "cInventory c"] by (simp add: check_carried_None)
  with Some show ?thesis
    by (simp add: validateCharacterItemPayloads_def)
qed

lemma validateTicket_items_iff:
  "validateCharacterItemPayloads c = None \<and> validateCharacterUniqueItemInstanceIDs c = None \<and>
   validateCharacterUniqueInventorySlots c = None \<and> validateCharacterUniqueEquipmentSlots c = None
   \<longleftrightarrow> wf_items (cInventory c) (cEquipment c)"
  by (auto simp: validateCharacterItemPayloads_None validateCharacterUniqueItemInstanceIDs_def
      validateCharacterUniqueInventorySlots_def validateCharacterUniqueEquipmentSlots_def wf_items_def)

lemma validateTicket_character_wf_lemma:
  assumes "validateTicket_character c = None"
  shows "wf_items (cInventory c) (cEquipment c) \<and> wf_quickslots (cQuickslots c)"
proof
  show "wf_items (cInventory c) (cEquipment c)"
    using assms validateTicket_items_iff [of c]
    by (auto simp: validateTicket_character_def split: option.splits)
  have "validateQuickslots_loop {} {} (cQuickslots c) = None"
    using assms by (auto simp: validateTicket_character_def validateCharacterQuickslots_def split: option.splits)
  then show "wf_quickslots (cQuickslots c)"
    using validateQuickslots_loop_None by (auto simp: wf_quickslots_def)
qed

text \<open>
  A character that passes all the ticket checks has a well-formed item state (valid
  instances, one per carried cell and per wear slot, no instance id twice) and valid quickslots
  at distinct positions; and the four item checks pass for well-formed item states only.
\<close>

theorem validateTicket_character_wf:
  "(validateTicket_character c = None \<longrightarrow>
      wf_items (cInventory c) (cEquipment c) \<and> wf_quickslots (cQuickslots c)) \<and>
   (wf_items (cInventory c) (cEquipment c) \<longrightarrow>
      validateTicket_character c = validateCharacterQuickslots c)"
  using validateTicket_character_wf_lemma [of c] validateTicket_items_iff [of c]
  by (auto simp: validateTicket_character_def split: option.split)

definition sample_carried :: item_instance where
  "sample_carried = zero_item\<lparr>ID := 7, Vnum := 27, Count := 3, Slot := 4\<rparr>"

theorem validateTicket_character_wf_witness:
  "wf_items [sample_carried] [] \<and> wf_quickslots [\<lparr>qPosition = 2, qType = TypeItem, qSlot = 4\<rparr>]"
  using validateTicket_character_wf
    [of "zero_character\<lparr>cInventory := [sample_carried],
          cQuickslots := [\<lparr>qPosition = 2, qType = TypeItem, qSlot = 4\<rparr>]\<rparr>"]
  by (simp add: validateTicket_character_def validateCharacterItemPayloads_def
      validateCharacterUniqueItemInstanceIDs_def validateCharacterUniqueInventorySlots_def
      validateCharacterUniqueEquipmentSlots_def validateCharacterQuickslots_def check_carried_def
      Validate_def sample_carried_def zero_item_def zero_character_def equipment_slot_defs
      ticket_validQuickslotTuple_def CarriedInventorySlotCount_def TypeItem_def TypeNone_def
      TypeSkill_def TypeCommand_def)

end
