(* ===== verification/Flow_Bootstrap.thy ===== *)
theory Flow_Bootstrap
  imports Wire_World Wire_Move ItemTemplates Character_Data
begin

text \<open>
  What a client is sent about its own character when it enters the world
  (\<open>internal/worldentry/bootstrap.go\<close>), and the transfer to another place
  (\<open>internal/warp/flow.go\<close>). The callbacks of a transfer are functions on a state \<open>'w\<close>.
\<close>

section \<open>Bootstrap frames\<close>

definition bootstrapPlayerPointType :: u8 where "bootstrapPlayerPointType = 1"

definition sortedBootstrapQuickslots :: "quickslot list \<Rightarrow> quickslot list" where
  "sortedBootstrapQuickslots qs = (if qs = [] then [] else sort_key qPosition qs)"

definition bootstrapEquipmentAppearanceVnum :: "item_instance \<Rightarrow> (u32 \<Rightarrow> template option) \<Rightarrow> u16" where
  "bootstrapEquipmentAppearanceVnum item templates =
     (case templates (Vnum item) of
        None \<Rightarrow> ucast (Vnum item)
      | Some t \<Rightarrow>
          if tAppearanceVnum t = 0 \<or> \<not> ValidTemplate t then ucast (Vnum item)
          else case ParseEquipmentSlot (tEquipSlot t) of
            None \<Rightarrow> ucast (Vnum item)
          | Some slot \<Rightarrow> if slot \<noteq> EquipSlot item then ucast (Vnum item) else ucast (tAppearanceVnum t))"

definition wear_part :: "equipment_slot \<Rightarrow> nat option" where
  "wear_part slot =
     (if slot = EquipmentSlotBody then Some 0
      else if slot = EquipmentSlotWeapon then Some 1
      else if slot = EquipmentSlotHead then Some 2
      else if slot = EquipmentSlotHair then Some 3
      else None)"

fun dress :: "(u32 \<Rightarrow> template option) \<Rightarrow> u16 list \<Rightarrow> item_instance list \<Rightarrow> u16 list" where
  "dress templates parts [] = parts"
| "dress templates parts (item # items) =
     dress templates
       (if \<not> Equipped item then parts
        else case wear_part (EquipSlot item) of
          None \<Rightarrow> parts
        | Some n \<Rightarrow> parts[n := bootstrapEquipmentAppearanceVnum item templates]) items"

definition bootstrapCharacterAppearanceParts :: "character \<Rightarrow> (u32 \<Rightarrow> template option) \<Rightarrow> u16 list" where
  "bootstrapCharacterAppearanceParts c templates = dress templates [cMainPart c, 0, 0, cHairPart c] (cEquipment c)"

text \<open>The angle 90.5 as the bits of a \<open>float32\<close>.\<close>

definition bootstrapCharacterAddPacket :: "character \<Rightarrow> (u32 \<Rightarrow> template option) \<Rightarrow> CharacterAddPacket" where
  "bootstrapCharacterAddPacket c templates =
     \<lparr>caVID = cVID c, caAngle = 0x42B50000, caX = cX c, caY = cY c, caZ = cZ c, caType = CharacterTypePC,
      caRaceNum = cRaceNum c, caMovingSpeed = 150, caAttackSpeed = 100, caStateFlag = 2,
      caAffectFlags = [0x11111111, 0x22222222], caParts = bootstrapCharacterAppearanceParts c templates\<rparr>"

definition bootstrapCharacterAdditionalInfoPacket :: "character \<Rightarrow> (u32 \<Rightarrow> template option) \<Rightarrow> CharacterAdditionalInfoPacket" where
  "bootstrapCharacterAdditionalInfoPacket c templates =
     \<lparr>ciVID = cVID c, ciName = cName c, ciParts = bootstrapCharacterAppearanceParts c templates, ciEmpire = cEmpire c,
      ciGuildID = cGuildID c, ciLevel = ucast (cLevel c), ciAlignment = 0, ciPKMode = 0, ciMountVnum = 0\<rparr>"

definition bootstrapCharacterUpdatePacket :: "character \<Rightarrow> (u32 \<Rightarrow> template option) \<Rightarrow> CharacterUpdatePacket" where
  "bootstrapCharacterUpdatePacket c templates =
     \<lparr>cuVID = cVID c, cuParts = bootstrapCharacterAppearanceParts c templates, cuMovingSpeed = 150,
      cuAttackSpeed = 100, cuStateFlag = 2, cuAffectFlags = [0x11111111, 0x22222222], cuGuildID = cGuildID c,
      cuAlignment = 0, cuPKMode = 0, cuMountVnum = 0\<rparr>"

definition bootstrapPlayerPointChangePacket :: "character \<Rightarrow> PlayerPointChangePacket" where
  "bootstrapPlayerPointChangePacket c =
     (let v0 = cPoints c ! 1; v = (if sint v0 < 0 then 0 else v0) in
      \<lparr>ppVID = cVID c, ppType = bootstrapPlayerPointType, ppAmount = v, ppValue = v\<rparr>)"

definition quickslot_packet :: "quickslot \<Rightarrow> QuickslotAddPacket" where
  "quickslot_packet q = \<lparr>qaPosition = qPosition q, qaSlot = \<lparr>wsType = qType q, wsPosition = qSlot q\<rparr>\<rparr>"

definition BuildBootstrapFramesWithTemplates ::
    "character \<Rightarrow> (u32 \<Rightarrow> template option) \<Rightarrow> packet_error + u8 list list" where
  "BuildBootstrapFramesWithTemplates c templates =
     (case EncodeCharacterAdditionalInfo (bootstrapCharacterAdditionalInfoPacket c templates) of
        Inl e \<Rightarrow> Inl e
      | Inr infoRaw \<Rightarrow>
          Inr ([EncodeCharacterAdd (bootstrapCharacterAddPacket c templates), infoRaw,
                EncodeCharacterUpdate (bootstrapCharacterUpdatePacket c templates),
                EncodePlayerPointChange (bootstrapPlayerPointChangePacket c)] @
               map (\<lambda>q. EncodeQuickslotAdd (quickslot_packet q)) (sortedBootstrapQuickslots (cQuickslots c))))"

definition BuildBootstrapFrames :: "character \<Rightarrow> packet_error + u8 list list" where
  "BuildBootstrapFrames c = BuildBootstrapFramesWithTemplates c Map.empty"

section \<open>Transfer\<close>

record warp_target =
  wtMapIndex :: u32
  wtX :: i32
  wtY :: i32

record warp_result =
  wrApplied :: bool
  wrUpdated :: character
  wrSelfFrames :: "u8 list list"

text \<open>The configuration has the fields of the flow; a callback that is \<open>nil\<close> is \<open>None\<close>.\<close>

record 'w warp_flow =
  wfPersist :: "('w \<Rightarrow> character \<Rightarrow> 'w \<times> bool) option"
  wfRollback :: "('w \<Rightarrow> character \<Rightarrow> 'w \<times> bool) option"
  wfCommit :: "('w \<Rightarrow> character \<Rightarrow> 'w \<times> warp_result option) option"
  wfEndpoint :: "WarpPacket option"

definition warp_NewFlow :: "'w warp_flow \<Rightarrow> 'w warp_flow" where
  "warp_NewFlow cfg = \<lparr>wfPersist = wfPersist cfg, wfRollback = wfRollback cfg, wfCommit = wfCommit cfg, wfEndpoint = wfEndpoint cfg\<rparr>"

definition warp_frames :: "WarpPacket option \<Rightarrow> character \<Rightarrow> warp_result \<Rightarrow> warp_result" where
  "warp_frames endpoint updated result =
     (case endpoint of
        None \<Rightarrow> result
      | Some e \<Rightarrow>
          if wpPort e = 0 then result
          else result\<lparr>wrSelfFrames := wrSelfFrames result @
            [EncodeWarp \<lparr>wpX = cX updated, wpY = cY updated, wpAddr = wpAddr e, wpPort = wpPort e\<rparr>]\<rparr>)"

definition warp_Apply :: "'w warp_flow \<Rightarrow> 'w \<Rightarrow> character \<Rightarrow> warp_target \<Rightarrow> 'w \<times> warp_result option" where
  "warp_Apply f w selected target =
     (case wfCommit f of
        None \<Rightarrow> (w, None)
      | Some commit \<Rightarrow>
          if cID selected = 0 \<or> wtMapIndex target = 0 then (w, None)
          else
            let updated = selected\<lparr>cMapIndex := wtMapIndex target, cX := wtX target, cY := wtY target\<rparr>;
                (w, persisted) = (case wfPersist f of None \<Rightarrow> (w, True) | Some persist \<Rightarrow> persist w updated) in
            if \<not> persisted then (w, None)
            else
              let (w, result) = commit w updated in
              case result of
                None \<Rightarrow> (case wfRollback f of None \<Rightarrow> (w, None) | Some rollback \<Rightarrow> (fst (rollback w selected), None))
              | Some result \<Rightarrow> (w, Some (warp_frames (wfEndpoint f) updated result)))"

section \<open>What the client is shown\<close>

lemma dress_length [simp]: "length (dress templates parts items) = length parts"
  by (induction items arbitrary: parts) (auto split: option.splits)

lemma appearance_length [simp]: "length (bootstrapCharacterAppearanceParts c templates) = 4"
  by (simp add: bootstrapCharacterAppearanceParts_def)

lemma wear_part_inj: "wear_part s = Some n \<Longrightarrow> wear_part s' = Some n \<Longrightarrow> s = s'"
  by (simp add: wear_part_def split: if_split_asm)

lemma dress_untouched:
  "\<forall>item \<in> set items. Equipped item \<longrightarrow> wear_part (EquipSlot item) \<noteq> Some n \<Longrightarrow>
   dress templates parts items ! n = parts ! n"
proof (induction items arbitrary: parts)
  case (Cons item items)
  then show ?case by (cases "wear_part (EquipSlot item)") auto
qed simp

text \<open>When every wear slot is worn once, a part shows the instance that is worn there.\<close>

lemma dress_worn:
  assumes "distinct (map EquipSlot (filter Equipped items))" and "item \<in> set items" "Equipped item"
    and "wear_part (EquipSlot item) = Some n" and "n < length parts"
  shows "dress templates parts items ! n = bootstrapEquipmentAppearanceVnum item templates"
  using assms
proof (induction items arbitrary: parts)
  case (Cons x xs)
  show ?case
  proof (cases "item = x")
    case True
    have "wear_part (EquipSlot y) \<noteq> Some n" if "y \<in> set xs" "Equipped y" for y
    proof
      assume "wear_part (EquipSlot y) = Some n"
      then have "EquipSlot y = EquipSlot x" using wear_part_inj Cons.prems(4) True by blast
      with that True Cons.prems(1,3) show False by (auto simp: image_iff)
    qed
    then have "dress templates ps xs ! n = ps ! n" for ps by (intro dress_untouched) blast
    with True Cons.prems show ?thesis by simp
  next
    case False
    with Cons.prems have "item \<in> set xs" "distinct (map EquipSlot (filter Equipped xs))"
      by (auto split: if_split_asm)
    with Cons.IH [OF this(2,1) Cons.prems(3,4)] Cons.prems(5) show ?thesis
      by (simp split: option.split)
  qed
qed simp

theorem appearance_exact:
  assumes "distinct (map EquipSlot (filter Equipped (cEquipment c)))"
  shows "(\<exists>item \<in> set (cEquipment c). Equipped item \<and> wear_part (EquipSlot item) = Some n \<and>
           bootstrapCharacterAppearanceParts c templates ! n = bootstrapEquipmentAppearanceVnum item templates) \<or>
    bootstrapCharacterAppearanceParts c templates ! n = [cMainPart c, 0, 0, cHairPart c] ! n"
proof (cases "\<exists>item \<in> set (cEquipment c). Equipped item \<and> wear_part (EquipSlot item) = Some n")
  case True
  then obtain item where i: "item \<in> set (cEquipment c)" "Equipped item" "wear_part (EquipSlot item) = Some n" by blast
  then have "n < 4" by (simp add: wear_part_def split: if_split_asm)
  with dress_worn [OF assms i, of "[cMainPart c, 0, 0, cHairPart c]" templates] i show ?thesis
    by (auto simp: bootstrapCharacterAppearanceParts_def)
next
  case False
  then have "bootstrapCharacterAppearanceParts c templates ! n = [cMainPart c, 0, 0, cHairPart c] ! n"
    unfolding bootstrapCharacterAppearanceParts_def by (intro dress_untouched) blast
  then show ?thesis by blast
qed

text \<open>
  The frames of the entry are refused exactly when the name is too long for its field, and otherwise
  decode to the character: the packet that shows it, the one with its name and its looks, the
  update, its points and, in the order of the bar, its quickslots.
\<close>

theorem BuildBootstrapFrames_exact:
  "(\<not> length (cName c) < 65 \<longrightarrow> BuildBootstrapFramesWithTemplates c templates = Inl ErrStringTooLong) \<and>
   (text_fits 65 (cName c) \<longrightarrow>
     (\<exists>add info upd point quicks.
       BuildBootstrapFramesWithTemplates c templates = Inr ([add, info, upd, point] @ quicks) \<and>
       DecodeCharacterAdd (frame_in add) = Inr ((bootstrapCharacterAddPacket c templates)\<lparr>caParts := replicate 4 0\<rparr>) \<and>
       DecodeCharacterAdditionalInfo (frame_in info) = Inr (bootstrapCharacterAdditionalInfoPacket c templates) \<and>
       DecodeCharacterUpdate (frame_in upd) = Inr (bootstrapCharacterUpdatePacket c templates) \<and>
       DecodePlayerPointChange (frame_in point) = Inr (bootstrapPlayerPointChangePacket c) \<and>
       map (\<lambda>bs. DecodeQuickslotAdd (frame_in bs)) quicks = map (\<lambda>q. Inr (quickslot_packet q)) (sort_key qPosition (cQuickslots c))))"
proof (intro conjI impI)
  let ?info = "bootstrapCharacterAdditionalInfoPacket c templates"
  let ?add = "bootstrapCharacterAddPacket c templates"
  show "BuildBootstrapFramesWithTemplates c templates = Inl ErrStringTooLong" if "\<not> length (cName c) < 65"
    using that character_additional_info_packet.encode_refuses [of ?info]
    by (simp add: BuildBootstrapFramesWithTemplates_def bootstrapCharacterAdditionalInfoPacket_def)
  assume fits: "text_fits 65 (cName c)"
  have info: "text_fits 65 (ciName ?info) \<and> length (ciParts ?info) = 4"
    using fits by (simp add: bootstrapCharacterAdditionalInfoPacket_def)
  have e: "EncodeCharacterAdditionalInfo ?info = Inr (sent (EncodeCharacterAdditionalInfo ?info))"
    by (rule character_additional_info_packet.encode_fits) (rule character_additional_info_packet.valid_fits [OF info])
  have s: "sortedBootstrapQuickslots (cQuickslots c) = sort_key qPosition (cQuickslots c)"
    by (simp add: sortedBootstrapQuickslots_def)
  have b: "BuildBootstrapFramesWithTemplates c templates =
      Inr ([EncodeCharacterAdd ?add, sent (EncodeCharacterAdditionalInfo ?info),
        EncodeCharacterUpdate (bootstrapCharacterUpdatePacket c templates), EncodePlayerPointChange (bootstrapPlayerPointChangePacket c)] @
        map (\<lambda>q. EncodeQuickslotAdd (quickslot_packet q)) (sort_key qPosition (cQuickslots c)))"
    unfolding BuildBootstrapFramesWithTemplates_def s by (subst e) simp
  have "EncodeCharacterAdd ?add = EncodeCharacterAdd (?add\<lparr>caParts := replicate 4 0\<rparr>)" by (simp add: EncodeCharacterAdd_def)
  also have "DecodeCharacterAdd (frame_in \<dots>) = Inr (?add\<lparr>caParts := replicate 4 0\<rparr>)"
    by (rule character_add_packet.decode_encode) (simp add: bootstrapCharacterAddPacket_def)
  finally have add: "DecodeCharacterAdd (frame_in (EncodeCharacterAdd ?add)) = Inr (?add\<lparr>caParts := replicate 4 0\<rparr>)" .
  have upd: "DecodeCharacterUpdate (frame_in (EncodeCharacterUpdate (bootstrapCharacterUpdatePacket c templates))) =
      Inr (bootstrapCharacterUpdatePacket c templates)"
    by (rule character_update_packet.decode_encode) (simp add: bootstrapCharacterUpdatePacket_def)
  have "map (\<lambda>bs. DecodeQuickslotAdd (frame_in bs)) (map (\<lambda>q. EncodeQuickslotAdd (quickslot_packet q)) qs) =
      map (\<lambda>q. Inr (quickslot_packet q)) qs" for qs
    by (simp add: quickslot_add.decode_encode)
  with b add upd character_additional_info_packet.sent_decode [OF info] player_point_change_packet.decode_encode
  show "\<exists>add info upd point quicks.
       BuildBootstrapFramesWithTemplates c templates = Inr ([add, info, upd, point] @ quicks) \<and>
       DecodeCharacterAdd (frame_in add) = Inr ((bootstrapCharacterAddPacket c templates)\<lparr>caParts := replicate 4 0\<rparr>) \<and>
       DecodeCharacterAdditionalInfo (frame_in info) = Inr (bootstrapCharacterAdditionalInfoPacket c templates) \<and>
       DecodeCharacterUpdate (frame_in upd) = Inr (bootstrapCharacterUpdatePacket c templates) \<and>
       DecodePlayerPointChange (frame_in point) = Inr (bootstrapPlayerPointChangePacket c) \<and>
       map (\<lambda>bs. DecodeQuickslotAdd (frame_in bs)) quicks = map (\<lambda>q. Inr (quickslot_packet q)) (sort_key qPosition (cQuickslots c))"
    by blast
qed

section \<open>A transfer happens or does not\<close>

text \<open>
  With callbacks that leave the state alone when they refuse and a rollback that undoes what was
  persisted, a refused transfer leaves no trace; an accepted one was persisted and committed with the
  selected character at the target, and its last own frame sends the client to exactly that place.
\<close>

theorem warp_Apply_atomic:
  assumes "wfPersist f = Some persist" "wfRollback f = Some rollback" "wfCommit f = Some commit"
    and "\<And>w c w'. persist w c = (w', False) \<Longrightarrow> w' = w"
    and "\<And>w c w1 w2. persist w c = (w1, True) \<Longrightarrow> commit w1 c = (w2, None) \<Longrightarrow> fst (rollback w2 selected) = w"
    and "warp_Apply f w selected target = (w', result)"
  shows "case result of
      None \<Rightarrow> w' = w
    | Some r \<Rightarrow> \<exists>w1 r0. let updated = selected\<lparr>cMapIndex := wtMapIndex target, cX := wtX target, cY := wtY target\<rparr> in
        persist w updated = (w1, True) \<and> commit w1 updated = (w', Some r0) \<and> wtMapIndex target \<noteq> 0 \<and>
        wrApplied r = wrApplied r0 \<and> wrUpdated r = wrUpdated r0 \<and>
        (case wfEndpoint f of
           None \<Rightarrow> wrSelfFrames r = wrSelfFrames r0
         | Some e \<Rightarrow> if wpPort e = 0 then wrSelfFrames r = wrSelfFrames r0
             else butlast (wrSelfFrames r) = wrSelfFrames r0 \<and>
               DecodeWarp (frame_in (last (wrSelfFrames r))) = Inr (e\<lparr>wpX := wtX target, wpY := wtY target\<rparr>))"
proof -
  let ?u = "selected\<lparr>cMapIndex := wtMapIndex target, cX := wtX target, cY := wtY target\<rparr>"
  have d: "DecodeWarp (frame_in (EncodeWarp p)) = Inr p" for p by (rule warp_packet.decode_encode) simp
  have x: "e\<lparr>wpX := a, wpY := b\<rparr> = \<lparr>wpX = a, wpY = b, wpAddr = wpAddr e, wpPort = wpPort e\<rparr>" for e :: WarpPacket and a b
    by simp
  obtain w1 b where p: "persist w ?u = (w1, b)" by fastforce
  obtain w2 r where c: "commit w1 ?u = (w2, r)" by fastforce
  show ?thesis
    using assms(1-3,6) assms(4) [of w ?u] assms(5) [of w ?u w1 w2] p c
    by (auto simp: warp_Apply_def warp_frames_def Let_def d x split: if_split_asm option.splits)
qed

end
