(* ===== verification/Position.thy ===== *)
theory Position
  imports Character_Data
begin

text \<open>\<open>internal/worldruntime/position.go\<close>: positions on a map.\<close>

record position =
  pMapIndex :: u32
  pX :: i32
  pY :: i32

definition NewPosition :: "u32 \<Rightarrow> i32 \<Rightarrow> i32 \<Rightarrow> position" where
  "NewPosition mapIndex x y = \<lparr>pMapIndex = mapIndex, pX = x, pY = y\<rparr>"

definition PositionFromCharacter :: "character \<Rightarrow> position" where
  "PositionFromCharacter c = NewPosition (cMapIndex c) (cX c) (cY c)"

definition Position_Valid :: "position \<Rightarrow> bool" where
  "Position_Valid p \<longleftrightarrow> pMapIndex p \<noteq> 0"

definition Position_Equal :: "position \<Rightarrow> position \<Rightarrow> bool" where
  "Position_Equal p other \<longleftrightarrow> p = other"

definition SameMap :: "position \<Rightarrow> position \<Rightarrow> bool" where
  "SameMap p other \<longleftrightarrow> Position_Valid p \<and> Position_Valid other \<and> pMapIndex p = pMapIndex other"

lemma SameMap_sym: "SameMap p q \<longleftrightarrow> SameMap q p"
  by (auto simp: SameMap_def)

end
