(* ===== verification/Player_Runtime.thy ===== *)
theory Player_Runtime
  imports Position
begin

text \<open>
  \<open>internal/player/runtime.go\<close>, the live state of one player and its basic operations:
  snapshots, position, gold, points, the slice helpers every item operation uses. A method
  \<open>func (r *Runtime) M(..) (T, bool)\<close> becomes \<open>M r ..\<close> with the receiver's state afterwards and
  \<open>None\<close> for \<open>false\<close>. Receivers are never \<open>nil\<close> here; the code answers a \<open>nil\<close> receiver with
  the zero value and \<open>false\<close>.
\<close>

section \<open>State\<close>

record session_link =
  linkLogin :: string
  linkCharacterIndex :: u8

record runtime =
  persisted :: character
  live :: position
  liveGold :: u64
  livePoints :: "i32 list"
  liveInventory :: "item_instance list"
  liveEquipment :: "item_instance list"
  liveQuickslots :: "quickslot list"
  sessionLink :: session_link

record point_change_result =
  PointType :: u8
  PointAmount :: i32
  PointValue :: i32

record death_reward =
  Experience :: u64
  Gold :: u64
  DropVnums :: "u32 list"

record death_reward_result =
  rExperience :: u64
  ExperienceBefore :: i32
  ExperienceAfter :: i32
  rGold :: u64
  rGoldBefore :: u64
  rGoldAfter :: u64

definition ExperiencePointIndex :: u8 where "ExperiencePointIndex = 3"

section \<open>Slices of items\<close>

definition findInventorySlot :: "item_instance list \<Rightarrow> slot_index \<Rightarrow> nat option" where
  "findInventorySlot items slot = find_index (\<lambda>i. \<not> Equipped i \<and> Slot i = slot) items"

definition countInventorySlotOccupancy :: "item_instance list \<Rightarrow> slot_index \<Rightarrow> nat" where
  "countInventorySlotOccupancy items slot = length (filter (\<lambda>i. \<not> Equipped i \<and> Slot i = slot) items)"

definition findEquipmentSlot :: "item_instance list \<Rightarrow> equipment_slot \<Rightarrow> nat option" where
  "findEquipmentSlot items slot = find_index (\<lambda>i. Equipped i \<and> EquipSlot i = slot) items"

definition countEquipmentSlotOccupancy :: "item_instance list \<Rightarrow> equipment_slot \<Rightarrow> nat" where
  "countEquipmentSlotOccupancy items slot = length (filter (\<lambda>i. Equipped i \<and> EquipSlot i = slot) items)"

definition inventorySlotOccupied :: "item_instance list \<Rightarrow> slot_index \<Rightarrow> bool" where
  "inventorySlotOccupied items slot \<longleftrightarrow> findInventorySlot items slot \<noteq> None"

definition equipmentSlotOccupied :: "item_instance list \<Rightarrow> equipment_slot \<Rightarrow> bool" where
  "equipmentSlotOccupied items slot \<longleftrightarrow> findEquipmentSlot items slot \<noteq> None"

definition removeInventoryIndex :: "item_instance list \<Rightarrow> nat \<Rightarrow> item_instance list" where
  "removeInventoryIndex items index =
     (if length items \<le> index then items else remove_nth index items)"

definition nextFreeInventorySlot :: "item_instance list \<Rightarrow> slot_index option" where
  "nextFreeInventorySlot items =
     find (\<lambda>slot. \<not> inventorySlotOccupied items slot)
       (map of_nat [0..<unat CarriedInventorySlotCount])"

fun hasDuplicate_loop :: "slot_index set \<Rightarrow> item_instance list \<Rightarrow> bool" where
  "hasDuplicate_loop seen [] = False"
| "hasDuplicate_loop seen (i # is) =
     (if Equipped i then hasDuplicate_loop seen is
      else if Slot i \<in> seen then True
      else hasDuplicate_loop (insert (Slot i) seen) is)"

definition hasDuplicateInventorySlotOccupancy :: "item_instance list \<Rightarrow> bool" where
  "hasDuplicateInventorySlotOccupancy items = hasDuplicate_loop {} items"

definition hasItemInstanceID :: "item_instance list \<Rightarrow> u64 \<Rightarrow> bool" where
  "hasItemInstanceID items iid = (if iid = 0 then False else list_ex (\<lambda>i. ID i = iid) items)"

definition sortInventoryItems :: "item_instance list \<Rightarrow> item_instance list" where
  "sortInventoryItems items = sort_key (\<lambda>i. (Slot i, ID i)) items"

text \<open>A Go map answers a missing key with the zero value, here for slots outside the order.\<close>

definition equipmentSlotOrderIndex :: "equipment_slot \<Rightarrow> nat" where
  "equipmentSlotOrderIndex s =
     (case find_index (\<lambda>x. x = s) AllEquipmentSlots of Some i \<Rightarrow> i | None \<Rightarrow> 0)"

definition sortEquipmentItems :: "item_instance list \<Rightarrow> item_instance list" where
  "sortEquipmentItems items = sort_key (\<lambda>i. (equipmentSlotOrderIndex (EquipSlot i), ID i)) items"

definition maxItemID :: "item_instance list \<Rightarrow> item_instance list \<Rightarrow> u64" where
  "maxItemID inventoryItems equipmentItems =
     foldl (\<lambda>m i. if m < ID i then ID i else m) 0 (inventoryItems @ equipmentItems)"

definition nextSplitItemID :: "runtime \<Rightarrow> u64" where
  "nextSplitItemID r =
     (let maxID = maxItemID (liveInventory r) (liveEquipment r) in
      if maxID = -1 then 0 else maxID + 1)"

definition nextLiveItemInstanceID :: "item_instance list \<Rightarrow> item_instance list \<Rightarrow> u64" where
  "nextLiveItemInstanceID inventoryItems equipmentItems =
     (let maxID = maxItemID inventoryItems equipmentItems in
      if maxID = 0 then 1 else maxID + 1)"

section \<open>Quickslot helpers\<close>

definition quickslotMaxNum :: u8 where "quickslotMaxNum = 36"
definition quickslotSkillSlotMax :: u8 where "quickslotSkillSlotMax = 200"
definition quickslotCommandSlotMax :: u8 where "quickslotCommandSlotMax = 60"

definition sortQuickslots :: "quickslot list \<Rightarrow> quickslot list" where
  "sortQuickslots qs = sort_key qPosition qs"

definition findQuickslotPosition :: "quickslot list \<Rightarrow> u8 \<Rightarrow> nat option" where
  "findQuickslotPosition qs position = find_index (\<lambda>q. qPosition q = position) qs"

definition validQuickslotPosition :: "u8 \<Rightarrow> bool" where
  "validQuickslotPosition position \<longleftrightarrow> position < quickslotMaxNum"

definition validQuickslotTuple :: "quickslot \<Rightarrow> bool" where
  "validQuickslotTuple q =
     (if qType q = TypeNone then qSlot q = 0
      else if qType q = TypeItem then qSlot q < ucast CarriedInventorySlotCount
      else if qType q = TypeSkill then qSlot q < quickslotSkillSlotMax
      else if qType q = TypeCommand then qSlot q < quickslotCommandSlotMax
      else False)"

section \<open>Snapshots and accessors\<close>

definition cloneCharacter :: "character \<Rightarrow> character" where
  "cloneCharacter c = (case CloneCharacters [c] of [] \<Rightarrow> zero_character | x # _ \<Rightarrow> x)"

definition normalizeCharacter :: "character \<Rightarrow> character" where
  "normalizeCharacter c = NormalizeItemState (cloneCharacter c)"

definition ApplyPersistedSnapshot :: "runtime \<Rightarrow> character \<Rightarrow> runtime" where
  "ApplyPersistedSnapshot r c =
     (let p = normalizeCharacter c in
      r\<lparr>persisted := p, live := PositionFromCharacter p, liveGold := cGold p,
        livePoints := cPoints p,
        liveInventory := sortInventoryItems (cloneItemInstances (cInventory p)),
        liveEquipment := sortEquipmentItems (cloneItemInstances (cEquipment p)),
        liveQuickslots := sortQuickslots (cQuickslots p)\<rparr>)"

definition SetPersistedSnapshot :: "runtime \<Rightarrow> character \<Rightarrow> runtime" where
  "SetPersistedSnapshot r c = r\<lparr>persisted := normalizeCharacter c\<rparr>"

definition NewRuntime :: "character \<Rightarrow> session_link \<Rightarrow> runtime" where
  "NewRuntime c l =
     ApplyPersistedSnapshot
       \<lparr>persisted = zero_character, live = NewPosition 0 0 0, liveGold = 0,
        livePoints = replicate 255 0, liveInventory = [], liveEquipment = [],
        liveQuickslots = [], sessionLink = l\<rparr> c"

definition PersistedSnapshot :: "runtime \<Rightarrow> character" where
  "PersistedSnapshot r = cloneCharacter (persisted r)"

definition LiveCharacter :: "runtime \<Rightarrow> character" where
  "LiveCharacter r =
     (PersistedSnapshot r)\<lparr>cMapIndex := pMapIndex (live r), cX := pX (live r), cY := pY (live r),
        cGold := liveGold r, cPoints := livePoints r,
        cInventory := cloneItemInstances (liveInventory r),
        cEquipment := cloneItemInstances (liveEquipment r),
        cQuickslots := liveQuickslots r\<rparr>"

definition EquipmentSlotOccupied :: "runtime \<Rightarrow> equipment_slot \<Rightarrow> bool" where
  "EquipmentSlotOccupied r slot =
     (if \<not> Valid slot then False else equipmentSlotOccupied (liveEquipment r) slot)"

definition SetLivePosition :: "runtime \<Rightarrow> u32 \<Rightarrow> i32 \<Rightarrow> i32 \<Rightarrow> runtime" where
  "SetLivePosition r mapIndex x y = r\<lparr>live := NewPosition mapIndex x y\<rparr>"

definition SetLiveGold :: "runtime \<Rightarrow> u64 \<Rightarrow> runtime" where
  "SetLiveGold r gold = r\<lparr>liveGold := gold\<rparr>"

text \<open>\<open>EquipmentEligibilitySubject\<close> and \<open>CanUseTemplate\<close> look at the persisted character.\<close>

definition EquipmentEligibilitySubject :: "runtime \<Rightarrow> subject" where
  "EquipmentEligibilitySubject r =
     \<lparr>sJob = cJob (persisted r), sRaceNum = cRaceNum (persisted r),
      sEmpire = cEmpire (persisted r), sLevel = cLevel (persisted r)\<rparr>"

definition CanUseTemplate :: "runtime \<Rightarrow> template \<Rightarrow> bool" where
  "CanUseTemplate r t = CanUse t (EquipmentEligibilitySubject r)"

section \<open>Gold, experience and points\<close>

definition AddLiveGold :: "runtime \<Rightarrow> u64 \<Rightarrow> (runtime, u64) outcome" where
  "AddLiveGold r amount =
     (if amount = 0 \<or> maxPointChangeCarrier < amount then (r, None)
      else
        let nextGold = liveGold r + amount in
        if nextGold < liveGold r \<or> maxPointChangeCarrier < nextGold then (r, None)
        else (r\<lparr>liveGold := nextGold\<rparr>, Some nextGold))"

definition DeductLiveGold :: "runtime \<Rightarrow> u64 \<Rightarrow> (runtime, u64) outcome" where
  "DeductLiveGold r amount =
     (if amount = 0 then (r, Some (liveGold r))
      else if maxPointChangeCarrier < amount \<or> liveGold r < amount \<or>
              maxPointChangeCarrier < liveGold r then (r, None)
      else (r\<lparr>liveGold := liveGold r - amount\<rparr>, Some (liveGold r - amount)))"

definition point :: "runtime \<Rightarrow> u8 \<Rightarrow> i32" where
  "point r index = livePoints r ! unat index"

definition set_point :: "runtime \<Rightarrow> u8 \<Rightarrow> i32 \<Rightarrow> runtime" where
  "set_point r index v = r\<lparr>livePoints := (livePoints r)[unat index := v]\<rparr>"

definition DeductLiveExperience :: "runtime \<Rightarrow> u64 \<Rightarrow> (runtime, i32) outcome" where
  "DeductLiveExperience r amount =
     (let cur = point r ExperiencePointIndex in
      if amount = 0 then (r, Some cur)
      else if maxPointChangeCarrier < amount \<or> sint cur < 0 \<or> nat (sint cur) < unat amount
      then (r, None)
      else
        let updated = cur - ucast amount in
        (set_point r ExperiencePointIndex updated, Some updated))"

definition SetLivePoint :: "runtime \<Rightarrow> u8 \<Rightarrow> i32 \<Rightarrow> runtime \<times> bool" where
  "SetLivePoint r pointIndex v =
     (if length (livePoints r) \<le> unat pointIndex then (r, False)
      else (set_point r pointIndex v, True))"

definition ApplyPointDelta :: "runtime \<Rightarrow> u8 \<Rightarrow> u8 \<Rightarrow> i32 \<Rightarrow> (runtime, point_change_result) outcome" where
  "ApplyPointDelta r pointType pointIndex pointDelta =
     (if length (livePoints r) \<le> unat pointIndex then (r, None)
      else
        let nextPointValue = sint (point r pointIndex) + sint pointDelta in
        if nextPointValue < min_i32 \<or> max_i32 < nextPointValue then (r, None)
        else
          let updated = i32_of nextPointValue in
          (set_point r pointIndex updated,
           Some \<lparr>PointType = pointType, PointAmount = pointDelta, PointValue = updated\<rparr>))"

definition ApplyStaticActorDeathReward ::
    "runtime \<Rightarrow> death_reward \<Rightarrow> (runtime, death_reward_result) outcome" where
  "ApplyStaticActorDeathReward r reward =
     (let experienceBefore = point r ExperiencePointIndex;
          nextExperience = sint experienceBefore + int (unat (Experience reward));
          goldBefore = liveGold r;
          nextGold = goldBefore + Gold reward in
      if Experience reward \<noteq> 0 \<and>
         (maxPointChangeCarrier < Experience reward \<or> max_i32 < nextExperience) then (r, None)
      else
        let experienceAfter =
              (if Experience reward \<noteq> 0 then i32_of nextExperience else experienceBefore) in
        if Gold reward \<noteq> 0 \<and>
           (maxPointChangeCarrier < Gold reward \<or> nextGold < goldBefore \<or>
            maxPointChangeCarrier < nextGold) then (r, None)
        else
          let goldAfter = (if Gold reward \<noteq> 0 then nextGold else goldBefore) in
          ((set_point r ExperiencePointIndex experienceAfter)\<lparr>liveGold := goldAfter\<rparr>,
           Some \<lparr>rExperience = Experience reward, ExperienceBefore = experienceBefore,
                 ExperienceAfter = experienceAfter, rGold = Gold reward,
                 rGoldBefore = goldBefore, rGoldAfter = goldAfter\<rparr>))"

end
