(* ===== verification/Keyed_Slice.thy ===== *)
theory Keyed_Slice
  imports Prelude
begin

text \<open>
  A slice whose elements carry distinct keys is a finite map. The components keep carried items
  by cell, worn items by wear slot, quickslots by position, sessions and entities by id in
  slices they search linearly; \<open>lookup\<close> is the map such a slice stands for, and the locale
  states what a search helper must promise about it.
\<close>

definition lookup :: "('a \<Rightarrow> 'k) \<Rightarrow> 'a list \<Rightarrow> 'k \<Rightarrow> 'a option" where
  "lookup key xs = map_of (map (\<lambda>x. (key x, x)) xs)"

abbreviation keys_distinct :: "('a \<Rightarrow> 'k) \<Rightarrow> 'a list \<Rightarrow> bool" where
  "keys_distinct key xs \<equiv> distinct (map key xs)"

lemma lookup_Some_iff:
  "keys_distinct key xs \<Longrightarrow> lookup key xs k = Some x \<longleftrightarrow> x \<in> set xs \<and> key x = k"
  unfolding lookup_def by (subst map_of_eq_Some_iff) (auto simp: o_def)

lemma lookup_None_iff: "lookup key xs k = None \<longleftrightarrow> (\<forall>x \<in> set xs. key x \<noteq> k)"
  by (force simp: lookup_def map_of_eq_None_iff)

lemma lookup_key: "lookup key xs k = Some x \<Longrightarrow> key x = k"
  by (auto simp: lookup_def dest: map_of_SomeD)

lemma lookup_eqI:
  assumes "keys_distinct key xs" and "\<And>x. x \<in> set xs \<longleftrightarrow> m (key x) = Some x"
    and "\<And>k x. m k = Some x \<Longrightarrow> key x = k"
  shows "lookup key xs = m"
proof
  fix k
  have "lookup key xs k = Some x \<longleftrightarrow> m k = Some x" for x
    unfolding lookup_Some_iff [OF assms(1)] using assms(2,3) by blast
  then show "lookup key xs k = m k" by (metis not_None_eq)
qed

lemma lookup_mset:
  assumes "keys_distinct key xs" and "mset ys = mset xs"
  shows "lookup key ys = lookup key xs"
proof (rule lookup_eqI)
  show "keys_distinct key ys" using assms by (metis mset_eq_imp_distinct_iff mset_map)
  show "x \<in> set ys \<longleftrightarrow> lookup key xs (key x) = Some x" for x
    using assms by (simp add: lookup_Some_iff flip: set_mset_mset)
qed (rule lookup_key)

lemma lookup_sort [simp]:
  "keys_distinct key xs \<Longrightarrow> lookup key (sort_key f xs) = lookup key xs"
  by (rule lookup_mset) simp_all

lemma lookup_append:
  assumes "\<forall>x \<in> set xs. key x \<noteq> key v"
  shows "lookup key (xs @ [v]) = (lookup key xs)(key v \<mapsto> v)"
  using assms by (induction xs) (auto simp: lookup_def fun_eq_iff)

lemma distinct_nth_key:
  "keys_distinct key xs \<Longrightarrow> i < length xs \<Longrightarrow> j < length xs \<Longrightarrow> key (xs ! i) = key (xs ! j) \<longleftrightarrow> i = j"
  by (metis length_map nth_eq_iff_index_eq nth_map)

lemma lookup_nth:
  "keys_distinct key xs \<Longrightarrow> i < length xs \<Longrightarrow> lookup key xs (key (xs ! i)) = Some (xs ! i)"
  by (simp add: lookup_Some_iff)

lemma set_remove_nth_keys:
  assumes "keys_distinct key xs" and "i < length xs"
  shows "x \<in> set (remove_nth i xs) \<longleftrightarrow> x \<in> set xs \<and> key x \<noteq> key (xs ! i)"
proof -
  obtain ys zs where s: "xs = ys @ xs ! i # zs" and r: "remove_nth i xs = ys @ zs"
    using remove_nth_split [OF assms(2)] by metis
  have "keys_distinct key (ys @ xs ! i # zs)" using s assms(1) by simp
  then have "key (xs ! i) \<notin> key ` set (ys @ zs)" by auto
  then have d: "key x \<noteq> key (xs ! i)" if "x \<in> set (ys @ zs)" for x
    using that by (metis image_eqI)
  have "x \<in> set (ys @ xs ! i # zs) \<and> key x \<noteq> key (xs ! i) \<longleftrightarrow> x \<in> set (ys @ zs)"
    using d by auto
  with s r show ?thesis by simp
qed

lemma lookup_remove:
  assumes "keys_distinct key xs" and "i < length xs"
  shows "lookup key (remove_nth i xs) = (lookup key xs)(key (xs ! i) := None)"
  using assms
  by (intro lookup_eqI)
    (auto simp: map_remove_nth distinct_remove_nth set_remove_nth_keys lookup_Some_iff
      split: if_splits dest: lookup_key)

lemma lookup_replace:
  assumes "keys_distinct key xs" and "i < length xs"
    and "\<forall>x \<in> set (remove_nth i xs). key x \<noteq> key v"
  shows "lookup key (xs[i := v]) = (lookup key xs)(key (xs ! i) := None, key v \<mapsto> v)"
proof -
  have d: "keys_distinct key (remove_nth i xs @ [v])"
    using assms(1,3) distinct_remove_nth [OF assms(1), of i]
    by (auto simp: map_remove_nth [symmetric])
  have "lookup key (xs[i := v]) = lookup key (remove_nth i xs @ [v])"
    by (rule lookup_mset [OF d]) (simp add: assms(2) mset_update mset_remove_nth)
  with assms show ?thesis by (simp add: lookup_append lookup_remove)
qed

lemma lookup_update:
  assumes "keys_distinct key xs" and "i < length xs" and "key v = key (xs ! i)"
  shows "lookup key (xs[i := v]) = (lookup key xs)(key v \<mapsto> v)"
proof -
  have "\<forall>x \<in> set (remove_nth i xs). key x \<noteq> key v"
    using assms by (simp add: set_remove_nth_keys)
  from lookup_replace [OF assms(1,2) this] assms(3) show ?thesis by simp
qed

lemma lookup_swap:
  assumes "keys_distinct key xs" and "i < length xs" and "j < length xs" and "i \<noteq> j"
    and "key v = key (xs ! j)" and "key w = key (xs ! i)"
  shows "lookup key (xs[i := v, j := w]) = (lookup key xs)(key (xs ! i) \<mapsto> w, key (xs ! j) \<mapsto> v)"
proof -
  have "mset (xs[i := v, j := w]) = mset (xs[i := w, j := v])"
    using assms(2-4) mset_swap [of i "xs[i := w, j := v]" j]
    by (simp add: list_update_swap [of i j])
  moreover have d: "keys_distinct key (xs[i := w, j := v])"
  proof -
    have "map key (xs[i := w, j := v]) = map key xs"
      using assms by (intro nth_equalityI) (simp_all add: nth_list_update)
    with assms(1) show ?thesis by simp
  qed
  ultimately have "lookup key (xs[i := v, j := w]) = lookup key (xs[i := w, j := v])"
    by (intro lookup_mset)
  moreover have d1: "keys_distinct key (xs[i := w])"
    using assms by (simp add: map_update_same)
  ultimately show ?thesis
    using assms lookup_update [of key "xs[i := w]" j v] by (simp add: lookup_update)
qed

text \<open>
  The interface of a search helper: on a slice of acceptable elements with distinct keys it
  finds an element exactly by its key.
\<close>

locale keyed_slice =
  fixes key :: "'a \<Rightarrow> 'k" and find_at :: "'a list \<Rightarrow> 'k \<Rightarrow> nat option" and good :: "'a \<Rightarrow> bool"
  assumes find_at_None: "\<forall>x \<in> set xs. good x \<Longrightarrow> find_at xs k = None \<longleftrightarrow> (\<forall>x \<in> set xs. key x \<noteq> k)"
    and find_at_Some: "find_at xs k = Some i \<Longrightarrow> i < length xs \<and> key (xs ! i) = k"
begin

lemma find_lookup_Some:
  assumes "keys_distinct key xs" and "find_at xs k = Some i"
  shows "i < length xs" and "key (xs ! i) = k" and "lookup key xs k = Some (xs ! i)"
  using assms find_at_Some [OF assms(2)] lookup_nth [OF assms(1), of i] by auto

lemma find_lookup_None:
  "\<forall>x \<in> set xs. good x \<Longrightarrow> find_at xs k = None \<longleftrightarrow> lookup key xs k = None"
  by (simp add: find_at_None lookup_None_iff)

lemma find_at_iff:
  assumes "\<forall>x \<in> set xs. good x" and "keys_distinct key xs" and "i < length xs"
  shows "find_at xs (key (xs ! i)) = Some i"
proof -
  have "find_at xs (key (xs ! i)) \<noteq> None"
    using assms(3) by (auto simp: find_at_None [OF assms(1)])
  then obtain j where "find_at xs (key (xs ! i)) = Some j" by auto
  with find_at_Some [OF this] distinct_nth_key [OF assms(2) _ assms(3), of j] show ?thesis
    by simp
qed

lemma find_at_update_key:
  assumes "\<forall>x \<in> set xs. good x" and "keys_distinct key xs" and "i < length xs"
    and "good v" and "key v = key (xs ! i)"
  shows "find_at (xs[i := v]) k = find_at xs k"
proof -
  have g: "\<forall>x \<in> set (xs[i := v]). good x"
    using assms(1,4) set_update_subset_insert [of xs i v] by blast
  have d: "keys_distinct key (xs[i := v])"
    using assms by (simp add: map_update_same)
  have k: "key (xs[i := v] ! j) = key (xs ! j)" if "j < length xs" for j
    using that assms(3,5) by (simp add: nth_list_update)
  show ?thesis
  proof (cases "find_at xs k")
    case None
    then have "\<forall>x \<in> set (xs[i := v]). key x \<noteq> k"
      using find_at_None [OF assms(1), of k] None assms(5) nth_mem [OF assms(3)]
        set_update_subset_insert [of xs i v] by (metis insert_iff subsetD)
    with None g show ?thesis by (simp add: find_at_None)
  next
    case (Some j)
    with find_at_Some [OF Some] k find_at_iff [OF g d, of j] show ?thesis by simp
  qed
qed

end

end
