(* ===== verification/Player_Facts.thy ===== *)
theory Player_Facts
  imports Player_Runtime Keyed_Slice
begin

text \<open>
  What the item operations share: the invariant of a runtime, the way it survives the four
  kinds of slice update the code makes (replace, remove, append, sort), the number of units of
  an item kind in a slice, and the behaviour of the search helpers.
\<close>

named_theorems runtime_defs

section \<open>Invariant\<close>

definition wf_runtime :: "runtime \<Rightarrow> bool" where
  "wf_runtime r \<longleftrightarrow> wf_items (liveInventory r) (liveEquipment r) \<and>
     wf_quickslots (liveQuickslots r) \<and> length (livePoints r) = 255"

lemma wf_itemsD:
  assumes "wf_items a b"
  shows "i \<in> set a \<Longrightarrow> carried_ok i" and "distinct (map Slot a)"
    and "i \<in> set b \<Longrightarrow> worn_ok i" and "distinct (map EquipSlot b)"
    and "distinct (map ID a)" and "distinct (map ID b)" and "ID ` set a \<inter> ID ` set b = {}"
  using assms by (auto simp: wf_items_def)

lemma carried_okD:
  assumes "carried_ok i"
  shows "ID i \<noteq> 0" and "Vnum i \<noteq> 0" and "Count i \<noteq> 0" and "\<not> Equipped i"
    and "EquipSlot i = EquipmentSlotNone" and "Slot i < CarriedInventorySlotCount"
    and "Validate i = None"
  using assms by (simp_all add: carried_ok_def Validate_None_iff)

lemma worn_okD:
  assumes "worn_ok i"
  shows "ID i \<noteq> 0" and "Vnum i \<noteq> 0" and "Count i \<noteq> 0" and "Equipped i"
    and "Valid (EquipSlot i)" and "Validate i = None"
  using assms by (simp_all add: worn_ok_def Validate_None_iff)

lemma mset_sortInventoryItems [simp]: "mset (sortInventoryItems a) = mset a"
  by (simp add: sortInventoryItems_def)

lemma mset_sortEquipmentItems [simp]: "mset (sortEquipmentItems a) = mset a"
  by (simp add: sortEquipmentItems_def)

lemma set_sortInventoryItems [simp]: "set (sortInventoryItems a) = set a"
  by (simp add: sortInventoryItems_def)

lemma set_sortEquipmentItems [simp]: "set (sortEquipmentItems a) = set a"
  by (simp add: sortEquipmentItems_def)

lemma distinct_map_mset: "mset a = mset a' \<Longrightarrow> distinct (map f a) = distinct (map f a')"
  by (metis mset_eq_imp_distinct_iff mset_map)

lemma wf_items_mset:
  assumes a: "mset a = mset a'" and b: "mset b = mset b'"
  shows "wf_items a b \<longleftrightarrow> wf_items a' b'"
proof -
  have "set a = set a'" "set b = set b'"
    using assms by (metis set_mset_mset)+
  moreover have "mset (a @ b) = mset (a' @ b')" using a b by simp
  ultimately show ?thesis
    unfolding wf_items_def
    by (simp only: distinct_map_mset [OF a, of Slot] distinct_map_mset [OF b, of EquipSlot]
        distinct_map_mset [of "a @ b" "a' @ b'" ID])
qed

lemma wf_items_sort [simp]: "wf_items (sortInventoryItems a) b = wf_items a b"
  "wf_items a (sortEquipmentItems b) = wf_items a b"
  by (rule wf_items_mset; simp)+

lemma wf_items_update:
  assumes "wf_items a b" and "i < length a" and "carried_ok v"
    and "Slot v = Slot (a ! i)" and "ID v = ID (a ! i)"
  shows "wf_items (a[i := v]) b"
proof -
  have m: "map Slot (a[i := v]) = map Slot a" "map ID (a[i := v]) = map ID a"
    using assms by (simp_all add: map_update_same)
  have "x \<in> set (a[i := v]) \<Longrightarrow> carried_ok x" for x
    using assms(1,3) set_update_subset_insert [of a i v] by (auto simp: wf_items_def)
  with assms(1) show ?thesis by (simp only: wf_items_def map_append m) simp
qed

lemma wf_items_remove:
  assumes "wf_items a b"
  shows "wf_items (remove_nth i a) b"
proof -
  have "set (remove_nth i a) \<subseteq> set a" by (rule set_remove_nth)
  moreover have "distinct (map Slot (remove_nth i a))" "distinct (map ID (remove_nth i a))"
    using wf_itemsD(2,5) [OF assms] by (simp_all add: map_remove_nth distinct_remove_nth)
  moreover have "ID ` set (remove_nth i a) \<inter> ID ` set b = {}"
    using wf_itemsD(7) [OF assms] image_mono [OF set_remove_nth, of ID i a] by blast
  ultimately show ?thesis
    using assms by (simp add: wf_items_def) blast
qed

lemma wf_items_append:
  assumes "wf_items a b" and "carried_ok v" and "\<forall>x \<in> set a. Slot x \<noteq> Slot v"
    and "\<forall>x \<in> set a \<union> set b. ID x \<noteq> ID v"
  shows "wf_items (a @ [v]) b"
  using assms by (auto simp: wf_items_def)

lemma wf_items_equip:
  assumes "wf_items a b" and "i < length a" and "worn_ok v" and "ID v = ID (a ! i)"
    and "\<forall>x \<in> set b. EquipSlot x \<noteq> EquipSlot v"
  shows "wf_items (remove_nth i a) (b @ [v])"
proof -
  have "ID (a ! i) \<notin> ID ` set (remove_nth i a)"
    using not_in_remove_nth [OF wf_itemsD(5) [OF assms(1)], of i] assms(2)
    by (auto simp: map_remove_nth [symmetric])
  moreover have "ID (a ! i) \<notin> ID ` set b"
    using wf_itemsD(7) [OF assms(1)] assms(2) by (meson disjoint_iff image_eqI nth_mem)
  ultimately show ?thesis
    using wf_items_remove [OF assms(1), of i] assms(3-5) by (auto simp: wf_items_def)
qed

lemma wf_items_unequip:
  assumes "wf_items a b" and "i < length b" and "carried_ok v" and "ID v = ID (b ! i)"
    and "\<forall>x \<in> set a. Slot x \<noteq> Slot v"
  shows "wf_items (a @ [v]) (remove_nth i b)"
proof -
  have r: "set (remove_nth i b) \<subseteq> set b" by (rule set_remove_nth)
  have "ID (b ! i) \<notin> ID ` set (remove_nth i b)"
    using not_in_remove_nth [OF wf_itemsD(6) [OF assms(1)], of i] assms(2)
    by (auto simp: map_remove_nth [symmetric])
  moreover have "ID (b ! i) \<notin> ID ` set a"
    using wf_itemsD(7) [OF assms(1)] assms(2) by (meson disjoint_iff image_eqI nth_mem)
  moreover have "distinct (map EquipSlot (remove_nth i b))" "distinct (map ID (remove_nth i b))"
    using wf_itemsD(4,6) [OF assms(1)] by (simp_all add: map_remove_nth distinct_remove_nth)
  moreover have "ID ` set a \<inter> ID ` set (remove_nth i b) = {}"
    using wf_itemsD(7) [OF assms(1)] image_mono [OF r, of ID] by blast
  ultimately show ?thesis
    using assms r by (auto simp: wf_items_def)
qed

section \<open>Units of an item kind\<close>

definition units_in :: "u32 \<Rightarrow> item_instance \<Rightarrow> nat" where
  "units_in v i = (if Vnum i = v then unat (Count i) else 0)"

definition units :: "u32 \<Rightarrow> item_instance list \<Rightarrow> nat" where
  "units v items = sum_list (map (units_in v) items)"

lemma units_simps [simp]:
  "units v [] = 0" "units v (i # is) = units_in v i + units v is"
  "units v (a @ b) = units v a + units v b"
  by (simp_all add: units_def)

lemma units_mset: "mset a = mset b \<Longrightarrow> units v a = units v b"
  by (metis units_def mset_map sum_mset_sum_list)

lemma units_sort [simp]:
  "units v (sortInventoryItems a) = units v a" "units v (sortEquipmentItems a) = units v a"
  by (rule units_mset; simp)+

lemma units_update:
  "i < length a \<Longrightarrow> units v (a[i := x]) + units_in v (a ! i) = units v a + units_in v x"
  by (simp add: units_def sum_list_map_update)

lemma units_remove: "i < length a \<Longrightarrow> units v (remove_nth i a) + units_in v (a ! i) = units v a"
  by (simp add: units_def sum_list_map_remove_nth)

lemma units_in_le: "i < length a \<Longrightarrow> units_in v (a ! i) \<le> units v a"
  using units_remove [of i a v] by simp

section \<open>Search helpers\<close>

lemma findInventorySlot_SomeD:
  "findInventorySlot items s = Some i \<Longrightarrow>
   i < length items \<and> \<not> Equipped (items ! i) \<and> Slot (items ! i) = s"
  unfolding findInventorySlot_def by (drule find_index_SomeD) simp

lemma findEquipmentSlot_SomeD:
  "findEquipmentSlot items s = Some i \<Longrightarrow>
   i < length items \<and> Equipped (items ! i) \<and> EquipSlot (items ! i) = s"
  unfolding findEquipmentSlot_def by (drule find_index_SomeD) simp

lemma findInventorySlot_None:
  "findInventorySlot items s = None \<longleftrightarrow> (\<forall>i \<in> set items. Equipped i \<or> Slot i \<noteq> s)"
  by (auto simp: findInventorySlot_def)

lemma findEquipmentSlot_None:
  "findEquipmentSlot items s = None \<longleftrightarrow> (\<forall>i \<in> set items. \<not> Equipped i \<or> EquipSlot i \<noteq> s)"
  by (auto simp: findEquipmentSlot_def)

text \<open>In a well-formed slice a cell is found exactly when some instance has that slot.\<close>

lemma wf_findInventorySlot_None:
  "wf_items a b \<Longrightarrow> findInventorySlot a s = None \<longleftrightarrow> (\<forall>i \<in> set a. Slot i \<noteq> s)"
  using carried_okD(4) wf_itemsD(1) by (auto simp: findInventorySlot_None)

lemma wf_findEquipmentSlot_None:
  "wf_items a b \<Longrightarrow> findEquipmentSlot b s = None \<longleftrightarrow> (\<forall>i \<in> set b. EquipSlot i \<noteq> s)"
  using worn_okD(4) wf_itemsD(3) by (auto simp: findEquipmentSlot_None)

lemma wf_findInventorySlot_Some:
  assumes "wf_items a b"
  shows "findInventorySlot a s = Some i \<longleftrightarrow> i < length a \<and> Slot (a ! i) = s"
proof
  assume "i < length a \<and> Slot (a ! i) = s"
  then have i: "i < length a" "Slot (a ! i) = s" by simp_all
  then have "findInventorySlot a s \<noteq> None"
    using wf_findInventorySlot_None [OF assms] by (metis nth_mem)
  then obtain j where j: "findInventorySlot a s = Some j" by auto
  with findInventorySlot_SomeD [OF j] i wf_itemsD(2) [OF assms]
  have "j = i" by (metis length_map nth_eq_iff_index_eq nth_map)
  with j show "findInventorySlot a s = Some i" by simp
qed (use findInventorySlot_SomeD in blast)

lemma wf_carried_nth: "wf_items a b \<Longrightarrow> i < length a \<Longrightarrow> carried_ok (a ! i)"
  by (simp add: wf_items_def)

lemma wf_worn_nth: "wf_items a b \<Longrightarrow> i < length b \<Longrightarrow> worn_ok (b ! i)"
  by (simp add: wf_items_def)

lemma removeInventoryIndex_eq [simp]: "i < length a \<Longrightarrow> removeInventoryIndex a i = remove_nth i a"
  by (simp add: removeInventoryIndex_def)

lemma hasItemInstanceID_False:
  "iid \<noteq> 0 \<Longrightarrow> \<not> hasItemInstanceID items iid \<longleftrightarrow> (\<forall>i \<in> set items. ID i \<noteq> iid)"
  by (auto simp: hasItemInstanceID_def list_ex_iff)

lemma hasDuplicate_loop_iff:
  "hasDuplicate_loop seen items \<longleftrightarrow>
     \<not> (distinct (map Slot (filter (\<lambda>i. \<not> Equipped i) items)) \<and>
        Slot ` set (filter (\<lambda>i. \<not> Equipped i) items) \<inter> seen = {})"
  by (induction items arbitrary: seen) auto

lemma nextFreeInventorySlot_SomeD:
  assumes "nextFreeInventorySlot items = Some s"
  shows "s < CarriedInventorySlotCount" and "\<not> inventorySlotOccupied items s"
proof -
  have "\<not> inventorySlotOccupied items s \<and>
      s \<in> set (map of_nat [0..<unat CarriedInventorySlotCount] :: u16 list)"
    using assms unfolding nextFreeInventorySlot_def find_Some_iff by (metis nth_mem)
  then show "\<not> inventorySlotOccupied items s" and "s < CarriedInventorySlotCount"
    by (auto simp: word_less_nat_alt unsigned_of_nat take_bit_nat_def CarriedInventorySlotCount_def)
qed

lemma nextFreeInventorySlot_NoneD:
  assumes "nextFreeInventorySlot items = None" and "s < CarriedInventorySlotCount"
  shows "inventorySlotOccupied items s"
proof -
  have "unat s < unat CarriedInventorySlotCount"
    using assms(2) by (simp add: word_less_nat_alt)
  then have "s \<in> set (map of_nat [0..<unat CarriedInventorySlotCount])"
    using image_eqI [of s of_nat "unat s"] by simp
  with assms(1) show ?thesis
    by (auto simp: nextFreeInventorySlot_def find_None_iff)
qed

lemma foldl_max_ID:
  "m \<le> foldl (\<lambda>m i. if m < ID i then ID i else m) m items \<and>
   (\<forall>i \<in> set items. ID i \<le> foldl (\<lambda>m i. if m < ID i then ID i else m) m items)"
proof (induction items arbitrary: m)
  case Nil
  then show ?case by simp
next
  case (Cons x xs)
  show ?case
    using Cons.IH [of "if m < ID x then ID x else m"] by (auto split: if_splits)
qed

lemma maxItemID_ge: "i \<in> set a \<union> set b \<Longrightarrow> ID i \<le> maxItemID a b"
  using foldl_max_ID [of 0 "a @ b"] by (auto simp: maxItemID_def)

text \<open>
  A new instance id is fresh unless the ids are exhausted, and then it is 0, which \<open>Validate\<close>
  refuses.
\<close>

lemma word_succ_gt:
  fixes m x :: u64
  assumes "m \<noteq> -1" and "x \<le> m"
  shows "x \<noteq> m + 1"
proof
  assume x: "x = m + 1"
  have "unat m + 1 < 2 ^ LENGTH(64)"
  proof (rule ccontr)
    assume "\<not> unat m + 1 < 2 ^ LENGTH(64)"
    then have "unat m = unat (-1 :: u64)"
      using unsigned_less [of m, where ?'a = nat] by (simp add: unsigned_minus_1_eq_mask mask_eq_exp_minus_1)
    then have "m = -1" by (rule word_unat_eq_iff [THEN iffD2])
    with assms(1) show False by simp
  qed
  then have "unat (m + 1) = unat m + 1"
    by (subst unat_add_no_wrap) simp_all
  with assms(2) x show False by (simp add: word_le_nat_alt)
qed

lemma next_id_fresh:
  assumes "n = nextLiveItemInstanceID a b" and "n \<noteq> 0" and "i \<in> set a \<union> set b"
  shows "ID i \<noteq> n"
proof -
  have m: "ID i \<le> maxItemID a b" using assms(3) by (rule maxItemID_ge)
  have "n = maxItemID a b + 1"
    using assms(1) by (simp add: nextLiveItemInstanceID_def Let_def split: if_splits)
  with assms(2) have "maxItemID a b \<noteq> -1" by auto
  with m \<open>n = maxItemID a b + 1\<close> show ?thesis by (simp add: word_succ_gt)
qed

lemma next_split_id_fresh:
  assumes "n = nextSplitItemID r" and "n \<noteq> 0"
    and "i \<in> set (liveInventory r) \<union> set (liveEquipment r)"
  shows "ID i \<noteq> n"
  using assms word_succ_gt maxItemID_ge [OF assms(3)]
  by (auto simp: nextSplitItemID_def Let_def split: if_splits)

section \<open>Edits of the carried slice\<close>

text \<open>
  The postcondition the item operations share: a refusal leaves the runtime as it was; a success
  changes the carried slice only, keeps the runtime well-formed, and satisfies \<open>P\<close>.
\<close>

definition inv_post :: "(item_instance list \<Rightarrow> 'a \<Rightarrow> bool) \<Rightarrow> runtime \<Rightarrow> runtime \<Rightarrow> 'a option \<Rightarrow> bool" where
  "inv_post P r r' res \<longleftrightarrow>
     (case res of None \<Rightarrow> r' = r
      | Some x \<Rightarrow> r' = r\<lparr>liveInventory := liveInventory r'\<rparr> \<and> wf_runtime r' \<and> P (liveInventory r') x)"

lemma inv_post_fail [sat_intros]: "inv_post P r r None"
  by (simp add: inv_post_def)

lemma inv_post_ok [sat_intros]:
  "wf_runtime r \<Longrightarrow> wf_items items (liveEquipment r) \<Longrightarrow> P items x \<Longrightarrow>
   inv_post P r (r\<lparr>liveInventory := items\<rparr>) (Some x)"
  by (simp add: inv_post_def wf_runtime_def)

lemma inv_post_mono:
  "inv_post P r r' res \<Longrightarrow> (\<And>items x. P items x \<Longrightarrow> P' items x) \<Longrightarrow> inv_post P' r r' res"
  by (cases res) (simp_all add: inv_post_def)

lemma wf_runtime_items: "wf_runtime r \<Longrightarrow> wf_items (liveInventory r) (liveEquipment r)"
  by (simp add: wf_runtime_def)

lemma carried_ok_count [simp]: "carried_ok i \<Longrightarrow> carried_ok (i\<lparr>Count := c\<rparr>) \<longleftrightarrow> c \<noteq> 0"
  by (auto simp: carried_ok_def Validate_None_iff)

lemma WithInventorySlot_carried:
  assumes "WithInventorySlot i s = Inr j"
  shows "carried_ok j" and "Slot j = s" and "ID j = ID i" and "units_in v j = units_in v i"
    and "j = i\<lparr>Slot := s, Equipped := False, EquipSlot := EquipmentSlotNone\<rparr>"
  using assms by (simp_all add: WithInventorySlot_Inr_iff carried_ok_def Validate_None_iff units_in_def)

lemma wf_items_other_ids:
  assumes "wf_items a b" and "i < length a"
  shows "\<forall>x \<in> set (remove_nth i a) \<union> set b. ID x \<noteq> ID (a ! i)"
proof -
  have "ID (a ! i) \<notin> ID ` set (remove_nth i a)"
    using not_in_remove_nth [OF wf_itemsD(5) [OF assms(1)], of i] assms(2)
    by (auto simp: map_remove_nth [symmetric])
  moreover have "ID (a ! i) \<notin> ID ` set b"
    using wf_itemsD(7) [OF assms(1)] assms(2) by (meson disjoint_iff image_eqI nth_mem)
  ultimately show ?thesis by (metis UnE image_eqI)
qed

lemma wf_items_other_slots:
  assumes "wf_items a b" and "i < length a"
  shows "\<forall>x \<in> set (remove_nth i a). Slot x \<noteq> Slot (a ! i)"
proof -
  have "Slot (a ! i) \<notin> Slot ` set (remove_nth i a)"
    using not_in_remove_nth [OF wf_itemsD(2) [OF assms(1)], of i] assms(2)
    by (auto simp: map_remove_nth [symmetric])
  then show ?thesis by (metis image_eqI)
qed

lemma mset_update_remove: "i < length a \<Longrightarrow> mset (a[i := v]) = mset (remove_nth i a @ [v])"
  by (simp add: mset_update mset_remove_nth)

lemma wf_items_replace:
  assumes "wf_items a b" and "i < length a" and "carried_ok v" and "ID v = ID (a ! i)"
    and "\<forall>x \<in> set (remove_nth i a). Slot x \<noteq> Slot v"
  shows "wf_items (a[i := v]) b"
proof -
  have "wf_items (remove_nth i a @ [v]) b"
    using wf_items_other_ids [OF assms(1,2)] assms
    by (intro wf_items_append wf_items_remove) simp_all
  then show ?thesis
    using wf_items_mset [OF mset_update_remove [OF assms(2), of v] refl [of "mset b"]] by simp
qed

lemma wf_items_swap:
  assumes wf: "wf_items a b" and i: "i < length a" and j: "j < length a" and "i \<noteq> j"
    and v: "carried_ok v" "ID v = ID (a ! i)" "Slot v = Slot (a ! j)"
    and w: "carried_ok w" "ID w = ID (a ! j)" "Slot w = Slot (a ! i)"
  shows "wf_items (a[i := v, j := w]) b"
proof -
  have "map ID (a[i := v, j := w]) = map ID a"
    using i j v(2) w(2) \<open>i \<noteq> j\<close> by (intro nth_equalityI) (simp_all add: nth_list_update)
  moreover have "map Slot (a[i := v, j := w]) = (map Slot a)[i := map Slot a ! j, j := map Slot a ! i]"
    using i j v(3) w(3) by (simp add: map_update)
  then have "mset (map Slot (a[i := v, j := w])) = mset (map Slot a)"
    using i j mset_swap [of j "map Slot a" i] by simp
  then have "distinct (map Slot (a[i := v, j := w]))"
    using wf_itemsD(2) [OF wf] mset_eq_imp_distinct_iff by blast
  moreover have "x \<in> set (a[i := v, j := w]) \<Longrightarrow> carried_ok x" for x
    using wf_itemsD(1) [OF wf] v(1) w(1)
      set_update_subset_insert [of "a[i := v]" j w] set_update_subset_insert [of a i v] by blast
  ultimately show ?thesis
    using wf by (simp only: wf_items_def map_append) simp
qed

lemma wf_items_recount:
  assumes "wf_items a b" and "i < length a" and "c \<noteq> 0"
  shows "wf_items (a[i := (a ! i)\<lparr>Count := c\<rparr>]) b"
  using assms wf_carried_nth [OF assms(1,2)] by (intro wf_items_update) simp_all

lemma units_swap:
  assumes "i < length a" and "j < length a" and "i \<noteq> j"
  shows "units v (a[i := x, j := y]) + units_in v (a ! i) + units_in v (a ! j) =
    units v a + units_in v x + units_in v y"
  using assms units_update [of i a v x] units_update [of j "a[i := x]" v y] by simp

section \<open>Carried and worn slices as maps\<close>

text \<open>The search helpers keep the promise of a keyed slice, by cell and by wear slot.\<close>

interpretation carried_slice: keyed_slice Slot findInventorySlot "\<lambda>i. \<not> Equipped i"
  by unfold_locales (auto simp: findInventorySlot_None dest: findInventorySlot_SomeD)

interpretation worn_slice: keyed_slice EquipSlot findEquipmentSlot Equipped
  by unfold_locales (auto simp: findEquipmentSlot_None dest: findEquipmentSlot_SomeD)

definition cells :: "item_instance list \<Rightarrow> slot_index \<Rightarrow> item_instance option" where
  "cells = lookup Slot"

definition worn :: "item_instance list \<Rightarrow> equipment_slot \<Rightarrow> item_instance option" where
  "worn = lookup EquipSlot"

lemma wf_unequipped: "wf_items a b \<Longrightarrow> \<forall>i \<in> set a. \<not> Equipped i"
  using wf_itemsD(1) carried_okD(4) by blast

lemma wf_equipped: "wf_items a b \<Longrightarrow> \<forall>i \<in> set b. Equipped i"
  using wf_itemsD(3) worn_okD(4) by blast

lemma cells_find_Some:
  assumes "wf_items a b" and "findInventorySlot a s = Some i"
  shows "i < length a" and "Slot (a ! i) = s" and "cells a s = Some (a ! i)"
  using carried_slice.find_lookup_Some [OF wf_itemsD(2) [OF assms(1)] assms(2)]
  by (simp_all add: cells_def)

lemma cells_find_None: "wf_items a b \<Longrightarrow> findInventorySlot a s = None \<longleftrightarrow> cells a s = None"
  unfolding cells_def by (rule carried_slice.find_lookup_None) (rule wf_unequipped)

lemma worn_find_Some:
  assumes "wf_items a b" and "findEquipmentSlot b s = Some i"
  shows "i < length b" and "EquipSlot (b ! i) = s" and "worn b s = Some (b ! i)"
  using worn_slice.find_lookup_Some [OF wf_itemsD(4) [OF assms(1)] assms(2)]
  by (simp_all add: worn_def)

lemma worn_find_None: "wf_items a b \<Longrightarrow> findEquipmentSlot b s = None \<longleftrightarrow> worn b s = None"
  unfolding worn_def by (rule worn_slice.find_lookup_None) (rule wf_equipped)

lemma cells_sort [simp]: "wf_items a b \<Longrightarrow> cells (sortInventoryItems a) = cells a"
  unfolding cells_def sortInventoryItems_def by (rule lookup_sort) (rule wf_itemsD)

lemma worn_sort [simp]: "wf_items a b \<Longrightarrow> worn (sortEquipmentItems b) = worn b"
  unfolding worn_def sortEquipmentItems_def by (rule lookup_sort) (rule wf_itemsD)

lemma cells_occupied: "wf_items a b \<Longrightarrow> inventorySlotOccupied a s \<longleftrightarrow> cells a s \<noteq> None"
  by (simp add: inventorySlotOccupied_def cells_find_None)

text \<open>A cell of a well-formed slice is occupied at most once: the code's guards on the number of
  occupants agree with the map.\<close>

lemma filter_key_length:
  assumes "distinct (map f xs)"
  shows "length (filter (\<lambda>x. f x = k) xs) = (if \<exists>x \<in> set xs. f x = k then 1 else 0)"
  using assms by (induction xs) (auto simp: filter_empty_conv image_iff)

lemma countInventorySlotOccupancy_eq:
  assumes "wf_items a b"
  shows "countInventorySlotOccupancy a s = (if cells a s = None then 0 else 1)"
proof -
  have "filter (\<lambda>i. \<not> Equipped i \<and> Slot i = s) a = filter (\<lambda>i. Slot i = s) a"
    using wf_unequipped [OF assms] by (auto intro: filter_cong)
  then show ?thesis
    using filter_key_length [OF wf_itemsD(2) [OF assms], of s]
    by (auto simp: countInventorySlotOccupancy_def cells_def lookup_None_iff)
qed

lemma countEquipmentSlotOccupancy_eq:
  assumes "wf_items a b"
  shows "countEquipmentSlotOccupancy b s = (if worn b s = None then 0 else 1)"
proof -
  have "filter (\<lambda>i. Equipped i \<and> EquipSlot i = s) b = filter (\<lambda>i. EquipSlot i = s) b"
    using wf_equipped [OF assms] by (auto intro: filter_cong)
  then show ?thesis
    using filter_key_length [OF wf_itemsD(4) [OF assms], of s]
    by (auto simp: countEquipmentSlotOccupancy_def worn_def lookup_None_iff)
qed

end
