(* ===== verification/Player_Points.thy ===== *)
theory Player_Points
  imports Player_Facts
begin

text \<open>
  Properties of the player's snapshots, gold, experience and points
  (\<open>internal/player/runtime.go\<close>): exact amounts, no wrap-around, all or nothing.
\<close>

section \<open>Arithmetic of the carriers\<close>

lemma add_gold_guard:
  fixes g a :: u64
  assumes "unat a \<le> 2147483647"
  shows "(g + a < g \<or> maxPointChangeCarrier < g + a) \<longleftrightarrow> 2147483647 < unat g + unat a"
proof (cases "unat g + unat a < 2 ^ LENGTH(64)")
  case True
  then have "unat (g + a) = unat g + unat a" by (rule unat_add_no_wrap)
  then show ?thesis by (simp add: word_less_nat_alt)
next
  case False
  then have "unat (g + a) = unat g + unat a - 2 ^ LENGTH(64)"
    using unsigned_less [of g, where ?'a = nat] assms by (simp add: unat_word_ariths mod_if)
  with False assms show ?thesis
    by (simp add: word_less_nat_alt) arith
qed

text \<open>
  Adding gold succeeds exactly for a positive amount with which the balance stays within
  the carrier; then the balance grows by exactly the amount (no wrap-around at 64 bits), and
  otherwise nothing changes.
\<close>

theorem AddLiveGold_exact:
  "AddLiveGold r amount =
     (if 0 < unat amount \<and> unat (liveGold r) + unat amount \<le> 2147483647
      then (r\<lparr>liveGold := liveGold r + amount\<rparr>, Some (liveGold r + amount)) else (r, None)) \<and>
   (\<forall>r' g. AddLiveGold r amount = (r', Some g) \<longrightarrow> unat g = unat (liveGold r) + unat amount)"
proof -
  have eq: "AddLiveGold r amount =
     (if 0 < unat amount \<and> unat (liveGold r) + unat amount \<le> 2147483647
      then (r\<lparr>liveGold := liveGold r + amount\<rparr>, Some (liveGold r + amount)) else (r, None))"
    using add_gold_guard [of amount "liveGold r"]
    by (auto simp: AddLiveGold_def Let_def word_less_nat_alt unat_eq_zero not_less)
  moreover have "unat (liveGold r + amount) = unat (liveGold r) + unat amount"
    if "unat (liveGold r) + unat amount \<le> 2147483647"
    using that by (intro unat_add_no_wrap) simp
  ultimately show ?thesis by (simp split: if_splits)
qed

text \<open>
  Deducting gold never takes more than there is: it succeeds exactly when the amount is
  zero or both it and the balance fit the carrier and the balance covers it, and then the
  balance falls by exactly the amount.
\<close>

theorem DeductLiveGold_exact:
  "DeductLiveGold r amount =
     (if amount = 0 \<or> unat amount \<le> unat (liveGold r) \<and> unat (liveGold r) \<le> 2147483647
      then (r\<lparr>liveGold := liveGold r - amount\<rparr>, Some (liveGold r - amount)) else (r, None)) \<and>
   (\<forall>r' g. DeductLiveGold r amount = (r', Some g) \<longrightarrow>
      unat g + unat amount = unat (liveGold r) \<and> liveGold r' = g)"
proof -
  have eq: "DeductLiveGold r amount =
     (if amount = 0 \<or> unat amount \<le> unat (liveGold r) \<and> unat (liveGold r) \<le> 2147483647
      then (r\<lparr>liveGold := liveGold r - amount\<rparr>, Some (liveGold r - amount)) else (r, None))"
    by (auto simp: DeductLiveGold_def word_less_nat_alt)
  moreover have "unat (liveGold r - amount) + unat amount = unat (liveGold r)"
    if "unat amount \<le> unat (liveGold r)"
    using that unat_sub_le [of amount "liveGold r"] by (simp add: word_le_nat_alt)
  ultimately show ?thesis by (simp split: if_splits)
qed

section \<open>Points\<close>

lemma u8_index_255: "255 \<le> unat (i :: u8) \<longleftrightarrow> i = 255"
proof
  assume "255 \<le> unat i"
  then have "unat i = unat (255 :: u8)"
    using unsigned_less [of i, where ?'a = nat] by simp
  then show "i = 255" by (rule word_unat_eq_iff [THEN iffD2])
qed simp

lemma point_set_point:
  "unat i < length (livePoints r) \<Longrightarrow> point (set_point r i v) j = (if i = j then v else point r j)"
  by (simp add: point_def set_point_def nth_list_update word_unat_eq_iff [symmetric])

lemma ApplyPointDelta_iff:
  "ApplyPointDelta r t i d = (r', Some x) \<longleftrightarrow>
     unat i < length (livePoints r) \<and>
     min_i32 \<le> sint (point r i) + sint d \<and> sint (point r i) + sint d \<le> max_i32 \<and>
     r' = set_point r i (i32_of (sint (point r i) + sint d)) \<and>
     x = \<lparr>PointType = t, PointAmount = d, PointValue = i32_of (sint (point r i) + sint d)\<rparr>"
  by (auto simp: ApplyPointDelta_def Let_def not_less not_le)

lemma ApplyPointDelta_None: "ApplyPointDelta r t i d = (r', None) \<Longrightarrow> r' = r"
  by (auto simp: ApplyPointDelta_def Let_def split: if_split_asm)

text \<open>
  A point delta is applied exactly or not at all. When \<open>ApplyPointDelta\<close> succeeds the
  signed value of the addressed point changes by the delta and the other points, gold and items
  stay; it fails, leaving the runtime alone, exactly when the index is outside the point array
  or the sum does not fit 32 bits.
\<close>

theorem ApplyPointDelta_exact:
  assumes "length (livePoints r) = 255" and "ApplyPointDelta r t i d = (r', res)"
  shows "if i = 255 \<or> sint (point r i) + sint d < min_i32 \<or> max_i32 < sint (point r i) + sint d
         then res = None \<and> r' = r
         else res \<noteq> None \<and> sint (point r' i) = sint (point r i) + sint d \<and>
           (\<forall>j. j \<noteq> i \<longrightarrow> point r' j = point r j) \<and> r' = r\<lparr>livePoints := livePoints r'\<rparr>"
proof (cases res)
  case None
  then have "r' = r" using assms(2) ApplyPointDelta_None by blast
  moreover have "i = 255 \<or> sint (point r i) + sint d < min_i32 \<or> max_i32 < sint (point r i) + sint d"
    using assms None u8_index_255 [of i] by (auto simp: ApplyPointDelta_def Let_def split: if_split_asm)
  ultimately show ?thesis using None by simp
next
  case (Some x)
  then have s: "unat i < 255" "min_i32 \<le> sint (point r i) + sint d" "sint (point r i) + sint d \<le> max_i32"
    and r': "r' = set_point r i (i32_of (sint (point r i) + sint d))"
    using assms by (simp_all add: ApplyPointDelta_iff)
  then have "i \<noteq> 255" by auto
  moreover have "point r' j = (if i = j then i32_of (sint (point r i) + sint d) else point r j)" for j
    using s assms(1) by (simp add: r' point_set_point)
  moreover have "r' = r\<lparr>livePoints := livePoints r'\<rparr>" by (simp add: r' set_point_def)
  ultimately show ?thesis using s Some by simp
qed

definition sample_runtime :: runtime where
  "sample_runtime = NewRuntime (zero_character\<lparr>cID := 1, cName := ''kim'', cLevel := 10, cGold := 500,
     cInventory := [zero_item\<lparr>ID := 7, Vnum := 27, Count := 3, Slot := 4\<rparr>,
                    zero_item\<lparr>ID := 8, Vnum := 27, Count := 2, Slot := 5\<rparr>,
                    zero_item\<lparr>ID := 9, Vnum := 19, Count := 1, Slot := 6\<rparr>]\<rparr>)
     \<lparr>linkLogin = ''kim'', linkCharacterIndex = 0\<rparr>"

lemma sample_runtime_fields [simp]:
  "liveGold sample_runtime = 500"
  "livePoints sample_runtime = replicate 255 0"
  "liveEquipment sample_runtime = []"
  "liveQuickslots sample_runtime = []"
  "liveInventory sample_runtime =
     [zero_item\<lparr>ID := 7, Vnum := 27, Count := 3, Slot := 4\<rparr>,
      zero_item\<lparr>ID := 8, Vnum := 27, Count := 2, Slot := 5\<rparr>,
      zero_item\<lparr>ID := 9, Vnum := 19, Count := 1, Slot := 6\<rparr>]"
  by (simp_all add: sample_runtime_def NewRuntime_def ApplyPersistedSnapshot_def Let_def
      normalizeCharacter_def NormalizeItemState_def cloneCharacter_def zero_character_def
      sortEquipmentItems_def sortInventoryItems_def sortQuickslots_def)

lemma sample_runtime_point [simp]: "unat i < 255 \<Longrightarrow> point sample_runtime i = 0"
  by (simp add: point_def)

lemma sample_runtime_wf: "wf_runtime sample_runtime"
  by (simp add: wf_runtime_def wf_items_def carried_ok_def Validate_def zero_item_def
      equipment_slot_defs CarriedInventorySlotCount_def wf_quickslots_def)

theorem AddLiveGold_exact_witness:
  "unat (the (snd (AddLiveGold sample_runtime 20))) = 520 \<and>
   AddLiveGold sample_runtime 2147483148 = (sample_runtime, None)"
  using AddLiveGold_exact [of sample_runtime 20] AddLiveGold_exact [of sample_runtime 2147483148]
  by simp

theorem DeductLiveGold_exact_witness:
  "unat (the (snd (DeductLiveGold sample_runtime 20))) = 480 \<and>
   DeductLiveGold sample_runtime 501 = (sample_runtime, None)"
  using DeductLiveGold_exact [of sample_runtime 20] DeductLiveGold_exact [of sample_runtime 501]
  by simp

theorem ApplyPointDelta_exact_witness:
  "sint (point (fst (ApplyPointDelta sample_runtime 1 3 (-5))) 3) = -5"
proof -
  obtain r' res where a: "ApplyPointDelta sample_runtime 1 3 (-5) = (r', res)" by fastforce
  from ApplyPointDelta_exact [OF _ a] show ?thesis
    by (simp add: a min_i32_def max_i32_def)
qed

text \<open>
  A kill reward is all or nothing. Either experience and gold both grow by exactly the
  authored amounts, staying within the signed 32-bit carrier, or the runtime is unchanged.
\<close>

theorem ApplyStaticActorDeathReward_exact:
  assumes "length (livePoints r) = 255" and "unat (liveGold r) \<le> 2147483647"
    and "ApplyStaticActorDeathReward r w = (r', res)"
  shows "if sint (point r 3) + int (unat (Experience w)) \<le> max_i32 \<and>
            (Experience w \<noteq> 0 \<longrightarrow> unat (Experience w) \<le> 2147483647) \<and>
            unat (liveGold r) + unat (Gold w) \<le> 2147483647
         then res \<noteq> None \<and> sint (point r' 3) = sint (point r 3) + int (unat (Experience w)) \<and>
              unat (liveGold r') = unat (liveGold r) + unat (Gold w) \<and>
              liveInventory r' = liveInventory r \<and> liveEquipment r' = liveEquipment r \<and>
              (\<forall>j. j \<noteq> 3 \<longrightarrow> point r' j = point r j)
         else res = None \<and> r' = r"
proof -
  let ?e = "Experience w" and ?g = "Gold w" and ?cur = "sint (point r 3)"
  have x3: "ExperiencePointIndex = 3" by (simp add: ExperiencePointIndex_def)
  have e: "?e \<noteq> 0 \<and> (maxPointChangeCarrier < ?e \<or> max_i32 < ?cur + int (unat ?e)) \<longleftrightarrow>
      \<not> (?cur + int (unat ?e) \<le> max_i32 \<and> (?e \<noteq> 0 \<longrightarrow> unat ?e \<le> 2147483647))"
    using sint_i32_bounds(2) [of "point r 3"] by (auto simp: word_less_nat_alt)
  have g: "?g \<noteq> 0 \<and> (maxPointChangeCarrier < ?g \<or> liveGold r + ?g < liveGold r \<or>
        maxPointChangeCarrier < liveGold r + ?g) \<longleftrightarrow> \<not> unat (liveGold r) + unat ?g \<le> 2147483647"
  proof (cases "unat ?g \<le> 2147483647")
    case True
    with add_gold_guard [OF True, of "liveGold r"] assms(2) show ?thesis
      by (auto simp: word_less_nat_alt)
  next
    case False
    then have "maxPointChangeCarrier < ?g" "?g \<noteq> 0" by (auto simp: word_less_nat_alt)
    with False show ?thesis by simp
  qed
  have new_gold: "unat (if ?g \<noteq> 0 then liveGold r + ?g else liveGold r) = unat (liveGold r) + unat ?g"
    if "unat (liveGold r) + unat ?g \<le> 2147483647"
    using that unat_add_no_wrap [of "liveGold r" ?g] by simp
  have new_exp: "sint (if ?e \<noteq> 0 then i32_of (?cur + int (unat ?e)) else point r 3) = ?cur + int (unat ?e)"
    if "?cur + int (unat ?e) \<le> max_i32"
  proof -
    have "min_i32 \<le> ?cur + int (unat ?e)"
      using sint_i32_bounds(1) [of "point r 3"] by linarith
    from sint_i32_of [OF this that] show ?thesis by auto
  qed
  show ?thesis
  proof (cases "?cur + int (unat ?e) \<le> max_i32 \<and> (?e \<noteq> 0 \<longrightarrow> unat ?e \<le> 2147483647) \<and>
      unat (liveGold r) + unat ?g \<le> 2147483647")
    case True
    with assms(3) have "r' = (set_point r 3 (if ?e \<noteq> 0 then i32_of (?cur + int (unat ?e)) else point r 3))
        \<lparr>liveGold := if ?g \<noteq> 0 then liveGold r + ?g else liveGold r\<rparr>" and "res \<noteq> None"
      unfolding ApplyStaticActorDeathReward_def Let_def x3 e g by auto
    with True new_gold new_exp assms(1) show ?thesis
      by (simp add: point_def set_point_def word_unat_eq_iff)
  next
    case False
    with assms(3) have "r' = r" "res = None"
      unfolding ApplyStaticActorDeathReward_def Let_def x3 e g by (auto split: if_split_asm)
    with False show ?thesis by auto
  qed
qed

theorem ApplyStaticActorDeathReward_exact_witness:
  "unat (liveGold (fst (ApplyStaticActorDeathReward sample_runtime
      \<lparr>Experience = 40, Gold = 25, DropVnums = []\<rparr>))) = 525"
proof -
  let ?w = "\<lparr>Experience = 40, Gold = 25, DropVnums = []\<rparr>"
  obtain r' res where a: "ApplyStaticActorDeathReward sample_runtime ?w = (r', res)" by fastforce
  from ApplyStaticActorDeathReward_exact [OF _ _ a] show ?thesis
    by (simp add: a max_i32_def)
qed

section \<open>Snapshots\<close>

lemma ApplyPersistedSnapshot_wf:
  assumes "validateTicket_character c = None" and "length (cPoints c) = 255"
  shows "wf_runtime (ApplyPersistedSnapshot r c)"
proof -
  have wf: "wf_items (cInventory c) (cEquipment c)" and q: "wf_quickslots (cQuickslots c)"
    using validateTicket_character_wf_lemma [OF assms(1)] by simp_all
  have "wf_quickslots (sortQuickslots (cQuickslots c))"
    using q by (simp add: wf_quickslots_def sortQuickslots_def distinct_map_sort_key)
  with wf assms(2) show ?thesis
    by (simp add: wf_runtime_def ApplyPersistedSnapshot_def Let_def normalizeCharacter_def
        NormalizeItemState_def cloneCharacter_def)
qed

text \<open>
  A runtime made from a character that passed the ticket checks starts well-formed, and its
  live character is that character up to the order of its slices.
\<close>

theorem NewRuntime_wf:
  assumes "validateTicket_character c = None" and "length (cPoints c) = 255"
  shows "wf_runtime (NewRuntime c l) \<and>
    (let c' = LiveCharacter (NewRuntime c l) in
      mset (cInventory c') = mset (cInventory c) \<and> mset (cEquipment c') = mset (cEquipment c) \<and>
      mset (cQuickslots c') = mset (cQuickslots c) \<and>
      c'\<lparr>cInventory := cInventory c, cEquipment := cEquipment c, cQuickslots := cQuickslots c\<rparr> = c)"
proof -
  have "wf_runtime (NewRuntime c l)"
    unfolding NewRuntime_def by (rule ApplyPersistedSnapshot_wf [OF assms])
  moreover have "LiveCharacter (NewRuntime c l) =
      c\<lparr>cInventory := sortInventoryItems (cInventory c), cEquipment := sortEquipmentItems (cEquipment c),
        cQuickslots := sortQuickslots (cQuickslots c)\<rparr>"
    by (simp add: LiveCharacter_def PersistedSnapshot_def NewRuntime_def ApplyPersistedSnapshot_def
        Let_def normalizeCharacter_def NormalizeItemState_def cloneCharacter_def
        PositionFromCharacter_def NewPosition_def)
  ultimately show ?thesis
    by (simp add: Let_def sortQuickslots_def)
qed

theorem NewRuntime_wf_witness:
  "wf_runtime (NewRuntime zero_character \<lparr>linkLogin = [], linkCharacterIndex = 0\<rparr>)"
  using NewRuntime_wf [of zero_character "\<lparr>linkLogin = [], linkCharacterIndex = 0\<rparr>"]
  by (simp add: validateTicket_character_def validateCharacterItemPayloads_def
      validateCharacterUniqueItemInstanceIDs_def validateCharacterUniqueInventorySlots_def
      validateCharacterUniqueEquipmentSlots_def validateCharacterQuickslots_def zero_character_def)

end
