(* ===== verification/Player_Quickslots.thy ===== *)
theory Player_Quickslots
  imports Player_Points
begin

text \<open>
  The quickslot bar of \<open>internal/player/runtime.go\<close>: binding, deleting and swapping positions
  and keeping item bindings in step with inventory moves and removals. The abstract bar is a map
  from positions to what they hold; every operation is a simple update of that map.
\<close>

section \<open>Operations\<close>

definition DeleteQuickslot :: "runtime \<Rightarrow> u8 \<Rightarrow> (runtime, quickslot) outcome" where
  "DeleteQuickslot r position =
     (if \<not> validQuickslotPosition position then (r, None)
      else case findQuickslotPosition (liveQuickslots r) position of
        None \<Rightarrow> (r, None)
      | Some index \<Rightarrow>
          (r\<lparr>liveQuickslots := remove_nth index (liveQuickslots r)\<rparr>,
           Some \<lparr>qPosition = position, qType = 0, qSlot = 0\<rparr>))"

text \<open>The first loop of \<open>SetQuickslot\<close>: drop every binding of the same type and slot.\<close>

definition drop_binding :: "u8 \<Rightarrow> u8 \<Rightarrow> quickslot list \<Rightarrow> quickslot list" where
  "drop_binding ty sl qs = filter (\<lambda>q. \<not> (qType q = ty \<and> qSlot q = sl)) qs"

text \<open>Its last step: overwrite the position's entry or append one.\<close>

definition put_binding :: "quickslot \<Rightarrow> quickslot list \<Rightarrow> quickslot list" where
  "put_binding q qs =
     (case findQuickslotPosition qs (qPosition q) of
        Some index \<Rightarrow> qs[index := q]
      | None \<Rightarrow> qs @ [q])"

definition SetQuickslot :: "runtime \<Rightarrow> u8 \<Rightarrow> quickslot \<Rightarrow> (runtime, quickslot) outcome" where
  "SetQuickslot r position slot =
     (if \<not> validQuickslotPosition position \<or> \<not> validQuickslotTuple slot then (r, None)
      else if qType slot = TypeNone then DeleteQuickslot r position
      else if qType slot = TypeItem \<and>
        (let itemSlot = ucast (qSlot slot) in
         countInventorySlotOccupancy (liveInventory r) itemSlot \<noteq> 1 \<or>
         (case findInventorySlot (liveInventory r) itemSlot of
            None \<Rightarrow> True
          | Some itemIndex \<Rightarrow>
              Locked (liveInventory r ! itemIndex) \<or> Validate (liveInventory r ! itemIndex) \<noteq> None))
      then (r, None)
      else
        let updated = drop_binding (qType slot) (qSlot slot) (liveQuickslots r);
            result = \<lparr>qPosition = position, qType = qType slot, qSlot = qSlot slot\<rparr> in
        (r\<lparr>liveQuickslots := sortQuickslots (put_binding result updated)\<rparr>, Some result))"

definition SetQuickslotWithTemplate ::
    "runtime \<Rightarrow> u8 \<Rightarrow> quickslot \<Rightarrow> template \<Rightarrow> (runtime, quickslot) outcome" where
  "SetQuickslotWithTemplate r position slot t =
     (if qType slot \<noteq> TypeItem then SetQuickslot r position slot
      else if \<not> ValidTemplate t \<or> tVnum t = 0 \<or> \<not> validQuickslotPosition position \<or>
              \<not> validQuickslotTuple slot then (r, None)
      else
        let itemSlot = ucast (qSlot slot) in
        if countInventorySlotOccupancy (liveInventory r) itemSlot \<noteq> 1 then (r, None)
        else case findInventorySlot (liveInventory r) itemSlot of
          None \<Rightarrow> (r, None)
        | Some itemIndex \<Rightarrow>
            let item = liveInventory r ! itemIndex in
            if Equipped item \<or> Locked item \<or> Vnum item \<noteq> tVnum t \<or> Count item = 0 \<or>
               tMaxCount t < Count item then (r, None)
            else if Validate item \<noteq> None then (r, None)
            else SetQuickslot r position slot)"

definition move_position :: "u8 \<Rightarrow> nat option \<Rightarrow> quickslot list \<Rightarrow> quickslot list" where
  "move_position position index qs =
     (case index of None \<Rightarrow> qs | Some i \<Rightarrow> qs[i := (qs ! i)\<lparr>qPosition := position\<rparr>])"

definition SwapQuickslots :: "runtime \<Rightarrow> u8 \<Rightarrow> u8 \<Rightarrow> (runtime, u8 \<times> u8) outcome" where
  "SwapQuickslots r position targetPosition =
     (if position = targetPosition \<or> \<not> validQuickslotPosition position \<or>
         \<not> validQuickslotPosition targetPosition then (r, None)
      else
        let leftIndex = findQuickslotPosition (liveQuickslots r) position;
            rightIndex = findQuickslotPosition (liveQuickslots r) targetPosition in
        if leftIndex = None \<and> rightIndex = None then (r, None)
        else
          let updated = move_position position rightIndex
                          (move_position targetPosition leftIndex (liveQuickslots r)) in
          (r\<lparr>liveQuickslots := sortQuickslots updated\<rparr>, Some (position, targetPosition)))"

text \<open>The loop of \<open>SyncItemQuickslotsForInventoryMove\<close>: the bar, what changed, what was deleted.\<close>

fun sync_move_loop :: "slot_index \<Rightarrow> slot_index \<Rightarrow> quickslot list \<Rightarrow>
    quickslot list \<times> quickslot list \<times> quickslot list" where
  "sync_move_loop from to [] = ([], [], [])"
| "sync_move_loop from to (q # qs) =
     (case sync_move_loop from to qs of (updated, changed, deleted) \<Rightarrow>
        if qType q \<noteq> TypeItem then (q # updated, changed, deleted)
        else if ucast (qSlot q) = from then
          (let q' = q\<lparr>qSlot := ucast to\<rparr> in (q' # updated, q' # changed, deleted))
        else if ucast (qSlot q) = to then (updated, changed, q # deleted)
        else (q # updated, changed, deleted))"

definition SyncItemQuickslotsForInventoryMove :: "runtime \<Rightarrow> slot_index \<Rightarrow> slot_index \<Rightarrow>
    (runtime, quickslot list \<times> quickslot list) outcome" where
  "SyncItemQuickslotsForInventoryMove r from to =
     (if from = to \<or> CarriedInventorySlotCount \<le> from \<or> CarriedInventorySlotCount \<le> to then (r, None)
      else case sync_move_loop from to (liveQuickslots r) of (updated, changed, deleted) \<Rightarrow>
        if changed = [] \<and> deleted = [] then (r, Some ([], []))
        else (r\<lparr>liveQuickslots := sortQuickslots updated\<rparr>,
              Some (sortQuickslots changed, sortQuickslots deleted)))"

definition bound_to :: "slot_index \<Rightarrow> quickslot \<Rightarrow> bool" where
  "bound_to slot q \<longleftrightarrow> \<not> (qType q \<noteq> TypeItem \<or> ucast (qSlot q) \<noteq> slot)"

definition SyncItemQuickslotsForItemRemoval :: "runtime \<Rightarrow> slot_index \<Rightarrow>
    (runtime, quickslot list) outcome" where
  "SyncItemQuickslotsForItemRemoval r slot =
     (if CarriedInventorySlotCount \<le> slot then (r, None)
      else
        let updated = filter (\<lambda>q. \<not> bound_to slot q) (liveQuickslots r);
            deleted = filter (bound_to slot) (liveQuickslots r) in
        if deleted = [] then (r, Some [])
        else (r\<lparr>liveQuickslots := sortQuickslots updated\<rparr>, Some (sortQuickslots deleted)))"

section \<open>The bar as a map\<close>

definition bar :: "quickslot list \<Rightarrow> u8 \<Rightarrow> (u8 \<times> u8) option" where
  "bar qs = map_of (map (\<lambda>q. (qPosition q, (qType q, qSlot q))) qs)"

definition positions_ok :: "quickslot list \<Rightarrow> bool" where
  "positions_ok qs \<longleftrightarrow> distinct (map qPosition qs)"

lemma bar_Some_iff:
  "positions_ok qs \<Longrightarrow> bar qs p = Some x \<longleftrightarrow>
     (\<exists>q \<in> set qs. qPosition q = p \<and> (qType q, qSlot q) = x)"
  unfolding bar_def
  by (subst map_of_eq_Some_iff) (auto simp: positions_ok_def o_def)

lemma bar_eqI:
  assumes "positions_ok qs"
    and "\<And>p x. (\<exists>q \<in> set qs. qPosition q = p \<and> (qType q, qSlot q) = x) \<longleftrightarrow> m p = Some x"
  shows "bar qs = m"
proof
  fix p
  have "bar qs p = Some x \<longleftrightarrow> m p = Some x" for x
    using bar_Some_iff [OF assms(1), of p x] assms(2) [of p x] by simp
  then show "bar qs p = m p" by (metis not_None_eq)
qed

lemma positions_ok_sort [simp]: "positions_ok (sortQuickslots qs) = positions_ok qs"
  by (simp add: positions_ok_def sortQuickslots_def distinct_map_sort_key)

lemma set_sortQuickslots [simp]: "set (sortQuickslots qs) = set qs"
  by (simp add: sortQuickslots_def)

lemma bar_sort [simp]: "positions_ok qs \<Longrightarrow> bar (sortQuickslots qs) = bar qs"
  by (rule bar_eqI) (simp_all add: bar_Some_iff)

lemma positions_ok_filter: "positions_ok qs \<Longrightarrow> positions_ok (filter P qs)"
  by (simp add: positions_ok_def distinct_map_filter)

lemma bar_mem: "positions_ok qs \<Longrightarrow> q \<in> set qs \<Longrightarrow> bar qs (qPosition q) = Some (qType q, qSlot q)"
  by (auto simp: bar_Some_iff)

lemma bar_None: "(\<forall>q \<in> set qs. qPosition q \<noteq> p) \<Longrightarrow> bar qs p = None"
  by (auto simp: bar_def map_of_eq_None_iff)

lemma bar_pair_SomeE:
  assumes "positions_ok qs" and "bar qs p = Some (t, s)"
  obtains q where "q \<in> set qs" and "qPosition q = p" and "qType q = t" and "qSlot q = s"
  using assms bar_Some_iff [OF assms(1), of p "(t, s)"] by auto

definition keep_on :: "(u8 \<Rightarrow> u8 \<times> u8 \<Rightarrow> bool) \<Rightarrow> (u8 \<Rightarrow> (u8 \<times> u8) option) \<Rightarrow> u8 \<Rightarrow> (u8 \<times> u8) option" where
  "keep_on Q m p = (case m p of None \<Rightarrow> None | Some x \<Rightarrow> if Q p x then Some x else None)"

lemma keep_on_Some: "keep_on Q m p = Some x \<longleftrightarrow> m p = Some x \<and> Q p x"
  by (auto simp: keep_on_def split: option.splits)

lemma bar_filter:
  assumes "positions_ok qs"
  shows "bar (filter (\<lambda>q. Q (qPosition q) (qType q, qSlot q)) qs) = keep_on Q (bar qs)"
proof (rule bar_eqI [OF positions_ok_filter [OF assms]])
  show "(\<exists>q \<in> set (filter (\<lambda>q. Q (qPosition q) (qType q, qSlot q)) qs).
      qPosition q = p \<and> (qType q, qSlot q) = x) \<longleftrightarrow> keep_on Q (bar qs) p = Some x" for p x
    unfolding keep_on_Some bar_Some_iff [OF assms] by auto
qed

lemma findQuickslotPosition_Some:
  "findQuickslotPosition qs p = Some i \<Longrightarrow> i < length qs \<and> qPosition (qs ! i) = p"
  unfolding findQuickslotPosition_def by (drule find_index_SomeD) simp

lemma findQuickslotPosition_None:
  "findQuickslotPosition qs p = None \<longleftrightarrow> (\<forall>q \<in> set qs. qPosition q \<noteq> p)"
  by (simp add: findQuickslotPosition_def)

lemma bar_None_iff:
  assumes "positions_ok qs"
  shows "bar qs p = None \<longleftrightarrow> findQuickslotPosition qs p = None"
  using bar_None [of qs p] bar_mem [OF assms] by (force simp: findQuickslotPosition_None)

lemma positions_split:
  assumes "positions_ok (ys @ x # zs)" and "q \<in> set (ys @ zs)"
  shows "qPosition q \<noteq> qPosition x"
proof -
  have "qPosition x \<notin> qPosition ` set (ys @ zs)"
    using assms(1) by (auto simp: positions_ok_def)
  with assms(2) show ?thesis by (metis image_eqI)
qed

lemma bar_remove:
  assumes "positions_ok qs" and "findQuickslotPosition qs p = Some i"
  shows "positions_ok (remove_nth i qs)" and "bar (remove_nth i qs) = (bar qs)(p := None)"
proof -
  have i: "i < length qs" "qPosition (qs ! i) = p"
    using findQuickslotPosition_Some [OF assms(2)] by simp_all
  obtain ys zs where s: "qs = ys @ qs ! i # zs" and r: "remove_nth i qs = ys @ zs"
    using remove_nth_split [OF i(1)] by metis
  show pos: "positions_ok (remove_nth i qs)"
    using assms(1) by (simp add: positions_ok_def map_remove_nth distinct_remove_nth)
  have "positions_ok (ys @ qs ! i # zs)" using assms(1) s by simp
  then have d: "\<forall>q \<in> set (ys @ zs). qPosition q \<noteq> p"
    using positions_split i(2) by metis
  have "(\<exists>q \<in> set (remove_nth i qs). qPosition q = p' \<and> (qType q, qSlot q) = x) \<longleftrightarrow>
      p' \<noteq> p \<and> (\<exists>q \<in> set (ys @ qs ! i # zs). qPosition q = p' \<and> (qType q, qSlot q) = x)" for p' x
    using d i(2) unfolding r by auto
  then show "bar (remove_nth i qs) = (bar qs)(p := None)"
    using s by (intro bar_eqI pos) (simp add: bar_Some_iff [OF assms(1)])
qed

lemma bar_put:
  assumes "positions_ok qs"
  shows "positions_ok (put_binding q qs)"
    and "bar (put_binding q qs) = (bar qs)(qPosition q \<mapsto> (qType q, qSlot q))"
    and "set (put_binding q qs) \<subseteq> insert q (set qs)"
proof -
  let ?qs' = "put_binding q qs"
  have "positions_ok ?qs' \<and> bar ?qs' = (bar qs)(qPosition q \<mapsto> (qType q, qSlot q)) \<and>
      set ?qs' \<subseteq> insert q (set qs)"
  proof (cases "findQuickslotPosition qs (qPosition q)")
    case None
    then have d: "\<forall>x \<in> set qs. qPosition x \<noteq> qPosition q"
      by (simp add: findQuickslotPosition_None)
    have u: "?qs' = qs @ [q]" using None by (simp add: put_binding_def)
    have pos: "positions_ok ?qs'"
      using assms(1) d u by (auto simp: positions_ok_def)
    have "(\<exists>x \<in> set ?qs'. qPosition x = p' \<and> (qType x, qSlot x) = v) \<longleftrightarrow>
        (if p' = qPosition q then v = (qType q, qSlot q)
         else \<exists>x \<in> set qs. qPosition x = p' \<and> (qType x, qSlot x) = v)" for p' v
      using d unfolding u by auto
    then have "bar ?qs' = (bar qs)(qPosition q \<mapsto> (qType q, qSlot q))"
      by (intro bar_eqI pos) (auto simp: bar_Some_iff [OF assms(1)])
    then show ?thesis using pos u by simp
  next
    case (Some i)
    then have i: "i < length qs" "qPosition (qs ! i) = qPosition q"
      using findQuickslotPosition_Some by simp_all
    obtain ys zs where s: "qs = ys @ qs ! i # zs" and l: "length ys = i"
      using remove_nth_split [OF i(1)] by metis
    have u: "?qs' = ys @ q # zs"
      using Some s l by (metis list_update_length option.simps(5) put_binding_def)
    have "positions_ok (ys @ qs ! i # zs)" using assms(1) s by simp
    then have d: "\<forall>x \<in> set (ys @ zs). qPosition x \<noteq> qPosition q"
      using positions_split i(2) by metis
    with \<open>positions_ok (ys @ qs ! i # zs)\<close> have pos: "positions_ok ?qs'"
      by (auto simp: positions_ok_def u i(2))
    have "(\<exists>x \<in> set ?qs'. qPosition x = p' \<and> (qType x, qSlot x) = v) \<longleftrightarrow>
        (if p' = qPosition q then v = (qType q, qSlot q)
         else \<exists>x \<in> set (ys @ qs ! i # zs). qPosition x = p' \<and> (qType x, qSlot x) = v)" for p' v
      using d i(2) unfolding u by auto
    then have "bar ?qs' = (bar qs)(qPosition q \<mapsto> (qType q, qSlot q))"
      using s by (intro bar_eqI pos) (auto simp: bar_Some_iff [OF assms(1)])
    then show ?thesis
      using pos s u by (metis set_update_subset_insert Some option.simps(5) put_binding_def)
  qed
  then show "positions_ok ?qs'" and "bar ?qs' = (bar qs)(qPosition q \<mapsto> (qType q, qSlot q))"
    and "set ?qs' \<subseteq> insert q (set qs)" by simp_all
qed

section \<open>Swapping and following the inventory\<close>

definition swap_position :: "u8 \<Rightarrow> u8 \<Rightarrow> u8 \<Rightarrow> u8" where
  "swap_position a b p = (if p = a then b else if p = b then a else p)"

lemma swap_position_inj: "inj (swap_position a b)"
  by (auto simp: inj_def swap_position_def split: if_splits)

lemma swap_position_twice [simp]: "swap_position a b (swap_position a b p) = p"
  by (simp add: swap_position_def)

definition relocate :: "(u8 \<Rightarrow> u8) \<Rightarrow> quickslot \<Rightarrow> quickslot" where
  "relocate f q = q\<lparr>qPosition := f (qPosition q)\<rparr>"

lemma relocate_simps [simp]:
  "qPosition (relocate f q) = f (qPosition q)" "qType (relocate f q) = qType q"
  "qSlot (relocate f q) = qSlot q"
  by (simp_all add: relocate_def)

lemma relocate_id: "f (qPosition q) = qPosition q \<Longrightarrow> relocate f q = q"
  by (simp add: relocate_def)

lemma nth_move_position:
  "j < length qs \<Longrightarrow> move_position p index qs ! j =
     (if index = Some j then (qs ! j)\<lparr>qPosition := p\<rparr> else qs ! j)"
  by (auto simp: move_position_def nth_list_update split: option.splits)

lemma length_move_position [simp]: "length (move_position p index qs) = length qs"
  by (simp add: move_position_def split: option.splits)

lemma find_position_iff:
  assumes "positions_ok qs" and "j < length qs"
  shows "findQuickslotPosition qs p = Some j \<longleftrightarrow> qPosition (qs ! j) = p"
proof
  assume p: "qPosition (qs ! j) = p"
  then obtain i where i: "findQuickslotPosition qs p = Some i"
    using assms(2) findQuickslotPosition_None [of qs p] by (metis not_Some_eq nth_mem)
  moreover have "i = j"
    using findQuickslotPosition_Some [OF i] p assms
    by (metis length_map nth_eq_iff_index_eq nth_map positions_ok_def)
  ultimately show "findQuickslotPosition qs p = Some j" by simp
qed (use findQuickslotPosition_Some in blast)

lemma swap_eq_map:
  assumes "positions_ok qs" and "a \<noteq> b"
  shows "move_position a (findQuickslotPosition qs b)
      (move_position b (findQuickslotPosition qs a) qs) = map (relocate (swap_position a b)) qs"
  using assms
  by (intro nth_equalityI)
    (simp_all add: nth_move_position find_position_iff relocate_def swap_position_def)

lemma bar_relocate:
  assumes "positions_ok qs" and "\<And>p. f (f p) = p"
  shows "positions_ok (map (relocate f) qs)" and "bar (map (relocate f) qs) = (\<lambda>p. bar qs (f p))"
proof -
  have "inj f" using assms(2) by (metis injI)
  then show pos: "positions_ok (map (relocate f) qs)"
    using assms(1) by (simp add: positions_ok_def distinct_map o_def inj_on_def inj_def)
  have "(\<exists>q \<in> set (map (relocate f) qs). qPosition q = p \<and> (qType q, qSlot q) = x) \<longleftrightarrow>
      (\<exists>q \<in> set qs. qPosition q = f p \<and> (qType q, qSlot q) = x)" for p x
    using assms(2) by (auto, metis+)
  then show "bar (map (relocate f) qs) = (\<lambda>p. bar qs (f p))"
    by (intro bar_eqI pos) (simp add: bar_Some_iff [OF assms(1)])
qed

text \<open>What an inventory move does to one binding: follow the item, or drop the displaced one.\<close>

definition follow :: "slot_index \<Rightarrow> slot_index \<Rightarrow> u8 \<times> u8 \<Rightarrow> (u8 \<times> u8) option" where
  "follow from to x =
     (if fst x = TypeItem \<and> ucast (snd x) = from then Some (fst x, ucast to)
      else if fst x = TypeItem \<and> ucast (snd x) = to then None
      else Some x)"

lemma sync_move_loop_updated:
  "fst (sync_move_loop from to qs) =
     List.map_filter (\<lambda>q. map_option (\<lambda>x. q\<lparr>qSlot := snd x\<rparr>) (follow from to (qType q, qSlot q))) qs"
  by (induction qs)
    (auto simp: List.map_filter_simps follow_def Let_def split: prod.splits)

lemma sync_move_loop_empty:
  "sync_move_loop from to qs = (updated, [], []) \<Longrightarrow> updated = qs"
  by (induction qs arbitrary: updated) (auto simp: Let_def split: prod.splits if_split_asm)

lemma set_map_filter_iff: "y \<in> set (List.map_filter g xs) \<longleftrightarrow> (\<exists>x \<in> set xs. g x = Some y)"
  by (induction xs) (auto simp: List.map_filter_simps split: option.splits)

lemma positions_map_filter:
  assumes "\<And>q q'. g q = Some q' \<Longrightarrow> qPosition q' = qPosition q"
  shows "positions_ok qs \<Longrightarrow> positions_ok (List.map_filter g qs)"
proof (induction qs)
  case (Cons q qs)
  then have "positions_ok (List.map_filter g qs)" and "qPosition q \<notin> qPosition ` set qs"
    by (simp_all add: positions_ok_def)
  moreover have "qPosition ` set (List.map_filter g qs) \<subseteq> qPosition ` set qs"
    using assms by (auto simp: set_map_filter_iff)
  ultimately have "positions_ok (List.map_filter g qs)"
    and "qPosition q \<notin> qPosition ` set (List.map_filter g qs)" by blast+
  then show ?case
  proof (cases "g q")
    case (Some y)
    with assms have "qPosition y = qPosition q" by blast
    with \<open>positions_ok (List.map_filter g qs)\<close> \<open>qPosition q \<notin> qPosition ` set (List.map_filter g qs)\<close>
    show ?thesis by (simp add: Some positions_ok_def List.map_filter_simps)
  qed (simp add: List.map_filter_simps)
qed (simp add: positions_ok_def List.map_filter_simps)

lemma bar_sync_move:
  assumes "positions_ok qs"
  shows "positions_ok (fst (sync_move_loop from to qs))"
    and "bar (fst (sync_move_loop from to qs)) = (\<lambda>p. Option.bind (bar qs p) (follow from to))"
proof -
  let ?g = "\<lambda>q. map_option (\<lambda>x. q\<lparr>qSlot := snd x\<rparr>) (follow from to (qType q, qSlot q))"
  show pos: "positions_ok (fst (sync_move_loop from to qs))"
    unfolding sync_move_loop_updated by (rule positions_map_filter [OF _ assms]) auto
  have step: "(\<exists>y. follow from to (a, b) = Some y \<and> (a, snd y) = x) \<longleftrightarrow> follow from to (a, b) = Some x" for a b x
    by (auto simp: follow_def split: if_splits)
  have "(\<exists>q \<in> set (fst (sync_move_loop from to qs)). qPosition q = p \<and> (qType q, qSlot q) = x) \<longleftrightarrow>
      (\<exists>q \<in> set qs. qPosition q = p \<and> (\<exists>y. follow from to (qType q, qSlot q) = Some y \<and> (qType q, snd y) = x))" for p x
    unfolding sync_move_loop_updated Bex_def set_map_filter_iff by fastforce
  moreover have "Option.bind (bar qs p) (follow from to) = Some x \<longleftrightarrow>
      (\<exists>q \<in> set qs. qPosition q = p \<and> follow from to (qType q, qSlot q) = Some x)" for p x
    unfolding bind_eq_Some_conv bar_Some_iff [OF assms] by blast
  ultimately have "(\<exists>q \<in> set (fst (sync_move_loop from to qs)). qPosition q = p \<and> (qType q, qSlot q) = x) \<longleftrightarrow>
      Option.bind (bar qs p) (follow from to) = Some x" for p x
    by (simp only: step)
  then show "bar (fst (sync_move_loop from to qs)) = (\<lambda>p. Option.bind (bar qs p) (follow from to))"
    by (intro bar_eqI pos)
qed

section \<open>Well-formed bars stay well-formed\<close>

lemma wf_quickslots_alt: "wf_quickslots qs \<longleftrightarrow> (\<forall>q \<in> set qs. quickslot_ok q) \<and> positions_ok qs"
  by (simp add: wf_quickslots_def positions_ok_def)

lemma quickslot_ok_iff: "quickslot_ok q \<longleftrightarrow> validQuickslotPosition (qPosition q) \<and> validQuickslotTuple q"
  by (auto simp: quickslot_ok_def ticket_validQuickslotTuple_def validQuickslotTuple_def
      validQuickslotPosition_def quickslotMaxNum_def quickslotSkillSlotMax_def
      quickslotCommandSlotMax_def not_le)

lemma validQuickslotTuple_relocate [simp]: "validQuickslotTuple (q\<lparr>qPosition := p\<rparr>) = validQuickslotTuple q"
  by (simp add: validQuickslotTuple_def)

lemma validQuickslotTuple_make [simp]:
  "validQuickslotTuple \<lparr>qPosition = p, qType = qType q, qSlot = qSlot q\<rparr> = validQuickslotTuple q"
  by (simp only: validQuickslotTuple_def quickslot.simps)

lemma wf_sort_quickslots [simp]: "wf_quickslots (sortQuickslots qs) = wf_quickslots qs"
  by (simp add: wf_quickslots_alt)

lemma wf_filter_quickslots: "wf_quickslots qs \<Longrightarrow> wf_quickslots (filter P qs)"
  by (simp add: wf_quickslots_alt positions_ok_filter)

lemma wf_remove_quickslot: "wf_quickslots qs \<Longrightarrow> wf_quickslots (remove_nth i qs)"
  using set_remove_nth [of i qs]
  by (auto simp: wf_quickslots_def map_remove_nth distinct_remove_nth)

lemma wf_put_binding: "wf_quickslots qs \<Longrightarrow> quickslot_ok q \<Longrightarrow> wf_quickslots (put_binding q qs)"
  using bar_put(1,3) [of qs q] by (auto simp: wf_quickslots_alt)

lemma wf_swap:
  assumes "wf_quickslots qs" and "validQuickslotPosition a" and "validQuickslotPosition b"
  shows "wf_quickslots (map (relocate (swap_position a b)) qs)"
  using assms bar_relocate(1) [of qs "swap_position a b"]
  by (auto simp: wf_quickslots_alt quickslot_ok_iff swap_position_def relocate_def)

lemma ucast_cell_lt:
  fixes to :: u16
  assumes "to < CarriedInventorySlotCount"
  shows "(ucast to :: u8) < ucast CarriedInventorySlotCount" and "ucast (ucast to :: u8) = to"
proof -
  have t: "unat to < 90"
    using assms by (simp add: CarriedInventorySlotCount_def word_less_nat_alt)
  have u: "unat (ucast to :: u8) = unat to"
    using t by (simp add: unsigned_ucast_eq unsigned_take_bit_eq take_bit_nat_eq_self_iff)
  have "unat (ucast CarriedInventorySlotCount :: u8) = 90"
    by (simp add: CarriedInventorySlotCount_def)
  with t u show "(ucast to :: u8) < ucast CarriedInventorySlotCount"
    by (simp add: word_less_nat_alt)
  have "unat (ucast (ucast to :: u8) :: u16) = unat (ucast to :: u8)"
    using t by (subst unsigned_ucast_eq) (simp add: u take_bit_nat_eq_self_iff)
  with u have "unat (ucast (ucast to :: u8) :: u16) = unat to" by simp
  then show "ucast (ucast to :: u8) = to"
    by (rule word_unat_eq_iff [THEN iffD2])
qed

lemma wf_sync_move:
  assumes "wf_quickslots qs" and "to < CarriedInventorySlotCount"
  shows "wf_quickslots (fst (sync_move_loop from to qs))"
proof -
  have "quickslot_ok q" if m: "q \<in> set (fst (sync_move_loop from to qs))" for q
  proof -
    obtain q0 x where q0: "q0 \<in> set qs" and x: "follow from to (qType q0, qSlot q0) = Some x"
      and q: "q = q0\<lparr>qSlot := snd x\<rparr>"
      using m unfolding sync_move_loop_updated set_map_filter_iff map_option_eq_Some by blast
    have ok: "quickslot_ok q0" using assms(1) q0 by (simp add: wf_quickslots_alt)
    consider "x = (qType q0, qSlot q0)" | "qType q0 = TypeItem" "snd x = ucast to"
      using x by (auto simp: follow_def split: if_split_asm)
    then show ?thesis
    proof cases
      case 1
      with ok q show ?thesis by simp
    next
      case 2
      with ok q ucast_cell_lt(1) [OF assms(2)] show ?thesis
        by (simp add: quickslot_ok_iff validQuickslotTuple_def TypeItem_def TypeNone_def)
    qed
  qed
  moreover have "positions_ok (fst (sync_move_loop from to qs))"
    using assms(1) by (intro bar_sync_move) (simp add: wf_quickslots_alt)
  ultimately show ?thesis by (simp add: wf_quickslots_alt)
qed

section \<open>The bar contract\<close>

definition bar_set :: "u8 \<Rightarrow> u8 \<times> u8 \<Rightarrow> (u8 \<Rightarrow> (u8 \<times> u8) option) \<Rightarrow> u8 \<Rightarrow> (u8 \<times> u8) option" where
  "bar_set position x m = (keep_on (\<lambda>p y. y \<noteq> x) m)(position \<mapsto> x)"

lemma wf_positions: "wf_quickslots qs \<Longrightarrow> positions_ok qs"
  by (simp add: wf_quickslots_alt)

lemma DeleteQuickslot_spec:
  assumes "wf_quickslots (liveQuickslots r)" and "DeleteQuickslot r position = (r', res)"
  shows "r' = r\<lparr>liveQuickslots := liveQuickslots r'\<rparr> \<and> wf_quickslots (liveQuickslots r') \<and>
    (if validQuickslotPosition position \<and> bar (liveQuickslots r) position \<noteq> None
     then res \<noteq> None \<and> bar (liveQuickslots r') = (bar (liveQuickslots r))(position := None)
     else res = None \<and> r' = r)"
  using assms wf_positions [OF assms(1)]
  by (auto simp: DeleteQuickslot_def bar_None_iff bar_remove wf_remove_quickslot
      split: if_split_asm option.split_asm)

lemma bar_drop_binding:
  assumes "positions_ok qs"
  shows "positions_ok (drop_binding t s qs)"
    and "bar (drop_binding t s qs) = keep_on (\<lambda>p x. x \<noteq> (t, s)) (bar qs)"
  using positions_ok_filter [OF assms] bar_filter [OF assms, of "\<lambda>p x. x \<noteq> (t, s)"]
  by (simp_all add: drop_binding_def)

lemma SetQuickslot_spec:
  assumes "wf_quickslots (liveQuickslots r)" and "SetQuickslot r position slot = (r', res)"
  shows "r' = r\<lparr>liveQuickslots := liveQuickslots r'\<rparr> \<and> wf_quickslots (liveQuickslots r') \<and>
    (res = None \<longrightarrow> r' = r) \<and>
    (res \<noteq> None \<longrightarrow> bar (liveQuickslots r') =
      (if qType slot = TypeNone then (bar (liveQuickslots r))(position := None)
       else bar_set position (qType slot, qSlot slot) (bar (liveQuickslots r))))"
proof (cases "qType slot = TypeNone \<and> validQuickslotPosition position \<and> validQuickslotTuple slot")
  case True
  then show ?thesis
    using DeleteQuickslot_spec [OF assms(1), of position r' res] assms(2)
    by (auto simp: SetQuickslot_def split: if_split_asm)
next
  case False
  let ?q = "\<lparr>qPosition = position, qType = qType slot, qSlot = qSlot slot\<rparr>"
  let ?qs = "drop_binding (qType slot) (qSlot slot) (liveQuickslots r)"
  have d: "wf_quickslots ?qs" "positions_ok ?qs"
    using assms(1) wf_positions wf_filter_quickslots by (auto simp: drop_binding_def)
  show ?thesis
  proof (cases "res")
    case None
    with False assms(2) have "r' = r"
      by (auto simp: SetQuickslot_def Let_def split: if_split_asm)
    with None assms(1) show ?thesis by simp
  next
    case (Some x)
    with False assms(2) have r': "r' = r\<lparr>liveQuickslots := sortQuickslots (put_binding ?q ?qs)\<rparr>"
      and v: "validQuickslotPosition position" "validQuickslotTuple slot" and "qType slot \<noteq> TypeNone"
      by (auto simp: SetQuickslot_def Let_def split: if_split_asm)
    have "quickslot_ok ?q" using v by (simp add: quickslot_ok_iff)
    with d have "wf_quickslots (put_binding ?q ?qs)" by (intro wf_put_binding)
    with Some \<open>qType slot \<noteq> TypeNone\<close> d show ?thesis
      by (simp add: r' wf_positions bar_put bar_drop_binding [OF wf_positions [OF assms(1)]] bar_set_def)
  qed
qed

lemma SwapQuickslots_spec:
  assumes "wf_quickslots (liveQuickslots r)" and "SwapQuickslots r a b = (r', res)"
  shows "r' = r\<lparr>liveQuickslots := liveQuickslots r'\<rparr> \<and> wf_quickslots (liveQuickslots r') \<and>
    (if a \<noteq> b \<and> validQuickslotPosition a \<and> validQuickslotPosition b \<and>
        \<not> (bar (liveQuickslots r) a = None \<and> bar (liveQuickslots r) b = None)
     then res = Some (a, b) \<and> bar (liveQuickslots r') = (\<lambda>p. bar (liveQuickslots r) (swap_position a b p))
     else res = None \<and> r' = r)"
  using assms wf_positions [OF assms(1)]
  by (auto simp: SwapQuickslots_def Let_def bar_None_iff swap_eq_map wf_swap bar_relocate
      split: if_split_asm)

lemma SyncMove_spec:
  assumes "wf_quickslots (liveQuickslots r)"
    and "SyncItemQuickslotsForInventoryMove r from to = (r', res)"
  shows "r' = r\<lparr>liveQuickslots := liveQuickslots r'\<rparr> \<and> wf_quickslots (liveQuickslots r') \<and>
    (if from \<noteq> to \<and> from < CarriedInventorySlotCount \<and> to < CarriedInventorySlotCount
     then res \<noteq> None \<and>
       bar (liveQuickslots r') = (\<lambda>p. Option.bind (bar (liveQuickslots r) p) (follow from to))
     else res = None \<and> r' = r)"
proof (cases "from = to \<or> CarriedInventorySlotCount \<le> from \<or> CarriedInventorySlotCount \<le> to")
  case True
  with assms show ?thesis
    by (auto simp: SyncItemQuickslotsForInventoryMove_def not_le [symmetric])
next
  case False
  obtain updated changed deleted
    where u: "sync_move_loop from to (liveQuickslots r) = (updated, changed, deleted)"
    by (metis prod_cases3)
  have p: "positions_ok (liveQuickslots r)" using assms(1) by (rule wf_positions)
  have w: "wf_quickslots updated"
    using wf_sync_move [OF assms(1), of to "from"] False u by (simp add: not_le)
  have b: "bar updated = (\<lambda>p. Option.bind (bar (liveQuickslots r) p) (follow from to))"
    using bar_sync_move(2) [OF p, of "from" to] u by simp
  have "liveQuickslots r = updated" if "changed = []" "deleted = []"
    using that u sync_move_loop_empty by metis
  then have "res \<noteq> None \<and> r' = r\<lparr>liveQuickslots := liveQuickslots r'\<rparr> \<and>
      (liveQuickslots r' = updated \<or> liveQuickslots r' = sortQuickslots updated)"
    using assms(2) False by (auto simp: SyncItemQuickslotsForInventoryMove_def u split: if_split_asm)
  with w b False wf_positions [OF w] show ?thesis by (auto simp: not_le)
qed

definition unbind :: "slot_index \<Rightarrow> (u8 \<Rightarrow> (u8 \<times> u8) option) \<Rightarrow> u8 \<Rightarrow> (u8 \<times> u8) option" where
  "unbind slot m = keep_on (\<lambda>p x. \<not> (fst x = TypeItem \<and> ucast (snd x) = slot)) m"

lemma bar_unbind:
  assumes "positions_ok qs"
  shows "bar (filter (\<lambda>q. \<not> bound_to slot q) qs) = unbind slot (bar qs)"
  using bar_filter [OF assms, of "\<lambda>p x. \<not> (fst x = TypeItem \<and> ucast (snd x) = slot)"]
  by (simp add: bound_to_def unbind_def)

lemma SyncRemoval_spec:
  assumes "wf_quickslots (liveQuickslots r)"
    and "SyncItemQuickslotsForItemRemoval r slot = (r', res)"
  shows "r' = r\<lparr>liveQuickslots := liveQuickslots r'\<rparr> \<and> wf_quickslots (liveQuickslots r') \<and>
    (if slot < CarriedInventorySlotCount
     then res \<noteq> None \<and> bar (liveQuickslots r') = unbind slot (bar (liveQuickslots r))
     else res = None \<and> r' = r)"
proof -
  let ?u = "filter (\<lambda>q. \<not> bound_to slot q) (liveQuickslots r)"
  have p: "positions_ok (liveQuickslots r)" using assms(1) by (rule wf_positions)
  have w: "wf_quickslots ?u" using assms(1) by (rule wf_filter_quickslots)
  have "?u = liveQuickslots r" if "filter (bound_to slot) (liveQuickslots r) = []"
    using that by (simp add: filter_empty_conv)
  then have "CarriedInventorySlotCount \<le> slot \<and> res = None \<and> r' = r \<or>
      slot < CarriedInventorySlotCount \<and> res \<noteq> None \<and> r' = r\<lparr>liveQuickslots := liveQuickslots r'\<rparr> \<and>
      (liveQuickslots r' = ?u \<or> liveQuickslots r' = sortQuickslots ?u)"
    using assms(2)
    by (auto simp: SyncItemQuickslotsForItemRemoval_def Let_def split: if_split_asm)
  with w assms(1) wf_positions [OF w] show ?thesis
    by (auto simp: bar_unbind [OF p, symmetric])
qed

text \<open>One quickslot operation: only the bar changes, to the given map, or nothing does.\<close>

definition bar_step :: "runtime \<Rightarrow> (runtime, 'a) outcome \<Rightarrow> (u8 \<Rightarrow> (u8 \<times> u8) option) \<Rightarrow> bool" where
  "bar_step r x m \<longleftrightarrow>
     fst x = r\<lparr>liveQuickslots := liveQuickslots (fst x)\<rparr> \<and> wf_quickslots (liveQuickslots (fst x)) \<and>
     (if ok x then bar (liveQuickslots (fst x)) = m else fst x = r)"

text \<open>
  C31: the quickslot bar is a map. On a well-formed bar, seen as a map from positions to what
  they hold, deleting clears a position; setting a position binds it and unbinds the same item,
  skill or command everywhere else; swapping exchanges two positions; following an inventory
  move redirects the bindings of the moved cell and drops those of the displaced one; removing a
  cell drops exactly its item bindings. Nothing but the bar changes, the bar stays well-formed,
  and a refused operation changes nothing.
\<close>

theorem quickslot_refinement:
  assumes "wf_quickslots (liveQuickslots r)"
  shows "bar_step r (DeleteQuickslot r p) ((bar (liveQuickslots r))(p := None)) \<and>
    bar_step r (SetQuickslot r p q)
      (if qType q = TypeNone then (bar (liveQuickslots r))(p := None)
       else bar_set p (qType q, qSlot q) (bar (liveQuickslots r))) \<and>
    bar_step r (SwapQuickslots r a b) (\<lambda>p. bar (liveQuickslots r) (swap_position a b p)) \<and>
    bar_step r (SyncItemQuickslotsForInventoryMove r f t)
      (\<lambda>p. Option.bind (bar (liveQuickslots r) p) (follow f t)) \<and>
    bar_step r (SyncItemQuickslotsForItemRemoval r s) (unbind s (bar (liveQuickslots r)))"
  unfolding bar_step_def
  using DeleteQuickslot_spec [OF assms prod.collapse [symmetric], of p]
    SetQuickslot_spec [OF assms prod.collapse [symmetric], of p q]
    SwapQuickslots_spec [OF assms prod.collapse [symmetric], of a b]
    SyncMove_spec [OF assms prod.collapse [symmetric], of f t]
    SyncRemoval_spec [OF assms prod.collapse [symmetric], of s]
  by (simp only: split: if_split_asm) simp_all

theorem quickslot_refinement_witness:
  "bar (liveQuickslots (fst (SetQuickslot sample_runtime 3 \<lparr>qPosition = 0, qType = 1, qSlot = 4\<rparr>))) 3
     = Some (1, 4)"
proof -
  let ?q = "\<lparr>qPosition = 0, qType = 1, qSlot = 4\<rparr>"
  have "wf_quickslots (liveQuickslots sample_runtime)" by (simp add: wf_quickslots_def)
  from quickslot_refinement [OF this, of 3 ?q]
  have "bar_step sample_runtime (SetQuickslot sample_runtime 3 ?q) (bar_set 3 (1, 4) (bar []))"
    by (simp add: TypeNone_def)
  moreover have "ok (SetQuickslot sample_runtime 3 ?q)"
    by (simp add: SetQuickslot_def validQuickslotPosition_def quickslotMaxNum_def TypeNone_def
        validQuickslotTuple_def TypeItem_def CarriedInventorySlotCount_def Let_def
        countInventorySlotOccupancy_def findInventorySlot_def zero_item_def Validate_def
        equipment_slot_defs)
  ultimately show ?thesis by (simp add: bar_step_def bar_set_def)
qed

end
