(* ===== verification/Player_Inventory.thy ===== *)
theory Player_Inventory
  imports Player_Quickslots
begin

text \<open>
  Carried cells of \<open>internal/player/runtime.go\<close>: dropping to the ground, picking up, moving
  whole stacks, merging and splitting. The code edits a cloned or live slice by index and sorts
  it by slot afterwards; the model does the same on lists.
\<close>

section \<open>Dropping\<close>

definition dropInventoryItem ::
    "runtime \<Rightarrow> slot_index \<Rightarrow> u16 \<Rightarrow> template \<Rightarrow> (runtime, move_result) outcome" where
  "dropInventoryItem r slot cnt t =
     (if cnt = 0 then (r, None)
      else
        let result = new_move slot 0 in
        if countInventorySlotOccupancy (liveInventory r) slot \<noteq> 1 then (r, None)
        else case findInventorySlot (liveInventory r) slot of
          None \<Rightarrow> (r, None)
        | Some index \<Rightarrow>
            let item = liveInventory r ! index in
            if Locked item then (r, None)
            else if tAntiDrop t \<or> tAntiGive t \<or> tAntiSell t then (r, None)
            else if tVnum t \<noteq> 0 \<and> Vnum item \<noteq> tVnum t then (r, None)
            else if tMaxCount t \<noteq> 0 \<and> tMaxCount t < Count item then (r, None)
            else if Validate item \<noteq> None then (r, None)
            else if Count item < cnt then (r, None)
            else if cnt = Count item then
              (r\<lparr>liveInventory := sortInventoryItems
                   (removeInventoryIndex (cloneItemInstances (liveInventory r)) index)\<rparr>,
               Some (result\<lparr>Changed := True\<rparr>))
            else
              let updatedInventory = cloneItemInstances (liveInventory r);
                  item' = (updatedInventory ! index)\<lparr>Count := Count (updatedInventory ! index) - cnt\<rparr> in
              if Validate item' \<noteq> None then (r, None)
              else
                (r\<lparr>liveInventory := sortInventoryItems (updatedInventory[index := item'])\<rparr>,
                 Some (result\<lparr>Changed := True, FromOccupied := True, FromItem := item',
                         CountOnly := True\<rparr>)))"

definition DropInventoryItem :: "runtime \<Rightarrow> slot_index \<Rightarrow> u16 \<Rightarrow> (runtime, move_result) outcome" where
  "DropInventoryItem r slot cnt = dropInventoryItem r slot cnt zero_template"

definition DropInventoryItemWithTemplate ::
    "runtime \<Rightarrow> slot_index \<Rightarrow> u16 \<Rightarrow> template \<Rightarrow> (runtime, move_result) outcome" where
  "DropInventoryItemWithTemplate r slot cnt t =
     (if \<not> ValidTemplate t \<or> \<not> CanUseTemplate r t \<or> tAntiGet t \<or> tAntiDrop t \<or> tAntiGive t \<or>
         tAntiSell t \<or> tAntiStack t then (r, None)
      else dropInventoryItem r slot cnt t)"

section \<open>Merging into existing stacks\<close>

text \<open>The loop of \<open>findMergeableInventoryIndex\<close>, with \<open>mergeIndex\<close> as an option.\<close>

fun findMergeable_loop :: "item_instance list \<Rightarrow> u32 \<Rightarrow> u16 \<Rightarrow> u16 \<Rightarrow> nat list \<Rightarrow> nat option \<Rightarrow> nat option" where
  "findMergeable_loop items vnum cnt maxCount [] best = best"
| "findMergeable_loop items vnum cnt maxCount (i # is) best =
     (let item = items ! i in
      if Equipped item \<or> Locked item \<or> Vnum item \<noteq> vnum \<or> Count item = 0 then
        findMergeable_loop items vnum cnt maxCount is best
      else if (ucast maxCount :: u32) < ucast (Count item) + ucast cnt then
        findMergeable_loop items vnum cnt maxCount is best
      else
        findMergeable_loop items vnum cnt maxCount is
          (case best of
             None \<Rightarrow> Some i
           | Some m \<Rightarrow> if Slot item < Slot (items ! m) then Some i else best))"

definition findMergeableInventoryIndex :: "item_instance list \<Rightarrow> u32 \<Rightarrow> u16 \<Rightarrow> u16 \<Rightarrow> nat option" where
  "findMergeableInventoryIndex items vnum cnt maxCount =
     (if vnum = 0 \<or> cnt = 0 \<or> maxCount = 0 \<or> maxCount < cnt then None
      else findMergeable_loop items vnum cnt maxCount [0..<length items] None)"

definition partially_mergeable :: "u32 \<Rightarrow> u16 \<Rightarrow> item_instance \<Rightarrow> bool" where
  "partially_mergeable vnum maxCount item \<longleftrightarrow>
     \<not> (Equipped item \<or> Locked item \<or> Vnum item \<noteq> vnum \<or> Count item = 0 \<or> maxCount \<le> Count item)"

definition findPartiallyMergeableInventoryIndices ::
    "item_instance list \<Rightarrow> u32 \<Rightarrow> u16 \<Rightarrow> nat list" where
  "findPartiallyMergeableInventoryIndices items vnum maxCount =
     (if vnum = 0 \<or> maxCount = 0 then []
      else sort_key (\<lambda>i. Slot (items ! i))
             (filter (\<lambda>i. partially_mergeable vnum maxCount (items ! i)) [0..<length items]))"

text \<open>
  The loop of \<open>distributeMerchantGrantAcrossExistingStacks\<close>; \<open>None\<close> is its early return when
  a filled stack fails \<open>Validate\<close>.
\<close>

fun distribute_loop :: "u16 \<Rightarrow> nat list \<Rightarrow> item_instance list \<Rightarrow> item_instance list \<Rightarrow> u16 \<Rightarrow>
    (item_instance list \<times> item_instance list \<times> u16) option" where
  "distribute_loop maxCount [] cloned changed remaining = Some (cloned, changed, remaining)"
| "distribute_loop maxCount (index # is) cloned changed remaining =
     (if remaining = 0 then Some (cloned, changed, remaining)
      else
        let item = cloned ! index;
            room = maxCount - Count item in
        if room = 0 then distribute_loop maxCount is cloned changed remaining
        else
          let add = (if remaining < room then remaining else room);
              item' = item\<lparr>Count := Count item + add\<rparr> in
          if Validate item' \<noteq> None then None
          else distribute_loop maxCount is (cloned[index := item']) (changed @ [item']) (remaining - add))"

definition distributeMerchantGrantAcrossExistingStacks ::
    "item_instance list \<Rightarrow> u32 \<Rightarrow> u16 \<Rightarrow> u16 \<Rightarrow>
     item_instance list \<times> item_instance list \<times> u16 \<times> bool" where
  "distributeMerchantGrantAcrossExistingStacks items vnum cnt maxCount =
     (if cnt = 0 then (cloneItemInstances items, [], 0, False)
      else
        let indices = findPartiallyMergeableInventoryIndices items vnum maxCount in
        if indices = [] then (cloneItemInstances items, [], cnt, False)
        else case distribute_loop maxCount indices (cloneItemInstances items) [] cnt of
          None \<Rightarrow> (cloneItemInstances items, [], cnt, False)
        | Some (cloned, changed, remaining) \<Rightarrow>
            (cloned, sortInventoryItems changed, remaining, changed \<noteq> []))"

section \<open>Picking up\<close>

record pickup_result =
  pItem :: item_instance
  Merged :: bool
  Split :: bool
  Updated :: "item_instance option"
  UpdatedItems :: "item_instance list"
  Placed :: "item_instance option"

definition clonePickupUpdatedItems :: "item_instance list \<Rightarrow> item_instance list" where
  "clonePickupUpdatedItems changes = sortInventoryItems (cloneItemInstances changes)"

text \<open>The placement at the end of both branches: the preferred cell, or the first free one.\<close>

definition placement_slot :: "item_instance list \<Rightarrow> slot_index \<Rightarrow> slot_index option" where
  "placement_slot items preferred =
     (if inventorySlotOccupied items preferred then nextFreeInventorySlot items else Some preferred)"

definition place_item :: "item_instance list \<Rightarrow> slot_index \<Rightarrow> item_instance \<Rightarrow>
    (item_instance list \<times> item_instance) option" where
  "place_item items preferred item =
     (case placement_slot items preferred of
        None \<Rightarrow> None
      | Some placementSlot \<Rightarrow>
          (case WithInventorySlot item placementSlot of
             Inl _ \<Rightarrow> None
           | Inr placed \<Rightarrow> Some (sortInventoryItems (items @ [placed]), placed)))"

definition PickupGroundItem ::
    "runtime \<Rightarrow> item_instance \<Rightarrow> slot_index \<Rightarrow> u16 \<Rightarrow> (runtime, pickup_result) outcome" where
  "PickupGroundItem r item preferred maxCount =
     (let result = \<lparr>pItem = item, Merged = False, Split = False, Updated = None,
                    UpdatedItems = [], Placed = None\<rparr>;
          updatedInventory = cloneItemInstances (liveInventory r);
          place_whole = (case place_item updatedInventory preferred item of
             None \<Rightarrow> (r, None)
           | Some (items, placed) \<Rightarrow>
               (r\<lparr>liveInventory := items\<rparr>, Some (result\<lparr>Placed := Some placed\<rparr>))) in
      if ID item = 0 \<or> Vnum item = 0 \<or> Count item = 0 \<or> 255 < Count item \<or>
         CarriedInventorySlotCount \<le> preferred then (r, None)
      else if Validate item \<noteq> None then (r, None)
      else if Equipped item \<or> Locked item then (r, None)
      else if hasDuplicateInventorySlotOccupancy (liveInventory r) \<or>
              hasItemInstanceID (liveInventory r) (ID item) \<or>
              hasItemInstanceID (liveEquipment r) (ID item) then (r, None)
      else if 0 < maxCount then
        (case findMergeableInventoryIndex updatedInventory (Vnum item) (Count item) maxCount of
           Some mergeIndex \<Rightarrow>
             (let merged = (updatedInventory ! mergeIndex)
                    \<lparr>Count := Count (updatedInventory ! mergeIndex) + Count item\<rparr> in
              if Validate merged \<noteq> None then (r, None)
              else (r\<lparr>liveInventory := sortInventoryItems (updatedInventory[mergeIndex := merged])\<rparr>,
                    Some (result\<lparr>Merged := True, Updated := Some merged\<rparr>)))
         | None \<Rightarrow>
             (case distributeMerchantGrantAcrossExistingStacks updatedInventory (Vnum item)
                     (Count item) maxCount of (distributedInventory, changes, remaining, distributed) \<Rightarrow>
                if distributed \<and> changes \<noteq> [] then
                  (if remaining = 0 then
                     (r\<lparr>liveInventory := sortInventoryItems distributedInventory\<rparr>,
                      Some (result\<lparr>Split := True, UpdatedItems := clonePickupUpdatedItems changes\<rparr>))
                   else case place_item distributedInventory preferred (item\<lparr>Count := remaining\<rparr>) of
                     None \<Rightarrow> (r, None)
                   | Some (items, placed) \<Rightarrow>
                       (r\<lparr>liveInventory := items\<rparr>,
                        Some (result\<lparr>Split := True, UpdatedItems := clonePickupUpdatedItems changes,
                                Placed := Some placed\<rparr>)))
                else place_whole))
      else place_whole)"

definition PickupGroundItemWithTemplate ::
    "runtime \<Rightarrow> item_instance \<Rightarrow> slot_index \<Rightarrow> template \<Rightarrow> (runtime, pickup_result) outcome" where
  "PickupGroundItemWithTemplate r item preferred t =
     (if \<not> ValidTemplate t \<or> Vnum item \<noteq> tVnum t \<or> tMaxCount t < Count item \<or> tAntiGet t \<or>
         tAntiDrop t \<or> tAntiGive t \<or> tAntiSell t \<or> tAntiStack t \<or> \<not> CanUseTemplate r t then (r, None)
      else PickupGroundItem r item preferred (if tStackable t then tMaxCount t else 0))"

section \<open>Moving\<close>

definition canForceSameVnumSwap :: "item_instance list \<Rightarrow> slot_index \<Rightarrow> slot_index \<Rightarrow> bool" where
  "canForceSameVnumSwap items from to =
     (if countInventorySlotOccupancy items from \<noteq> 1 \<or> countInventorySlotOccupancy items to \<noteq> 1
      then False
      else case (findInventorySlot items from, findInventorySlot items to) of
        (Some fromIndex, Some toIndex) \<Rightarrow>
          (let fromItem = items ! fromIndex; toItem = items ! toIndex in
           \<not> Locked fromItem \<and> \<not> Locked toItem \<and> ID fromItem \<noteq> ID toItem \<and>
           Vnum fromItem = Vnum toItem \<and> 0 < Count fromItem \<and> 0 < Count toItem)
      | _ \<Rightarrow> False)"

definition moveInventoryItemFullStack ::
    "runtime \<Rightarrow> slot_index \<Rightarrow> slot_index \<Rightarrow> move_result \<Rightarrow> (runtime, move_result) outcome" where
  "moveInventoryItemFullStack r from to result =
     (case findInventorySlot (liveInventory r) from of
        None \<Rightarrow> (r, None)
      | Some fromIndex \<Rightarrow>
          if Locked (liveInventory r ! fromIndex) then (r, None)
          else case WithInventorySlot (liveInventory r ! fromIndex) to of
            Inl _ \<Rightarrow> (r, None)
          | Inr movedItem \<Rightarrow>
              (case findInventorySlot (liveInventory r) to of
                 Some toIndex \<Rightarrow>
                   (let destinationItem = liveInventory r ! toIndex in
                    if Locked destinationItem then (r, None)
                    else case WithInventorySlot destinationItem from of
                      Inl _ \<Rightarrow> (r, None)
                    | Inr sourceItem \<Rightarrow>
                        (r\<lparr>liveInventory := sortInventoryItems
                             ((liveInventory r)[fromIndex := movedItem, toIndex := sourceItem])\<rparr>,
                         Some (result\<lparr>Changed := True, FromOccupied := True, FromItem := sourceItem,
                                 ToOccupied := True, ToItem := movedItem\<rparr>)))
               | None \<Rightarrow>
                   (r\<lparr>liveInventory := sortInventoryItems ((liveInventory r)[fromIndex := movedItem])\<rparr>,
                    Some (result\<lparr>Changed := True, ToOccupied := True, ToItem := movedItem\<rparr>))))"

definition MoveInventoryItem ::
    "runtime \<Rightarrow> slot_index \<Rightarrow> slot_index \<Rightarrow> (runtime, move_result) outcome" where
  "MoveInventoryItem r from to =
     (if from = to then (r, None) else moveInventoryItemFullStack r from to (new_move from to))"

text \<open>The whole source goes into the destination: remove it, find the destination again, refill it.\<close>

definition merge_whole :: "runtime \<Rightarrow> slot_index \<Rightarrow> nat \<Rightarrow> item_instance \<Rightarrow> move_result \<Rightarrow>
    (runtime, move_result) outcome" where
  "merge_whole r to fromIndex destinationItem result =
     (let r1 = r\<lparr>liveInventory := removeInventoryIndex (liveInventory r) fromIndex\<rparr> in
      case findInventorySlot (liveInventory r1) to of
        None \<Rightarrow> (r1, None)
      | Some toIndex \<Rightarrow>
          (r1\<lparr>liveInventory := sortInventoryItems ((liveInventory r1)[toIndex := destinationItem])\<rparr>,
           Some (result\<lparr>Changed := True, ToOccupied := True, ToItem := destinationItem,
                   CountOnly := True\<rparr>)))"

text \<open>Part of the source goes into the destination: both cells are rewritten.\<close>

definition merge_part :: "runtime \<Rightarrow> nat \<Rightarrow> nat \<Rightarrow> item_instance \<Rightarrow> item_instance \<Rightarrow> move_result \<Rightarrow>
    (runtime, move_result) outcome" where
  "merge_part r fromIndex toIndex sourceItem destinationItem result =
     (r\<lparr>liveInventory := sortInventoryItems
          ((liveInventory r)[fromIndex := sourceItem, toIndex := destinationItem])\<rparr>,
      Some (result\<lparr>Changed := True, FromOccupied := True, FromItem := sourceItem,
              ToOccupied := True, ToItem := destinationItem, CountOnly := True\<rparr>))"

definition MoveInventoryItemBounded ::
    "runtime \<Rightarrow> slot_index \<Rightarrow> slot_index \<Rightarrow> u16 \<Rightarrow> (runtime, move_result) outcome" where
  "MoveInventoryItemBounded r from to maxCount =
     (if from = to then (r, None)
      else if maxCount = 0 then
        (if \<not> canForceSameVnumSwap (liveInventory r) from to then (r, None)
         else moveInventoryItemFullStack r from to
                ((new_move from to)\<lparr>CompatibleSwap := True, ForcedSwap := True\<rparr>))
      else if countInventorySlotOccupancy (liveInventory r) from \<noteq> 1 \<or>
              1 < countInventorySlotOccupancy (liveInventory r) to then (r, None)
      else case findInventorySlot (liveInventory r) from of
        None \<Rightarrow> (r, None)
      | Some fromIndex \<Rightarrow>
          let result = new_move from to; sourceItem = liveInventory r ! fromIndex in
          if Locked sourceItem then (r, None)
          else if Count sourceItem = 0 \<or> maxCount < Count sourceItem then (r, None)
          else case findInventorySlot (liveInventory r) to of
            None \<Rightarrow> moveInventoryItemFullStack r from to result
          | Some toIndex \<Rightarrow>
              let destinationItem = liveInventory r ! toIndex in
              if Locked destinationItem \<or> ID destinationItem = ID sourceItem \<or> Count destinationItem = 0
              then (r, None)
              else if Vnum destinationItem \<noteq> Vnum sourceItem then moveInventoryItemFullStack r from to result
              else if maxCount \<le> Count destinationItem then (r, None)
              else
                let available = maxCount - Count destinationItem;
                    mergeCount = (if available < Count sourceItem then available else Count sourceItem) in
                if mergeCount = 0 then (r, None)
                else
                  let destinationItem' = destinationItem\<lparr>Count := Count destinationItem + mergeCount\<rparr> in
                  if Validate destinationItem' \<noteq> None then (r, None)
                  else if mergeCount = Count sourceItem then
                    merge_whole r to fromIndex destinationItem' result
                  else
                    let sourceItem' = sourceItem\<lparr>Count := Count sourceItem - mergeCount,
                          Sockets := CloneSockets sourceItem, Attributes := CloneAttributes sourceItem\<rparr> in
                    if Validate sourceItem' \<noteq> None then (r, None)
                    else merge_part r fromIndex toIndex sourceItem' destinationItem' result)"

text \<open>The end of \<open>MoveInventoryItemCountBounded\<close>: split a part into an empty cell.\<close>

definition split_stack :: "runtime \<Rightarrow> nat \<Rightarrow> slot_index \<Rightarrow> u16 \<Rightarrow> item_instance \<Rightarrow> item_instance \<Rightarrow>
    move_result \<Rightarrow> (runtime, move_result) outcome" where
  "split_stack r fromIndex to cnt sourceItem sourceRemainder result =
     (case WithInventorySlot (sourceItem\<lparr>ID := nextSplitItemID r, Count := cnt\<rparr>) to of
        Inl _ \<Rightarrow> (r, None)
      | Inr destinationItem \<Rightarrow>
          if Validate sourceRemainder \<noteq> None then (r, None)
          else
            (r\<lparr>liveInventory := sortInventoryItems
                 ((liveInventory r)[fromIndex := sourceRemainder] @ [destinationItem])\<rparr>,
             Some (result\<lparr>Changed := True, FromOccupied := True, FromItem := sourceRemainder,
                     ToOccupied := True, ToItem := destinationItem\<rparr>)))"

definition MoveInventoryItemCountBounded ::
    "runtime \<Rightarrow> slot_index \<Rightarrow> slot_index \<Rightarrow> u16 \<Rightarrow> u16 \<Rightarrow> (runtime, move_result) outcome" where
  "MoveInventoryItemCountBounded r from to cnt maxCount =
     (if cnt = 0 then (r, None)
      else if from = to then (r, None)
      else if maxCount = 0 then
        (case findInventorySlot (liveInventory r) from of
           None \<Rightarrow> (r, None)
         | Some fromIndex \<Rightarrow>
             if cnt < Count (liveInventory r ! fromIndex) \<or>
                \<not> canForceSameVnumSwap (liveInventory r) from to then (r, None)
             else moveInventoryItemFullStack r from to
                    ((new_move from to)\<lparr>CompatibleSwap := True, ForcedSwap := True\<rparr>))
      else if maxCount < cnt then (r, None)
      else if countInventorySlotOccupancy (liveInventory r) from \<noteq> 1 \<or>
              1 < countInventorySlotOccupancy (liveInventory r) to then (r, None)
      else case findInventorySlot (liveInventory r) from of
        None \<Rightarrow> (r, None)
      | Some fromIndex \<Rightarrow>
          let result = new_move from to; sourceItem = liveInventory r ! fromIndex in
          if Locked sourceItem then (r, None)
          else if Count sourceItem < cnt then (r, None)
          else if maxCount < Count sourceItem then (r, None)
          else if cnt = Count sourceItem then
            (case findInventorySlot (liveInventory r) to of
               Some toIndex \<Rightarrow>
                 (let destinationItem = liveInventory r ! toIndex in
                  if Locked destinationItem \<or> ID destinationItem = ID sourceItem then (r, None)
                  else if Vnum destinationItem \<noteq> Vnum sourceItem then
                    moveInventoryItemFullStack r from to result
                  else
                    let mergedCount = (ucast (Count destinationItem) + ucast cnt :: u32) in
                    if ucast maxCount < mergedCount then (r, None)
                    else
                      let destinationItem' = destinationItem\<lparr>Count := ucast mergedCount\<rparr> in
                      if Validate destinationItem' \<noteq> None then (r, None)
                      else merge_whole r to fromIndex destinationItem' result)
             | None \<Rightarrow> moveInventoryItemFullStack r from to result)
          else
            let sourceRemainder = sourceItem\<lparr>Count := Count sourceItem - cnt,
                  Sockets := CloneSockets sourceItem, Attributes := CloneAttributes sourceItem\<rparr> in
            case findInventorySlot (liveInventory r) to of
              Some toIndex \<Rightarrow>
                (let destinationItem = liveInventory r ! toIndex in
                 if Locked destinationItem \<or> ID destinationItem = ID sourceItem \<or>
                    Vnum destinationItem \<noteq> Vnum sourceItem \<or> Count destinationItem = 0 then (r, None)
                 else
                   let mergedCount = (ucast (Count destinationItem) + ucast cnt :: u32) in
                   if ucast maxCount < mergedCount then (r, None)
                   else
                     let destinationItem' = destinationItem\<lparr>Count := ucast mergedCount\<rparr> in
                     if Validate sourceRemainder \<noteq> None then (r, None)
                     else if Validate destinationItem' \<noteq> None then (r, None)
                     else merge_part r fromIndex toIndex sourceRemainder destinationItem' result)
            | None \<Rightarrow> split_stack r fromIndex to cnt sourceItem sourceRemainder result)"

definition MoveInventoryItemCount ::
    "runtime \<Rightarrow> slot_index \<Rightarrow> slot_index \<Rightarrow> u16 \<Rightarrow> (runtime, move_result) outcome" where
  "MoveInventoryItemCount r from to cnt = MoveInventoryItemCountBounded r from to cnt (-1)"

section \<open>Edits of one or two cells\<close>

definition in_cell :: "slot_index \<Rightarrow> item_instance \<Rightarrow> item_instance" where
  "in_cell s i = i\<lparr>Slot := s\<rparr>"

definition same_units :: "item_instance list \<Rightarrow> item_instance list \<Rightarrow> bool" where
  "same_units a a' \<longleftrightarrow> (\<forall>v. units v a' = units v a)"

lemma same_unitsI: "(\<And>v. units v a' = units v a) \<Longrightarrow> same_units a a'"
  by (simp add: same_units_def)

lemma WithInventorySlot_in_cell:
  "carried_ok i \<Longrightarrow> WithInventorySlot i s = Inr j \<Longrightarrow> j = in_cell s i"
  by (rule item_instance.equality)
    (simp_all add: WithInventorySlot_Inr_iff in_cell_def carried_ok_def Validate_None_iff)

lemma units_in_count: "units_in v (i\<lparr>Count := c\<rparr>) = (if Vnum i = v then unat c else 0)"
  by (simp add: units_in_def)

lemma unat_minus_count:
  fixes c d :: u16
  assumes "d \<le> c"
  shows "unat (c - d) = unat c - unat d" and "d < c \<Longrightarrow> c - d \<noteq> 0"
proof -
  show u: "unat (c - d) = unat c - unat d" using assms by (rule unat_sub_le)
  show "c - d \<noteq> 0" if "d < c"
    using u that by (metis diff_is_0_eq unat_0 word_less_nat_alt not_le)
qed

text \<open>Moving cell \<open>i\<close> of the slice to an empty cell.\<close>

lemma edit_move:
  assumes wf: "wf_items a b" and i: "findInventorySlot a f = Some i"
    and free: "findInventorySlot a t = None" and w: "WithInventorySlot (a ! i) t = Inr m"
  shows "wf_items (a[i := m]) b" and "cells (a[i := m]) = (cells a)(f := None, t \<mapsto> in_cell t (a ! i))"
    and "same_units a (a[i := m])"
proof -
  note fi = cells_find_Some [OF wf i]
  have m: "m = in_cell t (a ! i)"
    using w wf_carried_nth [OF wf fi(1)] by (simp add: WithInventorySlot_in_cell)
  have fresh: "\<forall>x \<in> set (remove_nth i a). Slot x \<noteq> Slot m"
    using free set_remove_nth [of i a] WithInventorySlot_carried(2) [OF w]
    by (auto simp: wf_findInventorySlot_None [OF wf])
  show "wf_items (a[i := m]) b"
    by (rule wf_items_replace [OF wf fi(1) WithInventorySlot_carried(1,3) [OF w] fresh])
  show "cells (a[i := m]) = (cells a)(f := None, t \<mapsto> in_cell t (a ! i))"
    using lookup_replace [OF wf_itemsD(2) [OF wf] fi(1) fresh] fi(2)
    by (simp add: cells_def m in_cell_def)
  show "same_units a (a[i := m])"
    using units_update [OF fi(1), of _ m] WithInventorySlot_carried(4) [OF w]
    by (intro same_unitsI) simp
qed

text \<open>Exchanging two cells.\<close>

lemma edit_swap:
  assumes wf: "wf_items a b" and i: "findInventorySlot a f = Some i"
    and j: "findInventorySlot a t = Some j" and ne: "f \<noteq> t"
    and w: "WithInventorySlot (a ! i) t = Inr m" and w': "WithInventorySlot (a ! j) f = Inr n"
  shows "wf_items (a[i := m, j := n]) b"
    and "cells (a[i := m, j := n]) = (cells a)(f \<mapsto> in_cell f (a ! j), t \<mapsto> in_cell t (a ! i))"
    and "same_units a (a[i := m, j := n])"
proof -
  note fi = cells_find_Some [OF wf i] and fj = cells_find_Some [OF wf j]
  have ij: "i \<noteq> j" using fi(2) fj(2) ne by auto
  have mn: "m = in_cell t (a ! i)" "n = in_cell f (a ! j)"
    using w w' wf_carried_nth [OF wf fi(1)] wf_carried_nth [OF wf fj(1)]
    by (simp_all add: WithInventorySlot_in_cell)
  note m = WithInventorySlot_carried [OF w] and n = WithInventorySlot_carried [OF w']
  show "wf_items (a[i := m, j := n]) b"
    using m n fi fj by (intro wf_items_swap [OF wf fi(1) fj(1) ij]) simp_all
  show "cells (a[i := m, j := n]) = (cells a)(f \<mapsto> in_cell f (a ! j), t \<mapsto> in_cell t (a ! i))"
    using lookup_swap [OF wf_itemsD(2) [OF wf] fi(1) fj(1) ij] m n fi(2) fj(2)
    by (simp add: cells_def mn)
  show "same_units a (a[i := m, j := n])"
    using units_swap [OF fi(1) fj(1) ij, of _ m n] m(4) n(4) by (intro same_unitsI) simp
qed

text \<open>Changing the count of one cell.\<close>

lemma edit_recount:
  assumes wf: "wf_items a b" and i: "findInventorySlot a f = Some i" and c: "c \<noteq> 0"
  shows "wf_items (a[i := (a ! i)\<lparr>Count := c\<rparr>]) b"
    and "cells (a[i := (a ! i)\<lparr>Count := c\<rparr>]) = (cells a)(f \<mapsto> (a ! i)\<lparr>Count := c\<rparr>)"
    and "units v (a[i := (a ! i)\<lparr>Count := c\<rparr>]) + units_in v (a ! i) =
      units v a + (if Vnum (a ! i) = v then unat c else 0)"
proof -
  note fi = cells_find_Some [OF wf i]
  show "wf_items (a[i := (a ! i)\<lparr>Count := c\<rparr>]) b" by (rule wf_items_recount [OF wf fi(1) c])
  show "cells (a[i := (a ! i)\<lparr>Count := c\<rparr>]) = (cells a)(f \<mapsto> (a ! i)\<lparr>Count := c\<rparr>)"
    using lookup_update [OF wf_itemsD(2) [OF wf] fi(1), of "(a ! i)\<lparr>Count := c\<rparr>"] fi(2)
    by (simp add: cells_def)
  show "units v (a[i := (a ! i)\<lparr>Count := c\<rparr>]) + units_in v (a ! i) =
      units v a + (if Vnum (a ! i) = v then unat c else 0)"
    using units_update [OF fi(1), of v "(a ! i)\<lparr>Count := c\<rparr>"] by (simp add: units_in_def)
qed

text \<open>Emptying one cell.\<close>

lemma edit_remove:
  assumes wf: "wf_items a b" and i: "findInventorySlot a f = Some i"
  shows "wf_items (remove_nth i a) b" and "cells (remove_nth i a) = (cells a)(f := None)"
    and "units v (remove_nth i a) + units_in v (a ! i) = units v a"
  using wf_items_remove [OF wf] lookup_remove [OF wf_itemsD(2) [OF wf], of i]
    cells_find_Some [OF wf i] units_remove [of i a v]
  by (simp_all add: cells_def)

text \<open>Adding a new instance in an empty cell.\<close>

lemma edit_append:
  assumes wf: "wf_items a b" and w: "WithInventorySlot item s = Inr p"
    and free: "\<not> inventorySlotOccupied a s" and ids: "\<forall>x \<in> set a \<union> set b. ID x \<noteq> ID item"
  shows "wf_items (a @ [p]) b" and "cells (a @ [p]) = (cells a)(s \<mapsto> p)"
    and "units v (a @ [p]) = units v a + units_in v item"
proof -
  have fresh: "\<forall>x \<in> set a. Slot x \<noteq> Slot p"
    using free WithInventorySlot_carried(2) [OF w]
    by (simp add: inventorySlotOccupied_def wf_findInventorySlot_None [OF wf])
  show "wf_items (a @ [p]) b"
    using WithInventorySlot_carried(1,3) [OF w] fresh ids by (intro wf_items_append [OF wf]) simp_all
  show "cells (a @ [p]) = (cells a)(s \<mapsto> p)"
    using lookup_append [OF fresh] WithInventorySlot_carried(2) [OF w] by (simp add: cells_def)
  show "units v (a @ [p]) = units v a + units_in v item"
    using WithInventorySlot_carried(4) [OF w, of v] by simp
qed

lemma same_units_sort [simp]: "same_units a (sortInventoryItems a') = same_units a a'"
  by (simp add: same_units_def)

text \<open>Merging all or part of one cell into another that holds the same kind.\<close>

lemma clone_presence [simp]:
  "i\<lparr>Count := c, Sockets := CloneSockets i, Attributes := CloneAttributes i\<rparr> = i\<lparr>Count := c\<rparr>"
  by (rule item_instance.equality) simp_all

lemma edit_merge_whole:
  assumes wf: "wf_items a b" and i: "findInventorySlot a f = Some i"
    and j: "findInventorySlot a t = Some j" and ne: "f \<noteq> t" and v: "Vnum (a ! j) = Vnum (a ! i)"
    and c: "unat c = unat (Count (a ! j)) + unat (Count (a ! i))" and k: "findInventorySlot (remove_nth i a) t = Some k"
  defines "a' \<equiv> (remove_nth i a)[k := (a ! j)\<lparr>Count := c\<rparr>]"
  shows "wf_items a' b" and "cells a' = (cells a)(f := None, t \<mapsto> (a ! j)\<lparr>Count := c\<rparr>)"
    and "same_units a a'"
proof -
  note fi = cells_find_Some [OF wf i] and fj = cells_find_Some [OF wf j]
  note rm = edit_remove [OF wf i]
  note fk = cells_find_Some [OF rm(1) k]
  have kj: "remove_nth i a ! k = a ! j" using fk(3) rm(2) fj(3) ne by simp
  have "Count (a ! i) \<noteq> 0" using carried_okD(3) [OF wf_carried_nth [OF wf fi(1)]] .
  then have c0: "c \<noteq> 0" using c by (metis add_is_0 unat_0 unat_eq_zero)
  note e = edit_recount [OF rm(1) k c0, unfolded kj]
  show "wf_items a' b" unfolding a'_def by (rule e)
  show "cells a' = (cells a)(f := None, t \<mapsto> (a ! j)\<lparr>Count := c\<rparr>)"
    unfolding a'_def e(2) rm(2) ..
  show "same_units a a'"
  proof (rule same_unitsI)
    show "units w a' = units w a" for w
      using e(3) [of w] rm(3) [of w] v c by (simp add: a'_def units_in_def split: if_split_asm)
  qed
qed

lemma edit_merge_part:
  assumes wf: "wf_items a b" and i: "findInventorySlot a f = Some i"
    and j: "findInventorySlot a t = Some j" and ne: "f \<noteq> t" and v: "Vnum (a ! j) = Vnum (a ! i)"
    and c: "unat c + unat d = unat (Count (a ! i)) + unat (Count (a ! j))" and "c \<noteq> 0" "d \<noteq> 0"
  defines "a' \<equiv> a[i := (a ! i)\<lparr>Count := c\<rparr>, j := (a ! j)\<lparr>Count := d\<rparr>]"
  shows "wf_items a' b"
    and "cells a' = (cells a)(f \<mapsto> (a ! i)\<lparr>Count := c\<rparr>, t \<mapsto> (a ! j)\<lparr>Count := d\<rparr>)"
    and "same_units a a'"
proof -
  note fi = cells_find_Some [OF wf i] and fj = cells_find_Some [OF wf j]
  have ij: "i \<noteq> j" using fi(2) fj(2) ne by auto
  note e1 = edit_recount [OF wf i \<open>c \<noteq> 0\<close>]
  have nj: "a[i := (a ! i)\<lparr>Count := c\<rparr>] ! j = a ! j" using ij by simp
  have "findInventorySlot (a[i := (a ! i)\<lparr>Count := c\<rparr>]) t = Some j"
    using carried_slice.find_at_update_key [OF wf_unequipped [OF wf] wf_itemsD(2) [OF wf] fi(1)]
      wf_unequipped [OF wf] fi(1) j by simp
  note e2 = edit_recount [OF e1(1) this \<open>d \<noteq> 0\<close>, unfolded nj]
  show "wf_items a' b" unfolding a'_def by (rule e2)
  show "cells a' = (cells a)(f \<mapsto> (a ! i)\<lparr>Count := c\<rparr>, t \<mapsto> (a ! j)\<lparr>Count := d\<rparr>)"
    unfolding a'_def e2(2) e1(2) ..
  show "same_units a a'"
  proof (rule same_unitsI)
    show "units w a' = units w a" for w
      using e2(3) [of w] e1(3) [of w] v c by (simp add: a'_def units_in_def split: if_split_asm)
  qed
qed

text \<open>Splitting part of one cell into an empty one.\<close>

lemma edit_split:
  assumes wf: "wf_items (liveInventory r) (liveEquipment r)"
    and i: "findInventorySlot (liveInventory r) f = Some i"
    and free: "findInventorySlot (liveInventory r) t = None"
    and c: "unat c + unat d = unat (Count (liveInventory r ! i))" and "c \<noteq> 0"
    and w: "WithInventorySlot ((liveInventory r ! i)\<lparr>ID := nextSplitItemID r, Count := d\<rparr>) t = Inr p"
  defines "a' \<equiv> (liveInventory r)[i := (liveInventory r ! i)\<lparr>Count := c\<rparr>] @ [p]"
  shows "wf_items a' (liveEquipment r)"
    and "cells a' = (cells (liveInventory r))(f \<mapsto> (liveInventory r ! i)\<lparr>Count := c\<rparr>, t \<mapsto> p)"
    and "p = (liveInventory r ! i)\<lparr>ID := nextSplitItemID r, Count := d, Slot := t\<rparr>"
    and "same_units (liveInventory r) a'"
proof -
  let ?a = "liveInventory r" and ?i = "(liveInventory r ! i)\<lparr>ID := nextSplitItemID r, Count := d\<rparr>"
  note fi = cells_find_Some [OF wf i]
  note e = edit_recount [OF wf i \<open>c \<noteq> 0\<close>]
  have "nextSplitItemID r \<noteq> 0" using w by (auto simp: WithInventorySlot_Inr_iff)
  then have fresh: "\<forall>x \<in> set ?a \<union> set (liveEquipment r). ID x \<noteq> nextSplitItemID r"
    using next_split_id_fresh [OF refl] by blast
  then have ids: "\<forall>x \<in> set (?a[i := (?a ! i)\<lparr>Count := c\<rparr>]) \<union> set (liveEquipment r). ID x \<noteq> ID ?i"
    using set_update_subset_insert [of ?a i "(?a ! i)\<lparr>Count := c\<rparr>"] fi(1) by (auto simp: subset_iff)
  have "\<not> inventorySlotOccupied (?a[i := (?a ! i)\<lparr>Count := c\<rparr>]) t"
    using carried_slice.find_at_update_key [OF wf_unequipped [OF wf] wf_itemsD(2) [OF wf] fi(1)]
      wf_unequipped [OF wf] fi(1) free by (simp add: inventorySlotOccupied_def)
  note ap = edit_append [OF e(1) w this ids]
  show "wf_items a' (liveEquipment r)" unfolding a'_def by (rule ap)
  show "cells a' = (cells ?a)(f \<mapsto> (?a ! i)\<lparr>Count := c\<rparr>, t \<mapsto> p)"
    unfolding a'_def ap(2) e(2) ..
  show "p = (?a ! i)\<lparr>ID := nextSplitItemID r, Count := d, Slot := t\<rparr>"
    using w carried_okD(4,5) [OF wf_carried_nth [OF wf fi(1)]]
    by (intro item_instance.equality) (simp_all add: WithInventorySlot_Inr_iff)
  show "same_units ?a a'"
  proof (rule same_unitsI)
    show "units w a' = units w ?a" for w
      using ap(3) [of w] e(3) [of w] c by (simp add: a'_def units_in_def split: if_split_asm)
  qed
qed

section \<open>Moves on the map of cells\<close>

type_synonym cell_map = "slot_index \<Rightarrow> item_instance option"

definition exchange :: "slot_index \<Rightarrow> slot_index \<Rightarrow> cell_map \<Rightarrow> cell_map" where
  "exchange f t m = m(f := map_option (in_cell f) (m t), t := map_option (in_cell t) (m f))"

text \<open>What is left of a cell after taking \<open>n\<close> units.\<close>

definition take_units :: "u16 \<Rightarrow> item_instance \<Rightarrow> item_instance option" where
  "take_units n i = (if n = Count i then None else Some (i\<lparr>Count := Count i - n\<rparr>))"

definition pour :: "slot_index \<Rightarrow> slot_index \<Rightarrow> u16 \<Rightarrow> item_instance \<Rightarrow> item_instance \<Rightarrow> cell_map \<Rightarrow> cell_map" where
  "pour f t n i j m = m(f := take_units n i, t \<mapsto> j\<lparr>Count := Count j + n\<rparr>)"

text \<open>The contract of moving \<open>n\<close> units from one cell to another under a stack limit.\<close>

definition move_units :: "u64 \<Rightarrow> slot_index \<Rightarrow> slot_index \<Rightarrow> u16 \<Rightarrow> u16 \<Rightarrow> cell_map \<Rightarrow> cell_map" where
  "move_units new_id f t n limit m =
     (case (m f, m t) of
        (None, _) \<Rightarrow> m
      | (Some i, None) \<Rightarrow>
          if n = Count i then exchange f t m
          else m(f := take_units n i, t \<mapsto> i\<lparr>ID := new_id, Count := n, Slot := t\<rparr>)
      | (Some i, Some j) \<Rightarrow>
          if limit = 0 \<or> Vnum j \<noteq> Vnum i then exchange f t m else pour f t n i j m)"

lemma moveInventoryItemFullStack_sat:
  assumes "wf_runtime r" and "f \<noteq> t"
  shows "sat (inv_post (\<lambda>items x. cells items = exchange f t (cells (liveInventory r)) \<and>
      same_units (liveInventory r) items \<and> cells (liveInventory r) f \<noteq> None) r)
    (moveInventoryItemFullStack r f t result)"
  unfolding moveInventoryItemFullStack_def
proof (intro sat_intros)
  note wf = wf_runtime_items [OF assms(1)]
  fix i m
  assume i: "findInventorySlot (liveInventory r) f = Some i"
    and m: "WithInventorySlot (liveInventory r ! i) t = Inr m"
  note fi = cells_find_Some [OF wf i]
  {
    assume t: "findInventorySlot (liveInventory r) t = None"
    note e = edit_move [OF wf i t m]
    show "wf_items (sortInventoryItems ((liveInventory r)[i := m])) (liveEquipment r)"
      using e(1) by simp
    show "cells (sortInventoryItems ((liveInventory r)[i := m])) = exchange f t (cells (liveInventory r)) \<and>
      same_units (liveInventory r) (sortInventoryItems ((liveInventory r)[i := m])) \<and>
      cells (liveInventory r) f \<noteq> None"
      using e fi(3) t cells_find_None [OF wf, of t] by (simp add: exchange_def cells_sort [OF e(1)])
  next
    fix j d n
    assume j: "findInventorySlot (liveInventory r) t = Some j" and d: "d = liveInventory r ! j"
      and "WithInventorySlot d f = Inr n"
    then have n: "WithInventorySlot (liveInventory r ! j) f = Inr n" by simp
    note e = edit_swap [OF wf i j assms(2) m n]
    show "wf_items (sortInventoryItems ((liveInventory r)[i := m, j := n])) (liveEquipment r)"
      using e(1) by simp
    show "cells (sortInventoryItems ((liveInventory r)[i := m, j := n])) = exchange f t (cells (liveInventory r)) \<and>
      same_units (liveInventory r) (sortInventoryItems ((liveInventory r)[i := m, j := n])) \<and>
      cells (liveInventory r) f \<noteq> None"
      using e fi(3) cells_find_Some(3) [OF wf j] by (simp add: exchange_def cells_sort [OF e(1)])
  }
qed (use assms(1) in auto)

lemma merge_whole_sat:
  assumes "wf_runtime r" and i: "findInventorySlot (liveInventory r) f = Some i"
    and j: "findInventorySlot (liveInventory r) t = Some j" and ne: "f \<noteq> t"
    and v: "Vnum (liveInventory r ! j) = Vnum (liveInventory r ! i)"
    and c: "unat c = unat (Count (liveInventory r ! j)) + unat (Count (liveInventory r ! i))"
  shows "sat (inv_post (\<lambda>items x.
      cells items = (cells (liveInventory r))(f := None, t \<mapsto> (liveInventory r ! j)\<lparr>Count := c\<rparr>) \<and>
      same_units (liveInventory r) items) r)
    (merge_whole r t i ((liveInventory r ! j)\<lparr>Count := c\<rparr>) result)"
proof -
  note wf = wf_runtime_items [OF assms(1)]
  note fi = cells_find_Some [OF wf i] and rm = edit_remove [OF wf i]
  obtain k where k: "findInventorySlot (remove_nth i (liveInventory r)) t = Some k"
    using cells_find_None [OF rm(1), of t] cells_find_Some(3) [OF wf j] rm(2) ne by auto
  note e = edit_merge_whole [OF wf i j ne v c k]
  show ?thesis
    unfolding merge_whole_def Let_def
    using fi(1) k e assms(1)
    by (auto simp: cells_sort [OF e(1)] intro!: sat_intros)
qed

lemma merge_part_sat:
  assumes "wf_runtime r" and i: "findInventorySlot (liveInventory r) f = Some i"
    and j: "findInventorySlot (liveInventory r) t = Some j" and ne: "f \<noteq> t"
    and v: "Vnum (liveInventory r ! j) = Vnum (liveInventory r ! i)"
    and c: "unat c + unat d = unat (Count (liveInventory r ! i)) + unat (Count (liveInventory r ! j))"
      "c \<noteq> 0" "d \<noteq> 0"
  shows "sat (inv_post (\<lambda>items x. cells items = (cells (liveInventory r))
        (f \<mapsto> (liveInventory r ! i)\<lparr>Count := c\<rparr>, t \<mapsto> (liveInventory r ! j)\<lparr>Count := d\<rparr>) \<and>
      same_units (liveInventory r) items) r)
    (merge_part r i j ((liveInventory r ! i)\<lparr>Count := c\<rparr>) ((liveInventory r ! j)\<lparr>Count := d\<rparr>) result)"
  unfolding merge_part_def
  using edit_merge_part [OF wf_runtime_items [OF assms(1)] i j ne v c] assms(1)
  by (auto simp: cells_sort [OF edit_merge_part(1) [OF wf_runtime_items [OF assms(1)] i j ne v c]]
      intro!: sat_intros)

lemma split_stack_sat:
  assumes "wf_runtime r" and i: "findInventorySlot (liveInventory r) f = Some i"
    and free: "findInventorySlot (liveInventory r) t = None"
    and c: "unat c + unat d = unat (Count (liveInventory r ! i))" "c \<noteq> 0"
  shows "sat (inv_post (\<lambda>items x. cells items = (cells (liveInventory r))
        (f \<mapsto> (liveInventory r ! i)\<lparr>Count := c\<rparr>,
         t \<mapsto> (liveInventory r ! i)\<lparr>ID := nextSplitItemID r, Count := d, Slot := t\<rparr>) \<and>
      same_units (liveInventory r) items) r)
    (split_stack r i t d (liveInventory r ! i) ((liveInventory r ! i)\<lparr>Count := c\<rparr>) result)"
  unfolding split_stack_def
proof (intro sat_intros)
  fix p
  assume w: "WithInventorySlot ((liveInventory r ! i)\<lparr>ID := nextSplitItemID r, Count := d\<rparr>) t = Inr p"
  note e = edit_split [OF wf_runtime_items [OF assms(1)] i free c w]
  let ?a = "(liveInventory r)[i := (liveInventory r ! i)\<lparr>Count := c\<rparr>] @ [p]"
  show "wf_items (sortInventoryItems ?a) (liveEquipment r)" using e(1) by simp
  show "cells (sortInventoryItems ?a) = (cells (liveInventory r))
        (f \<mapsto> (liveInventory r ! i)\<lparr>Count := c\<rparr>,
         t \<mapsto> (liveInventory r ! i)\<lparr>ID := nextSplitItemID r, Count := d, Slot := t\<rparr>) \<and>
      same_units (liveInventory r) (sortInventoryItems ?a)"
    using e by (simp add: cells_sort [OF e(1)])
qed (rule assms(1))

lemma canForceSameVnumSwap_cells:
  assumes "wf_items a b" and "canForceSameVnumSwap a f t"
  shows "cells a f \<noteq> None \<and> cells a t \<noteq> None"
  using assms
  by (auto simp: canForceSameVnumSwap_def countInventorySlotOccupancy_eq split: if_split_asm)

lemma sat_inv_post_mono:
  "sat (inv_post P r) x \<Longrightarrow> (\<And>items y. P items y \<Longrightarrow> P' items y) \<Longrightarrow> sat (inv_post P' r) x"
  by (erule sat_mono) (auto elim: inv_post_mono)

lemma MoveInventoryItem_sat:
  assumes "wf_runtime r"
  shows "sat (inv_post (\<lambda>items x. cells items = exchange f t (cells (liveInventory r)) \<and>
      same_units (liveInventory r) items \<and> cells (liveInventory r) f \<noteq> None) r) (MoveInventoryItem r f t)"
  unfolding MoveInventoryItem_def
  by (intro sat_intros moveInventoryItemFullStack_sat assms)

lemma ucast_merge:
  fixes a b c :: u16
  assumes "\<not> ucast c < (ucast a + ucast b :: u32)"
  shows "(ucast (ucast a + ucast b :: u32) :: u16) = a + b" and "unat (a + b) = unat a + unat b"
proof -
  have le: "unat a + unat b \<le> unat c" using assms ucast_u32_add_gt [of c a b] by simp
  then show u: "unat (a + b) = unat a + unat b" by (rule unat_u16_sum_le)
  have "unat (ucast a + ucast b :: u32) = unat a + unat b"
    using le unsigned_less [of c, where ?'a = nat] by (subst unat_add_no_wrap) simp_all
  then have "unat (ucast (ucast a + ucast b :: u32) :: u16) = unat a + unat b"
    using le unsigned_less [of c, where ?'a = nat]
    by (subst unsigned_ucast_eq) (simp add: take_bit_nat_eq_self_iff)
  with u show "(ucast (ucast a + ucast b :: u32) :: u16) = a + b"
    by (metis word_unat_eq_iff)
qed

lemma unat_sum_nonzero:
  fixes c :: u16
  shows "unat c = x + unat d \<Longrightarrow> d \<noteq> 0 \<Longrightarrow> c \<noteq> 0"
  using unat_eq_zero [of d] by auto

lemma MoveInventoryItemCountBounded_sat:
  assumes "wf_runtime r"
  shows "sat (inv_post (\<lambda>items x.
      cells items = move_units (nextSplitItemID r) f t n limit (cells (liveInventory r)) \<and>
      same_units (liveInventory r) items \<and> cells (liveInventory r) f \<noteq> None) r)
    (MoveInventoryItemCountBounded r f t n limit)" (is "sat (inv_post ?P r) _")
proof -
  let ?a = "liveInventory r" and ?m = "move_units (nextSplitItemID r) f t n limit (cells (liveInventory r))"
  note wf = wf_runtime_items [OF assms]
  have full: "sat (inv_post ?P r) (moveInventoryItemFullStack r f t x)"
    if "f \<noteq> t" "cells ?a f \<noteq> None \<Longrightarrow> ?m = exchange f t (cells ?a)" for x
    using moveInventoryItemFullStack_sat [OF assms that(1), of x]
    by (rule sat_inv_post_mono) (use that(2) in auto)
  show ?thesis
    unfolding MoveInventoryItemCountBounded_def
  proof ((intro sat_intros full; (assumption)?), goal_cases)
    case (1 i)
    then show ?case
      using canForceSameVnumSwap_cells [OF wf, of f t] by (auto simp: move_units_def)
  next
    case (2 i v va)
    then show ?case
      using cells_find_None [OF wf, of t] cells_find_Some(3) [OF wf, of f i]
      by (simp add: move_units_def)
  next
    case (3 i v va j vb)
    then show ?case
      using cells_find_Some(3) [OF wf, of t j] cells_find_Some(3) [OF wf, of f i]
      by (simp add: move_units_def)
  next
    case (4 i v va j vb vc vd)
    note ci = cells_find_Some(3) [OF wf, of f i] and cj = cells_find_Some(3) [OF wf, of t j]
    have c: "ucast vc = Count vb + n" "unat (Count vb + n) = unat (Count vb) + unat n"
      using 4 ucast_merge [of limit "Count vb" n] by simp_all
    have m: "?m = (cells ?a)(f := None, t \<mapsto> (?a ! j)\<lparr>Count := Count vb + n\<rparr>)"
      using 4 ci cj by (simp add: move_units_def pour_def take_units_def)
    have "sat (inv_post (\<lambda>items x. cells items = (cells ?a)(f := None, t \<mapsto> (?a ! j)\<lparr>Count := Count vb + n\<rparr>) \<and>
        same_units ?a items) r) (merge_whole r t i ((?a ! j)\<lparr>Count := Count vb + n\<rparr>) v)"
      using 4 c(2) by (intro merge_whole_sat [OF assms]) simp_all
    with 4 c m ci show ?case by (auto elim: sat_inv_post_mono)
  next
    case (5 i v va vb)
    note ci = cells_find_Some(3) [OF wf, of f i] and ct = cells_find_None [OF wf, of t]
    have n: "unat (Count va - n) = unat (Count va) - unat n" "Count va - n \<noteq> 0" "n \<le> Count va"
      using 5 unat_minus_count [of n "Count va"] by simp_all
    then have sum: "unat (Count va - n) + unat n = unat (Count va)"
      by (simp add: word_le_nat_alt)
    have m: "?m = (cells ?a)(f \<mapsto> (?a ! i)\<lparr>Count := Count va - n\<rparr>,
         t \<mapsto> (?a ! i)\<lparr>ID := nextSplitItemID r, Count := n, Slot := t\<rparr>)"
      using 5 ci ct by (simp add: move_units_def take_units_def)
    have "sat (inv_post (\<lambda>items x. cells items = (cells ?a)(f \<mapsto> (?a ! i)\<lparr>Count := Count va - n\<rparr>,
         t \<mapsto> (?a ! i)\<lparr>ID := nextSplitItemID r, Count := n, Slot := t\<rparr>) \<and> same_units ?a items) r)
        (split_stack r i t n (?a ! i) ((?a ! i)\<lparr>Count := Count va - n\<rparr>) v)"
      using 5 n sum by (intro split_stack_sat [OF assms]) simp_all
    with 5 m ci show ?case by (auto elim: sat_inv_post_mono)
  next
    case (6 i v va vb j vc vd ve)
    note ci = cells_find_Some(3) [OF wf, of f i] and cj = cells_find_Some(3) [OF wf, of t j]
    have c: "ucast vd = Count vc + n" "unat (Count vc + n) = unat (Count vc) + unat n"
      using 6 ucast_merge [of limit "Count vc" n] by simp_all
    have n: "unat (Count va - n) = unat (Count va) - unat n" "Count va - n \<noteq> 0" "unat n \<le> unat (Count va)"
      using 6 unat_minus_count [of n "Count va"] by (simp_all add: word_le_nat_alt [symmetric])
    have m: "?m = (cells ?a)(f \<mapsto> (?a ! i)\<lparr>Count := Count va - n\<rparr>, t \<mapsto> (?a ! j)\<lparr>Count := Count vc + n\<rparr>)"
      using 6 ci cj by (simp add: move_units_def pour_def take_units_def)
    have "sat (inv_post (\<lambda>items x. cells items =
          (cells ?a)(f \<mapsto> (?a ! i)\<lparr>Count := Count va - n\<rparr>, t \<mapsto> (?a ! j)\<lparr>Count := Count vc + n\<rparr>) \<and>
        same_units ?a items) r)
        (merge_part r i j ((?a ! i)\<lparr>Count := Count va - n\<rparr>) ((?a ! j)\<lparr>Count := Count vc + n\<rparr>) v)"
      using 6 n c(2) unat_sum_nonzero [OF c(2)] by (intro merge_part_sat [OF assms]) simp_all
    with 6 c m ci show ?case by (auto elim: sat_inv_post_mono)
  qed
qed

text \<open>How much a bounded move takes: all of the source, or what fills a stack of the same kind.\<close>

definition bounded_amount :: "u16 \<Rightarrow> item_instance \<Rightarrow> item_instance option \<Rightarrow> u16" where
  "bounded_amount limit i oj =
     (case oj of
        Some j \<Rightarrow> if limit \<noteq> 0 \<and> Vnum j = Vnum i \<and> limit - Count j < Count i
                  then limit - Count j else Count i
      | None \<Rightarrow> Count i)"

definition move_bounded :: "slot_index \<Rightarrow> slot_index \<Rightarrow> u16 \<Rightarrow> cell_map \<Rightarrow> cell_map" where
  "move_bounded f t limit m =
     (case m f of None \<Rightarrow> m | Some i \<Rightarrow> move_units 0 f t (bounded_amount limit i (m t)) limit m)"

lemma fill_amount:
  fixes n a b c :: u16
  assumes "b < c" and "n = (if c - b < a then c - b else a)" and "n \<noteq> 0"
  shows "unat (b + n) = unat b + unat n" and "unat n \<le> unat a" and "b + n \<noteq> 0"
    and "n \<noteq> a \<Longrightarrow> a - n \<noteq> 0 \<and> unat (a - n) = unat a - unat n"
proof -
  have cb: "unat (c - b) = unat c - unat b" using assms(1) by (intro unat_sub_le) simp
  have na: "unat n \<le> unat a" "unat n \<le> unat (c - b)"
    using assms(2) by (auto simp: word_less_nat_alt not_less split: if_split_asm)
  then have "unat b + unat n \<le> unat c" using cb assms(1) by (simp add: word_less_nat_alt)
  then show s: "unat (b + n) = unat b + unat n" by (rule unat_u16_sum_le)
  show "unat n \<le> unat a" by (rule na)
  show "b + n \<noteq> 0" using s assms(3) unat_eq_zero [of n] by auto
  show "a - n \<noteq> 0 \<and> unat (a - n) = unat a - unat n" if "n \<noteq> a"
  proof -
    have "n < a" using that na(1) by (simp add: word_less_nat_alt le_neq_implies_less word_unat_eq_iff)
    then show ?thesis using unat_minus_count [of n a] by simp
  qed
qed

lemma MoveInventoryItemBounded_sat:
  assumes "wf_runtime r"
  shows "sat (inv_post (\<lambda>items x. cells items = move_bounded f t limit (cells (liveInventory r)) \<and>
      same_units (liveInventory r) items \<and> cells (liveInventory r) f \<noteq> None) r)
    (MoveInventoryItemBounded r f t limit)" (is "sat (inv_post ?P r) _")
proof -
  let ?a = "liveInventory r" and ?m = "move_bounded f t limit (cells (liveInventory r))"
  note wf = wf_runtime_items [OF assms]
  have full: "sat (inv_post ?P r) (moveInventoryItemFullStack r f t x)"
    if "f \<noteq> t" "cells ?a f \<noteq> None \<Longrightarrow> ?m = exchange f t (cells ?a)" for x
    using moveInventoryItemFullStack_sat [OF assms that(1), of x]
    by (rule sat_inv_post_mono) (use that(2) in auto)
  show ?thesis
    unfolding MoveInventoryItemBounded_def
  proof ((intro sat_intros full; (assumption)?), goal_cases)
    case 1
    then show ?case
      using canForceSameVnumSwap_cells [OF wf, of f t]
      by (auto simp: move_bounded_def move_units_def bounded_amount_def)
  next
    case (2 i v va)
    then show ?case
      using cells_find_None [OF wf, of t] cells_find_Some(3) [OF wf, of f i]
      by (simp add: move_bounded_def move_units_def bounded_amount_def)
  next
    case (3 i v va j vb)
    then show ?case
      using cells_find_Some(3) [OF wf, of t j] cells_find_Some(3) [OF wf, of f i]
      by (simp add: move_bounded_def move_units_def bounded_amount_def)
  next
    case (4 i v va j vb vc n vd)
    note ci = cells_find_Some(3) [OF wf, of f i] and cj = cells_find_Some(3) [OF wf, of t j]
    have h: "Count vb < limit" "n = (if limit - Count vb < Count va then limit - Count vb else Count va)" "n \<noteq> 0"
      using 4(13-16) by (simp_all add: not_le)
    note n = fill_amount [OF h]
    have m: "?m = (cells ?a)(f := None, t \<mapsto> (?a ! j)\<lparr>Count := Count vb + n\<rparr>)"
      using 4 ci cj by (auto simp: move_bounded_def bounded_amount_def move_units_def pour_def take_units_def)
    have "sat (inv_post (\<lambda>items x. cells items = (cells ?a)(f := None, t \<mapsto> (?a ! j)\<lparr>Count := Count vb + n\<rparr>) \<and>
        same_units ?a items) r) (merge_whole r t i ((?a ! j)\<lparr>Count := Count vb + n\<rparr>) v)"
      using 4 n(1) by (intro merge_whole_sat [OF assms]) simp_all
    with 4 m ci show ?case by (auto elim: sat_inv_post_mono)
  next
    case (5 i v va j vb vc n vd ve)
    note ci = cells_find_Some(3) [OF wf, of f i] and cj = cells_find_Some(3) [OF wf, of t j]
    have h: "Count vb < limit" "n = (if limit - Count vb < Count va then limit - Count vb else Count va)" "n \<noteq> 0"
      using 5(13-16) by (simp_all add: not_le)
    note n = fill_amount [OF h]
    have m: "?m = (cells ?a)(f \<mapsto> (?a ! i)\<lparr>Count := Count va - n\<rparr>, t \<mapsto> (?a ! j)\<lparr>Count := Count vb + n\<rparr>)"
      using 5 ci cj
      by (auto simp: move_bounded_def bounded_amount_def move_units_def pour_def take_units_def split: if_split_asm)
    have "sat (inv_post (\<lambda>items x. cells items =
          (cells ?a)(f \<mapsto> (?a ! i)\<lparr>Count := Count va - n\<rparr>, t \<mapsto> (?a ! j)\<lparr>Count := Count vb + n\<rparr>) \<and>
        same_units ?a items) r)
        (merge_part r i j ((?a ! i)\<lparr>Count := Count va - n\<rparr>) ((?a ! j)\<lparr>Count := Count vb + n\<rparr>) v)"
      using 5 n by (intro merge_part_sat [OF assms]) (simp_all add: not_le)
    with 5 m ci show ?case by (auto elim: sat_inv_post_mono)
  qed
qed

section \<open>Drops\<close>

lemma dropInventoryItem_sat:
  assumes "wf_runtime r"
  shows "sat (inv_post (\<lambda>items x. \<exists>i. cells (liveInventory r) slot = Some i \<and> \<not> Locked i \<and> 0 < n \<and> n \<le> Count i \<and>
      cells items = (cells (liveInventory r))(slot := take_units n i) \<and>
      (\<forall>v. units v items + units_in v (i\<lparr>Count := n\<rparr>) = units v (liveInventory r))) r)
    (dropInventoryItem r slot n t)" (is "sat (inv_post ?P r) _")
  unfolding dropInventoryItem_def cloneItemInstances_id
proof ((intro sat_intros assms; (assumption)?), goal_cases)
  note wf = wf_runtime_items [OF assms]
  { case (1 x i j)
    then show ?case using edit_remove(1) [OF wf] cells_find_Some(1) [OF wf] by simp next
    case (2 x i j)
    then have i: "findInventorySlot (liveInventory r) slot = Some i" by simp
    note fi = cells_find_Some [OF wf i] and e = edit_remove [OF wf i]
    have "j\<lparr>Count := n\<rparr> = j" using 2 by simp
    moreover have "Count j \<noteq> 0" using 2 carried_okD(3) [OF wf_carried_nth [OF wf fi(1)]] by simp
    ultimately show ?case
      using 2 fi e by (simp add: cells_sort [OF e(1)] take_units_def word_neq_0_conv [symmetric])
  next
    case (3 x i j c v)
    then have i: "findInventorySlot (liveInventory r) slot = Some i" by simp
    have "Count j - n \<noteq> 0" using 3 unat_minus_count [of n "Count j"] by simp
    then show ?case using 3 edit_recount(1) [OF wf i] by simp
  next
    case (4 x i j c v)
    then have i: "findInventorySlot (liveInventory r) slot = Some i" by simp
    have le: "n \<le> Count j" "n < Count j" using 4 by simp_all
    have c: "Count j - n \<noteq> 0" "unat (Count j - n) + unat n = unat (Count j)" "0 < n"
      using unat_minus_count [OF le(1)] le 4(1) by (simp_all add: word_le_nat_alt word_neq_0_conv [symmetric])
    note fi = cells_find_Some [OF wf i] and e = edit_recount [OF wf i c(1)]
    have u: "units w ((liveInventory r)[i := v]) + units_in w (j\<lparr>Count := n\<rparr>) = units w (liveInventory r)" for w
      using 4(5,13,14) e(3) [of w] c(2) by (simp add: units_in_def split: if_split_asm)
    show ?case
      using 4(5,6,12-14) fi(3) e(2) c(3) le u cells_sort [OF e(1)]
      by (intro exI [of _ j]) (simp add: take_units_def)
  }
qed

section \<open>Filling stacks\<close>

text \<open>Counts only grow, and nothing else about a cell changes.\<close>

definition grown :: "cell_map \<Rightarrow> cell_map \<Rightarrow> bool" where
  "grown m m' \<longleftrightarrow>
     (\<forall>s. case m s of None \<Rightarrow> m' s = None
         | Some i \<Rightarrow> \<exists>c. Count i \<le> c \<and> m' s = Some (i\<lparr>Count := c\<rparr>))"

lemma grown_refl [simp]: "grown m m"
  unfolding grown_def
proof
  fix s
  show "case m s of None \<Rightarrow> m s = None | Some i \<Rightarrow> \<exists>c. Count i \<le> c \<and> m s = Some (i\<lparr>Count := c\<rparr>)"
    by (cases "m s") (auto intro!: exI [of _ "Count (the (m s))"])
qed

lemma grown_trans: "grown m m' \<Longrightarrow> grown m' m'' \<Longrightarrow> grown m m''"
  unfolding grown_def
proof
  fix s
  assume a: "\<forall>s. case m s of None \<Rightarrow> m' s = None | Some i \<Rightarrow> \<exists>c. Count i \<le> c \<and> m' s = Some (i\<lparr>Count := c\<rparr>)"
    and b: "\<forall>s. case m' s of None \<Rightarrow> m'' s = None | Some i \<Rightarrow> \<exists>c. Count i \<le> c \<and> m'' s = Some (i\<lparr>Count := c\<rparr>)"
  show "case m s of None \<Rightarrow> m'' s = None | Some i \<Rightarrow> \<exists>c. Count i \<le> c \<and> m'' s = Some (i\<lparr>Count := c\<rparr>)"
  proof (cases "m s")
    case None
    with a [rule_format, of s] b [rule_format, of s] show ?thesis by simp
  next
    case (Some i)
    with a [rule_format, of s] obtain c where c: "Count i \<le> c" "m' s = Some (i\<lparr>Count := c\<rparr>)" by auto
    with b [rule_format, of s] obtain d where "c \<le> d" "m'' s = Some (i\<lparr>Count := d\<rparr>)" by auto
    with Some c(1) show ?thesis by (auto intro: order_trans)
  qed
qed

lemma grown_put: "m s = Some i \<Longrightarrow> Count i \<le> c \<Longrightarrow> grown m (m(s \<mapsto> i\<lparr>Count := c\<rparr>))"
  using grown_refl [of m] by (simp add: grown_def split: option.split) auto

lemma grown_None: "grown m m' \<Longrightarrow> m' s = None \<longleftrightarrow> m s = None"
  unfolding grown_def by (drule spec [of _ s]) (auto split: option.splits)

lemma grown_Some:
  "grown m m' \<Longrightarrow> m s = Some i \<Longrightarrow> \<exists>c. Count i \<le> c \<and> m' s = Some (i\<lparr>Count := c\<rparr>)"
  unfolding grown_def by (drule spec [of _ s]) simp

lemma fill_stack:
  fixes a r limit :: u16
  defines "room \<equiv> limit - a"
  defines "add \<equiv> (if r < room then r else room)"
  assumes "a \<le> limit"
  shows "unat (a + add) = unat a + unat add" and "unat add \<le> unat r" and "a \<le> a + add"
    and "a + add \<le> limit" and "unat (r - add) + unat add = unat r" and "a \<noteq> 0 \<Longrightarrow> a + add \<noteq> 0"
proof -
  have room: "unat room = unat limit - unat a" using assms(3) unfolding room_def by (rule unat_sub_le)
  have ar: "unat add \<le> unat r" "unat add \<le> unat room"
    by (auto simp: add_def word_less_nat_alt)
  have le: "unat a + unat add \<le> unat limit"
    using room ar(2) assms(3) by (simp add: word_le_nat_alt)
  then show s: "unat (a + add) = unat a + unat add" by (rule unat_u16_sum_le)
  show "unat add \<le> unat r" by (rule ar)
  show "a \<le> a + add" by (simp add: word_le_nat_alt s)
  show "a + add \<le> limit" using le by (simp add: word_le_nat_alt s)
  have "add \<le> r" using ar(1) by (simp add: word_le_nat_alt)
  then show "unat (r - add) + unat add = unat r" using ar(1) by (simp add: unat_sub_le)
  show "a + add \<noteq> 0" if "a \<noteq> 0"
    using s that unat_eq_zero [of a] by auto
qed

lemma distribute_loop_post:
  assumes "distribute_loop limit indices cloned changed remaining = Some (cloned', changed', remaining')"
    and "wf_items cloned b"
    and "\<And>i. i \<in> set indices \<Longrightarrow> i < length cloned \<and> Vnum (cloned ! i) = v \<and> Count (cloned ! i) \<le> limit"
  shows "wf_items cloned' b \<and> grown (cells cloned) (cells cloned') \<and>
    units v cloned' + unat remaining' = units v cloned + unat remaining \<and>
    (\<forall>w. w \<noteq> v \<longrightarrow> units w cloned' = units w cloned)"
  using assms
proof (induction indices arbitrary: cloned changed remaining)
  case Nil
  then show ?case by simp
next
  case (Cons index js)
  show ?case
  proof (cases "remaining = 0 \<or> limit - Count (cloned ! index) = 0")
    case True
    show ?thesis
    proof (cases "remaining = 0")
      case True
      with Cons.prems(1,2) show ?thesis by simp
    next
      case False
      with True Cons.prems(1)
      have "distribute_loop limit js cloned changed remaining = Some (cloned', changed', remaining')"
        by (simp add: Let_def)
      then show ?thesis by (rule Cons.IH [OF _ Cons.prems(2)]) (rule Cons.prems(3), simp)
    qed
  next
    case False
    define item where "item = cloned ! index"
    define n where "n = (if remaining < limit - Count item then remaining else limit - Count item)"
    define cloned1 where "cloned1 = cloned[index := item\<lparr>Count := Count item + n\<rparr>]"
    have idx: "index < length cloned" "Vnum item = v" "Count item \<le> limit"
      using Cons.prems(3) by (simp_all add: item_def)
    note f = fill_stack [OF idx(3), of remaining, folded n_def]
    have i: "findInventorySlot cloned (Slot item) = Some index"
      using wf_findInventorySlot_Some [OF Cons.prems(2)] idx(1) by (simp add: item_def)
    have "Count item \<noteq> 0"
      using carried_okD(3) [OF wf_carried_nth [OF Cons.prems(2) idx(1)]] by (simp add: item_def)
    with f(6) have c0: "Count item + n \<noteq> 0" by simp
    note e = edit_recount [OF Cons.prems(2) i c0, folded item_def, folded cloned1_def]
    have "cells cloned (Slot item) = Some item"
      using cells_find_Some(3) [OF Cons.prems(2) i] by (simp add: item_def)
    then have g: "grown (cells cloned) (cells cloned1)"
      unfolding e(2) using f(3) by (rule grown_put)
    have u: "units v cloned1 = units v cloned + unat n"
      "w \<noteq> v \<Longrightarrow> units w cloned1 = units w cloned" for w
      using e(3) [of v] e(3) [of w] f(1) idx(2) by (simp_all add: units_in_def)
    have val: "Validate (item\<lparr>Count := Count item + n\<rparr>) = None"
      and rest: "distribute_loop limit js cloned1 (changed @ [item\<lparr>Count := Count item + n\<rparr>]) (remaining - n) =
        Some (cloned', changed', remaining')"
      using Cons.prems(1) False
      by (auto simp: Let_def item_def [symmetric] n_def [symmetric] cloned1_def [symmetric] split: if_split_asm)
    have all: "i < length cloned1 \<and> Vnum (cloned1 ! i) = v \<and> Count (cloned1 ! i) \<le> limit" if "i \<in> set js" for i
      using Cons.prems(3) [of i] that f(4) idx by (auto simp: cloned1_def nth_list_update)
    have "wf_items cloned' b \<and> grown (cells cloned1) (cells cloned') \<and>
      units v cloned' + unat remaining' = units v cloned1 + unat (remaining - n) \<and>
      (\<forall>w. w \<noteq> v \<longrightarrow> units w cloned' = units w cloned1)"
      using rest e(1) all by (rule Cons.IH)
    with g u f(5) show ?thesis by (auto intro: grown_trans)
  qed
qed

lemma findPartiallyMergeable_set:
  "i \<in> set (findPartiallyMergeableInventoryIndices items v limit) \<Longrightarrow>
   i < length items \<and> Vnum (items ! i) = v \<and> Count (items ! i) < limit"
  by (auto simp: findPartiallyMergeableInventoryIndices_def partially_mergeable_def split: if_split_asm)

lemma sortInventoryItems_Nil [simp]: "sortInventoryItems a = [] \<longleftrightarrow> a = []"
  by (metis mset_sortInventoryItems mset_zero_iff)

lemma distribute_post:
  assumes "distributeMerchantGrantAcrossExistingStacks items v n limit = (items', changes, remaining, d)"
    and "wf_items items b"
  shows "wf_items items' b" and "grown (cells items) (cells items')"
    and "d \<Longrightarrow> units v items' + unat remaining = units v items + unat n"
    and "w \<noteq> v \<Longrightarrow> units w items' = units w items"
proof -
  have "wf_items items' b \<and> grown (cells items) (cells items') \<and>
    (d \<longrightarrow> units v items' + unat remaining = units v items + unat n) \<and>
    (\<forall>w. w \<noteq> v \<longrightarrow> units w items' = units w items)"
  proof (cases "n = 0 \<or> findPartiallyMergeableInventoryIndices items v limit = [] \<or>
      distribute_loop limit (findPartiallyMergeableInventoryIndices items v limit) items [] n = None")
    case True
    with assms show ?thesis
      by (auto simp: distributeMerchantGrantAcrossExistingStacks_def Let_def split: if_split_asm)
  next
    case False
    then obtain c ch where l: "distribute_loop limit (findPartiallyMergeableInventoryIndices items v limit)
        items [] n = Some (c, ch, remaining)" and c: "items' = c"
      using assms(1) by (auto simp: distributeMerchantGrantAcrossExistingStacks_def Let_def)
    have "wf_items c b \<and> grown (cells items) (cells c) \<and>
        units v c + unat remaining = units v items + unat n \<and> (\<forall>w. w \<noteq> v \<longrightarrow> units w c = units w items)"
      using findPartiallyMergeable_set [of _ items v limit]
      by (intro distribute_loop_post [OF l assms(2)]) (auto dest: less_imp_le)
    with c show ?thesis by simp
  qed
  then show "wf_items items' b" and "grown (cells items) (cells items')"
    and "d \<Longrightarrow> units v items' + unat remaining = units v items + unat n"
    and "w \<noteq> v \<Longrightarrow> units w items' = units w items"
    by blast+
qed

lemma distribute_ids:
  assumes "wf_items items b" "wf_items items' b" and "grown (cells items) (cells items')"
    and "\<forall>x \<in> set items. ID x \<noteq> k"
  shows "\<forall>x \<in> set items'. ID x \<noteq> k"
proof
  fix x assume "x \<in> set items'"
  then have x: "cells items' (Slot x) = Some x"
    unfolding cells_def lookup_Some_iff [OF wf_itemsD(2) [OF assms(2)]] by simp
  show "ID x \<noteq> k"
  proof (cases "cells items (Slot x)")
    case None
    with x grown_None [OF assms(3), of "Slot x"] show ?thesis by simp
  next
    case (Some y)
    from grown_Some [OF assms(3) this] x have "ID x = ID y" by auto
    moreover have "y \<in> set items"
      using Some unfolding cells_def lookup_Some_iff [OF wf_itemsD(2) [OF assms(1)]] by simp
    ultimately show ?thesis using assms(4) by simp
  qed
qed

lemma findMergeable_loop_post:
  assumes "findMergeable_loop items v n limit js best = Some i"
    and "\<And>j. j \<in> set js \<Longrightarrow> j < length items"
    and "\<And>j. best = Some j \<Longrightarrow> j < length items \<and> Vnum (items ! j) = v \<and> \<not> Locked (items ! j) \<and>
      unat (Count (items ! j)) + unat n \<le> unat limit"
  shows "i < length items \<and> Vnum (items ! i) = v \<and> \<not> Locked (items ! i) \<and>
      unat (Count (items ! i)) + unat n \<le> unat limit"
  using assms
proof (induction js arbitrary: best)
  case Nil
  then show ?case by simp
next
  case (Cons j js)
  let ?item = "items ! j"
  show ?case
  proof (cases "(Equipped ?item \<or> Locked ?item \<or> Vnum ?item \<noteq> v \<or> Count ?item = 0) \<or>
      (ucast limit :: u32) < ucast (Count ?item) + ucast n")
    case True
    then have "findMergeable_loop items v n limit js best = Some i"
      using Cons.prems(1) by (auto simp: Let_def split: if_split_asm)
    then show ?thesis by (rule Cons.IH) (use Cons.prems in auto)
  next
    case False
    let ?best = "case best of None \<Rightarrow> Some j | Some m \<Rightarrow> if Slot ?item < Slot (items ! m) then Some j else best"
    have l: "findMergeable_loop items v n limit js ?best = Some i"
      using Cons.prems(1) False by (simp add: Let_def)
    have b: "k < length items \<and> Vnum (items ! k) = v \<and> \<not> Locked (items ! k) \<and>
      unat (Count (items ! k)) + unat n \<le> unat limit" if "?best = Some k" for k
      using that Cons.prems(2) [of j] Cons.prems(3) [of k] False ucast_u32_add_gt [of limit "Count ?item" n]
      by (auto split: option.split_asm if_split_asm)
    show ?thesis by (rule Cons.IH [OF l _ b]) (rule Cons.prems(2), simp)
  qed
qed

lemma findMergeable_post:
  assumes "findMergeableInventoryIndex items v n limit = Some i"
  shows "i < length items" and "Vnum (items ! i) = v" and "\<not> Locked (items ! i)"
    and "unat (Count (items ! i) + n) = unat (Count (items ! i)) + unat n"
proof -
  have l: "findMergeable_loop items v n limit [0..<length items] None = Some i"
    using assms by (simp add: findMergeableInventoryIndex_def split: if_split_asm)
  have p: "i < length items \<and> Vnum (items ! i) = v \<and> \<not> Locked (items ! i) \<and>
      unat (Count (items ! i)) + unat n \<le> unat limit"
    by (rule findMergeable_loop_post [OF l]) simp_all
  then show "i < length items" and "Vnum (items ! i) = v" and "\<not> Locked (items ! i)" by simp_all
  show "unat (Count (items ! i) + n) = unat (Count (items ! i)) + unat n"
    using p by (intro unat_u16_sum_le [of _ _ limit]) simp
qed

section \<open>Placing and picking up\<close>

text \<open>The contract of receiving an instance: stacks grow and at most one new cell appears.\<close>

definition received :: "cell_map \<Rightarrow> u64 \<Rightarrow> u32 \<Rightarrow> cell_map \<Rightarrow> bool" where
  "received m new_id v m' \<longleftrightarrow>
     grown m m' \<or> (\<exists>m1 s p. grown m m1 \<and> m s = None \<and> m' = m1(s \<mapsto> p) \<and> Slot p = s \<and> ID p = new_id \<and> Vnum p = v)"

lemma place_item_post:
  assumes "place_item items preferred item = Some (items', p)" and wf: "wf_items items b"
    and ids: "\<forall>x \<in> set items \<union> set b. ID x \<noteq> ID item"
  shows "wf_items items' b" and "units v items' = units v items + units_in v item"
    and "cells items (Slot p) = None" and "cells items' = (cells items)(Slot p \<mapsto> p)"
    and "ID p = ID item" and "Vnum p = Vnum item"
proof -
  obtain s where s: "placement_slot items preferred = Some s" and w: "WithInventorySlot item s = Inr p"
    and i: "items' = sortInventoryItems (items @ [p])"
    using assms(1) by (auto simp: place_item_def split: option.split_asm sum.split_asm)
  have free: "\<not> inventorySlotOccupied items s"
    using s nextFreeInventorySlot_SomeD(2) [of items s] by (auto simp: placement_slot_def split: if_split_asm)
  note e = edit_append [OF wf w free ids]
  show "wf_items items' b" using e(1) by (simp add: i)
  show "units v items' = units v items + units_in v item" using e(3) by (simp add: i)
  show "cells items' = (cells items)(Slot p \<mapsto> p)"
    using e(2) WithInventorySlot_carried(2) [OF w] by (simp add: i cells_sort [OF e(1)])
  show "cells items (Slot p) = None"
    using free cells_occupied [OF wf] WithInventorySlot_carried(2) [OF w] by simp
  show "ID p = ID item" by (rule WithInventorySlot_carried(3) [OF w])
  show "Vnum p = Vnum item" using w by (auto simp: WithInventorySlot_Inr_iff)
qed

lemma units_in_split:
  "units_in v (item\<lparr>Count := c\<rparr>) = (if Vnum item = v then unat c else 0)"
  by (simp add: units_in_def)

lemma inv_post_ok_conj:
  "wf_runtime r \<Longrightarrow> wf_items items (liveEquipment r) \<and> P items x \<Longrightarrow>
   inv_post P r (r\<lparr>liveInventory := items\<rparr>) (Some x)"
  by (simp add: inv_post_ok)

lemma received_place:
  assumes "place_item items preferred item = Some (items', p)" and "wf_items items b"
    and "\<forall>x \<in> set items \<union> set b. ID x \<noteq> ID item" and "grown m (cells items)"
  shows "received m (ID item) (Vnum item) (cells items')"
  using place_item_post(3-6) [OF assms(1-3)] assms(4) grown_None [OF assms(4)]
  unfolding received_def by metis

lemma distribute_and_place:
  assumes d: "distributeMerchantGrantAcrossExistingStacks a (Vnum item) (Count item) limit =
      (a', changes, remaining, True)" and wf: "wf_items a b"
    and ids: "\<forall>x \<in> set a \<union> set b. ID x \<noteq> ID item"
    and p: "place_item a' preferred (item\<lparr>Count := remaining\<rparr>) = Some (a'', p)"
  shows "wf_items a'' b \<and> (\<forall>v. units v a'' = units v a + units_in v item) \<and>
    received (cells a) (ID item) (Vnum item) (cells a'')"
proof -
  note e = distribute_post [OF d wf]
  have ids': "\<forall>x \<in> set a' \<union> set b. ID x \<noteq> ID (item\<lparr>Count := remaining\<rparr>)"
    using distribute_ids [OF wf e(1,2), of "ID item"] ids by auto
  note f = place_item_post [OF p e(1) ids']
  have "units v a'' = units v a + units_in v item" for v
    using f(2) [of v] e(3) e(4) [of v] by (auto simp: units_in_def)
  then show ?thesis
    using f(1) received_place [OF p e(1) ids' e(2)] by simp
qed

lemma PickupGroundItem_sat:
  assumes "wf_runtime r"
  shows "sat (inv_post (\<lambda>items x.
      (\<forall>v. units v items = units v (liveInventory r) + units_in v item) \<and>
      received (cells (liveInventory r)) (ID item) (Vnum item) (cells items)) r)
    (PickupGroundItem r item preferred limit)" (is "sat (inv_post ?P r) _")
proof -
  let ?a = "liveInventory r" and ?b = "liveEquipment r"
  note wf = wf_runtime_items [OF assms] and [sat_intros del] = inv_post_ok
  have ids: "\<forall>x \<in> set ?a \<union> set ?b. ID x \<noteq> ID item"
    if "\<not> (ID item = 0 \<or> c)" "\<not> (d \<or> hasItemInstanceID ?a (ID item) \<or> hasItemInstanceID ?b (ID item))" for c d
    using that hasItemInstanceID_False [of "ID item"] by auto
  have whole: "wf_items items ?b \<and> ?P items x"
    if "place_item ?a preferred item = Some (items, placed)" "\<forall>x \<in> set ?a \<union> set ?b. ID x \<noteq> ID item"
    for items placed x
    using place_item_post [OF that(1) wf that(2)] received_place [OF that(1) wf that(2) grown_refl] by simp
  show ?thesis
    unfolding PickupGroundItem_def cloneItemInstances_id Let_def
  proof ((intro sat_intros inv_post_ok_conj assms; (assumption)?), goal_cases)
    case (1 a' x changes y remaining d)
    then have d: "distributeMerchantGrantAcrossExistingStacks ?a (Vnum item) (Count item) limit =
        (a', changes, 0, True)" by simp
    note e = distribute_post [OF d wf]
    have "units v a' = units v ?a + units_in v item" for v
      using e(3) e(4) [of v] by (auto simp: units_in_def)
    with e(1,2) show ?case by (simp add: received_def cells_sort [OF e(1)])
  next
    case (2 a' x changes y remaining d v items placed)
    then show ?case using distribute_and_place [OF _ wf ids [OF 2(1,4)]] by simp
  next
    case (3 a' x changes y remaining d v items placed)
    then show ?case using whole ids by blast
  next
    case (4 i)
    have i: "findInventorySlot ?a (Slot (?a ! i)) = Some i"
      using wf_findInventorySlot_Some [OF wf] findMergeable_post(1) 4 by simp
    note m = findMergeable_post [OF 4(6)]
    have c: "Count (?a ! i) + Count item \<noteq> 0" using m(4) 4(1) unat_eq_zero [of "Count item"] by auto
    note e = edit_recount [OF wf i c]
    have "units v (?a[i := (?a ! i)\<lparr>Count := Count (?a ! i) + Count item\<rparr>]) = units v ?a + units_in v item" for v
      using e(3) [of v] m(2,4) by (simp add: units_in_def split: if_split_asm)
    moreover have "grown (cells ?a) (cells (?a[i := (?a ! i)\<lparr>Count := Count (?a ! i) + Count item\<rparr>]))"
      unfolding e(2) using cells_find_Some(3) [OF wf i] m(4)
      by (intro grown_put) (simp_all add: word_le_nat_alt)
    ultimately show ?case using e(1) by (simp add: received_def cells_sort [OF e(1)])
  next
    case (5 v items placed)
    then show ?case using whole ids by blast
  qed
qed

section \<open>Properties\<close>

lemma inv_postD:
  "sat (inv_post P r) x \<Longrightarrow> x = (r', res) \<Longrightarrow>
   if res = None then r' = r
   else r' = r\<lparr>liveInventory := liveInventory r'\<rparr> \<and> wf_runtime r' \<and> P (liveInventory r') (the res)"
  by (auto simp: sat_def inv_post_def split: option.split_asm)

lemma inv_post_SomeD:
  assumes "sat (inv_post P r) x" and "x = (r', Some y)"
  shows "r' = r\<lparr>liveInventory := liveInventory r'\<rparr>" and "wf_runtime r'" and "P (liveInventory r') y"
  using assms by (simp_all add: sat_def inv_post_def)

text \<open>
  C18: moving units between carried cells. On a well-formed runtime a counted move either
  leaves everything alone or does to the map of cells exactly what \<open>move_units\<close> says: pour into
  a stack of the same kind, exchange with another kind, relocate a whole stack or split a part
  off under a fresh id. No unit of any item kind appears or disappears, no count wraps around,
  and the runtime stays well-formed.
\<close>

theorem MoveInventoryItemCountBounded_refines:
  assumes "wf_runtime r" and "MoveInventoryItemCountBounded r f t n limit = (r', res)"
  shows "if res = None then r' = r
    else r' = r\<lparr>liveInventory := liveInventory r'\<rparr> \<and> wf_runtime r' \<and>
      cells (liveInventory r') = move_units (nextSplitItemID r) f t n limit (cells (liveInventory r)) \<and>
      (\<forall>v. units v (liveInventory r') = units v (liveInventory r))"
  using inv_postD [OF MoveInventoryItemCountBounded_sat [OF assms(1)] assms(2)]
  by (auto simp: same_units_def split: if_splits)

theorem MoveInventoryItemCountBounded_refines_witness:
  "map_option Count (cells (liveInventory (fst (MoveInventoryItemCountBounded sample_runtime 4 5 2 200))) 5) = Some 4"
proof -
  obtain r' res where a: "MoveInventoryItemCountBounded sample_runtime 4 5 2 200 = (r', res)" by fastforce
  have "ok (MoveInventoryItemCountBounded sample_runtime 4 5 2 200)"
    by (simp add: MoveInventoryItemCountBounded_def countInventorySlotOccupancy_def findInventorySlot_def
        zero_item_def Let_def Validate_def merge_part_def equipment_slot_defs word_less_nat_alt)
  with a have "res \<noteq> None" by simp
  moreover have "cells (liveInventory sample_runtime) 4 = Some (zero_item\<lparr>ID := 7, Vnum := 27, Count := 3, Slot := 4\<rparr>)"
    and "cells (liveInventory sample_runtime) 5 = Some (zero_item\<lparr>ID := 8, Vnum := 27, Count := 2, Slot := 5\<rparr>)"
    by (simp_all add: cells_def lookup_def)
  ultimately show ?thesis
    using MoveInventoryItemCountBounded_refines [OF sample_runtime_wf a]
    by (simp add: a move_units_def pour_def)
qed

text \<open>
  Whole-stack moves. A plain move exchanges the two cells; a bounded move pours as much of
  the source as fits the stack limit into a stack of the same kind, and exchanges otherwise.
  Both keep every unit and the invariant, and change nothing when they refuse.
\<close>

theorem whole_stack_moves_refine:
  assumes "wf_runtime r"
  shows "(case MoveInventoryItem r f t of (r', res) \<Rightarrow>
      if res = None then r' = r
      else r' = r\<lparr>liveInventory := liveInventory r'\<rparr> \<and> wf_runtime r' \<and>
        cells (liveInventory r') = exchange f t (cells (liveInventory r)) \<and>
        (\<forall>v. units v (liveInventory r') = units v (liveInventory r))) \<and>
    (case MoveInventoryItemBounded r f t limit of (r', res) \<Rightarrow>
      if res = None then r' = r
      else r' = r\<lparr>liveInventory := liveInventory r'\<rparr> \<and> wf_runtime r' \<and>
        cells (liveInventory r') = move_bounded f t limit (cells (liveInventory r)) \<and>
        (\<forall>v. units v (liveInventory r') = units v (liveInventory r)))"
  using inv_postD [OF MoveInventoryItem_sat [OF assms] prod.collapse [symmetric], of f t]
    inv_postD [OF MoveInventoryItemBounded_sat [OF assms] prod.collapse [symmetric], of f t limit]
  by (simp add: same_units_def case_prod_beta split: if_split_asm)

theorem whole_stack_moves_refine_witness:
  "wf_runtime (fst (MoveInventoryItem sample_runtime 4 9)) \<and>
   wf_runtime (fst (MoveInventoryItemBounded sample_runtime 4 5 200))"
  using whole_stack_moves_refine [OF sample_runtime_wf, of 4 9 0]
    whole_stack_moves_refine [OF sample_runtime_wf, of 4 5 200] sample_runtime_wf
  by (auto split: prod.splits if_splits)

text \<open>
  Dropping. A drop refuses without a trace or takes exactly the requested units out of one
  unlocked cell, which disappears when nothing is left; all other cells stay.
\<close>

theorem DropInventoryItem_exact:
  assumes "wf_runtime r" and "dropInventoryItem r slot n t = (r', res)"
  shows "if res = None then r' = r
    else r' = r\<lparr>liveInventory := liveInventory r'\<rparr> \<and> wf_runtime r' \<and>
      (\<exists>i. cells (liveInventory r) slot = Some i \<and> \<not> Locked i \<and> 0 < n \<and> n \<le> Count i \<and>
        cells (liveInventory r') = (cells (liveInventory r))(slot := take_units n i) \<and>
        (\<forall>v. units v (liveInventory r') + units_in v (i\<lparr>Count := n\<rparr>) = units v (liveInventory r)))"
  using inv_postD [OF dropInventoryItem_sat [OF assms(1)] assms(2)] .

theorem DropInventoryItem_exact_witness:
  "\<exists>i. cells (liveInventory sample_runtime) 4 = Some i \<and>
     cells (liveInventory (fst (dropInventoryItem sample_runtime 4 2 zero_template))) 4 = take_units 2 i"
proof -
  obtain r' res where a: "dropInventoryItem sample_runtime 4 2 zero_template = (r', res)" by fastforce
  have "ok (dropInventoryItem sample_runtime 4 2 zero_template)"
    by (simp add: dropInventoryItem_def countInventorySlotOccupancy_def findInventorySlot_def zero_item_def
        Let_def Validate_def equipment_slot_defs)
  with DropInventoryItem_exact [OF sample_runtime_wf a] a show ?thesis by auto
qed

text \<open>
  C27: picking up. The units of every kind grow by exactly what lay on the ground: existing
  stacks of that kind fill up, at most one new cell appears with the instance's own id, and every
  other cell keeps its instance; a refusal changes nothing.
\<close>

theorem PickupGroundItem_exact:
  assumes "wf_runtime r" and "PickupGroundItem r item preferred limit = (r', res)"
  shows "if res = None then r' = r
    else r' = r\<lparr>liveInventory := liveInventory r'\<rparr> \<and> wf_runtime r' \<and>
      (\<forall>v. units v (liveInventory r') = units v (liveInventory r) + units_in v item) \<and>
      received (cells (liveInventory r)) (ID item) (Vnum item) (cells (liveInventory r'))"
  using inv_postD [OF PickupGroundItem_sat [OF assms(1)] assms(2)] by (simp split: if_splits)

theorem PickupGroundItem_exact_witness:
  "units 27 (liveInventory (fst (PickupGroundItem sample_runtime
     (zero_item\<lparr>ID := 40, Vnum := 27, Count := 6\<rparr>) 0 200))) = 11"
proof -
  let ?i = "zero_item\<lparr>ID := 40, Vnum := 27, Count := 6\<rparr>"
  obtain r' res where a: "PickupGroundItem sample_runtime ?i 0 200 = (r', res)" by fastforce
  have "ok (PickupGroundItem sample_runtime ?i 0 200)"
    by (simp add: PickupGroundItem_def zero_item_def Let_def Validate_def equipment_slot_defs
        hasDuplicateInventorySlotOccupancy_def hasItemInstanceID_def findMergeableInventoryIndex_def
        CarriedInventorySlotCount_def upt_rec word_less_nat_alt)
  with PickupGroundItem_exact [OF sample_runtime_wf a] a show ?thesis
    by (auto simp: units_in_def zero_item_def)
qed

end
