(* ===== verification/Player_Equip.thy ===== *)
theory Player_Equip
  imports Player_Inventory
begin

text \<open>
  Worn equipment of \<open>internal/player/runtime.go\<close>: equipping from a carried cell, unequipping
  into a free one, swapping with an occupied wear slot, and the point effects a template authors
  for wearing it.
\<close>

section \<open>Operations\<close>

record equip_replace_result =
  UnequippedItem :: item_instance
  EquippedItem :: item_instance
  RemovedEffect :: "point_change_result option"
  AppliedEffect :: "point_change_result option"

definition templateAuthoredForEquipSlot :: "template \<Rightarrow> equipment_slot \<Rightarrow> bool" where
  "templateAuthoredForEquipSlot t equipSlot =
     (if \<not> Valid equipSlot \<or> \<not> ValidTemplate t \<or> tEquipSlot t = [] then False
      else case ParseEquipmentSlot (tEquipSlot t) of
        None \<Rightarrow> False
      | Some templateSlot \<Rightarrow> templateSlot = equipSlot)"

text \<open>The instance as it is worn.\<close>

definition as_worn :: "item_instance \<Rightarrow> equipment_slot \<Rightarrow> item_instance" where
  "as_worn sourceItem equipSlot =
     sourceItem\<lparr>Slot := 0, Equipped := True, EquipSlot := equipSlot,
       Sockets := CloneSockets sourceItem, Attributes := CloneAttributes sourceItem\<rparr>"

definition equipItem :: "runtime \<Rightarrow> slot_index \<Rightarrow> equipment_slot \<Rightarrow> (runtime, item_instance) outcome" where
  "equipItem r from equipSlot =
     (if \<not> Valid equipSlot \<or> equipmentSlotOccupied (liveEquipment r) equipSlot then (r, None)
      else case findInventorySlot (liveInventory r) from of
        None \<Rightarrow> (r, None)
      | Some fromIndex \<Rightarrow>
          let sourceItem = liveInventory r ! fromIndex; item = as_worn sourceItem equipSlot in
          if Locked sourceItem then (r, None)
          else if Validate item \<noteq> None then (r, None)
          else
            (r\<lparr>liveInventory := sortInventoryItems (removeInventoryIndex (liveInventory r) fromIndex),
               liveEquipment := sortEquipmentItems (liveEquipment r @ [item])\<rparr>, Some item))"

definition EquipItem :: "runtime \<Rightarrow> slot_index \<Rightarrow> equipment_slot \<Rightarrow> (runtime, item_instance) outcome" where
  "EquipItem r from equipSlot = equipItem r from equipSlot"

definition EquipItemWithTemplate ::
    "runtime \<Rightarrow> slot_index \<Rightarrow> equipment_slot \<Rightarrow> template \<Rightarrow> (runtime, item_instance) outcome" where
  "EquipItemWithTemplate r from equipSlot t =
     (if \<not> CanEquip t (EquipmentEligibilitySubject r) equipSlot then (r, None)
      else case findInventorySlot (liveInventory r) from of
        None \<Rightarrow> (r, None)
      | Some fromIndex \<Rightarrow>
          let item = liveInventory r ! fromIndex in
          if Vnum item \<noteq> tVnum t \<or> Count item = 0 \<or> tMaxCount t < Count item then (r, None)
          else equipItem r from equipSlot)"

definition CanReplaceOccupiedEquipItem :: "runtime \<Rightarrow> slot_index \<Rightarrow> equipment_slot \<Rightarrow> bool" where
  "CanReplaceOccupiedEquipItem r from equipSlot =
     (if \<not> Valid equipSlot \<or> countEquipmentSlotOccupancy (liveEquipment r) equipSlot \<noteq> 1 then False
      else if countInventorySlotOccupancy (liveInventory r) from \<noteq> 1 then False
      else case (findInventorySlot (liveInventory r) from, findEquipmentSlot (liveEquipment r) equipSlot) of
        (Some fromIndex, Some equipIndex) \<Rightarrow>
          (let sourceItem = liveInventory r ! fromIndex; wornItem = liveEquipment r ! equipIndex in
           if Locked sourceItem \<or> Locked wornItem then False
           else case WithInventorySlot wornItem from of
             Inl _ \<Rightarrow> False
           | Inr unequippedItem \<Rightarrow>
               if Validate (sourceItem\<lparr>Slot := 0, Equipped := True, EquipSlot := equipSlot\<rparr>) \<noteq> None
               then False
               else Validate unequippedItem = None)
      | _ \<Rightarrow> False)"

definition replaceOccupiedEquipItem ::
    "runtime \<Rightarrow> slot_index \<Rightarrow> equipment_slot \<Rightarrow> (runtime, equip_replace_result) outcome" where
  "replaceOccupiedEquipItem r from equipSlot =
     (if \<not> Valid equipSlot \<or> countEquipmentSlotOccupancy (liveEquipment r) equipSlot \<noteq> 1 then (r, None)
      else if countInventorySlotOccupancy (liveInventory r) from \<noteq> 1 then (r, None)
      else case findInventorySlot (liveInventory r) from of
        None \<Rightarrow> (r, None)
      | Some fromIndex \<Rightarrow>
        (case findEquipmentSlot (liveEquipment r) equipSlot of
           None \<Rightarrow> (r, None)
         | Some equipIndex \<Rightarrow>
          (let sourceItem = liveInventory r ! fromIndex; wornItem = liveEquipment r ! equipIndex in
           if Locked sourceItem \<or> Locked wornItem then (r, None)
           else case WithInventorySlot wornItem from of
             Inl _ \<Rightarrow> (r, None)
           | Inr unequippedItem \<Rightarrow>
               let equippedItem = as_worn sourceItem equipSlot in
               if Validate equippedItem \<noteq> None then (r, None)
               else if Validate unequippedItem \<noteq> None then (r, None)
               else
                 (r\<lparr>liveInventory := sortInventoryItems ((liveInventory r)[fromIndex := unequippedItem]),
                    liveEquipment := sortEquipmentItems ((liveEquipment r)[equipIndex := equippedItem])\<rparr>,
                  Some \<lparr>UnequippedItem = unequippedItem, EquippedItem = equippedItem,
                        RemovedEffect = None, AppliedEffect = None\<rparr>))))"

definition ReplaceOccupiedEquipItem ::
    "runtime \<Rightarrow> slot_index \<Rightarrow> equipment_slot \<Rightarrow> (runtime, equip_replace_result) outcome" where
  "ReplaceOccupiedEquipItem r from equipSlot = replaceOccupiedEquipItem r from equipSlot"

definition UnequipItem :: "runtime \<Rightarrow> equipment_slot \<Rightarrow> slot_index \<Rightarrow> (runtime, item_instance) outcome" where
  "UnequipItem r equipSlot to =
     (if \<not> Valid equipSlot \<or> inventorySlotOccupied (liveInventory r) to \<or>
         countEquipmentSlotOccupancy (liveEquipment r) equipSlot \<noteq> 1 then (r, None)
      else case findEquipmentSlot (liveEquipment r) equipSlot of
        None \<Rightarrow> (r, None)
      | Some equipIndex \<Rightarrow>
          if Locked (liveEquipment r ! equipIndex) then (r, None)
          else case WithInventorySlot (liveEquipment r ! equipIndex) to of
            Inl _ \<Rightarrow> (r, None)
          | Inr item \<Rightarrow>
              (r\<lparr>liveInventory := sortInventoryItems (liveInventory r @ [item]),
                 liveEquipment := sortEquipmentItems (removeInventoryIndex (liveEquipment r) equipIndex)\<rparr>,
               Some item))"

definition UnequipItemWithTemplate ::
    "runtime \<Rightarrow> equipment_slot \<Rightarrow> slot_index \<Rightarrow> template \<Rightarrow> (runtime, item_instance) outcome" where
  "UnequipItemWithTemplate r equipSlot to t =
     (if \<not> templateAuthoredForEquipSlot t equipSlot \<or> \<not> CanUseTemplate r t \<or> tIrremovable t \<or>
         countEquipmentSlotOccupancy (liveEquipment r) equipSlot \<noteq> 1 then (r, None)
      else case findEquipmentSlot (liveEquipment r) equipSlot of
        None \<Rightarrow> (r, None)
      | Some equipIndex \<Rightarrow>
          let item = liveEquipment r ! equipIndex in
          if Vnum item \<noteq> tVnum t \<or> Count item = 0 \<or> tMaxCount t < Count item then (r, None)
          else UnequipItem r equipSlot to)"

section \<open>Point effects of worn items\<close>

definition removeEquipTemplateEffectDelta ::
    "runtime \<Rightarrow> point_effect \<Rightarrow> (runtime, point_change_result) outcome" where
  "removeEquipTemplateEffectDelta r effect =
     (if sint (ePointDelta effect) = min_i32 then (r, None)
      else ApplyPointDelta r (ePointType effect) (ePointIndex effect) (- ePointDelta effect))"

definition ApplyEquipTemplateEffect ::
    "runtime \<Rightarrow> template \<Rightarrow> equipment_slot \<Rightarrow> (runtime, point_change_result) outcome" where
  "ApplyEquipTemplateEffect r t equipSlot =
     (if \<not> templateAuthoredForEquipSlot t equipSlot then (r, None)
      else case tEquipEffect t of
        None \<Rightarrow> (r, None)
      | Some effect \<Rightarrow>
          (case findEquipmentSlot (liveEquipment r) equipSlot of
             None \<Rightarrow> (r, None)
           | Some equippedIndex \<Rightarrow>
               (let equippedItem = liveEquipment r ! equippedIndex in
                if Vnum equippedItem \<noteq> tVnum t \<or> Count equippedItem = 0 then (r, None)
                else if Validate equippedItem \<noteq> None then (r, None)
                else ApplyPointDelta r (ePointType effect) (ePointIndex effect) (ePointDelta effect))))"

definition RemoveEquipTemplateEffect ::
    "runtime \<Rightarrow> template \<Rightarrow> equipment_slot \<Rightarrow> (runtime, point_change_result) outcome" where
  "RemoveEquipTemplateEffect r t equipSlot =
     (if \<not> templateAuthoredForEquipSlot t equipSlot then (r, None)
      else case tEquipEffect t of
        None \<Rightarrow> (r, None)
      | Some effect \<Rightarrow>
          (case findEquipmentSlot (liveEquipment r) equipSlot of
             None \<Rightarrow> (r, None)
           | Some equippedIndex \<Rightarrow>
               (let equippedItem = liveEquipment r ! equippedIndex in
                if Vnum equippedItem \<noteq> tVnum t \<or> Count equippedItem = 0 then (r, None)
                else if Validate equippedItem \<noteq> None then (r, None)
                else removeEquipTemplateEffectDelta r effect)))"

definition RemoveEquipTemplateEffectFromItem ::
    "runtime \<Rightarrow> template \<Rightarrow> equipment_slot \<Rightarrow> item_instance \<Rightarrow> (runtime, point_change_result) outcome" where
  "RemoveEquipTemplateEffectFromItem r t equipSlot item =
     (if \<not> templateAuthoredForEquipSlot t equipSlot then (r, None)
      else case tEquipEffect t of
        None \<Rightarrow> (r, None)
      | Some effect \<Rightarrow>
          if Vnum item \<noteq> tVnum t \<or> Count item = 0 then (r, None)
          else if Validate item \<noteq> None then (r, None)
          else removeEquipTemplateEffectDelta r effect)"

text \<open>
  The swap with effects: guards, the swap itself, then removing the old effect and applying the
  new one, each with a rollback of items and points.
\<close>

definition swap_effects :: "runtime \<Rightarrow> runtime \<Rightarrow> equipment_slot \<Rightarrow> template \<Rightarrow> template \<Rightarrow>
    equip_replace_result \<Rightarrow> (runtime, equip_replace_result) outcome" where
  "swap_effects r r1 equipSlot newTemplate previousTemplate result =
     (let rollback = (\<lambda>r'. r'\<lparr>liveInventory := liveInventory r, liveEquipment := liveEquipment r,
                             livePoints := livePoints r\<rparr>);
          step1 = (if tEquipEffect previousTemplate = None then (r1, Some result)
                   else case RemoveEquipTemplateEffectFromItem r1 previousTemplate equipSlot
                               (UnequippedItem result) of
                     (r2, None) \<Rightarrow> (rollback r2, None)
                   | (r2, Some removed) \<Rightarrow> (r2, Some (result\<lparr>RemovedEffect := Some removed\<rparr>))) in
      case step1 of
        (r2, None) \<Rightarrow> (r2, None)
      | (r2, Some result) \<Rightarrow>
          if tEquipEffect newTemplate = None then (r2, Some result)
          else case ApplyEquipTemplateEffect r2 newTemplate equipSlot of
            (r3, None) \<Rightarrow> (rollback r3, None)
          | (r3, Some applied) \<Rightarrow> (r3, Some (result\<lparr>AppliedEffect := Some applied\<rparr>)))"

definition ReplaceOccupiedEquipItemWithTemplates ::
    "runtime \<Rightarrow> slot_index \<Rightarrow> equipment_slot \<Rightarrow> template \<Rightarrow> template \<Rightarrow>
     (runtime, equip_replace_result) outcome" where
  "ReplaceOccupiedEquipItemWithTemplates r from equipSlot newTemplate previousTemplate =
     (if \<not> CanEquip newTemplate (EquipmentEligibilitySubject r) equipSlot then (r, None)
      else if tVnum previousTemplate = 0 \<or> \<not> ValidTemplate previousTemplate \<or>
              \<not> templateAuthoredForEquipSlot previousTemplate equipSlot then (r, None)
      else if tIrremovable previousTemplate then (r, None)
      else case findInventorySlot (liveInventory r) from of
        None \<Rightarrow> (r, None)
      | Some fromIndex \<Rightarrow>
        (let source = liveInventory r ! fromIndex in
         if Vnum source \<noteq> tVnum newTemplate \<or> Count source = 0 \<or> tMaxCount newTemplate < Count source
         then (r, None)
         else case findEquipmentSlot (liveEquipment r) equipSlot of
           None \<Rightarrow> (r, None)
         | Some equipIndex \<Rightarrow>
           (let worn = liveEquipment r ! equipIndex in
            if Vnum worn \<noteq> tVnum previousTemplate \<or> Count worn = 0 \<or>
               tMaxCount previousTemplate < Count worn then (r, None)
            else case replaceOccupiedEquipItem r from equipSlot of
              (r1, None) \<Rightarrow> (r1, None)
            | (r1, Some result) \<Rightarrow> swap_effects r r1 equipSlot newTemplate previousTemplate result)))"

section \<open>Wear cells of the legacy combined namespace\<close>

definition Unique1ItemUseWearIndex :: u16 where "Unique1ItemUseWearIndex = 7"
definition Unique2ItemUseWearIndex :: u16 where "Unique2ItemUseWearIndex = 8"

definition Unique1ItemUseWireCell :: slot_index where
  "Unique1ItemUseWireCell = CarriedInventorySlotCount + Unique1ItemUseWearIndex"

definition Unique2ItemUseWireCell :: slot_index where
  "Unique2ItemUseWireCell = CarriedInventorySlotCount + Unique2ItemUseWearIndex"

definition ownedWornItemUseEquipSlot :: "slot_index \<Rightarrow> equipment_slot option" where
  "ownedWornItemUseEquipSlot slot =
     (if slot = Unique1ItemUseWireCell then Some EquipmentSlotUnique1
      else if slot = Unique2ItemUseWireCell then Some EquipmentSlotUnique2
      else None)"

definition OwnedWornItemUseWearIndex :: "slot_index \<Rightarrow> u16 option" where
  "OwnedWornItemUseWearIndex slot =
     (if slot = Unique1ItemUseWireCell then Some Unique1ItemUseWearIndex
      else if slot = Unique2ItemUseWireCell then Some Unique2ItemUseWearIndex
      else None)"

definition IsOwnedWornItemUseCell :: "slot_index \<Rightarrow> bool" where
  "IsOwnedWornItemUseCell slot \<longleftrightarrow> ownedWornItemUseEquipSlot slot \<noteq> None"

section \<open>Gear steps\<close>

text \<open>
  The postcondition of the gear operations: a refusal changes nothing; a success changes carried
  items, worn items and points only, keeps the runtime well-formed and satisfies \<open>P\<close>.
\<close>

definition gear_post :: "(runtime \<Rightarrow> 'a \<Rightarrow> bool) \<Rightarrow> runtime \<Rightarrow> runtime \<Rightarrow> 'a option \<Rightarrow> bool" where
  "gear_post P r r' res \<longleftrightarrow>
     (case res of None \<Rightarrow> r' = r
      | Some x \<Rightarrow> r' = r\<lparr>liveInventory := liveInventory r', liveEquipment := liveEquipment r',
                       livePoints := livePoints r'\<rparr> \<and> wf_runtime r' \<and> P r' x)"

lemma gear_post_fail [sat_intros]: "gear_post P r r None"
  by (simp add: gear_post_def)

lemma gear_post_items [sat_intros]:
  "wf_runtime r \<Longrightarrow>
   wf_items a b \<and> P (r\<lparr>liveInventory := a, liveEquipment := b\<rparr>) x \<Longrightarrow>
   gear_post P r (r\<lparr>liveInventory := a, liveEquipment := b\<rparr>) (Some x)"
  by (simp add: gear_post_def wf_runtime_def)

lemma gear_postD:
  "sat (gear_post P r) x \<Longrightarrow> x = (r', res) \<Longrightarrow>
   if res = None then r' = r
   else r' = r\<lparr>liveInventory := liveInventory r', liveEquipment := liveEquipment r',
               livePoints := livePoints r'\<rparr> \<and> wf_runtime r' \<and> P r' (the res)"
  by (auto simp: sat_def gear_post_def split: option.split_asm)

lemma gear_post_SomeD:
  assumes "sat (gear_post P r) x" and "x = (r', Some y)"
  shows "r' = r\<lparr>liveInventory := liveInventory r', liveEquipment := liveEquipment r',
               livePoints := livePoints r'\<rparr>" and "wf_runtime r'" and "P r' y"
  using assms by (simp_all add: sat_def gear_post_def)

lemma gear_post_mono:
  "sat (gear_post P r) x \<Longrightarrow> (\<And>r' y. P r' y \<Longrightarrow> P' r' y) \<Longrightarrow> sat (gear_post P' r) x"
  by (simp add: sat_def gear_post_def split: option.split_asm)

lemma as_worn_simps [simp]:
  "ID (as_worn i e) = ID i" "Vnum (as_worn i e) = Vnum i" "Count (as_worn i e) = Count i"
  "Locked (as_worn i e) = Locked i"
  "EquipSlot (as_worn i e) = e" "Slot (as_worn i e) = 0" "Equipped (as_worn i e)"
  "units_in v (as_worn i e) = units_in v i"
  by (simp_all add: as_worn_def units_in_def)

lemma as_worn_ok: "Validate (as_worn i e) = None \<Longrightarrow> worn_ok (as_worn i e)"
  by (simp add: worn_ok_def)

lemma as_worn_valid: "carried_ok i \<Longrightarrow> Validate (as_worn i e) = None \<longleftrightarrow> Valid e"
  by (auto simp: carried_ok_def Validate_None_iff)

definition total_units :: "u32 \<Rightarrow> runtime \<Rightarrow> nat" where
  "total_units v r = units v (liveInventory r) + units v (liveEquipment r)"

text \<open>Exchanging a carried cell and a wear slot, either of which may be empty.\<close>

lemma edit_equip:
  assumes wf: "wf_items a b" and i: "findInventorySlot a f = Some i"
    and free: "\<not> equipmentSlotOccupied b e" and v: "Validate (as_worn (a ! i) e) = None"
  shows "wf_items (remove_nth i a) (b @ [as_worn (a ! i) e])"
    and "cells (remove_nth i a) = (cells a)(f := None)"
    and "worn (b @ [as_worn (a ! i) e]) = (worn b)(e \<mapsto> as_worn (a ! i) e)"
    and "units w (remove_nth i a) + units w (b @ [as_worn (a ! i) e]) = units w a + units w b"
proof -
  note fi = cells_find_Some [OF wf i]
  have fresh: "\<forall>x \<in> set b. EquipSlot x \<noteq> EquipSlot (as_worn (a ! i) e)"
    using free by (simp add: equipmentSlotOccupied_def wf_findEquipmentSlot_None [OF wf])
  show "wf_items (remove_nth i a) (b @ [as_worn (a ! i) e])"
    by (rule wf_items_equip [OF wf fi(1) as_worn_ok [OF v] _ fresh]) simp
  show "cells (remove_nth i a) = (cells a)(f := None)" by (rule edit_remove(2) [OF wf i])
  show "worn (b @ [as_worn (a ! i) e]) = (worn b)(e \<mapsto> as_worn (a ! i) e)"
    using lookup_append [OF fresh] by (simp add: worn_def)
  show "units w (remove_nth i a) + units w (b @ [as_worn (a ! i) e]) = units w a + units w b"
    using edit_remove(3) [OF wf i, of w] by simp
qed

lemma edit_unequip:
  assumes wf: "wf_items a b" and i: "findEquipmentSlot b e = Some i"
    and free: "\<not> inventorySlotOccupied a t" and w: "WithInventorySlot (b ! i) t = Inr m"
  shows "wf_items (a @ [m]) (remove_nth i b)" and "cells (a @ [m]) = (cells a)(t \<mapsto> m)"
    and "worn (remove_nth i b) = (worn b)(e := None)"
    and "units v (a @ [m]) + units v (remove_nth i b) = units v a + units v b"
proof -
  note fi = worn_find_Some [OF wf i] and m = WithInventorySlot_carried [OF w]
  have fresh: "\<forall>x \<in> set a. Slot x \<noteq> Slot m"
    using free m(2) by (simp add: inventorySlotOccupied_def wf_findInventorySlot_None [OF wf])
  show "wf_items (a @ [m]) (remove_nth i b)" by (rule wf_items_unequip [OF wf fi(1) m(1,3) fresh])
  show "cells (a @ [m]) = (cells a)(t \<mapsto> m)" using lookup_append [OF fresh] m(2) by (simp add: cells_def)
  show "worn (remove_nth i b) = (worn b)(e := None)"
    using lookup_remove [OF wf_itemsD(4) [OF wf] fi(1)] fi(2) by (simp add: worn_def)
  show "units v (a @ [m]) + units v (remove_nth i b) = units v a + units v b"
    using units_remove [OF fi(1), of v] m(4) [of v] by simp
qed

lemma mset_nth_split: "i < length a \<Longrightarrow> mset a = add_mset (a ! i) (mset (remove_nth i a))"
  by (simp add: mset_remove_nth)

lemma edit_gear_swap:
  assumes wf: "wf_items a b" and i: "findInventorySlot a f = Some i"
    and j: "findEquipmentSlot b e = Some j" and v: "Validate (as_worn (a ! i) e) = None"
    and w: "WithInventorySlot (b ! j) f = Inr m"
  shows "wf_items (a[i := m]) (b[j := as_worn (a ! i) e])" and "cells (a[i := m]) = (cells a)(f \<mapsto> m)"
    and "worn (b[j := as_worn (a ! i) e]) = (worn b)(e \<mapsto> as_worn (a ! i) e)"
    and "units u (a[i := m]) + units u (b[j := as_worn (a ! i) e]) = units u a + units u b"
proof -
  note fi = cells_find_Some [OF wf i] and fj = worn_find_Some [OF wf j] and m = WithInventorySlot_carried [OF w]
  let ?n = "as_worn (a ! i) e"
  have A: "set (a[i := m]) \<subseteq> insert m (set a)" and B: "set (b[j := ?n]) \<subseteq> insert ?n (set b)"
    by (rule set_update_subset_insert)+
  have slots: "map Slot (a[i := m]) = map Slot a" "map EquipSlot (b[j := ?n]) = map EquipSlot b"
    using fi(1,2) fj(1,2) m(2) by (simp_all add: map_update_same)
  have "mset (map ID (a[i := m] @ b[j := ?n])) = mset (map ID (a @ b))"
    using mset_nth_split [OF fi(1)] mset_nth_split [OF fj(1)] m(3)
    by (simp add: mset_update_remove [OF fi(1)] mset_update_remove [OF fj(1)])
  then have ids: "distinct (map ID (a[i := m] @ b[j := ?n]))"
    using wf mset_eq_imp_distinct_iff unfolding wf_items_def by blast
  show "wf_items (a[i := m]) (b[j := ?n])"
    unfolding wf_items_def slots
    using A B wf_itemsD(1,3) [OF wf] wf_itemsD(2,4) [OF wf] m(1) as_worn_ok [OF v] ids by blast
  show "cells (a[i := m]) = (cells a)(f \<mapsto> m)"
    using lookup_update [OF wf_itemsD(2) [OF wf] fi(1)] m(2) fi(2) by (simp add: cells_def)
  show "worn (b[j := ?n]) = (worn b)(e \<mapsto> ?n)"
    using lookup_update [OF wf_itemsD(4) [OF wf] fj(1), of ?n] fj(2) by (simp add: worn_def)
  show "units u (a[i := m]) + units u (b[j := ?n]) = units u a + units u b"
    using units_update [OF fi(1), of u m] units_update [OF fj(1), of u ?n] m(4) [of u] by simp
qed

section \<open>Equipping and unequipping\<close>

lemma equipItem_sat:
  assumes "wf_runtime r"
  shows "sat (gear_post (\<lambda>r' x. Valid e \<and> worn (liveEquipment r) e = None \<and>
      (\<exists>i. cells (liveInventory r) f = Some i \<and> \<not> Locked i \<and> x = as_worn i e \<and>
        cells (liveInventory r') = (cells (liveInventory r))(f := None) \<and>
        worn (liveEquipment r') = (worn (liveEquipment r))(e \<mapsto> as_worn i e)) \<and>
      livePoints r' = livePoints r \<and> (\<forall>v. total_units v r' = total_units v r)) r) (equipItem r f e)"
  unfolding equipItem_def
proof ((intro sat_intros assms; (assumption)?), goal_cases)
  note wf = wf_runtime_items [OF assms]
  case (1 i src item)
  then have i: "findInventorySlot (liveInventory r) f = Some i"
    and free: "\<not> equipmentSlotOccupied (liveEquipment r) e"
    and v: "Validate (as_worn (liveInventory r ! i) e) = None" by auto
  note fi = cells_find_Some [OF wf i] and ed = edit_equip [OF wf i free v]
  have "worn (liveEquipment r) e = None"
    using free worn_find_None [OF wf] by (simp add: equipmentSlotOccupied_def)
  with 1 fi ed show ?case
    by (simp add: cells_sort [OF ed(1)] worn_sort [OF ed(1)] total_units_def)
qed

lemma UnequipItem_sat:
  assumes "wf_runtime r"
  shows "sat (gear_post (\<lambda>r' x. cells (liveInventory r) t = None \<and>
      (\<exists>i. worn (liveEquipment r) e = Some i \<and> \<not> Locked i \<and> WithInventorySlot i t = Inr x \<and>
        cells (liveInventory r') = (cells (liveInventory r))(t \<mapsto> x) \<and>
        worn (liveEquipment r') = (worn (liveEquipment r))(e := None)) \<and>
      livePoints r' = livePoints r \<and> (\<forall>v. total_units v r' = total_units v r)) r) (UnequipItem r e t)"
  unfolding UnequipItem_def
proof ((intro sat_intros assms; (assumption)?), goal_cases)
  note wf = wf_runtime_items [OF assms]
  case (1 i m)
  then have i: "findEquipmentSlot (liveEquipment r) e = Some i"
    and free: "\<not> inventorySlotOccupied (liveInventory r) t"
    and w: "WithInventorySlot (liveEquipment r ! i) t = Inr m" by auto
  note fi = worn_find_Some [OF wf i] and ed = edit_unequip [OF wf i free w]
  have "cells (liveInventory r) t = None" using free by (simp add: cells_occupied [OF wf])
  with 1 fi ed show ?case
    by (simp add: cells_sort [OF ed(1)] worn_sort [OF ed(1)] total_units_def)
qed

lemma replaceOccupiedEquipItem_sat:
  assumes "wf_runtime r"
  shows "sat (gear_post (\<lambda>r' x. Valid e \<and>
      (\<exists>i j. cells (liveInventory r) f = Some i \<and> worn (liveEquipment r) e = Some j \<and>
        \<not> Locked i \<and> \<not> Locked j \<and> WithInventorySlot j f = Inr (UnequippedItem x) \<and>
        EquippedItem x = as_worn i e \<and>
        cells (liveInventory r') = (cells (liveInventory r))(f \<mapsto> UnequippedItem x) \<and>
        worn (liveEquipment r') = (worn (liveEquipment r))(e \<mapsto> as_worn i e)) \<and>
      livePoints r' = livePoints r \<and> (\<forall>v. total_units v r' = total_units v r)) r)
    (replaceOccupiedEquipItem r f e)"
  unfolding replaceOccupiedEquipItem_def
proof ((intro sat_intros assms; (assumption)?), goal_cases)
  note wf = wf_runtime_items [OF assms]
  case (1 i j src wrn m eq)
  then have i: "findInventorySlot (liveInventory r) f = Some i"
    and j: "findEquipmentSlot (liveEquipment r) e = Some j"
    and v: "Validate (as_worn (liveInventory r ! i) e) = None"
    and w: "WithInventorySlot (liveEquipment r ! j) f = Inr m" by auto
  note fi = cells_find_Some [OF wf i] and fj = worn_find_Some [OF wf j] and ed = edit_gear_swap [OF wf i j v w]
  from 1 fi fj ed w show ?case
    by (simp add: cells_sort [OF ed(1)] worn_sort [OF ed(1)] total_units_def)
qed

section \<open>Point effects\<close>

lemma sint_neg_i32:
  fixes d :: i32
  assumes "sint d \<noteq> min_i32"
  shows "sint (- d) = - sint d"
proof -
  have "- d = i32_of (- sint d)" by (simp add: i32_of_def)
  moreover have "min_i32 \<le> - sint d" "- sint d \<le> max_i32"
    using assms sint_i32_bounds [of d] by (simp_all add: min_i32_def max_i32_def)
  ultimately show ?thesis by simp
qed

text \<open>What an authored effect adds to a point while it is applied.\<close>

definition effect_at :: "point_effect option \<Rightarrow> u8 \<Rightarrow> int" where
  "effect_at effect p =
     (case effect of None \<Rightarrow> 0 | Some e \<Rightarrow> if ePointIndex e = p then sint (ePointDelta e) else 0)"

lemma ApplyPointDelta_points:
  assumes "ApplyPointDelta r t i d = (r', Some x)"
  shows "r' = r\<lparr>livePoints := livePoints r'\<rparr>" and "length (livePoints r') = length (livePoints r)"
    and "sint (point r' p) = sint (point r p) + (if p = i then sint d else 0)"
proof -
  have i: "unat i < length (livePoints r)"
    and b: "min_i32 \<le> sint (point r i) + sint d" "sint (point r i) + sint d \<le> max_i32"
    and r': "r' = set_point r i (i32_of (sint (point r i) + sint d))"
    using assms by (simp_all add: ApplyPointDelta_iff)
  show "r' = r\<lparr>livePoints := livePoints r'\<rparr>" and "length (livePoints r') = length (livePoints r)"
    by (simp_all add: r' set_point_def)
  show "sint (point r' p) = sint (point r p) + (if p = i then sint d else 0)"
    using i b by (auto simp: r' point_set_point)
qed

lemma ApplyPointDelta_post:
  assumes "ApplyPointDelta r t i d = (r', res)"
  shows "if res = None then r' = r
    else r' = r\<lparr>livePoints := livePoints r'\<rparr> \<and> length (livePoints r') = length (livePoints r) \<and>
      (\<forall>p. sint (point r' p) = sint (point r p) + (if p = i then sint d else 0))"
proof (cases res)
  case None
  with assms ApplyPointDelta_None show ?thesis by auto
next
  case (Some x)
  show ?thesis
    using Some ApplyPointDelta_points [OF assms [unfolded Some]] by simp
qed

lemma ApplyEquipTemplateEffect_post:
  assumes "ApplyEquipTemplateEffect r t e = (r', res)"
  shows "if res = None then r' = r
    else r' = r\<lparr>livePoints := livePoints r'\<rparr> \<and> length (livePoints r') = length (livePoints r) \<and>
      (\<forall>p. sint (point r' p) = sint (point r p) + effect_at (tEquipEffect t) p)"
proof -
  have "res = None \<and> r' = r \<or> (\<exists>eff. tEquipEffect t = Some eff \<and>
      ApplyPointDelta r (ePointType eff) (ePointIndex eff) (ePointDelta eff) = (r', res))"
    using assms by (auto simp: ApplyEquipTemplateEffect_def Let_def split: if_split_asm option.split_asm)
  then consider "res = None" "r' = r" | eff where "tEquipEffect t = Some eff"
      "ApplyPointDelta r (ePointType eff) (ePointIndex eff) (ePointDelta eff) = (r', res)"
    by blast
  then show ?thesis
  proof cases
    case 2
    from ApplyPointDelta_post [OF 2(2)] show ?thesis
      by (cases res) (simp_all add: effect_at_def 2(1) eq_commute [of "ePointIndex eff"])
  qed simp
qed

lemma removeEquipTemplateEffectDelta_post:
  assumes "removeEquipTemplateEffectDelta r eff = (r', res)"
  shows "if res = None then r' = r
    else r' = r\<lparr>livePoints := livePoints r'\<rparr> \<and> length (livePoints r') = length (livePoints r) \<and>
      (\<forall>p. sint (point r' p) = sint (point r p) - effect_at (Some eff) p)"
proof (cases "sint (ePointDelta eff) = min_i32")
  case True
  with assms show ?thesis by (simp add: removeEquipTemplateEffectDelta_def)
next
  case False
  then have a: "ApplyPointDelta r (ePointType eff) (ePointIndex eff) (- ePointDelta eff) = (r', res)"
    using assms by (simp add: removeEquipTemplateEffectDelta_def)
  from ApplyPointDelta_post [OF a] show ?thesis
    by (cases res) (simp_all add: effect_at_def sint_neg_i32 [OF False] eq_commute [of "ePointIndex eff"])
qed

lemma RemoveEquipTemplateEffectFromItem_post:
  assumes "RemoveEquipTemplateEffectFromItem r t e item = (r', res)"
  shows "if res = None then r' = r
    else r' = r\<lparr>livePoints := livePoints r'\<rparr> \<and> length (livePoints r') = length (livePoints r) \<and>
      (\<forall>p. sint (point r' p) = sint (point r p) - effect_at (tEquipEffect t) p)"
proof -
  have "res = None \<and> r' = r \<or>
      (\<exists>eff. tEquipEffect t = Some eff \<and> removeEquipTemplateEffectDelta r eff = (r', res))"
    using assms by (auto simp: RemoveEquipTemplateEffectFromItem_def split: if_split_asm option.split_asm)
  with removeEquipTemplateEffectDelta_post show ?thesis by fastforce
qed

lemma RemoveEquipTemplateEffect_post:
  assumes "RemoveEquipTemplateEffect r t e = (r', res)"
  shows "if res = None then r' = r
    else r' = r\<lparr>livePoints := livePoints r'\<rparr> \<and> length (livePoints r') = length (livePoints r) \<and>
      (\<forall>p. sint (point r' p) = sint (point r p) - effect_at (tEquipEffect t) p)"
proof -
  have "res = None \<and> r' = r \<or>
      (\<exists>eff. tEquipEffect t = Some eff \<and> removeEquipTemplateEffectDelta r eff = (r', res))"
    using assms by (auto simp: RemoveEquipTemplateEffect_def Let_def split: if_split_asm option.split_asm)
  with removeEquipTemplateEffectDelta_post show ?thesis by fastforce
qed

text \<open>The effect steps of the swap, from the runtime after the items were exchanged.\<close>

lemma swap_effects_post:
  assumes r1: "r1 = r\<lparr>liveInventory := liveInventory r1, liveEquipment := liveEquipment r1\<rparr>"
    and "swap_effects r r1 e new prev result = (r', res)"
  shows "if res = None then r' = r
    else r' = r1\<lparr>livePoints := livePoints r'\<rparr> \<and> length (livePoints r') = length (livePoints r1) \<and>
      UnequippedItem (the res) = UnequippedItem result \<and> EquippedItem (the res) = EquippedItem result \<and>
      (\<forall>p. sint (point r' p) =
         sint (point r p) - effect_at (tEquipEffect prev) p + effect_at (tEquipEffect new) p)"
proof -
  have pts: "livePoints r1 = livePoints r" by (subst r1) simp
  have undo: "x\<lparr>liveInventory := liveInventory r, liveEquipment := liveEquipment r, livePoints := livePoints r\<rparr> = r"
    if "x = r1\<lparr>livePoints := livePoints x\<rparr>" for x
    by (subst that, subst r1) simp
  obtain r2 res2 where rm: "RemoveEquipTemplateEffectFromItem r1 prev e (UnequippedItem result) = (r2, res2)"
    by fastforce
  note p2 = RemoveEquipTemplateEffectFromItem_post [OF rm]
  define s where "s = (if tEquipEffect prev = None then r1 else r2)"
  define y where "y = (if tEquipEffect prev = None then result else result\<lparr>RemovedEffect := res2\<rparr>)"
  have y: "UnequippedItem y = UnequippedItem result" "EquippedItem y = EquippedItem result"
    by (simp_all add: y_def)
  show ?thesis
  proof (cases "tEquipEffect prev \<noteq> None \<and> res2 = None")
    case True
    then have "r' = r2\<lparr>liveInventory := liveInventory r, liveEquipment := liveEquipment r, livePoints := livePoints r\<rparr>"
      "res = None" using assms(2) rm by (auto simp: swap_effects_def)
    moreover have "r2 = r1\<lparr>livePoints := livePoints r2\<rparr>" using p2 True by simp
    ultimately show ?thesis using undo by simp
  next
    case False
    obtain r3 res3 where ap: "ApplyEquipTemplateEffect s new e = (r3, res3)" by fastforce
    note p3 = ApplyEquipTemplateEffect_post [OF ap]
    have s: "s = r1\<lparr>livePoints := livePoints s\<rparr>" "length (livePoints s) = length (livePoints r1)"
      "sint (point s p) = sint (point r p) - effect_at (tEquipEffect prev) p" for p
      using False p2 pts by (auto simp: s_def effect_at_def point_def split: if_splits)
    have sw: "(r', res) =
        (if tEquipEffect new = None then (s, Some y)
         else case ApplyEquipTemplateEffect s new e of
            (r3, None) \<Rightarrow> (r3\<lparr>liveInventory := liveInventory r, liveEquipment := liveEquipment r,
                             livePoints := livePoints r\<rparr>, None)
          | (r3, Some applied) \<Rightarrow> (r3, Some (y\<lparr>AppliedEffect := Some applied\<rparr>)))"
      using assms(2) rm False by (auto simp: swap_effects_def s_def y_def)
    show ?thesis
    proof (cases "tEquipEffect new")
      case None
      with sw have "r' = s" "res = Some y" by auto
      with None s y show ?thesis by (simp add: effect_at_def)
    next
      case (Some eff)
      show ?thesis
      proof (cases res3)
        case None
        with sw Some ap have "res = None"
          "r' = r3\<lparr>liveInventory := liveInventory r, liveEquipment := liveEquipment r, livePoints := livePoints r\<rparr>"
          by auto
        moreover have "r3 = s" using p3 None by simp
        ultimately show ?thesis using undo [OF s(1)] by simp
      next
        case (Some z)
        with sw \<open>tEquipEffect new = Some eff\<close> ap have "r' = r3" "res = Some (y\<lparr>AppliedEffect := Some z\<rparr>)" by auto
        moreover from p3 Some have "r3 = s\<lparr>livePoints := livePoints r3\<rparr>"
          "length (livePoints r3) = length (livePoints s)"
          "sint (point r3 p) = sint (point s p) + effect_at (tEquipEffect new) p" for p by simp_all
        moreover from this(1) have "r3 = r1\<lparr>livePoints := livePoints r3\<rparr>" using s(1)
          by (metis runtime.fold_congs(4) runtime.surjective runtime.update_convs(4))
        ultimately show ?thesis using s y by simp
      qed
    qed
  qed
qed

lemma satI: "(\<And>s a. x = (s, a) \<Longrightarrow> Q s a) \<Longrightarrow> sat Q x"
  by (cases x) (simp add: sat_def)

text \<open>The swap with effects, in one postcondition.\<close>

definition swapped :: "runtime \<Rightarrow> slot_index \<Rightarrow> equipment_slot \<Rightarrow> point_effect option \<Rightarrow> point_effect option \<Rightarrow>
    runtime \<Rightarrow> equip_replace_result \<Rightarrow> bool" where
  "swapped r f e removed applied r' x \<longleftrightarrow>
     (\<exists>i j. cells (liveInventory r) f = Some i \<and> worn (liveEquipment r) e = Some j \<and>
        \<not> Locked i \<and> \<not> Locked j \<and> WithInventorySlot j f = Inr (UnequippedItem x) \<and>
        EquippedItem x = as_worn i e \<and>
        cells (liveInventory r') = (cells (liveInventory r))(f \<mapsto> UnequippedItem x) \<and>
        worn (liveEquipment r') = (worn (liveEquipment r))(e \<mapsto> as_worn i e)) \<and>
     (\<forall>p. sint (point r' p) = sint (point r p) - effect_at removed p + effect_at applied p) \<and>
     (\<forall>v. total_units v r' = total_units v r)"

lemma swap_effects_sat:
  assumes "wf_runtime r" and sw: "replaceOccupiedEquipItem r f e = (r1, Some result)"
  shows "sat (gear_post (swapped r f e (tEquipEffect prv) (tEquipEffect nxt)) r)
    (swap_effects r r1 e nxt prv result)"
proof (rule satI)
  fix r' res
  assume se: "swap_effects r r1 e nxt prv result = (r', res)"
  note g = gear_postD [OF replaceOccupiedEquipItem_sat [OF assms(1)] sw,
      unfolded option.sel if_not_P [OF option.distinct(2)]]
  have q: "r1 = r\<lparr>liveInventory := liveInventory r1, liveEquipment := liveEquipment r1,
      livePoints := livePoints r1\<rparr>" "wf_runtime r1" "livePoints r1 = livePoints r"
    "\<And>v. total_units v r1 = total_units v r"
    and qx: "\<exists>i j. cells (liveInventory r) f = Some i \<and> worn (liveEquipment r) e = Some j \<and>
        \<not> Locked i \<and> \<not> Locked j \<and> WithInventorySlot j f = Inr (UnequippedItem result) \<and>
        EquippedItem result = as_worn i e \<and>
        cells (liveInventory r1) = (cells (liveInventory r))(f \<mapsto> UnequippedItem result) \<and>
        worn (liveEquipment r1) = (worn (liveEquipment r))(e \<mapsto> as_worn i e)"
    using g by blast+
  have r1: "r1 = r\<lparr>liveInventory := liveInventory r1, liveEquipment := liveEquipment r1\<rparr>"
    using q(1,3) by (metis runtime.surjective runtime.update_convs(4) runtime.update_convs(5) runtime.update_convs(6) runtime.select_convs(4))
  note p = swap_effects_post [OF r1 se]
  show "gear_post (swapped r f e (tEquipEffect prv) (tEquipEffect nxt)) r r' res"
  proof (cases res)
    case None
    with p show ?thesis by (simp add: gear_post_def)
  next
    case (Some y)
    with p have r': "r' = r1\<lparr>livePoints := livePoints r'\<rparr>" and len: "length (livePoints r') = length (livePoints r1)"
      and y: "UnequippedItem y = UnequippedItem result" "EquippedItem y = EquippedItem result"
      and pt: "\<And>p. sint (point r' p) = sint (point r p) - effect_at (tEquipEffect prv) p + effect_at (tEquipEffect nxt) p"
      by simp_all
    have i: "liveInventory r' = liveInventory r1" "liveEquipment r' = liveEquipment r1"
      "liveQuickslots r' = liveQuickslots r1"
      by (subst r', simp)+
    have "r' = r\<lparr>liveInventory := liveInventory r', liveEquipment := liveEquipment r', livePoints := livePoints r'\<rparr>"
      by (subst r', subst r1, simp add: i)
    moreover have "wf_runtime r'" using q(2) i len by (simp add: wf_runtime_def)
    moreover have "swapped r f e (tEquipEffect prv) (tEquipEffect nxt) r' y"
      using qx pt q(4) by (simp add: swapped_def i y total_units_def)
    ultimately show ?thesis using Some by (simp add: gear_post_def)
  qed
qed

lemma ReplaceOccupiedEquipItemWithTemplates_sat:
  assumes "wf_runtime r"
  shows "sat (gear_post (swapped r f e (tEquipEffect prv) (tEquipEffect nxt)) r)
    (ReplaceOccupiedEquipItemWithTemplates r f e nxt prv)"
  unfolding ReplaceOccupiedEquipItemWithTemplates_def
proof ((intro sat_intros; (assumption)?), goal_cases)
  case (1 i src j wrn r1 res)
  then show ?case
    using gear_postD [OF replaceOccupiedEquipItem_sat [OF assms], of f e r1 None] by (simp add: gear_post_def)
next
  case (2 i src j wrn r1 res x)
  then show ?case by (intro swap_effects_sat [OF assms]) simp
qed

section \<open>Properties\<close>

text \<open>
  C19: equipping and unequipping move one instance between the carried cells and the wear slots.
  Equipping empties the cell and fills the free slot with the instance marked as worn;
  unequipping is the reverse into a free cell. Every other cell and slot, the points and the
  units of every item kind (carried and worn together) stay, no instance is duplicated or lost,
  and a refusal changes nothing.
\<close>

theorem equip_unequip_exact:
  assumes "wf_runtime r"
  shows "(case EquipItem r f e of (r', res) \<Rightarrow>
      if res = None then r' = r
      else wf_runtime r' \<and> Valid e \<and> worn (liveEquipment r) e = None \<and>
        (\<exists>i. cells (liveInventory r) f = Some i \<and> \<not> Locked i \<and> res = Some (as_worn i e) \<and>
          cells (liveInventory r') = (cells (liveInventory r))(f := None) \<and>
          worn (liveEquipment r') = (worn (liveEquipment r))(e \<mapsto> as_worn i e)) \<and>
        livePoints r' = livePoints r \<and> (\<forall>v. total_units v r' = total_units v r)) \<and>
    (case UnequipItem r e t of (r', res) \<Rightarrow>
      if res = None then r' = r
      else wf_runtime r' \<and> cells (liveInventory r) t = None \<and>
        (\<exists>i. worn (liveEquipment r) e = Some i \<and> \<not> Locked i \<and>
          res = Some (i\<lparr>Slot := t, Equipped := False, EquipSlot := EquipmentSlotNone\<rparr>) \<and>
          cells (liveInventory r') =
            (cells (liveInventory r))(t \<mapsto> i\<lparr>Slot := t, Equipped := False, EquipSlot := EquipmentSlotNone\<rparr>) \<and>
          worn (liveEquipment r') = (worn (liveEquipment r))(e := None)) \<and>
        livePoints r' = livePoints r \<and> (\<forall>v. total_units v r' = total_units v r))"
proof -
  obtain r1 x1 where a: "EquipItem r f e = (r1, x1)" by fastforce
  obtain r2 x2 where b: "UnequipItem r e t = (r2, x2)" by fastforce
  show ?thesis
    unfolding a b prod.case
    using gear_postD [OF equipItem_sat [OF assms], of f e r1 x1] a
      gear_postD [OF UnequipItem_sat [OF assms] b]
    by (cases x1; cases x2) (auto simp: EquipItem_def dest!: WithInventorySlot_carried(5))
qed

lemma gear_sample:
  "fst (EquipItem sample_runtime 6 EquipmentSlotWeapon) = sample_runtime\<lparr>
     liveInventory := [zero_item\<lparr>ID := 7, Vnum := 27, Count := 3, Slot := 4\<rparr>,
                       zero_item\<lparr>ID := 8, Vnum := 27, Count := 2, Slot := 5\<rparr>],
     liveEquipment := [as_worn (zero_item\<lparr>ID := 9, Vnum := 19, Count := 1, Slot := 6\<rparr>) EquipmentSlotWeapon]\<rparr>"
  "ok (EquipItem sample_runtime 6 EquipmentSlotWeapon)"
  by (simp_all add: EquipItem_def equipItem_def equipmentSlotOccupied_def findEquipmentSlot_def findInventorySlot_def
      zero_item_def Let_def Validate_def as_worn_def Valid_def removeInventoryIndex_def remove_nth_def
      sortInventoryItems_def sortEquipmentItems_def)

theorem equip_unequip_exact_witness:
  "\<exists>i. cells (liveInventory sample_runtime) 6 = Some i \<and>
     worn (liveEquipment (fst (EquipItem sample_runtime 6 EquipmentSlotWeapon))) EquipmentSlotWeapon
       = Some (as_worn i EquipmentSlotWeapon)"
  using equip_unequip_exact [OF sample_runtime_wf, where f = 6 and e = EquipmentSlotWeapon and t = 6] gear_sample(2)
  by (auto split: prod.splits)

text \<open>
  Equipping is undone by unequipping. After an accepted equip from a cell, unequipping that
  slot into the same cell is accepted, returns the very instance, and restores the carried and
  worn maps and everything else of the runtime.
\<close>

theorem equip_unequip_roundtrip:
  assumes "wf_runtime r" and "equipItem r f e = (r1, Some x)"
  shows "\<exists>r2 i. UnequipItem r1 e f = (r2, Some i) \<and> cells (liveInventory r) f = Some i \<and>
    cells (liveInventory r2) = cells (liveInventory r) \<and> worn (liveEquipment r2) = worn (liveEquipment r) \<and>
    r2\<lparr>liveInventory := liveInventory r, liveEquipment := liveEquipment r\<rparr> = r"
proof -
  from gear_post_SomeD [OF equipItem_sat [OF assms(1)] assms(2)]
  obtain i where r1: "r1 = r\<lparr>liveInventory := liveInventory r1, liveEquipment := liveEquipment r1,
        livePoints := livePoints r1\<rparr>" "wf_runtime r1" "livePoints r1 = livePoints r"
    and e: "Valid e" "worn (liveEquipment r) e = None"
    and i: "cells (liveInventory r) f = Some i" "\<not> Locked i"
      "cells (liveInventory r1) = (cells (liveInventory r))(f := None)"
      "worn (liveEquipment r1) = (worn (liveEquipment r))(e \<mapsto> as_worn i e)"
    by blast
  have ci: "carried_ok i" and fi: "Slot i = f"
    using i(1) wf_itemsD(1,2) [OF wf_runtime_items [OF assms(1)]]
    by (auto simp: cells_def lookup_Some_iff)
  note wf1 = wf_runtime_items [OF r1(2)]
  have w: "WithInventorySlot (as_worn i e) f = Inr i"
    using ci fi unfolding WithInventorySlot_Inr_iff
    by (simp add: carried_ok_def Validate_None_iff) (rule item_instance.equality; simp add: as_worn_def)
  obtain j where j: "findEquipmentSlot (liveEquipment r1) e = Some j"
    using worn_find_None [OF wf1, of e] i(4) by auto
  have nj: "liveEquipment r1 ! j = as_worn i e"
    using worn_find_Some(3) [OF wf1 j] i(4) by simp
  have "countEquipmentSlotOccupancy (liveEquipment r1) e = 1"
    using countEquipmentSlotOccupancy_eq [OF wf1] i(4) by simp
  moreover have "\<not> inventorySlotOccupied (liveInventory r1) f"
    using cells_occupied [OF wf1] i(3) by simp
  ultimately have u: "\<exists>r2. UnequipItem r1 e f = (r2, Some i)"
    using e(1) i(2) j nj w by (simp add: UnequipItem_def)
  then obtain r2 where u: "UnequipItem r1 e f = (r2, Some i)" by blast
  from gear_post_SomeD [OF UnequipItem_sat [OF r1(2)] u]
  have r2: "r2 = r1\<lparr>liveInventory := liveInventory r2, liveEquipment := liveEquipment r2,
        livePoints := livePoints r2\<rparr>" "livePoints r2 = livePoints r1"
    and m: "cells (liveInventory r2) = (cells (liveInventory r1))(f \<mapsto> i)"
      "worn (liveEquipment r2) = (worn (liveEquipment r1))(e := None)"
    by blast+
  have "r2\<lparr>liveInventory := liveInventory r, liveEquipment := liveEquipment r\<rparr> = r"
    by (subst r2(1), simp only: r2(2) r1(3), subst r1(1)) (simp add: r1(3))
  with u m i e(2) show ?thesis by (auto simp: fun_eq_iff)
qed

theorem equip_unequip_roundtrip_witness:
  "\<exists>r2 i. UnequipItem (fst (equipItem sample_runtime 6 EquipmentSlotWeapon)) EquipmentSlotWeapon 6 = (r2, Some i) \<and>
     cells (liveInventory r2) = cells (liveInventory sample_runtime)"
proof -
  obtain x where "equipItem sample_runtime 6 EquipmentSlotWeapon =
      (fst (equipItem sample_runtime 6 EquipmentSlotWeapon), Some x)"
    using gear_sample(2) by (cases "equipItem sample_runtime 6 EquipmentSlotWeapon") (auto simp: EquipItem_def)
  from equip_unequip_roundtrip [OF sample_runtime_wf this] show ?thesis by blast
qed

text \<open>
  The preview agrees with the swap. \<open>CanReplaceOccupiedEquipItem\<close>, which answers without
  touching the runtime, accepts exactly when \<open>ReplaceOccupiedEquipItem\<close> would succeed; there is
  no runtime on which the two disagree.
\<close>

theorem CanReplaceOccupiedEquipItem_iff:
  "CanReplaceOccupiedEquipItem r f e \<longleftrightarrow> ok (ReplaceOccupiedEquipItem r f e)"
proof -
  have v: "Validate (as_worn i e) = Validate (i\<lparr>Slot := 0, Equipped := True, EquipSlot := e\<rparr>)" for i
    by (simp add: Validate_def as_worn_def)
  show ?thesis
    by (simp add: CanReplaceOccupiedEquipItem_def ReplaceOccupiedEquipItem_def replaceOccupiedEquipItem_def
        Let_def v split: option.split sum.split)
qed

text \<open>
  The occupied-wear swap with templates is all or nothing. When it succeeds the carried
  instance is worn, the worn one sits in the source cell, and every point has changed by exactly
  minus the old effect plus the new one (as integers, so nothing wrapped); when any step fails,
  including an effect that would overflow after the items were already exchanged, the runtime is
  as it was before.
\<close>

theorem ReplaceOccupiedEquipItemWithTemplates_atomic:
  assumes "wf_runtime r" and "ReplaceOccupiedEquipItemWithTemplates r f e nxt prv = (r', res)"
  shows "case res of None \<Rightarrow> r' = r
    | Some x \<Rightarrow> wf_runtime r' \<and> liveGold r' = liveGold r \<and> liveQuickslots r' = liveQuickslots r \<and>
        swapped r f e (tEquipEffect prv) (tEquipEffect nxt) r' x"
proof (cases res)
  case None
  with gear_postD [OF ReplaceOccupiedEquipItemWithTemplates_sat [OF assms(1)] assms(2)] show ?thesis by simp
next
  case (Some x)
  note p = gear_post_SomeD [OF ReplaceOccupiedEquipItemWithTemplates_sat [OF assms(1)] assms(2) [unfolded Some]]
  have "liveGold r' = liveGold r" "liveQuickslots r' = liveQuickslots r"
    by (subst p(1), simp)+
  with p(2,3) Some show ?thesis by simp
qed

theorem ReplaceOccupiedEquipItemWithTemplates_atomic_witness:
  "fst (ReplaceOccupiedEquipItemWithTemplates sample_runtime 6 EquipmentSlotWeapon sample_sword sample_sword) =
     sample_runtime"
proof -
  obtain r' res where a: "ReplaceOccupiedEquipItemWithTemplates sample_runtime 6 EquipmentSlotWeapon
      sample_sword sample_sword = (r', res)" by fastforce
  have "\<not> swapped sample_runtime 6 EquipmentSlotWeapon p q r'' x" for p q r'' x
    by (simp add: swapped_def worn_def lookup_def)
  with ReplaceOccupiedEquipItemWithTemplates_atomic [OF sample_runtime_wf a] a show ?thesis
    by (cases res) auto
qed

text \<open>
  A wear effect is undone by removing it. After a template's effect was applied to a worn
  instance, removing it is accepted for every template the catalog can hold and gives back
  exactly the points from before.
\<close>

theorem equip_effect_roundtrip:
  assumes "ApplyEquipTemplateEffect r t e = (r1, Some x)"
  shows "\<exists>r2 y. RemoveEquipTemplateEffect r1 t e = (r2, Some y) \<and> r2 = r"
proof -
  obtain eff i where authored: "templateAuthoredForEquipSlot t e" and eff: "tEquipEffect t = Some eff"
    and i: "findEquipmentSlot (liveEquipment r) e = Some i" "Vnum (liveEquipment r ! i) = tVnum t"
      "Count (liveEquipment r ! i) \<noteq> 0" "Validate (liveEquipment r ! i) = None"
    and ap: "ApplyPointDelta r (ePointType eff) (ePointIndex eff) (ePointDelta eff) = (r1, Some x)"
    using assms by (auto simp: ApplyEquipTemplateEffect_def Let_def split: if_split_asm option.split_asm)
  let ?i = "ePointIndex eff" and ?d = "ePointDelta eff"
  have valid: "ValidTemplate t"
    using authored by (simp add: templateAuthoredForEquipSlot_def split: if_split_asm)
  have d: "sint ?d \<noteq> min_i32" by (rule ValidTemplate_equip_effect(3) [OF valid eff])
  have idx: "unat ?i < length (livePoints r)" and r1: "r1 = set_point r ?i (i32_of (sint (point r ?i) + sint ?d))"
    and s: "min_i32 \<le> sint (point r ?i) + sint ?d" "sint (point r ?i) + sint ?d \<le> max_i32"
    using ap by (simp_all add: ApplyPointDelta_iff)
  have len: "length (livePoints r1) = length (livePoints r)" and same: "liveEquipment r1 = liveEquipment r"
    by (simp_all add: r1 set_point_def)
  have p1: "sint (point r1 ?i) + sint (- ?d) = sint (point r ?i)"
    using s idx sint_neg_i32 [OF d] by (simp add: r1 point_set_point)
  have "i32_of (sint (point r ?i)) = point r ?i" by (simp add: i32_of_def)
  then have "set_point r1 ?i (i32_of (sint (point r ?i))) = r"
    using idx by (simp add: r1 set_point_def point_def)
  then have "ApplyPointDelta r1 (ePointType eff) ?i (- ?d) = (r, Some \<lparr>PointType = ePointType eff, PointAmount = - ?d,
      PointValue = point r ?i\<rparr>)"
    using idx len p1 sint_i32_bounds [of "point r ?i"] \<open>i32_of (sint (point r ?i)) = point r ?i\<close>
    by (simp add: ApplyPointDelta_iff)
  then show ?thesis
    using authored eff i d by (simp add: RemoveEquipTemplateEffect_def removeEquipTemplateEffectDelta_def same)
qed

definition sample_ring :: template where
  "sample_ring = sample_sword\<lparr>tEquipEffect := Some \<lparr>ePointType = 5, ePointIndex = 5, ePointDelta = 12\<rparr>\<rparr>"

lemma sample_ring_valid: "ValidTemplate sample_ring"
  by (simp add: ValidTemplate_def validTemplate_def validTemplate_guards_def validTemplate_texts_def
      sample_ring_def sample_sword_def normalizeTemplate_def validRefineInfo_def
      validTemplateMessage_def contains_nul_def code_def in_range_def validDisplayAttributes_def
      validAppearanceVnumSlot_def validPointEffect_def MaxPickupRange_def validNonZeroPointFields_def min_i32_def)

definition armed_runtime :: runtime where
  "armed_runtime = fst (EquipItem sample_runtime 6 EquipmentSlotWeapon)"

lemma ring_applies: "ok (ApplyEquipTemplateEffect armed_runtime sample_ring EquipmentSlotWeapon)"
  using sample_ring_valid unfolding armed_runtime_def gear_sample(1)
  by (simp add: ApplyEquipTemplateEffect_def templateAuthoredForEquipSlot_def sample_ring_def Valid_def
      findEquipmentSlot_def as_worn_def zero_item_def Validate_def ApplyPointDelta_def point_def Let_def
      min_i32_def max_i32_def)

theorem equip_effect_roundtrip_witness:
  "fst (RemoveEquipTemplateEffect (fst (ApplyEquipTemplateEffect armed_runtime sample_ring EquipmentSlotWeapon))
     sample_ring EquipmentSlotWeapon) = armed_runtime"
proof -
  obtain r1 x where a: "ApplyEquipTemplateEffect armed_runtime sample_ring EquipmentSlotWeapon = (r1, Some x)"
    using ring_applies by (metis not_None_eq prod.collapse)
  from equip_effect_roundtrip [OF a] show ?thesis by (auto simp: a)
qed

section \<open>Guarded operations\<close>

lemma EquipItemWithTemplate_eq:
  "EquipItemWithTemplate r f e t = (r, None) \<or>
   EquipItemWithTemplate r f e t = equipItem r f e \<and> CanEquip t (EquipmentEligibilitySubject r) e"
  by (auto simp: EquipItemWithTemplate_def Let_def split: option.split)

lemma UnequipItemWithTemplate_eq:
  "UnequipItemWithTemplate r e c t = (r, None) \<or>
   UnequipItemWithTemplate r e c t = UnequipItem r e c \<and> \<not> tIrremovable t"
  by (auto simp: UnequipItemWithTemplate_def Let_def split: option.split)

lemma points_step_sat:
  assumes "wf_runtime r" and "x = (r', res)"
    and "if res = None then r' = r
      else r' = r\<lparr>livePoints := livePoints r'\<rparr> \<and> length (livePoints r') = length (livePoints r) \<and> Q"
  shows "sat (gear_post (\<lambda>r' x. True) r) x"
proof (cases res)
  case None
  with assms show ?thesis by (simp add: sat_def gear_post_def)
next
  case (Some y)
  with assms(3) have r': "r' = r\<lparr>livePoints := livePoints r'\<rparr>" "length (livePoints r') = length (livePoints r)"
    by simp_all
  have i: "liveInventory r' = liveInventory r" "liveEquipment r' = liveEquipment r"
    "liveQuickslots r' = liveQuickslots r"
    by (subst r'(1), simp)+
  have "r' = r\<lparr>liveInventory := liveInventory r', liveEquipment := liveEquipment r', livePoints := livePoints r'\<rparr>"
    by (subst r'(1)) (simp add: i)
  with Some assms(1,2) r'(2) i show ?thesis by (simp add: sat_def gear_post_def wf_runtime_def)
qed

end
