(* ===== verification/Player_Use.thy ===== *)
theory Player_Use
  imports Player_Equip
begin

text \<open>
  Using items (\<open>internal/player/runtime.go\<close>): consuming a carried or a worn instance for the
  point effect its template authors, the reject texts shown instead, dragging one stack onto
  another, and moving whole stacks into and out of the safebox.
\<close>

section \<open>Using an item\<close>

record item_use_result =
  useSlot :: slot_index
  ItemRemoved :: bool
  useItem :: item_instance
  useVnum :: u32
  usePointType :: u8
  usePointAmount :: i32
  usePointValue :: i32
  EffectMessage :: string
  SpecialEffectType :: u8

definition useEffectInfoMessage :: "use_effect \<Rightarrow> string" where
  "useEffectInfoMessage effect =
     (if uInfoMessage effect \<noteq> [] then uInfoMessage effect else uMessage effect)"

text \<open>\<open>consumeCount\<close>, with 0 standing for 1.\<close>

definition consume_count :: "use_effect \<Rightarrow> u16" where
  "consume_count effect = (if uConsumeCount effect = 0 then 1 else uConsumeCount effect)"

text \<open>The flags of a template that refuse its use.\<close>

definition use_refused :: "template \<Rightarrow> bool" where
  "use_refused t \<longleftrightarrow>
     tQuestUse t \<or> tQuestUseMultiple t \<or> tApplicable t \<or> tAntiStack t \<or> tAntiGet t \<or>
     tAntiDrop t \<or> tAntiGive t \<or> tAntiSell t"

definition use_result :: "slot_index \<Rightarrow> item_instance \<Rightarrow> use_effect \<Rightarrow> i32 \<Rightarrow> item_use_result" where
  "use_result slot item effect updatedPointValue =
     \<lparr>useSlot = slot, ItemRemoved = False, useItem = zero_item, useVnum = Vnum item,
      usePointType = uPointType effect, usePointAmount = uPointDelta effect,
      usePointValue = updatedPointValue, EffectMessage = useEffectInfoMessage effect,
      SpecialEffectType = uSpecialEffectType effect\<rparr>"

definition useWornCellItem ::
    "runtime \<Rightarrow> slot_index \<Rightarrow> equipment_slot \<Rightarrow> template \<Rightarrow> (runtime, item_use_result) outcome" where
  "useWornCellItem r slot equipSlot t =
     (if \<not> CanUseTemplate r t \<or> tEquipSlot t \<noteq> [] then (r, None)
      else case tUseEffect t of
        None \<Rightarrow> (r, None)
      | Some effect \<Rightarrow>
          if use_refused t then (r, None)
          else if countEquipmentSlotOccupancy (liveEquipment r) equipSlot \<noteq> 1 then (r, None)
          else case findEquipmentSlot (liveEquipment r) equipSlot of
            None \<Rightarrow> (r, None)
          | Some index \<Rightarrow>
              let consumeCount = consume_count effect; item = liveEquipment r ! index in
              if \<not> Equipped item \<or> EquipSlot item \<noteq> equipSlot \<or> Locked item \<or> Vnum item \<noteq> tVnum t \<or>
                 Count item = 0 \<or> tMaxCount t < Count item \<or> consumeCount = 0 \<or> Count item < consumeCount
              then (r, None)
              else if Validate item \<noteq> None then (r, None)
              else
                let currentPointValue = point r (uPointIndex effect);
                    nextPointValue = sint currentPointValue + sint (uPointDelta effect) in
                if nextPointValue < min_i32 \<or> max_i32 < nextPointValue then (r, None)
                else
                  let updatedPointValue = i32_of nextPointValue;
                      result = use_result slot item effect updatedPointValue;
                      r1 = set_point r (uPointIndex effect) updatedPointValue in
                  if Count item = consumeCount then
                    (r1\<lparr>liveEquipment := sortEquipmentItems
                         (removeInventoryIndex (cloneItemInstances (liveEquipment r1)) index)\<rparr>,
                     Some (result\<lparr>ItemRemoved := True\<rparr>))
                  else
                    let updatedEquipment = cloneItemInstances (liveEquipment r1);
                        item' = (updatedEquipment ! index)\<lparr>Count := Count (updatedEquipment ! index) - consumeCount\<rparr> in
                    if Validate item' \<noteq> None then
                      (set_point r1 (uPointIndex effect) currentPointValue, None)
                    else
                      (r1\<lparr>liveEquipment := sortEquipmentItems (updatedEquipment[index := item'])\<rparr>,
                       Some (result\<lparr>useItem := item'\<rparr>)))"

definition UseItem :: "runtime \<Rightarrow> slot_index \<Rightarrow> template \<Rightarrow> (runtime, item_use_result) outcome" where
  "UseItem r slot t =
     (case ownedWornItemUseEquipSlot slot of
        Some equipSlot \<Rightarrow> useWornCellItem r slot equipSlot t
      | None \<Rightarrow>
          if CarriedInventorySlotCount \<le> slot \<or> \<not> CanUseTemplate r t \<or> tEquipSlot t \<noteq> [] then (r, None)
          else case tUseEffect t of
            None \<Rightarrow> (r, None)
          | Some effect \<Rightarrow>
              if use_refused t then (r, None)
              else if countInventorySlotOccupancy (liveInventory r) slot \<noteq> 1 then (r, None)
              else case findInventorySlot (liveInventory r) slot of
                None \<Rightarrow> (r, None)
              | Some index \<Rightarrow>
                  let consumeCount = consume_count effect; item = liveInventory r ! index in
                  if Equipped item \<or> Locked item \<or> Vnum item \<noteq> tVnum t \<or> Count item = 0 \<or>
                     tMaxCount t < Count item \<or> consumeCount = 0 \<or> Count item < consumeCount
                  then (r, None)
                  else if Validate item \<noteq> None then (r, None)
                  else
                    let currentPointValue = point r (uPointIndex effect);
                        nextPointValue = sint currentPointValue + sint (uPointDelta effect) in
                    if nextPointValue < min_i32 \<or> max_i32 < nextPointValue then (r, None)
                    else
                      let updatedPointValue = i32_of nextPointValue;
                          result = use_result slot item effect updatedPointValue;
                          r1 = set_point r (uPointIndex effect) updatedPointValue in
                      if Count item = consumeCount then
                        (r1\<lparr>liveInventory := sortInventoryItems
                             (removeInventoryIndex (cloneItemInstances (liveInventory r1)) index)\<rparr>,
                         Some (result\<lparr>ItemRemoved := True\<rparr>))
                      else
                        let updatedInventory = cloneItemInstances (liveInventory r1);
                            item' = (updatedInventory ! index)\<lparr>Count := Count (updatedInventory ! index) - consumeCount\<rparr> in
                        if Validate item' \<noteq> None then
                          (set_point r1 (uPointIndex effect) currentPointValue, None)
                        else
                          (r1\<lparr>liveInventory := sortInventoryItems (updatedInventory[index := item'])\<rparr>,
                           Some (result\<lparr>useItem := item'\<rparr>)))"

section \<open>Template-backed cells and reject texts\<close>

text \<open>
  The block of guards that the following functions repeat: one occupant, found, carried,
  unlocked, of the template's kind, with a count the template allows, and valid.
\<close>

definition backed_item :: "runtime \<Rightarrow> slot_index \<Rightarrow> template \<Rightarrow> (nat \<times> item_instance) option" where
  "backed_item r slot t =
     (if countInventorySlotOccupancy (liveInventory r) slot \<noteq> 1 then None
      else case findInventorySlot (liveInventory r) slot of
        None \<Rightarrow> None
      | Some index \<Rightarrow>
          let item = liveInventory r ! index in
          if Equipped item \<or> Locked item \<or> Vnum item \<noteq> tVnum t \<or> Count item = 0 \<or>
             tMaxCount t < Count item then None
          else if Validate item \<noteq> None then None
          else Some (index, item))"

definition wornCellUseItemRejectText :: "runtime \<Rightarrow> equipment_slot \<Rightarrow> template \<Rightarrow> string option" where
  "wornCellUseItemRejectText r equipSlot t =
     (if tUseRejectText t = [] \<or> \<not> ValidTemplate t \<or> tEquipSlot t \<noteq> [] then None
      else case tUseEffect t of
        None \<Rightarrow> None
      | Some effect \<Rightarrow>
          if countEquipmentSlotOccupancy (liveEquipment r) equipSlot \<noteq> 1 then None
          else case findEquipmentSlot (liveEquipment r) equipSlot of
            None \<Rightarrow> None
          | Some index \<Rightarrow>
              let item = liveEquipment r ! index in
              if \<not> Equipped item \<or> EquipSlot item \<noteq> equipSlot \<or> Locked item \<or> Vnum item \<noteq> tVnum t \<or>
                 Count item = 0 \<or> tMaxCount t < Count item then None
              else if Validate item \<noteq> None then None
              else if consume_count effect = 0 \<or> Count item < consume_count effect then None
              else if CanUseTemplate r t \<and> \<not> use_refused t then None
              else Some (tUseRejectText t))"

definition UseItemRejectText :: "runtime \<Rightarrow> slot_index \<Rightarrow> template \<Rightarrow> string option" where
  "UseItemRejectText r slot t =
     (case ownedWornItemUseEquipSlot slot of
        Some equipSlot \<Rightarrow> wornCellUseItemRejectText r equipSlot t
      | None \<Rightarrow>
          if tUseRejectText t = [] \<or> CarriedInventorySlotCount \<le> slot \<or> \<not> ValidTemplate t \<or>
             tEquipSlot t \<noteq> [] then None
          else case tUseEffect t of
            None \<Rightarrow> None
          | Some effect \<Rightarrow>
              (case backed_item r slot t of
                 None \<Rightarrow> None
               | Some (index, item) \<Rightarrow>
                   if consume_count effect = 0 \<or> Count item < consume_count effect then None
                   else if CanUseTemplate r t \<and> \<not> use_refused t then None
                   else Some (tUseRejectText t)))"

definition templateBackedAntiGiveInventoryItem :: "runtime \<Rightarrow> slot_index \<Rightarrow> template \<Rightarrow> item_instance option" where
  "templateBackedAntiGiveInventoryItem r slot t =
     (if tGiveRejectText t = [] \<or> \<not> tAntiGive t \<or> CarriedInventorySlotCount \<le> slot \<or> \<not> ValidTemplate t
      then None else map_option snd (backed_item r slot t))"

definition GiveRejectText :: "runtime \<Rightarrow> slot_index \<Rightarrow> u16 \<Rightarrow> template \<Rightarrow> string option" where
  "GiveRejectText r slot n t =
     (if n = 0 then None
      else case templateBackedAntiGiveInventoryItem r slot t of
        None \<Rightarrow> None
      | Some item \<Rightarrow> if Count item < n then None else Some (tGiveRejectText t))"

definition transfer_refused :: "template \<Rightarrow> bool" where
  "transfer_refused t \<longleftrightarrow> tAntiStack t \<or> tAntiGet t \<or> tAntiDrop t \<or> tAntiGive t \<or> tAntiSell t"

definition ExchangeItemAddRejectText :: "runtime \<Rightarrow> slot_index \<Rightarrow> template \<Rightarrow> string option" where
  "ExchangeItemAddRejectText r slot t =
     (if tGiveRejectText t = [] \<or> CarriedInventorySlotCount \<le> slot \<or> \<not> ValidTemplate t then None
      else case backed_item r slot t of
        None \<Rightarrow> None
      | Some _ \<Rightarrow>
          if CanUseTemplate r t \<and> \<not> transfer_refused t then None else Some (tGiveRejectText t))"

definition templateBackedExchangeDisplayInventoryItem ::
    "runtime \<Rightarrow> slot_index \<Rightarrow> template \<Rightarrow> item_instance option" where
  "templateBackedExchangeDisplayInventoryItem r slot t =
     (if CarriedInventorySlotCount \<le> slot \<or> \<not> ValidTemplate t then None
      else if transfer_refused t \<or> \<not> CanUseTemplate r t then None
      else map_option snd (backed_item r slot t))"

record exchange_item_add_display =
  dItem :: item_instance
  dSockets :: socket_values
  dAttributes :: attribute_values

definition ExchangeItemAddDisplay ::
    "runtime \<Rightarrow> slot_index \<Rightarrow> template \<Rightarrow> exchange_item_add_display option" where
  "ExchangeItemAddDisplay r slot t =
     (case templateBackedExchangeDisplayInventoryItem r slot t of
        None \<Rightarrow> None
      | Some item \<Rightarrow>
          Some \<lparr>dItem = item, dSockets = EffectiveSockets item (tSockets t),
                dAttributes = EffectiveAttributes item (tAttributes t)\<rparr>)"

section \<open>Safebox\<close>

definition SafeboxCheckinRejectText :: "runtime \<Rightarrow> slot_index \<Rightarrow> template \<Rightarrow> string option" where
  "SafeboxCheckinRejectText r slot t =
     (if tSafeboxRejectText t = [] \<or> \<not> tAntiSafebox t \<or> CarriedInventorySlotCount \<le> slot \<or>
         \<not> ValidTemplate t then None
      else case backed_item r slot t of None \<Rightarrow> None | Some _ \<Rightarrow> Some (tSafeboxRejectText t))"

record safebox_checkin_result =
  checkinSlot :: slot_index
  checkinItem :: item_instance

record safebox_checkout_result =
  Destination :: slot_index
  checkoutMerged :: bool
  checkoutItem :: item_instance

definition SafeboxCheckinItem ::
    "runtime \<Rightarrow> slot_index \<Rightarrow> template \<Rightarrow> (runtime, safebox_checkin_result) outcome" where
  "SafeboxCheckinItem r slot t =
     (if tAntiSafebox t \<or> tAntiSave t \<or> CarriedInventorySlotCount \<le> slot \<or> \<not> ValidTemplate t then (r, None)
      else case backed_item r slot t of
        None \<Rightarrow> (r, None)
      | Some (index, item) \<Rightarrow>
          (r\<lparr>liveInventory := sortInventoryItems
               (removeInventoryIndex (cloneItemInstances (liveInventory r)) index)\<rparr>,
           Some \<lparr>checkinSlot = slot,
                 checkinItem = item\<lparr>Sockets := CloneSockets item, Attributes := CloneAttributes item\<rparr>\<rparr>))"

definition SafeboxCheckoutItem ::
    "runtime \<Rightarrow> slot_index \<Rightarrow> item_instance \<Rightarrow> template \<Rightarrow> (runtime, safebox_checkout_result) outcome" where
  "SafeboxCheckoutItem r destination item t =
     (if CarriedInventorySlotCount \<le> destination \<or> \<not> ValidTemplate t then (r, None)
      else if ID item = 0 \<or> Vnum item = 0 \<or> Vnum item \<noteq> tVnum t \<or> Count item = 0 \<or> tMaxCount t < Count item
      then (r, None)
      else if Equipped item \<or> Locked item then (r, None)
      else if Validate item \<noteq> None then (r, None)
      else if 1 < countInventorySlotOccupancy (liveInventory r) destination then (r, None)
      else
        let updatedInventory = cloneItemInstances (liveInventory r) in
        case findInventorySlot updatedInventory destination of
          None \<Rightarrow>
            if hasItemInstanceID updatedInventory (ID item) \<or> hasItemInstanceID (liveEquipment r) (ID item)
            then (r, None)
            else (case WithInventorySlot item destination of
                Inl _ \<Rightarrow> (r, None)
              | Inr placed \<Rightarrow>
                  (r\<lparr>liveInventory := sortInventoryItems (updatedInventory @ [placed])\<rparr>,
                   Some \<lparr>Destination = destination, checkoutMerged = False, checkoutItem = placed\<rparr>))
        | Some destinationIndex \<Rightarrow>
            let destinationItem = updatedInventory ! destinationIndex in
            if Equipped destinationItem \<or> Locked destinationItem \<or> Vnum destinationItem \<noteq> Vnum item \<or>
               Count destinationItem = 0 \<or> tMaxCount t < Count destinationItem then (r, None)
            else if (ucast (tMaxCount t) :: u32) < ucast (Count destinationItem) + ucast (Count item)
            then (r, None)
            else
              let destinationItem' = destinationItem\<lparr>Count := Count destinationItem + Count item\<rparr> in
              if Validate destinationItem' \<noteq> None then (r, None)
              else
                (r\<lparr>liveInventory := sortInventoryItems (updatedInventory[destinationIndex := destinationItem'])\<rparr>,
                 Some \<lparr>Destination = destination, checkoutMerged = True, checkoutItem = destinationItem'\<rparr>))"

section \<open>Dragging a stack onto another\<close>

definition applyItemRewriteHook ::
    "item_instance \<Rightarrow> (item_instance \<Rightarrow> item_instance) option \<Rightarrow> item_instance" where
  "applyItemRewriteHook item rewriteItem = (case rewriteItem of None \<Rightarrow> item | Some f \<Rightarrow> f item)"

definition useItemOnItem :: "runtime \<Rightarrow> slot_index \<Rightarrow> slot_index \<Rightarrow> template \<Rightarrow>
    (item_instance \<Rightarrow> item_instance) option \<Rightarrow> (runtime, move_result) outcome" where
  "useItemOnItem r source target t rewriteItem =
     (if source = target \<or> CarriedInventorySlotCount \<le> source \<or> CarriedInventorySlotCount \<le> target \<or>
         \<not> CanUseTemplate r t \<or> \<not> tStackable t \<or> tEquipSlot t \<noteq> [] \<or> transfer_refused t \<or>
         tMaxCount t = 0 \<or> 255 < tMaxCount t then (r, None)
      else if countInventorySlotOccupancy (liveInventory r) source \<noteq> 1 \<or>
              countInventorySlotOccupancy (liveInventory r) target \<noteq> 1 then (r, None)
      else case findInventorySlot (liveInventory r) source of
        None \<Rightarrow> (r, None)
      | Some sourceIndex \<Rightarrow>
          let sourceItem = liveInventory r ! sourceIndex in
          if Equipped sourceItem \<or> Locked sourceItem \<or> Vnum sourceItem \<noteq> tVnum t \<or>
             Count sourceItem = 0 \<or> tMaxCount t < Count sourceItem then (r, None)
          else case findInventorySlot (liveInventory r) target of
            None \<Rightarrow> (r, None)
          | Some targetIndex \<Rightarrow>
              let targetItem = liveInventory r ! targetIndex in
              if Equipped targetItem \<or> Locked targetItem \<or> ID targetItem = ID sourceItem \<or>
                 Vnum targetItem \<noteq> Vnum sourceItem \<or> Count targetItem = 0 \<or> tMaxCount t \<le> Count targetItem
              then (r, None)
              else
                let available = tMaxCount t - Count targetItem;
                    mergeCount = (if available < Count sourceItem then available else Count sourceItem) in
                if mergeCount = 0 then (r, None)
                else
                  let targetItem' = applyItemRewriteHook
                        (targetItem\<lparr>Count := Count targetItem + mergeCount\<rparr>) rewriteItem;
                      result = (new_move source target)\<lparr>Changed := True, ToOccupied := True, ToItem := targetItem'\<rparr> in
                  if Validate targetItem' \<noteq> None then (r, None)
                  else if mergeCount = Count sourceItem then
                    (if Validate (applyItemRewriteHook sourceItem rewriteItem) \<noteq> None then (r, None)
                     else
                       let updatedInventory = removeInventoryIndex (cloneItemInstances (liveInventory r)) sourceIndex in
                       case findInventorySlot updatedInventory target of
                         None \<Rightarrow> (r, None)
                       | Some updatedTargetIndex \<Rightarrow>
                           (r\<lparr>liveInventory := sortInventoryItems (updatedInventory[updatedTargetIndex := targetItem'])\<rparr>,
                            Some (result\<lparr>CountOnly := True\<rparr>)))
                  else
                    let sourceItem' = applyItemRewriteHook
                          (sourceItem\<lparr>Count := Count sourceItem - mergeCount\<rparr>) rewriteItem in
                    if Validate sourceItem' \<noteq> None then (r, None)
                    else
                      (r\<lparr>liveInventory := sortInventoryItems
                           ((cloneItemInstances (liveInventory r))[sourceIndex := sourceItem', targetIndex := targetItem'])\<rparr>,
                       Some (result\<lparr>FromOccupied := True, FromItem := sourceItem', CountOnly := True\<rparr>)))"

definition UseItemOnItem ::
    "runtime \<Rightarrow> slot_index \<Rightarrow> slot_index \<Rightarrow> template \<Rightarrow> (runtime, move_result) outcome" where
  "UseItemOnItem r source target t = useItemOnItem r source target t None"

section \<open>Edits of the worn slice\<close>

lemma wf_items_remove_worn:
  assumes "wf_items a b"
  shows "wf_items a (remove_nth i b)"
proof -
  have r: "set (remove_nth i b) \<subseteq> set b" by (rule set_remove_nth)
  have "distinct (map EquipSlot (remove_nth i b))" "distinct (map ID (remove_nth i b))"
    using wf_itemsD(4,6) [OF assms] by (simp_all add: map_remove_nth distinct_remove_nth)
  moreover have "ID ` set a \<inter> ID ` set (remove_nth i b) = {}"
    using wf_itemsD(7) [OF assms] image_mono [OF r, of ID] by blast
  ultimately show ?thesis using assms r by (simp add: wf_items_def) blast
qed

lemma wf_items_update_worn:
  assumes "wf_items a b" and "i < length b" and "worn_ok v"
    and "EquipSlot v = EquipSlot (b ! i)" and "ID v = ID (b ! i)"
  shows "wf_items a (b[i := v])"
proof -
  have m: "map EquipSlot (b[i := v]) = map EquipSlot b" "map ID (b[i := v]) = map ID b"
    using assms by (simp_all add: map_update_same)
  have "x \<in> set (b[i := v]) \<Longrightarrow> worn_ok x" for x
    using assms(1,3) set_update_subset_insert [of b i v] by (auto simp: wf_items_def)
  with assms(1) show ?thesis by (simp only: wf_items_def map_append m) simp
qed

lemma worn_ok_count: "worn_ok i \<Longrightarrow> c \<noteq> 0 \<Longrightarrow> worn_ok (i\<lparr>Count := c\<rparr>)"
  by (simp add: worn_ok_def Validate_None_iff)

lemma edit_remove_worn:
  assumes wf: "wf_items a b" and i: "findEquipmentSlot b e = Some i"
  shows "wf_items a (remove_nth i b)" and "worn (remove_nth i b) = (worn b)(e := None)"
    and "units v (remove_nth i b) + units_in v (b ! i) = units v b"
  using wf_items_remove_worn [OF wf] lookup_remove [OF wf_itemsD(4) [OF wf], of i]
    worn_find_Some [OF wf i] units_remove [of i b v]
  by (simp_all add: worn_def)

lemma edit_recount_worn:
  assumes wf: "wf_items a b" and i: "findEquipmentSlot b e = Some i" and c: "c \<noteq> 0"
  shows "wf_items a (b[i := (b ! i)\<lparr>Count := c\<rparr>])"
    and "worn (b[i := (b ! i)\<lparr>Count := c\<rparr>]) = (worn b)(e \<mapsto> (b ! i)\<lparr>Count := c\<rparr>)"
proof -
  note fi = worn_find_Some [OF wf i]
  show "wf_items a (b[i := (b ! i)\<lparr>Count := c\<rparr>])"
    using worn_ok_count [OF wf_worn_nth [OF wf fi(1)] c] by (intro wf_items_update_worn [OF wf fi(1)]) simp_all
  show "worn (b[i := (b ! i)\<lparr>Count := c\<rparr>]) = (worn b)(e \<mapsto> (b ! i)\<lparr>Count := c\<rparr>)"
    using lookup_update [OF wf_itemsD(4) [OF wf] fi(1), of "(b ! i)\<lparr>Count := c\<rparr>"] fi(2)
    by (simp add: worn_def)
qed

section \<open>What a use does\<close>

text \<open>The point of the effect moves by exactly its delta; the other points stay.\<close>

definition points_moved :: "runtime \<Rightarrow> use_effect \<Rightarrow> runtime \<Rightarrow> bool" where
  "points_moved r effect r' \<longleftrightarrow>
     (\<forall>p. sint (point r' p) = sint (point r p) + (if p = uPointIndex effect then sint (uPointDelta effect) else 0))"

definition used :: "runtime \<Rightarrow> slot_index \<Rightarrow> use_effect \<Rightarrow> runtime \<Rightarrow> bool" where
  "used r slot effect r' \<longleftrightarrow>
     points_moved r effect r' \<and>
     (case ownedWornItemUseEquipSlot slot of
        None \<Rightarrow> \<exists>i. cells (liveInventory r) slot = Some i \<and> \<not> Locked i \<and> consume_count effect \<le> Count i \<and>
          cells (liveInventory r') = (cells (liveInventory r))(slot := take_units (consume_count effect) i) \<and>
          liveEquipment r' = liveEquipment r
      | Some e \<Rightarrow> \<exists>i. worn (liveEquipment r) e = Some i \<and> \<not> Locked i \<and> consume_count effect \<le> Count i \<and>
          worn (liveEquipment r') = (worn (liveEquipment r))(e := take_units (consume_count effect) i) \<and>
          liveInventory r' = liveInventory r)"

lemma CanUseTemplate_point:
  assumes "CanUseTemplate r t" and "tUseEffect t = Some effect" and "length (livePoints r) = 255"
  shows "unat (uPointIndex effect) < length (livePoints r)"
proof -
  have "ValidTemplate t" using assms(1) CanUse_Valid by (simp add: CanUseTemplate_def)
  from ValidTemplate_use_effect(1) [OF this assms(2)] assms(3) show ?thesis
    by (simp add: word_less_nat_alt)
qed

lemma points_moved_set:
  assumes "unat (uPointIndex effect) < length (livePoints r)"
    and "\<not> (sint (point r (uPointIndex effect)) + sint (uPointDelta effect) < min_i32 \<or>
      max_i32 < sint (point r (uPointIndex effect)) + sint (uPointDelta effect))"
    and "livePoints r' = livePoints (set_point r (uPointIndex effect)
      (i32_of (sint (point r (uPointIndex effect)) + sint (uPointDelta effect))))"
  shows "points_moved r effect r'"
proof -
  have "point r' p = point (set_point r (uPointIndex effect)
      (i32_of (sint (point r (uPointIndex effect)) + sint (uPointDelta effect)))) p" for p
    by (simp only: point_def assms(3))
  with assms(1,2) show ?thesis
    by (simp add: points_moved_def point_set_point)
qed

lemma set_point_undo:
  "unat i < length (livePoints r) \<Longrightarrow> set_point (set_point r i v) i (point r i) = r"
  by (simp add: set_point_def point_def)

lemma set_point_fields [simp]:
  "liveInventory (set_point r i v) = liveInventory r" "liveEquipment (set_point r i v) = liveEquipment r"
  "liveQuickslots (set_point r i v) = liveQuickslots r" "liveGold (set_point r i v) = liveGold r"
  "length (livePoints (set_point r i v)) = length (livePoints r)"
  by (simp_all add: set_point_def)

lemma gear_post_inventory:
  "wf_runtime r \<Longrightarrow> wf_items a (liveEquipment r) \<Longrightarrow> P ((set_point r i v)\<lparr>liveInventory := a\<rparr>) x \<Longrightarrow>
   gear_post P r ((set_point r i v)\<lparr>liveInventory := a\<rparr>) (Some x)"
  by (simp add: gear_post_def wf_runtime_def set_point_def)

lemma gear_post_equipment:
  "wf_runtime r \<Longrightarrow> wf_items (liveInventory r) b \<Longrightarrow> P ((set_point r i v)\<lparr>liveEquipment := b\<rparr>) x \<Longrightarrow>
   gear_post P r ((set_point r i v)\<lparr>liveEquipment := b\<rparr>) (Some x)"
  by (simp add: gear_post_def wf_runtime_def set_point_def)

text \<open>Taking \<open>c\<close> units out of a cell or a wear slot: both branches of the code.\<close>

lemma take_worn:
  assumes wf: "wf_items a b" and i: "findEquipmentSlot b e = Some i" and c: "c \<noteq> 0" "\<not> Count (b ! i) < c"
  shows "Count (b ! i) = c \<Longrightarrow> wf_items a (sortEquipmentItems (removeInventoryIndex b i)) \<and>
      worn (sortEquipmentItems (removeInventoryIndex b i)) = (worn b)(e := take_units c (b ! i))"
    and "Count (b ! i) \<noteq> c \<Longrightarrow> wf_items a (sortEquipmentItems (b[i := (b ! i)\<lparr>Count := Count (b ! i) - c\<rparr>])) \<and>
      worn (sortEquipmentItems (b[i := (b ! i)\<lparr>Count := Count (b ! i) - c\<rparr>])) = (worn b)(e := take_units c (b ! i))"
proof -
  note rm = edit_remove_worn [OF wf i]
  show "wf_items a (sortEquipmentItems (removeInventoryIndex b i)) \<and>
      worn (sortEquipmentItems (removeInventoryIndex b i)) = (worn b)(e := take_units c (b ! i))"
    if "Count (b ! i) = c"
    using that rm(1,2) worn_find_Some(1) [OF wf i] by (simp add: worn_sort [OF rm(1)] take_units_def)
  assume ne: "Count (b ! i) \<noteq> c"
  then have "Count (b ! i) - c \<noteq> 0" using c(2) unat_minus_count [of c "Count (b ! i)"] by simp
  note e = edit_recount_worn [OF wf i this]
  show "wf_items a (sortEquipmentItems (b[i := (b ! i)\<lparr>Count := Count (b ! i) - c\<rparr>])) \<and>
      worn (sortEquipmentItems (b[i := (b ! i)\<lparr>Count := Count (b ! i) - c\<rparr>])) = (worn b)(e := take_units c (b ! i))"
    using e ne by (simp add: worn_sort [OF e(1)] take_units_def)
qed

lemma take_carried:
  assumes wf: "wf_items a b" and i: "findInventorySlot a s = Some i" and c: "c \<noteq> 0" "\<not> Count (a ! i) < c"
  shows "Count (a ! i) = c \<Longrightarrow> wf_items (sortInventoryItems (removeInventoryIndex a i)) b \<and>
      cells (sortInventoryItems (removeInventoryIndex a i)) = (cells a)(s := take_units c (a ! i))"
    and "Count (a ! i) \<noteq> c \<Longrightarrow> wf_items (sortInventoryItems (a[i := (a ! i)\<lparr>Count := Count (a ! i) - c\<rparr>])) b \<and>
      cells (sortInventoryItems (a[i := (a ! i)\<lparr>Count := Count (a ! i) - c\<rparr>])) = (cells a)(s := take_units c (a ! i))"
proof -
  note rm = edit_remove [OF wf i]
  show "wf_items (sortInventoryItems (removeInventoryIndex a i)) b \<and>
      cells (sortInventoryItems (removeInventoryIndex a i)) = (cells a)(s := take_units c (a ! i))"
    if "Count (a ! i) = c"
    using that rm(1,2) cells_find_Some(1) [OF wf i] by (simp add: cells_sort [OF rm(1)] take_units_def)
  assume ne: "Count (a ! i) \<noteq> c"
  then have "Count (a ! i) - c \<noteq> 0" using c(2) unat_minus_count [of c "Count (a ! i)"] by simp
  note e = edit_recount [OF wf i this]
  show "wf_items (sortInventoryItems (a[i := (a ! i)\<lparr>Count := Count (a ! i) - c\<rparr>])) b \<and>
      cells (sortInventoryItems (a[i := (a ! i)\<lparr>Count := Count (a ! i) - c\<rparr>])) = (cells a)(s := take_units c (a ! i))"
    using e(1,2) ne by (simp add: cells_sort [OF e(1)] take_units_def)
qed

definition worn_used :: "runtime \<Rightarrow> equipment_slot \<Rightarrow> template \<Rightarrow> runtime \<Rightarrow> bool" where
  "worn_used r e t r' \<longleftrightarrow>
     (\<exists>effect i. tUseEffect t = Some effect \<and> points_moved r effect r' \<and>
        worn (liveEquipment r) e = Some i \<and> \<not> Locked i \<and> consume_count effect \<le> Count i \<and>
        worn (liveEquipment r') = (worn (liveEquipment r))(e := take_units (consume_count effect) i) \<and>
        liveInventory r' = liveInventory r)"

definition carried_used :: "runtime \<Rightarrow> slot_index \<Rightarrow> template \<Rightarrow> runtime \<Rightarrow> bool" where
  "carried_used r s t r' \<longleftrightarrow>
     (\<exists>effect i. tUseEffect t = Some effect \<and> points_moved r effect r' \<and>
        cells (liveInventory r) s = Some i \<and> \<not> Locked i \<and> consume_count effect \<le> Count i \<and>
        cells (liveInventory r') = (cells (liveInventory r))(s := take_units (consume_count effect) i) \<and>
        liveEquipment r' = liveEquipment r)"

lemma useWornCellItem_sat:
  assumes "wf_runtime r"
  shows "sat (gear_post (\<lambda>r' x. worn_used r e t r') r) (useWornCellItem r slot e t)"
  unfolding useWornCellItem_def cloneItemInstances_id
proof ((intro sat_intros; (assumption)?), goal_cases)
  note wf = wf_runtime_items [OF assms]
  have len: "length (livePoints r) = 255" using assms by (simp add: wf_runtime_def)
  { case (1 effect i c item cur nxt upd result r1)
    note idx = CanUseTemplate_point [OF _ 1(2) len]
    have k: "wf_items (liveInventory r) (sortEquipmentItems (removeInventoryIndex (liveEquipment r) i)) \<and>
      worn (sortEquipmentItems (removeInventoryIndex (liveEquipment r) i)) =
        (worn (liveEquipment r))(e := take_units c (liveEquipment r ! i))"
      using 1 by (intro take_worn(1) [OF wf]) simp_all
    show ?case
      unfolding 1(15)
      using 1 k idx worn_find_Some(3) [OF wf 1(5)]
      by (intro gear_post_equipment assms)
        (auto simp: worn_used_def not_less intro!: points_moved_set)
  next
    case (2 effect i c item cur nxt upd result r1 eq item')
    then show ?case
      using set_point_undo [OF CanUseTemplate_point [OF _ 2(2) len]] by (simp add: gear_post_fail)
  next
    case (3 effect i c item cur nxt upd result r1 eq item')
    note idx = CanUseTemplate_point [OF _ 3(2) len]
    have k: "wf_items (liveInventory r) (sortEquipmentItems ((liveEquipment r)[i := (liveEquipment r ! i)\<lparr>Count := Count (liveEquipment r ! i) - c\<rparr>])) \<and>
      worn (sortEquipmentItems ((liveEquipment r)[i := (liveEquipment r ! i)\<lparr>Count := Count (liveEquipment r ! i) - c\<rparr>])) =
        (worn (liveEquipment r))(e := take_units c (liveEquipment r ! i))"
      using 3 by (intro take_worn(2) [OF wf]) simp_all
    show ?case
      unfolding 3(15)
      using 3 k idx worn_find_Some(3) [OF wf 3(5)]
      by (intro gear_post_equipment assms)
        (auto simp: worn_used_def not_less intro!: points_moved_set)
  }
qed

lemma carried_use_sat:
  assumes "wf_runtime r" and "ownedWornItemUseEquipSlot slot = None"
  shows "sat (gear_post (\<lambda>r' x. carried_used r slot t r') r) (UseItem r slot t)"
  unfolding UseItem_def cloneItemInstances_id assms(2) option.case
proof ((intro sat_intros; (assumption)?), goal_cases)
  note wf = wf_runtime_items [OF assms(1)]
  have len: "length (livePoints r) = 255" using assms by (simp add: wf_runtime_def)
  { case (1 effect i c item cur nxt upd result r1)
    note idx = CanUseTemplate_point [OF _ 1(2) len]
    have k: "wf_items (sortInventoryItems (removeInventoryIndex (liveInventory r) i)) (liveEquipment r) \<and>
      cells (sortInventoryItems (removeInventoryIndex (liveInventory r) i)) =
        (cells (liveInventory r))(slot := take_units c (liveInventory r ! i))"
      using 1 by (intro take_carried(1) [OF wf]) simp_all
    show ?case
      unfolding 1(15)
      using 1 k idx cells_find_Some(3) [OF wf 1(5)]
      by (intro gear_post_inventory assms)
        (auto simp: carried_used_def not_less intro!: points_moved_set)
  next
    case (2 effect i c item cur nxt upd result r1 eq item')
    then show ?case
      using set_point_undo [OF CanUseTemplate_point [OF _ 2(2) len]] by (simp add: gear_post_fail)
  next
    case (3 effect i c item cur nxt upd result r1 eq item')
    note idx = CanUseTemplate_point [OF _ 3(2) len]
    have k: "wf_items (sortInventoryItems ((liveInventory r)[i := (liveInventory r ! i)\<lparr>Count := Count (liveInventory r ! i) - c\<rparr>])) (liveEquipment r) \<and>
      cells (sortInventoryItems ((liveInventory r)[i := (liveInventory r ! i)\<lparr>Count := Count (liveInventory r ! i) - c\<rparr>])) =
        (cells (liveInventory r))(slot := take_units c (liveInventory r ! i))"
      using 3 by (intro take_carried(2) [OF wf]) simp_all
    show ?case
      unfolding 3(15)
      using 3 k idx cells_find_Some(3) [OF wf 3(5)]
      by (intro gear_post_inventory assms)
        (auto simp: carried_used_def not_less intro!: points_moved_set)
  }
qed

section \<open>Stacks dragged together and the safebox\<close>

lemma hook_None [simp]: "applyItemRewriteHook item None = item"
  by (simp add: applyItemRewriteHook_def)

lemma UseItemOnItem_sat:
  assumes "wf_runtime r"
  shows "sat (inv_post (\<lambda>items x. cells items = move_bounded s d (tMaxCount t) (cells (liveInventory r)) \<and>
      same_units (liveInventory r) items \<and> s \<noteq> d \<and> cells (liveInventory r) d \<noteq> None) r) (UseItemOnItem r s d t)"
  unfolding UseItemOnItem_def useItemOnItem_def cloneItemInstances_id hook_None
proof ((intro sat_intros assms; (assumption)?), goal_cases)
  note wf = wf_runtime_items [OF assms]
  let ?a = "liveInventory r"
  have whole: "wf_items (sortInventoryItems (upd[k := (?a ! j)\<lparr>Count := Count (?a ! j) + n\<rparr>])) (liveEquipment r) \<and>
      cells (sortInventoryItems (upd[k := (?a ! j)\<lparr>Count := Count (?a ! j) + n\<rparr>])) =
        move_bounded s d (tMaxCount t) (cells ?a) \<and>
      same_units ?a (sortInventoryItems (upd[k := (?a ! j)\<lparr>Count := Count (?a ! j) + n\<rparr>])) \<and>
      s \<noteq> d \<and> cells ?a d \<noteq> None"
    if "findInventorySlot ?a s = Some i" "findInventorySlot ?a d = Some j" "s \<noteq> d"
      "Vnum (?a ! j) = Vnum (?a ! i)" "Count (?a ! j) < tMaxCount t"
      "n = (if tMaxCount t - Count (?a ! j) < Count (?a ! i) then tMaxCount t - Count (?a ! j) else Count (?a ! i))"
      "n \<noteq> 0" "n = Count (?a ! i)" "upd = removeInventoryIndex ?a i" "findInventorySlot upd d = Some k"
      for i j n upd k
  proof -
    note n = fill_amount [OF that(5-7)]
    note fi = cells_find_Some [OF wf that(1)] and fj = cells_find_Some [OF wf that(2)]
    have "tMaxCount t \<noteq> 0" using that(5) by auto
    then have m: "move_bounded s d (tMaxCount t) (cells ?a) =
        (cells ?a)(s := None, d \<mapsto> (?a ! j)\<lparr>Count := Count (?a ! j) + n\<rparr>)"
      using fi fj that(4,6,8)
      by (auto simp: move_bounded_def bounded_amount_def move_units_def pour_def take_units_def)
    note e = edit_merge_whole [OF wf that(1-4), of "Count (?a ! j) + n" k]
    show ?thesis
      using e n(1) that fi(1) fj(3) m by (simp add: cells_sort [OF e(1)])
  qed
  have part: "wf_items (sortInventoryItems (?a[i := (?a ! i)\<lparr>Count := Count (?a ! i) - n\<rparr>,
        j := (?a ! j)\<lparr>Count := Count (?a ! j) + n\<rparr>])) (liveEquipment r) \<and>
      cells (sortInventoryItems (?a[i := (?a ! i)\<lparr>Count := Count (?a ! i) - n\<rparr>,
        j := (?a ! j)\<lparr>Count := Count (?a ! j) + n\<rparr>])) = move_bounded s d (tMaxCount t) (cells ?a) \<and>
      same_units ?a (sortInventoryItems (?a[i := (?a ! i)\<lparr>Count := Count (?a ! i) - n\<rparr>,
        j := (?a ! j)\<lparr>Count := Count (?a ! j) + n\<rparr>])) \<and> s \<noteq> d \<and> cells ?a d \<noteq> None"
    if "findInventorySlot ?a s = Some i" "findInventorySlot ?a d = Some j" "s \<noteq> d"
      "Vnum (?a ! j) = Vnum (?a ! i)" "Count (?a ! j) < tMaxCount t"
      "n = (if tMaxCount t - Count (?a ! j) < Count (?a ! i) then tMaxCount t - Count (?a ! j) else Count (?a ! i))"
      "n \<noteq> 0" "n \<noteq> Count (?a ! i)" for i j n
  proof -
    note n = fill_amount [OF that(5-7)]
    note fi = cells_find_Some [OF wf that(1)] and fj = cells_find_Some [OF wf that(2)]
    have "tMaxCount t \<noteq> 0" using that(5) by auto
    then have m: "move_bounded s d (tMaxCount t) (cells ?a) = (cells ?a)
        (s \<mapsto> (?a ! i)\<lparr>Count := Count (?a ! i) - n\<rparr>, d \<mapsto> (?a ! j)\<lparr>Count := Count (?a ! j) + n\<rparr>)"
      using fi fj that(4,6,8)
      by (auto simp: move_bounded_def bounded_amount_def move_units_def pour_def take_units_def split: if_split_asm)
    have e: "wf_items (?a[i := (?a ! i)\<lparr>Count := Count (?a ! i) - n\<rparr>, j := (?a ! j)\<lparr>Count := Count (?a ! j) + n\<rparr>]) (liveEquipment r)"
      "cells (?a[i := (?a ! i)\<lparr>Count := Count (?a ! i) - n\<rparr>, j := (?a ! j)\<lparr>Count := Count (?a ! j) + n\<rparr>]) =
        (cells ?a)(s \<mapsto> (?a ! i)\<lparr>Count := Count (?a ! i) - n\<rparr>, d \<mapsto> (?a ! j)\<lparr>Count := Count (?a ! j) + n\<rparr>)"
      "same_units ?a (?a[i := (?a ! i)\<lparr>Count := Count (?a ! i) - n\<rparr>, j := (?a ! j)\<lparr>Count := Count (?a ! j) + n\<rparr>])"
      using n that(8) by (intro edit_merge_part [OF wf that(1-4)]; simp)+
    show ?thesis using e that(3) fj(3) m by (simp add: cells_sort [OF e(1)])
  qed
  { case (1 i src j tgt avail n tgt' result upd k)
    have h: "n = (if tMaxCount t - Count (?a ! j) < Count (?a ! i) then tMaxCount t - Count (?a ! j) else Count (?a ! i))"
      using \<open>n = (if avail < Count src then avail else Count src)\<close> \<open>avail = tMaxCount t - Count tgt\<close>
        \<open>src = ?a ! i\<close> \<open>tgt = ?a ! j\<close> by (simp only:)
    show ?case using 1 whole [of i j n upd k, OF _ _ _ _ _ h] by (simp add: not_le)
  next
    case (2 i src j tgt avail n tgt' result upd k)
    have h: "n = (if tMaxCount t - Count (?a ! j) < Count (?a ! i) then tMaxCount t - Count (?a ! j) else Count (?a ! i))"
      using \<open>n = (if avail < Count src then avail else Count src)\<close> \<open>avail = tMaxCount t - Count tgt\<close>
        \<open>src = ?a ! i\<close> \<open>tgt = ?a ! j\<close> by (simp only:)
    show ?case using 2 whole [of i j n upd k, OF _ _ _ _ _ h] by (simp add: not_le)
  next
    case (3 i src j tgt avail n tgt' result src')
    have h: "n = (if tMaxCount t - Count (?a ! j) < Count (?a ! i) then tMaxCount t - Count (?a ! j) else Count (?a ! i))"
      using \<open>n = (if avail < Count src then avail else Count src)\<close> \<open>avail = tMaxCount t - Count tgt\<close>
        \<open>src = ?a ! i\<close> \<open>tgt = ?a ! j\<close> by (simp only:)
    show ?case using 3 part [of i j n, OF _ _ _ _ _ h] by (simp add: not_le)
  next
    case (4 i src j tgt avail n tgt' result src')
    have h: "n = (if tMaxCount t - Count (?a ! j) < Count (?a ! i) then tMaxCount t - Count (?a ! j) else Count (?a ! i))"
      using \<open>n = (if avail < Count src then avail else Count src)\<close> \<open>avail = tMaxCount t - Count tgt\<close>
        \<open>src = ?a ! i\<close> \<open>tgt = ?a ! j\<close> by (simp only:)
    show ?case using 4 part [of i j n, OF _ _ _ _ _ h] by (simp add: not_le)
  }
qed

lemma backed_item_SomeD:
  assumes "backed_item r s t = Some (i, item)"
  shows "findInventorySlot (liveInventory r) s = Some i" and "item = liveInventory r ! i"
    and "\<not> Locked item" and "Vnum item = tVnum t" and "Count item \<le> tMaxCount t"
  using assms by (auto simp: backed_item_def Let_def split: if_split_asm option.split_asm)

lemma clone_both [simp]: "i\<lparr>Sockets := CloneSockets i, Attributes := CloneAttributes i\<rparr> = i"
  by (rule item_instance.equality) simp_all

lemma SafeboxCheckinItem_sat:
  assumes "wf_runtime r"
  shows "sat (inv_post (\<lambda>items x. cells (liveInventory r) s = Some (checkinItem x) \<and> \<not> Locked (checkinItem x) \<and>
      Vnum (checkinItem x) = tVnum t \<and> Count (checkinItem x) \<le> tMaxCount t \<and> checkinSlot x = s \<and>
      CarriedInventorySlotCount > s \<and> ValidTemplate t \<and>
      cells items = (cells (liveInventory r))(s := None) \<and>
      (\<forall>v. units v items + units_in v (checkinItem x) = units v (liveInventory r))) r) (SafeboxCheckinItem r s t)"
  unfolding SafeboxCheckinItem_def cloneItemInstances_id clone_both
proof ((intro sat_intros assms; (assumption)?), goal_cases)
  note wf = wf_runtime_items [OF assms]
  { case (1 x i item)
    then show ?case
      using backed_item_SomeD [of r s t i item] edit_remove(1) [OF wf] cells_find_Some(1) [OF wf] by simp
  next
    case (2 x i item)
    note b = backed_item_SomeD [of r s t i item]
    have i: "findInventorySlot (liveInventory r) s = Some i" using 2 b by simp
    note rm = edit_remove [OF wf i] and fi = cells_find_Some [OF wf i]
    show ?case using 2 b rm(2,3) fi by (simp add: cells_sort [OF rm(1)] not_le)
  }
qed

lemma SafeboxCheckoutItem_sat:
  assumes "wf_runtime r"
  shows "sat (inv_post (\<lambda>items x. Destination x = d \<and> checkoutItem x = the (cells items d) \<and>
      (case cells (liveInventory r) d of
         None \<Rightarrow> \<not> checkoutMerged x \<and> cells items = (cells (liveInventory r))(d \<mapsto> in_cell d item)
       | Some j \<Rightarrow> checkoutMerged x \<and> \<not> Locked j \<and> Vnum j = Vnum item \<and> Count j + Count item \<le> tMaxCount t \<and>
           cells items = (cells (liveInventory r))(d \<mapsto> j\<lparr>Count := Count j + Count item\<rparr>)) \<and>
      (\<forall>v. units v items = units v (liveInventory r) + units_in v item)) r) (SafeboxCheckoutItem r d item t)"
proof -
  note wf = wf_runtime_items [OF assms] and [sat_intros del] = inv_post_ok
  let ?a = "liveInventory r"
  show ?thesis
    unfolding SafeboxCheckoutItem_def cloneItemInstances_id
  proof ((intro sat_intros inv_post_ok_conj assms; (assumption)?), goal_cases)
    case (1 upd placed)
    then have w: "WithInventorySlot item d = Inr placed" and free: "\<not> inventorySlotOccupied ?a d"
      and f: "findInventorySlot ?a d = None"
      by (simp_all add: inventorySlotOccupied_def)
    have ids: "\<forall>x \<in> set ?a \<union> set (liveEquipment r). ID x \<noteq> ID item"
      using 1 hasItemInstanceID_False [of "ID item"] by auto
    note e = edit_append [OF wf w free ids]
    have n: "cells ?a d = None" using cells_find_None [OF wf, of d] f by simp
    have p: "placed = in_cell d item"
      using w 1 by (intro item_instance.equality)
        (auto simp: WithInventorySlot_Inr_iff in_cell_def Validate_None_iff)
    show ?case
      unfolding \<open>upd = ?a\<close>
      using e n p by (simp add: cells_sort [OF e(1)])
  next
    case (2 upd j dst dst')
    then have j: "findInventorySlot ?a d = Some j" by simp
    note fj = cells_find_Some [OF wf j]
    have le: "unat (Count dst) + unat (Count item) \<le> unat (tMaxCount t)"
      using 2 ucast_u32_add_gt [of "tMaxCount t" "Count dst" "Count item"] by simp
    have u: "unat (Count dst + Count item) = unat (Count dst) + unat (Count item)"
      using le by (rule unat_u16_sum_le)
    then have c: "Count dst + Count item \<noteq> 0" "Count dst + Count item \<le> tMaxCount t"
      using 2 le unat_eq_zero [of "Count item"] by (auto simp: word_le_nat_alt)
    have d: "dst = ?a ! j" using 2 by simp
    note e = edit_recount [OF wf j c(1), folded d]
    have un: "units v (?a[j := dst\<lparr>Count := Count dst + Count item\<rparr>]) = units v ?a + units_in v item" for v
      using e(3) [of v] u 2 by (simp add: units_in_def split: if_split_asm)
    show ?case
      unfolding \<open>upd = ?a\<close>
      using e(1,2) fj(3) c(2) un 2 by (simp add: cells_sort [OF e(1)])
  qed
qed

section \<open>Properties\<close>

lemma UseItem_sat:
  assumes "wf_runtime r"
  shows "sat (gear_post (\<lambda>r' x. \<exists>effect. tUseEffect t = Some effect \<and> used r slot effect r') r) (UseItem r slot t)"
proof (cases "ownedWornItemUseEquipSlot slot")
  case None
  show ?thesis
    by (rule gear_post_mono [OF carried_use_sat [OF assms None]]) (auto simp: carried_used_def used_def None)
next
  case (Some e)
  have u: "UseItem r slot t = useWornCellItem r slot e t" by (simp add: UseItem_def Some)
  show ?thesis
    unfolding u
    by (rule gear_post_mono [OF useWornCellItem_sat [OF assms, of e t slot]])
      (auto simp: worn_used_def used_def Some)
qed


definition sample_potion :: template where
  "sample_potion = zero_template\<lparr>tVnum := 27, tName := ''sword'', tStackable := True, tMaxCount := 200,
     tUseEffect := Some \<lparr>uPointType = 5, uPointIndex = 5, uPointDelta = 30, uConsumeCount = 0,
       uMessage = ''sword'', uInfoMessage = [], uSpecialEffectType = 0\<rparr>\<rparr>"

lemma sample_potion_fields [simp]: "tMaxCount sample_potion = 200" "tVnum sample_potion = 27"
  by (simp_all add: sample_potion_def)

lemma sample_cells [simp]:
  "cells [zero_item\<lparr>ID := 7, Vnum := 27, Count := 3, Slot := 4\<rparr>,
      zero_item\<lparr>ID := 8, Vnum := 27, Count := 2, Slot := 5\<rparr>,
      zero_item\<lparr>ID := 9, Vnum := 19, Count := 1, Slot := 6\<rparr>] 4 =
    Some (zero_item\<lparr>ID := 7, Vnum := 27, Count := 3, Slot := 4\<rparr>)"
  "cells [zero_item\<lparr>ID := 7, Vnum := 27, Count := 3, Slot := 4\<rparr>,
      zero_item\<lparr>ID := 8, Vnum := 27, Count := 2, Slot := 5\<rparr>,
      zero_item\<lparr>ID := 9, Vnum := 19, Count := 1, Slot := 6\<rparr>] 5 =
    Some (zero_item\<lparr>ID := 8, Vnum := 27, Count := 2, Slot := 5\<rparr>)"
  by (simp_all add: cells_def lookup_def)

lemma trim_Nil [simp]: "trim_space [] = []"
  by (rule trim_space_plain) (simp add: plain_simps)

lemma sample_potion_valid: "ValidTemplate sample_potion"
  by (simp add: ValidTemplate_def validTemplate_def validTemplate_guards_def validTemplate_texts_def
      sample_potion_def normalizeTemplate_def validRefineInfo_def normalizeEquipSlot_def
      validTemplateMessage_def contains_nul_def code_def in_range_def validDisplayAttributes_def
      validAppearanceVnumSlot_def validUseEffect_def MaxPickupRange_def validNonZeroPointFields_def
      min_i32_def MaxSpecialEffectType_def)

lemma sample_potion_use:
  "CanUseTemplate sample_runtime sample_potion" "ok (UseItem sample_runtime 4 sample_potion)"
proof -
  show c: "CanUseTemplate sample_runtime sample_potion"
    using sample_potion_valid by (simp add: CanUseTemplate_def CanUse_def sample_potion_def)
  then show "ok (UseItem sample_runtime 4 sample_potion)"
    unfolding UseItem_def
    by (simp add: ownedWornItemUseEquipSlot_def Unique1ItemUseWireCell_def Unique2ItemUseWireCell_def
        Unique1ItemUseWearIndex_def Unique2ItemUseWearIndex_def CarriedInventorySlotCount_def
        sample_potion_def use_refused_def countInventorySlotOccupancy_def findInventorySlot_def
        zero_item_def consume_count_def Validate_def equipment_slot_defs min_i32_def max_i32_def Let_def)
qed


text \<open>
  A use is never both refused with the authored text and carried out: whenever the code has
  a reject text for a cell and a template, using the item there is refused.
\<close>

theorem UseItemRejectText_exclusive:
  "UseItemRejectText r slot t = None \<or> snd (UseItem r slot t) = None"
proof (cases "CanUseTemplate r t \<and> \<not> use_refused t")
  case True
  then have "UseItemRejectText r slot t = None"
    by (auto simp: UseItemRejectText_def wornCellUseItemRejectText_def Let_def split: option.split)
  then show ?thesis by simp
next
  case False
  then have "snd (UseItem r slot t) = None"
    by (auto simp: UseItem_def useWornCellItem_def split: option.split)
  then show ?thesis by simp
qed

text \<open>
  C29: dragging a stack onto another pours as much as the template's stack limit leaves room for,
  keeps every unit and the invariant, and changes nothing when it is refused.
\<close>

theorem UseItemOnItem_refines:
  assumes "wf_runtime r" and "UseItemOnItem r s d t = (r', res)"
  shows "if res = None then r' = r
    else r' = r\<lparr>liveInventory := liveInventory r'\<rparr> \<and> wf_runtime r' \<and>
      cells (liveInventory r') = move_bounded s d (tMaxCount t) (cells (liveInventory r)) \<and>
      (\<forall>v. units v (liveInventory r') = units v (liveInventory r))"
  using inv_postD [OF UseItemOnItem_sat [OF assms(1)] assms(2)]
  by (auto simp: same_units_def split: if_splits)

theorem UseItemOnItem_refines_witness:
  "map_option Count (cells (liveInventory (fst (UseItemOnItem sample_runtime 4 5 sample_potion))) 5) = Some 5"
proof -
  obtain r' res where u: "UseItemOnItem sample_runtime 4 5 sample_potion = (r', res)" by fastforce
  have "ok (UseItemOnItem sample_runtime 4 5 sample_potion)"
    unfolding UseItemOnItem_def useItemOnItem_def
    using sample_potion_use(1)
    by (simp add: CarriedInventorySlotCount_def transfer_refused_def countInventorySlotOccupancy_def
        findInventorySlot_def zero_item_def Validate_def equipment_slot_defs sample_potion_def Let_def
        removeInventoryIndex_def remove_nth_def)
  with UseItemOnItem_refines [OF sample_runtime_wf u] show ?thesis
    by (auto simp: u move_bounded_def bounded_amount_def move_units_def pour_def)
qed

lemma cells_member:
  assumes "wf_items a b"
  shows "cells a s = Some i \<longleftrightarrow> i \<in> set a \<and> Slot i = s"
  unfolding cells_def by (rule lookup_Some_iff [OF wf_itemsD(2) [OF assms]])

text \<open>
  C30: the safebox gives back what it took. After an accepted check-in of a cell, checking the
  stored instance out into the same cell is accepted and restores the map of carried cells, so
  no unit is lost or duplicated on the way.
\<close>

theorem safebox_roundtrip:
  assumes "wf_runtime r" and "SafeboxCheckinItem r s t = (r1, Some x)"
  shows "\<exists>r2 y. SafeboxCheckoutItem r1 s (checkinItem x) t = (r2, Some y) \<and>
    cells (liveInventory r2) = cells (liveInventory r) \<and>
    r2\<lparr>liveInventory := liveInventory r\<rparr> = r"
proof -
  let ?i = "checkinItem x"
  note in1 = inv_post_SomeD [OF SafeboxCheckinItem_sat [OF assms(1)] assms(2)]
  note wf = wf_runtime_items [OF assms(1)] and wf1 = wf_runtime_items [OF in1(2)]
  have i: "?i \<in> set (liveInventory r)" "Slot ?i = s"
    using in1(3) cells_member [OF wf] by simp_all
  have ok_i: "carried_ok ?i" using wf_itemsD(1) [OF wf i(1)] .
  have eqp: "liveEquipment r1 = liveEquipment r" by (subst in1(1)) simp
  have n: "cells (liveInventory r1) s = None" using in1(3) by simp
  then have f: "findInventorySlot (liveInventory r1) s = None" using cells_find_None [OF wf1] by simp
  have inj: "y = ?i" if "y \<in> set (liveInventory r)" "ID y = ID ?i" for y
    using that i(1) wf_itemsD(5) [OF wf] by (metis distinct_map inj_onD)
  have "ID y \<noteq> ID ?i" if y: "y \<in> set (liveInventory r1)" for y
  proof
    assume "ID y = ID ?i"
    have "cells (liveInventory r1) (Slot y) = Some y" using y cells_member [OF wf1] by simp
    with in1(3) have "Slot y \<noteq> s" "cells (liveInventory r) (Slot y) = Some y" by (auto split: if_splits)
    with \<open>ID y = ID ?i\<close> inj i(2) show False using cells_member [OF wf] by auto
  qed
  moreover have "ID y \<noteq> ID ?i" if "y \<in> set (liveEquipment r)" for y
    using wf_itemsD(7) [OF wf] i(1) that by (metis disjoint_iff image_eqI)
  ultimately have ids: "\<not> hasItemInstanceID (liveInventory r1) (ID ?i)" "\<not> hasItemInstanceID (liveEquipment r1) (ID ?i)"
    using hasItemInstanceID_False [OF carried_okD(1) [OF ok_i]] eqp by auto
  have same: "in_cell s ?i = ?i" using i(2) by (simp add: in_cell_def)
  have w: "WithInventorySlot ?i s = Inr ?i"
    using ok_i i(2) by (auto simp: WithInventorySlot_Inr_iff carried_ok_def Validate_None_iff
        intro!: item_instance.equality)
  have "\<exists>r2 y. SafeboxCheckoutItem r1 s ?i t = (r2, Some y)"
    using in1(3) carried_okD [OF ok_i] f ids w countInventorySlotOccupancy_eq [OF wf1, of s]
    by (auto simp: SafeboxCheckoutItem_def Let_def not_le)
  then obtain r2 y where out: "SafeboxCheckoutItem r1 s ?i t = (r2, Some y)" by blast
  note out1 = inv_post_SomeD [OF SafeboxCheckoutItem_sat [OF in1(2)] out]
  have "cells (liveInventory r2) = (cells (liveInventory r1))(s \<mapsto> ?i)"
    using out1(3) n same by simp
  also have "\<dots> = cells (liveInventory r)" using in1(3) by (auto simp: fun_eq_iff)
  finally have c: "cells (liveInventory r2) = cells (liveInventory r)" .
  have "r2\<lparr>liveInventory := liveInventory r\<rparr> = r"
    by (subst out1(1), subst in1(1)) simp
  with out c show ?thesis by blast
qed

theorem safebox_roundtrip_witness:
  "\<exists>r1 x r2 y. SafeboxCheckinItem sample_runtime 4 sample_potion = (r1, Some x) \<and>
     SafeboxCheckoutItem r1 4 (checkinItem x) sample_potion = (r2, Some y) \<and>
     cells (liveInventory r2) = cells (liveInventory sample_runtime)"
proof -
  have "ok (SafeboxCheckinItem sample_runtime 4 sample_potion)"
    using sample_potion_valid
    by (simp add: SafeboxCheckinItem_def sample_potion_def CarriedInventorySlotCount_def backed_item_def
        countInventorySlotOccupancy_def findInventorySlot_def zero_item_def Validate_def equipment_slot_defs Let_def)
  then obtain r1 x where a: "SafeboxCheckinItem sample_runtime 4 sample_potion = (r1, Some x)"
    by (metis not_None_eq prod.collapse)
  from safebox_roundtrip [OF sample_runtime_wf a] a show ?thesis by blast
qed

end
