(* ===== verification/Player_Plan.thy ===== *)
theory Player_Plan
  imports Player_Inventory
begin

text \<open>
  Paying with carried items (\<open>internal/player/runtime.go\<close>): \<open>planRefineMaterialChanges\<close>
  decides which cells pay for a list of materials, and a loop takes the planned units out of
  the slice. Refining, crafting and the private shop all pay this way.
\<close>

section \<open>Planning\<close>

record plan_entry =
  planSlot :: slot_index
  planVnum :: u32
  planConsume :: u16

record material_change =
  chSlot :: slot_index
  chRemoved :: bool
  chItem :: item_instance

text \<open>Go's map from kinds to the units still needed; an absent key reads as 0.\<close>

type_synonym remaining_map = "u32 \<Rightarrow> u64 option"

definition remaining_of :: "remaining_map \<Rightarrow> u32 \<Rightarrow> u64" where
  "remaining_of remainingByVnum vnum =
     (case remainingByVnum vnum of None \<Rightarrow> 0 | Some n \<Rightarrow> n)"

text \<open>The first loop: the units needed of each kind, and the kinds in order of appearance.\<close>

fun gather_materials :: "refine_material list \<Rightarrow> remaining_map \<Rightarrow> u32 list \<Rightarrow>
    (remaining_map \<times> u32 list) option" where
  "gather_materials [] remainingByVnum order = Some (remainingByVnum, order)"
| "gather_materials (material # materials) remainingByVnum order =
     (if mVnum material = 0 \<or> sint (mCount material) \<le> 0 then None
      else gather_materials materials
        (remainingByVnum(mVnum material \<mapsto>
           remaining_of remainingByVnum (mVnum material) + scast (mCount material)))
        (if remainingByVnum (mVnum material) = None then order @ [mVnum material] else order))"

definition material_candidate :: "remaining_map \<Rightarrow> slot_index \<Rightarrow> item_instance \<Rightarrow> bool" where
  "material_candidate remainingByVnum sourceSlot item \<longleftrightarrow>
     \<not> (Equipped item \<or> Locked item \<or> Slot item = sourceSlot \<or> Count item = 0) \<and>
     remainingByVnum (Vnum item) \<noteq> None \<and> Validate item = None"

fun plan_loop :: "item_instance list \<Rightarrow> nat list \<Rightarrow> remaining_map \<Rightarrow> plan_entry list \<Rightarrow>
    (plan_entry list \<times> remaining_map) option" where
  "plan_loop items [] remainingByVnum plan = Some (plan, remainingByVnum)"
| "plan_loop items (index # indices) remainingByVnum plan =
     (let item = items ! index; need = remaining_of remainingByVnum (Vnum item) in
      if need = 0 then plan_loop items indices remainingByVnum plan
      else
        let consume = (if need < ucast (Count item) then need else ucast (Count item)) in
        if consume = 0 \<or> 65535 < consume then None
        else plan_loop items indices (remainingByVnum(Vnum item \<mapsto> need - consume))
          (plan @ [\<lparr>planSlot = Slot item, planVnum = Vnum item, planConsume = ucast consume\<rparr>]))"

definition planRefineMaterialChanges ::
    "item_instance list \<Rightarrow> slot_index \<Rightarrow> refine_material list \<Rightarrow> plan_entry list option" where
  "planRefineMaterialChanges items sourceSlot materials =
     (case gather_materials materials Map.empty [] of
        None \<Rightarrow> None
      | Some (remainingByVnum, order) \<Rightarrow>
          let indices = sort_key (\<lambda>i. Slot (items ! i))
                (filter (\<lambda>i. material_candidate remainingByVnum sourceSlot (items ! i)) [0..<length items]) in
          (case plan_loop items indices remainingByVnum [] of
             None \<Rightarrow> None
           | Some (plan, left) \<Rightarrow>
               if list_ex (\<lambda>vnum. remaining_of left vnum \<noteq> 0) order then None
               else Some (sort_key planSlot plan)))"

section \<open>Paying\<close>

text \<open>
  The loop that carries a plan out. \<open>consumeCarriedItems\<close> passes the excluded cells; the
  refine operations have the same loop without that test, which is the empty set.
\<close>

fun debit_loop :: "slot_index set \<Rightarrow> plan_entry list \<Rightarrow> item_instance list \<Rightarrow> material_change list \<Rightarrow>
    (item_instance list \<times> material_change list) option" where
  "debit_loop exclude [] items changes = Some (items, changes)"
| "debit_loop exclude (planned # plan) items changes =
     (case findInventorySlot items (planSlot planned) of
        None \<Rightarrow> None
      | Some currentIndex \<Rightarrow>
          let item = items ! currentIndex in
          if Equipped item \<or> Locked item \<or> Vnum item \<noteq> planVnum planned \<or>
             Count item < planConsume planned then None
          else if planSlot planned \<in> exclude then None
          else if Count item = planConsume planned then
            debit_loop exclude plan (removeInventoryIndex items currentIndex)
              (changes @ [\<lparr>chSlot = planSlot planned, chRemoved = True, chItem = zero_item\<rparr>])
          else
            let item' = item\<lparr>Count := Count item - planConsume planned\<rparr> in
            if Validate item' \<noteq> None then None
            else debit_loop exclude plan (items[currentIndex := item'])
              (changes @ [\<lparr>chSlot = planSlot planned, chRemoved = False, chItem = item'\<rparr>]))"

section \<open>What a list of materials costs\<close>

text \<open>The units of a kind a material list asks for, a plan takes, and a slice has to spare.\<close>

definition needed :: "refine_material list \<Rightarrow> u32 \<Rightarrow> nat" where
  "needed ms v = sum_list (map (\<lambda>m. if mVnum m = v then nat (sint (mCount m)) else 0) ms)"

definition consumed :: "plan_entry list \<Rightarrow> u32 \<Rightarrow> nat" where
  "consumed plan v = sum_list (map (\<lambda>e. if planVnum e = v then unat (planConsume e) else 0) plan)"

definition free_units :: "item_instance list \<Rightarrow> slot_index \<Rightarrow> u32 \<Rightarrow> nat" where
  "free_units items s v = units v (filter (\<lambda>i. \<not> Locked i \<and> Slot i \<noteq> s) items)"

definition material_ok :: "refine_material \<Rightarrow> bool" where
  "material_ok m \<longleftrightarrow> mVnum m \<noteq> 0 \<and> 0 < sint (mCount m)"

text \<open>A plan fits a slice when every entry takes units an unlocked cell has, at most once.\<close>

definition plan_fits :: "plan_entry list \<Rightarrow> cell_map \<Rightarrow> bool" where
  "plan_fits plan m \<longleftrightarrow> distinct (map planSlot plan) \<and>
     (\<forall>e \<in> set plan. \<exists>i. m (planSlot e) = Some i \<and> \<not> Locked i \<and> Vnum i = planVnum e \<and>
        planConsume e \<noteq> 0 \<and> planConsume e \<le> Count i)"

fun debit :: "plan_entry list \<Rightarrow> cell_map \<Rightarrow> cell_map" where
  "debit [] m = m"
| "debit (e # es) m =
     debit es (m(planSlot e := Option.bind (m (planSlot e)) (take_units (planConsume e))))"

lemma needed_simps [simp]:
  "needed [] v = 0"
  "needed (m # ms) v = (if mVnum m = v then nat (sint (mCount m)) else 0) + needed ms v"
  by (simp_all add: needed_def)

lemma consumed_simps [simp]:
  "consumed [] v = 0"
  "consumed (e # es) v = (if planVnum e = v then unat (planConsume e) else 0) + consumed es v"
  "consumed (a @ b) v = consumed a v + consumed b v"
  by (simp_all add: consumed_def)

lemma consumed_sort [simp]: "consumed (sort_key f plan) v = consumed plan v"
  by (simp add: consumed_def sum_list_map_sort_key)

lemma remaining_of_simps [simp]:
  "remaining_of Map.empty v = 0"
  "remaining_of (m(w \<mapsto> n)) v = (if v = w then n else remaining_of m v)"
  by (simp_all add: remaining_of_def)

lemma needed_le: "needed ms v \<le> length ms * 2 ^ 31"
proof (induction ms)
  case (Cons m ms)
  have "nat (sint (mCount m)) \<le> 2 ^ 31"
    using sint_i32_bounds(2) [of "mCount m"] by (simp add: max_i32_def)
  with Cons show ?case by simp
qed simp

lemma needed_pos: "material_ok m \<Longrightarrow> m \<in> set ms \<Longrightarrow> 0 < needed ms (mVnum m)"
  by (induction ms) (auto simp: material_ok_def)

lemma needed_other: "v \<notin> mVnum ` set ms \<Longrightarrow> needed ms v = 0"
  by (induction ms) auto

lemma unat_scast_nonneg:
  fixes c :: i32
  assumes "0 \<le> sint c"
  shows "unat (scast c :: u64) = nat (sint c)"
proof -
  have "sint c < 2 ^ 31" using sint_i32_bounds(2) [of c] by (simp add: max_i32_def)
  with assms have "take_bit 64 (sint c) = sint c"
    by (intro take_bit_int_eq_self) simp_all
  moreover have "uint (scast c :: u64) = take_bit 64 (sint c)"
    by (simp only: scast_eq uint_word_of_int_eq) simp
  ultimately show ?thesis by (simp only: unat_eq_nat_uint)
qed

section \<open>Planning is exact\<close>

lemma gather_materials_None:
  "gather_materials ms rem order = None \<longleftrightarrow> (\<exists>m \<in> set ms. \<not> material_ok m)"
  by (induction ms arbitrary: rem order) (auto simp: material_ok_def)

lemma gather_materials_Some:
  assumes "gather_materials ms rem order = Some (rem', order')"
    and "\<forall>v. unat (remaining_of rem v) + needed ms v < 2 ^ 64"
  shows "(\<forall>v. unat (remaining_of rem' v) = unat (remaining_of rem v) + needed ms v) \<and>
    set order' = set order \<union> (mVnum ` set ms - dom rem) \<and> dom rem' = dom rem \<union> mVnum ` set ms"
  using assms
proof (induction ms arbitrary: rem order)
  case (Cons m ms)
  let ?v = "mVnum m" and ?n = "remaining_of rem (mVnum m) + scast (mCount m)"
  let ?o = "if rem ?v = None then order @ [?v] else order"
  from Cons.prems(1) have m: "material_ok m" and rest: "gather_materials ms (rem(?v \<mapsto> ?n)) ?o = Some (rem', order')"
    by (auto simp: material_ok_def split: if_split_asm)
  have n: "unat ?n = unat (remaining_of rem ?v) + nat (sint (mCount m))"
    using m Cons.prems(2) [rule_format, of ?v] unat_add_no_wrap [of "remaining_of rem ?v" "scast (mCount m)"]
    by (simp add: unat_scast_nonneg material_ok_def)
  have room: "\<forall>w. unat (remaining_of (rem(?v \<mapsto> ?n)) w) + needed ms w < 2 ^ 64"
  proof
    show "unat (remaining_of (rem(?v \<mapsto> ?n)) w) + needed ms w < 2 ^ 64" for w
      using n Cons.prems(2) [rule_format, of w] by (simp split: if_split_asm)
  qed
  have ih: "(\<forall>v. unat (remaining_of rem' v) = unat (remaining_of (rem(?v \<mapsto> ?n)) v) + needed ms v) \<and>
      set order' = set ?o \<union> (mVnum ` set ms - dom (rem(?v \<mapsto> ?n))) \<and>
      dom rem' = dom (rem(?v \<mapsto> ?n)) \<union> mVnum ` set ms"
    by (rule Cons.IH [OF rest room])
  show ?case
  proof (intro conjI allI)
    show "unat (remaining_of rem' v) = unat (remaining_of rem v) + needed (m # ms) v" for v
      using n by (auto simp: conjunct1 [OF ih, rule_format])
    show "set order' = set order \<union> (mVnum ` set (m # ms) - dom rem)"
      by (auto simp: conjunct1 [OF conjunct2 [OF ih]] split: if_split_asm)
    show "dom rem' = dom rem \<union> mVnum ` set (m # ms)"
      by (simp add: conjunct2 [OF conjunct2 [OF ih]])
  qed
qed simp

lemma plan_loop_acc:
  "plan_loop items is rem plan =
     (case plan_loop items is rem [] of None \<Rightarrow> None | Some (p, rem') \<Rightarrow> Some (plan @ p, rem'))"
proof (induction "is" arbitrary: rem plan)
  case (Cons i "is")
  have "plan_loop items is m (plan @ [e]) =
      (case plan_loop items is m [e] of None \<Rightarrow> None | Some (p, rem') \<Rightarrow> Some (plan @ p, rem'))" for m e
    by (subst Cons.IH [of m "plan @ [e]"], subst Cons.IH [of m "[e]"]) (simp split: option.split)
  then show ?case
    using Cons.IH [of rem plan] by (simp add: Let_def)
qed simp

text \<open>One step of the plan takes as much as is needed and as the cell holds.\<close>

lemma take_amount:
  fixes need :: u64 and c :: u16
  assumes "consume = (if need < ucast c then need else ucast c)" and "need \<noteq> 0" and "c \<noteq> 0"
  shows "unat consume = min (unat need) (unat c)" and "consume \<noteq> 0" and "\<not> 65535 < consume"
    and "unat (ucast consume :: u16) = min (unat need) (unat c)"
    and "unat (need - consume) + min (unat need) (unat c) = unat need"
    and "(ucast consume :: u16) \<noteq> 0" and "(ucast consume :: u16) \<le> c"
proof -
  have c: "unat (ucast c :: u64) = unat c" by simp
  have cb: "unat c < 2 ^ 16" using unsigned_less [of c, where ?'a = nat] by simp
  show m: "unat consume = min (unat need) (unat c)"
    using assms(1) c by (simp add: word_less_nat_alt min_def)
  have pos: "0 < min (unat need) (unat c)"
    using assms(2,3) by (simp add: unat_gt_0)
  then show "consume \<noteq> 0" using m by auto
  show "\<not> 65535 < consume" using m cb by (simp add: word_less_nat_alt)
  show u: "unat (ucast consume :: u16) = min (unat need) (unat c)"
    using m cb by (simp add: unsigned_ucast_eq take_bit_nat_eq_self)
  show "unat (need - consume) + min (unat need) (unat c) = unat need"
    using m unat_sub_le [of consume need] by (simp add: word_le_nat_alt)
  show "(ucast consume :: u16) \<noteq> 0" using u pos by auto
  show "(ucast consume :: u16) \<le> c" using u by (simp add: word_le_nat_alt)
qed

lemma min_step: "d + min n c = n \<Longrightarrow> min n c + min d s = min n (c + s)" for n c d s :: nat
  by linarith

definition entry_of :: "item_instance \<Rightarrow> plan_entry \<Rightarrow> bool" where
  "entry_of item e \<longleftrightarrow> planSlot e = Slot item \<and> planVnum e = Vnum item \<and>
     planConsume e \<noteq> 0 \<and> planConsume e \<le> Count item"

lemma plan_loop_post:
  assumes "\<forall>i \<in> set is. Count (items ! i) \<noteq> 0"
  shows "\<exists>plan left. plan_loop items is rem [] = Some (plan, left) \<and>
    (\<forall>v. consumed plan v = min (unat (remaining_of rem v)) (units v (map ((!) items) is)) \<and>
         unat (remaining_of left v) + consumed plan v = unat (remaining_of rem v)) \<and>
    (\<forall>e \<in> set plan. \<exists>i \<in> set is. entry_of (items ! i) e) \<and>
    (distinct (map (\<lambda>i. Slot (items ! i)) is) \<longrightarrow> distinct (map planSlot plan))"
  using assms
proof (induction "is" arbitrary: rem)
  case (Cons i "is")
  let ?i = "items ! i"
  let ?need = "remaining_of rem (Vnum ?i)"
  have pos: "Count ?i \<noteq> 0" "\<forall>i \<in> set is. Count (items ! i) \<noteq> 0" using Cons.prems by simp_all
  show ?case
  proof (cases "?need = 0")
    case True
    have same: "min (unat (remaining_of rem v)) (units v (map ((!) items) (i # is))) =
        min (unat (remaining_of rem v)) (units v (map ((!) items) is))" for v
      using True by (cases "v = Vnum ?i") (simp_all add: units_in_def)
    have "plan_loop items (i # is) rem [] = plan_loop items is rem []" using True by simp
    moreover obtain plan left where "plan_loop items is rem [] = Some (plan, left)"
      and "\<forall>v. consumed plan v = min (unat (remaining_of rem v)) (units v (map ((!) items) is)) \<and>
         unat (remaining_of left v) + consumed plan v = unat (remaining_of rem v)"
      and "\<forall>e \<in> set plan. \<exists>i \<in> set is. entry_of (items ! i) e"
      and "distinct (map (\<lambda>i. Slot (items ! i)) is) \<longrightarrow> distinct (map planSlot plan)"
      using Cons.IH [OF pos(2), of rem] by blast
    moreover have "distinct (map (\<lambda>i. Slot (items ! i)) (i # is)) \<Longrightarrow> distinct (map (\<lambda>i. Slot (items ! i)) is)"
      by simp
    ultimately show ?thesis unfolding same by (metis list.set_intros(2))
  next
    case False
    define c where "c = (if ?need < ucast (Count ?i) then ?need else ucast (Count ?i))"
    note amount = take_amount [OF c_def False pos(1)]
    let ?rem = "rem(Vnum ?i \<mapsto> ?need - c)"
    let ?e = "\<lparr>planSlot = Slot ?i, planVnum = Vnum ?i, planConsume = ucast c\<rparr> :: plan_entry"
    obtain plan left where p: "plan_loop items is ?rem [] = Some (plan, left)"
      and c: "\<And>v. consumed plan v = min (unat (remaining_of ?rem v)) (units v (map ((!) items) is))"
        "\<And>v. unat (remaining_of left v) + consumed plan v = unat (remaining_of ?rem v)"
      and e: "\<forall>e \<in> set plan. \<exists>i \<in> set is. entry_of (items ! i) e"
      and d: "distinct (map (\<lambda>i. Slot (items ! i)) is) \<longrightarrow> distinct (map planSlot plan)"
      using Cons.IH [OF pos(2), of ?rem] by blast
    have "plan_loop items (i # is) rem [] = plan_loop items is ?rem [?e]"
      using False amount(2,3) by (simp add: Let_def c_def [symmetric])
    also have "\<dots> = Some (?e # plan, left)"
      using plan_loop_acc [of items "is" ?rem "[?e]"] p by simp
    finally have run: "plan_loop items (i # is) rem [] = Some (?e # plan, left)" .
    have "consumed (?e # plan) v = min (unat (remaining_of rem v)) (units v (map ((!) items) (i # is)))" for v
    proof (cases "v = Vnum ?i")
      case True
      then show ?thesis
        using min_step [OF amount(5), of "units v (map ((!) items) is)"] by (simp add: c(1) amount(4) units_in_def)
    qed (simp add: c(1) units_in_def)
    moreover have "unat (remaining_of left v) + consumed (?e # plan) v = unat (remaining_of rem v)" for v
      using c(2) [of v] amount(4,5) by (cases "v = Vnum ?i") auto
    moreover have "entry_of ?i ?e" using amount(6,7) by (simp add: entry_of_def)
    then have "\<forall>e \<in> set (?e # plan). \<exists>i \<in> set (i # is). entry_of (items ! i) e" using e by auto
    moreover have "distinct (map planSlot (?e # plan))" if "distinct (map (\<lambda>i. Slot (items ! i)) (i # is))"
      using that d e by (auto simp: entry_of_def)
    ultimately show ?thesis using run by blast
  qed
qed simp

lemma map_nth_filter: "map ((!) xs) (filter (\<lambda>i. P (xs ! i)) [0..<length xs]) = filter P xs"
proof -
  have "filter P (map ((!) xs) [0..<length xs]) = map ((!) xs) (filter (P \<circ> (!) xs) [0..<length xs])"
    by (rule filter_map)
  then show ?thesis by (simp add: map_nth comp_def)
qed

lemma units_filter_kind:
  "v \<in> D \<Longrightarrow> units v (filter (\<lambda>i. Q i \<and> Vnum i \<in> D) items) = units v (filter Q items)"
  "v \<notin> D \<Longrightarrow> units v (filter (\<lambda>i. Q i \<and> Vnum i \<in> D) items) = 0"
  by (induction items) (auto simp: units_in_def)

lemma material_candidate_iff:
  "carried_ok i \<Longrightarrow> material_candidate rem s i \<longleftrightarrow> (\<not> Locked i \<and> Slot i \<noteq> s) \<and> Vnum i \<in> dom rem"
  by (auto simp: material_candidate_def dest: carried_okD)

text \<open>The cells the plan looks at, in the order of their slots.\<close>

definition candidates :: "item_instance list \<Rightarrow> slot_index \<Rightarrow> remaining_map \<Rightarrow> nat list" where
  "candidates items s rem = sort_key (\<lambda>i. Slot (items ! i))
     (filter (\<lambda>i. material_candidate rem s (items ! i)) [0..<length items])"

lemma candidates_props:
  assumes wf: "wf_items a b"
  shows "i \<in> set (candidates a s rem) \<Longrightarrow> i < length a \<and> \<not> Locked (a ! i) \<and> Slot (a ! i) \<noteq> s"
    and "distinct (map (\<lambda>i. Slot (a ! i)) (candidates a s rem))"
    and "units v (map ((!) a) (candidates a s rem)) = (if v \<in> dom rem then free_units a s v else 0)"
proof -
  let ?f = "filter (\<lambda>i. material_candidate rem s (a ! i)) [0..<length a]"
  show "i \<in> set (candidates a s rem) \<Longrightarrow> i < length a \<and> \<not> Locked (a ! i) \<and> Slot (a ! i) \<noteq> s"
    by (auto simp: candidates_def material_candidate_def)
  have m: "map (\<lambda>i. f (a ! i)) ?f = map f (filter (material_candidate rem s) a)" for f
    by (simp add: map_nth_filter [of a "material_candidate rem s", symmetric] comp_def)
  have "distinct (map Slot (filter (material_candidate rem s) a))"
    using wf_itemsD(2) [OF wf] by (rule distinct_map_filter)
  then show "distinct (map (\<lambda>i. Slot (a ! i)) (candidates a s rem))"
    unfolding candidates_def distinct_map_sort_key by (simp only: m)
  have "units v (map ((!) a) (candidates a s rem)) = units v (map ((!) a) ?f)"
    by (rule units_mset) (simp add: candidates_def)
  also have "\<dots> = units v (filter (material_candidate rem s) a)"
    by (simp add: map_nth_filter)
  also have "filter (material_candidate rem s) a =
      filter (\<lambda>i. (\<not> Locked i \<and> Slot i \<noteq> s) \<and> Vnum i \<in> dom rem) a"
    using wf_itemsD(1) [OF wf] by (intro filter_cong refl material_candidate_iff)
  finally show "units v (map ((!) a) (candidates a s rem)) = (if v \<in> dom rem then free_units a s v else 0)"
    by (cases "v \<in> dom rem") (simp_all only: units_filter_kind free_units_def if_True if_False not_False_eq_True)
qed

lemma planRefineMaterialChanges_exact:
  assumes wf: "wf_items a b" and len: "length ms < 2 ^ 32"
  shows "planRefineMaterialChanges a s ms =
      (if (\<forall>m \<in> set ms. material_ok m) \<and> (\<forall>v. needed ms v \<le> free_units a s v)
       then planRefineMaterialChanges a s ms else None)"
    and "(\<forall>m \<in> set ms. material_ok m) \<Longrightarrow> (\<forall>v. needed ms v \<le> free_units a s v) \<Longrightarrow>
      \<exists>plan. planRefineMaterialChanges a s ms = Some plan \<and> plan_fits plan (cells a) \<and>
        s \<notin> planSlot ` set plan \<and> (\<forall>v. consumed plan v = needed ms v)"
proof -
  let ?aff = "\<forall>v. needed ms v \<le> free_units a s v"
  have goal: "(planRefineMaterialChanges a s ms = None \<and> \<not> ((\<forall>m \<in> set ms. material_ok m) \<and> ?aff)) \<or>
      ((\<forall>m \<in> set ms. material_ok m) \<and> ?aff \<and>
       (\<exists>plan. planRefineMaterialChanges a s ms = Some plan \<and> plan_fits plan (cells a) \<and>
        s \<notin> planSlot ` set plan \<and> (\<forall>v. consumed plan v = needed ms v)))"
  proof (cases "gather_materials ms Map.empty []")
    case None
    then have "planRefineMaterialChanges a s ms = None"
      by (simp only: planRefineMaterialChanges_def option.case)
    moreover have "\<not> (\<forall>m \<in> set ms. material_ok m)"
      using None gather_materials_None by blast
    ultimately show ?thesis by blast
  next
    case (Some x)
    obtain rem order where x: "gather_materials ms Map.empty [] = Some (rem, order)"
      using Some by (cases x) auto
    have "needed ms v < 2 ^ 64" for v
      using needed_le [of ms v] len by simp
    then have g: "\<And>v. unat (remaining_of rem v) = needed ms v" "set order = mVnum ` set ms"
      "dom rem = mVnum ` set ms"
      using gather_materials_Some [OF x] by auto
    have valid: "\<forall>m \<in> set ms. material_ok m"
      using x gather_materials_None [of ms Map.empty "[]"] by auto
    let ?is = "candidates a s rem"
    have pos: "\<forall>i \<in> set ?is. Count (a ! i) \<noteq> 0"
      using candidates_props(1) [OF wf] wf_carried_nth [OF wf] carried_okD(3) by blast
    obtain plan left where p: "plan_loop a ?is rem [] = Some (plan, left)"
      and pl: "\<forall>v. consumed plan v = min (unat (remaining_of rem v)) (units v (map ((!) a) ?is)) \<and>
         unat (remaining_of left v) + consumed plan v = unat (remaining_of rem v)"
      and e: "\<forall>e \<in> set plan. \<exists>i \<in> set ?is. entry_of (a ! i) e"
      and d: "distinct (map planSlot plan)"
      using plan_loop_post [OF pos, of rem] candidates_props(2) [OF wf, of s rem] by blast
    have c: "consumed plan v = min (needed ms v) (if v \<in> dom rem then free_units a s v else 0)"
      and l: "unat (remaining_of left v) + consumed plan v = needed ms v" for v
      using pl [rule_format, of v, unfolded g(1) candidates_props(3) [OF wf]] by blast+
    have c': "consumed plan v = min (needed ms v) (free_units a s v)" for v
      using c [of v] g(3) needed_other [of v ms] by auto
    have zero: "remaining_of left v = 0 \<longleftrightarrow> needed ms v \<le> free_units a s v" for v
      using l [of v] c' [of v] by (auto simp: unat_eq_zero [symmetric])
    have "?aff \<longleftrightarrow> (\<forall>v \<in> mVnum ` set ms. needed ms v \<le> free_units a s v)"
    proof (intro iffI allI)
      fix v assume "\<forall>v \<in> mVnum ` set ms. needed ms v \<le> free_units a s v"
      then show "needed ms v \<le> free_units a s v"
        using needed_other [of v ms] by (cases "v \<in> mVnum ` set ms") auto
    qed simp
    then have "\<not> list_ex (\<lambda>v. remaining_of left v \<noteq> 0) order \<longleftrightarrow> ?aff"
      by (simp add: list_ex_iff g(2) zero)
    moreover have "plan_fits (sort_key planSlot plan) (cells a)"
      unfolding plan_fits_def distinct_map_sort_key
    proof (intro conjI ballI d)
      fix x assume "x \<in> set (sort_key planSlot plan)"
      then obtain i where i: "i \<in> set ?is" "entry_of (a ! i) x" using e by auto
      note k = candidates_props(1) [OF wf i(1)]
      have "cells a (Slot (a ! i)) = Some (a ! i)"
        unfolding cells_def using k by (intro lookup_nth wf_itemsD(2) [OF wf]) simp
      then show "\<exists>i. cells a (planSlot x) = Some i \<and> \<not> Locked i \<and> Vnum i = planVnum x \<and>
          planConsume x \<noteq> 0 \<and> planConsume x \<le> Count i"
        using i(2) k by (auto simp: entry_of_def)
    qed
    moreover have "s \<notin> planSlot ` set (sort_key planSlot plan)"
      using e candidates_props(1) [OF wf] by (fastforce simp: entry_of_def)
    moreover have "\<forall>v. consumed (sort_key planSlot plan) v = needed ms v" if ?aff
      using that c' by simp
    moreover have "planRefineMaterialChanges a s ms =
        (if list_ex (\<lambda>v. remaining_of left v \<noteq> 0) order then None else Some (sort_key planSlot plan))"
      using x p by (simp add: planRefineMaterialChanges_def candidates_def)
    ultimately show ?thesis using valid by auto
  qed
  then show "planRefineMaterialChanges a s ms =
      (if (\<forall>m \<in> set ms. material_ok m) \<and> ?aff then planRefineMaterialChanges a s ms else None)"
    by presburger
  show "\<exists>plan. planRefineMaterialChanges a s ms = Some plan \<and> plan_fits plan (cells a) \<and>
      s \<notin> planSlot ` set plan \<and> (\<forall>v. consumed plan v = needed ms v)"
    if "\<forall>m \<in> set ms. material_ok m" ?aff
    using goal that by blast
qed

section \<open>Paying is exact\<close>

lemma plan_fits_Cons:
  assumes "plan_fits (e # es) m"
  obtains i where "m (planSlot e) = Some i" and "\<not> Locked i" and "Vnum i = planVnum e"
    and "planConsume e \<noteq> 0" and "planConsume e \<le> Count i"
    and "\<And>x. plan_fits es (m(planSlot e := x))"
proof -
  have "plan_fits es (m(planSlot e := x))" for x
    using assms unfolding plan_fits_def by (simp; metis image_eqI)
  then show ?thesis using assms that by (auto simp: plan_fits_def)
qed

lemma debit_other: "s \<notin> planSlot ` set plan \<Longrightarrow> debit plan m s = m s"
  by (induction plan arbitrary: m) auto

lemma debit_at:
  "distinct (map planSlot plan) \<Longrightarrow> e \<in> set plan \<Longrightarrow>
   debit plan m (planSlot e) = Option.bind (m (planSlot e)) (take_units (planConsume e))"
proof (induction plan arbitrary: m)
  case (Cons x plan)
  then show ?case
    by (cases "e = x") (auto simp: debit_other image_iff)
qed simp

text \<open>Every change of the report describes the cell it names.\<close>

definition reports :: "material_change list \<Rightarrow> cell_map \<Rightarrow> bool" where
  "reports changes m \<longleftrightarrow>
     (\<forall>c \<in> set changes. m (chSlot c) = (if chRemoved c then None else Some (chItem c)))"

text \<open>Taking units out of one cell, with the rest of the slice in place.\<close>

lemma take_step:
  assumes wf: "wf_items a b" and i: "findInventorySlot a s = Some i" and c: "c \<noteq> 0" "c \<le> Count (a ! i)"
  shows "Count (a ! i) = c \<Longrightarrow> wf_items (remove_nth i a) b \<and>
      cells (remove_nth i a) = (cells a)(s := take_units c (a ! i)) \<and>
      units v (remove_nth i a) + (if Vnum (a ! i) = v then unat c else 0) = units v a"
    and "Count (a ! i) \<noteq> c \<Longrightarrow> wf_items (a[i := (a ! i)\<lparr>Count := Count (a ! i) - c\<rparr>]) b \<and>
      cells (a[i := (a ! i)\<lparr>Count := Count (a ! i) - c\<rparr>]) = (cells a)(s := take_units c (a ! i)) \<and>
      units v (a[i := (a ! i)\<lparr>Count := Count (a ! i) - c\<rparr>]) + (if Vnum (a ! i) = v then unat c else 0) = units v a \<and>
      Count (a ! i) - c \<noteq> 0"
proof -
  show "wf_items (remove_nth i a) b \<and> cells (remove_nth i a) = (cells a)(s := take_units c (a ! i)) \<and>
      units v (remove_nth i a) + (if Vnum (a ! i) = v then unat c else 0) = units v a"
    if "Count (a ! i) = c"
    using edit_remove(1,2) [OF wf i] edit_remove(3) [OF wf i, where v = v] that by (auto simp: take_units_def units_in_def)
  assume ne: "Count (a ! i) \<noteq> c"
  then have nz: "Count (a ! i) - c \<noteq> 0" and u: "unat (Count (a ! i) - c) = unat (Count (a ! i)) - unat c"
    using c(2) unat_minus_count [of c "Count (a ! i)"] by simp_all
  note e = edit_recount [OF wf i nz]
  have "unat c \<le> unat (Count (a ! i))" using c(2) by (simp add: word_le_nat_alt)
  then have "units v (a[i := (a ! i)\<lparr>Count := Count (a ! i) - c\<rparr>]) + (if Vnum (a ! i) = v then unat c else 0) = units v a"
    using e(3) [of v] u by (simp add: units_in_def split: if_splits)
  then show "wf_items (a[i := (a ! i)\<lparr>Count := Count (a ! i) - c\<rparr>]) b \<and>
      cells (a[i := (a ! i)\<lparr>Count := Count (a ! i) - c\<rparr>]) = (cells a)(s := take_units c (a ! i)) \<and>
      units v (a[i := (a ! i)\<lparr>Count := Count (a ! i) - c\<rparr>]) + (if Vnum (a ! i) = v then unat c else 0) = units v a \<and>
      Count (a ! i) - c \<noteq> 0"
    using e(1,2) ne nz by (simp add: take_units_def)
qed

lemma debit_loop_post:
  assumes "wf_items a b" and "plan_fits plan (cells a)" and "planSlot ` set plan \<inter> exclude = {}"
  shows "\<exists>a' chs. debit_loop exclude plan a cs = Some (a', cs @ chs) \<and> wf_items a' b \<and>
    cells a' = debit plan (cells a) \<and> (\<forall>v. units v a' + consumed plan v = units v a) \<and>
    reports chs (cells a') \<and> map chSlot chs = map planSlot plan"
  using assms
proof (induction plan arbitrary: a cs)
  case Nil
  then show ?case by (simp add: reports_def)
next
  case (Cons e es)
  let ?s = "planSlot e" and ?c = "planConsume e"
  from Cons.prems(2) obtain i where i: "cells a ?s = Some i" "\<not> Locked i" "Vnum i = planVnum e" "?c \<noteq> 0" "?c \<le> Count i"
    and fits: "\<And>x. plan_fits es ((cells a)(?s := x))" by (rule plan_fits_Cons) blast
  obtain k where k: "findInventorySlot a ?s = Some k"
    using cells_find_None [OF Cons.prems(1), of ?s] i(1) by auto
  note fk = cells_find_Some [OF Cons.prems(1) k]
  have ik: "a ! k = i" using fk(3) i(1) by simp
  note ok = carried_okD(4) [OF wf_carried_nth [OF Cons.prems(1) fk(1)]]
  note step = take_step [OF Cons.prems(1) k i(4), unfolded ik, OF i(5)]
  let ?ch = "if Count i = ?c then \<lparr>chSlot = ?s, chRemoved = True, chItem = zero_item\<rparr>
     else \<lparr>chSlot = ?s, chRemoved = False, chItem = i\<lparr>Count := Count i - ?c\<rparr>\<rparr>"
  let ?a = "if Count i = ?c then remove_nth k a else a[k := i\<lparr>Count := Count i - ?c\<rparr>]"
  have a: "wf_items ?a b" "cells ?a = (cells a)(?s := take_units ?c i)"
    "units v ?a + (if Vnum i = v then unat ?c else 0) = units v a" for v
    using step(1) [where v = v] step(2) [where v = v] by (cases "Count i = ?c"; simp)+
  have valid: "Validate (i\<lparr>Count := Count i - ?c\<rparr>) = None" if "Count i \<noteq> ?c"
    using step(2) [OF that] wf_carried_nth [OF Cons.prems(1) fk(1)] ik
    by (simp add: carried_ok_def Validate_None_iff)
  have "debit_loop exclude (e # es) a cs = debit_loop exclude es ?a (cs @ [?ch])"
    using k ik i(2,3) leD [OF i(5)] ok Cons.prems(3) fk(1) valid by (simp add: Let_def)
  moreover have "plan_fits es (cells ?a)" unfolding a(2) by (rule fits)
  moreover have "planSlot ` set es \<inter> exclude = {}" using Cons.prems(3) by auto
  ultimately obtain a' chs where run: "debit_loop exclude (e # es) a cs = Some (a', (cs @ [?ch]) @ chs)"
    and r: "wf_items a' b" "cells a' = debit es (cells ?a)" "\<And>v. units v a' + consumed es v = units v ?a"
    "reports chs (cells a')" "map chSlot chs = map planSlot es"
    using Cons.IH [OF a(1), of "cs @ [?ch]"] by metis
  have "cells a' = debit (e # es) (cells a)"
    using r(2) a(2) i(1) by simp
  moreover have "units v a' + consumed (e # es) v = units v a" for v
    using r(3) [of v] a(3) [of v] i(3) by (simp split: if_splits)
  moreover have "?s \<notin> planSlot ` set es" using Cons.prems(2) by (auto simp: plan_fits_def)
  then have "cells a' ?s = take_units ?c i" using r(2) a(2) by (simp add: debit_other)
  then have "reports (?ch # chs) (cells a')"
    using r(4) by (auto simp: reports_def take_units_def)
  ultimately show ?case
    using run r(1,5) by (intro exI [of _ a'] exI [of _ "?ch # chs"]) simp
qed

lemma plan_and_pay:
  assumes "wf_items a b" and "length ms < 2 ^ 32" and "planRefineMaterialChanges a s ms = Some plan"
    and "planSlot ` set plan \<inter> exclude = {}"
  shows "\<exists>a' chs. debit_loop exclude plan a [] = Some (a', chs) \<and> wf_items a' b \<and> cells a' s = cells a s \<and>
    cells a' = debit plan (cells a) \<and> (\<forall>v. units v a' + needed ms v = units v a) \<and> reports chs (cells a')"
proof -
  note ex = planRefineMaterialChanges_exact [OF assms(1,2), of s]
  from ex(1) assms(3) have "(\<forall>m \<in> set ms. material_ok m) \<and> (\<forall>v. needed ms v \<le> free_units a s v)"
    by (metis option.distinct(1))
  then have p: "plan_fits plan (cells a)" "s \<notin> planSlot ` set plan" "\<And>v. consumed plan v = needed ms v"
    using ex(2) assms(3) by auto
  show ?thesis
    using debit_loop_post [OF assms(1) p(1) assms(4), of "[]"] debit_other [OF p(2), of "cells a"] p(3) by auto
qed

text \<open>
  C24: planning and paying with materials. \<open>planRefineMaterialChanges\<close> finds a plan exactly when
  every material names a kind and a positive number and the unlocked cells outside the source
  hold at least what is needed of every kind (materials of one kind add up); the loop that
  carries the plan out then never fails, takes exactly the needed units of every kind, leaves
  the source cell alone and reports the cells it changed.
\<close>

theorem material_plan_exact:
  assumes "wf_items a b" and "length ms < 2 ^ 32"
  shows "(planRefineMaterialChanges a s ms \<noteq> None \<longleftrightarrow>
      (\<forall>m \<in> set ms. material_ok m) \<and> (\<forall>v. needed ms v \<le> free_units a s v)) \<and>
    (\<forall>plan. planRefineMaterialChanges a s ms = Some plan \<longrightarrow>
      (\<exists>a' chs. debit_loop {} plan a [] = Some (a', chs) \<and> wf_items a' b \<and>
         cells a' s = cells a s \<and> cells a' = debit plan (cells a) \<and>
         (\<forall>v. units v a' + needed ms v = units v a) \<and> reports chs (cells a')))"
proof (intro conjI allI impI)
  show "planRefineMaterialChanges a s ms \<noteq> None \<longleftrightarrow>
      (\<forall>m \<in> set ms. material_ok m) \<and> (\<forall>v. needed ms v \<le> free_units a s v)"
    using planRefineMaterialChanges_exact [OF assms, of s] by (metis option.distinct(1))
qed (use plan_and_pay [OF assms, where exclude = "{}"] in simp)

theorem material_plan_exact_witness:
  "\<exists>plan a' chs. planRefineMaterialChanges (liveInventory sample_runtime) 6 [\<lparr>mVnum = 27, mCount = 4\<rparr>] = Some plan \<and>
     debit_loop {} plan (liveInventory sample_runtime) [] = Some (a', chs) \<and> units 27 a' = 1"
proof -
  let ?ms = "[\<lparr>mVnum = 27, mCount = 4\<rparr>]"
  have wf: "wf_items (liveInventory sample_runtime) (liveEquipment sample_runtime)"
    using sample_runtime_wf by (rule wf_runtime_items)
  have u: "units 27 (liveInventory sample_runtime) = 5"
    by (simp add: units_in_def zero_item_def)
  have "(\<forall>m \<in> set ?ms. material_ok m) \<and> (\<forall>v. needed ?ms v \<le> free_units (liveInventory sample_runtime) 6 v)"
    by (simp add: material_ok_def free_units_def units_in_def zero_item_def)
  moreover have "length ?ms < 2 ^ 32" by simp
  note exact = material_plan_exact [OF wf this, of 6]
  ultimately obtain plan where p: "planRefineMaterialChanges (liveInventory sample_runtime) 6 ?ms = Some plan"
    using exact by (meson not_Some_eq)
  then obtain a' chs where d: "debit_loop {} plan (liveInventory sample_runtime) [] = Some (a', chs)"
    and "\<forall>v. units v a' + needed ?ms v = units v (liveInventory sample_runtime)"
    using conjunct2 [OF exact, rule_format, OF p] by blast
  then have "units 27 a' + needed ?ms 27 = 5" unfolding u [symmetric] by blast
  then have "units 27 a' = 1" by simp
  with p d show ?thesis by blast
qed

section \<open>Trades\<close>

text \<open>
  The postcondition of the operations that change the carried slice and the gold: a refusal
  leaves the runtime as it was; a success changes nothing else and keeps it well-formed.
\<close>

definition trade_post :: "(runtime \<Rightarrow> 'a \<Rightarrow> bool) \<Rightarrow> runtime \<Rightarrow> runtime \<Rightarrow> 'a option \<Rightarrow> bool" where
  "trade_post P r r' res \<longleftrightarrow>
     (case res of None \<Rightarrow> r' = r
      | Some x \<Rightarrow> r' = r\<lparr>liveGold := liveGold r', liveInventory := liveInventory r'\<rparr> \<and> wf_runtime r' \<and> P r' x)"

lemma trade_post_fail [sat_intros]: "trade_post P r r None"
  by (simp add: trade_post_def)

lemma trade_post_ok [sat_intros]:
  "wf_runtime r \<Longrightarrow> wf_items items (liveEquipment r) \<and> P (r\<lparr>liveGold := g, liveInventory := items\<rparr>) x \<Longrightarrow>
   trade_post P r (r\<lparr>liveGold := g, liveInventory := items\<rparr>) (Some x)"
  by (simp add: trade_post_def wf_runtime_def)

lemma trade_postD:
  "sat (trade_post P r) x \<Longrightarrow> x = (r', res) \<Longrightarrow>
   if res = None then r' = r
   else r' = r\<lparr>liveGold := liveGold r', liveInventory := liveInventory r'\<rparr> \<and> wf_runtime r' \<and> P r' (the res)"
  by (auto simp: sat_def trade_post_def split: option.split_asm)

lemma trade_post_SomeD:
  assumes "sat (trade_post P r) x" and "x = (r', Some y)"
  shows "r' = r\<lparr>liveGold := liveGold r', liveInventory := liveInventory r'\<rparr>" and "wf_runtime r'" and "P r' y"
  using assms by (simp_all add: sat_def trade_post_def)

lemma trade_post_mono:
  "sat (trade_post P r) x \<Longrightarrow> (\<And>r' y. P r' y \<Longrightarrow> P' r' y) \<Longrightarrow> sat (trade_post P' r) x"
  by (simp add: sat_def trade_post_def split: option.split_asm)

text \<open>An operation that only repackages the result of another keeps its postcondition.\<close>

lemma sat_repackage:
  "sat (trade_post P r) x \<Longrightarrow> (\<And>r' y. P r' y \<Longrightarrow> P' r' (f y)) \<Longrightarrow>
   sat (trade_post P' r) (case x of (r', None) \<Rightarrow> (r', None) | (r', Some y) \<Rightarrow> (r', Some (f y)))"
  by (cases x; cases "snd x") (simp_all add: sat_def trade_post_def)

end
