(* ===== verification/Player_Refine.thy ===== *)
theory Player_Refine
  imports Player_Plan Player_Use
begin

text \<open>
  Refining (\<open>internal/player/runtime.go\<close>): the preview of a refine, the four ways a confirmed
  refine ends (the source becomes the result, is destroyed, is kept, or is downgraded) and the
  roll that chooses between them. All four pay first, gold and materials, and then treat the
  source; the shared part is modelled once.
\<close>

section \<open>Preview\<close>

definition RefineRejectText :: "runtime \<Rightarrow> slot_index \<Rightarrow> template \<Rightarrow> string option" where
  "RefineRejectText r slot t =
     (if tRefineRejectText t = [] \<or> tRefineable t \<or> CarriedInventorySlotCount \<le> slot \<or>
         \<not> ValidTemplate t then None
      else case backed_item r slot t of
        None \<Rightarrow> None
      | Some _ \<Rightarrow> Some (tRefineRejectText t))"

record refine_information =
  rType :: u8
  rPosition :: slot_index
  rSourceVnum :: u32
  rResultVnum :: u32
  rCost :: i32
  rProbability :: i32
  rMaterials :: "refine_material list"

definition RefineInformation :: "runtime \<Rightarrow> slot_index \<Rightarrow> u8 \<Rightarrow> template \<Rightarrow> refine_information option" where
  "RefineInformation r slot refineType t =
     (case tRefineInfo t of
        None \<Rightarrow> None
      | Some info \<Rightarrow>
          if \<not> tRefineable t \<or> CarriedInventorySlotCount \<le> slot \<or> \<not> ValidTemplate t \<or>
             \<not> CanUseTemplate r t \<or> transfer_refused t then None
          else case backed_item r slot t of
            None \<Rightarrow> None
          | Some (_, item) \<Rightarrow>
              Some \<lparr>rType = refineType, rPosition = slot, rSourceVnum = Vnum item,
                rResultVnum = ResultVnum info, rCost = Cost info, rProbability = Probability info,
                rMaterials = Materials info\<rparr>)"

definition refineInfoEqual :: "refine_info \<Rightarrow> refine_info \<Rightarrow> bool" where
  "refineInfoEqual left right \<longleftrightarrow>
     \<not> (ResultVnum left \<noteq> ResultVnum right \<or> Cost left \<noteq> Cost right \<or>
        Probability left \<noteq> Probability right \<or> KeepOnFail left \<noteq> KeepOnFail right \<or>
        FailResultVnum left \<noteq> FailResultVnum right \<or>
        length (Materials left) \<noteq> length (Materials right)) \<and>
     list_all (\<lambda>(l, r). l = r) (zip (Materials left) (Materials right))"

section \<open>The part all outcomes share\<close>

text \<open>
  The guards on what the client confirmed: a source id, a non-negative cost, a result, and not
  too many materials.
\<close>

definition refine_request_ok :: "u64 \<Rightarrow> refine_info \<Rightarrow> bool" where
  "refine_request_ok sourceID remembered \<longleftrightarrow>
     \<not> (sourceID = 0 \<or> sint (Cost remembered) < 0 \<or> ResultVnum remembered = 0 \<or>
        MaxRefineMaterialCount < length (Materials remembered))"

text \<open>The preview must still say what the client was shown, and the result must be authored.\<close>

definition refine_accepts :: "runtime \<Rightarrow> slot_index \<Rightarrow> u8 \<Rightarrow> refine_info \<Rightarrow> template \<Rightarrow> template \<Rightarrow>
    refine_information option" where
  "refine_accepts r slot refineType remembered sourceTemplate resultTemplate =
     (case RefineInformation r slot refineType sourceTemplate of
        None \<Rightarrow> None
      | Some info \<Rightarrow>
          if rSourceVnum info = 0 then None
          else case tRefineInfo sourceTemplate of
            None \<Rightarrow> None
          | Some authored \<Rightarrow>
              if \<not> refineInfoEqual remembered authored \<or>
                 \<not> refineInfoEqual remembered \<lparr>ResultVnum = rResultVnum info, Cost = rCost info,
                     Probability = rProbability info, KeepOnFail = KeepOnFail authored,
                     FailResultVnum = FailResultVnum authored, Materials = rMaterials info\<rparr> then None
              else if \<not> ValidTemplate resultTemplate \<or> tVnum resultTemplate \<noteq> ResultVnum remembered then None
              else Some info)"

definition refine_source_ok :: "u64 \<Rightarrow> refine_information \<Rightarrow> item_instance \<Rightarrow> bool" where
  "refine_source_ok sourceID info item \<longleftrightarrow>
     \<not> (ID item \<noteq> sourceID \<or> Vnum item \<noteq> rSourceVnum info \<or> Equipped item \<or> Locked item \<or> Count item \<noteq> 1)"

text \<open>
  The charge: the gold left, the slice without the materials, the report, and the index of the
  source in that slice.
\<close>

definition refine_charge :: "runtime \<Rightarrow> slot_index \<Rightarrow> u64 \<Rightarrow> refine_info \<Rightarrow> refine_information \<Rightarrow>
    (u64 \<times> item_instance list \<times> material_change list \<times> nat) option" where
  "refine_charge r slot sourceID remembered info =
     (case findInventorySlot (liveInventory r) slot of
        None \<Rightarrow> None
      | Some index \<Rightarrow>
          if \<not> refine_source_ok sourceID info (liveInventory r ! index) then None
          else
            let cost = scast (Cost remembered) in
            if maxPointChangeCarrier < cost \<or> liveGold r < cost \<or> maxPointChangeCarrier < liveGold r then None
            else
              let nextGold = liveGold r - cost in
              case planRefineMaterialChanges (liveInventory r) slot (Materials remembered) of
                None \<Rightarrow> None
              | Some materialPlan \<Rightarrow>
                  case debit_loop {} materialPlan (cloneItemInstances (liveInventory r)) [] of
                    None \<Rightarrow> None
                  | Some (inventoryItems, materialChanges) \<Rightarrow>
                      case findInventorySlot inventoryItems slot of
                        None \<Rightarrow> None
                      | Some sourceIndex \<Rightarrow>
                          if \<not> refine_source_ok sourceID info (inventoryItems ! sourceIndex) then None
                          else Some (nextGold, inventoryItems, materialChanges, sourceIndex))"

section \<open>The four outcomes\<close>

record refine_payment =
  paidSlot :: slot_index
  paidChanges :: "material_change list"
  goldBefore :: u64
  goldAfter :: u64
  paidCost :: i32

record refine_success = refine_payment +
  refinedItem :: item_instance

definition payment :: "runtime \<Rightarrow> slot_index \<Rightarrow> material_change list \<Rightarrow> u64 \<Rightarrow> refine_info \<Rightarrow> refine_payment" where
  "payment r slot changes nextGold remembered =
     \<lparr>paidSlot = slot, paidChanges = changes, goldBefore = liveGold r, goldAfter = nextGold,
      paidCost = Cost remembered\<rparr>"

definition with_item :: "refine_payment \<Rightarrow> item_instance \<Rightarrow> refine_success" where
  "with_item p item = refine_payment.extend p (refine_success.fields item)"

definition ApplyRefineSuccess :: "runtime \<Rightarrow> slot_index \<Rightarrow> u8 \<Rightarrow> u64 \<Rightarrow> refine_info \<Rightarrow> template \<Rightarrow> template \<Rightarrow>
    (runtime, refine_success) outcome" where
  "ApplyRefineSuccess r slot refineType sourceID remembered sourceTemplate resultTemplate =
     (if \<not> refine_request_ok sourceID remembered \<or> sint (Probability remembered) \<noteq> 100 then (r, None)
      else case refine_accepts r slot refineType remembered sourceTemplate resultTemplate of
        None \<Rightarrow> (r, None)
      | Some info \<Rightarrow>
          case refine_charge r slot sourceID remembered info of
            None \<Rightarrow> (r, None)
          | Some (nextGold, inventoryItems, materialChanges, sourceIndex) \<Rightarrow>
              let resultItem = (inventoryItems ! sourceIndex)\<lparr>Vnum := ResultVnum remembered\<rparr> in
              if Validate resultItem \<noteq> None then (r, None)
              else
                (r\<lparr>liveGold := nextGold,
                   liveInventory := sortInventoryItems (inventoryItems[sourceIndex := resultItem])\<rparr>,
                 Some (with_item (payment r slot materialChanges nextGold remembered) resultItem)))"

definition ApplyRefineDestroyFailure :: "runtime \<Rightarrow> slot_index \<Rightarrow> u8 \<Rightarrow> u64 \<Rightarrow> refine_info \<Rightarrow> template \<Rightarrow>
    template \<Rightarrow> (runtime, refine_payment) outcome" where
  "ApplyRefineDestroyFailure r slot refineType sourceID remembered sourceTemplate resultTemplate =
     (if \<not> refine_request_ok sourceID remembered \<or> sint (Probability remembered) \<noteq> 0 then (r, None)
      else case refine_accepts r slot refineType remembered sourceTemplate resultTemplate of
        None \<Rightarrow> (r, None)
      | Some info \<Rightarrow>
          case refine_charge r slot sourceID remembered info of
            None \<Rightarrow> (r, None)
          | Some (nextGold, inventoryItems, materialChanges, sourceIndex) \<Rightarrow>
              (r\<lparr>liveGold := nextGold,
                 liveInventory := sortInventoryItems (removeInventoryIndex inventoryItems sourceIndex)\<rparr>,
               Some (payment r slot materialChanges nextGold remembered)))"

definition ApplyRefineKeepFailure :: "runtime \<Rightarrow> slot_index \<Rightarrow> u8 \<Rightarrow> u64 \<Rightarrow> refine_info \<Rightarrow> template \<Rightarrow>
    template \<Rightarrow> (runtime, refine_payment) outcome" where
  "ApplyRefineKeepFailure r slot refineType sourceID remembered sourceTemplate resultTemplate =
     (if \<not> refine_request_ok sourceID remembered \<or> \<not> KeepOnFail remembered \<or>
         sint (Probability remembered) < 1 \<or> 99 < sint (Probability remembered) then (r, None)
      else case refine_accepts r slot refineType remembered sourceTemplate resultTemplate of
        None \<Rightarrow> (r, None)
      | Some info \<Rightarrow>
          case refine_charge r slot sourceID remembered info of
            None \<Rightarrow> (r, None)
          | Some (nextGold, inventoryItems, materialChanges, sourceIndex) \<Rightarrow>
              (r\<lparr>liveGold := nextGold, liveInventory := sortInventoryItems inventoryItems\<rparr>,
               Some (payment r slot materialChanges nextGold remembered)))"

text \<open>The guards on the downgrade template stand where the code has them, between the two parts.\<close>

definition ApplyRefineDowngradeFailure :: "runtime \<Rightarrow> slot_index \<Rightarrow> u8 \<Rightarrow> u64 \<Rightarrow> refine_info \<Rightarrow> template \<Rightarrow>
    template \<Rightarrow> template \<Rightarrow> (runtime, refine_success) outcome" where
  "ApplyRefineDowngradeFailure r slot refineType sourceID remembered sourceTemplate resultTemplate failResultTemplate =
     (if \<not> refine_request_ok sourceID remembered \<or> KeepOnFail remembered \<or> FailResultVnum remembered = 0 \<or>
         sint (Probability remembered) < 1 \<or> 99 < sint (Probability remembered) then (r, None)
      else case refine_accepts r slot refineType remembered sourceTemplate resultTemplate of
        None \<Rightarrow> (r, None)
      | Some info \<Rightarrow>
          if \<not> ValidTemplate failResultTemplate \<or> tVnum failResultTemplate \<noteq> FailResultVnum remembered then (r, None)
          else if FailResultVnum remembered = rSourceVnum info \<or>
                  FailResultVnum remembered = ResultVnum remembered then (r, None)
          else case refine_charge r slot sourceID remembered info of
            None \<Rightarrow> (r, None)
          | Some (nextGold, inventoryItems, materialChanges, sourceIndex) \<Rightarrow>
              let resultItem = (inventoryItems ! sourceIndex)\<lparr>Vnum := FailResultVnum remembered\<rparr> in
              if Validate resultItem \<noteq> None then (r, None)
              else
                (r\<lparr>liveGold := nextGold,
                   liveInventory := sortInventoryItems (inventoryItems[sourceIndex := resultItem])\<rparr>,
                 Some (with_item (payment r slot materialChanges nextGold remembered) resultItem)))"

section \<open>The roll\<close>

text \<open>Go's struct of four flags and four payloads; a payload that is not set is \<open>None\<close>.\<close>

record refine_roll_result =
  Succeeded :: bool
  Destroyed :: bool
  Kept :: bool
  Downgraded :: bool
  rollSuccess :: "refine_success option"
  rollDestroy :: "refine_payment option"
  rollKeep :: "refine_payment option"
  rollDowngrade :: "refine_success option"

definition no_roll :: refine_roll_result where
  "no_roll = \<lparr>Succeeded = False, Destroyed = False, Kept = False, Downgraded = False,
     rollSuccess = None, rollDestroy = None, rollKeep = None, rollDowngrade = None\<rparr>"

definition certain :: "i32 \<Rightarrow> refine_info \<Rightarrow> refine_info" where
  "certain probability info = info\<lparr>Probability := probability, KeepOnFail := False, FailResultVnum := 0\<rparr>"

definition ApplyRefineWithRoll :: "runtime \<Rightarrow> slot_index \<Rightarrow> u8 \<Rightarrow> u64 \<Rightarrow> refine_info \<Rightarrow> template \<Rightarrow> template \<Rightarrow>
    template \<Rightarrow> int \<Rightarrow> (runtime, refine_roll_result) outcome" where
  "ApplyRefineWithRoll r slot refineType sourceID remembered sourceTemplate resultTemplate failResultTemplate roll =
     (if roll < 1 \<or> 100 < roll \<or> sint (Probability remembered) < 1 \<or> 99 < sint (Probability remembered) then (r, None)
      else case tRefineInfo sourceTemplate of
        None \<Rightarrow> (r, None)
      | Some authored \<Rightarrow>
          if \<not> refineInfoEqual remembered authored then (r, None)
          else if sint (i32_of roll) \<le> sint (Probability remembered) then
            (case ApplyRefineSuccess r slot refineType sourceID (certain 100 remembered)
                    (sourceTemplate\<lparr>tRefineInfo := Some (certain 100 authored)\<rparr>) resultTemplate of
               (r', None) \<Rightarrow> (r', None)
             | (r', Some success) \<Rightarrow> (r', Some (no_roll\<lparr>Succeeded := True, rollSuccess := Some success\<rparr>)))
          else if KeepOnFail remembered then
            (case ApplyRefineKeepFailure r slot refineType sourceID remembered sourceTemplate resultTemplate of
               (r', None) \<Rightarrow> (r', None)
             | (r', Some keep) \<Rightarrow> (r', Some (no_roll\<lparr>Kept := True, rollKeep := Some keep\<rparr>)))
          else if FailResultVnum remembered \<noteq> 0 then
            (case ApplyRefineDowngradeFailure r slot refineType sourceID remembered sourceTemplate resultTemplate
                    failResultTemplate of
               (r', None) \<Rightarrow> (r', None)
             | (r', Some downgrade) \<Rightarrow> (r', Some (no_roll\<lparr>Downgraded := True, rollDowngrade := Some downgrade\<rparr>)))
          else
            (case ApplyRefineDestroyFailure r slot refineType sourceID (certain 0 remembered)
                    (sourceTemplate\<lparr>tRefineInfo := Some (certain 0 authored)\<rparr>) resultTemplate of
               (r', None) \<Rightarrow> (r', None)
             | (r', Some destroy) \<Rightarrow> (r', Some (no_roll\<lparr>Destroyed := True, rollDestroy := Some destroy\<rparr>))))"

section \<open>What a refine does\<close>

lemma refineInfoEqual_iff: "refineInfoEqual left right \<longleftrightarrow> left = right"
proof -
  have "length xs = length ys \<and> list_all (\<lambda>(l, r). l = r) (zip xs ys) \<longleftrightarrow> xs = ys" for xs ys :: "refine_material list"
    by (auto simp: list_all_iff list_eq_iff_zip_eq)
  from this [of "Materials left" "Materials right"] show ?thesis
    by (auto simp: refineInfoEqual_def intro: refine_info.equality)
qed

text \<open>
  The effect of a refine with outcome \<open>eff\<close> on the source: the cost is paid in full, the planned
  materials are gone, the source cell holds \<open>eff\<close> of the source, and no other cell changed.
\<close>

definition refined :: "(item_instance \<Rightarrow> item_instance option) \<Rightarrow> slot_index \<Rightarrow> u64 \<Rightarrow> refine_info \<Rightarrow>
    runtime \<Rightarrow> runtime \<Rightarrow> bool" where
  "refined eff slot sourceID info r r' \<longleftrightarrow>
     (\<exists>i plan. cells (liveInventory r) slot = Some i \<and> ID i = sourceID \<and> \<not> Locked i \<and> Count i = 1 \<and>
        planRefineMaterialChanges (liveInventory r) slot (Materials info) = Some plan \<and>
        cells (liveInventory r') = (debit plan (cells (liveInventory r)))(slot := eff i) \<and>
        (\<forall>v. units v (liveInventory r') + needed (Materials info) v + units_in v i =
             units v (liveInventory r) + (case eff i of None \<Rightarrow> 0 | Some j \<Rightarrow> units_in v j)) \<and>
        unat (liveGold r') + nat (sint (Cost info)) = unat (liveGold r))"

lemma refine_charge_SomeD:
  assumes "wf_runtime r" and "refine_request_ok sourceID rem"
    and "refine_charge r slot sourceID rem info = Some (g, items, chs, k)"
  obtains i plan where "cells (liveInventory r) slot = Some i" and "refine_source_ok sourceID info i"
    and "planRefineMaterialChanges (liveInventory r) slot (Materials rem) = Some plan"
    and "wf_items items (liveEquipment r)" and "findInventorySlot items slot = Some k" and "items ! k = i"
    and "cells items = debit plan (cells (liveInventory r))"
    and "\<And>v. units v items + needed (Materials rem) v = units v (liveInventory r)"
    and "unat g + nat (sint (Cost rem)) = unat (liveGold r)"
proof -
  let ?a = "liveInventory r"
  have wf: "wf_items ?a (liveEquipment r)" using assms(1) by (rule wf_runtime_items)
  have cost: "0 \<le> sint (Cost rem)" and len: "length (Materials rem) < 2 ^ 32"
    using assms(2) by (simp_all add: refine_request_ok_def MaxRefineMaterialCount_def)
  from assms(3) obtain j plan where j: "findInventorySlot ?a slot = Some j"
    and src: "refine_source_ok sourceID info (?a ! j)"
    and le: "\<not> liveGold r < scast (Cost rem)" and g: "g = liveGold r - scast (Cost rem)"
    and p: "planRefineMaterialChanges ?a slot (Materials rem) = Some plan"
    and d: "debit_loop {} plan ?a [] = Some (items, chs)"
    and k: "findInventorySlot items slot = Some k"
    by (auto simp: refine_charge_def Let_def split: option.split_asm if_split_asm)
  note pay = plan_and_pay [OF wf len p, of "{}", unfolded d, simplified]
  note fj = cells_find_Some [OF wf j]
  have w: "wf_items items (liveEquipment r)" using pay by blast
  have "items ! k = ?a ! j" using cells_find_Some(3) [OF w k] fj(3) pay by (metis option.inject)
  moreover have "unat g + nat (sint (Cost rem)) = unat (liveGold r)"
    using le g unat_sub_le [of "scast (Cost rem)" "liveGold r"] unat_scast_nonneg [OF cost]
    by (simp add: not_less word_le_nat_alt)
  ultimately show thesis using that fj(3) src p w k pay by metis
qed

lemma edit_source:
  assumes wf: "wf_items a b" and k: "findInventorySlot a s = Some k" and "Validate ((a ! k)\<lparr>Vnum := x\<rparr>) = None"
  shows "wf_items (a[k := (a ! k)\<lparr>Vnum := x\<rparr>]) b"
    and "cells (a[k := (a ! k)\<lparr>Vnum := x\<rparr>]) = (cells a)(s \<mapsto> (a ! k)\<lparr>Vnum := x\<rparr>)"
    and "units v (a[k := (a ! k)\<lparr>Vnum := x\<rparr>]) + units_in v (a ! k) = units v a + units_in v ((a ! k)\<lparr>Vnum := x\<rparr>)"
proof -
  note fk = cells_find_Some [OF wf k]
  have "carried_ok ((a ! k)\<lparr>Vnum := x\<rparr>)"
    using wf_carried_nth [OF wf fk(1)] assms(3) by (simp add: carried_ok_def)
  then show "wf_items (a[k := (a ! k)\<lparr>Vnum := x\<rparr>]) b"
    by (intro wf_items_update [OF wf fk(1)]) simp_all
  show "cells (a[k := (a ! k)\<lparr>Vnum := x\<rparr>]) = (cells a)(s \<mapsto> (a ! k)\<lparr>Vnum := x\<rparr>)"
    using lookup_update [OF wf_itemsD(2) [OF wf] fk(1), of "(a ! k)\<lparr>Vnum := x\<rparr>"] fk(2) by (simp add: cells_def)
  show "units v (a[k := (a ! k)\<lparr>Vnum := x\<rparr>]) + units_in v (a ! k) = units v a + units_in v ((a ! k)\<lparr>Vnum := x\<rparr>)"
    by (rule units_update) (rule fk(1))
qed

text \<open>The three ways the source is treated, after the charge.\<close>

lemma refined_replace:
  assumes "wf_runtime r" and "refine_request_ok sourceID rem"
    and "refine_charge r slot sourceID rem info = Some (g, items, chs, k)"
    and "Validate ((items ! k)\<lparr>Vnum := x\<rparr>) = None"
  shows "wf_items (sortInventoryItems (items[k := (items ! k)\<lparr>Vnum := x\<rparr>])) (liveEquipment r) \<and>
    refined (\<lambda>i. Some (i\<lparr>Vnum := x\<rparr>)) slot sourceID rem r
      (r\<lparr>liveGold := g, liveInventory := sortInventoryItems (items[k := (items ! k)\<lparr>Vnum := x\<rparr>])\<rparr>)"
proof -
  from assms(1-3) obtain i plan where c: "cells (liveInventory r) slot = Some i" "refine_source_ok sourceID info i"
    "planRefineMaterialChanges (liveInventory r) slot (Materials rem) = Some plan"
    "wf_items items (liveEquipment r)" "findInventorySlot items slot = Some k" "items ! k = i"
    "cells items = debit plan (cells (liveInventory r))"
    "\<And>v. units v items + needed (Materials rem) v = units v (liveInventory r)"
    "unat g + nat (sint (Cost rem)) = unat (liveGold r)"
    by (rule refine_charge_SomeD) blast
  note e = edit_source [OF c(4,5), unfolded c(6), OF assms(4) [unfolded c(6)]]
  have "units v (items[k := i\<lparr>Vnum := x\<rparr>]) + needed (Materials rem) v + units_in v i =
      units v (liveInventory r) + units_in v (i\<lparr>Vnum := x\<rparr>)" for v
    using e(3) [of v] c(8) [of v] by simp
  with e(1,2) c show ?thesis
    by (auto simp: refined_def refine_source_ok_def cells_sort [OF e(1)])
qed

lemma refined_destroy:
  assumes "wf_runtime r" and "refine_request_ok sourceID rem"
    and "refine_charge r slot sourceID rem info = Some (g, items, chs, k)"
  shows "wf_items (sortInventoryItems (removeInventoryIndex items k)) (liveEquipment r) \<and>
    refined (\<lambda>_. None) slot sourceID rem r
      (r\<lparr>liveGold := g, liveInventory := sortInventoryItems (removeInventoryIndex items k)\<rparr>)"
proof -
  from assms(1-3) obtain i plan where c: "cells (liveInventory r) slot = Some i" "refine_source_ok sourceID info i"
    "planRefineMaterialChanges (liveInventory r) slot (Materials rem) = Some plan"
    "wf_items items (liveEquipment r)" "findInventorySlot items slot = Some k" "items ! k = i"
    "cells items = debit plan (cells (liveInventory r))"
    "\<And>v. units v items + needed (Materials rem) v = units v (liveInventory r)"
    "unat g + nat (sint (Cost rem)) = unat (liveGold r)"
    by (rule refine_charge_SomeD) blast
  note e = edit_remove [OF c(4,5)]
  have "units v (remove_nth k items) + needed (Materials rem) v + units_in v i = units v (liveInventory r)" for v
    using e(3) [of v] c(6) c(8) [of v] by simp
  with e(1,2) c cells_find_Some(1) [OF c(4,5)] show ?thesis
    by (auto simp: refined_def refine_source_ok_def cells_sort [OF e(1)])
qed

lemma refined_keep:
  assumes "wf_runtime r" and "refine_request_ok sourceID rem"
    and "refine_charge r slot sourceID rem info = Some (g, items, chs, k)"
  shows "wf_items (sortInventoryItems items) (liveEquipment r) \<and>
    refined Some slot sourceID rem r (r\<lparr>liveGold := g, liveInventory := sortInventoryItems items\<rparr>)"
proof -
  from assms(1-3) obtain i plan where c: "cells (liveInventory r) slot = Some i" "refine_source_ok sourceID info i"
    "planRefineMaterialChanges (liveInventory r) slot (Materials rem) = Some plan"
    "wf_items items (liveEquipment r)" "findInventorySlot items slot = Some k" "items ! k = i"
    "cells items = debit plan (cells (liveInventory r))"
    "\<And>v. units v items + needed (Materials rem) v = units v (liveInventory r)"
    "unat g + nat (sint (Cost rem)) = unat (liveGold r)"
    by (rule refine_charge_SomeD) blast
  have "cells items slot = Some i" using cells_find_Some(3) [OF c(4,5)] c(6) by simp
  then have "(debit plan (cells (liveInventory r)))(slot \<mapsto> i) = debit plan (cells (liveInventory r))"
    using c(7) by (simp add: fun_upd_idem)
  then show ?thesis using c by (auto simp: refined_def refine_source_ok_def cells_sort [OF c(4)])
qed

lemma with_item_simps [simp]:
  "refinedItem (with_item p i) = i" "goldBefore (with_item p i) = goldBefore p"
  "goldAfter (with_item p i) = goldAfter p"
  by (simp_all add: with_item_def refine_payment.defs refine_success.defs)

lemma payment_simps [simp]:
  "goldBefore (payment r slot chs g rem) = liveGold r" "goldAfter (payment r slot chs g rem) = g"
  by (simp_all add: payment_def)

text \<open>The report of an outcome names the balances before and after.\<close>

definition receipt :: "runtime \<Rightarrow> runtime \<Rightarrow> ('a refine_payment_scheme) \<Rightarrow> bool" where
  "receipt r r' p \<longleftrightarrow> goldBefore p = liveGold r \<and> goldAfter p = liveGold r'"

lemma ApplyRefineSuccess_sat:
  assumes "wf_runtime r"
  shows "sat (trade_post (\<lambda>r' x. refined (\<lambda>i. Some (i\<lparr>Vnum := ResultVnum rem\<rparr>)) slot sourceID rem r r' \<and>
      receipt r r' x) r) (ApplyRefineSuccess r slot ty sourceID rem src res)"
  unfolding ApplyRefineSuccess_def
  by (intro sat_intros assms)
    (use refined_replace [OF assms] in \<open>auto simp: receipt_def\<close>)

lemma ApplyRefineDestroyFailure_sat:
  assumes "wf_runtime r"
  shows "sat (trade_post (\<lambda>r' x. refined (\<lambda>_. None) slot sourceID rem r r' \<and> receipt r r' x) r)
    (ApplyRefineDestroyFailure r slot ty sourceID rem src res)"
  unfolding ApplyRefineDestroyFailure_def
  by (intro sat_intros assms)
    (use refined_destroy [OF assms] in \<open>auto simp: receipt_def\<close>)

lemma ApplyRefineKeepFailure_sat:
  assumes "wf_runtime r"
  shows "sat (trade_post (\<lambda>r' x. refined Some slot sourceID rem r r' \<and> receipt r r' x) r)
    (ApplyRefineKeepFailure r slot ty sourceID rem src res)"
  unfolding ApplyRefineKeepFailure_def
  by (intro sat_intros assms)
    (use refined_keep [OF assms] in \<open>auto simp: receipt_def\<close>)

lemma ApplyRefineDowngradeFailure_sat:
  assumes "wf_runtime r"
  shows "sat (trade_post (\<lambda>r' x. refined (\<lambda>i. Some (i\<lparr>Vnum := FailResultVnum rem\<rparr>)) slot sourceID rem r r' \<and>
      receipt r r' x) r) (ApplyRefineDowngradeFailure r slot ty sourceID rem src res fail)"
  unfolding ApplyRefineDowngradeFailure_def
  by (intro sat_intros assms)
    (use refined_replace [OF assms] in \<open>auto simp: receipt_def\<close>)

text \<open>What a roll does to the source.\<close>

definition roll_effect :: "refine_info \<Rightarrow> int \<Rightarrow> item_instance \<Rightarrow> item_instance option" where
  "roll_effect info roll i =
     (if roll \<le> sint (Probability info) then Some (i\<lparr>Vnum := ResultVnum info\<rparr>)
      else if KeepOnFail info then Some i
      else if FailResultVnum info \<noteq> 0 then Some (i\<lparr>Vnum := FailResultVnum info\<rparr>)
      else None)"

definition roll_flags :: "refine_info \<Rightarrow> int \<Rightarrow> refine_roll_result \<Rightarrow> bool" where
  "roll_flags info roll x \<longleftrightarrow>
     (Succeeded x \<longleftrightarrow> roll \<le> sint (Probability info)) \<and>
     (Kept x \<longleftrightarrow> sint (Probability info) < roll \<and> KeepOnFail info) \<and>
     (Downgraded x \<longleftrightarrow> sint (Probability info) < roll \<and> \<not> KeepOnFail info \<and> FailResultVnum info \<noteq> 0) \<and>
     (Destroyed x \<longleftrightarrow> sint (Probability info) < roll \<and> \<not> KeepOnFail info \<and> FailResultVnum info = 0)"

lemma refined_certain [simp]: "refined eff slot sourceID (certain p rem) = refined eff slot sourceID rem"
  by (simp add: refined_def certain_def fun_eq_iff)

lemma certain_simps [simp]:
  "ResultVnum (certain p rem) = ResultVnum rem" "Cost (certain p rem) = Cost rem"
  "Materials (certain p rem) = Materials rem" "Probability (certain p rem) = p"
  "\<not> KeepOnFail (certain p rem)" "FailResultVnum (certain p rem) = 0"
  by (simp_all add: certain_def)

lemma roll_word: "1 \<le> roll \<Longrightarrow> roll \<le> 100 \<Longrightarrow> sint (i32_of roll) = roll"
  by (rule sint_i32_of) (simp_all add: min_i32_def max_i32_def)

lemma ApplyRefineWithRoll_sat:
  assumes wf: "wf_runtime r"
  shows "sat (trade_post (\<lambda>r' x. 1 \<le> roll \<and> roll \<le> 100 \<and> roll_flags rem roll x \<and>
      refined (roll_effect rem roll) slot sourceID rem r r') r)
    (ApplyRefineWithRoll r slot ty sourceID rem src res fail roll)"
proof -
  note flags = roll_flags_def no_roll_def roll_effect_def [abs_def] roll_word
  show ?thesis
    unfolding ApplyRefineWithRoll_def
  proof ((intro sat_if sat_option; (intro sat_pair trade_post_fail)?), goal_cases)
    case (1 authored)
    then show ?case
      by (intro sat_repackage [OF ApplyRefineSuccess_sat [OF wf, of "certain 100 rem" slot sourceID, simplified]])
        (auto simp: flags)
  next
    case (2 authored)
    then show ?case
      by (intro sat_repackage [OF ApplyRefineKeepFailure_sat [OF wf]]) (auto simp: flags)
  next
    case (3 authored)
    then show ?case
      by (intro sat_repackage [OF ApplyRefineDowngradeFailure_sat [OF wf]]) (auto simp: flags)
  next
    case (4 authored)
    then show ?case
      by (intro sat_repackage [OF ApplyRefineDestroyFailure_sat [OF wf, of slot sourceID "certain 0 rem", simplified]])
        (auto simp: flags)
  qed
qed

section \<open>When a refine goes through\<close>

lemma normalizeTemplate_refine_info:
  "normalizeTemplate (t\<lparr>tRefineInfo := Some info\<rparr>) = (normalizeTemplate t)\<lparr>tRefineInfo := Some info\<rparr>"
  by (rule template.equality) (simp_all add: normalizeTemplate_def)

lemma validTemplate_refine_info:
  assumes "validTemplate t" and "validRefineInfo info (t\<lparr>tRefineInfo := info\<rparr>)"
  shows "validTemplate (t\<lparr>tRefineInfo := info\<rparr>)"
proof -
  have g: "templateHasSelectedCharacterGuard (t\<lparr>tRefineInfo := info\<rparr>) = templateHasSelectedCharacterGuard t"
    by (simp add: templateHasSelectedCharacterGuard_def)
  have u: "validUseEffect e (t\<lparr>tRefineInfo := info\<rparr>) = validUseEffect e t" for e
    by (simp add: validUseEffect_def split: option.split)
  have "validTemplate_guards (t\<lparr>tRefineInfo := info\<rparr>)"
    using assms by (simp add: validTemplate_guards_def validTemplate_def)
  moreover have "validTemplate_texts (t\<lparr>tRefineInfo := info\<rparr>)"
    using assms(1)
    by (simp add: validTemplate_def validTemplate_texts_def templateHasEquipRejectGuard_def templateHasUseRejectGuard_def
        templateHasBuyRejectGuard_def templateHasDropRejectGuard_def templateHasGiveRejectGuard_def
        templateHasPickupRejectGuard_def templateHasSellRejectGuard_def templateHasMyShopRejectGuard_def
        templateHasSafeboxRejectGuard_def g)
  ultimately show ?thesis
    using assms(1) u by (cases "ParseEquipmentSlot (tEquipSlot t)") (simp_all add: validTemplate_def split: if_split_asm)
qed

lemma ValidTemplate_refine_info:
  "ValidTemplate t \<Longrightarrow> tRefineInfo t = Some info \<Longrightarrow> validRefineInfo (Some info) t"
  by (simp add: ValidTemplate_def validTemplate_def validTemplate_guards_def normalizeTemplate_def validRefineInfo_def)

lemma ValidTemplate_certain:
  assumes "ValidTemplate t" and "tRefineInfo t = Some info" and "0 \<le> sint p" and "sint p \<le> 100"
  shows "ValidTemplate (t\<lparr>tRefineInfo := Some (certain p info)\<rparr>)"
proof -
  have "tRefineable (normalizeTemplate t) = tRefineable t" by (simp add: normalizeTemplate_def)
  then have "validRefineInfo (Some (certain p info)) ((normalizeTemplate t)\<lparr>tRefineInfo := Some (certain p info)\<rparr>)"
    using ValidTemplate_refine_info [OF assms(1,2)] assms(3,4) by (simp add: validRefineInfo_def not_less)
  then show ?thesis
    using assms(1) validTemplate_refine_info
    by (simp add: ValidTemplate_def normalizeTemplate_refine_info)
qed

lemma RefineInformation_certain:
  assumes "RefineInformation r slot ty src = Some i" and "tRefineInfo src = Some info" and "0 \<le> sint p" and "sint p \<le> 100"
  shows "RefineInformation r slot ty (src\<lparr>tRefineInfo := Some (certain p info)\<rparr>) = Some (i\<lparr>rProbability := p\<rparr>)"
proof -
  have v: "ValidTemplate src" and u: "CanUseTemplate r src" and b: "backed_item r slot src \<noteq> None"
    using assms(1,2) by (auto simp: RefineInformation_def split: option.split_asm if_split_asm)
  let ?t = "src\<lparr>tRefineInfo := Some (certain p info)\<rparr>"
  have v': "ValidTemplate ?t" by (rule ValidTemplate_certain [OF v assms(2-4)])
  then have "CanUseTemplate r ?t = CanUseTemplate r src" by (simp add: CanUseTemplate_def CanUse_def v)
  then have "CanUseTemplate r ?t" using u by simp
  moreover have "backed_item r slot ?t = backed_item r slot src"
    by (simp add: backed_item_def Let_def split: option.split)
  moreover have "transfer_refused ?t = transfer_refused src" by (simp add: transfer_refused_def)
  ultimately show ?thesis
    using assms(1,2) v' by (auto simp: RefineInformation_def split: option.split_asm if_split_asm)
qed

lemma RefineInformation_SomeD:
  assumes "RefineInformation r slot ty t = Some i" and "tRefineInfo t = Some info" and "wf_runtime r"
  obtains item where "cells (liveInventory r) slot = Some item" and "\<not> Locked item" and "Vnum item = tVnum t"
    and "i = \<lparr>rType = ty, rPosition = slot, rSourceVnum = tVnum t, rResultVnum = ResultVnum info,
      rCost = Cost info, rProbability = Probability info, rMaterials = Materials info\<rparr>"
    and "ValidTemplate t"
proof -
  from assms(1,2) obtain k item where b: "backed_item r slot t = Some (k, item)" and v: "ValidTemplate t"
    and i: "i = \<lparr>rType = ty, rPosition = slot, rSourceVnum = Vnum item, rResultVnum = ResultVnum info,
      rCost = Cost info, rProbability = Probability info, rMaterials = Materials info\<rparr>"
    by (auto simp: RefineInformation_def split: option.split_asm if_split_asm)
  note bi = backed_item_SomeD [OF b]
  have "cells (liveInventory r) slot = Some item"
    using cells_find_Some(3) [OF wf_runtime_items [OF assms(3)] bi(1)] bi(2) by simp
  then show thesis using that bi i v by simp
qed

text \<open>The client can pay: the source, the gold and the materials are there.\<close>

definition can_pay :: "runtime \<Rightarrow> slot_index \<Rightarrow> u64 \<Rightarrow> refine_info \<Rightarrow> bool" where
  "can_pay r slot sourceID info \<longleftrightarrow>
     (\<exists>i. cells (liveInventory r) slot = Some i \<and> ID i = sourceID \<and> Count i = 1) \<and>
     nat (sint (Cost info)) \<le> unat (liveGold r) \<and> unat (liveGold r) \<le> 2147483647 \<and>
     (\<forall>v. needed (Materials info) v \<le> free_units (liveInventory r) slot v)"

lemma refine_charge_ok:
  assumes wf: "wf_runtime r" and req: "refine_request_ok sourceID rem" and pay: "can_pay r slot sourceID rem"
    and ms: "\<forall>m \<in> set (Materials rem). material_ok m"
    and src: "cells (liveInventory r) slot = Some i" "\<not> Locked i" "Vnum i = rSourceVnum info"
  shows "refine_charge r slot sourceID rem info \<noteq> None"
proof -
  let ?a = "liveInventory r"
  have w: "wf_items ?a (liveEquipment r)" using wf by (rule wf_runtime_items)
  have cost: "unat (scast (Cost rem) :: u64) = nat (sint (Cost rem))" and len: "length (Materials rem) < 2 ^ 32"
    using req unat_scast_nonneg by (simp_all add: refine_request_ok_def MaxRefineMaterialCount_def)
  obtain j where j: "findInventorySlot ?a slot = Some j"
    using cells_find_None [OF w, of slot] src(1) by auto
  have ji: "?a ! j = i" "j < length ?a" using cells_find_Some [OF w j] src(1) by simp_all
  have ok: "refine_source_ok sourceID info i"
    using pay src carried_okD(4) [OF wf_carried_nth [OF w ji(2)]] ji(1)
    by (auto simp: refine_source_ok_def can_pay_def)
  obtain plan where p: "planRefineMaterialChanges ?a slot (Materials rem) = Some plan"
    using planRefineMaterialChanges_exact(2) [OF w len ms, of slot] pay by (auto simp: can_pay_def)
  obtain a' chs where d: "debit_loop {} plan ?a [] = Some (a', chs)" and w': "wf_items a' (liveEquipment r)"
    and c: "cells a' slot = cells ?a slot"
    using plan_and_pay [OF w len p, of "{}"] by auto
  obtain k where k: "findInventorySlot a' slot = Some k"
    using cells_find_None [OF w', of slot] c src(1) by auto
  have "a' ! k = i" using cells_find_Some(3) [OF w' k] c src(1) by simp
  moreover have "\<not> (maxPointChangeCarrier < (scast (Cost rem) :: u64) \<or> liveGold r < scast (Cost rem) \<or>
      maxPointChangeCarrier < liveGold r)"
    using pay cost by (simp add: can_pay_def word_less_nat_alt)
  ultimately show ?thesis
    using j ji ok p d k by (simp add: refine_charge_def Let_def)
qed

text \<open>One lemma for the four outcomes: an accepted request with a payable charge goes through.\<close>

lemma refine_source_valid:
  assumes "wf_runtime r" and "refine_request_ok sourceID rem"
    and "refine_charge r slot sourceID rem info = Some (g, items, chs, k)" and "x \<noteq> 0"
  shows "Validate ((items ! k)\<lparr>Vnum := x\<rparr>) = None"
proof -
  from assms(1-3) obtain i where w: "wf_items items (liveEquipment r)" and k: "findInventorySlot items slot = Some k"
    by (rule refine_charge_SomeD) blast
  show ?thesis
    using carried_okD [OF wf_carried_nth [OF w cells_find_Some(1) [OF w k]]] assms(4)
    by (simp add: Validate_None_iff)
qed

lemma refine_charge_certain [simp]:
  "refine_charge r slot sourceID (certain q rem) info = refine_charge r slot sourceID rem info"
  "refine_charge r slot sourceID rem (info\<lparr>rProbability := p\<rparr>) = refine_charge r slot sourceID rem info"
proof -
  have "refine_source_ok sourceID (info\<lparr>rProbability := p\<rparr>) = refine_source_ok sourceID info"
    by (simp add: refine_source_ok_def fun_eq_iff)
  then show "refine_charge r slot sourceID rem (info\<lparr>rProbability := p\<rparr>) = refine_charge r slot sourceID rem info"
    by (simp only: refine_charge_def)
qed (simp only: refine_charge_def certain_simps)

lemma refine_accepts_certain:
  assumes "RefineInformation r slot ty src = Some i" and "tRefineInfo src = Some rem" and "0 \<le> sint p" and "sint p \<le> 100"
    and "wf_runtime r" and "ValidTemplate res" and "tVnum res = ResultVnum rem"
  shows "refine_accepts r slot ty (certain p rem) (src\<lparr>tRefineInfo := Some (certain p rem)\<rparr>) res = Some (i\<lparr>rProbability := p\<rparr>)"
    and "refine_accepts r slot ty rem src res = Some i"
proof -
  from assms(1,2,5) obtain item where "cells (liveInventory r) slot = Some item" "\<not> Locked item" "Vnum item = tVnum src"
    and i: "i = \<lparr>rType = ty, rPosition = slot, rSourceVnum = tVnum src, rResultVnum = ResultVnum rem,
      rCost = Cost rem, rProbability = Probability rem, rMaterials = Materials rem\<rparr>" and v: "ValidTemplate src"
    by (rule RefineInformation_SomeD) blast
  have "tVnum src \<noteq> 0" using v by (rule ValidTemplate_vnum)
  then show "refine_accepts r slot ty (certain p rem) (src\<lparr>tRefineInfo := Some (certain p rem)\<rparr>) res = Some (i\<lparr>rProbability := p\<rparr>)"
    and "refine_accepts r slot ty rem src res = Some i"
    using RefineInformation_certain [OF assms(1-4)] assms(1,2,6,7) i
    by (simp_all add: refine_accepts_def refineInfoEqual_iff certain_def)
qed

lemma ApplyRefineWithRoll_goes_through:
  assumes wf: "wf_runtime r" and rem: "tRefineInfo src = Some rem" and info: "RefineInformation r slot ty src = Some i"
    and roll: "1 \<le> roll" "roll \<le> 100" and prob: "1 \<le> sint (Probability rem)" "sint (Probability rem) \<le> 99"
    and req: "sourceID \<noteq> 0" and pay: "can_pay r slot sourceID rem"
    and res: "ValidTemplate res" "tVnum res = ResultVnum rem"
    and fail: "FailResultVnum rem \<noteq> 0 \<longrightarrow> ValidTemplate fail \<and> tVnum fail = FailResultVnum rem"
  shows "ok (ApplyRefineWithRoll r slot ty sourceID rem src res fail roll)"
proof -
  from info rem wf obtain item where item: "cells (liveInventory r) slot = Some item" "\<not> Locked item" "Vnum item = tVnum src"
    and i: "i = \<lparr>rType = ty, rPosition = slot, rSourceVnum = tVnum src, rResultVnum = ResultVnum rem,
      rCost = Cost rem, rProbability = Probability rem, rMaterials = Materials rem\<rparr>" and v: "ValidTemplate src"
    by (rule RefineInformation_SomeD) blast
  note valid = ValidTemplate_refine_info [OF v rem, unfolded validRefineInfo_def, simplified]
  have ms: "\<forall>m \<in> set (Materials rem). material_ok m" using valid by (auto simp: material_ok_def)
  have req': "refine_request_ok sourceID rem" "refine_request_ok sourceID (certain p rem)" for p
    using req valid by (auto simp: refine_request_ok_def not_less)
  have c: "refine_charge r slot sourceID rem i \<noteq> None"
    using refine_charge_ok [OF wf req'(1) pay ms item(1,2)] item(3) i by simp
  have rv: "ResultVnum rem \<noteq> 0" using valid by simp
  have fv: "FailResultVnum rem \<noteq> tVnum src \<and> FailResultVnum rem \<noteq> ResultVnum rem" if "FailResultVnum rem \<noteq> 0"
    using valid that by simp
  note acc = refine_accepts_certain [OF info rem _ _ wf res]
  have success: "ok (ApplyRefineSuccess r slot ty sourceID (certain 100 rem) (src\<lparr>tRefineInfo := Some (certain 100 rem)\<rparr>) res)"
    using acc(1) [of 100] c req'(2) [of 100] rv
      refine_source_valid [OF wf req'(1), of slot i _ _ _ _ "ResultVnum rem"]
    by (auto simp: ApplyRefineSuccess_def Let_def)
  have destroy: "ok (ApplyRefineDestroyFailure r slot ty sourceID (certain 0 rem) (src\<lparr>tRefineInfo := Some (certain 0 rem)\<rparr>) res)"
    using acc(1) [of 0] c req'(2) [of 0] by (auto simp: ApplyRefineDestroyFailure_def)
  have keep: "ok (ApplyRefineKeepFailure r slot ty sourceID rem src res)" if "KeepOnFail rem"
    using acc(2) [of 0] c req'(1) prob that by (auto simp: ApplyRefineKeepFailure_def)
  have downgrade: "ok (ApplyRefineDowngradeFailure r slot ty sourceID rem src res fail)"
    if "\<not> KeepOnFail rem" "FailResultVnum rem \<noteq> 0"
    using acc(2) [of 0] c req'(1) prob that fail fv [OF that(2)] i
      refine_source_valid [OF wf req'(1), of slot i _ _ _ _ "FailResultVnum rem"]
    by (auto simp: ApplyRefineDowngradeFailure_def Let_def)
  show ?thesis
    using roll prob rem success destroy keep downgrade
    by (cases "KeepOnFail rem"; cases "FailResultVnum rem = 0")
      (auto simp: ApplyRefineWithRoll_def refineInfoEqual_iff not_less split: prod.split option.split)
qed

section \<open>Properties\<close>

text \<open>
  C21: each way a refine ends is all or nothing. Either the runtime is as it was, or the cost is
  gone to the last coin, exactly the materials asked for are gone, nothing but gold and carried
  items changed, and the source cell holds the source with the result's kind (success), nothing
  (destroy), the source itself (keep), or the source with the downgrade's kind.
\<close>

theorem refine_outcomes_exact:
  assumes "wf_runtime r"
  shows "sat (trade_post (\<lambda>r' x. refined (\<lambda>i. Some (i\<lparr>Vnum := ResultVnum info\<rparr>)) slot sourceID info r r' \<and>
        receipt r r' x) r) (ApplyRefineSuccess r slot ty sourceID info src res) \<and>
    sat (trade_post (\<lambda>r' x. refined (\<lambda>_. None) slot sourceID info r r' \<and> receipt r r' x) r)
        (ApplyRefineDestroyFailure r slot ty sourceID info src res) \<and>
    sat (trade_post (\<lambda>r' x. refined Some slot sourceID info r r' \<and> receipt r r' x) r)
        (ApplyRefineKeepFailure r slot ty sourceID info src res) \<and>
    sat (trade_post (\<lambda>r' x. refined (\<lambda>i. Some (i\<lparr>Vnum := FailResultVnum info\<rparr>)) slot sourceID info r r' \<and>
        receipt r r' x) r) (ApplyRefineDowngradeFailure r slot ty sourceID info src res fail)"
  by (intro conjI ApplyRefineSuccess_sat ApplyRefineDestroyFailure_sat ApplyRefineKeepFailure_sat
      ApplyRefineDowngradeFailure_sat assms)

text \<open>
  C20: the roll decides, and only the roll. An accepted roll is between 1 and 100; exactly one
  flag of the result is set, \<open>Succeeded\<close> when the roll is within the probability and otherwise
  the failure the recipe authors; the source is treated accordingly, and the same gold and the
  same cells pay whatever the roll was. A refused roll changes nothing.
\<close>

theorem ApplyRefineWithRoll_outcome:
  assumes "wf_runtime r" and "ApplyRefineWithRoll r slot ty sourceID info src res fail roll = (r1, out)"
  shows "case out of None \<Rightarrow> r1 = r
    | Some x \<Rightarrow> wf_runtime r1 \<and> 1 \<le> roll \<and> roll \<le> 100 \<and> roll_flags info roll x \<and>
        r1 = r\<lparr>liveGold := liveGold r1, liveInventory := liveInventory r1\<rparr> \<and>
        refined (roll_effect info roll) slot sourceID info r r1 \<and>
        (\<forall>roll' r2 y. ApplyRefineWithRoll r slot ty sourceID info src res fail roll' = (r2, Some y) \<longrightarrow>
           liveGold r2 = liveGold r1 \<and>
           (\<forall>s. s \<noteq> slot \<longrightarrow> cells (liveInventory r2) s = cells (liveInventory r1) s))"
proof (cases out)
  case None
  with trade_postD [OF ApplyRefineWithRoll_sat [OF assms(1)] assms(2)] show ?thesis by simp
next
  case (Some x)
  with assms(2) have a: "ApplyRefineWithRoll r slot ty sourceID info src res fail roll = (r1, Some x)" by simp
  note p = trade_post_SomeD [OF ApplyRefineWithRoll_sat [OF assms(1)]]
  have same: "liveGold r2 = liveGold r1 \<and> (\<forall>s. s \<noteq> slot \<longrightarrow> cells (liveInventory r2) s = cells (liveInventory r1) s)"
    if "refined e slot sourceID info r r1" and "refined e' slot sourceID info r r2" for e e' r2
  proof -
    have "unat (liveGold r2) = unat (liveGold r1)" using that by (auto simp: refined_def)
    with that show ?thesis by (auto simp: refined_def word_unat_eq_iff)
  qed
  have f: "refined (roll_effect info roll) slot sourceID info r r1" using p(3) [OF a] by blast
  have "liveGold r2 = liveGold r1 \<and> (\<forall>s. s \<noteq> slot \<longrightarrow> cells (liveInventory r2) s = cells (liveInventory r1) s)"
    if b: "ApplyRefineWithRoll r slot ty sourceID info src res fail roll' = (r2, Some y)" for roll' r2 y
  proof -
    have "refined (roll_effect info roll') slot sourceID info r r2" using p(3) [OF b] by blast
    with f show ?thesis by (rule same)
  qed
  then show ?thesis
    unfolding Some option.case using p(1,2) [OF a] p(3) [OF a] by blast
qed

text \<open>
  A refine the client can pay for is never refused because of the roll. When the preview is
  accepted, the recipe is the template's, its probability is between 1 and 99, the source, the
  gold and the materials are there and the templates the recipe names exist, every roll from 1
  to 100 is carried out.
\<close>

theorem ApplyRefineWithRoll_accepts:
  assumes "wf_runtime r" and "tRefineInfo src = Some info" and "RefineInformation r slot ty src = Some i"
    and "1 \<le> roll" and "roll \<le> 100" and "1 \<le> sint (Probability info)" and "sint (Probability info) \<le> 99"
    and "sourceID \<noteq> 0" and "can_pay r slot sourceID info"
    and "ValidTemplate res" and "tVnum res = ResultVnum info"
    and "FailResultVnum info \<noteq> 0 \<longrightarrow> ValidTemplate fail \<and> tVnum fail = FailResultVnum info"
  shows "ok (ApplyRefineWithRoll r slot ty sourceID info src res fail roll)"
  using assms by (rule ApplyRefineWithRoll_goes_through)

section \<open>A recipe\<close>

definition sample_recipe :: refine_info where
  "sample_recipe = \<lparr>ResultVnum = 20, Cost = 100, Probability = 60, KeepOnFail = False, FailResultVnum = 0,
     Materials = [\<lparr>mVnum = 27, mCount = 4\<rparr>]\<rparr>"

definition sample_blade :: template where
  "sample_blade = zero_template\<lparr>tVnum := 19, tName := ''sword'', tMaxCount := 1, tRefineable := True,
     tRefineInfo := Some sample_recipe\<rparr>"

definition sample_result :: template where
  "sample_result = zero_template\<lparr>tVnum := 20, tName := ''sword'', tMaxCount := 1\<rparr>"

lemma sample_recipe_fields [simp]:
  "ResultVnum sample_recipe = 20" "Cost sample_recipe = 100" "Probability sample_recipe = 60"
  "\<not> KeepOnFail sample_recipe" "FailResultVnum sample_recipe = 0"
  "Materials sample_recipe = [\<lparr>mVnum = 27, mCount = 4\<rparr>]"
  by (simp_all add: sample_recipe_def)

lemma sample_blade_valid: "ValidTemplate sample_blade" "ValidTemplate sample_result"
  by (simp_all add: ValidTemplate_def validTemplate_def validTemplate_guards_def validTemplate_texts_def
      sample_blade_def sample_result_def normalizeTemplate_def validRefineInfo_def cloneRefineInfo_def
      validTemplateMessage_def contains_nul_def code_def in_range_def validDisplayAttributes_def
      validUseEffect_def MaxPickupRange_def MaxRefineMaterialCount_def normalizeEquipSlot_def)

lemma sample_source: "cells (liveInventory sample_runtime) 6 = Some (zero_item\<lparr>ID := 9, Vnum := 19, Count := 1, Slot := 6\<rparr>)"
  by (simp add: cells_def lookup_def zero_item_def)

lemma sample_preview: "\<exists>i. RefineInformation sample_runtime 6 0 sample_blade = Some i"
proof -
  have "CanUseTemplate sample_runtime sample_blade"
    using sample_blade_valid(1) by (simp add: CanUseTemplate_def CanUse_def sample_blade_def)
  then show ?thesis
    using sample_blade_valid(1)
    by (simp add: RefineInformation_def sample_blade_def backed_item_def countInventorySlotOccupancy_def
        findInventorySlot_def zero_item_def Validate_def equipment_slot_defs CarriedInventorySlotCount_def
        transfer_refused_def Let_def)
qed

lemma sample_pays: "can_pay sample_runtime 6 9 sample_recipe"
  unfolding can_pay_def
proof (intro conjI)
  show "\<exists>i. cells (liveInventory sample_runtime) 6 = Some i \<and> ID i = 9 \<and> Count i = 1"
    using sample_source by simp
qed (simp_all add: free_units_def units_in_def zero_item_def)

theorem ApplyRefineWithRoll_accepts_witness:
  "ok (ApplyRefineWithRoll sample_runtime 6 0 9 sample_recipe sample_blade sample_result sample_result 30)"
proof -
  from sample_preview obtain i where i: "RefineInformation sample_runtime 6 0 sample_blade = Some i" by blast
  show ?thesis
    by (rule ApplyRefineWithRoll_accepts [OF sample_runtime_wf _ i])
      (simp_all add: sample_pays sample_blade_valid, simp_all add: sample_blade_def sample_result_def)
qed

lemma okE: "ok x \<Longrightarrow> (\<And>s a. x = (s, Some a) \<Longrightarrow> thesis) \<Longrightarrow> thesis"
  by (cases x; cases "snd x") simp_all

lemma sample_roll: "1 \<le> roll \<Longrightarrow> roll \<le> 100 \<Longrightarrow>
    ok (ApplyRefineWithRoll sample_runtime 6 0 9 sample_recipe sample_blade sample_result sample_result roll)"
proof -
  assume "1 \<le> roll" and "roll \<le> 100"
  from sample_preview obtain i where i: "RefineInformation sample_runtime 6 0 sample_blade = Some i" by blast
  show ?thesis
    by (rule ApplyRefineWithRoll_goes_through [OF sample_runtime_wf _ i \<open>1 \<le> roll\<close> \<open>roll \<le> 100\<close>])
      (simp_all add: sample_pays sample_blade_valid, simp_all add: sample_blade_def sample_result_def)
qed

theorem ApplyRefineWithRoll_outcome_witness:
  "\<exists>r1 x. ApplyRefineWithRoll sample_runtime 6 0 9 sample_recipe sample_blade sample_result sample_result 61 = (r1, Some x) \<and>
     Destroyed x \<and> \<not> Succeeded x \<and> cells (liveInventory r1) 6 = None \<and> unat (liveGold r1) = 400"
proof -
  obtain r1 x where a: "ApplyRefineWithRoll sample_runtime 6 0 9 sample_recipe sample_blade sample_result sample_result 61 = (r1, Some x)"
    by (rule okE [OF sample_roll [of 61]]) simp_all
  then show ?thesis
    using ApplyRefineWithRoll_outcome [OF sample_runtime_wf a]
    by (auto simp: roll_flags_def refined_def roll_effect_def)
qed

theorem refine_outcomes_exact_witness:
  "\<exists>r1 x. ApplyRefineSuccess sample_runtime 6 0 9 (certain 100 sample_recipe)
     (sample_blade\<lparr>tRefineInfo := Some (certain 100 sample_recipe)\<rparr>) sample_result = (r1, Some x) \<and>
     unat (liveGold r1) = 400 \<and> map_option Vnum (cells (liveInventory r1) 6) = Some 20"
proof -
  let ?x = "ApplyRefineSuccess sample_runtime 6 0 9 (certain 100 sample_recipe)
     (sample_blade\<lparr>tRefineInfo := Some (certain 100 sample_recipe)\<rparr>) sample_result"
  have "tRefineInfo sample_blade = Some sample_recipe" by (simp add: sample_blade_def)
  then have "ok ?x"
    using sample_roll [of 30]
    by (auto simp: ApplyRefineWithRoll_def refineInfoEqual_iff roll_word split: prod.split_asm option.split_asm)
  then obtain r1 x where x: "?x = (r1, Some x)" by (rule okE)
  note exact = refine_outcomes_exact [OF sample_runtime_wf, of "certain 100 sample_recipe" 6 9 0
      "sample_blade\<lparr>tRefineInfo := Some (certain 100 sample_recipe)\<rparr>" sample_result sample_result]
  have "refined (\<lambda>i. Some (i\<lparr>Vnum := 20\<rparr>)) 6 9 sample_recipe sample_runtime r1"
    using trade_post_SomeD(3) [OF conjunct1 [OF exact] x] by simp
  with x show ?thesis by (auto simp: refined_def)
qed

end
