(* ===== verification/Player_Merchant.thy ===== *)
theory Player_Merchant
  imports Player_Plan
begin

text \<open>
  Trading with merchants (\<open>internal/player/runtime.go\<close>): granting new units to the carried
  cells, buying them for gold, and selling carried units back for a credit computed from the
  template. A mail grant (\<open>mail_grant.go\<close>) is a plain grant.
\<close>

section \<open>Grants\<close>

datatype grant_failure = GrantFailureInvalid | GrantFailureNoValidPlacement

definition ValidateCarriedItemGrant :: "runtime \<Rightarrow> template \<Rightarrow> u16 \<Rightarrow> grant_failure option" where
  "ValidateCarriedItemGrant r t cnt =
     (let free = (if nextFreeInventorySlot (liveInventory r) = None
                  then Some GrantFailureNoValidPlacement else None) in
      if \<not> ValidTemplate t \<or> \<not> CanUseTemplate r t \<or> tAntiGet t \<or> cnt = 0 \<or> tMaxCount t < cnt then
        Some GrantFailureInvalid
      else if \<not> tStackable t \<and> cnt \<noteq> 1 then Some GrantFailureInvalid
      else if tStackable t \<and> \<not> tAntiStack t then
        (if findMergeableInventoryIndex (liveInventory r) (tVnum t) cnt (tMaxCount t) \<noteq> None then None
         else case distributeMerchantGrantAcrossExistingStacks (liveInventory r) (tVnum t) cnt (tMaxCount t) of
           (_, _, remaining, True) \<Rightarrow> if remaining = 0 then None else free
         | (_, _, _, False) \<Rightarrow> free)
      else free)"

record item_change =
  changeItem :: item_instance
  Created :: bool

record grant_result =
  grantItems :: "item_instance list"
  grantChanges :: "item_change list"

text \<open>
  The first part of \<open>grantCarriedItem\<close>: fill existing stacks. The result is the slice, the
  changed items, the cells they are in and the units left; \<open>None\<close> when \<open>Validate\<close> refuses.
\<close>

definition grant_stacks :: "template \<Rightarrow> u16 \<Rightarrow> item_instance list \<Rightarrow>
    (item_instance list \<times> item_instance list \<times> slot_index set \<times> u16) option" where
  "grant_stacks t cnt inventoryItems =
     (if tStackable t \<and> \<not> tAntiStack t then
        (case findMergeableInventoryIndex inventoryItems (tVnum t) cnt (tMaxCount t) of
           Some mergeIndex \<Rightarrow>
             let item = (inventoryItems ! mergeIndex)\<lparr>Count := Count (inventoryItems ! mergeIndex) + cnt\<rparr> in
             if Validate item \<noteq> None then None
             else Some (inventoryItems[mergeIndex := item], [item], {Slot item}, 0)
         | None \<Rightarrow>
             (case distributeMerchantGrantAcrossExistingStacks inventoryItems (tVnum t) cnt (tMaxCount t) of
                (distributedItems, distributedChanged, distributedRemaining, True) \<Rightarrow>
                  Some (distributedItems, distributedChanged, set (map Slot distributedChanged), distributedRemaining)
              | (_, _, _, False) \<Rightarrow> Some (inventoryItems, [], {}, cnt)))
      else Some (inventoryItems, [], {}, cnt))"

text \<open>The second part: what is left becomes a new instance in the first free cell.\<close>

definition grant_rest :: "item_instance list \<Rightarrow> template \<Rightarrow> u16 \<Rightarrow> item_instance list \<Rightarrow> item_instance list \<Rightarrow>
    (item_instance list \<times> item_instance list) option" where
  "grant_rest equipment t remaining inventoryItems changedItems =
     (if remaining = 0 then Some (inventoryItems, changedItems)
      else case nextFreeInventorySlot inventoryItems of
        None \<Rightarrow> None
      | Some slot \<Rightarrow>
          (case WithInventorySlot (zero_item\<lparr>ID := nextLiveItemInstanceID inventoryItems equipment,
                   Vnum := tVnum t, Count := remaining\<rparr>) slot of
             Inl _ \<Rightarrow> None
           | Inr item \<Rightarrow> Some (inventoryItems @ [item], changedItems @ [item])))"

definition grantCarriedItem :: "runtime \<Rightarrow> template \<Rightarrow> u16 \<Rightarrow> (runtime, grant_result) outcome" where
  "grantCarriedItem r t cnt =
     (case grant_stacks t cnt (cloneItemInstances (liveInventory r)) of
        None \<Rightarrow> (r, None)
      | Some (stacked, changedStacks, changedExistingSlots, remaining) \<Rightarrow>
          (case grant_rest (liveEquipment r) t remaining stacked changedStacks of
             None \<Rightarrow> (r, None)
           | Some (inventoryItems, changedItems) \<Rightarrow>
               let sorted = sortInventoryItems changedItems in
               (r\<lparr>liveInventory := sortInventoryItems inventoryItems\<rparr>,
                Some \<lparr>grantItems = sorted,
                      grantChanges = map (\<lambda>item. \<lparr>changeItem = item,
                                                  Created = Slot item \<notin> changedExistingSlots\<rparr>) sorted\<rparr>)))"

definition GrantCarriedItem :: "runtime \<Rightarrow> template \<Rightarrow> u16 \<Rightarrow> (runtime, grant_result) outcome" where
  "GrantCarriedItem r t cnt =
     (if ValidateCarriedItemGrant r t cnt \<noteq> None then (r, None) else grantCarriedItem r t cnt)"

definition GrantCarriedMailItem :: "runtime \<Rightarrow> template \<Rightarrow> u16 \<Rightarrow> (runtime, grant_result) outcome" where
  "GrantCarriedMailItem r t cnt = GrantCarriedItem r t cnt"

section \<open>Buying\<close>

datatype buy_failure = BuyFailureInvalid | BuyFailureInsufficientGold | BuyFailureNoValidPlacement

definition ValidateMerchantBuy :: "runtime \<Rightarrow> template \<Rightarrow> u16 \<Rightarrow> u64 \<Rightarrow> buy_failure option" where
  "ValidateMerchantBuy r t cnt price =
     (if \<not> CanUseTemplate r t \<or> tAntiGet t \<or> cnt = 0 \<or> tMaxCount t < cnt \<or> price = 0 then Some BuyFailureInvalid
      else if \<not> tStackable t \<and> cnt \<noteq> 1 then Some BuyFailureInvalid
      else if liveGold r < price then Some BuyFailureInsufficientGold
      else case ValidateCarriedItemGrant r t cnt of
        None \<Rightarrow> None
      | Some GrantFailureNoValidPlacement \<Rightarrow> Some BuyFailureNoValidPlacement
      | Some GrantFailureInvalid \<Rightarrow> Some BuyFailureInvalid)"

record buy_result = grant_result +
  buyGold :: u64

definition BuyMerchantItem :: "runtime \<Rightarrow> template \<Rightarrow> u16 \<Rightarrow> u64 \<Rightarrow> (runtime, buy_result) outcome" where
  "BuyMerchantItem r t cnt price =
     (if ValidateMerchantBuy r t cnt price \<noteq> None then (r, None)
      else case grantCarriedItem r t cnt of
        (r1, None) \<Rightarrow> (r1, None)
      | (r1, Some grant) \<Rightarrow>
          let r2 = r1\<lparr>liveGold := liveGold r1 - price\<rparr> in
          (r2, Some \<lparr>grantItems = grantItems grant, grantChanges = grantChanges grant,
                     buyGold = liveGold r2\<rparr>))"

section \<open>Selling\<close>

record sell_result =
  sellSlot :: slot_index
  sellRemoved :: bool
  sellItem :: item_instance
  sellGoldBefore :: u64
  sellGold :: u64

text \<open>The guards on the sold cell: its index, the instance, and how many units go.\<close>

definition sellable :: "runtime \<Rightarrow> slot_index \<Rightarrow> u16 \<Rightarrow> (nat \<times> item_instance \<times> u16) option" where
  "sellable r slot cnt =
     (if countInventorySlotOccupancy (liveInventory r) slot \<noteq> 1 then None
      else case findInventorySlot (liveInventory r) slot of
        None \<Rightarrow> None
      | Some index \<Rightarrow>
          let item = liveInventory r ! index in
          if Equipped item \<or> Locked item \<or> Count item = 0 then None
          else if Validate item \<noteq> None then None
          else
            let soldCount = (if cnt = 0 then Count item else cnt) in
            if soldCount = 0 \<or> Count item < soldCount then None
            else Some (index, item, soldCount))"

definition MerchantSellCount :: "runtime \<Rightarrow> slot_index \<Rightarrow> u16 \<Rightarrow> u16 option" where
  "MerchantSellCount r slot cnt =
     (case sellable r slot cnt of None \<Rightarrow> None | Some (_, _, soldCount) \<Rightarrow> Some soldCount)"

definition SellMerchantItemForCredit ::
    "runtime \<Rightarrow> slot_index \<Rightarrow> u16 \<Rightarrow> u64 \<Rightarrow> (runtime, sell_result) outcome" where
  "SellMerchantItemForCredit r slot cnt credit =
     (if credit = 0 \<or> maxPointChangeCarrier < credit then (r, None)
      else case sellable r slot cnt of
        None \<Rightarrow> (r, None)
      | Some (index, item, soldCount) \<Rightarrow>
          if maxPointChangeCarrier < liveGold r \<or> maxPointChangeCarrier - credit < liveGold r then (r, None)
          else
            let result = \<lparr>sellSlot = slot, sellRemoved = False, sellItem = zero_item,
                          sellGoldBefore = liveGold r, sellGold = liveGold r + credit\<rparr>;
                inventoryItems = cloneItemInstances (liveInventory r) in
            if soldCount = Count item then
              (r\<lparr>liveGold := sellGold result,
                 liveInventory := sortInventoryItems (removeInventoryIndex inventoryItems index)\<rparr>,
               Some (result\<lparr>sellRemoved := True\<rparr>))
            else
              let remainder = (inventoryItems ! index)\<lparr>Count := Count (inventoryItems ! index) - soldCount\<rparr> in
              if Validate remainder \<noteq> None then (r, None)
              else
                (r\<lparr>liveGold := sellGold result,
                   liveInventory := sortInventoryItems (inventoryItems[index := remainder])\<rparr>,
                 Some (result\<lparr>sellItem := remainder\<rparr>)))"

definition SellMerchantItem :: "runtime \<Rightarrow> slot_index \<Rightarrow> u16 \<Rightarrow> u64 \<Rightarrow> (runtime, sell_result) outcome" where
  "SellMerchantItem r slot cnt unitPrice =
     (if unitPrice = 0 then (r, None)
      else case MerchantSellCount r slot cnt of
        None \<Rightarrow> (r, None)
      | Some soldCount \<Rightarrow>
          if (-1 :: u64) div ucast soldCount < unitPrice then (r, None)
          else SellMerchantItemForCredit r slot cnt (unitPrice * ucast soldCount))"

definition MerchantSellCredit :: "template \<Rightarrow> u16 \<Rightarrow> u64 option" where
  "MerchantSellCredit t cnt =
     (if \<not> ValidTemplate t \<or> tAntiGet t \<or> tAntiDrop t \<or> tAntiGive t \<or> tAntiSell t \<or> tAntiStack t \<or> cnt = 0 then None
      else if tShopSellPrice t \<noteq> 0 then
        (if maxPointChangeCarrier < tShopSellPrice t \<or> (-1 :: u64) div ucast cnt < tShopSellPrice t then None
         else
           let price = tShopSellPrice t * ucast cnt in
           if price = 0 \<or> maxPointChangeCarrier < price then None else Some price)
      else
        let base = (if tSellCountPerGold t then
                      (if tShopBuyPrice t = 0 then Some (ucast cnt) else Some (ucast cnt div tShopBuyPrice t))
                    else if tShopBuyPrice t = 0 \<or> (-1 :: u64) div ucast cnt < tShopBuyPrice t then None
                    else Some (tShopBuyPrice t * ucast cnt)) in
        (case base of
           None \<Rightarrow> None
         | Some price \<Rightarrow>
             let price = price div 5; tax = price * 3 div 100; price = price - tax in
             if price = 0 \<or> maxPointChangeCarrier < price then None else Some price))"

definition MerchantSellUnitPrice :: "template \<Rightarrow> u64 option" where
  "MerchantSellUnitPrice t = MerchantSellCredit t 1"

definition SellMerchantItemWithTemplate ::
    "runtime \<Rightarrow> slot_index \<Rightarrow> u16 \<Rightarrow> template \<Rightarrow> (runtime, sell_result) outcome" where
  "SellMerchantItemWithTemplate r slot cnt t =
     (if \<not> CanUseTemplate r t \<or> tAntiGet t \<or> tAntiDrop t \<or> tAntiGive t \<or> tAntiSell t \<or> tAntiStack t then (r, None)
      else case findInventorySlot (liveInventory r) slot of
        None \<Rightarrow> (r, None)
      | Some index \<Rightarrow>
          if Vnum (liveInventory r ! index) \<noteq> tVnum t \<or> tMaxCount t < Count (liveInventory r ! index) then (r, None)
          else case MerchantSellCount r slot cnt of
            None \<Rightarrow> (r, None)
          | Some soldCount \<Rightarrow>
              (case MerchantSellCredit t soldCount of
                 None \<Rightarrow> (r, None)
               | Some credit \<Rightarrow> SellMerchantItemForCredit r slot soldCount credit))"

definition SellMerchantItemWithTemplateCounted ::
    "runtime \<Rightarrow> slot_index \<Rightarrow> u16 \<Rightarrow> template \<Rightarrow> (runtime, sell_result) outcome" where
  "SellMerchantItemWithTemplateCounted r slot cnt t =
     (if cnt = 0 then (r, None) else SellMerchantItemWithTemplate r slot cnt t)"

section \<open>The credit of a sale\<close>

text \<open>The credit as a number: the authored price, or a fifth of the buy value less 3 percent.\<close>

definition sell_value :: "template \<Rightarrow> nat \<Rightarrow> nat" where
  "sell_value t n =
     (if tShopSellPrice t \<noteq> 0 then unat (tShopSellPrice t) * n
      else
        let base = (if tSellCountPerGold t
                    then (if tShopBuyPrice t = 0 then n else n div unat (tShopBuyPrice t))
                    else unat (tShopBuyPrice t) * n) div 5
        in base - base * 3 div 100)"

lemma unat_mult_no_wrap:
  fixes a b :: u64
  assumes "unat a * unat b < 2 ^ 64"
  shows "unat (a * b) = unat a * unat b"
  using assms by (simp add: unat_word_ariths)

lemma div_guard:
  fixes a b :: u64
  assumes "unat a * unat b < 2 ^ 64" and "b \<noteq> 0"
  shows "\<not> (-1 :: u64) div b < a"
proof -
  have "unat (-1 :: u64) = 2 ^ 64 - 1"
    by (simp add: unsigned_minus_1_eq_mask mask_eq_exp_minus_1)
  then have "unat ((-1 :: u64) div b) = (2 ^ 64 - 1) div unat b" by (simp add: unat_div_distrib)
  moreover have "unat a \<le> (2 ^ 64 - 1) div unat b"
    using assms by (simp add: less_eq_div_iff_mult_less_eq unat_gt_0)
  ultimately show ?thesis by (simp add: word_less_nat_alt not_less)
qed

text \<open>The price after the tax, with no wrap-around below a 48-bit buy value.\<close>

lemma taxed:
  fixes base :: u64
  assumes "unat base < 2 ^ 48"
  shows "unat (base div 5 - base div 5 * 3 div 100) = unat base div 5 - unat base div 5 * 3 div 100"
proof -
  let ?p = "base div 5"
  have p: "unat ?p = unat base div 5" by (simp add: unat_div_distrib)
  then have "unat (?p * 3) = unat base div 5 * 3"
    using assms by (subst unat_mult_no_wrap) simp_all
  then have t: "unat (?p * 3 div 100) = unat base div 5 * 3 div 100" by (simp add: unat_div_distrib)
  have "?p * 3 div 100 \<le> ?p" using p t by (simp add: word_le_nat_alt)
  then show ?thesis using unat_sub_le [of "?p * 3 div 100" ?p] p t by simp
qed

lemma div_less_dividend_le: "n < b \<Longrightarrow> n div d < (b :: nat)"
  using div_le_dividend [of n d] by linarith

definition sellable_template :: "template \<Rightarrow> bool" where
  "sellable_template t \<longleftrightarrow> ValidTemplate t \<and> \<not> tAntiGet t \<and> \<not> tAntiDrop t \<and> \<not> tAntiGive t \<and>
     \<not> tAntiSell t \<and> \<not> tAntiStack t"

lemma price_option:
  assumes "unat price = v" and "v < 2 ^ 64"
  shows "(if price = 0 \<or> maxPointChangeCarrier < price then None else Some price) =
    (if v = 0 \<or> 2147483647 < v then None else Some (of_nat v :: u64))"
  using assms by (auto simp: word_less_nat_alt unat_eq_zero unat_gt_0)

lemma MerchantSellCredit_value:
  "MerchantSellCredit t cnt =
     (if sellable_template t \<and> 0 < unat cnt \<and> 0 < sell_value t (unat cnt) \<and> sell_value t (unat cnt) \<le> 2147483647
      then Some (of_nat (sell_value t (unat cnt))) else None)"
proof (cases "sellable_template t \<and> cnt \<noteq> 0")
  case False
  then show ?thesis by (auto simp: MerchantSellCredit_def sellable_template_def unat_gt_0)
next
  case True
  then have g: "\<not> (\<not> ValidTemplate t \<or> tAntiGet t \<or> tAntiDrop t \<or> tAntiGive t \<or> tAntiSell t \<or> tAntiStack t \<or> cnt = 0)"
    and n: "0 < unat cnt" by (auto simp: sellable_template_def unat_gt_0)
  note prices = ValidTemplate_prices [of t]
  have nb: "unat cnt < 2 ^ 16" using unsigned_less [of cnt, where ?'a = nat] by simp
  have w2: "unat (ucast cnt :: u64) = unat cnt" by simp
  then have "(ucast cnt :: u64) \<noteq> 0" using n by (metis less_irrefl unat_0)
  note w = this w2
  have goal: "MerchantSellCredit t cnt =
      (if sell_value t (unat cnt) = 0 \<or> 2147483647 < sell_value t (unat cnt) then None
       else Some (of_nat (sell_value t (unat cnt))))"
  proof (cases "tShopSellPrice t = 0")
    case False
    have "unat (tShopSellPrice t) * unat cnt \<le> 2147483647 * 2 ^ 16"
      using prices(2) g nb by (intro mult_mono) auto
    then have m: "unat (tShopSellPrice t) * unat (ucast cnt :: u64) < 2 ^ 64" using w by simp
    have "\<not> maxPointChangeCarrier < tShopSellPrice t" using prices(2) g by (simp add: word_less_nat_alt)
    then show ?thesis
      using g False div_guard [OF m w(1)] price_option [OF unat_mult_no_wrap [OF m]] m
      by (simp add: MerchantSellCredit_def sell_value_def w)
  next
    case zero: True
    define base where "base = (if tSellCountPerGold t
        then (if tShopBuyPrice t = 0 then ucast cnt else ucast cnt div tShopBuyPrice t)
        else tShopBuyPrice t * ucast cnt)"
    have "unat (tShopBuyPrice t) * unat cnt \<le> 4294967295 * 65535"
      using prices(1) g nb by (intro mult_mono) auto
    then have m: "unat (tShopBuyPrice t) * unat (ucast cnt :: u64) < 2 ^ 48" using w by simp
    then have m64: "unat (tShopBuyPrice t) * unat (ucast cnt :: u64) < 2 ^ 64" by (rule less_trans) simp
    have b: "unat base = (if tSellCountPerGold t
        then (if tShopBuyPrice t = 0 then unat cnt else unat cnt div unat (tShopBuyPrice t))
        else unat (tShopBuyPrice t) * unat cnt)"
      using unat_mult_no_wrap [OF m64] w by (simp add: base_def unat_div_distrib)
    have "unat cnt div unat (tShopBuyPrice t) < 2 ^ 16" using nb by (rule div_less_dividend_le)
    then have small: "unat base < 2 ^ 48" using b m w nb by (simp split: if_split_asm)
    have v: "unat (base div 5 - base div 5 * 3 div 100) = sell_value t (unat cnt)"
      using taxed [OF small] b zero by (simp add: sell_value_def Let_def)
    have "sell_value t (unat cnt) < 2 ^ 64"
      using v unsigned_less [of "base div 5 - base div 5 * 3 div 100", where ?'a = nat] by simp
    note out = price_option [OF v this]
    have "sell_value t (unat cnt) = 0" if "tShopBuyPrice t = 0" "\<not> tSellCountPerGold t"
      using that zero by (simp add: sell_value_def)
    moreover have "MerchantSellCredit t cnt =
        (if base div 5 - base div 5 * 3 div 100 = 0 \<or> maxPointChangeCarrier < base div 5 - base div 5 * 3 div 100
         then None else Some (base div 5 - base div 5 * 3 div 100))"
      if "\<not> (tShopBuyPrice t = 0 \<and> \<not> tSellCountPerGold t)"
      using that g zero div_guard [OF m64 w(1)]
      by (cases "tSellCountPerGold t"; cases "tShopBuyPrice t = 0") (simp_all add: MerchantSellCredit_def Let_def base_def)
    moreover have "MerchantSellCredit t cnt = None" if "tShopBuyPrice t = 0" "\<not> tSellCountPerGold t"
      using that g zero by (simp add: MerchantSellCredit_def)
    ultimately show ?thesis unfolding out by metis
  qed
  show ?thesis unfolding goal using True n by auto
qed

section \<open>Sales\<close>

lemma sellable_SomeD:
  assumes wf: "wf_items (liveInventory r) (liveEquipment r)" and "sellable r slot cnt = Some (k, item, n)"
  shows "findInventorySlot (liveInventory r) slot = Some k" and "item = liveInventory r ! k"
    and "cells (liveInventory r) slot = Some item" and "\<not> Locked item" and "n \<noteq> 0" and "n \<le> Count item"
    and "n = (if cnt = 0 then Count item else cnt)"
proof -
  show k: "findInventorySlot (liveInventory r) slot = Some k" and i: "item = liveInventory r ! k"
    and "\<not> Locked item" "n \<noteq> 0" "n \<le> Count item" "n = (if cnt = 0 then Count item else cnt)"
    using assms(2) by (auto simp: sellable_def Let_def not_less split: option.split_asm if_split_asm)
  show "cells (liveInventory r) slot = Some item" using cells_find_Some(3) [OF wf k] i by simp
qed

text \<open>A sale of \<open>n\<close> units of a cell for \<open>credit\<close>.\<close>

definition sold :: "slot_index \<Rightarrow> u16 \<Rightarrow> nat \<Rightarrow> runtime \<Rightarrow> runtime \<Rightarrow> bool" where
  "sold slot cnt credit r r' \<longleftrightarrow>
     (\<exists>i n. cells (liveInventory r) slot = Some i \<and> \<not> Locked i \<and> n = (if cnt = 0 then Count i else cnt) \<and>
        n \<noteq> 0 \<and> n \<le> Count i \<and>
        cells (liveInventory r') = (cells (liveInventory r))(slot := take_units n i) \<and>
        unat (liveGold r') = unat (liveGold r) + credit \<and> unat (liveGold r') \<le> 2147483647)"

lemma credit_fits:
  assumes "\<not> (maxPointChangeCarrier < g \<or> maxPointChangeCarrier - credit < g)" and "\<not> maxPointChangeCarrier < credit"
  shows "unat (g + credit) = unat g + unat credit" and "unat g + unat credit \<le> 2147483647"
proof -
  have "unat (maxPointChangeCarrier - credit) = 2147483647 - unat credit"
    using assms(2) unat_sub_le [of credit maxPointChangeCarrier] by (simp add: not_less)
  then show le: "unat g + unat credit \<le> 2147483647"
    using assms by (simp add: word_less_nat_alt) arith
  then show "unat (g + credit) = unat g + unat credit" by (intro unat_add_no_wrap) simp
qed

lemma SellMerchantItemForCredit_sat:
  assumes "wf_runtime r"
  shows "sat (trade_post (\<lambda>r' x. sold slot cnt (unat credit) r r' \<and> sellGold x = liveGold r') r)
    (SellMerchantItemForCredit r slot cnt credit)"
proof -
  note wf = wf_runtime_items [OF assms]
  show ?thesis
    unfolding SellMerchantItemForCredit_def Let_def
  proof ((intro sat_intros assms; (assumption)?), goal_cases)
    case (1 v k z i n)
    then have e: "sellable r slot cnt = Some (k, i, n)" by simp
    note s = sellable_SomeD [OF wf e] and c = credit_fits [OF 1(5)]
    have "wf_items (sortInventoryItems (removeInventoryIndex (liveInventory r) k)) (liveEquipment r) \<and>
        cells (sortInventoryItems (removeInventoryIndex (liveInventory r) k)) =
          (cells (liveInventory r))(slot := take_units n (liveInventory r ! k))"
      using 1 s(2,5,6) leD [OF s(6)] edit_remove [OF wf s(1)] cells_find_Some(1) [OF wf s(1)]
      by (simp add: cells_sort [OF edit_remove(1) [OF wf s(1)]] take_units_def)
    then show ?case using 1 s c by (auto simp: sold_def)
  next
    case (2 v k z i n)
    then have e: "sellable r slot cnt = Some (k, i, n)" by simp
    note s = sellable_SomeD [OF wf e] and c = credit_fits [OF 2(5)]
    have ne: "Count (liveInventory r ! k) \<noteq> n" using 2 s(2) by simp
    note t = take_step(2) [OF wf s(1,5) s(6) [unfolded s(2)] ne]
    have "cells (sortInventoryItems ((liveInventory r)[k := (liveInventory r ! k)\<lparr>Count := Count (liveInventory r ! k) - n\<rparr>])) =
        (cells (liveInventory r))(slot := take_units n (liveInventory r ! k))"
      using t by (simp add: cells_sort [OF conjunct1 [OF t]])
    moreover have "wf_items (sortInventoryItems ((liveInventory r)[k := (liveInventory r ! k)\<lparr>Count := Count (liveInventory r ! k) - n\<rparr>]))
        (liveEquipment r)" using t by simp
    ultimately show ?case using 2 s c by (auto simp: sold_def)
  qed
qed

lemma unit_price_guard:
  fixes p :: u64 and n :: u16
  assumes "\<not> (-1 :: u64) div ucast n < p" and "n \<noteq> 0"
  shows "unat (p * ucast n) = unat p * unat n"
proof -
  have "unat (-1 :: u64) = 2 ^ 64 - 1"
    by (simp add: unsigned_minus_1_eq_mask mask_eq_exp_minus_1)
  then have "unat p \<le> (2 ^ 64 - 1) div unat n"
    using assms(1) by (simp add: word_less_nat_alt not_less unat_div_distrib)
  then have "unat p * unat n \<le> 2 ^ 64 - 1"
    using assms(2) by (simp add: less_eq_div_iff_mult_less_eq unat_gt_0)
  then show ?thesis using unat_mult_no_wrap [of p "ucast n"] by simp
qed

lemma MerchantSellCount_SomeD:
  assumes "MerchantSellCount r slot cnt = Some n" and "wf_items (liveInventory r) (liveEquipment r)"
  shows "n \<noteq> 0"
proof -
  from assms(1) obtain k i where "sellable r slot cnt = Some (k, i, n)"
    by (auto simp: MerchantSellCount_def split: option.split_asm)
  from sellable_SomeD(5) [OF assms(2) this] show ?thesis .
qed

lemma SellMerchantItem_sat:
  assumes "wf_runtime r"
  shows "sat (trade_post (\<lambda>r' x. \<exists>n. MerchantSellCount r slot cnt = Some n \<and>
      sold slot cnt (unat unitPrice * unat n) r r' \<and> sellGold x = liveGold r') r)
    (SellMerchantItem r slot cnt unitPrice)"
  unfolding SellMerchantItem_def
proof (intro sat_if sat_option, goal_cases)
  case (4 n)
  have "unat (unitPrice * ucast n) = unat unitPrice * unat n"
    using 4 MerchantSellCount_SomeD wf_runtime_items [OF assms] by (intro unit_price_guard) blast+
  with 4(2) show ?case
    by (intro trade_post_mono [OF SellMerchantItemForCredit_sat [OF assms]]) simp
qed (auto intro: sat_pair trade_post_fail)

lemma SellMerchantItemWithTemplate_sat:
  assumes "wf_runtime r"
  shows "sat (trade_post (\<lambda>r' x. \<exists>n. MerchantSellCount r slot cnt = Some n \<and>
      sold slot n (sell_value t (unat n)) r r' \<and> sellGold x = liveGold r') r)
    (SellMerchantItemWithTemplate r slot cnt t)"
  unfolding SellMerchantItemWithTemplate_def
proof (intro sat_if sat_option, goal_cases)
  case (6 k n credit)
  have "unat credit = sell_value t (unat n)"
    using 6(5) by (auto simp: MerchantSellCredit_value unsigned_of_nat take_bit_nat_eq_self split: if_split_asm)
  with 6(4) show ?case
    by (intro trade_post_mono [OF SellMerchantItemForCredit_sat [OF assms]]) simp
qed (auto intro: sat_pair trade_post_fail)

section \<open>Grants are exact\<close>

lemma merge_into:
  assumes m: "findMergeableInventoryIndex a v n limit = Some i" and wf: "wf_items a b" and "n \<noteq> 0"
  defines "a' \<equiv> a[i := (a ! i)\<lparr>Count := Count (a ! i) + n\<rparr>]"
  shows "wf_items a' b" and "grown (cells a) (cells a')"
    and "units w a' = units w a + (if w = v then unat n else 0)"
proof -
  note f = findMergeable_post [OF m]
  have i: "findInventorySlot a (Slot (a ! i)) = Some i"
    using wf_findInventorySlot_Some [OF wf] f(1) by simp
  have c: "Count (a ! i) + n \<noteq> 0" using f(4) \<open>n \<noteq> 0\<close> unat_eq_zero [of n] by auto
  note e = edit_recount [OF wf i c]
  show "wf_items a' b" unfolding a'_def by (rule e(1))
  show "grown (cells a) (cells a')"
    unfolding a'_def e(2) using cells_find_Some(3) [OF wf i] f(4)
    by (intro grown_put) (simp_all add: word_le_nat_alt)
  show "units w a' = units w a + (if w = v then unat n else 0)"
    unfolding a'_def using e(3) [of w] f(2,4) by (simp add: units_in_def split: if_split_asm)
qed

lemma grant_stacks_post:
  assumes "grant_stacks t n a = Some (a1, changed, slots, rest)" and wf: "wf_items a b" and n: "n \<noteq> 0"
  shows "wf_items a1 b \<and> grown (cells a) (cells a1) \<and>
    units (tVnum t) a1 + unat rest = units (tVnum t) a + unat n \<and> (\<forall>w. w \<noteq> tVnum t \<longrightarrow> units w a1 = units w a)"
proof (cases "tStackable t \<and> \<not> tAntiStack t")
  case False
  with assms show ?thesis by (auto simp: grant_stacks_def)
next
  case stack: True
  show ?thesis
  proof (cases "findMergeableInventoryIndex a (tVnum t) n (tMaxCount t)")
    case (Some i)
    with assms(1) stack have "a1 = a[i := (a ! i)\<lparr>Count := Count (a ! i) + n\<rparr>]" "rest = 0"
      by (auto simp: grant_stacks_def Let_def split: if_split_asm)
    with merge_into [OF Some wf n] show ?thesis by simp
  next
    case None
    obtain a' ch rem d where d: "distributeMerchantGrantAcrossExistingStacks a (tVnum t) n (tMaxCount t) = (a', ch, rem, d)"
      by (cases "distributeMerchantGrantAcrossExistingStacks a (tVnum t) n (tMaxCount t)") auto
    note p = distribute_post [OF d wf]
    show ?thesis
      using assms stack None d p by (cases d) (auto simp: grant_stacks_def)
  qed
qed

lemma grant_rest_post:
  assumes "grant_rest b t rest a ch = Some (a', ch')" and wf: "wf_items a b"
  shows "wf_items a' b \<and> (\<forall>w. units w a' = units w a + (if w = tVnum t then unat rest else 0)) \<and>
    (a' = a \<or> (\<exists>s p. (\<forall>x \<in> set a \<union> set b. ID x \<noteq> ID p) \<and> cells a s = None \<and> cells a' = (cells a)(s \<mapsto> p) \<and>
       Slot p = s \<and> Vnum p = tVnum t))"
proof (cases "rest = 0")
  case True
  with assms show ?thesis by (simp add: grant_rest_def)
next
  case False
  let ?id = "nextLiveItemInstanceID a b"
  let ?new = "zero_item\<lparr>ID := ?id, Vnum := tVnum t, Count := rest\<rparr>"
  from assms(1) False obtain s p where s: "nextFreeInventorySlot a = Some s"
    and w: "WithInventorySlot ?new s = Inr p" and a': "a' = a @ [p]"
    by (auto simp: grant_rest_def split: option.split_asm sum.split_asm)
  have "ID p \<noteq> 0" and p: "ID p = ?id" "Slot p = s" "Vnum p = tVnum t"
    using w by (auto simp: WithInventorySlot_Inr_iff Validate_None_iff)
  then have ids: "\<forall>x \<in> set a \<union> set b. ID x \<noteq> ?id" using next_id_fresh [of ?id a b] by auto
  note free = nextFreeInventorySlot_SomeD [OF s]
  have "\<forall>x \<in> set a \<union> set b. ID x \<noteq> ID ?new" using ids by simp
  note e = edit_append [OF wf w free(2) this]
  have "cells a s = None" using free(2) cells_occupied [OF wf, of s] by simp
  then have "\<exists>s p. (\<forall>x \<in> set a \<union> set b. ID x \<noteq> ID p) \<and> cells a s = None \<and> cells a' = (cells a)(s \<mapsto> p) \<and>
      Slot p = s \<and> Vnum p = tVnum t"
    using e(2) p ids a' by (intro exI [of _ s] exI [of _ p]) simp
  moreover have "units_in w ?new = (if w = tVnum t then unat rest else 0)" for w
    by (simp add: units_in_def)
  ultimately show ?thesis using e(1,3) a' by simp
qed

text \<open>
  What a grant leaves: every cell keeps its instance with at least its count, and at most one
  free cell received a new instance of the kind, with an id nothing else has.
\<close>

definition granted :: "item_instance list \<Rightarrow> item_instance list \<Rightarrow> u32 \<Rightarrow> item_instance list \<Rightarrow> bool" where
  "granted a b v a' \<longleftrightarrow> grown (cells a) (cells a') \<or>
     (\<exists>k. (\<forall>x \<in> set a \<union> set b. ID x \<noteq> k) \<and> received (cells a) k v (cells a'))"

lemma grown_ids:
  assumes wf: "wf_items a b" "wf_items a1 b" and g: "grown (cells a) (cells a1)" and "x \<in> set a"
  shows "\<exists>y \<in> set a1. ID y = ID x"
proof -
  have "cells a (Slot x) = Some x"
    unfolding cells_def using \<open>x \<in> set a\<close> lookup_Some_iff [OF wf_itemsD(2) [OF wf(1)]] by blast
  with g obtain c where "cells a1 (Slot x) = Some (x\<lparr>Count := c\<rparr>)"
    using grown_Some by blast
  then have "x\<lparr>Count := c\<rparr> \<in> set a1"
    unfolding cells_def using lookup_Some_iff [OF wf_itemsD(2) [OF wf(2)]] by blast
  then show ?thesis by (intro bexI [of _ "x\<lparr>Count := c\<rparr>"]) simp_all
qed

lemma grantCarriedItem_sat:
  assumes "wf_runtime r" and n: "n \<noteq> 0"
  shows "sat (inv_post (\<lambda>items x.
      (\<forall>w. units w items = units w (liveInventory r) + (if w = tVnum t then unat n else 0)) \<and>
      granted (liveInventory r) (liveEquipment r) (tVnum t) items) r) (grantCarriedItem r t n)"
proof -
  let ?a = "liveInventory r" and ?b = "liveEquipment r"
  note wf = wf_runtime_items [OF assms(1)] and [sat_intros del] = inv_post_ok
  show ?thesis
    unfolding grantCarriedItem_def cloneItemInstances_id Let_def
  proof ((intro sat_intros inv_post_ok_conj assms; (assumption)?), goal_cases)
    case (1 x a1 y changed z slots rest u a2 changed2)
    then have s: "grant_stacks t n ?a = Some (a1, changed, slots, rest)"
      and p: "grant_rest ?b t rest a1 changed = Some (a2, changed2)" by simp_all
    note e = grant_stacks_post [OF s wf n]
    then have w1: "wf_items a1 ?b" and g: "grown (cells ?a) (cells a1)" by simp_all
    note f = grant_rest_post [OF p w1]
    have w2: "wf_items a2 ?b" using f by simp
    have "granted ?a ?b (tVnum t) a2"
    proof (cases "a2 = a1")
      case True
      with g show ?thesis by (simp add: granted_def)
    next
      case False
      with f obtain s q where q: "\<forall>x \<in> set a1 \<union> set ?b. ID x \<noteq> ID q" "cells a1 s = None"
        "cells a2 = (cells a1)(s \<mapsto> q)" "Slot q = s" "Vnum q = tVnum t" by blast
      have "\<forall>x \<in> set ?a \<union> set ?b. ID x \<noteq> ID q"
        using q(1) grown_ids [OF wf w1 g] by (metis UnCI UnE)
      moreover have "received (cells ?a) (ID q) (tVnum t) (cells a2)"
        using g q grown_None [OF g, of s] unfolding received_def by blast
      ultimately show ?thesis unfolding granted_def by blast
    qed
    moreover have "units w a2 = units w ?a + (if w = tVnum t then unat n else 0)" for w
      using e f by auto
    moreover have "cells (sortInventoryItems a2) = cells a2" by (rule cells_sort [OF w2])
    ultimately show ?case using w2 by (simp add: granted_def)
  qed
qed

section \<open>A validated grant goes through\<close>

text \<open>Ids run out only at the largest 64-bit value.\<close>

definition ids_left :: "item_instance list \<Rightarrow> item_instance list \<Rightarrow> bool" where
  "ids_left a b \<longleftrightarrow> (\<forall>i \<in> set a \<union> set b. ID i \<noteq> -1)"

lemma foldl_max_member:
  "foldl (\<lambda>m i. if m < ID i then ID i else m) m items \<in> insert m (ID ` set items)"
proof (induction items arbitrary: m)
  case (Cons x items)
  show ?case using Cons.IH [of "if m < ID x then ID x else m"] by (auto split: if_split_asm)
qed simp

lemma next_id_nonzero:
  assumes "ids_left a b"
  shows "nextLiveItemInstanceID a b \<noteq> 0"
proof -
  have "maxItemID a b \<in> insert 0 (ID ` set (a @ b))"
    unfolding maxItemID_def by (rule foldl_max_member)
  then have "maxItemID a b \<noteq> -1" using assms by (auto simp: ids_left_def)
  then have "maxItemID a b + 1 \<noteq> 0" by (metis add.commute eq_neg_iff_add_eq_0)
  then show ?thesis by (simp add: nextLiveItemInstanceID_def Let_def)
qed

lemma grown_ids_back:
  assumes wf: "wf_items a b" "wf_items a1 b" and g: "grown (cells a) (cells a1)" and "y \<in> set a1"
  shows "\<exists>x \<in> set a. ID y = ID x"
proof -
  have y: "cells a1 (Slot y) = Some y"
    unfolding cells_def using \<open>y \<in> set a1\<close> lookup_Some_iff [OF wf_itemsD(2) [OF wf(2)]] by blast
  then obtain x where x: "cells a (Slot y) = Some x"
    using grown_None [OF g, of "Slot y"] by (cases "cells a (Slot y)") auto
  with grown_Some [OF g x] y obtain c where "y = x\<lparr>Count := c\<rparr>" by auto
  moreover have "x \<in> set a"
    using x lookup_Some_iff [OF wf_itemsD(2) [OF wf(1)]] unfolding cells_def by blast
  ultimately show ?thesis by (intro bexI [of _ x]) simp_all
qed

lemma nextFree_grown:
  assumes "wf_items a b" "wf_items a1 b" and "grown (cells a) (cells a1)"
  shows "nextFreeInventorySlot a1 = nextFreeInventorySlot a"
proof -
  have "inventorySlotOccupied a1 s = inventorySlotOccupied a s" for s
    using cells_occupied [OF assms(1), of s] cells_occupied [OF assms(2), of s] grown_None [OF assms(3), of s]
    by (simp del: not_None_eq)
  then show ?thesis by (simp add: nextFreeInventorySlot_def)
qed

lemma grant_stacks_ok:
  assumes wf: "wf_items a b" and n: "n \<noteq> 0"
  shows "grant_stacks t n a \<noteq> None"
proof -
  have "Validate ((a ! i)\<lparr>Count := Count (a ! i) + n\<rparr>) = None"
    if m: "findMergeableInventoryIndex a (tVnum t) n (tMaxCount t) = Some i" for i
  proof -
    have "carried_ok (a ! i)" using findMergeable_post(1) [OF m] by (rule wf_carried_nth [OF wf])
    moreover have "Count (a ! i) + n \<noteq> 0"
      using findMergeable_post(4) [OF m] n unat_eq_zero [of n] by auto
    ultimately show ?thesis by (simp add: carried_ok_def Validate_None_iff)
  qed
  then show ?thesis
    by (cases "distributeMerchantGrantAcrossExistingStacks a (tVnum t) n (tMaxCount t)")
      (auto simp: grant_stacks_def Let_def split: option.split bool.split)
qed

lemma validated_room:
  assumes v: "ValidateCarriedItemGrant r t n = None" and s: "grant_stacks t n (liveInventory r) = Some (a1, ch, sl, rest)"
  shows "rest = 0 \<or> nextFreeInventorySlot (liveInventory r) \<noteq> None"
proof -
  obtain a' ch' rem d where d: "distributeMerchantGrantAcrossExistingStacks (liveInventory r) (tVnum t) n (tMaxCount t) = (a', ch', rem, d)"
    by (cases "distributeMerchantGrantAcrossExistingStacks (liveInventory r) (tVnum t) n (tMaxCount t)") auto
  show ?thesis
    using v s unfolding ValidateCarriedItemGrant_def grant_stacks_def d Let_def
    by (cases d) (auto split: if_split_asm option.split_asm)
qed

lemma grantCarriedItem_ok:
  assumes wf: "wf_runtime r" and v: "ValidateCarriedItemGrant r t n = None"
    and ids: "ids_left (liveInventory r) (liveEquipment r)"
  shows "ok (grantCarriedItem r t n)"
proof -
  let ?a = "liveInventory r" and ?b = "liveEquipment r"
  note w = wf_runtime_items [OF wf]
  from v have valid: "ValidTemplate t" and n: "n \<noteq> 0"
    by (auto simp: ValidateCarriedItemGrant_def Let_def split: if_split_asm)
  obtain a1 ch sl rest where s: "grant_stacks t n ?a = Some (a1, ch, sl, rest)"
    using grant_stacks_ok [OF w n, of t] by (metis not_None_eq prod_cases4)
  note e = grant_stacks_post [OF s w n]
  then have w1: "wf_items a1 ?b" and g: "grown (cells ?a) (cells a1)" by simp_all
  have "ids_left a1 ?b"
    using ids grown_ids_back [OF w w1 g] unfolding ids_left_def by (metis Un_iff)
  then have id: "nextLiveItemInstanceID a1 ?b \<noteq> 0" by (rule next_id_nonzero)
  have "grant_rest ?b t rest a1 ch \<noteq> None"
  proof (cases "rest = 0")
    case False
    then obtain slot where slot: "nextFreeInventorySlot a1 = Some slot"
      using validated_room [OF v s] nextFree_grown [OF w w1 g] by auto
    let ?new = "zero_item\<lparr>ID := nextLiveItemInstanceID a1 ?b, Vnum := tVnum t, Count := rest\<rparr>"
    have "\<exists>p. WithInventorySlot ?new slot = Inr p"
      using nextFreeInventorySlot_SomeD(1) [OF slot] id False ValidTemplate_vnum [OF valid]
      by (simp add: WithInventorySlot_Inr_iff Validate_None_iff)
    then show ?thesis using False slot by (auto simp: grant_rest_def)
  qed (simp add: grant_rest_def)
  then show ?thesis using s by (auto simp: grantCarriedItem_def Let_def)
qed

section \<open>Properties\<close>

text \<open>A purchase of \<open>n\<close> units of a kind for \<open>price\<close>.\<close>

definition bought :: "u32 \<Rightarrow> nat \<Rightarrow> nat \<Rightarrow> runtime \<Rightarrow> runtime \<Rightarrow> bool" where
  "bought v n price r r' \<longleftrightarrow> unat (liveGold r') + price = unat (liveGold r) \<and>
     (\<forall>w. units w (liveInventory r') = units w (liveInventory r) + (if w = v then n else 0)) \<and>
     granted (liveInventory r) (liveEquipment r) v (liveInventory r')"

lemma BuyMerchantItem_sat:
  assumes "wf_runtime r"
  shows "sat (trade_post (\<lambda>r' x. bought (tVnum t) (unat n) (unat price) r r' \<and> buyGold x = liveGold r') r)
    (BuyMerchantItem r t n price)"
proof (cases "ValidateMerchantBuy r t n price")
  case (Some f)
  then show ?thesis by (simp add: BuyMerchantItem_def sat_def trade_post_fail)
next
  case None
  then have n: "n \<noteq> 0" and p: "price \<le> liveGold r"
    by (auto simp: ValidateMerchantBuy_def not_less split: if_split_asm)
  obtain r1 g where g: "grantCarriedItem r t n = (r1, g)" by (cases "grantCarriedItem r t n")
  show ?thesis
  proof (cases g)
    case None
    with inv_postD [OF grantCarriedItem_sat [OF assms n] g] have "r1 = r" by simp
    then show ?thesis
      using g None \<open>ValidateMerchantBuy r t n price = None\<close>
      by (simp add: BuyMerchantItem_def sat_def trade_post_fail)
  next
    case (Some x)
    with inv_postD [OF grantCarriedItem_sat [OF assms n] g]
    have r1: "r1 = r\<lparr>liveInventory := liveInventory r1\<rparr>" and w: "wf_runtime r1"
      and u: "\<forall>w. units w (liveInventory r1) = units w (liveInventory r) + (if w = tVnum t then unat n else 0)"
      and gr: "granted (liveInventory r) (liveEquipment r) (tVnum t) (liveInventory r1)" by simp_all
    from r1 have gold: "liveGold r1 = liveGold r" and eq: "liveEquipment r1 = liveEquipment r"
      by (metis runtime.surjective runtime.update_convs runtime.select_convs)+
    have "r1\<lparr>liveGold := liveGold r - price\<rparr> = r\<lparr>liveGold := liveGold r - price, liveInventory := liveInventory r1\<rparr>"
      by (subst r1) simp
    moreover have "unat (liveGold r - price) + unat price = unat (liveGold r)"
      using p unat_sub_le [of price "liveGold r"] by (simp add: word_le_nat_alt)
    moreover have "wf_items (liveInventory r1) (liveEquipment r)" using wf_runtime_items [OF w] eq by simp
    ultimately show ?thesis
      using \<open>ValidateMerchantBuy r t n price = None\<close> g Some gold u gr
      by (simp add: BuyMerchantItem_def sat_def Let_def trade_post_ok [OF assms] bought_def)
  qed
qed

text \<open>
  C22: buying is exact and its validation is honest. A purchase is carried out exactly when
  \<open>ValidateMerchantBuy\<close> has no objection (as long as instance ids are left); then the gold
  falls by the price, the units of the kind grow by the count, every carried stack keeps its
  instance, at most one new instance appears, with an id of its own, and nothing else changes.
  A refused purchase changes nothing.
\<close>

theorem BuyMerchantItem_exact:
  assumes "wf_runtime r" and "ids_left (liveInventory r) (liveEquipment r)"
  shows "(ok (BuyMerchantItem r t n price) \<longleftrightarrow> ValidateMerchantBuy r t n price = None) \<and>
    sat (trade_post (\<lambda>r' x. bought (tVnum t) (unat n) (unat price) r r' \<and> buyGold x = liveGold r') r)
      (BuyMerchantItem r t n price)"
proof (rule conjI [OF _ BuyMerchantItem_sat [OF assms(1)]])
  have "ok (grantCarriedItem r t n)" if "ValidateMerchantBuy r t n price = None"
    using that by (intro grantCarriedItem_ok assms)
      (auto simp: ValidateMerchantBuy_def split: if_split_asm option.split_asm grant_failure.split_asm)
  then show "ok (BuyMerchantItem r t n price) \<longleftrightarrow> ValidateMerchantBuy r t n price = None"
    by (cases "ValidateMerchantBuy r t n price") (auto simp: BuyMerchantItem_def Let_def split: prod.split option.split)
qed

text \<open>
  The credit of a sale is the authored sell price per unit, or a fifth of the buy value
  less 3 percent tax, computed without wrap-around: a sale is priced exactly when the template
  is valid and may be sold and that number is between 1 and the carrier. A template with no
  sell price of its own and no per-gold count never pays back more than a fifth of its price.
\<close>

theorem MerchantSellCredit_exact:
  "MerchantSellCredit t cnt =
     (if sellable_template t \<and> 0 < unat cnt \<and> 0 < sell_value t (unat cnt) \<and> sell_value t (unat cnt) \<le> 2147483647
      then Some (of_nat (sell_value t (unat cnt))) else None) \<and>
   (tShopSellPrice t = 0 \<and> \<not> tSellCountPerGold t \<longrightarrow>
      5 * sell_value t (unat cnt) \<le> unat (tShopBuyPrice t) * unat cnt)"
  by (intro conjI MerchantSellCredit_value) (auto simp: sell_value_def Let_def)

text \<open>
  C23: selling is exact. A sale takes exactly the sold units out of one unlocked carried cell
  (the whole stack when no count is given) and adds exactly the unit price times the units, or
  the template's credit for them, to the gold, which stays within the carrier; a refused sale
  changes nothing.
\<close>

theorem SellMerchantItem_exact:
  assumes "wf_runtime r"
  shows "sat (trade_post (\<lambda>r' x. \<exists>n. MerchantSellCount r slot cnt = Some n \<and>
        sold slot cnt (unat unitPrice * unat n) r r' \<and> sellGold x = liveGold r') r)
      (SellMerchantItem r slot cnt unitPrice) \<and>
    sat (trade_post (\<lambda>r' x. \<exists>n. MerchantSellCount r slot cnt = Some n \<and>
        sold slot n (sell_value t (unat n)) r r' \<and> sellGold x = liveGold r') r)
      (SellMerchantItemWithTemplate r slot cnt t)"
  by (intro conjI SellMerchantItem_sat SellMerchantItemWithTemplate_sat assms)

section \<open>A purchase and a sale\<close>

definition sample_ware :: template where
  "sample_ware = zero_template\<lparr>tVnum := 27, tName := ''sword'', tStackable := True, tMaxCount := 200,
     tShopBuyPrice := 50\<rparr>"

lemma sample_ware_fields [simp]:
  "tVnum sample_ware = 27" "tMaxCount sample_ware = 200" "tShopBuyPrice sample_ware = 50"
  "tShopSellPrice sample_ware = 0" "\<not> tSellCountPerGold sample_ware" "tStackable sample_ware"
  "\<not> tAntiGet sample_ware" "\<not> tAntiDrop sample_ware" "\<not> tAntiGive sample_ware"
  "\<not> tAntiSell sample_ware" "\<not> tAntiStack sample_ware"
  by (simp_all add: sample_ware_def)

lemma trim_empty: "trim_space [] = []"
  by (rule trim_space_plain) (simp add: plain_simps)

lemma sample_ware_valid: "ValidTemplate sample_ware"
  by (simp add: ValidTemplate_def validTemplate_def validTemplate_guards_def validTemplate_texts_def
      sample_ware_def normalizeTemplate_def validRefineInfo_def normalizeEquipSlot_def trim_empty
      validTemplateMessage_def contains_nul_def code_def in_range_def validDisplayAttributes_def
      validUseEffect_def MaxPickupRange_def)

lemma sample_ware_usable: "CanUseTemplate sample_runtime sample_ware"
  using sample_ware_valid by (simp add: CanUseTemplate_def CanUse_def sample_ware_def)

lemma sample_ids: "ids_left (liveInventory sample_runtime) (liveEquipment sample_runtime)"
  by (simp add: ids_left_def zero_item_def)

lemma sample_buy: "ValidateMerchantBuy sample_runtime sample_ware 10 500 = None"
proof -
  have "findMergeableInventoryIndex (liveInventory sample_runtime) 27 10 200 \<noteq> None"
    by (simp add: findMergeableInventoryIndex_def zero_item_def)
  then have "ValidateCarriedItemGrant sample_runtime sample_ware 10 = None"
    using sample_ware_valid sample_ware_usable by (simp add: ValidateCarriedItemGrant_def Let_def)
  then show ?thesis using sample_ware_usable by (simp add: ValidateMerchantBuy_def)
qed

theorem BuyMerchantItem_exact_witness:
  "\<exists>r' x. BuyMerchantItem sample_runtime sample_ware 10 500 = (r', Some x) \<and> unat (liveGold r') = 0 \<and>
     units 27 (liveInventory r') = 15"
proof -
  note exact = BuyMerchantItem_exact [OF sample_runtime_wf sample_ids, of sample_ware 10 500]
  then have "ok (BuyMerchantItem sample_runtime sample_ware 10 500)" using sample_buy by blast
  then obtain r' x where b: "BuyMerchantItem sample_runtime sample_ware 10 500 = (r', Some x)"
    by (metis not_None_eq prod.collapse)
  from trade_post_SomeD(3) [OF conjunct2 [OF exact] b]
  have "bought 27 10 500 sample_runtime r'" by simp
  moreover have "units 27 (liveInventory sample_runtime) = 5" by (simp add: units_in_def zero_item_def)
  ultimately show ?thesis using b unfolding bought_def by auto
qed

theorem MerchantSellCredit_exact_witness:
  "MerchantSellCredit sample_ware 3 = Some 30 \<and> 5 * sell_value sample_ware 3 \<le> 150"
proof -
  have "sellable_template sample_ware" "sell_value sample_ware 3 = 30"
    using sample_ware_valid by (simp_all add: sellable_template_def sell_value_def)
  then show ?thesis using MerchantSellCredit_exact [of sample_ware 3] by simp
qed

theorem SellMerchantItem_exact_witness:
  "\<exists>r' x. SellMerchantItemWithTemplate sample_runtime 4 3 sample_ware = (r', Some x) \<and>
     unat (liveGold r') = 530 \<and> cells (liveInventory r') 4 = None"
proof -
  let ?x = "SellMerchantItemWithTemplate sample_runtime 4 3 sample_ware"
  have s: "sellable sample_runtime 4 3 = Some (0, zero_item\<lparr>ID := 7, Vnum := 27, Count := 3, Slot := 4\<rparr>, 3)"
    by (simp add: sellable_def countInventorySlotOccupancy_def findInventorySlot_def zero_item_def Validate_def
        equipment_slot_defs)
  then have n: "MerchantSellCount sample_runtime 4 3 = Some 3" by (simp add: MerchantSellCount_def)
  have v: "sellable_template sample_ware" "sell_value sample_ware 3 = 30"
    using sample_ware_valid by (simp_all add: sellable_template_def sell_value_def)
  then have c: "MerchantSellCredit sample_ware 3 = Some 30" by (simp add: MerchantSellCredit_value)
  have "ok (SellMerchantItemForCredit sample_runtime 4 3 30)"
    by (simp add: SellMerchantItemForCredit_def s maxPointChangeCarrier_def)
  then have "ok ?x"
    using sample_ware_usable n c
    by (simp add: SellMerchantItemWithTemplate_def findInventorySlot_def zero_item_def)
  then obtain r' x where x: "?x = (r', Some x)" by (metis not_None_eq prod.collapse)
  have "sold 4 3 30 sample_runtime r'"
    using trade_post_SomeD(3) [OF conjunct2 [OF SellMerchantItem_exact [OF sample_runtime_wf]] x] n v by auto
  moreover have "cells (liveInventory sample_runtime) 4 = Some (zero_item\<lparr>ID := 7, Vnum := 27, Count := 3, Slot := 4\<rparr>)"
    by (simp add: cells_def lookup_def zero_item_def)
  ultimately show ?thesis using x by (auto simp: sold_def take_units_def)
qed

end
