(* ===== verification/Player_Consume.thy ===== *)
theory Player_Consume
  imports Player_Plan
begin

text \<open>
  Consuming carried items by kind (\<open>internal/player/runtime.go\<close>): crafting pays its
  requirements from any carried cell, the private shop pays its bag from the cells it does not
  list. Both reuse the material plan; the private shop then drops the excluded cells.
\<close>

section \<open>Requirements\<close>

record consume_requirement =
  qItemVnum :: u32
  qCount :: u16

datatype consume_failure = ConsumeFailureInvalid | ConsumeFailureInsufficientMaterials

type_synonym consume_change = material_change

definition requirement_bad :: "consume_requirement \<Rightarrow> bool" where
  "requirement_bad q \<longleftrightarrow> qItemVnum q = 0 \<or> qCount q = 0"

fun requirement_materials :: "consume_requirement list \<Rightarrow> refine_material list option" where
  "requirement_materials [] = Some []"
| "requirement_materials (q # qs) =
     (if requirement_bad q then None
      else case requirement_materials qs of
        None \<Rightarrow> None
      | Some ms \<Rightarrow> Some (\<lparr>mVnum = qItemVnum q, mCount = ucast (qCount q)\<rparr> # ms))"

text \<open>The loop that drops the entries of excluded cells and subtracts the others from the need.\<close>

fun drop_excluded :: "slot_index set \<Rightarrow> plan_entry list \<Rightarrow> remaining_map \<Rightarrow> plan_entry list \<Rightarrow>
    (plan_entry list \<times> remaining_map) option" where
  "drop_excluded exclude [] remainingByVnum filtered = Some (filtered, remainingByVnum)"
| "drop_excluded exclude (entry # plan) remainingByVnum filtered =
     (if planSlot entry \<in> exclude then drop_excluded exclude plan remainingByVnum filtered
      else if remaining_of remainingByVnum (planVnum entry) < ucast (planConsume entry) then None
      else drop_excluded exclude plan
        (remainingByVnum(planVnum entry \<mapsto>
           remaining_of remainingByVnum (planVnum entry) - ucast (planConsume entry)))
        (filtered @ [entry]))"

fun add_materials :: "refine_material list \<Rightarrow> remaining_map \<Rightarrow> remaining_map" where
  "add_materials [] remainingByVnum = remainingByVnum"
| "add_materials (m # ms) remainingByVnum =
     add_materials ms (remainingByVnum(mVnum m \<mapsto>
       remaining_of remainingByVnum (mVnum m) + scast (mCount m)))"

definition planCarriedItemConsumeChanges ::
    "item_instance list \<Rightarrow> consume_requirement list \<Rightarrow> slot_index set \<Rightarrow> plan_entry list option" where
  "planCarriedItemConsumeChanges items requirements exclude =
     (if requirements = [] then Some []
      else case requirement_materials requirements of
        None \<Rightarrow> None
      | Some materials \<Rightarrow>
          (case planRefineMaterialChanges items CarriedInventorySlotCount materials of
             None \<Rightarrow> None
           | Some plan \<Rightarrow>
               if exclude = {} then Some plan
               else case drop_excluded exclude plan (add_materials materials Map.empty) [] of
                 None \<Rightarrow> None
               | Some (filtered, left) \<Rightarrow>
                   if list_ex (\<lambda>m. remaining_of left (mVnum m) \<noteq> 0) materials then None
                   else Some filtered))"

section \<open>Operations\<close>

definition ValidateCarriedItemConsume :: "runtime \<Rightarrow> consume_requirement list \<Rightarrow> consume_failure option" where
  "ValidateCarriedItemConsume r requirements =
     (case planCarriedItemConsumeChanges (liveInventory r) requirements {} of
        None \<Rightarrow>
          if requirements = [] then None
          else if list_ex requirement_bad requirements then Some ConsumeFailureInvalid
          else Some ConsumeFailureInsufficientMaterials
      | Some _ \<Rightarrow> None)"

definition consumeCarriedItems :: "runtime \<Rightarrow> consume_requirement list \<Rightarrow> slot_index set \<Rightarrow>
    (runtime, consume_change list) outcome" where
  "consumeCarriedItems r requirements exclude =
     (case planCarriedItemConsumeChanges (liveInventory r) requirements exclude of
        None \<Rightarrow> (r, None)
      | Some plan \<Rightarrow>
          if plan = [] then (r, Some [])
          else case debit_loop exclude plan (cloneItemInstances (liveInventory r)) [] of
            None \<Rightarrow> (r, None)
          | Some (inventoryItems, changes) \<Rightarrow>
              (r\<lparr>liveInventory := sortInventoryItems inventoryItems\<rparr>, Some changes))"

definition ConsumeCarriedItems :: "runtime \<Rightarrow> consume_requirement list \<Rightarrow> (runtime, consume_change list) outcome" where
  "ConsumeCarriedItems r requirements =
     (if ValidateCarriedItemConsume r requirements \<noteq> None then (r, None)
      else consumeCarriedItems r requirements {})"

definition HasCarriedItemExcludingSlots :: "runtime \<Rightarrow> u32 \<Rightarrow> slot_index set \<Rightarrow> bool" where
  "HasCarriedItemExcludingSlots r vnum exclude \<longleftrightarrow> vnum \<noteq> 0 \<and>
     planCarriedItemConsumeChanges (liveInventory r) [\<lparr>qItemVnum = vnum, qCount = 1\<rparr>] exclude \<noteq> None"

definition ConsumeCarriedItemsExcludingSlots :: "runtime \<Rightarrow> consume_requirement list \<Rightarrow> slot_index set \<Rightarrow>
    (runtime, consume_change list) outcome" where
  "ConsumeCarriedItemsExcludingSlots r requirements exclude =
     (if requirements = [] then (r, Some [])
      else if list_ex requirement_bad requirements then (r, None)
      else consumeCarriedItems r requirements exclude)"

definition SetCarriedItemSockets :: "runtime \<Rightarrow> slot_index \<Rightarrow> socket_values \<Rightarrow> (runtime, item_instance) outcome" where
  "SetCarriedItemSockets r slot sockets =
     (case findInventorySlot (liveInventory r) slot of
        None \<Rightarrow> (r, None)
      | Some index \<Rightarrow>
          let item = liveInventory r ! index in
          if Equipped item \<or> Locked item \<or> Count item = 0 then (r, None)
          else if Validate item \<noteq> None then (r, None)
          else
            let item' = item\<lparr>Sockets := Some sockets\<rparr> in
            (r\<lparr>liveInventory := (liveInventory r)[index := item']\<rparr>, Some item'))"

section \<open>Consuming is exact\<close>

definition required :: "consume_requirement list \<Rightarrow> u32 \<Rightarrow> nat" where
  "required qs v = sum_list (map (\<lambda>q. if qItemVnum q = v then unat (qCount q) else 0) qs)"

lemma sint_ucast_u16:
  fixes c :: u16
  shows "nat (sint (ucast c :: i32)) = unat c" and "0 < sint (ucast c :: i32) \<longleftrightarrow> c \<noteq> 0"
proof -
  have "uint c < 2 ^ 16" using unsigned_less [of c, where ?'a = int] by simp
  then have s: "sint (ucast c :: i32) = uint c"
    using signed_take_bit_int_eq_self [of 31 "uint c"] order_trans [of "- (2 ^ 31)" 0 "uint c"]
    by (simp add: signed_ucast_eq)
  then show n: "nat (sint (ucast c :: i32)) = unat c" by (simp only: s unat_eq_nat_uint)
  show "0 < sint (ucast c :: i32) \<longleftrightarrow> c \<noteq> 0"
    by (simp only: zero_less_nat_eq [symmetric] n unat_gt_0)
qed

lemma requirement_materials_None: "requirement_materials qs = None \<longleftrightarrow> list_ex requirement_bad qs"
  by (induction qs) (auto split: option.split)

lemma requirement_materials_Some:
  "requirement_materials qs = Some ms \<Longrightarrow>
   length ms = length qs \<and> (\<forall>m \<in> set ms. material_ok m) \<and> (\<forall>v. needed ms v = required qs v)"
proof (induction qs arbitrary: ms)
  case (Cons q qs)
  then obtain ms' where m: "requirement_materials qs = Some ms'" "\<not> requirement_bad q"
    and ms: "ms = \<lparr>mVnum = qItemVnum q, mCount = ucast (qCount q)\<rparr> # ms'"
    by (auto split: if_split_asm option.split_asm)
  with Cons.IH [OF m(1)] show ?case
    by (auto simp: requirement_bad_def material_ok_def required_def sint_ucast_u16 unat_gt_0)
qed (simp add: required_def)

lemma gather_add_materials:
  "gather_materials ms rem order = Some (rem', order') \<Longrightarrow> add_materials ms rem = rem'"
  by (induction ms arbitrary: rem order) (auto split: if_split_asm)

lemma drop_excluded_filter:
  assumes "\<And>v. consumed plan v \<le> unat (remaining_of rem v)"
  shows "\<exists>left. drop_excluded ex plan rem acc = Some (acc @ filter (\<lambda>e. planSlot e \<notin> ex) plan, left) \<and>
    (\<forall>v. unat (remaining_of left v) + consumed (filter (\<lambda>e. planSlot e \<notin> ex) plan) v = unat (remaining_of rem v))"
  using assms
proof (induction plan arbitrary: rem acc)
  case (Cons e plan)
  show ?case
  proof (cases "planSlot e \<in> ex")
    case True
    have "consumed plan v \<le> unat (remaining_of rem v)" for v using Cons.prems [of v] by simp
    with Cons.IH True show ?thesis by simp
  next
    case False
    let ?c = "ucast (planConsume e) :: u64" and ?v = "planVnum e"
    let ?rem = "rem(?v \<mapsto> remaining_of rem ?v - ?c)"
    have le: "unat (planConsume e) \<le> unat (remaining_of rem ?v)" using Cons.prems [of ?v] by simp
    then have g: "\<not> remaining_of rem ?v < ?c" by (simp add: word_less_nat_alt)
    have u: "unat (remaining_of rem ?v - ?c) = unat (remaining_of rem ?v) - unat (planConsume e)"
      using g unat_sub_le [of ?c "remaining_of rem ?v"] by (simp add: not_less)
    have room: "consumed plan v \<le> unat (remaining_of ?rem v)" for v
      using Cons.prems [of v] u by (cases "v = ?v") auto
    obtain left where l: "drop_excluded ex plan ?rem (acc @ [e]) = Some ((acc @ [e]) @ filter (\<lambda>e. planSlot e \<notin> ex) plan, left)"
      "\<And>v. unat (remaining_of left v) + consumed (filter (\<lambda>e. planSlot e \<notin> ex) plan) v = unat (remaining_of ?rem v)"
      using Cons.IH [of ?rem "acc @ [e]"] room by blast
    have "unat (remaining_of left v) + consumed (filter (\<lambda>e. planSlot e \<notin> ex) (e # plan)) v = unat (remaining_of rem v)" for v
      using l(2) [of v] u le False by (cases "v = ?v") auto
    moreover have "drop_excluded ex (e # plan) rem acc = Some (acc @ filter (\<lambda>e. planSlot e \<notin> ex) (e # plan), left)"
      using l(1) g False by simp
    ultimately show ?thesis by blast
  qed
qed simp

lemma consumed_zero:
  assumes "\<And>v. consumed plan v = 0" and "\<forall>e \<in> set plan. planConsume e \<noteq> 0"
  shows "plan = []"
proof (cases plan)
  case (Cons e es)
  have "unat (planConsume e) = 0" using assms(1) [of "planVnum e"] Cons by simp
  then show ?thesis using assms(2) Cons by (simp add: unat_eq_zero)
qed simp

lemma consumed_partition:
  "consumed plan v = consumed (filter P plan) v + consumed (filter (\<lambda>e. \<not> P e) plan) v"
  by (induction plan) auto

text \<open>The plan without exclusions.\<close>

lemma consume_plan:
  assumes wf: "wf_items a b" and len: "length qs < 2 ^ 32"
  shows "planCarriedItemConsumeChanges a qs {} \<noteq> None \<longleftrightarrow>
      \<not> list_ex requirement_bad qs \<and> (\<forall>v. required qs v \<le> free_units a CarriedInventorySlotCount v)"
    and "planCarriedItemConsumeChanges a qs {} = Some plan \<Longrightarrow>
      plan_fits plan (cells a) \<and> (\<forall>v. consumed plan v = required qs v)"
proof -
  have goal: "(planCarriedItemConsumeChanges a qs {} \<noteq> None \<longleftrightarrow>
      \<not> list_ex requirement_bad qs \<and> (\<forall>v. required qs v \<le> free_units a CarriedInventorySlotCount v)) \<and>
    (\<forall>plan. planCarriedItemConsumeChanges a qs {} = Some plan \<longrightarrow>
      plan_fits plan (cells a) \<and> (\<forall>v. consumed plan v = required qs v))"
  proof (cases "qs = [] \<or> requirement_materials qs = None")
    case True
    then show ?thesis
      using requirement_materials_None [of qs]
      by (auto simp: planCarriedItemConsumeChanges_def required_def plan_fits_def)
  next
    case False
    then obtain ms where m: "requirement_materials qs = Some ms" and ne: "qs \<noteq> []" by auto
    note r = requirement_materials_Some [OF m]
    then have ml: "length ms < 2 ^ 32" using len by simp
    note ex = planRefineMaterialChanges_exact [OF wf ml, of CarriedInventorySlotCount]
    have run: "planCarriedItemConsumeChanges a qs {} = planRefineMaterialChanges a CarriedInventorySlotCount ms"
      using m ne by (simp add: planCarriedItemConsumeChanges_def split: option.split)
    have ok: "\<not> list_ex requirement_bad qs" using m requirement_materials_None [of qs] by simp
    show ?thesis
    proof (cases "\<forall>v. needed ms v \<le> free_units a CarriedInventorySlotCount v")
      case True
      with ex(2) r obtain plan where "planRefineMaterialChanges a CarriedInventorySlotCount ms = Some plan"
        "plan_fits plan (cells a)" "\<forall>v. consumed plan v = needed ms v" by blast
      with True r ok show ?thesis unfolding run by simp
    next
      case False
      with ex(1) have "planRefineMaterialChanges a CarriedInventorySlotCount ms = None" by presburger
      with False r show ?thesis unfolding run by simp
    qed
  qed
  then show "planCarriedItemConsumeChanges a qs {} \<noteq> None \<longleftrightarrow>
      \<not> list_ex requirement_bad qs \<and> (\<forall>v. required qs v \<le> free_units a CarriedInventorySlotCount v)"
    by blast
  show "plan_fits plan (cells a) \<and> (\<forall>v. consumed plan v = required qs v)"
    if "planCarriedItemConsumeChanges a qs {} = Some plan" using goal that by blast
qed

text \<open>
  Exclusion is a veto: the plan is made over all cells first, and it stands exactly when it
  touches no excluded cell.
\<close>

lemma planCarried_exclusion:
  assumes wf: "wf_items a b" and len: "length qs < 2 ^ 32"
  shows "planCarriedItemConsumeChanges a qs ex =
    (case planCarriedItemConsumeChanges a qs {} of
       None \<Rightarrow> None
     | Some plan \<Rightarrow> if planSlot ` set plan \<inter> ex = {} then Some plan else None)"
proof (cases "planCarriedItemConsumeChanges a qs {}")
  case None
  then have ne: "qs \<noteq> []" by (auto simp: planCarriedItemConsumeChanges_def)
  show ?thesis
  proof (cases "requirement_materials qs")
    case m: (Some ms)
    then have "planRefineMaterialChanges a CarriedInventorySlotCount ms = None"
      using None ne by (simp add: planCarriedItemConsumeChanges_def split: option.split_asm)
    with m ne None show ?thesis by (simp add: planCarriedItemConsumeChanges_def)
  qed (use ne in \<open>simp add: planCarriedItemConsumeChanges_def\<close>)
next
  case plan: (Some plan)
  show ?thesis
  proof (cases "qs = [] \<or> ex = {}")
    case True
    with plan show ?thesis by (auto simp: planCarriedItemConsumeChanges_def)
  next
    case False
    then obtain ms where m: "requirement_materials qs = Some ms"
      and p: "planRefineMaterialChanges a CarriedInventorySlotCount ms = Some plan"
      using plan by (auto simp: planCarriedItemConsumeChanges_def split: option.split_asm)
    note r = requirement_materials_Some [OF m] and c = consume_plan(2) [OF wf len plan]
    let ?rem = "add_materials ms Map.empty"
    obtain rem order where g: "gather_materials ms Map.empty [] = Some (rem, order)"
      using r gather_materials_None [of ms Map.empty "[]"] by (cases "gather_materials ms Map.empty []") auto
    have "needed ms v < 2 ^ 64" for v using needed_le [of ms v] len r by simp
    then have rem: "unat (remaining_of ?rem v) = needed ms v" for v
      using gather_materials_Some [OF g] gather_add_materials [OF g] by simp
    have "consumed plan v \<le> unat (remaining_of ?rem v)" for v using c r rem by simp
    then obtain left where d: "drop_excluded ex plan ?rem [] = Some (filter (\<lambda>e. planSlot e \<notin> ex) plan, left)"
      and l: "\<And>v. unat (remaining_of left v) + consumed (filter (\<lambda>e. planSlot e \<notin> ex) plan) v = needed ms v"
      using drop_excluded_filter [of plan ?rem ex "[]"] rem by auto
    have part: "unat (remaining_of left v) = consumed (filter (\<lambda>e. planSlot e \<in> ex) plan) v" for v
      using l [of v] c r consumed_partition [of plan v "\<lambda>e. planSlot e \<in> ex"] by simp
    have run: "planCarriedItemConsumeChanges a qs ex =
        (if list_ex (\<lambda>m. remaining_of left (mVnum m) \<noteq> 0) ms then None
         else Some (filter (\<lambda>e. planSlot e \<notin> ex) plan))"
      using False m p d by (simp add: planCarriedItemConsumeChanges_def)
    show ?thesis
    proof (cases "planSlot ` set plan \<inter> ex = {}")
      case True
      then have f: "filter (\<lambda>e. planSlot e \<in> ex) plan = []" and k: "filter (\<lambda>e. planSlot e \<notin> ex) plan = plan"
        by (auto simp: filter_empty_conv filter_id_conv)
      have "remaining_of left v = 0" for v using part [of v] unfolding f by (simp add: unat_eq_zero)
      then show ?thesis unfolding run using plan True k by (simp add: list_ex_iff)
    next
      case touched: False
      let ?f = "filter (\<lambda>e. planSlot e \<in> ex) plan"
      have "?f \<noteq> []" using touched by (auto simp: filter_empty_conv)
      moreover have "\<forall>e \<in> set ?f. planConsume e \<noteq> 0" using c by (auto simp: plan_fits_def)
      ultimately obtain v where v: "consumed ?f v \<noteq> 0" using consumed_zero by blast
      then have "remaining_of left v \<noteq> 0" using part [of v] by auto
      moreover have "needed ms v \<noteq> 0"
        using v c r consumed_partition [of plan v "\<lambda>e. planSlot e \<in> ex"] by simp
      then have "v \<in> mVnum ` set ms" by (rule contrapos_np) (rule needed_other)
      ultimately have "list_ex (\<lambda>m. remaining_of left (mVnum m) \<noteq> 0) ms" by (auto simp: list_ex_iff)
      then show ?thesis unfolding run using plan touched by simp
    qed
  qed
qed

text \<open>A plan that stands with exclusions: exact, and away from the excluded cells.\<close>

lemma consume_plan_SomeD:
  assumes "wf_items a b" and "length qs < 2 ^ 32" and "planCarriedItemConsumeChanges a qs ex = Some plan"
  shows "plan_fits plan (cells a)" and "\<forall>v. consumed plan v = required qs v" and "planSlot ` set plan \<inter> ex = {}"
    and "planCarriedItemConsumeChanges a qs {} = Some plan"
proof -
  show p: "planCarriedItemConsumeChanges a qs {} = Some plan"
    using assms(3) unfolding planCarried_exclusion [OF assms(1,2), of ex] by (simp split: option.split_asm if_split_asm)
  show "planSlot ` set plan \<inter> ex = {}"
    using assms(3) unfolding planCarried_exclusion [OF assms(1,2), of ex] p by (simp split: if_split_asm)
  show "plan_fits plan (cells a)" and "\<forall>v. consumed plan v = required qs v"
    using consume_plan(2) [OF assms(1,2) p] by simp_all
qed

text \<open>What a payment leaves: exactly the units asked for are gone, taken from unlocked cells outside
the excluded ones, and the report names every cell that changed.\<close>

definition paid :: "consume_requirement list \<Rightarrow> slot_index set \<Rightarrow> runtime \<Rightarrow> item_instance list \<Rightarrow> consume_change list \<Rightarrow> bool" where
  "paid qs ex r items changes \<longleftrightarrow>
     (\<forall>v. units v items + required qs v = units v (liveInventory r)) \<and>
     (\<forall>s. s \<notin> chSlot ` set changes \<longrightarrow> cells items s = cells (liveInventory r) s) \<and>
     (\<forall>c \<in> set changes. chSlot c \<notin> ex \<and> (\<exists>i. cells (liveInventory r) (chSlot c) = Some i \<and> \<not> Locked i)) \<and>
     reports changes (cells items)"

lemma consumeCarriedItems_run:
  assumes wf: "wf_runtime r" and len: "length qs < 2 ^ 32"
    and plan: "planCarriedItemConsumeChanges (liveInventory r) qs ex = Some plan"
  shows "\<exists>r' chs. consumeCarriedItems r qs ex = (r', Some chs) \<and> chSlot ` set chs = planSlot ` set plan \<and>
    inv_post (paid qs ex r) r r' (Some chs)"
proof -
  note p = consume_plan_SomeD [OF wf_runtime_items [OF wf] len plan]
  show ?thesis
  proof (cases "plan = []")
    case True
    then have "consumeCarriedItems r qs ex = (r, Some [])" using plan by (simp add: consumeCarriedItems_def)
    moreover have "paid qs ex r (liveInventory r) []" using p(2) True by (simp add: paid_def reports_def)
    ultimately show ?thesis using True wf by (simp add: inv_post_def)
  next
    case False
    obtain a chs where d: "debit_loop ex plan (liveInventory r) [] = Some (a, chs)" "wf_items a (liveEquipment r)"
      "cells a = debit plan (cells (liveInventory r))" "\<forall>v. units v a + consumed plan v = units v (liveInventory r)"
      "reports chs (cells a)" "map chSlot chs = map planSlot plan"
      using debit_loop_post [OF wf_runtime_items [OF wf] p(1) p(3), of "[]"] by auto
    let ?a = "sortInventoryItems a"
    have run: "consumeCarriedItems r qs ex = (r\<lparr>liveInventory := ?a\<rparr>, Some chs)"
      using plan False d(1) by (simp add: consumeCarriedItems_def cloneItemInstances_def)
    have slots: "chSlot ` set chs = planSlot ` set plan" using d(6) by (metis set_map)
    have unlocked: "\<exists>i. cells (liveInventory r) s = Some i \<and> \<not> Locked i" if "s \<in> chSlot ` set chs" for s
      using that p(1) unfolding slots plan_fits_def by blast
    have "paid qs ex r ?a chs"
      unfolding paid_def
    proof (intro conjI allI ballI impI)
      show "units v ?a + required qs v = units v (liveInventory r)" for v using d(4) p(2) by simp
      show "cells ?a s = cells (liveInventory r) s" if "s \<notin> chSlot ` set chs" for s
        using that d(2,3) debit_other [of s plan] by (simp add: slots)
      show "chSlot c \<notin> ex" if "c \<in> set chs" for c using that p(3) slots by blast
      show "\<exists>i. cells (liveInventory r) (chSlot c) = Some i \<and> \<not> Locked i" if "c \<in> set chs" for c
        using that by (intro unlocked) simp
      show "reports chs (cells ?a)" using d(2,5) by simp
    qed
    then have "inv_post (paid qs ex r) r (r\<lparr>liveInventory := ?a\<rparr>) (Some chs)"
      using wf d(2) by (intro inv_post_ok) simp_all
    with run slots show ?thesis by blast
  qed
qed

lemma consumeCarriedItems_None:
  "planCarriedItemConsumeChanges (liveInventory r) qs ex = None \<Longrightarrow> consumeCarriedItems r qs ex = (r, None)"
  by (simp add: consumeCarriedItems_def)

lemma consumeCarriedItems_sat:
  assumes "wf_runtime r" and "length qs < 2 ^ 32"
  shows "sat (inv_post (paid qs ex r) r) (consumeCarriedItems r qs ex)"
proof (cases "planCarriedItemConsumeChanges (liveInventory r) qs ex")
  case None
  then show ?thesis by (simp add: consumeCarriedItems_None sat_def inv_post_fail)
next
  case (Some plan)
  from consumeCarriedItems_run [OF assms Some] show ?thesis by (auto simp: sat_def)
qed

lemma consumeCarriedItems_ok:
  assumes "wf_runtime r" and "length qs < 2 ^ 32"
  shows "ok (consumeCarriedItems r qs ex) \<longleftrightarrow> planCarriedItemConsumeChanges (liveInventory r) qs ex \<noteq> None"
  using consumeCarriedItems_run [OF assms, of ex] consumeCarriedItems_None [of r qs ex]
  by (cases "planCarriedItemConsumeChanges (liveInventory r) qs ex") auto

lemma ValidateCarriedItemConsume_plan:
  "ValidateCarriedItemConsume r qs = None \<longleftrightarrow> planCarriedItemConsumeChanges (liveInventory r) qs {} \<noteq> None"
  by (simp add: ValidateCarriedItemConsume_def planCarriedItemConsumeChanges_def split: option.split)

lemma ConsumeCarriedItems_run:
  "ConsumeCarriedItems r qs = consumeCarriedItems r qs {}"
  by (simp add: ConsumeCarriedItems_def ValidateCarriedItemConsume_plan consumeCarriedItems_None)

lemma debit_loop_exclude:
  "planSlot ` set plan \<inter> ex = {} \<Longrightarrow> debit_loop ex plan a cs = debit_loop {} plan a cs"
  by (induction plan arbitrary: a cs) (simp_all add: Let_def split: option.split)

lemma ConsumeCarriedItemsExcludingSlots_run:
  "ConsumeCarriedItemsExcludingSlots r qs ex = consumeCarriedItems r qs ex"
  using requirement_materials_None [of qs]
  by (auto simp: ConsumeCarriedItemsExcludingSlots_def consumeCarriedItems_def planCarriedItemConsumeChanges_def)

text \<open>Replacing the sockets of a carried cell.\<close>

lemma SetCarriedItemSockets_sat:
  assumes "wf_runtime r"
  shows "sat (inv_post (\<lambda>items x. (\<exists>i. cells (liveInventory r) s = Some i \<and> \<not> Locked i \<and> x = i\<lparr>Sockets := Some v\<rparr>) \<and>
      cells items = (cells (liveInventory r))(s \<mapsto> x) \<and> same_units (liveInventory r) items) r)
    (SetCarriedItemSockets r s v)"
proof (cases "findInventorySlot (liveInventory r) s")
  case None
  then show ?thesis by (simp add: SetCarriedItemSockets_def sat_def inv_post_fail)
next
  case (Some k)
  note wf = wf_runtime_items [OF assms]
  note fk = cells_find_Some [OF wf Some]
  let ?i = "(liveInventory r ! k)\<lparr>Sockets := Some v\<rparr>" and ?a = "liveInventory r"
  have v: "Validate ?i = Validate (?a ! k)" by (simp add: Validate_def)
  have "wf_items (?a[k := ?i]) (liveEquipment r)"
    using wf_carried_nth [OF wf fk(1)] by (intro wf_items_update [OF wf fk(1)]) (simp_all add: carried_ok_def v)
  moreover have "cells (?a[k := ?i]) = (cells ?a)(s \<mapsto> ?i)"
    using lookup_update [OF wf_itemsD(2) [OF wf] fk(1), of ?i] fk(2) by (simp add: cells_def)
  moreover have "same_units ?a (?a[k := ?i])"
  proof (rule same_unitsI)
    show "units w (?a[k := ?i]) = units w ?a" for w
      using units_update [OF fk(1), of w ?i] by (simp add: units_in_def split: if_split_asm)
  qed
  ultimately show ?thesis
    using Some assms fk(3) by (simp add: SetCarriedItemSockets_def sat_def inv_post_fail inv_post_ok Let_def)
qed

section \<open>Properties\<close>

text \<open>
  C25: crafting is paid exactly or not at all. The payment goes through exactly when no
  requirement is blank and the unlocked cells hold at least what the requirements add up to, kind
  by kind; then exactly those units are gone, only reported unlocked cells changed, and the rest
  of the runtime is as it was. The validator predicts the outcome and tells a malformed request
  from a poor bag.
\<close>

theorem ConsumeCarriedItems_exact:
  assumes "wf_runtime r" and "length qs < 2 ^ 32"
  shows "sat (inv_post (paid qs {} r) r) (ConsumeCarriedItems r qs) \<and>
    (ok (ConsumeCarriedItems r qs) \<longleftrightarrow> \<not> list_ex requirement_bad qs \<and>
       (\<forall>v. required qs v \<le> free_units (liveInventory r) CarriedInventorySlotCount v)) \<and>
    ValidateCarriedItemConsume r qs =
      (if ok (ConsumeCarriedItems r qs) then None
       else if list_ex requirement_bad qs then Some ConsumeFailureInvalid
       else Some ConsumeFailureInsufficientMaterials)"
proof (intro conjI)
  note plan = consume_plan(1) [OF wf_runtime_items [OF assms(1)] assms(2)]
  note okay = consumeCarriedItems_ok [OF assms, of "{}"]
  show "sat (inv_post (paid qs {} r) r) (ConsumeCarriedItems r qs)"
    unfolding ConsumeCarriedItems_run by (rule consumeCarriedItems_sat [OF assms])
  show "ok (ConsumeCarriedItems r qs) \<longleftrightarrow> \<not> list_ex requirement_bad qs \<and>
       (\<forall>v. required qs v \<le> free_units (liveInventory r) CarriedInventorySlotCount v)"
    unfolding ConsumeCarriedItems_run okay by (rule plan)
  show "ValidateCarriedItemConsume r qs = (if ok (ConsumeCarriedItems r qs) then None
       else if list_ex requirement_bad qs then Some ConsumeFailureInvalid
       else Some ConsumeFailureInsufficientMaterials)"
    unfolding ConsumeCarriedItems_run okay
    by (simp add: ValidateCarriedItemConsume_def planCarriedItemConsumeChanges_def split: option.split)
qed

theorem ConsumeCarriedItems_exact_witness:
  "ok (ConsumeCarriedItems sample_runtime [\<lparr>qItemVnum = 27, qCount = 2\<rparr>, \<lparr>qItemVnum = 27, qCount = 3\<rparr>]) \<and>
   ValidateCarriedItemConsume sample_runtime [\<lparr>qItemVnum = 27, qCount = 6\<rparr>] = Some ConsumeFailureInsufficientMaterials"
proof -
  let ?enough = "[\<lparr>qItemVnum = 27, qCount = 2\<rparr>, \<lparr>qItemVnum = 27, qCount = 3\<rparr>]"
    and ?much = "[\<lparr>qItemVnum = 27, qCount = 6\<rparr>]"
  have l: "length ?enough < 2 ^ 32" "length ?much < 2 ^ 32" by simp_all
  note e = ConsumeCarriedItems_exact [OF sample_runtime_wf l(1)]
    and m = ConsumeCarriedItems_exact [OF sample_runtime_wf l(2)]
  have "\<forall>v. required ?enough v \<le> free_units (liveInventory sample_runtime) CarriedInventorySlotCount v"
    by (simp add: required_def free_units_def units_in_def zero_item_def CarriedInventorySlotCount_def)
  then have "ok (ConsumeCarriedItems sample_runtime ?enough)" using e by (simp add: requirement_bad_def)
  moreover have "\<not> required ?much 27 \<le> free_units (liveInventory sample_runtime) CarriedInventorySlotCount 27"
    by (simp add: required_def free_units_def units_in_def zero_item_def CarriedInventorySlotCount_def)
  then have "\<not> ok (ConsumeCarriedItems sample_runtime ?much)" using m by blast
  then have "ValidateCarriedItemConsume sample_runtime ?much = Some ConsumeFailureInsufficientMaterials"
    using m by (simp add: requirement_bad_def)
  ultimately show ?thesis by blast
qed

text \<open>
  Excluding cells is a veto, not a detour. The private shop's payment is the payment made
  without exclusions when that one touches no excluded cell, and is refused otherwise, even where
  other cells could have paid.
\<close>

theorem ConsumeCarriedItemsExcludingSlots_veto:
  assumes "wf_runtime r" and "length qs < 2 ^ 32"
  shows "ConsumeCarriedItemsExcludingSlots r qs ex =
    (case ConsumeCarriedItems r qs of
       (r', Some changes) \<Rightarrow> if chSlot ` set changes \<inter> ex = {} then (r', Some changes) else (r, None)
     | (r', None) \<Rightarrow> (r', None))"
  unfolding ConsumeCarriedItemsExcludingSlots_run ConsumeCarriedItems_run
proof (cases "planCarriedItemConsumeChanges (liveInventory r) qs {}")
  note veto = planCarried_exclusion [OF wf_runtime_items [OF assms(1)] assms(2), of ex]
  case None
  then show "consumeCarriedItems r qs ex = (case consumeCarriedItems r qs {} of
       (r', Some changes) \<Rightarrow> if chSlot ` set changes \<inter> ex = {} then (r', Some changes) else (r, None)
     | (r', None) \<Rightarrow> (r', None))"
    using veto by (simp add: consumeCarriedItems_None)
next
  note veto = planCarried_exclusion [OF wf_runtime_items [OF assms(1)] assms(2), of ex]
  case (Some plan)
  from consumeCarriedItems_run [OF assms Some] obtain r' chs
    where run: "consumeCarriedItems r qs {} = (r', Some chs)" and slots: "chSlot ` set chs = planSlot ` set plan" by blast
  have "consumeCarriedItems r qs ex = consumeCarriedItems r qs {}" if "planSlot ` set plan \<inter> ex = {}"
    using veto Some that debit_loop_exclude [OF that] by (simp add: consumeCarriedItems_def)
  moreover have "consumeCarriedItems r qs ex = (r, None)" if "planSlot ` set plan \<inter> ex \<noteq> {}"
    using veto Some that by (intro consumeCarriedItems_None) simp
  ultimately show "consumeCarriedItems r qs ex = (case consumeCarriedItems r qs {} of
       (r', Some changes) \<Rightarrow> if chSlot ` set changes \<inter> ex = {} then (r', Some changes) else (r, None)
     | (r', None) \<Rightarrow> (r', None))"
    unfolding run slots [symmetric] by simp
qed

theorem ConsumeCarriedItemsExcludingSlots_veto_witness:
  "ConsumeCarriedItemsExcludingSlots sample_runtime [\<lparr>qItemVnum = 27, qCount = 1\<rparr>] {50} =
   ConsumeCarriedItems sample_runtime [\<lparr>qItemVnum = 27, qCount = 1\<rparr>]"
proof -
  let ?q = "[\<lparr>qItemVnum = 27, qCount = 1\<rparr>]"
  have l: "length ?q < 2 ^ 32" by simp
  have "ok (ConsumeCarriedItems sample_runtime ?q)"
    unfolding ConsumeCarriedItems_run consumeCarriedItems_ok [OF sample_runtime_wf l]
    using consume_plan(1) [OF wf_runtime_items [OF sample_runtime_wf] l]
    by (simp add: requirement_bad_def required_def free_units_def units_in_def zero_item_def CarriedInventorySlotCount_def)
  then obtain r' chs where c: "ConsumeCarriedItems sample_runtime ?q = (r', Some chs)"
    by (cases "ConsumeCarriedItems sample_runtime ?q"; cases "snd (ConsumeCarriedItems sample_runtime ?q)") auto
  have p: "paid ?q {} sample_runtime (liveInventory r') chs"
    using consumeCarriedItems_sat [OF sample_runtime_wf l, of "{}"] c
    unfolding ConsumeCarriedItems_run by (rule inv_post_SomeD(3))
  have "cells (liveInventory sample_runtime) 50 = None" by (simp add: cells_def lookup_def zero_item_def)
  then have "50 \<notin> chSlot ` set chs" using p by (auto simp: paid_def)
  then show ?thesis
    using ConsumeCarriedItemsExcludingSlots_veto [OF sample_runtime_wf l, of "{50}"] c by simp
qed

text \<open>
  The shop bag can be missed. \<open>HasCarriedItemExcludingSlots\<close> is documented to report
  whether a carried unlocked stack of the kind exists outside the excluded cells; with the kind in
  cells 4 and 5 and cell 4 listed in the shop, it denies the stack in cell 5.
\<close>

theorem HasCarriedItemExcludingSlots_incomplete:
  "wf_runtime sample_runtime \<and>
   (\<exists>i \<in> set (liveInventory sample_runtime). Vnum i = 27 \<and> \<not> Locked i \<and> \<not> Equipped i \<and> Count i \<noteq> 0 \<and> Slot i \<notin> {4}) \<and>
   \<not> HasCarriedItemExcludingSlots sample_runtime 27 {4}"
proof (intro conjI sample_runtime_wf)
  show "\<exists>i \<in> set (liveInventory sample_runtime). Vnum i = 27 \<and> \<not> Locked i \<and> \<not> Equipped i \<and> Count i \<noteq> 0 \<and> Slot i \<notin> {4}"
    by (simp add: zero_item_def)
  show "\<not> HasCarriedItemExcludingSlots sample_runtime 27 {4}"
    by (simp add: HasCarriedItemExcludingSlots_def planCarriedItemConsumeChanges_def requirement_bad_def
      planRefineMaterialChanges_def Let_def material_candidate_def zero_item_def upt_conv_Cons remaining_of_def
      Validate_def EquipmentSlotNone_def CarriedInventorySlotCount_def)
qed

end
