(* ===== verification/Player_Machine.thy ===== *)
theory Player_Machine
  imports Machine Player_Use Player_Refine Player_Merchant Player_Consume
begin

text \<open>
  The player runtime as a machine: every operation of \<open>internal/player/runtime.go\<close> and
  \<open>mail_grant.go\<close> that changes the state is a command, and executing a command is the operation's
  definition with its report reduced to whether it was accepted.
\<close>

section \<open>Commands\<close>

datatype bag_command =
  Move slot_index slot_index
| MoveBounded slot_index slot_index u16
| MoveCount slot_index slot_index u16
| MoveCountBounded slot_index slot_index u16 u16
| UseOn slot_index slot_index template
| SetSockets slot_index socket_values
| DropItem slot_index u16
| DropWithTemplate slot_index u16 template
| Pickup item_instance slot_index u16
| PickupWithTemplate item_instance slot_index template
| SafeboxIn slot_index template
| SafeboxOut slot_index item_instance template
| Grant template u16
| MailGrant template u16
| Craft "consume_requirement list"
| ShopPay "consume_requirement list" "slot_index set"

datatype gear_command =
  Equip slot_index equipment_slot
| EquipWithTemplate slot_index equipment_slot template
| Replace slot_index equipment_slot
| ReplaceWithTemplates slot_index equipment_slot template template
| Unequip equipment_slot slot_index
| UnequipWithTemplate equipment_slot slot_index template
| WearEffect template equipment_slot
| UnwearEffect template equipment_slot
| UnwearEffectOf template equipment_slot item_instance
| UseAt slot_index template

datatype bar_command =
  SetBar u8 quickslot
| SetBarWithTemplate u8 quickslot template
| DeleteBar u8
| SwapBar u8 u8
| SyncMove slot_index slot_index
| SyncRemoval slot_index

datatype purse_command =
  SetGold u64
| AddGold u64
| DeductGold u64
| SetPoint u8 i32
| PointDelta u8 u8 i32
| DeductExperience u64
| DeathReward death_reward
| SetPosition u32 i32 i32
| SetPersisted character
| ApplyPersisted character

datatype trade_command =
  Buy template u16 u64
| SellForCredit slot_index u16 u64
| SellForUnitPrice slot_index u16 u64
| SellWithTemplate slot_index u16 template
| SellCounted slot_index u16 template
| RefineSucceeds slot_index u8 u64 refine_info template template
| RefineDestroys slot_index u8 u64 refine_info template template
| RefineKeeps slot_index u8 u64 refine_info template template
| RefineDowngrades slot_index u8 u64 refine_info template template template
| RefineRoll slot_index u8 u64 refine_info template template template int

datatype command =
  Bag bag_command
| Gear gear_command
| Bar bar_command
| Purse purse_command
| Trade trade_command

text \<open>Executing a command: the new state, and whether it was accepted.\<close>

definition settled :: "(runtime, 'a) outcome \<Rightarrow> runtime \<times> bool" where
  "settled x = (fst x, ok x)"

fun exec_bag :: "runtime \<Rightarrow> bag_command \<Rightarrow> runtime \<times> bool" where
  "exec_bag r (Move f t) = settled (MoveInventoryItem r f t)"
| "exec_bag r (MoveBounded f t limit) = settled (MoveInventoryItemBounded r f t limit)"
| "exec_bag r (MoveCount f t n) = settled (MoveInventoryItemCount r f t n)"
| "exec_bag r (MoveCountBounded f t n limit) = settled (MoveInventoryItemCountBounded r f t n limit)"
| "exec_bag r (UseOn s d t) = settled (UseItemOnItem r s d t)"
| "exec_bag r (SetSockets s v) = settled (SetCarriedItemSockets r s v)"
| "exec_bag r (DropItem s n) = settled (DropInventoryItem r s n)"
| "exec_bag r (DropWithTemplate s n t) = settled (DropInventoryItemWithTemplate r s n t)"
| "exec_bag r (Pickup i s limit) = settled (PickupGroundItem r i s limit)"
| "exec_bag r (PickupWithTemplate i s t) = settled (PickupGroundItemWithTemplate r i s t)"
| "exec_bag r (SafeboxIn s t) = settled (SafeboxCheckinItem r s t)"
| "exec_bag r (SafeboxOut d i t) = settled (SafeboxCheckoutItem r d i t)"
| "exec_bag r (Grant t n) = settled (GrantCarriedItem r t n)"
| "exec_bag r (MailGrant t n) = settled (GrantCarriedMailItem r t n)"
| "exec_bag r (Craft qs) = settled (ConsumeCarriedItems r qs)"
| "exec_bag r (ShopPay qs ex) = settled (ConsumeCarriedItemsExcludingSlots r qs ex)"

fun exec_gear :: "runtime \<Rightarrow> gear_command \<Rightarrow> runtime \<times> bool" where
  "exec_gear r (Equip f e) = settled (EquipItem r f e)"
| "exec_gear r (EquipWithTemplate f e t) = settled (EquipItemWithTemplate r f e t)"
| "exec_gear r (Replace f e) = settled (ReplaceOccupiedEquipItem r f e)"
| "exec_gear r (ReplaceWithTemplates f e nxt prv) = settled (ReplaceOccupiedEquipItemWithTemplates r f e nxt prv)"
| "exec_gear r (Unequip e c) = settled (UnequipItem r e c)"
| "exec_gear r (UnequipWithTemplate e c t) = settled (UnequipItemWithTemplate r e c t)"
| "exec_gear r (WearEffect t e) = settled (ApplyEquipTemplateEffect r t e)"
| "exec_gear r (UnwearEffect t e) = settled (RemoveEquipTemplateEffect r t e)"
| "exec_gear r (UnwearEffectOf t e i) = settled (RemoveEquipTemplateEffectFromItem r t e i)"
| "exec_gear r (UseAt s t) = settled (UseItem r s t)"

fun exec_bar :: "runtime \<Rightarrow> bar_command \<Rightarrow> runtime \<times> bool" where
  "exec_bar r (SetBar p q) = settled (SetQuickslot r p q)"
| "exec_bar r (SetBarWithTemplate p q t) = settled (SetQuickslotWithTemplate r p q t)"
| "exec_bar r (DeleteBar p) = settled (DeleteQuickslot r p)"
| "exec_bar r (SwapBar a b) = settled (SwapQuickslots r a b)"
| "exec_bar r (SyncMove f t) = settled (SyncItemQuickslotsForInventoryMove r f t)"
| "exec_bar r (SyncRemoval s) = settled (SyncItemQuickslotsForItemRemoval r s)"

fun exec_purse :: "runtime \<Rightarrow> purse_command \<Rightarrow> runtime \<times> bool" where
  "exec_purse r (SetGold g) = (SetLiveGold r g, True)"
| "exec_purse r (AddGold g) = settled (AddLiveGold r g)"
| "exec_purse r (DeductGold g) = settled (DeductLiveGold r g)"
| "exec_purse r (SetPoint i v) = SetLivePoint r i v"
| "exec_purse r (PointDelta ty i d) = settled (ApplyPointDelta r ty i d)"
| "exec_purse r (DeductExperience n) = settled (DeductLiveExperience r n)"
| "exec_purse r (DeathReward w) = settled (ApplyStaticActorDeathReward r w)"
| "exec_purse r (SetPosition m x y) = (SetLivePosition r m x y, True)"
| "exec_purse r (SetPersisted c) = (SetPersistedSnapshot r c, True)"
| "exec_purse r (ApplyPersisted c) = (ApplyPersistedSnapshot r c, True)"

fun exec_trade :: "runtime \<Rightarrow> trade_command \<Rightarrow> runtime \<times> bool" where
  "exec_trade r (Buy t n price) = settled (BuyMerchantItem r t n price)"
| "exec_trade r (SellForCredit s n credit) = settled (SellMerchantItemForCredit r s n credit)"
| "exec_trade r (SellForUnitPrice s n price) = settled (SellMerchantItem r s n price)"
| "exec_trade r (SellWithTemplate s n t) = settled (SellMerchantItemWithTemplate r s n t)"
| "exec_trade r (SellCounted s n t) = settled (SellMerchantItemWithTemplateCounted r s n t)"
| "exec_trade r (RefineSucceeds s ty i rem src res) = settled (ApplyRefineSuccess r s ty i rem src res)"
| "exec_trade r (RefineDestroys s ty i rem src res) = settled (ApplyRefineDestroyFailure r s ty i rem src res)"
| "exec_trade r (RefineKeeps s ty i rem src res) = settled (ApplyRefineKeepFailure r s ty i rem src res)"
| "exec_trade r (RefineDowngrades s ty i rem src res fail) =
     settled (ApplyRefineDowngradeFailure r s ty i rem src res fail)"
| "exec_trade r (RefineRoll s ty i rem src res fail roll) =
     settled (ApplyRefineWithRoll r s ty i rem src res fail roll)"

fun exec :: "runtime \<Rightarrow> command \<Rightarrow> runtime \<times> bool" where
  "exec r (Bag c) = exec_bag r c"
| "exec r (Gear c) = exec_gear r c"
| "exec r (Bar c) = exec_bar r c"
| "exec r (Purse c) = exec_purse r c"
| "exec r (Trade c) = exec_trade r c"

text \<open>
  What a caller brings: a snapshot that is applied has passed the item and quickslot checks of its
  ticket and has the 255 points of Go's array, and requirement lists are shorter than 2^32. Nothing limits
  the gold of a snapshot or the gold that is set outright, so the bound on gold has a parameter \<open>M\<close>, the most
  that was brought in; every amount is below 2^64, which is then no limit at all.
\<close>

definition GoldMax :: nat where
  "GoldMax = 2147483647"

definition checked_character :: "character \<Rightarrow> bool" where
  "checked_character c \<longleftrightarrow> validateTicket_character c = None \<and> length (cPoints c) = 255"

fun checked_request :: "command \<Rightarrow> bool" where
  "checked_request (Bag c) = (case c of Craft qs \<Rightarrow> length qs < 2 ^ 32 | ShopPay qs _ \<Rightarrow> length qs < 2 ^ 32 | _ \<Rightarrow> True)"
| "checked_request (Purse c) = (case c of ApplyPersisted p \<Rightarrow> checked_character p | _ \<Rightarrow> True)"
| "checked_request _ = True"

text \<open>The gold a command brings in without asking the runtime.\<close>

fun gold_brought :: "command \<Rightarrow> nat" where
  "gold_brought (Purse c) = (case c of SetGold g \<Rightarrow> unat g | ApplyPersisted p \<Rightarrow> unat (cGold p) | _ \<Rightarrow> 0)"
| "gold_brought _ = 0"

definition allowed_upto :: "nat \<Rightarrow> command \<Rightarrow> bool" where
  "allowed_upto M c \<longleftrightarrow> checked_request c \<and> gold_brought c \<le> max GoldMax M"

lemma gold_brought_bound: "gold_brought c < 2 ^ 64"
proof -
  have "unat (g :: u64) < 2 ^ 64" for g using unsigned_less [where ?'a = nat and w = g] by simp
  then show ?thesis by (cases c) (auto split: purse_command.split)
qed

lemma allowed_upto_all: "allowed_upto (2 ^ 64) c \<longleftrightarrow> checked_request c"
  using gold_brought_bound [of c] by (simp add: allowed_upto_def le_max_iff_disj)

end
