(* ===== verification/Player_Bindings.thy ===== *)
theory Player_Bindings
  imports Player_Quickslots
begin

text \<open>
  What the ticket checks of \<open>internal/loginticket/store.go\<close> ask of a quickslot bar beyond its
  positions: a skill or a command is bound at one position only. The operations on the bar keep
  it, and with the item checks this says exactly which characters pass.
\<close>

definition bindings_unique :: "(u8 \<Rightarrow> (u8 \<times> u8) option) \<Rightarrow> bool" where
  "bindings_unique m \<longleftrightarrow>
     (\<forall>p q t s. m p = Some (t, s) \<and> m q = Some (t, s) \<and> (t = TypeSkill \<or> t = TypeCommand) \<longrightarrow> p = q)"

lemma bindings_unique_subset:
  "bindings_unique m \<Longrightarrow> (\<And>p t s. m' p = Some (t, s) \<Longrightarrow> t = TypeSkill \<or> t = TypeCommand \<Longrightarrow> m p = Some (t, s)) \<Longrightarrow>
   bindings_unique m'"
  unfolding bindings_unique_def by blast

lemma bindings_unique_drop: "bindings_unique m \<Longrightarrow> bindings_unique (m(p := None))"
  by (erule bindings_unique_subset) (simp split: if_split_asm)

lemma bar_set_Some:
  "bar_set p x m q = Some y \<longleftrightarrow> (if q = p then y = x else y \<noteq> x \<and> m q = Some y)"
  by (auto simp: bar_set_def keep_on_def split: option.split)

lemma bindings_unique_set:
  assumes "bindings_unique m"
  shows "bindings_unique (bar_set p x m)"
  unfolding bindings_unique_def bar_set_Some
proof (intro allI impI, elim conjE)
  fix q q' t s
  assume b: "if q = p then (t, s) = x else (t, s) \<noteq> x \<and> m q = Some (t, s)"
    "if q' = p then (t, s) = x else (t, s) \<noteq> x \<and> m q' = Some (t, s)"
    and "t = TypeSkill \<or> t = TypeCommand"
  with assms have "m q = Some (t, s) \<Longrightarrow> m q' = Some (t, s) \<Longrightarrow> q = q'"
    unfolding bindings_unique_def by blast
  with b show "q = q'" by (simp split: if_split_asm)
qed

lemma bindings_unique_swap:
  assumes "bindings_unique m"
  shows "bindings_unique (\<lambda>p. m (swap_position a b p))"
  unfolding bindings_unique_def
proof (intro allI impI)
  fix p q t s
  assume "m (swap_position a b p) = Some (t, s) \<and> m (swap_position a b q) = Some (t, s) \<and>
    (t = TypeSkill \<or> t = TypeCommand)"
  with assms have "swap_position a b p = swap_position a b q" unfolding bindings_unique_def by blast
  then show "p = q" by (rule injD [OF swap_position_inj])
qed

lemma bindings_unique_follow: "bindings_unique m \<Longrightarrow> bindings_unique (\<lambda>p. Option.bind (m p) (follow f t))"
  by (erule bindings_unique_subset)
    (auto simp: follow_def bind_eq_Some_conv TypeItem_def TypeSkill_def TypeCommand_def split: if_split_asm)

lemma bindings_unique_unbind: "bindings_unique m \<Longrightarrow> bindings_unique (unbind s m)"
  by (erule bindings_unique_subset) (auto simp: unbind_def keep_on_def split: option.split_asm if_split_asm)

definition exclusive :: "quickslot \<Rightarrow> bool" where
  "exclusive q \<longleftrightarrow> qType q = TypeSkill \<or> qType q = TypeCommand"

lemma validateQuickslots_loop_iff:
  "validateQuickslots_loop ps ts qs = None \<longleftrightarrow>
   wf_quickslots qs \<and> qPosition ` set qs \<inter> ps = {} \<and>
   distinct (map (\<lambda>q. (qType q, qSlot q)) (filter exclusive qs)) \<and>
   (\<lambda>q. (qType q, qSlot q)) ` set (filter exclusive qs) \<inter> ts = {}"
proof (induction qs arbitrary: ps ts)
  case (Cons q qs)
  show ?case
  proof (cases "quickslot_ok q \<and> qPosition q \<notin> ps")
    case True
    then show ?thesis
      by (cases "exclusive q") (auto simp: Cons.IH wf_quickslots_def quickslot_ok_def exclusive_def image_iff)
  next
    case False
    then show ?thesis by (auto simp: wf_quickslots_def quickslot_ok_def)
  qed
qed (simp add: wf_quickslots_def)

lemma distinct_map_positions:
  "distinct (map qPosition qs) \<Longrightarrow>
   distinct (map f (filter P qs)) \<longleftrightarrow> (\<forall>q \<in> set qs. \<forall>q' \<in> set qs. P q \<and> P q' \<and> f q = f q' \<longrightarrow> qPosition q = qPosition q')"
proof -
  assume d: "distinct (map qPosition qs)"
  then have "distinct qs" by (simp add: distinct_map)
  then have "distinct (map f (filter P qs)) \<longleftrightarrow> inj_on f (set (filter P qs))" by (simp add: distinct_map)
  also have "\<dots> \<longleftrightarrow> (\<forall>q \<in> set qs. \<forall>q' \<in> set qs. P q \<and> P q' \<and> f q = f q' \<longrightarrow> q = q')"
    by (auto simp: inj_on_def)
  also have "\<dots> \<longleftrightarrow> (\<forall>q \<in> set qs. \<forall>q' \<in> set qs. P q \<and> P q' \<and> f q = f q' \<longrightarrow> qPosition q = qPosition q')"
  proof -
    have "q = q' \<longleftrightarrow> qPosition q = qPosition q'" if "q \<in> set qs" "q' \<in> set qs" for q q'
      using d that by (simp add: distinct_map inj_on_eq_iff [of qPosition "set qs" q q'])
    then show ?thesis by simp
  qed
  finally show ?thesis .
qed

lemma validateCharacterQuickslots_iff:
  "validateCharacterQuickslots c = None \<longleftrightarrow>
   wf_quickslots (cQuickslots c) \<and> bindings_unique (bar (cQuickslots c))"
proof (cases "wf_quickslots (cQuickslots c)")
  case True
  let ?qs = "cQuickslots c"
  have d: "distinct (map qPosition ?qs)" using True by (simp add: wf_quickslots_def)
  then have pos: "positions_ok ?qs" by (simp add: positions_ok_def)
  have "distinct (map (\<lambda>q. (qType q, qSlot q)) (filter exclusive ?qs)) \<longleftrightarrow> bindings_unique (bar ?qs)"
    unfolding distinct_map_positions [OF d]
  proof
    assume *: "\<forall>q \<in> set ?qs. \<forall>q' \<in> set ?qs. exclusive q \<and> exclusive q' \<and> (qType q, qSlot q) = (qType q', qSlot q') \<longrightarrow>
      qPosition q = qPosition q'"
    have "p = p'" if "bar ?qs p = Some (t, s)" "bar ?qs p' = Some (t, s)" "t = TypeSkill \<or> t = TypeCommand" for p p' t s
    proof -
      note bound = that(1,2)
      obtain q q' where q: "q \<in> set ?qs" "qPosition q = p" "qType q = t" "qSlot q = s"
        and q': "q' \<in> set ?qs" "qPosition q' = p'" "qType q' = t" "qSlot q' = s"
        using bound by (elim bar_pair_SomeE [OF pos])
      with that(3) have "qPosition q = qPosition q'" by (intro * [rule_format]) (simp_all add: exclusive_def)
      with q q' show ?thesis by simp
    qed
    then show "bindings_unique (bar ?qs)" unfolding bindings_unique_def by blast
  next
    assume u: "bindings_unique (bar ?qs)"
    have "qPosition q = qPosition q'" if "q \<in> set ?qs" "q' \<in> set ?qs" "exclusive q"
      "(qType q, qSlot q) = (qType q', qSlot q')" for q q'
    proof -
      have "bar ?qs (qPosition q') = Some (qType q, qSlot q)" using bar_mem [OF pos that(2)] that(4) by simp
      with u bar_mem [OF pos that(1)] that(3) show ?thesis
        unfolding bindings_unique_def exclusive_def by blast
    qed
    then show "\<forall>q \<in> set ?qs. \<forall>q' \<in> set ?qs. exclusive q \<and> exclusive q' \<and> (qType q, qSlot q) = (qType q', qSlot q') \<longrightarrow>
      qPosition q = qPosition q'" by blast
  qed
  with True show ?thesis by (simp add: validateCharacterQuickslots_def validateQuickslots_loop_iff)
qed (simp add: validateCharacterQuickslots_def validateQuickslots_loop_iff)

lemma validateTicket_character_iff:
  "validateTicket_character c = None \<longleftrightarrow> wf_items (cInventory c) (cEquipment c) \<and>
     wf_quickslots (cQuickslots c) \<and> bindings_unique (bar (cQuickslots c))"
  using validateTicket_items_iff [of c] validateCharacterQuickslots_iff [of c]
  by (auto simp: validateTicket_character_def split: option.split)

end
