(* ===== verification/Player_Runs.thy ===== *)
theory Player_Runs
  imports Player_Machine Player_Bindings
begin

text \<open>
  What holds after any sequence of commands: the invariant of a session, that refused commands
  leave no trace, and that commands that only rearrange neither create nor destroy a unit.
\<close>

section \<open>The invariant\<close>

text \<open>The invariant of the machine, and one step that keeps it.\<close>

definition sound :: "runtime \<Rightarrow> bool" where
  "sound r \<longleftrightarrow> wf_runtime r \<and> bindings_unique (bar (liveQuickslots r))"

definition sound_upto :: "nat \<Rightarrow> runtime \<Rightarrow> bool" where
  "sound_upto M r \<longleftrightarrow> wf_runtime r \<and> bindings_unique (bar (liveQuickslots r)) \<and> unat (liveGold r) \<le> max GoldMax M"

lemma sound_upto_all: "sound_upto (2 ^ 64) r \<longleftrightarrow> sound r"
proof -
  have "unat (liveGold r) < 2 ^ 64" using unsigned_less [where ?'a = nat and w = "liveGold r"] by simp
  then show ?thesis by (simp add: sound_upto_def sound_def le_max_iff_disj)
qed

definition sound_step :: "nat \<Rightarrow> runtime \<Rightarrow> runtime \<times> bool \<Rightarrow> bool" where
  "sound_step M r y \<longleftrightarrow> sound_upto M (fst y) \<and> (\<not> snd y \<longrightarrow> fst y = r)"

lemma frame_gold_bar: "a = b \<Longrightarrow> liveGold a = liveGold b \<and> liveQuickslots a = liveQuickslots b"
  by simp

lemma sound_step_refused [simp]: "sound_upto M r \<Longrightarrow> sound_step M r (settled (r, None))"
  by (simp add: sound_step_def settled_def)

lemma sound_step_inv: "sat (inv_post P r) x \<Longrightarrow> sound_upto M r \<Longrightarrow> sound_step M r (settled x)"
  by (cases x) (auto simp: sat_def inv_post_def sound_step_def settled_def sound_upto_def
      split: option.split_asm dest: frame_gold_bar)

lemma sound_step_gear: "sat (gear_post P r) x \<Longrightarrow> sound_upto M r \<Longrightarrow> sound_step M r (settled x)"
  by (cases x) (auto simp: sat_def gear_post_def sound_step_def settled_def sound_upto_def
      split: option.split_asm dest: frame_gold_bar)

lemma sound_step_trade:
  "sat (trade_post P r) x \<Longrightarrow> (\<And>r' y. P r' y \<Longrightarrow> unat (liveGold r') \<le> max GoldMax M) \<Longrightarrow> sound_upto M r \<Longrightarrow>
   sound_step M r (settled x)"
  by (cases x) (auto simp: sat_def trade_post_def sound_step_def settled_def sound_upto_def
      split: option.split_asm dest: frame_gold_bar)



lemma soundD: "sound_upto M r \<Longrightarrow> wf_runtime r" "sound_upto M r \<Longrightarrow> unat (liveGold r) \<le> max GoldMax M"
  by (simp_all add: sound_upto_def)

lemma GrantCarriedItem_eq:
  "GrantCarriedItem r t n = (r, None) \<or> GrantCarriedItem r t n = grantCarriedItem r t n \<and> n \<noteq> 0"
  by (auto simp: GrantCarriedItem_def ValidateCarriedItemGrant_def)

lemma sound_exec_bag:
  assumes "sound_upto M r" and "allowed_upto M (Bag c)"
  shows "sound_step M r (exec_bag r c)"
proof -
  note wf = soundD(1) [OF assms(1)]
  note inv = sound_step_inv [OF _ assms(1)]
  have drop: "sound_step M r (settled (dropInventoryItem r s n t))" for s n t
    by (rule inv [OF dropInventoryItem_sat [OF wf]])
  have pickup: "sound_step M r (settled (PickupGroundItem r i s l))" for i s l
    by (rule inv [OF PickupGroundItem_sat [OF wf]])
  have grant: "sound_step M r (settled (GrantCarriedItem r t n))" for t n
    using GrantCarriedItem_eq [of r t n] assms(1) inv [OF grantCarriedItem_sat [OF wf]] by auto
  show ?thesis
  proof (cases c)
    case (Move f t) then show ?thesis by (simp add: inv [OF MoveInventoryItem_sat [OF wf]])
  next
    case (MoveBounded f t l) then show ?thesis by (simp add: inv [OF MoveInventoryItemBounded_sat [OF wf]])
  next
    case (MoveCount f t n)
    then show ?thesis by (simp add: MoveInventoryItemCount_def inv [OF MoveInventoryItemCountBounded_sat [OF wf]])
  next
    case (MoveCountBounded f t n l)
    then show ?thesis by (simp add: inv [OF MoveInventoryItemCountBounded_sat [OF wf]])
  next
    case (UseOn s d t) then show ?thesis by (simp add: inv [OF UseItemOnItem_sat [OF wf]])
  next
    case (SetSockets s v) then show ?thesis by (simp add: inv [OF SetCarriedItemSockets_sat [OF wf]])
  next
    case (DropItem s n) then show ?thesis by (simp add: DropInventoryItem_def drop)
  next
    case (DropWithTemplate s n t)
    then show ?thesis by (simp add: DropInventoryItemWithTemplate_def drop assms(1))
  next
    case (Pickup i s l) then show ?thesis by (simp add: pickup)
  next
    case (PickupWithTemplate i s t)
    then show ?thesis by (simp add: PickupGroundItemWithTemplate_def pickup assms(1))
  next
    case (SafeboxIn s t) then show ?thesis by (simp add: inv [OF SafeboxCheckinItem_sat [OF wf]])
  next
    case (SafeboxOut d i t) then show ?thesis by (simp add: inv [OF SafeboxCheckoutItem_sat [OF wf]])
  next
    case (Grant t n) then show ?thesis by (simp add: grant)
  next
    case (MailGrant t n) then show ?thesis by (simp add: GrantCarriedMailItem_def grant)
  next
    case (Craft qs)
    then show ?thesis
      using assms(2) by (simp add: allowed_upto_def ConsumeCarriedItems_run inv [OF consumeCarriedItems_sat [OF wf]])
  next
    case (ShopPay qs ex)
    then show ?thesis
      using assms(2) by (simp add: allowed_upto_def ConsumeCarriedItemsExcludingSlots_run inv [OF consumeCarriedItems_sat [OF wf]])
  qed
qed

lemma points_step:
  assumes "sound_upto M r" and "x = (r', res)"
    and "if res = None then r' = r
      else r' = r\<lparr>livePoints := livePoints r'\<rparr> \<and> length (livePoints r') = length (livePoints r) \<and> Q"
  shows "sound_step M r (settled x)"
  using sound_step_gear [OF points_step_sat [OF soundD(1) [OF assms(1)] assms(2,3)] assms(1)] .

lemma sound_exec_gear:
  assumes "sound_upto M r"
  shows "sound_step M r (exec_gear r c)"
proof -
  note wf = soundD(1) [OF assms]
  note gear = sound_step_gear [OF _ assms]
  have equip: "sound_step M r (settled (equipItem r f e))" for f e by (rule gear [OF equipItem_sat [OF wf]])
  have unequip: "sound_step M r (settled (UnequipItem r e f))" for f e by (rule gear [OF UnequipItem_sat [OF wf]])
  show ?thesis
  proof (cases c)
    case (Equip f e) then show ?thesis by (simp add: EquipItem_def equip)
  next
    case (EquipWithTemplate f e t)
    then show ?thesis using EquipItemWithTemplate_eq [of r f e t] equip assms by auto
  next
    case (Replace f e)
    then show ?thesis by (simp add: ReplaceOccupiedEquipItem_def gear [OF replaceOccupiedEquipItem_sat [OF wf]])
  next
    case (ReplaceWithTemplates f e n p)
    then show ?thesis by (simp add: gear [OF ReplaceOccupiedEquipItemWithTemplates_sat [OF wf]])
  next
    case (Unequip e f) then show ?thesis by (simp add: unequip)
  next
    case (UnequipWithTemplate e f t)
    then show ?thesis using UnequipItemWithTemplate_eq [of r e f t] unequip assms by auto
  next
    case (WearEffect t e)
    then show ?thesis
      by (simp add: points_step [OF assms prod.collapse [symmetric] ApplyEquipTemplateEffect_post [OF prod.collapse [symmetric]]])
  next
    case (UnwearEffect t e)
    then show ?thesis
      by (simp add: points_step [OF assms prod.collapse [symmetric] RemoveEquipTemplateEffect_post [OF prod.collapse [symmetric]]])
  next
    case (UnwearEffectOf t e i)
    then show ?thesis
      by (simp add: points_step [OF assms prod.collapse [symmetric] RemoveEquipTemplateEffectFromItem_post [OF prod.collapse [symmetric]]])
  next
    case (UseAt s t) then show ?thesis by (simp add: gear [OF UseItem_sat [OF wf]])
  qed
qed

lemma sound_step_bar:
  assumes "sound_upto M r" and "fst x = r\<lparr>liveQuickslots := liveQuickslots (fst x)\<rparr> \<and>
      wf_quickslots (liveQuickslots (fst x)) \<and>
      (if ok x then bindings_unique (bar (liveQuickslots (fst x))) else fst x = r)"
  shows "sound_step M r (settled x)"
proof (cases "ok x")
  case True
  obtain q where q: "fst x = r\<lparr>liveQuickslots := q\<rparr>" using assms(2) by metis
  with True assms have "sound_upto M (fst x)" by (simp add: sound_upto_def wf_runtime_def)
  with True show ?thesis by (simp add: sound_step_def settled_def)
next
  case False
  with assms show ?thesis by (simp add: sound_step_def settled_def)
qed

lemma SetQuickslotWithTemplate_eq:
  "SetQuickslotWithTemplate r p q t = (r, None) \<or> SetQuickslotWithTemplate r p q t = SetQuickslot r p q"
  by (auto simp: SetQuickslotWithTemplate_def Let_def split: option.split)

lemma sound_exec_bar:
  assumes "sound_upto M r"
  shows "sound_step M r (exec_bar r c)"
proof -
  have wf: "wf_quickslots (liveQuickslots r)" using soundD(1) [OF assms] by (simp add: wf_runtime_def)
  have u: "bindings_unique (bar (liveQuickslots r))" using assms by (simp add: sound_upto_def)
  note keep = bindings_unique_drop [OF u] bindings_unique_set [OF u] bindings_unique_swap [OF u]
    bindings_unique_follow [OF u] bindings_unique_unbind [OF u]
  note bar = sound_step_bar [OF assms]
  have set: "sound_step M r (settled (SetQuickslot r p q))" for p q
    by (rule bar) (use SetQuickslot_spec [OF wf prod.collapse [symmetric], of p q] keep in \<open>auto split: if_split_asm\<close>)
  show ?thesis
  proof (cases c)
    case (SetBar p q) then show ?thesis by (simp add: set)
  next
    case (SetBarWithTemplate p q t)
    then show ?thesis using SetQuickslotWithTemplate_eq [of r p q t] set assms by auto
  next
    case (DeleteBar p)
    have "sound_step M r (settled (DeleteQuickslot r p))"
      by (rule bar) (use DeleteQuickslot_spec [OF wf prod.collapse [symmetric], of p] keep in \<open>auto split: if_split_asm\<close>)
    with DeleteBar show ?thesis by simp
  next
    case (SwapBar a b)
    have "sound_step M r (settled (SwapQuickslots r a b))"
      by (rule bar) (use SwapQuickslots_spec [OF wf prod.collapse [symmetric], of a b] keep in \<open>auto split: if_split_asm\<close>)
    with SwapBar show ?thesis by simp
  next
    case (SyncMove f t)
    have "sound_step M r (settled (SyncItemQuickslotsForInventoryMove r f t))"
      by (rule bar) (use SyncMove_spec [OF wf prod.collapse [symmetric], of f t] keep in \<open>auto split: if_split_asm\<close>)
    with SyncMove show ?thesis by simp
  next
    case (SyncRemoval s)
    have "sound_step M r (settled (SyncItemQuickslotsForItemRemoval r s))"
      by (rule bar) (use SyncRemoval_spec [OF wf prod.collapse [symmetric], of s] keep in \<open>auto split: if_split_asm\<close>)
    with SyncRemoval show ?thesis by simp
  qed
qed


lemma carrier_max: "unat maxPointChangeCarrier = GoldMax"
  by (simp add: GoldMax_def)

lemma carrier_le: "g \<le> maxPointChangeCarrier \<longleftrightarrow> unat g \<le> GoldMax"
  unfolding word_le_nat_alt carrier_max ..

lemma sound_gold:
  "sound_upto M r \<Longrightarrow> unat g \<le> max GoldMax M \<Longrightarrow> sound_upto M (r\<lparr>liveGold := g\<rparr>)"
  by (simp add: sound_upto_def wf_runtime_def)

lemma sound_carrier: "sound_upto M r \<Longrightarrow> unat g \<le> GoldMax \<Longrightarrow> sound_upto M (r\<lparr>liveGold := g\<rparr>)"
  by (simp add: sound_gold le_max_iff_disj)

lemma sound_points: "sound_upto M r \<Longrightarrow> length ps = length (livePoints r) \<Longrightarrow> sound_upto M (r\<lparr>livePoints := ps\<rparr>)"
  by (simp add: sound_upto_def wf_runtime_def)

lemma sound_set_point: "sound_upto M r \<Longrightarrow> sound_upto M (set_point r i v)"
  by (simp add: set_point_def sound_points)

lemma sound_rest:
  "sound_upto M (r\<lparr>live := p\<rparr>) = sound_upto M r" "sound_upto M (r\<lparr>persisted := c\<rparr>) = sound_upto M r"
  by (simp_all add: sound_upto_def wf_runtime_def)

lemma ApplyPersistedSnapshot_sound:
  assumes "checked_character c" and "unat (cGold c) \<le> max GoldMax M"
  shows "sound_upto M (ApplyPersistedSnapshot r c)"
proof -
  have v: "validateTicket_character c = None" "length (cPoints c) = 255" "unat (cGold c) \<le> max GoldMax M"
    using assms by (simp_all add: checked_character_def)
  from v(1) have "wf_quickslots (cQuickslots c) \<and> bindings_unique (bar (cQuickslots c))"
    by (simp add: validateTicket_character_iff)
  with ApplyPersistedSnapshot_wf [OF v(1,2), of r] v(3) wf_positions [of "cQuickslots c"] show ?thesis
    by (simp add: sound_upto_def ApplyPersistedSnapshot_def Let_def normalizeCharacter_def
        NormalizeItemState_def cloneCharacter_def)
qed

lemma sound_exec_purse:
  assumes "sound_upto M r" and "allowed_upto M (Purse c)"
  shows "sound_step M r (exec_purse r c)"
proof (cases c)
  case (SetGold g)
  with assms show ?thesis by (simp add: allowed_upto_def sound_step_def SetLiveGold_def sound_gold)
next
  case (AddGold g)
  with assms(1) show ?thesis
    by (simp add: AddLiveGold_def Let_def sound_step_def settled_def sound_carrier not_less carrier_le)
next
  case (DeductGold g)
  have "unat (liveGold r - g) \<le> max GoldMax M" if "g \<le> liveGold r"
    using that unat_sub_le [of g "liveGold r"] soundD(2) [OF assms(1)] by simp
  with DeductGold assms(1) show ?thesis
    by (simp add: DeductLiveGold_def sound_step_def settled_def sound_gold not_less)
next
  case (SetPoint i v)
  with assms(1) show ?thesis by (simp add: SetLivePoint_def sound_step_def sound_set_point)
next
  case (PointDelta ty i d)
  then show ?thesis
    by (simp add: points_step [OF assms(1) prod.collapse [symmetric] ApplyPointDelta_post [OF prod.collapse [symmetric]]])
next
  case (DeductExperience n)
  with assms(1) show ?thesis
    by (simp add: DeductLiveExperience_def Let_def sound_step_def settled_def sound_set_point)
next
  case (DeathReward w)
  with assms(1) show ?thesis
    by (simp add: ApplyStaticActorDeathReward_def Let_def sound_step_def settled_def sound_set_point sound_gold
        sound_carrier not_less carrier_le soundD(2))
next
  case (SetPosition m x y)
  with assms(1) show ?thesis by (simp add: SetLivePosition_def sound_step_def sound_rest)
next
  case (SetPersisted p)
  with assms(1) show ?thesis by (simp add: SetPersistedSnapshot_def sound_step_def sound_rest)
next
  case (ApplyPersisted p)
  with assms(2) show ?thesis by (simp add: allowed_upto_def sound_step_def ApplyPersistedSnapshot_sound)
qed

lemma sound_exec_trade:
  assumes "sound_upto M r"
  shows "sound_step M r (exec_trade r c)"
proof -
  note wf = soundD(1) [OF assms]
  note gold = soundD(2) [OF assms]
  have sale: "sat (trade_post P r) x \<Longrightarrow> (\<And>r' y. P r' y \<Longrightarrow> \<exists>s n c. sold s n c r r') \<Longrightarrow> sound_step M r (settled x)"
    for P :: "runtime \<Rightarrow> sell_result \<Rightarrow> bool" and x
    by (rule sound_step_trade [OF _ _ assms]) (assumption, fastforce simp: sold_def GoldMax_def)
  have refine: "sat (trade_post P r) x \<Longrightarrow> (\<And>r' y. P r' y \<Longrightarrow> \<exists>e s i f. refined e s i f r r') \<Longrightarrow> sound_step M r (settled x)"
    for P :: "runtime \<Rightarrow> 'a \<Rightarrow> bool" and x
    by (rule sound_step_trade [OF _ _ assms]) (assumption, use gold in \<open>fastforce simp: refined_def\<close>)
  have template: "sound_step M r (settled (SellMerchantItemWithTemplate r s n t))" for s n t
    by (rule sale [OF SellMerchantItemWithTemplate_sat [OF wf]]) blast
  show ?thesis
  proof (cases c)
    case (Buy t n price)
    have "sound_step M r (settled (BuyMerchantItem r t n price))"
      by (rule sound_step_trade [OF BuyMerchantItem_sat [OF wf] _ assms]) (use gold in \<open>auto simp: bought_def\<close>)
    with Buy show ?thesis by simp
  next
    case (SellForCredit s n credit)
    have "sound_step M r (settled (SellMerchantItemForCredit r s n credit))"
      by (rule sale [OF SellMerchantItemForCredit_sat [OF wf]]) blast
    with SellForCredit show ?thesis by simp
  next
    case (SellForUnitPrice s n price)
    have "sound_step M r (settled (SellMerchantItem r s n price))"
      by (rule sale [OF SellMerchantItem_sat [OF wf]]) blast
    with SellForUnitPrice show ?thesis by simp
  next
    case (SellWithTemplate s n t) with template show ?thesis by simp
  next
    case (SellCounted s n t)
    with template assms show ?thesis by (simp add: SellMerchantItemWithTemplateCounted_def)
  next
    case (RefineSucceeds s ty i rem src res)
    have "sound_step M r (settled (ApplyRefineSuccess r s ty i rem src res))"
      by (rule refine [OF ApplyRefineSuccess_sat [OF wf]]) blast
    with RefineSucceeds show ?thesis by simp
  next
    case (RefineDestroys s ty i rem src res)
    have "sound_step M r (settled (ApplyRefineDestroyFailure r s ty i rem src res))"
      by (rule refine [OF ApplyRefineDestroyFailure_sat [OF wf]]) blast
    with RefineDestroys show ?thesis by simp
  next
    case (RefineKeeps s ty i rem src res)
    have "sound_step M r (settled (ApplyRefineKeepFailure r s ty i rem src res))"
      by (rule refine [OF ApplyRefineKeepFailure_sat [OF wf]]) blast
    with RefineKeeps show ?thesis by simp
  next
    case (RefineDowngrades s ty i rem src res fail)
    have "sound_step M r (settled (ApplyRefineDowngradeFailure r s ty i rem src res fail))"
      by (rule refine [OF ApplyRefineDowngradeFailure_sat [OF wf]]) blast
    with RefineDowngrades show ?thesis by simp
  next
    case (RefineRoll s ty i rem src res fail roll)
    have "sound_step M r (settled (ApplyRefineWithRoll r s ty i rem src res fail roll))"
      by (rule refine [OF ApplyRefineWithRoll_sat [OF wf]]) blast
    with RefineRoll show ?thesis by simp
  qed
qed


section \<open>The machine\<close>

lemma sound_exec: "sound_upto M r \<Longrightarrow> allowed_upto M c \<Longrightarrow> sound_step M r (exec r c)"
  by (cases c) (simp_all add: sound_exec_bag sound_exec_gear sound_exec_bar sound_exec_purse sound_exec_trade
      del: checked_request.simps)

text \<open>
  Commands that only rearrange what a player owns: moves, merges, splits, stacking, sockets, gear
  and its effects, quickslots, points and gold. Uses, drops, pickups, the safebox, grants, crafting,
  refines and trades bring units in or take them out, and a snapshot replaces everything.
\<close>

fun closed :: "command \<Rightarrow> bool" where
  "closed (Bag c) = (case c of Move _ _ \<Rightarrow> True | MoveBounded _ _ _ \<Rightarrow> True | MoveCount _ _ _ \<Rightarrow> True |
     MoveCountBounded _ _ _ _ \<Rightarrow> True | UseOn _ _ _ \<Rightarrow> True | SetSockets _ _ \<Rightarrow> True | _ \<Rightarrow> False)"
| "closed (Gear c) = (case c of UseAt _ _ \<Rightarrow> False | _ \<Rightarrow> True)"
| "closed (Bar _) = True"
| "closed (Purse c) = (case c of ApplyPersisted _ \<Rightarrow> False | _ \<Rightarrow> True)"
| "closed (Trade _) = False"

definition holdings :: "runtime \<Rightarrow> u32 \<Rightarrow> nat" where
  "holdings r v = total_units v r"

lemma holdings_simps [simp]:
  "holdings (r\<lparr>livePoints := ps\<rparr>) = holdings r" "holdings (r\<lparr>liveQuickslots := qs\<rparr>) = holdings r"
  "holdings (r\<lparr>liveGold := g\<rparr>) = holdings r" "holdings (r\<lparr>live := p\<rparr>) = holdings r"
  "holdings (r\<lparr>persisted := c\<rparr>) = holdings r" "holdings (set_point r i v) = holdings r"
  by (simp_all add: holdings_def total_units_def fun_eq_iff)

lemma holdings_updates:
  "s = r\<lparr>livePoints := ps\<rparr> \<Longrightarrow> holdings s = holdings r"
  "s = r\<lparr>liveQuickslots := qs\<rparr> \<and> Q \<Longrightarrow> holdings s = holdings r"
  by simp_all

lemma holdings_inv:
  assumes "sat (inv_post P r) x" and "\<And>items y. P items y \<Longrightarrow> same_units (liveInventory r) items"
  shows "holdings (fst (settled x)) = holdings r"
proof (cases "snd x")
  case None
  with assms(1) show ?thesis by (cases x) (simp add: sat_def inv_post_def settled_def)
next
  case (Some y)
  have x: "x = (fst x, Some y)" using Some by (metis prod.collapse)
  note p = inv_post_SomeD [OF assms(1) x]
  have "liveEquipment (fst x) = liveEquipment r" by (subst p(1)) simp
  with assms(2) [OF p(3)] show ?thesis
    by (simp add: settled_def holdings_def total_units_def same_units_def fun_eq_iff)
qed

lemma holdings_gear:
  assumes "sat (gear_post P r) x" and "\<And>r' y. P r' y \<Longrightarrow> \<forall>v. total_units v r' = total_units v r"
  shows "holdings (fst (settled x)) = holdings r"
proof (cases "snd x")
  case None
  with assms(1) show ?thesis by (cases x) (simp add: sat_def gear_post_def settled_def)
next
  case (Some y)
  have "P (fst x) y" using assms(1) Some by (cases x) (simp add: sat_def gear_post_def)
  from assms(2) [OF this] show ?thesis by (simp add: settled_def holdings_def fun_eq_iff)
qed

lemma holdings_points:
  assumes "if snd x = None then fst x = r else fst x = r\<lparr>livePoints := livePoints (fst x)\<rparr> \<and> Q"
  shows "holdings (fst (settled x)) = holdings r"
proof (cases "snd x = None")
  case True
  with assms show ?thesis by (simp add: settled_def)
next
  case False
  note e = conjunct1 [OF assms [unfolded if_not_P [OF False]]]
  show ?thesis unfolding settled_def fst_conv by (rule holdings_updates(1) [OF e])
qed

lemma holdings_exec_bag:
  assumes "sound_upto M r" and "closed (Bag c)"
  shows "holdings (fst (exec_bag r c)) = holdings r"
proof -
  note wf = soundD(1) [OF assms(1)]
  show ?thesis
  proof (cases c)
    case (Move f t)
    have "holdings (fst (settled (MoveInventoryItem r f t))) = holdings r"
      by (rule holdings_inv [OF MoveInventoryItem_sat [OF wf]]) blast
    with Move show ?thesis by simp
  next
    case (MoveBounded f t l)
    have "holdings (fst (settled (MoveInventoryItemBounded r f t l))) = holdings r"
      by (rule holdings_inv [OF MoveInventoryItemBounded_sat [OF wf]]) blast
    with MoveBounded show ?thesis by simp
  next
    case (MoveCount f t n)
    have "holdings (fst (settled (MoveInventoryItemCountBounded r f t n (-1)))) = holdings r"
      by (rule holdings_inv [OF MoveInventoryItemCountBounded_sat [OF wf]]) blast
    with MoveCount show ?thesis by (simp add: MoveInventoryItemCount_def)
  next
    case (MoveCountBounded f t n l)
    have "holdings (fst (settled (MoveInventoryItemCountBounded r f t n l))) = holdings r"
      by (rule holdings_inv [OF MoveInventoryItemCountBounded_sat [OF wf]]) blast
    with MoveCountBounded show ?thesis by simp
  next
    case (UseOn s d t)
    have "holdings (fst (settled (UseItemOnItem r s d t))) = holdings r"
      by (rule holdings_inv [OF UseItemOnItem_sat [OF wf]]) blast
    with UseOn show ?thesis by simp
  next
    case (SetSockets s v)
    have "holdings (fst (settled (SetCarriedItemSockets r s v))) = holdings r"
      by (rule holdings_inv [OF SetCarriedItemSockets_sat [OF wf]]) blast
    with SetSockets show ?thesis by simp
  qed (use assms(2) in simp_all)
qed

lemma holdings_exec_gear:
  assumes "sound_upto M r" and "closed (Gear c)"
  shows "holdings (fst (exec_gear r c)) = holdings r"
proof -
  note wf = soundD(1) [OF assms(1)]
  have equip: "holdings (fst (settled (equipItem r f e))) = holdings r" for f e
    by (rule holdings_gear [OF equipItem_sat [OF wf]]) blast
  have unequip: "holdings (fst (settled (UnequipItem r e f))) = holdings r" for f e
    by (rule holdings_gear [OF UnequipItem_sat [OF wf]]) blast
  have none: "holdings (fst (settled (r, None :: 'a option))) = holdings r" by (simp add: settled_def)
  show ?thesis
  proof (cases c)
    case (Equip f e) with equip show ?thesis by (simp add: EquipItem_def)
  next
    case (EquipWithTemplate f e t)
    then show ?thesis using EquipItemWithTemplate_eq [of r f e t] equip none by auto
  next
    case (Replace f e)
    have "holdings (fst (settled (replaceOccupiedEquipItem r f e))) = holdings r"
      by (rule holdings_gear [OF replaceOccupiedEquipItem_sat [OF wf]]) blast
    with Replace show ?thesis by (simp add: ReplaceOccupiedEquipItem_def)
  next
    case (ReplaceWithTemplates f e n p)
    have "holdings (fst (settled (ReplaceOccupiedEquipItemWithTemplates r f e n p))) = holdings r"
      by (rule holdings_gear [OF ReplaceOccupiedEquipItemWithTemplates_sat [OF wf]]) (simp add: swapped_def)
    with ReplaceWithTemplates show ?thesis by simp
  next
    case (Unequip e f) with unequip show ?thesis by simp
  next
    case (UnequipWithTemplate e f t)
    then show ?thesis using UnequipItemWithTemplate_eq [of r e f t] unequip none by auto
  next
    case (WearEffect t e)
    have "holdings (fst (settled (ApplyEquipTemplateEffect r t e))) = holdings r"
      by (rule holdings_points [OF ApplyEquipTemplateEffect_post [OF prod.collapse [symmetric]]])
    with WearEffect show ?thesis by simp
  next
    case (UnwearEffect t e)
    have "holdings (fst (settled (RemoveEquipTemplateEffect r t e))) = holdings r"
      by (rule holdings_points [OF RemoveEquipTemplateEffect_post [OF prod.collapse [symmetric]]])
    with UnwearEffect show ?thesis by simp
  next
    case (UnwearEffectOf t e i)
    have "holdings (fst (settled (RemoveEquipTemplateEffectFromItem r t e i))) = holdings r"
      by (rule holdings_points [OF RemoveEquipTemplateEffectFromItem_post [OF prod.collapse [symmetric]]])
    with UnwearEffectOf show ?thesis by simp
  qed (use assms(2) in simp_all)
qed


lemma holdings_exec_bar:
  assumes "sound_upto M r"
  shows "holdings (fst (exec_bar r c)) = holdings r"
proof -
  have wf: "wf_quickslots (liveQuickslots r)" using soundD(1) [OF assms] by (simp add: wf_runtime_def)
  note bar = holdings_updates(2)
  have set: "holdings (fst (settled (SetQuickslot r p q))) = holdings r" for p q
    unfolding settled_def fst_conv by (rule bar [OF SetQuickslot_spec [OF wf prod.collapse [symmetric]]])
  show ?thesis
  proof (cases c)
    case (SetBar p q) with set show ?thesis by simp
  next
    case (SetBarWithTemplate p q t)
    then show ?thesis using SetQuickslotWithTemplate_eq [of r p q t] set by (auto simp: settled_def)
  next
    case (DeleteBar p)
    then show ?thesis by (simp add: settled_def bar [OF DeleteQuickslot_spec [OF wf prod.collapse [symmetric]]])
  next
    case (SwapBar a b)
    then show ?thesis by (simp add: settled_def bar [OF SwapQuickslots_spec [OF wf prod.collapse [symmetric]]])
  next
    case (SyncMove f t)
    then show ?thesis by (simp add: settled_def bar [OF SyncMove_spec [OF wf prod.collapse [symmetric]]])
  next
    case (SyncRemoval s)
    then show ?thesis by (simp add: settled_def bar [OF SyncRemoval_spec [OF wf prod.collapse [symmetric]]])
  qed
qed

lemma holdings_exec_purse:
  assumes "closed (Purse c)"
  shows "holdings (fst (exec_purse r c)) = holdings r"
proof (cases c)
  case (PointDelta ty i d)
  have "holdings (fst (settled (ApplyPointDelta r ty i d))) = holdings r"
    by (rule holdings_points [OF ApplyPointDelta_post [OF prod.collapse [symmetric]]])
  with PointDelta show ?thesis by simp
qed (use assms in \<open>simp_all add: SetLiveGold_def AddLiveGold_def DeductLiveGold_def SetLivePoint_def
    DeductLiveExperience_def ApplyStaticActorDeathReward_def SetLivePosition_def SetPersistedSnapshot_def
    Let_def settled_def\<close>)

lemma holdings_exec:
  "sound_upto M r \<Longrightarrow> closed c \<Longrightarrow> holdings (fst (exec r c)) = holdings r"
  by (cases c) (simp_all add: holdings_exec_bag holdings_exec_gear holdings_exec_bar holdings_exec_purse
      del: closed.simps(1,2,4))

text \<open>The runtime is a machine of that kind, and its closed commands conserve the holdings.\<close>

interpretation player_machine: conserving_machine exec "sound_upto M" "allowed_upto M" closed holdings for M
proof
  show "sound_upto M (fst (exec r c))" if "sound_upto M r" "allowed_upto M c" for r c
    using sound_exec [OF that] by (simp add: sound_step_def)
  show "fst (exec r c) = r" if "sound_upto M r" "allowed_upto M c" "\<not> snd (exec r c)" for r c
    using sound_exec [OF that(1,2)] that(3) by (simp add: sound_step_def)
  show "holdings (fst (exec r c)) = holdings r" if "sound_upto M r" "allowed_upto M c" "closed c" for r c
    by (rule holdings_exec [OF that(1,3)])
qed

text \<open>Without a limit on the gold that is brought in.\<close>

lemmas any_gold = sound_upto_all allowed_upto_all
lemmas session_invariant = player_machine.run_invariant [of "2 ^ 64", unfolded any_gold]
lemmas session_accepted = player_machine.run_accepted [of "2 ^ 64", unfolded any_gold]
lemmas session_conserves = player_machine.run_conserves [of "2 ^ 64", unfolded any_gold]

lemma NewRuntime_sound_upto: "checked_character c \<Longrightarrow> unat (cGold c) \<le> max GoldMax M \<Longrightarrow> sound_upto M (NewRuntime c l)"
  unfolding NewRuntime_def by (rule ApplyPersistedSnapshot_sound)

lemma NewRuntime_sound:
  assumes "checked_character c" shows "sound (NewRuntime c l)"
proof -
  have "unat (cGold c) \<le> max GoldMax (2 ^ 64)"
    using unsigned_less [where ?'a = nat and w = "cGold c"] by (simp add: le_max_iff_disj)
  from NewRuntime_sound_upto [OF assms this] show ?thesis unfolding sound_upto_all .
qed

lemma LiveCharacter_checked: "sound r \<Longrightarrow> checked_character (LiveCharacter r)"
  by (simp add: checked_character_def sound_def wf_runtime_def validateTicket_character_iff LiveCharacter_def)

lemma NewRuntime_fields:
  assumes "checked_character c"
  shows "cells (liveInventory (NewRuntime c l)) = cells (cInventory c)"
    and "worn (liveEquipment (NewRuntime c l)) = worn (cEquipment c)"
    and "bar (liveQuickslots (NewRuntime c l)) = bar (cQuickslots c)"
    and "liveGold (NewRuntime c l) = cGold c" and "livePoints (NewRuntime c l) = cPoints c"
    and "live (NewRuntime c l) = NewPosition (cMapIndex c) (cX c) (cY c)"
proof -
  have v: "wf_items (cInventory c) (cEquipment c)" "wf_quickslots (cQuickslots c)"
    using assms by (simp_all add: checked_character_def validateTicket_character_iff)
  show "cells (liveInventory (NewRuntime c l)) = cells (cInventory c)"
    and "worn (liveEquipment (NewRuntime c l)) = worn (cEquipment c)"
    and "bar (liveQuickslots (NewRuntime c l)) = bar (cQuickslots c)"
    and "liveGold (NewRuntime c l) = cGold c" and "livePoints (NewRuntime c l) = cPoints c"
    and "live (NewRuntime c l) = NewPosition (cMapIndex c) (cX c) (cY c)"
    using cells_sort [OF v(1)] worn_sort [OF v(1)] wf_positions [OF v(2)]
    by (simp_all add: NewRuntime_def ApplyPersistedSnapshot_def Let_def normalizeCharacter_def
        NormalizeItemState_def cloneCharacter_def PositionFromCharacter_def)
qed

section \<open>Properties\<close>

text \<open>
  C1: every session stays sound. Take a character (its points are an array of 255, as the Go type
  has them) whose items and quickslots pass the checks of its ticket, and any sequence of the runtime's operations, accepted or refused, in which snapshots that are
  applied pass these checks too and payments have fewer than 2^32 requirements. Then the carried
  and worn instances are valid, one per cell and wear slot, no instance id occurs twice, the quickslot bar is
  valid with no skill or command bound twice, and there are 255 points. Gold is above the signed
  32-bit carrier of the wire only when that much was in a snapshot or set outright: no operation
  of the runtime adds gold beyond the carrier.
\<close>

theorem session_sound:
  assumes "checked_character c" and "\<forall>cmd \<in> set cmds. checked_request cmd"
  shows "let r = run exec (NewRuntime c l) cmds in
    wf_runtime r \<and> bindings_unique (bar (liveQuickslots r)) \<and>
    unat (liveGold r) \<le> Max ({GoldMax, unat (cGold c)} \<union> gold_brought ` set cmds)"
proof -
  let ?M = "Max ({GoldMax, unat (cGold c)} \<union> gold_brought ` set cmds)"
  have le: "x \<le> ?M" if "x \<in> {GoldMax, unat (cGold c)} \<union> gold_brought ` set cmds" for x
    by (rule Max_ge [OF _ that]) simp
  then have "max GoldMax ?M = ?M" by (simp add: max_absorb2)
  moreover have "sound_upto ?M (run exec (NewRuntime c l) cmds)"
    using assms le by (intro player_machine.run_invariant NewRuntime_sound_upto) (auto simp: allowed_upto_def le_max_iff_disj)
  ultimately show ?thesis by (simp add: sound_upto_def Let_def)
qed

text \<open>
  C2: a save can always be loaded. Whatever a session did that began with a character whose items and
  quickslots passed the checks of its ticket, under the premises of the session properties, the
  character it would persist passes these checks again, and the runtime made from it shows the same
  cells, worn items, quickslots, gold, points and position.
\<close>

theorem session_save_reload:
  assumes "checked_character c" and "\<forall>cmd \<in> set cmds. checked_request cmd"
  shows "let r = run exec (NewRuntime c l) cmds; r' = NewRuntime (LiveCharacter r) l' in
    validateTicket_character (LiveCharacter r) = None \<and>
    cells (liveInventory r') = cells (liveInventory r) \<and> worn (liveEquipment r') = worn (liveEquipment r) \<and>
    bar (liveQuickslots r') = bar (liveQuickslots r) \<and> liveGold r' = liveGold r \<and>
    livePoints r' = livePoints r \<and> live r' = live r"
proof -
  let ?r = "run exec (NewRuntime c l) cmds"
  have "sound ?r"
    by (rule session_invariant [OF NewRuntime_sound [OF assms(1)] assms(2)])
  then have save: "checked_character (LiveCharacter ?r)" by (rule LiveCharacter_checked)
  then have "validateTicket_character (LiveCharacter ?r) = None" by (simp add: checked_character_def)
  with NewRuntime_fields [OF save, of l'] show ?thesis
    by (simp add: Let_def LiveCharacter_def NewPosition_def)
qed

text \<open>
  C4: refused requests leave no trace. Running only the accepted commands of a sequence ends in
  the same runtime as running all of them, and then every one of them is accepted.
\<close>

theorem refused_commands_vanish:
  assumes "sound r" and "\<forall>cmd \<in> set cmds. checked_request cmd"
  shows "run exec r (accepted exec r cmds) = run exec r cmds \<and>
    accepted exec r (accepted exec r cmds) = accepted exec r cmds"
  by (rule session_accepted [OF assms])

text \<open>
  C3: rearranging duplicates nothing. Any sequence of moves, splits, merges, stackings, socket
  changes, equips, replacements, unequips, quickslot, point and gold operations keeps the number
  of units of every item kind that a player carries and wears.
\<close>

theorem rearranging_conserves_units:
  assumes "sound r" and "\<forall>cmd \<in> set cmds. checked_request cmd \<and> closed cmd"
  shows "total_units v (run exec r cmds) = total_units v r"
  using session_conserves [OF assms] unfolding holdings_def by (rule fun_cong)

section \<open>A session\<close>

definition sample_character :: character where
  "sample_character = zero_character\<lparr>cID := 1, cName := ''kim'', cLevel := 10, cGold := 500,
     cInventory := [zero_item\<lparr>ID := 7, Vnum := 27, Count := 3, Slot := 4\<rparr>,
                    zero_item\<lparr>ID := 8, Vnum := 27, Count := 2, Slot := 5\<rparr>,
                    zero_item\<lparr>ID := 9, Vnum := 19, Count := 1, Slot := 6\<rparr>]\<rparr>"

definition sample_commands :: "command list" where
  "sample_commands = [Bag (MoveCountBounded 5 4 1 200), Gear (Equip 6 EquipmentSlotWeapon), Bag (Move 99 1),
     Bar (SetBar 0 \<lparr>qPosition = 0, qType = 1, qSlot = 4\<rparr>), Purse (AddGold 20)]"

definition sample_link :: session_link where
  "sample_link = \<lparr>linkLogin = ''kim'', linkCharacterIndex = 0\<rparr>"

lemma sample_character_sound: "checked_character sample_character"
  by (simp add: checked_character_def validateTicket_character_iff sample_character_def GoldMax_def wf_items_def
      carried_ok_def Validate_def zero_item_def equipment_slot_defs CarriedInventorySlotCount_def
      wf_quickslots_def bindings_unique_def bar_def zero_character_def)

lemma sample_commands_allowed: "\<forall>cmd \<in> set sample_commands. checked_request cmd \<and> closed cmd"
  by (simp add: sample_commands_def)

theorem session_sound_witness:
  "wf_runtime (run exec (NewRuntime sample_character sample_link) sample_commands)"
  using session_sound [OF sample_character_sound, of sample_commands sample_link] sample_commands_allowed
  by (simp add: Let_def)

theorem session_save_reload_witness:
  "validateTicket_character (LiveCharacter (run exec (NewRuntime sample_character sample_link) sample_commands)) = None"
  using session_save_reload [OF sample_character_sound, of sample_commands sample_link] sample_commands_allowed
  by (simp add: Let_def)

lemma sample_session_sound: "sound (NewRuntime sample_character sample_link)"
  by (rule NewRuntime_sound [OF sample_character_sound])

theorem refused_commands_vanish_witness:
  "run exec (NewRuntime sample_character sample_link) (accepted exec (NewRuntime sample_character sample_link) sample_commands) =
   run exec (NewRuntime sample_character sample_link) sample_commands"
  using refused_commands_vanish [OF sample_session_sound, of sample_commands] sample_commands_allowed by simp

theorem rearranging_conserves_units_witness:
  "total_units 27 (run exec (NewRuntime sample_character sample_link) sample_commands) = 5"
proof -
  have "total_units 27 (NewRuntime sample_character sample_link) = 5"
    by (simp add: total_units_def units_in_def zero_item_def NewRuntime_def ApplyPersistedSnapshot_def Let_def
        normalizeCharacter_def NormalizeItemState_def cloneCharacter_def sample_character_def zero_character_def)
  then show ?thesis
    using rearranging_conserves_units [OF sample_session_sound, of sample_commands 27] sample_commands_allowed by simp
qed

end
