(* ===== verification/World_Visibility.thy ===== *)
theory World_Visibility
  imports Position "HOL-Library.Signed_Division" "HOL-Library.List_Lexorder" "HOL-Library.Char_ord"
begin

text \<open>
  Who sees whom (\<open>internal/worldruntime\<close>: \<open>topology.go\<close>, \<open>aoi.go\<close>, \<open>distance.go\<close>,
  \<open>visibility.go\<close>): the topology with its visibility policy, the chat scopes, the sets of visible
  peers and the difference that is sent when a player enters, leaves or moves. The Go interface
  \<open>VisibilityPolicy\<close> is a datatype of its three implementations.
\<close>

unbundle bit_operations_syntax


section \<open>Topology\<close>

definition bootstrapMapIndex :: u32 where "bootstrapMapIndex = 1"
definition defaultLocalChannelID :: u8 where "defaultLocalChannelID = 1"

datatype visibility_policy =
  WholeMapVisibilityPolicy
| RadiusVisibilityPolicy (Radius: i32) (RadiusSectorSize: i32)
| SectorVisibilityPolicy (SectorSize: i32)

record topology =
  localChannelID :: u8
  visibilityPolicy :: "visibility_policy option"

definition NewBootstrapTopology :: "u8 \<Rightarrow> topology" where
  "NewBootstrapTopology channel =
     \<lparr>localChannelID = (if channel = 0 then defaultLocalChannelID else channel),
      visibilityPolicy = Some WholeMapVisibilityPolicy\<rparr>"

definition LocalChannelID :: "topology \<Rightarrow> u8" where
  "LocalChannelID t = (if localChannelID t = 0 then defaultLocalChannelID else localChannelID t)"

definition EffectiveChannelID :: "topology \<Rightarrow> character \<Rightarrow> u8" where
  "EffectiveChannelID t c = LocalChannelID t"

definition EffectiveMapIndex :: "topology \<Rightarrow> character \<Rightarrow> u32" where
  "EffectiveMapIndex t c = (if cMapIndex c = 0 then bootstrapMapIndex else cMapIndex c)"

definition VisibilityPolicy :: "topology \<Rightarrow> visibility_policy" where
  "VisibilityPolicy t = (case visibilityPolicy t of None \<Rightarrow> WholeMapVisibilityPolicy | Some p \<Rightarrow> p)"

definition WithVisibilityPolicy :: "topology \<Rightarrow> visibility_policy option \<Rightarrow> topology" where
  "WithVisibilityPolicy t policy =
     t\<lparr>visibilityPolicy := Some (case policy of None \<Rightarrow> WholeMapVisibilityPolicy | Some p \<Rightarrow> p)\<rparr>"

definition WithWholeMapVisibilityPolicy :: "topology \<Rightarrow> topology" where
  "WithWholeMapVisibilityPolicy t = WithVisibilityPolicy t (Some WholeMapVisibilityPolicy)"

definition WithRadiusVisibilityPolicy :: "topology \<Rightarrow> i32 \<Rightarrow> i32 \<Rightarrow> topology" where
  "WithRadiusVisibilityPolicy t radius sectorSize =
     WithVisibilityPolicy t (Some (RadiusVisibilityPolicy radius sectorSize))"

definition WithSectorVisibilityPolicy :: "topology \<Rightarrow> i32 \<Rightarrow> topology" where
  "WithSectorVisibilityPolicy t sectorSize = WithVisibilityPolicy t (Some (SectorVisibilityPolicy sectorSize))"

section \<open>Sectors and distances\<close>

text \<open>Go's \<open>/\<close> and \<open>%\<close> on \<open>int32\<close> round towards zero.\<close>

definition floorDiv :: "i32 \<Rightarrow> i32 \<Rightarrow> i32" where
  "floorDiv v divisor =
     (let quotient = i32_of (sint v sdiv sint divisor); remainder = i32_of (sint v smod sint divisor) in
      if remainder \<noteq> 0 \<and> sint v < 0 then quotient - 1 else quotient)"

record sector_key =
  skMapIndex :: u32
  SX :: i32
  SY :: i32

definition SectorKeyForPosition :: "position \<Rightarrow> i32 \<Rightarrow> sector_key" where
  "SectorKeyForPosition p sectorSize =
     (if \<not> Position_Valid p then \<lparr>skMapIndex = 0, SX = 0, SY = 0\<rparr>
      else
        let size = (if sint sectorSize \<le> 0 then 1 else sectorSize) in
        \<lparr>skMapIndex = pMapIndex p, SX = floorDiv (pX p) size, SY = floorDiv (pY p) size\<rparr>)"

text \<open>The squared distance in \<open>int64\<close>, which wraps.\<close>

definition squaredDistanceXY :: "position \<Rightarrow> position \<Rightarrow> i64" where
  "squaredDistanceXY p q =
     (let dx = scast (pX p) - scast (pX q); dy = scast (pY p) - scast (pY q) in dx * dx + dy * dy)"

fun CanSee :: "visibility_policy \<Rightarrow> topology \<Rightarrow> character \<Rightarrow> character \<Rightarrow> bool" where
  "CanSee WholeMapVisibilityPolicy t subject peer \<longleftrightarrow>
     EffectiveChannelID t subject = EffectiveChannelID t peer \<and>
     EffectiveMapIndex t subject = EffectiveMapIndex t peer"
| "CanSee (SectorVisibilityPolicy sectorSize) t subject peer \<longleftrightarrow>
     (if sint sectorSize \<le> 0 \<or> EffectiveChannelID t subject \<noteq> EffectiveChannelID t peer then False
      else
        SectorKeyForPosition (NewPosition (EffectiveMapIndex t subject) (cX subject) (cY subject)) sectorSize =
        SectorKeyForPosition (NewPosition (EffectiveMapIndex t peer) (cX peer) (cY peer)) sectorSize)"
| "CanSee (RadiusVisibilityPolicy radius _) t subject peer \<longleftrightarrow>
     (if EffectiveChannelID t subject \<noteq> EffectiveChannelID t peer then False
      else
        let p = NewPosition (EffectiveMapIndex t subject) (cX subject) (cY subject);
            q = NewPosition (EffectiveMapIndex t peer) (cX peer) (cY peer) in
        if \<not> SameMap p q then False
        else if sint radius \<le> 0 then False
        else sint (squaredDistanceXY p q) \<le> sint (scast radius * scast radius :: i64))"

definition SharesVisibleWorld :: "topology \<Rightarrow> character \<Rightarrow> character \<Rightarrow> bool" where
  "SharesVisibleWorld t left right \<longleftrightarrow> CanSee (VisibilityPolicy t) t left right"

definition SharesTalkingChatScope :: "topology \<Rightarrow> character \<Rightarrow> character \<Rightarrow> bool" where
  "SharesTalkingChatScope t left right \<longleftrightarrow>
     cEmpire left \<noteq> 0 \<and> cEmpire left = cEmpire right \<and> SharesVisibleWorld t left right"

definition SharesShoutScope :: "topology \<Rightarrow> character \<Rightarrow> character \<Rightarrow> bool" where
  "SharesShoutScope t left right \<longleftrightarrow>
     cEmpire left \<noteq> 0 \<and> cEmpire left = cEmpire right \<and> EffectiveChannelID t left = EffectiveChannelID t right"

definition SharesGuildChatScope :: "topology \<Rightarrow> character \<Rightarrow> character \<Rightarrow> bool" where
  "SharesGuildChatScope t left right \<longleftrightarrow>
     cGuildID left \<noteq> 0 \<and> cGuildID left = cGuildID right \<and> EffectiveChannelID t left = EffectiveChannelID t right"

text \<open>The legacy octile distance, in \<open>int32\<close>.\<close>

definition ApproxDistance :: "i32 \<Rightarrow> i32 \<Rightarrow> i32" where
  "ApproxDistance dx dy =
     (let dx = (if sint dx < 0 then - dx else dx);
          dy = (if sint dy < 0 then - dy else dy);
          (mn, mx) = (if sint dx < sint dy then (dx, dy) else (dy, dx)) in
      signed_drop_bit 8
        (push_bit 8 mx + push_bit 3 mx - push_bit 4 mx - push_bit 1 mx +
         push_bit 7 mn - push_bit 5 mn + push_bit 3 mn - push_bit 1 mn))"

definition ExchangeMaxDistance :: int where "ExchangeMaxDistance = 1000"

definition effectiveMapIndex :: "u32 \<Rightarrow> u32" where
  "effectiveMapIndex mapIndex = (if mapIndex = 0 then bootstrapMapIndex else mapIndex)"

definition WithinExchangeDistance :: "character \<Rightarrow> character \<Rightarrow> bool" where
  "WithinExchangeDistance left right \<longleftrightarrow>
     (if effectiveMapIndex (cMapIndex left) \<noteq> effectiveMapIndex (cMapIndex right) then False
      else sint (ApproxDistance (cX left - cX right) (cY left - cY right)) < ExchangeMaxDistance)"

section \<open>Visible peers\<close>

definition sortCharacters :: "character list \<Rightarrow> character list" where
  "sortCharacters cs = sort_key (\<lambda>c. (cName c, cVID c)) cs"

definition cloneCharacters :: "character list \<Rightarrow> character list" where
  "cloneCharacters cs = (if cs = [] then [] else sortCharacters (CloneCharacters cs))"

definition VisiblePeers :: "topology \<Rightarrow> character \<Rightarrow> character list \<Rightarrow> u32 \<Rightarrow> character list" where
  "VisiblePeers t subject characters excludeVID =
     sortCharacters (filter (\<lambda>peer. \<not> (cVID peer = excludeVID \<or> \<not> SharesVisibleWorld t subject peer)) characters)"

text \<open>The values of the Go map from VIDs: of several characters with one VID the last stays.\<close>

fun byVID :: "character list \<Rightarrow> character list" where
  "byVID [] = []"
| "byVID (c # cs) = (if list_ex (\<lambda>d. cVID d = cVID c) cs then byVID cs else c # byVID cs)"

definition DiffVisiblePeers :: "character list \<Rightarrow> character list \<Rightarrow> character list \<times> character list" where
  "DiffVisiblePeers cur target =
     (sortCharacters (filter (\<lambda>c. \<not> list_ex (\<lambda>d. cVID d = cVID c) target) (byVID cur)),
      sortCharacters (filter (\<lambda>c. \<not> list_ex (\<lambda>d. cVID d = cVID c) cur) (byVID target)))"

record visibility_diff =
  CurrentVisiblePeers :: "character list"
  TargetVisiblePeers :: "character list"
  RemovedVisiblePeers :: "character list"
  AddedVisiblePeers :: "character list"

definition BuildVisibilityDiff :: "character list \<Rightarrow> character list \<Rightarrow> visibility_diff" where
  "BuildVisibilityDiff cur target =
     (let cur = cloneCharacters cur; target = cloneCharacters target;
          (removed, added) = DiffVisiblePeers cur target in
      \<lparr>CurrentVisiblePeers = cur, TargetVisiblePeers = target,
       RemovedVisiblePeers = removed, AddedVisiblePeers = added\<rparr>)"

definition EnterVisibilityDiff :: "topology \<Rightarrow> character \<Rightarrow> character list \<Rightarrow> visibility_diff" where
  "EnterVisibilityDiff t subject cs = BuildVisibilityDiff [] (VisiblePeers t subject cs (cVID subject))"

definition LeaveVisibilityDiff :: "topology \<Rightarrow> character \<Rightarrow> character list \<Rightarrow> visibility_diff" where
  "LeaveVisibilityDiff t subject cs = BuildVisibilityDiff (VisiblePeers t subject cs (cVID subject)) []"

definition RelocateVisibilityDiff ::
    "topology \<Rightarrow> character \<Rightarrow> character list \<Rightarrow> character \<Rightarrow> character list \<Rightarrow> visibility_diff" where
  "RelocateVisibilityDiff t cur currentCharacters target targetCharacters =
     BuildVisibilityDiff (VisiblePeers t cur currentCharacters (cVID cur))
       (VisiblePeers t target targetCharacters (cVID target))"

section \<open>Sectors are floors\<close>

lemma sint_i32_of_word [simp]: "i32_of (sint (w :: i32)) = w"
  by (simp add: i32_of_def)

lemma i32_of_pred: "i32_of x - 1 = i32_of (x - 1)"
  by (simp add: i32_of_def)

lemma div_i32_range:
  fixes v d :: int
  assumes "0 < d" and "min_i32 \<le> v" and "v \<le> max_i32"
  shows "min_i32 \<le> v div d" and "v div d \<le> max_i32"
proof -
  have "v div d \<le> max 0 v"
  proof (cases "0 \<le> v")
    case True
    with assms(1) zdiv_mono2 [of v 1 d] show ?thesis by simp
  next
    case False
    then have "v div d < 0" using assms(1) by (simp add: pos_imp_zdiv_neg_iff)
    then show ?thesis by simp
  qed
  then show "v div d \<le> max_i32" using assms(3) by (simp add: max_i32_def)
  have "min 0 v \<le> v div d"
  proof (cases "0 \<le> v")
    case True
    then show ?thesis using assms(1) by (simp add: pos_imp_zdiv_nonneg_iff min.coboundedI1)
  next
    case False
    then show ?thesis using assms(1) zdiv_mono2_neg [of v 1 d] by simp
  qed
  then show "min_i32 \<le> v div d" using assms(2) by (simp add: min_i32_def)
qed

lemma floorDiv_floor:
  assumes "0 < sint d"
  shows "sint (floorDiv v d) = sint v div sint d"
proof -
  let ?v = "sint v" and ?d = "sint d"
  note b = sint_i32_bounds [of v] and range = div_i32_range [OF assms sint_i32_bounds]
  show ?thesis
  proof (cases "?v < 0")
    case False
    then have "?v sdiv ?d = ?v div ?d" using assms by (simp add: signed_divide_int_eq_divide_int sgn_if)
    with False range show ?thesis by (simp add: floorDiv_def Let_def)
  next
    case True
    let ?r = "?v smod ?d"
    have "?r = ?v mod ?d - ?d * of_bool (\<not> ?d dvd ?v)"
      using True assms by (simp add: signed_modulo_int_eq_modulo_int)
    moreover have "0 \<le> ?v mod ?d" "?v mod ?d < ?d" using assms by simp_all
    ultimately have r: "- ?d \<le> ?r" "?r \<le> 0" "?r = 0 \<longleftrightarrow> ?d dvd ?v"
      by (auto simp: dvd_eq_mod_eq_0)
    have "sint (i32_of ?r) = ?r"
      using r sint_i32_bounds(2) [of d] by (intro sint_i32_of) (simp_all add: min_i32_def max_i32_def)
    then have z: "i32_of ?r = 0 \<longleftrightarrow> ?d dvd ?v" using r(3) by (metis signed_0 i32_of_def of_int_0)
    have q: "?v div ?d = ?v sdiv ?d - of_bool (\<not> ?d dvd ?v)"
      using True assms by (simp add: divide_int_eq_signed_divide_int)
    show ?thesis
    proof (cases "?d dvd ?v")
      case dvd: True
      with q have "?v sdiv ?d = ?v div ?d" by simp
      with dvd range show ?thesis by (simp add: floorDiv_def Let_def z)
    next
      case ndvd: False
      with q have "?v sdiv ?d - 1 = ?v div ?d" by simp
      with ndvd True range show ?thesis by (simp add: floorDiv_def Let_def z i32_of_pred)
    qed
  qed
qed

section \<open>Distances\<close>

lemma sint_i32_diff:
  assumes "min_i32 \<le> sint a - sint b" and "sint a - sint b \<le> max_i32"
  shows "sint (a - b :: i32) = sint a - sint b"
proof -
  have "a - b = i32_of (sint a - sint b)" by (simp add: i32_of_def)
  with assms show ?thesis by simp
qed

text \<open>The raw sum before the shift: 246 times the larger plus 102 times the smaller coordinate.\<close>

definition octile :: "int \<Rightarrow> int \<Rightarrow> int" where
  "octile x y = 246 * max \<bar>x\<bar> \<bar>y\<bar> + 102 * min \<bar>x\<bar> \<bar>y\<bar>"

lemma abs_i32:
  assumes "\<bar>sint w\<bar> \<le> 6000000"
  shows "sint (if sint w < 0 then - w else w :: i32) = \<bar>sint w\<bar>"
proof (cases "sint w < 0")
  case True
  have "- w = i32_of (- sint w)" by (simp add: i32_of_def)
  with True assms show ?thesis by (simp add: max_i32_def min_i32_def)
qed simp

lemma shift_sum:
  "push_bit 8 mx + push_bit 3 mx - push_bit 4 mx - push_bit 1 mx +
     push_bit 7 mn - push_bit 5 mn + push_bit 3 mn - push_bit 1 mn = i32_of (246 * sint mx + 102 * sint mn)"
proof -
  have "push_bit 8 mx + push_bit 3 mx - push_bit 4 mx - push_bit 1 mx +
     push_bit 7 mn - push_bit 5 mn + push_bit 3 mn - push_bit 1 mn = 246 * mx + 102 * mn"
    by (simp add: push_bit_eq_mult)
  then show ?thesis by (simp add: i32_of_def)
qed

lemma sint_signed_drop_bit: "sint (signed_drop_bit n w :: i32) = sint w div 2 ^ n"
  by (simp add: sint_signed_drop_bit_eq drop_bit_eq_div)

lemma ApproxDistance_octile:
  assumes "\<bar>sint dx\<bar> \<le> 6000000" and "\<bar>sint dy\<bar> \<le> 6000000"
  shows "sint (ApproxDistance dx dy) = octile (sint dx) (sint dy) div 256"
proof -
  define ax where "ax = (if sint dx < 0 then - dx else dx)"
  define ay where "ay = (if sint dy < 0 then - dy else dy)"
  have a: "sint ax = \<bar>sint dx\<bar>" "sint ay = \<bar>sint dy\<bar>"
    unfolding ax_def ay_def using assms by (simp_all only: abs_i32)
  define mn where "mn = (if sint ax < sint ay then ax else ay)"
  define mx where "mx = (if sint ax < sint ay then ay else ax)"
  have m: "sint mn = min \<bar>sint dx\<bar> \<bar>sint dy\<bar>" "sint mx = max \<bar>sint dx\<bar> \<bar>sint dy\<bar>"
    unfolding mn_def mx_def using a by auto
  have "ApproxDistance dx dy = signed_drop_bit 8 (i32_of (246 * sint mx + 102 * sint mn))"
    unfolding ApproxDistance_def Let_def ax_def [symmetric] ay_def [symmetric] mn_def mx_def shift_sum [symmetric]
    by simp
  moreover have "sint (i32_of (246 * sint mx + 102 * sint mn)) = octile (sint dx) (sint dy)"
    unfolding octile_def m using assms by (subst sint_i32_of) (simp_all add: min_i32_def max_i32_def)
  ultimately show ?thesis by (simp add: sint_signed_drop_bit)
qed

lemma octile_bounds:
  "60516 * (x * x + y * y) \<le> octile x y * octile x y" "octile x y * octile x y \<le> 70920 * (x * x + y * y)"
proof -
  define a where "a = max \<bar>x\<bar> \<bar>y\<bar>"
  define b where "b = min \<bar>x\<bar> \<bar>y\<bar>"
  have s: "x * x + y * y = a * a + b * b" by (simp add: a_def b_def max_def min_def)
  have ab: "0 \<le> b" "b \<le> a" by (simp_all add: a_def b_def)
  have o': "octile x y = 246 * a + 102 * b" by (simp add: octile_def a_def b_def)
  have "b * b \<le> a * b" using ab by (intro mult_right_mono) simp_all
  moreover have "0 \<le> a * b" using ab by simp
  ultimately show "60516 * (x * x + y * y) \<le> octile x y * octile x y"
    unfolding s o' by (simp add: algebra_simps)
  have "0 \<le> (102 * a - 246 * b) * (102 * a - 246 * b)" by simp
  then show "octile x y * octile x y \<le> 70920 * (x * x + y * y)"
    unfolding s o' by (simp add: algebra_simps)
qed

section \<open>Seeing\<close>

text \<open>Below 2^31 in each coordinate the squared distance does not wrap.\<close>

lemma sint_i64_of:
  assumes "- (2 ^ 63) \<le> x" and "x < 2 ^ 63"
  shows "sint (word_of_int x :: i64) = x"
  using assms by (simp add: signed_of_int signed_take_bit_int_eq_self)

lemma squaredDistanceXY_int:
  "squaredDistanceXY p q =
     word_of_int ((sint (pX p) - sint (pX q)) ^ 2 + (sint (pY p) - sint (pY q)) ^ 2)"
proof -
  show ?thesis
    unfolding squaredDistanceXY_def Let_def scast_eq power2_eq_square by (simp only: of_int_add of_int_mult of_int_diff)
qed

lemma squaredDistanceXY_exact:
  assumes "\<bar>sint (pX p) - sint (pX q)\<bar> < 2 ^ 31" and "\<bar>sint (pY p) - sint (pY q)\<bar> < 2 ^ 31"
  shows "sint (squaredDistanceXY p q) = (sint (pX p) - sint (pX q)) ^ 2 + (sint (pY p) - sint (pY q)) ^ 2"
proof -
  have sq: "0 \<le> d ^ 2 \<and> d ^ 2 \<le> 2147483647 ^ 2" if "\<bar>d\<bar> < 2 ^ 31" for d :: int
    using that abs_le_square_iff [of d 2147483647] by simp
  have fits: "- (2 ^ 63) \<le> a + b \<and> a + b < 2 ^ 63"
    if "0 \<le> a \<and> a \<le> 2147483647 ^ 2" "0 \<le> b \<and> b \<le> 2147483647 ^ 2" for a b :: int
    using that by simp
  show ?thesis
    unfolding squaredDistanceXY_int using fits [OF sq [OF assms(1)] sq [OF assms(2)]] by (intro sint_i64_of) blast+
qed

lemma squaredRadius_exact: "sint (scast r * scast r :: i64) = sint (r :: i32) ^ 2"
proof -
  have "\<bar>sint r\<bar> \<le> \<bar>2147483648\<bar>" using sint_i32_bounds [of r] by (simp add: min_i32_def max_i32_def)
  then have "sint r ^ 2 \<le> 2147483648 ^ 2" by (simp only: abs_le_square_iff)
  then have le: "sint r ^ 2 < 2 ^ 63" by simp
  have "(- (2 ^ 63) :: int) \<le> 0" by simp
  also have "0 \<le> sint r ^ 2" by simp
  finally have ge: "- (2 ^ 63) \<le> sint r ^ 2" .
  have "(scast r * scast r :: i64) = word_of_int (sint r ^ 2)"
    unfolding scast_eq power2_eq_square by (simp only: of_int_mult)
  then show ?thesis using sint_i64_of [OF ge le] by (simp only:)
qed

lemma NewPosition_map [simp]: "pMapIndex (NewPosition m x y) = m"
  by (simp add: NewPosition_def)

lemma EffectiveMapIndex_nonzero [simp]: "EffectiveMapIndex t c \<noteq> 0"
  by (simp add: EffectiveMapIndex_def bootstrapMapIndex_def)

lemma CanSee_sym: "CanSee policy t a b \<longleftrightarrow> CanSee policy t b a"
proof (cases policy)
  case (RadiusVisibilityPolicy r s)
  have "squaredDistanceXY p q = squaredDistanceXY q p" for p q
    by (simp add: squaredDistanceXY_def Let_def algebra_simps)
  with RadiusVisibilityPolicy show ?thesis by (auto simp: Let_def SameMap_sym EffectiveChannelID_def)
qed (auto simp: EffectiveChannelID_def)

section \<open>Differences\<close>

lemma set_sortCharacters [simp]: "set (sortCharacters cs) = set cs"
  by (simp add: sortCharacters_def)

lemma mset_sortCharacters [simp]: "mset (sortCharacters cs) = mset cs"
  by (simp add: sortCharacters_def)

lemma distinct_sortCharacters [simp]: "distinct (map f (sortCharacters cs)) = distinct (map f cs)"
  by (simp add: sortCharacters_def distinct_map_sort_key)

lemma cloneCharacters_sort [simp]: "cloneCharacters cs = sortCharacters cs"
  by (simp add: cloneCharacters_def sortCharacters_def)

lemma byVID_subset: "set (byVID cs) \<subseteq> set cs"
  by (induction cs) auto

lemma list_ex_VID [simp]: "list_ex (\<lambda>d. cVID d = v) cs \<longleftrightarrow> v \<in> cVID ` set cs"
  by (induction cs) auto

lemma byVID_keys: "cVID ` set (byVID cs) = cVID ` set cs"
proof (induction cs)
  case (Cons c cs)
  have "cVID c \<in> cVID ` set cs" if "list_ex (\<lambda>d. cVID d = cVID c) cs" using that by simp
  with Cons.IH show ?case by auto
qed simp

lemma byVID_distinct: "distinct (map cVID (byVID cs))"
  by (induction cs) (use byVID_subset in \<open>fastforce simp: list_ex_iff\<close>)+

lemma byVID_distinct_id: "distinct (map cVID cs) \<Longrightarrow> byVID cs = cs"
  by (induction cs) (auto simp: list_ex_iff image_iff)

lemma DiffVisiblePeers_exact:
  assumes "DiffVisiblePeers cur target = (removed, added)"
  shows "cVID ` set removed = cVID ` set cur - cVID ` set target" and "set removed \<subseteq> set cur"
    and "distinct (map cVID removed)" and "cVID ` set added = cVID ` set target - cVID ` set cur"
    and "set added \<subseteq> set target" and "distinct (map cVID added)"
proof -
  have keys: "cVID ` set (filter (\<lambda>c. \<not> list_ex (\<lambda>d. cVID d = cVID c) ys) (byVID xs)) = cVID ` set xs - cVID ` set ys"
    for xs ys
  proof -
    have "cVID ` set (filter (\<lambda>c. \<not> list_ex (\<lambda>d. cVID d = cVID c) ys) (byVID xs)) = cVID ` set (byVID xs) - cVID ` set ys"
      by auto
    then show ?thesis unfolding byVID_keys .
  qed
  have sub: "set (filter P (byVID xs)) \<subseteq> set xs" for P xs using byVID_subset [of xs] by auto
  have dist: "distinct (map cVID (filter P (byVID xs)))" for P xs
    using byVID_distinct [of xs] by (simp add: distinct_map_filter)
  have r: "removed = sortCharacters (filter (\<lambda>c. \<not> list_ex (\<lambda>d. cVID d = cVID c) target) (byVID cur))"
    and a: "added = sortCharacters (filter (\<lambda>c. \<not> list_ex (\<lambda>d. cVID d = cVID c) cur) (byVID target))"
    using assms by (simp_all add: DiffVisiblePeers_def)
  show "cVID ` set removed = cVID ` set cur - cVID ` set target" unfolding r set_sortCharacters by (rule keys)
  show "set removed \<subseteq> set cur" unfolding r set_sortCharacters by (rule sub)
  show "distinct (map cVID removed)" unfolding r distinct_sortCharacters by (rule dist)
  show "cVID ` set added = cVID ` set target - cVID ` set cur" unfolding a set_sortCharacters by (rule keys)
  show "set added \<subseteq> set target" unfolding a set_sortCharacters by (rule sub)
  show "distinct (map cVID added)" unfolding a distinct_sortCharacters by (rule dist)
qed

lemma VisiblePeers_set:
  "set (VisiblePeers t subject cs v) = {c \<in> set cs. cVID c \<noteq> v \<and> SharesVisibleWorld t subject c}"
  by (auto simp: VisiblePeers_def)

section \<open>Properties\<close>

text \<open>
  C37: The difference is what the client needs. When a player moves, the peers it shows change from
  those visible at the old place to those visible at the new one by removing exactly the removed
  and adding exactly the added ones, each once; the player itself is in neither, and what is
  added is visible from the new place. Entering and leaving are the same with nothing before or
  after.
\<close>

theorem visibility_diff_exact:
  "let d = RelocateVisibilityDiff t cur cs target cs'; seen = {c \<in> set cs. cVID c \<noteq> cVID cur \<and> SharesVisibleWorld t cur c};
       sees = {c \<in> set cs'. cVID c \<noteq> cVID target \<and> SharesVisibleWorld t target c} in
   set (CurrentVisiblePeers d) = seen \<and> set (TargetVisiblePeers d) = sees \<and>
   (cVID ` seen - cVID ` set (RemovedVisiblePeers d)) \<union> cVID ` set (AddedVisiblePeers d) = cVID ` sees \<and>
   cVID ` set (RemovedVisiblePeers d) = cVID ` seen - cVID ` sees \<and>
   cVID ` set (AddedVisiblePeers d) = cVID ` sees - cVID ` seen \<and>
   distinct (map cVID (RemovedVisiblePeers d)) \<and> distinct (map cVID (AddedVisiblePeers d)) \<and>
   set (RemovedVisiblePeers d) \<subseteq> seen \<and> set (AddedVisiblePeers d) \<subseteq> sees \<and>
   set (AddedVisiblePeers (EnterVisibilityDiff t target cs')) \<subseteq> sees \<and>
   cVID ` set (AddedVisiblePeers (EnterVisibilityDiff t target cs')) = cVID ` sees \<and>
   RemovedVisiblePeers (EnterVisibilityDiff t target cs') = [] \<and>
   cVID ` set (RemovedVisiblePeers (LeaveVisibilityDiff t cur cs)) = cVID ` seen \<and>
   AddedVisiblePeers (LeaveVisibilityDiff t cur cs) = []"
proof -
  let ?c = "VisiblePeers t cur cs (cVID cur)" and ?t = "VisiblePeers t target cs' (cVID target)"
  obtain rem add where d: "DiffVisiblePeers (sortCharacters ?c) (sortCharacters ?t) = (rem, add)" by fastforce
  obtain rem1 add1 where d1: "DiffVisiblePeers (sortCharacters []) (sortCharacters ?t) = (rem1, add1)" by fastforce
  obtain rem2 add2 where d2: "DiffVisiblePeers (sortCharacters ?c) (sortCharacters []) = (rem2, add2)" by fastforce
  note p = DiffVisiblePeers_exact [OF d] and p1 = DiffVisiblePeers_exact [OF d1] and p2 = DiffVisiblePeers_exact [OF d2]
  have rel: "RelocateVisibilityDiff t cur cs target cs' = \<lparr>CurrentVisiblePeers = sortCharacters ?c,
      TargetVisiblePeers = sortCharacters ?t, RemovedVisiblePeers = rem, AddedVisiblePeers = add\<rparr>"
    by (simp add: RelocateVisibilityDiff_def BuildVisibilityDiff_def d)
  have ent: "EnterVisibilityDiff t target cs' = \<lparr>CurrentVisiblePeers = sortCharacters [],
      TargetVisiblePeers = sortCharacters ?t, RemovedVisiblePeers = rem1, AddedVisiblePeers = add1\<rparr>"
    by (simp add: EnterVisibilityDiff_def BuildVisibilityDiff_def d1)
  have lea: "LeaveVisibilityDiff t cur cs = \<lparr>CurrentVisiblePeers = sortCharacters ?c,
      TargetVisiblePeers = sortCharacters [], RemovedVisiblePeers = rem2, AddedVisiblePeers = add2\<rparr>"
    by (simp add: LeaveVisibilityDiff_def BuildVisibilityDiff_def d2)
  have none: "rem1 = []" "add2 = []"
    using d1 d2 by (simp_all add: DiffVisiblePeers_def sortCharacters_def)
  have u: "(A - (A - B)) \<union> (B - A) = B" for A B :: "u32 set" by blast
  note q = p [unfolded set_sortCharacters] and q1 = p1 [unfolded set_sortCharacters] and q2 = p2 [unfolded set_sortCharacters]
  have e: "cVID ` set add1 = cVID ` set ?t" "cVID ` set rem2 = cVID ` set ?c"
    using q1(4) q2(1) by simp_all
  show ?thesis
    unfolding Let_def rel ent lea VisiblePeers_set [symmetric] visibility_diff.simps none q(1,4) e set_sortCharacters u
    by (intro conjI refl q(2,3,5,6) q1(5))
qed

lemma EffectiveChannelID_same [simp]: "EffectiveChannelID t a = EffectiveChannelID t b"
  by (simp add: EffectiveChannelID_def)

lemma floorDiv_eq_iff:
  "0 < sint d \<Longrightarrow> floorDiv v d = floorDiv w d \<longleftrightarrow> sint v div sint d = sint w div sint d"
  using floorDiv_floor [of d v] floorDiv_floor [of d w] by (metis signed_word_eqI)

text \<open>
  What each visibility policy means. Visibility is mutual; the whole-map policy shows whoever
  is on the same effective map, the sector policy whoever is in the same square of the map, and
  the radius policy whoever is within the radius, as long as the coordinates are less than 2^31
  apart.
\<close>

theorem CanSee_exact:
  "CanSee policy t a b = CanSee policy t b a \<and>
   (CanSee WholeMapVisibilityPolicy t a b \<longleftrightarrow> EffectiveMapIndex t a = EffectiveMapIndex t b) \<and>
   (CanSee (SectorVisibilityPolicy n) t a b \<longleftrightarrow> 0 < sint n \<and> EffectiveMapIndex t a = EffectiveMapIndex t b \<and>
      sint (cX a) div sint n = sint (cX b) div sint n \<and> sint (cY a) div sint n = sint (cY b) div sint n) \<and>
   (\<bar>sint (cX a) - sint (cX b)\<bar> < 2 ^ 31 \<and> \<bar>sint (cY a) - sint (cY b)\<bar> < 2 ^ 31 \<longrightarrow>
      (CanSee (RadiusVisibilityPolicy r n) t a b \<longleftrightarrow> EffectiveMapIndex t a = EffectiveMapIndex t b \<and> 0 < sint r \<and>
         (sint (cX a) - sint (cX b)) ^ 2 + (sint (cY a) - sint (cY b)) ^ 2 \<le> sint r ^ 2))"
proof (intro conjI impI)
  show "CanSee policy t a b = CanSee policy t b a" by (rule CanSee_sym)
  show "CanSee WholeMapVisibilityPolicy t a b \<longleftrightarrow> EffectiveMapIndex t a = EffectiveMapIndex t b"
    by simp
  show "CanSee (SectorVisibilityPolicy n) t a b \<longleftrightarrow> 0 < sint n \<and> EffectiveMapIndex t a = EffectiveMapIndex t b \<and>
      sint (cX a) div sint n = sint (cX b) div sint n \<and> sint (cY a) div sint n = sint (cY b) div sint n"
    by (cases "0 < sint n")
      (simp_all add: SectorKeyForPosition_def Position_Valid_def NewPosition_def Let_def floorDiv_eq_iff not_less)
  assume "\<bar>sint (cX a) - sint (cX b)\<bar> < 2 ^ 31 \<and> \<bar>sint (cY a) - sint (cY b)\<bar> < 2 ^ 31"
  then show "CanSee (RadiusVisibilityPolicy r n) t a b \<longleftrightarrow> EffectiveMapIndex t a = EffectiveMapIndex t b \<and> 0 < sint r \<and>
      (sint (cX a) - sint (cX b)) ^ 2 + (sint (cY a) - sint (cY b)) ^ 2 \<le> sint r ^ 2"
    by (auto simp: SameMap_def Position_Valid_def NewPosition_def Let_def squaredRadius_exact squaredDistanceXY_exact)
qed

theorem CanSee_exact_witness:
  "CanSee (RadiusVisibilityPolicy 5 1) (NewBootstrapTopology 1) (zero_character\<lparr>cX := 3\<rparr>) (zero_character\<lparr>cY := 4\<rparr>) \<and>
   \<not> CanSee (RadiusVisibilityPolicy 4 1) (NewBootstrapTopology 1) (zero_character\<lparr>cX := 3\<rparr>) (zero_character\<lparr>cY := 4\<rparr>)"
  using CanSee_exact [where policy = WholeMapVisibilityPolicy and t = "NewBootstrapTopology 1" and n = 1 and r = 5 and
      a = "zero_character\<lparr>cX := 3\<rparr>" and b = "zero_character\<lparr>cY := 4\<rparr>"]
    CanSee_exact [where policy = WholeMapVisibilityPolicy and t = "NewBootstrapTopology 1" and n = 1 and r = 4 and
      a = "zero_character\<lparr>cX := 3\<rparr>" and b = "zero_character\<lparr>cY := 4\<rparr>"]
  by (simp add: zero_character_def EffectiveMapIndex_def del: CanSee.simps)

text \<open>
  The radius policy wraps. Two players at the opposite ends of the coordinate range of one
  map see each other under every positive radius, because the squared distance overflows
  \<open>int64\<close> and becomes negative.
\<close>

theorem RadiusVisibility_wraps:
  "\<exists>a b. cMapIndex a = cMapIndex b \<and> sint (cX a) - sint (cX b) = 4294967295 \<and> cY a = cY b \<and>
     (\<forall>t r n. CanSee (RadiusVisibilityPolicy r n) t a b \<longleftrightarrow> 0 < sint r)"
proof -
  let ?a = "zero_character\<lparr>cX := 2147483647\<rparr>" and ?b = "zero_character\<lparr>cX := - 2147483648\<rparr>"
  have d: "sint (squaredDistanceXY (NewPosition 1 2147483647 y) (NewPosition 1 (- 2147483648) y)) = - 8589934591" for y
    by (simp add: squaredDistanceXY_int NewPosition_def)
  have "- 8589934591 \<le> sint (r :: i32) ^ 2" for r
    by (rule order_trans [of _ 0]) simp_all
  with d have "CanSee (RadiusVisibilityPolicy r n) t ?a ?b \<longleftrightarrow> 0 < sint r" for t r n
    by (auto simp: EffectiveMapIndex_def bootstrapMapIndex_def SameMap_def Position_Valid_def Let_def zero_character_def squaredRadius_exact)
  then show ?thesis by (intro exI [of _ ?a] exI [of _ ?b]) (simp add: zero_character_def)
qed

lemma EffectiveMapIndex_effectiveMapIndex: "EffectiveMapIndex t c = effectiveMapIndex (cMapIndex c)"
  by (simp add: EffectiveMapIndex_def effectiveMapIndex_def)

text \<open>
  C38: The exchange gate is accurate to four percent. For coordinate differences up to 6,000,000,
  players on one map who are at most 961 apart (Euclidean) may trade, and players who may trade
  are less than 1041 apart and on one map.
\<close>

theorem WithinExchangeDistance_accurate:
  assumes "\<bar>sint (cX a) - sint (cX b)\<bar> \<le> 6000000" and "\<bar>sint (cY a) - sint (cY b)\<bar> \<le> 6000000"
  shows "let d2 = (sint (cX a) - sint (cX b)) ^ 2 + (sint (cY a) - sint (cY b)) ^ 2 in
    (EffectiveMapIndex t a = EffectiveMapIndex t b \<and> d2 \<le> 961 ^ 2 \<longrightarrow> WithinExchangeDistance a b) \<and>
    (WithinExchangeDistance a b \<longrightarrow> EffectiveMapIndex t a = EffectiveMapIndex t b \<and> d2 < 1041 ^ 2)"
proof -
  let ?dx = "sint (cX a) - sint (cX b)" and ?dy = "sint (cY a) - sint (cY b)"
  let ?o = "octile ?dx ?dy" and ?d2 = "?dx ^ 2 + ?dy ^ 2"
  have x: "sint (cX a - cX b) = ?dx" and y: "sint (cY a - cY b) = ?dy"
    using assms(1,2) by (intro sint_i32_diff; simp add: min_i32_def max_i32_def)+
  have o: "sint (ApproxDistance (cX a - cX b) (cY a - cY b)) = ?o div 256"
    using ApproxDistance_octile [of "cX a - cX b" "cY a - cY b"] assms(1,2) x y by simp
  have c: "(k div 256 < 1000) = (k < 256000)" for k :: int by presburger
  have within: "WithinExchangeDistance a b \<longleftrightarrow> EffectiveMapIndex t a = EffectiveMapIndex t b \<and> ?o < 256000"
    by (simp add: WithinExchangeDistance_def EffectiveMapIndex_effectiveMapIndex o ExchangeMaxDistance_def c)
  have nonneg: "0 \<le> ?o" by (simp add: octile_def)
  have sq: "?o < 256000 \<longleftrightarrow> ?o ^ 2 < 256000 ^ 2" using nonneg power_mono_iff [of 256000 ?o 2] by (simp add: not_le [symmetric])
  have b: "60516 * ?d2 \<le> ?o ^ 2" "?o ^ 2 \<le> 70920 * ?d2"
    using octile_bounds [of ?dx ?dy] by (simp_all add: power2_eq_square)
  show ?thesis unfolding Let_def within sq using b by auto
qed

theorem WithinExchangeDistance_accurate_witness:
  "WithinExchangeDistance (zero_character\<lparr>cX := 960\<rparr>) zero_character \<and>
   \<not> WithinExchangeDistance (zero_character\<lparr>cX := 1041\<rparr>) zero_character"
  using WithinExchangeDistance_accurate [of "zero_character\<lparr>cX := 960\<rparr>" zero_character "NewBootstrapTopology 1"]
    WithinExchangeDistance_accurate [of "zero_character\<lparr>cX := 1041\<rparr>" zero_character "NewBootstrapTopology 1"]
  by (simp add: zero_character_def EffectiveMapIndex_def)

text \<open>
  The exchange gate wraps. Two players 9,000,000 apart on one map are within exchange
  distance, because the shifted sum overflows \<open>int32\<close>.
\<close>

theorem WithinExchangeDistance_wraps:
  "\<exists>a b. cMapIndex a = cMapIndex b \<and> sint (cX a) - sint (cX b) = 9000000 \<and> cY a = cY b \<and> WithinExchangeDistance a b"
proof -
  let ?a = "zero_character\<lparr>cX := 9000000\<rparr>" and ?b = "zero_character\<lparr>cX := 0\<rparr>"
  have "WithinExchangeDistance ?a ?b"
    by (simp add: WithinExchangeDistance_def ApproxDistance_def Let_def shift_sum zero_character_def ExchangeMaxDistance_def
        sint_signed_drop_bit)
  then show ?thesis by (intro exI [of _ ?a] exI [of _ ?b]) (simp add: zero_character_def)
qed

end
