(* ===== verification/World_Combat.thy ===== *)
theory World_Combat
  imports Player_Runtime Machine "HOL-Library.Signed_Division" "HOL-Library.List_Lexorder" "HOL-Library.Char_ord"
begin

text \<open>
  Combat profiles of static actors (\<open>internal/worldruntime/entity.go\<close> and the name rules of
  \<open>non_player_directory.go\<close>): death rewards, the registry of authored profiles with its
  admission rules, the effective radii and delays, and the arithmetic of a normal attack. The
  process-wide registry is an argument; a \<open>time.Duration\<close> is its nanoseconds in \<open>int64\<close>.
\<close>

type_synonym duration = "64 word"

section \<open>Death rewards\<close>

definition Empty :: "death_reward \<Rightarrow> bool" where
  "Empty w \<longleftrightarrow> Experience w = 0 \<and> Gold w = 0 \<and> DropVnums w = []"

text \<open>The loop of \<open>Clone\<close> over the sorted copy: the elements written so far, and the rest.\<close>

fun write_drops :: "u32 list \<Rightarrow> u32 list \<Rightarrow> u32 list" where
  "write_drops written [] = written"
| "write_drops written (vnum # vnums) =
     (if written \<noteq> [] \<and> last written = vnum then write_drops written vnums
      else write_drops (written @ [vnum]) vnums)"

definition DeathReward_Clone :: "death_reward \<Rightarrow> death_reward" where
  "DeathReward_Clone w =
     \<lparr>Experience = Experience w, Gold = Gold w,
      DropVnums = (if DropVnums w = [] then [] else write_drops [] (sort (DropVnums w)))\<rparr>"

fun valid_drops :: "u32 set \<Rightarrow> u32 list \<Rightarrow> bool" where
  "valid_drops seen [] = True"
| "valid_drops seen (vnum # vnums) =
     (if vnum = 0 then False else if vnum \<in> seen then False else valid_drops (insert vnum seen) vnums)"

definition ValidStaticActorDeathReward :: "death_reward \<Rightarrow> bool" where
  "ValidStaticActorDeathReward reward =
     (if maxPointChangeCarrier < Experience reward \<or> maxPointChangeCarrier < Gold reward then False
      else valid_drops {} (DropVnums reward))"

section \<open>Profiles\<close>

record profile_defaults =
  MaxHP :: u8
  DamagePerNormalAttack :: u8
  AttackValue :: u16
  DefenseValue :: u16
  Level :: u16
  Rank :: u8
  RespawnDelay :: duration
  AggroRadius :: i32
  LeashRadius :: i32
  ChaseDelay :: duration
  ReturnDelay :: duration
  HomewardDelay :: duration
  MaxStep :: i32
  ReactionDelay :: duration
  RetaliationPointDelta :: i32
  DeathReward :: death_reward

text \<open>Go's zero value.\<close>

definition zero_defaults :: profile_defaults where
  "zero_defaults = \<lparr>MaxHP = 0, DamagePerNormalAttack = 0, AttackValue = 0, DefenseValue = 0, Level = 0,
     Rank = 0, RespawnDelay = 0, AggroRadius = 0, LeashRadius = 0, ChaseDelay = 0, ReturnDelay = 0,
     HomewardDelay = 0, MaxStep = 0, ReactionDelay = 0, RetaliationPointDelta = 0,
     DeathReward = \<lparr>Experience = 0, Gold = 0, DropVnums = []\<rparr>\<rparr>"

type_synonym profile_registry = "string \<Rightarrow> profile_defaults option"

definition TrainingDummy :: string where "TrainingDummy = ''training_dummy''"
definition PracticeMob :: string where "PracticeMob = ''practice_mob''"
definition PracticeMobBootstrapRetaliationPointDelta :: i32 where
  "PracticeMobBootstrapRetaliationPointDelta = -1"
definition TrainingDummyBootstrapLevel :: u16 where "TrainingDummyBootstrapLevel = 1"

definition DefaultSpawnLeashRadius :: i32 where "DefaultSpawnLeashRadius = 400"
definition DefaultSpawnAggroRadius :: i32 where "DefaultSpawnAggroRadius = 200"
definition Second :: int where "Second = 1000000000"
definition Millisecond :: int where "Millisecond = 1000000"
definition MaxSpawnDelay :: int where "MaxSpawnDelay = 60 * Second"
definition MinSpawnDelay :: int where "MinSpawnDelay = 250 * Millisecond"
definition DefaultSpawnMaxStep :: i32 where "DefaultSpawnMaxStep = 100"
definition DefaultSpawnChaseDelay :: duration where "DefaultSpawnChaseDelay = word_of_int (5 * Second)"
definition DefaultSpawnReturnDelay :: duration where "DefaultSpawnReturnDelay = word_of_int Second"
definition DefaultSpawnHomewardDelay :: duration where "DefaultSpawnHomewardDelay = word_of_int Second"
definition DefaultSpawnReactionDelay :: duration where "DefaultSpawnReactionDelay = word_of_int Second"
definition MaxSpawnMaxStep :: int where "MaxSpawnMaxStep = 1000"

definition isLower :: "char \<Rightarrow> bool" where "isLower c \<longleftrightarrow> in_range 97 122 c"
definition name_char :: "char \<Rightarrow> bool" where
  "name_char c \<longleftrightarrow> isLower c \<or> in_range 48 57 c \<or> code c = 95"

definition validStaticActorCombatProfileName :: "string \<Rightarrow> bool" where
  "validStaticActorCombatProfileName profile =
     (if profile = [] \<or> profile \<noteq> trim_space profile then False
      else if \<not> isLower (hd profile) then False
      else list_all name_char (tl profile))"

definition EffectiveStaticActorSpawnAggroRadiusFromDefaults :: "profile_defaults \<Rightarrow> i32" where
  "EffectiveStaticActorSpawnAggroRadiusFromDefaults d =
     (if sint (AggroRadius d) \<le> 0 then DefaultSpawnAggroRadius else AggroRadius d)"

definition EffectiveStaticActorSpawnLeashRadiusFromDefaults :: "profile_defaults \<Rightarrow> i32" where
  "EffectiveStaticActorSpawnLeashRadiusFromDefaults d =
     (if sint (LeashRadius d) \<le> 0 then DefaultSpawnLeashRadius else LeashRadius d)"

definition ValidStaticActorCombatProfileAggroRadius :: "i32 \<Rightarrow> i32 \<Rightarrow> bool" where
  "ValidStaticActorCombatProfileAggroRadius aggroRadius leashRadius =
     (if sint aggroRadius < 0 then False
      else sint aggroRadius \<le>
        sint (EffectiveStaticActorSpawnLeashRadiusFromDefaults (zero_defaults\<lparr>LeashRadius := leashRadius\<rparr>)))"

definition ValidStaticActorCombatProfileLeashRadius :: "i32 \<Rightarrow> i32 \<Rightarrow> bool" where
  "ValidStaticActorCombatProfileLeashRadius leashRadius aggroRadius =
     (if sint leashRadius < 0 then False
      else if leashRadius = 0 then True
      else sint (EffectiveStaticActorSpawnAggroRadiusFromDefaults (zero_defaults\<lparr>AggroRadius := aggroRadius\<rparr>))
        \<le> sint leashRadius)"

definition ValidStaticActorCombatProfileChaseDelay :: "duration \<Rightarrow> bool" where
  "ValidStaticActorCombatProfileChaseDelay delay =
     (if sint delay < 0 then False else if delay = 0 then True
      else Second < sint delay \<and> sint delay \<le> MaxSpawnDelay)"

text \<open>The three other delays share one rule.\<close>

definition ValidStaticActorCombatProfileReturnDelay :: "duration \<Rightarrow> bool" where
  "ValidStaticActorCombatProfileReturnDelay delay =
     (if sint delay < 0 then False else if delay = 0 then True
      else MinSpawnDelay \<le> sint delay \<and> sint delay \<le> MaxSpawnDelay)"

definition ValidStaticActorCombatProfileHomewardDelay :: "duration \<Rightarrow> bool" where
  "ValidStaticActorCombatProfileHomewardDelay delay =
     (if sint delay < 0 then False else if delay = 0 then True
      else MinSpawnDelay \<le> sint delay \<and> sint delay \<le> MaxSpawnDelay)"

definition ValidStaticActorCombatProfileReactionDelay :: "duration \<Rightarrow> bool" where
  "ValidStaticActorCombatProfileReactionDelay delay =
     (if sint delay < 0 then False else if delay = 0 then True
      else MinSpawnDelay \<le> sint delay \<and> sint delay \<le> MaxSpawnDelay)"

definition ValidStaticActorCombatProfileMaxStep :: "i32 \<Rightarrow> bool" where
  "ValidStaticActorCombatProfileMaxStep maxStep =
     (if sint maxStep < 0 then False else if maxStep = 0 then True
      else 1 \<le> sint maxStep \<and> sint maxStep \<le> MaxSpawnMaxStep)"

text \<open>Milliseconds from authored content: \<open>int64(1<<63-1) / int64(time.Millisecond)\<close> bounds them.\<close>

definition to_delay :: "(duration \<Rightarrow> bool) \<Rightarrow> i64 \<Rightarrow> duration option" where
  "to_delay valid delayMs =
     (if sint delayMs < 0 then None
      else if 9223372036854775807 div Millisecond < sint delayMs then None
      else
        let delay = delayMs * word_of_int Millisecond in
        if \<not> valid delay then None else Some delay)"

definition StaticActorCombatProfileChaseDelay :: "i64 \<Rightarrow> duration option" where
  "StaticActorCombatProfileChaseDelay = to_delay ValidStaticActorCombatProfileChaseDelay"
definition StaticActorCombatProfileReturnDelay :: "i64 \<Rightarrow> duration option" where
  "StaticActorCombatProfileReturnDelay = to_delay ValidStaticActorCombatProfileReturnDelay"
definition StaticActorCombatProfileHomewardDelay :: "i64 \<Rightarrow> duration option" where
  "StaticActorCombatProfileHomewardDelay = to_delay ValidStaticActorCombatProfileHomewardDelay"
definition StaticActorCombatProfileReactionDelay :: "i64 \<Rightarrow> duration option" where
  "StaticActorCombatProfileReactionDelay = to_delay ValidStaticActorCombatProfileReactionDelay"

definition StaticActorCombatProfileRespawnDelay :: "i64 \<Rightarrow> duration option" where
  "StaticActorCombatProfileRespawnDelay delayMs =
     (if sint delayMs \<le> 0 then None
      else if 9223372036854775807 div Millisecond < sint delayMs then None
      else Some (delayMs * word_of_int Millisecond))"

definition ValidStaticActorCombatProfileRespawnDelayMs :: "i64 \<Rightarrow> bool" where
  "ValidStaticActorCombatProfileRespawnDelayMs delayMs \<longleftrightarrow> StaticActorCombatProfileRespawnDelay delayMs \<noteq> None"

section \<open>A normal attack\<close>

definition bootstrapStaticActorNormalAttackDamage :: "profile_defaults \<Rightarrow> u8" where
  "bootstrapStaticActorNormalAttackDamage d =
     (if AttackValue d \<le> DefenseValue d then 1
      else
        let damage = AttackValue d - DefenseValue d in
        if damage = 0 then 1
        else if ucast (MaxHP d) < damage then MaxHP d
        else ucast damage)"

definition bootstrapStaticActorRetaliationPointDelta :: "profile_defaults \<Rightarrow> i32" where
  "bootstrapStaticActorRetaliationPointDelta d =
     (if RetaliationPointDelta d = 0 then PracticeMobBootstrapRetaliationPointDelta else RetaliationPointDelta d)"

definition bootstrapStaticActorHPPercent :: "u8 \<Rightarrow> u8 \<Rightarrow> u8" where
  "bootstrapStaticActorHPPercent currentHP maxHP =
     (if maxHP = 0 then 0
      else
        let currentHP = (if maxHP < currentHP then maxHP else currentHP);
            percent = (int (unat currentHP) * 100) div int (unat maxHP);
            percent = (if 0 < currentHP \<and> percent = 0 then 1 else percent);
            percent = (if 100 < percent then 100 else percent) in
        word_of_int percent)"

definition cloneStaticActorCombatProfileDefaults :: "profile_defaults \<Rightarrow> profile_defaults" where
  "cloneStaticActorCombatProfileDefaults d0 =
     (let d1 = (if AttackValue d0 = 0 \<and> DamagePerNormalAttack d0 \<noteq> 0
                then d0\<lparr>AttackValue := ucast (DamagePerNormalAttack d0) + DefenseValue d0\<rparr> else d0);
          d2 = (if DamagePerNormalAttack d1 = 0 \<and> 0 < MaxHP d1
                then d1\<lparr>DamagePerNormalAttack := bootstrapStaticActorNormalAttackDamage d1\<rparr> else d1);
          d3 = (if Level d2 = 0 then d2\<lparr>Level := TrainingDummyBootstrapLevel\<rparr> else d2);
          d4 = (if RetaliationPointDelta d3 = 0
                then d3\<lparr>RetaliationPointDelta := PracticeMobBootstrapRetaliationPointDelta\<rparr> else d3) in
      d4\<lparr>DeathReward := DeathReward_Clone (DeathReward d4)\<rparr>)"

section \<open>The registry\<close>

definition RegisterStaticActorCombatProfile ::
    "profile_registry \<Rightarrow> string \<Rightarrow> profile_defaults \<Rightarrow> profile_registry \<times> bool" where
  "RegisterStaticActorCombatProfile reg profile d0 =
     (if \<not> validStaticActorCombatProfileName profile then (reg, False)
      else if \<not> ValidStaticActorDeathReward (DeathReward d0) then (reg, False)
      else if 0 < sint (RetaliationPointDelta d0) then (reg, False)
      else if \<not> ValidStaticActorCombatProfileAggroRadius (AggroRadius d0) (LeashRadius d0) then (reg, False)
      else if \<not> ValidStaticActorCombatProfileLeashRadius (LeashRadius d0) (AggroRadius d0) then (reg, False)
      else if \<not> ValidStaticActorCombatProfileChaseDelay (ChaseDelay d0) then (reg, False)
      else if \<not> ValidStaticActorCombatProfileReturnDelay (ReturnDelay d0) then (reg, False)
      else if \<not> ValidStaticActorCombatProfileHomewardDelay (HomewardDelay d0) then (reg, False)
      else if \<not> ValidStaticActorCombatProfileMaxStep (MaxStep d0) then (reg, False)
      else if \<not> ValidStaticActorCombatProfileReactionDelay (ReactionDelay d0) then (reg, False)
      else
        let hasLegacyDamage = DamagePerNormalAttack d0 \<noteq> 0; hasExplicitFormula = AttackValue d0 \<noteq> 0 in
        if hasLegacyDamage \<and> \<not> hasExplicitFormula \<and>
           (65535 :: u32) < ucast (DamagePerNormalAttack d0) + ucast (DefenseValue d0) then (reg, False)
        else
          let d = cloneStaticActorCombatProfileDefaults d0 in
          if hasLegacyDamage \<and> hasExplicitFormula \<and>
             DamagePerNormalAttack d \<noteq> bootstrapStaticActorNormalAttackDamage d then (reg, False)
          else if DefenseValue d < AttackValue d \<and> ucast (MaxHP d) < AttackValue d - DefenseValue d then (reg, False)
          else if profile = TrainingDummy \<or> profile = PracticeMob \<or> MaxHP d = 0 \<or>
                  (\<not> hasLegacyDamage \<and> \<not> hasExplicitFormula) \<or> AttackValue d = 0 \<or>
                  DamagePerNormalAttack d = 0 \<or> MaxHP d < DamagePerNormalAttack d \<or> sint (RespawnDelay d) \<le> 0
          then (reg, False)
          else if reg profile \<noteq> None then (reg, False)
          else (reg(profile \<mapsto> d), True))"

definition UnregisterStaticActorCombatProfile :: "profile_registry \<Rightarrow> string \<Rightarrow> profile_registry" where
  "UnregisterStaticActorCombatProfile reg profile = reg(trim_space profile := None)"

text \<open>The two built-in profiles have the same numbers.\<close>

definition builtin_defaults :: profile_defaults where
  "builtin_defaults = zero_defaults\<lparr>MaxHP := 10, DamagePerNormalAttack := 1, AttackValue := 1, DefenseValue := 0,
     Level := 1, Rank := 0, RespawnDelay := word_of_int (2 * Second),
     RetaliationPointDelta := PracticeMobBootstrapRetaliationPointDelta\<rparr>"

definition BootstrapStaticActorCombatProfileDefaults :: "profile_registry \<Rightarrow> string \<Rightarrow> profile_defaults option" where
  "BootstrapStaticActorCombatProfileDefaults reg combatKind =
     (if combatKind = TrainingDummy then Some builtin_defaults
      else if combatKind = PracticeMob then Some builtin_defaults
      else case reg combatKind of
        None \<Rightarrow> None
      | Some d \<Rightarrow> Some (cloneStaticActorCombatProfileDefaults d))"

definition ValidStaticActorCombatProfile :: "profile_registry \<Rightarrow> string \<Rightarrow> bool" where
  "ValidStaticActorCombatProfile reg profile =
     (if profile \<in> {'''', TrainingDummy, PracticeMob} then True
      else BootstrapStaticActorCombatProfileDefaults reg profile \<noteq> None)"

definition ValidStaticActorCombatKind :: "profile_registry \<Rightarrow> string \<Rightarrow> bool" where
  "ValidStaticActorCombatKind reg kind = ValidStaticActorCombatProfile reg kind"

definition BootstrapStaticActorCurrentHP :: "profile_registry \<Rightarrow> string \<Rightarrow> u8 option" where
  "BootstrapStaticActorCurrentHP reg kind = map_option MaxHP (BootstrapStaticActorCombatProfileDefaults reg kind)"

definition BootstrapStaticActorRespawnDelay :: "profile_registry \<Rightarrow> string \<Rightarrow> duration option" where
  "BootstrapStaticActorRespawnDelay reg kind = map_option RespawnDelay (BootstrapStaticActorCombatProfileDefaults reg kind)"

definition BootstrapStaticActorDeathReward :: "profile_registry \<Rightarrow> string \<Rightarrow> death_reward option" where
  "BootstrapStaticActorDeathReward reg kind =
     map_option (\<lambda>d. DeathReward_Clone (DeathReward d)) (BootstrapStaticActorCombatProfileDefaults reg kind)"

definition BootstrapStaticActorRetaliationPointDelta :: "profile_registry \<Rightarrow> string \<Rightarrow> i32 option" where
  "BootstrapStaticActorRetaliationPointDelta reg kind =
     map_option bootstrapStaticActorRetaliationPointDelta (BootstrapStaticActorCombatProfileDefaults reg kind)"

definition BootstrapStaticActorHPPercent :: "profile_registry \<Rightarrow> string \<Rightarrow> u8 \<Rightarrow> u8 option" where
  "BootstrapStaticActorHPPercent reg kind currentHP =
     map_option (\<lambda>d. bootstrapStaticActorHPPercent currentHP (MaxHP d)) (BootstrapStaticActorCombatProfileDefaults reg kind)"

definition BootstrapStaticActorNormalAttackDamage :: "profile_registry \<Rightarrow> string \<Rightarrow> u8 option" where
  "BootstrapStaticActorNormalAttackDamage reg kind =
     map_option bootstrapStaticActorNormalAttackDamage (BootstrapStaticActorCombatProfileDefaults reg kind)"

definition ApplyBootstrapStaticActorNormalAttack :: "profile_registry \<Rightarrow> string \<Rightarrow> u8 \<Rightarrow> (u8 \<times> u8) option" where
  "ApplyBootstrapStaticActorNormalAttack reg kind currentHP =
     (case BootstrapStaticActorCombatProfileDefaults reg kind of
        None \<Rightarrow> None
      | Some d \<Rightarrow>
          if currentHP = 0 then None
          else
            let currentHP = (if MaxHP d < currentHP then MaxHP d else currentHP);
                damage = bootstrapStaticActorNormalAttackDamage d;
                nextHP = (if currentHP \<le> damage then 0 else currentHP - damage) in
            Some (nextHP, bootstrapStaticActorHPPercent nextHP (MaxHP d)))"

text \<open>Effective values by profile name, which is trimmed first.\<close>

definition effective :: "profile_registry \<Rightarrow> 'a \<Rightarrow> (profile_defaults \<Rightarrow> 'a) \<Rightarrow> string \<Rightarrow> 'a" where
  "effective reg omitted f profile =
     (case BootstrapStaticActorCombatProfileDefaults reg (trim_space profile) of None \<Rightarrow> omitted | Some d \<Rightarrow> f d)"

definition EffectiveStaticActorSpawnAggroRadius :: "profile_registry \<Rightarrow> string \<Rightarrow> i32" where
  "EffectiveStaticActorSpawnAggroRadius reg =
     effective reg DefaultSpawnAggroRadius EffectiveStaticActorSpawnAggroRadiusFromDefaults"

definition EffectiveStaticActorSpawnLeashRadius :: "profile_registry \<Rightarrow> string \<Rightarrow> i32" where
  "EffectiveStaticActorSpawnLeashRadius reg =
     effective reg DefaultSpawnLeashRadius EffectiveStaticActorSpawnLeashRadiusFromDefaults"

definition EffectiveStaticActorSpawnMaxStepFromDefaults :: "profile_defaults \<Rightarrow> i32" where
  "EffectiveStaticActorSpawnMaxStepFromDefaults d =
     (if sint (MaxStep d) \<le> 0 then DefaultSpawnMaxStep else MaxStep d)"

definition EffectiveStaticActorSpawnMaxStep :: "profile_registry \<Rightarrow> string \<Rightarrow> i32" where
  "EffectiveStaticActorSpawnMaxStep reg =
     effective reg DefaultSpawnMaxStep EffectiveStaticActorSpawnMaxStepFromDefaults"

definition EffectiveStaticActorSpawnChaseDelayFromDefaults :: "profile_defaults \<Rightarrow> duration" where
  "EffectiveStaticActorSpawnChaseDelayFromDefaults d =
     (if sint (ChaseDelay d) \<le> 0 then DefaultSpawnChaseDelay else ChaseDelay d)"

definition EffectiveStaticActorSpawnReturnDelayFromDefaults :: "profile_defaults \<Rightarrow> duration" where
  "EffectiveStaticActorSpawnReturnDelayFromDefaults d =
     (if sint (ReturnDelay d) \<le> 0 then DefaultSpawnReturnDelay else ReturnDelay d)"

definition EffectiveStaticActorSpawnHomewardDelayFromDefaults :: "profile_defaults \<Rightarrow> duration" where
  "EffectiveStaticActorSpawnHomewardDelayFromDefaults d =
     (if sint (HomewardDelay d) \<le> 0 then DefaultSpawnHomewardDelay else HomewardDelay d)"

definition EffectiveStaticActorSpawnReactionDelayFromDefaults :: "profile_defaults \<Rightarrow> duration" where
  "EffectiveStaticActorSpawnReactionDelayFromDefaults d =
     (if sint (ReactionDelay d) \<le> 0 then DefaultSpawnReactionDelay else ReactionDelay d)"

definition EffectiveStaticActorSpawnChaseDelay :: "profile_registry \<Rightarrow> string \<Rightarrow> duration" where
  "EffectiveStaticActorSpawnChaseDelay reg =
     effective reg DefaultSpawnChaseDelay EffectiveStaticActorSpawnChaseDelayFromDefaults"

definition EffectiveStaticActorSpawnReturnDelay :: "profile_registry \<Rightarrow> string \<Rightarrow> duration" where
  "EffectiveStaticActorSpawnReturnDelay reg =
     effective reg DefaultSpawnReturnDelay EffectiveStaticActorSpawnReturnDelayFromDefaults"

definition EffectiveStaticActorSpawnHomewardDelay :: "profile_registry \<Rightarrow> string \<Rightarrow> duration" where
  "EffectiveStaticActorSpawnHomewardDelay reg =
     effective reg DefaultSpawnHomewardDelay EffectiveStaticActorSpawnHomewardDelayFromDefaults"

definition EffectiveStaticActorSpawnReactionDelay :: "profile_registry \<Rightarrow> string \<Rightarrow> duration" where
  "EffectiveStaticActorSpawnReactionDelay reg =
     effective reg DefaultSpawnReactionDelay EffectiveStaticActorSpawnReactionDelayFromDefaults"

definition staticActorCombatProfile :: "string \<Rightarrow> string \<Rightarrow> string" where
  "staticActorCombatProfile profile kind = (if profile \<noteq> [] then profile else kind)"

section \<open>Portable snapshots\<close>

record profile_snapshot =
  snap_Profile :: string
  snap_MaxHP :: u8
  snap_DamagePerNormalAttack :: u8
  snap_AttackValue :: u16
  snap_DefenseValue :: u16
  snap_Level :: u16
  snap_Rank :: u8
  snap_RespawnDelayMs :: i64
  snap_AggroRadius :: i32
  snap_LeashRadius :: i32
  snap_ChaseDelayMs :: i64
  snap_ReturnDelayMs :: i64
  snap_HomewardDelayMs :: i64
  snap_MaxStep :: i32
  snap_ReactionDelayMs :: i64
  snap_RetaliationPointDelta :: i32
  snap_DeathReward :: death_reward

text \<open>\<open>Duration.Milliseconds\<close> truncates towards zero, and its inverse multiplies.\<close>

definition Milliseconds :: "duration \<Rightarrow> i64" where "Milliseconds d = word_of_int (sint d sdiv 1000000)"
definition from_ms :: "i64 \<Rightarrow> duration" where "from_ms ms = ms * 1000000"

definition staticActorCombatProfileSnapshot :: "string \<Rightarrow> profile_defaults \<Rightarrow> profile_snapshot" where
  "staticActorCombatProfileSnapshot profile d0 =
     (let d = cloneStaticActorCombatProfileDefaults d0 in
      \<lparr>snap_Profile = profile, snap_MaxHP = MaxHP d, snap_DamagePerNormalAttack = DamagePerNormalAttack d,
       snap_AttackValue = AttackValue d, snap_DefenseValue = DefenseValue d, snap_Level = Level d,
       snap_Rank = Rank d, snap_RespawnDelayMs = Milliseconds (RespawnDelay d),
       snap_AggroRadius = AggroRadius d, snap_LeashRadius = LeashRadius d,
       snap_ChaseDelayMs = Milliseconds (ChaseDelay d), snap_ReturnDelayMs = Milliseconds (ReturnDelay d),
       snap_HomewardDelayMs = Milliseconds (HomewardDelay d), snap_MaxStep = MaxStep d,
       snap_ReactionDelayMs = Milliseconds (ReactionDelay d),
       snap_RetaliationPointDelta =
         (if RetaliationPointDelta d \<noteq> PracticeMobBootstrapRetaliationPointDelta then RetaliationPointDelta d else 0),
       snap_DeathReward = DeathReward_Clone (DeathReward d)\<rparr>)"

definition StaticActorCombatProfileDefaultsFromSnapshot :: "profile_snapshot \<Rightarrow> profile_defaults" where
  "StaticActorCombatProfileDefaultsFromSnapshot s =
     \<lparr>MaxHP = snap_MaxHP s, DamagePerNormalAttack = snap_DamagePerNormalAttack s, AttackValue = snap_AttackValue s,
      DefenseValue = snap_DefenseValue s, Level = snap_Level s, Rank = snap_Rank s,
      RespawnDelay = from_ms (snap_RespawnDelayMs s), AggroRadius = snap_AggroRadius s,
      LeashRadius = snap_LeashRadius s, ChaseDelay = from_ms (snap_ChaseDelayMs s),
      ReturnDelay = from_ms (snap_ReturnDelayMs s), HomewardDelay = from_ms (snap_HomewardDelayMs s),
      MaxStep = snap_MaxStep s, ReactionDelay = from_ms (snap_ReactionDelayMs s),
      RetaliationPointDelta = snap_RetaliationPointDelta s,
      DeathReward = DeathReward_Clone (snap_DeathReward s)\<rparr>"

text \<open>The map is walked in any order and the result sorted by name.\<close>

definition StaticActorCombatProfileSnapshots :: "profile_registry \<Rightarrow> profile_snapshot list" where
  "StaticActorCombatProfileSnapshots reg =
     sort_key snap_Profile
       ([staticActorCombatProfileSnapshot PracticeMob builtin_defaults,
         staticActorCombatProfileSnapshot TrainingDummy builtin_defaults] @
        map (\<lambda>profile. staticActorCombatProfileSnapshot profile
                (cloneStaticActorCombatProfileDefaults (the (reg profile)))) (sorted_list_of_set (dom reg)))"

section \<open>Rewards in order\<close>

lemma write_drops_spec:
  "sorted (written @ xs) \<Longrightarrow> distinct written \<Longrightarrow>
   sorted (write_drops written xs) \<and> distinct (write_drops written xs) \<and> set (write_drops written xs) = set written \<union> set xs"
proof (induction xs arbitrary: written)
  case (Cons x xs)
  have le: "\<forall>y \<in> set written. y \<le> x" using Cons.prems(1) by (simp add: sorted_append)
  show ?case
  proof (cases "written \<noteq> [] \<and> last written = x")
    case True
    have "x \<in> set written" using True last_in_set by blast
    moreover have "sorted (written @ xs)" using Cons.prems(1) by (simp add: sorted_append)
    ultimately show ?thesis using Cons.IH [of written] Cons.prems(2) True by auto
  next
    case False
    have new: "x \<notin> set written"
    proof
      assume x: "x \<in> set written"
      then have ne: "written \<noteq> []" by auto
      have "sorted (butlast written @ [last written])" using Cons.prems(1) ne by (simp add: sorted_append)
      then have "\<forall>y \<in> set written. y \<le> last written"
        using ne by (metis append_butlast_last_id in_set_butlastD sorted_append set_ConsD UnE set_append order_refl list.set_intros(1) empty_iff empty_set)
      then have "last written = x" using x le ne by (simp add: order_antisym)
      with False ne show False by simp
    qed
    have "sorted ((written @ [x]) @ xs)" using Cons.prems(1) by simp
    with Cons.IH [of "written @ [x]"] Cons.prems(2) new False show ?thesis by auto
  qed
qed simp

lemma write_drops_sort:
  "sorted (write_drops [] (sort xs))" "distinct (write_drops [] (sort xs))" "set (write_drops [] (sort xs)) = set xs"
  using write_drops_spec [of "[]" "sort xs"] by simp_all

lemma write_drops_id: "sorted xs \<Longrightarrow> distinct xs \<Longrightarrow> write_drops [] (sort xs) = xs"
  using write_drops_sort [of xs] by (metis sorted_distinct_set_unique)

definition drops_sorted :: "death_reward \<Rightarrow> bool" where
  "drops_sorted w \<longleftrightarrow> sorted (DropVnums w) \<and> distinct (DropVnums w)"

lemma DeathReward_Clone_drops:
  "drops_sorted (DeathReward_Clone w)" "set (DropVnums (DeathReward_Clone w)) = set (DropVnums w)"
  "Experience (DeathReward_Clone w) = Experience w" "Gold (DeathReward_Clone w) = Gold w"
  using write_drops_sort [of "DropVnums w"] by (auto simp: DeathReward_Clone_def drops_sorted_def)

lemma DeathReward_Clone_id: "drops_sorted w \<Longrightarrow> DeathReward_Clone w = w"
  by (simp add: DeathReward_Clone_def drops_sorted_def write_drops_id)

lemma valid_drops_iff: "valid_drops seen xs \<longleftrightarrow> 0 \<notin> set xs \<and> distinct xs \<and> set xs \<inter> seen = {}"
  by (induction xs arbitrary: seen) auto

lemma ValidStaticActorDeathReward_iff:
  "ValidStaticActorDeathReward w \<longleftrightarrow> unat (Experience w) \<le> 2147483647 \<and> unat (Gold w) \<le> 2147483647 \<and>
     0 \<notin> set (DropVnums w) \<and> distinct (DropVnums w)"
  by (simp add: ValidStaticActorDeathReward_def valid_drops_iff not_less word_le_nat_alt word_less_nat_alt)

section \<open>Well-formed profiles\<close>

definition delays_ok :: "profile_defaults \<Rightarrow> bool" where
  "delays_ok d \<longleftrightarrow> ValidStaticActorCombatProfileChaseDelay (ChaseDelay d) \<and>
     ValidStaticActorCombatProfileReturnDelay (ReturnDelay d) \<and>
     ValidStaticActorCombatProfileHomewardDelay (HomewardDelay d) \<and>
     ValidStaticActorCombatProfileMaxStep (MaxStep d) \<and> ValidStaticActorCombatProfileReactionDelay (ReactionDelay d)"

definition radii_valid :: "profile_defaults \<Rightarrow> bool" where
  "radii_valid d \<longleftrightarrow> ValidStaticActorCombatProfileAggroRadius (AggroRadius d) (LeashRadius d) \<and>
     ValidStaticActorCombatProfileLeashRadius (LeashRadius d) (AggroRadius d)"

definition profile_ok :: "profile_defaults \<Rightarrow> bool" where
  "profile_ok d \<longleftrightarrow> MaxHP d \<noteq> 0 \<and> DamagePerNormalAttack d \<noteq> 0 \<and> DamagePerNormalAttack d \<le> MaxHP d \<and>
     DamagePerNormalAttack d = bootstrapStaticActorNormalAttackDamage d \<and>
     \<not> (DefenseValue d < AttackValue d \<and> ucast (MaxHP d) < AttackValue d - DefenseValue d) \<and>
     AttackValue d \<noteq> 0 \<and> Level d \<noteq> 0 \<and>
     0 < sint (RespawnDelay d) \<and> sint (RetaliationPointDelta d) < 0 \<and> radii_valid d \<and> delays_ok d \<and>
     ValidStaticActorDeathReward (DeathReward d) \<and> drops_sorted (DeathReward d)"

lemma clone_profile_ok: "profile_ok d \<Longrightarrow> cloneStaticActorCombatProfileDefaults d = d"
proof -
  assume ok: "profile_ok d"
  then have "RetaliationPointDelta d \<noteq> 0" by (auto simp: profile_ok_def)
  with ok show ?thesis
    by (simp add: cloneStaticActorCombatProfileDefaults_def profile_ok_def DeathReward_Clone_id Let_def)
qed

lemmas valid_setting_defs = ValidStaticActorCombatProfileAggroRadius_def ValidStaticActorCombatProfileLeashRadius_def
  ValidStaticActorCombatProfileChaseDelay_def ValidStaticActorCombatProfileReturnDelay_def
  ValidStaticActorCombatProfileHomewardDelay_def ValidStaticActorCombatProfileMaxStep_def
  ValidStaticActorCombatProfileReactionDelay_def

lemma builtin_ok: "profile_ok builtin_defaults"
  by (simp add: profile_ok_def builtin_defaults_def zero_defaults_def bootstrapStaticActorNormalAttackDamage_def Let_def
      PracticeMobBootstrapRetaliationPointDelta_def Second_def EffectiveStaticActorSpawnAggroRadiusFromDefaults_def
      EffectiveStaticActorSpawnLeashRadiusFromDefaults_def DefaultSpawnAggroRadius_def DefaultSpawnLeashRadius_def
      ValidStaticActorDeathReward_iff drops_sorted_def radii_valid_def delays_ok_def valid_setting_defs)

lemma unat_ucast_u8_u16 [simp]: "unat (ucast (x :: u8) :: u16) = unat x"
  using unsigned_less [of x, where ?'a = nat] by (simp add: unsigned_ucast_eq take_bit_nat_eq_self_iff)

lemma unat_ucast_u8_u32 [simp]: "unat (ucast (x :: u8) :: u32) = unat x"
  using unsigned_less [of x, where ?'a = nat] by (simp add: unsigned_ucast_eq take_bit_nat_eq_self_iff)

lemma unat_ucast_u16_u8: "unat (x :: u16) \<le> unat (y :: u8) \<Longrightarrow> unat (ucast x :: u8) = unat x"
  using unsigned_less [of y, where ?'a = nat] by (simp add: unsigned_ucast_eq take_bit_nat_eq_self_iff)

lemma legacy_attack_nat:
  fixes x :: u8 and y :: u16
  assumes "\<not> (65535 :: u32) < ucast x + ucast y"
  shows "unat (ucast x + y :: u16) = unat x + unat y"
proof -
  have b: "unat x < 256" "unat y < 65536"
    using unsigned_less [of x, where ?'a = nat] unsigned_less [of y, where ?'a = nat] by simp_all
  have uy: "unat (ucast y :: u32) = unat y"
    using b by (simp add: unsigned_ucast_eq take_bit_nat_eq_self_iff)
  have "unat (ucast x + ucast y :: u32) = unat x + unat y"
    using b by (simp add: unat_word_ariths uy)
  then have "unat x + unat y \<le> 65535" using assms by (simp add: word_less_nat_alt)
  then show ?thesis by (simp add: unat_word_ariths)
qed

lemma damage_nat:
  "unat (bootstrapStaticActorNormalAttackDamage d) =
     (if unat (AttackValue d) \<le> unat (DefenseValue d) then 1
      else min (unat (AttackValue d) - unat (DefenseValue d)) (unat (MaxHP d)))"
proof (cases "AttackValue d \<le> DefenseValue d")
  case True
  then show ?thesis by (simp add: bootstrapStaticActorNormalAttackDamage_def word_le_nat_alt)
next
  case False
  let ?dmg = "AttackValue d - DefenseValue d"
  have le: "DefenseValue d \<le> AttackValue d" using False by simp
  have u: "unat ?dmg = unat (AttackValue d) - unat (DefenseValue d)" by (rule unat_sub_le [OF le])
  have ne: "?dmg \<noteq> 0" using False by simp
  have c: "ucast (MaxHP d) < ?dmg \<longleftrightarrow> unat (MaxHP d) < unat ?dmg" by (simp add: word_less_nat_alt)
  have n: "\<not> unat (AttackValue d) \<le> unat (DefenseValue d)" using False by (simp add: word_le_nat_alt)
  show ?thesis
  proof (cases "unat (MaxHP d) < unat ?dmg")
    case True
    then show ?thesis using False ne c u n by (simp add: bootstrapStaticActorNormalAttackDamage_def)
  next
    case small: False
    then have "unat (ucast ?dmg :: u8) = unat ?dmg" by (intro unat_ucast_u16_u8 [of _ "MaxHP d"]) simp
    with small show ?thesis using False ne c u n by (simp add: bootstrapStaticActorNormalAttackDamage_def)
  qed
qed

lemma damage_bounds:
  assumes "MaxHP d \<noteq> 0"
  shows "bootstrapStaticActorNormalAttackDamage d \<noteq> 0" and "bootstrapStaticActorNormalAttackDamage d \<le> MaxHP d"
proof -
  have m: "1 \<le> unat (MaxHP d)" using assms by (simp add: Suc_le_eq unat_gt_0)
  have "1 \<le> unat (bootstrapStaticActorNormalAttackDamage d)" using m unfolding damage_nat by (simp split: if_split) linarith
  then show "bootstrapStaticActorNormalAttackDamage d \<noteq> 0" by auto
  show "bootstrapStaticActorNormalAttackDamage d \<le> MaxHP d" using m by (simp add: word_le_nat_alt damage_nat)
qed

lemma clone_fields [simp]:
  "MaxHP (cloneStaticActorCombatProfileDefaults d) = MaxHP d"
  "DefenseValue (cloneStaticActorCombatProfileDefaults d) = DefenseValue d"
  "RespawnDelay (cloneStaticActorCombatProfileDefaults d) = RespawnDelay d"
  "AggroRadius (cloneStaticActorCombatProfileDefaults d) = AggroRadius d"
  "LeashRadius (cloneStaticActorCombatProfileDefaults d) = LeashRadius d"
  "ChaseDelay (cloneStaticActorCombatProfileDefaults d) = ChaseDelay d"
  "ReturnDelay (cloneStaticActorCombatProfileDefaults d) = ReturnDelay d"
  "HomewardDelay (cloneStaticActorCombatProfileDefaults d) = HomewardDelay d"
  "MaxStep (cloneStaticActorCombatProfileDefaults d) = MaxStep d"
  "ReactionDelay (cloneStaticActorCombatProfileDefaults d) = ReactionDelay d"
  "DeathReward (cloneStaticActorCombatProfileDefaults d) = DeathReward_Clone (DeathReward d)"
  "Level (cloneStaticActorCombatProfileDefaults d) = (if Level d = 0 then 1 else Level d)"
  "RetaliationPointDelta (cloneStaticActorCombatProfileDefaults d) =
     (if RetaliationPointDelta d = 0 then -1 else RetaliationPointDelta d)"
  "AttackValue (cloneStaticActorCombatProfileDefaults d) =
     (if AttackValue d = 0 \<and> DamagePerNormalAttack d \<noteq> 0 then ucast (DamagePerNormalAttack d) + DefenseValue d else AttackValue d)"
  by (auto simp: cloneStaticActorCombatProfileDefaults_def Let_def TrainingDummyBootstrapLevel_def
      PracticeMobBootstrapRetaliationPointDelta_def)

lemma damage_cong:
  "AttackValue d = AttackValue e \<Longrightarrow> DefenseValue d = DefenseValue e \<Longrightarrow> MaxHP d = MaxHP e \<Longrightarrow>
   bootstrapStaticActorNormalAttackDamage d = bootstrapStaticActorNormalAttackDamage e"
  by (simp add: bootstrapStaticActorNormalAttackDamage_def Let_def)

lemma clone_damage:
  "DamagePerNormalAttack (cloneStaticActorCombatProfileDefaults d) =
     (if DamagePerNormalAttack d = 0 \<and> 0 < MaxHP d
      then bootstrapStaticActorNormalAttackDamage (cloneStaticActorCombatProfileDefaults d)
      else DamagePerNormalAttack d)"
proof (cases "DamagePerNormalAttack d = 0 \<and> 0 < MaxHP d")
  case True
  have "DamagePerNormalAttack (cloneStaticActorCombatProfileDefaults d) = bootstrapStaticActorNormalAttackDamage d"
    using True by (simp add: cloneStaticActorCombatProfileDefaults_def Let_def)
  also have "\<dots> = bootstrapStaticActorNormalAttackDamage (cloneStaticActorCombatProfileDefaults d)"
    using True by (intro damage_cong) simp_all
  finally show ?thesis using True by simp
next
  case False
  then show ?thesis by (auto simp: cloneStaticActorCombatProfileDefaults_def Let_def)
qed

lemma radii_ok:
  "radii_valid d \<Longrightarrow>
   sint (EffectiveStaticActorSpawnAggroRadiusFromDefaults d) \<le> sint (EffectiveStaticActorSpawnLeashRadiusFromDefaults d)"
  by (auto simp: radii_valid_def ValidStaticActorCombatProfileAggroRadius_def ValidStaticActorCombatProfileLeashRadius_def
      EffectiveStaticActorSpawnAggroRadiusFromDefaults_def EffectiveStaticActorSpawnLeashRadiusFromDefaults_def
      DefaultSpawnAggroRadius_def DefaultSpawnLeashRadius_def split: if_split_asm)

text \<open>What admission establishes.\<close>

lemma admitted_ok:
  assumes "RegisterStaticActorCombatProfile reg profile d0 = (reg', True)"
  defines "d \<equiv> cloneStaticActorCombatProfileDefaults d0"
  shows "reg' = reg(profile \<mapsto> d)" and "reg profile = None" and "validStaticActorCombatProfileName profile"
    and "profile \<noteq> TrainingDummy \<and> profile \<noteq> PracticeMob" and "profile_ok d"
proof -
  note unf = assms(1) [unfolded RegisterStaticActorCombatProfile_def Let_def, folded d_def]
  have g: "validStaticActorCombatProfileName profile" "ValidStaticActorDeathReward (DeathReward d0)"
    "\<not> 0 < sint (RetaliationPointDelta d0)" "radii_valid d0" "delays_ok d0"
    "\<not> (DamagePerNormalAttack d0 \<noteq> 0 \<and> \<not> AttackValue d0 \<noteq> 0 \<and>
        (65535 :: u32) < ucast (DamagePerNormalAttack d0) + ucast (DefenseValue d0))"
    "\<not> (DamagePerNormalAttack d0 \<noteq> 0 \<and> AttackValue d0 \<noteq> 0 \<and>
        DamagePerNormalAttack d \<noteq> bootstrapStaticActorNormalAttackDamage d)"
    "\<not> (DefenseValue d < AttackValue d \<and> ucast (MaxHP d) < AttackValue d - DefenseValue d)"
    "profile \<noteq> TrainingDummy \<and> profile \<noteq> PracticeMob" "MaxHP d \<noteq> 0" "AttackValue d \<noteq> 0"
    "DamagePerNormalAttack d \<noteq> 0" "DamagePerNormalAttack d \<le> MaxHP d" "0 < sint (RespawnDelay d)"
    "reg profile = None" "reg' = reg(profile \<mapsto> d)"
    using unf by (simp_all add: radii_valid_def delays_ok_def split: if_split_asm)
  show "reg' = reg(profile \<mapsto> d)" "reg profile = None" "validStaticActorCombatProfileName profile"
    "profile \<noteq> TrainingDummy \<and> profile \<noteq> PracticeMob" by (rule g)+
  have hp: "0 < MaxHP d0" using g(10) by (simp add: d_def word_neq_0_conv)
  have dmg: "DamagePerNormalAttack d = bootstrapStaticActorNormalAttackDamage d"
  proof (cases "DamagePerNormalAttack d0 = 0")
    case True
    then show ?thesis using hp by (simp add: d_def clone_damage)
  next
    case legacy: False
    then have same: "DamagePerNormalAttack d = DamagePerNormalAttack d0" by (simp add: d_def clone_damage)
    show ?thesis
    proof (cases "AttackValue d0 = 0")
      case True
      with legacy g(6) have "\<not> (65535 :: u32) < ucast (DamagePerNormalAttack d0) + ucast (DefenseValue d0)" by blast
      then have "unat (AttackValue d) = unat (DamagePerNormalAttack d0) + unat (DefenseValue d0)"
        using legacy_attack_nat True legacy by (simp add: d_def)
      moreover have "unat (DamagePerNormalAttack d0) \<le> unat (MaxHP d)" using g(13) same by (simp add: word_le_nat_alt)
      moreover have "0 < unat (DamagePerNormalAttack d0)" using legacy by (simp add: unat_gt_0)
      ultimately have "unat (bootstrapStaticActorNormalAttackDamage d) = unat (DamagePerNormalAttack d0)"
        by (simp add: damage_nat d_def)
      then show ?thesis using same by (simp add: word_unat_eq_iff)
    next
      case False
      with legacy g(7) show ?thesis by blast
    qed
  qed
  have r: "sint (RetaliationPointDelta d) < 0"
  proof (cases "RetaliationPointDelta d0 = 0")
    case True then show ?thesis by (simp add: d_def)
  next
    case False
    then have "sint (RetaliationPointDelta d0) \<noteq> 0" by (simp add: signed_eq_0_iff)
    with g(3) False show ?thesis by (simp add: d_def)
  qed
  have l: "Level d \<noteq> 0" by (simp add: d_def)
  have a: "radii_valid d" "delays_ok d" using g(4,5) by (simp_all add: d_def radii_valid_def delays_ok_def)
  have w: "ValidStaticActorDeathReward (DeathReward d)" "drops_sorted (DeathReward d)"
    using g(2) DeathReward_Clone_drops [of "DeathReward d0"]
    by (auto simp: d_def ValidStaticActorDeathReward_iff drops_sorted_def)
  show "profile_ok d" unfolding profile_ok_def by (intro conjI g(8) g(10-14) dmg r l a w)
qed

section \<open>The registry as a machine\<close>

definition registry_ok :: "profile_registry \<Rightarrow> bool" where
  "registry_ok reg \<longleftrightarrow> (\<forall>profile d. reg profile = Some d \<longrightarrow>
     validStaticActorCombatProfileName profile \<and> profile \<notin> {TrainingDummy, PracticeMob} \<and> profile_ok d)"

lemma registry_ok_D: "registry_ok reg \<Longrightarrow> reg profile = Some d \<Longrightarrow>
  validStaticActorCombatProfileName profile \<and> profile \<notin> {TrainingDummy, PracticeMob} \<and> profile_ok d"
  unfolding registry_ok_def by blast

lemma lookup_ok:
  "registry_ok reg \<Longrightarrow> BootstrapStaticActorCombatProfileDefaults reg profile = Some d \<Longrightarrow> profile_ok d"
  by (auto simp: BootstrapStaticActorCombatProfileDefaults_def builtin_ok clone_profile_ok
      dest!: registry_ok_D split: if_split_asm option.split_asm)

lemma lookup_registered:
  "registry_ok reg \<Longrightarrow> reg profile = Some d \<Longrightarrow> BootstrapStaticActorCombatProfileDefaults reg profile = Some d"
  by (frule (1) registry_ok_D) (simp add: BootstrapStaticActorCombatProfileDefaults_def clone_profile_ok)

lemma Register_refused: "RegisterStaticActorCombatProfile reg profile d = (reg', False) \<Longrightarrow> reg' = reg"
  unfolding RegisterStaticActorCombatProfile_def Let_def by (simp split: if_split_asm)

lemma Register_refused':
  "\<not> snd (RegisterStaticActorCombatProfile reg profile d) \<Longrightarrow> fst (RegisterStaticActorCombatProfile reg profile d) = reg"
  by (cases "RegisterStaticActorCombatProfile reg profile d") (simp add: Register_refused)

lemma Register_registry_ok:
  "registry_ok reg \<Longrightarrow> registry_ok (fst (RegisterStaticActorCombatProfile reg profile d))"
proof -
  assume ok: "registry_ok reg"
  obtain reg' b where r: "RegisterStaticActorCombatProfile reg profile d = (reg', b)" by force
  show ?thesis
  proof (cases b)
    case True
    with r have "RegisterStaticActorCombatProfile reg profile d = (reg', True)" by simp
    note new = admitted_ok [OF this]
    show ?thesis unfolding r fst_conv registry_ok_def
      using new ok by (auto simp: registry_ok_def)
  next
    case False
    with r have "reg' = reg" by (intro Register_refused) simp
    with r ok show ?thesis by simp
  qed
qed

lemma Unregister_registry_ok: "registry_ok reg \<Longrightarrow> registry_ok (UnregisterStaticActorCombatProfile reg profile)"
  by (auto simp: registry_ok_def UnregisterStaticActorCombatProfile_def)

datatype profile_command = AddProfile string profile_defaults | DropProfile string

fun exec_profile :: "profile_registry \<Rightarrow> profile_command \<Rightarrow> profile_registry \<times> bool" where
  "exec_profile reg (AddProfile profile d) = RegisterStaticActorCombatProfile reg profile d"
| "exec_profile reg (DropProfile profile) = (UnregisterStaticActorCombatProfile reg profile, True)"

interpretation profiles: guarded_machine exec_profile registry_ok "\<lambda>_. True"
proof
  show "registry_ok (fst (exec_profile reg c))" if "registry_ok reg" for reg c
    using that by (cases c) (simp_all add: Register_registry_ok Unregister_registry_ok)
  show "fst (exec_profile reg c) = reg" if "\<not> snd (exec_profile reg c)" for reg c
    using that by (cases c) (simp_all add: Register_refused')
qed

lemma registry_run_ok: "registry_ok (run exec_profile Map.empty cs)"
  by (rule profiles.run_invariant) (simp_all add: registry_ok_def)

section \<open>Attacks until death\<close>

fun swings :: "profile_registry \<Rightarrow> string \<Rightarrow> nat \<Rightarrow> u8 \<Rightarrow> u8" where
  "swings reg kind 0 hp = hp"
| "swings reg kind (Suc n) hp =
     (case ApplyBootstrapStaticActorNormalAttack reg kind hp of
        None \<Rightarrow> hp
      | Some (nextHP, _) \<Rightarrow> swings reg kind n nextHP)"

lemma hp_percent_nat:
  assumes "m \<noteq> 0" and "h \<le> m"
  shows "unat (bootstrapStaticActorHPPercent h m) =
    (if h = 0 then 0 else max 1 (unat h * 100 div unat m))"
proof -
  have m: "0 < unat m" using assms(1) by (simp add: unat_gt_0)
  have le: "unat h \<le> unat m" using assms(2) by (simp add: word_le_nat_alt)
  have le100: "unat h * 100 div unat m \<le> 100"
  proof -
    have "unat h * 100 div unat m \<le> unat m * 100 div unat m" by (intro div_le_mono mult_le_mono1 le)
    also have "\<dots> = 100" using m by simp
    finally show ?thesis .
  qed
  have i: "int (unat h) * 100 div int (unat m) = int (unat h * 100 div unat m)" by (simp add: zdiv_int)
  have h: "0 < h \<longleftrightarrow> h \<noteq> 0" by (simp add: word_neq_0_conv)
  let ?p = "unat h * 100 div unat m"
  have u: "unat (word_of_int (int k) :: u8) = k" if "k \<le> 100" for k
    using that by (simp add: unat_of_nat)
  have pos: "h \<noteq> 0 \<Longrightarrow> ?p = 0 \<Longrightarrow> unat (bootstrapStaticActorHPPercent h m) = 1"
    using assms i h by (simp add: bootstrapStaticActorHPPercent_def Let_def not_less)
  have big: "h \<noteq> 0 \<Longrightarrow> ?p \<noteq> 0 \<Longrightarrow> unat (bootstrapStaticActorHPPercent h m) = ?p"
    using assms i h le100 u [OF le100] by (simp add: bootstrapStaticActorHPPercent_def Let_def not_less)
  show ?thesis using pos big assms(1) by (auto simp: bootstrapStaticActorHPPercent_def Let_def max_def)
qed

lemma attack_step:
  assumes "BootstrapStaticActorCombatProfileDefaults reg kind = Some d" and "profile_ok d" and "hp \<noteq> 0"
  shows "\<exists>nextHP. ApplyBootstrapStaticActorNormalAttack reg kind hp =
           Some (nextHP, bootstrapStaticActorHPPercent nextHP (MaxHP d)) \<and>
         unat nextHP = min (unat hp) (unat (MaxHP d)) - unat (DamagePerNormalAttack d)"
proof -
  let ?h = "if MaxHP d < hp then MaxHP d else hp" and ?dmg = "bootstrapStaticActorNormalAttackDamage d"
  have e: "?dmg = DamagePerNormalAttack d" using assms(2) by (simp add: profile_ok_def)
  have h: "unat ?h = min (unat hp) (unat (MaxHP d))" by (simp add: word_less_nat_alt min_def)
  have "unat (if ?h \<le> ?dmg then 0 else ?h - ?dmg) = unat ?h - unat ?dmg"
  proof (cases "?h \<le> ?dmg")
    case True
    then have "unat ?h \<le> unat ?dmg" by (simp only: word_le_nat_alt)
    with True show ?thesis by (simp del: if_split)
  next
    case False
    then have "?dmg \<le> ?h" by (rule less_imp_le [OF not_le_imp_less])
    with False show ?thesis by (simp only: if_False unat_sub_le)
  qed
  then have "unat (if ?h \<le> ?dmg then 0 else ?h - ?dmg) = min (unat hp) (unat (MaxHP d)) - unat (DamagePerNormalAttack d)"
    unfolding h e .
  moreover have "ApplyBootstrapStaticActorNormalAttack reg kind hp =
      Some (if ?h \<le> ?dmg then 0 else ?h - ?dmg, bootstrapStaticActorHPPercent (if ?h \<le> ?dmg then 0 else ?h - ?dmg) (MaxHP d))"
    unfolding ApplyBootstrapStaticActorNormalAttack_def assms(1) Let_def option.case using assms(3) by (simp only: if_False)
  ultimately show ?thesis by blast
qed

lemma attack_dead: "ApplyBootstrapStaticActorNormalAttack reg kind 0 = None"
  by (simp add: ApplyBootstrapStaticActorNormalAttack_def split: option.split)

lemma swings_exact:
  assumes l: "BootstrapStaticActorCombatProfileDefaults reg kind = Some d" and ok: "profile_ok d"
  shows "unat (swings reg kind (Suc n) hp) = min (unat hp) (unat (MaxHP d)) - Suc n * unat (DamagePerNormalAttack d)"
proof (induction n arbitrary: hp)
  case 0
  show ?case
  proof (cases "hp = 0")
    case False
    with attack_step [OF l ok False] show ?thesis by auto
  qed (simp add: attack_dead)
next
  case (Suc n)
  show ?case
  proof (cases "hp = 0")
    case True
    then show ?thesis by (simp add: attack_dead)
  next
    case False
    obtain next_hp where s: "ApplyBootstrapStaticActorNormalAttack reg kind hp =
        Some (next_hp, bootstrapStaticActorHPPercent next_hp (MaxHP d))"
      and n: "unat next_hp = min (unat hp) (unat (MaxHP d)) - unat (DamagePerNormalAttack d)"
      using attack_step [OF l ok False] by blast
    have "swings reg kind (Suc (Suc n)) hp = swings reg kind (Suc n) next_hp"
      by (subst swings.simps) (simp add: s del: swings.simps)
    then show ?thesis using Suc [of next_hp] n by simp
  qed
qed

lemma hp_percent_range:
  assumes "m \<noteq> 0" and "h \<le> m"
  shows "bootstrapStaticActorHPPercent h m = 0 \<longleftrightarrow> h = 0" and "bootstrapStaticActorHPPercent h m \<le> 100"
proof -
  note p = hp_percent_nat [OF assms]
  show "bootstrapStaticActorHPPercent h m = 0 \<longleftrightarrow> h = 0"
    using p unat_eq_0 [of "bootstrapStaticActorHPPercent h m"] by (simp split: if_split_asm)
  have "unat h * 100 div unat m \<le> unat m * 100 div unat m"
    using assms(2) by (intro div_le_mono mult_le_mono1) (simp add: word_le_nat_alt)
  also have "\<dots> = 100" using assms(1) by (simp add: unat_gt_0)
  finally show "bootstrapStaticActorHPPercent h m \<le> 100" using p by (simp add: word_le_nat_alt)
qed

section \<open>Export and import\<close>

lemma from_ms_Milliseconds:
  assumes "1000000 dvd sint w" shows "from_ms (Milliseconds w) = w"
proof -
  obtain k where k: "sint w = 1000000 * k" using assms by blast
  have "sint w sdiv 1000000 = k" unfolding k by (simp add: signed_divide_int_def abs_mult sgn_mult abs_sgn)
  then have "from_ms (Milliseconds w) = word_of_int (k * 1000000)"
    by (simp add: from_ms_def Milliseconds_def)
  also have "\<dots> = word_of_int (sint w)" unfolding k by (simp add: mult.commute)
  finally show ?thesis by simp
qed

definition exported_delta :: "i32 \<Rightarrow> i32" where "exported_delta x = (if x \<noteq> -1 then x else 0)"

lemma FromSnapshot_snapshot:
  assumes "profile_ok d"
    and "\<forall>delay \<in> {RespawnDelay d, ChaseDelay d, ReturnDelay d, HomewardDelay d, ReactionDelay d}. 1000000 dvd sint delay"
  shows "StaticActorCombatProfileDefaultsFromSnapshot (staticActorCombatProfileSnapshot profile d) =
         d\<lparr>RetaliationPointDelta := exported_delta (RetaliationPointDelta d)\<rparr>"
proof -
  have "drops_sorted (DeathReward d)" using assms(1) by (simp add: profile_ok_def)
  with assms show ?thesis
    by (cases d) (simp add: StaticActorCombatProfileDefaultsFromSnapshot_def staticActorCombatProfileSnapshot_def Let_def
        clone_profile_ok from_ms_Milliseconds DeathReward_Clone_id exported_delta_def
        PracticeMobBootstrapRetaliationPointDelta_def)
qed

lemma clone_exported:
  assumes "profile_ok d"
  shows "cloneStaticActorCombatProfileDefaults (d\<lparr>RetaliationPointDelta := exported_delta (RetaliationPointDelta d)\<rparr>) = d"
proof -
  have "drops_sorted (DeathReward d)" "RetaliationPointDelta d \<noteq> 0" using assms by (auto simp: profile_ok_def)
  with assms show ?thesis
    by (cases d) (auto simp: cloneStaticActorCombatProfileDefaults_def profile_ok_def DeathReward_Clone_id Let_def
        exported_delta_def PracticeMobBootstrapRetaliationPointDelta_def)
qed

lemma Register_import:
  assumes ok: "profile_ok d" and n: "validStaticActorCombatProfileName profile"
    and b: "profile \<noteq> TrainingDummy" "profile \<noteq> PracticeMob" and free: "reg profile = None"
  shows "RegisterStaticActorCombatProfile reg profile (d\<lparr>RetaliationPointDelta := exported_delta (RetaliationPointDelta d)\<rparr>) =
         (reg(profile \<mapsto> d), True)"
proof -
  have x: "\<not> 0 < sint (exported_delta (RetaliationPointDelta d))"
    using ok by (simp add: exported_delta_def profile_ok_def)
  have h: "MaxHP d \<noteq> 0" "DamagePerNormalAttack d \<noteq> 0" "\<not> MaxHP d < DamagePerNormalAttack d"
    "bootstrapStaticActorNormalAttackDamage d = DamagePerNormalAttack d" "AttackValue d \<noteq> 0" "\<not> sint (RespawnDelay d) \<le> 0"
    "\<not> (DefenseValue d < AttackValue d \<and> ucast (MaxHP d) < AttackValue d - DefenseValue d)"
    "ValidStaticActorDeathReward (DeathReward d)"
    using ok by (auto simp: profile_ok_def)
  have v: "radii_valid d" "delays_ok d" using ok by (simp_all add: profile_ok_def)
  show ?thesis
    using x h v n b free
    by (simp add: RegisterStaticActorCombatProfile_def clone_exported [OF ok] Let_def radii_valid_def delays_ok_def)
qed

section \<open>Properties\<close>

definition slime :: profile_defaults where
  "slime = zero_defaults\<lparr>MaxHP := 30, DamagePerNormalAttack := 7, DefenseValue := 5, RespawnDelay := word_of_int (3 * Second),
     DeathReward := \<lparr>Experience = 12, Gold = 40, DropVnums = [27001, 19]\<rparr>\<rparr>"

lemmas profile_eval = slime_def zero_defaults_def Second_def MaxSpawnDelay_def MinSpawnDelay_def Millisecond_def
  DefaultSpawnLeashRadius_def DefaultSpawnAggroRadius_def DefaultSpawnMaxStep_def MaxSpawnMaxStep_def
  EffectiveStaticActorSpawnAggroRadiusFromDefaults_def EffectiveStaticActorSpawnLeashRadiusFromDefaults_def
  valid_setting_defs ValidStaticActorDeathReward_iff TrainingDummyBootstrapLevel_def
  PracticeMobBootstrapRetaliationPointDelta_def

lemma slime_clone: "cloneStaticActorCombatProfileDefaults slime =
  slime\<lparr>AttackValue := 12, Level := 1, RetaliationPointDelta := -1,
        DeathReward := \<lparr>Experience = 12, Gold = 40, DropVnums = [19, 27001]\<rparr>\<rparr>"
  by (simp add: cloneStaticActorCombatProfileDefaults_def Let_def DeathReward_Clone_def profile_eval)

lemma slime_name: "validStaticActorCombatProfileName ''slime''" "''slime'' \<noteq> TrainingDummy" "''slime'' \<noteq> PracticeMob"
  by (simp_all add: validStaticActorCombatProfileName_def trim_space_plain plain_simps
      isLower_def name_char_def TrainingDummy_def PracticeMob_def)

lemma slime_registers: "RegisterStaticActorCombatProfile Map.empty ''slime'' slime =
  ([''slime'' \<mapsto> cloneStaticActorCombatProfileDefaults slime], True)"
  by (simp add: RegisterStaticActorCombatProfile_def slime_name slime_clone bootstrapStaticActorNormalAttackDamage_def Let_def)
    (simp add: profile_eval)

lemma slime_registry: "registry_ok [''slime'' \<mapsto> cloneStaticActorCombatProfileDefaults slime]"
  using Register_registry_ok [of Map.empty "''slime''" slime] by (simp add: slime_registers registry_ok_def)

lemma profile_ok_nonzero: "profile_ok d \<Longrightarrow> DamagePerNormalAttack d \<noteq> 0" "profile_ok d \<Longrightarrow> MaxHP d \<noteq> 0"
  unfolding profile_ok_def by blast+

lemma profile_promises:
  assumes "profile_ok d"
  shows "1 \<le> unat (bootstrapStaticActorNormalAttackDamage d) \<and>
      unat (bootstrapStaticActorNormalAttackDamage d) \<le> unat (MaxHP d) \<and>
      bootstrapStaticActorNormalAttackDamage d = DamagePerNormalAttack d \<and>
      0 < sint (RespawnDelay d) \<and> sint (bootstrapStaticActorRetaliationPointDelta d) < 0 \<and>
      sint (EffectiveStaticActorSpawnAggroRadiusFromDefaults d) \<le> sint (EffectiveStaticActorSpawnLeashRadiusFromDefaults d) \<and>
      unat (Experience (DeathReward d)) \<le> 2147483647 \<and> unat (Gold (DeathReward d)) \<le> 2147483647 \<and>
      sorted (DropVnums (DeathReward d)) \<and> distinct (DropVnums (DeathReward d)) \<and> 0 \<notin> set (DropVnums (DeathReward d))"
proof -
  have "MaxHP d \<noteq> 0" using assms by (simp add: profile_ok_def)
  from damage_bounds [OF this] show ?thesis
    using assms radii_ok [of d] by (simp add: profile_ok_def word_le_nat_alt Suc_le_eq unat_gt_0
        bootstrapStaticActorRetaliationPointDelta_def PracticeMobBootstrapRetaliationPointDelta_def
        ValidStaticActorDeathReward_iff drops_sorted_def)
qed

text \<open>Outcome of one registration.\<close>

lemma Register_outcome:
  "RegisterStaticActorCombatProfile reg profile d =
     (if snd (RegisterStaticActorCombatProfile reg profile d) then
        (reg(profile \<mapsto> cloneStaticActorCombatProfileDefaults d), True)
      else (reg, False))" (is ?outcome)
  "snd (RegisterStaticActorCombatProfile reg profile d) \<longrightarrow>
     BootstrapStaticActorCombatProfileDefaults reg profile = None" (is ?new)
proof -
  obtain reg' b where r: "RegisterStaticActorCombatProfile reg profile d = (reg', b)" by force
  show ?outcome using r admitted_ok(1) [of reg profile d reg'] Register_refused [of reg profile d reg'] by (cases b) simp_all
  show ?new using r admitted_ok [of reg profile d reg'] by (cases b) (simp_all add: BootstrapStaticActorCombatProfileDefaults_def)
qed

text \<open>
  C35: Whatever profiles are registered and unregistered, in whatever order and with whatever
  numbers, starting from the empty registry: every profile the server then looks up by name, a
  built-in one included, deals between 1 and its own \<open>MaxHP\<close> damage with exactly the
  attack formula, respawns after a positive delay, retaliates by a loss, has an aggro radius that
  does not exceed its leash radius, and a death reward with sorted, distinct, non-zero drops
  whose amounts fit a point change. A further registration either changes nothing or adds the
  completed profile under a name that had none before, not even a built-in one.
\<close>

theorem combat_profiles_sound:
  "(\<forall>kind d. BootstrapStaticActorCombatProfileDefaults (run exec_profile Map.empty cs) kind = Some d \<longrightarrow>
      1 \<le> unat (bootstrapStaticActorNormalAttackDamage d) \<and>
      unat (bootstrapStaticActorNormalAttackDamage d) \<le> unat (MaxHP d) \<and>
      bootstrapStaticActorNormalAttackDamage d = DamagePerNormalAttack d \<and>
      0 < sint (RespawnDelay d) \<and> sint (bootstrapStaticActorRetaliationPointDelta d) < 0 \<and>
      sint (EffectiveStaticActorSpawnAggroRadiusFromDefaults d) \<le> sint (EffectiveStaticActorSpawnLeashRadiusFromDefaults d) \<and>
      unat (Experience (DeathReward d)) \<le> 2147483647 \<and> unat (Gold (DeathReward d)) \<le> 2147483647 \<and>
      sorted (DropVnums (DeathReward d)) \<and> distinct (DropVnums (DeathReward d)) \<and> 0 \<notin> set (DropVnums (DeathReward d))) \<and>
   (let reg = run exec_profile Map.empty cs; outcome = RegisterStaticActorCombatProfile reg profile d' in
      outcome = (if snd outcome then (reg(profile \<mapsto> cloneStaticActorCombatProfileDefaults d'), True) else (reg, False)) \<and>
      (snd outcome \<longrightarrow> BootstrapStaticActorCombatProfileDefaults reg profile = None))"
proof (rule conjI)
  show "let reg = run exec_profile Map.empty cs; outcome = RegisterStaticActorCombatProfile reg profile d' in
      outcome = (if snd outcome then (reg(profile \<mapsto> cloneStaticActorCombatProfileDefaults d'), True) else (reg, False)) \<and>
      (snd outcome \<longrightarrow> BootstrapStaticActorCombatProfileDefaults reg profile = None)"
    unfolding Let_def by (intro conjI Register_outcome)
qed (intro allI impI profile_promises lookup_ok [OF registry_run_ok])

theorem combat_profiles_sound_witness:
  "let reg = run exec_profile Map.empty [AddProfile ''slime'' slime] in
   reg ''slime'' \<noteq> None \<and> 1 \<le> unat (bootstrapStaticActorNormalAttackDamage (the (reg ''slime'')))"
proof -
  let ?reg = "run exec_profile Map.empty [AddProfile ''slime'' slime]" and ?d = "cloneStaticActorCombatProfileDefaults slime"
  have reg: "?reg = [''slime'' \<mapsto> ?d]" by (simp add: slime_registers)
  have l: "BootstrapStaticActorCombatProfileDefaults ?reg ''slime'' = Some ?d"
    unfolding reg by (rule lookup_registered [OF slime_registry]) simp
  note p = combat_profiles_sound [THEN conjunct1, rule_format, OF l, THEN conjunct1]
  show ?thesis unfolding Let_def using p by (simp only: reg fun_upd_same option.sel) simp
qed

text \<open>
  C36: Normal attacks on a registered or built-in actor: every swing at a living actor takes
  exactly its formula damage from its hit points (capped at \<open>MaxHP\<close> first), the client is
  shown 0 percent exactly when it dies, a living actor is shown between 1 and 100 percent, a dead one
  cannot be hit, and \<open>n\<close> swings from full health kill exactly when they deal at least
  \<open>MaxHP\<close>, so \<open>MaxHP\<close> swings always do.
\<close>

theorem normal_attacks_kill:
  assumes ok: "registry_ok reg" and l: "BootstrapStaticActorCombatProfileDefaults reg kind = Some d"
  shows "ApplyBootstrapStaticActorNormalAttack reg kind 0 = None \<and>
    (hp \<noteq> 0 \<longrightarrow> (\<exists>next_hp pct. ApplyBootstrapStaticActorNormalAttack reg kind hp = Some (next_hp, pct) \<and>
       unat next_hp = min (unat hp) (unat (MaxHP d)) - unat (bootstrapStaticActorNormalAttackDamage d) \<and>
       next_hp < hp \<and> (pct = 0 \<longleftrightarrow> next_hp = 0) \<and> pct \<le> 100)) \<and>
    (swings reg kind (Suc n) (MaxHP d) = 0 \<longleftrightarrow> unat (MaxHP d) \<le> Suc n * unat (bootstrapStaticActorNormalAttackDamage d)) \<and>
    swings reg kind (unat (MaxHP d)) hp = 0" (is "?dead \<and> (_ \<longrightarrow> ?hit) \<and> ?count \<and> ?kill")
proof (intro conjI impI)
  have d: "profile_ok d" by (rule lookup_ok [OF ok l])
  have e: "bootstrapStaticActorNormalAttackDamage d = DamagePerNormalAttack d" using d by (simp add: profile_ok_def)
  have dmg: "1 \<le> unat (DamagePerNormalAttack d)" and max: "1 \<le> unat (MaxHP d)" "MaxHP d \<noteq> 0"
    using profile_ok_nonzero [OF d] by (simp_all add: Suc_le_eq unat_gt_0)
  have zero: "x = 0 \<longleftrightarrow> unat x = 0" for x :: u8 by (simp add: unat_eq_0)
  show ?dead by (rule attack_dead)
  show ?hit if hp: "hp \<noteq> 0"
  proof -
    obtain next_hp where s: "ApplyBootstrapStaticActorNormalAttack reg kind hp =
        Some (next_hp, bootstrapStaticActorHPPercent next_hp (MaxHP d))"
      and n: "unat next_hp = min (unat hp) (unat (MaxHP d)) - unat (DamagePerNormalAttack d)"
      using attack_step [OF l d hp] by blast
    have "next_hp \<le> MaxHP d" using n by (simp add: word_le_nat_alt)
    note pct = hp_percent_range [OF max(2) this]
    have "0 < unat hp" using hp by (simp add: unat_gt_0)
    then have "next_hp < hp" using n dmg by (simp add: word_less_nat_alt)
    with s n e pct show ?hit by simp
  qed
  show ?count unfolding zero swings_exact [OF l d] e by simp
  obtain m where m: "unat (MaxHP d) = Suc m" using max(1) by (cases "unat (MaxHP d)") simp_all
  have "unat (MaxHP d) \<le> unat (MaxHP d) * unat (DamagePerNormalAttack d)" using dmg by simp
  then have "min (unat hp) (unat (MaxHP d)) \<le> unat (MaxHP d) * unat (DamagePerNormalAttack d)" by linarith
  then show ?kill unfolding zero m swings_exact [OF l d] by (simp only: m diff_is_0_eq)
qed

theorem normal_attacks_kill_witness:
  "swings Map.empty ''training_dummy'' (unat (MaxHP builtin_defaults)) 200 = 0"
proof -
  have ok: "registry_ok Map.empty" by (simp add: registry_ok_def)
  have l: "BootstrapStaticActorCombatProfileDefaults Map.empty ''training_dummy'' = Some builtin_defaults"
    by (simp add: BootstrapStaticActorCombatProfileDefaults_def TrainingDummy_def)
  show ?thesis using normal_attacks_kill [OF ok l] by blast
qed

text \<open>
  A registered profile survives export and import: the snapshot of a profile of a sound
  registry whose delays are whole milliseconds, turned back into registration data, is
  accepted under its name by any registry that does not have it, and what is stored, derived
  fields and drop order included, is exactly what was exported.
\<close>

theorem profile_reload_exact:
  assumes ok: "registry_ok reg" and r: "reg profile = Some d" and free: "reg' profile = None"
    and ms: "\<forall>delay \<in> {RespawnDelay d, ChaseDelay d, ReturnDelay d, HomewardDelay d, ReactionDelay d}.
               1000000 dvd sint delay"
  shows "RegisterStaticActorCombatProfile reg' profile
           (StaticActorCombatProfileDefaultsFromSnapshot (staticActorCombatProfileSnapshot profile d)) =
         (reg'(profile \<mapsto> d), True)"
  unfolding FromSnapshot_snapshot [OF registry_ok_D [OF ok r, THEN conjunct2, THEN conjunct2] ms]
  by (rule Register_import) (use registry_ok_D [OF ok r] free in simp_all)

theorem profile_reload_exact_witness:
  "RegisterStaticActorCombatProfile Map.empty ''slime''
     (StaticActorCombatProfileDefaultsFromSnapshot
       (staticActorCombatProfileSnapshot ''slime'' (cloneStaticActorCombatProfileDefaults slime))) =
   ([''slime'' \<mapsto> cloneStaticActorCombatProfileDefaults slime], True)"
  by (rule profile_reload_exact [OF slime_registry])
    (simp_all add: slime_def zero_defaults_def Second_def)

end
