(* ===== verification/World_Entity.thy ===== *)
theory World_Entity
  imports World_Visibility World_Combat
begin

text \<open>
  Entities of the world (\<open>internal/worldruntime/entity.go\<close>): players and static actors, how an
  actor is normalised and checked (\<open>non_player_directory.go\<close>,
  \<open>internal/interactionstore\<close> for the interaction names), the visibility identity of an
  actor, and the constructors the registry uses (\<open>entity_registry.go\<close>). The combat profile
  registry, a process-wide variable of the program, is the argument \<open>reg\<close>.
\<close>

section \<open>Data\<close>

record entity =
  eID :: u64
  eKind :: string
  eVID :: u32
  eName :: string

definition EntityKindPlayer :: string where "EntityKindPlayer = ''player''"
definition EntityKindStaticActor :: string where "EntityKindStaticActor = ''static_actor''"

record player_entity =
  plEntity :: entity
  plCharacter :: character

record static_entity =
  aEntity :: entity
  aPosition :: position
  aSpawnHome :: position
  aRaceNum :: u32
  aCombatProfile :: string
  aInteractionKind :: string
  aInteractionRef :: string
  aSpawnGroupRef :: string
  aCombatKind :: string
  aDeathReward :: death_reward

definition PlayerEntity_Position :: "player_entity \<Rightarrow> position" where
  "PlayerEntity_Position p = PositionFromCharacter (plCharacter p)"

text \<open>Copies: of a character the slices are copied, which does not change the value.\<close>

definition cloneCharacterSnapshot :: "character \<Rightarrow> character" where
  "cloneCharacterSnapshot c =
     c\<lparr>cInventory := cInventory c, cEquipment := cEquipment c, cQuickslots := cQuickslots c\<rparr>"

definition clonePlayerEntity :: "player_entity \<Rightarrow> player_entity" where
  "clonePlayerEntity p = p\<lparr>plCharacter := cloneCharacterSnapshot (plCharacter p)\<rparr>"

definition cloneStaticEntity :: "static_entity \<Rightarrow> static_entity" where
  "cloneStaticEntity a = a\<lparr>aDeathReward := DeathReward_Clone (aDeathReward a)\<rparr>"

section \<open>Normal form of an actor\<close>

definition zero_position :: position where "zero_position = \<lparr>pMapIndex = 0, pX = 0, pY = 0\<rparr>"

definition normalizeStaticEntityCombat :: "static_entity \<Rightarrow> static_entity" where
  "normalizeStaticEntityCombat a =
     (let profile = staticActorCombatProfile (aCombatProfile a) (aCombatKind a);
          ref = trim_space (aSpawnGroupRef a);
          home = (if ref \<noteq> [] then (if \<not> Position_Valid (aSpawnHome a) then aPosition a else aSpawnHome a)
                  else zero_position) in
      a\<lparr>aEntity := (aEntity a)\<lparr>eName := trim_space (eName (aEntity a))\<rparr>,
        aCombatProfile := profile, aCombatKind := profile, aSpawnGroupRef := ref, aSpawnHome := home\<rparr>)"

definition ValidStaticActorVisibilityEntityID :: "u64 \<Rightarrow> bool" where
  "ValidStaticActorVisibilityEntityID entityID \<longleftrightarrow> entityID \<noteq> 0 \<and> entityID \<le> ucast (- 1 :: u32)"

definition ValidStaticActorVisibilityRaceNum :: "u32 \<Rightarrow> bool" where
  "ValidStaticActorVisibilityRaceNum raceNum \<longleftrightarrow> raceNum \<noteq> 0 \<and> raceNum \<le> ucast (- 1 :: u16)"

definition StaticActorVisibilityVID :: "static_entity \<Rightarrow> u32 option" where
  "StaticActorVisibilityVID a =
     (if eVID (aEntity a) \<noteq> 0 \<or> \<not> ValidStaticActorVisibilityEntityID (eID (aEntity a)) \<or>
         \<not> ValidStaticActorVisibilityRaceNum (aRaceNum a) then None
      else Some (ucast (eID (aEntity a))))"

section \<open>Checks\<close>

definition ValidStaticActorName :: "string \<Rightarrow> bool" where
  "ValidStaticActorName name0 =
     (let name = trim_space name0 in name \<noteq> [] \<and> utf8_valid name \<and> \<not> contains_nul name)"

definition validKind :: "string \<Rightarrow> bool" where
  "validKind kind \<longleftrightarrow> kind \<in> {''info'', ''talk'', ''warp'', ''shop_preview'', ''open_safebox'', ''open_cube'', ''quest_flag''}"

definition ValidKind :: "string \<Rightarrow> bool" where
  "ValidKind kind = validKind (trim_space kind)"

text \<open>\<open>strings.Split\<close> at a one-byte separator.\<close>

fun split_at :: "char \<Rightarrow> string \<Rightarrow> string list" where
  "split_at sep [] = [[]]"
| "split_at sep (c # cs) =
     (if c = sep then [] # split_at sep cs
      else case split_at sep cs of [] \<Rightarrow> [[c]] | part # parts \<Rightarrow> (c # part) # parts)"

definition validRefSegment :: "string \<Rightarrow> bool" where
  "validRefSegment segment =
     (if segment = [] then False
      else if \<not> isLower (hd segment) then False
      else list_all name_char (tl segment))"

definition ValidRef :: "string \<Rightarrow> bool" where
  "ValidRef ref =
     (let parts = split_at (CHR '':'') (trim_space ref) in
      if length parts \<noteq> 2 then False else validRefSegment (parts ! 0) \<and> validRefSegment (parts ! 1))"

definition ValidStaticActorInteractionMetadata :: "string \<Rightarrow> string \<Rightarrow> bool" where
  "ValidStaticActorInteractionMetadata kind ref =
     (if kind \<noteq> trim_space kind \<or> ref \<noteq> trim_space ref then False
      else if kind = [] \<and> ref = [] then True
      else kind \<noteq> [] \<and> ref \<noteq> [] \<and> ValidKind kind \<and> ValidRef ref)"

definition validSpawnGroupRefSegment :: "string \<Rightarrow> bool" where
  "validSpawnGroupRefSegment segment =
     (if segment = [] then False
      else if \<not> isLower (hd segment) then False
      else list_all name_char (tl segment))"

definition ValidStaticActorSpawnGroupRef :: "string \<Rightarrow> bool" where
  "ValidStaticActorSpawnGroupRef ref =
     (if ref = [] then True
      else if ref \<noteq> trim_space ref then False
      else let segments = split_at (CHR ''.'') ref in
        if length segments < 2 then False else list_all validSpawnGroupRefSegment segments)"

definition validStaticEntity :: "profile_registry \<Rightarrow> static_entity \<Rightarrow> bool" where
  "validStaticEntity reg actor =
     (let a = normalizeStaticEntityCombat actor in
      if \<not> ValidStaticActorVisibilityEntityID (eID (aEntity a)) \<or> eKind (aEntity a) \<noteq> EntityKindStaticActor \<or>
         eVID (aEntity a) \<noteq> 0 \<or> \<not> ValidStaticActorName (eName (aEntity a)) \<or> \<not> Position_Valid (aPosition a) \<or>
         \<not> ValidStaticActorVisibilityRaceNum (aRaceNum a) \<or>
         \<not> ValidStaticActorInteractionMetadata (aInteractionKind a) (aInteractionRef a) \<or>
         \<not> ValidStaticActorCombatProfile reg (aCombatProfile a) \<or>
         \<not> ValidStaticActorSpawnGroupRef (aSpawnGroupRef a) \<or> \<not> ValidStaticActorDeathReward (aDeathReward a)
      then False
      else if aSpawnGroupRef a \<noteq> []
      then aCombatProfile a \<noteq> [] \<and> aInteractionKind a = [] \<and> aInteractionRef a = []
      else Empty (aDeathReward a))"

definition ValidPlayerName :: "string \<Rightarrow> bool" where
  "ValidPlayerName name \<longleftrightarrow> name \<noteq> [] \<and> name = trim_space name \<and> utf8_valid name \<and> \<not> contains_nul name"

definition validPlayerDirectoryEntity :: "player_entity \<Rightarrow> bool" where
  "validPlayerDirectoryEntity p \<longleftrightarrow>
     eID (plEntity p) \<noteq> 0 \<and> eKind (plEntity p) = EntityKindPlayer \<and> eVID (plEntity p) \<noteq> 0 \<and>
     cVID (plCharacter p) = eVID (plEntity p) \<and> ValidPlayerName (eName (plEntity p)) \<and>
     cName (plCharacter p) = eName (plEntity p) \<and> ValidPlayerName (cName (plCharacter p))"

section \<open>Construction\<close>

definition newPlayerEntity :: "u64 \<Rightarrow> character \<Rightarrow> player_entity" where
  "newPlayerEntity entityID c =
     \<lparr>plEntity = \<lparr>eID = entityID, eKind = EntityKindPlayer, eVID = cVID c, eName = cName c\<rparr>, plCharacter = c\<rparr>"

definition newStaticEntity :: "u64 \<Rightarrow> static_entity \<Rightarrow> static_entity" where
  "newStaticEntity entityID actor =
     (let a = normalizeStaticEntityCombat actor in
      \<lparr>aEntity = \<lparr>eID = entityID, eKind = EntityKindStaticActor, eVID = 0, eName = eName (aEntity a)\<rparr>,
       aPosition = aPosition a, aSpawnHome = aSpawnHome a, aRaceNum = aRaceNum a,
       aCombatProfile = aCombatProfile a, aInteractionKind = aInteractionKind a,
       aInteractionRef = aInteractionRef a, aSpawnGroupRef = aSpawnGroupRef a, aCombatKind = aCombatKind a,
       aDeathReward = DeathReward_Clone (aDeathReward a)\<rparr>)"

section \<open>Facts\<close>

lemma cloneCharacterSnapshot_id [simp]: "cloneCharacterSnapshot c = c"
  by (simp add: cloneCharacterSnapshot_def)

lemma clonePlayerEntity_id [simp]: "clonePlayerEntity p = p"
  by (simp add: clonePlayerEntity_def)

lemma cloneStaticEntity_fields [simp]:
  "aEntity (cloneStaticEntity a) = aEntity a" "aPosition (cloneStaticEntity a) = aPosition a"
  "aRaceNum (cloneStaticEntity a) = aRaceNum a"
  by (simp_all add: cloneStaticEntity_def)

lemma DeathReward_Clone_twice [simp]: "DeathReward_Clone (DeathReward_Clone w) = DeathReward_Clone w"
  by (simp add: DeathReward_Clone_id DeathReward_Clone_drops)

lemma cloneStaticEntity_twice [simp]: "cloneStaticEntity (cloneStaticEntity a) = cloneStaticEntity a"
  by (simp add: cloneStaticEntity_def)

lemma normalize_fields [simp]:
  "eID (aEntity (normalizeStaticEntityCombat a)) = eID (aEntity a)"
  "eVID (aEntity (normalizeStaticEntityCombat a)) = eVID (aEntity a)"
  "eKind (aEntity (normalizeStaticEntityCombat a)) = eKind (aEntity a)"
  "aPosition (normalizeStaticEntityCombat a) = aPosition a"
  "aRaceNum (normalizeStaticEntityCombat a) = aRaceNum a"
  "aDeathReward (normalizeStaticEntityCombat a) = aDeathReward a"
  by (simp_all add: normalizeStaticEntityCombat_def Let_def)

lemma StaticActorVisibilityVID_cong:
  "aEntity a = aEntity b \<Longrightarrow> aRaceNum a = aRaceNum b \<Longrightarrow> StaticActorVisibilityVID a = StaticActorVisibilityVID b"
  by (simp add: StaticActorVisibilityVID_def)

lemma cloneStaticEntity_VID [simp]: "StaticActorVisibilityVID (cloneStaticEntity a) = StaticActorVisibilityVID a"
  by (rule StaticActorVisibilityVID_cong) simp_all

lemma visibility_id_unat:
  assumes "ValidStaticActorVisibilityEntityID i" shows "unat (ucast i :: u32) = unat i"
proof -
  have "unat (ucast (- 1 :: u32) :: u64) = 4294967295"
    by (simp add: unsigned_ucast_eq unsigned_minus_1_eq_mask mask_eq_exp_minus_1 take_bit_nat_eq_self_iff)
  with assms have "unat i \<le> 4294967295" by (simp add: ValidStaticActorVisibilityEntityID_def word_le_nat_alt)
  then show ?thesis by (simp add: unsigned_ucast_eq take_bit_nat_eq_self_iff)
qed

lemma visibility_round:
  assumes "ValidStaticActorVisibilityEntityID i" shows "ucast (ucast i :: u32) = i"
proof -
  have "unat (ucast (ucast i :: u32) :: u64) = take_bit 64 (unat (ucast i :: u32))"
    by (subst unsigned_ucast_eq) simp
  also have "\<dots> = unat i"
    unfolding visibility_id_unat [OF assms] using unsigned_less [of i, where ?'a = nat]
    by (simp add: take_bit_nat_eq_self_iff)
  finally show ?thesis by (simp only: word_unat_eq_iff)
qed

lemma visibility_id_eq:
  "ValidStaticActorVisibilityEntityID i \<Longrightarrow> ValidStaticActorVisibilityEntityID j \<Longrightarrow> (ucast i :: u32) = ucast j \<Longrightarrow> i = j"
  by (metis visibility_round)

lemma StaticActorVisibilityVID_inj:
  "StaticActorVisibilityVID a = Some vid \<Longrightarrow> StaticActorVisibilityVID b = Some vid \<Longrightarrow>
   eID (aEntity a) = eID (aEntity b)"
  by (auto simp: StaticActorVisibilityVID_def intro!: visibility_id_eq split: if_split_asm)

lemma valid_visible:
  "validStaticEntity reg a \<Longrightarrow> StaticActorVisibilityVID a = Some (ucast (eID (aEntity a)))"
  by (simp add: validStaticEntity_def Let_def StaticActorVisibilityVID_def split: if_split_asm)

text \<open>Normalising is idempotent, and so is trimming.\<close>

lemma staticActorCombatProfile_same [simp]: "staticActorCombatProfile p p = p"
  by (simp add: staticActorCombatProfile_def)

lemma normalize_twice [simp]:
  "normalizeStaticEntityCombat (normalizeStaticEntityCombat a) = normalizeStaticEntityCombat a"
  by (simp add: normalizeStaticEntityCombat_def Let_def)

lemma normalize_clone: "normalizeStaticEntityCombat (cloneStaticEntity a) = cloneStaticEntity (normalizeStaticEntityCombat a)"
  by (simp add: normalizeStaticEntityCombat_def cloneStaticEntity_def Let_def)

end
