(* ===== verification/World_Spawn.thy ===== *)
theory World_Spawn
  imports World_Entity Complex_Main
begin

text \<open>
  Life of a spawned actor away from its home (\<open>internal/worldruntime/spawn_lifecycle.go\<close>): the
  leash, the planners of return, homeward and chase steps, and the choice of the player a spawn
  turns on. Coordinates are \<open>int32\<close>, differences \<open>int64\<close>; the planners compute with
  \<open>float64\<close>, whose operations are the argument \<open>fl\<close>: a law about a plan holds for any
  arithmetic, or for one with the sign and monotonicity facts of IEEE 754 in \<open>ieee\<close>.
\<close>

section \<open>Floating-point operations\<close>

record float_ops =
  f_hypot :: "real \<Rightarrow> real \<Rightarrow> real"
  f_add :: "real \<Rightarrow> real \<Rightarrow> real"
  f_mul :: "real \<Rightarrow> real \<Rightarrow> real"
  f_div :: "real \<Rightarrow> real \<Rightarrow> real"

text \<open>
  Rounding is monotone and keeps representable numbers: a quotient of two positive numbers, the
  first not larger, lies in the unit interval, and scaling by a number of the unit interval neither
  enlarges nor changes the sign.
\<close>

definition ieee :: "float_ops \<Rightarrow> bool" where
  "ieee fl \<longleftrightarrow>
     (\<forall>a b. 0 < a \<longrightarrow> a \<le> b \<longrightarrow> 0 \<le> f_div fl a b \<and> f_div fl a b \<le> 1) \<and>
     (\<forall>a s. 0 \<le> s \<longrightarrow> s \<le> 1 \<longrightarrow> 0 \<le> a \<longrightarrow> 0 \<le> f_mul fl a s \<and> f_mul fl a s \<le> a) \<and>
     (\<forall>a s. 0 \<le> s \<longrightarrow> s \<le> 1 \<longrightarrow> a \<le> 0 \<longrightarrow> a \<le> f_mul fl a s \<and> f_mul fl a s \<le> 0) \<and>
     (\<forall>a b. 0 \<le> f_hypot fl a b)"

text \<open>Conversion to \<open>int64\<close> truncates towards zero.\<close>

definition to_int64 :: "real \<Rightarrow> i64" where
  "to_int64 x = word_of_int (if x < 0 then \<lceil>x\<rceil> else \<lfloor>x\<rfloor>)"

definition float64 :: "i64 \<Rightarrow> real" where "float64 x = real_of_int (sint x)"

section \<open>Plane arithmetic\<close>

definition absInt64 :: "i64 \<Rightarrow> i64" where
  "absInt64 v = (if sint v < 0 then - v else v)"

definition signInt64 :: "i64 \<Rightarrow> i64" where
  "signInt64 v = (if sint v < 0 then - 1 else if 0 < sint v then 1 else 0)"

definition clampStepCoordinate :: "i64 \<Rightarrow> i64 \<Rightarrow> i64 \<Rightarrow> i64" where
  "clampStepCoordinate v from home =
     (if sint from < sint home \<and> sint home < sint v then home
      else if sint home < sint from \<and> sint v < sint home then home
      else v)"

definition positionWithinRadius :: "position \<Rightarrow> position \<Rightarrow> i32 \<Rightarrow> bool" where
  "positionWithinRadius left right radius =
     (if sint radius < 0 then False
      else
        let dx = scast (pX left) - scast (pX right) :: i64; dy = scast (pY left) - scast (pY right) :: i64;
            limit = scast radius :: i64 in
        if sint limit < sint (absInt64 dx) \<or> sint limit < sint (absInt64 dy) then False
        else sint (dx * dx + dy * dy) \<le> sint (limit * limit))"

definition returnStepTowardHome :: "float_ops \<Rightarrow> position \<Rightarrow> position \<Rightarrow> i32 \<Rightarrow> position \<times> bool" where
  "returnStepTowardHome fl cur home maxStep =
     (if \<not> SameMap cur home then (home, True)
      else
        let dx = scast (pX home) - scast (pX cur) :: i64; dy = scast (pY home) - scast (pY cur) :: i64;
            distance = f_hypot fl (float64 dx) (float64 dy) in
        if distance = 0 \<or> distance \<le> real_of_int (sint maxStep) then (home, True)
        else
          let scale = f_div fl (real_of_int (sint maxStep)) distance;
              xStep = to_int64 (f_mul fl (float64 dx) scale);
              yStep = to_int64 (f_mul fl (float64 dy) scale);
              (xStep, yStep) =
                (if xStep = 0 \<and> yStep = 0 then
                   if sint (absInt64 dy) \<le> sint (absInt64 dx) then (signInt64 dx, yStep) else (xStep, signInt64 dy)
                 else (xStep, yStep));
              nextX = clampStepCoordinate (scast (pX cur) + xStep) (scast (pX cur)) (scast (pX home));
              nextY = clampStepCoordinate (scast (pY cur) + yStep) (scast (pY cur)) (scast (pY home));
              next = NewPosition (pMapIndex cur) (scast nextX) (scast nextY) in
          (next, Position_Equal next home))"

text \<open>The bisection of \<open>farthestPointOnSegmentInsideLeash\<close>: 48 rounds over the segment.\<close>

fun bisect_leash :: "float_ops \<Rightarrow> position \<Rightarrow> position \<Rightarrow> position \<Rightarrow> i32 \<Rightarrow> real \<Rightarrow> nat \<Rightarrow> real \<Rightarrow> real \<Rightarrow> position \<Rightarrow> position" where
  "bisect_leash fl home cur toward radius distance 0 lo hi best = best"
| "bisect_leash fl home cur toward radius distance (Suc n) lo hi best =
     (let dx = scast (pX toward) - scast (pX cur) :: i64; dy = scast (pY toward) - scast (pY cur) :: i64;
          mid = f_div fl (f_add fl lo hi) 2;
          scale = f_div fl mid distance;
          nextX = clampStepCoordinate (scast (pX cur) + to_int64 (f_mul fl (float64 dx) scale)) (scast (pX cur)) (scast (pX toward));
          nextY = clampStepCoordinate (scast (pY cur) + to_int64 (f_mul fl (float64 dy) scale)) (scast (pY cur)) (scast (pY toward));
          candidate = NewPosition (pMapIndex cur) (scast nextX) (scast nextY) in
      if positionWithinRadius home candidate radius
      then bisect_leash fl home cur toward radius distance n mid hi candidate
      else bisect_leash fl home cur toward radius distance n lo mid best)"

definition farthestPointOnSegmentInsideLeash ::
    "float_ops \<Rightarrow> position \<Rightarrow> position \<Rightarrow> position \<Rightarrow> i32 \<Rightarrow> position" where
  "farthestPointOnSegmentInsideLeash fl home cur toward radius =
     (if \<not> SameMap cur toward \<or> \<not> SameMap home cur \<or> sint radius \<le> 0 then cur
      else if positionWithinRadius home toward radius then toward
      else if \<not> positionWithinRadius home cur radius then cur
      else
        let dx = scast (pX toward) - scast (pX cur) :: i64; dy = scast (pY toward) - scast (pY cur) :: i64;
            distance = f_hypot fl (float64 dx) (float64 dy) in
        if distance = 0 then cur
        else bisect_leash fl home cur toward radius distance 48 0 distance cur)"

section \<open>The leash\<close>

datatype leash_status = LeashAtHome | LeashWithinRadius | LeashReturnRequired

record leash_evaluation =
  evHome :: position
  evCurrent :: position
  evRadius :: i32
  evStatus :: leash_status
  evReturnRequired :: bool
  evReturnTarget :: position

definition EvaluateSpawnLeash :: "position \<Rightarrow> position \<Rightarrow> i32 \<Rightarrow> leash_evaluation option" where
  "EvaluateSpawnLeash home cur radius =
     (if \<not> Position_Valid home \<or> \<not> Position_Valid cur \<or> sint radius \<le> 0 then None
      else
        let evaluation = \<lparr>evHome = home, evCurrent = cur, evRadius = radius, evStatus = LeashAtHome,
                          evReturnRequired = False, evReturnTarget = home\<rparr> in
        if Position_Equal home cur then Some evaluation
        else if \<not> SameMap home cur \<or> \<not> positionWithinRadius home cur radius
        then Some (evaluation\<lparr>evStatus := LeashReturnRequired, evReturnRequired := True\<rparr>)
        else Some (evaluation\<lparr>evStatus := LeashWithinRadius\<rparr>))"

definition spawn_backed :: "profile_registry \<Rightarrow> static_entity \<Rightarrow> bool" where
  "spawn_backed reg actor \<longleftrightarrow>
     (let profile = staticActorCombatProfile (aCombatProfile actor) (aCombatKind actor) in
      \<not> (aSpawnGroupRef actor = [] \<or> \<not> ValidStaticActorSpawnGroupRef (aSpawnGroupRef actor) \<or>
         profile = [] \<or> \<not> ValidStaticActorCombatKind reg profile))"

definition EvaluateStaticActorSpawnLeash ::
    "profile_registry \<Rightarrow> static_entity \<Rightarrow> position \<Rightarrow> i32 \<Rightarrow> leash_evaluation option" where
  "EvaluateStaticActorSpawnLeash reg actor cur radius =
     (if \<not> spawn_backed reg actor then None else EvaluateSpawnLeash (aPosition actor) cur radius)"

definition EvaluateStaticActorCurrentSpawnLeash ::
    "profile_registry \<Rightarrow> static_entity \<Rightarrow> i32 \<Rightarrow> leash_evaluation option" where
  "EvaluateStaticActorCurrentSpawnLeash reg actor radius =
     (if \<not> spawn_backed reg actor then None
      else
        let home = (if \<not> Position_Valid (aSpawnHome actor) then aPosition actor else aSpawnHome actor) in
        EvaluateSpawnLeash home (aPosition actor) radius)"

section \<open>Steps\<close>

record step_plan =
  spEvaluation :: leash_evaluation
  spNext :: position
  spComplete :: bool

definition PlanStaticActorSpawnLeashReturnStep ::
    "float_ops \<Rightarrow> profile_registry \<Rightarrow> static_entity \<Rightarrow> i32 \<Rightarrow> i32 \<Rightarrow> step_plan option" where
  "PlanStaticActorSpawnLeashReturnStep fl reg actor radius maxStep =
     (if sint maxStep \<le> 0 then None
      else case EvaluateStaticActorCurrentSpawnLeash reg actor radius of
        None \<Rightarrow> None
      | Some ev \<Rightarrow>
          if \<not> evReturnRequired ev then Some \<lparr>spEvaluation = ev, spNext = evCurrent ev, spComplete = True\<rparr>
          else if \<not> SameMap (evHome ev) (evCurrent ev)
          then Some \<lparr>spEvaluation = ev, spNext = evHome ev, spComplete = True\<rparr>
          else
            let (next, complete) = returnStepTowardHome fl (evCurrent ev) (evHome ev) maxStep in
            Some \<lparr>spEvaluation = ev, spNext = next, spComplete = complete\<rparr>)"

definition PlanStaticActorSpawnLeashHomewardStep ::
    "float_ops \<Rightarrow> profile_registry \<Rightarrow> static_entity \<Rightarrow> i32 \<Rightarrow> i32 \<Rightarrow> step_plan option" where
  "PlanStaticActorSpawnLeashHomewardStep fl reg actor radius maxStep =
     (if sint maxStep \<le> 0 then None
      else case EvaluateStaticActorCurrentSpawnLeash reg actor radius of
        None \<Rightarrow> None
      | Some ev \<Rightarrow>
          if evReturnRequired ev then None
          else if evStatus ev = LeashAtHome \<or> Position_Equal (evCurrent ev) (evHome ev)
          then Some \<lparr>spEvaluation = ev, spNext = evCurrent ev, spComplete = True\<rparr>
          else if evStatus ev \<noteq> LeashWithinRadius \<or> \<not> SameMap (evHome ev) (evCurrent ev) then None
          else
            let (next, complete) = returnStepTowardHome fl (evCurrent ev) (evHome ev) maxStep in
            Some \<lparr>spEvaluation = ev, spNext = next, spComplete = complete\<rparr>)"

definition PlanStaticActorSpawnChaseStep ::
    "float_ops \<Rightarrow> profile_registry \<Rightarrow> static_entity \<Rightarrow> position \<Rightarrow> i32 \<Rightarrow> i32 \<Rightarrow> step_plan option" where
  "PlanStaticActorSpawnChaseStep fl reg actor owner radius maxStep =
     (if sint maxStep \<le> 0 \<or> \<not> Position_Valid owner then None
      else case EvaluateStaticActorCurrentSpawnLeash reg actor radius of
        None \<Rightarrow> None
      | Some ev \<Rightarrow>
          if evReturnRequired ev \<or> \<not> SameMap (evCurrent ev) owner then None
          else if Position_Equal (evCurrent ev) owner
          then Some \<lparr>spEvaluation = ev, spNext = evCurrent ev, spComplete = True\<rparr>
          else
            let (candidate, landedOnOwner) = returnStepTowardHome fl (evCurrent ev) owner maxStep in
            if positionWithinRadius (evHome ev) candidate radius
            then Some \<lparr>spEvaluation = ev, spNext = candidate, spComplete = landedOnOwner\<rparr>
            else Some \<lparr>spEvaluation = ev,
                       spNext = farthestPointOnSegmentInsideLeash fl (evHome ev) (evCurrent ev) candidate radius,
                       spComplete = True\<rparr>)"

section \<open>Aggression\<close>

record aggro_evaluation =
  agCurrent :: position
  agCandidate :: position
  agRadius :: i32
  agAcquired :: bool

record aggro_candidate =
  acEntityID :: u64
  acPosition :: position

definition EffectiveStaticActorSpawnLeashRadiusForActor :: "profile_registry \<Rightarrow> static_entity \<Rightarrow> i32" where
  "EffectiveStaticActorSpawnLeashRadiusForActor reg actor =
     EffectiveStaticActorSpawnLeashRadius reg (staticActorCombatProfile (aCombatProfile actor) (aCombatKind actor))"

definition EffectiveStaticActorSpawnAggroRadiusForActor :: "profile_registry \<Rightarrow> static_entity \<Rightarrow> i32" where
  "EffectiveStaticActorSpawnAggroRadiusForActor reg actor =
     EffectiveStaticActorSpawnAggroRadius reg (staticActorCombatProfile (aCombatProfile actor) (aCombatKind actor))"

definition EffectiveStaticActorSpawnMaxStepForActor :: "profile_registry \<Rightarrow> static_entity \<Rightarrow> i32" where
  "EffectiveStaticActorSpawnMaxStepForActor reg actor =
     EffectiveStaticActorSpawnMaxStep reg (staticActorCombatProfile (aCombatProfile actor) (aCombatKind actor))"

definition EvaluateStaticActorSpawnAggroAcquisition ::
    "profile_registry \<Rightarrow> static_entity \<Rightarrow> position \<Rightarrow> i32 \<Rightarrow> aggro_evaluation option" where
  "EvaluateStaticActorSpawnAggroAcquisition reg actor candidate radius =
     (if sint radius \<le> 0 \<or> \<not> Position_Valid candidate then None
      else case EvaluateStaticActorCurrentSpawnLeash reg actor (EffectiveStaticActorSpawnLeashRadiusForActor reg actor) of
        None \<Rightarrow> None
      | Some ev \<Rightarrow>
          let result = \<lparr>agCurrent = evCurrent ev, agCandidate = candidate, agRadius = radius, agAcquired = False\<rparr> in
          if evReturnRequired ev \<or> \<not> SameMap (evCurrent ev) candidate then Some result
          else Some (result\<lparr>agAcquired := positionWithinRadius (evCurrent ev) candidate radius\<rparr>))"

text \<open>The loop over the candidates; \<open>None\<close> is \<open>found = false\<close>.\<close>

fun select_aggro ::
    "profile_registry \<Rightarrow> static_entity \<Rightarrow> i32 \<Rightarrow> (aggro_candidate \<times> i64) option \<Rightarrow> aggro_candidate list \<Rightarrow>
     (aggro_candidate \<times> i64) option" where
  "select_aggro reg actor radius best [] = best"
| "select_aggro reg actor radius best (c # cs) =
     (if acEntityID c = 0 \<or> \<not> Position_Valid (acPosition c) then select_aggro reg actor radius best cs
      else case EvaluateStaticActorSpawnAggroAcquisition reg actor (acPosition c) radius of
        None \<Rightarrow> select_aggro reg actor radius best cs
      | Some ev \<Rightarrow>
          if \<not> agAcquired ev then select_aggro reg actor radius best cs
          else
            let distance = squaredDistanceXY (agCurrent ev) (acPosition c) in
            case best of
              None \<Rightarrow> select_aggro reg actor radius (Some (c, distance)) cs
            | Some (b, bestDistance) \<Rightarrow>
                if sint distance < sint bestDistance \<or> distance = bestDistance \<and> acEntityID c < acEntityID b
                then select_aggro reg actor radius (Some (c, distance)) cs
                else select_aggro reg actor radius best cs)"

definition SelectStaticActorSpawnAggroCandidate ::
    "profile_registry \<Rightarrow> static_entity \<Rightarrow> aggro_candidate list \<Rightarrow> i32 \<Rightarrow> aggro_candidate option" where
  "SelectStaticActorSpawnAggroCandidate reg actor candidates radius =
     map_option fst (select_aggro reg actor radius None candidates)"

section \<open>Snapshots\<close>

record leash_snapshot =
  lsHome :: position
  lsCurrent :: position
  lsRadius :: i32
  lsStatus :: leash_status
  lsReturnRequired :: bool
  lsReturnTarget :: "position option"

definition PositionSnapshotFromPosition :: "position \<Rightarrow> position" where
  "PositionSnapshotFromPosition p = \<lparr>pMapIndex = pMapIndex p, pX = pX p, pY = pY p\<rparr>"

definition SpawnLeashSnapshotFromEvaluation :: "leash_evaluation \<Rightarrow> leash_snapshot" where
  "SpawnLeashSnapshotFromEvaluation ev =
     \<lparr>lsHome = PositionSnapshotFromPosition (evHome ev), lsCurrent = PositionSnapshotFromPosition (evCurrent ev),
      lsRadius = evRadius ev, lsStatus = evStatus ev, lsReturnRequired = evReturnRequired ev,
      lsReturnTarget = (if evReturnRequired ev then Some (PositionSnapshotFromPosition (evReturnTarget ev)) else None)\<rparr>"

section \<open>Coordinates\<close>

definition dist2 :: "position \<Rightarrow> position \<Rightarrow> int" where
  "dist2 p q = (sint (pX p) - sint (pX q)) ^ 2 + (sint (pY p) - sint (pY q)) ^ 2"

text \<open>Steps to go on the grid.\<close>

definition grid_distance :: "position \<Rightarrow> position \<Rightarrow> nat" where
  "grid_distance p q = nat (\<bar>sint (pX p) - sint (pX q)\<bar> + \<bar>sint (pY p) - sint (pY q)\<bar>)"

definition part_of :: "int \<Rightarrow> int \<Rightarrow> bool" where
  "part_of d s \<longleftrightarrow> (0 \<le> s \<and> s \<le> d) \<or> (d \<le> s \<and> s \<le> 0)"

lemma i32_range: "- 2147483648 \<le> sint (a :: i32)" "sint (a :: i32) \<le> 2147483647"
  using sint_i32_bounds [of a] by (simp_all add: min_i32_def max_i32_def)

lemma sint_scast_i64 [simp]: "sint (scast (a :: i32) :: i64) = sint a"
  using i32_range [of a] unfolding scast_eq by (intro sint_i64_of) simp_all

lemma sint_diff: "sint (scast (a :: i32) - scast (b :: i32) :: i64) = sint a - sint b"
proof -
  have "(scast a - scast b :: i64) = word_of_int (sint a - sint b)" unfolding scast_eq by (simp only: of_int_diff)
  then show ?thesis using i32_range [of a] i32_range [of b] by (simp only:) (intro sint_i64_of; simp)
qed

lemma sint_abs: "- (2 ^ 40) \<le> sint v \<Longrightarrow> sint v \<le> 2 ^ 40 \<Longrightarrow> sint (absInt64 v) = \<bar>sint v\<bar>"
proof -
  assume b: "- (2 ^ 40) \<le> sint v" "sint v \<le> 2 ^ 40"
  have "- v = word_of_int (- sint v)" by simp
  then have "sint (- v) = - sint v" using b by (simp only:) (intro sint_i64_of; simp)
  then show ?thesis by (simp add: absInt64_def)
qed

lemma sint_abs_diff: "sint (absInt64 (scast (a :: i32) - scast (b :: i32))) = \<bar>sint a - sint b\<bar>"
proof -
  have "- (2 ^ 40) \<le> sint a - sint b" "sint a - sint b \<le> 2 ^ 40"
    using i32_range [of a] i32_range [of b] by simp_all
  then show ?thesis by (subst sint_abs) (simp_all only: sint_diff)
qed

lemma positionWithinRadius_exact:
  "positionWithinRadius p q r \<longleftrightarrow> 0 \<le> sint r \<and> dist2 p q \<le> sint r ^ 2"
proof (cases "sint r < 0")
  case False
  let ?x = "sint (pX p) - sint (pX q)" and ?y = "sint (pY p) - sint (pY q)"
  have r: "0 \<le> sint r" "sint r \<le> 2147483647" using False i32_range [of r] by simp_all
  have big: "sint r < \<bar>a\<bar> \<Longrightarrow> \<not> a ^ 2 + b ^ 2 \<le> sint r ^ 2" for a b :: int
  proof -
    assume a: "sint r < \<bar>a\<bar>"
    have "sint r ^ 2 < a ^ 2" using r a by (metis abs_of_nonneg abs_le_square_iff not_le power2_abs)
    moreover have "0 \<le> b ^ 2" by simp
    ultimately show "\<not> a ^ 2 + b ^ 2 \<le> sint r ^ 2" by linarith
  qed
  show ?thesis
  proof (cases "sint r < \<bar>?x\<bar> \<or> sint r < \<bar>?y\<bar>")
    case True
    then have "\<not> dist2 p q \<le> sint r ^ 2" unfolding dist2_def using big [of ?x ?y] big [of ?y ?x] by (auto simp: add.commute)
    with True False show ?thesis by (simp add: positionWithinRadius_def Let_def sint_abs_diff)
  next
    case small: False
    then have "\<bar>?x\<bar> < 2 ^ 31" "\<bar>?y\<bar> < 2 ^ 31" using r by simp_all
    from squaredDistanceXY_exact [OF this] show ?thesis using small False
      unfolding positionWithinRadius_def Let_def dist2_def
      by (simp add: sint_abs_diff squaredRadius_exact squaredDistanceXY_def Let_def)
  qed
qed (simp add: positionWithinRadius_def)

lemma ieee_div: "ieee fl \<Longrightarrow> 0 < a \<Longrightarrow> a \<le> b \<Longrightarrow> 0 \<le> f_div fl a b \<and> f_div fl a b \<le> 1"
  unfolding ieee_def by blast

lemma ieee_mul:
  "ieee fl \<Longrightarrow> 0 \<le> s \<Longrightarrow> s \<le> 1 \<Longrightarrow> 0 \<le> a \<Longrightarrow> 0 \<le> f_mul fl a s \<and> f_mul fl a s \<le> a"
  "ieee fl \<Longrightarrow> 0 \<le> s \<Longrightarrow> s \<le> 1 \<Longrightarrow> a \<le> 0 \<Longrightarrow> a \<le> f_mul fl a s \<and> f_mul fl a s \<le> 0"
  unfolding ieee_def by blast+

lemma part_of_truncate:
  fixes z :: int
  assumes "0 \<le> z \<Longrightarrow> 0 \<le> m \<and> m \<le> real_of_int z" and "z \<le> 0 \<Longrightarrow> real_of_int z \<le> m \<and> m \<le> 0"
  shows "part_of z (if m < 0 then \<lceil>m\<rceil> else \<lfloor>m\<rfloor>)"
proof (cases "0 \<le> z")
  case True
  then show ?thesis using assms(1) by (auto simp: part_of_def floor_le_iff le_floor_iff)
next
  case False
  then have "real_of_int z \<le> m" "m \<le> 0" using assms(2) by simp_all
  then show ?thesis by (auto simp: part_of_def le_ceiling_iff ceiling_le_iff)
qed

lemma part_of_to_int64:
  assumes "ieee fl" and s: "0 \<le> s" "s \<le> 1"
  shows "part_of (sint d) (sint (to_int64 (f_mul fl (float64 d) s)))"
proof -
  define z where "z = sint d"
  define m where "m = f_mul fl (real_of_int z) s"
  have p: "part_of z (if m < 0 then \<lceil>m\<rceil> else \<lfloor>m\<rfloor>)"
    unfolding m_def by (rule part_of_truncate) (use assms ieee_mul in simp_all)
  have "- (2 ^ 63) \<le> z" "z < 2 ^ 63" unfolding z_def using sint_greater_eq [of d] sint_lt [of d] by simp_all
  then have "sint (to_int64 m) = (if m < 0 then \<lceil>m\<rceil> else \<lfloor>m\<rfloor>)"
    using p unfolding part_of_def to_int64_def by (intro sint_i64_of) linarith+
  with p show ?thesis by (simp only: float64_def z_def m_def)
qed

lemma part_of_sign: "sint d \<noteq> 0 \<Longrightarrow> part_of (sint d) (sint (signInt64 d)) \<and> sint (signInt64 d) \<noteq> 0"
  by (auto simp: signInt64_def part_of_def)

lemma sint_i32_word: "- (2 ^ 31) \<le> x \<Longrightarrow> x < 2 ^ 31 \<Longrightarrow> sint (word_of_int x :: i32) = x"
  by (simp add: signed_of_int signed_take_bit_int_eq_self)

lemma step_coordinate:
  assumes "part_of (sint (h :: i32) - sint (c :: i32)) (sint (s :: i64))"
  shows "sint (scast (clampStepCoordinate (scast (c :: i32) + s) (scast c) (scast h)) :: i32) = sint c + sint s"
proof -
  have r: "- 2147483648 \<le> sint c + sint s" "sint c + sint s \<le> 2147483647"
    using assms i32_range [of c] i32_range [of h] unfolding part_of_def by linarith+
  have "scast c + s = (word_of_int (sint c + sint s) :: i64)" unfolding scast_eq by simp
  then have v: "sint (scast c + s) = sint c + sint s" using r by (simp only:) (intro sint_i64_of; simp)
  have id: "clampStepCoordinate (scast c + s) (scast c) (scast h) = scast c + s"
    using assms unfolding clampStepCoordinate_def v sint_scast_i64 part_of_def by auto
  have "sint (scast (scast c + s) :: i32) = sint (word_of_int (sint c + sint s) :: i32)"
    by (subst scast_eq [where w = "scast c + s"]) (simp only: v)
  also have "\<dots> = sint c + sint s" using r by (intro sint_i32_word) simp_all
  finally show ?thesis unfolding id .
qed

section \<open>One step\<close>

lemma position_eqI: "pMapIndex (p :: position) = pMapIndex q \<Longrightarrow> sint (pX p) = sint (pX q) \<Longrightarrow> sint (pY p) = sint (pY q) \<Longrightarrow> p = q"
  by (rule position.equality) (simp_all add: signed_word_eqI)

lemma grid_distance_0: "pMapIndex p = pMapIndex q \<Longrightarrow> grid_distance p q = 0 \<longleftrightarrow> p = q"
  by (auto simp: grid_distance_def intro: position_eqI)

lemma NewPosition_fields [simp]: "pX (NewPosition m x y) = x" "pY (NewPosition m x y) = y"
  by (simp_all add: NewPosition_def)

lemma part_of_refl [simp]: "part_of d d" "part_of d 0"
  by (auto simp: part_of_def)

lemma return_step:
  assumes fl: "ieee fl" and map: "SameMap cur home" and step: "0 < sint maxStep"
    and r: "returnStepTowardHome fl cur home maxStep = (next, landed)"
  shows "pMapIndex next = pMapIndex home" "landed \<longleftrightarrow> next = home"
    "part_of (sint (pX home) - sint (pX cur)) (sint (pX next) - sint (pX cur))"
    "part_of (sint (pY home) - sint (pY cur)) (sint (pY next) - sint (pY cur))"
    "cur \<noteq> home \<Longrightarrow> next \<noteq> cur"
proof -
  let ?dx = "scast (pX home) - scast (pX cur) :: i64" and ?dy = "scast (pY home) - scast (pY cur) :: i64"
  let ?dist = "f_hypot fl (float64 ?dx) (float64 ?dy)"
  have m: "pMapIndex cur = pMapIndex home" using map by (simp add: SameMap_def)
  have "pMapIndex next = pMapIndex home \<and> (landed \<longleftrightarrow> next = home) \<and>
    part_of (sint (pX home) - sint (pX cur)) (sint (pX next) - sint (pX cur)) \<and>
    part_of (sint (pY home) - sint (pY cur)) (sint (pY next) - sint (pY cur)) \<and> (cur \<noteq> home \<longrightarrow> next \<noteq> cur)"
  proof (cases "?dist = 0 \<or> ?dist \<le> real_of_int (sint maxStep)")
    case True
    then have "next = home \<and> landed" using r map by (simp add: returnStepTowardHome_def Let_def)
    then show ?thesis by auto
  next
    case False
    define scale where "scale = f_div fl (real_of_int (sint maxStep)) ?dist"
    define sx where "sx = to_int64 (f_mul fl (float64 ?dx) scale)"
    define sy where "sy = to_int64 (f_mul fl (float64 ?dy) scale)"
    define tx where "tx = (if sx = 0 \<and> sy = 0 \<and> sint (absInt64 ?dy) \<le> sint (absInt64 ?dx) then signInt64 ?dx else sx)"
    define ty where "ty = (if sx = 0 \<and> sy = 0 \<and> \<not> sint (absInt64 ?dy) \<le> sint (absInt64 ?dx) then signInt64 ?dy else sy)"
    have "0 < real_of_int (sint maxStep)" by (rule of_int_0_less_iff [THEN iffD2, OF step])
    moreover have "real_of_int (sint maxStep) \<le> ?dist" using False by linarith
    ultimately have s: "0 \<le> scale" "scale \<le> 1" unfolding scale_def using ieee_div [OF fl] by blast+
    have p: "part_of (sint (pX home) - sint (pX cur)) (sint sx)" "part_of (sint (pY home) - sint (pY cur)) (sint sy)"
      using part_of_to_int64 [OF fl s, of ?dx] part_of_to_int64 [OF fl s, of ?dy]
      by (simp_all only: sx_def sy_def sint_diff)
    have sg: "part_of (sint d) (sint (signInt64 d))" for d
      by (auto simp: signInt64_def part_of_def)
    have q: "part_of (sint (pX home) - sint (pX cur)) (sint tx)" "part_of (sint (pY home) - sint (pY cur)) (sint ty)"
      using p sg [of ?dx] sg [of ?dy] by (simp_all add: tx_def ty_def sint_diff)
    have e: "next = NewPosition (pMapIndex cur)
        (scast (clampStepCoordinate (scast (pX cur) + tx) (scast (pX cur)) (scast (pX home))))
        (scast (clampStepCoordinate (scast (pY cur) + ty) (scast (pY cur)) (scast (pY home))))"
      and c: "landed \<longleftrightarrow> next = home"
      using r map False
      by (auto simp: returnStepTowardHome_def Let_def tx_def ty_def sx_def sy_def scale_def Position_Equal_def
          split: if_split_asm)
    have x: "sint (pX next) - sint (pX cur) = sint tx" "sint (pY next) - sint (pY cur) = sint ty"
      using step_coordinate [OF q(1)] step_coordinate [OF q(2)] by (simp_all add: e)
    have moved: "sint tx \<noteq> 0 \<or> sint ty \<noteq> 0" if ne: "cur \<noteq> home"
    proof (cases "sx = 0 \<and> sy = 0")
      case True
      have "sint ?dx \<noteq> 0 \<or> sint ?dy \<noteq> 0" using ne m position_eqI [of cur home] by (auto simp: sint_diff)
      then have "if sint (absInt64 ?dy) \<le> sint (absInt64 ?dx) then sint ?dx \<noteq> 0 else sint ?dy \<noteq> 0"
        unfolding sint_abs_diff sint_diff by (simp split: if_split) linarith
      then show ?thesis using True part_of_sign [of ?dx] part_of_sign [of ?dy]
        by (simp add: tx_def ty_def split: if_split_asm)
    next
      case False
      then show ?thesis by (auto simp: tx_def ty_def signed_eq_0_iff)
    qed
    show ?thesis
    proof (intro conjI impI)
      show "pMapIndex next = pMapIndex home" by (simp add: e m)
      show "landed \<longleftrightarrow> next = home" by (rule c)
      show "part_of (sint (pX home) - sint (pX cur)) (sint (pX next) - sint (pX cur))"
        "part_of (sint (pY home) - sint (pY cur)) (sint (pY next) - sint (pY cur))" unfolding x by (rule q)+
      show "next \<noteq> cur" if "cur \<noteq> home" using moved [OF that] x by auto
    qed
  qed
  then show "pMapIndex next = pMapIndex home" "landed \<longleftrightarrow> next = home"
    "part_of (sint (pX home) - sint (pX cur)) (sint (pX next) - sint (pX cur))"
    "part_of (sint (pY home) - sint (pY cur)) (sint (pY next) - sint (pY cur))"
    "cur \<noteq> home \<Longrightarrow> next \<noteq> cur" by blast+
qed

lemma part_of_closer:
  fixes h c n :: int
  assumes "part_of (h - c) (n - c)"
  shows "\<bar>n - h\<bar> \<le> \<bar>c - h\<bar>" and "n \<noteq> c \<Longrightarrow> \<bar>n - h\<bar> < \<bar>c - h\<bar>"
  using assms unfolding part_of_def by linarith+

lemma return_step_closer:
  assumes fl: "ieee fl" and map: "SameMap cur home" and step: "0 < sint maxStep" and ne: "cur \<noteq> home"
    and r: "returnStepTowardHome fl cur home maxStep = (next, landed)"
  shows "grid_distance next home < grid_distance cur home"
proof -
  note s = return_step [OF fl map step r]
  have "sint (pX next) \<noteq> sint (pX cur) \<or> sint (pY next) \<noteq> sint (pY cur)"
    using s(1) s(5) [OF ne] map position_eqI [of "next" cur] by (auto simp: SameMap_def)
  then have "\<bar>sint (pX next) - sint (pX home)\<bar> + \<bar>sint (pY next) - sint (pY home)\<bar> <
      \<bar>sint (pX cur) - sint (pX home)\<bar> + \<bar>sint (pY cur) - sint (pY home)\<bar>"
    using part_of_closer [OF s(3)] part_of_closer [OF s(4)] by (elim disjE) (auto intro: add_less_le_mono add_le_less_mono)
  then show ?thesis unfolding grid_distance_def by (simp only: nat_mono_iff)
qed

section \<open>Plans\<close>

definition home_of :: "static_entity \<Rightarrow> position" where
  "home_of actor = (if \<not> Position_Valid (aSpawnHome actor) then aPosition actor else aSpawnHome actor)"

text \<open>The actor is inside its leash: on the map of its home, and not further away than the radius.\<close>

definition inside_leash :: "position \<Rightarrow> position \<Rightarrow> i32 \<Rightarrow> bool" where
  "inside_leash home cur radius \<longleftrightarrow> pMapIndex cur = pMapIndex home \<and> dist2 home cur \<le> sint radius ^ 2"

lemma dist2_0 [simp]: "dist2 p p = 0"
  by (simp add: dist2_def)

lemma inside_leash_home [simp]: "inside_leash home home radius"
  by (simp add: inside_leash_def)

lemma EvaluateSpawnLeash_exact:
  "EvaluateSpawnLeash home cur radius =
     (if Position_Valid home \<and> Position_Valid cur \<and> 0 < sint radius then
        Some \<lparr>evHome = home, evCurrent = cur, evRadius = radius,
              evStatus = (if home = cur then LeashAtHome else if inside_leash home cur radius then LeashWithinRadius
                          else LeashReturnRequired),
              evReturnRequired = (\<not> inside_leash home cur radius), evReturnTarget = home\<rparr>
      else None)"
  by (auto simp: EvaluateSpawnLeash_def Let_def Position_Equal_def positionWithinRadius_exact inside_leash_def SameMap_def)

lemma EvaluateStaticActorCurrentSpawnLeash_exact:
  "EvaluateStaticActorCurrentSpawnLeash reg actor radius =
     (if spawn_backed reg actor \<and> Position_Valid (home_of actor) \<and> Position_Valid (aPosition actor) \<and> 0 < sint radius then
        Some \<lparr>evHome = home_of actor, evCurrent = aPosition actor, evRadius = radius,
              evStatus = (if home_of actor = aPosition actor then LeashAtHome
                          else if inside_leash (home_of actor) (aPosition actor) radius then LeashWithinRadius
                          else LeashReturnRequired),
              evReturnRequired = (\<not> inside_leash (home_of actor) (aPosition actor) radius),
              evReturnTarget = home_of actor\<rparr>
      else None)"
  by (simp add: EvaluateStaticActorCurrentSpawnLeash_def Let_def EvaluateSpawnLeash_exact flip: home_of_def)

lemma bisect_leash_inside:
  "inside_leash home cur radius \<Longrightarrow> 0 \<le> sint radius \<Longrightarrow> inside_leash home best radius \<Longrightarrow>
   inside_leash home (bisect_leash fl home cur toward radius d n lo hi best) radius"
  by (induction n arbitrary: lo hi best)
    (simp_all add: Let_def positionWithinRadius_exact inside_leash_def)

lemma farthest_inside:
  assumes "inside_leash home cur radius" and "SameMap home cur" and "0 < sint radius"
  shows "inside_leash home (farthestPointOnSegmentInsideLeash fl home cur toward radius) radius"
proof -
  have "inside_leash home toward radius" if "SameMap cur toward" "positionWithinRadius home toward radius"
    using that assms(2) by (simp add: inside_leash_def positionWithinRadius_exact SameMap_def)
  with assms show ?thesis
    by (auto simp: farthestPointOnSegmentInsideLeash_def Let_def bisect_leash_inside)
qed

lemma returnStep_map: "SameMap cur home \<Longrightarrow> pMapIndex (fst (returnStepTowardHome fl cur home m)) = pMapIndex home"
  by (auto simp: returnStepTowardHome_def Let_def SameMap_def split: prod.split)

lemma chase_inside:
  assumes "PlanStaticActorSpawnChaseStep fl reg actor owner radius maxStep = Some plan"
  shows "inside_leash (home_of actor) (spNext plan) radius" and "inside_leash (home_of actor) (aPosition actor) radius"
    and "pMapIndex owner = pMapIndex (home_of actor)" and "spawn_backed reg actor"
proof -
  obtain ev where ev: "EvaluateStaticActorCurrentSpawnLeash reg actor radius = Some ev"
    using assms by (auto simp: PlanStaticActorSpawnChaseStep_def split: if_split_asm option.split_asm)
  have ok: "Position_Valid (home_of actor)" "Position_Valid (aPosition actor)" "0 < sint radius" "spawn_backed reg actor"
    and e: "evHome ev = home_of actor" "evCurrent ev = aPosition actor"
      "evReturnRequired ev = (\<not> inside_leash (home_of actor) (aPosition actor) radius)"
    using ev by (auto simp: EvaluateStaticActorCurrentSpawnLeash_exact split: if_split_asm)
  have in0: "inside_leash (home_of actor) (aPosition actor) radius" and sm: "SameMap (aPosition actor) owner"
    using assms by (auto simp: PlanStaticActorSpawnChaseStep_def ev e split: if_split_asm)
  have hm: "SameMap (home_of actor) (aPosition actor)" using in0 ok by (simp add: inside_leash_def SameMap_def)
  obtain cand landed where c: "returnStepTowardHome fl (aPosition actor) owner maxStep = (cand, landed)" by force
  have "pMapIndex cand = pMapIndex owner" using returnStep_map [OF sm, of fl maxStep] c by simp
  then have cm: "pMapIndex cand = pMapIndex (home_of actor)" using sm hm by (simp add: SameMap_def)
  have "spNext plan = aPosition actor \<or>
      (spNext plan = cand \<and> positionWithinRadius (home_of actor) cand radius) \<or>
      spNext plan = farthestPointOnSegmentInsideLeash fl (home_of actor) (aPosition actor) cand radius"
    using assms by (auto simp: PlanStaticActorSpawnChaseStep_def ev e c split: if_split_asm)
  then show "inside_leash (home_of actor) (spNext plan) radius"
    using in0 cm farthest_inside [OF in0 hm ok(3)] by (auto simp: inside_leash_def positionWithinRadius_exact)
  show "inside_leash (home_of actor) (aPosition actor) radius" by (rule in0)
  show "pMapIndex owner = pMapIndex (home_of actor)" using sm hm by (simp add: SameMap_def)
  show "spawn_backed reg actor" by (rule ok)
qed

section \<open>Going home\<close>

text \<open>
  The two executors of \<open>shared_world.go\<close> in turn: while the return planner asks for a step the
  actor is put on its target, else the homeward planner is asked.
\<close>

definition recover_step :: "float_ops \<Rightarrow> profile_registry \<Rightarrow> i32 \<Rightarrow> i32 \<Rightarrow> static_entity \<Rightarrow> static_entity option" where
  "recover_step fl reg radius maxStep actor =
     (case PlanStaticActorSpawnLeashReturnStep fl reg actor radius maxStep of
        None \<Rightarrow> None
      | Some plan \<Rightarrow>
          if spComplete plan \<and> \<not> evReturnRequired (spEvaluation plan) then
            map_option (\<lambda>plan. actor\<lparr>aPosition := spNext plan\<rparr>)
              (PlanStaticActorSpawnLeashHomewardStep fl reg actor radius maxStep)
          else Some (actor\<lparr>aPosition := spNext plan\<rparr>))"

fun recover :: "float_ops \<Rightarrow> profile_registry \<Rightarrow> i32 \<Rightarrow> i32 \<Rightarrow> nat \<Rightarrow> static_entity \<Rightarrow> static_entity option" where
  "recover fl reg radius maxStep 0 actor = Some actor"
| "recover fl reg radius maxStep (Suc n) actor =
     Option.bind (recover_step fl reg radius maxStep actor) (recover fl reg radius maxStep n)"

text \<open>One round: nothing at home, straight home from another map, else one step on the grid.\<close>

lemma recover_step_cases:
  assumes "spawn_backed reg actor" and "Position_Valid (home_of actor)" and "Position_Valid (aPosition actor)"
    and "0 < sint radius" and "0 < sint maxStep"
  shows "recover_step fl reg radius maxStep actor =
    Some (actor\<lparr>aPosition :=
      if aPosition actor = home_of actor \<or> pMapIndex (aPosition actor) \<noteq> pMapIndex (home_of actor) then home_of actor
      else fst (returnStepTowardHome fl (aPosition actor) (home_of actor) maxStep)\<rparr>)"
proof -
  obtain nxt landed where r: "returnStepTowardHome fl (aPosition actor) (home_of actor) maxStep = (nxt, landed)" by force
  note ev = EvaluateStaticActorCurrentSpawnLeash_exact [of reg actor radius]
  note defs = recover_step_def PlanStaticActorSpawnLeashReturnStep_def PlanStaticActorSpawnLeashHomewardStep_def
  consider (home) "home_of actor = aPosition actor"
    | (far) "home_of actor \<noteq> aPosition actor" "pMapIndex (aPosition actor) \<noteq> pMapIndex (home_of actor)"
    | (out) "home_of actor \<noteq> aPosition actor" "pMapIndex (aPosition actor) = pMapIndex (home_of actor)"
        "\<not> inside_leash (home_of actor) (aPosition actor) radius"
    | (within) "home_of actor \<noteq> aPosition actor" "inside_leash (home_of actor) (aPosition actor) radius"
    by blast
  then show ?thesis
  proof cases
    case home
    then show ?thesis using assms by (simp add: defs ev)
  next
    case far
    then have "\<not> SameMap (home_of actor) (aPosition actor)" "\<not> inside_leash (home_of actor) (aPosition actor) radius"
      by (auto simp: SameMap_def inside_leash_def)
    with far assms show ?thesis by (simp add: defs ev)
  next
    case out
    then have "SameMap (home_of actor) (aPosition actor)" using assms by (simp add: SameMap_def)
    with out assms show ?thesis by (simp add: defs ev r)
  next
    case within
    then have "SameMap (home_of actor) (aPosition actor)" using assms by (simp add: SameMap_def inside_leash_def)
    with within assms show ?thesis by (simp add: defs ev r Position_Equal_def inside_leash_def [of _ _ radius])
  qed
qed

lemma recover_home_stays:
  assumes "spawn_backed reg actor" and "Position_Valid (home_of actor)" and "aPosition actor = home_of actor"
    and "0 < sint radius" and "0 < sint maxStep"
  shows "recover fl reg radius maxStep n actor = Some actor"
proof (induction n)
  case (Suc n)
  have "recover_step fl reg radius maxStep actor = Some actor"
    using recover_step_cases [of reg actor radius maxStep fl] assms by simp
  with Suc show ?case by simp
qed simp

lemma moved_actor [simp]:
  "Position_Valid p \<Longrightarrow> Position_Valid (home_of actor) \<Longrightarrow> Position_Valid (aSpawnHome actor) \<Longrightarrow> home_of (actor\<lparr>aPosition := p\<rparr>) = home_of actor"
  "spawn_backed reg (actor\<lparr>aPosition := p\<rparr>) = spawn_backed reg actor"
  by (simp_all add: home_of_def spawn_backed_def)

lemma recover_grid:
  assumes fl: "ieee fl" and "spawn_backed reg actor" and h: "Position_Valid (aSpawnHome actor)"
    and "pMapIndex (aPosition actor) = pMapIndex (aSpawnHome actor)"
    and "0 < sint radius" and "0 < sint maxStep" and "grid_distance (aPosition actor) (aSpawnHome actor) \<le> n"
  shows "recover fl reg radius maxStep n actor = Some (actor\<lparr>aPosition := aSpawnHome actor\<rparr>)"
  using assms(2-7)
proof (induction n arbitrary: actor)
  case 0
  then show ?case using grid_distance_0 [of "aPosition actor" "aSpawnHome actor"] by simp
next
  case (Suc n)
  have hv: "home_of actor = aSpawnHome actor" using Suc.prems by (simp add: home_of_def)
  have pv: "Position_Valid (aPosition actor)" using Suc.prems by (simp add: Position_Valid_def)
  show ?case
  proof (cases "aPosition actor = aSpawnHome actor")
    case True
    then have "recover fl reg radius maxStep (Suc n) actor = Some actor"
      using Suc.prems hv by (intro recover_home_stays) simp_all
    then show ?thesis using True by simp
  next
    case False
    obtain nxt landed where r: "returnStepTowardHome fl (aPosition actor) (aSpawnHome actor) maxStep = (nxt, landed)" by force
    have sm: "SameMap (aPosition actor) (aSpawnHome actor)" using pv Suc.prems by (simp add: SameMap_def)
    have "grid_distance nxt (aSpawnHome actor) < grid_distance (aPosition actor) (aSpawnHome actor)"
      by (rule return_step_closer [OF fl sm Suc.prems(5) False r])
    moreover have "pMapIndex nxt = pMapIndex (aSpawnHome actor)" by (rule return_step(1) [OF fl sm Suc.prems(5) r])
    ultimately have "recover fl reg radius maxStep n (actor\<lparr>aPosition := nxt\<rparr>) =
        Some (actor\<lparr>aPosition := nxt, aPosition := aSpawnHome (actor\<lparr>aPosition := nxt\<rparr>)\<rparr>)"
      using Suc.prems by (intro Suc.IH) simp_all
    moreover have "recover_step fl reg radius maxStep actor = Some (actor\<lparr>aPosition := nxt\<rparr>)"
      using recover_step_cases [of reg actor radius maxStep fl] Suc.prems False hv pv r by simp
    ultimately show ?thesis by simp
  qed
qed

text \<open>Every round on the way: the actor stands somewhere valid, and is home or gets closer.\<close>

lemma one_round:
  assumes fl: "ieee fl" and b: "spawn_backed reg actor" and h: "Position_Valid (aSpawnHome actor)"
    and p: "Position_Valid (aPosition actor)" and r: "0 < sint radius" and m: "0 < sint maxStep"
  shows "\<exists>q. recover_step fl reg radius maxStep actor = Some (actor\<lparr>aPosition := q\<rparr>) \<and> Position_Valid q \<and>
    (aPosition actor \<noteq> aSpawnHome actor \<longrightarrow>
       pMapIndex q = pMapIndex (aSpawnHome actor) \<and>
       (if pMapIndex (aPosition actor) = pMapIndex (aSpawnHome actor)
        then grid_distance q (aSpawnHome actor) < grid_distance (aPosition actor) (aSpawnHome actor) else q = aSpawnHome actor))"
proof -
  have hv: "home_of actor = aSpawnHome actor" using h by (simp add: home_of_def)
  note step = recover_step_cases [OF b _ p r m, of fl, unfolded hv, OF h]
  show ?thesis
  proof (cases "aPosition actor = aSpawnHome actor \<or> pMapIndex (aPosition actor) \<noteq> pMapIndex (aSpawnHome actor)")
    case True
    then show ?thesis using step h by auto
  next
    case False
    obtain q landed where q: "returnStepTowardHome fl (aPosition actor) (aSpawnHome actor) maxStep = (q, landed)" by force
    have sm: "SameMap (aPosition actor) (aSpawnHome actor)" using False p h by (simp add: SameMap_def)
    have "pMapIndex q = pMapIndex (aSpawnHome actor)" by (rule return_step(1) [OF fl sm m q])
    moreover have "grid_distance q (aSpawnHome actor) < grid_distance (aPosition actor) (aSpawnHome actor)"
      using False by (intro return_step_closer [OF fl sm m _ q]) simp
    ultimately show ?thesis using step False h q by (intro exI [of _ q]) (simp add: Position_Valid_def)
  qed
qed

lemma recover_last:
  "recover fl reg radius maxStep (Suc n) actor =
     Option.bind (recover fl reg radius maxStep n actor) (recover_step fl reg radius maxStep)"
proof (induction n arbitrary: actor)
  case (Suc n)
  then show ?case
    by (cases "recover_step fl reg radius maxStep actor") (simp_all add: recover.simps(2) [of _ _ _ _ _ actor] del: recover.simps)
next
  case (0 actor)
  show ?case by (cases "recover_step fl reg radius maxStep actor") simp_all
qed

lemma recover_stands:
  assumes fl: "ieee fl" and b: "spawn_backed reg actor" and h: "Position_Valid (aSpawnHome actor)"
    and p: "Position_Valid (aPosition actor)" and r: "0 < sint radius" and m: "0 < sint maxStep"
  shows "\<exists>q. recover fl reg radius maxStep n actor = Some (actor\<lparr>aPosition := q\<rparr>) \<and> Position_Valid q"
proof (induction n)
  case 0
  then show ?case using p by (intro exI [of _ "aPosition actor"]) simp
next
  case (Suc n)
  then obtain q where q: "recover fl reg radius maxStep n actor = Some (actor\<lparr>aPosition := q\<rparr>)" "Position_Valid q" by blast
  with one_round [of fl reg "actor\<lparr>aPosition := q\<rparr>", OF fl _ _ _ r m] b h show ?case
    unfolding recover_last by (auto simp del: recover.simps)
qed

section \<open>The nearest candidate\<close>

definition aggro_eligible :: "static_entity \<Rightarrow> i32 \<Rightarrow> aggro_candidate \<Rightarrow> bool" where
  "aggro_eligible actor radius c \<longleftrightarrow> acEntityID c \<noteq> 0 \<and> pMapIndex (acPosition c) = pMapIndex (aPosition actor) \<and>
     dist2 (aPosition actor) (acPosition c) \<le> sint radius ^ 2"

definition may_acquire :: "profile_registry \<Rightarrow> static_entity \<Rightarrow> i32 \<Rightarrow> bool" where
  "may_acquire reg actor radius \<longleftrightarrow> spawn_backed reg actor \<and> Position_Valid (aPosition actor) \<and> 0 < sint radius \<and>
     inside_leash (home_of actor) (aPosition actor) (EffectiveStaticActorSpawnLeashRadiusForActor reg actor)"

lemma leash_radius_positive: "0 < sint (EffectiveStaticActorSpawnLeashRadiusForActor reg actor)"
  by (simp add: EffectiveStaticActorSpawnLeashRadiusForActor_def EffectiveStaticActorSpawnLeashRadius_def effective_def
      EffectiveStaticActorSpawnLeashRadiusFromDefaults_def DefaultSpawnLeashRadius_def split: option.split)

lemma home_of_valid [simp]: "Position_Valid (aPosition actor) \<Longrightarrow> Position_Valid (home_of actor)"
  by (simp add: home_of_def)

lemma aggro_exact:
  "EvaluateStaticActorSpawnAggroAcquisition reg actor p radius =
     (if 0 < sint radius \<and> Position_Valid p \<and> spawn_backed reg actor \<and> Position_Valid (aPosition actor) then
        Some \<lparr>agCurrent = aPosition actor, agCandidate = p, agRadius = radius,
              agAcquired = (inside_leash (home_of actor) (aPosition actor) (EffectiveStaticActorSpawnLeashRadiusForActor reg actor) \<and>
                pMapIndex p = pMapIndex (aPosition actor) \<and> dist2 (aPosition actor) p \<le> sint radius ^ 2)\<rparr>
      else None)"
proof (cases "0 < sint radius \<and> Position_Valid p \<and> spawn_backed reg actor \<and> Position_Valid (aPosition actor)")
  case True
  then have sm: "SameMap (aPosition actor) p \<longleftrightarrow> pMapIndex p = pMapIndex (aPosition actor)"
    by (auto simp: SameMap_def)
  from True show ?thesis
    by (simp add: EvaluateStaticActorSpawnAggroAcquisition_def EvaluateStaticActorCurrentSpawnLeash_exact sm
        leash_radius_positive positionWithinRadius_exact Let_def) blast
next
  case False
  then show ?thesis
    by (auto simp: EvaluateStaticActorSpawnAggroAcquisition_def EvaluateStaticActorCurrentSpawnLeash_exact leash_radius_positive)
qed

lemma aggro_step:
  "acEntityID c \<noteq> 0 \<and> Position_Valid (acPosition c) \<and>
    (\<exists>ev. EvaluateStaticActorSpawnAggroAcquisition reg actor (acPosition c) radius = Some ev \<and> agAcquired ev) \<longleftrightarrow>
   may_acquire reg actor radius \<and> aggro_eligible actor radius c"
  unfolding aggro_exact may_acquire_def aggro_eligible_def
  by (auto simp: Position_Valid_def)

lemma eligible_distance:
  assumes "aggro_eligible actor radius c" and r: "0 < sint radius"
  shows "sint (squaredDistanceXY (aPosition actor) (acPosition c)) = dist2 (aPosition actor) (acPosition c)"
proof -
  let ?x = "sint (pX (aPosition actor)) - sint (pX (acPosition c))" and ?y = "sint (pY (aPosition actor)) - sint (pY (acPosition c))"
  have "?x ^ 2 + ?y ^ 2 \<le> sint radius ^ 2" using assms by (simp add: aggro_eligible_def dist2_def)
  then have "?x ^ 2 \<le> sint radius ^ 2" "?y ^ 2 \<le> sint radius ^ 2"
    using zero_le_power2 [of ?x] zero_le_power2 [of ?y] by linarith+
  then have "\<bar>?x\<bar> \<le> \<bar>sint radius\<bar>" "\<bar>?y\<bar> \<le> \<bar>sint radius\<bar>" by (simp_all only: abs_le_square_iff)
  then have "\<bar>?x\<bar> < 2 ^ 31" "\<bar>?y\<bar> < 2 ^ 31" using r i32_range [of radius] by simp_all
  from squaredDistanceXY_exact [OF this] show ?thesis by (simp add: dist2_def)
qed

text \<open>The loop keeps the first of the eligible candidates with the smallest distance and identifier.\<close>

definition best_of :: "static_entity \<Rightarrow> i32 \<Rightarrow> aggro_candidate list \<Rightarrow> aggro_candidate \<Rightarrow> bool" where
  "best_of actor radius cs b \<longleftrightarrow> b \<in> set cs \<and> aggro_eligible actor radius b \<and>
     (\<forall>c \<in> set cs. aggro_eligible actor radius c \<longrightarrow>
        dist2 (aPosition actor) (acPosition b) < dist2 (aPosition actor) (acPosition c) \<or>
        dist2 (aPosition actor) (acPosition b) = dist2 (aPosition actor) (acPosition c) \<and> acEntityID b \<le> acEntityID c)"

lemma select_aggro_skip:
  assumes "may_acquire reg actor radius" and "\<not> aggro_eligible actor radius c"
  shows "select_aggro reg actor radius best (c # cs) = select_aggro reg actor radius best cs"
  using assms aggro_step [of c reg actor radius]
  by (cases "EvaluateStaticActorSpawnAggroAcquisition reg actor (acPosition c) radius") auto

lemma select_aggro_take:
  assumes "may_acquire reg actor radius" and "aggro_eligible actor radius c"
  shows "select_aggro reg actor radius best (c # cs) =
    select_aggro reg actor radius
      (case best of
         None \<Rightarrow> Some (c, squaredDistanceXY (aPosition actor) (acPosition c))
       | Some (b, d) \<Rightarrow>
           if dist2 (aPosition actor) (acPosition c) < sint d \<or>
              dist2 (aPosition actor) (acPosition c) = sint d \<and> acEntityID c < acEntityID b
           then Some (c, squaredDistanceXY (aPosition actor) (acPosition c)) else best) cs"
proof -
  have r: "0 < sint radius" using assms(1) by (simp add: may_acquire_def)
  obtain ev where ev: "EvaluateStaticActorSpawnAggroAcquisition reg actor (acPosition c) radius = Some ev" "agAcquired ev"
    and c: "acEntityID c \<noteq> 0" "Position_Valid (acPosition c)"
    using assms aggro_step [of c reg actor radius] by blast
  have "agCurrent ev = aPosition actor" using ev(1) unfolding aggro_exact by (auto split: if_split_asm)
  moreover have "squaredDistanceXY (aPosition actor) (acPosition c) = d \<longleftrightarrow> dist2 (aPosition actor) (acPosition c) = sint d" for d
    using eligible_distance [OF assms(2) r] by (auto simp: signed_word_eqI)
  ultimately show ?thesis
    by (simp add: ev c Let_def eligible_distance [OF assms(2) r] split: option.split prod.split)
qed

definition aggro_inv :: "static_entity \<Rightarrow> i32 \<Rightarrow> aggro_candidate list \<Rightarrow> (aggro_candidate \<times> i64) option \<Rightarrow> bool" where
  "aggro_inv actor radius seen best \<longleftrightarrow>
     (case best of
        None \<Rightarrow> (\<forall>c \<in> set seen. \<not> aggro_eligible actor radius c)
      | Some (b, d) \<Rightarrow> best_of actor radius seen b \<and> sint d = dist2 (aPosition actor) (acPosition b))"

lemma best_of_skip: "\<not> aggro_eligible actor radius c \<Longrightarrow> best_of actor radius seen b \<Longrightarrow> best_of actor radius (seen @ [c]) b"
  unfolding best_of_def by auto

lemma best_of_keep:
  "best_of actor radius seen b \<Longrightarrow>
   \<not> (dist2 (aPosition actor) (acPosition c) < dist2 (aPosition actor) (acPosition b) \<or>
      dist2 (aPosition actor) (acPosition c) = dist2 (aPosition actor) (acPosition b) \<and> acEntityID c < acEntityID b) \<Longrightarrow>
   best_of actor radius (seen @ [c]) b"
  unfolding best_of_def by (auto simp: not_less)

lemma best_of_replace:
  "best_of actor radius seen b \<Longrightarrow> aggro_eligible actor radius c \<Longrightarrow>
   dist2 (aPosition actor) (acPosition c) < dist2 (aPosition actor) (acPosition b) \<or>
   dist2 (aPosition actor) (acPosition c) = dist2 (aPosition actor) (acPosition b) \<and> acEntityID c < acEntityID b \<Longrightarrow>
   best_of actor radius (seen @ [c]) c"
  unfolding best_of_def by (auto intro: less_imp_le elim: order.trans)

lemma select_aggro_inv:
  assumes "may_acquire reg actor radius"
  shows "aggro_inv actor radius seen best \<Longrightarrow> aggro_inv actor radius (seen @ cs) (select_aggro reg actor radius best cs)"
proof (induction cs arbitrary: seen best)
  case (Cons c cs)
  have r: "0 < sint radius" using assms by (simp add: may_acquire_def)
  show ?case
  proof (cases "aggro_eligible actor radius c")
    case False
    have "aggro_inv actor radius (seen @ [c]) best"
      using Cons.prems best_of_skip [OF False] False by (auto simp: aggro_inv_def split: option.splits)
    from Cons.IH [OF this] show ?thesis by (simp only: select_aggro_skip [OF assms False]) simp
  next
    case True
    note d = eligible_distance [OF True r]
    have "aggro_inv actor radius (seen @ [c])
      (case best of
         None \<Rightarrow> Some (c, squaredDistanceXY (aPosition actor) (acPosition c))
       | Some (b, d) \<Rightarrow>
           if dist2 (aPosition actor) (acPosition c) < sint d \<or>
              dist2 (aPosition actor) (acPosition c) = sint d \<and> acEntityID c < acEntityID b
           then Some (c, squaredDistanceXY (aPosition actor) (acPosition c)) else best)"
    proof (cases best)
      case None
      then show ?thesis using Cons.prems True d by (auto simp: aggro_inv_def best_of_def)
    next
      case (Some bd)
      obtain b e where bd: "bd = (b, e)" by (cases bd)
      have i: "best_of actor radius seen b" "sint e = dist2 (aPosition actor) (acPosition b)"
        using Cons.prems by (simp_all add: aggro_inv_def Some bd)
      show ?thesis
        using best_of_keep [OF i(1), of c] best_of_replace [OF i(1) True] i d
        by (simp add: aggro_inv_def Some bd split: if_split)
    qed
    from Cons.IH [OF this] show ?thesis by (simp only: select_aggro_take [OF assms True]) simp
  qed
qed simp

lemma select_aggro_never:
  "\<not> may_acquire reg actor radius \<Longrightarrow> select_aggro reg actor radius best cs = best"
proof (induction cs arbitrary: best)
  case (Cons c cs)
  then show ?case using aggro_step [of c reg actor radius]
    by (cases "EvaluateStaticActorSpawnAggroAcquisition reg actor (acPosition c) radius") auto
qed simp

section \<open>Properties\<close>

text \<open>
  C34: The leash of a spawned actor is the Euclidean disc around its home: the planner answers
  exactly when the actor comes from a spawn group with a valid combat profile, stands on a map
  and the radius is positive; it says \<open>at_home\<close> exactly at home,
  \<open>return_required\<close> exactly on another map or further away than the radius, over the whole
  \<open>int32\<close> range (the \<open>int64\<close> squares do not wrap, unlike those of the radius
  visibility), and a chase step never leaves the disc, whatever the floating-point arithmetic
  returns.
\<close>

theorem leash_is_a_disc:
  "EvaluateStaticActorCurrentSpawnLeash reg actor radius =
      (let home = home_of actor; here = aPosition actor;
           inside = (pMapIndex here = pMapIndex home \<and> dist2 home here \<le> sint radius ^ 2) in
       if spawn_backed reg actor \<and> Position_Valid home \<and> Position_Valid here \<and> 0 < sint radius then
        Some \<lparr>evHome = home, evCurrent = here, evRadius = radius,
              evStatus = (if home = here then LeashAtHome else if inside then LeashWithinRadius else LeashReturnRequired),
              evReturnRequired = (\<not> inside), evReturnTarget = home\<rparr>
       else None) \<and>
    (\<forall>fl owner maxStep plan. PlanStaticActorSpawnChaseStep fl reg actor owner radius maxStep = Some plan \<longrightarrow>
       pMapIndex (spNext plan) = pMapIndex (home_of actor) \<and> dist2 (home_of actor) (spNext plan) \<le> sint radius ^ 2 \<and>
       pMapIndex owner = pMapIndex (home_of actor))"
proof (rule conjI)
  show "\<forall>fl owner maxStep plan. PlanStaticActorSpawnChaseStep fl reg actor owner radius maxStep = Some plan \<longrightarrow>
       pMapIndex (spNext plan) = pMapIndex (home_of actor) \<and> dist2 (home_of actor) (spNext plan) \<le> sint radius ^ 2 \<and>
       pMapIndex owner = pMapIndex (home_of actor)"
    using chase_inside(1,3) unfolding inside_leash_def by blast
qed (simp only: EvaluateStaticActorCurrentSpawnLeash_exact inside_leash_def Let_def)

text \<open>Exact arithmetic is one the laws allow, and a wolf of one spawn group.\<close>

definition exact_floats :: float_ops where
  "exact_floats = \<lparr>f_hypot = \<lambda>x y. sqrt (x ^ 2 + y ^ 2), f_add = (+), f_mul = (*), f_div = (/)\<rparr>"

definition wolf :: static_entity where
  "wolf = \<lparr>aEntity = \<lparr>eID = 9, eKind = EntityKindStaticActor, eVID = 0, eName = ''Wolf''\<rparr>,
     aPosition = \<lparr>pMapIndex = 1, pX = 300, pY = 0\<rparr>, aSpawnHome = \<lparr>pMapIndex = 1, pX = 0, pY = 0\<rparr>, aRaceNum = 101,
     aCombatProfile = ''practice_mob'', aInteractionKind = [], aInteractionRef = [], aSpawnGroupRef = ''wolves.east'',
     aCombatKind = ''practice_mob'', aDeathReward = \<lparr>Experience = 0, Gold = 0, DropVnums = []\<rparr>\<rparr>"

lemma ieee_exact: "ieee exact_floats"
proof -
  have "a * s \<le> a" if "0 \<le> a" "s \<le> 1" for a s :: real using mult_left_mono [OF that(2,1)] by simp
  moreover have "a \<le> a * s" if "a \<le> 0" "s \<le> 1" for a s :: real using mult_left_mono_neg [OF that(2,1)] by simp
  ultimately show ?thesis by (auto simp: ieee_def exact_floats_def mult_nonpos_nonneg)
qed

lemma wolf_backed: "spawn_backed Map.empty wolf"
  by (simp add: spawn_backed_def wolf_def Let_def staticActorCombatProfile_def ValidStaticActorSpawnGroupRef_def
      trim_space_plain plain_simps validSpawnGroupRefSegment_def isLower_def name_char_def
      ValidStaticActorCombatKind_def ValidStaticActorCombatProfile_def PracticeMob_def)

lemma wolf_fields [simp]:
  "aPosition wolf = \<lparr>pMapIndex = 1, pX = 300, pY = 0\<rparr>" "aSpawnHome wolf = \<lparr>pMapIndex = 1, pX = 0, pY = 0\<rparr>"
  "home_of wolf = \<lparr>pMapIndex = 1, pX = 0, pY = 0\<rparr>" "aCombatProfile wolf = ''practice_mob''" "aCombatKind wolf = ''practice_mob''"
  by (simp_all add: wolf_def home_of_def Position_Valid_def)

theorem leash_is_a_disc_witness:
  "\<exists>plan. PlanStaticActorSpawnChaseStep exact_floats Map.empty wolf \<lparr>pMapIndex = 1, pX = 350, pY = 0\<rparr> 400 100 = Some plan \<and>
     dist2 (home_of wolf) (spNext plan) \<le> 400 ^ 2"
proof -
  have s: "returnStepTowardHome exact_floats \<lparr>pMapIndex = 1, pX = 300, pY = 0\<rparr> \<lparr>pMapIndex = 1, pX = 350, pY = 0\<rparr> 100 =
      (\<lparr>pMapIndex = 1, pX = 350, pY = 0\<rparr>, True)"
    by (simp add: returnStepTowardHome_def SameMap_def Position_Valid_def exact_floats_def float64_def Let_def)
  obtain plan where p: "PlanStaticActorSpawnChaseStep exact_floats Map.empty wolf \<lparr>pMapIndex = 1, pX = 350, pY = 0\<rparr> 400 100 = Some plan"
    by (simp add: PlanStaticActorSpawnChaseStep_def EvaluateStaticActorCurrentSpawnLeash_exact wolf_backed Position_Valid_def
        inside_leash_def dist2_def SameMap_def Position_Equal_def s positionWithinRadius_exact)
  with leash_is_a_disc [of Map.empty wolf 400] show ?thesis by auto
qed

lemma recover_arrives:
  assumes fl: "ieee fl" and b: "spawn_backed reg actor" and h: "Position_Valid (aSpawnHome actor)"
    and p: "Position_Valid (aPosition actor)" and r: "0 < sint radius" and m: "0 < sint maxStep"
    and n: "(if pMapIndex (aPosition actor) = pMapIndex (aSpawnHome actor)
             then grid_distance (aPosition actor) (aSpawnHome actor) else 1) \<le> n"
  shows "recover fl reg radius maxStep n actor = Some (actor\<lparr>aPosition := aSpawnHome actor\<rparr>)"
proof (cases "pMapIndex (aPosition actor) = pMapIndex (aSpawnHome actor)")
  case True
  with n show ?thesis by (intro recover_grid [OF fl b h True r m]) simp
next
  case False
  with n obtain k where k: "n = Suc k" by (cases n) simp_all
  have hv: "home_of actor = aSpawnHome actor" using h by (simp add: home_of_def)
  have "recover_step fl reg radius maxStep actor = Some (actor\<lparr>aPosition := aSpawnHome actor\<rparr>)"
    using recover_step_cases [of reg actor radius maxStep fl] False b h p r m hv by simp
  moreover have "recover fl reg radius maxStep k (actor\<lparr>aPosition := aSpawnHome actor\<rparr>) =
      Some (actor\<lparr>aPosition := aSpawnHome actor\<rparr>)"
    using b h r m hv by (intro recover_home_stays) simp_all
  ultimately show ?thesis by (simp add: k)
qed

text \<open>
  C33: A spawned actor always gets home. With floating-point arithmetic that has the sign and
  monotonicity facts of IEEE 754, running the return planner and, inside the leash, the homeward
  planner changes nothing but the actor's position. On every round on which it is not home yet, the
  round puts it strictly closer on the grid of its home's map, or exactly on its home when it was on
  another map. It is home after at most as many rounds as there are grid steps (one round from
  another map), and after any number of further rounds.
\<close>

theorem spawn_gets_home:
  assumes fl: "ieee fl" and b: "spawn_backed reg actor" and h: "Position_Valid (aSpawnHome actor)"
    and p: "Position_Valid (aPosition actor)" and r: "0 < sint radius" and m: "0 < sint maxStep"
  shows "(\<forall>k. \<exists>cur next.
      recover fl reg radius maxStep k actor = Some (actor\<lparr>aPosition := cur\<rparr>) \<and>
      recover fl reg radius maxStep (Suc k) actor = Some (actor\<lparr>aPosition := next\<rparr>) \<and>
      (cur \<noteq> aSpawnHome actor \<longrightarrow>
         pMapIndex next = pMapIndex (aSpawnHome actor) \<and>
         (if pMapIndex cur = pMapIndex (aSpawnHome actor)
          then grid_distance next (aSpawnHome actor) < grid_distance cur (aSpawnHome actor) else next = aSpawnHome actor))) \<and>
    (\<forall>n. (if pMapIndex (aPosition actor) = pMapIndex (aSpawnHome actor)
          then grid_distance (aPosition actor) (aSpawnHome actor) else 1) \<le> n \<longrightarrow>
       recover fl reg radius maxStep n actor = Some (actor\<lparr>aPosition := aSpawnHome actor\<rparr>))"
proof (intro conjI allI impI recover_arrives [OF assms])
  fix k
  obtain q where q: "recover fl reg radius maxStep k actor = Some (actor\<lparr>aPosition := q\<rparr>)" "Position_Valid q"
    using recover_stands [OF assms] by blast
  with one_round [of fl reg "actor\<lparr>aPosition := q\<rparr>", OF fl _ _ _ r m] b h
  show "\<exists>cur next.
      recover fl reg radius maxStep k actor = Some (actor\<lparr>aPosition := cur\<rparr>) \<and>
      recover fl reg radius maxStep (Suc k) actor = Some (actor\<lparr>aPosition := next\<rparr>) \<and>
      (cur \<noteq> aSpawnHome actor \<longrightarrow>
         pMapIndex next = pMapIndex (aSpawnHome actor) \<and>
         (if pMapIndex cur = pMapIndex (aSpawnHome actor)
          then grid_distance next (aSpawnHome actor) < grid_distance cur (aSpawnHome actor) else next = aSpawnHome actor))"
    unfolding recover_last by (fastforce simp del: recover.simps)
qed

theorem spawn_gets_home_witness:
  "recover exact_floats Map.empty 100 7 300 wolf = Some (wolf\<lparr>aPosition := \<lparr>pMapIndex = 1, pX = 0, pY = 0\<rparr>\<rparr>)"
  using spawn_gets_home [OF ieee_exact wolf_backed, of 100 7, THEN conjunct2, THEN spec [of _ 300]]
  by (simp add: Position_Valid_def grid_distance_def)

text \<open>
  A spawn turns on nobody unless it comes from a valid spawn group and stands inside its
  leash, and then on the nearest player: among the candidates on its map, within the aggro radius and with an
  identity it picks one at the least distance, of those one with the least identifier, and none only
  when there is no such candidate. Distances are exact, over any candidate positions.
\<close>

theorem aggro_takes_the_nearest:
  "case SelectStaticActorSpawnAggroCandidate reg actor cs radius of
      None \<Rightarrow> may_acquire reg actor radius \<longrightarrow> (\<forall>c \<in> set cs. \<not> aggro_eligible actor radius c)
    | Some b \<Rightarrow> may_acquire reg actor radius \<and> b \<in> set cs \<and> aggro_eligible actor radius b \<and>
        (\<forall>c \<in> set cs. aggro_eligible actor radius c \<longrightarrow>
           dist2 (aPosition actor) (acPosition b) < dist2 (aPosition actor) (acPosition c) \<or>
           dist2 (aPosition actor) (acPosition b) = dist2 (aPosition actor) (acPosition c) \<and> acEntityID b \<le> acEntityID c)"
proof (cases "may_acquire reg actor radius")
  case True
  have "aggro_inv actor radius ([] @ cs) (select_aggro reg actor radius None cs)"
    by (rule select_aggro_inv [OF True]) (simp add: aggro_inv_def)
  then show ?thesis using True
    by (auto simp: SelectStaticActorSpawnAggroCandidate_def aggro_inv_def best_of_def split: option.splits)
next
  case False
  then show ?thesis by (simp add: SelectStaticActorSpawnAggroCandidate_def select_aggro_never)
qed

theorem aggro_takes_the_nearest_witness:
  "SelectStaticActorSpawnAggroCandidate Map.empty wolf
     [\<lparr>acEntityID = 8, acPosition = \<lparr>pMapIndex = 1, pX = 310, pY = 0\<rparr>\<rparr>] 200 \<noteq> None"
proof -
  have "may_acquire Map.empty wolf 200"
    by (simp add: may_acquire_def wolf_backed Position_Valid_def inside_leash_def dist2_def
        EffectiveStaticActorSpawnLeashRadiusForActor_def EffectiveStaticActorSpawnLeashRadius_def effective_def
        staticActorCombatProfile_def trim_space_plain plain_simps
        BootstrapStaticActorCombatProfileDefaults_def TrainingDummy_def PracticeMob_def builtin_defaults_def zero_defaults_def
        EffectiveStaticActorSpawnLeashRadiusFromDefaults_def DefaultSpawnLeashRadius_def)
  then show ?thesis
    using aggro_takes_the_nearest [where reg = Map.empty and actor = wolf and radius = 200 and
        cs = "[\<lparr>acEntityID = 8, acPosition = \<lparr>pMapIndex = 1, pX = 310, pY = 0\<rparr>\<rparr>]"]
    by (auto simp: dist2_def aggro_eligible_def split: option.splits)
qed

end
