(* ===== verification/World_Directory.thy ===== *)
theory World_Directory
  imports World_Entity
begin

text \<open>
  Directories of the world (\<open>internal/worldruntime\<close>: \<open>player_directory.go\<close>,
  \<open>non_player_directory.go\<close>, \<open>session_directory.go\<close>): maps by entity identifier
  with secondary indexes by visibility identifier and by name. A Go map is a map; a walk over one
  whose order shows is a walk over its sorted keys, and the code sorts what it collects.
\<close>

section \<open>Secondary indexes\<close>

text \<open>An index answers for a key the identifier of the one entry that has it.\<close>

definition index_ok :: "('e \<Rightarrow> 'k option) \<Rightarrow> ('i \<Rightarrow> 'e option) \<Rightarrow> ('k \<Rightarrow> 'i option) \<Rightarrow> bool" where
  "index_ok key entries idx \<longleftrightarrow>
     (\<forall>k i. idx k = Some i \<longleftrightarrow> (\<exists>e. entries i = Some e \<and> key e = Some k))"

text \<open>The loop that deletes every key of an identifier.\<close>

definition unindex :: "('k \<Rightarrow> 'i option) \<Rightarrow> 'i \<Rightarrow> 'k \<Rightarrow> 'i option" where
  "unindex idx i = (\<lambda>k. if idx k = Some i then None else idx k)"

lemma index_ok_empty [simp]: "index_ok key Map.empty Map.empty"
  by (simp add: index_ok_def)

lemma index_ok_iff: "index_ok key entries idx \<Longrightarrow> idx k = Some i \<longleftrightarrow> (\<exists>e. entries i = Some e \<and> key e = Some k)"
  by (simp add: index_ok_def)

lemma index_ok_unique:
  "index_ok key entries idx \<Longrightarrow> entries i = Some e \<Longrightarrow> entries j = Some e' \<Longrightarrow> key e = Some k \<Longrightarrow> key e' = Some k \<Longrightarrow> i = j"
  unfolding index_ok_def by (metis option.inject)

lemma index_ok_delete:
  assumes ok: "index_ok key entries idx"
  shows "index_ok key (entries(i := None)) (unindex idx i)"
  unfolding index_ok_def
proof (intro allI)
  fix k j
  show "unindex idx i k = Some j \<longleftrightarrow> (\<exists>e. (entries(i := None)) j = Some e \<and> key e = Some k)"
    using index_ok_iff [OF ok, of k j] by (cases "j = i") (auto simp: unindex_def)
qed

lemma index_ok_insert:
  assumes ok: "index_ok key entries idx" and k: "key e = Some k" and free: "idx k = None \<or> idx k = Some i"
  shows "index_ok key (entries(i \<mapsto> e)) ((unindex idx i)(k \<mapsto> i))"
  unfolding index_ok_def
proof (intro allI)
  fix k' j
  note iff = index_ok_iff [OF ok]
  show "((unindex idx i)(k \<mapsto> i)) k' = Some j \<longleftrightarrow> (\<exists>e'. (entries(i \<mapsto> e)) j = Some e' \<and> key e' = Some k')"
    using iff [of k' j] iff [of k j] free k by (cases "j = i"; cases "k' = k") (auto simp: unindex_def)
qed

lemma unindex_same: "entries i = None \<Longrightarrow> index_ok key entries idx \<Longrightarrow> unindex idx i = idx"
  by (rule ext) (auto simp: unindex_def index_ok_def)

section \<open>What a directory promises\<close>

text \<open>
  The contract the entity registry builds on: entries are found by identifier, an entry is
  admitted when it is valid, its identifier is free (or taken, for an update) and no other entry
  clashes with it; everything else leaves the entries as they are.
\<close>

datatype 'e directory_command = AddEntry 'e | ReplaceEntry 'e | DropEntry u64

fun roster_step :: "('e \<Rightarrow> u64) \<Rightarrow> ('e \<Rightarrow> 'e) \<Rightarrow> ('e \<Rightarrow> bool) \<Rightarrow> ('e \<Rightarrow> 'e \<Rightarrow> bool) \<Rightarrow>
    (u64 \<Rightarrow> 'e option) \<Rightarrow> 'e directory_command \<Rightarrow> (u64 \<Rightarrow> 'e option) \<times> bool" where
  "roster_step ident stored admits clash m (AddEntry e) =
     (if admits e \<and> m (ident e) = None \<and> (\<forall>i x. m i = Some x \<longrightarrow> \<not> clash x e)
      then (m(ident e \<mapsto> stored e), True) else (m, False))"
| "roster_step ident stored admits clash m (ReplaceEntry e) =
     (if admits e \<and> m (ident e) \<noteq> None \<and> (\<forall>i x. m i = Some x \<longrightarrow> i \<noteq> ident e \<longrightarrow> \<not> clash x e)
      then (m(ident e \<mapsto> stored e), True) else (m, False))"
| "roster_step ident stored admits clash m (DropEntry i) = (m(i := None), m i \<noteq> None)"

fun directory_step :: "('d \<Rightarrow> 'e \<Rightarrow> 'd \<times> bool) \<Rightarrow> ('d \<Rightarrow> 'e \<Rightarrow> 'd \<times> bool) \<Rightarrow> ('d \<Rightarrow> u64 \<Rightarrow> 'd \<times> 'e option) \<Rightarrow>
    'd \<Rightarrow> 'e directory_command \<Rightarrow> 'd \<times> bool" where
  "directory_step register update remove d (AddEntry e) = register d e"
| "directory_step register update remove d (ReplaceEntry e) = update d e"
| "directory_step register update remove d (DropEntry i) = (fst (remove d i), snd (remove d i) \<noteq> None)"

locale directory =
  fixes ok :: "'d \<Rightarrow> bool" and entries :: "'d \<Rightarrow> u64 \<Rightarrow> 'e option"
    and ident :: "'e \<Rightarrow> u64" and stored :: "'e \<Rightarrow> 'e" and admits :: "'e \<Rightarrow> bool" and clash :: "'e \<Rightarrow> 'e \<Rightarrow> bool"
    and register :: "'d \<Rightarrow> 'e \<Rightarrow> 'd \<times> bool" and update :: "'d \<Rightarrow> 'e \<Rightarrow> 'd \<times> bool"
    and remove :: "'d \<Rightarrow> u64 \<Rightarrow> 'd \<times> 'e option"
  assumes register_ok: "ok d \<Longrightarrow> ok (fst (register d e))"
    and register_entries: "ok d \<Longrightarrow> (entries (fst (register d e)), snd (register d e)) =
      roster_step ident stored admits clash (entries d) (AddEntry e)"
    and update_ok: "ok d \<Longrightarrow> ok (fst (update d e))"
    and update_entries: "ok d \<Longrightarrow> (entries (fst (update d e)), snd (update d e)) =
      roster_step ident stored admits clash (entries d) (ReplaceEntry e)"
    and remove_ok: "ok d \<Longrightarrow> ok (fst (remove d i))"
    and remove_entries: "ok d \<Longrightarrow> entries (fst (remove d i)) = (entries d)(i := None) \<and> snd (remove d i) = entries d i"
begin

abbreviation step where "step \<equiv> directory_step register update remove"
abbreviation abstract where "abstract \<equiv> roster_step ident stored admits clash"

lemma step_ok: "ok d \<Longrightarrow> ok (fst (step d c))"
  by (cases c) (simp_all add: register_ok update_ok remove_ok)

lemma step_simulates: "ok d \<Longrightarrow> abstract (entries d) c = (entries (fst (step d c)), snd (step d c))"
proof (cases c)
  case (AddEntry e)
  assume "ok d"
  with AddEntry show ?thesis by (simp only: directory_step.simps register_entries)
next
  case (ReplaceEntry e)
  assume "ok d"
  with ReplaceEntry show ?thesis by (simp only: directory_step.simps update_entries)
next
  case (DropEntry i)
  assume "ok d"
  with DropEntry show ?thesis by (simp add: remove_entries)
qed

lemma register_then_found:
  "ok d \<Longrightarrow> snd (register d e) \<Longrightarrow> entries (fst (register d e)) (ident e) = Some (stored e)"
  using register_entries [of d e] by (simp split: if_split_asm)

lemma remove_then_gone: "ok d \<Longrightarrow> entries (fst (remove d i)) i = None"
  by (simp add: remove_entries)

end

sublocale directory \<subseteq> steps: simulation "directory_step register update remove"
  "roster_step ident stored admits clash" ok entries
  by unfold_locales (simp_all add: step_ok step_simulates)

section \<open>Players\<close>

record player_directory =
  pdByEntityID :: "u64 \<Rightarrow> player_entity option"
  pdByVID :: "u32 \<Rightarrow> u64 option"
  pdByName :: "string \<Rightarrow> u64 option"

definition NewPlayerDirectory :: player_directory where
  "NewPlayerDirectory = \<lparr>pdByEntityID = Map.empty, pdByVID = Map.empty, pdByName = Map.empty\<rparr>"

definition pd_removeSecondaryIndexes :: "player_directory \<Rightarrow> u64 \<Rightarrow> player_directory" where
  "pd_removeSecondaryIndexes d i =
     (if i = 0 then d
      else d\<lparr>pdByVID := unindex (pdByVID d) i, pdByName := unindex (pdByName d) i\<rparr>)"

definition conflictingEntityIDByVID :: "player_directory \<Rightarrow> u32 \<Rightarrow> u64 \<Rightarrow> player_directory \<times> bool" where
  "conflictingEntityIDByVID d vid i =
     (case pdByVID d vid of
        None \<Rightarrow> (d, False)
      | Some j \<Rightarrow>
          if j = i then (d, False)
          else case pdByEntityID d j of
            None \<Rightarrow> (d\<lparr>pdByVID := (pdByVID d)(vid := None)\<rparr>, False)
          | Some p \<Rightarrow> if eVID (plEntity p) \<noteq> vid then (d\<lparr>pdByVID := (pdByVID d)(vid := None)\<rparr>, False) else (d, True))"

definition conflictingEntityIDByName :: "player_directory \<Rightarrow> string \<Rightarrow> u64 \<Rightarrow> player_directory \<times> bool" where
  "conflictingEntityIDByName d name i =
     (case pdByName d name of
        None \<Rightarrow> (d, False)
      | Some j \<Rightarrow>
          if j = i then (d, False)
          else case pdByEntityID d j of
            None \<Rightarrow> (d\<lparr>pdByName := (pdByName d)(name := None)\<rparr>, False)
          | Some p \<Rightarrow> if eName (plEntity p) \<noteq> name then (d\<lparr>pdByName := (pdByName d)(name := None)\<rparr>, False) else (d, True))"

definition pd_store :: "player_directory \<Rightarrow> player_entity \<Rightarrow> player_directory" where
  "pd_store d p =
     d\<lparr>pdByEntityID := (pdByEntityID d)(eID (plEntity p) \<mapsto> clonePlayerEntity p),
       pdByVID := (pdByVID d)(eVID (plEntity p) \<mapsto> eID (plEntity p)),
       pdByName := (pdByName d)(eName (plEntity p) \<mapsto> eID (plEntity p))\<rparr>"

definition PlayerDirectory_Register :: "player_directory \<Rightarrow> player_entity \<Rightarrow> player_directory \<times> bool" where
  "PlayerDirectory_Register d p =
     (if \<not> validPlayerDirectoryEntity p then (d, False)
      else if pdByEntityID d (eID (plEntity p)) \<noteq> None then (d, False)
      else
        let (d1, conflict) = conflictingEntityIDByVID d (eVID (plEntity p)) (eID (plEntity p)) in
        if conflict then (d1, False)
        else
          let (d2, conflict) = conflictingEntityIDByName d1 (eName (plEntity p)) (eID (plEntity p)) in
          if conflict then (d2, False)
          else (pd_store (pd_removeSecondaryIndexes d2 (eID (plEntity p))) p, True))"

definition PlayerDirectory_Update :: "player_directory \<Rightarrow> player_entity \<Rightarrow> player_directory \<times> bool" where
  "PlayerDirectory_Update d p =
     (if \<not> validPlayerDirectoryEntity p then (d, False)
      else case pdByEntityID d (eID (plEntity p)) of
        None \<Rightarrow> (d, False)
      | Some previous \<Rightarrow>
        let (d1, conflict) = conflictingEntityIDByVID d (eVID (plEntity p)) (eID (plEntity p)) in
        if conflict then (d1, False)
        else
          let (d2, conflict) = conflictingEntityIDByName d1 (eName (plEntity p)) (eID (plEntity p)) in
          if conflict then (d2, False)
          else (pd_store (pd_removeSecondaryIndexes d2 (eID (plEntity previous))) p, True))"

definition PlayerDirectory_Remove :: "player_directory \<Rightarrow> u64 \<Rightarrow> player_directory \<times> player_entity option" where
  "PlayerDirectory_Remove d i =
     (if i = 0 then (d, None)
      else case pdByEntityID d i of
        None \<Rightarrow> (pd_removeSecondaryIndexes d i, None)
      | Some p \<Rightarrow> (pd_removeSecondaryIndexes (d\<lparr>pdByEntityID := (pdByEntityID d)(i := None)\<rparr>) i, Some p))"

definition PlayerDirectory_ByEntityID :: "player_directory \<Rightarrow> u64 \<Rightarrow> player_entity option" where
  "PlayerDirectory_ByEntityID d i = (if i = 0 then None else map_option clonePlayerEntity (pdByEntityID d i))"

definition PlayerDirectory_ByVID :: "player_directory \<Rightarrow> u32 \<Rightarrow> player_directory \<times> player_entity option" where
  "PlayerDirectory_ByVID d vid =
     (if vid = 0 then (d, None)
      else case pdByVID d vid of
        None \<Rightarrow> (d, None)
      | Some i \<Rightarrow>
          case pdByEntityID d i of
            None \<Rightarrow> (d\<lparr>pdByVID := (pdByVID d)(vid := None)\<rparr>, None)
          | Some p \<Rightarrow> if eVID (plEntity p) \<noteq> vid then (d\<lparr>pdByVID := (pdByVID d)(vid := None)\<rparr>, None)
                      else (d, Some (clonePlayerEntity p)))"

definition PlayerDirectory_ByName :: "player_directory \<Rightarrow> string \<Rightarrow> player_directory \<times> player_entity option" where
  "PlayerDirectory_ByName d name =
     (if name = [] then (d, None)
      else case pdByName d name of
        None \<Rightarrow> (d, None)
      | Some i \<Rightarrow>
          case pdByEntityID d i of
            None \<Rightarrow> (d\<lparr>pdByName := (pdByName d)(name := None)\<rparr>, None)
          | Some p \<Rightarrow> if eName (plEntity p) \<noteq> name then (d\<lparr>pdByName := (pdByName d)(name := None)\<rparr>, None)
                      else (d, Some (clonePlayerEntity p)))"

text \<open>The values of a map, here in the order of the keys; the callers sort them.\<close>

definition map_values :: "('i :: linorder \<Rightarrow> 'e option) \<Rightarrow> 'e list" where
  "map_values m = map (\<lambda>i. the (m i)) (sorted_list_of_set (dom m))"

definition PlayerDirectory_PlayerCharacters :: "player_directory \<Rightarrow> character list" where
  "PlayerDirectory_PlayerCharacters d =
     sortCharacters (map (\<lambda>p. cloneCharacterSnapshot (plCharacter p)) (map_values (pdByEntityID d)))"

definition sortPlayerEntities :: "player_entity list \<Rightarrow> player_entity list" where
  "sortPlayerEntities ps = sort_key (\<lambda>p. (eName (plEntity p), eID (plEntity p))) ps"

definition PlayerDirectory_playerEntities :: "player_directory \<Rightarrow> player_entity list" where
  "PlayerDirectory_playerEntities d = sortPlayerEntities (map clonePlayerEntity (map_values (pdByEntityID d)))"

section \<open>Static actors\<close>

record non_player_directory =
  npByEntityID :: "u64 \<Rightarrow> static_entity option"
  npByVID :: "u32 \<Rightarrow> u64 option"

definition NewNonPlayerDirectory :: non_player_directory where
  "NewNonPlayerDirectory = \<lparr>npByEntityID = Map.empty, npByVID = Map.empty\<rparr>"

definition removeVisibilityVIDsForEntityID :: "non_player_directory \<Rightarrow> u64 \<Rightarrow> non_player_directory" where
  "removeVisibilityVIDsForEntityID d i = (if i = 0 then d else d\<lparr>npByVID := unindex (npByVID d) i\<rparr>)"

definition conflictingVisibilityVID :: "non_player_directory \<Rightarrow> u32 \<Rightarrow> u64 \<Rightarrow> non_player_directory \<times> bool" where
  "conflictingVisibilityVID d vid i =
     (case npByVID d vid of
        None \<Rightarrow> (d, False)
      | Some j \<Rightarrow>
          if j = i then (d, False)
          else case npByEntityID d j of
            None \<Rightarrow> (d\<lparr>npByVID := (npByVID d)(vid := None)\<rparr>, False)
          | Some a \<Rightarrow>
              if StaticActorVisibilityVID a \<noteq> Some vid then (d\<lparr>npByVID := (npByVID d)(vid := None)\<rparr>, False)
              else (d, True))"

definition np_store :: "non_player_directory \<Rightarrow> static_entity \<Rightarrow> non_player_directory" where
  "np_store d a =
     (let d = d\<lparr>npByEntityID := (npByEntityID d)(eID (aEntity a) \<mapsto> cloneStaticEntity a)\<rparr> in
      case StaticActorVisibilityVID a of
        None \<Rightarrow> d
      | Some vid \<Rightarrow> d\<lparr>npByVID := (npByVID d)(vid \<mapsto> eID (aEntity a))\<rparr>)"

text \<open>The check \<open>vid, ok := ...; ok && d.conflictingVisibilityVID(vid, id)\<close>.\<close>

definition np_conflict :: "non_player_directory \<Rightarrow> static_entity \<Rightarrow> non_player_directory \<times> bool" where
  "np_conflict d a =
     (case StaticActorVisibilityVID a of
        None \<Rightarrow> (d, False)
      | Some vid \<Rightarrow> conflictingVisibilityVID d vid (eID (aEntity a)))"

definition NonPlayerDirectory_Register ::
    "profile_registry \<Rightarrow> non_player_directory \<Rightarrow> static_entity \<Rightarrow> non_player_directory \<times> bool" where
  "NonPlayerDirectory_Register reg d actor =
     (let a = normalizeStaticEntityCombat actor in
      if \<not> validStaticEntity reg a then (d, False)
      else if npByEntityID d (eID (aEntity a)) \<noteq> None then (d, False)
      else
        let (d1, conflict) = np_conflict d a in
        if conflict then (d1, False)
        else (np_store (removeVisibilityVIDsForEntityID d1 (eID (aEntity a))) a, True))"

definition NonPlayerDirectory_Update ::
    "profile_registry \<Rightarrow> non_player_directory \<Rightarrow> static_entity \<Rightarrow> non_player_directory \<times> bool" where
  "NonPlayerDirectory_Update reg d actor =
     (let a = normalizeStaticEntityCombat actor in
      if \<not> validStaticEntity reg a then (d, False)
      else if npByEntityID d (eID (aEntity a)) = None then (d, False)
      else
        let (d1, conflict) = np_conflict d a in
        if conflict then (d1, False)
        else (np_store (removeVisibilityVIDsForEntityID d1 (eID (aEntity a))) a, True))"

definition NonPlayerDirectory_Remove ::
    "non_player_directory \<Rightarrow> u64 \<Rightarrow> non_player_directory \<times> static_entity option" where
  "NonPlayerDirectory_Remove d i =
     (if i = 0 then (d, None)
      else case npByEntityID d i of
        None \<Rightarrow> (removeVisibilityVIDsForEntityID d i, None)
      | Some a \<Rightarrow>
          (removeVisibilityVIDsForEntityID (d\<lparr>npByEntityID := (npByEntityID d)(i := None)\<rparr>) i, Some (cloneStaticEntity a)))"

definition NonPlayerDirectory_ByEntityID :: "non_player_directory \<Rightarrow> u64 \<Rightarrow> static_entity option" where
  "NonPlayerDirectory_ByEntityID d i = (if i = 0 then None else map_option cloneStaticEntity (npByEntityID d i))"

definition NonPlayerDirectory_ByVID ::
    "non_player_directory \<Rightarrow> u32 \<Rightarrow> non_player_directory \<times> static_entity option" where
  "NonPlayerDirectory_ByVID d vid =
     (if vid = 0 then (d, None)
      else case npByVID d vid of
        None \<Rightarrow> (d, None)
      | Some i \<Rightarrow>
          case npByEntityID d i of
            None \<Rightarrow> (d\<lparr>npByVID := (npByVID d)(vid := None)\<rparr>, None)
          | Some a \<Rightarrow>
              if StaticActorVisibilityVID a \<noteq> Some vid then (d\<lparr>npByVID := (npByVID d)(vid := None)\<rparr>, None)
              else (d, Some (cloneStaticEntity a)))"

definition sortStaticEntities :: "static_entity list \<Rightarrow> static_entity list" where
  "sortStaticEntities actors = sort_key (\<lambda>a. (eName (aEntity a), eID (aEntity a))) actors"

definition NonPlayerDirectory_StaticActors :: "non_player_directory \<Rightarrow> static_entity list" where
  "NonPlayerDirectory_StaticActors d = sortStaticEntities (map cloneStaticEntity (map_values (npByEntityID d)))"

section \<open>Sessions\<close>

text \<open>A frame sink and a relocator are references; only whether they are \<open>nil\<close> matters here.\<close>

record ('f, 'r) session_entry =
  seFrameSink :: "'f option"
  seRelocator :: "'r option"

type_synonym ('f, 'r) session_directory = "u64 \<Rightarrow> ('f, 'r) session_entry option"

definition NewSessionDirectory :: "('f, 'r) session_directory" where "NewSessionDirectory = Map.empty"

definition validSessionEntry :: "('f, 'r) session_entry \<Rightarrow> bool" where
  "validSessionEntry e \<longleftrightarrow> seFrameSink e \<noteq> None \<or> seRelocator e \<noteq> None"

definition SessionDirectory_Register ::
    "('f, 'r) session_directory \<Rightarrow> u64 \<Rightarrow> ('f, 'r) session_entry \<Rightarrow> ('f, 'r) session_directory \<times> bool" where
  "SessionDirectory_Register d i e =
     (if i = 0 \<or> \<not> validSessionEntry e then (d, False)
      else if d i \<noteq> None then (d, False)
      else (d(i \<mapsto> e), True))"

definition SessionDirectory_Replace ::
    "('f, 'r) session_directory \<Rightarrow> u64 \<Rightarrow> ('f, 'r) session_entry \<Rightarrow> ('f, 'r) session_directory \<times> bool" where
  "SessionDirectory_Replace d i e =
     (if i = 0 \<or> \<not> validSessionEntry e then (d, False)
      else if d i = None then (d, False)
      else (d(i \<mapsto> e), True))"

definition SessionDirectory_Lookup :: "('f, 'r) session_directory \<Rightarrow> u64 \<Rightarrow> ('f, 'r) session_entry option" where
  "SessionDirectory_Lookup d i = (if i = 0 then None else d i)"

definition SessionDirectory_Remove ::
    "('f, 'r) session_directory \<Rightarrow> u64 \<Rightarrow> ('f, 'r) session_directory \<times> ('f, 'r) session_entry option" where
  "SessionDirectory_Remove d i =
     (if i = 0 then (d, None)
      else case d i of None \<Rightarrow> (d, None) | Some e \<Rightarrow> (d(i := None), Some e))"

definition SessionDirectory_EntityIDs :: "('f, 'r) session_directory \<Rightarrow> u64 list" where
  "SessionDirectory_EntityIDs d = sorted_list_of_set (dom d)"

section \<open>Players: the contract\<close>

definition pd_ok :: "player_directory \<Rightarrow> bool" where
  "pd_ok d \<longleftrightarrow>
     index_ok (\<lambda>p. Some (eVID (plEntity p))) (pdByEntityID d) (pdByVID d) \<and>
     index_ok (\<lambda>p. Some (eName (plEntity p))) (pdByEntityID d) (pdByName d) \<and>
     (\<forall>i p. pdByEntityID d i = Some p \<longrightarrow> eID (plEntity p) = i \<and> validPlayerDirectoryEntity p) \<and>
     finite (dom (pdByEntityID d))"

definition player_clash :: "player_entity \<Rightarrow> player_entity \<Rightarrow> bool" where
  "player_clash p q \<longleftrightarrow> eVID (plEntity p) = eVID (plEntity q) \<or> eName (plEntity p) = eName (plEntity q)"

lemma pd_okD:
  "pd_ok d \<Longrightarrow> index_ok (\<lambda>p. Some (eVID (plEntity p))) (pdByEntityID d) (pdByVID d)"
  "pd_ok d \<Longrightarrow> index_ok (\<lambda>p. Some (eName (plEntity p))) (pdByEntityID d) (pdByName d)"
  "pd_ok d \<Longrightarrow> pdByEntityID d i = Some p \<Longrightarrow> eID (plEntity p) = i \<and> validPlayerDirectoryEntity p"
  "pd_ok d \<Longrightarrow> finite (dom (pdByEntityID d))"
  unfolding pd_ok_def by blast+

lemma pd_zero: "pd_ok d \<Longrightarrow> pdByEntityID d 0 = None"
  using pd_okD(3) [of d 0] by (cases "pdByEntityID d 0") (auto simp: validPlayerDirectoryEntity_def)

lemma conflictingEntityIDByVID_exact:
  assumes "pd_ok d"
  shows "conflictingEntityIDByVID d vid i =
    (d, \<exists>j p. pdByEntityID d j = Some p \<and> j \<noteq> i \<and> eVID (plEntity p) = vid)"
proof (cases "pdByVID d vid")
  case None
  then show ?thesis using index_ok_iff [OF pd_okD(1) [OF assms], of vid]
    by (auto simp: conflictingEntityIDByVID_def)
next
  case (Some j)
  then obtain p where p: "pdByEntityID d j = Some p" "eVID (plEntity p) = vid"
    using index_ok_iff [OF pd_okD(1) [OF assms], of vid j] by auto
  have "k = j" if "pdByEntityID d k = Some q" "eVID (plEntity q) = vid" for k q
    using index_ok_unique [OF pd_okD(1) [OF assms] that(1) p(1)] that(2) p(2) by simp
  with p have "(\<exists>k q. pdByEntityID d k = Some q \<and> k \<noteq> i \<and> eVID (plEntity q) = vid) \<longleftrightarrow> j \<noteq> i" by blast
  with p Some show ?thesis by (simp add: conflictingEntityIDByVID_def)
qed

lemma conflictingEntityIDByName_exact:
  assumes "pd_ok d"
  shows "conflictingEntityIDByName d name i =
    (d, \<exists>j p. pdByEntityID d j = Some p \<and> j \<noteq> i \<and> eName (plEntity p) = name)"
proof (cases "pdByName d name")
  case None
  then show ?thesis using index_ok_iff [OF pd_okD(2) [OF assms], of name]
    by (auto simp: conflictingEntityIDByName_def)
next
  case (Some j)
  then obtain p where p: "pdByEntityID d j = Some p" "eName (plEntity p) = name"
    using index_ok_iff [OF pd_okD(2) [OF assms], of name j] by auto
  have "k = j" if "pdByEntityID d k = Some q" "eName (plEntity q) = name" for k q
    using index_ok_unique [OF pd_okD(2) [OF assms] that(1) p(1)] that(2) p(2) by simp
  with p have "(\<exists>k q. pdByEntityID d k = Some q \<and> k \<noteq> i \<and> eName (plEntity q) = name) \<longleftrightarrow> j \<noteq> i" by blast
  with p Some show ?thesis by (simp add: conflictingEntityIDByName_def)
qed

lemma index_free:
  assumes "index_ok key entries idx" and "\<forall>j x. entries j = Some x \<longrightarrow> j \<noteq> i \<longrightarrow> key x \<noteq> Some k"
  shows "idx k = None \<or> idx k = Some i"
proof (cases "idx k")
  case (Some j)
  then obtain e where "entries j = Some e" "key e = Some k" using index_ok_iff [OF assms(1)] by blast
  with assms(2) Some show ?thesis by auto
qed simp

lemma pd_store_ok:
  assumes ok: "pd_ok d" and v: "validPlayerDirectoryEntity p"
    and free: "\<forall>i x. pdByEntityID d i = Some x \<longrightarrow> i \<noteq> eID (plEntity p) \<longrightarrow> \<not> player_clash x p"
  shows "pd_ok (pd_store (pd_removeSecondaryIndexes d (eID (plEntity p))) p)"
proof -
  let ?i = "eID (plEntity p)"
  have nz: "?i \<noteq> 0" using v by (simp add: validPlayerDirectoryEntity_def)
  have f: "pdByVID d (eVID (plEntity p)) = None \<or> pdByVID d (eVID (plEntity p)) = Some ?i"
    "pdByName d (eName (plEntity p)) = None \<or> pdByName d (eName (plEntity p)) = Some ?i"
    using free by (auto intro!: index_free [OF pd_okD(1) [OF ok]] index_free [OF pd_okD(2) [OF ok]] simp: player_clash_def)
  show ?thesis
    unfolding pd_ok_def
    using index_ok_insert [OF pd_okD(1) [OF ok] refl f(1)] index_ok_insert [OF pd_okD(2) [OF ok] refl f(2)]
      pd_okD(3,4) [OF ok] v nz
    by (auto simp: pd_store_def pd_removeSecondaryIndexes_def)
qed

lemma pd_store_entries [simp]:
  "pdByEntityID (pd_store (pd_removeSecondaryIndexes d i) p) = (pdByEntityID d)(eID (plEntity p) \<mapsto> p)"
  by (simp add: pd_store_def pd_removeSecondaryIndexes_def)

text \<open>Both operations in one equation: whether they accept and what they then store.\<close>

lemma PlayerDirectory_Register_exact:
  assumes "pd_ok d"
  shows "PlayerDirectory_Register d p =
    (if validPlayerDirectoryEntity p \<and> pdByEntityID d (eID (plEntity p)) = None \<and>
        (\<forall>i x. pdByEntityID d i = Some x \<longrightarrow> i \<noteq> eID (plEntity p) \<longrightarrow> \<not> player_clash x p)
     then (pd_store (pd_removeSecondaryIndexes d (eID (plEntity p))) p, True) else (d, False))"
  by (auto simp: PlayerDirectory_Register_def conflictingEntityIDByVID_exact [OF assms]
      conflictingEntityIDByName_exact [OF assms] player_clash_def)

lemma PlayerDirectory_Update_exact:
  assumes "pd_ok d"
  shows "PlayerDirectory_Update d p =
    (if validPlayerDirectoryEntity p \<and> pdByEntityID d (eID (plEntity p)) \<noteq> None \<and>
        (\<forall>i x. pdByEntityID d i = Some x \<longrightarrow> i \<noteq> eID (plEntity p) \<longrightarrow> \<not> player_clash x p)
     then (pd_store (pd_removeSecondaryIndexes d (eID (plEntity p))) p, True) else (d, False))"
  using pd_okD(3) [OF assms]
  by (auto simp: PlayerDirectory_Update_def conflictingEntityIDByVID_exact [OF assms]
      conflictingEntityIDByName_exact [OF assms] player_clash_def split: option.splits)

lemma PlayerDirectory_Remove_exact:
  assumes "pd_ok d"
  shows "pd_ok (fst (PlayerDirectory_Remove d i))"
    and "pdByEntityID (fst (PlayerDirectory_Remove d i)) = (pdByEntityID d)(i := None)"
    and "snd (PlayerDirectory_Remove d i) = pdByEntityID d i"
proof -
  have id: "(pdByEntityID d)(i := None) = pdByEntityID d" if "pdByEntityID d i = None"
    using that by auto
  have e: "PlayerDirectory_Remove d i =
    (if i = 0 then d else d\<lparr>pdByEntityID := (pdByEntityID d)(i := None), pdByVID := unindex (pdByVID d) i,
       pdByName := unindex (pdByName d) i\<rparr>, pdByEntityID d i)"
    using pd_zero [OF assms] id
    by (cases "pdByEntityID d i") (auto simp: PlayerDirectory_Remove_def pd_removeSecondaryIndexes_def)
  show "pdByEntityID (fst (PlayerDirectory_Remove d i)) = (pdByEntityID d)(i := None)"
    using id pd_zero [OF assms] by (auto simp: e)
  show "snd (PlayerDirectory_Remove d i) = pdByEntityID d i" by (simp add: e)
  show "pd_ok (fst (PlayerDirectory_Remove d i))"
    using assms index_ok_delete [OF pd_okD(1) [OF assms], of i] index_ok_delete [OF pd_okD(2) [OF assms], of i]
      pd_okD(3,4) [OF assms]
    by (auto simp: e pd_ok_def split: if_split_asm)
qed

interpretation players: directory pd_ok pdByEntityID "\<lambda>p. eID (plEntity p)" "\<lambda>p. p" validPlayerDirectoryEntity player_clash
  PlayerDirectory_Register PlayerDirectory_Update PlayerDirectory_Remove
proof
  fix d e i assume ok: "pd_ok d"
  show "pd_ok (fst (PlayerDirectory_Register d e))" "pd_ok (fst (PlayerDirectory_Update d e))"
    using pd_store_ok [OF ok] ok
    by (simp_all add: PlayerDirectory_Register_exact [OF ok] PlayerDirectory_Update_exact [OF ok])
  show "pd_ok (fst (PlayerDirectory_Remove d i))" by (rule PlayerDirectory_Remove_exact [OF ok])
  show "pdByEntityID (fst (PlayerDirectory_Remove d i)) = (pdByEntityID d)(i := None) \<and>
      snd (PlayerDirectory_Remove d i) = pdByEntityID d i"
    by (intro conjI PlayerDirectory_Remove_exact [OF ok])
  show "(pdByEntityID (fst (PlayerDirectory_Update d e)), snd (PlayerDirectory_Update d e)) =
      roster_step (\<lambda>p. eID (plEntity p)) (\<lambda>p. p) validPlayerDirectoryEntity player_clash (pdByEntityID d) (ReplaceEntry e)"
    by (auto simp: PlayerDirectory_Update_exact [OF ok])
  have "(\<forall>i x. pdByEntityID d i = Some x \<longrightarrow> i \<noteq> eID (plEntity e) \<longrightarrow> \<not> player_clash x e) \<longleftrightarrow>
      (\<forall>i x. pdByEntityID d i = Some x \<longrightarrow> \<not> player_clash x e)" if "pdByEntityID d (eID (plEntity e)) = None"
    using that by (metis option.distinct(1))
  then show "(pdByEntityID (fst (PlayerDirectory_Register d e)), snd (PlayerDirectory_Register d e)) =
      roster_step (\<lambda>p. eID (plEntity p)) (\<lambda>p. p) validPlayerDirectoryEntity player_clash (pdByEntityID d) (AddEntry e)"
    by (auto simp: PlayerDirectory_Register_exact [OF ok])
qed

section \<open>Static actors: the contract\<close>

definition np_ok :: "non_player_directory \<Rightarrow> bool" where
  "np_ok d \<longleftrightarrow>
     index_ok StaticActorVisibilityVID (npByEntityID d) (npByVID d) \<and>
     (\<forall>i a. npByEntityID d i = Some a \<longrightarrow>
        eID (aEntity a) = i \<and> i \<noteq> 0 \<and> cloneStaticEntity a = a \<and> StaticActorVisibilityVID a = Some (ucast i)) \<and>
     finite (dom (npByEntityID d))"

definition actor_clash :: "static_entity \<Rightarrow> static_entity \<Rightarrow> bool" where
  "actor_clash a b \<longleftrightarrow> (\<exists>vid. StaticActorVisibilityVID a = Some vid \<and> StaticActorVisibilityVID b = Some vid)"

lemma np_okD:
  "np_ok d \<Longrightarrow> index_ok StaticActorVisibilityVID (npByEntityID d) (npByVID d)"
  "np_ok d \<Longrightarrow> npByEntityID d i = Some a \<Longrightarrow>
     eID (aEntity a) = i \<and> i \<noteq> 0 \<and> cloneStaticEntity a = a \<and> StaticActorVisibilityVID a = Some (ucast i)"
  "np_ok d \<Longrightarrow> finite (dom (npByEntityID d))"
  unfolding np_ok_def by blast+

lemma np_zero: "np_ok d \<Longrightarrow> npByEntityID d 0 = None"
  using np_okD(2) [of d 0] by (cases "npByEntityID d 0") auto

lemma normalize_VID [simp]: "StaticActorVisibilityVID (normalizeStaticEntityCombat a) = StaticActorVisibilityVID a"
  by (simp add: StaticActorVisibilityVID_def)

lemma np_conflict_exact:
  assumes "np_ok d" and v: "StaticActorVisibilityVID a = Some vid"
  shows "np_conflict d a = (d, \<exists>j x. npByEntityID d j = Some x \<and> j \<noteq> eID (aEntity a) \<and> actor_clash x a)"
proof (cases "npByVID d vid")
  case None
  then show ?thesis using index_ok_iff [OF np_okD(1) [OF assms(1)], of vid] v
    by (auto simp: np_conflict_def conflictingVisibilityVID_def actor_clash_def)
next
  case (Some j)
  then obtain x where x: "npByEntityID d j = Some x" "StaticActorVisibilityVID x = Some vid"
    using index_ok_iff [OF np_okD(1) [OF assms(1)], of vid j] by auto
  have "k = j" if "npByEntityID d k = Some q" "StaticActorVisibilityVID q = Some vid" for k q
    by (rule index_ok_unique [OF np_okD(1) [OF assms(1)] that(1) x(1) that(2) x(2)])
  with x v have "(\<exists>k q. npByEntityID d k = Some q \<and> k \<noteq> eID (aEntity a) \<and> actor_clash q a) \<longleftrightarrow> j \<noteq> eID (aEntity a)"
    unfolding actor_clash_def by (metis option.inject)
  with x Some v show ?thesis by (simp add: np_conflict_def conflictingVisibilityVID_def)
qed

lemma np_store_entries [simp]:
  "npByEntityID (np_store (removeVisibilityVIDsForEntityID d i) a) = (npByEntityID d)(eID (aEntity a) \<mapsto> cloneStaticEntity a)"
  by (simp add: np_store_def removeVisibilityVIDsForEntityID_def Let_def split: option.split)

lemma np_store_ok:
  assumes ok: "np_ok d" and v: "StaticActorVisibilityVID a = Some (ucast (eID (aEntity a)))" and nz: "eID (aEntity a) \<noteq> 0"
    and free: "\<forall>i x. npByEntityID d i = Some x \<longrightarrow> i \<noteq> eID (aEntity a) \<longrightarrow> \<not> actor_clash x a"
  shows "np_ok (np_store (removeVisibilityVIDsForEntityID d (eID (aEntity a))) a)"
proof -
  let ?i = "eID (aEntity a)"
  have f: "npByVID d (ucast ?i) = None \<or> npByVID d (ucast ?i) = Some ?i"
    using free v by (intro index_free [OF np_okD(1) [OF ok]]) (auto simp: actor_clash_def)
  have "StaticActorVisibilityVID (cloneStaticEntity a) = Some (ucast ?i)" using v by simp
  from index_ok_insert [OF np_okD(1) [OF ok] this f] show ?thesis
    using np_okD(2,3) [OF ok] v nz
    by (auto simp: np_ok_def np_store_def removeVisibilityVIDsForEntityID_def)
qed

lemma np_edit_exact:
  assumes ok: "np_ok d" and v: "validStaticEntity reg a"
  shows "(case np_conflict d a of (d1, conflict) \<Rightarrow>
      if conflict then (d1, False) else (np_store (removeVisibilityVIDsForEntityID d1 (eID (aEntity a))) a, True)) =
    (if \<forall>i x. npByEntityID d i = Some x \<longrightarrow> i \<noteq> eID (aEntity a) \<longrightarrow> \<not> actor_clash x a
     then (np_store (removeVisibilityVIDsForEntityID d (eID (aEntity a))) a, True) else (d, False))"
  unfolding np_conflict_exact [OF ok valid_visible [OF v]] by auto

lemma valid_nonzero: "validStaticEntity reg a \<Longrightarrow> eID (aEntity a) \<noteq> 0"
  by (auto simp: validStaticEntity_def ValidStaticActorVisibilityEntityID_def Let_def split: if_split_asm)

lemma actor_clash_normalize [simp]: "actor_clash x (normalizeStaticEntityCombat a) = actor_clash x a"
  by (simp add: actor_clash_def)

lemma NonPlayerDirectory_Register_exact:
  assumes "np_ok d"
  shows "NonPlayerDirectory_Register reg d actor =
    (let a = normalizeStaticEntityCombat actor in
     if validStaticEntity reg a \<and> npByEntityID d (eID (aEntity a)) = None \<and>
        (\<forall>i x. npByEntityID d i = Some x \<longrightarrow> i \<noteq> eID (aEntity a) \<longrightarrow> \<not> actor_clash x a)
     then (np_store (removeVisibilityVIDsForEntityID d (eID (aEntity a))) a, True) else (d, False))"
  unfolding NonPlayerDirectory_Register_def Let_def using np_edit_exact [OF assms, of reg] by auto

lemma NonPlayerDirectory_Update_exact:
  assumes "np_ok d"
  shows "NonPlayerDirectory_Update reg d actor =
    (let a = normalizeStaticEntityCombat actor in
     if validStaticEntity reg a \<and> npByEntityID d (eID (aEntity a)) \<noteq> None \<and>
        (\<forall>i x. npByEntityID d i = Some x \<longrightarrow> i \<noteq> eID (aEntity a) \<longrightarrow> \<not> actor_clash x a)
     then (np_store (removeVisibilityVIDsForEntityID d (eID (aEntity a))) a, True) else (d, False))"
  unfolding NonPlayerDirectory_Update_def Let_def using np_edit_exact [OF assms, of reg] by auto

lemma NonPlayerDirectory_Remove_exact:
  assumes "np_ok d"
  shows "np_ok (fst (NonPlayerDirectory_Remove d i))"
    and "npByEntityID (fst (NonPlayerDirectory_Remove d i)) = (npByEntityID d)(i := None)"
    and "snd (NonPlayerDirectory_Remove d i) = npByEntityID d i"
proof -
  have id: "(npByEntityID d)(i := None) = npByEntityID d" if "npByEntityID d i = None"
    using that by auto
  have e: "NonPlayerDirectory_Remove d i =
    (if i = 0 then d else d\<lparr>npByEntityID := (npByEntityID d)(i := None), npByVID := unindex (npByVID d) i\<rparr>, npByEntityID d i)"
    using np_zero [OF assms] id np_okD(2) [OF assms, of i]
    by (cases "npByEntityID d i") (auto simp: NonPlayerDirectory_Remove_def removeVisibilityVIDsForEntityID_def)
  show "npByEntityID (fst (NonPlayerDirectory_Remove d i)) = (npByEntityID d)(i := None)"
    using id np_zero [OF assms] by (auto simp: e)
  show "snd (NonPlayerDirectory_Remove d i) = npByEntityID d i" by (simp add: e)
  show "np_ok (fst (NonPlayerDirectory_Remove d i))"
    using assms index_ok_delete [OF np_okD(1) [OF assms], of i] np_okD(2,3) [OF assms]
    by (auto simp: e np_ok_def split: if_split_asm)
qed

interpretation actors: directory np_ok npByEntityID "\<lambda>a. eID (aEntity a)" "\<lambda>a. cloneStaticEntity (normalizeStaticEntityCombat a)"
  "\<lambda>a. validStaticEntity reg (normalizeStaticEntityCombat a)" actor_clash
  "NonPlayerDirectory_Register reg" "NonPlayerDirectory_Update reg" NonPlayerDirectory_Remove
  for reg
proof
  fix d i and e :: static_entity assume ok: "np_ok d"
  let ?a = "normalizeStaticEntityCombat e"
  note exact = NonPlayerDirectory_Register_exact [OF ok] NonPlayerDirectory_Update_exact [OF ok]
  have stored: "validStaticEntity reg ?a \<Longrightarrow>
      \<forall>i x. npByEntityID d i = Some x \<longrightarrow> i \<noteq> eID (aEntity ?a) \<longrightarrow> \<not> actor_clash x ?a \<Longrightarrow>
      np_ok (np_store (removeVisibilityVIDsForEntityID d (eID (aEntity ?a))) ?a)"
    by (rule np_store_ok [OF ok valid_visible valid_nonzero])
  show "np_ok (fst (NonPlayerDirectory_Register reg d e))" "np_ok (fst (NonPlayerDirectory_Update reg d e))"
    using stored ok by (simp_all add: exact Let_def del: actor_clash_normalize normalize_fields)
  show "np_ok (fst (NonPlayerDirectory_Remove d i))" by (rule NonPlayerDirectory_Remove_exact [OF ok])
  show "npByEntityID (fst (NonPlayerDirectory_Remove d i)) = (npByEntityID d)(i := None) \<and>
      snd (NonPlayerDirectory_Remove d i) = npByEntityID d i"
    by (intro conjI NonPlayerDirectory_Remove_exact [OF ok])
  show "(npByEntityID (fst (NonPlayerDirectory_Update reg d e)), snd (NonPlayerDirectory_Update reg d e)) =
      roster_step (\<lambda>a. eID (aEntity a)) (\<lambda>a. cloneStaticEntity (normalizeStaticEntityCombat a))
        (\<lambda>a. validStaticEntity reg (normalizeStaticEntityCombat a)) actor_clash (npByEntityID d) (ReplaceEntry e)"
    by (auto simp: exact Let_def)
  have "(\<forall>i x. npByEntityID d i = Some x \<longrightarrow> i \<noteq> eID (aEntity e) \<longrightarrow> \<not> actor_clash x e) \<longleftrightarrow>
      (\<forall>i x. npByEntityID d i = Some x \<longrightarrow> \<not> actor_clash x e)" if "npByEntityID d (eID (aEntity e)) = None"
    using that by (metis option.distinct(1))
  then show "(npByEntityID (fst (NonPlayerDirectory_Register reg d e)), snd (NonPlayerDirectory_Register reg d e)) =
      roster_step (\<lambda>a. eID (aEntity a)) (\<lambda>a. cloneStaticEntity (normalizeStaticEntityCombat a))
        (\<lambda>a. validStaticEntity reg (normalizeStaticEntityCombat a)) actor_clash (npByEntityID d) (AddEntry e)"
    by (auto simp: exact Let_def)
qed

section \<open>Properties\<close>

lemma NewPlayerDirectory_ok: "pd_ok NewPlayerDirectory" "pdByEntityID NewPlayerDirectory = Map.empty"
  by (simp_all add: pd_ok_def NewPlayerDirectory_def)

lemma NewNonPlayerDirectory_ok: "np_ok NewNonPlayerDirectory" "npByEntityID NewNonPlayerDirectory = Map.empty"
  by (simp_all add: np_ok_def NewNonPlayerDirectory_def)

lemma PlayerDirectory_ByVID_exact:
  assumes "pd_ok d"
  shows "PlayerDirectory_ByVID d vid = (d, snd (PlayerDirectory_ByVID d vid))"
    and "snd (PlayerDirectory_ByVID d vid) = Some p \<longleftrightarrow> (\<exists>i. pdByEntityID d i = Some p \<and> eVID (plEntity p) = vid)"
proof -
  note iff = index_ok_iff [OF pd_okD(1) [OF assms]]
  have nz: "eVID (plEntity p) \<noteq> 0" if "pdByEntityID d i = Some p" for i p
    using pd_okD(3) [OF assms that] by (simp add: validPlayerDirectoryEntity_def)
  have hit: "\<exists>p. pdByEntityID d i = Some p \<and> eVID (plEntity p) = vid" if "pdByVID d vid = Some i" for i
    using iff [of vid i] that by auto
  show "PlayerDirectory_ByVID d vid = (d, snd (PlayerDirectory_ByVID d vid))"
    using hit by (auto simp: PlayerDirectory_ByVID_def split: option.split)
  show "snd (PlayerDirectory_ByVID d vid) = Some p \<longleftrightarrow> (\<exists>i. pdByEntityID d i = Some p \<and> eVID (plEntity p) = vid)"
  proof
    assume "snd (PlayerDirectory_ByVID d vid) = Some p"
    then show "\<exists>i. pdByEntityID d i = Some p \<and> eVID (plEntity p) = vid"
      by (auto simp: PlayerDirectory_ByVID_def split: if_split_asm option.split_asm)
  next
    assume "\<exists>i. pdByEntityID d i = Some p \<and> eVID (plEntity p) = vid"
    then obtain i where i: "pdByEntityID d i = Some p" "eVID (plEntity p) = vid" by blast
    then have "pdByVID d vid = Some i" using iff by auto
    with i nz [OF i(1)] show "snd (PlayerDirectory_ByVID d vid) = Some p" by (simp add: PlayerDirectory_ByVID_def)
  qed
qed

lemma PlayerDirectory_ByName_exact:
  assumes "pd_ok d"
  shows "PlayerDirectory_ByName d name = (d, snd (PlayerDirectory_ByName d name))"
    and "snd (PlayerDirectory_ByName d name) = Some p \<longleftrightarrow> (\<exists>i. pdByEntityID d i = Some p \<and> eName (plEntity p) = name)"
proof -
  note iff = index_ok_iff [OF pd_okD(2) [OF assms]]
  have nz: "eName (plEntity p) \<noteq> []" if "pdByEntityID d i = Some p" for i p
    using pd_okD(3) [OF assms that] by (simp add: validPlayerDirectoryEntity_def ValidPlayerName_def)
  have hit: "\<exists>p. pdByEntityID d i = Some p \<and> eName (plEntity p) = name" if "pdByName d name = Some i" for i
    using iff [of name i] that by auto
  show "PlayerDirectory_ByName d name = (d, snd (PlayerDirectory_ByName d name))"
    using hit by (auto simp: PlayerDirectory_ByName_def split: option.split)
  show "snd (PlayerDirectory_ByName d name) = Some p \<longleftrightarrow> (\<exists>i. pdByEntityID d i = Some p \<and> eName (plEntity p) = name)"
  proof
    assume "snd (PlayerDirectory_ByName d name) = Some p"
    then show "\<exists>i. pdByEntityID d i = Some p \<and> eName (plEntity p) = name"
      by (auto simp: PlayerDirectory_ByName_def split: if_split_asm option.split_asm)
  next
    assume "\<exists>i. pdByEntityID d i = Some p \<and> eName (plEntity p) = name"
    then obtain i where i: "pdByEntityID d i = Some p" "eName (plEntity p) = name" by blast
    then have "pdByName d name = Some i" using iff by auto
    with i nz [OF i(1)] show "snd (PlayerDirectory_ByName d name) = Some p" by (simp add: PlayerDirectory_ByName_def)
  qed
qed

lemma PlayerDirectory_ByEntityID_exact:
  assumes "pd_ok d" shows "PlayerDirectory_ByEntityID d i = pdByEntityID d i"
  using pd_zero [OF assms] by (cases "pdByEntityID d i") (auto simp: PlayerDirectory_ByEntityID_def)

lemma set_map_values: "finite (dom m) \<Longrightarrow> set (map_values m) = ran m"
proof -
  have "y \<in> (\<lambda>i. the (m i)) ` dom m \<longleftrightarrow> y \<in> ran m" for y
    by (auto simp: ran_def dom_def image_def)
  moreover assume "finite (dom m)"
  ultimately show ?thesis by (simp add: map_values_def set_eq_iff)
qed

lemma PlayerDirectory_PlayerCharacters_set:
  "pd_ok d \<Longrightarrow> set (PlayerDirectory_PlayerCharacters d) = plCharacter ` ran (pdByEntityID d)"
  using pd_okD(4) [of d] by (simp add: PlayerDirectory_PlayerCharacters_def set_map_values)

text \<open>
  The player directory is a roster. Whatever is registered, updated and removed, starting
  from an empty directory, its entries and its answers are those of a plain map from identifiers that
  admits a valid player when no other one has the same visibility identifier or name; the two indexes
  are never stale, looking a player up by either key finds exactly the player who has it and
  changes nothing, and the list of characters is that of all players.
\<close>

theorem player_directory_refines:
  "let step = directory_step PlayerDirectory_Register PlayerDirectory_Update PlayerDirectory_Remove;
       abstract = roster_step (\<lambda>p. eID (plEntity p)) (\<lambda>p. p) validPlayerDirectoryEntity player_clash;
       d = run step NewPlayerDirectory cs; m = run abstract Map.empty cs in
   pdByEntityID d = m \<and> accepted step NewPlayerDirectory cs = accepted abstract Map.empty cs \<and>
   (\<forall>i. PlayerDirectory_ByEntityID d i = m i) \<and>
   (\<forall>vid. PlayerDirectory_ByVID d vid = (d, snd (PlayerDirectory_ByVID d vid))) \<and>
   (\<forall>vid p. snd (PlayerDirectory_ByVID d vid) = Some p \<longleftrightarrow> (\<exists>i. m i = Some p \<and> eVID (plEntity p) = vid)) \<and>
   (\<forall>name. PlayerDirectory_ByName d name = (d, snd (PlayerDirectory_ByName d name))) \<and>
   (\<forall>name p. snd (PlayerDirectory_ByName d name) = Some p \<longleftrightarrow> (\<exists>i. m i = Some p \<and> eName (plEntity p) = name)) \<and>
   set (PlayerDirectory_PlayerCharacters d) = plCharacter ` ran m"
proof -
  let ?d = "run players.step NewPlayerDirectory cs" and ?m = "run players.abstract Map.empty cs"
  have s: "pd_ok ?d" "pdByEntityID ?d = ?m"
    "accepted players.step NewPlayerDirectory cs = accepted players.abstract Map.empty cs"
    using players.steps.run_simulates [OF NewPlayerDirectory_ok(1), of cs] unfolding NewPlayerDirectory_ok(2) by blast+
  have i: "PlayerDirectory_ByEntityID ?d i = pdByEntityID ?d i" for i
    by (rule PlayerDirectory_ByEntityID_exact [OF s(1)])
  show ?thesis
    unfolding Let_def s(2) [symmetric]
    by (intro conjI allI refl s(3) [folded s(2)] i PlayerDirectory_ByVID_exact [OF s(1)] PlayerDirectory_ByName_exact [OF s(1)]
        PlayerDirectory_PlayerCharacters_set [OF s(1)])
qed

lemma widen_narrow: "ucast (ucast vid :: u64) = (vid :: u32)"
proof -
  have b: "unat vid < 2 ^ 32" using unsigned_less [of vid, where ?'a = nat] by simp
  have "unat (ucast (ucast vid :: u64) :: u32) = take_bit 32 (take_bit 64 (unat vid))"
    by (subst unsigned_ucast_eq, subst unsigned_ucast_eq) simp
  also have "\<dots> = unat vid" using b by (simp add: take_bit_nat_eq_self_iff)
  finally show ?thesis by (simp only: word_unat_eq_iff)
qed

lemma NonPlayerDirectory_ByVID_exact:
  assumes "np_ok d"
  shows "NonPlayerDirectory_ByVID d vid = (d, npByEntityID d (ucast vid))"
proof -
  note iff = index_ok_iff [OF np_okD(1) [OF assms]]
  have bk: "ucast (ucast vid :: u64) = vid" by (rule widen_narrow)
  show ?thesis
  proof (cases "npByEntityID d (ucast vid)")
    case None
    have "npByVID d vid \<noteq> Some i" for i
    proof
      assume "npByVID d vid = Some i"
      then obtain a where a: "npByEntityID d i = Some a" "StaticActorVisibilityVID a = Some vid" using iff by blast
      have v: "ValidStaticActorVisibilityEntityID i" and e: "vid = ucast i"
        using np_okD(2) [OF assms a(1)] a(2) by (auto simp: StaticActorVisibilityVID_def split: if_split_asm)
      have "ucast (ucast i :: u32) = i"
        using v by (intro visibility_round) 
      with e a(1) None show False by simp
    qed
    then have "npByVID d vid = None" by (cases "npByVID d vid") auto
    with None show ?thesis by (simp add: NonPlayerDirectory_ByVID_def)
  next
    case (Some a)
    note p = np_okD(2) [OF assms Some]
    have "vid \<noteq> 0" using p by auto
    moreover have "npByVID d vid = Some (ucast vid)" using iff [of vid "ucast vid"] Some p bk by auto
    ultimately show ?thesis using Some p bk by (simp add: NonPlayerDirectory_ByVID_def)
  qed
qed

lemma NonPlayerDirectory_ByEntityID_exact:
  assumes "np_ok d" shows "NonPlayerDirectory_ByEntityID d i = npByEntityID d i"
  using np_zero [OF assms] np_okD(2) [OF assms, of i]
  by (cases "npByEntityID d i") (auto simp: NonPlayerDirectory_ByEntityID_def)

text \<open>
  The directory of static actors is a roster of normalised, cleaned-up actors, under any
  fixed set of combat profiles: its entries and answers are those of a plain map that admits a valid actor under a free
  identifier, and a visibility identifier is nothing but the entity identifier, so looking up the one is
  looking up the other; two actors never show the client the same identifier.
\<close>

theorem static_directory_refines:
  "let step = directory_step (NonPlayerDirectory_Register reg) (NonPlayerDirectory_Update reg) NonPlayerDirectory_Remove;
       abstract = roster_step (\<lambda>a. eID (aEntity a)) (\<lambda>a. cloneStaticEntity (normalizeStaticEntityCombat a))
         (\<lambda>a. validStaticEntity reg (normalizeStaticEntityCombat a)) actor_clash;
       d = run step NewNonPlayerDirectory cs; m = run abstract Map.empty cs in
   npByEntityID d = m \<and> accepted step NewNonPlayerDirectory cs = accepted abstract Map.empty cs \<and>
   (\<forall>i. NonPlayerDirectory_ByEntityID d i = m i) \<and>
   (\<forall>vid. NonPlayerDirectory_ByVID d vid = (d, m (ucast vid))) \<and>
   set (NonPlayerDirectory_StaticActors d) = ran m"
proof -
  let ?d = "run (actors.step reg) NewNonPlayerDirectory cs" and ?m = "run (actors.abstract reg) Map.empty cs"
  have s: "np_ok ?d" "npByEntityID ?d = ?m"
    "accepted (actors.step reg) NewNonPlayerDirectory cs = accepted (actors.abstract reg) Map.empty cs"
    using actors.steps.run_simulates [OF NewNonPlayerDirectory_ok(1), of reg cs] unfolding NewNonPlayerDirectory_ok(2) by blast+
  have i: "NonPlayerDirectory_ByEntityID ?d i = ?m i" for i
    unfolding s(2) [symmetric] by (rule NonPlayerDirectory_ByEntityID_exact [OF s(1)])
  have c: "cloneStaticEntity ` ran ?m = ran ?m"
  proof -
    have "cloneStaticEntity a = a" if "a \<in> ran ?m" for a
      using that np_okD(2) [OF s(1)] unfolding s(2) ran_def by blast
    then show ?thesis by (simp add: image_def)
  qed
  have l: "set (NonPlayerDirectory_StaticActors ?d) = ran ?m"
    using np_okD(3) [OF s(1)] c
    by (simp add: NonPlayerDirectory_StaticActors_def sortStaticEntities_def set_map_values s(2))
  show ?thesis
    unfolding Let_def
    by (intro conjI allI refl s(2,3) i l NonPlayerDirectory_ByVID_exact [OF s(1), unfolded s(2)])
qed

end
