(* ===== verification/World_Occupants.thy ===== *)
theory World_Occupants
  imports World_Directory
begin

text \<open>
  One side of the map index (\<open>internal/worldruntime/map_index.go\<close>). The Go type keeps the same
  three maps twice, for players and for static actors, with the same operations written twice; here
  the three maps are one record and the operations one group of definitions with the
  identifier, the map and the copy of an entity as arguments. \<open>World_MapIndex\<close> instantiates them for
  each pair of functions of the code. The Go code walks a map in an
  unspecified order where it takes the first hit; the model walks it in ascending order, and the
  invariant \<open>side_ok\<close> below leaves at most one hit.
\<close>

section \<open>One side of the index\<close>

record 'e occupants =
  ocByEntityID :: "u64 \<Rightarrow> 'e option"
  ocEffectiveMap :: "u64 \<Rightarrow> u32 option"
  ocByMapIndex :: "u32 \<Rightarrow> (u64 \<Rightarrow> 'e option) option"

fun first_some :: "('a \<Rightarrow> 'b option) \<Rightarrow> 'a list \<Rightarrow> 'b option" where
  "first_some f [] = None"
| "first_some f (x # xs) = (case f x of None \<Rightarrow> first_some f xs | Some y \<Rightarrow> Some y)"

definition map_presence :: "'e occupants \<Rightarrow> u64 \<Rightarrow> 'e option" where
  "map_presence s i = first_some (\<lambda>bucket. bucket i) (map_values (ocByMapIndex s))"

definition remove_presence :: "u64 \<Rightarrow> 'e occupants \<Rightarrow> 'e occupants" where
  "remove_presence i s =
     s\<lparr>ocEffectiveMap := (ocEffectiveMap s)(i := None),
       ocByMapIndex := (\<lambda>mapIndex.
         case ocByMapIndex s mapIndex of
           None \<Rightarrow> None
         | Some bucket \<Rightarrow>
             if bucket i = None then Some bucket
             else if dom (bucket(i := None)) = {} then None else Some (bucket(i := None)))\<rparr>"

definition put_presence :: "u32 \<Rightarrow> u64 \<Rightarrow> 'e \<Rightarrow> 'e occupants \<Rightarrow> 'e occupants" where
  "put_presence mapIndex i e s =
     (let bucket = (case ocByMapIndex s mapIndex of None \<Rightarrow> Map.empty | Some bucket \<Rightarrow> bucket) in
      s\<lparr>ocEffectiveMap := (ocEffectiveMap s)(i \<mapsto> mapIndex),
        ocByMapIndex := (ocByMapIndex s)(mapIndex \<mapsto> bucket(i \<mapsto> e))\<rparr>)"

text \<open>The common end of registration and update.\<close>

definition occupy :: "('e \<Rightarrow> u64) \<Rightarrow> ('e \<Rightarrow> u32) \<Rightarrow> ('e \<Rightarrow> 'e) \<Rightarrow> 'e \<Rightarrow> 'e occupants \<Rightarrow> 'e occupants" where
  "occupy ident place copy e s =
     (let s = remove_presence (ident e) s;
          s = s\<lparr>ocByEntityID := (ocByEntityID s)(ident e \<mapsto> copy e)\<rparr> in
      put_presence (place e) (ident e) (copy e) s)"

definition repair_presence :: "('e \<Rightarrow> u64) \<Rightarrow> ('e \<Rightarrow> u32) \<Rightarrow> ('e \<Rightarrow> 'e) \<Rightarrow> 'e \<Rightarrow> 'e occupants \<Rightarrow> 'e occupants" where
  "repair_presence ident place copy e s =
     put_presence (place e) (ident e) (copy e) (remove_presence (ident e) s)"

text \<open>An entity in the canonical map or in some bucket has the property.\<close>

definition any_entity :: "('e \<Rightarrow> bool) \<Rightarrow> 'e occupants \<Rightarrow> bool" where
  "any_entity P s \<longleftrightarrow>
     list_ex P (map_values (ocByEntityID s)) \<or>
     list_ex (\<lambda>bucket. list_ex P (map_values bucket)) (map_values (ocByMapIndex s))"

definition any_in_buckets :: "('e \<Rightarrow> bool) \<Rightarrow> 'e occupants \<Rightarrow> bool" where
  "any_in_buckets P s \<longleftrightarrow> list_ex (\<lambda>bucket. list_ex P (map_values bucket)) (map_values (ocByMapIndex s))"

definition canonical_presence :: "('e \<Rightarrow> u32) \<Rightarrow> ('e \<Rightarrow> 'e) \<Rightarrow> 'e occupants \<Rightarrow> u64 \<Rightarrow> 'e option" where
  "canonical_presence place copy s i =
     (if i = 0 then None
      else
        let indexed = (case ocEffectiveMap s i of
              None \<Rightarrow> None
            | Some mapIndex \<Rightarrow> (case ocByMapIndex s mapIndex of None \<Rightarrow> None | Some bucket \<Rightarrow> bucket i)) in
        case indexed of
          Some e \<Rightarrow> Some (copy e)
        | None \<Rightarrow>
            map_option copy (first_some
              (\<lambda>mapIndex. case ocByMapIndex s mapIndex of
                 None \<Rightarrow> None
               | Some bucket \<Rightarrow>
                   (case bucket i of None \<Rightarrow> None | Some e \<Rightarrow> if place e \<noteq> mapIndex then None else Some e))
              (sorted_list_of_set (dom (ocByMapIndex s)))))"

text \<open>
  \<open>repairMisplaced...\<close>: per identifier the misplaced copy with the least map index, then one
  repair per identifier in ascending order, with the canonical entity when there is one.
\<close>

definition misplaced_in :: "('e \<Rightarrow> u32) \<Rightarrow> 'e occupants \<Rightarrow> u64 \<Rightarrow> u32 \<Rightarrow> 'e option" where
  "misplaced_in place s i mapIndex =
     (case ocByMapIndex s mapIndex of
        None \<Rightarrow> None
      | Some bucket \<Rightarrow> (case bucket i of None \<Rightarrow> None | Some e \<Rightarrow> if place e = mapIndex then None else Some e))"

definition misplaced :: "('e \<Rightarrow> u32) \<Rightarrow> 'e occupants \<Rightarrow> (u64 \<times> 'e) list" where
  "misplaced place s =
     (let maps = sorted_list_of_set (dom (ocByMapIndex s));
          ids = sorted_list_of_set (\<Union>bucket \<in> ran (ocByMapIndex s). dom bucket) in
      List.map_filter (\<lambda>i. map_option (Pair i) (first_some (misplaced_in place s i) maps)) ids)"

fun repair_misplaced_loop :: "('e \<Rightarrow> u64) \<Rightarrow> ('e \<Rightarrow> u32) \<Rightarrow> ('e \<Rightarrow> 'e) \<Rightarrow> (u64 \<Rightarrow> bool) \<Rightarrow> (u64 \<times> 'e) list \<Rightarrow> 'e occupants \<Rightarrow> 'e occupants" where
  "repair_misplaced_loop ident place copy blocked [] s = s"
| "repair_misplaced_loop ident place copy blocked ((i, e0) # rest) s =
     (let e = (case ocByEntityID s i of
                 Some e \<Rightarrow> e
               | None \<Rightarrow> (case canonical_presence place copy s i of Some e \<Rightarrow> e | None \<Rightarrow> copy e0)) in
      repair_misplaced_loop ident place copy blocked rest (if blocked i then s else repair_presence ident place copy e s))"

definition repair_misplaced :: "('e \<Rightarrow> u64) \<Rightarrow> ('e \<Rightarrow> u32) \<Rightarrow> ('e \<Rightarrow> 'e) \<Rightarrow> (u64 \<Rightarrow> bool) \<Rightarrow> 'e occupants \<Rightarrow> 'e occupants" where
  "repair_misplaced ident place copy blocked s = repair_misplaced_loop ident place copy blocked (misplaced place s) s"

fun repair_from_effective_loop :: "('e \<Rightarrow> u64) \<Rightarrow> ('e \<Rightarrow> u32) \<Rightarrow> ('e \<Rightarrow> 'e) \<Rightarrow> (u64 \<Rightarrow> bool) \<Rightarrow> u64 list \<Rightarrow> 'e occupants \<Rightarrow> 'e occupants" where
  "repair_from_effective_loop ident place copy blocked [] s = s"
| "repair_from_effective_loop ident place copy blocked (i # rest) s =
     repair_from_effective_loop ident place copy blocked rest
       (if ocByEntityID s i \<noteq> None then s
        else if blocked i then s
        else
          let mapIndex = (case ocEffectiveMap s i of None \<Rightarrow> 0 | Some mapIndex \<Rightarrow> mapIndex);
              present = (case ocByMapIndex s mapIndex of None \<Rightarrow> None | Some bucket \<Rightarrow> bucket i) in
          case present of
            None \<Rightarrow> if map_presence s i = None then s\<lparr>ocEffectiveMap := (ocEffectiveMap s)(i := None)\<rparr> else s
          | Some e \<Rightarrow> repair_presence ident place copy e s)"

definition repair_from_effective :: "('e \<Rightarrow> u64) \<Rightarrow> ('e \<Rightarrow> u32) \<Rightarrow> ('e \<Rightarrow> 'e) \<Rightarrow> (u64 \<Rightarrow> bool) \<Rightarrow> 'e occupants \<Rightarrow> 'e occupants" where
  "repair_from_effective ident place copy blocked s =
     repair_from_effective_loop ident place copy blocked (sorted_list_of_set (dom (ocEffectiveMap s))) s"

definition vacate :: "('e \<Rightarrow> u32) \<Rightarrow> ('e \<Rightarrow> 'e) \<Rightarrow> 'e occupants \<Rightarrow> u64 \<Rightarrow> 'e occupants \<times> 'e option" where
  "vacate place copy s i =
     (if i = 0 then (s, None)
      else
        let found = (case ocByEntityID s i of
              Some e \<Rightarrow> Some e
            | None \<Rightarrow> (case canonical_presence place copy s i of Some e \<Rightarrow> Some e | None \<Rightarrow> map_presence s i)) in
        case found of
          Some e \<Rightarrow> (remove_presence i (s\<lparr>ocByEntityID := (ocByEntityID s)(i := None)\<rparr>), Some (copy e))
        | None \<Rightarrow> (s\<lparr>ocEffectiveMap := (ocEffectiveMap s)(i := None)\<rparr>, None))"

section \<open>One side in order\<close>

definition bucket_of :: "('e \<Rightarrow> u32) \<Rightarrow> (u64 \<Rightarrow> 'e option) \<Rightarrow> u32 \<Rightarrow> u64 \<Rightarrow> 'e option" where
  "bucket_of place m mapIndex i =
     (case m i of None \<Rightarrow> None | Some e \<Rightarrow> if place e = mapIndex then Some e else None)"

definition buckets_of :: "('e \<Rightarrow> u32) \<Rightarrow> (u64 \<Rightarrow> 'e option) \<Rightarrow> u32 \<Rightarrow> (u64 \<Rightarrow> 'e option) option" where
  "buckets_of place m mapIndex =
     (if dom (bucket_of place m mapIndex) = {} then None else Some (bucket_of place m mapIndex))"

text \<open>Everything follows from the canonical map: the index of maps and the buckets by map.\<close>

definition side_ok :: "('e \<Rightarrow> u64) \<Rightarrow> ('e \<Rightarrow> u32) \<Rightarrow> ('e \<Rightarrow> 'e) \<Rightarrow> 'e occupants \<Rightarrow> bool" where
  "side_ok ident place copy s \<longleftrightarrow>
     finite (dom (ocByEntityID s)) \<and>
     (\<forall>i e. ocByEntityID s i = Some e \<longrightarrow> ident e = i \<and> i \<noteq> 0 \<and> copy e = e) \<and>
     ocEffectiveMap s = (\<lambda>i. map_option place (ocByEntityID s i)) \<and>
     ocByMapIndex s = buckets_of place (ocByEntityID s)"

lemma bucket_of_Some [simp]: "bucket_of place m mapIndex i = Some e \<longleftrightarrow> m i = Some e \<and> place e = mapIndex"
  by (auto simp: bucket_of_def split: option.splits)

lemma bucket_of_empty: "dom (bucket_of place m mapIndex) = {} \<longleftrightarrow> (\<forall>i e. m i = Some e \<longrightarrow> place e \<noteq> mapIndex)"
proof -
  have "dom (bucket_of place m mapIndex) = {} \<longleftrightarrow> (\<forall>i. bucket_of place m mapIndex i = None)" by auto
  also have "\<dots> \<longleftrightarrow> (\<forall>i e. bucket_of place m mapIndex i \<noteq> Some e)" by (metis not_None_eq)
  finally show ?thesis by simp
qed

declare dom_eq_empty_conv [simp del]

lemma buckets_of_Some:
  "buckets_of place m mapIndex = Some b \<longleftrightarrow> b = bucket_of place m mapIndex \<and> (\<exists>i e. m i = Some e \<and> place e = mapIndex)"
  unfolding buckets_of_def bucket_of_empty by auto

lemma buckets_of_present: "m i = Some e \<Longrightarrow> buckets_of place m (place e) = Some (bucket_of place m (place e))"
  by (auto simp: buckets_of_Some)

lemma buckets_of_get: "(case buckets_of place m mapIndex of None \<Rightarrow> None | Some b \<Rightarrow> b i) = bucket_of place m mapIndex i"
proof (cases "buckets_of place m mapIndex")
  case None
  then have "dom (bucket_of place m mapIndex) = {}" by (simp add: buckets_of_def split: if_split_asm)
  then have "bucket_of place m mapIndex i = None" by auto
  with None show ?thesis by simp
next
  case (Some b)
  then have "b = bucket_of place m mapIndex" by (simp only: buckets_of_Some)
  with Some show ?thesis by simp
qed

lemma dom_buckets_of: "dom (buckets_of place m) = place ` ran m"
  by (auto simp: dom_def ran_def buckets_of_Some image_def)

lemma finite_ran_map: "finite (dom m) \<Longrightarrow> finite (ran m)"
proof -
  assume "finite (dom m)"
  moreover have "ran m \<subseteq> (\<lambda>i. the (m i)) ` dom m" by (force simp: ran_def dom_def)
  ultimately show ?thesis by (rule finite_surj)
qed

lemma finite_buckets [simp]: "finite (dom m) \<Longrightarrow> finite (dom (buckets_of place m))"
  by (simp add: dom_buckets_of finite_ran_map)

lemma finite_bucket: "finite (dom m) \<Longrightarrow> finite (dom (bucket_of place m mapIndex))"
  by (rule finite_subset [of _ "dom m"]) (auto simp: dom_def)

lemma first_some_None: "first_some f xs = None \<longleftrightarrow> (\<forall>x \<in> set xs. f x = None)"
  by (induction xs) (auto split: option.splits)

lemma first_some_Some: "first_some f xs = Some y \<Longrightarrow> \<exists>x \<in> set xs. f x = Some y"
  by (induction xs) (auto split: option.splits)

lemma first_some_unique:
  assumes "\<And>x y. x \<in> set xs \<Longrightarrow> f x = Some y \<Longrightarrow> r = Some y" and "r \<noteq> None \<Longrightarrow> \<exists>x \<in> set xs. f x \<noteq> None"
  shows "first_some f xs = r"
proof (cases "first_some f xs")
  case None
  then have "\<forall>x \<in> set xs. f x = None" by (simp add: first_some_None)
  then have "r = None" using assms(2) by (cases r) auto
  with None show ?thesis by simp
next
  case (Some y)
  with first_some_Some [OF Some] assms(1) show ?thesis by auto
qed

lemma set_map_values_buckets:
  "finite (dom m) \<Longrightarrow> set (map_values (buckets_of place m)) = bucket_of place m ` (place ` ran m)"
proof -
  assume "finite (dom m)"
  moreover have "ran (buckets_of place m) = bucket_of place m ` (place ` ran m)"
    by (auto simp: ran_def buckets_of_Some image_def)
  ultimately show ?thesis by (simp add: set_map_values)
qed

lemma map_presence_ok:
  assumes "side_ok ident place copy s"
  shows "map_presence s i = ocByEntityID s i"
proof -
  let ?m = "ocByEntityID s"
  have fin: "finite (dom ?m)" and b: "ocByMapIndex s = buckets_of place ?m" using assms by (simp_all add: side_ok_def)
  show ?thesis
    unfolding map_presence_def b
  proof (rule first_some_unique)
    show "?m i = Some y" if "x \<in> set (map_values (buckets_of place ?m))" "x i = Some y" for x y
      using that by (auto simp: set_map_values_buckets [OF fin])
    assume "?m i \<noteq> None"
    then obtain e where e: "?m i = Some e" by blast
    then have "bucket_of place ?m (place e) \<in> set (map_values (buckets_of place ?m))"
      by (auto simp: set_map_values_buckets [OF fin] ran_def)
    moreover have "bucket_of place ?m (place e) i = Some e" using e by simp
    ultimately show "\<exists>x \<in> set (map_values (buckets_of place ?m)). x i \<noteq> None" by (metis option.distinct(1))
  qed
qed

lemma any_in_buckets_ok:
  assumes "side_ok ident place copy s"
  shows "any_in_buckets P s \<longleftrightarrow> (\<exists>i e. ocByEntityID s i = Some e \<and> P e)"
proof -
  let ?m = "ocByEntityID s"
  have fin: "finite (dom ?m)" and b: "ocByMapIndex s = buckets_of place ?m" using assms by (simp_all add: side_ok_def)
  have "any_in_buckets P s \<longleftrightarrow> (\<exists>mapIndex \<in> place ` ran ?m. \<exists>e \<in> ran (bucket_of place ?m mapIndex). P e)"
    by (simp add: any_in_buckets_def b list_ex_iff set_map_values_buckets [OF fin] set_map_values finite_bucket [OF fin])
  also have "\<dots> \<longleftrightarrow> (\<exists>i e. ?m i = Some e \<and> P e)" by (auto simp: ran_def)
  finally show ?thesis .
qed

lemma any_entity_ok:
  assumes "side_ok ident place copy s"
  shows "any_entity P s \<longleftrightarrow> (\<exists>i e. ocByEntityID s i = Some e \<and> P e)"
proof -
  have "finite (dom (ocByEntityID s))" using assms by (simp add: side_ok_def)
  then have "list_ex P (map_values (ocByEntityID s)) \<longleftrightarrow> (\<exists>i e. ocByEntityID s i = Some e \<and> P e)"
    by (auto simp: list_ex_iff set_map_values ran_def)
  then show ?thesis using any_in_buckets_ok [OF assms, of P] by (simp add: any_entity_def any_in_buckets_def)
qed

section \<open>Taking and leaving a place\<close>

lemma remove_presence_buckets:
  assumes "ocByMapIndex s = buckets_of place m"
  shows "ocByMapIndex (remove_presence i s) = buckets_of place (m(i := None))"
proof
  fix mapIndex
  have u: "(bucket_of place m mapIndex)(i := None) = bucket_of place (m(i := None)) mapIndex"
    by (rule ext) (simp add: bucket_of_def)
  show "ocByMapIndex (remove_presence i s) mapIndex = buckets_of place (m(i := None)) mapIndex"
  proof (cases "buckets_of place m mapIndex")
    case None
    then have e: "\<forall>i e. m i = Some e \<longrightarrow> place e \<noteq> mapIndex" by (auto simp: buckets_of_def bucket_of_empty split: if_split_asm)
    then have "buckets_of place (m(i := None)) mapIndex = None" by (auto simp: buckets_of_def bucket_of_empty)
    with None show ?thesis by (simp add: remove_presence_def assms)
  next
    case (Some b)
    then have b: "b = bucket_of place m mapIndex" "dom b \<noteq> {}" by (auto simp: buckets_of_def split: if_split_asm)
    show ?thesis
    proof (cases "b i")
      case None
      then have "b(i := None) = b" by auto
      then have "bucket_of place (m(i := None)) mapIndex = b" using u b(1) by simp
      with b(2) None Some show ?thesis by (simp add: remove_presence_def assms buckets_of_def)
    next
      case (Some e)
      then show ?thesis using \<open>buckets_of place m mapIndex = Some b\<close> b(1) u
        by (simp add: remove_presence_def assms buckets_of_def [of place "m(i := None)"] del: bucket_of_Some)
    qed
  qed
qed

lemma put_presence_buckets:
  assumes "ocByMapIndex s = buckets_of place m" and "m i = None"
  shows "ocByMapIndex (put_presence (place e) i e s) = buckets_of place (m(i \<mapsto> e))"
proof
  fix mapIndex
  have u: "(bucket_of place m (place e))(i \<mapsto> e) = bucket_of place (m(i \<mapsto> e)) (place e)"
    by (rule ext) (simp add: bucket_of_def)
  have c: "(case buckets_of place m (place e) of None \<Rightarrow> Map.empty | Some bucket \<Rightarrow> bucket) = bucket_of place m (place e)"
  proof (cases "buckets_of place m (place e)")
    case None
    then have "dom (bucket_of place m (place e)) = {}" by (simp add: buckets_of_def split: if_split_asm)
    with None show ?thesis by (simp add: dom_eq_empty_conv)
  next
    case (Some b)
    then have "b = bucket_of place m (place e)" by (simp only: buckets_of_Some)
    with Some show ?thesis by simp
  qed
  show "ocByMapIndex (put_presence (place e) i e s) mapIndex = buckets_of place (m(i \<mapsto> e)) mapIndex"
  proof (cases "mapIndex = place e")
    case True
    have "buckets_of place (m(i \<mapsto> e)) (place e) = Some (bucket_of place (m(i \<mapsto> e)) (place e))"
      by (rule buckets_of_present [of _ i]) simp
    with True show ?thesis by (simp add: put_presence_def Let_def assms(1) c u)
  next
    case False
    have "bucket_of place (m(i \<mapsto> e)) mapIndex = bucket_of place m mapIndex"
      using False assms(2) by (intro ext) (simp add: bucket_of_def)
    with False show ?thesis by (simp add: put_presence_def Let_def assms(1) buckets_of_def)
  qed
qed

lemma occupy_fields:
  "ocByEntityID (occupy ident place copy e s) = (ocByEntityID s)(ident e \<mapsto> copy e)"
  by (simp add: occupy_def Let_def put_presence_def remove_presence_def)

text \<open>Registering and updating keep the side in order, whether or not the entity was there.\<close>

lemma occupy_ok:
  assumes ok: "side_ok ident place copy s" and e: "ident (copy e) = ident e" "place (copy e) = place e" "copy (copy e) = copy e"
    "ident e \<noteq> 0"
  shows "side_ok ident place copy (occupy ident place copy e s)"
proof -
  let ?m = "ocByEntityID s" and ?i = "ident e"
  define r where "r = (remove_presence ?i s)\<lparr>ocByEntityID := ?m(?i \<mapsto> copy e)\<rparr>"
  have o: "occupy ident place copy e s = put_presence (place (copy e)) ?i (copy e) r"
    by (simp add: occupy_def Let_def r_def remove_presence_def e)
  have b: "ocByMapIndex s = buckets_of place ?m" "ocEffectiveMap s = (\<lambda>i. map_option place (?m i))"
    using ok by (simp_all add: side_ok_def)
  have "ocByMapIndex r = buckets_of place (?m(?i := None))"
    unfolding r_def using remove_presence_buckets [OF b(1), of ?i] by simp
  from put_presence_buckets [OF this, of ?i "copy e"]
  have "ocByMapIndex (occupy ident place copy e s) = buckets_of place (?m(?i \<mapsto> copy e))" by (simp add: o)
  moreover have "ocEffectiveMap (occupy ident place copy e s) = (\<lambda>i. map_option place ((?m(?i \<mapsto> copy e)) i))"
    by (rule ext) (simp add: o r_def put_presence_def remove_presence_def Let_def b(2))
  ultimately show ?thesis using ok e by (auto simp: side_ok_def occupy_fields)
qed

lemma repair_presence_id:
  assumes ok: "side_ok ident place copy s" and e: "ocByEntityID s i = Some e"
  shows "repair_presence ident place copy e s = s"
proof -
  let ?m = "ocByEntityID s"
  have p: "ident e = i" "copy e = e" using ok e by (auto simp: side_ok_def)
  have b: "ocByMapIndex s = buckets_of place ?m" "ocEffectiveMap s = (\<lambda>i. map_option place (?m i))"
    using ok by (simp_all add: side_ok_def)
  have "?m(i := None, i \<mapsto> e) = ?m" using e by auto
  then have "ocByMapIndex (repair_presence ident place copy e s) = buckets_of place ?m"
    using put_presence_buckets [OF remove_presence_buckets [OF b(1), of i], of i e] by (simp add: repair_presence_def p)
  moreover have "ocEffectiveMap (repair_presence ident place copy e s) = ocEffectiveMap s"
    using e by (intro ext) (simp add: repair_presence_def p put_presence_def remove_presence_def Let_def b(2))
  moreover have "ocByEntityID (repair_presence ident place copy e s) = ?m"
    by (simp add: repair_presence_def put_presence_def remove_presence_def Let_def)
  ultimately show ?thesis using b(1) by (intro occupants.equality) simp_all
qed

section \<open>Repairs of a side in order change nothing\<close>

lemma misplaced_ok:
  assumes ok: "side_ok ident place copy s" shows "misplaced place s = []"
proof -
  have "misplaced_in place s i mapIndex = None" for i mapIndex
    using ok by (auto simp: misplaced_in_def side_ok_def buckets_of_Some split: option.splits)
  then have "first_some (misplaced_in place s i) xs = None" for i xs by (simp add: first_some_None)
  then show ?thesis by (simp add: misplaced_def Let_def List.map_filter_def)
qed

lemma repair_misplaced_id: "side_ok ident place copy s \<Longrightarrow> repair_misplaced ident place copy blocked s = s"
  by (simp add: repair_misplaced_def misplaced_ok)

lemma repair_from_effective_id:
  assumes ok: "side_ok ident place copy s"
  shows "repair_from_effective ident place copy blocked s = s"
proof -
  have "repair_from_effective_loop ident place copy blocked ids s = s" if "set ids \<subseteq> dom (ocByEntityID s)" for ids
    using that by (induction ids) auto
  moreover have "dom (ocEffectiveMap s) = dom (ocByEntityID s)" using ok by (auto simp: side_ok_def dom_def)
  moreover have "finite (dom (ocByEntityID s))" using ok by (simp add: side_ok_def)
  ultimately show ?thesis by (simp add: repair_from_effective_def)
qed

lemma canonical_presence_absent:
  assumes ok: "side_ok ident place copy s" and n: "ocByEntityID s i = None"
  shows "canonical_presence place copy s i = None"
proof -
  have g: "(case ocByMapIndex s mapIndex of None \<Rightarrow> None | Some b \<Rightarrow> b i) = None" for mapIndex
    using buckets_of_get [where place = place and m = "ocByEntityID s" and mapIndex = mapIndex and i = i] ok n
    by (simp add: side_ok_def bucket_of_def)
  then have "(case ocByMapIndex s mapIndex of None \<Rightarrow> None
      | Some b \<Rightarrow> (case b i of None \<Rightarrow> None | Some e \<Rightarrow> if place e \<noteq> mapIndex then None else Some e)) = None" for mapIndex
    using g [of mapIndex] by (cases "ocByMapIndex s mapIndex") simp_all
  then have "first_some (\<lambda>mapIndex. case ocByMapIndex s mapIndex of None \<Rightarrow> None
      | Some b \<Rightarrow> (case b i of None \<Rightarrow> None | Some e \<Rightarrow> if place e \<noteq> mapIndex then None else Some e)) xs = None" for xs
    by (simp add: first_some_None)
  then show ?thesis using ok n by (simp add: canonical_presence_def Let_def side_ok_def)
qed

lemma vacate_ok:
  assumes ok: "side_ok ident place copy s"
  shows "side_ok ident place copy (fst (vacate place copy s i))"
    and "ocByEntityID (fst (vacate place copy s i)) = (ocByEntityID s)(i := None)"
    and "snd (vacate place copy s i) = ocByEntityID s i"
proof -
  let ?m = "ocByEntityID s"
  have b: "ocByMapIndex s = buckets_of place ?m" "ocEffectiveMap s = (\<lambda>i. map_option place (?m i))"
    and c: "\<And>e. ?m i = Some e \<Longrightarrow> i \<noteq> 0 \<and> copy e = e"
    using ok by (auto simp: side_ok_def)
  have z: "?m 0 = None" using ok by (metis not_None_eq side_ok_def)
  have id: "?m(i := None) = ?m" if "?m i = None" using that by auto
  show "snd (vacate place copy s i) = ?m i"
    using c z by (cases "i = 0"; cases "?m i") (simp_all add: vacate_def Let_def canonical_presence_absent [OF ok] map_presence_ok [OF ok])
  show e: "ocByEntityID (fst (vacate place copy s i)) = ?m(i := None)"
    using c id z by (cases "i = 0"; cases "?m i")
      (simp_all add: vacate_def Let_def canonical_presence_absent [OF ok] map_presence_ok [OF ok] remove_presence_def)
  have m: "ocByMapIndex (fst (vacate place copy s i)) = buckets_of place (?m(i := None))"
  proof (cases "?m i")
    case None
    then have "ocByMapIndex (fst (vacate place copy s i)) = ocByMapIndex s"
      by (simp add: vacate_def Let_def canonical_presence_absent [OF ok] map_presence_ok [OF ok])
    then show ?thesis unfolding b(1) id [OF None] .
  next
    case (Some e)
    then have "fst (vacate place copy s i) = remove_presence i (s\<lparr>ocByEntityID := ?m(i := None)\<rparr>)"
      using c by (simp add: vacate_def Let_def)
    then show ?thesis using remove_presence_buckets [of "s\<lparr>ocByEntityID := ?m(i := None)\<rparr>" place ?m i] b(1) by simp
  qed
  have f: "ocEffectiveMap (fst (vacate place copy s i)) = (\<lambda>j. map_option place ((?m(i := None)) j))"
    using z by (intro ext, cases "i = 0"; cases "?m i")
      (auto simp: vacate_def Let_def canonical_presence_absent [OF ok] map_presence_ok [OF ok] remove_presence_def b(2))
  show "side_ok ident place copy (fst (vacate place copy s i))"
    using ok unfolding side_ok_def e m f by auto
qed

end
