(* ===== verification/World_MapIndex.thy ===== *)
theory World_MapIndex
  imports World_Occupants
begin

text \<open>
  The map index (\<open>internal/worldruntime/map_index.go\<close>): which players and which static actors stand
  on which map, with the repairs every lookup makes first. The two sides are instances of
  \<open>World_Occupants\<close>. A function of the code that changes the index returns it; a walk over a Go map
  is a walk over its sorted keys, taken when the walk begins.
\<close>

section \<open>State\<close>

record map_index =
  miTopology :: topology
  miPlayers :: "player_entity occupants"
  miStatics :: "static_entity occupants"

record map_occupancy =
  moMapIndex :: u32
  moCharacters :: "character list"
  moStaticActors :: "static_entity list"

definition empty_side :: "'e occupants" where
  "empty_side = \<lparr>ocByEntityID = Map.empty, ocEffectiveMap = Map.empty, ocByMapIndex = Map.empty\<rparr>"

definition NewMapIndex :: "topology \<Rightarrow> map_index" where
  "NewMapIndex t = \<lparr>miTopology = t, miPlayers = empty_side, miStatics = empty_side\<rparr>"

abbreviation player_id :: "player_entity \<Rightarrow> u64" where "player_id p \<equiv> eID (plEntity p)"
abbreviation actor_id :: "static_entity \<Rightarrow> u64" where "actor_id a \<equiv> eID (aEntity a)"

definition player_map :: "topology \<Rightarrow> player_entity \<Rightarrow> u32" where
  "player_map t p = EffectiveMapIndex t (zero_character\<lparr>cMapIndex := pMapIndex (PlayerEntity_Position p)\<rparr>)"

definition actor_map :: "topology \<Rightarrow> static_entity \<Rightarrow> u32" where
  "actor_map t a = EffectiveMapIndex t (zero_character\<lparr>cMapIndex := pMapIndex (aPosition a)\<rparr>)"

section \<open>Presence\<close>

definition playerMapPresence :: "map_index \<Rightarrow> u64 \<Rightarrow> player_entity option" where
  "playerMapPresence m i = map_option clonePlayerEntity (map_presence (miPlayers m) i)"

definition staticActorMapPresence :: "map_index \<Rightarrow> u64 \<Rightarrow> static_entity option" where
  "staticActorMapPresence m i = map_presence (miStatics m) i"

definition staticActorVisibilityVIDPresence :: "map_index \<Rightarrow> u32 \<Rightarrow> u64 \<Rightarrow> bool" where
  "staticActorVisibilityVIDPresence m vid i =
     (if vid = 0 then False
      else any_entity (\<lambda>a. StaticActorVisibilityVID a = Some vid \<and> actor_id a \<noteq> i) (miStatics m))"

definition playerVisibilityVIDPresence :: "map_index \<Rightarrow> static_entity \<Rightarrow> u64 \<Rightarrow> bool" where
  "playerVisibilityVIDPresence m a i =
     (case StaticActorVisibilityVID a of
        None \<Rightarrow> False
      | Some vid \<Rightarrow> any_entity (\<lambda>p. eVID (plEntity p) = vid \<and> player_id p \<noteq> i) (miPlayers m))"

definition staticActorMapVisibilityVIDPresence :: "map_index \<Rightarrow> u32 \<Rightarrow> u64 \<Rightarrow> bool" where
  "staticActorMapVisibilityVIDPresence m vid i =
     (if vid = 0 then False
      else any_in_buckets (\<lambda>a. StaticActorVisibilityVID a = Some vid \<and> actor_id a \<noteq> i) (miStatics m))"

definition playerMapVisibilityVIDPresence :: "map_index \<Rightarrow> static_entity \<Rightarrow> u64 \<Rightarrow> bool" where
  "playerMapVisibilityVIDPresence m a i =
     (case StaticActorVisibilityVID a of
        None \<Rightarrow> False
      | Some vid \<Rightarrow> any_in_buckets (\<lambda>p. eVID (plEntity p) = vid \<and> player_id p \<noteq> i) (miPlayers m))"

definition mapOnlyStaticMapPresenceCollidesWithPlayer :: "map_index \<Rightarrow> player_entity \<Rightarrow> bool" where
  "mapOnlyStaticMapPresenceCollidesWithPlayer m p =
     (if player_id p = 0 then True
      else any_in_buckets
        (\<lambda>a. ocByEntityID (miStatics m) (actor_id a) = None \<and>
             (actor_id a = player_id p \<or> eVID (plEntity p) \<noteq> 0 \<and> StaticActorVisibilityVID a = Some (eVID (plEntity p))))
        (miStatics m))"

definition mapOnlyPlayerMapPresenceCollidesWithStatic :: "map_index \<Rightarrow> static_entity \<Rightarrow> bool" where
  "mapOnlyPlayerMapPresenceCollidesWithStatic m a =
     (if actor_id a = 0 then True
      else any_in_buckets
        (\<lambda>p. ocByEntityID (miPlayers m) (player_id p) = None \<and>
             (player_id p = actor_id a \<or> StaticActorVisibilityVID a = Some (eVID (plEntity p))))
        (miPlayers m))"

definition playerMapPresenceBlockedByStaticMap :: "map_index \<Rightarrow> player_entity \<Rightarrow> bool" where
  "playerMapPresenceBlockedByStaticMap m p =
     (if player_id p = 0 then True
      else if ocByEntityID (miPlayers m) (player_id p) \<noteq> None
      then staticActorMapVisibilityVIDPresence m (eVID (plEntity p)) (player_id p)
      else mapOnlyStaticMapPresenceCollidesWithPlayer m p)"

definition staticMapPresenceBlockedByPlayerMap :: "map_index \<Rightarrow> static_entity \<Rightarrow> bool" where
  "staticMapPresenceBlockedByPlayerMap m a =
     (if actor_id a = 0 then True
      else if ocByEntityID (miStatics m) (actor_id a) \<noteq> None
      then (if playerMapPresence m (actor_id a) \<noteq> None then True else playerMapVisibilityVIDPresence m a (actor_id a))
      else mapOnlyPlayerMapPresenceCollidesWithStatic m a)"

section \<open>Repairs\<close>

definition playerRepairBlockedByStaticPresence :: "map_index \<Rightarrow> u64 \<Rightarrow> bool" where
  "playerRepairBlockedByStaticPresence m i \<longleftrightarrow>
     i = 0 \<or> ocByEntityID (miStatics m) i \<noteq> None \<or> staticActorMapPresence m i \<noteq> None"

definition staticRepairBlockedByPlayerPresence :: "map_index \<Rightarrow> u64 \<Rightarrow> bool" where
  "staticRepairBlockedByPlayerPresence m i \<longleftrightarrow>
     i = 0 \<or> ocByEntityID (miPlayers m) i \<noteq> None \<or> playerMapPresence m i \<noteq> None"

definition repairPlayerMapPresence :: "map_index \<Rightarrow> player_entity \<Rightarrow> map_index" where
  "repairPlayerMapPresence m p =
     m\<lparr>miPlayers := repair_presence player_id (player_map (miTopology m)) clonePlayerEntity p (miPlayers m)\<rparr>"

definition repairStaticMapPresence :: "map_index \<Rightarrow> static_entity \<Rightarrow> map_index" where
  "repairStaticMapPresence m a =
     m\<lparr>miStatics := repair_presence actor_id (actor_map (miTopology m)) cloneStaticEntity a (miStatics m)\<rparr>"

definition repairPlayerMapPresenceIfUnblocked :: "map_index \<Rightarrow> player_entity \<Rightarrow> map_index" where
  "repairPlayerMapPresenceIfUnblocked m p =
     (if playerRepairBlockedByStaticPresence m (player_id p) \<or>
         staticActorVisibilityVIDPresence m (eVID (plEntity p)) (player_id p)
      then m else repairPlayerMapPresence m p)"

definition repairStaticMapPresenceIfUnblocked :: "map_index \<Rightarrow> static_entity \<Rightarrow> map_index" where
  "repairStaticMapPresenceIfUnblocked m a =
     (if staticRepairBlockedByPlayerPresence m (actor_id a) \<or> playerVisibilityVIDPresence m a (actor_id a)
      then m else repairStaticMapPresence m a)"

definition repairMisplacedPlayerMapPresence :: "map_index \<Rightarrow> map_index" where
  "repairMisplacedPlayerMapPresence m =
     m\<lparr>miPlayers := repair_misplaced player_id (player_map (miTopology m)) clonePlayerEntity
         (\<lambda>i. ocByEntityID (miStatics m) i \<noteq> None \<or> staticActorMapPresence m i \<noteq> None) (miPlayers m)\<rparr>"

definition repairMisplacedStaticMapPresence :: "map_index \<Rightarrow> map_index" where
  "repairMisplacedStaticMapPresence m =
     m\<lparr>miStatics := repair_misplaced actor_id (actor_map (miTopology m)) cloneStaticEntity
         (\<lambda>i. ocByEntityID (miPlayers m) i \<noteq> None \<or> playerMapPresence m i \<noteq> None) (miStatics m)\<rparr>"

definition repairPlayerMapPresenceFromEffectiveIndex :: "map_index \<Rightarrow> map_index" where
  "repairPlayerMapPresenceFromEffectiveIndex m =
     m\<lparr>miPlayers := repair_from_effective player_id (player_map (miTopology m)) clonePlayerEntity
         (\<lambda>i. ocByEntityID (miStatics m) i \<noteq> None \<or> staticActorMapPresence m i \<noteq> None) (miPlayers m)\<rparr>"

definition repairStaticMapPresenceFromEffectiveIndex :: "map_index \<Rightarrow> map_index" where
  "repairStaticMapPresenceFromEffectiveIndex m =
     m\<lparr>miStatics := repair_from_effective actor_id (actor_map (miTopology m)) cloneStaticEntity
         (\<lambda>i. ocByEntityID (miPlayers m) i \<noteq> None \<or> playerMapPresence m i \<noteq> None) (miStatics m)\<rparr>"

text \<open>The walk over the canonical map that repairs one entity after the other.\<close>

definition repair_all_players :: "map_index \<Rightarrow> map_index" where
  "repair_all_players m = foldl repairPlayerMapPresenceIfUnblocked m (map_values (ocByEntityID (miPlayers m)))"

definition repair_all_statics :: "map_index \<Rightarrow> map_index" where
  "repair_all_statics m = foldl repairStaticMapPresenceIfUnblocked m (map_values (ocByEntityID (miStatics m)))"

section \<open>Players\<close>

definition MapIndex_Register :: "map_index \<Rightarrow> player_entity \<Rightarrow> map_index \<times> bool" where
  "MapIndex_Register m p =
     (if \<not> validPlayerDirectoryEntity p then (m, False)
      else if ocByEntityID (miPlayers m) (player_id p) \<noteq> None then (m, False)
      else if ocByEntityID (miStatics m) (player_id p) \<noteq> None then (m, False)
      else if staticActorMapPresence m (player_id p) \<noteq> None then (m, False)
      else if staticActorVisibilityVIDPresence m (eVID (plEntity p)) (player_id p) then (m, False)
      else (m\<lparr>miPlayers := occupy player_id (player_map (miTopology m)) clonePlayerEntity p (miPlayers m)\<rparr>, True))"

definition MapIndex_Update :: "map_index \<Rightarrow> player_entity \<Rightarrow> map_index \<times> bool" where
  "MapIndex_Update m p =
     (if \<not> validPlayerDirectoryEntity p then (m, False)
      else if ocByEntityID (miPlayers m) (player_id p) = None \<and> playerMapPresence m (player_id p) = None then (m, False)
      else if ocByEntityID (miStatics m) (player_id p) \<noteq> None then (m, False)
      else if staticActorMapPresence m (player_id p) \<noteq> None then (m, False)
      else if staticActorVisibilityVIDPresence m (eVID (plEntity p)) (player_id p) then (m, False)
      else (m\<lparr>miPlayers := occupy player_id (player_map (miTopology m)) clonePlayerEntity p (miPlayers m)\<rparr>, True))"

definition MapIndex_Remove :: "map_index \<Rightarrow> u64 \<Rightarrow> map_index \<times> player_entity option" where
  "MapIndex_Remove m i =
     (let (side, removed) = vacate (player_map (miTopology m)) clonePlayerEntity (miPlayers m) i in
      (m\<lparr>miPlayers := side\<rparr>, removed))"

definition MapIndex_Player :: "map_index \<Rightarrow> u64 \<Rightarrow> map_index \<times> player_entity option" where
  "MapIndex_Player m0 i =
     (if i = 0 then (m0, None)
      else
        let m = repairPlayerMapPresenceFromEffectiveIndex (repairMisplacedPlayerMapPresence m0) in
        case ocByEntityID (miPlayers m) i of
          Some p \<Rightarrow> (repairPlayerMapPresenceIfUnblocked m p, Some (clonePlayerEntity p))
        | None \<Rightarrow>
            (m, case playerMapPresence m i of
                  None \<Rightarrow> None
                | Some p \<Rightarrow>
                    if playerRepairBlockedByStaticPresence m i \<or> staticActorVisibilityVIDPresence m (eVID (plEntity p)) i
                    then None else Some p))"

text \<open>The walk over the buckets when the canonical map has no hit.\<close>

fun player_in_buckets :: "(player_entity \<Rightarrow> bool) \<Rightarrow> player_entity list \<Rightarrow> map_index \<Rightarrow> map_index \<times> player_entity option" where
  "player_in_buckets sought [] m = (m, None)"
| "player_in_buckets sought (p # ps) m =
     (if \<not> sought p then player_in_buckets sought ps m
      else case ocByEntityID (miPlayers m) (player_id p) of
        Some current \<Rightarrow>
          (let m = repairPlayerMapPresenceIfUnblocked m current in
           if sought current then (m, Some (clonePlayerEntity current)) else player_in_buckets sought ps m)
      | None \<Rightarrow>
          if playerRepairBlockedByStaticPresence m (player_id p) \<or>
             staticActorVisibilityVIDPresence m (eVID (plEntity p)) (player_id p)
          then (m, None) else (m, Some (clonePlayerEntity p)))"

definition bucket_entities :: "'e occupants \<Rightarrow> 'e list" where
  "bucket_entities s = concat (map map_values (map_values (ocByMapIndex s)))"

definition MapIndex_PlayerByVID :: "map_index \<Rightarrow> u32 \<Rightarrow> map_index \<times> player_entity option" where
  "MapIndex_PlayerByVID m0 vid =
     (if vid = 0 then (m0, None)
      else
        let m = repairPlayerMapPresenceFromEffectiveIndex (repairMisplacedPlayerMapPresence m0) in
        case find (\<lambda>p. eVID (plEntity p) = vid) (map_values (ocByEntityID (miPlayers m))) of
          Some p \<Rightarrow>
            if staticActorVisibilityVIDPresence m (eVID (plEntity p)) (player_id p) then (m, None)
            else (repairPlayerMapPresenceIfUnblocked m p, Some (clonePlayerEntity p))
        | None \<Rightarrow> player_in_buckets (\<lambda>p. eVID (plEntity p) = vid) (bucket_entities (miPlayers m)) m)"

definition MapIndex_PlayerByName :: "map_index \<Rightarrow> string \<Rightarrow> map_index \<times> player_entity option" where
  "MapIndex_PlayerByName m0 name =
     (if name = [] then (m0, None)
      else
        let m = repairPlayerMapPresenceFromEffectiveIndex (repairMisplacedPlayerMapPresence m0) in
        case find (\<lambda>p. eName (plEntity p) = name) (map_values (ocByEntityID (miPlayers m))) of
          Some p \<Rightarrow> (repairPlayerMapPresenceIfUnblocked m p, Some (clonePlayerEntity p))
        | None \<Rightarrow> player_in_buckets (\<lambda>p. eName (plEntity p) = name) (bucket_entities (miPlayers m)) m)"

definition bucket_at :: "'e occupants \<Rightarrow> u32 \<Rightarrow> 'e list" where
  "bucket_at s mapIndex = (case ocByMapIndex s mapIndex of None \<Rightarrow> [] | Some bucket \<Rightarrow> map_values bucket)"

definition MapIndex_PlayerCharacters :: "map_index \<Rightarrow> u32 \<Rightarrow> map_index \<times> character list" where
  "MapIndex_PlayerCharacters m0 mapIndex =
     (let m = repairPlayerMapPresenceFromEffectiveIndex (repairMisplacedPlayerMapPresence (repair_all_players m0));
          effectiveMapIndex = EffectiveMapIndex (miTopology m) (zero_character\<lparr>cMapIndex := mapIndex\<rparr>) in
      (m, sortCharacters (map (\<lambda>p. cloneCharacterSnapshot (plCharacter p))
            (filter (\<lambda>p. \<not> playerMapPresenceBlockedByStaticMap m p) (bucket_at (miPlayers m) effectiveMapIndex)))))"

text \<open>First the canonical map, then the buckets, keeping the first entity of each identifier.\<close>

fun first_of_each :: "('e \<Rightarrow> u64) \<Rightarrow> u64 set \<Rightarrow> 'e list \<Rightarrow> 'e list" where
  "first_of_each ident seen [] = []"
| "first_of_each ident seen (e # es) =
     (if ident e \<in> seen then first_of_each ident seen es else e # first_of_each ident (insert (ident e) seen) es)"

definition MapIndex_AllPlayers :: "map_index \<Rightarrow> map_index \<times> player_entity list" where
  "MapIndex_AllPlayers m0 =
     (if dom (ocByEntityID (miPlayers m0)) = {} \<and> dom (ocByMapIndex (miPlayers m0)) = {} then (m0, [])
      else
        let m = repairPlayerMapPresenceFromEffectiveIndex (repairMisplacedPlayerMapPresence (repair_all_players m0)) in
        (m, sortPlayerEntities (first_of_each player_id {} (map clonePlayerEntity
              (filter (\<lambda>p. \<not> playerMapPresenceBlockedByStaticMap m p)
                (map_values (ocByEntityID (miPlayers m)) @ bucket_entities (miPlayers m)))))))"

section \<open>Static actors\<close>

definition MapIndex_RegisterStatic :: "profile_registry \<Rightarrow> map_index \<Rightarrow> static_entity \<Rightarrow> map_index \<times> bool" where
  "MapIndex_RegisterStatic reg m actor =
     (let a = normalizeStaticEntityCombat actor in
      if \<not> validStaticEntity reg a then (m, False)
      else if ocByEntityID (miStatics m) (actor_id a) \<noteq> None then (m, False)
      else if ocByEntityID (miPlayers m) (actor_id a) \<noteq> None then (m, False)
      else if playerMapPresence m (actor_id a) \<noteq> None then (m, False)
      else if playerVisibilityVIDPresence m a (actor_id a) then (m, False)
      else (m\<lparr>miStatics := occupy actor_id (actor_map (miTopology m)) cloneStaticEntity a (miStatics m)\<rparr>, True))"

definition MapIndex_UpdateStatic :: "profile_registry \<Rightarrow> map_index \<Rightarrow> static_entity \<Rightarrow> map_index \<times> bool" where
  "MapIndex_UpdateStatic reg m actor =
     (let a = normalizeStaticEntityCombat actor in
      if \<not> validStaticEntity reg a then (m, False)
      else if ocByEntityID (miStatics m) (actor_id a) = None \<and> staticActorMapPresence m (actor_id a) = None then (m, False)
      else if ocByEntityID (miPlayers m) (actor_id a) \<noteq> None then (m, False)
      else if playerMapPresence m (actor_id a) \<noteq> None then (m, False)
      else if playerVisibilityVIDPresence m a (actor_id a) then (m, False)
      else (m\<lparr>miStatics := occupy actor_id (actor_map (miTopology m)) cloneStaticEntity a (miStatics m)\<rparr>, True))"

definition MapIndex_RemoveStatic :: "map_index \<Rightarrow> u64 \<Rightarrow> map_index \<times> static_entity option" where
  "MapIndex_RemoveStatic m i =
     (let (side, removed) = vacate (actor_map (miTopology m)) cloneStaticEntity (miStatics m) i in
      (m\<lparr>miStatics := side\<rparr>, removed))"

definition MapIndex_StaticActor :: "map_index \<Rightarrow> u64 \<Rightarrow> map_index \<times> static_entity option" where
  "MapIndex_StaticActor m0 i =
     (if i = 0 then (m0, None)
      else
        let m = repairStaticMapPresenceFromEffectiveIndex (repairMisplacedStaticMapPresence m0) in
        case ocByEntityID (miStatics m) i of
          Some a \<Rightarrow> (repairStaticMapPresenceIfUnblocked m a, Some (cloneStaticEntity a))
        | None \<Rightarrow>
            (m, if staticRepairBlockedByPlayerPresence m i then None
                else case staticActorMapPresence m i of
                  None \<Rightarrow> None
                | Some a \<Rightarrow>
                    if staticRepairBlockedByPlayerPresence m i \<or> playerVisibilityVIDPresence m a i
                    then None else Some (cloneStaticEntity a)))"

fun actor_in_buckets :: "u32 \<Rightarrow> static_entity list \<Rightarrow> map_index \<Rightarrow> map_index \<times> static_entity option" where
  "actor_in_buckets vid [] m = (m, None)"
| "actor_in_buckets vid (a # actors) m =
     (if StaticActorVisibilityVID a \<noteq> Some vid then actor_in_buckets vid actors m
      else case ocByEntityID (miStatics m) (actor_id a) of
        Some current \<Rightarrow>
          (let m = repairStaticMapPresenceIfUnblocked m current in
           if StaticActorVisibilityVID current = Some vid then (m, Some (cloneStaticEntity current))
           else actor_in_buckets vid actors m)
      | None \<Rightarrow>
          if staticRepairBlockedByPlayerPresence m (actor_id a) \<or> playerVisibilityVIDPresence m a (actor_id a)
          then (m, None) else (m, Some (cloneStaticEntity a)))"

definition MapIndex_StaticActorByVID :: "map_index \<Rightarrow> u32 \<Rightarrow> map_index \<times> static_entity option" where
  "MapIndex_StaticActorByVID m0 vid =
     (if vid = 0 then (m0, None)
      else
        let m = repairStaticMapPresenceFromEffectiveIndex (repairMisplacedStaticMapPresence m0) in
        case find (\<lambda>a. StaticActorVisibilityVID a = Some vid) (map_values (ocByEntityID (miStatics m))) of
          Some a \<Rightarrow>
            if playerVisibilityVIDPresence m a (actor_id a) then (m, None)
            else (repairStaticMapPresenceIfUnblocked m a, Some (cloneStaticEntity a))
        | None \<Rightarrow> actor_in_buckets vid (bucket_entities (miStatics m)) m)"

text \<open>
  The walk of \<open>AllStaticActors\<close> over the canonical map repairs each actor and then asks whether it is
  blocked; a repair of this side does not change what blocks.
\<close>

fun unblocked_actors :: "static_entity list \<Rightarrow> map_index \<Rightarrow> map_index \<times> static_entity list" where
  "unblocked_actors [] m = (m, [])"
| "unblocked_actors (a # actors) m =
     (let m = repairStaticMapPresenceIfUnblocked m a;
          (m', rest) = unblocked_actors actors m in
      (m', if staticMapPresenceBlockedByPlayerMap m a then rest else cloneStaticEntity a # rest))"

definition MapIndex_AllStaticActors :: "map_index \<Rightarrow> map_index \<times> static_entity list" where
  "MapIndex_AllStaticActors m0 =
     (if dom (ocByEntityID (miStatics m0)) = {} \<and> dom (ocByMapIndex (miStatics m0)) = {} then (m0, [])
      else
        let m1 = repairStaticMapPresenceFromEffectiveIndex (repairMisplacedStaticMapPresence m0);
            (m, canonical) = unblocked_actors (map_values (ocByEntityID (miStatics m1))) m1 in
        (m, sortStaticEntities (first_of_each actor_id {} (canonical @ map cloneStaticEntity
              (filter (\<lambda>a. \<not> staticMapPresenceBlockedByPlayerMap m a) (bucket_entities (miStatics m)))))))"

definition MapIndex_StaticActors :: "map_index \<Rightarrow> u32 \<Rightarrow> map_index \<times> static_entity list" where
  "MapIndex_StaticActors m0 mapIndex =
     (let m = repairStaticMapPresenceFromEffectiveIndex (repairMisplacedStaticMapPresence (repair_all_statics m0));
          effectiveMapIndex = EffectiveMapIndex (miTopology m) (zero_character\<lparr>cMapIndex := mapIndex\<rparr>) in
      (m, sortStaticEntities (map cloneStaticEntity
            (filter (\<lambda>a. \<not> staticMapPresenceBlockedByPlayerMap m a) (bucket_at (miStatics m) effectiveMapIndex)))))"

section \<open>The whole occupancy\<close>

definition map_occupancy_at :: "map_index \<Rightarrow> u32 \<Rightarrow> map_occupancy" where
  "map_occupancy_at m mapIndex =
     \<lparr>moMapIndex = mapIndex,
      moCharacters = sortCharacters (map (\<lambda>p. cloneCharacterSnapshot (plCharacter p))
        (filter (\<lambda>p. \<not> playerMapPresenceBlockedByStaticMap m p) (bucket_at (miPlayers m) mapIndex))),
      moStaticActors = sortStaticEntities (map cloneStaticEntity
        (filter (\<lambda>a. \<not> staticMapPresenceBlockedByPlayerMap m a) (bucket_at (miStatics m) mapIndex)))\<rparr>"

definition MapIndex_Snapshot :: "map_index \<Rightarrow> map_index \<times> map_occupancy list" where
  "MapIndex_Snapshot m0 =
     (let m1 = repairPlayerMapPresenceFromEffectiveIndex (repairMisplacedPlayerMapPresence (repair_all_players m0));
          m = repairStaticMapPresenceFromEffectiveIndex (repairMisplacedStaticMapPresence (repair_all_statics m1)) in
      (m, filter (\<lambda>o1. \<not> (moCharacters o1 = [] \<and> moStaticActors o1 = []))
            (map (map_occupancy_at m)
              (sorted_list_of_set (dom (ocByMapIndex (miPlayers m)) \<union> dom (ocByMapIndex (miStatics m)))))))"

section \<open>The index in order\<close>

abbreviation players_of :: "map_index \<Rightarrow> u64 \<Rightarrow> player_entity option" where
  "players_of m \<equiv> ocByEntityID (miPlayers m)"

abbreviation statics_of :: "map_index \<Rightarrow> u64 \<Rightarrow> static_entity option" where
  "statics_of m \<equiv> ocByEntityID (miStatics m)"

text \<open>No identifier is both a player and an actor, and no actor shows the identifier of a player.\<close>

definition apart :: "(u64 \<Rightarrow> player_entity option) \<Rightarrow> (u64 \<Rightarrow> static_entity option) \<Rightarrow> bool" where
  "apart ps as \<longleftrightarrow>
     (\<forall>i. ps i = None \<or> as i = None) \<and>
     (\<forall>i j p a. ps i = Some p \<longrightarrow> as j = Some a \<longrightarrow> StaticActorVisibilityVID a \<noteq> Some (eVID (plEntity p)))"

definition mi_ok :: "map_index \<Rightarrow> bool" where
  "mi_ok m \<longleftrightarrow>
     side_ok player_id (player_map (miTopology m)) clonePlayerEntity (miPlayers m) \<and>
     side_ok actor_id (actor_map (miTopology m)) cloneStaticEntity (miStatics m) \<and>
     (\<forall>i p. players_of m i = Some p \<longrightarrow> validPlayerDirectoryEntity p) \<and>
     (\<forall>i a. statics_of m i = Some a \<longrightarrow> StaticActorVisibilityVID a = Some (ucast i)) \<and>
     apart (players_of m) (statics_of m)"

lemma mi_okD:
  assumes "mi_ok m"
  shows "side_ok player_id (player_map (miTopology m)) clonePlayerEntity (miPlayers m)"
    and "side_ok actor_id (actor_map (miTopology m)) cloneStaticEntity (miStatics m)"
    and "players_of m i = Some p \<Longrightarrow> validPlayerDirectoryEntity p \<and> player_id p = i \<and> i \<noteq> 0"
    and "statics_of m i = Some a \<Longrightarrow>
      StaticActorVisibilityVID a = Some (ucast i) \<and> actor_id a = i \<and> i \<noteq> 0 \<and> cloneStaticEntity a = a"
    and "apart (players_of m) (statics_of m)"
  using assms unfolding mi_ok_def side_ok_def by blast+

lemma apartD:
  "apart ps as \<Longrightarrow> ps i = Some p \<Longrightarrow> as i = None"
  "apart ps as \<Longrightarrow> as i = Some a \<Longrightarrow> ps i = None"
  "apart ps as \<Longrightarrow> ps i = Some p \<Longrightarrow> as j = Some a \<Longrightarrow> StaticActorVisibilityVID a \<noteq> Some (eVID (plEntity p))"
  unfolding apart_def by (metis option.distinct(1))+

lemma empty_side_ok [simp]: "side_ok ident place copy empty_side"
  by (auto simp: side_ok_def empty_side_def buckets_of_def bucket_of_empty)

lemma NewMapIndex_ok [simp]: "mi_ok (NewMapIndex t)"
  by (simp add: mi_ok_def NewMapIndex_def apart_def) (simp add: empty_side_def)

lemma presence_ok [simp]:
  "mi_ok m \<Longrightarrow> playerMapPresence m i = players_of m i"
  "mi_ok m \<Longrightarrow> staticActorMapPresence m i = statics_of m i"
  by (simp_all add: playerMapPresence_def staticActorMapPresence_def map_presence_ok [OF mi_okD(1)]
      map_presence_ok [OF mi_okD(2)] clonePlayerEntity_id [abs_def] option.map_ident)

lemma repair_blocked_ok [simp]:
  "mi_ok m \<Longrightarrow> playerRepairBlockedByStaticPresence m i \<longleftrightarrow> i = 0 \<or> statics_of m i \<noteq> None"
  "mi_ok m \<Longrightarrow> staticRepairBlockedByPlayerPresence m i \<longleftrightarrow> i = 0 \<or> players_of m i \<noteq> None"
  by (auto simp: playerRepairBlockedByStaticPresence_def staticRepairBlockedByPlayerPresence_def)

lemma staticActorVisibilityVIDPresence_ok:
  assumes "mi_ok m"
  shows "staticActorVisibilityVIDPresence m vid i \<longleftrightarrow>
     vid \<noteq> 0 \<and> (\<exists>j a. statics_of m j = Some a \<and> StaticActorVisibilityVID a = Some vid \<and> j \<noteq> i)"
proof -
  have "(\<exists>j a. statics_of m j = Some a \<and> StaticActorVisibilityVID a = Some vid \<and> actor_id a \<noteq> i) \<longleftrightarrow>
      (\<exists>j a. statics_of m j = Some a \<and> StaticActorVisibilityVID a = Some vid \<and> j \<noteq> i)"
    using mi_okD(4) [OF assms] by metis
  then show ?thesis by (simp add: staticActorVisibilityVIDPresence_def any_entity_ok [OF mi_okD(2) [OF assms]])
qed

lemma playerVisibilityVIDPresence_ok:
  assumes "mi_ok m"
  shows "playerVisibilityVIDPresence m a i \<longleftrightarrow>
     (\<exists>j p. players_of m j = Some p \<and> StaticActorVisibilityVID a = Some (eVID (plEntity p)) \<and> j \<noteq> i)"
proof (cases "StaticActorVisibilityVID a")
  case (Some vid)
  have "(\<exists>j p. players_of m j = Some p \<and> eVID (plEntity p) = vid \<and> player_id p \<noteq> i) \<longleftrightarrow>
      (\<exists>j p. players_of m j = Some p \<and> vid = eVID (plEntity p) \<and> j \<noteq> i)"
    using mi_okD(3) [OF assms] by metis
  with Some show ?thesis by (simp add: playerVisibilityVIDPresence_def any_entity_ok [OF mi_okD(1) [OF assms]])
qed (simp add: playerVisibilityVIDPresence_def)

lemma no_static_shows:
  "mi_ok m \<Longrightarrow> players_of m i = Some p \<Longrightarrow> staticActorVisibilityVIDPresence m (eVID (plEntity p)) j = False"
  using apartD(3) [OF mi_okD(5)] by (auto simp: staticActorVisibilityVIDPresence_ok)

lemma no_player_shows:
  "mi_ok m \<Longrightarrow> statics_of m i = Some a \<Longrightarrow> playerVisibilityVIDPresence m a j = False"
  using apartD(3) [OF mi_okD(5)] by (auto simp: playerVisibilityVIDPresence_ok)

lemma any_in_buckets_any: "any_in_buckets P s \<Longrightarrow> any_entity P s"
  by (simp add: any_entity_def any_in_buckets_def)

text \<open>In order, nothing on the map is hidden by the other side.\<close>

lemma not_blocked:
  assumes "mi_ok m"
  shows "players_of m i = Some p \<Longrightarrow> \<not> playerMapPresenceBlockedByStaticMap m p"
    and "statics_of m i = Some a \<Longrightarrow> \<not> staticMapPresenceBlockedByPlayerMap m a"
proof -
  assume p: "players_of m i = Some p"
  have "\<not> staticActorMapVisibilityVIDPresence m (eVID (plEntity p)) j" for j
    using no_static_shows [OF assms p, of j] any_in_buckets_any
    by (auto simp: staticActorVisibilityVIDPresence_def staticActorMapVisibilityVIDPresence_def split: if_split_asm)
  then show "\<not> playerMapPresenceBlockedByStaticMap m p"
    using mi_okD(3) [OF assms p] p by (simp add: playerMapPresenceBlockedByStaticMap_def)
next
  assume a: "statics_of m i = Some a"
  have "\<not> playerMapVisibilityVIDPresence m a j" for j
    using no_player_shows [OF assms a, of j] any_in_buckets_any
    by (auto simp: playerVisibilityVIDPresence_def playerMapVisibilityVIDPresence_def split: option.splits)
  then show "\<not> staticMapPresenceBlockedByPlayerMap m a"
    using mi_okD(4) [OF assms a] a apartD(2) [OF mi_okD(5) [OF assms] a]
    by (simp add: staticMapPresenceBlockedByPlayerMap_def assms)
qed

section \<open>In order, repairs change nothing\<close>

lemma repairs_id [simp]:
  assumes "mi_ok m"
  shows "repairMisplacedPlayerMapPresence m = m" "repairMisplacedStaticMapPresence m = m"
    "repairPlayerMapPresenceFromEffectiveIndex m = m" "repairStaticMapPresenceFromEffectiveIndex m = m"
  by (simp_all add: repairMisplacedPlayerMapPresence_def repairMisplacedStaticMapPresence_def
      repairPlayerMapPresenceFromEffectiveIndex_def repairStaticMapPresenceFromEffectiveIndex_def
      repair_misplaced_id [OF mi_okD(1) [OF assms]] repair_misplaced_id [OF mi_okD(2) [OF assms]]
      repair_from_effective_id [OF mi_okD(1) [OF assms]] repair_from_effective_id [OF mi_okD(2) [OF assms]])

lemma repair_entity_id:
  "mi_ok m \<Longrightarrow> players_of m i = Some p \<Longrightarrow> repairPlayerMapPresenceIfUnblocked m p = m"
  "mi_ok m \<Longrightarrow> statics_of m i = Some a \<Longrightarrow> repairStaticMapPresenceIfUnblocked m a = m"
  by (simp_all add: repairPlayerMapPresenceIfUnblocked_def repairStaticMapPresenceIfUnblocked_def
      repairPlayerMapPresence_def repairStaticMapPresence_def repair_presence_id [OF mi_okD(1)] repair_presence_id [OF mi_okD(2)])

lemma foldl_fixed: "(\<And>x. x \<in> set xs \<Longrightarrow> f a x = a) \<Longrightarrow> foldl f a xs = a"
  by (induction xs) auto

lemma side_values: "side_ok ident place copy s \<Longrightarrow> x \<in> set (map_values (ocByEntityID s)) \<longleftrightarrow> ocByEntityID s (ident x) = Some x"
  by (subst set_map_values) (auto simp: side_ok_def ran_def)

lemma repair_all_id [simp]: "mi_ok m \<Longrightarrow> repair_all_players m = m" "mi_ok m \<Longrightarrow> repair_all_statics m = m"
  by (auto simp: repair_all_players_def repair_all_statics_def side_values [OF mi_okD(1)] side_values [OF mi_okD(2)]
      repair_entity_id intro!: foldl_fixed)

section \<open>What each operation does to an index in order\<close>

lemma map_values_filter:
  assumes "finite (dom m)"
  shows "map_values (bucket_of place m k) = filter (\<lambda>e. place e = k) (map_values m)"
proof -
  let ?ids = "sorted_list_of_set (dom m)"
  have d: "dom (bucket_of place m k) = {i \<in> dom m. place (the (m i)) = k}" by (auto simp: dom_def)
  have "sorted_list_of_set (dom (bucket_of place m k)) = filter (\<lambda>i. place (the (m i)) = k) ?ids"
    unfolding d using assms by (intro sorted_distinct_set_unique) (auto simp: sorted_wrt_filter)
  moreover have "the (bucket_of place m k i) = the (m i)" if "i \<in> dom m" "place (the (m i)) = k" for i
    using that by (auto simp: bucket_of_def)
  ultimately show ?thesis
    using assms by (simp add: map_values_def filter_map o_def)
qed

lemma bucket_at_ok:
  "side_ok ident place copy s \<Longrightarrow> bucket_at s k = filter (\<lambda>e. place e = k) (map_values (ocByEntityID s))"
proof -
  assume ok: "side_ok ident place copy s"
  then have f: "finite (dom (ocByEntityID s))" and b: "ocByMapIndex s = buckets_of place (ocByEntityID s)"
    by (simp_all add: side_ok_def)
  show ?thesis
  proof (cases "dom (bucket_of place (ocByEntityID s) k) = {}")
    case True
    then show ?thesis
      unfolding map_values_filter [OF f, symmetric] by (simp add: bucket_at_def b buckets_of_def map_values_def)
  qed (simp add: bucket_at_def b buckets_of_def map_values_filter [OF f])
qed

lemma bucket_entities_ok:
  assumes ok: "side_ok ident place copy s"
  shows "set (bucket_entities s) = set (map_values (ocByEntityID s))"
proof -
  have f: "finite (dom (ocByEntityID s))" and b: "ocByMapIndex s = buckets_of place (ocByEntityID s)"
    using ok by (simp_all add: side_ok_def)
  have "set (bucket_entities s) = (\<Union>k \<in> place ` ran (ocByEntityID s). ran (bucket_of place (ocByEntityID s) k))"
    by (simp add: bucket_entities_def b set_map_values_buckets [OF f] set_map_values finite_bucket [OF f])
  also have "\<dots> = ran (ocByEntityID s)" by (auto simp: ran_def)
  finally show ?thesis by (simp add: set_map_values f)
qed

lemma distinct_idents: "side_ok ident place copy s \<Longrightarrow> distinct (map ident (map_values (ocByEntityID s)))"
proof -
  assume "side_ok ident place copy s"
  then have "map ident (map_values (ocByEntityID s)) = sorted_list_of_set (dom (ocByEntityID s))"
    by (auto simp: map_values_def side_ok_def intro!: map_idI)
  then show ?thesis by simp
qed

lemma first_of_each_fresh:
  "distinct (map ident es) \<Longrightarrow> ident ` set es \<inter> seen = {} \<Longrightarrow> ident ` set rest \<subseteq> seen \<union> ident ` set es \<Longrightarrow>
   first_of_each ident seen (es @ rest) = es"
proof (induction es arbitrary: seen)
  case Nil
  then show ?case by (induction rest) auto
next
  case (Cons e es)
  then show ?case by (auto simp: Un_commute)
qed

lemma player_in_buckets_none: "\<forall>p \<in> set ps. \<not> sought p \<Longrightarrow> player_in_buckets sought ps m = (m, None)"
  by (induction ps) auto

lemma actor_in_buckets_none: "\<forall>a \<in> set as. StaticActorVisibilityVID a \<noteq> Some vid \<Longrightarrow> actor_in_buckets vid as m = (m, None)"
  by (induction as) auto

lemma EffectiveMapIndex_ignores_topology: "EffectiveMapIndex t c = EffectiveMapIndex t' c"
  by (simp add: EffectiveMapIndex_def)

lemma player_values: "mi_ok m \<Longrightarrow> p \<in> set (map_values (players_of m)) \<longleftrightarrow> players_of m (player_id p) = Some p"
  by (rule side_values [OF mi_okD(1)])

lemma actor_values: "mi_ok m \<Longrightarrow> a \<in> set (map_values (statics_of m)) \<longleftrightarrow> statics_of m (actor_id a) = Some a"
  by (rule side_values [OF mi_okD(2)])

lemma MapIndex_Register_exact:
  assumes "mi_ok m"
  shows "MapIndex_Register m p =
    (if validPlayerDirectoryEntity p \<and> players_of m (player_id p) = None \<and> statics_of m (player_id p) = None \<and>
        (\<forall>j a. statics_of m j = Some a \<longrightarrow> StaticActorVisibilityVID a \<noteq> Some (eVID (plEntity p)))
     then (m\<lparr>miPlayers := occupy player_id (player_map (miTopology m)) clonePlayerEntity p (miPlayers m)\<rparr>, True)
     else (m, False))"
  using assms by (auto simp: MapIndex_Register_def staticActorVisibilityVIDPresence_ok validPlayerDirectoryEntity_def)

lemma MapIndex_Update_exact:
  assumes "mi_ok m"
  shows "MapIndex_Update m p =
    (if validPlayerDirectoryEntity p \<and> players_of m (player_id p) \<noteq> None \<and>
        (\<forall>j a. statics_of m j = Some a \<longrightarrow> StaticActorVisibilityVID a \<noteq> Some (eVID (plEntity p)))
     then (m\<lparr>miPlayers := occupy player_id (player_map (miTopology m)) clonePlayerEntity p (miPlayers m)\<rparr>, True)
     else (m, False))"
  using assms apartD(1) [OF mi_okD(5) [OF assms]]
  by (auto simp: MapIndex_Update_def staticActorVisibilityVIDPresence_ok validPlayerDirectoryEntity_def)

lemma MapIndex_RegisterStatic_exact:
  assumes "mi_ok m"
  shows "MapIndex_RegisterStatic reg m actor =
    (let a = normalizeStaticEntityCombat actor in
     if validStaticEntity reg a \<and> statics_of m (actor_id a) = None \<and> players_of m (actor_id a) = None \<and>
        (\<forall>j p. players_of m j = Some p \<longrightarrow> StaticActorVisibilityVID a \<noteq> Some (eVID (plEntity p)))
     then (m\<lparr>miStatics := occupy actor_id (actor_map (miTopology m)) cloneStaticEntity a (miStatics m)\<rparr>, True)
     else (m, False))"
  using assms by (auto simp: MapIndex_RegisterStatic_def Let_def playerVisibilityVIDPresence_ok)

lemma MapIndex_UpdateStatic_exact:
  assumes "mi_ok m"
  shows "MapIndex_UpdateStatic reg m actor =
    (let a = normalizeStaticEntityCombat actor in
     if validStaticEntity reg a \<and> statics_of m (actor_id a) \<noteq> None \<and>
        (\<forall>j p. players_of m j = Some p \<longrightarrow> StaticActorVisibilityVID a \<noteq> Some (eVID (plEntity p)))
     then (m\<lparr>miStatics := occupy actor_id (actor_map (miTopology m)) cloneStaticEntity a (miStatics m)\<rparr>, True)
     else (m, False))"
  using assms apartD(2) [OF mi_okD(5) [OF assms]]
  by (auto simp: MapIndex_UpdateStatic_def Let_def playerVisibilityVIDPresence_ok)

text \<open>Storing a player or an actor that keeps the two sides apart keeps the index in order.\<close>

lemma store_player_ok:
  assumes ok: "mi_ok m" and v: "validPlayerDirectoryEntity p" and n: "statics_of m (player_id p) = None"
    and c: "\<forall>j a. statics_of m j = Some a \<longrightarrow> StaticActorVisibilityVID a \<noteq> Some (eVID (plEntity p))"
  shows "mi_ok (m\<lparr>miPlayers := occupy player_id (player_map (miTopology m)) clonePlayerEntity p (miPlayers m)\<rparr>)"
proof -
  have "player_id p \<noteq> 0" using v by (simp add: validPlayerDirectoryEntity_def)
  then show ?thesis
    using ok v n c occupy_ok [OF mi_okD(1) [OF ok], of p]
    by (auto simp: mi_ok_def occupy_fields apart_def)
qed

lemma store_static_ok:
  assumes ok: "mi_ok m" and v: "StaticActorVisibilityVID a = Some (ucast (actor_id a))" "actor_id a \<noteq> 0"
    and n: "players_of m (actor_id a) = None"
    and c: "\<forall>j p. players_of m j = Some p \<longrightarrow> StaticActorVisibilityVID a \<noteq> Some (eVID (plEntity p))"
  shows "mi_ok (m\<lparr>miStatics := occupy actor_id (actor_map (miTopology m)) cloneStaticEntity a (miStatics m)\<rparr>)"
proof -
  have "actor_map t (cloneStaticEntity a) = actor_map t a" for t by (simp add: actor_map_def)
  then show ?thesis
    using ok v n c occupy_ok [OF mi_okD(2) [OF ok], of a]
    by (auto simp: mi_ok_def occupy_fields apart_def)
qed

lemma apart_delete:
  "apart ps as \<Longrightarrow> apart (ps(i := None)) as" "apart ps as \<Longrightarrow> apart ps (as(i := None))"
  by (auto simp: apart_def)

lemma MapIndex_Remove_exact:
  assumes ok: "mi_ok m"
  shows "mi_ok (fst (MapIndex_Remove m i))"
    and "players_of (fst (MapIndex_Remove m i)) = (players_of m)(i := None)"
    and "miStatics (fst (MapIndex_Remove m i)) = miStatics m" "miTopology (fst (MapIndex_Remove m i)) = miTopology m"
    and "snd (MapIndex_Remove m i) = players_of m i"
  using ok vacate_ok [OF mi_okD(1) [OF ok], of i] apart_delete(1) [OF mi_okD(5) [OF ok], of i]
  by (auto simp: MapIndex_Remove_def mi_ok_def split: prod.split if_split_asm)

lemma MapIndex_RemoveStatic_exact:
  assumes ok: "mi_ok m"
  shows "mi_ok (fst (MapIndex_RemoveStatic m i))"
    and "statics_of (fst (MapIndex_RemoveStatic m i)) = (statics_of m)(i := None)"
    and "miPlayers (fst (MapIndex_RemoveStatic m i)) = miPlayers m" "miTopology (fst (MapIndex_RemoveStatic m i)) = miTopology m"
    and "snd (MapIndex_RemoveStatic m i) = statics_of m i"
  using ok vacate_ok [OF mi_okD(2) [OF ok], of i] apart_delete(2) [OF mi_okD(5) [OF ok], of i]
  by (auto simp: MapIndex_RemoveStatic_def mi_ok_def split: prod.split if_split_asm)

text \<open>The lookups of an index in order read the canonical map and leave the index as it is.\<close>

lemma MapIndex_Player_exact: "mi_ok m \<Longrightarrow> MapIndex_Player m i = (m, players_of m i)"
  using mi_okD(3) [of m 0] 
  by (cases "players_of m i") (auto simp: MapIndex_Player_def Let_def repair_entity_id)

lemma MapIndex_StaticActor_exact: "mi_ok m \<Longrightarrow> MapIndex_StaticActor m i = (m, statics_of m i)"
  using mi_okD(4) [of m i]
  by (cases "statics_of m i") (auto simp: MapIndex_StaticActor_def Let_def repair_entity_id)

lemma MapIndex_PlayerByVID_exact:
  assumes ok: "mi_ok m"
  shows "MapIndex_PlayerByVID m vid = (m, find (\<lambda>p. eVID (plEntity p) = vid) (map_values (players_of m)))"
proof (cases "find (\<lambda>p. eVID (plEntity p) = vid) (map_values (players_of m))")
  case None
  then have "\<forall>p \<in> set (bucket_entities (miPlayers m)). eVID (plEntity p) \<noteq> vid"
    unfolding bucket_entities_ok [OF mi_okD(1) [OF ok]] by (simp add: find_None_iff)
  with None ok show ?thesis by (simp add: MapIndex_PlayerByVID_def Let_def player_in_buckets_none)
next
  case (Some p)
  then have "p \<in> set (map_values (players_of m))" "eVID (plEntity p) = vid" by (auto simp: find_Some_iff)
  then have p: "players_of m (player_id p) = Some p" by (simp add: player_values [OF ok])
  moreover have "vid \<noteq> 0" using mi_okD(3) [OF ok p] \<open>eVID (plEntity p) = vid\<close> by (auto simp: validPlayerDirectoryEntity_def)
  ultimately show ?thesis
    using Some ok by (simp add: MapIndex_PlayerByVID_def Let_def no_static_shows [OF ok p] repair_entity_id [OF ok])
qed

lemma MapIndex_PlayerByName_exact:
  assumes ok: "mi_ok m"
  shows "MapIndex_PlayerByName m name = (m, find (\<lambda>p. eName (plEntity p) = name) (map_values (players_of m)))"
proof (cases "find (\<lambda>p. eName (plEntity p) = name) (map_values (players_of m))")
  case None
  then have "\<forall>p \<in> set (bucket_entities (miPlayers m)). eName (plEntity p) \<noteq> name"
    unfolding bucket_entities_ok [OF mi_okD(1) [OF ok]] by (simp add: find_None_iff)
  with None ok show ?thesis by (simp add: MapIndex_PlayerByName_def Let_def player_in_buckets_none)
next
  case (Some p)
  then have "p \<in> set (map_values (players_of m))" "eName (plEntity p) = name" by (auto simp: find_Some_iff)
  then have p: "players_of m (player_id p) = Some p" by (simp add: player_values [OF ok])
  moreover have "name \<noteq> []"
    using mi_okD(3) [OF ok p] \<open>eName (plEntity p) = name\<close> by (auto simp: validPlayerDirectoryEntity_def ValidPlayerName_def)
  ultimately show ?thesis
    using Some ok by (simp add: MapIndex_PlayerByName_def Let_def repair_entity_id [OF ok])
qed

lemma actor_by_vid:
  assumes ok: "mi_ok m" and "StaticActorVisibilityVID a = Some vid" and "statics_of m i = Some a"
  shows "i = ucast vid"
proof -
  have "vid = ucast i" "actor_id a = i" using mi_okD(4) [OF ok assms(3)] assms(2) by simp_all
  moreover have "ValidStaticActorVisibilityEntityID (actor_id a)"
    using assms(2) by (auto simp: StaticActorVisibilityVID_def split: if_split_asm)
  ultimately show ?thesis using visibility_round by simp
qed

lemma MapIndex_StaticActorByVID_exact:
  assumes ok: "mi_ok m"
  shows "MapIndex_StaticActorByVID m vid = (m, statics_of m (ucast vid))"
proof (cases "find (\<lambda>a. StaticActorVisibilityVID a = Some vid) (map_values (statics_of m))")
  case None
  then have n: "\<forall>a \<in> set (map_values (statics_of m)). StaticActorVisibilityVID a \<noteq> Some vid" by (simp add: find_None_iff)
  then have "\<forall>a \<in> set (bucket_entities (miStatics m)). StaticActorVisibilityVID a \<noteq> Some vid"
    unfolding bucket_entities_ok [OF mi_okD(2) [OF ok]] .
  moreover have "statics_of m (ucast vid) = None"
  proof (rule ccontr)
    assume "statics_of m (ucast vid) \<noteq> None"
    then obtain a where a: "statics_of m (ucast vid) = Some a" by blast
    note p = mi_okD(4) [OF ok a]
    then have "a \<in> set (map_values (statics_of m))" using a by (simp add: actor_values [OF ok])
    with n p show False by (simp add: widen_narrow)
  qed
  ultimately show ?thesis using None ok by (simp add: MapIndex_StaticActorByVID_def Let_def actor_in_buckets_none)
next
  case (Some a)
  then have "a \<in> set (map_values (statics_of m))" and v: "StaticActorVisibilityVID a = Some vid" by (auto simp: find_Some_iff)
  then have a: "statics_of m (actor_id a) = Some a" by (simp add: actor_values [OF ok])
  note p = mi_okD(4) [OF ok a]
  have i: "actor_id a = ucast vid" by (rule actor_by_vid [OF ok v a])
  have "vid \<noteq> 0" using i p by auto
  then show ?thesis
    using Some ok p a [unfolded i]
    by (simp add: MapIndex_StaticActorByVID_def Let_def no_player_shows [OF ok a] repair_entity_id [OF ok])
qed

text \<open>The lists: everyone of the canonical map, by map, each once.\<close>

definition players_on :: "map_index \<Rightarrow> u32 \<Rightarrow> player_entity list" where
  "players_on m k = filter (\<lambda>p. player_map (miTopology m) p = k) (map_values (players_of m))"

definition statics_on :: "map_index \<Rightarrow> u32 \<Rightarrow> static_entity list" where
  "statics_on m k = filter (\<lambda>a. actor_map (miTopology m) a = k) (map_values (statics_of m))"

lemma filter_unblocked:
  assumes ok: "mi_ok m"
  shows "set ps \<subseteq> set (map_values (players_of m)) \<Longrightarrow> filter (\<lambda>p. \<not> playerMapPresenceBlockedByStaticMap m p) ps = ps"
    and "set as \<subseteq> set (map_values (statics_of m)) \<Longrightarrow> filter (\<lambda>a. \<not> staticMapPresenceBlockedByPlayerMap m a) as = as"
  using not_blocked [OF ok] player_values [OF ok] actor_values [OF ok] by (auto intro!: filter_True)

lemma clone_actors: "mi_ok m \<Longrightarrow> set as \<subseteq> set (map_values (statics_of m)) \<Longrightarrow> map cloneStaticEntity as = as"
  using mi_okD(4) [of m] actor_values [of m] by (intro map_idI) blast

lemma unblocked_on:
  assumes ok: "mi_ok m"
  shows "filter (\<lambda>p. \<not> playerMapPresenceBlockedByStaticMap m p) (bucket_at (miPlayers m) k) = players_on m k"
    and "filter (\<lambda>a. \<not> staticMapPresenceBlockedByPlayerMap m a) (bucket_at (miStatics m) k) = statics_on m k"
    and "map cloneStaticEntity (statics_on m k) = statics_on m k"
  unfolding bucket_at_ok [OF mi_okD(1) [OF ok]] bucket_at_ok [OF mi_okD(2) [OF ok]] players_on_def statics_on_def
  by (intro filter_unblocked [OF ok] clone_actors [OF ok] filter_is_subset)+

lemma MapIndex_PlayerCharacters_exact:
  assumes ok: "mi_ok m"
  shows "MapIndex_PlayerCharacters m k =
    (m, sortCharacters (map plCharacter (players_on m (EffectiveMapIndex (miTopology m) (zero_character\<lparr>cMapIndex := k\<rparr>)))))"
  by (simp add: MapIndex_PlayerCharacters_def Let_def ok unblocked_on [OF ok])

lemma MapIndex_StaticActors_exact:
  assumes ok: "mi_ok m"
  shows "MapIndex_StaticActors m k =
    (m, sortStaticEntities (statics_on m (EffectiveMapIndex (miTopology m) (zero_character\<lparr>cMapIndex := k\<rparr>))))"
  by (simp add: MapIndex_StaticActors_def Let_def ok unblocked_on [OF ok])

lemma map_values_empty: "dom m = {} \<Longrightarrow> map_values m = []"
  by (simp add: map_values_def)

lemma MapIndex_AllPlayers_exact:
  assumes ok: "mi_ok m"
  shows "MapIndex_AllPlayers m = (m, sortPlayerEntities (map_values (players_of m)))"
proof -
  let ?all = "map_values (players_of m) @ bucket_entities (miPlayers m)"
  have s: "set (bucket_entities (miPlayers m)) = set (map_values (players_of m))"
    by (rule bucket_entities_ok [OF mi_okD(1) [OF ok]])
  have "filter (\<lambda>p. \<not> playerMapPresenceBlockedByStaticMap m p) ?all = ?all"
    by (rule filter_unblocked(1) [OF ok]) (simp add: s)
  moreover have "first_of_each player_id {} ?all = map_values (players_of m)"
    by (rule first_of_each_fresh [OF distinct_idents [OF mi_okD(1) [OF ok]]]) (simp_all add: s)
  ultimately show ?thesis
    by (auto simp: MapIndex_AllPlayers_def Let_def ok clonePlayerEntity_id [abs_def] map_values_empty sortPlayerEntities_def)
qed

lemma unblocked_actors_ok:
  assumes ok: "mi_ok m"
  shows "set as \<subseteq> set (map_values (statics_of m)) \<Longrightarrow> unblocked_actors as m = (m, as)"
proof (induction as)
  case (Cons a as)
  then have a: "statics_of m (actor_id a) = Some a" by (simp add: actor_values [OF ok])
  with Cons mi_okD(4) [OF ok a] show ?case
    by (simp add: Let_def repair_entity_id [OF ok] not_blocked(2) [OF ok a])
qed simp

lemma MapIndex_AllStaticActors_exact:
  assumes ok: "mi_ok m"
  shows "MapIndex_AllStaticActors m = (m, sortStaticEntities (map_values (statics_of m)))"
proof -
  have s: "set (bucket_entities (miStatics m)) = set (map_values (statics_of m))"
    by (rule bucket_entities_ok [OF mi_okD(2) [OF ok]])
  have "map cloneStaticEntity (filter (\<lambda>a. \<not> staticMapPresenceBlockedByPlayerMap m a) (bucket_entities (miStatics m))) =
      bucket_entities (miStatics m)"
    by (simp add: filter_unblocked(2) [OF ok] clone_actors [OF ok] s)
  moreover have "first_of_each actor_id {} (map_values (statics_of m) @ bucket_entities (miStatics m)) =
      map_values (statics_of m)"
    by (rule first_of_each_fresh [OF distinct_idents [OF mi_okD(2) [OF ok]]]) (simp_all add: s)
  ultimately show ?thesis
    by (auto simp: MapIndex_AllStaticActors_def Let_def ok unblocked_actors_ok [OF ok] map_values_empty sortStaticEntities_def)
qed

lemma sort_nil_iff [simp]: "sortCharacters cs = [] \<longleftrightarrow> cs = []" "sortStaticEntities as = [] \<longleftrightarrow> as = []"
proof -
  have "length (sortCharacters cs) = length cs" "length (sortStaticEntities as) = length as"
    by (simp_all add: sortCharacters_def sortStaticEntities_def)
  then show "sortCharacters cs = [] \<longleftrightarrow> cs = []" "sortStaticEntities as = [] \<longleftrightarrow> as = []" by auto
qed

text \<open>The snapshot: the inhabited maps in ascending order, each with all who stand there.\<close>

lemma MapIndex_Snapshot_exact:
  assumes ok: "mi_ok m"
  shows "MapIndex_Snapshot m =
    (m, map (\<lambda>k. \<lparr>moMapIndex = k, moCharacters = sortCharacters (map plCharacter (players_on m k)),
                  moStaticActors = sortStaticEntities (statics_on m k)\<rparr>)
        (sorted_list_of_set (player_map (miTopology m) ` ran (players_of m) \<union> actor_map (miTopology m) ` ran (statics_of m))))"
proof -
  let ?M = "player_map (miTopology m) ` ran (players_of m) \<union> actor_map (miTopology m) ` ran (statics_of m)"
  let ?o = "\<lambda>k. \<lparr>moMapIndex = k, moCharacters = sortCharacters (map plCharacter (players_on m k)),
                  moStaticActors = sortStaticEntities (statics_on m k)\<rparr>"
  have f: "finite (dom (players_of m))" "finite (dom (statics_of m))"
    using mi_okD(1,2) [OF ok] by (simp_all add: side_ok_def)
  have d: "dom (ocByMapIndex (miPlayers m)) \<union> dom (ocByMapIndex (miStatics m)) = ?M"
    using mi_okD(1,2) [OF ok] by (simp add: side_ok_def dom_buckets_of)
  have o: "map_occupancy_at m = ?o"
    by (rule ext) (simp add: map_occupancy_at_def unblocked_on [OF ok])
  have "filter (\<lambda>o1. \<not> (moCharacters o1 = [] \<and> moStaticActors o1 = [])) (map ?o (sorted_list_of_set ?M)) =
      map ?o (sorted_list_of_set ?M)"
  proof (rule filter_True, rule ballI)
    fix o1 assume "o1 \<in> set (map ?o (sorted_list_of_set ?M))"
    moreover have "finite ?M" using f by (simp add: finite_ran_map)
    ultimately obtain k where k: "k \<in> ?M" "o1 = ?o k" by auto
    then have "players_on m k \<noteq> [] \<or> statics_on m k \<noteq> []"
      using f by (auto simp: players_on_def statics_on_def filter_empty_conv set_map_values)
    with k show "\<not> (moCharacters o1 = [] \<and> moStaticActors o1 = [])" by auto
  qed
  then show ?thesis by (simp add: MapIndex_Snapshot_def Let_def ok d o)
qed

end
