(* ===== verification/World_Registry.thy ===== *)
theory World_Registry
  imports World_MapIndex
begin

text \<open>
  The entity registry (\<open>internal/worldruntime/entity_registry.go\<close>): the two directories and the
  map index kept in step, with the identifiers of the whole world. The pointers of the registry are
  set by its constructor and never cleared, so the checks for \<open>nil\<close> have no counterpart. Every
  lookup may repair an index, so every operation returns the registry; \<open>RegisterPlayer\<close> answers
  with the zero entity where the model answers \<open>None\<close>. The combat profile registry is the
  argument \<open>reg\<close>.
\<close>

section \<open>State\<close>

record entity_registry =
  erNextID :: u64
  erTopology :: topology
  erPlayers :: player_directory
  erStatics :: non_player_directory
  erMaps :: map_index

definition NewEntityRegistryWithTopology :: "topology \<Rightarrow> entity_registry" where
  "NewEntityRegistryWithTopology t =
     \<lparr>erNextID = 0, erTopology = t, erPlayers = NewPlayerDirectory, erStatics = NewNonPlayerDirectory,
      erMaps = NewMapIndex t\<rparr>"

definition NewEntityRegistry :: entity_registry where
  "NewEntityRegistry = NewEntityRegistryWithTopology (NewBootstrapTopology 0)"

text \<open>The lookups of the parts, on the whole registry.\<close>

definition players_ByVID :: "u32 \<Rightarrow> entity_registry \<Rightarrow> entity_registry \<times> player_entity option" where
  "players_ByVID vid r = (let (d, x) = PlayerDirectory_ByVID (erPlayers r) vid in (r\<lparr>erPlayers := d\<rparr>, x))"

definition players_ByName :: "string \<Rightarrow> entity_registry \<Rightarrow> entity_registry \<times> player_entity option" where
  "players_ByName name r = (let (d, x) = PlayerDirectory_ByName (erPlayers r) name in (r\<lparr>erPlayers := d\<rparr>, x))"

definition players_Register :: "player_entity \<Rightarrow> entity_registry \<Rightarrow> entity_registry \<times> bool" where
  "players_Register p r = (let (d, x) = PlayerDirectory_Register (erPlayers r) p in (r\<lparr>erPlayers := d\<rparr>, x))"

definition players_Update :: "player_entity \<Rightarrow> entity_registry \<Rightarrow> entity_registry \<times> bool" where
  "players_Update p r = (let (d, x) = PlayerDirectory_Update (erPlayers r) p in (r\<lparr>erPlayers := d\<rparr>, x))"

definition players_Remove :: "u64 \<Rightarrow> entity_registry \<Rightarrow> entity_registry" where
  "players_Remove i r = r\<lparr>erPlayers := fst (PlayerDirectory_Remove (erPlayers r) i)\<rparr>"

definition statics_ByVID :: "u32 \<Rightarrow> entity_registry \<Rightarrow> entity_registry \<times> static_entity option" where
  "statics_ByVID vid r = (let (d, x) = NonPlayerDirectory_ByVID (erStatics r) vid in (r\<lparr>erStatics := d\<rparr>, x))"

definition statics_Register :: "profile_registry \<Rightarrow> static_entity \<Rightarrow> entity_registry \<Rightarrow> entity_registry \<times> bool" where
  "statics_Register reg a r = (let (d, x) = NonPlayerDirectory_Register reg (erStatics r) a in (r\<lparr>erStatics := d\<rparr>, x))"

definition statics_Update :: "profile_registry \<Rightarrow> static_entity \<Rightarrow> entity_registry \<Rightarrow> entity_registry \<times> bool" where
  "statics_Update reg a r = (let (d, x) = NonPlayerDirectory_Update reg (erStatics r) a in (r\<lparr>erStatics := d\<rparr>, x))"

definition statics_Remove :: "u64 \<Rightarrow> entity_registry \<Rightarrow> entity_registry" where
  "statics_Remove i r = r\<lparr>erStatics := fst (NonPlayerDirectory_Remove (erStatics r) i)\<rparr>"

text \<open>A call of a method of the map index.\<close>

definition on_maps :: "(map_index \<Rightarrow> map_index \<times> 'a) \<Rightarrow> entity_registry \<Rightarrow> entity_registry \<times> 'a" where
  "on_maps f r = (let (m, x) = f (erMaps r) in (r\<lparr>erMaps := m\<rparr>, x))"

text \<open>The short-circuit disjunction of two checks.\<close>

definition or_else :: "('s \<Rightarrow> 's \<times> bool) \<Rightarrow> ('s \<Rightarrow> 's \<times> bool) \<Rightarrow> 's \<Rightarrow> 's \<times> bool" where
  "or_else f g s = (let (s, b) = f s in if b then (s, True) else g s)"

definition found_such :: "('s \<Rightarrow> 's \<times> 'e option) \<Rightarrow> ('e \<Rightarrow> bool) \<Rightarrow> 's \<Rightarrow> 's \<times> bool" where
  "found_such f P s = (let (s, x) = f s in (s, case x of None \<Rightarrow> False | Some e \<Rightarrow> P e))"

section \<open>Conflicts\<close>

definition entityIDOwnedByStaticActor :: "u64 \<Rightarrow> entity_registry \<Rightarrow> entity_registry \<times> bool" where
  "entityIDOwnedByStaticActor i r =
     (if i = 0 then (r, True)
      else if NonPlayerDirectory_ByEntityID (erStatics r) i \<noteq> None then (r, True)
      else found_such (on_maps (\<lambda>m. MapIndex_StaticActor m i)) (\<lambda>a. True) r)"

definition entityIDOwnedByPlayer :: "u64 \<Rightarrow> entity_registry \<Rightarrow> entity_registry \<times> bool" where
  "entityIDOwnedByPlayer i r =
     (if i = 0 then (r, True)
      else if PlayerDirectory_ByEntityID (erPlayers r) i \<noteq> None then (r, True)
      else found_such (on_maps (\<lambda>m. MapIndex_Player m i)) (\<lambda>p. True) r)"

definition playerIdentityConflicts :: "player_entity \<Rightarrow> entity_registry \<Rightarrow> entity_registry \<times> bool" where
  "playerIdentityConflicts p r =
     (if player_id p = 0 then (r, True)
      else
        (or_else (found_such (players_ByVID (eVID (plEntity p))) (\<lambda>current. player_id current \<noteq> player_id p))
        (or_else (found_such (players_ByName (eName (plEntity p))) (\<lambda>current. player_id current \<noteq> player_id p))
        (or_else (found_such (on_maps (\<lambda>m. MapIndex_PlayerByVID m (eVID (plEntity p)))) (\<lambda>current. player_id current \<noteq> player_id p))
          (found_such (on_maps (\<lambda>m. MapIndex_PlayerByName m (eName (plEntity p)))) (\<lambda>current. player_id current \<noteq> player_id p)))))
        r)"

definition playerVisibilityVIDConflictsWithStaticActor :: "player_entity \<Rightarrow> entity_registry \<Rightarrow> entity_registry \<times> bool" where
  "playerVisibilityVIDConflictsWithStaticActor p r =
     (if eVID (plEntity p) = 0 then (r, False)
      else
        or_else (found_such (statics_ByVID (eVID (plEntity p))) (\<lambda>a. actor_id a \<noteq> player_id p))
          (found_such (on_maps (\<lambda>m. MapIndex_StaticActorByVID m (eVID (plEntity p)))) (\<lambda>a. actor_id a \<noteq> player_id p)) r)"

definition staticActorVisibilityVIDConflictsWithPlayer :: "static_entity \<Rightarrow> entity_registry \<Rightarrow> entity_registry \<times> bool" where
  "staticActorVisibilityVIDConflictsWithPlayer a r =
     (case StaticActorVisibilityVID a of
        None \<Rightarrow> (r, False)
      | Some vid \<Rightarrow>
          or_else (found_such (players_ByVID vid) (\<lambda>p. player_id p \<noteq> actor_id a))
            (found_such (on_maps (\<lambda>m. MapIndex_PlayerByVID m vid)) (\<lambda>p. player_id p \<noteq> actor_id a)) r)"

section \<open>Repairs between the parts\<close>

definition repairPlayerDirectoryFromMap :: "player_entity \<Rightarrow> entity_registry \<Rightarrow> entity_registry \<times> bool" where
  "repairPlayerDirectoryFromMap p r =
     (let (r, conflict) = or_else (entityIDOwnedByStaticActor (player_id p))
            (or_else (playerVisibilityVIDConflictsWithStaticActor p) (playerIdentityConflicts p)) r in
      if conflict then (r, False) else players_Register p r)"

definition repairStaticActorDirectoryFromMap :: "profile_registry \<Rightarrow> static_entity \<Rightarrow> entity_registry \<Rightarrow> entity_registry \<times> bool" where
  "repairStaticActorDirectoryFromMap reg a r =
     (let (r, conflict) = or_else (entityIDOwnedByPlayer (actor_id a)) (staticActorVisibilityVIDConflictsWithPlayer a) r in
      if conflict then (r, False) else statics_Register reg a r)"

definition repair_map_player :: "entity_registry \<Rightarrow> player_entity \<Rightarrow> entity_registry" where
  "repair_map_player r p =
     (let (r, conflict) = or_else (entityIDOwnedByStaticActor (player_id p))
            (or_else (playerVisibilityVIDConflictsWithStaticActor p) (playerIdentityConflicts p)) r in
      if conflict then r
      else let (r, updated) = on_maps (\<lambda>m. MapIndex_Update m p) r in
        if updated then r else fst (on_maps (\<lambda>m. MapIndex_Register m p) r))"

definition repair_map_static :: "profile_registry \<Rightarrow> entity_registry \<Rightarrow> static_entity \<Rightarrow> entity_registry" where
  "repair_map_static reg r a =
     (let (r, conflict) = or_else (entityIDOwnedByPlayer (actor_id a)) (staticActorVisibilityVIDConflictsWithPlayer a) r in
      if conflict then r
      else let (r, updated) = on_maps (\<lambda>m. MapIndex_UpdateStatic reg m a) r in
        if updated then r else fst (on_maps (\<lambda>m. MapIndex_RegisterStatic reg m a) r))"

definition repairMapIndexFromDirectories :: "profile_registry \<Rightarrow> entity_registry \<Rightarrow> entity_registry" where
  "repairMapIndexFromDirectories reg r =
     (let r = foldl repair_map_player r (PlayerDirectory_playerEntities (erPlayers r)) in
      foldl (repair_map_static reg) r (NonPlayerDirectory_StaticActors (erStatics r)))"

section \<open>Players\<close>

definition EntityRegistry_RegisterPlayer :: "entity_registry \<Rightarrow> character \<Rightarrow> entity_registry \<times> player_entity option" where
  "EntityRegistry_RegisterPlayer r c =
     (let registered = newPlayerEntity (erNextID r + 1) c;
          vid = eVID (plEntity registered);
          (r, conflict) =
            (or_else (entityIDOwnedByStaticActor (player_id registered))
            (or_else (playerIdentityConflicts registered)
            (or_else (found_such (statics_ByVID vid) (\<lambda>a. True))
              (found_such (on_maps (\<lambda>m. MapIndex_StaticActor m (ucast vid))) (\<lambda>a. StaticActorVisibilityVID a = Some vid))))) r in
      if conflict then (r, None)
      else
        let (r, accepted) = players_Register registered r in
        if \<not> accepted then (r, None)
        else
          let (r, accepted) = on_maps (\<lambda>m. MapIndex_Register m registered) r in
          if \<not> accepted then (players_Remove (player_id registered) r, None)
          else (r\<lparr>erNextID := player_id registered\<rparr>, Some registered))"

definition EntityRegistry_Player :: "entity_registry \<Rightarrow> u64 \<Rightarrow> entity_registry \<times> player_entity option" where
  "EntityRegistry_Player r i =
     (if i = 0 then (r, None)
      else case PlayerDirectory_ByEntityID (erPlayers r) i of
        Some p \<Rightarrow> (r, Some p)
      | None \<Rightarrow>
          let (r, found) = on_maps (\<lambda>m. MapIndex_Player m i) r in
          case found of
            None \<Rightarrow> (r, None)
          | Some p \<Rightarrow> (let (r, repaired) = repairPlayerDirectoryFromMap p r in (r, if repaired then Some p else None)))"

text \<open>The common shape of \<open>PlayerByVID\<close> and \<open>PlayerByName\<close>.\<close>

definition player_by :: "(entity_registry \<Rightarrow> entity_registry \<times> player_entity option) \<Rightarrow>
    (map_index \<Rightarrow> map_index \<times> player_entity option) \<Rightarrow> entity_registry \<Rightarrow> entity_registry \<times> player_entity option" where
  "player_by in_directory in_maps r =
     (let (r, found) = in_directory r in
      case found of
        Some p \<Rightarrow>
          (let (r, conflict) = or_else (entityIDOwnedByStaticActor (player_id p)) (playerVisibilityVIDConflictsWithStaticActor p) r in
           (r, if conflict then None else Some p))
      | None \<Rightarrow>
          let (r, found) = on_maps in_maps r in
          case found of
            None \<Rightarrow> (r, None)
          | Some p \<Rightarrow> (let (r, repaired) = repairPlayerDirectoryFromMap p r in (r, if repaired then Some p else None)))"

definition EntityRegistry_PlayerByVID :: "entity_registry \<Rightarrow> u32 \<Rightarrow> entity_registry \<times> player_entity option" where
  "EntityRegistry_PlayerByVID r vid =
     (if vid = 0 then (r, None) else player_by (players_ByVID vid) (\<lambda>m. MapIndex_PlayerByVID m vid) r)"

definition EntityRegistry_PlayerByName :: "entity_registry \<Rightarrow> string \<Rightarrow> entity_registry \<times> player_entity option" where
  "EntityRegistry_PlayerByName r name =
     (if name = [] then (r, None) else player_by (players_ByName name) (\<lambda>m. MapIndex_PlayerByName m name) r)"

definition EntityRegistry_UpdatePlayer :: "entity_registry \<Rightarrow> u64 \<Rightarrow> character \<Rightarrow> entity_registry \<times> bool" where
  "EntityRegistry_UpdatePlayer r i c =
     (if i = 0 then (r, False)
      else
        let listed = PlayerDirectory_ByEntityID (erPlayers r) i;
            (r, previous) = (if listed \<noteq> None then (r, listed) else on_maps (\<lambda>m. MapIndex_Player m i) r) in
        case previous of
          None \<Rightarrow> (r, False)
        | Some previous \<Rightarrow>
          let updated = newPlayerEntity i c;
              vid = eVID (plEntity updated);
              (r, conflict) =
                (or_else (entityIDOwnedByStaticActor (player_id updated))
                (or_else (playerIdentityConflicts updated)
                (or_else (found_such (statics_ByVID vid) (\<lambda>a. actor_id a \<noteq> player_id updated))
                  (found_such (on_maps (\<lambda>m. MapIndex_StaticActor m (ucast vid)))
                    (\<lambda>a. StaticActorVisibilityVID a = Some vid \<and> actor_id a \<noteq> player_id updated))))) r in
          if conflict then (r, False)
          else
            let (r, accepted) = (if listed \<noteq> None then players_Update updated r else players_Register updated r) in
            if \<not> accepted then (r, False)
            else
              let (r, moved) = or_else (on_maps (\<lambda>m. MapIndex_Update m updated)) (on_maps (\<lambda>m. MapIndex_Register m updated)) r in
              if \<not> moved
              then (if listed \<noteq> None then fst (players_Update previous r) else players_Remove (player_id updated) r, False)
              else (r, True))"

definition EntityRegistry_Remove :: "entity_registry \<Rightarrow> u64 \<Rightarrow> entity_registry \<times> player_entity option" where
  "EntityRegistry_Remove r i =
     (if i = 0 then (r, None)
      else case PlayerDirectory_ByEntityID (erPlayers r) i of
        Some removed \<Rightarrow> (fst (on_maps (\<lambda>m. MapIndex_Remove m i) (players_Remove i r)), Some removed)
      | None \<Rightarrow>
          let (r, removed) = on_maps (\<lambda>m. MapIndex_Remove m i) r in
          case removed of None \<Rightarrow> (r, None) | Some p \<Rightarrow> (players_Remove i r, Some p))"

text \<open>The walk that keeps the players no actor stands in the way of, and the one that adopts players of the maps.\<close>

fun undisputed_players :: "player_entity list \<Rightarrow> entity_registry \<Rightarrow> entity_registry \<times> player_entity list" where
  "undisputed_players [] r = (r, [])"
| "undisputed_players (p # ps) r =
     (let (r, conflict) = or_else (entityIDOwnedByStaticActor (player_id p)) (playerVisibilityVIDConflictsWithStaticActor p) r;
          (r, rest) = undisputed_players ps r in
      (r, if conflict then rest else p # rest))"

fun adopted_players :: "u64 set \<Rightarrow> player_entity list \<Rightarrow> entity_registry \<Rightarrow> entity_registry \<times> player_entity list" where
  "adopted_players known [] r = (r, [])"
| "adopted_players known (p # ps) r =
     (if player_id p \<in> known then adopted_players known ps r
      else
        let (r, repaired) = repairPlayerDirectoryFromMap p r in
        if \<not> repaired then adopted_players known ps r
        else let (r, rest) = adopted_players (insert (player_id p) known) ps r in (r, p # rest))"

definition EntityRegistry_PlayerCharacters :: "entity_registry \<Rightarrow> entity_registry \<times> character list" where
  "EntityRegistry_PlayerCharacters r =
     (let (r, listed) = undisputed_players (PlayerDirectory_playerEntities (erPlayers r)) r;
          (r, everyone) = on_maps MapIndex_AllPlayers r;
          (r, adopted) = adopted_players (player_id ` set listed) everyone r in
      (r, sortCharacters (map (\<lambda>p. cloneCharacterSnapshot (plCharacter p)) (listed @ adopted))))"

definition EntityRegistry_MapCharacters :: "profile_registry \<Rightarrow> entity_registry \<Rightarrow> u32 \<Rightarrow> entity_registry \<times> character list" where
  "EntityRegistry_MapCharacters reg r mapIndex =
     on_maps (\<lambda>m. MapIndex_PlayerCharacters m mapIndex) (repairMapIndexFromDirectories reg r)"

definition EntityRegistry_MapOccupancy :: "profile_registry \<Rightarrow> entity_registry \<Rightarrow> entity_registry \<times> map_occupancy list" where
  "EntityRegistry_MapOccupancy reg r = on_maps MapIndex_Snapshot (repairMapIndexFromDirectories reg r)"

section \<open>Static actors\<close>

definition registerStaticActor :: "profile_registry \<Rightarrow> entity_registry \<Rightarrow> static_entity \<Rightarrow> entity_registry \<times> static_entity option" where
  "registerStaticActor reg r actor =
     (if eVID (aEntity actor) \<noteq> 0 then (r, None)
      else
        let i = (if actor_id actor = 0 then erNextID r + 1 else actor_id actor);
            registered = newStaticEntity i actor;
            (r, conflict) = or_else (entityIDOwnedByPlayer (actor_id registered)) (staticActorVisibilityVIDConflictsWithPlayer registered) r in
        if conflict then (r, None)
        else
          let (r, accepted) = statics_Register reg registered r in
          if \<not> accepted then (r, None)
          else
            let (r, accepted) = on_maps (\<lambda>m. MapIndex_RegisterStatic reg m registered) r in
            if \<not> accepted then (statics_Remove (actor_id registered) r, None)
            else (if actor_id registered > erNextID r then r\<lparr>erNextID := actor_id registered\<rparr> else r, Some registered))"

definition EntityRegistry_RegisterStaticActor :: "profile_registry \<Rightarrow> entity_registry \<Rightarrow> static_entity \<Rightarrow> entity_registry \<times> static_entity option" where
  "EntityRegistry_RegisterStaticActor reg r actor = registerStaticActor reg r actor"

definition EntityRegistry_RegisterStaticActorWithID :: "profile_registry \<Rightarrow> entity_registry \<Rightarrow> static_entity \<Rightarrow> entity_registry \<times> static_entity option" where
  "EntityRegistry_RegisterStaticActorWithID reg r actor =
     (if actor_id actor = 0 then (r, None) else registerStaticActor reg r actor)"

definition EntityRegistry_RemoveStaticActor :: "entity_registry \<Rightarrow> u64 \<Rightarrow> entity_registry \<times> static_entity option" where
  "EntityRegistry_RemoveStaticActor r i =
     (if i = 0 then (r, None)
      else case NonPlayerDirectory_ByEntityID (erStatics r) i of
        Some removed \<Rightarrow> (fst (on_maps (\<lambda>m. MapIndex_RemoveStatic m i) (statics_Remove i r)), Some removed)
      | None \<Rightarrow>
          let (r, removed) = on_maps (\<lambda>m. MapIndex_RemoveStatic m i) r in
          case removed of
            None \<Rightarrow> (r, None)
          | Some a \<Rightarrow> (statics_Remove i (r\<lparr>erStatics := removeVisibilityVIDsForEntityID (erStatics r) i\<rparr>), Some a))"

definition EntityRegistry_StaticActor :: "profile_registry \<Rightarrow> entity_registry \<Rightarrow> u64 \<Rightarrow> entity_registry \<times> static_entity option" where
  "EntityRegistry_StaticActor reg r i =
     (if i = 0 then (r, None)
      else case NonPlayerDirectory_ByEntityID (erStatics r) i of
        Some a \<Rightarrow> (let (r, conflict) = staticActorVisibilityVIDConflictsWithPlayer a r in (r, if conflict then None else Some a))
      | None \<Rightarrow>
          let (r, found) = on_maps (\<lambda>m. MapIndex_StaticActor m i) r in
          case found of
            None \<Rightarrow> (r, None)
          | Some a \<Rightarrow> (let (r, repaired) = repairStaticActorDirectoryFromMap reg a r in (r, if repaired then Some a else None)))"

definition EntityRegistry_StaticActorByVID :: "profile_registry \<Rightarrow> entity_registry \<Rightarrow> u32 \<Rightarrow> entity_registry \<times> static_entity option" where
  "EntityRegistry_StaticActorByVID reg r vid =
     (if vid = 0 then (r, None)
      else
        let (r, found) = statics_ByVID vid r in
        case found of
          Some a \<Rightarrow>
            (let (r, conflict) = or_else (entityIDOwnedByPlayer (actor_id a)) (staticActorVisibilityVIDConflictsWithPlayer a) r in
             (r, if conflict then None else Some a))
        | None \<Rightarrow>
            let (r, found) = on_maps (\<lambda>m. MapIndex_StaticActorByVID m vid) r in
            case found of
              None \<Rightarrow> (r, None)
            | Some a \<Rightarrow> (let (r, repaired) = repairStaticActorDirectoryFromMap reg a r in (r, if repaired then Some a else None)))"

text \<open>An update keeps the reward and, in the same spawn group, the home when the new value has none.\<close>

definition inherit_actor :: "static_entity \<Rightarrow> static_entity \<Rightarrow> static_entity" where
  "inherit_actor previous actor =
     (let actor = (if Empty (aDeathReward actor) \<and> \<not> Empty (aDeathReward previous)
                   then actor\<lparr>aDeathReward := DeathReward_Clone (aDeathReward previous)\<rparr> else actor) in
      if aSpawnGroupRef actor \<noteq> [] \<and> aSpawnGroupRef actor = aSpawnGroupRef previous \<and>
         \<not> Position_Valid (aSpawnHome actor) \<and> Position_Valid (aSpawnHome previous)
      then actor\<lparr>aSpawnHome := aSpawnHome previous\<rparr> else actor)"

definition EntityRegistry_UpdateStaticActor :: "profile_registry \<Rightarrow> entity_registry \<Rightarrow> static_entity \<Rightarrow> entity_registry \<times> static_entity option" where
  "EntityRegistry_UpdateStaticActor reg r actor =
     (if actor_id actor = 0 \<or> eVID (aEntity actor) \<noteq> 0 then (r, None)
      else
        let listed = NonPlayerDirectory_ByEntityID (erStatics r) (actor_id actor);
            (r, previous) = (if listed \<noteq> None then (r, listed) else on_maps (\<lambda>m. MapIndex_StaticActor m (actor_id actor)) r) in
        case previous of
          None \<Rightarrow> (r, None)
        | Some previous \<Rightarrow>
          let updated = newStaticEntity (actor_id actor) (inherit_actor previous actor);
              (r, conflict) = or_else (entityIDOwnedByPlayer (actor_id updated)) (staticActorVisibilityVIDConflictsWithPlayer updated) r in
          if conflict then (r, None)
          else
            let (r, accepted) = (if listed \<noteq> None then statics_Update reg updated r else statics_Register reg updated r) in
            if \<not> accepted then (r, None)
            else
              let (r, moved) = or_else (on_maps (\<lambda>m. MapIndex_UpdateStatic reg m updated))
                    (on_maps (\<lambda>m. MapIndex_RegisterStatic reg m updated)) r in
              if \<not> moved
              then (if listed \<noteq> None then fst (statics_Update reg previous r) else statics_Remove (actor_id updated) r, None)
              else (r, Some updated))"

fun undisputed_actors :: "static_entity list \<Rightarrow> entity_registry \<Rightarrow> entity_registry \<times> static_entity list" where
  "undisputed_actors [] r = (r, [])"
| "undisputed_actors (a # as) r =
     (let (r, conflict) = or_else (entityIDOwnedByPlayer (actor_id a)) (staticActorVisibilityVIDConflictsWithPlayer a) r;
          (r, rest) = undisputed_actors as r in
      (r, if conflict then rest else a # rest))"

fun adopted_actors :: "profile_registry \<Rightarrow> u64 set \<Rightarrow> static_entity list \<Rightarrow> entity_registry \<Rightarrow> entity_registry \<times> static_entity list" where
  "adopted_actors reg known [] r = (r, [])"
| "adopted_actors reg known (a # as) r =
     (if actor_id a \<in> known then adopted_actors reg known as r
      else
        let (r, repaired) = repairStaticActorDirectoryFromMap reg a r in
        if \<not> repaired then adopted_actors reg known as r
        else let (r, rest) = adopted_actors reg (insert (actor_id a) known) as r in (r, a # rest))"

definition EntityRegistry_AllStaticActors :: "profile_registry \<Rightarrow> entity_registry \<Rightarrow> entity_registry \<times> static_entity list" where
  "EntityRegistry_AllStaticActors reg r =
     (let (r, listed) = undisputed_actors (NonPlayerDirectory_StaticActors (erStatics r)) r;
          (r, everyone) = on_maps MapIndex_AllStaticActors r;
          (r, adopted) = adopted_actors reg (actor_id ` set listed) everyone r in
      (r, sortStaticEntities (listed @ adopted)))"

definition EntityRegistry_StaticActors :: "profile_registry \<Rightarrow> entity_registry \<Rightarrow> u32 \<Rightarrow> entity_registry \<times> static_entity list" where
  "EntityRegistry_StaticActors reg r mapIndex =
     on_maps (\<lambda>m. MapIndex_StaticActors m mapIndex) (repairMapIndexFromDirectories reg r)"

definition EntityRegistry_NextEntityID :: "entity_registry \<Rightarrow> u64" where
  "EntityRegistry_NextEntityID r = erNextID r + 1"

end
