(* ===== verification/World_Snapshots.thy ===== *)
theory World_Snapshots
  imports World_Registry World_Spawn
begin

text \<open>
  Snapshots of the world (\<open>internal/worldruntime/scopes.go\<close>): what the operator and the relocation
  preview are shown of players, actors, ground items and maps, and how it is made, copied, sorted and compared.
  The combat profiles are the argument \<open>reg\<close>. Where the code walks a Go map the model walks its sorted
  keys; every such walk is sorted afterwards. An instant of \<open>time.Time\<close> is an integer.
\<close>

section \<open>Data\<close>

record connected_snapshot =
  csName :: string
  csVID :: u32
  csMapIndex :: u32
  csX :: i32
  csY :: i32
  csEmpire :: u8
  csGuildID :: u32
  csDead :: bool

record actor_snapshot =
  asEntityID :: u64
  asName :: string
  asMapIndex :: u32
  asX :: i32
  asY :: i32
  asRaceNum :: u32
  asSpawnHome :: "position option"
  asSpawnLeash :: "leash_snapshot option"
  asDead :: bool
  asCombatProfile :: string
  asCombatHPPercent :: u8
  asCombatMaxHP :: u8
  asCombatNormalDamage :: u8
  asCombatAttackValue :: u16
  asCombatDefenseValue :: u16
  asCombatLevel :: u16
  asCombatRank :: u8
  asRetaliationPointDelta :: i32
  asInteractionKind :: string
  asInteractionRef :: string
  asSpawnGroupRef :: string
  asRewardExperience :: u64
  asRewardGold :: u64
  asRewardDropVnums :: "u32 list"
  asRewardQuestRef :: string
  asRewardQuestFlag :: string
  asRewardQuestFrom :: u32
  asRewardQuestTo :: u32
  asRewardQuestText :: string
  asRequireQuestRef :: string
  asRequireQuestFlag :: string
  asRequireQuestFrom :: u32

record ground_item =
  giVID :: u32
  giVnum :: u32
  giCount :: u16
  giOwnerName :: string
  giOwnerLogin :: string
  giOwnerCharacterID :: u32
  giOwnerVID :: u32
  giGoldAmount :: u32
  giHasSockets :: bool
  giSocket0 :: i32
  giSocket1 :: i32
  giSocket2 :: i32
  giHasAttributes :: bool
  giAttr0Type :: u8
  giAttr0Value :: i16
  giAttr1Type :: u8
  giAttr1Value :: i16
  giAttr2Type :: u8
  giAttr2Value :: i16
  giAttr3Type :: u8
  giAttr3Value :: i16
  giAttr4Type :: u8
  giAttr4Value :: i16
  giAttr5Type :: u8
  giAttr5Value :: i16
  giAttr6Type :: u8
  giAttr6Value :: i16
  giPickupRange :: i64
  giOwnershipExclusive :: bool
  giOwnershipExpiresAt :: "int option"
  giDespawnAt :: "int option"
  giMapIndex :: u32
  giX :: i32
  giY :: i32
  giZ :: i32

record visibility_snapshot =
  vsSubject :: player_entity
  vsVisiblePeers :: "player_entity list"

record character_visibility_snapshot =
  cvCharacter :: connected_snapshot
  cvVisiblePeers :: "connected_snapshot list"
  cvVisibleStaticActors :: "actor_snapshot list"
  cvVisibleSpawnGroups :: "actor_snapshot list"
  cvVisibleGroundItems :: "ground_item list"

record interaction_visibility_snapshot =
  ivCharacter :: connected_snapshot
  ivVisibleInteractableStaticActors :: "actor_snapshot list"

record actor_visibility_diff =
  avCurrentVisibleActors :: "static_entity list"
  avTargetVisibleActors :: "static_entity list"
  avRemovedVisibleActors :: "static_entity list"
  avAddedVisibleActors :: "static_entity list"

record actor_target_diff =
  atCurrentVisibleTargets :: "player_entity list"
  atTargetVisibleTargets :: "player_entity list"
  atRetainedVisibleTargets :: "player_entity list"
  atRemovedVisibleTargets :: "player_entity list"
  atAddedVisibleTargets :: "player_entity list"

record ground_item_visibility_diff =
  gvCurrentVisibleItems :: "ground_item list"
  gvTargetVisibleItems :: "ground_item list"
  gvRemovedVisibleItems :: "ground_item list"
  gvAddedVisibleItems :: "ground_item list"

record map_occupancy_snapshot =
  msMapIndex :: u32
  msCharacterCount :: int
  msCharacters :: "connected_snapshot list"
  msStaticActorCount :: int
  msStaticActors :: "actor_snapshot list"
  msSpawnGroupCount :: int
  msSpawnGroups :: "actor_snapshot list"
  msGroundItemCount :: int
  msGroundItems :: "ground_item list"

record map_occupancy_change =
  mcMapIndex :: u32
  mcBeforeCount :: int
  mcAfterCount :: int

record relocation_preview =
  rpApplied :: bool
  rpCharacter :: connected_snapshot
  rpTarget :: connected_snapshot
  rpCurrentVisiblePeers :: "connected_snapshot list"
  rpTargetVisiblePeers :: "connected_snapshot list"
  rpRemovedVisiblePeers :: "connected_snapshot list"
  rpAddedVisiblePeers :: "connected_snapshot list"
  rpCurrentVisibleStaticActors :: "actor_snapshot list"
  rpTargetVisibleStaticActors :: "actor_snapshot list"
  rpRemovedVisibleStaticActors :: "actor_snapshot list"
  rpAddedVisibleStaticActors :: "actor_snapshot list"
  rpCurrentVisibleSpawnGroups :: "actor_snapshot list"
  rpTargetVisibleSpawnGroups :: "actor_snapshot list"
  rpRemovedVisibleSpawnGroups :: "actor_snapshot list"
  rpAddedVisibleSpawnGroups :: "actor_snapshot list"
  rpCurrentVisibleGroundItems :: "ground_item list"
  rpTargetVisibleGroundItems :: "ground_item list"
  rpRemovedVisibleGroundItems :: "ground_item list"
  rpAddedVisibleGroundItems :: "ground_item list"
  rpMapOccupancyChanges :: "map_occupancy_change list"
  rpBeforeMapOccupancy :: "map_occupancy_snapshot list"
  rpAfterMapOccupancy :: "map_occupancy_snapshot list"

section \<open>Sorting and copying\<close>

definition sortConnectedCharacterSnapshots :: "connected_snapshot list \<Rightarrow> connected_snapshot list" where
  "sortConnectedCharacterSnapshots cs = sort_key (\<lambda>c. (csName c, csVID c)) cs"

definition sortStaticActorSnapshots :: "actor_snapshot list \<Rightarrow> actor_snapshot list" where
  "sortStaticActorSnapshots as = sort_key (\<lambda>a. (asName a, asEntityID a)) as"

definition sortGroundItemSnapshots :: "ground_item list \<Rightarrow> ground_item list" where
  "sortGroundItemSnapshots gs = sort_key giVID gs"

definition sortMapOccupancySnapshots :: "map_occupancy_snapshot list \<Rightarrow> map_occupancy_snapshot list" where
  "sortMapOccupancySnapshots ms = sort_key msMapIndex ms"

definition sortMapOccupancyChanges :: "map_occupancy_change list \<Rightarrow> map_occupancy_change list" where
  "sortMapOccupancyChanges ms = sort_key mcMapIndex ms"

definition sortVisibilitySnapshots :: "visibility_snapshot list \<Rightarrow> visibility_snapshot list" where
  "sortVisibilitySnapshots vs = sort_key (\<lambda>v. (eName (plEntity (vsSubject v)), eVID (plEntity (vsSubject v)))) vs"

definition sortCharacterVisibilitySnapshots :: "character_visibility_snapshot list \<Rightarrow> character_visibility_snapshot list" where
  "sortCharacterVisibilitySnapshots vs = sort_key (\<lambda>v. (csName (cvCharacter v), csVID (cvCharacter v))) vs"

definition sortCharacterInteractionVisibilitySnapshots :: "interaction_visibility_snapshot list \<Rightarrow> interaction_visibility_snapshot list" where
  "sortCharacterInteractionVisibilitySnapshots vs = sort_key (\<lambda>v. (csName (ivCharacter v), csVID (ivCharacter v))) vs"

definition cloneStaticActorSnapshots :: "actor_snapshot list \<Rightarrow> actor_snapshot list" where
  "cloneStaticActorSnapshots as =
     map (\<lambda>a. a\<lparr>asRewardDropVnums := asRewardDropVnums a, asSpawnHome := map_option id (asSpawnHome a),
       asSpawnLeash := map_option (\<lambda>l. l\<lparr>lsReturnTarget := map_option id (lsReturnTarget l)\<rparr>) (asSpawnLeash a)\<rparr>) as"

definition cloneMapOccupancySnapshots :: "map_occupancy_snapshot list \<Rightarrow> map_occupancy_snapshot list" where
  "cloneMapOccupancySnapshots ms =
     map (\<lambda>m. \<lparr>msMapIndex = msMapIndex m, msCharacterCount = msCharacterCount m, msCharacters = msCharacters m,
       msStaticActorCount = msStaticActorCount m, msStaticActors = cloneStaticActorSnapshots (msStaticActors m),
       msSpawnGroupCount = msSpawnGroupCount m, msSpawnGroups = cloneStaticActorSnapshots (msSpawnGroups m),
       msGroundItemCount = msGroundItemCount m, msGroundItems = msGroundItems m\<rparr>) ms"

definition cloneGroundItemSnapshots :: "ground_item list \<Rightarrow> ground_item list" where
  "cloneGroundItemSnapshots gs = (if gs = [] then [] else sortGroundItemSnapshots gs)"

definition cloneStaticActors :: "static_entity list \<Rightarrow> static_entity list" where
  "cloneStaticActors as =
     (if as = [] then [] else sortStaticEntities (map (\<lambda>a. a\<lparr>aDeathReward := DeathReward_Clone (aDeathReward a)\<rparr>) as))"

definition clonePlayerEntities :: "player_entity list \<Rightarrow> player_entity list" where
  "clonePlayerEntities ps =
     (if ps = [] then []
      else sortPlayerEntities (map (\<lambda>p. p\<lparr>plCharacter := cloneCharacterSnapshot (plCharacter p)\<rparr>) ps))"

section \<open>Players and actors\<close>

definition bootstrapPlayerPointValueIndex :: nat where "bootstrapPlayerPointValueIndex = 1"

definition bootstrapPlayerSnapshotDead :: "character \<Rightarrow> bool" where
  "bootstrapPlayerSnapshotDead c \<longleftrightarrow> sint (cPoints c ! bootstrapPlayerPointValueIndex) \<le> 0"

definition ConnectedCharacterSnapshotFor :: "topology \<Rightarrow> character \<Rightarrow> connected_snapshot" where
  "ConnectedCharacterSnapshotFor t c =
     \<lparr>csName = cName c, csVID = cVID c, csMapIndex = EffectiveMapIndex t c, csX = cX c, csY = cY c,
      csEmpire = cEmpire c, csGuildID = cGuildID c, csDead = bootstrapPlayerSnapshotDead c\<rparr>"

definition connectedCharacterSnapshots :: "topology \<Rightarrow> character list \<Rightarrow> connected_snapshot list" where
  "connectedCharacterSnapshots t cs = sortConnectedCharacterSnapshots (map (ConnectedCharacterSnapshotFor t) cs)"

definition staticActorSnapshot :: "profile_registry \<Rightarrow> topology \<Rightarrow> static_entity \<Rightarrow> actor_snapshot" where
  "staticActorSnapshot reg t actor =
     (let combatProfile = staticActorCombatProfile (aCombatProfile actor) (aCombatKind actor);
          (maxHP, normalDamage, attack, defense, level, rank, delta) =
            (case BootstrapStaticActorCombatProfileDefaults reg combatProfile of
               None \<Rightarrow> (0, 0, 0, 0, 0, 0, 0)
             | Some d \<Rightarrow> (MaxHP d, DamagePerNormalAttack d, AttackValue d, DefenseValue d, Level d, Rank d,
                 if RetaliationPointDelta d \<noteq> PracticeMobBootstrapRetaliationPointDelta then RetaliationPointDelta d else 0));
          leash = map_option SpawnLeashSnapshotFromEvaluation
            (EvaluateStaticActorCurrentSpawnLeash reg actor (EffectiveStaticActorSpawnLeashRadiusForActor reg actor)) in
      \<lparr>asEntityID = eID (aEntity actor), asName = eName (aEntity actor),
       asMapIndex = EffectiveMapIndex t (zero_character\<lparr>cMapIndex := pMapIndex (aPosition actor)\<rparr>),
       asX = pX (aPosition actor), asY = pY (aPosition actor), asRaceNum = aRaceNum actor,
       asSpawnHome = map_option lsHome leash, asSpawnLeash = leash, asDead = False,
       asCombatProfile = combatProfile, asCombatHPPercent = 0, asCombatMaxHP = maxHP, asCombatNormalDamage = normalDamage,
       asCombatAttackValue = attack, asCombatDefenseValue = defense, asCombatLevel = level, asCombatRank = rank,
       asRetaliationPointDelta = delta, asInteractionKind = aInteractionKind actor,
       asInteractionRef = aInteractionRef actor, asSpawnGroupRef = aSpawnGroupRef actor,
       asRewardExperience = Experience (aDeathReward actor), asRewardGold = Gold (aDeathReward actor),
       asRewardDropVnums = DropVnums (DeathReward_Clone (aDeathReward actor)),
       asRewardQuestRef = [], asRewardQuestFlag = [], asRewardQuestFrom = 0, asRewardQuestTo = 0,
       asRewardQuestText = [], asRequireQuestRef = [], asRequireQuestFlag = [], asRequireQuestFrom = 0\<rparr>)"

definition staticActorSnapshots :: "profile_registry \<Rightarrow> topology \<Rightarrow> static_entity list \<Rightarrow> actor_snapshot list" where
  "staticActorSnapshots reg t as = sortStaticActorSnapshots (map (staticActorSnapshot reg t) as)"

definition spawnGroupSnapshots :: "profile_registry \<Rightarrow> topology \<Rightarrow> static_entity list \<Rightarrow> actor_snapshot list" where
  "spawnGroupSnapshots reg t as =
     (if as = [] then [] else staticActorSnapshots reg t (filter (\<lambda>a. aSpawnGroupRef a \<noteq> []) as))"

definition staticActorCombatRank :: "profile_registry \<Rightarrow> static_entity \<Rightarrow> u8" where
  "staticActorCombatRank reg actor =
     (let profile = staticActorCombatProfile (aCombatProfile actor) (aCombatKind actor) in
      if profile = [] then 0
      else case BootstrapStaticActorCombatProfileDefaults reg profile of None \<Rightarrow> 0 | Some d \<Rightarrow> Rank d)"

definition staticActorVisibilityCharacter :: "static_entity \<Rightarrow> character" where
  "staticActorVisibilityCharacter actor =
     zero_character\<lparr>cMapIndex := pMapIndex (aPosition actor), cX := pX (aPosition actor), cY := pY (aPosition actor)\<rparr>"

definition playerEntitiesToCharacters :: "player_entity list \<Rightarrow> character list" where
  "playerEntitiesToCharacters ps = map plCharacter ps"

definition StaticActorWithinInteractionRange :: "character \<Rightarrow> static_entity \<Rightarrow> i32 \<Rightarrow> bool" where
  "StaticActorWithinInteractionRange subject actor maxDistance \<longleftrightarrow>
     (if sint maxDistance \<le> 0 \<or> effectiveMapIndex (cMapIndex subject) \<noteq> effectiveMapIndex (pMapIndex (aPosition actor)) then False
      else
        let dx = scast (cX subject) - scast (pX (aPosition actor)) :: i64;
            dy = scast (cY subject) - scast (pY (aPosition actor)) :: i64;
            maxDistanceSquared = scast maxDistance * scast maxDistance :: i64 in
        sint (dx * dx + dy * dy) \<le> sint maxDistanceSquared)"

section \<open>Differences\<close>

text \<open>The values of a Go map from keys: of several elements with one key the last stays.\<close>

fun last_by :: "('a \<Rightarrow> 'k) \<Rightarrow> 'a list \<Rightarrow> 'a list" where
  "last_by key [] = []"
| "last_by key (x # xs) = (if list_ex (\<lambda>y. key y = key x) xs then last_by key xs else x # last_by key xs)"

definition without :: "('a \<Rightarrow> 'k) \<Rightarrow> 'a list \<Rightarrow> 'a list \<Rightarrow> 'a list" where
  "without key xs ys = filter (\<lambda>x. \<not> list_ex (\<lambda>y. key y = key x) ys) xs"

definition diffVisibleStaticActors :: "static_entity list \<Rightarrow> static_entity list \<Rightarrow> static_entity list \<times> static_entity list" where
  "diffVisibleStaticActors cur target =
     (sortStaticEntities (without actor_id (last_by actor_id cur) target),
      sortStaticEntities (without actor_id (last_by actor_id target) cur))"

definition buildStaticActorVisibilityDiff :: "static_entity list \<Rightarrow> static_entity list \<Rightarrow> actor_visibility_diff" where
  "buildStaticActorVisibilityDiff cur0 target0 =
     (let cur = cloneStaticActors cur0; target = cloneStaticActors target0;
          (removed, added) = diffVisibleStaticActors cur target in
      \<lparr>avCurrentVisibleActors = cur, avTargetVisibleActors = target,
       avRemovedVisibleActors = removed, avAddedVisibleActors = added\<rparr>)"

definition buildStaticActorTargetDiff :: "player_entity list \<Rightarrow> player_entity list \<Rightarrow> actor_target_diff" where
  "buildStaticActorTargetDiff cur0 target0 =
     (let cur = clonePlayerEntities cur0; target = clonePlayerEntities target0;
          retained = filter (\<lambda>p. list_ex (\<lambda>q. player_id q = player_id p) target) cur;
          removed = without player_id cur target;
          added = without player_id target cur in
      \<lparr>atCurrentVisibleTargets = cur, atTargetVisibleTargets = target, atRetainedVisibleTargets = sortPlayerEntities retained,
       atRemovedVisibleTargets = sortPlayerEntities removed, atAddedVisibleTargets = sortPlayerEntities added\<rparr>)"

definition diffGroundItemSnapshots :: "ground_item list \<Rightarrow> ground_item list \<Rightarrow> ground_item list \<times> ground_item list" where
  "diffGroundItemSnapshots cur target =
     (sortGroundItemSnapshots (without giVID (last_by giVID cur) target),
      sortGroundItemSnapshots (without giVID (last_by giVID target) cur))"

definition BuildGroundItemVisibilityDiff :: "ground_item list \<Rightarrow> ground_item list \<Rightarrow> ground_item_visibility_diff" where
  "BuildGroundItemVisibilityDiff cur0 target0 =
     (let cur = cloneGroundItemSnapshots cur0; target = cloneGroundItemSnapshots target0;
          (removed, added) = diffGroundItemSnapshots cur target in
      \<lparr>gvCurrentVisibleItems = cur, gvTargetVisibleItems = target,
       gvRemovedVisibleItems = removed, gvAddedVisibleItems = added\<rparr>)"

definition VisibleGroundItems :: "topology \<Rightarrow> character \<Rightarrow> ground_item list \<Rightarrow> ground_item list" where
  "VisibleGroundItems t subject grounds =
     (let place = (\<lambda>g. zero_character\<lparr>cMapIndex := giMapIndex g, cX := giX g, cY := giY g\<rparr>);
          visible = filter (\<lambda>g. giVID g \<noteq> 0 \<and> SharesVisibleWorld t subject (place g)) grounds in
      sortGroundItemSnapshots (map (\<lambda>g. g\<lparr>giMapIndex := EffectiveMapIndex t (place g)\<rparr>) visible))"

definition RelocateGroundItemVisibilityDiff :: "topology \<Rightarrow> character \<Rightarrow> character \<Rightarrow> ground_item list \<Rightarrow> ground_item_visibility_diff" where
  "RelocateGroundItemVisibilityDiff t cur target grounds =
     BuildGroundItemVisibilityDiff (VisibleGroundItems t cur grounds) (VisibleGroundItems t target grounds)"

section \<open>Occupancy of the maps\<close>

definition zero_occupancy :: map_occupancy_snapshot where
  "zero_occupancy = \<lparr>msMapIndex = 0, msCharacterCount = 0, msCharacters = [], msStaticActorCount = 0, msStaticActors = [],
     msSpawnGroupCount = 0, msSpawnGroups = [], msGroundItemCount = 0, msGroundItems = []\<rparr>"

definition occupancy_snapshot :: "profile_registry \<Rightarrow> topology \<Rightarrow> map_occupancy \<Rightarrow> map_occupancy_snapshot" where
  "occupancy_snapshot reg t o1 =
     (let spawnGroups = spawnGroupSnapshots reg t (moStaticActors o1) in
      \<lparr>msMapIndex = moMapIndex o1, msCharacterCount = int (length (moCharacters o1)),
       msCharacters = connectedCharacterSnapshots t (moCharacters o1),
       msStaticActorCount = int (length (moStaticActors o1)), msStaticActors = staticActorSnapshots reg t (moStaticActors o1),
       msSpawnGroupCount = int (length spawnGroups), msSpawnGroups = spawnGroups,
       msGroundItemCount = 0, msGroundItems = []\<rparr>)"

definition buildMapOccupancySnapshots :: "profile_registry \<Rightarrow> topology \<Rightarrow> map_occupancy list \<Rightarrow> map_occupancy_snapshot list" where
  "buildMapOccupancySnapshots reg t os = sortMapOccupancySnapshots (map (occupancy_snapshot reg t) os)"

text \<open>
  One ground item in the list of its map. The index from maps to positions finds the last
  snapshot of a map; a map without one gets one at the end.
\<close>

fun put_ground :: "u32 \<Rightarrow> ground_item \<Rightarrow> map_occupancy_snapshot list \<Rightarrow> map_occupancy_snapshot list" where
  "put_ground k g [] = [zero_occupancy\<lparr>msMapIndex := k, msGroundItems := [g]\<rparr>]"
| "put_ground k g (m # ms) =
     (if msMapIndex m = k \<and> \<not> list_ex (\<lambda>n. msMapIndex n = k) ms
      then m\<lparr>msGroundItems := msGroundItems m @ [g]\<rparr> # ms else m # put_ground k g ms)"

definition append_ground :: "topology \<Rightarrow> map_occupancy_snapshot list \<Rightarrow> ground_item \<Rightarrow> map_occupancy_snapshot list" where
  "append_ground t ms g =
     (if giVID g = 0 then ms
      else let k = EffectiveMapIndex t (zero_character\<lparr>cMapIndex := giMapIndex g\<rparr>) in
        put_ground k (g\<lparr>giMapIndex := k\<rparr>) ms)"

definition AppendGroundItemsToMapOccupancySnapshots :: "topology \<Rightarrow> map_occupancy_snapshot list \<Rightarrow> ground_item list \<Rightarrow> map_occupancy_snapshot list" where
  "AppendGroundItemsToMapOccupancySnapshots t snapshots grounds =
     (let ms = cloneMapOccupancySnapshots snapshots in
      if grounds = [] then ms
      else
        let ms = foldl (append_ground t) ms grounds;
            ms = map (\<lambda>m. m\<lparr>msGroundItems := sortGroundItemSnapshots (msGroundItems m),
                           msGroundItemCount := int (length (msGroundItems m))\<rparr>) ms in
        sortMapOccupancySnapshots ms)"

text \<open>The Go map from maps to snapshots, and the two changes a relocation makes to it.\<close>

definition by_map :: "map_occupancy_snapshot list \<Rightarrow> u32 \<Rightarrow> map_occupancy_snapshot option" where
  "by_map ms = foldl (\<lambda>f m. f(msMapIndex m \<mapsto> m)) Map.empty ms"

definition leave_map :: "connected_snapshot \<Rightarrow> (u32 \<Rightarrow> map_occupancy_snapshot option) \<Rightarrow> u32 \<Rightarrow> map_occupancy_snapshot option" where
  "leave_map cur byMap =
     (case byMap (csMapIndex cur) of
        None \<Rightarrow> byMap
      | Some m0 \<Rightarrow>
          let filtered = filter (\<lambda>c. csVID c \<noteq> csVID cur) (msCharacters m0);
              m = m0\<lparr>msCharacters := filtered, msCharacterCount := int (length filtered)\<rparr> in
          if msCharacterCount m = 0 \<and> msStaticActorCount m = 0 \<and> msGroundItemCount m = 0
          then byMap(csMapIndex cur := None) else byMap(csMapIndex cur \<mapsto> m))"

fun replace_first :: "('a \<Rightarrow> bool) \<Rightarrow> 'a \<Rightarrow> 'a list \<Rightarrow> 'a list" where
  "replace_first P y [] = []"
| "replace_first P y (x # xs) = (if P x then y # xs else x # replace_first P y xs)"

definition enter_map :: "connected_snapshot \<Rightarrow> (u32 \<Rightarrow> map_occupancy_snapshot option) \<Rightarrow> u32 \<Rightarrow> map_occupancy_snapshot option" where
  "enter_map target byMap =
     (let m = (case byMap (csMapIndex target) of None \<Rightarrow> zero_occupancy | Some m \<Rightarrow> m);
          same = (\<lambda>c. csVID c = csVID target);
          cs = sortConnectedCharacterSnapshots
            (if list_ex same (msCharacters m) then replace_first same target (msCharacters m) else msCharacters m @ [target]) in
      byMap(csMapIndex target \<mapsto>
        m\<lparr>msMapIndex := csMapIndex target, msCharacters := cs, msCharacterCount := int (length cs)\<rparr>))"

definition recount :: "u32 \<Rightarrow> map_occupancy_snapshot \<Rightarrow> map_occupancy_snapshot" where
  "recount k m = m\<lparr>msCharacters := sortConnectedCharacterSnapshots (msCharacters m),
     msStaticActors := sortStaticActorSnapshots (msStaticActors m), msGroundItems := sortGroundItemSnapshots (msGroundItems m),
     msMapIndex := k, msCharacterCount := int (length (msCharacters m)),
     msStaticActorCount := int (length (msStaticActors m)), msGroundItemCount := int (length (msGroundItems m))\<rparr>"

definition relocateMapOccupancySnapshots ::
    "map_occupancy_snapshot list \<Rightarrow> topology \<Rightarrow> character \<Rightarrow> character \<Rightarrow> map_occupancy_snapshot list" where
  "relocateMapOccupancySnapshots before t cur target =
     (let byMap = enter_map (ConnectedCharacterSnapshotFor t target)
            (leave_map (ConnectedCharacterSnapshotFor t cur) (by_map (cloneMapOccupancySnapshots before))) in
      sortMapOccupancySnapshots
        (map (\<lambda>k. recount k (the (byMap k))) (sorted_list_of_set (dom byMap))))"

definition character_counts :: "map_occupancy_snapshot list \<Rightarrow> u32 \<Rightarrow> int option" where
  "character_counts ms = foldl (\<lambda>f m. f(msMapIndex m \<mapsto> msCharacterCount m)) Map.empty ms"

definition count_at :: "(u32 \<Rightarrow> int option) \<Rightarrow> u32 \<Rightarrow> int" where
  "count_at f k = (case f k of None \<Rightarrow> 0 | Some n \<Rightarrow> n)"

definition buildMapOccupancyChanges :: "map_occupancy_snapshot list \<Rightarrow> map_occupancy_snapshot list \<Rightarrow> map_occupancy_change list" where
  "buildMapOccupancyChanges before after =
     (let beforeCounts = character_counts before; afterCounts = character_counts after in
      sortMapOccupancyChanges
        (map (\<lambda>k. \<lparr>mcMapIndex = k, mcBeforeCount = count_at beforeCounts k, mcAfterCount = count_at afterCounts k\<rparr>)
          (filter (\<lambda>k. count_at beforeCounts k \<noteq> count_at afterCounts k)
            (sorted_list_of_set (dom beforeCounts \<union> dom afterCounts)))))"

end
