(* ===== verification/World_Registry_Facts.thy ===== *)
theory World_Registry_Facts
  imports World_Registry
begin

text \<open>
  The entity registry in order (\<open>entity_registry.go\<close>): when the two directories and the map index agree, no
  lookup repairs anything, no conflict is seen where there is none, and every operation has one equation.
\<close>

section \<open>The registry in order\<close>

abbreviation er_players :: "entity_registry \<Rightarrow> u64 \<Rightarrow> player_entity option" where
  "er_players r \<equiv> players_of (erMaps r)"

abbreviation er_statics :: "entity_registry \<Rightarrow> u64 \<Rightarrow> static_entity option" where
  "er_statics r \<equiv> statics_of (erMaps r)"

definition er_ok :: "entity_registry \<Rightarrow> bool" where
  "er_ok r \<longleftrightarrow>
     pd_ok (erPlayers r) \<and> np_ok (erStatics r) \<and> mi_ok (erMaps r) \<and>
     pdByEntityID (erPlayers r) = er_players r \<and> npByEntityID (erStatics r) = er_statics r \<and>
     miTopology (erMaps r) = erTopology r \<and>
     (\<forall>i. er_players r i \<noteq> None \<or> er_statics r i \<noteq> None \<longrightarrow> i \<le> erNextID r) \<and>
     (\<forall>i a. er_statics r i = Some a \<longrightarrow> normalizeStaticEntityCombat a = a)"

lemma er_okD:
  assumes "er_ok r"
  shows "pd_ok (erPlayers r)" "np_ok (erStatics r)" "mi_ok (erMaps r)"
    "pdByEntityID (erPlayers r) = er_players r" "npByEntityID (erStatics r) = er_statics r"
    "miTopology (erMaps r) = erTopology r"
    "er_players r i \<noteq> None \<Longrightarrow> i \<le> erNextID r" "er_statics r i \<noteq> None \<Longrightarrow> i \<le> erNextID r"
    "er_statics r i = Some a \<Longrightarrow> normalizeStaticEntityCombat a = a"
  using assms unfolding er_ok_def by blast+

lemma er_same [simp]: "r\<lparr>erMaps := erMaps r\<rparr> = r" "r\<lparr>erPlayers := erPlayers r\<rparr> = r" "r\<lparr>erStatics := erStatics r\<rparr> = r"
  by (cases r; simp)+

lemma option_same: "(\<And>p. x = Some p \<longleftrightarrow> y = Some p) \<Longrightarrow> x = y"
  by (metis not_None_eq)

lemma find_unique_key:
  assumes "\<And>i p. m i = Some p \<Longrightarrow> ident p = i" "finite (dom m)"
    and "\<And>p q. p \<in> ran m \<Longrightarrow> q \<in> ran m \<Longrightarrow> key p = key q \<Longrightarrow> p = q"
  shows "find (\<lambda>p. key p = k) (map_values m) = Some p \<longleftrightarrow> (\<exists>i. m i = Some p \<and> key p = k)"
proof
  assume "find (\<lambda>p. key p = k) (map_values m) = Some p"
  then have "p \<in> set (map_values m)" "key p = k" by (auto simp: find_Some_iff)
  then show "\<exists>i. m i = Some p \<and> key p = k" using assms(2) by (auto simp: set_map_values ran_def)
next
  assume "\<exists>i. m i = Some p \<and> key p = k"
  then have p: "p \<in> ran m" "key p = k" by (auto simp: ran_def)
  then have "find (\<lambda>p. key p = k) (map_values m) \<noteq> None"
    using assms(2) by (auto simp: find_None_iff set_map_values)
  then obtain q where q: "find (\<lambda>p. key p = k) (map_values m) = Some q" by blast
  then have "q \<in> ran m" "key q = k" using assms(2) by (auto simp: find_Some_iff set_map_values [symmetric])
  with p assms(3) have "q = p" by metis
  with q show "find (\<lambda>p. key p = k) (map_values m) = Some p" by simp
qed

definition er_by :: "(player_entity \<Rightarrow> 'k) \<Rightarrow> entity_registry \<Rightarrow> 'k \<Rightarrow> player_entity option" where
  "er_by key r k = find (\<lambda>p. key p = k) (map_values (er_players r))"

lemma er_by_iff:
  assumes ok: "er_ok r"
  shows "er_by (\<lambda>p. eVID (plEntity p)) r vid = Some p \<longleftrightarrow> (\<exists>i. er_players r i = Some p \<and> eVID (plEntity p) = vid)"
    and "er_by (\<lambda>p. eName (plEntity p)) r name = Some p \<longleftrightarrow> (\<exists>i. er_players r i = Some p \<and> eName (plEntity p) = name)"
proof -
  note d = er_okD [OF ok]
  have f: "finite (dom (er_players r))" using pd_okD(4) [OF d(1)] by (simp add: d)
  have e: "pdByEntityID (erPlayers r) i = Some p \<longleftrightarrow> er_players r i = Some p" for i p by (simp add: d)
  have u: "p = q" if pq: "p \<in> ran (er_players r)" "q \<in> ran (er_players r)"
      "eVID (plEntity p) = eVID (plEntity q) \<or> eName (plEntity p) = eName (plEntity q)" for p q
  proof -
    obtain i where "er_players r i = Some p" using pq(1) by (auto simp: ran_def)
    moreover obtain j where "er_players r j = Some q" using pq(2) by (auto simp: ran_def)
    moreover note ij = calculation
    have "i = j"
      using pq(3) index_ok_unique [OF pd_okD(1) [OF d(1)], unfolded e, OF ij refl]
        index_ok_unique [OF pd_okD(2) [OF d(1)], unfolded e, OF ij refl] by (metis (no_types))
    with ij show ?thesis by simp
  qed
  show "er_by (\<lambda>p. eVID (plEntity p)) r vid = Some p \<longleftrightarrow> (\<exists>i. er_players r i = Some p \<and> eVID (plEntity p) = vid)"
    unfolding er_by_def using u by (intro find_unique_key [where ident = player_id] f) (use mi_okD(3) [OF d(3)] in auto)
  show "er_by (\<lambda>p. eName (plEntity p)) r name = Some p \<longleftrightarrow> (\<exists>i. er_players r i = Some p \<and> eName (plEntity p) = name)"
    unfolding er_by_def using u by (intro find_unique_key [where ident = player_id] f) (use mi_okD(3) [OF d(3)] in auto)
qed

lemma pd_lookup:
  assumes ok: "er_ok r"
  shows "PlayerDirectory_ByVID (erPlayers r) vid = (erPlayers r, er_by (\<lambda>p. eVID (plEntity p)) r vid)"
    and "PlayerDirectory_ByName (erPlayers r) name = (erPlayers r, er_by (\<lambda>p. eName (plEntity p)) r name)"
proof -
  note d = er_okD [OF ok]
  have "snd (PlayerDirectory_ByVID (erPlayers r) vid) = er_by (\<lambda>p. eVID (plEntity p)) r vid"
    by (rule option_same) (simp add: PlayerDirectory_ByVID_exact(2) [OF d(1)] er_by_iff [OF ok] d)
  then show "PlayerDirectory_ByVID (erPlayers r) vid = (erPlayers r, er_by (\<lambda>p. eVID (plEntity p)) r vid)"
    by (subst PlayerDirectory_ByVID_exact(1) [OF d(1)]) simp
  have "snd (PlayerDirectory_ByName (erPlayers r) name) = er_by (\<lambda>p. eName (plEntity p)) r name"
    by (rule option_same) (simp add: PlayerDirectory_ByName_exact(2) [OF d(1)] er_by_iff [OF ok] d)
  then show "PlayerDirectory_ByName (erPlayers r) name = (erPlayers r, er_by (\<lambda>p. eName (plEntity p)) r name)"
    by (subst PlayerDirectory_ByName_exact(1) [OF d(1)]) simp
qed

text \<open>In order, every lookup of a part leaves the registry as it is and reads the map index.\<close>

lemma part_lookups:
  assumes ok: "er_ok r"
  shows "players_ByVID vid r = (r, er_by (\<lambda>p. eVID (plEntity p)) r vid)"
    and "players_ByName name r = (r, er_by (\<lambda>p. eName (plEntity p)) r name)"
    and "statics_ByVID vid r = (r, er_statics r (ucast vid))"
    and "PlayerDirectory_ByEntityID (erPlayers r) i = er_players r i"
    and "NonPlayerDirectory_ByEntityID (erStatics r) i = er_statics r i"
    and "on_maps (\<lambda>m. MapIndex_Player m i) r = (r, er_players r i)"
    and "on_maps (\<lambda>m. MapIndex_StaticActor m i) r = (r, er_statics r i)"
    and "on_maps (\<lambda>m. MapIndex_PlayerByVID m vid) r = (r, er_by (\<lambda>p. eVID (plEntity p)) r vid)"
    and "on_maps (\<lambda>m. MapIndex_PlayerByName m name) r = (r, er_by (\<lambda>p. eName (plEntity p)) r name)"
    and "on_maps (\<lambda>m. MapIndex_StaticActorByVID m vid) r = (r, er_statics r (ucast vid))"
proof -
  note d = er_okD [OF ok]
  show "players_ByVID vid r = (r, er_by (\<lambda>p. eVID (plEntity p)) r vid)"
    "players_ByName name r = (r, er_by (\<lambda>p. eName (plEntity p)) r name)"
    by (simp_all add: players_ByVID_def players_ByName_def pd_lookup [OF ok])
  show "statics_ByVID vid r = (r, er_statics r (ucast vid))"
    by (simp add: statics_ByVID_def NonPlayerDirectory_ByVID_exact [OF d(2)] d)
  show "PlayerDirectory_ByEntityID (erPlayers r) i = er_players r i"
    "NonPlayerDirectory_ByEntityID (erStatics r) i = er_statics r i"
    by (simp_all add: PlayerDirectory_ByEntityID_exact [OF d(1)] NonPlayerDirectory_ByEntityID_exact [OF d(2)] d)
  show "on_maps (\<lambda>m. MapIndex_Player m i) r = (r, er_players r i)"
    "on_maps (\<lambda>m. MapIndex_StaticActor m i) r = (r, er_statics r i)"
    "on_maps (\<lambda>m. MapIndex_PlayerByVID m vid) r = (r, er_by (\<lambda>p. eVID (plEntity p)) r vid)"
    "on_maps (\<lambda>m. MapIndex_PlayerByName m name) r = (r, er_by (\<lambda>p. eName (plEntity p)) r name)"
    "on_maps (\<lambda>m. MapIndex_StaticActorByVID m vid) r = (r, er_statics r (ucast vid))"
    by (simp_all add: on_maps_def MapIndex_Player_exact [OF d(3)] MapIndex_StaticActor_exact [OF d(3)]
        MapIndex_PlayerByVID_exact [OF d(3)] MapIndex_PlayerByName_exact [OF d(3)]
        MapIndex_StaticActorByVID_exact [OF d(3)] er_by_def)
qed

lemma found_exact:
  assumes ok: "er_ok r"
  shows "found_such (players_ByVID vid) P r = (r, \<exists>i p. er_players r i = Some p \<and> eVID (plEntity p) = vid \<and> P p)"
    and "found_such (players_ByName name) P r = (r, \<exists>i p. er_players r i = Some p \<and> eName (plEntity p) = name \<and> P p)"
    and "found_such (statics_ByVID vid) Q r = (r, \<exists>a. er_statics r (ucast vid) = Some a \<and> Q a)"
    and "found_such (on_maps (\<lambda>m. MapIndex_Player m i)) P r = (r, \<exists>p. er_players r i = Some p \<and> P p)"
    and "found_such (on_maps (\<lambda>m. MapIndex_StaticActor m i)) Q r = (r, \<exists>a. er_statics r i = Some a \<and> Q a)"
    and "found_such (on_maps (\<lambda>m. MapIndex_PlayerByVID m vid)) P r =
      (r, \<exists>i p. er_players r i = Some p \<and> eVID (plEntity p) = vid \<and> P p)"
    and "found_such (on_maps (\<lambda>m. MapIndex_PlayerByName m name)) P r =
      (r, \<exists>i p. er_players r i = Some p \<and> eName (plEntity p) = name \<and> P p)"
    and "found_such (on_maps (\<lambda>m. MapIndex_StaticActorByVID m vid)) Q r = (r, \<exists>a. er_statics r (ucast vid) = Some a \<and> Q a)"
proof -
  have such2: "found_such f R r = (r, b)" if "f r = (r, x)" "b \<longleftrightarrow> (\<exists>e. x = Some e \<and> R e)"
    for f :: "entity_registry \<Rightarrow> entity_registry \<times> static_entity option" and R x b
    using that by (cases x) (simp_all add: found_such_def)
  have such1: "found_such f R r = (r, b)" if "f r = (r, x)" "b \<longleftrightarrow> (\<exists>e. x = Some e \<and> R e)"
    for f :: "entity_registry \<Rightarrow> entity_registry \<times> player_entity option" and R x b
    using that by (cases x) (simp_all add: found_such_def)
  show "found_such (players_ByVID vid) P r = (r, \<exists>i p. er_players r i = Some p \<and> eVID (plEntity p) = vid \<and> P p)"
    "found_such (on_maps (\<lambda>m. MapIndex_PlayerByVID m vid)) P r =
      (r, \<exists>i p. er_players r i = Some p \<and> eVID (plEntity p) = vid \<and> P p)"
    by (rule such1, rule part_lookups [OF ok], unfold er_by_iff [OF ok], blast)+
  show "found_such (players_ByName name) P r = (r, \<exists>i p. er_players r i = Some p \<and> eName (plEntity p) = name \<and> P p)"
    "found_such (on_maps (\<lambda>m. MapIndex_PlayerByName m name)) P r =
      (r, \<exists>i p. er_players r i = Some p \<and> eName (plEntity p) = name \<and> P p)"
    by (rule such1, rule part_lookups [OF ok], unfold er_by_iff [OF ok], blast)+
  show "found_such (statics_ByVID vid) Q r = (r, \<exists>a. er_statics r (ucast vid) = Some a \<and> Q a)"
    "found_such (on_maps (\<lambda>m. MapIndex_StaticActor m i)) Q r = (r, \<exists>a. er_statics r i = Some a \<and> Q a)"
    "found_such (on_maps (\<lambda>m. MapIndex_StaticActorByVID m vid)) Q r = (r, \<exists>a. er_statics r (ucast vid) = Some a \<and> Q a)"
    by (rule such2, rule part_lookups [OF ok], rule refl)+
  show "found_such (on_maps (\<lambda>m. MapIndex_Player m i)) P r = (r, \<exists>p. er_players r i = Some p \<and> P p)"
    by (rule such1, rule part_lookups [OF ok], rule refl)
qed

lemma or_else_pure: "f r = (r, b) \<Longrightarrow> g r = (r, c) \<Longrightarrow> or_else f g r = (r, b \<or> c)"
  by (simp add: or_else_def)

lemma er_identities:
  assumes "er_ok r"
  shows "er_players r i = Some p \<Longrightarrow> player_id p = i \<and> i \<noteq> 0 \<and> validPlayerDirectoryEntity p"
    and "er_statics r i = Some a \<Longrightarrow> actor_id a = i \<and> i \<noteq> 0 \<and> StaticActorVisibilityVID a = Some (ucast i) \<and> ucast (ucast i :: u32) = i"
    and "er_players r i = Some p \<Longrightarrow> er_statics r i = None"
    and "er_players r i = Some p \<Longrightarrow> er_statics r (ucast (eVID (plEntity p))) = None"
proof -
  note m = er_okD(3) [OF assms]
  show "er_players r i = Some p \<Longrightarrow> player_id p = i \<and> i \<noteq> 0 \<and> validPlayerDirectoryEntity p"
    using mi_okD(3) [OF m] by blast
  show a: "actor_id a = i \<and> i \<noteq> 0 \<and> StaticActorVisibilityVID a = Some (ucast i) \<and> ucast (ucast i :: u32) = i"
    if "er_statics r i = Some a" for i a
    using mi_okD(4) [OF m that] actor_by_vid [OF m _ that] by auto
  show "er_players r i = Some p \<Longrightarrow> er_statics r i = None" by (rule apartD(1) [OF mi_okD(5) [OF m]])
  show "er_statics r (ucast (eVID (plEntity p))) = None" if "er_players r i = Some p"
  proof (rule ccontr)
    assume "er_statics r (ucast (eVID (plEntity p))) \<noteq> None"
    then obtain a where s: "er_statics r (ucast (eVID (plEntity p))) = Some a" by blast
    then have "StaticActorVisibilityVID a = Some (eVID (plEntity p))" using a [OF s] by (simp add: widen_narrow)
    with apartD(3) [OF mi_okD(5) [OF m] that s] show False by simp
  qed
qed

lemma owned_exact:
  assumes ok: "er_ok r"
  shows "entityIDOwnedByStaticActor i r = (r, i = 0 \<or> er_statics r i \<noteq> None)"
    and "entityIDOwnedByPlayer i r = (r, i = 0 \<or> er_players r i \<noteq> None)"
  by (simp_all add: entityIDOwnedByStaticActor_def entityIDOwnedByPlayer_def part_lookups [OF ok] found_exact [OF ok])

lemma playerIdentityConflicts_exact:
  assumes ok: "er_ok r"
  shows "playerIdentityConflicts p r =
    (r, player_id p = 0 \<or> (\<exists>j q. er_players r j = Some q \<and> j \<noteq> player_id p \<and> player_clash q p))"
proof -
  have "(\<exists>j q. er_players r j = Some q \<and> j \<noteq> player_id p \<and> player_clash q p) \<longleftrightarrow>
      (\<exists>j q. er_players r j = Some q \<and> player_id q \<noteq> player_id p \<and>
        (eVID (plEntity q) = eVID (plEntity p) \<or> eName (plEntity q) = eName (plEntity p)))"
    unfolding player_clash_def using er_identities(1) [OF ok] by metis
  then show ?thesis
    by (auto simp: playerIdentityConflicts_def or_else_def found_exact [OF ok])
qed

lemma playerVisibilityVIDConflictsWithStaticActor_exact:
  assumes ok: "er_ok r"
  shows "playerVisibilityVIDConflictsWithStaticActor p r =
    (r, er_statics r (ucast (eVID (plEntity p))) \<noteq> None \<and> ucast (eVID (plEntity p)) \<noteq> player_id p)"
  using er_identities(2) [OF ok, of "ucast (eVID (plEntity p))"]
  by (auto simp: playerVisibilityVIDConflictsWithStaticActor_def or_else_def found_exact [OF ok])

lemma staticActorVisibilityVIDConflictsWithPlayer_exact:
  assumes ok: "er_ok r"
  shows "staticActorVisibilityVIDConflictsWithPlayer a r =
    (r, \<exists>j p. er_players r j = Some p \<and> StaticActorVisibilityVID a = Some (eVID (plEntity p)) \<and> j \<noteq> actor_id a)"
proof (cases "StaticActorVisibilityVID a")
  case (Some vid)
  have "(\<exists>j p. er_players r j = Some p \<and> eVID (plEntity p) = vid \<and> player_id p \<noteq> actor_id a) \<longleftrightarrow>
      (\<exists>j p. er_players r j = Some p \<and> vid = eVID (plEntity p) \<and> j \<noteq> actor_id a)"
    using er_identities(1) [OF ok] by metis
  with Some show ?thesis
    by (simp add: staticActorVisibilityVIDConflictsWithPlayer_def or_else_def found_exact [OF ok])
qed (simp add: staticActorVisibilityVIDConflictsWithPlayer_def)

section \<open>Storing in both places\<close>

definition er_put_player :: "entity_registry \<Rightarrow> player_entity \<Rightarrow> entity_registry" where
  "er_put_player r p =
     r\<lparr>erPlayers := pd_store (pd_removeSecondaryIndexes (erPlayers r) (player_id p)) p,
       erMaps := (erMaps r)\<lparr>miPlayers := occupy player_id (player_map (erTopology r)) clonePlayerEntity p (miPlayers (erMaps r))\<rparr>\<rparr>"

definition er_put_static :: "entity_registry \<Rightarrow> static_entity \<Rightarrow> entity_registry" where
  "er_put_static r a =
     r\<lparr>erStatics := np_store (removeVisibilityVIDsForEntityID (erStatics r) (actor_id a)) a,
       erMaps := (erMaps r)\<lparr>miStatics := occupy actor_id (actor_map (erTopology r)) cloneStaticEntity a (miStatics (erMaps r))\<rparr>\<rparr>"

lemma er_put_player_fields [simp]:
  "er_players (er_put_player r p) = (er_players r)(player_id p \<mapsto> p)"
  "er_statics (er_put_player r p) = er_statics r"
  "erNextID (er_put_player r p) = erNextID r" "erTopology (er_put_player r p) = erTopology r"
  by (simp_all add: er_put_player_def occupy_fields)

lemma er_put_static_fields [simp]:
  "er_statics (er_put_static r a) = (er_statics r)(actor_id a \<mapsto> cloneStaticEntity a)"
  "er_players (er_put_static r a) = er_players r"
  "erNextID (er_put_static r a) = erNextID r" "erTopology (er_put_static r a) = erTopology r"
  by (simp_all add: er_put_static_def occupy_fields)

definition player_fits :: "entity_registry \<Rightarrow> player_entity \<Rightarrow> bool" where
  "player_fits r p \<longleftrightarrow>
     validPlayerDirectoryEntity p \<and> er_statics r (player_id p) = None \<and>
     (\<forall>j q. er_players r j = Some q \<longrightarrow> j \<noteq> player_id p \<longrightarrow> \<not> player_clash q p) \<and>
     er_statics r (ucast (eVID (plEntity p))) = None"

lemma no_static_has:
  assumes ok: "er_ok r" and n: "er_statics r (ucast vid) = None"
  shows "\<forall>j a. er_statics r j = Some a \<longrightarrow> StaticActorVisibilityVID a \<noteq> Some vid"
proof (intro allI impI notI)
  fix j a assume a: "er_statics r j = Some a" "StaticActorVisibilityVID a = Some vid"
  with er_identities(2) [OF ok a(1)] have "vid = ucast j" "ucast vid = j" by auto
  with n a show False by simp
qed

lemma er_put_player_ok:
  assumes ok: "er_ok r" and fits: "player_fits r p" and k: "player_id p \<le> erNextID r"
  shows "er_ok (er_put_player r p)"
proof -
  note d = er_okD [OF ok] and f = fits [unfolded player_fits_def]
  have "pd_ok (erPlayers (er_put_player r p))"
    using pd_store_ok [OF d(1), of p] f d(4) by (simp add: er_put_player_def)
  moreover have "mi_ok (erMaps (er_put_player r p))"
    using store_player_ok [OF d(3), of p] f no_static_has [OF ok] d(6) by (simp add: er_put_player_def)
  moreover have "pdByEntityID (erPlayers (er_put_player r p)) = er_players (er_put_player r p)"
    by (simp add: d(4)) (simp add: er_put_player_def d(4))
  moreover have "npByEntityID (erStatics (er_put_player r p)) = er_statics (er_put_player r p)" "np_ok (erStatics (er_put_player r p))"
    "miTopology (erMaps (er_put_player r p)) = erTopology (er_put_player r p)"
    using d by (simp_all add: er_put_player_def)
  moreover have "i \<le> erNextID r" if "er_players (er_put_player r p) i \<noteq> None \<or> er_statics (er_put_player r p) i \<noteq> None" for i
    using that d(7,8) [of i] k by (auto split: if_split_asm)
  ultimately show ?thesis using d(9) by (simp add: er_ok_def del: er_put_player_fields(1)) 
qed

definition actor_fits :: "entity_registry \<Rightarrow> static_entity \<Rightarrow> bool" where
  "actor_fits r a \<longleftrightarrow>
     StaticActorVisibilityVID a = Some (ucast (actor_id a)) \<and> actor_id a \<noteq> 0 \<and> normalizeStaticEntityCombat a = a \<and>
     er_players r (actor_id a) = None \<and>
     (\<forall>j p. er_players r j = Some p \<longrightarrow> eVID (plEntity p) \<noteq> ucast (actor_id a))"

lemma actor_clash_id:
  "StaticActorVisibilityVID a = Some (ucast (actor_id a)) \<Longrightarrow> actor_clash x a \<Longrightarrow> actor_id x = actor_id a"
  unfolding actor_clash_def by (metis StaticActorVisibilityVID_inj)

lemma no_actor_clash:
  assumes ok: "er_ok r" and v: "StaticActorVisibilityVID a = Some (ucast (actor_id a))"
  shows "\<forall>j x. npByEntityID (erStatics r) j = Some x \<longrightarrow> j \<noteq> actor_id a \<longrightarrow> \<not> actor_clash x a"
proof (intro allI impI notI)
  fix j x assume "npByEntityID (erStatics r) j = Some x" "j \<noteq> actor_id a" "actor_clash x a"
  then have "er_statics r j = Some x" "actor_id x \<noteq> j"
    using actor_clash_id [OF v, of x] by (simp_all add: er_okD(5) [OF ok])
  with er_identities(2) [OF ok] show False by blast
qed

lemma er_put_static_ok:
  assumes ok: "er_ok r" and fits: "actor_fits r a" and k: "actor_id a \<le> erNextID r"
  shows "er_ok (er_put_static r a)"
proof -
  note d = er_okD [OF ok] and f = fits [unfolded actor_fits_def]
  have "np_ok (erStatics (er_put_static r a))"
    using np_store_ok [OF d(2), of a] f no_actor_clash [OF ok, of a] by (simp add: er_put_static_def)
  moreover
  have c: "\<forall>j p. er_players r j = Some p \<longrightarrow> StaticActorVisibilityVID a \<noteq> Some (eVID (plEntity p))"
    using f by (metis option.inject)
  have "mi_ok (erMaps (er_put_static r a))"
    using store_static_ok [OF d(3) _ _ _ c] f d(6) by (simp add: er_put_static_def)
  moreover have "npByEntityID (erStatics (er_put_static r a)) = er_statics (er_put_static r a)"
    by (simp add: d(5)) (simp add: er_put_static_def d(5))
  moreover have "pdByEntityID (erPlayers (er_put_static r a)) = er_players (er_put_static r a)" "pd_ok (erPlayers (er_put_static r a))"
    "miTopology (erMaps (er_put_static r a)) = erTopology (er_put_static r a)"
    using d by (simp_all add: er_put_static_def)
  moreover have "i \<le> erNextID r" if "er_players (er_put_static r a) i \<noteq> None \<or> er_statics (er_put_static r a) i \<noteq> None" for i
    using that d(7,8) [of i] k by (auto split: if_split_asm)
  moreover have "normalizeStaticEntityCombat b = b" if "er_statics (er_put_static r a) i = Some b" for i b
    using that d(9) f by (auto simp: normalize_clone split: if_split_asm)
  ultimately show ?thesis by (simp add: er_ok_def del: er_put_static_fields(1))
qed

lemma er_next_ok: "er_ok r \<Longrightarrow> erNextID r \<le> n \<Longrightarrow> er_ok (r\<lparr>erNextID := n\<rparr>)"
  unfolding er_ok_def by (auto intro: order_trans)

section \<open>Each command in one equation\<close>

lemma registered_fields [simp]:
  "player_id (newPlayerEntity i c) = i" "eVID (plEntity (newPlayerEntity i c)) = cVID c"
  "plCharacter (newPlayerEntity i c) = c" "eName (plEntity (newPlayerEntity i c)) = cName c"
  by (simp_all add: newPlayerEntity_def)

lemma players_edit:
  assumes ok: "er_ok r" and fits: "player_fits r p"
  shows "er_players r (player_id p) = None \<Longrightarrow>
      players_Register p r = (r\<lparr>erPlayers := pd_store (pd_removeSecondaryIndexes (erPlayers r) (player_id p)) p\<rparr>, True)"
    and "er_players r (player_id p) \<noteq> None \<Longrightarrow>
      players_Update p r = (r\<lparr>erPlayers := pd_store (pd_removeSecondaryIndexes (erPlayers r) (player_id p)) p\<rparr>, True)"
  using fits
  by (simp_all add: players_Register_def players_Update_def PlayerDirectory_Register_exact [OF er_okD(1) [OF ok]]
      PlayerDirectory_Update_exact [OF er_okD(1) [OF ok]] er_okD(4) [OF ok] player_fits_def)

lemma maps_edit_player:
  assumes ok: "er_ok r" and fits: "player_fits r p"
  shows "er_players r (player_id p) = None \<Longrightarrow> on_maps (\<lambda>m. MapIndex_Register m p) (r\<lparr>erPlayers := d\<rparr>) =
      ((er_put_player r p)\<lparr>erPlayers := d\<rparr>, True)"
    and "er_players r (player_id p) \<noteq> None \<Longrightarrow> on_maps (\<lambda>m. MapIndex_Update m p) (r\<lparr>erPlayers := d\<rparr>) =
      ((er_put_player r p)\<lparr>erPlayers := d\<rparr>, True)"
  using fits no_static_has [OF ok]
  by (simp_all add: on_maps_def MapIndex_Register_exact [OF er_okD(3) [OF ok]]
      MapIndex_Update_exact [OF er_okD(3) [OF ok]] er_okD(6) [OF ok] player_fits_def er_put_player_def)

lemma next_greater: "n + 1 \<noteq> 0 \<Longrightarrow> n < n + 1" for n :: u64
  using unatSuc [of n] by (simp add: word_less_nat_alt add.commute)

lemma next_fresh:
  assumes ok: "er_ok r" and n: "erNextID r + 1 \<noteq> 0"
  shows "er_players r (erNextID r + 1) = None" "er_statics r (erNextID r + 1) = None"
proof -
  have "\<not> erNextID r + 1 \<le> erNextID r" using next_greater [OF n] by simp
  then show "er_players r (erNextID r + 1) = None" "er_statics r (erNextID r + 1) = None"
    using er_okD(7,8) [OF ok, of "erNextID r + 1"] by blast+
qed

text \<open>Registering a player: the next identifier, unless the identifiers are used up or someone has the name or the VID.\<close>

lemma EntityRegistry_RegisterPlayer_exact:
  assumes ok: "er_ok r"
  shows "EntityRegistry_RegisterPlayer r c =
    (let p = newPlayerEntity (erNextID r + 1) c in
     if player_fits r p then ((er_put_player r p)\<lparr>erNextID := player_id p\<rparr>, Some p) else (r, None))"
proof -
  let ?i = "erNextID r + 1" and ?p = "newPlayerEntity (erNextID r + 1) c"
  have "or_else (entityIDOwnedByStaticActor ?i)
      (or_else (playerIdentityConflicts ?p)
      (or_else (found_such (statics_ByVID (cVID c)) (\<lambda>a. True))
        (found_such (on_maps (\<lambda>m. MapIndex_StaticActor m (ucast (cVID c)))) (\<lambda>a. StaticActorVisibilityVID a = Some (cVID c))))) r =
    (r, ?i = 0 \<or> er_statics r ?i \<noteq> None \<or> (\<exists>j q. er_players r j = Some q \<and> j \<noteq> ?i \<and> player_clash q ?p) \<or>
      er_statics r (ucast (cVID c)) \<noteq> None)" (is "_ = (r, ?conflict)")
    by (auto simp: or_else_def owned_exact [OF ok] playerIdentityConflicts_exact [OF ok] found_exact [OF ok])
  moreover have "player_fits r ?p \<longleftrightarrow> \<not> ?conflict \<and> validPlayerDirectoryEntity ?p"
    by (auto simp: player_fits_def validPlayerDirectoryEntity_def)
  moreover have "players_Register ?p r = (r, False)" if "\<not> validPlayerDirectoryEntity ?p"
    using that by (simp add: players_Register_def PlayerDirectory_Register_def)
  moreover have "er_players r ?i = None" if "?i \<noteq> 0" by (rule next_fresh(1) [OF ok that])
  ultimately show ?thesis
    using players_edit(1) [OF ok, of ?p] maps_edit_player(1) [OF ok, of ?p]
    by (auto simp: EntityRegistry_RegisterPlayer_def Let_def er_put_player_def)
qed

lemma EntityRegistry_UpdatePlayer_exact:
  assumes ok: "er_ok r"
  shows "EntityRegistry_UpdatePlayer r i c =
    (let p = newPlayerEntity i c in
     if er_players r i \<noteq> None \<and> player_fits r p then (er_put_player r p, True) else (r, False))"
proof (cases "er_players r i")
  case None
  then show ?thesis by (simp add: EntityRegistry_UpdatePlayer_def Let_def part_lookups [OF ok])
next
  case (Some previous)
  let ?p = "newPlayerEntity i c"
  have i: "i \<noteq> 0" "er_statics r i = None" using er_identities(1,3) [OF ok Some] by auto
  have checks: "or_else (entityIDOwnedByStaticActor i)
      (or_else (playerIdentityConflicts ?p)
      (or_else (found_such (statics_ByVID (cVID c)) (\<lambda>a. actor_id a \<noteq> i))
        (found_such (on_maps (\<lambda>m. MapIndex_StaticActor m (ucast (cVID c))))
          (\<lambda>a. StaticActorVisibilityVID a = Some (cVID c) \<and> actor_id a \<noteq> i)))) r =
    (r, (\<exists>j q. er_players r j = Some q \<and> j \<noteq> i \<and> player_clash q ?p) \<or> er_statics r (ucast (cVID c)) \<noteq> None)"
    (is "?checks = (r, ?conflict)")
    using i er_identities(2) [OF ok, of "ucast (cVID c)"]
    by (auto simp: or_else_def owned_exact [OF ok] playerIdentityConflicts_exact [OF ok] found_exact [OF ok])
  have fits: "player_fits r ?p \<longleftrightarrow> \<not> ?conflict \<and> validPlayerDirectoryEntity ?p"
    using i by (auto simp: player_fits_def)
  have refused: "players_Update ?p r = (r, False)" if "\<not> validPlayerDirectoryEntity ?p"
    using that by (simp add: players_Update_def PlayerDirectory_Update_def)
  show ?thesis
  proof (cases "player_fits r ?p")
    case True
    have "or_else (on_maps (\<lambda>m. MapIndex_Update m ?p)) g (r\<lparr>erPlayers := d\<rparr>) = ((er_put_player r ?p)\<lparr>erPlayers := d\<rparr>, True)" for g d
      using Some by (simp add: or_else_def maps_edit_player(2) [OF ok True])
    with True show ?thesis
      using Some i fits players_edit(2) [OF ok True]
      by (simp add: EntityRegistry_UpdatePlayer_def Let_def part_lookups [OF ok] checks) (simp add: er_put_player_def)
  next
    case False
    then show ?thesis
      using Some i fits refused by (auto simp: EntityRegistry_UpdatePlayer_def Let_def part_lookups [OF ok] checks)
  qed
qed

lemma part_removals:
  assumes ok: "er_ok r"
  shows "er_ok (r\<lparr>erPlayers := fst (PlayerDirectory_Remove (erPlayers r) i), erMaps := fst (MapIndex_Remove (erMaps r) i)\<rparr>)"
    and "er_ok (r\<lparr>erStatics := fst (NonPlayerDirectory_Remove (erStatics r) i), erMaps := fst (MapIndex_RemoveStatic (erMaps r) i)\<rparr>)"
  using er_okD [OF ok] PlayerDirectory_Remove_exact [OF er_okD(1) [OF ok], of i]
    NonPlayerDirectory_Remove_exact [OF er_okD(2) [OF ok], of i]
    MapIndex_Remove_exact [OF er_okD(3) [OF ok], of i] MapIndex_RemoveStatic_exact [OF er_okD(3) [OF ok], of i]
  by (simp_all add: er_ok_def)

lemma EntityRegistry_Remove_exact:
  assumes ok: "er_ok r"
  shows "er_ok (fst (EntityRegistry_Remove r i))"
    and "er_players (fst (EntityRegistry_Remove r i)) = (er_players r)(i := None)"
    and "er_statics (fst (EntityRegistry_Remove r i)) = er_statics r"
    and "erNextID (fst (EntityRegistry_Remove r i)) = erNextID r" "erTopology (fst (EntityRegistry_Remove r i)) = erTopology r"
    and "snd (EntityRegistry_Remove r i) = er_players r i"
proof -
  note m = MapIndex_Remove_exact [OF er_okD(3) [OF ok], of i]
  let ?r = "r\<lparr>erPlayers := fst (PlayerDirectory_Remove (erPlayers r) i), erMaps := fst (MapIndex_Remove (erMaps r) i)\<rparr>"
  have r: "EntityRegistry_Remove r i = (if er_players r i = None then (fst (EntityRegistry_Remove r i), None) else (?r, er_players r i))"
    and n: "er_players r i = None \<Longrightarrow> fst (EntityRegistry_Remove r i) = r \<or> fst (EntityRegistry_Remove r i) = r\<lparr>erMaps := fst (MapIndex_Remove (erMaps r) i)\<rparr>"
    using er_identities(1) [OF ok, of i] m(5)
    by (auto simp: EntityRegistry_Remove_def part_lookups [OF ok] Let_def on_maps_def players_Remove_def
        split: option.splits prod.splits)
  have k: "er_ok (r\<lparr>erMaps := fst (MapIndex_Remove (erMaps r) i)\<rparr>)" if "er_players r i = None"
  proof -
    have "(er_players r)(i := None) = er_players r" using that by auto
    then show ?thesis using er_okD [OF ok] m by (simp add: er_ok_def)
  qed
  have e: "(er_players r)(i := None) = er_players r" if "er_players r i = None" using that by auto
  show "er_ok (fst (EntityRegistry_Remove r i))"
    using part_removals(1) [OF ok, of i] n k ok by (subst r) auto
  show "er_players (fst (EntityRegistry_Remove r i)) = (er_players r)(i := None)"
    using n m(2) e by (subst r) auto
  show "er_statics (fst (EntityRegistry_Remove r i)) = er_statics r" using n m(3) by (subst r) auto
  show "erNextID (fst (EntityRegistry_Remove r i)) = erNextID r" "erTopology (fst (EntityRegistry_Remove r i)) = erTopology r"
    using n by (subst r; auto)+
  show "snd (EntityRegistry_Remove r i) = er_players r i" by (subst r) simp
qed

lemma newStaticEntity_fields [simp]:
  "actor_id (newStaticEntity i a) = i" "cloneStaticEntity (newStaticEntity i a) = newStaticEntity i a"
  "normalizeStaticEntityCombat (newStaticEntity i a) = newStaticEntity i a"
  by (simp_all add: newStaticEntity_def Let_def cloneStaticEntity_def)
    (simp add: normalizeStaticEntityCombat_def Let_def zero_position_def)

lemma statics_edit:
  assumes ok: "er_ok r" and n: "normalizeStaticEntityCombat a = a" and v: "validStaticEntity reg a"
  shows "er_statics r (actor_id a) = None \<Longrightarrow>
      statics_Register reg a r = (r\<lparr>erStatics := np_store (removeVisibilityVIDsForEntityID (erStatics r) (actor_id a)) a\<rparr>, True)"
    and "er_statics r (actor_id a) \<noteq> None \<Longrightarrow>
      statics_Update reg a r = (r\<lparr>erStatics := np_store (removeVisibilityVIDsForEntityID (erStatics r) (actor_id a)) a\<rparr>, True)"
  using v no_actor_clash [OF ok valid_visible [OF v]]
  by (simp_all add: statics_Register_def statics_Update_def NonPlayerDirectory_Register_exact [OF er_okD(2) [OF ok]]
      NonPlayerDirectory_Update_exact [OF er_okD(2) [OF ok]] Let_def n er_okD(5) [OF ok])

lemma maps_edit_static:
  assumes ok: "er_ok r" and v: "validStaticEntity reg a" and fits: "actor_fits r a"
  shows "er_statics r (actor_id a) = None \<Longrightarrow> on_maps (\<lambda>m. MapIndex_RegisterStatic reg m a) (r\<lparr>erStatics := d\<rparr>) =
      ((er_put_static r a)\<lparr>erStatics := d\<rparr>, True)"
    and "er_statics r (actor_id a) \<noteq> None \<Longrightarrow> on_maps (\<lambda>m. MapIndex_UpdateStatic reg m a) (r\<lparr>erStatics := d\<rparr>) =
      ((er_put_static r a)\<lparr>erStatics := d\<rparr>, True)"
proof -
  have c: "\<forall>j p. er_players r j = Some p \<longrightarrow> ucast (actor_id a) \<noteq> eVID (plEntity p)"
    using fits unfolding actor_fits_def by metis
  show "er_statics r (actor_id a) = None \<Longrightarrow> on_maps (\<lambda>m. MapIndex_RegisterStatic reg m a) (r\<lparr>erStatics := d\<rparr>) =
      ((er_put_static r a)\<lparr>erStatics := d\<rparr>, True)"
    "er_statics r (actor_id a) \<noteq> None \<Longrightarrow> on_maps (\<lambda>m. MapIndex_UpdateStatic reg m a) (r\<lparr>erStatics := d\<rparr>) =
      ((er_put_static r a)\<lparr>erStatics := d\<rparr>, True)"
    using fits v c
    by (simp_all add: on_maps_def MapIndex_RegisterStatic_exact [OF er_okD(3) [OF ok]] Let_def
        MapIndex_UpdateStatic_exact [OF er_okD(3) [OF ok]] er_okD(6) [OF ok] actor_fits_def er_put_static_def)
qed

lemma actor_conflict_exact:
  assumes ok: "er_ok r" and v: "StaticActorVisibilityVID a = Some (ucast (actor_id a))" "normalizeStaticEntityCombat a = a"
  shows "or_else (entityIDOwnedByPlayer (actor_id a)) (staticActorVisibilityVIDConflictsWithPlayer a) r =
    (r, \<not> actor_fits r a)"
proof -
  have "(\<exists>j p. er_players r j = Some p \<and> ucast (actor_id a) = eVID (plEntity p) \<and> j \<noteq> actor_id a) \<longleftrightarrow>
      (\<exists>j p. er_players r j = Some p \<and> eVID (plEntity p) = ucast (actor_id a))"
    if "er_players r (actor_id a) = None"
    using that by (metis option.distinct(1))
  then show ?thesis
    using v by (auto simp: or_else_def owned_exact [OF ok] staticActorVisibilityVIDConflictsWithPlayer_exact [OF ok] actor_fits_def)
qed

text \<open>An invalid actor is refused by the directory, if not before, and nothing changes.\<close>

lemma actor_conflict_pure:
  "er_ok r \<Longrightarrow> \<exists>b. or_else (entityIDOwnedByPlayer i) (staticActorVisibilityVIDConflictsWithPlayer a) r = (r, b)"
  by (auto simp: or_else_def owned_exact staticActorVisibilityVIDConflictsWithPlayer_exact)

lemma registerStaticActor_exact:
  assumes ok: "er_ok r"
  shows "registerStaticActor reg r actor =
    (let i = (if actor_id actor = 0 then erNextID r + 1 else actor_id actor); a = newStaticEntity i actor in
     if eVID (aEntity actor) = 0 \<and> validStaticEntity reg a \<and> er_statics r i = None \<and> actor_fits r a
     then ((er_put_static r a)\<lparr>erNextID := max (erNextID r) i\<rparr>, Some a) else (r, None))"
proof -
  define i where "i = (if actor_id actor = 0 then erNextID r + 1 else actor_id actor)"
  let ?a = "newStaticEntity i actor"
  have a: "actor_id ?a = i" "normalizeStaticEntityCombat ?a = ?a" by simp_all
  show ?thesis
  proof (cases "eVID (aEntity actor) = 0 \<and> validStaticEntity reg ?a")
    case True
    then have v: "validStaticEntity reg ?a" by blast
    then have s: "StaticActorVisibilityVID ?a = Some (ucast (actor_id ?a))" by (rule valid_visible)
    note c = actor_conflict_exact [OF ok s a(2)]
    have "statics_Register reg ?a r = (r, False)" if "er_statics r i \<noteq> None"
      using that by (simp add: statics_Register_def NonPlayerDirectory_Register_exact [OF er_okD(2) [OF ok]] er_okD(5) [OF ok] Let_def)
    then show ?thesis
      using True c statics_edit(1) [OF ok a(2) v] maps_edit_static(1) [OF ok v]
      by (auto simp: registerStaticActor_def Let_def i_def [symmetric] er_put_static_def max_def)
  next
    case False
    obtain b where "or_else (entityIDOwnedByPlayer i) (staticActorVisibilityVIDConflictsWithPlayer ?a) r = (r, b)"
      using actor_conflict_pure [OF ok] by blast
    moreover have "statics_Register reg ?a r = (r, False)" if "\<not> validStaticEntity reg ?a"
      using that by (simp add: statics_Register_def NonPlayerDirectory_Register_def Let_def)
    ultimately show ?thesis using False by (auto simp: registerStaticActor_def Let_def i_def [symmetric])
  qed
qed

lemma actor_stays_apart:
  assumes ok: "er_ok r" and a: "er_statics r i = Some a"
  shows "er_players r i = None \<and> (\<forall>j p. er_players r j = Some p \<longrightarrow> eVID (plEntity p) \<noteq> ucast i)"
proof (intro conjI allI impI notI)
  show "er_players r i = None" using er_identities(3) [OF ok, of i] a by (cases "er_players r i") auto
  fix j p assume p: "er_players r j = Some p" "eVID (plEntity p) = ucast i"
  from er_identities(4) [OF ok p(1)] er_identities(2) [OF ok a] a show False unfolding p(2) by simp
qed

lemma EntityRegistry_UpdateStaticActor_exact:
  assumes ok: "er_ok r"
  shows "EntityRegistry_UpdateStaticActor reg r actor =
    (case er_statics r (actor_id actor) of
       None \<Rightarrow> (r, None)
     | Some previous \<Rightarrow>
         let a = newStaticEntity (actor_id actor) (inherit_actor previous actor) in
         if eVID (aEntity actor) = 0 \<and> validStaticEntity reg a then (er_put_static r a, Some a) else (r, None))"
proof (cases "er_statics r (actor_id actor)")
  case None
  then show ?thesis by (simp add: EntityRegistry_UpdateStaticActor_def Let_def part_lookups [OF ok])
next
  case (Some previous)
  let ?i = "actor_id actor"
  let ?a = "newStaticEntity ?i (inherit_actor previous actor)"
  have a: "actor_id ?a = ?i" "normalizeStaticEntityCombat ?a = ?a" by simp_all
  have nz: "?i \<noteq> 0" using er_identities(2) [OF ok Some] by blast
  show ?thesis
  proof (cases "eVID (aEntity actor) = 0 \<and> validStaticEntity reg ?a")
    case True
    then have v: "validStaticEntity reg ?a" by blast
    then have s: "StaticActorVisibilityVID ?a = Some (ucast (actor_id ?a))" by (rule valid_visible)
    have fits: "actor_fits r ?a" using s nz actor_stays_apart [OF ok Some] by (simp add: actor_fits_def)
    note c = actor_conflict_exact [OF ok s a(2)]
    have "or_else (on_maps (\<lambda>m. MapIndex_UpdateStatic reg m ?a)) g (r\<lparr>erStatics := d\<rparr>) =
        ((er_put_static r ?a)\<lparr>erStatics := d\<rparr>, True)" for g d
      using Some by (simp add: or_else_def maps_edit_static(2) [OF ok v fits])
    then show ?thesis
      using True Some nz c fits statics_edit(2) [OF ok a(2) v]
      by (simp add: EntityRegistry_UpdateStaticActor_def Let_def part_lookups [OF ok]) (simp add: er_put_static_def)
  next
    case False
    obtain b where "or_else (entityIDOwnedByPlayer ?i) (staticActorVisibilityVIDConflictsWithPlayer ?a) r = (r, b)"
      using actor_conflict_pure [OF ok] by blast
    moreover have "statics_Update reg ?a r = (r, False)" if "\<not> validStaticEntity reg ?a"
      using that by (simp add: statics_Update_def NonPlayerDirectory_Update_def Let_def)
    ultimately show ?thesis
      using False Some nz by (auto simp: EntityRegistry_UpdateStaticActor_def Let_def part_lookups [OF ok])
  qed
qed

lemma EntityRegistry_RemoveStaticActor_exact:
  assumes ok: "er_ok r"
  shows "er_ok (fst (EntityRegistry_RemoveStaticActor r i))"
    and "er_statics (fst (EntityRegistry_RemoveStaticActor r i)) = (er_statics r)(i := None)"
    and "er_players (fst (EntityRegistry_RemoveStaticActor r i)) = er_players r"
    and "erNextID (fst (EntityRegistry_RemoveStaticActor r i)) = erNextID r"
    and "erTopology (fst (EntityRegistry_RemoveStaticActor r i)) = erTopology r"
    and "snd (EntityRegistry_RemoveStaticActor r i) = er_statics r i"
proof -
  note m = MapIndex_RemoveStatic_exact [OF er_okD(3) [OF ok], of i]
  let ?r = "r\<lparr>erStatics := fst (NonPlayerDirectory_Remove (erStatics r) i), erMaps := fst (MapIndex_RemoveStatic (erMaps r) i)\<rparr>"
  have r: "EntityRegistry_RemoveStaticActor r i =
      (if er_statics r i = None then (fst (EntityRegistry_RemoveStaticActor r i), None) else (?r, er_statics r i))"
    and n: "er_statics r i = None \<Longrightarrow> fst (EntityRegistry_RemoveStaticActor r i) = r \<or>
      fst (EntityRegistry_RemoveStaticActor r i) = r\<lparr>erMaps := fst (MapIndex_RemoveStatic (erMaps r) i)\<rparr>"
    using er_identities(2) [OF ok, of i] m(5)
    by (auto simp: EntityRegistry_RemoveStaticActor_def part_lookups [OF ok] Let_def on_maps_def statics_Remove_def
        split: option.splits prod.splits)
  have e: "(er_statics r)(i := None) = er_statics r" if "er_statics r i = None" using that by auto
  have k: "er_ok (r\<lparr>erMaps := fst (MapIndex_RemoveStatic (erMaps r) i)\<rparr>)" if "er_statics r i = None"
    using er_okD [OF ok] m e [OF that] by (simp add: er_ok_def)
  show "er_ok (fst (EntityRegistry_RemoveStaticActor r i))"
    using part_removals(2) [OF ok, of i] n k ok by (subst r) auto
  show "er_statics (fst (EntityRegistry_RemoveStaticActor r i)) = (er_statics r)(i := None)"
    using n m(2) e by (subst r) auto
  show "er_players (fst (EntityRegistry_RemoveStaticActor r i)) = er_players r" using n m(3) by (subst r) auto
  show "erNextID (fst (EntityRegistry_RemoveStaticActor r i)) = erNextID r"
    "erTopology (fst (EntityRegistry_RemoveStaticActor r i)) = erTopology r"
    using n by (subst r; auto)+
  show "snd (EntityRegistry_RemoveStaticActor r i) = er_statics r i" by (subst r) simp
qed

section \<open>In order, the repairs between the parts change nothing\<close>

lemma occupy_same:
  assumes ok: "side_ok ident place copy s" and e: "ocByEntityID s i = Some e"
  shows "occupy ident place copy e s = s"
proof -
  have "ident e = i" "copy e = e" using ok e by (auto simp: side_ok_def)
  moreover from this e have "(ocByEntityID s)(ident e \<mapsto> copy e) = ocByEntityID s" by auto
  then have "(remove_presence (ident e) s)\<lparr>ocByEntityID := (ocByEntityID s)(ident e \<mapsto> copy e)\<rparr> = remove_presence (ident e) s"
    by (simp add: remove_presence_def)
  moreover have "ocByEntityID (remove_presence (ident e) s) = ocByEntityID s" by (simp add: remove_presence_def)
  ultimately have "occupy ident place copy e s = repair_presence ident place copy e s"
    by (simp add: occupy_def repair_presence_def Let_def)
  then show ?thesis using repair_presence_id [OF ok e] by simp
qed

lemma player_of_registry_fits:
  assumes ok: "er_ok r" and p: "er_players r i = Some p"
  shows "player_fits r p \<and> player_id p = i"
proof -
  note d = er_identities(1,3,4) [OF ok p]
  have "j = i" if q: "er_players r j = Some q" and c: "player_clash q p" for j q
  proof -
    have m: "pdByEntityID (erPlayers r) j = Some q" "pdByEntityID (erPlayers r) i = Some p"
      using p q by (simp_all add: er_okD(4) [OF ok])
    show ?thesis
      using c index_ok_unique [OF pd_okD(1) [OF er_okD(1) [OF ok]] m refl]
        index_ok_unique [OF pd_okD(2) [OF er_okD(1) [OF ok]] m refl]
      unfolding player_clash_def by (metis (no_types))
  qed
  with d show ?thesis unfolding player_fits_def by blast
qed

lemma player_undisputed:
  assumes ok: "er_ok r" and p: "er_players r i = Some p"
  shows "or_else (entityIDOwnedByStaticActor (player_id p)) (playerVisibilityVIDConflictsWithStaticActor p) r = (r, False)"
    and "or_else (entityIDOwnedByStaticActor (player_id p))
      (or_else (playerVisibilityVIDConflictsWithStaticActor p) (playerIdentityConflicts p)) r = (r, False)"
proof -
  note f = player_of_registry_fits [OF ok p]
  have "player_id p \<noteq> 0" using er_identities(1) [OF ok p] by blast
  with f show "or_else (entityIDOwnedByStaticActor (player_id p)) (playerVisibilityVIDConflictsWithStaticActor p) r = (r, False)"
    "or_else (entityIDOwnedByStaticActor (player_id p))
      (or_else (playerVisibilityVIDConflictsWithStaticActor p) (playerIdentityConflicts p)) r = (r, False)"
    by (auto simp: or_else_def owned_exact [OF ok] playerVisibilityVIDConflictsWithStaticActor_exact [OF ok]
        playerIdentityConflicts_exact [OF ok] player_fits_def)
qed

lemma actor_undisputed:
  assumes ok: "er_ok r" and a: "er_statics r i = Some a"
  shows "or_else (entityIDOwnedByPlayer (actor_id a)) (staticActorVisibilityVIDConflictsWithPlayer a) r = (r, False)"
proof -
  note d = er_identities(2) [OF ok a]
  have "actor_fits r a" using d actor_stays_apart [OF ok a] er_okD(9) [OF ok a] by (simp add: actor_fits_def)
  then show ?thesis using actor_conflict_exact [OF ok, of a] d er_okD(9) [OF ok a] by simp
qed

lemma repair_map_player_id:
  assumes ok: "er_ok r" and p: "er_players r i = Some p"
  shows "repair_map_player r p = r"
proof -
  note f = player_of_registry_fits [OF ok p]
  have "MapIndex_Update (erMaps r) p = (erMaps r, True)"
    using f p no_static_has [OF ok] occupy_same [OF mi_okD(1) [OF er_okD(3) [OF ok]] p]
    by (simp add: MapIndex_Update_exact [OF er_okD(3) [OF ok]] player_fits_def)
  then show ?thesis
    by (simp add: repair_map_player_def player_undisputed [OF ok p] on_maps_def)
qed

lemma repair_map_static_id:
  assumes ok: "er_ok r" and a: "er_statics r i = Some a"
  shows "repair_map_static reg r a = r"
proof -
  note d = er_identities(2) [OF ok a] and m = er_okD(3) [OF ok]
  have c: "\<forall>j p. er_players r j = Some p \<longrightarrow> StaticActorVisibilityVID a \<noteq> Some (eVID (plEntity p))"
    using d actor_stays_apart [OF ok a] by (metis option.inject)
  have "MapIndex_UpdateStatic reg (erMaps r) a = (erMaps r, validStaticEntity reg a)"
    using d a er_okD(9) [OF ok a] c occupy_same [OF mi_okD(2) [OF m] a]
    by (simp add: MapIndex_UpdateStatic_exact [OF m] Let_def)
  moreover have "MapIndex_RegisterStatic reg (erMaps r) a = (erMaps r, False)"
    using d a by (simp add: MapIndex_RegisterStatic_exact [OF m] Let_def)
  ultimately show ?thesis by (simp add: repair_map_static_def actor_undisputed [OF ok a] on_maps_def)
qed

lemma directory_lists:
  assumes ok: "er_ok r"
  shows "PlayerDirectory_playerEntities (erPlayers r) = sortPlayerEntities (map_values (er_players r))"
    and "NonPlayerDirectory_StaticActors (erStatics r) = sortStaticEntities (map_values (er_statics r))"
    and "p \<in> set (sortPlayerEntities (map_values (er_players r))) \<longleftrightarrow> er_players r (player_id p) = Some p"
    and "a \<in> set (sortStaticEntities (map_values (er_statics r))) \<longleftrightarrow> er_statics r (actor_id a) = Some a"
  using player_values [OF er_okD(3) [OF ok], of p] actor_values [OF er_okD(3) [OF ok], of a]
    clone_actors [OF er_okD(3) [OF ok] order_refl]
  by (simp_all add: PlayerDirectory_playerEntities_def NonPlayerDirectory_StaticActors_def er_okD(4,5) [OF ok]
      clonePlayerEntity_id [abs_def] sortPlayerEntities_def sortStaticEntities_def)

lemma repairMapIndexFromDirectories_id:
  assumes ok: "er_ok r" shows "repairMapIndexFromDirectories reg r = r"
proof -
  have "foldl repair_map_player r (sortPlayerEntities (map_values (er_players r))) = r"
    by (rule foldl_fixed) (use directory_lists(3) [OF ok] repair_map_player_id [OF ok] in blast)
  moreover have "foldl (repair_map_static reg) r (sortStaticEntities (map_values (er_statics r))) = r"
    by (rule foldl_fixed) (use directory_lists(4) [OF ok] repair_map_static_id [OF ok] in blast)
  ultimately show ?thesis by (simp add: repairMapIndexFromDirectories_def Let_def directory_lists [OF ok])
qed

lemma undisputed_players_all:
  assumes ok: "er_ok r"
  shows "\<forall>p \<in> set ps. er_players r (player_id p) = Some p \<Longrightarrow> undisputed_players ps r = (r, ps)"
proof (induction ps)
  case (Cons p ps)
  then have "er_players r (player_id p) = Some p" by simp
  from player_undisputed(1) [OF ok this] Cons show ?case by simp
qed simp

lemma undisputed_actors_all:
  assumes ok: "er_ok r"
  shows "\<forall>a \<in> set as. er_statics r (actor_id a) = Some a \<Longrightarrow> undisputed_actors as r = (r, as)"
proof (induction as)
  case (Cons a as)
  then have "er_statics r (actor_id a) = Some a" by simp
  from actor_undisputed [OF ok this] Cons show ?case by simp
qed simp

lemma nobody_adopted:
  "player_id ` set ps \<subseteq> known \<Longrightarrow> adopted_players known ps r = (r, [])"
  "actor_id ` set as \<subseteq> known \<Longrightarrow> adopted_actors reg known as r = (r, [])"
  by (induction ps; simp) (induction as; simp)

text \<open>The lists of the registry are those of the map index, and asking for them changes nothing.\<close>

lemma EntityRegistry_lists_exact:
  assumes ok: "er_ok r"
  shows "EntityRegistry_PlayerCharacters r = (r, sortCharacters (map plCharacter (sortPlayerEntities (map_values (er_players r)))))"
    and "EntityRegistry_AllStaticActors reg r = (r, sortStaticEntities (map_values (er_statics r)))"
    and "EntityRegistry_MapCharacters reg r k =
      (r, sortCharacters (map plCharacter (players_on (erMaps r) (EffectiveMapIndex (erTopology r) (zero_character\<lparr>cMapIndex := k\<rparr>)))))"
    and "EntityRegistry_StaticActors reg r k =
      (r, sortStaticEntities (statics_on (erMaps r) (EffectiveMapIndex (erTopology r) (zero_character\<lparr>cMapIndex := k\<rparr>))))"
    and "EntityRegistry_MapOccupancy reg r = on_maps MapIndex_Snapshot r"
proof -
  note m = er_okD(3) [OF ok] and l = directory_lists [OF ok]
  have "undisputed_players (sortPlayerEntities (map_values (er_players r))) r = (r, sortPlayerEntities (map_values (er_players r)))"
    by (rule undisputed_players_all [OF ok]) (simp add: l(3))
  moreover have "adopted_players (player_id ` set (sortPlayerEntities (map_values (er_players r))))
      (sortPlayerEntities (map_values (er_players r))) r = (r, [])"
    by (rule nobody_adopted) simp
  ultimately show "EntityRegistry_PlayerCharacters r =
      (r, sortCharacters (map plCharacter (sortPlayerEntities (map_values (er_players r)))))"
    by (simp add: EntityRegistry_PlayerCharacters_def l on_maps_def MapIndex_AllPlayers_exact [OF m])
  have "undisputed_actors (sortStaticEntities (map_values (er_statics r))) r = (r, sortStaticEntities (map_values (er_statics r)))"
    by (rule undisputed_actors_all [OF ok]) (simp add: l(4))
  moreover have "adopted_actors reg (actor_id ` set (sortStaticEntities (map_values (er_statics r))))
      (sortStaticEntities (map_values (er_statics r))) r = (r, [])"
    by (rule nobody_adopted) simp
  moreover have "sortStaticEntities (sortStaticEntities as) = sortStaticEntities as" for as
    by (simp add: sortStaticEntities_def sort_key_id_if_sorted)
  ultimately show "EntityRegistry_AllStaticActors reg r = (r, sortStaticEntities (map_values (er_statics r)))"
    by (simp add: EntityRegistry_AllStaticActors_def l on_maps_def MapIndex_AllStaticActors_exact [OF m])
  show "EntityRegistry_MapCharacters reg r k =
      (r, sortCharacters (map plCharacter (players_on (erMaps r) (EffectiveMapIndex (erTopology r) (zero_character\<lparr>cMapIndex := k\<rparr>)))))"
    "EntityRegistry_StaticActors reg r k =
      (r, sortStaticEntities (statics_on (erMaps r) (EffectiveMapIndex (erTopology r) (zero_character\<lparr>cMapIndex := k\<rparr>))))"
    by (simp_all add: EntityRegistry_MapCharacters_def EntityRegistry_StaticActors_def repairMapIndexFromDirectories_id [OF ok]
        on_maps_def MapIndex_PlayerCharacters_exact [OF m] MapIndex_StaticActors_exact [OF m] er_okD(6) [OF ok])
  show "EntityRegistry_MapOccupancy reg r = on_maps MapIndex_Snapshot r"
    by (simp add: EntityRegistry_MapOccupancy_def repairMapIndexFromDirectories_id [OF ok])
qed

text \<open>So are its lookups.\<close>

lemma EntityRegistry_lookups_exact:
  assumes ok: "er_ok r"
  shows "EntityRegistry_Player r i = (r, er_players r i)"
    and "EntityRegistry_PlayerByVID r vid = (r, er_by (\<lambda>p. eVID (plEntity p)) r vid)"
    and "EntityRegistry_PlayerByName r name = (r, er_by (\<lambda>p. eName (plEntity p)) r name)"
    and "EntityRegistry_StaticActor reg r i = (r, er_statics r i)"
    and "EntityRegistry_StaticActorByVID reg r vid = (r, er_statics r (ucast vid))"
proof -
  have pb: "player_by f g r = (r, x)" if "f r = (r, x)" "on_maps g r = (r, x)" "\<forall>p. x = Some p \<longrightarrow> (\<exists>i. er_players r i = Some p)" for f g x
    using that player_undisputed(1) [OF ok] by (cases x) (auto simp: player_by_def)
  have nzp: "er_players r 0 = None" using er_identities(1) [OF ok, of 0] by (cases "er_players r 0") auto
  have nzs: "er_statics r 0 = None" using er_identities(2) [OF ok, of 0] by (cases "er_statics r 0") auto
  show "EntityRegistry_Player r i = (r, er_players r i)"
    using nzp by (auto simp: EntityRegistry_Player_def part_lookups [OF ok] split: option.split)
  have "er_by (\<lambda>p. eVID (plEntity p)) r 0 \<noteq> Some p" "er_by (\<lambda>p. eName (plEntity p)) r [] \<noteq> Some p" for p
    unfolding er_by_iff [OF ok] using er_identities(1) [OF ok, of _ p]
    by (auto simp: validPlayerDirectoryEntity_def ValidPlayerName_def)
  then have none: "er_by (\<lambda>p. eVID (plEntity p)) r 0 = None" "er_by (\<lambda>p. eName (plEntity p)) r [] = None"
    by (metis not_None_eq)+
  show "EntityRegistry_PlayerByVID r vid = (r, er_by (\<lambda>p. eVID (plEntity p)) r vid)"
    using none by (auto simp: EntityRegistry_PlayerByVID_def er_by_iff [OF ok] part_lookups [OF ok] intro!: pb)
  show "EntityRegistry_PlayerByName r name = (r, er_by (\<lambda>p. eName (plEntity p)) r name)"
    using none by (auto simp: EntityRegistry_PlayerByName_def er_by_iff [OF ok] part_lookups [OF ok] intro!: pb)
  have s: "staticActorVisibilityVIDConflictsWithPlayer a r = (r, False)" if "er_statics r i = Some a" for i a
    using actor_undisputed [OF ok that] er_identities(2) [OF ok that] actor_stays_apart [OF ok that]
    by (simp add: or_else_def owned_exact [OF ok] staticActorVisibilityVIDConflictsWithPlayer_exact [OF ok])
  show "EntityRegistry_StaticActor reg r i = (r, er_statics r i)"
    using nzs s by (auto simp: EntityRegistry_StaticActor_def part_lookups [OF ok] split: option.split)
  show "EntityRegistry_StaticActorByVID reg r vid = (r, er_statics r (ucast vid))"
    using nzs actor_undisputed [OF ok]
    by (auto simp: EntityRegistry_StaticActorByVID_def part_lookups [OF ok] split: option.split)
qed

end
