(* ===== verification/World_Scopes.thy ===== *)
theory World_Scopes
  imports World_Snapshots World_Registry_Facts
begin

text \<open>
  Who is reached (\<open>internal/worldruntime/scopes.go\<close>): the targets of chat and of visible events, the
  visible actors and ground items, the occupancy of the maps, and the preview of a relocation. A
  \<open>Scopes\<close> is a topology and a registry that may be \<open>nil\<close>; a question to the registry may
  repair one of its indexes, so every operation returns the scopes.
\<close>

record scopes =
  scTopology :: topology
  scEntities :: "entity_registry option"

definition NewScopes :: "topology \<Rightarrow> entity_registry option \<Rightarrow> scopes" where
  "NewScopes t entities = \<lparr>scTopology = t, scEntities = entities\<rparr>"

text \<open>A question to the registry, with the answer that is given without one.\<close>

definition asking :: "'a \<Rightarrow> (entity_registry \<Rightarrow> entity_registry \<times> 'a) \<Rightarrow> scopes \<Rightarrow> scopes \<times> 'a" where
  "asking none f s =
     (case scEntities s of
        None \<Rightarrow> (s, none)
      | Some r \<Rightarrow> (let (r, x) = f r in (s\<lparr>scEntities := Some r\<rparr>, x)))"

definition answering :: "('a \<Rightarrow> 'b) \<Rightarrow> ('s \<Rightarrow> 's \<times> 'a) \<Rightarrow> 's \<Rightarrow> 's \<times> 'b" where
  "answering g f s = (let (s, x) = f s in (s, g x))"

definition both :: "('s \<Rightarrow> 's \<times> 'a) \<Rightarrow> ('s \<Rightarrow> 's \<times> 'b) \<Rightarrow> 's \<Rightarrow> 's \<times> ('a \<times> 'b)" where
  "both f g s = (let (s, x) = f s; (s, y) = g s in (s, x, y))"

fun for_each :: "('a \<Rightarrow> 's \<Rightarrow> 's \<times> 'b) \<Rightarrow> 'a list \<Rightarrow> 's \<Rightarrow> 's \<times> 'b list" where
  "for_each f [] s = (s, [])"
| "for_each f (x # xs) s = (let (s, y) = f x s; (s, ys) = for_each f xs s in (s, y # ys))"

section \<open>Targets\<close>

fun filter_targets :: "u64 \<Rightarrow> character \<Rightarrow> (character \<Rightarrow> character \<Rightarrow> bool) \<Rightarrow> character list \<Rightarrow>
    entity_registry \<Rightarrow> entity_registry \<times> player_entity list" where
  "filter_targets originID origin predicate [] r = (r, [])"
| "filter_targets originID origin predicate (peer # peers) r =
     (let (r, found) = EntityRegistry_PlayerByVID r (cVID peer);
          (r, rest) = filter_targets originID origin predicate peers r in
      (r, case found of
            None \<Rightarrow> rest
          | Some p \<Rightarrow> if (originID \<noteq> 0 \<and> player_id p = originID) \<or> \<not> predicate origin peer then rest else p # rest))"

definition filterTargets :: "u64 \<Rightarrow> character \<Rightarrow> (character \<Rightarrow> character \<Rightarrow> bool) \<Rightarrow> scopes \<Rightarrow> scopes \<times> player_entity list" where
  "filterTargets originID origin predicate =
     asking [] (\<lambda>r. let (r, cs) = EntityRegistry_PlayerCharacters r in filter_targets originID origin predicate cs r)"

definition VisibleTargets :: "u64 \<Rightarrow> character \<Rightarrow> scopes \<Rightarrow> scopes \<times> player_entity list" where
  "VisibleTargets originID origin s = filterTargets originID origin (SharesVisibleWorld (scTopology s)) s"

definition LocalTalkTargets :: "u64 \<Rightarrow> character \<Rightarrow> scopes \<Rightarrow> scopes \<times> player_entity list" where
  "LocalTalkTargets originID origin s = filterTargets originID origin (SharesTalkingChatScope (scTopology s)) s"

definition ShoutTargets :: "u64 \<Rightarrow> character \<Rightarrow> scopes \<Rightarrow> scopes \<times> player_entity list" where
  "ShoutTargets originID origin s = filterTargets originID origin (SharesShoutScope (scTopology s)) s"

definition PartyTargets :: "u64 \<Rightarrow> scopes \<Rightarrow> scopes \<times> player_entity list" where
  "PartyTargets originID = filterTargets originID zero_character (\<lambda>origin peer. True)"

definition GuildTargets :: "u64 \<Rightarrow> character \<Rightarrow> scopes \<Rightarrow> scopes \<times> player_entity list" where
  "GuildTargets originID origin s = filterTargets originID origin (SharesGuildChatScope (scTopology s)) s"

definition ConnectedTargets :: "scopes \<Rightarrow> scopes \<times> player_entity list" where
  "ConnectedTargets = filterTargets 0 zero_character (\<lambda>origin peer. True)"

definition PlayerByExactName :: "string \<Rightarrow> scopes \<Rightarrow> scopes \<times> player_entity option" where
  "PlayerByExactName name s =
     (if name = [] then (s, None) else asking None (\<lambda>r. EntityRegistry_PlayerByName r name) s)"

definition ConnectedCharacterSnapshots :: "scopes \<Rightarrow> scopes \<times> connected_snapshot list" where
  "ConnectedCharacterSnapshots s =
     answering (\<lambda>ps. sortConnectedCharacterSnapshots (map (\<lambda>p. ConnectedCharacterSnapshotFor (scTopology s) (plCharacter p)) ps))
       ConnectedTargets s"

definition ConnectedCharacterSnapshotByExactName :: "string \<Rightarrow> scopes \<Rightarrow> scopes \<times> connected_snapshot option" where
  "ConnectedCharacterSnapshotByExactName name s =
     answering (map_option (\<lambda>p. ConnectedCharacterSnapshotFor (scTopology s) (plCharacter p))) (PlayerByExactName name) s"

section \<open>Differences\<close>

definition visiblePeers :: "character \<Rightarrow> scopes \<Rightarrow> scopes \<times> character list" where
  "visiblePeers subject s =
     asking [] (answering (\<lambda>cs. VisiblePeers (scTopology s) subject cs (cVID subject)) EntityRegistry_PlayerCharacters) s"

definition relocatedCharacters :: "character \<Rightarrow> character \<Rightarrow> scopes \<Rightarrow> scopes \<times> (character list \<times> character list)" where
  "relocatedCharacters cur target =
     asking ([], []) (answering (\<lambda>cs. (cs, replace_first (\<lambda>c. cVID c = cVID cur) target cs)) EntityRegistry_PlayerCharacters)"

definition Scopes_EnterVisibilityDiff :: "character \<Rightarrow> scopes \<Rightarrow> scopes \<times> visibility_diff" where
  "Scopes_EnterVisibilityDiff subject = answering (\<lambda>peers. BuildVisibilityDiff [] peers) (visiblePeers subject)"

definition Scopes_LeaveVisibilityDiff :: "character \<Rightarrow> scopes \<Rightarrow> scopes \<times> visibility_diff" where
  "Scopes_LeaveVisibilityDiff subject = answering (\<lambda>peers. BuildVisibilityDiff peers []) (visiblePeers subject)"

definition Scopes_RelocateVisibilityDiff :: "character \<Rightarrow> character \<Rightarrow> scopes \<Rightarrow> scopes \<times> visibility_diff" where
  "Scopes_RelocateVisibilityDiff cur target s =
     answering (\<lambda>(cs, cs'). BuildVisibilityDiff (VisiblePeers (scTopology s) cur cs (cVID cur))
         (VisiblePeers (scTopology s) target cs' (cVID target)))
       (relocatedCharacters cur target) s"

section \<open>Actors\<close>

definition StaticActorSnapshots :: "profile_registry \<Rightarrow> scopes \<Rightarrow> scopes \<times> actor_snapshot list" where
  "StaticActorSnapshots reg s =
     asking [] (answering (staticActorSnapshots reg (scTopology s)) (EntityRegistry_AllStaticActors reg)) s"

definition SpawnGroupSnapshots :: "profile_registry \<Rightarrow> scopes \<Rightarrow> scopes \<times> actor_snapshot list" where
  "SpawnGroupSnapshots reg s =
     asking [] (answering (\<lambda>as. staticActorSnapshots reg (scTopology s) (filter (\<lambda>a. aSpawnGroupRef a \<noteq> []) as))
       (EntityRegistry_AllStaticActors reg)) s"

definition SpawnGroupSnapshotsForMap :: "profile_registry \<Rightarrow> u32 \<Rightarrow> scopes \<Rightarrow> scopes \<times> actor_snapshot list" where
  "SpawnGroupSnapshotsForMap reg mapIndex s =
     asking [] (answering (spawnGroupSnapshots reg (scTopology s)) (\<lambda>r. EntityRegistry_StaticActors reg r mapIndex)) s"

text \<open>The walk for the only actor of a spawn group: a second one ends it with nothing.\<close>

fun only_actor :: "string \<Rightarrow> static_entity option \<Rightarrow> static_entity list \<Rightarrow> static_entity option" where
  "only_actor ref matched [] = matched"
| "only_actor ref matched (a # as) =
     (if aSpawnGroupRef a \<noteq> ref then only_actor ref matched as
      else if matched \<noteq> None then None
      else only_actor ref (Some a) as)"

definition SpawnGroupSnapshotByRef :: "profile_registry \<Rightarrow> string \<Rightarrow> scopes \<Rightarrow> scopes \<times> actor_snapshot option" where
  "SpawnGroupSnapshotByRef reg ref s =
     (if \<not> ValidStaticActorSpawnGroupRef ref \<or> ref = [] then (s, None)
      else asking None (answering (\<lambda>as. map_option (staticActorSnapshot reg (scTopology s)) (only_actor ref None as))
        (EntityRegistry_AllStaticActors reg)) s)"

definition VisibleStaticActors :: "profile_registry \<Rightarrow> character \<Rightarrow> scopes \<Rightarrow> scopes \<times> static_entity list" where
  "VisibleStaticActors reg subject s =
     asking [] (answering
       (\<lambda>as. sortStaticEntities (filter (\<lambda>a. SharesVisibleWorld (scTopology s) subject (staticActorVisibilityCharacter a)) as))
       (EntityRegistry_AllStaticActors reg)) s"

definition VisibleSpawnGroups :: "profile_registry \<Rightarrow> character \<Rightarrow> scopes \<Rightarrow> scopes \<times> static_entity list" where
  "VisibleSpawnGroups reg subject =
     answering (\<lambda>as. sortStaticEntities (filter (\<lambda>a. aSpawnGroupRef a \<noteq> []) as)) (VisibleStaticActors reg subject)"

definition VisibleInteractableStaticActors :: "profile_registry \<Rightarrow> character \<Rightarrow> scopes \<Rightarrow> scopes \<times> static_entity list" where
  "VisibleInteractableStaticActors reg subject =
     answering (\<lambda>as. sortStaticEntities (filter (\<lambda>a. \<not> (aInteractionKind a = [] \<or> aInteractionRef a = [])) as))
       (VisibleStaticActors reg subject)"

definition VisibleStaticActorByVID :: "profile_registry \<Rightarrow> character \<Rightarrow> u32 \<Rightarrow> scopes \<Rightarrow> scopes \<times> static_entity option" where
  "VisibleStaticActorByVID reg subject vid s =
     (if vid = 0 then (s, None)
      else asking None (answering
        (\<lambda>found. case found of
            None \<Rightarrow> None
          | Some a \<Rightarrow> if SharesVisibleWorld (scTopology s) subject (staticActorVisibilityCharacter a) then Some a else None)
        (\<lambda>r. EntityRegistry_StaticActorByVID reg r vid)) s)"

definition VisibleStaticActorByVIDWithinInteractionRange ::
    "profile_registry \<Rightarrow> character \<Rightarrow> u32 \<Rightarrow> i32 \<Rightarrow> scopes \<Rightarrow> scopes \<times> static_entity option" where
  "VisibleStaticActorByVIDWithinInteractionRange reg subject vid maxDistance =
     answering (\<lambda>found. case found of
         None \<Rightarrow> None
       | Some a \<Rightarrow> if StaticActorWithinInteractionRange subject a maxDistance then Some a else None)
       (VisibleStaticActorByVID reg subject vid)"

definition VisibleTargetsForStaticActor :: "static_entity \<Rightarrow> scopes \<Rightarrow> scopes \<times> player_entity list" where
  "VisibleTargetsForStaticActor actor s =
     filterTargets 0 (staticActorVisibilityCharacter actor) (SharesVisibleWorld (scTopology s)) s"

definition RelocateStaticActorTargetDiff :: "static_entity \<Rightarrow> static_entity \<Rightarrow> scopes \<Rightarrow> scopes \<times> actor_target_diff" where
  "RelocateStaticActorTargetDiff cur target =
     answering (\<lambda>(before, after). buildStaticActorTargetDiff before after)
       (both (VisibleTargetsForStaticActor cur) (VisibleTargetsForStaticActor target))"

definition RelocateStaticActorVisibilityDiff ::
    "profile_registry \<Rightarrow> character \<Rightarrow> character \<Rightarrow> scopes \<Rightarrow> scopes \<times> actor_visibility_diff" where
  "RelocateStaticActorVisibilityDiff reg cur target =
     answering (\<lambda>(before, after). buildStaticActorVisibilityDiff before after)
       (both (VisibleStaticActors reg cur) (VisibleStaticActors reg target))"

definition Scopes_RelocateGroundItemVisibilityDiff ::
    "character \<Rightarrow> character \<Rightarrow> ground_item list \<Rightarrow> scopes \<Rightarrow> ground_item_visibility_diff" where
  "Scopes_RelocateGroundItemVisibilityDiff cur target grounds s =
     RelocateGroundItemVisibilityDiff (scTopology s) cur target grounds"

section \<open>Snapshots\<close>

definition VisibilitySnapshots :: "scopes \<Rightarrow> scopes \<times> visibility_snapshot list" where
  "VisibilitySnapshots s =
     (if scEntities s = None then (s, [])
      else
        let (s, targets) = ConnectedTargets s in
        answering sortVisibilitySnapshots
          (for_each (\<lambda>p. answering (\<lambda>peers. \<lparr>vsSubject = p, vsVisiblePeers = peers\<rparr>) (VisibleTargets (player_id p) (plCharacter p)))
            targets) s)"

definition character_visibility ::
    "profile_registry \<Rightarrow> ground_item list \<Rightarrow> visibility_snapshot \<Rightarrow> scopes \<Rightarrow> scopes \<times> character_visibility_snapshot" where
  "character_visibility reg grounds v s =
     (let t = scTopology s; c = plCharacter (vsSubject v) in
      answering (\<lambda>(actors, groups).
          \<lparr>cvCharacter = ConnectedCharacterSnapshotFor t c,
           cvVisiblePeers = connectedCharacterSnapshots t (playerEntitiesToCharacters (vsVisiblePeers v)),
           cvVisibleStaticActors = staticActorSnapshots reg t actors,
           cvVisibleSpawnGroups = staticActorSnapshots reg t groups,
           cvVisibleGroundItems = VisibleGroundItems t c grounds\<rparr>)
        (both (VisibleStaticActors reg c) (VisibleSpawnGroups reg c)) s)"

definition CharacterVisibilitySnapshotsWithGroundItems ::
    "profile_registry \<Rightarrow> ground_item list \<Rightarrow> scopes \<Rightarrow> scopes \<times> character_visibility_snapshot list" where
  "CharacterVisibilitySnapshotsWithGroundItems reg grounds s =
     (let (s, visibility) = VisibilitySnapshots s in
      answering sortCharacterVisibilitySnapshots (for_each (character_visibility reg grounds) visibility) s)"

definition CharacterVisibilitySnapshots :: "profile_registry \<Rightarrow> scopes \<Rightarrow> scopes \<times> character_visibility_snapshot list" where
  "CharacterVisibilitySnapshots reg = CharacterVisibilitySnapshotsWithGroundItems reg []"

definition CharacterInteractionVisibilitySnapshots ::
    "profile_registry \<Rightarrow> scopes \<Rightarrow> scopes \<times> interaction_visibility_snapshot list" where
  "CharacterInteractionVisibilitySnapshots reg s =
     (if scEntities s = None then (s, [])
      else
        let t = scTopology s; (s, targets) = ConnectedTargets s in
        answering sortCharacterInteractionVisibilitySnapshots
          (for_each (\<lambda>p. answering
              (\<lambda>actors. \<lparr>ivCharacter = ConnectedCharacterSnapshotFor t (plCharacter p),
                 ivVisibleInteractableStaticActors = staticActorSnapshots reg t actors\<rparr>)
              (VisibleInteractableStaticActors reg (plCharacter p))) targets) s)"

definition MapOccupancySnapshots :: "profile_registry \<Rightarrow> scopes \<Rightarrow> scopes \<times> map_occupancy_snapshot list" where
  "MapOccupancySnapshots reg s =
     asking [] (answering (buildMapOccupancySnapshots reg (scTopology s)) (EntityRegistry_MapOccupancy reg)) s"

definition StaticActorsForMap :: "profile_registry \<Rightarrow> u32 \<Rightarrow> scopes \<Rightarrow> scopes \<times> actor_snapshot list option" where
  "StaticActorsForMap reg mapIndex s =
     (if scEntities s = None \<or> mapIndex = 0 then (s, None)
      else answering (\<lambda>ms. map_option msStaticActors (find (\<lambda>m. msMapIndex m = mapIndex) ms)) (MapOccupancySnapshots reg) s)"

definition SpawnGroupsForMap :: "profile_registry \<Rightarrow> u32 \<Rightarrow> scopes \<Rightarrow> scopes \<times> actor_snapshot list option" where
  "SpawnGroupsForMap reg mapIndex s =
     (if scEntities s = None \<or> mapIndex = 0 then (s, None)
      else answering (\<lambda>ms. map_option msSpawnGroups (find (\<lambda>m. msMapIndex m = mapIndex) ms)) (MapOccupancySnapshots reg) s)"

section \<open>The preview of a relocation\<close>

definition zero_preview :: "topology \<Rightarrow> character \<Rightarrow> character \<Rightarrow> bool \<Rightarrow> relocation_preview" where
  "zero_preview t cur target applied =
     \<lparr>rpApplied = applied, rpCharacter = ConnectedCharacterSnapshotFor t cur, rpTarget = ConnectedCharacterSnapshotFor t target,
      rpCurrentVisiblePeers = [], rpTargetVisiblePeers = [], rpRemovedVisiblePeers = [], rpAddedVisiblePeers = [],
      rpCurrentVisibleStaticActors = [], rpTargetVisibleStaticActors = [], rpRemovedVisibleStaticActors = [],
      rpAddedVisibleStaticActors = [], rpCurrentVisibleSpawnGroups = [], rpTargetVisibleSpawnGroups = [],
      rpRemovedVisibleSpawnGroups = [], rpAddedVisibleSpawnGroups = [], rpCurrentVisibleGroundItems = [],
      rpTargetVisibleGroundItems = [], rpRemovedVisibleGroundItems = [], rpAddedVisibleGroundItems = [],
      rpMapOccupancyChanges = [], rpBeforeMapOccupancy = [], rpAfterMapOccupancy = []\<rparr>"

definition BuildRelocationPreviewWithGroundItems ::
    "profile_registry \<Rightarrow> character \<Rightarrow> character \<Rightarrow> bool \<Rightarrow> ground_item list \<Rightarrow> scopes \<Rightarrow> scopes \<times> relocation_preview" where
  "BuildRelocationPreviewWithGroundItems reg cur target applied grounds s =
     (let t = scTopology s in
      if scEntities s = None then (s, zero_preview t cur target applied)
      else
        let (s, peers) = Scopes_RelocateVisibilityDiff cur target s;
            (s, actors) = RelocateStaticActorVisibilityDiff reg cur target s;
            items = Scopes_RelocateGroundItemVisibilityDiff cur target grounds s;
            (s, occupancy) = MapOccupancySnapshots reg s;
            before = AppendGroundItemsToMapOccupancySnapshots t occupancy grounds;
            after = relocateMapOccupancySnapshots before t cur target in
        (s, \<lparr>rpApplied = applied, rpCharacter = ConnectedCharacterSnapshotFor t cur,
             rpTarget = ConnectedCharacterSnapshotFor t target,
             rpCurrentVisiblePeers = connectedCharacterSnapshots t (CurrentVisiblePeers peers),
             rpTargetVisiblePeers = connectedCharacterSnapshots t (TargetVisiblePeers peers),
             rpRemovedVisiblePeers = connectedCharacterSnapshots t (RemovedVisiblePeers peers),
             rpAddedVisiblePeers = connectedCharacterSnapshots t (AddedVisiblePeers peers),
             rpCurrentVisibleStaticActors = staticActorSnapshots reg t (avCurrentVisibleActors actors),
             rpTargetVisibleStaticActors = staticActorSnapshots reg t (avTargetVisibleActors actors),
             rpRemovedVisibleStaticActors = staticActorSnapshots reg t (avRemovedVisibleActors actors),
             rpAddedVisibleStaticActors = staticActorSnapshots reg t (avAddedVisibleActors actors),
             rpCurrentVisibleSpawnGroups = spawnGroupSnapshots reg t (avCurrentVisibleActors actors),
             rpTargetVisibleSpawnGroups = spawnGroupSnapshots reg t (avTargetVisibleActors actors),
             rpRemovedVisibleSpawnGroups = spawnGroupSnapshots reg t (avRemovedVisibleActors actors),
             rpAddedVisibleSpawnGroups = spawnGroupSnapshots reg t (avAddedVisibleActors actors),
             rpCurrentVisibleGroundItems = gvCurrentVisibleItems items,
             rpTargetVisibleGroundItems = gvTargetVisibleItems items,
             rpRemovedVisibleGroundItems = gvRemovedVisibleItems items,
             rpAddedVisibleGroundItems = gvAddedVisibleItems items,
             rpMapOccupancyChanges = buildMapOccupancyChanges before after,
             rpBeforeMapOccupancy = before, rpAfterMapOccupancy = after\<rparr>))"

definition BuildRelocationPreview ::
    "profile_registry \<Rightarrow> character \<Rightarrow> character \<Rightarrow> bool \<Rightarrow> scopes \<Rightarrow> scopes \<times> relocation_preview" where
  "BuildRelocationPreview reg cur target applied = BuildRelocationPreviewWithGroundItems reg cur target applied []"

end
