(* ===== verification/World_Refinement.thy ===== *)
theory World_Refinement
  imports World_Registry_Facts
begin

text \<open>
  The abstract world the entity registry implements, the refinement, and what follows from it for any
  sequence of registrations, updates and removals.
\<close>

section \<open>The world the registry implements\<close>

text \<open>
  The abstract world: the last identifier given out, who plays and which actors stand. A command
  says in one line when it is accepted and what it then does.
\<close>

record world =
  wNextID :: u64
  wPlayers :: "u64 \<Rightarrow> player_entity option"
  wStatics :: "u64 \<Rightarrow> static_entity option"

datatype world_command =
    JoinPlayer character
  | AddActor static_entity
  | AddActorWithID static_entity
  | ChangePlayer u64 character
  | ChangeActor static_entity
  | LeavePlayer u64
  | DropActor u64

definition may_stand :: "world \<Rightarrow> player_entity \<Rightarrow> bool" where
  "may_stand w p \<longleftrightarrow>
     validPlayerDirectoryEntity p \<and> wStatics w (player_id p) = None \<and>
     (\<forall>j q. wPlayers w j = Some q \<longrightarrow> j \<noteq> player_id p \<longrightarrow> \<not> player_clash q p) \<and>
     wStatics w (ucast (eVID (plEntity p))) = None"

definition add_actor :: "profile_registry \<Rightarrow> world \<Rightarrow> static_entity \<Rightarrow> world \<times> bool" where
  "add_actor reg w actor =
     (let i = (if actor_id actor = 0 then wNextID w + 1 else actor_id actor); a = newStaticEntity i actor in
      if eVID (aEntity actor) = 0 \<and> validStaticEntity reg a \<and> wStatics w i = None \<and> wPlayers w i = None \<and>
         (\<forall>j p. wPlayers w j = Some p \<longrightarrow> eVID (plEntity p) \<noteq> ucast i)
      then (w\<lparr>wNextID := max (wNextID w) i, wStatics := (wStatics w)(i \<mapsto> a)\<rparr>, True) else (w, False))"

fun world_step :: "profile_registry \<Rightarrow> world \<Rightarrow> world_command \<Rightarrow> world \<times> bool" where
  "world_step reg w (JoinPlayer c) =
     (let i = wNextID w + 1; p = newPlayerEntity i c in
      if may_stand w p then (w\<lparr>wNextID := i, wPlayers := (wPlayers w)(i \<mapsto> p)\<rparr>, True) else (w, False))"
| "world_step reg w (AddActor actor) = add_actor reg w actor"
| "world_step reg w (AddActorWithID actor) = (if actor_id actor = 0 then (w, False) else add_actor reg w actor)"
| "world_step reg w (ChangePlayer i c) =
     (let p = newPlayerEntity i c in
      if wPlayers w i \<noteq> None \<and> may_stand w p then (w\<lparr>wPlayers := (wPlayers w)(i \<mapsto> p)\<rparr>, True) else (w, False))"
| "world_step reg w (ChangeActor actor) =
     (case wStatics w (actor_id actor) of
        None \<Rightarrow> (w, False)
      | Some previous \<Rightarrow>
          let a = newStaticEntity (actor_id actor) (inherit_actor previous actor) in
          if eVID (aEntity actor) = 0 \<and> validStaticEntity reg a
          then (w\<lparr>wStatics := (wStatics w)(actor_id actor \<mapsto> a)\<rparr>, True) else (w, False))"
| "world_step reg w (LeavePlayer i) = (w\<lparr>wPlayers := (wPlayers w)(i := None)\<rparr>, wPlayers w i \<noteq> None)"
| "world_step reg w (DropActor i) = (w\<lparr>wStatics := (wStatics w)(i := None)\<rparr>, wStatics w i \<noteq> None)"

fun registry_step :: "profile_registry \<Rightarrow> entity_registry \<Rightarrow> world_command \<Rightarrow> entity_registry \<times> bool" where
  "registry_step reg r (JoinPlayer c) = (let (r, x) = EntityRegistry_RegisterPlayer r c in (r, x \<noteq> None))"
| "registry_step reg r (AddActor a) = (let (r, x) = EntityRegistry_RegisterStaticActor reg r a in (r, x \<noteq> None))"
| "registry_step reg r (AddActorWithID a) = (let (r, x) = EntityRegistry_RegisterStaticActorWithID reg r a in (r, x \<noteq> None))"
| "registry_step reg r (ChangePlayer i c) = EntityRegistry_UpdatePlayer r i c"
| "registry_step reg r (ChangeActor a) = (let (r, x) = EntityRegistry_UpdateStaticActor reg r a in (r, x \<noteq> None))"
| "registry_step reg r (LeavePlayer i) = (let (r, x) = EntityRegistry_Remove r i in (r, x \<noteq> None))"
| "registry_step reg r (DropActor i) = (let (r, x) = EntityRegistry_RemoveStaticActor r i in (r, x \<noteq> None))"

definition world_of :: "entity_registry \<Rightarrow> world" where
  "world_of r = \<lparr>wNextID = erNextID r, wPlayers = er_players r, wStatics = er_statics r\<rparr>"

definition empty_world :: world where
  "empty_world = \<lparr>wNextID = 0, wPlayers = Map.empty, wStatics = Map.empty\<rparr>"

lemma player_fits_may_stand: "player_fits r p \<longleftrightarrow> may_stand (world_of r) p"
  by (simp add: player_fits_def may_stand_def world_of_def)

lemma player_fits_next: "player_fits (r\<lparr>erNextID := n\<rparr>) p = player_fits r p"
  by (simp add: player_fits_def)

lemma put_player_next: "er_put_player (r\<lparr>erNextID := n\<rparr>) p = (er_put_player r p)\<lparr>erNextID := n\<rparr>"
  by (simp add: er_put_player_def)

lemma put_static_next: "er_put_static (r\<lparr>erNextID := n\<rparr>) a = (er_put_static r a)\<lparr>erNextID := n\<rparr>"
  by (simp add: er_put_static_def)

lemma join_step:
  assumes ok: "er_ok r"
  shows "er_ok (fst (registry_step reg r (JoinPlayer c))) \<and>
    world_step reg (world_of r) (JoinPlayer c) =
      (world_of (fst (registry_step reg r (JoinPlayer c))), snd (registry_step reg r (JoinPlayer c)))"
proof -
  let ?i = "erNextID r + 1" and ?p = "newPlayerEntity (erNextID r + 1) c"
  have "er_ok ((er_put_player r ?p)\<lparr>erNextID := ?i\<rparr>)" if f: "player_fits r ?p"
  proof -
    have "?i \<noteq> 0" using f by (auto simp: player_fits_def validPlayerDirectoryEntity_def)
    then have "erNextID r \<le> ?i" using next_greater [of "erNextID r"] by simp
    then have "er_ok (r\<lparr>erNextID := ?i\<rparr>)" by (rule er_next_ok [OF ok])
    from er_put_player_ok [OF this] f show ?thesis
      by (simp only: player_fits_next put_player_next registered_fields) simp
  qed
  then show ?thesis
    using ok by (simp add: EntityRegistry_RegisterPlayer_exact [OF ok] Let_def player_fits_may_stand)
      (simp add: world_of_def)
qed

lemma add_actor_step:
  assumes ok: "er_ok r"
  shows "er_ok (fst (registerStaticActor reg r actor)) \<and>
    add_actor reg (world_of r) actor =
      (world_of (fst (registerStaticActor reg r actor)), snd (registerStaticActor reg r actor) \<noteq> None)"
proof -
  define i where "i = (if actor_id actor = 0 then erNextID r + 1 else actor_id actor)"
  let ?a = "newStaticEntity i actor"
  have "actor_fits r ?a \<longleftrightarrow> er_players r i = None \<and> (\<forall>j p. er_players r j = Some p \<longrightarrow> eVID (plEntity p) \<noteq> ucast i)"
    if "validStaticEntity reg ?a"
    using valid_visible [OF that] valid_nonzero [OF that] by (simp add: actor_fits_def)
  moreover have "er_ok ((er_put_static r ?a)\<lparr>erNextID := max (erNextID r) i\<rparr>)" if f: "actor_fits r ?a"
  proof -
    have "er_ok (r\<lparr>erNextID := max (erNextID r) i\<rparr>)" by (rule er_next_ok [OF ok]) simp
    from er_put_static_ok [OF this, of ?a] f show ?thesis
      by (simp add: put_static_next) (simp add: actor_fits_def)
  qed
  moreover have "registerStaticActor reg r actor =
      (if eVID (aEntity actor) = 0 \<and> validStaticEntity reg ?a \<and> er_statics r i = None \<and> actor_fits r ?a
       then ((er_put_static r ?a)\<lparr>erNextID := max (erNextID r) i\<rparr>, Some ?a) else (r, None))"
    unfolding registerStaticActor_exact [OF ok] Let_def i_def by (rule refl)
  moreover have "add_actor reg (world_of r) actor =
      (if eVID (aEntity actor) = 0 \<and> validStaticEntity reg ?a \<and> er_statics r i = None \<and> er_players r i = None \<and>
          (\<forall>j p. er_players r j = Some p \<longrightarrow> eVID (plEntity p) \<noteq> ucast i)
       then ((world_of r)\<lparr>wNextID := max (erNextID r) i, wStatics := (er_statics r)(i \<mapsto> ?a)\<rparr>, True) else (world_of r, False))"
    unfolding add_actor_def Let_def i_def by (simp add: world_of_def)
  ultimately show ?thesis
    using ok by (auto simp: world_of_def)
qed

lemma change_player_step:
  assumes ok: "er_ok r"
  shows "er_ok (fst (registry_step reg r (ChangePlayer i c))) \<and>
    world_step reg (world_of r) (ChangePlayer i c) =
      (world_of (fst (registry_step reg r (ChangePlayer i c))), snd (registry_step reg r (ChangePlayer i c)))"
proof -
  have "er_ok (er_put_player r (newPlayerEntity i c))" if "er_players r i \<noteq> None" "player_fits r (newPlayerEntity i c)"
    using er_put_player_ok [OF ok that(2)] er_okD(7) [OF ok that(1)] by simp
  then show ?thesis
    using ok by (auto simp: EntityRegistry_UpdatePlayer_exact [OF ok] Let_def player_fits_may_stand world_of_def)
qed

lemma change_actor_step:
  assumes ok: "er_ok r"
  shows "er_ok (fst (registry_step reg r (ChangeActor actor))) \<and>
    world_step reg (world_of r) (ChangeActor actor) =
      (world_of (fst (registry_step reg r (ChangeActor actor))), snd (registry_step reg r (ChangeActor actor)))"
proof (cases "er_statics r (actor_id actor)")
  case None
  then show ?thesis using ok by (simp add: EntityRegistry_UpdateStaticActor_exact [OF ok] world_of_def)
next
  case (Some previous)
  let ?a = "newStaticEntity (actor_id actor) (inherit_actor previous actor)"
  have "er_ok (er_put_static r ?a)" if v: "validStaticEntity reg ?a"
    using er_put_static_ok [OF ok, of ?a] valid_visible [OF v] valid_nonzero [OF v] actor_stays_apart [OF ok Some]
      er_okD(8) [OF ok, of "actor_id actor"] Some
    by (simp add: actor_fits_def)
  then show ?thesis
    using ok Some by (auto simp: EntityRegistry_UpdateStaticActor_exact [OF ok] Let_def world_of_def)
qed

text \<open>The registry implements the world, one command at a time.\<close>

lemma registry_step_simulates:
  assumes ok: "er_ok r"
  shows "er_ok (fst (registry_step reg r c)) \<and>
    world_step reg (world_of r) c = (world_of (fst (registry_step reg r c)), snd (registry_step reg r c))"
proof (cases c)
  case (JoinPlayer x)
  then show ?thesis using join_step [OF ok] by simp
next
  case (AddActor x)
  then show ?thesis
    using add_actor_step [OF ok, of reg x] by (auto simp: EntityRegistry_RegisterStaticActor_def split: prod.split)
next
  case (AddActorWithID x)
  then show ?thesis
    using add_actor_step [OF ok, of reg x] ok by (auto simp: EntityRegistry_RegisterStaticActorWithID_def split: prod.split)
next
  case (ChangePlayer x1 x2)
  then show ?thesis using change_player_step [OF ok] by blast
next
  case (ChangeActor x)
  then show ?thesis using change_actor_step [OF ok] by blast
next
  case (LeavePlayer x)
  then show ?thesis
    using EntityRegistry_Remove_exact [OF ok, of x]
    by (cases "EntityRegistry_Remove r x") (simp add: world_of_def)
next
  case (DropActor x)
  then show ?thesis
    using EntityRegistry_RemoveStaticActor_exact [OF ok, of x]
    by (cases "EntityRegistry_RemoveStaticActor r x") (simp add: world_of_def)
qed

interpretation registry: simulation "registry_step reg" "world_step reg" er_ok world_of for reg
  by unfold_locales (simp_all add: registry_step_simulates)

lemma new_registry_ok: "er_ok (NewEntityRegistryWithTopology t)" "world_of (NewEntityRegistryWithTopology t) = empty_world"
proof -
  show "er_ok (NewEntityRegistryWithTopology t)"
    using NewPlayerDirectory_ok NewNonPlayerDirectory_ok NewMapIndex_ok [of t]
    by (simp add: er_ok_def NewEntityRegistryWithTopology_def) (simp add: NewMapIndex_def empty_side_def)
  show "world_of (NewEntityRegistryWithTopology t) = empty_world"
    by (simp add: world_of_def empty_world_def NewEntityRegistryWithTopology_def NewMapIndex_def empty_side_def)
qed

text \<open>A registry that any commands have led to.\<close>

definition registry_after :: "profile_registry \<Rightarrow> topology \<Rightarrow> world_command list \<Rightarrow> entity_registry" where
  "registry_after reg t cs = run (registry_step reg) (NewEntityRegistryWithTopology t) cs"

definition world_after :: "profile_registry \<Rightarrow> world_command list \<Rightarrow> world" where
  "world_after reg cs = run (world_step reg) empty_world cs"

lemma registry_after:
  "er_ok (registry_after reg t cs)" "world_of (registry_after reg t cs) = world_after reg cs"
  using registry.run_simulates [OF new_registry_ok(1)] by (simp_all add: registry_after_def world_after_def new_registry_ok)

lemma world_fields:
  "er_players (registry_after reg t cs) = wPlayers (world_after reg cs)"
  "er_statics (registry_after reg t cs) = wStatics (world_after reg cs)"
  "erNextID (registry_after reg t cs) = wNextID (world_after reg cs)"
  unfolding registry_after(2) [symmetric, where t = t] by (simp_all add: world_of_def)

lemma registry_step_topology:
  assumes ok: "er_ok r" shows "erTopology (fst (registry_step reg r c)) = erTopology r"
  by (cases c) (auto simp: EntityRegistry_Remove_exact(5) [OF ok] EntityRegistry_RemoveStaticActor_exact(5) [OF ok]
      EntityRegistry_RegisterPlayer_exact [OF ok] EntityRegistry_UpdatePlayer_exact [OF ok]
      EntityRegistry_RegisterStaticActor_def EntityRegistry_RegisterStaticActorWithID_def registerStaticActor_exact [OF ok]
      EntityRegistry_UpdateStaticActor_exact [OF ok] Let_def case_prod_beta
      split: option.split)

lemma registry_after_topology: "erTopology (registry_after reg t cs) = t"
proof -
  have "erTopology (run (registry_step reg) r cs) = erTopology r" if "er_ok r" for r
    using that by (induction cs arbitrary: r) (simp_all add: registry_step_topology registry_step_simulates)
  from this [OF new_registry_ok(1)] show ?thesis
    by (simp add: registry_after_def NewEntityRegistryWithTopology_def)
qed

lemma world_step_next: "wNextID w \<le> wNextID (fst (world_step reg w c))"
proof (cases c)
  case (JoinPlayer x)
  have "wNextID w \<le> wNextID w + 1" if "may_stand w (newPlayerEntity (wNextID w + 1) x)"
    using that next_greater [of "wNextID w"] by (auto simp: may_stand_def validPlayerDirectoryEntity_def)
  with JoinPlayer show ?thesis by (simp add: Let_def)
qed (auto simp: add_actor_def Let_def split: option.split)

lemma run_next: "wNextID w \<le> wNextID (run (world_step reg) w cs)"
  by (induction cs arbitrary: w) (auto intro: order_trans world_step_next)

lemma registry_next: "er_ok r \<Longrightarrow> erNextID r \<le> erNextID (run (registry_step reg) r ds)"
proof -
  assume ok: "er_ok r"
  have n: "wNextID (world_of r) = erNextID r" for r by (simp add: world_of_def)
  have "world_of (run (registry_step reg) r ds) = run (world_step reg) (world_of r) ds"
    using registry.run_simulates [OF ok] by blast
  then show ?thesis using run_next [of "world_of r" reg ds] n by metis
qed

text \<open>A player and a guard.\<close>

definition kim :: character where "kim = zero_character\<lparr>cVID := 7, cName := ''kim''\<rparr>"

definition guard :: static_entity where
  "guard = \<lparr>aEntity = \<lparr>eID = 5, eKind = EntityKindStaticActor, eVID = 0, eName = ''guard''\<rparr>,
     aPosition = \<lparr>pMapIndex = 1, pX = 300, pY = 0\<rparr>, aSpawnHome = zero_position, aRaceNum = 20,
     aCombatProfile = [], aInteractionKind = [], aInteractionRef = [], aSpawnGroupRef = [],
     aCombatKind = [], aDeathReward = \<lparr>Experience = 0, Gold = 0, DropVnums = []\<rparr>\<rparr>"

lemma kim_valid: "validPlayerDirectoryEntity (newPlayerEntity 1 kim)"
  by (simp add: validPlayerDirectoryEntity_def newPlayerEntity_def kim_def ValidPlayerName_def trim_space_plain plain_simps
      contains_nul_def)

lemma guard_new: "newStaticEntity 5 guard = guard"
  by (simp add: newStaticEntity_def normalizeStaticEntityCombat_def guard_def Let_def trim_space_plain plain_simps
      staticActorCombatProfile_def DeathReward_Clone_def zero_position_def)

lemma visibility_bounds [simp]: "ucast (- 1 :: u32) = (4294967295 :: u64)" "ucast (- 1 :: u16) = (65535 :: u32)"
  by code_simp+

lemma guard_valid: "validStaticEntity Map.empty (newStaticEntity 5 guard)"
proof -
  have "normalizeStaticEntityCombat guard = guard" using newStaticEntity_fields(3) [of 5 guard] by (simp add: guard_new)
  then show ?thesis
    by (simp add: guard_new validStaticEntity_def Let_def)
      (simp add: guard_def trim_space_plain plain_simps ValidStaticActorName_def contains_nul_def Let_def Position_Valid_def
        ValidStaticActorVisibilityEntityID_def ValidStaticActorVisibilityRaceNum_def ValidStaticActorInteractionMetadata_def
        ValidStaticActorCombatProfile_def ValidStaticActorSpawnGroupRef_def ValidStaticActorDeathReward_def Empty_def)
qed

lemma sample_world:
  "world_after Map.empty [JoinPlayer kim, AddActorWithID guard] =
    \<lparr>wNextID = 5, wPlayers = [1 \<mapsto> newPlayerEntity 1 kim], wStatics = [5 \<mapsto> newStaticEntity 5 guard]\<rparr>"
  using kim_valid guard_valid
  by (simp add: world_after_def empty_world_def may_stand_def add_actor_def Let_def kim_def guard_def)

section \<open>Properties\<close>

text \<open>
  C5: The entity registry implements the world. Whatever players and actors are registered, updated and
  removed, its two directories and its map index never disagree: what it accepts and what it then
  answers, by identifier, by visibility identifier and by name, is what the abstract world says, for
  keys in use and for keys nobody has alike, and no lookup has anything to repair: each one, found or
  not, hands back the very registry it was given.
\<close>

theorem registry_refines_world:
  "let r = registry_after reg t cs; w = world_after reg cs in
   world_of r = w \<and>
   accepted (registry_step reg) (NewEntityRegistryWithTopology t) cs = accepted (world_step reg) empty_world cs \<and>
   (\<forall>i. EntityRegistry_Player r i = (r, wPlayers w i)) \<and>
   (\<forall>i. EntityRegistry_StaticActor reg r i = (r, wStatics w i)) \<and>
   (\<forall>vid. EntityRegistry_StaticActorByVID reg r vid = (r, wStatics w (ucast vid))) \<and>
   (\<forall>vid. fst (EntityRegistry_PlayerByVID r vid) = r \<and>
      (\<forall>p. snd (EntityRegistry_PlayerByVID r vid) = Some p \<longleftrightarrow> (\<exists>i. wPlayers w i = Some p \<and> eVID (plEntity p) = vid))) \<and>
   (\<forall>name. fst (EntityRegistry_PlayerByName r name) = r \<and>
      (\<forall>p. snd (EntityRegistry_PlayerByName r name) = Some p \<longleftrightarrow> (\<exists>i. wPlayers w i = Some p \<and> eName (plEntity p) = name))) \<and>
   EntityRegistry_NextEntityID r = wNextID w + 1"
proof -
  note ok = registry_after(1) [of reg t cs] and f = world_fields [of reg t cs]
  have a: "accepted (registry_step reg) (NewEntityRegistryWithTopology t) cs = accepted (world_step reg) empty_world cs"
    using registry.run_simulates [OF new_registry_ok(1)] by (simp add: new_registry_ok)
  show ?thesis
    unfolding Let_def EntityRegistry_lookups_exact [OF ok]
    by (auto simp: a registry_after(2) f EntityRegistry_NextEntityID_def er_by_iff [OF ok])
qed

text \<open>
  The visibility identifier under which clients are shown the entity of an identifier, player or actor.
\<close>

definition shows_VID :: "entity_registry \<Rightarrow> u64 \<Rightarrow> u32 \<Rightarrow> bool" where
  "shows_VID r i v \<longleftrightarrow>
     (case er_players r i of Some p \<Rightarrow> eVID (plEntity p) = v | None \<Rightarrow> False) \<or>
     (case er_statics r i of Some a \<Rightarrow> StaticActorVisibilityVID a = Some v | None \<Rightarrow> False)"

lemma shows_VID_iff:
  assumes "er_ok r"
  shows "shows_VID r i v \<longleftrightarrow>
    (\<exists>p. er_players r i = Some p \<and> eVID (plEntity p) = v) \<or> (er_statics r i \<noteq> None \<and> v = ucast i)"
  using er_identities(2) [OF assms, of i] by (auto simp: shows_VID_def split: option.splits)

lemma shows_VID_unique:
  assumes ok: "er_ok r" and i: "shows_VID r i v" and j: "shows_VID r j v"
  shows "i = j"
proof -
  have players: "i = j" if "er_players r i = Some p" "er_players r j = Some q" "eVID (plEntity p) = eVID (plEntity q)" for i j p q
    using player_of_registry_fits [OF ok that(1)] that unfolding player_fits_def player_clash_def by metis
  have actors: "ucast (ucast i :: u32) = i" if "er_statics r i \<noteq> None" for i
    using er_identities(2) [OF ok] that by blast
  have apart: "eVID (plEntity p) \<noteq> ucast i" if "er_statics r i \<noteq> None" "er_players r j = Some p" for i j p
    using actor_stays_apart [OF ok] that by blast
  show ?thesis
    using i j unfolding shows_VID_iff [OF ok] using players apart actors by metis
qed

text \<open>
  C6: Identities in the world. After any commands every player and every actor in the registry carries the
  identifier it is filed under; that identifier is never zero, never above the last one given out and never
  both a player's and an actor's. No two players share a name. Every entity shows clients one visibility
  identifier, and no two entities, be they two players, two actors or one of each, show the same one, although
  identifiers have 64 bits and visibility identifiers only 32.
\<close>

theorem world_identities_distinct:
  "let r = registry_after reg t cs in
   (\<forall>i p. er_players r i = Some p \<longrightarrow> player_id p = i) \<and>
   (\<forall>i a. er_statics r i = Some a \<longrightarrow> actor_id a = i) \<and>
   (\<forall>i. er_players r i \<noteq> None \<or> er_statics r i \<noteq> None \<longrightarrow> i \<noteq> 0 \<and> i \<le> erNextID r \<and> (\<exists>!v. shows_VID r i v)) \<and>
   (\<forall>i. er_players r i = None \<or> er_statics r i = None) \<and>
   (\<forall>i j p q. er_players r i = Some p \<and> er_players r j = Some q \<and> eName (plEntity p) = eName (plEntity q) \<longrightarrow> i = j) \<and>
   (\<forall>i j v. shows_VID r i v \<and> shows_VID r j v \<longrightarrow> i = j)"
proof -
  let ?r = "registry_after reg t cs"
  note ok = registry_after(1) [of reg t cs] and id = er_identities [OF registry_after(1) [of reg t cs]]
  have a: "er_players ?r i = None \<or> er_statics ?r i = None" for i using id(3) [of i] by (cases "er_players ?r i") auto
  have i: "i \<noteq> 0 \<and> i \<le> erNextID ?r \<and> (\<exists>!v. shows_VID ?r i v)" if e: "er_players ?r i \<noteq> None \<or> er_statics ?r i \<noteq> None" for i
  proof (cases "er_players ?r i")
    case (Some p)
    with id(1) [OF Some] id(3) [OF Some] er_okD(7) [OF ok, of i] show ?thesis unfolding shows_VID_iff [OF ok] by simp
  next
    case None
    then obtain b where "er_statics ?r i = Some b" using e by blast
    with None id(2) [OF this] er_okD(8) [OF ok, of i] show ?thesis unfolding shows_VID_iff [OF ok] by simp
  qed
  have n: "i = j" if "er_players ?r i = Some p" "er_players ?r j = Some q" "eName (plEntity p) = eName (plEntity q)" for i j p q
    using player_of_registry_fits [OF ok that(1)] that unfolding player_fits_def player_clash_def by metis
  show ?thesis
    unfolding Let_def using id(1,2) i n a shows_VID_unique [OF ok] by blast
qed

theorem world_identities_distinct_witness:
  "let r = registry_after Map.empty (NewBootstrapTopology 0) [JoinPlayer kim, AddActorWithID guard] in
   er_players r 1 = Some (newPlayerEntity 1 kim) \<and> er_statics r 5 = Some (newStaticEntity 5 guard) \<and>
   player_id (newPlayerEntity 1 kim) = 1 \<and> er_statics r 1 = None \<and> er_players r 5 = None \<and> erNextID r = 5 \<and>
   shows_VID r 1 7 \<and> \<not> shows_VID r 5 7 \<and> (\<exists>!v. shows_VID r 5 v)"
proof -
  let ?r = "registry_after Map.empty (NewBootstrapTopology 0) [JoinPlayer kim, AddActorWithID guard]"
  have f: "er_players ?r = [1 \<mapsto> newPlayerEntity 1 kim]" "er_statics ?r = [5 \<mapsto> newStaticEntity 5 guard]" "erNextID ?r = 5"
    by (simp_all add: world_fields sample_world)
  have s: "shows_VID ?r 1 7" unfolding shows_VID_def f by (simp add: kim_def newPlayerEntity_def)
  note c = world_identities_distinct [where cs = "[JoinPlayer kim, AddActorWithID guard]" and reg = Map.empty
      and t = "NewBootstrapTopology 0", unfolded Let_def]
  have "\<not> shows_VID ?r 5 7" "\<exists>!v. shows_VID ?r 5 v" "er_statics ?r 1 = None" "er_players ?r 5 = None"
    "player_id (newPlayerEntity 1 kim) = 1"
  proof -
    show "\<not> shows_VID ?r 5 7"
    proof
      assume "shows_VID ?r 5 7"
      with s c have "(1 :: u64) = 5" by blast
      then show False by simp
    qed
    show "\<exists>!v. shows_VID ?r 5 v" using c f(2) by (metis fun_upd_same option.distinct(1))
    show "er_statics ?r 1 = None" using c f(1) by (metis fun_upd_same option.distinct(1))
    show "er_players ?r 5 = None" using c f(2) by (metis fun_upd_same option.distinct(1))
    show "player_id (newPlayerEntity 1 kim) = 1" using c f(1) by (metis fun_upd_same)
  qed
  with s f show ?thesis unfolding Let_def by simp
qed

text \<open>
  C7: What the maps show. After any commands the occupancy lists the inhabited maps in ascending order, each
  with exactly the players and the actors whose position is on it; the lists of one map and of the whole
  world are those of the abstract world, sorted, and asking for them changes nothing.
\<close>

theorem registry_occupancy_exact:
  "let r = registry_after reg t cs; w = world_after reg cs;
       on_player = (\<lambda>k. filter (\<lambda>p. player_map t p = k) (map_values (wPlayers w)));
       on_actor = (\<lambda>k. filter (\<lambda>a. actor_map t a = k) (map_values (wStatics w)));
       effective = (\<lambda>k. EffectiveMapIndex t (zero_character\<lparr>cMapIndex := k\<rparr>)) in
   EntityRegistry_MapOccupancy reg r =
     (r, map (\<lambda>k. \<lparr>moMapIndex = k, moCharacters = sortCharacters (map plCharacter (on_player k)),
                   moStaticActors = sortStaticEntities (on_actor k)\<rparr>)
           (sorted_list_of_set (player_map t ` ran (wPlayers w) \<union> actor_map t ` ran (wStatics w)))) \<and>
   (\<forall>k. EntityRegistry_MapCharacters reg r k = (r, sortCharacters (map plCharacter (on_player (effective k))))) \<and>
   (\<forall>k. EntityRegistry_StaticActors reg r k = (r, sortStaticEntities (on_actor (effective k)))) \<and>
   EntityRegistry_AllStaticActors reg r = (r, sortStaticEntities (map_values (wStatics w))) \<and>
   EntityRegistry_PlayerCharacters r = (r, sortCharacters (map plCharacter (sortPlayerEntities (map_values (wPlayers w)))))"
proof -
  note ok = registry_after(1) [of reg t cs] and f = world_fields [of reg t cs]
  have t: "miTopology (erMaps (registry_after reg t cs)) = t"
    using er_okD(6) [OF ok] by (simp add: registry_after_topology)
  show ?thesis
    unfolding Let_def EntityRegistry_lists_exact [OF ok]
    by (simp add: on_maps_def MapIndex_Snapshot_exact [OF er_okD(3) [OF ok]] players_on_def statics_on_def t f
        registry_after_topology)
qed

text \<open>
  Identifiers are not given out twice. A player who is registered gets an identifier above every
  one that is or was in use, the next ones are higher still, whatever is removed in between, and a
  registration that is refused leaves the registry as it was.
\<close>

theorem registered_identifiers_fresh:
  "let r = registry_after reg t cs; (r', x) = EntityRegistry_RegisterPlayer r c in
   (case x of
      None \<Rightarrow> r' = r
    | Some p \<Rightarrow> erNextID r < player_id p \<and> erNextID r' = player_id p \<and> er_players r' (player_id p) = Some p) \<and>
   erNextID r \<le> erNextID r' \<and> erNextID r' \<le> erNextID (run (registry_step reg) r' ds)"
proof -
  let ?r = "registry_after reg t cs" and ?p = "newPlayerEntity (erNextID (registry_after reg t cs) + 1) c"
  note ok = registry_after(1) [of reg t cs]
  let ?r' = "fst (EntityRegistry_RegisterPlayer ?r c)"
  have "?r' = fst (registry_step reg ?r (JoinPlayer c))" by (simp add: case_prod_beta)
  then have ok': "er_ok ?r'" and n: "erNextID ?r \<le> erNextID ?r'"
    using registry_step_simulates [OF ok, of reg "JoinPlayer c"] world_step_next [of "world_of ?r" reg "JoinPlayer c"]
    by (auto simp: world_of_def)
  have m: "erNextID ?r' \<le> erNextID (run (registry_step reg) ?r' ds)"
    by (rule registry_next [OF ok'])
  have "erNextID ?r < erNextID ?r + 1" if "player_fits ?r ?p"
    using that by (intro next_greater) (auto simp: player_fits_def validPlayerDirectoryEntity_def)
  then have "case snd (EntityRegistry_RegisterPlayer ?r c) of None \<Rightarrow> ?r' = ?r
    | Some p \<Rightarrow> erNextID ?r < player_id p \<and> erNextID ?r' = player_id p \<and> er_players ?r' (player_id p) = Some p"
    by (simp add: EntityRegistry_RegisterPlayer_exact [OF ok] Let_def)
  with m n show ?thesis by (simp add: Let_def case_prod_beta)
qed

end
