(* ===== verification/World_Scopes_Facts.thy ===== *)
theory World_Scopes_Facts
  imports World_Scopes World_Refinement
begin

text \<open>
  The scopes over a registry in order (\<open>internal/worldruntime/scopes.go\<close>): the targets are exactly
  the players who share the scope, and the preview of a relocation shows what the relocation then does.
\<close>

section \<open>Sorted lists without repetition\<close>

lemma insort_key_map: "insort_key f (g x) (map g xs) = map g (insort_key (\<lambda>x. f (g x)) x xs)"
  by (induction xs) auto

lemma sort_key_map: "sort_key f (map g xs) = map g (sort_key (\<lambda>x. f (g x)) xs)"
  by (induction xs) (simp_all add: insort_key_map)

lemma sorted_by_key_unique:
  assumes "sorted (map f xs)" "sorted (map f ys)" "distinct (map f xs)" "distinct (map f ys)" "set xs = set ys"
  shows "xs = ys"
proof -
  have "map f xs = map f ys" by (rule sorted_distinct_set_unique) (use assms in auto)
  moreover have "inj_on f (set xs \<union> set ys)" using assms by (simp add: distinct_map)
  ultimately show ?thesis by (rule map_inj_on)
qed

lemma sort_by_key_unique:
  assumes "distinct (map f xs)" "distinct (map f ys)" "set xs = set ys"
  shows "sort_key f xs = sort_key f ys"
  using assms by (intro sorted_by_key_unique [of f]) (simp_all add: distinct_map_sort_key)

lemma distinct_second: "distinct (map g xs) \<Longrightarrow> distinct (map (\<lambda>x. (f x, g x)) xs)"
  by (induction xs) auto

section \<open>The players of a registry\<close>

definition player_list :: "entity_registry \<Rightarrow> player_entity list" where
  "player_list r = sort_key (\<lambda>p. (cName (plCharacter p), cVID (plCharacter p))) (sortPlayerEntities (map_values (er_players r)))"

lemma players_finite: "er_ok r \<Longrightarrow> finite (dom (er_players r))" "er_ok r \<Longrightarrow> finite (dom (er_statics r))"
  using er_okD(3) [of r] mi_okD(1,2) by (auto simp: side_ok_def)

lemma player_list_set: "er_ok r \<Longrightarrow> set (player_list r) = ran (er_players r)"
  by (simp add: player_list_def sortPlayerEntities_def set_map_values players_finite)

lemma in_player_list: "er_ok r \<Longrightarrow> p \<in> set (player_list r) \<longleftrightarrow> er_players r (player_id p) = Some p"
  using directory_lists(3) [of r p] by (simp add: player_list_def)

lemma players_list_of:
  assumes ok: "er_ok r"
  shows "EntityRegistry_PlayerCharacters r = (r, map plCharacter (player_list r))"
  unfolding EntityRegistry_lists_exact [OF ok] player_list_def sortCharacters_def by (simp add: sort_key_map)

lemma player_facts:
  assumes ok: "er_ok r" and p: "er_players r i = Some p"
  shows "player_id p = i" "eVID (plEntity p) = cVID (plCharacter p)" "eName (plEntity p) = cName (plCharacter p)"
  using er_identities(1) [OF ok p] by (simp_all add: validPlayerDirectoryEntity_def)

lemma player_VID_unique:
  assumes ok: "er_ok r" and p: "er_players r i = Some p" "er_players r j = Some q" "cVID (plCharacter p) = cVID (plCharacter q)"
  shows "i = j \<and> p = q"
proof -
  have "i = j" using player_of_registry_fits [OF ok p(1)] p player_facts [OF ok p(1)] player_facts [OF ok p(2)]
    unfolding player_fits_def player_clash_def by metis
  with p show ?thesis by simp
qed

lemma players_distinct:
  assumes ok: "er_ok r"
  shows "distinct (map player_id (map_values (er_players r)))"
    and "distinct (map (\<lambda>p. cVID (plCharacter p)) (map_values (er_players r)))"
    and "distinct (map (\<lambda>p. cVID (plCharacter p)) (player_list r))"
proof -
  show d: "distinct (map player_id (map_values (er_players r)))"
    by (rule distinct_idents [OF mi_okD(1) [OF er_okD(3) [OF ok]]])
  have "inj_on (\<lambda>p. cVID (plCharacter p)) (set (map_values (er_players r)))"
    by (rule inj_onI) (use player_VID_unique [OF ok] players_finite [OF ok] in \<open>auto simp: set_map_values ran_def\<close>)
  with d show v: "distinct (map (\<lambda>p. cVID (plCharacter p)) (map_values (er_players r)))" by (simp add: distinct_map)
  then show "distinct (map (\<lambda>p. cVID (plCharacter p)) (player_list r))"
    by (simp add: player_list_def sortPlayerEntities_def distinct_map_sort_key)
qed

section \<open>Targets\<close>

lemma filter_targets_exact:
  assumes ok: "er_ok r"
  shows "set ps \<subseteq> set (player_list r) \<Longrightarrow>
    filter_targets i origin P (map plCharacter ps) r =
      (r, filter (\<lambda>p. \<not> (i \<noteq> 0 \<and> player_id p = i) \<and> P origin (plCharacter p)) ps)"
proof (induction ps)
  case (Cons p ps)
  then have p: "er_players r (player_id p) = Some p" using in_player_list [OF ok] by simp
  then have "er_by (\<lambda>p. eVID (plEntity p)) r (cVID (plCharacter p)) = Some p"
    using player_facts [OF ok p] unfolding er_by_iff [OF ok] by auto
  with Cons show ?case by (simp add: EntityRegistry_lookups_exact [OF ok])
qed simp

lemma filterTargets_exact:
  assumes ok: "er_ok r"
  shows "filterTargets i origin P (NewScopes t (Some r)) =
    (NewScopes t (Some r), filter (\<lambda>p. \<not> (i \<noteq> 0 \<and> player_id p = i) \<and> P origin (plCharacter p)) (player_list r))"
  by (simp add: filterTargets_def asking_def NewScopes_def players_list_of [OF ok] filter_targets_exact [OF ok])

lemma NewScopes_fields [simp]: "scTopology (NewScopes t e) = t" "scEntities (NewScopes t e) = e"
  by (simp_all add: NewScopes_def)

lemma asking_pure: "f r = (r, x) \<Longrightarrow> asking none f (NewScopes t (Some r)) = (NewScopes t (Some r), x)"
  by (simp add: asking_def NewScopes_def)

lemma answering_pure: "f s = (s, x) \<Longrightarrow> answering g f s = (s, g x)"
  by (simp add: answering_def)

lemma both_pure: "f s = (s, x) \<Longrightarrow> g s = (s, y) \<Longrightarrow> both f g s = (s, x, y)"
  by (simp add: both_def)

definition actor_list :: "entity_registry \<Rightarrow> static_entity list" where
  "actor_list r = sortStaticEntities (map_values (er_statics r))"

lemma VisibleStaticActors_exact:
  assumes ok: "er_ok r"
  shows "VisibleStaticActors reg c (NewScopes t (Some r)) =
    (NewScopes t (Some r), filter (\<lambda>a. SharesVisibleWorld t c (staticActorVisibilityCharacter a)) (actor_list r))"
proof -
  have "sortStaticEntities (filter P (actor_list r)) = filter P (actor_list r)" for P
    by (simp add: actor_list_def sortStaticEntities_def sort_key_id_if_sorted sorted_filter)
  then show ?thesis
    unfolding VisibleStaticActors_def NewScopes_fields
    by (subst asking_pure [OF answering_pure]) (auto simp: EntityRegistry_lists_exact(2) [OF ok] actor_list_def)
qed

lemma VisibleStaticActorByVID_exact:
  assumes ok: "er_ok r"
  shows "VisibleStaticActorByVID reg c vid (NewScopes t (Some r)) =
    (NewScopes t (Some r),
     case er_statics r (ucast vid) of
       None \<Rightarrow> None
     | Some a \<Rightarrow> if SharesVisibleWorld t c (staticActorVisibilityCharacter a) then Some a else None)"
proof -
  have z: "er_statics r 0 = None" using er_identities(2) [OF ok, of 0] by (cases "er_statics r 0") auto
  then show ?thesis
    unfolding VisibleStaticActorByVID_def NewScopes_fields
    by (simp add: asking_pure [OF answering_pure] EntityRegistry_lookups_exact(5) [OF ok])
qed

section \<open>The occupancy as a function of who is where\<close>

lemma clone_snapshots [simp]: "cloneStaticActorSnapshots as = as" "cloneMapOccupancySnapshots ms = ms"
proof -
  show c: "cloneStaticActorSnapshots as = as" for as
    by (simp add: cloneStaticActorSnapshots_def option.map_id0 [unfolded id_def] id_def option.map_ident)
  show "cloneMapOccupancySnapshots ms = ms"
    unfolding cloneMapOccupancySnapshots_def c by (rule map_idI) simp
qed

definition stand_on :: "topology \<Rightarrow> (u64 \<Rightarrow> player_entity option) \<Rightarrow> u32 \<Rightarrow> character list" where
  "stand_on t P k = sortCharacters (map plCharacter (filter (\<lambda>p. player_map t p = k) (map_values P)))"

definition guard_on :: "topology \<Rightarrow> (u64 \<Rightarrow> static_entity option) \<Rightarrow> u32 \<Rightarrow> static_entity list" where
  "guard_on t S k = sortStaticEntities (filter (\<lambda>a. actor_map t a = k) (map_values S))"

definition ground_map :: "topology \<Rightarrow> ground_item \<Rightarrow> u32" where
  "ground_map t g = EffectiveMapIndex t (zero_character\<lparr>cMapIndex := giMapIndex g\<rparr>)"

definition lie_on :: "topology \<Rightarrow> ground_item list \<Rightarrow> u32 \<Rightarrow> ground_item list" where
  "lie_on t G k = map (\<lambda>g. g\<lparr>giMapIndex := k\<rparr>) (filter (\<lambda>g. giVID g \<noteq> 0 \<and> ground_map t g = k) G)"

text \<open>The snapshot of one map, of the maps that have one, and the list.\<close>

definition map_view ::
    "profile_registry \<Rightarrow> topology \<Rightarrow> character list \<Rightarrow> static_entity list \<Rightarrow> ground_item list \<Rightarrow> u32 \<Rightarrow> map_occupancy_snapshot" where
  "map_view reg t cs as gs k =
     (occupancy_snapshot reg t \<lparr>moMapIndex = k, moCharacters = cs, moStaticActors = as\<rparr>)
       \<lparr>msGroundItems := sortGroundItemSnapshots gs, msGroundItemCount := int (length gs)\<rparr>"

definition view_at ::
    "profile_registry \<Rightarrow> topology \<Rightarrow> (u32 \<Rightarrow> character list) \<Rightarrow> (u32 \<Rightarrow> static_entity list) \<Rightarrow> (u32 \<Rightarrow> ground_item list) \<Rightarrow>
     u32 \<Rightarrow> map_occupancy_snapshot option" where
  "view_at reg t C A G k =
     (if C k = [] \<and> A k = [] \<and> G k = [] then None else Some (map_view reg t (C k) (A k) (G k) k))"

definition listed :: "(u32 \<Rightarrow> map_occupancy_snapshot option) \<Rightarrow> map_occupancy_snapshot list" where
  "listed f = map (\<lambda>k. the (f k)) (sorted_list_of_set (dom f))"

definition keyed :: "(u32 \<Rightarrow> map_occupancy_snapshot option) \<Rightarrow> bool" where
  "keyed f \<longleftrightarrow> finite (dom f) \<and> (\<forall>k m. f k = Some m \<longrightarrow> msMapIndex m = k)"

lemma map_view_index [simp]: "msMapIndex (map_view reg t cs as gs k) = k"
  by (simp add: map_view_def occupancy_snapshot_def Let_def)

lemma view_at_index: "view_at reg t C A G k = Some m \<Longrightarrow> msMapIndex m = k"
  by (auto simp: view_at_def split: if_split_asm)

lemma listed_indices: "keyed f \<Longrightarrow> map msMapIndex (listed f) = sorted_list_of_set (dom f)"
  unfolding listed_def keyed_def by (auto intro!: map_idI simp: map_map [symmetric] simp del: map_map) (auto intro!: map_idI)

lemma listed_set: "keyed f \<Longrightarrow> set (listed f) = ran f"
  by (force simp: listed_def keyed_def ran_def dom_def image_def)

text \<open>A list of snapshots with different indices is the list of its map.\<close>

lemma sorted_is_listed:
  assumes "distinct (map msMapIndex ms)" and "keyed f" and "set ms = ran f"
  shows "sortMapOccupancySnapshots ms = listed f"
proof -
  have "sorted (map msMapIndex (listed f))" "distinct (map msMapIndex (listed f))"
    using assms(2) by (simp_all add: listed_indices)
  then show ?thesis
    unfolding sortMapOccupancySnapshots_def using assms
    by (intro sorted_by_key_unique [of msMapIndex]) (simp_all add: distinct_map_sort_key listed_set)
qed

lemma foldl_upd: "foldl (\<lambda>f m. f(key m \<mapsto> val m)) g ms = g ++ map_of (rev (map (\<lambda>m. (key m, val m)) ms))"
proof (induction ms arbitrary: g)
  case (Cons m ms)
  have "g ++ (map_of (rev (map (\<lambda>m. (key m, val m)) (m # ms)))) = g(key m \<mapsto> val m) ++ map_of (rev (map (\<lambda>m. (key m, val m)) ms))"
    by (rule ext) (simp add: map_add_def split: option.split)
  then show ?case by (simp only: foldl_Cons Cons.IH)
qed simp

lemma by_map_listed:
  assumes f: "keyed f"
  shows "by_map (listed f) = f"
proof -
  let ?l = "map (\<lambda>m. (msMapIndex m, m)) (listed f)"
  have "map fst (rev ?l) = rev (map msMapIndex (listed f))"
    unfolding rev_map [symmetric] map_map o_def by (simp only: fst_conv)
  then have d: "distinct (map fst (rev ?l))" unfolding listed_indices [OF f] by simp
  have "map_of (rev ?l) k = Some m \<longleftrightarrow> f k = Some m" for k m
    unfolding map_of_eq_Some_iff [OF d] set_rev set_map listed_set [OF f] using f
    unfolding keyed_def ran_def by blast
  then have "map_of (rev ?l) = f" by (intro ext option_same) blast
  then show ?thesis unfolding by_map_def foldl_upd by (simp only: empty_map_add)
qed

end
