(* ===== verification/World_Relocation.thy ===== *)
theory World_Relocation
  imports World_Scopes_Facts
begin

text \<open>
  The preview of a relocation against the relocation itself
  (\<open>internal/worldruntime/scopes.go\<close>, \<open>entity_registry.go\<close>).
\<close>

section \<open>Who stands on a map\<close>

lemma sort_key_empty: "sort_key f xs = [] \<longleftrightarrow> xs = []"
  by (metis length_0_conv length_sort)

definition apart :: "(u64 \<Rightarrow> player_entity option) \<Rightarrow> bool" where
  "apart P \<longleftrightarrow> finite (dom P) \<and> (\<forall>i j p q. P i = Some p \<longrightarrow> P j = Some q \<longrightarrow> cVID (plCharacter p) = cVID (plCharacter q) \<longrightarrow> i = j)"

lemma apart_registry: "er_ok r \<Longrightarrow> apart (er_players r)"
  unfolding apart_def using players_finite(1) player_VID_unique by blast

lemma apart_leave: "apart P \<Longrightarrow> apart (P(i := None))"
  by (auto simp: apart_def)

lemma apart_values: "apart P \<Longrightarrow> distinct (map (\<lambda>p. cVID (plCharacter p)) (map_values P))"
proof -
  assume a: "apart P"
  have "(\<lambda>p. cVID (plCharacter p)) (the (P i)) \<noteq> (\<lambda>p. cVID (plCharacter p)) (the (P j))"
    if "i \<in> dom P" "j \<in> dom P" "i \<noteq> j" for i j
    using that a unfolding apart_def by (auto simp: dom_def)
  then have "inj_on (\<lambda>i. cVID (plCharacter (the (P i)))) (dom P)" by (auto intro: inj_onI)
  moreover have "map (\<lambda>p. cVID (plCharacter p)) (map_values P) =
      map (\<lambda>i. cVID (plCharacter (the (P i)))) (sorted_list_of_set (dom P))"
    unfolding map_values_def map_map o_def by (rule refl)
  moreover have "finite (dom P)" using a by (simp add: apart_def)
  ultimately show ?thesis by (simp add: distinct_map)
qed

lemma stand_on_set: "apart P \<Longrightarrow> set (stand_on t P k) = {plCharacter p |p i. P i = Some p \<and> player_map t p = k}"
  unfolding apart_def stand_on_def by (auto simp: set_map_values ran_def)

lemma stand_on_sorted: "sorted (map (\<lambda>c. (cName c, cVID c)) (stand_on t P k))"
  by (simp add: stand_on_def sortCharacters_def)

lemma stand_on_distinct: "apart P \<Longrightarrow> distinct (map cVID (stand_on t P k))"
  using apart_values [of P] by (simp add: stand_on_def o_def distinct_map_filter)

lemma stand_on_eq:
  assumes "apart P" "apart Q" "set (stand_on t P k) = set (stand_on t Q k)"
  shows "stand_on t P k = stand_on t Q k"
  using assms stand_on_distinct
  by (intro sorted_by_key_unique [OF stand_on_sorted stand_on_sorted]) (auto intro: distinct_second)

lemma stand_on_finite: "apart P \<Longrightarrow> finite {k. stand_on t P k \<noteq> []}"
proof -
  have "{k. stand_on t P k \<noteq> []} \<subseteq> player_map t ` set (map_values P)"
    by (auto simp: stand_on_def filter_empty_conv sortCharacters_def sort_key_empty)
  then show ?thesis by (rule finite_subset) simp
qed

lemma guard_on_finite: "finite {k. guard_on t S k \<noteq> []}"
proof -
  have "{k. guard_on t S k \<noteq> []} \<subseteq> actor_map t ` set (map_values S)"
    by (auto simp: guard_on_def filter_empty_conv sortStaticEntities_def sort_key_empty)
  then show ?thesis by (rule finite_subset) simp
qed

lemma lie_on_finite: "finite {k. lie_on t G k \<noteq> []}"
proof -
  have "{k. lie_on t G k \<noteq> []} \<subseteq> ground_map t ` set G" by (auto simp: lie_on_def filter_empty_conv)
  then show ?thesis by (rule finite_subset) simp
qed

lemma player_map_character: "player_map t p = EffectiveMapIndex t (plCharacter p)"
  by (simp add: player_map_def EffectiveMapIndex_def PlayerEntity_Position_def PositionFromCharacter_def NewPosition_def)

section \<open>Snapshots of players\<close>

lemma snapshot_fields [simp]:
  "csName (ConnectedCharacterSnapshotFor t c) = cName c" "csVID (ConnectedCharacterSnapshotFor t c) = cVID c"
  "csMapIndex (ConnectedCharacterSnapshotFor t c) = EffectiveMapIndex t c"
  by (simp_all add: ConnectedCharacterSnapshotFor_def)

lemma connected_set [simp]: "set (connectedCharacterSnapshots t cs) = ConnectedCharacterSnapshotFor t ` set cs"
  and connected_length [simp]: "length (connectedCharacterSnapshots t cs) = length cs"
  and connected_sorted: "sorted (map (\<lambda>c. (csName c, csVID c)) (connectedCharacterSnapshots t cs))"
  and connected_VIDs: "distinct (map csVID (connectedCharacterSnapshots t cs)) = distinct (map cVID cs)"
  by (simp_all add: connectedCharacterSnapshots_def sortConnectedCharacterSnapshots_def distinct_map_sort_key o_def)

lemma connected_empty [simp]: "connectedCharacterSnapshots t cs = [] \<longleftrightarrow> cs = []"
  using connected_length [of t cs] by (metis length_0_conv)

lemma connected_eqI:
  assumes "sorted (map (\<lambda>c. (csName c, csVID c)) xs)" "distinct (map csVID xs)" "distinct (map cVID cs)"
    and "set xs = ConnectedCharacterSnapshotFor t ` set cs"
  shows "xs = connectedCharacterSnapshots t cs"
  using assms by (intro sorted_by_key_unique [OF _ connected_sorted]) (auto intro!: distinct_second simp: connected_VIDs)

lemma connected_sort:
  assumes "distinct (map csVID xs)" "distinct (map cVID cs)" "set xs = ConnectedCharacterSnapshotFor t ` set cs"
  shows "sortConnectedCharacterSnapshots xs = connectedCharacterSnapshots t cs"
  using assms by (intro connected_eqI) (simp_all add: sortConnectedCharacterSnapshots_def distinct_map_sort_key)

lemma connected_cong:
  assumes "distinct (map cVID cs)" "distinct (map cVID ds)" "set cs = set ds"
  shows "connectedCharacterSnapshots t cs = connectedCharacterSnapshots t ds"
  using assms by (intro connected_eqI connected_sorted) (simp_all add: connected_VIDs)

section \<open>The occupancy that is shown\<close>

lemma view_keyed:
  assumes "finite {k. C k \<noteq> []}" "finite {k. A k \<noteq> []}" "finite {k. G k \<noteq> []}"
  shows "keyed (view_at reg t C A G)"
proof -
  have "dom (view_at reg t C A G) \<subseteq> {k. C k \<noteq> []} \<union> {k. A k \<noteq> []} \<union> {k. G k \<noteq> []}"
    by (auto simp: view_at_def split: if_split_asm)
  then have "finite (dom (view_at reg t C A G))" by (rule finite_subset) (use assms in simp)
  then show ?thesis unfolding keyed_def using view_at_index by blast
qed

lemma map_view_bare: "map_view reg t cs as [] k = occupancy_snapshot reg t \<lparr>moMapIndex = k, moCharacters = cs, moStaticActors = as\<rparr>"
  by (simp add: map_view_def occupancy_snapshot_def Let_def sortGroundItemSnapshots_def)

lemma map_view_empty: "map_view reg t [] [] [] k = zero_occupancy\<lparr>msMapIndex := k\<rparr>"
  by (simp add: map_view_bare occupancy_snapshot_def Let_def zero_occupancy_def connectedCharacterSnapshots_def
      sortConnectedCharacterSnapshots_def staticActorSnapshots_def sortStaticActorSnapshots_def spawnGroupSnapshots_def)

lemma map_of_occupancy:
  assumes ok: "er_ok r"
  shows "dom (view_at reg t (stand_on (erTopology r) (er_players r)) (guard_on (erTopology r) (er_statics r)) (\<lambda>k. [])) =
    player_map (erTopology r) ` ran (er_players r) \<union> actor_map (erTopology r) ` ran (er_statics r)"
  using players_finite [OF ok]
  by (auto simp: view_at_def stand_on_def guard_on_def sortCharacters_def sortStaticEntities_def sort_key_empty filter_empty_conv
      set_map_values dom_def split: if_split_asm)

lemma sorted_listed: "keyed f \<Longrightarrow> sortMapOccupancySnapshots (listed f) = listed f"
  by (intro sorted_is_listed) (simp_all add: listed_indices listed_set)

lemma MapOccupancySnapshots_exact:
  assumes ok: "er_ok r" and t: "erTopology r = t"
  shows "MapOccupancySnapshots reg (NewScopes t (Some r)) = (NewScopes t (Some r),
    listed (view_at reg t (stand_on t (er_players r)) (guard_on t (er_statics r)) (\<lambda>k. [])))"
proof -
  let ?v = "view_at reg t (stand_on t (er_players r)) (guard_on t (er_statics r)) (\<lambda>k. [])"
  let ?o = "\<lambda>k. \<lparr>moMapIndex = k, moCharacters = sortCharacters (map plCharacter (players_on (erMaps r) k)),
                  moStaticActors = sortStaticEntities (statics_on (erMaps r) k)\<rparr>"
  have K: "player_map t ` ran (er_players r) \<union> actor_map t ` ran (er_statics r) = dom ?v"
    using map_of_occupancy [OF ok] t by simp
  have keyed: "keyed ?v"
    by (intro view_keyed stand_on_finite apart_registry ok guard_on_finite) simp
  have "occupancy_snapshot reg t (?o k) = the (?v k)" if "k \<in> dom ?v" for k
    using that er_okD(6) [OF ok] t
    by (auto simp: view_at_def map_view_bare stand_on_def guard_on_def players_on_def statics_on_def split: if_split_asm)
  then have "map (occupancy_snapshot reg t) (map ?o (sorted_list_of_set (dom ?v))) = listed ?v"
    using keyed by (simp add: listed_def keyed_def)
  moreover have "EntityRegistry_MapOccupancy reg r = (r, map ?o (sorted_list_of_set (dom ?v)))"
    using er_okD(6) [OF ok] t
    by (simp add: EntityRegistry_lists_exact(5) [OF ok] on_maps_def MapIndex_Snapshot_exact [OF er_okD(3) [OF ok]] K [symmetric])
  ultimately have "answering (buildMapOccupancySnapshots reg t) (EntityRegistry_MapOccupancy reg) r = (r, listed ?v)"
    unfolding buildMapOccupancySnapshots_def by (simp add: answering_def sorted_listed [OF keyed] del: map_map)
  then show ?thesis unfolding MapOccupancySnapshots_def NewScopes_fields by (rule asking_pure)
qed

section \<open>Ground items\<close>

definition holds :: "map_occupancy_snapshot list \<Rightarrow> (u32 \<Rightarrow> map_occupancy_snapshot) \<Rightarrow> bool" where
  "holds ms F \<longleftrightarrow> distinct (map msMapIndex ms) \<and> (\<forall>m \<in> set ms. m = F (msMapIndex m)) \<and>
     (\<forall>k. k \<notin> msMapIndex ` set ms \<longrightarrow> F k = zero_occupancy\<lparr>msMapIndex := k\<rparr>)"

lemma put_ground_indices:
  "distinct (map msMapIndex ms) \<Longrightarrow> distinct (map msMapIndex (put_ground k g ms))"
  "msMapIndex ` set (put_ground k g ms) = insert k (msMapIndex ` set ms)"
proof -
  show i: "msMapIndex ` set (put_ground k g ms) = insert k (msMapIndex ` set ms)" for ms
    by (induction ms) (auto simp: list_ex_iff)
  show "distinct (map msMapIndex (put_ground k g ms))" if "distinct (map msMapIndex ms)"
    using that
  proof (induction ms)
    case (Cons m ms)
    have "msMapIndex ` set (put_ground k g ms) = insert k (msMapIndex ` set ms)" by (rule i)
    with Cons show ?case by (simp add: list_ex_iff image_iff) (metis Cons.prems(1) distinct.simps(2) image_eqI list.set_map list.simps(9))
  qed simp
qed

lemma put_ground_elements:
  "m \<in> set (put_ground k g ms) \<Longrightarrow> distinct (map msMapIndex ms) \<Longrightarrow>
     (m \<in> set ms \<and> msMapIndex m \<noteq> k) \<or>
     (\<exists>n \<in> set ms. msMapIndex n = k \<and> m = n\<lparr>msGroundItems := msGroundItems n @ [g]\<rparr>) \<or>
     (k \<notin> msMapIndex ` set ms \<and> m = zero_occupancy\<lparr>msMapIndex := k, msGroundItems := [g]\<rparr>)"
  by (induction ms) (auto simp: list_ex_iff split: if_split_asm)

lemma put_ground_holds:
  assumes h: "holds ms F"
  shows "holds (put_ground k g ms) (F(k := (F k)\<lparr>msGroundItems := msGroundItems (F k) @ [g]\<rparr>))"
  unfolding holds_def put_ground_indices(2)
proof (intro conjI ballI allI impI)
  note d = h [unfolded holds_def]
  show "distinct (map msMapIndex (put_ground k g ms))" using d put_ground_indices(1) by blast
  show "(F(k := (F k)\<lparr>msGroundItems := msGroundItems (F k) @ [g]\<rparr>)) j = zero_occupancy\<lparr>msMapIndex := j\<rparr>"
    if "j \<notin> insert k (msMapIndex ` set ms)" for j using that d by simp
  show "m = (F(k := (F k)\<lparr>msGroundItems := msGroundItems (F k) @ [g]\<rparr>)) (msMapIndex m)"
    if m: "m \<in> set (put_ground k g ms)" for m
    using put_ground_elements [OF m conjunct1 [OF d]]
  proof (elim disjE)
    assume "\<exists>n \<in> set ms. msMapIndex n = k \<and> m = n\<lparr>msGroundItems := msGroundItems n @ [g]\<rparr>"
    then obtain n where n: "n \<in> set ms" "msMapIndex n = k" "m = n\<lparr>msGroundItems := msGroundItems n @ [g]\<rparr>" by blast
    have "n = F k" using d n(1,2) by blast
    with n show ?thesis by simp
  next
    assume "k \<notin> msMapIndex ` set ms \<and> m = zero_occupancy\<lparr>msMapIndex := k, msGroundItems := [g]\<rparr>"
    moreover from this have "F k = zero_occupancy\<lparr>msMapIndex := k\<rparr>" using d by blast
    ultimately show ?thesis by (simp add: zero_occupancy_def)
  qed (use d in auto)
qed

definition raw_view ::
    "profile_registry \<Rightarrow> topology \<Rightarrow> (u32 \<Rightarrow> character list) \<Rightarrow> (u32 \<Rightarrow> static_entity list) \<Rightarrow> ground_item list \<Rightarrow> u32 \<Rightarrow> map_occupancy_snapshot" where
  "raw_view reg t C A G k = (map_view reg t (C k) (A k) [] k)\<lparr>msGroundItems := lie_on t G k\<rparr>"

lemma raw_view_snoc:
  "raw_view reg t C A (G @ [g]) =
     (if giVID g = 0 then raw_view reg t C A G
      else let k = ground_map t g; F = raw_view reg t C A G in
        F(k := (F k)\<lparr>msGroundItems := msGroundItems (F k) @ [g\<lparr>giMapIndex := k\<rparr>]\<rparr>))"
  by (rule ext) (simp add: raw_view_def lie_on_def Let_def)

lemma append_ground_holds:
  assumes "keyed (view_at reg t C A (\<lambda>k. []))"
  shows "holds (foldl (append_ground t) (listed (view_at reg t C A (\<lambda>k. []))) G) (raw_view reg t C A G) \<and>
    msMapIndex ` set (foldl (append_ground t) (listed (view_at reg t C A (\<lambda>k. []))) G) =
      {k. C k \<noteq> [] \<or> A k \<noteq> [] \<or> lie_on t G k \<noteq> []}"
proof (induction G rule: rev_induct)
  case Nil
  let ?v = "view_at reg t C A (\<lambda>k. [])"
  have i: "msMapIndex ` set (listed ?v) = {k. C k \<noteq> [] \<or> A k \<noteq> []}"
    unfolding set_map [symmetric] listed_indices [OF assms] using assms
    by (auto simp: keyed_def view_at_def split: if_split_asm)
  have "m = raw_view reg t C A [] (msMapIndex m)" if "m \<in> set (listed ?v)" for m
  proof -
    from that obtain k where "?v k = Some m" unfolding listed_set [OF assms] by (auto simp: ran_def)
    then have "m = map_view reg t (C k) (A k) [] k" by (auto simp: view_at_def split: if_split_asm)
    then show ?thesis by (simp add: raw_view_def lie_on_def) (simp add: map_view_def sortGroundItemSnapshots_def)
  qed
  moreover have "raw_view reg t C A [] k = zero_occupancy\<lparr>msMapIndex := k\<rparr>" if "C k = []" "A k = []" for k
    using that by (simp add: raw_view_def lie_on_def map_view_empty zero_occupancy_def)
  ultimately show ?case
    using i assms by (auto simp: holds_def listed_indices lie_on_def)
next
  case (snoc g G)
  have l: "{k. C k \<noteq> [] \<or> A k \<noteq> [] \<or> lie_on t (G @ [g]) k \<noteq> []} =
      (if giVID g = 0 then id else insert (ground_map t g)) {k. C k \<noteq> [] \<or> A k \<noteq> [] \<or> lie_on t G k \<noteq> []}"
    by (auto simp: lie_on_def)
  obtain ms where ms: "foldl (append_ground t) (listed (view_at reg t C A (\<lambda>k. []))) G = ms"
      "holds ms (raw_view reg t C A G)" "msMapIndex ` set ms = {k. C k \<noteq> [] \<or> A k \<noteq> [] \<or> lie_on t G k \<noteq> []}"
    using snoc by blast
  have "foldl (append_ground t) (listed (view_at reg t C A (\<lambda>k. []))) (G @ [g]) =
      (if giVID g = 0 then ms else put_ground (ground_map t g) (g\<lparr>giMapIndex := ground_map t g\<rparr>) ms)"
    by (simp add: ms(1) append_ground_def [of t ms] ground_map_def Let_def)
  then show ?case
    using ms(2,3) put_ground_holds [OF ms(2), of "ground_map t g" "g\<lparr>giMapIndex := ground_map t g\<rparr>"]
    unfolding l raw_view_snoc Let_def by (cases "giVID g = 0") (simp_all only: if_True if_False id_apply put_ground_indices(2) simp_thms)
qed

lemma AppendGroundItems_exact:
  assumes k: "finite {k. C k \<noteq> []}" "finite {k. A k \<noteq> []}"
  shows "AppendGroundItemsToMapOccupancySnapshots t (listed (view_at reg t C A (\<lambda>k. []))) G = listed (view_at reg t C A (lie_on t G))"
proof (cases "G = []")
  case True
  then have "lie_on t G = (\<lambda>k. [])" by (simp add: lie_on_def fun_eq_iff)
  with True show ?thesis by (simp add: AppendGroundItemsToMapOccupancySnapshots_def Let_def)
next
  case False
  let ?v = "view_at reg t C A (lie_on t G)" and ?F = "raw_view reg t C A G"
  let ?f = "\<lambda>m. m\<lparr>msGroundItems := sortGroundItemSnapshots (msGroundItems m), msGroundItemCount := int (length (msGroundItems m))\<rparr>"
  have "keyed (view_at reg t C A (\<lambda>k. []))" by (intro view_keyed k) simp
  from append_ground_holds [OF this, of G] obtain ms where
    ms: "foldl (append_ground t) (listed (view_at reg t C A (\<lambda>k. []))) G = ms" "holds ms ?F"
      "msMapIndex ` set ms = {k. C k \<noteq> [] \<or> A k \<noteq> [] \<or> lie_on t G k \<noteq> []}" by blast
  have f: "?f (?F k) = map_view reg t (C k) (A k) (lie_on t G k) k" for k
    by (simp add: raw_view_def map_view_def)
  have m: "?f m = map_view reg t (C k) (A k) (lie_on t G k) k" if "m \<in> set ms" "msMapIndex m = k" for m k
    using ms(2) that f [of k] unfolding holds_def by metis
  have "set (map ?f ms) = ran ?v"
  proof (intro equalityI subsetI)
    fix x assume "x \<in> set (map ?f ms)"
    then obtain y where y: "y \<in> set ms" "x = ?f y" by auto
    then have "?v (msMapIndex y) = Some x" using ms(3) m [OF y(1) refl] by (auto simp: view_at_def)
    then show "x \<in> ran ?v" by (auto simp: ran_def)
  next
    fix x assume "x \<in> ran ?v"
    then obtain k where k: "?v k = Some x" by (auto simp: ran_def)
    then have "k \<in> msMapIndex ` set ms" unfolding ms(3) by (auto simp: view_at_def split: if_split_asm)
    then obtain y where "y \<in> set ms" "msMapIndex y = k" by blast
    moreover from m [OF this] k have "?f y = x" by (auto simp: view_at_def split: if_split_asm)
    ultimately show "x \<in> set (map ?f ms)" by auto
  qed
  moreover have "distinct (map msMapIndex (map ?f ms))" using ms(2) by (simp add: holds_def o_def)
  moreover have "keyed ?v" by (intro view_keyed k lie_on_finite)
  ultimately show ?thesis
    using False sorted_is_listed [of "map ?f ms" ?v]
    by (simp only: AppendGroundItemsToMapOccupancySnapshots_def Let_def clone_snapshots ms(1) if_False)
qed

section \<open>Leaving one map and entering another\<close>

lemma map_view_fields [simp]:
  "msCharacters (map_view reg t cs as gs k) = connectedCharacterSnapshots t cs"
  "msCharacterCount (map_view reg t cs as gs k) = int (length cs)"
  "msStaticActorCount (map_view reg t cs as gs k) = int (length as)"
  "msStaticActors (map_view reg t cs as gs k) = staticActorSnapshots reg t as"
  "msGroundItemCount (map_view reg t cs as gs k) = int (length gs)"
  "msGroundItems (map_view reg t cs as gs k) = sortGroundItemSnapshots gs"
  by (simp_all add: map_view_def occupancy_snapshot_def Let_def)

lemma map_view_characters:
  "(map_view reg t cs as gs k)\<lparr>msCharacters := connectedCharacterSnapshots t ds, msCharacterCount := int (length ds)\<rparr> =
   map_view reg t ds as gs k"
  by (simp add: map_view_def occupancy_snapshot_def Let_def)

lemma recount_view [simp]: "recount k (map_view reg t cs as gs k) = map_view reg t cs as gs k"
  by (simp add: map_view_def occupancy_snapshot_def Let_def recount_def connectedCharacterSnapshots_def
      sortConnectedCharacterSnapshots_def staticActorSnapshots_def sortStaticActorSnapshots_def sortGroundItemSnapshots_def
      sort_key_id_if_sorted)

lemma stand_on_update:
  assumes a: "apart P" and p: "P i = Some p"
  shows "k \<noteq> player_map t p \<Longrightarrow> stand_on t (P(i := None)) k = stand_on t P k"
    and "set (stand_on t (P(i := None)) k) = {c \<in> set (stand_on t P k). cVID c \<noteq> cVID (plCharacter p)}"
proof -
  note a' = apart_leave [OF a, of i]
  have u: "cVID (plCharacter q) = cVID (plCharacter p) \<longleftrightarrow> j = i" if "P j = Some q" for j q
    using a p that unfolding apart_def by (metis option.inject)
  show s: "set (stand_on t (P(i := None)) k) = {c \<in> set (stand_on t P k). cVID c \<noteq> cVID (plCharacter p)}" for k
    unfolding stand_on_set [OF a] stand_on_set [OF a'] using u by (auto split: if_split_asm)
  assume "k \<noteq> player_map t p"
  then have "plCharacter q \<noteq> plCharacter p" if "P j = Some q" "player_map t q = k" for j q
    using that by (auto simp: player_map_character)
  then have "set (stand_on t (P(i := None)) k) = set (stand_on t P k)"
    unfolding s stand_on_set [OF a] using u p \<open>k \<noteq> player_map t p\<close> by fastforce
  with a a' show "stand_on t (P(i := None)) k = stand_on t P k" by (intro stand_on_eq)
qed

lemma leave_map_view:
  assumes a: "apart P" and p: "P i = Some p"
  shows "leave_map (ConnectedCharacterSnapshotFor t (plCharacter p)) (view_at reg t (stand_on t P) A G) =
    view_at reg t (stand_on t (P(i := None))) A G"
proof
  fix k
  let ?k = "player_map t p" and ?Q = "P(i := None)"
  let ?cs = "stand_on t ?Q ?k"
  have "plCharacter p \<in> set (stand_on t P ?k)" unfolding stand_on_set [OF a] using p by blast
  then have some: "view_at reg t (stand_on t P) A G ?k = Some (map_view reg t (stand_on t P ?k) (A ?k) (G ?k) ?k)"
    by (auto simp: view_at_def)
  have "filter (\<lambda>c. csVID c \<noteq> cVID (plCharacter p)) (connectedCharacterSnapshots t (stand_on t P ?k)) = connectedCharacterSnapshots t ?cs"
    using stand_on_distinct [OF a] stand_on_distinct [OF apart_leave [OF a]]
    by (intro connected_eqI)
      (auto simp: stand_on_update(2) [OF a p] sorted_filter connected_sorted distinct_map_filter connected_VIDs)
  then show "leave_map (ConnectedCharacterSnapshotFor t (plCharacter p)) (view_at reg t (stand_on t P) A G) k =
    view_at reg t (stand_on t ?Q) A G k"
    using some stand_on_update(1) [OF a p, of k t]
    by (cases "k = ?k")
      (simp_all add: leave_map_def player_map_character [symmetric] Let_def map_view_characters view_at_def)
qed

lemma enter_map_view:
  assumes a: "apart Q" and a': "apart (Q(i \<mapsto> p))" and i: "Q i = None"
  shows "enter_map (ConnectedCharacterSnapshotFor t (plCharacter p)) (view_at reg t (stand_on t Q) A G) =
    view_at reg t (stand_on t (Q(i \<mapsto> p))) A G"
proof
  fix k
  let ?k = "player_map t p" and ?P = "Q(i \<mapsto> p)" and ?new = "ConnectedCharacterSnapshotFor t (plCharacter p)"
  have m: "stand_on t ?P k = stand_on t Q k" if "k \<noteq> ?k" for k
    using that stand_on_update(1) [OF a', of i p k t] i by (simp add: fun_upd_idem)
  have s: "set (stand_on t ?P ?k) = insert (plCharacter p) (set (stand_on t Q ?k))"
  proof -
    have "?P j = Some q \<longleftrightarrow> j = i \<and> q = p \<or> Q j = Some q" for j q using i by auto
    then show ?thesis unfolding stand_on_set [OF a] stand_on_set [OF a'] by (simp only:) blast
  qed
  have v: "cVID (plCharacter p) \<notin> cVID ` set (stand_on t Q ?k)"
  proof -
    have "cVID (plCharacter q) \<noteq> cVID (plCharacter p)" if q: "Q j = Some q" for j q
    proof -
      have "j \<noteq> i" using q i by auto
      moreover have "?P i = Some p" "?P j = Some q" using q \<open>j \<noteq> i\<close> by simp_all
      ultimately show ?thesis using a' unfolding apart_def by metis
    qed
    then show ?thesis unfolding stand_on_set [OF a] by (auto simp: image_iff) metis
  qed
  have n: "\<not> list_ex (\<lambda>c. csVID c = cVID (plCharacter p)) (connectedCharacterSnapshots t (stand_on t Q ?k))"
  proof -
    have "\<forall>c \<in> set (stand_on t Q ?k). cVID c \<noteq> cVID (plCharacter p)" using v by (metis image_eqI)
    then show ?thesis by (simp add: list_ex_iff)
  qed
  have c: "sortConnectedCharacterSnapshots (connectedCharacterSnapshots t (stand_on t Q ?k) @ [?new]) =
      connectedCharacterSnapshots t (stand_on t ?P ?k)"
    using stand_on_distinct [OF a] stand_on_distinct [OF a'] v
    by (intro connected_sort) (auto simp: s connected_VIDs image_iff)
  have l: "length (stand_on t ?P ?k) = length (connectedCharacterSnapshots t (stand_on t ?P ?k))" by simp
  have "(case view_at reg t (stand_on t Q) A G ?k of None \<Rightarrow> zero_occupancy | Some m \<Rightarrow> m)\<lparr>msMapIndex := ?k\<rparr> =
      map_view reg t (stand_on t Q ?k) (A ?k) (G ?k) ?k"
  proof (cases "view_at reg t (stand_on t Q) A G ?k")
    case None
    then have "stand_on t Q ?k = []" "A ?k = []" "G ?k = []" by (simp_all add: view_at_def split: if_split_asm)
    with None show ?thesis by (simp add: map_view_empty)
  next
    case (Some m)
    then have "m = map_view reg t (stand_on t Q ?k) (A ?k) (G ?k) ?k" by (simp add: view_at_def split: if_split_asm)
    with Some show ?thesis by (simp add: map_view_def occupancy_snapshot_def Let_def)
  qed
  then obtain m0 where m0: "(case view_at reg t (stand_on t Q) A G ?k of None \<Rightarrow> zero_occupancy | Some m \<Rightarrow> m) = m0"
      "m0\<lparr>msMapIndex := ?k\<rparr> = map_view reg t (stand_on t Q ?k) (A ?k) (G ?k) ?k" by blast
  have "msCharacters (m0\<lparr>msMapIndex := ?k\<rparr>) = connectedCharacterSnapshots t (stand_on t Q ?k)" unfolding m0(2) by simp
  then have ch: "msCharacters m0 = connectedCharacterSnapshots t (stand_on t Q ?k)" by simp
  let ?new_cs = "connectedCharacterSnapshots t (stand_on t ?P ?k)"
  have "m0\<lparr>msMapIndex := ?k, msCharacters := ?new_cs, msCharacterCount := int (length ?new_cs)\<rparr> =
      map_view reg t (stand_on t ?P ?k) (A ?k) (G ?k) ?k"
    unfolding m0(2) connected_length by (rule map_view_characters)
  moreover have "stand_on t ?P ?k \<noteq> []" using s by (metis empty_iff empty_set insertI1)
  ultimately show "enter_map ?new (view_at reg t (stand_on t Q) A G) k = view_at reg t (stand_on t ?P) A G k"
    unfolding enter_map_def snapshot_fields player_map_character [symmetric] m0(1) Let_def ch
    using n c m [of k] by (cases "k = ?k") (simp_all add: view_at_def)
qed

lemma relocate_view:
  assumes a: "apart P" and a': "apart (P(i \<mapsto> q))" and p: "P i = Some p"
    and k: "finite {k. A k \<noteq> []}" "finite {k. G k \<noteq> []}"
  shows "relocateMapOccupancySnapshots (listed (view_at reg t (stand_on t P) A G)) t (plCharacter p) (plCharacter q) =
    listed (view_at reg t (stand_on t (P(i \<mapsto> q))) A G)"
proof -
  let ?v = "view_at reg t (stand_on t (P(i \<mapsto> q))) A G"
  have v: "keyed (view_at reg t (stand_on t P) A G)" "keyed ?v"
    by (intro view_keyed stand_on_finite a a' k)+
  have e: "enter_map (ConnectedCharacterSnapshotFor t (plCharacter q)) (leave_map (ConnectedCharacterSnapshotFor t (plCharacter p))
      (by_map (listed (view_at reg t (stand_on t P) A G)))) = ?v"
    unfolding by_map_listed [OF v(1)] leave_map_view [OF a p]
    using enter_map_view [OF apart_leave [OF a], where i = i and p = q] a' by simp
  have r: "recount k (the (?v k)) = the (?v k)" if "k \<in> dom ?v" for k
    using that by (auto simp: view_at_def split: if_split_asm)
  then have "map (\<lambda>k. recount k (the (?v k))) (sorted_list_of_set (dom ?v)) = listed ?v"
    using v(2) by (simp add: listed_def keyed_def)
  then show ?thesis
    unfolding relocateMapOccupancySnapshots_def clone_snapshots e Let_def by (simp only: sorted_listed [OF v(2)])
qed

section \<open>The preview and the relocation\<close>

lemma replace_first_keys: "key y = k \<Longrightarrow> map key (replace_first (\<lambda>x. key x = k) y xs) = map key xs"
  by (induction xs) auto

lemma replace_first_set:
  "distinct (map key xs) \<Longrightarrow> k \<in> key ` set xs \<Longrightarrow>
   set (replace_first (\<lambda>x. key x = k) y xs) = insert y {x \<in> set xs. key x \<noteq> k}"
  by (induction xs) (auto simp: image_iff)

text \<open>The peers of a player are the targets of what the player shows.\<close>

lemma peers_are_targets:
  assumes ok: "er_ok r" and p: "er_players r i = Some p"
    and cs: "set cs = plCharacter ` ran (er_players r)" "distinct (map cVID cs)"
  shows "connectedCharacterSnapshots t (cloneCharacters (VisiblePeers t (plCharacter p) cs (cVID (plCharacter p)))) =
    connectedCharacterSnapshots t (map plCharacter (snd (VisibleTargets i (plCharacter p) (NewScopes t (Some r)))))"
proof (rule connected_cong)
  let ?c = "plCharacter p"
  have nz: "i \<noteq> 0" using er_identities(1) [OF ok p] by blast
  have id: "player_id q = i \<longleftrightarrow> cVID (plCharacter q) = cVID ?c" if "q \<in> ran (er_players r)" for q
  proof -
    from that obtain j where j: "er_players r j = Some q" by (auto simp: ran_def)
    show ?thesis using player_VID_unique [OF ok j p] player_facts(1) [OF ok j] p j by (metis option.inject)
  qed
  show "distinct (map cVID (cloneCharacters (VisiblePeers t ?c cs (cVID ?c))))"
    using cs(2) by (simp add: VisiblePeers_def distinct_map_filter)
  show "distinct (map cVID (map plCharacter (snd (VisibleTargets i ?c (NewScopes t (Some r))))))"
    using players_distinct(3) [OF ok] by (simp add: VisibleTargets_def filterTargets_exact [OF ok] o_def distinct_map_filter)
  show "set (cloneCharacters (VisiblePeers t ?c cs (cVID ?c))) =
      set (map plCharacter (snd (VisibleTargets i ?c (NewScopes t (Some r)))))"
    using nz id by (auto simp: VisiblePeers_set cs(1) VisibleTargets_def filterTargets_exact [OF ok] player_list_set [OF ok])
qed

lemma clone_actor_list:
  assumes ok: "er_ok r" shows "cloneStaticActors (filter P (actor_list r)) = filter P (actor_list r)"
proof -
  have "map cloneStaticEntity (filter P (actor_list r)) = filter P (actor_list r)"
    by (rule clone_actors [OF er_okD(3) [OF ok]]) (auto simp: actor_list_def sortStaticEntities_def)
  moreover have "sortStaticEntities (filter P (actor_list r)) = filter P (actor_list r)"
    by (simp add: actor_list_def sortStaticEntities_def sort_key_id_if_sorted sorted_filter)
  ultimately show ?thesis by (simp add: cloneStaticActors_def cloneStaticEntity_def [abs_def])
qed

lemma clone_ground: "cloneGroundItemSnapshots (VisibleGroundItems t c G) = VisibleGroundItems t c G"
  by (simp add: cloneGroundItemSnapshots_def VisibleGroundItems_def Let_def sortGroundItemSnapshots_def sort_key_id_if_sorted)

lemma updated_player:
  assumes ok: "er_ok r" and u: "EntityRegistry_UpdatePlayer r i target = (r', True)"
  shows "er_ok r'" "er_players r' = (er_players r)(i \<mapsto> newPlayerEntity i target)" "er_statics r' = er_statics r"
    "erTopology r' = erTopology r"
proof -
  let ?p = "newPlayerEntity i target"
  from u have f: "er_players r i \<noteq> None" "player_fits r ?p" and r': "r' = er_put_player r ?p"
    by (simp_all add: EntityRegistry_UpdatePlayer_exact [OF ok] Let_def split: if_split_asm)
  have "i \<le> erNextID r" using er_okD(7) [OF ok f(1)] .
  with er_put_player_ok [OF ok f(2)] show "er_ok r'" unfolding r' by simp
  show "er_players r' = (er_players r)(i \<mapsto> newPlayerEntity i target)" "er_statics r' = er_statics r"
    "erTopology r' = erTopology r" unfolding r' by simp_all
qed

lemma relocatedCharacters_exact:
  assumes ok: "er_ok r"
  shows "relocatedCharacters cur target (NewScopes t (Some r)) = (NewScopes t (Some r), map plCharacter (player_list r),
    replace_first (\<lambda>c. cVID c = cVID cur) target (map plCharacter (player_list r)))"
  unfolding relocatedCharacters_def by (rule asking_pure) (simp add: answering_def players_list_of [OF ok])

lemma preview_steps:
  assumes ok: "er_ok r" and t: "erTopology r = t"
  defines "s \<equiv> NewScopes t (Some r)" and "cs \<equiv> map plCharacter (player_list r)"
  shows "Scopes_RelocateVisibilityDiff cur target s = (s, BuildVisibilityDiff (VisiblePeers t cur cs (cVID cur))
      (VisiblePeers t target (replace_first (\<lambda>c. cVID c = cVID cur) target cs) (cVID target)))"
    and "RelocateStaticActorVisibilityDiff reg cur target s = (s, buildStaticActorVisibilityDiff
      (snd (VisibleStaticActors reg cur s)) (snd (VisibleStaticActors reg target s)))"
    and "MapOccupancySnapshots reg s =
      (s, listed (view_at reg t (stand_on t (er_players r)) (guard_on t (er_statics r)) (\<lambda>k. [])))"
  unfolding s_def cs_def
  by (simp_all add: Scopes_RelocateVisibilityDiff_def relocatedCharacters_exact [OF ok] answering_def
      RelocateStaticActorVisibilityDiff_def both_def VisibleStaticActors_exact [OF ok] MapOccupancySnapshots_exact [OF ok t])

lemma preview_exact:
  fixes reg :: profile_registry and G :: "ground_item list"
  assumes ok: "er_ok r" and t: "erTopology r = t"
  defines "s \<equiv> NewScopes t (Some r)" and "cs \<equiv> map plCharacter (player_list r)"
  defines "before \<equiv> AppendGroundItemsToMapOccupancySnapshots t (snd (MapOccupancySnapshots reg s)) G"
  obtains pv where "BuildRelocationPreviewWithGroundItems reg cur target applied G s = (s, pv)"
    "rpBeforeMapOccupancy pv = before" "rpAfterMapOccupancy pv = relocateMapOccupancySnapshots before t cur target"
    "rpMapOccupancyChanges pv = buildMapOccupancyChanges before (rpAfterMapOccupancy pv)"
    "rpCurrentVisiblePeers pv = connectedCharacterSnapshots t (cloneCharacters (VisiblePeers t cur cs (cVID cur)))"
    "rpTargetVisiblePeers pv = connectedCharacterSnapshots t
      (cloneCharacters (VisiblePeers t target (replace_first (\<lambda>c. cVID c = cVID cur) target cs) (cVID target)))"
    "rpCurrentVisibleStaticActors pv = staticActorSnapshots reg t (cloneStaticActors (snd (VisibleStaticActors reg cur s)))"
    "rpTargetVisibleStaticActors pv = staticActorSnapshots reg t (cloneStaticActors (snd (VisibleStaticActors reg target s)))"
    "rpCurrentVisibleGroundItems pv = cloneGroundItemSnapshots (VisibleGroundItems t cur G)"
    "rpTargetVisibleGroundItems pv = cloneGroundItemSnapshots (VisibleGroundItems t target G)"
proof -
  note steps = preview_steps [OF ok t, folded s_def]
  have s: "scTopology s = t" "scEntities s = Some r" by (simp_all add: s_def)
  show thesis
    by (rule that [of "snd (BuildRelocationPreviewWithGroundItems reg cur target applied G s)"])
      (simp_all add: BuildRelocationPreviewWithGroundItems_def s steps before_def cs_def Let_def BuildVisibilityDiff_def
        buildStaticActorVisibilityDiff_def Scopes_RelocateGroundItemVisibilityDiff_def RelocateGroundItemVisibilityDiff_def
        BuildGroundItemVisibilityDiff_def case_prod_beta del: cloneCharacters_sort)
qed

section \<open>The counts that change\<close>

definition population :: "topology \<Rightarrow> (u64 \<Rightarrow> player_entity option) \<Rightarrow> u32 \<Rightarrow> nat" where
  "population t P k = card {j. \<exists>q. P j = Some q \<and> player_map t q = k}"

lemma stand_on_length: "apart P \<Longrightarrow> length (stand_on t P k) = population t P k"
proof -
  assume "apart P"
  then have f: "finite (dom P)" by (simp add: apart_def)
  let ?on = "\<lambda>j. player_map t (the (P j)) = k"
  have "length (stand_on t P k) = length (filter ?on (sorted_list_of_set (dom P)))"
    by (simp add: stand_on_def sortCharacters_def map_values_def filter_map o_def)
  also have "\<dots> = card (set (filter ?on (sorted_list_of_set (dom P))))"
    by (rule distinct_card [symmetric]) simp
  also have "set (filter ?on (sorted_list_of_set (dom P))) = {j. \<exists>q. P j = Some q \<and> player_map t q = k}"
    using f by (auto simp: dom_def)
  finally show ?thesis by (simp add: population_def)
qed

lemma population_update:
  assumes f: "finite (dom P)" and p: "P i = Some p"
  shows "int (population t (P(i \<mapsto> q)) k) =
    int (population t P k) - of_bool (k = player_map t p) + of_bool (k = player_map t q)"
proof -
  let ?S = "\<lambda>P. {j. \<exists>q. P j = Some q \<and> player_map t q = k}"
  let ?R = "?S P - {i}"
  have fin: "finite (?S P)" by (rule finite_subset [OF _ f]) auto
  have a: "card (?S P) = card ?R + of_bool (k = player_map t p)"
  proof (cases "k = player_map t p")
    case True
    then have "i \<in> ?S P" using p by blast
    with True show ?thesis using card.remove [OF fin] by simp
  next
    case False
    then have "?R = ?S P" using p by auto
    with False show ?thesis by simp
  qed
  have "card (?S (P(i \<mapsto> q))) = card ?R + of_bool (k = player_map t q)"
  proof (cases "k = player_map t q")
    case True
    then have "?S (P(i \<mapsto> q)) = insert i ?R" by (auto split: if_splits)
    moreover have "card (insert i ?R) = Suc (card ?R)" by (rule card_insert_disjoint) (use fin in simp_all)
    ultimately have "card (?S (P(i \<mapsto> q))) = Suc (card ?R)" by (simp only:)
    with True show ?thesis by simp
  next
    case False
    then have "?S (P(i \<mapsto> q)) = ?R" by (auto split: if_splits)
    then have "card (?S (P(i \<mapsto> q))) = card ?R" by (simp only:)
    with False show ?thesis by simp
  qed
  with a show ?thesis by (simp add: population_def)
qed

lemma character_counts_listed:
  assumes f: "keyed f" shows "character_counts (listed f) = (\<lambda>k. map_option msCharacterCount (f k))"
proof -
  let ?l = "map (\<lambda>m. (msMapIndex m, msCharacterCount m)) (listed f)"
  have "map fst (rev ?l) = rev (map msMapIndex (listed f))"
    unfolding rev_map [symmetric] map_map o_def by (simp only: fst_conv)
  then have d: "distinct (map fst (rev ?l))" unfolding listed_indices [OF f] by simp
  have "map_of (rev ?l) k = Some n \<longleftrightarrow> map_option msCharacterCount (f k) = Some n" for k n
    unfolding map_of_eq_Some_iff [OF d] set_rev set_map listed_set [OF f] using f
    unfolding keyed_def ran_def by (auto simp: image_iff)
  then have "map_of (rev ?l) = (\<lambda>k. map_option msCharacterCount (f k))" by (intro ext option_same) blast
  then show ?thesis unfolding character_counts_def foldl_upd by (simp only: empty_map_add)
qed

lemma count_at_view: "count_at (\<lambda>k. map_option msCharacterCount (view_at reg t C A G k)) k = int (length (C k))"
  by (simp add: count_at_def view_at_def)

text \<open>
  The preview lists the change of the number of players exactly: nothing when the player stays on
  the map, and otherwise one less on the old map and one more on the new one.
\<close>

lemma relocation_changes:
  fixes reg :: profile_registry and G :: "ground_item list" and applied :: bool
  assumes ok: "er_ok r" and t: "erTopology r = t" and p: "er_players r i = Some p"
    and u: "EntityRegistry_UpdatePlayer r i target = (r', True)"
  defines "n \<equiv> \<lambda>k. int (population t (er_players r) k)" and "k0 \<equiv> EffectiveMapIndex t (plCharacter p)"
    and "k1 \<equiv> EffectiveMapIndex t target"
  defines "changes \<equiv> rpMapOccupancyChanges
      (snd (BuildRelocationPreviewWithGroundItems reg (plCharacter p) target applied G (NewScopes t (Some r))))"
  shows "sorted (map mcMapIndex changes)" and "distinct (map mcMapIndex changes)"
    and "set changes = (if k0 = k1 then {} else
      {\<lparr>mcMapIndex = k0, mcBeforeCount = n k0, mcAfterCount = n k0 - 1\<rparr>,
       \<lparr>mcMapIndex = k1, mcBeforeCount = n k1, mcAfterCount = n k1 + 1\<rparr>})"
proof -
  let ?P = "er_players r" and ?P' = "(er_players r)(i \<mapsto> newPlayerEntity i target)"
  let ?v = "view_at reg t (stand_on t ?P) (guard_on t (er_statics r)) (lie_on t G)"
  let ?v' = "view_at reg t (stand_on t ?P') (guard_on t (er_statics r)) (lie_on t G)"
  note u' = updated_player [OF ok u]
  have a: "apart ?P" "apart ?P'" using apart_registry [OF ok] apart_registry [OF u'(1)] u'(2) by simp_all
  have v: "keyed ?v" "keyed ?v'" by (intro view_keyed stand_on_finite a guard_on_finite lie_on_finite)+
  let ?n = "\<lambda>P k. int (population t P k)"
  have c: "count_at (character_counts (listed ?v)) k = ?n ?P k" "count_at (character_counts (listed ?v')) k = ?n ?P' k" for k
    by (simp_all add: character_counts_listed [OF v(1)] character_counts_listed [OF v(2)] count_at_view stand_on_length a)
  have k1: "player_map t (newPlayerEntity i target) = k1" by (simp add: player_map_character k1_def)
  have upd: "?n ?P' k = ?n ?P k - of_bool (k = k0) + of_bool (k = k1)" for k
    using population_update [of ?P i p t "newPlayerEntity i target" k] p players_finite(1) [OF ok]
    unfolding k1 by (simp add: player_map_character k0_def)
  let ?K = "dom (character_counts (listed ?v)) \<union> dom (character_counts (listed ?v'))"
  have K: "finite ?K"
    using v unfolding character_counts_listed [OF v(1)] character_counts_listed [OF v(2)] keyed_def by (simp add: dom_def)
  have inK: "k \<in> ?K" if "?n ?P k \<noteq> ?n ?P' k" for k
  proof (rule ccontr)
    assume "k \<notin> ?K"
    then have "count_at (character_counts (listed ?v)) k = 0" "count_at (character_counts (listed ?v')) k = 0"
      by (auto simp: count_at_def dom_def)
    with that show False unfolding c by simp
  qed
  let ?change = "\<lambda>k. \<lparr>mcMapIndex = k, mcBeforeCount = ?n ?P k, mcAfterCount = ?n ?P' k\<rparr>"
  let ?ks = "filter (\<lambda>k. ?n ?P k \<noteq> ?n ?P' k) (sorted_list_of_set ?K)"
  have "changes = sortMapOccupancyChanges (map ?change ?ks)"
  proof -
    have before: "AppendGroundItemsToMapOccupancySnapshots t (snd (MapOccupancySnapshots reg (NewScopes t (Some r)))) G = listed ?v"
      unfolding MapOccupancySnapshots_exact [OF ok t] snd_conv
      by (rule AppendGroundItems_exact [OF stand_on_finite [OF a(1)] guard_on_finite])
    have after: "relocateMapOccupancySnapshots (listed ?v) t (plCharacter p) target = listed ?v'"
      using relocate_view [OF a p guard_on_finite lie_on_finite] by simp
    obtain pv where "BuildRelocationPreviewWithGroundItems reg (plCharacter p) target applied G (NewScopes t (Some r)) = (NewScopes t (Some r), pv)"
      "rpMapOccupancyChanges pv = buildMapOccupancyChanges (listed ?v) (listed ?v')"
      by (rule preview_exact [OF ok t, where reg = reg and cur = "plCharacter p" and target = target and applied = applied and G = G])
        (simp add: before after)
    then show ?thesis by (simp add: changes_def buildMapOccupancyChanges_def Let_def c)
  qed
  moreover have "map mcMapIndex (map ?change ?ks) = ?ks" by (simp add: o_def)
  then have "sorted (map mcMapIndex (map ?change ?ks))" by (simp only: sorted_wrt_filter sorted_sorted_list_of_set)
  ultimately have ch: "changes = map ?change ?ks"
    unfolding sortMapOccupancyChanges_def by (simp only: sort_key_id_if_sorted)
  then have m: "map mcMapIndex changes = ?ks" by (simp add: o_def)
  show "sorted (map mcMapIndex changes)" "distinct (map mcMapIndex changes)"
    unfolding m by (simp_all add: sorted_wrt_filter)
  have "set ?ks = (if k0 = k1 then {} else {k0, k1})"
    using inK K upd by (auto simp: of_bool_def split: if_splits)
  then have "set changes = ?change ` (if k0 = k1 then {} else {k0, k1})" by (simp add: ch)
  then show "set changes = (if k0 = k1 then {} else
      {\<lparr>mcMapIndex = k0, mcBeforeCount = n k0, mcAfterCount = n k0 - 1\<rparr>,
       \<lparr>mcMapIndex = k1, mcBeforeCount = n k1, mcAfterCount = n k1 + 1\<rparr>})"
    by (cases "k0 = k1") (simp_all add: upd n_def)
qed

text \<open>The connected characters once one of them is replaced by what it becomes.\<close>

lemma replaced_characters:
  assumes ok: "er_ok r" and p: "er_players r i = Some p" and v: "cVID target = cVID (plCharacter p)"
  shows "set (replace_first (\<lambda>c. cVID c = cVID (plCharacter p)) target (map plCharacter (player_list r))) =
      plCharacter ` ran ((er_players r)(i \<mapsto> newPlayerEntity i target))"
    and "distinct (map cVID (replace_first (\<lambda>c. cVID c = cVID (plCharacter p)) target (map plCharacter (player_list r))))"
proof -
  let ?c = "plCharacter p" and ?q = "newPlayerEntity i target" and ?cs = "map plCharacter (player_list r)"
  let ?w = "(er_players r)(i \<mapsto> newPlayerEntity i target)"
  have cs: "set ?cs = plCharacter ` ran (er_players r)" "distinct (map cVID ?cs)"
    using players_distinct(3) [OF ok] by (simp_all add: player_list_set [OF ok] o_def)
  have k: "cVID ?c \<in> cVID ` set ?cs" using p cs(1) by (auto simp: ran_def)
  have o: "cVID (plCharacter x) \<noteq> cVID ?c \<longleftrightarrow> j \<noteq> i" if "er_players r j = Some x" for j x
    using player_VID_unique [OF ok that p] that p by (metis option.inject)
  have w: "?w j = Some x \<longleftrightarrow> j = i \<and> x = ?q \<or> j \<noteq> i \<and> er_players r j = Some x" for j x by auto
  have c: "target = plCharacter ?q" by simp
  have "x \<in> insert target {c \<in> plCharacter ` ran (er_players r). cVID c \<noteq> cVID ?c} \<longleftrightarrow> x \<in> plCharacter ` ran ?w" for x
    unfolding ran_def w image_def mem_Collect_eq insert_iff Bex_def using o c by metis
  then show "set (replace_first (\<lambda>c. cVID c = cVID ?c) target ?cs) = plCharacter ` ran ?w"
    using replace_first_set [OF cs(2) k] cs(1) by auto
  show "distinct (map cVID (replace_first (\<lambda>c. cVID c = cVID ?c) target ?cs))"
    unfolding replace_first_keys [of cVID, OF v] by (rule cs(2))
qed

section \<open>Properties\<close>



text \<open>
  C9: Who is reached. For any registry the world's commands lead to, what a player does is shown to
  exactly the other players who share the visible world, what the player says reaches exactly those of them of
  the same empire, a shout all of the empire, guild chat all of the guild and party chat every
  other player, each once, and asking changes nothing; and who sees whom is mutual.
\<close>

theorem scope_targets_exact:
  "let w = world_after reg cs; s = NewScopes t (Some (registry_after reg t cs));
       others = (\<lambda>P. {q. \<exists>j. wPlayers w j = Some q \<and> \<not> (i \<noteq> 0 \<and> j = i) \<and> P (plCharacter q)});
       reaches = (\<lambda>f P. fst (f s) = s \<and> set (snd (f s)) = others P \<and> distinct (map player_id (snd (f s)))) in
   reaches (VisibleTargets i c) (SharesVisibleWorld t c) \<and>
   reaches (LocalTalkTargets i c) (\<lambda>d. cEmpire c \<noteq> 0 \<and> cEmpire c = cEmpire d \<and> SharesVisibleWorld t c d) \<and>
   reaches (ShoutTargets i c) (\<lambda>d. cEmpire c \<noteq> 0 \<and> cEmpire c = cEmpire d) \<and>
   reaches (GuildTargets i c) (\<lambda>d. cGuildID c \<noteq> 0 \<and> cGuildID c = cGuildID d) \<and>
   reaches (PartyTargets i) (\<lambda>d. True) \<and>
   set (snd (ConnectedTargets s)) = ran (wPlayers w) \<and>
   ((wPlayers w (player_id p) = Some p \<and> q \<in> set (snd (VisibleTargets (player_id p) (plCharacter p) s))) \<longleftrightarrow>
    (wPlayers w (player_id q) = Some q \<and> p \<in> set (snd (VisibleTargets (player_id q) (plCharacter q) s))))"
proof -
  let ?r = "registry_after reg t cs" and ?w = "world_after reg cs"
  let ?s = "NewScopes t (Some (registry_after reg t cs))"
  note ok = registry_after(1) [of reg t cs] and f = world_fields [of reg t cs]
  have exact: "filterTargets i c P ?s = (?s, filter (\<lambda>p. \<not> (i \<noteq> 0 \<and> player_id p = i) \<and> P c (plCharacter p)) (player_list ?r))" for i c P
    by (rule filterTargets_exact [OF ok])
  have mem: "x \<in> set (player_list ?r) \<longleftrightarrow> wPlayers ?w (player_id x) = Some x" for x
    unfolding in_player_list [OF ok] f by (rule refl)
  have pid: "player_id x = j" if "wPlayers ?w j = Some x" for x j
    using player_facts(1) [OF ok] that unfolding f by blast
  have d: "distinct (map player_id (filter P (player_list ?r)))" for P
    using players_distinct(1) [OF ok]
    by (simp add: player_list_def sortPlayerEntities_def distinct_map_sort_key distinct_map_filter)
  have reach: "fst (filterTargets i c P ?s) = ?s \<and>
      set (snd (filterTargets i c P ?s)) = {q. \<exists>j. wPlayers ?w j = Some q \<and> \<not> (i \<noteq> 0 \<and> j = i) \<and> P c (plCharacter q)} \<and>
      distinct (map player_id (snd (filterTargets i c P ?s)))" for i c P
    unfolding exact fst_conv snd_conv set_filter mem using d pid by blast
  have sym: "SharesVisibleWorld t x y \<longleftrightarrow> SharesVisibleWorld t y x" for x y
    unfolding SharesVisibleWorld_def by (rule CanSee_sym)
  have nz: "j \<noteq> 0" if "wPlayers ?w j = Some x" for j x
    using er_identities(1) [OF ok] that unfolding f by blast
  show ?thesis
    unfolding Let_def VisibleTargets_def LocalTalkTargets_def ShoutTargets_def GuildTargets_def PartyTargets_def
      ConnectedTargets_def NewScopes_fields
  proof (intro conjI)
    show "set (snd (filterTargets 0 zero_character (\<lambda>origin peer. True) ?s)) = ran (wPlayers ?w)"
      using reach [of 0 zero_character "\<lambda>origin peer. True"] by (auto simp: ran_def)
    show "(wPlayers ?w (player_id p) = Some p \<and> q \<in> set (snd (filterTargets (player_id p) (plCharacter p) (SharesVisibleWorld t) ?s))) \<longleftrightarrow>
      (wPlayers ?w (player_id q) = Some q \<and> p \<in> set (snd (filterTargets (player_id q) (plCharacter q) (SharesVisibleWorld t) ?s)))"
      unfolding exact snd_conv set_filter mem_Collect_eq mem using nz sym [of "plCharacter p" "plCharacter q"] by metis
  qed (use reach [of i c "SharesVisibleWorld t"] reach [of i c "SharesTalkingChatScope t"] reach [of i c "SharesShoutScope t"]
      reach [of i c "SharesGuildChatScope t"] reach [of i zero_character "\<lambda>origin peer. True"] in
      \<open>simp_all add: SharesTalkingChatScope_def SharesShoutScope_def SharesGuildChatScope_def\<close>)
qed

end
