(* ===== verification/Ticket_Checks.thy ===== *)
theory Ticket_Checks
  imports Player_Bindings
begin

text \<open>
  The checks a whole login ticket must pass (\<open>validateTicket\<close> and \<open>validateUniqueCharacterIdentity\<close> of
  \<open>internal/loginticket/store.go\<close>): its login, key and time, the identity of its characters among each
  other, and the items and quickslots of each. \<open>strings.ToLower\<close> on whole Unicode, under which the names must
  differ, is an argument \<open>lower\<close>; everything holds for every such function. A time is the
  distance from Go's zero time, so \<open>IsZero\<close> is a comparison with 0.
\<close>

section \<open>Tickets\<close>

record ticket =
  tkLogin :: string
  tkLoginKey :: u32
  tkEmpire :: u8
  tkIssuedAt :: int
  tkCharacters :: "character list"

text \<open>The loop over the characters, with the identifiers, visibility identifiers and names seen so far.\<close>

fun identity_loop ::
    "(string \<Rightarrow> string) \<Rightarrow> u32 set \<Rightarrow> u32 set \<Rightarrow> string set \<Rightarrow> character list \<Rightarrow> ticket_error option" where
  "identity_loop lower ids vids names [] = None"
| "identity_loop lower ids vids names (c # cs) =
     (if cID c = 0 then
        (if \<not> IsEmptySlot c then Some EmptySlotHasState else identity_loop lower ids vids names cs)
      else
        let trimmedName = trim_space (cName c) in
        if trimmedName = [] then Some (NameRequired (cID c))
        else if trimmedName \<noteq> cName c then Some (NameNotTrimmed (cName c))
        else if contains_nul (cName c) then Some NameContainsNUL
        else if contains_nul (cGuildName c) then Some GuildNameContainsNUL
        else if cID c \<in> ids then Some (DuplicateCharacterID (cID c))
        else if cVID c \<noteq> 0 \<and> cVID c \<in> vids then Some (DuplicateCharacterVID (cVID c))
        else if lower (cName c) \<in> names then Some (DuplicateCharacterName (cName c))
        else identity_loop lower (insert (cID c) ids) (if cVID c \<noteq> 0 then insert (cVID c) vids else vids)
               (insert (lower (cName c)) names) cs)"

definition validateUniqueCharacterIdentity :: "(string \<Rightarrow> string) \<Rightarrow> character list \<Rightarrow> ticket_error option" where
  "validateUniqueCharacterIdentity lower cs = identity_loop lower {} {} {} cs"

definition validateTicket :: "(string \<Rightarrow> string) \<Rightarrow> ticket \<Rightarrow> ticket_error option" where
  "validateTicket lower t =
     (if trim_space (tkLogin t) = [] then Some LoginRequired
      else if tkLogin t \<noteq> trim_space (tkLogin t) then Some (LoginNotTrimmed (tkLogin t))
      else if contains_nul (tkLogin t) then Some LoginContainsNUL
      else if tkLoginKey t = 0 then Some LoginKeyRequired
      else if tkIssuedAt t = 0 then Some IssuedAtRequired
      else case validateUniqueCharacterIdentity lower (tkCharacters t) of
          Some e \<Rightarrow> Some e
        | None \<Rightarrow> first_error validateTicket_character (tkCharacters t))"

section \<open>What the checks mean\<close>

definition proper_text :: "string \<Rightarrow> bool" where
  "proper_text s \<longleftrightarrow> s \<noteq> [] \<and> trim_space s = s \<and> CHR 0x00 \<notin> set s"

definition proper_character :: "character \<Rightarrow> bool" where
  "proper_character c \<longleftrightarrow> (if cID c = 0 then IsEmptySlot c else proper_text (cName c) \<and> CHR 0x00 \<notin> set (cGuildName c))"

text \<open>The characters that exist, and those that have a visibility identifier.\<close>

abbreviation present :: "character list \<Rightarrow> character list" where
  "present cs \<equiv> filter (\<lambda>c. cID c \<noteq> 0) cs"

abbreviation visible :: "character list \<Rightarrow> character list" where
  "visible cs \<equiv> filter (\<lambda>c. cVID c \<noteq> 0) (present cs)"

lemma proper_text_iff:
  "proper_text s \<longleftrightarrow> trim_space s \<noteq> [] \<and> s = trim_space s \<and> \<not> contains_nul s"
  by (auto simp: proper_text_def contains_nul_def)

lemma identity_loop_None:
  "identity_loop lower ids vids names cs = None \<longleftrightarrow>
     (\<forall>c \<in> set cs. proper_character c) \<and>
     distinct (map cID (present cs)) \<and> cID ` set (present cs) \<inter> ids = {} \<and>
     distinct (map cVID (visible cs)) \<and> cVID ` set (visible cs) \<inter> vids = {} \<and>
     distinct (map (\<lambda>c. lower (cName c)) (present cs)) \<and> (\<lambda>c. lower (cName c)) ` set (present cs) \<inter> names = {}"
proof (induction cs arbitrary: ids vids names)
  case (Cons c cs)
  show ?case
  proof (cases "cID c = 0")
    case True
    with Cons show ?thesis by (simp add: proper_character_def)
  next
    case False
    have "identity_loop lower ids vids names (c # cs) = None \<longleftrightarrow>
        proper_character c \<and> cID c \<notin> ids \<and> (cVID c = 0 \<or> cVID c \<notin> vids) \<and> lower (cName c) \<notin> names \<and>
        identity_loop lower (insert (cID c) ids) (if cVID c \<noteq> 0 then insert (cVID c) vids else vids)
          (insert (lower (cName c)) names) cs = None"
      using False by (auto simp: Let_def proper_character_def proper_text_iff contains_nul_def)
    with False show ?thesis
      unfolding Cons.IH by (cases "cVID c = 0") (simp_all only: filter.simps if_True if_False not_False_eq_True simp_thms
        list.map distinct.simps list.set set_map image_insert ball_simps insert_disjoint disjoint_insert, argo+)
  qed
qed simp

text \<open>
  C32: what a login ticket guarantees. A ticket passes its checks exactly when its login is a
  non-empty text without NUL or white space around it, its key and its time are set, every character is an empty
  slot or has such a name and a guild name without NUL, no two characters share an identifier, a
  visibility identifier or a name up to case, and of every character the instances are valid, one
  per carried cell and per wear slot, no instance id occurs twice, the quickslots are valid and
  at distinct positions, and no skill or command is bound twice.
\<close>

theorem validateTicket_exact:
  "validateTicket lower t = None \<longleftrightarrow>
     proper_text (tkLogin t) \<and> tkLoginKey t \<noteq> 0 \<and> tkIssuedAt t \<noteq> 0 \<and>
     (\<forall>c \<in> set (tkCharacters t). proper_character c) \<and>
     distinct (map cID (present (tkCharacters t))) \<and> distinct (map cVID (visible (tkCharacters t))) \<and>
     distinct (map (\<lambda>c. lower (cName c)) (present (tkCharacters t))) \<and>
     (\<forall>c \<in> set (tkCharacters t). wf_items (cInventory c) (cEquipment c) \<and> wf_quickslots (cQuickslots c) \<and>
        bindings_unique (bar (cQuickslots c)))"
proof -
  have "validateTicket lower t = None \<longleftrightarrow>
      proper_text (tkLogin t) \<and> tkLoginKey t \<noteq> 0 \<and> tkIssuedAt t \<noteq> 0 \<and>
      validateUniqueCharacterIdentity lower (tkCharacters t) = None \<and>
      (\<forall>c \<in> set (tkCharacters t). validateTicket_character c = None)"
    by (auto simp: validateTicket_def proper_text_iff split: option.split)
  then show ?thesis
    by (simp add: validateUniqueCharacterIdentity_def identity_loop_None validateTicket_character_iff)
qed

definition sample_ticket :: ticket where
  "sample_ticket =
     \<lparr>tkLogin = ''kim'', tkLoginKey = 7, tkEmpire = 1, tkIssuedAt = 5,
      tkCharacters = [zero_character,
        zero_character\<lparr>cID := 1, cVID := 9, cName := ''kim'', cInventory := [sample_carried],
          cQuickslots := [\<lparr>qPosition = 2, qType = TypeItem, qSlot = 4\<rparr>]\<rparr>]\<rparr>"

theorem validateTicket_exact_witness:
  "validateTicket to_lower sample_ticket = None \<and> validateTicket to_lower (sample_ticket\<lparr>tkLoginKey := 0\<rparr>) \<noteq> None"
proof
  have "IsEmptySlot zero_character" by (simp add: IsEmptySlot_def zero_character_def)
  moreover have "proper_text ''kim''" by (simp add: proper_text_def trim_space_plain plain_simps)
  moreover have "wf_items [] []" "wf_items [sample_carried] []"
    by (simp_all add: wf_items_def carried_ok_def Validate_def sample_carried_def zero_item_def equipment_slot_defs
        CarriedInventorySlotCount_def)
  moreover have "wf_quickslots []" "wf_quickslots [\<lparr>qPosition = 2, qType = TypeItem, qSlot = 4\<rparr>]"
    by (simp_all add: wf_quickslots_def quickslot_ok_def ticket_validQuickslotTuple_def CarriedInventorySlotCount_def
        TypeItem_def TypeNone_def TypeSkill_def TypeCommand_def)
  moreover have "bindings_unique (bar [])" "bindings_unique (bar [\<lparr>qPosition = 2, qType = TypeItem, qSlot = 4\<rparr>])"
    by (simp_all add: bindings_unique_def bar_def TypeItem_def)
  ultimately show "validateTicket to_lower sample_ticket = None"
    unfolding validateTicket_exact
    by (simp add: sample_ticket_def proper_character_def) (simp add: zero_character_def)
  show "validateTicket to_lower (sample_ticket\<lparr>tkLoginKey := 0\<rparr>) \<noteq> None"
    unfolding validateTicket_exact by simp
qed

end
