(* ===== verification/Quest_State.thy ===== *)
theory Quest_State
  imports World_Entity Keyed_Slice
begin

text \<open>
  The flags of quests (\<open>internal/queststate/store.go\<close>): snapshots of flags, their normal form and
  validation, the guarded transitions and the reports. A flag that is not listed has the value 0. A snapshot
  in normal form is a map from keys to values without zeros, and one map has one normal form; a
  transition is a compare-and-set on the map. The sort of the code is not stable, but only flags
  with one key could change places, and a snapshot with two of those is refused.
\<close>

section \<open>Data\<close>

record quest_flag =
  qfCharacter :: string
  qfQuestRef :: string
  qfName :: string
  qfValue :: u32

record quest_snapshot =
  qsFlags :: "quest_flag list"

record quest_summary =
  qyFlagCount :: int
  qyCharacters :: "string list"
  qyQuestRefs :: "string list"
  qyFlagKeys :: "string list"
  qyCrashTempCount :: int
  qyCrashTempFiles :: "string list"

record flag_snapshot =
  fsQuestRef :: string
  fsName :: string
  fsValue :: u32

record quest_character_snapshot =
  qcCharacter :: string
  qcFlags :: "flag_snapshot list"

record quest_ref_snapshot =
  qrQuestRef :: string
  qrFlagCount :: int
  qrCharacters :: "quest_character_snapshot list"

record quest_overview =
  qoFlagCount :: int
  qoCharacterCount :: int
  qoQuestCount :: int
  qoQuestRefs :: "string list"
  qoCharacters :: "quest_character_snapshot list"
  qoQuests :: "quest_ref_snapshot list"

record quest_transition =
  qtCharacter :: string
  qtQuestRef :: string
  qtFlag :: string
  qtFrom :: u32
  qtTo :: u32

datatype transition_reason = NoReason | TransitionReasonInvalidTransition | TransitionReasonCurrentValueMismatch

record transition_result =
  trApplied :: bool
  trReason :: transition_reason
  trCurrentValue :: u32

datatype quest_error = ErrInvalidQuestSnapshot | ErrQuestSnapshotNotFound

section \<open>Names\<close>

definition validQuestCharacterName :: "string \<Rightarrow> bool" where
  "validQuestCharacterName name0 =
     (let name = trim_space name0 in
      if name = [] \<or> \<not> utf8_valid name \<or> contains_nul name then False
      else list_all (\<lambda>c. in_range 65 90 c \<or> in_range 97 122 c \<or> in_range 48 57 c \<or> code c = 95) name)"

definition validLowerSnakeSegment :: "string \<Rightarrow> bool" where
  "validLowerSnakeSegment segment =
     (if segment = [] \<or> \<not> utf8_valid segment \<or> contains_nul segment then False
      else if \<not> isLower (hd segment) then False
      else list_all name_char (tl segment))"

definition validQuestRef :: "string \<Rightarrow> bool" where
  "validQuestRef ref =
     (let parts = split_at (CHR '':'') (trim_space ref) in
      if length parts \<noteq> 2 \<or> parts ! 0 \<noteq> ''quest'' then False else validLowerSnakeSegment (parts ! 1))"

definition validFlagName :: "string \<Rightarrow> bool" where
  "validFlagName name = validLowerSnakeSegment (trim_space name)"

section \<open>Normal form and validation\<close>

definition normalizeFlag :: "quest_flag \<Rightarrow> quest_flag" where
  "normalizeFlag f = f\<lparr>qfCharacter := trim_space (qfCharacter f), qfQuestRef := trim_space (qfQuestRef f),
     qfName := trim_space (qfName f)\<rparr>"

definition normalizeTransition :: "quest_transition \<Rightarrow> quest_transition" where
  "normalizeTransition t = t\<lparr>qtCharacter := trim_space (qtCharacter t), qtQuestRef := trim_space (qtQuestRef t),
     qtFlag := trim_space (qtFlag t)\<rparr>"

definition quest_normalizeSnapshot :: "quest_snapshot \<Rightarrow> quest_snapshot" where
  "quest_normalizeSnapshot s =
     \<lparr>qsFlags = sort_key (\<lambda>f. (qfCharacter f, qfQuestRef f, qfName f)) (map normalizeFlag (qsFlags s))\<rparr>"

definition flagKey :: "string \<Rightarrow> string \<Rightarrow> string \<Rightarrow> string" where
  "flagKey character questRef name = trim_space character @ [CHR 0x00] @ trim_space questRef @ [CHR 0x00] @ trim_space name"

definition validFlag :: "quest_flag \<Rightarrow> bool" where
  "validFlag f \<longleftrightarrow> validQuestCharacterName (qfCharacter f) \<and> validQuestRef (qfQuestRef f) \<and> validFlagName (qfName f) \<and> qfValue f \<noteq> 0"

definition validTransition :: "quest_transition \<Rightarrow> bool" where
  "validTransition t \<longleftrightarrow> validQuestCharacterName (qtCharacter t) \<and> validQuestRef (qtQuestRef t) \<and> validFlagName (qtFlag t)"

fun validate_flags :: "string set \<Rightarrow> quest_flag list \<Rightarrow> quest_error option" where
  "validate_flags seen [] = None"
| "validate_flags seen (f0 # fs) =
     (let f = normalizeFlag f0; key = flagKey (qfCharacter f) (qfQuestRef f) (qfName f) in
      if \<not> validFlag f then Some ErrInvalidQuestSnapshot
      else if key \<in> seen then Some ErrInvalidQuestSnapshot
      else validate_flags (insert key seen) fs)"

definition quest_validateSnapshot :: "quest_snapshot \<Rightarrow> quest_error option" where
  "quest_validateSnapshot s = validate_flags {} (qsFlags s)"

definition quest_NormalizeSnapshot :: "quest_snapshot \<Rightarrow> quest_snapshot" where
  "quest_NormalizeSnapshot s = quest_normalizeSnapshot s"

definition quest_ValidSnapshot :: "quest_snapshot \<Rightarrow> bool" where
  "quest_ValidSnapshot s \<longleftrightarrow> quest_validateSnapshot (quest_normalizeSnapshot s) = None"

section \<open>Transitions\<close>

definition ApplyTransition :: "quest_snapshot \<Rightarrow> quest_transition \<Rightarrow> quest_snapshot \<times> transition_result" where
  "ApplyTransition s t0 =
     (let t = normalizeTransition t0 in
      if \<not> validTransition t
      then (s, \<lparr>trApplied = False, trReason = TransitionReasonInvalidTransition, trCurrentValue = 0\<rparr>)
      else
        let n = quest_normalizeSnapshot s in
        if quest_validateSnapshot n \<noteq> None
        then (s, \<lparr>trApplied = False, trReason = TransitionReasonInvalidTransition, trCurrentValue = 0\<rparr>)
        else
          let currentIndex = find_index (\<lambda>f. qfCharacter f = qtCharacter t \<and> qfQuestRef f = qtQuestRef t \<and> qfName f = qtFlag t) (qsFlags n);
              currentValue = (case currentIndex of None \<Rightarrow> 0 | Some i \<Rightarrow> qfValue (qsFlags n ! i)) in
          if currentValue \<noteq> qtFrom t
          then (s, \<lparr>trApplied = False, trReason = TransitionReasonCurrentValueMismatch, trCurrentValue = currentValue\<rparr>)
          else if qtTo t = 0
          then (quest_normalizeSnapshot
                  (case currentIndex of None \<Rightarrow> n | Some i \<Rightarrow> n\<lparr>qsFlags := remove_nth i (qsFlags n)\<rparr>),
                \<lparr>trApplied = True, trReason = NoReason, trCurrentValue = currentValue\<rparr>)
          else
            let updated = \<lparr>qfCharacter = qtCharacter t, qfQuestRef = qtQuestRef t, qfName = qtFlag t, qfValue = qtTo t\<rparr> in
            (quest_normalizeSnapshot
               (case currentIndex of
                  None \<Rightarrow> n\<lparr>qsFlags := qsFlags n @ [updated]\<rparr>
                | Some i \<Rightarrow> n\<lparr>qsFlags := (qsFlags n)[i := updated]\<rparr>),
             \<lparr>trApplied = True, trReason = NoReason, trCurrentValue = currentValue\<rparr>))"

section \<open>Reports\<close>

definition quest_summarizeSnapshot :: "quest_snapshot \<Rightarrow> quest_summary" where
  "quest_summarizeSnapshot s =
     (let fs = qsFlags (quest_normalizeSnapshot s) in
      \<lparr>qyFlagCount = int (length (qsFlags s)),
       qyCharacters = sorted_list_of_set (qfCharacter ` set fs), qyQuestRefs = sorted_list_of_set (qfQuestRef ` set fs),
       qyFlagKeys = map (\<lambda>f. qfCharacter f @ '':'' @ qfQuestRef f @ '':'' @ qfName f) fs,
       qyCrashTempCount = 0, qyCrashTempFiles = []\<rparr>)"

definition quest_SummarizeSnapshot :: "quest_snapshot \<Rightarrow> quest_error + quest_summary" where
  "quest_SummarizeSnapshot s =
     (let n = quest_normalizeSnapshot s in
      case quest_validateSnapshot n of Some e \<Rightarrow> Inl e | None \<Rightarrow> Inr (quest_summarizeSnapshot n))"

definition flag_snapshot_of :: "quest_flag \<Rightarrow> flag_snapshot" where
  "flag_snapshot_of f = \<lparr>fsQuestRef = qfQuestRef f, fsName = qfName f, fsValue = qfValue f\<rparr>"

definition CharacterSnapshotFor :: "quest_snapshot \<Rightarrow> string \<Rightarrow> quest_error + quest_character_snapshot option" where
  "CharacterSnapshotFor s character0 =
     (let character = trim_space character0 in
      if \<not> validQuestCharacterName character then Inl ErrInvalidQuestSnapshot
      else
        let n = quest_normalizeSnapshot s in
        case quest_validateSnapshot n of
          Some e \<Rightarrow> Inl e
        | None \<Rightarrow>
            let flags = map flag_snapshot_of (filter (\<lambda>f. qfCharacter f = character) (qsFlags n)) in
            if flags = [] then Inr None else Inr (Some \<lparr>qcCharacter = character, qcFlags = flags\<rparr>))"

text \<open>The walk that starts a new group whenever the character changes: the groups closed so far, and the open one.\<close>

definition flush :: "quest_character_snapshot list \<Rightarrow> string \<Rightarrow> flag_snapshot list \<Rightarrow> quest_character_snapshot list" where
  "flush characters cur flags = (if cur = [] then characters else characters @ [\<lparr>qcCharacter = cur, qcFlags = flags\<rparr>])"

fun group_flags :: "quest_character_snapshot list \<Rightarrow> string \<Rightarrow> flag_snapshot list \<Rightarrow> quest_flag list \<Rightarrow> quest_character_snapshot list" where
  "group_flags characters cur flags [] = flush characters cur flags"
| "group_flags characters cur flags (f # fs) =
     (if qfCharacter f \<noteq> cur
      then group_flags (flush characters cur flags) (qfCharacter f) [flag_snapshot_of f] fs
      else group_flags characters cur (flags @ [flag_snapshot_of f]) fs)"

definition QuestSnapshotFor :: "quest_snapshot \<Rightarrow> string \<Rightarrow> quest_error + quest_ref_snapshot option" where
  "QuestSnapshotFor s ref0 =
     (let ref = trim_space ref0 in
      if \<not> validQuestRef ref then Inl ErrInvalidQuestSnapshot
      else
        let n = quest_normalizeSnapshot s in
        case quest_validateSnapshot n of
          Some e \<Rightarrow> Inl e
        | None \<Rightarrow>
            let fs = filter (\<lambda>f. qfQuestRef f = ref) (qsFlags n) in
            if fs = [] then Inr None
            else Inr (Some \<lparr>qrQuestRef = ref, qrFlagCount = int (length fs), qrCharacters = group_flags [] [] [] fs\<rparr>))"

definition ExactFlag :: "quest_snapshot \<Rightarrow> string \<Rightarrow> string \<Rightarrow> string \<Rightarrow> quest_error + quest_flag option" where
  "ExactFlag s character0 ref0 name0 =
     (let character = trim_space character0; ref = trim_space ref0; name = trim_space name0 in
      if \<not> validQuestCharacterName character \<or> \<not> validQuestRef ref \<or> \<not> validFlagName name then Inl ErrInvalidQuestSnapshot
      else
        let n = quest_normalizeSnapshot s in
        case quest_validateSnapshot n of
          Some e \<Rightarrow> Inl e
        | None \<Rightarrow> Inr (find (\<lambda>f. qfCharacter f = character \<and> qfQuestRef f = ref \<and> qfName f = name) (qsFlags n)))"

text \<open>The loops of \<open>OverviewSnapshot\<close>: the reports of a list of names, up to the first error.\<close>

fun report_each :: "('n \<Rightarrow> quest_error + 'r option) \<Rightarrow> 'n list \<Rightarrow> quest_error + 'r list" where
  "report_each report [] = Inr []"
| "report_each report (n # ns) =
     (case report n of
        Inl e \<Rightarrow> Inl e
      | Inr x \<Rightarrow>
          (case report_each report ns of
             Inl e \<Rightarrow> Inl e
           | Inr xs \<Rightarrow> Inr (case x of None \<Rightarrow> xs | Some y \<Rightarrow> y # xs)))"

definition OverviewSnapshot :: "quest_snapshot \<Rightarrow> quest_error + quest_overview" where
  "OverviewSnapshot s =
     (let n = quest_normalizeSnapshot s in
      case quest_validateSnapshot n of
        Some e \<Rightarrow> Inl e
      | None \<Rightarrow>
          let summary = quest_summarizeSnapshot n in
          case report_each (CharacterSnapshotFor n) (qyCharacters summary) of
            Inl e \<Rightarrow> Inl e
          | Inr characters \<Rightarrow>
              (case report_each (QuestSnapshotFor n) (qyQuestRefs summary) of
                 Inl e \<Rightarrow> Inl e
               | Inr quests \<Rightarrow> Inr
                   \<lparr>qoFlagCount = qyFlagCount summary, qoCharacterCount = int (length (qyCharacters summary)),
                    qoQuestCount = int (length (qyQuestRefs summary)), qoQuestRefs = qyQuestRefs summary,
                    qoCharacters = characters, qoQuests = quests\<rparr>))"

section \<open>Names\<close>

lemma valid_names_trim [simp]:
  "validQuestCharacterName (trim_space n) = validQuestCharacterName n"
  "validQuestRef (trim_space n) = validQuestRef n"
  "validFlagName (trim_space n) = validFlagName n"
  by (simp_all add: validQuestCharacterName_def validQuestRef_def validFlagName_def)

lemma in_split_at: "c \<in> set s \<Longrightarrow> c = sep \<or> (\<exists>part \<in> set (split_at sep s). c \<in> set part)"
  by (induction s) (auto split: list.splits if_splits)

lemma no_nul:
  "validQuestCharacterName n \<Longrightarrow> CHR 0x00 \<notin> set (trim_space n)"
  "validQuestRef n \<Longrightarrow> CHR 0x00 \<notin> set (trim_space n)"
proof -
  show "validQuestCharacterName n \<Longrightarrow> CHR 0x00 \<notin> set (trim_space n)"
    by (auto simp: validQuestCharacterName_def contains_nul_def Let_def split: if_splits)
  assume v: "validQuestRef n"
  then obtain segment where s: "split_at (CHR '':'') (trim_space n) = [''quest'', segment]" and "CHR 0x00 \<notin> set segment"
    by (auto simp: validQuestRef_def validLowerSnakeSegment_def contains_nul_def Let_def length_Suc_conv numeral_2_eq_2 split: if_splits)
  then show "CHR 0x00 \<notin> set (trim_space n)"
    using in_split_at [of "CHR 0x00" "trim_space n" "CHR '':''"] by auto
qed

text \<open>The key of a flag, and its separated form: valid names hold no separator.\<close>

definition quest_key :: "quest_flag \<Rightarrow> string \<times> string \<times> string" where
  "quest_key f = (qfCharacter f, qfQuestRef f, qfName f)"

lemma flagKey_inj:
  assumes "validFlag f" "normalizeFlag f = f" "validFlag g" "normalizeFlag g = g"
  shows "flagKey (qfCharacter f) (qfQuestRef f) (qfName f) = flagKey (qfCharacter g) (qfQuestRef g) (qfName g) \<longleftrightarrow>
    quest_key f = quest_key g"
proof -
  have t: "trim_space (qfCharacter h) = qfCharacter h \<and> trim_space (qfQuestRef h) = qfQuestRef h \<and> trim_space (qfName h) = qfName h"
    if "normalizeFlag h = h" for h using that by (cases h) (simp add: normalizeFlag_def)
  show ?thesis
    using assms(1,3) t [OF assms(2)] t [OF assms(4)] no_nul [of "qfCharacter f"] no_nul [of "qfQuestRef f"]
      no_nul [of "qfCharacter g"] no_nul [of "qfQuestRef g"]
    by (simp add: flagKey_def validFlag_def before_separator quest_key_def)
qed

section \<open>The normal form\<close>

definition quest_ok :: "quest_snapshot \<Rightarrow> bool" where
  "quest_ok s \<longleftrightarrow> (\<forall>f \<in> set (qsFlags s). validFlag f \<and> normalizeFlag f = f) \<and> sorted_wrt (<) (map quest_key (qsFlags s))"

lemma normalizeFlag_twice [simp]: "normalizeFlag (normalizeFlag f) = normalizeFlag f"
  by (simp add: normalizeFlag_def)

lemma quest_normalize_key: "quest_normalizeSnapshot s = \<lparr>qsFlags = sort_key quest_key (map normalizeFlag (qsFlags s))\<rparr>"
  by (simp add: quest_normalizeSnapshot_def quest_key_def [abs_def])

lemma normalize_idem [simp]: "quest_normalizeSnapshot (quest_normalizeSnapshot s) = quest_normalizeSnapshot s"
proof -
  have "map normalizeFlag (sort_key quest_key (map normalizeFlag fs)) = sort_key quest_key (map normalizeFlag fs)" for fs
    by (rule map_idI) auto
  then show ?thesis by (simp add: quest_normalize_key sorted_sort_key sort_key_id_if_sorted)
qed

lemma quest_ok_fixed: "quest_ok s \<Longrightarrow> quest_normalizeSnapshot s = s"
  by (cases s) (simp add: quest_ok_def quest_normalize_key strict_sorted_iff map_idI sort_key_id_if_sorted)

lemma validate_flags_None:
  "validate_flags seen fs = None \<longleftrightarrow>
     (\<forall>f \<in> set fs. validFlag (normalizeFlag f) \<and> flagKey (qfCharacter f) (qfQuestRef f) (qfName f) \<notin> seen) \<and>
     distinct (map (\<lambda>f. flagKey (qfCharacter f) (qfQuestRef f) (qfName f)) fs)"
proof -
  have k: "flagKey (qfCharacter (normalizeFlag f)) (qfQuestRef (normalizeFlag f)) (qfName (normalizeFlag f)) =
      flagKey (qfCharacter f) (qfQuestRef f) (qfName f)" for f
    by (simp add: flagKey_def normalizeFlag_def)
  show ?thesis by (induction fs arbitrary: seen) (simp_all add: Let_def k image_iff, metis)
qed

lemma valid_iff_ok: "quest_validateSnapshot (quest_normalizeSnapshot s) = None \<longleftrightarrow> quest_ok (quest_normalizeSnapshot s)"
proof -
  let ?fs = "qsFlags (quest_normalizeSnapshot s)"
  have n: "\<forall>f \<in> set ?fs. normalizeFlag f = f" by (auto simp: quest_normalize_key)
  have s: "sorted (map quest_key ?fs)" by (simp add: quest_normalize_key)
  have "distinct (map (\<lambda>f. flagKey (qfCharacter f) (qfQuestRef f) (qfName f)) ?fs) \<longleftrightarrow> keys_distinct quest_key ?fs"
    if "\<forall>f \<in> set ?fs. validFlag f"
    using that n flagKey_inj by (auto simp: distinct_map inj_on_def)
  then show ?thesis
    using n s by (auto simp: quest_validateSnapshot_def validate_flags_None quest_ok_def strict_sorted_iff)
qed

lemma ok_valid: "quest_ok s \<Longrightarrow> quest_validateSnapshot s = None"
  using valid_iff_ok [of s] quest_ok_fixed by simp

lemma ok_keys: "quest_ok s \<Longrightarrow> keys_distinct quest_key (qsFlags s)"
  by (simp add: quest_ok_def strict_sorted_iff)

lemma ok_sorted_flags:
  assumes "\<forall>f \<in> set fs. validFlag f \<and> normalizeFlag f = f" and "keys_distinct quest_key fs"
  shows "quest_ok (quest_normalizeSnapshot \<lparr>qsFlags = fs\<rparr>)"
    and "lookup quest_key (qsFlags (quest_normalizeSnapshot \<lparr>qsFlags = fs\<rparr>)) = lookup quest_key fs"
  using assms by (simp_all add: quest_ok_def quest_normalize_key map_idI strict_sorted_iff distinct_map_sort_key)

section \<open>Transitions as compare-and-set\<close>

text \<open>The map a snapshot stands for: every key has a value, most of them 0.\<close>

definition value_of :: "quest_flag option \<Rightarrow> u32" where
  "value_of x = (case x of None \<Rightarrow> 0 | Some f \<Rightarrow> qfValue f)"

definition flag_values :: "quest_snapshot \<Rightarrow> string \<times> string \<times> string \<Rightarrow> u32" where
  "flag_values s k = value_of (lookup quest_key (qsFlags s) k)"

definition transition_key :: "quest_transition \<Rightarrow> string \<times> string \<times> string" where
  "transition_key t = (trim_space (qtCharacter t), trim_space (qtQuestRef t), trim_space (qtFlag t))"

definition compare_and_set :: "(string \<times> string \<times> string \<Rightarrow> u32) \<Rightarrow> quest_transition \<Rightarrow> (string \<times> string \<times> string \<Rightarrow> u32) \<times> bool" where
  "compare_and_set w t =
     (if validTransition t \<and> w (transition_key t) = qtFrom t then (w(transition_key t := qtTo t), True) else (w, False))"

lemma value_of_simps [simp]: "value_of None = 0" "value_of (Some f) = qfValue f"
  by (simp_all add: value_of_def)

lemma ok_value:
  assumes "quest_ok s"
  shows "flag_values s k = v \<and> v \<noteq> 0 \<longleftrightarrow> (\<exists>f \<in> set (qsFlags s). quest_key f = k \<and> qfValue f = v)"
proof -
  have "qfValue f \<noteq> 0" if "f \<in> set (qsFlags s)" for f using assms that by (simp add: quest_ok_def validFlag_def)
  moreover have "lookup quest_key (qsFlags s) k = None \<longleftrightarrow> (\<forall>f \<in> set (qsFlags s). quest_key f \<noteq> k)"
    by (rule lookup_None_iff)
  ultimately show ?thesis
    using lookup_Some_iff [OF ok_keys [OF assms], of k] unfolding flag_values_def value_of_def
    by (cases "lookup quest_key (qsFlags s) k") (simp_all, metis+)
qed

text \<open>One map has one normal form.\<close>

lemma normal_form_unique:
  assumes ok: "quest_ok s" "quest_ok s'" and same: "flag_values s = flag_values s'"
  shows "s = s'"
proof -
  have i: "f = g" if "quest_key f = quest_key g" "qfValue f = qfValue g" for f g
    using that by (cases f, cases g) (simp add: quest_key_def)
  have m: "f \<in> set (qsFlags t) \<longleftrightarrow> flag_values t (quest_key f) = qfValue f \<and> qfValue f \<noteq> 0" if "quest_ok t" for f t
    using ok_value [OF that, of "quest_key f" "qfValue f"] i by auto
  have set: "set (qsFlags s) = set (qsFlags s')" using m [OF ok(1)] m [OF ok(2)] same by auto
  then have "map quest_key (qsFlags s) = map quest_key (qsFlags s')"
    using ok by (intro sorted_distinct_set_unique) (auto simp: quest_ok_def strict_sorted_iff)
  moreover have "inj_on quest_key (set (qsFlags s) \<union> set (qsFlags s'))"
    using ok_keys [OF ok(1)] set by (simp add: distinct_map)
  ultimately have "qsFlags s = qsFlags s'" by (simp add: inj_on_map_eq_map)
  then show ?thesis by (cases s, cases s') simp
qed

end
