(* ===== verification/Quest_Store.thy ===== *)
theory Quest_Store
  imports Quest_State Machine
begin

text \<open>
  The store of quest flags in memory (\<open>internal/queststate/memory_store.go\<close>), the exactness of
  transitions and reports, and the refinement: whatever is stored and applied, the store is a map of
  flags under compare-and-set, and what it shows is determined by the map. Its lock is not modelled:
  every operation holds it from start to end.
\<close>

section \<open>The store\<close>

record memory_store =
  msCommitted :: bool
  msSnapshot :: quest_snapshot

record transition_apply_result =
  taTransition :: quest_transition
  taResult :: transition_result
  taSummary :: quest_summary

definition NewMemoryStore :: memory_store where
  "NewMemoryStore = \<lparr>msCommitted = False, msSnapshot = \<lparr>qsFlags = []\<rparr>\<rparr>"

definition cloneSnapshot :: "quest_snapshot \<Rightarrow> quest_snapshot" where
  "cloneSnapshot s = \<lparr>qsFlags = qsFlags s\<rparr>"

definition MemoryStore_Load :: "memory_store option \<Rightarrow> quest_error + quest_snapshot" where
  "MemoryStore_Load store =
     (case store of
        None \<Rightarrow> Inl ErrQuestSnapshotNotFound
      | Some m \<Rightarrow>
          if \<not> msCommitted m then Inl ErrQuestSnapshotNotFound else Inr (quest_normalizeSnapshot (msSnapshot m)))"

definition MemoryStore_Save :: "memory_store option \<Rightarrow> quest_snapshot \<Rightarrow> memory_store option \<times> quest_error option" where
  "MemoryStore_Save store s =
     (case store of
        None \<Rightarrow> (store, Some ErrInvalidQuestSnapshot)
      | Some m \<Rightarrow>
          let n = quest_normalizeSnapshot s in
          if quest_validateSnapshot n \<noteq> None then (store, Some ErrInvalidQuestSnapshot)
          else (Some (m\<lparr>msSnapshot := cloneSnapshot n, msCommitted := True\<rparr>), None))"

definition current_snapshot :: "memory_store \<Rightarrow> quest_snapshot" where
  "current_snapshot m = (if msCommitted m then cloneSnapshot (msSnapshot m) else \<lparr>qsFlags = []\<rparr>)"

definition MemoryStore_ApplyTransition ::
  "memory_store option \<Rightarrow> quest_transition \<Rightarrow> memory_store option \<times> (quest_error + transition_apply_result)" where
  "MemoryStore_ApplyTransition store t0 =
     (case store of
        None \<Rightarrow> (store, Inl ErrInvalidQuestSnapshot)
      | Some m \<Rightarrow>
          let current = current_snapshot m; t = normalizeTransition t0; (s, result) = ApplyTransition current t in
          if \<not> trApplied result
          then (store, Inr \<lparr>taTransition = t, taResult = result, taSummary = quest_summarizeSnapshot current\<rparr>)
          else
            let n = quest_normalizeSnapshot s in
            if quest_validateSnapshot n \<noteq> None then (store, Inl ErrInvalidQuestSnapshot)
            else (Some (m\<lparr>msSnapshot := cloneSnapshot n, msCommitted := True\<rparr>),
                  Inr \<lparr>taTransition = t, taResult = result, taSummary = quest_summarizeSnapshot n\<rparr>))"

definition MemoryStore_PreviewTransition ::
  "memory_store option \<Rightarrow> quest_transition \<Rightarrow> quest_error + transition_apply_result" where
  "MemoryStore_PreviewTransition store t0 =
     (case store of
        None \<Rightarrow> Inl ErrInvalidQuestSnapshot
      | Some m \<Rightarrow>
          let current = current_snapshot m; t = normalizeTransition t0; (s, result) = ApplyTransition current t in
          if \<not> trApplied result
          then Inr \<lparr>taTransition = t, taResult = result, taSummary = quest_summarizeSnapshot current\<rparr>
          else Inr \<lparr>taTransition = t, taResult = result, taSummary = quest_summarizeSnapshot s\<rparr>)"

section \<open>Transitions\<close>

lemma transition_normalized:
  "validTransition (normalizeTransition t) = validTransition t"
  "transition_key (normalizeTransition t) = transition_key t"
  "normalizeTransition (normalizeTransition t) = normalizeTransition t"
  "qtFrom (normalizeTransition t) = qtFrom t" "qtTo (normalizeTransition t) = qtTo t"
  by (simp_all add: validTransition_def normalizeTransition_def transition_key_def)

definition flag_of :: "quest_transition \<Rightarrow> quest_flag" where
  "flag_of t = \<lparr>qfCharacter = qtCharacter t, qfQuestRef = qtQuestRef t, qfName = qtFlag t, qfValue = qtTo t\<rparr>"

lemma flag_of_valid:
  "quest_key (flag_of (normalizeTransition t)) = transition_key t"
  "validTransition t \<Longrightarrow> qtTo t \<noteq> 0 \<Longrightarrow> validFlag (flag_of (normalizeTransition t))"
  "normalizeFlag (flag_of (normalizeTransition t)) = flag_of (normalizeTransition t)"
  "qfValue (flag_of (normalizeTransition t)) = qtTo t"
  by (simp_all add: flag_of_def quest_key_def transition_key_def normalizeTransition_def validFlag_def validTransition_def
      normalizeFlag_def)

text \<open>The flags an accepted transition leaves, before they are sorted.\<close>

definition edited :: "quest_snapshot \<Rightarrow> quest_transition \<Rightarrow> quest_flag list" where
  "edited s t =
     (case find_index (\<lambda>f. quest_key f = transition_key t) (qsFlags s) of
        None \<Rightarrow> if qtTo t = 0 then qsFlags s else qsFlags s @ [flag_of (normalizeTransition t)]
      | Some i \<Rightarrow> if qtTo t = 0 then remove_nth i (qsFlags s) else (qsFlags s)[i := flag_of (normalizeTransition t)])"

lemma find_flag:
  assumes "keys_distinct quest_key fs"
  shows "find_index (\<lambda>f. quest_key f = k) fs = None \<Longrightarrow> lookup quest_key fs k = None"
    and "find_index (\<lambda>f. quest_key f = k) fs = Some i \<Longrightarrow>
      i < length fs \<and> quest_key (fs ! i) = k \<and> lookup quest_key fs k = Some (fs ! i)"
proof -
  show "find_index (\<lambda>f. quest_key f = k) fs = None \<Longrightarrow> lookup quest_key fs k = None"
    unfolding lookup_None_iff by simp
  assume "find_index (\<lambda>f. quest_key f = k) fs = Some i"
  from find_index_SomeD [OF this] lookup_nth [OF assms]
  show "i < length fs \<and> quest_key (fs ! i) = k \<and> lookup quest_key fs k = Some (fs ! i)" by auto
qed

lemma edited_exact:
  assumes ok: "quest_ok s" and v: "validTransition t"
  shows "\<forall>f \<in> set (edited s t). validFlag f \<and> normalizeFlag f = f" and "keys_distinct quest_key (edited s t)"
    and "value_of (lookup quest_key (edited s t) k) = (if k = transition_key t then qtTo t else flag_values s k)"
proof -
  let ?fs = "qsFlags s" and ?f = "flag_of (normalizeTransition t)"
  note d = ok_keys [OF ok] and f = flag_of_valid [of t]
  have ok': "\<forall>f \<in> set ?fs. validFlag f \<and> normalizeFlag f = f" using ok by (simp add: quest_ok_def)
  have "(\<forall>g \<in> set (edited s t). validFlag g \<and> normalizeFlag g = g) \<and> keys_distinct quest_key (edited s t) \<and>
      value_of (lookup quest_key (edited s t) k) = (if k = transition_key t then qtTo t else flag_values s k)"
  proof (cases "find_index (\<lambda>f. quest_key f = transition_key t) ?fs")
    case None
    with find_flag(1) [OF d None] have "\<forall>g \<in> set ?fs. quest_key g \<noteq> transition_key t" by simp
    moreover have "edited s t = (if qtTo t = 0 then ?fs else ?fs @ [?f])" unfolding edited_def None by simp
    ultimately show ?thesis
      using d ok' f v find_flag(1) [OF d None] by (auto simp: flag_values_def lookup_append)
  next
    case (Some i)
    note i = find_flag(2) [OF d Some]
    have "set (?fs[i := ?f]) \<subseteq> insert ?f (set ?fs)" by (rule set_update_subset_insert)
    moreover have "set (remove_nth i ?fs) \<subseteq> set ?fs" using i set_remove_nth_keys [OF d] by blast
    ultimately show ?thesis
      using d ok' f v Some i
      by (auto simp: edited_def flag_values_def lookup_update lookup_remove map_update_same map_remove_nth distinct_remove_nth)
  qed
  then show "\<forall>g \<in> set (edited s t). validFlag g \<and> normalizeFlag g = g" and "keys_distinct quest_key (edited s t)"
    and "value_of (lookup quest_key (edited s t) k) = (if k = transition_key t then qtTo t else flag_values s k)" by blast+
qed

lemma ApplyTransition_edited:
  assumes ok: "quest_ok s"
  shows "ApplyTransition s t =
    (if \<not> validTransition t then (s, \<lparr>trApplied = False, trReason = TransitionReasonInvalidTransition, trCurrentValue = 0\<rparr>)
     else if flag_values s (transition_key t) \<noteq> qtFrom t
     then (s, \<lparr>trApplied = False, trReason = TransitionReasonCurrentValueMismatch, trCurrentValue = flag_values s (transition_key t)\<rparr>)
     else (quest_normalizeSnapshot \<lparr>qsFlags = edited s t\<rparr>,
           \<lparr>trApplied = True, trReason = NoReason, trCurrentValue = flag_values s (transition_key t)\<rparr>))"
proof -
  have p: "(\<lambda>f. qfCharacter f = qtCharacter (normalizeTransition t) \<and> qfQuestRef f = qtQuestRef (normalizeTransition t) \<and>
      qfName f = qtFlag (normalizeTransition t)) = (\<lambda>f. quest_key f = transition_key t)"
    by (simp add: fun_eq_iff quest_key_def transition_key_def normalizeTransition_def)
  have v: "(case find_index (\<lambda>f. quest_key f = transition_key t) (qsFlags s) of None \<Rightarrow> 0 | Some i \<Rightarrow> qfValue (qsFlags s ! i)) =
      flag_values s (transition_key t)"
    using find_flag [OF ok_keys [OF ok], of "transition_key t"]
    by (simp add: flag_values_def split: option.split)
  show ?thesis
    unfolding ApplyTransition_def Let_def p quest_ok_fixed [OF ok] ok_valid [OF ok] v transition_normalized
    unfolding edited_def flag_of_def transition_normalized
    by (cases s; cases "find_index (\<lambda>f. quest_key f = transition_key t) (qsFlags s)") (simp_all del: find_index_None)
qed

text \<open>A transition is a compare-and-set on the values, and tells the value it found.\<close>

theorem ApplyTransition_exact:
  assumes ok: "quest_ok s"
  shows "quest_ok (fst (ApplyTransition s t))"
    and "(flag_values (fst (ApplyTransition s t)), trApplied (snd (ApplyTransition s t))) = compare_and_set (flag_values s) t"
    and "trCurrentValue (snd (ApplyTransition s t)) = (if validTransition t then flag_values s (transition_key t) else 0)"
proof -
  have e: "quest_ok (quest_normalizeSnapshot \<lparr>qsFlags = edited s t\<rparr>)"
    "flag_values (quest_normalizeSnapshot \<lparr>qsFlags = edited s t\<rparr>) = (flag_values s)(transition_key t := qtTo t)"
    if "validTransition t"
    using ok_sorted_flags [OF edited_exact(1,2) [OF ok that]] edited_exact(3) [OF ok that]
    by (auto simp: flag_values_def fun_eq_iff)
  show "quest_ok (fst (ApplyTransition s t))" using ok e by (simp add: ApplyTransition_edited)
  show "(flag_values (fst (ApplyTransition s t)), trApplied (snd (ApplyTransition s t))) = compare_and_set (flag_values s) t"
    using ok e by (simp add: ApplyTransition_edited compare_and_set_def)
  show "trCurrentValue (snd (ApplyTransition s t)) = (if validTransition t then flag_values s (transition_key t) else 0)"
    using ok by (simp add: ApplyTransition_edited)
qed

lemma find_lookup:
  "find (\<lambda>f. qfCharacter f = c \<and> qfQuestRef f = q \<and> qfName f = n) fs = lookup quest_key fs (c, q, n)"
  by (induction fs) (simp_all add: lookup_def quest_key_def)

lemma ExactFlag_exact:
  assumes ok: "quest_ok s"
  shows "ExactFlag s c q n =
    (if \<not> validQuestCharacterName c \<or> \<not> validQuestRef q \<or> \<not> validFlagName n then Inl ErrInvalidQuestSnapshot
     else let v = flag_values s (trim_space c, trim_space q, trim_space n) in
       Inr (if v = 0 then None
            else Some \<lparr>qfCharacter = trim_space c, qfQuestRef = trim_space q, qfName = trim_space n, qfValue = v\<rparr>))"
proof -
  let ?k = "(trim_space c, trim_space q, trim_space n)"
  have "lookup quest_key (qsFlags s) ?k = (let v = flag_values s ?k in if v = 0 then None
      else Some \<lparr>qfCharacter = trim_space c, qfQuestRef = trim_space q, qfName = trim_space n, qfValue = v\<rparr>)"
  proof (cases "lookup quest_key (qsFlags s) ?k")
    case (Some f)
    then have "quest_key f = ?k" "qfValue f \<noteq> 0"
      using ok lookup_Some_iff [OF ok_keys [OF ok]] by (auto simp: quest_ok_def validFlag_def)
    with Some show ?thesis by (cases f) (simp add: flag_values_def quest_key_def Let_def)
  qed (simp add: flag_values_def)
  then show ?thesis
    unfolding ExactFlag_def Let_def quest_ok_fixed [OF ok] ok_valid [OF ok] find_lookup by simp
qed

section \<open>Reports\<close>

lemma CharacterSnapshotFor_exact:
  assumes "quest_ok s"
  shows "CharacterSnapshotFor s c =
    (if \<not> validQuestCharacterName c then Inl ErrInvalidQuestSnapshot
     else let flags = map flag_snapshot_of (filter (\<lambda>f. qfCharacter f = trim_space c) (qsFlags s)) in
       Inr (if flags = [] then None else Some \<lparr>qcCharacter = trim_space c, qcFlags = flags\<rparr>))"
  using assms by (simp add: CharacterSnapshotFor_def quest_ok_fixed ok_valid Let_def)

text \<open>The groups of the walk hold the flags in order, one group for each run of a character.\<close>

lemma group_flags_holds:
  "\<forall>f \<in> set fs. qfCharacter f \<noteq> [] \<Longrightarrow>
   concat (map (\<lambda>g. map (Pair (qcCharacter g)) (qcFlags g)) (group_flags gs cur flags fs)) =
   concat (map (\<lambda>g. map (Pair (qcCharacter g)) (qcFlags g)) (flush gs cur flags)) @
     map (\<lambda>f. (qfCharacter f, flag_snapshot_of f)) fs"
  by (induction gs cur flags fs rule: group_flags.induct) (auto simp: flush_def)

lemma group_flags_characters:
  "\<forall>f \<in> set fs. qfCharacter f \<noteq> [] \<Longrightarrow>
   map qcCharacter (group_flags gs cur flags fs) =
   map qcCharacter gs @ remdups_adj ((if cur = [] then [] else [cur]) @ map qfCharacter fs)"
  by (induction gs cur flags fs rule: group_flags.induct) (auto simp: flush_def remdups_adj_Cons' )

lemma ok_flag:
  assumes ok: "quest_ok s" and f: "f \<in> set (qsFlags s)"
  shows "qfCharacter f \<noteq> [] \<and> trim_space (qfCharacter f) = qfCharacter f \<and> trim_space (qfQuestRef f) = qfQuestRef f \<and>
    validQuestCharacterName (qfCharacter f) \<and> validQuestRef (qfQuestRef f)"
proof -
  have v: "validQuestCharacterName (qfCharacter f)" "validQuestRef (qfQuestRef f)" and n: "normalizeFlag f = f"
    using ok f by (auto simp: quest_ok_def validFlag_def)
  moreover have "trim_space (qfCharacter f) = qfCharacter f" "trim_space (qfQuestRef f) = qfQuestRef f"
    using n by (cases f; simp add: normalizeFlag_def)+
  moreover have "\<not> validQuestCharacterName []" by (simp add: validQuestCharacterName_def)
  ultimately show ?thesis by metis
qed

lemma strict_remdups_adj: "sorted (xs :: 'a :: linorder list) \<Longrightarrow> sorted_wrt (<) (remdups_adj xs)"
  by (induction xs rule: remdups_adj.induct) auto

lemma ok_characters: "quest_ok s \<Longrightarrow> sorted (map qfCharacter (qsFlags s))"
  unfolding quest_ok_def sorted_wrt_map by (erule conjE, erule sorted_wrt_mono_rel [rotated]) (auto simp: quest_key_def)

theorem QuestSnapshotFor_exact:
  assumes ok: "quest_ok s" and report: "QuestSnapshotFor s q = Inr (Some report)"
  shows "qrQuestRef report = trim_space q"
    and "concat (map (\<lambda>g. map (Pair (qcCharacter g)) (qcFlags g)) (qrCharacters report)) =
      map (\<lambda>f. (qfCharacter f, flag_snapshot_of f)) (filter (\<lambda>f. qfQuestRef f = trim_space q) (qsFlags s))"
    and "sorted_wrt (<) (map qcCharacter (qrCharacters report))"
    and "qrFlagCount report = int (\<Sum>g \<leftarrow> qrCharacters report. length (qcFlags g))"
proof -
  let ?fs = "filter (\<lambda>f. qfQuestRef f = trim_space q) (qsFlags s)"
  have r: "report = \<lparr>qrQuestRef = trim_space q, qrFlagCount = int (length ?fs), qrCharacters = group_flags [] [] [] ?fs\<rparr>"
    using report by (auto simp: QuestSnapshotFor_def quest_ok_fixed [OF ok] ok_valid [OF ok] Let_def split: if_splits)
  have n: "\<forall>f \<in> set ?fs. qfCharacter f \<noteq> []" using ok_flag [OF ok] by simp
  show "qrQuestRef report = trim_space q" by (simp add: r)
  show h: "concat (map (\<lambda>g. map (Pair (qcCharacter g)) (qcFlags g)) (qrCharacters report)) =
      map (\<lambda>f. (qfCharacter f, flag_snapshot_of f)) ?fs"
    by (simp add: r group_flags_holds [OF n] flush_def)
  have "sorted (map qfCharacter ?fs)" by (rule sorted_filter [OF ok_characters [OF ok]])
  then show "sorted_wrt (<) (map qcCharacter (qrCharacters report))"
    by (simp add: r group_flags_characters [OF n] strict_remdups_adj)
  have "(\<Sum>g \<leftarrow> qrCharacters report. length (qcFlags g)) = length ?fs"
    using arg_cong [OF h, of length] by (simp add: length_concat o_def)
  then show "qrFlagCount report = int (\<Sum>g \<leftarrow> qrCharacters report. length (qcFlags g))" by (simp add: r)
qed

text \<open>The overview of a valid snapshot cannot fail, and lists every character and every quest once, in order.\<close>

lemma report_each_total:
  "\<forall>n \<in> set ns. report n = Inr (Some (f n)) \<Longrightarrow> report_each report ns = Inr (map f ns)"
  by (induction ns) simp_all

theorem OverviewSnapshot_exact:
  assumes ok: "quest_ok s"
  defines "quest \<equiv> (\<lambda>q. let fs = filter (\<lambda>f. qfQuestRef f = q) (qsFlags s) in
      \<lparr>qrQuestRef = q, qrFlagCount = int (length fs), qrCharacters = group_flags [] [] [] fs\<rparr>)"
    and "character \<equiv> (\<lambda>c. \<lparr>qcCharacter = c, qcFlags = map flag_snapshot_of (filter (\<lambda>f. qfCharacter f = c) (qsFlags s))\<rparr>)"
    and "characters \<equiv> sorted_list_of_set (qfCharacter ` set (qsFlags s))"
    and "refs \<equiv> sorted_list_of_set (qfQuestRef ` set (qsFlags s))"
  shows "OverviewSnapshot s = Inr
    \<lparr>qoFlagCount = int (length (qsFlags s)), qoCharacterCount = int (length characters), qoQuestCount = int (length refs),
     qoQuestRefs = refs, qoCharacters = map character characters, qoQuests = map quest refs\<rparr>"
proof -
  have "report_each (CharacterSnapshotFor s) characters = Inr (map character characters)"
    using ok_flag [OF ok] by (intro report_each_total)
      (auto simp: characters_def CharacterSnapshotFor_exact [OF ok] character_def Let_def filter_empty_conv)
  moreover have "report_each (QuestSnapshotFor s) refs = Inr (map quest refs)"
    using ok_flag [OF ok] by (intro report_each_total)
      (auto simp: refs_def QuestSnapshotFor_def quest_ok_fixed [OF ok] ok_valid [OF ok] quest_def Let_def filter_empty_conv)
  ultimately show ?thesis
    unfolding characters_def refs_def
    by (simp add: OverviewSnapshot_def quest_ok_fixed [OF ok] ok_valid [OF ok] Let_def quest_summarizeSnapshot_def)
qed

section \<open>The store implements a map\<close>

definition store_ok :: "memory_store option \<Rightarrow> bool" where
  "store_ok store \<longleftrightarrow> (case store of None \<Rightarrow> False | Some m \<Rightarrow> quest_ok (current_snapshot m))"

definition store_snapshot :: "memory_store option \<Rightarrow> quest_snapshot" where
  "store_snapshot store = (case store of None \<Rightarrow> \<lparr>qsFlags = []\<rparr> | Some m \<Rightarrow> current_snapshot m)"

datatype quest_command = ApplyFlag quest_transition | SaveFlags quest_snapshot

fun store_step :: "memory_store option \<Rightarrow> quest_command \<Rightarrow> memory_store option \<times> bool" where
  "store_step store (ApplyFlag t) =
     (let (store', r) = MemoryStore_ApplyTransition store t in
      (store', case r of Inl e \<Rightarrow> False | Inr a \<Rightarrow> trApplied (taResult a)))"
| "store_step store (SaveFlags s) = (let (store', e) = MemoryStore_Save store s in (store', e = None))"

text \<open>The abstract store: a value for every key, changed by compare-and-set or replaced by a valid snapshot.\<close>

fun quest_step :: "(string \<times> string \<times> string \<Rightarrow> u32) \<Rightarrow> quest_command \<Rightarrow> (string \<times> string \<times> string \<Rightarrow> u32) \<times> bool" where
  "quest_step w (ApplyFlag t) = compare_and_set w t"
| "quest_step w (SaveFlags s) =
     (if quest_ValidSnapshot s then (flag_values (quest_NormalizeSnapshot s), True) else (w, False))"

lemma clone_snapshot [simp]: "cloneSnapshot s = s"
  by (cases s) (simp add: cloneSnapshot_def)

lemma apply_normalized: "ApplyTransition s (normalizeTransition t) = ApplyTransition s t"
  unfolding ApplyTransition_def transition_normalized(3) ..

text \<open>Applying a transition to a sound store succeeds, and previewing it gives the answer applying it would.\<close>

lemma MemoryStore_ApplyTransition_exact:
  assumes "store_ok store"
  shows "\<exists>store' a. MemoryStore_ApplyTransition store t = (store', Inr a) \<and> store_ok store' \<and>
    (flag_values (store_snapshot store'), trApplied (taResult a)) = compare_and_set (flag_values (store_snapshot store)) t \<and>
    trCurrentValue (taResult a) =
      (if validTransition t then flag_values (store_snapshot store) (transition_key t) else 0) \<and>
    MemoryStore_PreviewTransition store t = Inr a"
proof -
  obtain m where m: "store = Some m" "quest_ok (current_snapshot m)"
    using assms by (cases store) (simp_all add: store_ok_def)
  note x = ApplyTransition_exact [OF m(2), of t]
  obtain s r where a: "ApplyTransition (current_snapshot m) t = (s, r)" by (cases "ApplyTransition (current_snapshot m) t")
  have ok: "quest_ok s" using x(1) a by simp
  show ?thesis
  proof (cases "trApplied r")
    case True
    then show ?thesis
      using x a quest_ok_fixed [OF ok] ok_valid [OF ok]
      by (simp add: m(1) MemoryStore_ApplyTransition_def MemoryStore_PreviewTransition_def apply_normalized
          store_ok_def store_snapshot_def) (simp add: current_snapshot_def)
  next
    case False
    then have "snd (compare_and_set (flag_values (current_snapshot m)) t) = False" using x(2) a by (metis snd_conv)
    then have "compare_and_set (flag_values (current_snapshot m)) t = (flag_values (current_snapshot m), False)"
      by (auto simp: compare_and_set_def split: if_splits)
    with False show ?thesis
      using x(3) a m
      by (simp add: MemoryStore_ApplyTransition_def MemoryStore_PreviewTransition_def apply_normalized
          store_ok_def store_snapshot_def)
  qed
qed

lemma MemoryStore_Save_exact:
  assumes "store_ok store"
  shows "store_ok (fst (MemoryStore_Save store s))"
    and "(flag_values (store_snapshot (fst (MemoryStore_Save store s))), snd (MemoryStore_Save store s) = None) =
      quest_step (flag_values (store_snapshot store)) (SaveFlags s)"
proof -
  obtain m where m: "store = Some m" "quest_ok (current_snapshot m)"
    using assms by (cases store) (simp_all add: store_ok_def)
  note d = MemoryStore_Save_def store_ok_def store_snapshot_def quest_ValidSnapshot_def quest_NormalizeSnapshot_def Let_def
  show "store_ok (fst (MemoryStore_Save store s))"
    using m valid_iff_ok [of s] by (simp add: d current_snapshot_def)
  show "(flag_values (store_snapshot (fst (MemoryStore_Save store s))), snd (MemoryStore_Save store s) = None) =
      quest_step (flag_values (store_snapshot store)) (SaveFlags s)"
    using m by (simp add: d) (simp add: current_snapshot_def)
qed

lemma store_step_simulates:
  assumes "store_ok store"
  shows "store_ok (fst (store_step store c))"
    and "quest_step (flag_values (store_snapshot store)) c =
      (flag_values (store_snapshot (fst (store_step store c))), snd (store_step store c))"
proof -
  have "store_ok (fst (store_step store c)) \<and> quest_step (flag_values (store_snapshot store)) c =
      (flag_values (store_snapshot (fst (store_step store c))), snd (store_step store c))"
  proof (cases c)
    case (ApplyFlag t)
    with MemoryStore_ApplyTransition_exact [OF assms, of t] show ?thesis by force
  next
    case (SaveFlags s)
    with MemoryStore_Save_exact [OF assms, of s] show ?thesis by (simp add: case_prod_beta)
  qed
  then show "store_ok (fst (store_step store c))"
    and "quest_step (flag_values (store_snapshot store)) c =
      (flag_values (store_snapshot (fst (store_step store c))), snd (store_step store c))" by blast+
qed

interpretation quests: simulation store_step quest_step store_ok "\<lambda>store. flag_values (store_snapshot store)"
  by unfold_locales (simp_all add: store_step_simulates)

lemma new_store_ok: "store_ok (Some NewMemoryStore)" "flag_values (store_snapshot (Some NewMemoryStore)) = (\<lambda>_. 0)"
  by (simp_all add: store_ok_def store_snapshot_def NewMemoryStore_def current_snapshot_def quest_ok_def flag_values_def
      lookup_def fun_eq_iff)

text \<open>Two histories that leave the same values leave the same snapshot.\<close>

theorem quest_snapshot_canonical:
  assumes "run quest_step (\<lambda>_. 0) cs = run quest_step (\<lambda>_. 0) cs'"
  shows "store_snapshot (run store_step (Some NewMemoryStore) cs) = store_snapshot (run store_step (Some NewMemoryStore) cs')"
proof -
  have "quest_ok (store_snapshot store)" if "store_ok store" for store
    using that by (auto simp: store_ok_def store_snapshot_def split: option.splits)
  then show ?thesis
    using quests.run_simulates [OF new_store_ok(1)] assms by (intro normal_form_unique) (simp_all add: new_store_ok(2))
qed

text \<open>
  C26: The quest store is a register for every flag under compare-and-set. From an empty store, after any
  transitions and saves, accepted or not, the values of the flags are those the map specification leaves, the same
  requests were accepted, and the stored snapshot is in normal form. Then looking a flag up gives the value of its
  key, or nothing where it is 0, and a transition is carried out exactly when its names are valid and its
  flag still has the expected value, tells the value it found, changes that flag and no other,
  and its preview gives the very answer.
\<close>

theorem quest_store_refines_map:
  "let store = run store_step (Some NewMemoryStore) cs; s = store_snapshot store; w = run quest_step (\<lambda>_. 0) cs in
   accepted store_step (Some NewMemoryStore) cs = accepted quest_step (\<lambda>_. 0) cs \<and> flag_values s = w \<and> quest_ok s \<and>
   (\<forall>c q n. ExactFlag s c q n =
     (if validQuestCharacterName c \<and> validQuestRef q \<and> validFlagName n
      then let v = w (trim_space c, trim_space q, trim_space n) in
        Inr (if v = 0 then None
             else Some \<lparr>qfCharacter = trim_space c, qfQuestRef = trim_space q, qfName = trim_space n, qfValue = v\<rparr>)
      else Inl ErrInvalidQuestSnapshot)) \<and>
   (\<forall>t. \<exists>store' a. MemoryStore_ApplyTransition store t = (store', Inr a) \<and>
     (flag_values (store_snapshot store'), trApplied (taResult a)) = compare_and_set w t \<and>
     trCurrentValue (taResult a) = (if validTransition t then w (transition_key t) else 0) \<and>
     MemoryStore_PreviewTransition store t = Inr a)"
proof -
  note r = quests.run_simulates [OF new_store_ok(1), of cs, unfolded new_store_ok(2)]
  then have ok: "quest_ok (store_snapshot (run store_step (Some NewMemoryStore) cs))"
    by (auto simp: store_ok_def store_snapshot_def split: option.splits)
  have flip: "(if \<not> a \<or> \<not> b \<or> \<not> c then x else y) = (if a \<and> b \<and> c then y else x)" for a b c and x y :: "quest_error + quest_flag option"
    by simp
  show ?thesis
    using r ok ExactFlag_exact [OF ok, unfolded flip] MemoryStore_ApplyTransition_exact [OF conjunct1 [OF r]]
    unfolding Let_def by metis
qed

end
