(* ===== verification/Safebox_Store.thy ===== *)
theory Safebox_Store
  imports Inventory Keyed_Slice "HOL-Library.List_Lexorder"
begin

text \<open>
  The durable safeboxes (\<open>internal/safeboxstore/store.go\<close>): rows of a login and a character id with
  a password, money and cells, their normal form and validation, and the operations that replace one part of
  one row. A valid snapshot is a map from characters to boxes, and each operation changes its part of its
  box and nothing else. A Go map of cells is walked in ascending order. The file behind the
  store and the summary for the operator are not modelled.
\<close>

section \<open>Data\<close>

record safebox_cell =
  scCell :: u8
  scID :: u64
  scVnum :: u32
  scCount :: u16
  scLocked :: bool
  scHasSockets :: bool
  scSocket0 :: i32
  scSocket1 :: i32
  scSocket2 :: i32
  scHasAttributes :: bool
  scAttributes :: "attribute_values option"

record safebox_row =
  srLogin :: string
  srCharacterID :: u32
  srPassword :: string
  srMoney :: i64
  srCells :: "safebox_cell list"

record safebox_snapshot =
  ssCharacters :: "safebox_row list"

datatype safebox_error = ErrInvalidSafebox | ErrSafeboxNotFound

definition MaxDurableCellExclusive :: u8 where "MaxDurableCellExclusive = 15"
definition DefaultPassword :: string where "DefaultPassword = ''000000''"
definition MaxPasswordLen :: nat where "MaxPasswordLen = 6"

section \<open>Checks\<close>

definition letter_or_digit :: "char \<Rightarrow> bool" where
  "letter_or_digit c \<longleftrightarrow> in_range 65 90 c \<or> in_range 97 122 c \<or> in_range 48 57 c"

definition validLogin :: "string \<Rightarrow> bool" where
  "validLogin login0 =
     (let login = trim_space login0 in
      if login = [] \<or> \<not> utf8_valid login \<or> contains_nul login then False
      else list_all (\<lambda>c. letter_or_digit c \<or> code c = 95 \<or> code c = 45) login)"

definition validPassword :: "string \<Rightarrow> bool" where
  "validPassword password =
     (if password = [] then True
      else if \<not> utf8_valid password \<or> contains_nul password then False
      else if MaxPasswordLen < length password then False
      else list_all letter_or_digit password)"

definition validMoney :: "i64 \<Rightarrow> bool" where
  "validMoney money \<longleftrightarrow> 0 \<le> sint money \<and> sint money \<le> 2 ^ 31 - 1"

definition characterKey :: "string \<Rightarrow> u32 \<Rightarrow> string" where
  "characterKey login characterID = trim_space login @ '':'' @ decimal (unat characterID)"

definition safeboxAttributesNonZero :: "attribute_values option \<Rightarrow> bool" where
  "safeboxAttributesNonZero attributes =
     (case attributes of None \<Rightarrow> False | Some as \<Rightarrow> list_ex (\<lambda>a. aType a \<noteq> 0 \<or> aValue a \<noteq> 0) as)"

definition validateCellInstanceSockets :: "safebox_cell \<Rightarrow> safebox_error option" where
  "validateCellInstanceSockets c =
     (if scHasSockets c then None
      else if scSocket0 c \<noteq> 0 \<or> scSocket1 c \<noteq> 0 \<or> scSocket2 c \<noteq> 0 then Some ErrInvalidSafebox else None)"

definition validateCellInstanceAttributes :: "safebox_cell \<Rightarrow> safebox_error option" where
  "validateCellInstanceAttributes c =
     (if scHasAttributes c then None
      else if safeboxAttributesNonZero (scAttributes c) then Some ErrInvalidSafebox else None)"

section \<open>Cells and item instances\<close>

definition zero_attributes :: attribute_values where
  "zero_attributes = replicate 7 \<lparr>aType = 0, aValue = 0\<rparr>"

definition cellInstanceSockets :: "safebox_cell \<Rightarrow> socket_values option" where
  "cellInstanceSockets c = (if \<not> scHasSockets c then None else Some [scSocket0 c, scSocket1 c, scSocket2 c])"

definition cellInstanceAttributes :: "safebox_cell \<Rightarrow> attribute_values option" where
  "cellInstanceAttributes c =
     (if \<not> scHasAttributes c then None
      else Some (case scAttributes c of None \<Rightarrow> zero_attributes | Some values \<Rightarrow> values))"

definition cell_instance :: "safebox_cell \<Rightarrow> item_instance" where
  "cell_instance c =
     \<lparr>ID = scID c, Vnum = scVnum c, Count = scCount c, Slot = ucast (scCell c), Equipped = False,
      EquipSlot = EquipmentSlotNone, Locked = scLocked c, Sockets = cellInstanceSockets c, Attributes = cellInstanceAttributes c\<rparr>"

definition cellFromItemInstance :: "u8 \<Rightarrow> item_instance \<Rightarrow> safebox_cell" where
  "cellFromItemInstance cell item =
     (let out = \<lparr>scCell = cell, scID = ID item, scVnum = Vnum item, scCount = Count item, scLocked = Locked item,
                 scHasSockets = False, scSocket0 = 0, scSocket1 = 0, scSocket2 = 0, scHasAttributes = False, scAttributes = None\<rparr>;
          out = (case Sockets item of
                   None \<Rightarrow> out
                 | Some values \<Rightarrow> out\<lparr>scHasSockets := True, scSocket0 := values ! 0, scSocket1 := values ! 1, scSocket2 := values ! 2\<rparr>)
      in case Attributes item of
           None \<Rightarrow> out
         | Some values \<Rightarrow> out\<lparr>scHasAttributes := True, scAttributes := Some values\<rparr>)"

section \<open>Normal form and validation\<close>

definition normalizeCell :: "safebox_cell \<Rightarrow> safebox_cell" where
  "normalizeCell c =
     (if scHasAttributes c
      then c\<lparr>scAttributes := (case scAttributes c of None \<Rightarrow> Some zero_attributes | Some copied \<Rightarrow> Some copied)\<rparr>
      else if safeboxAttributesNonZero (scAttributes c) then c
      else c\<lparr>scAttributes := None\<rparr>)"

definition normalizeCharacterRow :: "safebox_row \<Rightarrow> safebox_row" where
  "normalizeCharacterRow r =
     r\<lparr>srLogin := trim_space (srLogin r), srPassword := trim_space (srPassword r),
       srCells := sort_key scCell (map normalizeCell (srCells r))\<rparr>"

definition safebox_normalizeSnapshot :: "safebox_snapshot \<Rightarrow> safebox_snapshot" where
  "safebox_normalizeSnapshot s =
     \<lparr>ssCharacters = sort_key (\<lambda>r. (srLogin r, srCharacterID r)) (map normalizeCharacterRow (ssCharacters s))\<rparr>"

text \<open>The loop over the cells of a row: \<open>None\<close> when a cell is refused, else the item ids seen so far.\<close>

fun validate_cells :: "u8 set \<Rightarrow> u64 set \<Rightarrow> safebox_cell list \<Rightarrow> u64 set option" where
  "validate_cells seenCells seenItemIDs [] = Some seenItemIDs"
| "validate_cells seenCells seenItemIDs (c # cs) =
     (if MaxDurableCellExclusive \<le> scCell c then None
      else if scCell c \<in> seenCells then None
      else if validateCellInstanceSockets c \<noteq> None then None
      else if validateCellInstanceAttributes c \<noteq> None then None
      else if Validate (cell_instance c) \<noteq> None then None
      else if Equipped (cell_instance c) then None
      else if scID c \<in> seenItemIDs then None
      else validate_cells (insert (scCell c) seenCells) (insert (scID c) seenItemIDs) cs)"

fun validate_rows :: "string set \<Rightarrow> u64 set \<Rightarrow> safebox_row list \<Rightarrow> safebox_error option" where
  "validate_rows seenCharacters seenItemIDs [] = None"
| "validate_rows seenCharacters seenItemIDs (r0 # rs) =
     (let r = normalizeCharacterRow r0; key = characterKey (srLogin r) (srCharacterID r) in
      if \<not> validLogin (srLogin r) \<or> srCharacterID r = 0 \<or> \<not> validPassword (srPassword r) \<or> \<not> validMoney (srMoney r)
      then Some ErrInvalidSafebox
      else if key \<in> seenCharacters then Some ErrInvalidSafebox
      else case validate_cells {} seenItemIDs (srCells r) of
          None \<Rightarrow> Some ErrInvalidSafebox
        | Some seenItemIDs' \<Rightarrow> validate_rows (insert key seenCharacters) seenItemIDs' rs)"

definition safebox_validateSnapshot :: "safebox_snapshot \<Rightarrow> safebox_error option" where
  "safebox_validateSnapshot s = validate_rows {} {} (ssCharacters s)"

definition safebox_NormalizeSnapshot :: "safebox_snapshot \<Rightarrow> safebox_snapshot" where
  "safebox_NormalizeSnapshot s = safebox_normalizeSnapshot s"

definition safebox_ValidSnapshot :: "safebox_snapshot \<Rightarrow> bool" where
  "safebox_ValidSnapshot s \<longleftrightarrow> safebox_validateSnapshot (safebox_normalizeSnapshot s) = None"

section \<open>Operations\<close>

definition of_character :: "string \<Rightarrow> u32 \<Rightarrow> safebox_row \<Rightarrow> bool" where
  "of_character login characterID r \<longleftrightarrow> srLogin r = login \<and> srCharacterID r = characterID"

definition CharacterCells :: "safebox_snapshot \<Rightarrow> string \<Rightarrow> u32 \<Rightarrow> u8 \<Rightarrow> item_instance option" where
  "CharacterCells s login0 characterID =
     (case find (of_character (trim_space login0) characterID) (ssCharacters (safebox_normalizeSnapshot s)) of
        None \<Rightarrow> Map.empty
      | Some r \<Rightarrow> foldl (\<lambda>out c. out(scCell c \<mapsto> cell_instance c)) Map.empty (srCells r))"

definition EffectivePassword :: "string \<Rightarrow> string" where
  "EffectivePassword password = (if trim_space password = [] then DefaultPassword else password)"

definition CharacterPassword :: "safebox_snapshot \<Rightarrow> string \<Rightarrow> u32 \<Rightarrow> string" where
  "CharacterPassword s login0 characterID =
     (case find (of_character (trim_space login0) characterID) (ssCharacters (safebox_normalizeSnapshot s)) of
        None \<Rightarrow> DefaultPassword
      | Some r \<Rightarrow> EffectivePassword (srPassword r))"

definition CharacterMoney :: "safebox_snapshot \<Rightarrow> string \<Rightarrow> u32 \<Rightarrow> i64" where
  "CharacterMoney s login0 characterID =
     (case find (of_character (trim_space login0) characterID) (ssCharacters (safebox_normalizeSnapshot s)) of
        None \<Rightarrow> 0
      | Some r \<Rightarrow> srMoney r)"

text \<open>The walk over a Go map of cells.\<close>

definition row_cells :: "(u8 \<Rightarrow> item_instance option) \<Rightarrow> safebox_cell list" where
  "row_cells cells = map (\<lambda>c. cellFromItemInstance c (the (cells c))) (sorted_list_of_set (dom cells))"

text \<open>The end of the three operations: the new row is appended and the result checked.\<close>

definition with_row :: "safebox_row list \<Rightarrow> safebox_row \<Rightarrow> safebox_error + safebox_snapshot" where
  "with_row filtered r =
     (let next_s = safebox_normalizeSnapshot \<lparr>ssCharacters = filtered @ [r]\<rparr> in
      case safebox_validateSnapshot next_s of Some e \<Rightarrow> Inl e | None \<Rightarrow> Inr next_s)"

definition ReplaceCharacterCells ::
  "safebox_snapshot \<Rightarrow> string \<Rightarrow> u32 \<Rightarrow> (u8 \<Rightarrow> item_instance option) \<Rightarrow> safebox_error + safebox_snapshot" where
  "ReplaceCharacterCells s login0 characterID cells =
     (let login = trim_space login0 in
      if \<not> validLogin login \<or> characterID = 0 then Inl ErrInvalidSafebox
      else
        let rows = ssCharacters (safebox_normalizeSnapshot s); mine = of_character login characterID;
            (existingPassword, existingMoney) =
              foldl (\<lambda>(password, money) r. if mine r then (srPassword r, srMoney r) else (password, money)) ([], 0) rows;
            filtered = filter (\<lambda>r. \<not> mine r) rows in
        if dom cells = {} then
          (if existingPassword = [] \<and> existingMoney = 0 then Inr (safebox_normalizeSnapshot \<lparr>ssCharacters = filtered\<rparr>)
           else with_row filtered \<lparr>srLogin = login, srCharacterID = characterID, srPassword = existingPassword,
                                   srMoney = existingMoney, srCells = []\<rparr>)
        else with_row filtered \<lparr>srLogin = login, srCharacterID = characterID, srPassword = existingPassword,
                                srMoney = existingMoney, srCells = row_cells cells\<rparr>)"

definition ReplaceCharacterPassword ::
  "safebox_snapshot \<Rightarrow> string \<Rightarrow> u32 \<Rightarrow> string \<Rightarrow> safebox_error + safebox_snapshot" where
  "ReplaceCharacterPassword s login0 characterID password =
     (let login = trim_space login0 in
      if \<not> validLogin login \<or> characterID = 0 then Inl ErrInvalidSafebox
      else if \<not> validPassword password then Inl ErrInvalidSafebox
      else
        let n = safebox_normalizeSnapshot s; cells = CharacterCells n login characterID;
            existingMoney = CharacterMoney n login characterID;
            filtered = filter (\<lambda>r. \<not> of_character login characterID r) (ssCharacters n) in
        with_row filtered \<lparr>srLogin = login, srCharacterID = characterID, srPassword = password,
                           srMoney = existingMoney, srCells = row_cells cells\<rparr>)"

definition ReplaceCharacterMoney ::
  "safebox_snapshot \<Rightarrow> string \<Rightarrow> u32 \<Rightarrow> i64 \<Rightarrow> safebox_error + safebox_snapshot" where
  "ReplaceCharacterMoney s login0 characterID money =
     (let login = trim_space login0 in
      if \<not> validLogin login \<or> characterID = 0 \<or> \<not> validMoney money then Inl ErrInvalidSafebox
      else
        let n = safebox_normalizeSnapshot s; cells = CharacterCells n login characterID;
            existingPassword = (case find (of_character login characterID) (ssCharacters n) of
              None \<Rightarrow> [] | Some r \<Rightarrow> srPassword r);
            filtered = filter (\<lambda>r. \<not> of_character login characterID r) (ssCharacters n) in
        if money = 0 \<and> existingPassword = [] \<and> row_cells cells = [] then Inr (safebox_normalizeSnapshot \<lparr>ssCharacters = filtered\<rparr>)
        else with_row filtered \<lparr>srLogin = login, srCharacterID = characterID, srPassword = existingPassword,
                                srMoney = money, srCells = row_cells cells\<rparr>)"

end
