(* ===== verification/Safebox_Facts.thy ===== *)
theory Safebox_Facts
  imports Safebox_Store Machine
begin

text \<open>
  The safebox store as a map from characters to boxes: what a valid snapshot is, what each operation does
  to its map, and the refinement of the map by any sequence of replacements.
\<close>

section \<open>Valid snapshots\<close>

definition row_key :: "safebox_row \<Rightarrow> string \<times> u32" where
  "row_key r = (srLogin r, srCharacterID r)"

definition cell_valid :: "safebox_cell \<Rightarrow> bool" where
  "cell_valid c \<longleftrightarrow> scCell c < MaxDurableCellExclusive \<and> scID c \<noteq> 0 \<and> scVnum c \<noteq> 0 \<and> scCount c \<noteq> 0 \<and>
     validateCellInstanceSockets c = None \<and> validateCellInstanceAttributes c = None"

definition row_valid :: "safebox_row \<Rightarrow> bool" where
  "row_valid r \<longleftrightarrow> validLogin (srLogin r) \<and> srCharacterID r \<noteq> 0 \<and> validPassword (srPassword r) \<and> validMoney (srMoney r) \<and>
     (\<forall>c \<in> set (srCells r). cell_valid c) \<and> distinct (map scCell (srCells r))"

definition stored_ids :: "safebox_row list \<Rightarrow> u64 list" where
  "stored_ids rs = concat (map (\<lambda>r. map scID (srCells r)) rs)"

definition box_ok :: "safebox_snapshot \<Rightarrow> bool" where
  "box_ok s \<longleftrightarrow> (\<forall>r \<in> set (ssCharacters s). row_valid r \<and> normalizeCharacterRow r = r) \<and>
     sorted_wrt (<) (map row_key (ssCharacters s)) \<and> distinct (stored_ids (ssCharacters s))"

lemma validate_cells_Some:
  "validate_cells seen ids cs = Some ids' \<longleftrightarrow>
     (\<forall>c \<in> set cs. cell_valid c \<and> scCell c \<notin> seen \<and> scID c \<notin> ids) \<and>
     distinct (map scCell cs) \<and> distinct (map scID cs) \<and> ids' = ids \<union> scID ` set cs"
proof (induction cs arbitrary: seen ids)
  case (Cons c cs)
  have v: "cell_valid c \<longleftrightarrow> \<not> MaxDurableCellExclusive \<le> scCell c \<and> validateCellInstanceSockets c = None \<and>
      validateCellInstanceAttributes c = None \<and> Validate (cell_instance c) = None"
    by (auto simp: cell_valid_def Validate_None_iff cell_instance_def not_le)
  have "\<not> Equipped (cell_instance c)" by (simp add: cell_instance_def)
  then show ?case using Cons by (auto simp: v image_iff)
qed auto

lemma validLogin_trim [simp]: "validLogin (trim_space l) = validLogin l"
  by (simp add: validLogin_def)

lemma valid_login_chars: "validLogin l \<Longrightarrow> CHR '':'' \<notin> set (trim_space l)"
  by (auto simp: validLogin_def Let_def list_all_iff letter_or_digit_def in_range_def code_def split: if_splits)

lemma characterKey_inj:
  assumes "validLogin (srLogin r)" "validLogin (srLogin r')" "trim_space (srLogin r) = srLogin r" "trim_space (srLogin r') = srLogin r'"
  shows "characterKey (srLogin r) (srCharacterID r) = characterKey (srLogin r') (srCharacterID r') \<longleftrightarrow> row_key r = row_key r'"
  using assms valid_login_chars [OF assms(1)] valid_login_chars [OF assms(2)]
  by (simp add: characterKey_def before_separator row_key_def word_unat_eq_iff)

lemma normalizeCell_twice [simp]: "normalizeCell (normalizeCell c) = normalizeCell c"
  by (simp add: normalizeCell_def safeboxAttributesNonZero_def split: option.split)

lemma normalizeCell_cell [simp]: "scCell (normalizeCell c) = scCell c"
  by (simp add: normalizeCell_def)

lemma normalizeCharacterRow_twice [simp]: "normalizeCharacterRow (normalizeCharacterRow r) = normalizeCharacterRow r"
proof -
  have "map normalizeCell (sort_key scCell (map normalizeCell cs)) = sort_key scCell (map normalizeCell cs)" for cs
    by (rule map_idI) auto
  then show ?thesis by (simp add: normalizeCharacterRow_def sort_key_id_if_sorted)
qed

lemma fixed_row:
  assumes "normalizeCharacterRow r = r"
  shows "trim_space (srLogin r) = srLogin r" "trim_space (srPassword r) = srPassword r"
    "sort_key scCell (map normalizeCell (srCells r)) = srCells r"
  using assms by (cases r; simp add: normalizeCharacterRow_def)+

lemma fixed_cells:
  assumes "normalizeCharacterRow r = r"
  shows "sorted (map scCell (srCells r))" and "\<forall>c \<in> set (srCells r). normalizeCell c = c"
proof -
  have e: "srCells r = sort_key scCell (map normalizeCell (srCells r))" using fixed_row(3) [OF assms] by simp
  show "sorted (map scCell (srCells r))" by (subst e) simp
  show "\<forall>c \<in> set (srCells r). normalizeCell c = c" by (subst e) auto
qed

lemma validate_rows_None:
  assumes "\<forall>r \<in> set rs. normalizeCharacterRow r = r"
  shows "validate_rows seen ids rs = None \<longleftrightarrow>
    (\<forall>r \<in> set rs. row_valid r \<and> characterKey (srLogin r) (srCharacterID r) \<notin> seen) \<and>
    distinct (map (\<lambda>r. characterKey (srLogin r) (srCharacterID r)) rs) \<and>
    distinct (stored_ids rs) \<and> set (stored_ids rs) \<inter> ids = {}"
  using assms
proof (induction rs arbitrary: seen ids)
  case (Cons r rs)
  have n: "normalizeCharacterRow r = r" using Cons.prems by simp
  show ?case
  proof (cases "validate_cells {} ids (srCells r)")
    case None
    then have "\<not> ((\<forall>c \<in> set (srCells r). cell_valid c \<and> scID c \<notin> ids) \<and> distinct (map scCell (srCells r)) \<and> distinct (map scID (srCells r)))"
      using validate_cells_Some [of "{}" ids "srCells r" "ids \<union> scID ` set (srCells r)"] by auto
    with None n show ?thesis by (auto simp: Let_def row_valid_def stored_ids_def)
  next
    case (Some ids')
    then have c: "\<forall>c \<in> set (srCells r). cell_valid c \<and> scID c \<notin> ids" "distinct (map scCell (srCells r))" "distinct (map scID (srCells r))"
      "ids' = ids \<union> scID ` set (srCells r)" by (simp_all add: validate_cells_Some)
    have "validate_rows seen ids (r # rs) = None \<longleftrightarrow> row_valid r \<and> characterKey (srLogin r) (srCharacterID r) \<notin> seen \<and>
        validate_rows (insert (characterKey (srLogin r) (srCharacterID r)) seen) ids' rs = None"
      using Some n c by (auto simp: Let_def row_valid_def)
    also have "\<dots> \<longleftrightarrow> row_valid r \<and> characterKey (srLogin r) (srCharacterID r) \<notin> seen \<and>
        (\<forall>r' \<in> set rs. row_valid r' \<and> characterKey (srLogin r') (srCharacterID r') \<notin> insert (characterKey (srLogin r) (srCharacterID r)) seen) \<and>
        distinct (map (\<lambda>r. characterKey (srLogin r) (srCharacterID r)) rs) \<and>
        distinct (stored_ids rs) \<and> set (stored_ids rs) \<inter> ids' = {}"
      using Cons by simp
    finally have v: "validate_rows seen ids (r # rs) = None \<longleftrightarrow> \<dots>" .
    have s: "stored_ids (r # rs) = map scID (srCells r) @ stored_ids rs" by (simp add: stored_ids_def)
    have j: "scID ` set (srCells r) \<inter> ids = {}" using c(1) by blast
    have i: "set (stored_ids rs) \<inter> ids' = {} \<longleftrightarrow> scID ` set (srCells r) \<inter> set (stored_ids rs) = {} \<and> set (stored_ids rs) \<inter> ids = {}"
      unfolding c(4) by blast
    have k: "set (map scID (srCells r) @ stored_ids rs) \<inter> ids = {} \<longleftrightarrow> set (stored_ids rs) \<inter> ids = {}"
      "distinct (map scID (srCells r) @ stored_ids rs) \<longleftrightarrow> distinct (stored_ids rs) \<and> scID ` set (srCells r) \<inter> set (stored_ids rs) = {}"
      using j c(3) by auto
    have m: "characterKey (srLogin r) (srCharacterID r) \<notin> (\<lambda>r. characterKey (srLogin r) (srCharacterID r)) ` set rs \<longleftrightarrow>
        (\<forall>r' \<in> set rs. characterKey (srLogin r') (srCharacterID r') \<noteq> characterKey (srLogin r) (srCharacterID r))"
      unfolding image_iff by metis
    show ?thesis
      unfolding v s i k list.simps distinct.simps list.set set_map m insert_iff de_Morgan_disj ball_conj_distrib ball_simps(7) by argo
  qed
qed (simp add: stored_ids_def)

lemma safebox_normalize_key:
  "safebox_normalizeSnapshot s = \<lparr>ssCharacters = sort_key row_key (map normalizeCharacterRow (ssCharacters s))\<rparr>"
  by (simp add: safebox_normalizeSnapshot_def row_key_def [abs_def])

lemma normal_rows: "r \<in> set (ssCharacters (safebox_normalizeSnapshot s)) \<Longrightarrow> normalizeCharacterRow r = r"
  by (auto simp: safebox_normalize_key)

lemma box_ok_fixed: "box_ok s \<Longrightarrow> safebox_normalizeSnapshot s = s"
  by (cases s) (simp add: box_ok_def safebox_normalize_key strict_sorted_iff map_idI sort_key_id_if_sorted)

lemma safebox_valid_iff: "safebox_validateSnapshot (safebox_normalizeSnapshot s) = None \<longleftrightarrow> box_ok (safebox_normalizeSnapshot s)"
proof -
  let ?rs = "ssCharacters (safebox_normalizeSnapshot s)"
  have n: "\<forall>r \<in> set ?rs. normalizeCharacterRow r = r" using normal_rows by blast
  have "sorted (map row_key ?rs)" by (simp add: safebox_normalize_key)
  moreover have "distinct (map (\<lambda>r. characterKey (srLogin r) (srCharacterID r)) ?rs) \<longleftrightarrow> keys_distinct row_key ?rs"
    if "\<forall>r \<in> set ?rs. row_valid r"
    using that n characterKey_inj fixed_row(1) by (auto simp: distinct_map inj_on_def row_valid_def)
  ultimately show ?thesis
    using n by (auto simp: safebox_validateSnapshot_def validate_rows_None [OF n] box_ok_def strict_sorted_iff)
qed

section \<open>Boxes\<close>

record safebox =
  bxPassword :: string
  bxMoney :: i64
  bxCells :: "u8 \<Rightarrow> item_instance option"

definition empty_box :: safebox where
  "empty_box = \<lparr>bxPassword = [], bxMoney = 0, bxCells = Map.empty\<rparr>"

definition box_cells :: "safebox_row \<Rightarrow> u8 \<Rightarrow> item_instance option" where
  "box_cells r c = map_option cell_instance (lookup scCell (srCells r) c)"

definition box_of_row :: "safebox_row \<Rightarrow> safebox" where
  "box_of_row r = \<lparr>bxPassword = srPassword r, bxMoney = srMoney r, bxCells = box_cells r\<rparr>"

definition boxes :: "safebox_row list \<Rightarrow> string \<times> u32 \<Rightarrow> safebox" where
  "boxes rs k = (case lookup row_key rs k of None \<Rightarrow> empty_box | Some r \<Rightarrow> box_of_row r)"

definition boxes_of :: "safebox_snapshot \<Rightarrow> string \<times> u32 \<Rightarrow> safebox" where
  "boxes_of s = boxes (ssCharacters s)"

lemma foldl_cells:
  "distinct (map scCell cs) \<Longrightarrow>
   foldl (\<lambda>out c. out(scCell c \<mapsto> cell_instance c)) m cs c = (case lookup scCell cs c of None \<Rightarrow> m c | Some x \<Rightarrow> Some (cell_instance x))"
proof (induction cs arbitrary: m)
  case (Cons x cs)
  have "lookup scCell cs (scCell x) = None" using Cons.prems by (auto simp: lookup_None_iff image_iff)
  with Cons show ?case by (auto simp: lookup_def split: option.split)
qed (simp add: lookup_def)

lemma find_row: "find (of_character l i) rs = lookup row_key rs (l, i)"
  by (induction rs) (simp_all add: lookup_def of_character_def row_key_def)

lemma box_ok_keys: "box_ok s \<Longrightarrow> keys_distinct row_key (ssCharacters s)"
  by (simp add: box_ok_def strict_sorted_iff)

text \<open>Reading a valid snapshot.\<close>

lemma reads_exact:
  assumes ok: "box_ok s"
  shows "CharacterCells s l i = bxCells (boxes_of s (trim_space l, i))"
    and "CharacterMoney s l i = bxMoney (boxes_of s (trim_space l, i))"
    and "CharacterPassword s l i = EffectivePassword (bxPassword (boxes_of s (trim_space l, i)))"
proof -
  have d: "distinct (map scCell (srCells r))" if "lookup row_key (ssCharacters s) k = Some r" for r k
    using ok that by (simp add: lookup_Some_iff [OF box_ok_keys [OF ok]] box_ok_def row_valid_def)
  show "CharacterCells s l i = bxCells (boxes_of s (trim_space l, i))"
    using d [of "(trim_space l, i)"]
    by (auto simp: CharacterCells_def box_ok_fixed [OF ok] find_row boxes_of_def boxes_def box_of_row_def empty_box_def
        box_cells_def fun_eq_iff foldl_cells split: option.split)
  show "CharacterMoney s l i = bxMoney (boxes_of s (trim_space l, i))"
    and "CharacterPassword s l i = EffectivePassword (bxPassword (boxes_of s (trim_space l, i)))"
    by (simp_all add: CharacterMoney_def CharacterPassword_def box_ok_fixed [OF ok] find_row boxes_of_def boxes_def
        box_of_row_def empty_box_def EffectivePassword_def split: option.split)
qed

text \<open>Cells and instances.\<close>

definition deposited :: "u8 \<Rightarrow> item_instance \<Rightarrow> item_instance" where
  "deposited c item = item\<lparr>Slot := ucast c, Equipped := False, EquipSlot := EquipmentSlotNone,
     Sockets := map_option (\<lambda>v. [v ! 0, v ! 1, v ! 2]) (Sockets item)\<rparr>"

lemma cell_of_instance:
  "cell_instance (cellFromItemInstance c item) = deposited c item"
  "scCell (cellFromItemInstance c item) = c" "scID (cellFromItemInstance c item) = ID item"
  "normalizeCell (cellFromItemInstance c item) = cellFromItemInstance c item"
  "cell_valid (cellFromItemInstance c item) \<longleftrightarrow>
     c < MaxDurableCellExclusive \<and> ID item \<noteq> 0 \<and> Vnum item \<noteq> 0 \<and> Count item \<noteq> 0"
  by (cases item; cases "Sockets item"; cases "Attributes item";
      simp add: cellFromItemInstance_def Let_def cell_instance_def deposited_def cellInstanceSockets_def cellInstanceAttributes_def
        normalizeCell_def safeboxAttributesNonZero_def cell_valid_def validateCellInstanceSockets_def validateCellInstanceAttributes_def)+

lemma instance_of_cell:
  assumes "cell_valid c" "normalizeCell c = c"
  shows "cellFromItemInstance (scCell c) (cell_instance c) = c"
proof -
  have s: "scHasSockets c \<or> scSocket0 c = 0 \<and> scSocket1 c = 0 \<and> scSocket2 c = 0"
    and n: "scHasAttributes c \<or> \<not> safeboxAttributesNonZero (scAttributes c)"
    using assms(1) by (auto simp: cell_valid_def validateCellInstanceSockets_def validateCellInstanceAttributes_def split: if_splits)
  have a: "scAttributes c = (if scHasAttributes c then Some (case scAttributes c of None \<Rightarrow> zero_attributes | Some v \<Rightarrow> v) else None)"
    using n arg_cong [OF assms(2), of scAttributes] by (auto simp: normalizeCell_def split: option.splits if_splits)
  show ?thesis
    by (rule safebox_cell.equality)
      (use s a in \<open>auto simp: cellFromItemInstance_def Let_def cell_instance_def cellInstanceSockets_def cellInstanceAttributes_def
        split: option.splits if_splits\<close>)
qed

lemma map_of_keys: "map_of (map (\<lambda>c. (c, f c)) cs) c = (if c \<in> set cs then Some (f c) else None)"
  by (induction cs) auto

lemma row_cells_exact:
  shows "map scCell (row_cells cells) = sorted_list_of_set (dom cells)"
    and "map scID (row_cells cells) = map (\<lambda>c. ID (the (cells c))) (sorted_list_of_set (dom cells))"
    and "sort_key scCell (map normalizeCell (row_cells cells)) = row_cells cells"
    and "lookup scCell (row_cells cells) c = map_option (cellFromItemInstance c) (cells c)"
    and "row_cells cells = [] \<longleftrightarrow> dom cells = {}"
proof -
  have f: "finite (dom cells)" by simp
  show k: "map scCell (row_cells cells) = sorted_list_of_set (dom cells)"
    and "map scID (row_cells cells) = map (\<lambda>c. ID (the (cells c))) (sorted_list_of_set (dom cells))"
    by (simp_all add: row_cells_def cell_of_instance o_def)
  have "map normalizeCell (row_cells cells) = row_cells cells"
    by (rule map_idI) (auto simp: row_cells_def cell_of_instance)
  then show "sort_key scCell (map normalizeCell (row_cells cells)) = row_cells cells"
    by (simp add: k sort_key_id_if_sorted)
  show "lookup scCell (row_cells cells) c = map_option (cellFromItemInstance c) (cells c)"
    using f by (cases "cells c") (auto simp: lookup_def row_cells_def o_def cell_of_instance map_of_keys)
  show "row_cells cells = [] \<longleftrightarrow> dom cells = {}"
    using f by (simp add: row_cells_def)
qed

lemma row_cells_of_row:
  assumes "row_valid r" "normalizeCharacterRow r = r"
  shows "row_cells (box_cells r) = srCells r"
proof -
  note d = fixed_cells [OF assms(2)]
  have v: "\<forall>c \<in> set (srCells r). cell_valid c" "distinct (map scCell (srCells r))" using assms(1) by (simp_all add: row_valid_def)
  have "dom (box_cells r) = set (map scCell (srCells r))"
    by (force simp: box_cells_def dom_def lookup_Some_iff [OF v(2)])
  then have s: "sorted_list_of_set (dom (box_cells r)) = map scCell (srCells r)"
    using d(1) v(2) by (simp add: sorted_list_of_set.idem_if_sorted_distinct del: set_map)
  have e: "cellFromItemInstance (scCell c) (the (box_cells r (scCell c))) = c" if "c \<in> set (srCells r)" for c
    using that v d(2) lookup_Some_iff [OF v(2), of "scCell c" c] by (simp add: box_cells_def instance_of_cell)
  show ?thesis unfolding row_cells_def s using e by (simp add: map_idI)
qed

section \<open>Replacing a row\<close>

lemma stored_ids_simps [simp]:
  "stored_ids [] = []" "stored_ids (r # rs) = map scID (srCells r) @ stored_ids rs"
  "stored_ids (rs @ rs') = stored_ids rs @ stored_ids rs'"
  by (simp_all add: stored_ids_def)

lemma in_stored_ids: "x \<in> set (stored_ids rs) \<longleftrightarrow> (\<exists>r \<in> set rs. x \<in> scID ` set (srCells r))"
  by (simp add: stored_ids_def)

lemma stored_ids_filter: "set (stored_ids (filter P rs)) \<subseteq> set (stored_ids rs)"
  by (induction rs) auto

lemma distinct_stored_sort: "distinct (stored_ids (sort_key f rs)) \<longleftrightarrow> distinct (stored_ids rs)"
proof (rule mset_eq_imp_distinct_iff)
  show "mset (stored_ids (sort_key f rs)) = mset (stored_ids rs)"
    unfolding stored_ids_def mset_concat map_map by (rule sum_list_map_sort_key)
qed

lemma safebox_valid_error: "safebox_validateSnapshot s \<noteq> None \<Longrightarrow> safebox_validateSnapshot s = Some ErrInvalidSafebox"
proof -
  have "validate_rows seen ids rs \<noteq> None \<Longrightarrow> validate_rows seen ids rs = Some ErrInvalidSafebox" for seen ids rs
    by (induction rs arbitrary: seen ids) (auto simp: Let_def split: option.splits if_splits)
  then show "safebox_validateSnapshot s \<noteq> None \<Longrightarrow> ?thesis" by (simp add: safebox_validateSnapshot_def)
qed

lemma rows_normalized:
  assumes "\<forall>r \<in> set rs. normalizeCharacterRow r = r"
  shows "box_ok (safebox_normalizeSnapshot \<lparr>ssCharacters = rs\<rparr>) \<longleftrightarrow>
      (\<forall>r \<in> set rs. row_valid r) \<and> keys_distinct row_key rs \<and> distinct (stored_ids rs)"
    and "keys_distinct row_key rs \<Longrightarrow> boxes_of (safebox_normalizeSnapshot \<lparr>ssCharacters = rs\<rparr>) = boxes rs"
proof -
  have n: "safebox_normalizeSnapshot \<lparr>ssCharacters = rs\<rparr> = \<lparr>ssCharacters = sort_key row_key rs\<rparr>"
    using assms by (simp add: safebox_normalize_key map_idI)
  have "distinct (stored_ids (sort_key row_key rs)) \<longleftrightarrow> distinct (stored_ids rs)"
    by (rule distinct_stored_sort)
  then show "box_ok (safebox_normalizeSnapshot \<lparr>ssCharacters = rs\<rparr>) \<longleftrightarrow>
      (\<forall>r \<in> set rs. row_valid r) \<and> keys_distinct row_key rs \<and> distinct (stored_ids rs)"
    using assms by (auto simp: n box_ok_def strict_sorted_iff distinct_map_sort_key)
  show "keys_distinct row_key rs \<Longrightarrow> boxes_of (safebox_normalizeSnapshot \<lparr>ssCharacters = rs\<rparr>) = boxes rs"
    by (simp add: n boxes_of_def boxes_def fun_eq_iff)
qed

text \<open>What a valid snapshot keeps for one character, and the rows of the others.\<close>

abbreviation other_rows :: "safebox_snapshot \<Rightarrow> string \<times> u32 \<Rightarrow> safebox_row list" where
  "other_rows s k \<equiv> filter (\<lambda>r. row_key r \<noteq> k) (ssCharacters s)"

lemma lookup_others:
  assumes "keys_distinct row_key rs"
  shows "lookup row_key (filter (\<lambda>r. row_key r \<noteq> k) rs) = (lookup row_key rs)(k := None)"
proof (rule lookup_eqI)
  show "keys_distinct row_key (filter (\<lambda>r. row_key r \<noteq> k) rs)" using assms by (rule distinct_map_filter)
qed (auto simp: lookup_Some_iff [OF assms] split: if_splits)

lemma other_rows_ok:
  assumes ok: "box_ok s"
  shows "\<forall>r \<in> set (other_rows s k). row_valid r \<and> normalizeCharacterRow r = r" "keys_distinct row_key (other_rows s k)"
    "distinct (stored_ids (other_rows s k))" "boxes (other_rows s k) = (boxes_of s)(k := empty_box)"
proof -
  show "\<forall>r \<in> set (other_rows s k). row_valid r \<and> normalizeCharacterRow r = r" using ok by (simp add: box_ok_def)
  show "keys_distinct row_key (other_rows s k)" using box_ok_keys [OF ok] by (rule distinct_map_filter)
  have "distinct (stored_ids rs) \<Longrightarrow> distinct (stored_ids (filter P rs)) \<and> set (stored_ids (filter P rs)) \<subseteq> set (stored_ids rs)" for rs P
    using stored_ids_filter [of P] by (induction rs) auto
  then show "distinct (stored_ids (other_rows s k))" using ok by (simp add: box_ok_def)
  show "boxes (other_rows s k) = (boxes_of s)(k := empty_box)"
    by (simp add: boxes_def boxes_of_def lookup_others [OF box_ok_keys [OF ok]] fun_eq_iff)
qed

lemma other_ids:
  assumes ok: "box_ok s"
  shows "x \<in> set (stored_ids (other_rows s k)) \<longleftrightarrow>
    (\<exists>k' c item. k' \<noteq> k \<and> bxCells (boxes_of s k') c = Some item \<and> ID item = x)"
proof -
  have d: "distinct (map scCell (srCells r))" if "r \<in> set (ssCharacters s)" for r
    using ok that by (simp add: box_ok_def row_valid_def)
  have c: "(\<exists>c item. bxCells (boxes_of s k') c = Some item \<and> ID item = x) \<longleftrightarrow>
      (\<exists>r \<in> set (ssCharacters s). row_key r = k' \<and> x \<in> scID ` set (srCells r))" for k'
  proof (cases "lookup row_key (ssCharacters s) k'")
    case None
    then have "\<forall>r \<in> set (ssCharacters s). row_key r \<noteq> k'" by (simp add: lookup_None_iff)
    with None show ?thesis by (simp add: boxes_of_def boxes_def empty_box_def)
  next
    case (Some r)
    then have r: "r \<in> set (ssCharacters s)" "row_key r = k'" by (simp_all add: lookup_Some_iff [OF box_ok_keys [OF ok]])
    have u: "r' = r" if "r' \<in> set (ssCharacters s)" "row_key r' = k'" for r'
      using that Some lookup_Some_iff [OF box_ok_keys [OF ok], of k' r'] by simp
    have "(\<exists>c item. box_cells r c = Some item \<and> ID item = x) \<longleftrightarrow> x \<in> scID ` set (srCells r)"
      by (force simp: box_cells_def lookup_Some_iff [OF d [OF r(1)]] cell_instance_def)
    moreover have "bxCells (boxes_of s k') = box_cells r" using Some by (simp add: boxes_of_def boxes_def box_of_row_def)
    moreover have "(\<exists>r \<in> set (ssCharacters s). row_key r = k' \<and> x \<in> scID ` set (srCells r)) \<longleftrightarrow> x \<in> scID ` set (srCells r)"
      using r u by blast
    ultimately show ?thesis by simp
  qed
  have "x \<in> set (stored_ids (other_rows s k)) \<longleftrightarrow> (\<exists>k'. k' \<noteq> k \<and> (\<exists>r \<in> set (ssCharacters s). row_key r = k' \<and> x \<in> scID ` set (srCells r)))"
    unfolding in_stored_ids set_filter by blast
  then show ?thesis unfolding c [symmetric] by blast
qed

lemma kept_box:
  assumes ok: "box_ok s"
  shows "validPassword (bxPassword (boxes_of s k))" "trim_space (bxPassword (boxes_of s k)) = bxPassword (boxes_of s k)"
    "validMoney (bxMoney (boxes_of s k))"
    "distinct (map scID (row_cells (bxCells (boxes_of s k))))"
    "\<forall>c \<in> set (row_cells (bxCells (boxes_of s k))). cell_valid c \<and> scID c \<notin> set (stored_ids (other_rows s k))"
proof -
  have e: "row_cells Map.empty = []" by (simp add: row_cells_def)
  have "validPassword (bxPassword (boxes_of s k)) \<and> trim_space (bxPassword (boxes_of s k)) = bxPassword (boxes_of s k) \<and>
    validMoney (bxMoney (boxes_of s k)) \<and> distinct (map scID (row_cells (bxCells (boxes_of s k)))) \<and>
    (\<forall>c \<in> set (row_cells (bxCells (boxes_of s k))). cell_valid c \<and> scID c \<notin> set (stored_ids (other_rows s k)))"
  proof (cases "lookup row_key (ssCharacters s) k")
    case None
    then show ?thesis by (simp add: boxes_of_def boxes_def empty_box_def e validPassword_def validMoney_def)
  next
    case (Some r)
    then have r: "r \<in> set (ssCharacters s)" "row_key r = k" by (simp_all add: lookup_Some_iff [OF box_ok_keys [OF ok]])
    then have v: "row_valid r" "normalizeCharacterRow r = r" using ok by (simp_all add: box_ok_def)
    have "distinct (stored_ids rs) \<Longrightarrow> r \<in> set rs \<Longrightarrow>
        distinct (map scID (srCells r)) \<and> scID ` set (srCells r) \<inter> set (stored_ids (filter (\<lambda>x. row_key x \<noteq> k) rs)) = {}" for rs
    proof (induction rs)
      case (Cons x rs)
      have f: "set (stored_ids (filter (\<lambda>x. row_key x \<noteq> k) rs)) \<subseteq> set (stored_ids rs)" by (rule stored_ids_filter)
      show ?case
      proof (cases "r = x")
        case True
        then show ?thesis using Cons.prems f r(2) by auto
      next
        case False
        moreover have "scID ` set (srCells r) \<subseteq> set (stored_ids rs)"
          using False Cons.prems(2) unfolding subset_iff in_stored_ids by auto
        ultimately show ?thesis using Cons by auto
      qed
    qed simp
    then have "distinct (map scID (srCells r))" "scID ` set (srCells r) \<inter> set (stored_ids (other_rows s k)) = {}"
      using ok r(1) by (auto simp: box_ok_def)
    with Some v fixed_row(2) [OF v(2)] show ?thesis
      by (auto simp: boxes_of_def boxes_def box_of_row_def row_cells_of_row [OF v] row_valid_def)
  qed
  then show "validPassword (bxPassword (boxes_of s k))" "trim_space (bxPassword (boxes_of s k)) = bxPassword (boxes_of s k)"
    "validMoney (bxMoney (boxes_of s k))" "distinct (map scID (row_cells (bxCells (boxes_of s k))))"
    "\<forall>c \<in> set (row_cells (bxCells (boxes_of s k))). cell_valid c \<and> scID c \<notin> set (stored_ids (other_rows s k))" by blast+
qed

lemma with_row_exact:
  assumes ok: "box_ok s" and n: "normalizeCharacterRow r = r"
  shows "with_row (other_rows s (row_key r)) r =
      (if row_valid r \<and> distinct (map scID (srCells r)) \<and> scID ` set (srCells r) \<inter> set (stored_ids (other_rows s (row_key r))) = {}
       then Inr (safebox_normalizeSnapshot \<lparr>ssCharacters = other_rows s (row_key r) @ [r]\<rparr>) else Inl ErrInvalidSafebox)"
    and "with_row (other_rows s (row_key r)) r = Inr s' \<Longrightarrow> box_ok s' \<and> boxes_of s' = (boxes_of s)(row_key r := box_of_row r)"
proof -
  let ?xs = "other_rows s (row_key r)"
  note x = other_rows_ok [OF ok, of "row_key r"]
  have k: "keys_distinct row_key (?xs @ [r])" and f: "\<forall>x \<in> set (?xs @ [r]). normalizeCharacterRow x = x"
    using x(1,2) n by auto
  have "box_ok (safebox_normalizeSnapshot \<lparr>ssCharacters = ?xs @ [r]\<rparr>) \<longleftrightarrow>
      row_valid r \<and> distinct (map scID (srCells r)) \<and> scID ` set (srCells r) \<inter> set (stored_ids ?xs) = {}"
    unfolding rows_normalized(1) [OF f] using k x(1,3) by auto
  then show w: "with_row ?xs r =
      (if row_valid r \<and> distinct (map scID (srCells r)) \<and> scID ` set (srCells r) \<inter> set (stored_ids ?xs) = {}
       then Inr (safebox_normalizeSnapshot \<lparr>ssCharacters = ?xs @ [r]\<rparr>) else Inl ErrInvalidSafebox)"
    using safebox_valid_iff [of "\<lparr>ssCharacters = ?xs @ [r]\<rparr>"] safebox_valid_error [of "safebox_normalizeSnapshot \<lparr>ssCharacters = ?xs @ [r]\<rparr>"]
    by (auto simp: with_row_def Let_def split: option.split)
  have "boxes (?xs @ [r]) = (boxes_of s)(row_key r := box_of_row r)"
    using x(4) by (auto simp: boxes_def fun_eq_iff lookup_append split: if_splits) 
  then show "with_row ?xs r = Inr s' \<Longrightarrow> box_ok s' \<and> boxes_of s' = (boxes_of s)(row_key r := box_of_row r)"
    using w rows_normalized [OF f] k x(1,3) by (auto split: if_splits)
qed

section \<open>The map of boxes\<close>

datatype box_command =
    PutCells string u32 "u8 \<Rightarrow> item_instance option"
  | PutPassword string u32 string
  | PutMoney string u32 i64

text \<open>
  Instances fit in a box when each is in a durable cell, has an identity, a kind and units, and its identity
  is met nowhere else: not in the box, and not in a box of anybody else.
\<close>

definition cells_fit :: "(string \<times> u32 \<Rightarrow> safebox) \<Rightarrow> string \<times> u32 \<Rightarrow> (u8 \<Rightarrow> item_instance option) \<Rightarrow> bool" where
  "cells_fit b k cells \<longleftrightarrow>
     (\<forall>c item. cells c = Some item \<longrightarrow>
        c < MaxDurableCellExclusive \<and> ID item \<noteq> 0 \<and> Vnum item \<noteq> 0 \<and> Count item \<noteq> 0 \<and>
        (\<forall>c' item'. cells c' = Some item' \<and> ID item' = ID item \<longrightarrow> c' = c) \<and>
        (\<forall>k' c' item'. k' \<noteq> k \<and> bxCells (b k') c' = Some item' \<longrightarrow> ID item' \<noteq> ID item))"

fun box_step :: "(string \<times> u32 \<Rightarrow> safebox) \<Rightarrow> box_command \<Rightarrow> (string \<times> u32 \<Rightarrow> safebox) \<times> bool" where
  "box_step b (PutCells l i cells) =
     (let k = (trim_space l, i) in
      if validLogin l \<and> i \<noteq> 0 \<and> cells_fit b k cells
      then (b(k := (b k)\<lparr>bxCells := \<lambda>c. map_option (deposited c) (cells c)\<rparr>), True) else (b, False))"
| "box_step b (PutPassword l i password) =
     (let k = (trim_space l, i) in
      if validLogin l \<and> i \<noteq> 0 \<and> validPassword password then (b(k := (b k)\<lparr>bxPassword := password\<rparr>), True) else (b, False))"
| "box_step b (PutMoney l i money) =
     (let k = (trim_space l, i) in
      if validLogin l \<and> i \<noteq> 0 \<and> validMoney money then (b(k := (b k)\<lparr>bxMoney := money\<rparr>), True) else (b, False))"

definition kept :: "safebox_snapshot \<Rightarrow> safebox_error + safebox_snapshot \<Rightarrow> safebox_snapshot \<times> bool" where
  "kept s result = (case result of Inl e \<Rightarrow> (s, False) | Inr s' \<Rightarrow> (s', True))"

fun safebox_step :: "safebox_snapshot \<Rightarrow> box_command \<Rightarrow> safebox_snapshot \<times> bool" where
  "safebox_step s (PutCells l i cells) = kept s (ReplaceCharacterCells s l i cells)"
| "safebox_step s (PutPassword l i password) = kept s (ReplaceCharacterPassword s l i password)"
| "safebox_step s (PutMoney l i money) = kept s (ReplaceCharacterMoney s l i money)"

lemma valid_password_trim:
  assumes "validPassword p" shows "trim_space p = p"
proof -
  have "\<forall>c \<in> set p. visible_char c"
    using assms by (auto simp: validPassword_def list_all_iff letter_or_digit_def in_range_def visible_char_def split: if_splits)
  then show ?thesis by (intro trim_space_visible) (cases "p = []"; simp)
qed

lemma existing_row:
  "keys_distinct row_key rs \<Longrightarrow>
   foldl (\<lambda>(password, money) r. if of_character l i r then (srPassword r, srMoney r) else (password, money)) x rs =
     (case lookup row_key rs (l, i) of None \<Rightarrow> x | Some r \<Rightarrow> (srPassword r, srMoney r))"
proof (induction rs arbitrary: x)
  case (Cons r rs)
  have "row_key r = (l, i) \<Longrightarrow> lookup row_key rs (l, i) = None" using Cons.prems by (auto simp: lookup_None_iff image_iff)
  with Cons show ?case by (auto simp: lookup_def of_character_def row_key_def split: option.split prod.split)
qed (simp add: lookup_def)

lemma cells_fit_iff:
  assumes "box_ok s"
  shows "cells_fit (boxes_of s) k cells \<longleftrightarrow>
    (\<forall>c \<in> set (row_cells cells). cell_valid c) \<and> distinct (map scID (row_cells cells)) \<and>
    scID ` set (row_cells cells) \<inter> set (stored_ids (other_rows s k)) = {}"
proof -
  have d: "distinct (map scID (row_cells cells)) \<longleftrightarrow>
      (\<forall>c item. cells c = Some item \<longrightarrow> (\<forall>c' item'. cells c' = Some item' \<and> ID item' = ID item \<longrightarrow> c' = c))"
  proof -
    have "distinct (map scID (row_cells cells)) \<longleftrightarrow>
        (\<forall>x \<in> dom cells. \<forall>y \<in> dom cells. ID (the (cells x)) = ID (the (cells y)) \<longrightarrow> x = y)" (is "_ \<longleftrightarrow> ?inj")
      by (simp add: row_cells_exact(2) distinct_map inj_on_def)
    moreover have "?inj \<longleftrightarrow> (\<forall>c item. cells c = Some item \<longrightarrow>
        (\<forall>c' item'. cells c' = Some item' \<and> ID item' = ID item \<longrightarrow> c' = c))" (is "_ \<longleftrightarrow> ?unique")
    proof
      assume ?inj
      show ?unique
      proof (intro allI impI)
        fix c item c' item'
        assume "cells c = Some item" and "cells c' = Some item' \<and> ID item' = ID item"
        then show "c' = c" using bspec [OF bspec [OF \<open>?inj\<close>, of c'], of c] by (simp add: domI)
      qed
    next
      assume ?unique
      show ?inj
      proof (intro ballI impI)
        fix x y
        assume "x \<in> dom cells" "y \<in> dom cells" and e: "ID (the (cells x)) = ID (the (cells y))"
        then obtain u v where "cells x = Some u" "cells y = Some v" by blast
        with e \<open>?unique\<close> show "x = y" by simp
      qed
    qed
    ultimately show ?thesis by simp
  qed
  have m: "x \<in> set (row_cells cells) \<longleftrightarrow> (\<exists>c item. cells c = Some item \<and> x = cellFromItemInstance c item)" for x
    by (force simp: row_cells_def)
  have v: "(\<forall>x \<in> set (row_cells cells). cell_valid x) \<longleftrightarrow> (\<forall>c item. cells c = Some item \<longrightarrow>
      c < MaxDurableCellExclusive \<and> ID item \<noteq> 0 \<and> Vnum item \<noteq> 0 \<and> Count item \<noteq> 0)"
  proof -
    have "(\<forall>x \<in> set (row_cells cells). cell_valid x) \<longleftrightarrow>
        (\<forall>c item. cells c = Some item \<longrightarrow> cell_valid (cellFromItemInstance c item))"
      unfolding Ball_def m by metis
    then show ?thesis by (simp only: cell_of_instance(5))
  qed
  have "x \<in> scID ` set (row_cells cells) \<longleftrightarrow> (\<exists>c item. cells c = Some item \<and> ID item = x)" for x
    unfolding image_iff Bex_def m by (metis cell_of_instance(3))
  then have i: "scID ` set (row_cells cells) \<inter> set (stored_ids (other_rows s k)) = {} \<longleftrightarrow> (\<forall>c item. cells c = Some item \<longrightarrow>
      (\<forall>k' c' item'. k' \<noteq> k \<and> bxCells (boxes_of s k') c' = Some item' \<longrightarrow> ID item' \<noteq> ID item))"
    unfolding disjoint_iff other_ids [OF assms] by metis
  show ?thesis unfolding d v i cells_fit_def by blast
qed

text \<open>One character's row, built from a password, money and cells.\<close>

definition built_row :: "string \<times> u32 \<Rightarrow> safebox \<Rightarrow> safebox_row" where
  "built_row k b = \<lparr>srLogin = fst k, srCharacterID = snd k, srPassword = bxPassword b, srMoney = bxMoney b, srCells = row_cells (bxCells b)\<rparr>"

lemma built_row_box: "box_of_row (built_row k b) = b\<lparr>bxCells := \<lambda>c. map_option (deposited c) (bxCells b c)\<rparr>"
  by (simp add: built_row_def box_of_row_def box_cells_def fun_eq_iff row_cells_exact(4) option.map_comp o_def cell_of_instance)

lemma deposited_again:
  assumes ok: "box_ok s"
  shows "(\<lambda>c. map_option (deposited c) (bxCells (boxes_of s k) c)) = bxCells (boxes_of s k)"
proof (cases "lookup row_key (ssCharacters s) k")
  case None
  then show ?thesis by (simp add: boxes_of_def boxes_def empty_box_def)
next
  case (Some r)
  then have d: "distinct (map scCell (srCells r))"
    using ok by (simp add: lookup_Some_iff [OF box_ok_keys [OF ok]] box_ok_def row_valid_def)
  have "deposited (scCell x) (cell_instance x) = cell_instance x" for x
    by (auto simp: deposited_def cell_instance_def cellInstanceSockets_def)
  moreover have "scCell x = c" if "lookup scCell (srCells r) c = Some x" for c x
    using that by (simp add: lookup_Some_iff [OF d])
  ultimately have "map_option (deposited c) (box_cells r c) = box_cells r c" for c
    unfolding box_cells_def by (cases "lookup scCell (srCells r) c") (simp, metis option.map(2))
  with Some show ?thesis by (simp add: boxes_of_def boxes_def box_of_row_def)
qed

lemma put_row:
  assumes ok: "box_ok s" and l: "validLogin l" "trim_space l = l" "i \<noteq> 0"
    and b: "validPassword (bxPassword b)" "validMoney (bxMoney b)"
  shows "kept s (with_row (other_rows s (l, i)) (built_row (l, i) b)) = (s', took) \<Longrightarrow>
    box_ok s' \<and> took = cells_fit (boxes_of s) (l, i) (bxCells b) \<and>
    boxes_of s' = (if took then (boxes_of s)((l, i) := b\<lparr>bxCells := \<lambda>c. map_option (deposited c) (bxCells b c)\<rparr>) else boxes_of s)"
proof -
  let ?r = "built_row (l, i) b"
  have k: "row_key ?r = (l, i)" by (simp add: row_key_def built_row_def)
  have n: "normalizeCharacterRow ?r = ?r"
    using l valid_password_trim [OF b(1)] by (simp add: normalizeCharacterRow_def built_row_def row_cells_exact(3))
  have v: "row_valid ?r \<longleftrightarrow> (\<forall>c \<in> set (row_cells (bxCells b)). cell_valid c)"
    using l b by (simp add: row_valid_def built_row_def row_cells_exact(1))
  note w = with_row_exact [OF ok n, unfolded k v]
  have "srCells ?r = row_cells (bxCells b)" by (simp add: built_row_def)
  with w(1) have f: "with_row (other_rows s (l, i)) ?r =
      (if cells_fit (boxes_of s) (l, i) (bxCells b) then Inr (safebox_normalizeSnapshot \<lparr>ssCharacters = other_rows s (l, i) @ [?r]\<rparr>)
       else Inl ErrInvalidSafebox)"
    by (simp add: cells_fit_iff [OF ok])
  assume e: "kept s (with_row (other_rows s (l, i)) ?r) = (s', took)"
  show "box_ok s' \<and> took = cells_fit (boxes_of s) (l, i) (bxCells b) \<and>
    boxes_of s' = (if took then (boxes_of s)((l, i) := b\<lparr>bxCells := \<lambda>c. map_option (deposited c) (bxCells b c)\<rparr>) else boxes_of s)"
  proof (cases "cells_fit (boxes_of s) (l, i) (bxCells b)")
    case True
    then have "with_row (other_rows s (l, i)) ?r = Inr s'" "took" using e unfolding f by (simp_all add: kept_def)
    with w(2) True show ?thesis by (simp only: built_row_box if_True simp_thms)
  next
    case False
    then have "s' = s" "\<not> took" using e unfolding f by (simp_all add: kept_def)
    with False ok show ?thesis by simp
  qed
qed

text \<open>The row is dropped when nothing is left in it.\<close>

lemma drop_row:
  assumes ok: "box_ok s"
  shows "box_ok (safebox_normalizeSnapshot \<lparr>ssCharacters = other_rows s k\<rparr>) \<and>
    boxes_of (safebox_normalizeSnapshot \<lparr>ssCharacters = other_rows s k\<rparr>) = (boxes_of s)(k := empty_box)"
  using other_rows_ok [OF ok, of k] rows_normalized [of "other_rows s k"] by simp

text \<open>What is kept of a box fits where it was.\<close>

lemma kept_fits:
  assumes ok: "box_ok s" shows "cells_fit (boxes_of s) k (bxCells (boxes_of s k))"
  unfolding cells_fit_iff [OF ok] using kept_box(4,5) [OF ok, of k] by blast

lemma others_filter: "filter (\<lambda>r. \<not> of_character l i r) (ssCharacters s) = other_rows s (l, i)"
  by (simp add: of_character_def row_key_def)

lemma existing_box:
  assumes ok: "box_ok s"
  shows "foldl (\<lambda>(password, money) r. if of_character l i r then (srPassword r, srMoney r) else (password, money)) ([], 0) (ssCharacters s) =
      (bxPassword (boxes_of s (l, i)), bxMoney (boxes_of s (l, i)))"
    and "(case find (of_character l i) (ssCharacters s) of None \<Rightarrow> [] | Some r \<Rightarrow> srPassword r) = bxPassword (boxes_of s (l, i))"
  by (simp_all add: existing_row [OF box_ok_keys [OF ok]] find_row boxes_of_def boxes_def box_of_row_def empty_box_def split: option.split)

text \<open>A command on a snapshot does to its boxes what the specification does.\<close>

definition simulates :: "safebox_snapshot \<Rightarrow> box_command \<Rightarrow> bool" where
  "simulates s c \<longleftrightarrow>
     box_ok (fst (safebox_step s c)) \<and> box_step (boxes_of s) c = (boxes_of (fst (safebox_step s c)), snd (safebox_step s c))"

lemma refused:
  "box_ok s \<Longrightarrow> box_ok (fst (kept s (Inl e))) \<and> (boxes_of s, False) = (boxes_of (fst (kept s (Inl e))), snd (kept s (Inl e)))"
  by (simp add: kept_def)

lemma dropped:
  assumes "box_ok s" and "x = Inr (safebox_normalizeSnapshot \<lparr>ssCharacters = other_rows s k\<rparr>)"
  shows "box_ok (fst (kept s x)) \<and> ((boxes_of s)(k := empty_box), True) = (boxes_of (fst (kept s x)), snd (kept s x))"
  using drop_row [OF assms(1), of k] assms(2) by (simp add: kept_def)

lemma put:
  assumes ok: "box_ok s" and x: "x = with_row (other_rows s (trim_space l, i)) (built_row (trim_space l, i) b)"
    and v: "validLogin l" "i \<noteq> 0" "validPassword (bxPassword b)" "validMoney (bxMoney b)"
  shows "box_ok (fst (kept s x)) \<and>
    (if cells_fit (boxes_of s) (trim_space l, i) (bxCells b)
     then ((boxes_of s)((trim_space l, i) := b\<lparr>bxCells := \<lambda>c. map_option (deposited c) (bxCells b c)\<rparr>), True) else (boxes_of s, False)) =
    (boxes_of (fst (kept s x)), snd (kept s x))"
  using put_row [OF ok _ _ v(2-4), of "trim_space l" "fst (kept s x)" "snd (kept s x)"] x v(1) by auto

lemma PutCells_simulates:
  assumes ok: "box_ok s" shows "simulates s (PutCells l i cells)"
proof -
  note b = kept_box(1,3) [OF ok] and defs = Let_def box_ok_fixed [OF ok] existing_box [OF ok] others_filter
  let ?k = "(trim_space l, i)"
  let ?b = "(boxes_of s ?k)\<lparr>bxCells := cells\<rparr>"
  consider (bad) "\<not> (validLogin l \<and> i \<noteq> 0)"
    | (gone) "validLogin l" "i \<noteq> 0" "cells = Map.empty" "bxPassword (boxes_of s ?k) = []" "bxMoney (boxes_of s ?k) = 0"
    | (row) "validLogin l" "i \<noteq> 0" "\<not> (cells = Map.empty \<and> bxPassword (boxes_of s ?k) = [] \<and> bxMoney (boxes_of s ?k) = 0)"
    by blast
  then show ?thesis
  proof cases
    case bad
    then show ?thesis using refused [OF ok] by (auto simp: simulates_def ReplaceCharacterCells_def Let_def)
  next
    case gone
    have "ReplaceCharacterCells s l i cells = Inr (safebox_normalizeSnapshot \<lparr>ssCharacters = other_rows s ?k\<rparr>)"
      using gone by (simp add: ReplaceCharacterCells_def defs)
    moreover have "cells_fit (boxes_of s) ?k cells" using gone(3) by (simp add: cells_fit_def)
    moreover have "(boxes_of s ?k)\<lparr>bxCells := \<lambda>c. map_option (deposited c) (cells c)\<rparr> = empty_box"
      using gone by (simp add: empty_box_def)
    ultimately show ?thesis using dropped [OF ok] gone(1,2) by (simp add: simulates_def Let_def)
  next
    case row
    have "ReplaceCharacterCells s l i cells = with_row (other_rows s ?k) (built_row ?k ?b)"
      using row by (cases "dom cells = {}") (auto simp: ReplaceCharacterCells_def defs built_row_def row_cells_def)
    from put [OF ok this row(1,2)] b row(1,2) show ?thesis
      by (simp add: simulates_def Let_def split: if_split_asm)
  qed
qed

lemma PutPassword_simulates:
  assumes ok: "box_ok s" shows "simulates s (PutPassword l i p)"
proof (cases "validLogin l \<and> i \<noteq> 0 \<and> validPassword p")
  case True
  let ?b = "(boxes_of s (trim_space l, i))\<lparr>bxPassword := p\<rparr>"
  have "ReplaceCharacterPassword s l i p = with_row (other_rows s (trim_space l, i)) (built_row (trim_space l, i) ?b)"
    using True by (simp add: ReplaceCharacterPassword_def Let_def box_ok_fixed [OF ok] others_filter reads_exact [OF ok] built_row_def)
  from put [OF ok this] True kept_box(1,3) [OF ok] kept_fits [OF ok] show ?thesis
    by (simp add: simulates_def Let_def deposited_again [OF ok])
next
  case False
  then show ?thesis using refused [OF ok] by (auto simp: simulates_def ReplaceCharacterPassword_def Let_def)
qed

lemma PutMoney_simulates:
  assumes ok: "box_ok s" shows "simulates s (PutMoney l i m)"
proof -
  note defs = Let_def box_ok_fixed [OF ok] existing_box [OF ok] others_filter reads_exact [OF ok]
  let ?k = "(trim_space l, i)"
  let ?b = "(boxes_of s ?k)\<lparr>bxMoney := m\<rparr>"
  consider (bad) "\<not> (validLogin l \<and> i \<noteq> 0 \<and> validMoney m)"
    | (gone) "validLogin l" "i \<noteq> 0" "validMoney m" "m = 0 \<and> bxPassword (boxes_of s ?k) = [] \<and> row_cells (bxCells (boxes_of s ?k)) = []"
    | (row) "validLogin l" "i \<noteq> 0" "validMoney m" "\<not> (m = 0 \<and> bxPassword (boxes_of s ?k) = [] \<and> row_cells (bxCells (boxes_of s ?k)) = [])"
    by blast
  then show ?thesis
  proof cases
    case bad
    then show ?thesis using refused [OF ok] by (auto simp: simulates_def ReplaceCharacterMoney_def Let_def)
  next
    case gone
    have "ReplaceCharacterMoney s l i m = Inr (safebox_normalizeSnapshot \<lparr>ssCharacters = other_rows s ?k\<rparr>)"
      using gone by (simp add: ReplaceCharacterMoney_def defs)
    moreover have "(boxes_of s ?k)\<lparr>bxMoney := m\<rparr> = empty_box"
      using gone(4) by (simp add: row_cells_exact(5) empty_box_def)
    ultimately show ?thesis using dropped [OF ok] gone(1-3) by (simp add: simulates_def Let_def)
  next
    case row
    then have "ReplaceCharacterMoney s l i m = with_row (other_rows s ?k) (built_row ?k ?b)"
      by (auto simp: ReplaceCharacterMoney_def defs built_row_def)
    from put [OF ok this row(1,2)] row(1-3) kept_box(1,3) [OF ok] kept_fits [OF ok] show ?thesis
      by (simp add: simulates_def Let_def deposited_again [OF ok])
  qed
qed

lemma safebox_step_simulates: "box_ok s \<Longrightarrow> simulates s c"
  by (cases c) (simp_all add: PutCells_simulates PutPassword_simulates PutMoney_simulates)

interpretation safeboxes: simulation safebox_step box_step box_ok boxes_of
  using safebox_step_simulates by unfold_locales (simp_all add: simulates_def)

lemma empty_safeboxes: "box_ok \<lparr>ssCharacters = []\<rparr>" "boxes_of \<lparr>ssCharacters = []\<rparr> = (\<lambda>k. empty_box)"
  by (simp_all add: box_ok_def boxes_of_def boxes_def lookup_def fun_eq_iff)

text \<open>
  From an empty store, whatever is put into safeboxes, accepted or refused, the snapshot stays valid, holds
  the boxes the map specification leaves, and gives them back: the cells, the money and the password in force.
  No instance is ever in two places.
\<close>

theorem safeboxes_refine_map:
  "let s = run safebox_step \<lparr>ssCharacters = []\<rparr> cs; w = run box_step (\<lambda>k. empty_box) cs in
   accepted safebox_step \<lparr>ssCharacters = []\<rparr> cs = accepted box_step (\<lambda>k. empty_box) cs \<and>
   safebox_validateSnapshot s = None \<and>
   (\<forall>l i. CharacterCells s l i = bxCells (w (trim_space l, i)) \<and> CharacterMoney s l i = bxMoney (w (trim_space l, i)) \<and>
      CharacterPassword s l i = EffectivePassword (bxPassword (w (trim_space l, i)))) \<and>
   (\<forall>k. cells_fit w k (bxCells (w k)))"
proof -
  note r = safeboxes.run_simulates [OF empty_safeboxes(1), of cs, unfolded empty_safeboxes(2)]
  let ?s = "run safebox_step \<lparr>ssCharacters = []\<rparr> cs"
  have ok: "box_ok ?s" using r by blast
  then have "safebox_validateSnapshot ?s = None" using safebox_valid_iff [of ?s] box_ok_fixed [OF ok] by simp
  with r reads_exact [OF ok] kept_fits [OF ok] show ?thesis unfolding Let_def by metis
qed

end
