(* ===== verification/Spec2Isabelle.thy ===== *)
theory Spec2Isabelle
  imports Frame Session Secure_Channel Session_Entry Flow_Bootstrap Wire_Move Wire_Control Wire_World Wire_Chat Wire_Combat Wire_Shop Player_Runs World_Visibility World_Spawn World_Relocation Ticket_Checks Quest_Store Safebox_Facts
begin

text \<open>
  A verification development for \<open>go-metin2-server\<close>, a Go server for the Metin2 client: the bytes,
  packets, keys and phases of a connection, the core that owns a player's state, and the registry of
  the players and static actors that share the world. Paths below are under \<open>src/\<close>; definitions
  carry the names of the Go functions they translate.

  The program. A connection is served by a loop (\<open>internal/service\<close>) that decrypts what it reads
  (\<open>internal/securecipher\<close>), cuts it into frames (\<open>internal/proto/frame\<close>), hands each frame to the
  flow of the connection (\<open>internal/boot\<close> or \<open>authboot\<close>), and encrypts and writes the answers. A flow
  moves through phases (\<open>internal/session\<close>) and passes the frame to the flow of the phase
  (\<open>handshake\<close>, \<open>login\<close>, \<open>auth\<close>, \<open>worldentry\<close>, \<open>game\<close>), which decodes the packet (\<open>internal/proto\<close>)
  and calls the callback configured for it. The callbacks of the game work on one \<open>Runtime\<close> per player
  (\<open>internal/player/runtime.go\<close>). A runtime is made from a persisted character that passed the
  ticket checks (\<open>internal/loginticket\<close>); it holds gold, points, carried items by cell, worn items
  by wear slot and quickslots, and decides every request against authored item templates
  (\<open>internal/itemstore\<close>) and eligibility rules (\<open>internal/equipment\<close>). What it decides is
  persisted as a character again. The world (\<open>internal/worldruntime\<close>) keeps who is connected and
  which non-player actors exist: a directory of each kind, an index of who stands on which map, and
  an entity registry that keeps the three consistent; visibility, combat profiles, spawn leashes
  and aggression are decided on what the registry holds. The progress of quests is a set of named
  flags per character and quest (\<open>internal/queststate\<close>), changed by compare-and-set transitions, and
  what a player puts in a safebox is kept per character (\<open>internal/safeboxstore\<close>).

  Theories and code.
  Prelude, Go_Bytes and Go_Strings hold the fixed-width integers, \<open>encoding/binary\<close> and the parts
  of \<open>strings\<close> and \<open>unicode/utf8\<close> the code uses; they also hold the lemma collections.
  Keyed_Slice treats a slice with distinct keys as a finite map and states, as a locale, what a
  linear search promises about it; Player_Facts interprets it for carried and worn items.
  Machine states, as locales, what a component that executes and refuses commands promises
  and what it means that such a component implements an abstract machine; Session, Player_Runs,
  World_Directory, World_Refinement, Quest_Store and Safebox_Facts interpret them.
  Frame is \<open>proto/frame/frame.go\<close>, Session is \<open>session/state.go\<close>, Inventory is
  \<open>inventory/slots.go\<close> and \<open>model.go\<close>, ItemTemplates is the validation part of
  \<open>itemstore/store.go\<close>, Equipment_Rules is \<open>equipment/eligibility.go\<close>, Character_Data is the
  character part of \<open>loginticket/store.go\<close>, Position is \<open>worldruntime/position.go\<close>.
  Wire states, as locales, what an encoder and a decoder of a packet promise each other
  (\<open>packet_codec\<close>, \<open>exact_packet\<close>, \<open>checked_packet\<close>); Wire_Move, Wire_Control, Wire_Login, Wire_World,
  Wire_Chat, Wire_Combat, Wire_Item and Wire_Shop are the codecs of the packages under \<open>proto\<close>, each an
  interpretation of one of them. Arrays of a fixed length are lists of that length, which the
  predicates of the interpretations ask for together with texts that fit their fields; a \<open>float32\<close> is
  its 32 bits.
  Secure_Cipher is \<open>securecipher/session.go\<close>, with the cryptographic primitives as an argument
  (\<open>crypto\<close>) and what their documentation promises as the laws \<open>crypto_laws\<close>; Secure_Channel has the
  contract of one direction of a session (\<open>cipher_end\<close>), its four interpretations, the key exchange
  and conversations. Flow_Entry is \<open>handshake/flow.go\<close>, \<open>login/flow.go\<close>, \<open>auth/flow.go\<close> and
  \<open>worldentry/flow.go\<close>, Flow_Bootstrap is \<open>worldentry/bootstrap.go\<close> and \<open>warp/flow.go\<close> (the
  frames a player who enters is sent, and a transfer that happens or leaves no trace), Flow_Game is \<open>game/flow.go\<close>, Flow_Boot is \<open>boot/flow.go\<close> and
  \<open>authboot/flow.go\<close>, and Flow what they share: the callbacks are arguments that read and change a
  world of any type. Legacy is the loop of \<open>service/legacy.go\<close>, over a list of what the network does;
  Session_Stream follows a client's bytes through it and back, and Session_Entry a whole connection
  from the key exchange into the game.
  The theories named Player are \<open>player/runtime.go\<close>: Player_Runtime has the state, the slice
  helpers, gold and points; Player_Points, Player_Quickslots, Player_Inventory, Player_Equip,
  Player_Use, Player_Plan, Player_Refine, Player_Merchant and Player_Consume have the groups of
  operations their names say; Player_Machine makes every operation that changes the state a
  command, Player_Bindings relates the bar to the ticket checks of one character, Ticket_Checks has
  the checks of a whole ticket, and Player_Runs says what holds after any sequence of commands.
  The theories named World are \<open>worldruntime\<close>: World_Visibility (\<open>visibility.go\<close>, the topology
  functions and the pickup and exchange distances), World_Combat (the combat profile registry, an
  explicit argument where Go has a package variable, damage and death rewards), World_Entity (the
  entities and their normalisation), World_Spawn (spawn leashes, return steps, chases and
  aggression), World_Directory (player, non-player and session directories), World_Occupants and
  World_MapIndex (\<open>map_index.go\<close>: what its two halves share, then the index), World_Registry
  (\<open>entity_registry.go\<close>), World_Registry_Facts (what each of its operations does to a registry
  that satisfies the invariant) and World_Refinement (the world as two finite maps and a counter).
  World_Snapshots and World_Scopes (\<open>scopes.go\<close>): the snapshots shown to the operator, their orders and
  differences, the targets of chat and of visible events, and the preview of a relocation;
  World_Scopes_Facts and World_Relocation: the targets are exactly the players who share the scope, the occupancy
  is a function of who is where, and the preview shows what the relocation then does.
  Quest_State is \<open>queststate/store.go\<close> without its files (snapshots, their normal form, lookups, summaries
  and transitions) and Quest_Store \<open>queststate/memory_store.go\<close>; a quest snapshot is a map from flags to
  numbers, and every request on the store an operation on that map. Safebox_Store is
  \<open>safeboxstore/store.go\<close> without its files; Safebox_Facts shows in the same way that a snapshot is a map from
  characters to boxes and that no instance lies in two of them.

  Correspondence. A struct is a record, a Go integer is a word of its width, a slice is a list, a
  pointer that may be nil is an option, an error or a reason string is a datatype. A method with
  result \<open>(T, bool)\<close> returns the receiver afterwards and an option, so that a refusal that left
  a half-made change behind would show. Slices that the code edits by index and sorts are edited
  and sorted the same way. A Go map is a finite map; a loop over one, whose order Go leaves open, is
  an ascending walk, and the lemmas show that under the invariant the order cannot matter. The
  float64 operations of the spawn code are an argument (\<open>float_ops\<close>), and what is relied on of
  them is the named law \<open>ieee\<close>: results that are exact in IEEE 754 double arithmetic. Code blocks that occur in several functions are one definition; the
  map of the development names the lines it was read from.

  What the lemmas show. Each operation has a lemma, named after it with the suffix sat, that says
  what it does to the abstract state: the map from cells to instances, the map from wear slots,
  the map of the quickslot bar, the balance of gold, and the number of units of every kind. The
  postconditions fail together with the operation: a refused request returns the runtime it was
  given. From these follow the properties, which the text before each theorem states: soundness
  of every session, saves that load, conservation under rearranging, refusals without a trace,
  refinement of the cell map by moves, exactness of trades, refines, crafting, pickups and drops,
  exclusiveness of the roll, round trips of wearing, of the safebox and of frames; for a connection,
  that both ends of an exchange hold the same keys and deliver what they are given however it is cut,
  that a frame runs the callback of its packet and no other, that the game is reached only in order and
  is reached by a client that follows the protocol, and that the bytes of a client have exactly the
  effect of its packets; for the world, that sight is a metric ball or a grid, that attacks kill in the
  number of swings the profile says, that a chased actor stays inside its leash and returns to its
  home, closer on every round, that the registry implements the abstract world step by step, with
  identities distinct, entity ids never reused and the occupancy of every map exact; for tickets and
  quests, what exactly a ticket that passes its checks guarantees, and that the quest store is a register
  for every flag under compare-and-set.

  Premises. The session properties start from a character whose items and quickslots passed the
  ticket checks (\<open>checked_character\<close>) and let a command replace the character only by such a one
  (\<open>checked_request\<close>), its points being an array of 255; payments have fewer than 2^32
  requirements; nothing else is asked of the requests. The code stores a balance it is
  told as it is, so gold stays below the carrier maximum or the largest amount the session was
  told, whichever is greater.

  Bounds. Slices are finite and their length is not bounded by the model; sums that the code keeps
  at a fixed width are shown not to wrap, for requirement lists shorter than 2^32 entries (a Go
  slice that long does not fit a packet). Nothing here needs fuel: every loop of the modelled code
  runs over a slice or over a buffer that shrinks, and is a total function; the loop that serves a
  connection runs over what the network does. Each direction of a secure session is followed for
  2^38 bytes, after which the code's block counter starts again; frames are at most 8192 bytes, the
  bound the loop gives its decoder.

  Not modelled. The server glue in \<open>internal/minimal\<close> (17,000 lines of closures over sockets,
  timers and stores: the callbacks the flows are configured with), which also keeps the list of
  ground items the scopes are given, HTTP and metrics endpoints, migration tools, content
  bundles, the stores on files and in SQL, the memory stores other than that of quests, the
  listener and its table of connections, logging, service start and configuration are I/O around the core. A write to the network sends a whole frame or fails.
  Receivers are never nil: the code answers a nil receiver with the zero value and \<open>false\<close>.
  Goroutines are not modelled: a runtime is used by one caller at a time.
\<close>

end
